(* ===== verification/Prelude.thy ===== *)
theory Prelude
  imports Main "HOL-Library.Word"
begin

text \<open>
  The vocabulary every component shares: the operations of Rust's \<^verbatim>\<open>str\<close> that the sources
  call, the insertion-ordered map behind a JSON object, and the result types.

  A Rust \<^verbatim>\<open>String\<close> is its UTF-8 byte sequence, one \<^typ>\<open>char\<close> per byte.
  Operations whose meaning depends on characters rather than bytes (\<^verbatim>\<open>trim\<close>,
  \<^verbatim>\<open>chars().count()\<close>) are written for that encoding.
\<close>

named_theorems wf_intros \<open>preservation of JSON well-formedness\<close>
named_theorems frame \<open>state components an operation leaves alone\<close>
named_theorems unfold_model \<open>definitions unfolded when a concrete input is evaluated\<close>

type_synonym u16 = "16 word"
type_synonym u64 = "64 word"

section \<open>Strings\<close>

definition starts_with :: "string \<Rightarrow> string \<Rightarrow> bool" where
  "starts_with p s \<longleftrightarrow> take (length p) s = p"

definition ends_with :: "string \<Rightarrow> string \<Rightarrow> bool" where
  "ends_with p s \<longleftrightarrow> starts_with (rev p) (rev s)"

definition strip_prefix :: "string \<Rightarrow> string \<Rightarrow> string option" where
  "strip_prefix p s = (if starts_with p s then Some (drop (length p) s) else None)"

definition strip_suffix :: "string \<Rightarrow> string \<Rightarrow> string option" where
  "strip_suffix p s = (if ends_with p s then Some (take (length s - length p) s) else None)"

text \<open>\<^verbatim>\<open>str::find\<close> with a non-empty string pattern: the first byte offset.\<close>

fun find_sub :: "string \<Rightarrow> string \<Rightarrow> nat option" where
  "find_sub p [] = (if p = [] then Some 0 else None)"
| "find_sub p (c # cs) =
     (if starts_with p (c # cs) then Some 0 else map_option Suc (find_sub p cs))"

definition contains_sub :: "string \<Rightarrow> string \<Rightarrow> bool" where
  "contains_sub p s \<longleftrightarrow> find_sub p s \<noteq> None"

definition split_once :: "string \<Rightarrow> string \<Rightarrow> (string \<times> string) option" where
  "split_once p s =
     (case find_sub p s of
        None \<Rightarrow> None
      | Some i \<Rightarrow> Some (take i s, drop (i + length p) s))"

text \<open>\<^verbatim>\<open>str::split\<close> with a single character: always at least one piece.\<close>

fun split_char :: "char \<Rightarrow> string \<Rightarrow> string list" where
  "split_char d [] = [[]]"
| "split_char d (c # cs) =
     (if c = d then [] # split_char d cs
      else (case split_char d cs of
              [] \<Rightarrow> [[c]]
            | piece # rest \<Rightarrow> (c # piece) # rest))"

lemma split_char_not_Nil [simp]: "split_char d s \<noteq> []"
  by (cases s) (auto split: list.splits)

lemma split_char_append: "d \<notin> set s \<Longrightarrow> split_char d (s @ d # t) = s # split_char d t"
  by (induction s) auto

lemma split_char_single: "d \<notin> set s \<Longrightarrow> split_char d s = [s]"
  by (induction s) auto

fun join :: "string \<Rightarrow> string list \<Rightarrow> string" where
  "join sep [] = []"
| "join sep [s] = s"
| "join sep (s # t # ss) = s @ sep @ join sep (t # ss)"

lemma join_split_char: "join [d] (split_char d s) = s"
proof (induction s)
  case (Cons c cs)
  obtain p ps where s: "split_char d cs = p # ps" by (cases "split_char d cs") auto
  with Cons show ?case by (cases ps) auto
qed simp

text \<open>Pieces never contain the separator.\<close>

lemma split_char_pieces: "p \<in> set (split_char d s) \<Longrightarrow> d \<notin> set p"
proof (induction s arbitrary: p)
  case (Cons c cs)
  then show ?case by (auto split: if_splits list.splits)
qed simp

text \<open>
  Unicode \<^verbatim>\<open>White_Space\<close>, as UTF-8: U+0009 to U+000D, U+0020, U+0085, U+00A0, U+1680,
  U+2000 to U+200A, U+2028, U+2029, U+202F, U+205F, U+3000.
\<close>

definition ws_seqs :: "string list" where
  "ws_seqs =
     [[CHR 0x20], [CHR 0x0A], [CHR 0x09], [CHR 0x0D], [CHR 0x0B], [CHR 0x0C],
      [CHR 0xC2, CHR 0x85], [CHR 0xC2, CHR 0xA0], [CHR 0xE1, CHR 0x9A, CHR 0x80],
      [CHR 0xE2, CHR 0x80, CHR 0x80], [CHR 0xE2, CHR 0x80, CHR 0x81],
      [CHR 0xE2, CHR 0x80, CHR 0x82], [CHR 0xE2, CHR 0x80, CHR 0x83],
      [CHR 0xE2, CHR 0x80, CHR 0x84], [CHR 0xE2, CHR 0x80, CHR 0x85],
      [CHR 0xE2, CHR 0x80, CHR 0x86], [CHR 0xE2, CHR 0x80, CHR 0x87],
      [CHR 0xE2, CHR 0x80, CHR 0x88], [CHR 0xE2, CHR 0x80, CHR 0x89],
      [CHR 0xE2, CHR 0x80, CHR 0x8A], [CHR 0xE2, CHR 0x80, CHR 0xA8],
      [CHR 0xE2, CHR 0x80, CHR 0xA9], [CHR 0xE2, CHR 0x80, CHR 0xAF],
      [CHR 0xE2, CHR 0x81, CHR 0x9F], [CHR 0xE3, CHR 0x80, CHR 0x80]]"

function strip_seqs :: "string list \<Rightarrow> string \<Rightarrow> string" where
  "strip_seqs ws s =
     (case find (\<lambda>w. w \<noteq> [] \<and> starts_with w s) ws of
        None \<Rightarrow> s
      | Some w \<Rightarrow> strip_seqs ws (drop (length w) s))"
  by pat_completeness auto
termination
proof (relation "measure (length \<circ> snd)", goal_cases)
  case 1
  show ?case by simp
next
  case (2 ws s w)
  then have "w \<noteq> []" "starts_with w s" by (auto simp: find_Some_iff)
  then show ?case by (cases s) (auto simp: starts_with_def)
qed

declare strip_seqs.simps [simp del]

definition trim_start :: "string \<Rightarrow> string" where
  "trim_start s = strip_seqs ws_seqs s"

definition trim_end :: "string \<Rightarrow> string" where
  "trim_end s = rev (strip_seqs (map rev ws_seqs) (rev s))"

definition trim :: "string \<Rightarrow> string" where
  "trim s = trim_end (trim_start s)"

text \<open>Text that begins and ends with visible ASCII characters is its own trim.\<close>

definition visible :: "char \<Rightarrow> bool" where
  "visible c \<longleftrightarrow> 33 \<le> (of_char c :: nat) \<and> (of_char c :: nat) \<le> 126"

lemma strip_seqs_id:
  assumes "list_all (\<lambda>w. w = [] \<or> hd w \<noteq> hd s) ws" and "s \<noteq> []"
  shows "strip_seqs ws s = s"
proof -
  have "find (\<lambda>w. w \<noteq> [] \<and> starts_with w s) ws = None"
    using assms by (auto simp: find_None_iff list_all_iff starts_with_def neq_Nil_conv)
  then show ?thesis by (subst strip_seqs.simps) simp
qed

lemma trim_visible:
  assumes "s \<noteq> []" and "visible (hd s)" and "visible (last s)"
  shows "trim s = s"
proof -
  have v: "list_all (\<lambda>w. \<not> visible (hd w) \<and> \<not> visible (hd (rev w))) ws_seqs"
    by (simp add: ws_seqs_def visible_def)
  have "strip_seqs ws_seqs s = s"
    by (rule strip_seqs_id [OF _ assms(1)]) (use v assms(2) in \<open>auto simp: list_all_iff\<close>)
  moreover have "strip_seqs (map rev ws_seqs) (rev s) = rev s"
    by (rule strip_seqs_id) (use v assms(1,3) in \<open>auto simp: list_all_iff hd_rev\<close>)
  ultimately show ?thesis by (simp add: trim_def trim_start_def trim_end_def)
qed

lemma trim_space: "s \<noteq> [] \<Longrightarrow> visible (hd s) \<Longrightarrow> visible (last s) \<Longrightarrow> trim (CHR '' '' # s) = s"
proof -
  assume s: "s \<noteq> []" "visible (hd s)" "visible (last s)"
  have stop: "strip_seqs ws_seqs s = s"
  proof (rule strip_seqs_id [OF _ s(1)])
    have "list_all (\<lambda>w. \<not> visible (hd w)) ws_seqs" by (simp add: ws_seqs_def visible_def)
    then show "list_all (\<lambda>w. w = [] \<or> hd w \<noteq> hd s) ws_seqs" using s(2) by (auto simp: list_all_iff)
  qed
  have "find (\<lambda>w. w \<noteq> [] \<and> starts_with w (CHR '' '' # s)) ws_seqs = Some '' ''"
    by (simp add: ws_seqs_def starts_with_def)
  then have "trim_start (CHR '' '' # s) = strip_seqs ws_seqs s"
    unfolding trim_start_def by (subst strip_seqs.simps) simp
  then have "trim (CHR '' '' # s) = trim s" using stop by (simp add: trim_def trim_start_def)
  then show ?thesis using trim_visible [OF s] by simp
qed

lemma trim_Nil [simp]: "trim [] = []"
proof -
  have "find (\<lambda>w. w \<noteq> [] \<and> starts_with w []) ws = None" for ws
    by (auto simp: find_None_iff starts_with_def)
  then have "strip_seqs ws [] = []" for ws by (subst strip_seqs.simps) simp
  then show ?thesis by (simp add: trim_def trim_start_def trim_end_def)
qed

text \<open>Trimming a given set of single characters (\<^verbatim>\<open>trim_start_matches(c)\<close>).\<close>

definition trim_start_char :: "char \<Rightarrow> string \<Rightarrow> string" where
  "trim_start_char c s = dropWhile (\<lambda>x. x = c) s"

definition trim_end_char :: "char \<Rightarrow> string \<Rightarrow> string" where
  "trim_end_char c s = rev (dropWhile (\<lambda>x. x = c) (rev s))"

text \<open>\<^verbatim>\<open>s.chars().count()\<close>: the bytes that are not UTF-8 continuation bytes.\<close>

definition char_count :: "string \<Rightarrow> nat" where
  "char_count s = length (filter (\<lambda>c. \<not> (128 \<le> (of_char c :: nat) \<and> (of_char c :: nat) < 192)) s)"

definition is_ascii_digit :: "char \<Rightarrow> bool" where
  "is_ascii_digit c \<longleftrightarrow> 48 \<le> (of_char c :: nat) \<and> (of_char c :: nat) \<le> 57"

definition is_ascii_upper :: "char \<Rightarrow> bool" where
  "is_ascii_upper c \<longleftrightarrow> 65 \<le> (of_char c :: nat) \<and> (of_char c :: nat) \<le> 90"

definition is_ascii_lower :: "char \<Rightarrow> bool" where
  "is_ascii_lower c \<longleftrightarrow> 97 \<le> (of_char c :: nat) \<and> (of_char c :: nat) \<le> 122"

definition is_ascii_alphabetic :: "char \<Rightarrow> bool" where
  "is_ascii_alphabetic c \<longleftrightarrow> is_ascii_upper c \<or> is_ascii_lower c"

definition is_ascii_alphanumeric :: "char \<Rightarrow> bool" where
  "is_ascii_alphanumeric c \<longleftrightarrow> is_ascii_alphabetic c \<or> is_ascii_digit c"

definition to_ascii_lowercase :: "string \<Rightarrow> string" where
  "to_ascii_lowercase s = map (\<lambda>c. if is_ascii_upper c then char_of ((of_char c :: nat) + 32) else c) s"

definition replace_char :: "char \<Rightarrow> char \<Rightarrow> string \<Rightarrow> string" where
  "replace_char a b s = map (\<lambda>c. if c = a then b else c) s"

definition newline :: char where
  "newline = CHR 0x0A"

text \<open>
  \<^verbatim>\<open>str::lines\<close>: split at newlines, drop the carriage return of a CRLF ending, and no
  empty last line.
\<close>

definition strip_cr :: "string \<Rightarrow> string" where
  "strip_cr s = (if s \<noteq> [] \<and> last s = CHR 0x0D then butlast s else s)"

definition str_lines :: "string \<Rightarrow> string list" where
  "str_lines s =
     (let ps = split_char newline s
      in map strip_cr (butlast ps) @ (if last ps = [] then [] else [last ps]))"

section \<open>Decimal numbers\<close>

definition digit_char :: "nat \<Rightarrow> char" where
  "digit_char d = char_of (48 + d)"

fun show_nat :: "nat \<Rightarrow> string" where
  "show_nat n = (if n < 10 then [digit_char n] else show_nat (n div 10) @ [digit_char (n mod 10)])"

declare show_nat.simps [simp del]

definition digits_val :: "string \<Rightarrow> nat" where
  "digits_val s = foldl (\<lambda>n c. 10 * n + ((of_char c :: nat) - 48)) 0 s"

text \<open>
  \<^verbatim>\<open>str::parse\<close> for an unsigned type below \<open>2 ^ w\<close>: an optional plus sign, then at
  least one digit and nothing else.
\<close>

definition parse_uint :: "nat \<Rightarrow> string \<Rightarrow> nat option" where
  "parse_uint w s =
     (let ds = (case s of [] \<Rightarrow> [] | c # cs \<Rightarrow> if c = CHR ''+'' then cs else s)
      in if ds \<noteq> [] \<and> list_all is_ascii_digit ds \<and> digits_val ds < 2 ^ w
         then Some (digits_val ds) else None)"

lemma digit_char_props:
  assumes "d < 10"
  shows "is_ascii_digit (digit_char d)" and "(of_char (digit_char d) :: nat) = 48 + d"
  using assms by (simp_all add: is_ascii_digit_def digit_char_def)

lemma show_nat_digits: "list_all is_ascii_digit (show_nat n)"
  by (induction n rule: show_nat.induct) (subst show_nat.simps, auto simp: digit_char_props)

lemma show_nat_not_Nil [simp]: "show_nat n \<noteq> []"
  by (subst show_nat.simps) simp

lemma digits_val_snoc: "digits_val (s @ [c]) = 10 * digits_val s + ((of_char c :: nat) - 48)"
  by (simp add: digits_val_def)

lemma digits_val_show_nat: "digits_val (show_nat n) = n"
proof (induction n rule: show_nat.induct)
  case (1 n)
  show ?case
  proof (cases "n < 10")
    case True
    then show ?thesis by (subst show_nat.simps) (simp add: digits_val_def digit_char_props)
  next
    case False
    with 1 show ?thesis
      by (subst show_nat.simps) (simp add: digits_val_snoc digit_char_props)
  qed
qed

text \<open>Printing a number and parsing it back gives the number.\<close>

lemma parse_show_nat:
  assumes "n < 2 ^ w"
  shows "parse_uint w (show_nat n) = Some n"
proof -
  obtain c cs where s: "show_nat n = c # cs" by (cases "show_nat n") auto
  then have "is_ascii_digit c" using show_nat_digits [of n] by simp
  then have "c \<noteq> CHR ''+''" by (auto simp: is_ascii_digit_def)
  with s have "(case show_nat n of [] \<Rightarrow> [] | c # cs \<Rightarrow> if c = CHR ''+'' then cs else show_nat n) = show_nat n"
    by simp
  with assms show ?thesis
    by (simp add: parse_uint_def Let_def show_nat_digits digits_val_show_nat)
qed

lemma parse_uint_bound: "parse_uint w s = Some n \<Longrightarrow> n < 2 ^ w"
  by (auto simp: parse_uint_def Let_def split: if_splits)

lemma digit_visible: "is_ascii_digit c \<Longrightarrow> visible c"
  by (simp add: is_ascii_digit_def visible_def)

lemma show_nat_visible: "visible (hd (show_nat n))" "visible (last (show_nat n))"
  using show_nat_digits [of n] hd_in_set [OF show_nat_not_Nil] last_in_set [OF show_nat_not_Nil]
  by (auto simp: list_all_iff intro!: digit_visible)

lemma parse_uint_suffix: "\<not> is_ascii_digit c \<Longrightarrow> s \<noteq> [] \<Longrightarrow> parse_uint w (s @ [c]) = None"
  by (cases s) (auto simp: parse_uint_def)

lemma strip_suffix_append: "strip_suffix p (s @ p) = Some s"
  by (simp add: strip_suffix_def ends_with_def starts_with_def)

lemma strip_suffix_other: "p \<noteq> [] \<Longrightarrow> last p \<noteq> c \<Longrightarrow> strip_suffix p (s @ [c]) = None"
  by (cases p rule: rev_cases) (auto simp: strip_suffix_def ends_with_def starts_with_def)

definition show_bool :: "bool \<Rightarrow> string" where
  "show_bool b = (if b then ''true'' else ''false'')"

section \<open>Insertion-ordered maps\<close>

text \<open>
  A JSON object is built by \<^verbatim>\<open>serde_json\<close> with its \<^verbatim>\<open>preserve_order\<close>
  feature (Cargo.lock records its \<^verbatim>\<open>indexmap\<close> dependency): an entry keeps its place when
  its value is replaced, a new key goes last, and a removal moves the last entry into the hole
  (\<^verbatim>\<open>swap_remove\<close>). A \<^verbatim>\<open>HashMap\<close> that the code iterates is the same list, in
  whatever order the hasher gives.
\<close>

type_synonym 'v omap = "(string \<times> 'v) list"

fun om_insert :: "string \<Rightarrow> 'v \<Rightarrow> 'v omap \<Rightarrow> 'v omap" where
  "om_insert k v [] = [(k, v)]"
| "om_insert k v ((k', v') # m) = (if k = k' then (k, v) # m else (k', v') # om_insert k v m)"

definition om_has :: "string \<Rightarrow> 'v omap \<Rightarrow> bool" where
  "om_has k m \<longleftrightarrow> map_of m k \<noteq> None"

fun om_remove :: "string \<Rightarrow> 'v omap \<Rightarrow> 'v omap" where
  "om_remove k [] = []"
| "om_remove k ((k', v') # m) =
     (if k = k' then (if m = [] then [] else last m # butlast m)
      else (k', v') # om_remove k m)"

definition om_insert_all :: "'v omap \<Rightarrow> 'v omap \<Rightarrow> 'v omap" where
  "om_insert_all new m = fold (\<lambda>(k, v) acc. om_insert k v acc) new m"

abbreviation om_keys :: "'v omap \<Rightarrow> string list" where
  "om_keys m \<equiv> map fst m"

abbreviation wf_omap :: "'v omap \<Rightarrow> bool" where
  "wf_omap m \<equiv> distinct (map fst m)"

lemma key_notin: "k \<notin> fst ` set m \<Longrightarrow> e \<in> set m \<Longrightarrow> fst e \<noteq> k"
  by auto

lemma om_insert_lookup [simp]: "map_of (om_insert k v m) = (map_of m)(k \<mapsto> v)"
  by (induction m) (auto simp: fun_eq_iff)

lemma om_insert_keys: "fst ` set (om_insert k v m) = insert k (fst ` set m)"
proof (induction m)
  case (Cons e m)
  obtain k' v' where e: "e = (k', v')" by force
  show ?case
  proof (cases "k = k'")
    case False
    then have "fst ` set (om_insert k v (e # m)) = insert k' (fst ` set (om_insert k v m))"
      by (simp add: e)
    then show ?thesis using Cons.IH by (simp add: e insert_commute)
  qed (simp add: e)
qed simp

lemma om_insert_wf [wf_intros]: "wf_omap m \<Longrightarrow> wf_omap (om_insert k v m)"
  by (induction m) (auto simp: om_insert_keys)

lemma om_insert_not_Nil [simp]: "om_insert k v m \<noteq> []"
  by (cases "(k, v, m)" rule: om_insert.cases) auto

lemma om_insert_values: "(k', v') \<in> set (om_insert k v m) \<Longrightarrow> v' = v \<or> (k', v') \<in> set m"
  by (induction m) (auto split: if_splits)

lemma om_has_insert [simp]: "om_has k (om_insert k' v m) \<longleftrightarrow> k = k' \<or> om_has k m"
  by (auto simp: om_has_def)

lemma set_last_butlast: "m \<noteq> [] \<Longrightarrow> insert (last m) (set (butlast m)) = set m"
  by (metis Un_insert_right append_butlast_last_id list.simps(15) set_append sup_bot.right_neutral empty_set)

lemma mset_last_butlast: "m \<noteq> [] \<Longrightarrow> distinct (last m # butlast m) = distinct m"
  by (metis append_butlast_last_id distinct1_rotate rotate1.simps(2))

lemma om_remove_set: "wf_omap m \<Longrightarrow> set (om_remove k m) = {e \<in> set m. fst e \<noteq> k}"
proof (induction m)
  case (Cons e m)
  obtain k' v' where e: "e = (k', v')" by force
  from Cons.prems have notin: "k' \<notin> fst ` set m" and wf: "wf_omap m" by (auto simp: e)
  show ?case
  proof (cases "k = k'")
    case True
    from notin have eq: "{x \<in> set (e # m). fst x \<noteq> k} = set m" by (auto simp: e True)
    show ?thesis
    proof (cases "m = []")
      case False
      then have "set (om_remove k (e # m)) = insert (last m) (set (butlast m))"
        by (simp add: e True)
      then show ?thesis using set_last_butlast [OF False] eq by simp
    qed (simp add: e True)
  next
    case False
    then have "set (om_remove k (e # m)) = insert e (set (om_remove k m))" by (simp add: e)
    also have "\<dots> = {x \<in> set (e # m). fst x \<noteq> k}" unfolding Cons.IH [OF wf] using False e by auto
    finally show ?thesis .
  qed
qed simp

lemma om_remove_wf [wf_intros]: "wf_omap m \<Longrightarrow> wf_omap (om_remove k m)"
proof (induction m)
  case (Cons e m)
  obtain k' v' where e: "e = (k', v')" by force
  from Cons.prems have notin: "k' \<notin> fst ` set m" and wf: "wf_omap m" by (auto simp: e)
  show ?case
  proof (cases "k = k'")
    case True
    have "wf_omap (last m # butlast m)" if "m \<noteq> []"
    proof -
      have "map fst (last m # butlast m) = last (map fst m) # butlast (map fst m)"
        using that by (simp add: last_map map_butlast)
      then show ?thesis using mset_last_butlast [of "map fst m"] that wf by simp
    qed
    with True show ?thesis by (auto simp: e)
  next
    case False
    with Cons.IH [OF wf] notin show ?thesis by (auto simp: e om_remove_set [OF wf])
  qed
qed simp

lemma om_remove_lookup: "wf_omap m \<Longrightarrow> map_of (om_remove k m) = (map_of m)(k := None)"
proof
  fix x
  assume wf: "wf_omap m"
  note wf' = om_remove_wf [OF wf, of k]
  show "map_of (om_remove k m) x = ((map_of m)(k := None)) x"
  proof (cases "((map_of m)(k := None)) x")
    case None
    then have "x \<notin> fst ` {e \<in> set m. fst e \<noteq> k}"
      by (cases "x = k") (auto simp: map_of_eq_None_iff)
    then have "x \<notin> fst ` set (om_remove k m)" by (simp add: om_remove_set [OF wf])
    with None show ?thesis by (simp add: map_of_eq_None_iff)
  next
    case (Some v)
    then have "(x, v) \<in> set (om_remove k m)"
      by (auto simp: om_remove_set [OF wf] dest: map_of_SomeD split: if_splits)
    with wf' Some show ?thesis by simp
  qed
qed

lemma om_insert_all_lookup: "map_of (om_insert_all new m) k = (case map_of (rev new) k of None \<Rightarrow> map_of m k | Some v \<Rightarrow> Some v)"
  by (induction new arbitrary: m) (auto simp: om_insert_all_def map_add_def split: option.splits)

lemma om_insert_all_wf [wf_intros]: "wf_omap m \<Longrightarrow> wf_omap (om_insert_all new m)"
  by (induction new arbitrary: m) (auto simp: om_insert_all_def intro: om_insert_wf)

lemma om_insert_all_Nil [simp]: "om_insert_all [] m = m"
  by (simp add: om_insert_all_def)

lemma om_insert_all_Cons [simp]: "om_insert_all ((k, v) # new) m = om_insert_all new (om_insert k v m)"
  by (simp add: om_insert_all_def)

lemma om_insert_fresh: "k \<notin> fst ` set m \<Longrightarrow> om_insert k v m = m @ [(k, v)]"
  by (induction m) auto

lemma om_insert_all_fresh:
  "wf_omap new \<Longrightarrow> fst ` set new \<inter> fst ` set m = {} \<Longrightarrow> om_insert_all new m = m @ new"
proof (induction new arbitrary: m)
  case (Cons e new)
  obtain k v where e: "e = (k, v)" by (cases e)
  with Cons.prems have "om_insert k v m = m @ [(k, v)]" by (intro om_insert_fresh) auto
  with Cons e show ?case by (auto simp: image_iff)
qed simp

lemma om_insert_all_values:
  "(k, v) \<in> set (om_insert_all new m) \<Longrightarrow> (\<exists>k'. (k', v) \<in> set new) \<or> (k, v) \<in> set m"
proof (induction new arbitrary: m)
  case (Cons e new)
  obtain k' v' where e: "e = (k', v')" by force
  from Cons.IH [of "om_insert k' v' m"] Cons.prems show ?case
    by (auto simp: e dest: om_insert_values)
qed simp

text \<open>With distinct keys, reversing does not matter for lookup.\<close>

lemma map_of_rev_wf: "wf_omap m \<Longrightarrow> map_of (rev m) = map_of m"
proof
  fix k
  assume wf: "wf_omap m"
  have "set (rev m) = set m" by simp
  moreover have "wf_omap (rev m)" using wf by (simp add: rev_map [symmetric])
  ultimately show "map_of (rev m) k = map_of m k"
    using wf map_of_inject_set [of "rev m" m] by (simp add: fun_eq_iff)
qed

end
