(* ===== verification/Json_Value.thy ===== *)
theory Json_Value
  imports Prelude
begin

text \<open>
  The JSON values that flow through a pipeline, \<^verbatim>\<open>serde_json::Value\<close>, with the accessors
  the sources call (\<^verbatim>\<open>get\<close>, \<^verbatim>\<open>as_str\<close>, \<^verbatim>\<open>as_object_mut\<close>, and so on), and the
  well-formedness invariant that every object in a value has distinct keys.

  A float is kept as its 64 IEEE bits: the runtime never computes with one. Printing a value and
  parsing a text are the library's; they are arguments of the definitions that call them.
\<close>

datatype number = PosInt u64 | NegInt u64 | Float u64

datatype json =
    JNull
  | JBool bool
  | JNumber number
  | JString string
  | JArray "json list"
  | JObject "(string \<times> json) list"

type_synonym json_map = "json omap"

definition json_nat :: "nat \<Rightarrow> json" where
  "json_nat n = JNumber (PosInt (of_nat n))"

definition as_object :: "json \<Rightarrow> json_map option" where
  "as_object j = (case j of JObject m \<Rightarrow> Some m | _ \<Rightarrow> None)"

definition as_array :: "json \<Rightarrow> json list option" where
  "as_array j = (case j of JArray xs \<Rightarrow> Some xs | _ \<Rightarrow> None)"

definition as_str :: "json \<Rightarrow> string option" where
  "as_str j = (case j of JString s \<Rightarrow> Some s | _ \<Rightarrow> None)"

definition as_bool :: "json \<Rightarrow> bool option" where
  "as_bool j = (case j of JBool b \<Rightarrow> Some b | _ \<Rightarrow> None)"

definition as_u64 :: "json \<Rightarrow> u64 option" where
  "as_u64 j = (case j of JNumber (PosInt n) \<Rightarrow> Some n | _ \<Rightarrow> None)"

text \<open>\<^verbatim>\<open>as_i64\<close>: a non-negative integer only when it fits in 63 bits.\<close>

definition as_i64 :: "json \<Rightarrow> int option" where
  "as_i64 j =
     (case j of
        JNumber (PosInt n) \<Rightarrow> if unat n < 2 ^ 63 then Some (uint n) else None
      | JNumber (NegInt n) \<Rightarrow> Some (sint n)
      | _ \<Rightarrow> None)"

definition is_null :: "json \<Rightarrow> bool" where
  "is_null j \<longleftrightarrow> j = JNull"

definition is_object :: "json \<Rightarrow> bool" where
  "is_object j \<longleftrightarrow> as_object j \<noteq> None"

text \<open>\<^verbatim>\<open>Value::get\<close> with a string: only objects have string keys.\<close>

definition json_get :: "string \<Rightarrow> json \<Rightarrow> json option" where
  "json_get k j = (case j of JObject m \<Rightarrow> map_of m k | _ \<Rightarrow> None)"

text \<open>Writing through \<^verbatim>\<open>as_object_mut\<close>: nothing happens to a value that is no object.\<close>

definition map_object :: "(json_map \<Rightarrow> json_map) \<Rightarrow> json \<Rightarrow> json" where
  "map_object f j = (case j of JObject m \<Rightarrow> JObject (f m) | _ \<Rightarrow> j)"

lemmas json_access_defs =
  as_object_def as_array_def as_str_def as_bool_def as_u64_def is_null_def is_object_def
  json_get_def map_object_def

lemma json_get_JObject [simp]: "json_get k (JObject m) = map_of m k"
  by (simp add: json_get_def)

lemma json_get_not_object [simp]:
  "json_get k JNull = None" "json_get k (JBool b) = None" "json_get k (JNumber n) = None"
  "json_get k (JString s) = None" "json_get k (JArray xs) = None"
  by (simp_all add: json_get_def)

lemma as_object_simps [simp]:
  "as_object (JObject m) = Some m" "as_object JNull = None" "as_object (JBool b) = None"
  "as_object (JNumber n) = None" "as_object (JString s) = None" "as_object (JArray xs) = None"
  by (simp_all add: as_object_def)

lemma as_array_simps [simp]:
  "as_array (JArray xs) = Some xs" "as_array JNull = None" "as_array (JBool b) = None"
  "as_array (JNumber n) = None" "as_array (JString s) = None" "as_array (JObject m) = None"
  by (simp_all add: as_array_def)

lemma as_str_simps [simp]:
  "as_str (JString s) = Some s" "as_str JNull = None" "as_str (JBool b) = None"
  "as_str (JNumber n) = None" "as_str (JArray xs) = None" "as_str (JObject m) = None"
  by (simp_all add: as_str_def)

lemma map_object_simps [simp]:
  "map_object f (JObject m) = JObject (f m)" "map_object f JNull = JNull"
  "map_object f (JBool b) = JBool b" "map_object f (JNumber n) = JNumber n"
  "map_object f (JString s) = JString s" "map_object f (JArray xs) = JArray xs"
  by (simp_all add: map_object_def)

lemma as_object_Some_iff: "as_object j = Some m \<longleftrightarrow> j = JObject m"
  by (cases j) auto

lemma as_str_Some_iff: "as_str j = Some s \<longleftrightarrow> j = JString s"
  by (cases j) auto

lemma as_array_Some_iff: "as_array j = Some xs \<longleftrightarrow> j = JArray xs"
  by (cases j) auto

section \<open>Well-formed values\<close>

text \<open>No object of a value has two entries with one key, at any depth.\<close>

fun wf_json :: "json \<Rightarrow> bool" where
  "wf_json (JArray xs) = (\<forall>x \<in> set xs. wf_json x)"
| "wf_json (JObject m) = (wf_omap m \<and> (\<forall>e \<in> set m. wf_json (snd e)))"
| "wf_json _ = True"

lemma wf_json_object_iff:
  "wf_json (JObject m) \<longleftrightarrow> wf_omap m \<and> (\<forall>k v. (k, v) \<in> set m \<longrightarrow> wf_json v)"
  by (auto simp: split_paired_all)

lemma wf_json_get [wf_intros]: "wf_json j \<Longrightarrow> json_get k j = Some v \<Longrightarrow> wf_json v"
  by (cases j) (auto dest: map_of_SomeD)

lemma wf_json_insert [wf_intros]:
  "wf_json (JObject m) \<Longrightarrow> wf_json v \<Longrightarrow> wf_json (JObject (om_insert k v m))"
  unfolding wf_json_object_iff by (blast intro: om_insert_wf dest: om_insert_values)

lemma wf_json_insert_all [wf_intros]:
  "wf_json (JObject m) \<Longrightarrow> wf_json (JObject new) \<Longrightarrow> wf_json (JObject (om_insert_all new m))"
  unfolding wf_json_object_iff by (blast intro: om_insert_all_wf dest: om_insert_all_values)

lemma wf_json_remove [wf_intros]:
  "wf_json (JObject m) \<Longrightarrow> wf_json (JObject (om_remove k m))"
  unfolding wf_json_object_iff using om_remove_set om_remove_wf by fastforce

section \<open>Equality of values\<close>

text \<open>
  \<^verbatim>\<open>==\<close> on values: entries of an object are compared by key, not by position, and a float
  is equal to another as an \<^verbatim>\<open>f64\<close> (so the two zeros are equal; a JSON float is never NaN).
\<close>

definition number_eq :: "number \<Rightarrow> number \<Rightarrow> bool" where
  "number_eq a b =
     (case (a, b) of
        (Float x, Float y) \<Rightarrow> x = y \<or> (x \<in> {0, 0x8000000000000000} \<and> y \<in> {0, 0x8000000000000000})
      | _ \<Rightarrow> a = b)"

lemma size_zip_left [termination_simp]:
  "(a, b) \<in> set (zip xs ys) \<Longrightarrow> size a < Suc (size_list size xs)"
  by (meson le_imp_less_Suc order_refl set_zip_leftD size_list_estimation')

fun json_eq :: "json \<Rightarrow> json \<Rightarrow> bool" where
  "json_eq (JNumber a) (JNumber b) = number_eq a b"
| "json_eq (JArray xs) (JArray ys) =
     (length xs = length ys \<and> (\<forall>(x, y) \<in> set (zip xs ys). json_eq x y))"
| "json_eq (JObject m) (JObject m') =
     (length m = length m' \<and>
      (\<forall>(k, v) \<in> set m. (case map_of m' k of None \<Rightarrow> False | Some v' \<Rightarrow> json_eq v v')))"
| "json_eq a b = (a = b)"

lemma number_eq_refl [simp]: "number_eq a a"
  by (cases a) (auto simp: number_eq_def)

lemma json_eq_refl: "wf_json j \<Longrightarrow> json_eq j j"
proof (induction j)
  case (JArray xs)
  then show ?case by (auto simp: set_zip)
next
  case (JObject m)
  have "case map_of m k of None \<Rightarrow> False | Some v' \<Rightarrow> json_eq v v'" if "(k, v) \<in> set m" for k v
  proof -
    have "map_of m k = Some v" using JObject.prems that by simp
    moreover have "json_eq v v"
      using JObject.IH [of "(k, v)" v] JObject.prems that by auto
    ultimately show ?thesis by simp
  qed
  then show ?case by auto
qed auto

end
