(* ===== verification/Cli_Args.thy ===== *)
theory Cli_Args
  imports Json_Value
begin

text \<open>
  The arguments forwarded to a script (\<^verbatim>\<open>src/cli_args.rs\<close>): the parser of the tokens after
  the separator, and the process-wide default, a cell that is set at most once.
\<close>

record script_args =
  sa_args :: "string list"
  sa_options :: "json omap"

definition default_script_args :: script_args where
  "default_script_args = \<lparr> sa_args = [], sa_options = [] \<rparr>"

definition cli_init_global :: "script_args \<Rightarrow> script_args option \<Rightarrow> script_args option" where
  "cli_init_global parsed cell = (case cell of None \<Rightarrow> Some parsed | Some old \<Rightarrow> Some old)"

definition cli_global :: "script_args option \<Rightarrow> script_args" where
  "cli_global cell = (case cell of None \<Rightarrow> default_script_args | Some a \<Rightarrow> a)"

definition push_arg :: "string \<Rightarrow> script_args \<Rightarrow> script_args" where
  "push_arg tok out = out\<lparr>sa_args := sa_args out @ [tok]\<rparr>"

definition set_option :: "string \<Rightarrow> json \<Rightarrow> script_args \<Rightarrow> script_args" where
  "set_option k v out = out\<lparr>sa_options := om_insert k v (sa_options out)\<rparr>"

text \<open>The loop over the tokens, with the index replaced by the tokens that are left.\<close>

fun parse_tokens :: "string list \<Rightarrow> script_args \<Rightarrow> script_args" where
  "parse_tokens [] out = out"
| "parse_tokens (tok # toks) out =
     (case strip_prefix ''--'' tok of
        None \<Rightarrow> parse_tokens toks (push_arg tok out)
      | Some rest \<Rightarrow>
          if rest = [] then parse_tokens toks (push_arg tok out)
          else case find_sub ''='' rest of
            Some eq_idx \<Rightarrow>
              parse_tokens toks
                (set_option (take eq_idx rest) (JString (drop 1 (drop eq_idx rest))) out)
          | None \<Rightarrow>
              (case toks of
                 [] \<Rightarrow> parse_tokens toks (set_option rest (JBool True) out)
               | next # toks' \<Rightarrow>
                   if starts_with ''--'' next then parse_tokens toks (set_option rest (JBool True) out)
                   else parse_tokens toks' (set_option rest (JString next) out)))"

definition cli_parse :: "string list \<Rightarrow> script_args" where
  "cli_parse tokens = parse_tokens tokens default_script_args"

section \<open>Printing arguments and parsing them back\<close>

text \<open>One argument in the unambiguous spelling.\<close>

datatype cli_item = Positional string | Setting string string | Switch string

fun item_tokens :: "cli_item \<Rightarrow> string list" where
  "item_tokens (Positional s) = [s]"
| "item_tokens (Setting k v) = [''--'' @ k @ ''='' @ v]"
| "item_tokens (Switch k) = [''--'' @ k]"

fun item_valid :: "cli_item \<Rightarrow> bool" where
  "item_valid (Positional s) \<longleftrightarrow> \<not> starts_with ''--'' s"
| "item_valid (Setting k v) \<longleftrightarrow> CHR ''='' \<notin> set k"
| "item_valid (Switch k) \<longleftrightarrow> k \<noteq> [] \<and> CHR ''='' \<notin> set k"

text \<open>A switch takes a positional argument after it as its value, so none may follow it.\<close>

fun items_valid :: "cli_item list \<Rightarrow> bool" where
  "items_valid [] \<longleftrightarrow> True"
| "items_valid [x] \<longleftrightarrow> item_valid x"
| "items_valid (x # y # xs) \<longleftrightarrow>
     item_valid x \<and> items_valid (y # xs) \<and> \<not> ((\<exists>k. x = Switch k) \<and> (\<exists>s. y = Positional s))"

fun item_apply :: "cli_item \<Rightarrow> script_args \<Rightarrow> script_args" where
  "item_apply (Positional s) out = push_arg s out"
| "item_apply (Setting k v) out = set_option k (JString v) out"
| "item_apply (Switch k) out = set_option k (JBool True) out"

lemma find_sub_char:
  "find_sub [c] s = (if c \<in> set s then Some (length (takeWhile (\<lambda>x. x \<noteq> c) s)) else None)"
  by (induction s) (auto simp: starts_with_def)

lemma strip_prefix_append: "strip_prefix p (p @ s) = Some s"
  by (simp add: strip_prefix_def starts_with_def)

lemma items_valid_Cons:
  "items_valid (x # xs) \<Longrightarrow> item_valid x \<and> items_valid xs \<and>
    (\<forall>k s ys. x = Switch k \<longrightarrow> xs \<noteq> Positional s # ys)"
  by (cases xs) auto

lemma parse_items:
  "items_valid items \<Longrightarrow>
   parse_tokens (concat (map item_tokens items)) out = fold item_apply items out"
proof (induction items arbitrary: out)
  case (Cons x items)
  note v = items_valid_Cons [OF Cons.prems]
  note IH = Cons.IH [OF v [THEN conjunct2, THEN conjunct1]]
  show ?case
  proof (cases x)
    case (Positional s)
    with v have "strip_prefix ''--'' s = None" by (simp add: strip_prefix_def)
    with Positional IH show ?thesis by simp
  next
    case (Setting k w)
    with v have k: "takeWhile (\<lambda>x. x \<noteq> CHR ''='') (k @ CHR ''='' # w) = k"
      by (simp add: takeWhile_append)
    have "find_sub ''='' (k @ CHR ''='' # w) = Some (length k)"
      by (simp add: find_sub_char k)
    with Setting IH strip_prefix_append [of "''--''" "k @ CHR ''='' # w"] show ?thesis by simp
  next
    case (Switch k)
    with v have k: "find_sub ''='' k = None" "k \<noteq> []" by (simp_all add: find_sub_char)
    have "parse_tokens (item_tokens (Switch k) @ toks) out = parse_tokens toks (set_option k (JBool True) out)"
      if "toks = [] \<or> starts_with ''--'' (hd toks)" for toks
      using that k strip_prefix_append [of "''--''" k] by (cases toks) auto
    moreover have "concat (map item_tokens items) = [] \<or>
        starts_with ''--'' (hd (concat (map item_tokens items)))"
    proof (cases items)
      case (Cons y ys)
      with v Switch show ?thesis by (cases y) (auto simp: starts_with_def)
    qed simp
    ultimately show ?thesis using Switch IH by simp
  qed
qed simp

text \<open>
  Arguments written as positionals, \<open>--key=value\<close> settings and bare \<open>--key\<close> switches (a
  switch not followed by a positional) are read back exactly: positionals in order, options with
  the last setting of a key winning.
\<close>

theorem cli_args_roundtrip:
  assumes "items_valid items"
  shows "cli_parse (concat (map item_tokens items)) =
    \<lparr> sa_args = concat (map (\<lambda>x. case x of Positional s \<Rightarrow> [s] | _ \<Rightarrow> []) items),
      sa_options = om_insert_all
        (concat (map (\<lambda>x. case x of Positional s \<Rightarrow> [] | Setting k v \<Rightarrow> [(k, JString v)]
                                 | Switch k \<Rightarrow> [(k, JBool True)]) items)) [] \<rparr>"
proof -
  have "fold item_apply items out =
    \<lparr> sa_args = sa_args out @ concat (map (\<lambda>x. case x of Positional s \<Rightarrow> [s] | _ \<Rightarrow> []) items),
      sa_options = om_insert_all
        (concat (map (\<lambda>x. case x of Positional s \<Rightarrow> [] | Setting k v \<Rightarrow> [(k, JString v)]
                                 | Switch k \<Rightarrow> [(k, JBool True)]) items)) (sa_options out) \<rparr>" for out
    by (induction items arbitrary: out)
      (auto simp: push_arg_def set_option_def split: cli_item.split)
  then show ?thesis
    by (simp add: cli_parse_def parse_items [OF assms] default_script_args_def)
qed

theorem cli_args_roundtrip_witness:
  "cli_parse [''Berlin'', ''--units=metric'', ''--verbose'', ''--units=imperial''] =
    \<lparr> sa_args = [''Berlin''], sa_options = [(''units'', JString ''imperial''), (''verbose'', JBool True)] \<rparr>"
  using cli_args_roundtrip [of "[Positional ''Berlin'', Setting ''units'' ''metric'', Switch ''verbose'',
      Setting ''units'' ''imperial'']"]
  by (simp add: starts_with_def)

end
