(* ===== verification/Syntax_Tree.thy ===== *)
theory Syntax_Tree
  imports Prelude
begin

text \<open>
  The abstract syntax of a web pipe program (\<^verbatim>\<open>src/ast/types.rs\<close>): source locations, tag
  expressions, pipelines and the declarations of a program, with the location helpers. Record
  fields carry a prefix naming their struct.
\<close>

section \<open>Source locations\<close>

record source_location =
  loc_line :: nat
  loc_column :: nat
  loc_end_line :: nat
  loc_end_column :: nat
  loc_offset :: nat
  loc_file_path :: "string option"
  loc_module_id :: "nat option"

definition default_location :: source_location where
  "default_location = \<lparr> loc_line = 0, loc_column = 0, loc_end_line = 0, loc_end_column = 0,
     loc_offset = 0, loc_file_path = None, loc_module_id = None \<rparr>"

definition location_new :: "nat \<Rightarrow> nat \<Rightarrow> nat \<Rightarrow> source_location" where
  "location_new line column offset = \<lparr> loc_line = line, loc_column = column,
     loc_end_line = line, loc_end_column = column, loc_offset = offset,
     loc_file_path = None, loc_module_id = None \<rparr>"

definition location_with_file :: "nat \<Rightarrow> nat \<Rightarrow> nat \<Rightarrow> string \<Rightarrow> source_location" where
  "location_with_file line column offset file_path = \<lparr> loc_line = line, loc_column = column,
     loc_end_line = line, loc_end_column = column, loc_offset = offset,
     loc_file_path = Some file_path, loc_module_id = None \<rparr>"

definition location_with_module ::
  "nat \<Rightarrow> nat \<Rightarrow> nat \<Rightarrow> string \<Rightarrow> nat \<Rightarrow> source_location" where
  "location_with_module line column offset file_path module_id = \<lparr> loc_line = line,
     loc_column = column, loc_end_line = line, loc_end_column = column, loc_offset = offset,
     loc_file_path = Some file_path, loc_module_id = Some module_id \<rparr>"

definition set_end :: "nat \<Rightarrow> nat \<Rightarrow> source_location \<Rightarrow> source_location" where
  "set_end end_line end_column l = l\<lparr>loc_end_line := end_line, loc_end_column := end_column\<rparr>"

text \<open>The label of an error message: no label for a location that was never set.\<close>

definition error_label :: "source_location \<Rightarrow> string option" where
  "error_label l =
     (let start_line = loc_line l in
      if start_line = 0 then None
      else
        let end_line = (if loc_end_line l \<ge> start_line then loc_end_line l else start_line);
            line_label = (if end_line > start_line
                          then show_nat start_line @ ''-'' @ show_nat end_line
                          else show_nat start_line)
        in case loc_file_path l of
             Some path \<Rightarrow> if path \<noteq> [] then Some (path @ '':'' @ line_label)
                         else Some (''line '' @ line_label)
           | None \<Rightarrow> Some (''line '' @ line_label))"

lemma error_label_None_iff: "error_label l = None \<longleftrightarrow> loc_line l = 0"
  by (simp add: error_label_def Let_def split: option.splits)

section \<open>Tags\<close>

record tag =
  tag_name :: string
  tag_negated :: bool
  tag_args :: "string list"

datatype tag_expr =
    TagE tag
  | AndE tag_expr tag_expr
  | OrE tag_expr tag_expr

section \<open>Pipelines\<close>

datatype config_type = Backtick | Quoted | Identifier

datatype result_branch_type = BranchOk | BranchCustom string | BranchDefault

record regular_step =
  rs_name :: string
  rs_args :: "string list"
  rs_config :: string
  rs_config_type :: config_type
  rs_config_present :: bool
  rs_condition :: "tag_expr option"
  rs_parsed_join_targets :: "string list option"
  rs_location :: source_location

datatype pipeline = Pipeline (steps: "pipeline_step list")
and pipeline_step =
    RegularStep regular_step
  | ResultStep "result_branch list" source_location
  | IfStep pipeline pipeline "pipeline option" source_location
  | DispatchStep "dispatch_branch list" "pipeline option" source_location
  | ForeachStep string pipeline source_location
and result_branch =
    ResultBranch (rb_type: result_branch_type) (rb_status_code: u16) (rb_pipeline: pipeline)
      (rb_location: source_location)
and dispatch_branch =
    DispatchBranch (db_condition: tag_expr) (db_pipeline: pipeline) (db_location: source_location)

fun step_location :: "pipeline_step \<Rightarrow> source_location" where
  "step_location (RegularStep r) = rs_location r"
| "step_location (ResultStep _ l) = l"
| "step_location (IfStep _ _ _ l) = l"
| "step_location (DispatchStep _ _ l) = l"
| "step_location (ForeachStep _ _ l) = l"

section \<open>Programs\<close>

record import_stmt =
  imp_path :: string
  imp_alias :: string
  imp_location :: source_location

datatype config_value =
    CfgString string
  | CfgEnvVar string "string option"
  | CfgBoolean bool
  | CfgNumber int

record config_property =
  cp_key :: string
  cp_value :: config_value

record config =
  cfg_name :: string
  cfg_properties :: "config_property list"

record named_pipeline =
  np_name :: string
  np_pipeline :: pipeline

record variable =
  var_type :: string
  var_name :: string
  var_value :: string

datatype pipeline_ref = Inline pipeline | Named string

record route =
  rt_method :: string
  rt_path :: string
  rt_pipeline :: pipeline_ref

record query_resolver =
  qr_name :: string
  qr_pipeline :: pipeline

record mutation_resolver =
  mr_name :: string
  mr_pipeline :: pipeline

record type_resolver =
  tr_type_name :: string
  tr_field_name :: string
  tr_pipeline :: pipeline

datatype let_value_format = LetQuoted | LetBacktick | LetBare

datatype condition_type = CondThen | CondAnd

datatype dom_assert_type = DomExists | DomText | DomCount | DomAttribute string

record test_condition =
  tc_condition_type :: condition_type
  tc_field :: string
  tc_header_name :: "string option"
  tc_jq_expr :: "string option"
  tc_comparison :: string
  tc_value :: string
  tc_is_call_assertion :: bool
  tc_call_target :: "string option"
  tc_selector :: "string option"
  tc_dom_assert :: "dom_assert_type option"

record mock =
  mock_target :: string
  mock_return_value :: string

datatype when_clause =
    CallingRoute string string
  | ExecutingPipeline string
  | ExecutingVariable string string

record it_block =
  it_name :: string
  it_mocks :: "mock list"
  it_when :: when_clause
  it_variables :: "(string \<times> string \<times> let_value_format) list"
  it_input :: "string option"
  it_body :: "string option"
  it_headers :: "string option"
  it_cookies :: "string option"
  it_stdin :: "string option"
  it_args :: "string option"
  it_options :: "string option"
  it_conditions :: "test_condition list"
  it_location :: source_location

record describe_block =
  de_name :: string
  de_variables :: "(string \<times> string \<times> let_value_format) list"
  de_mocks :: "mock list"
  de_tests :: "it_block list"
  de_location :: source_location

record program =
  pr_configs :: "config list"
  pr_imports :: "import_stmt list"
  pr_pipelines :: "named_pipeline list"
  pr_variables :: "variable list"
  pr_routes :: "route list"
  pr_describes :: "describe_block list"
  pr_graphql_schema :: "string option"
  pr_queries :: "query_resolver list"
  pr_mutations :: "mutation_resolver list"
  pr_resolvers :: "type_resolver list"
  pr_feature_flags :: "pipeline option"

end
