(* ===== verification/Errors.thy ===== *)
theory Errors
  imports Syntax_Tree Json_Value
begin

text \<open>
  The error type of the runtime (\<^verbatim>\<open>src/error.rs\<close>): how an error is printed, which HTTP
  status and type name it maps to, how the executor attaches a source location to it, and the
  text a failed request shows. The two variants that wrap a foreign error hold its printed form.
\<close>

datatype web_pipe_error =
    Located string web_pipe_error
  | ParseError string
  | RouteNotFound string
  | PipelineNotFound string
  | MiddlewareNotFound string
  | MiddlewareExecutionError string
  | ConfigError string
  | DatabaseError string
  | AuthError string
  | ValidationError string
  | TemplateError string
  | NetworkError string
  | CacheError string
  | ScriptError string
  | IoError string
  | JsonError string
  | InternalError string
  | BadRequest string
  | Unauthorized string
  | Forbidden string
  | NotFound string
  | MethodNotAllowed string
  | Timeout string
  | RateLimitExceeded string
  | ImportNotFound string
  | CircularImport string
  | DuplicateAlias string
  | UndefinedScopedReference string
  | DebuggerError string

fun error_to_string :: "web_pipe_error \<Rightarrow> string" where
  "error_to_string (Located location source) = ''At '' @ location @ '': '' @ error_to_string source"
| "error_to_string (ParseError s) = ''Parse error: '' @ s"
| "error_to_string (RouteNotFound s) = ''Route not found: '' @ s"
| "error_to_string (PipelineNotFound s) = ''Pipeline not found: '' @ s"
| "error_to_string (MiddlewareNotFound s) = ''Middleware not found: '' @ s"
| "error_to_string (MiddlewareExecutionError s) = ''Middleware execution failed: '' @ s"
| "error_to_string (ConfigError s) = ''Configuration error: '' @ s"
| "error_to_string (DatabaseError s) = ''Database error: '' @ s"
| "error_to_string (AuthError s) = ''Authentication error: '' @ s"
| "error_to_string (ValidationError s) = ''Validation error: '' @ s"
| "error_to_string (TemplateError s) = ''Template error: '' @ s"
| "error_to_string (NetworkError s) = ''Network error: '' @ s"
| "error_to_string (CacheError s) = ''Cache error: '' @ s"
| "error_to_string (ScriptError s) = ''Script execution error: '' @ s"
| "error_to_string (IoError s) = ''IO error: '' @ s"
| "error_to_string (JsonError s) = ''JSON error: '' @ s"
| "error_to_string (InternalError s) = ''Internal server error: '' @ s"
| "error_to_string (BadRequest s) = ''Bad request: '' @ s"
| "error_to_string (Unauthorized s) = ''Unauthorized: '' @ s"
| "error_to_string (Forbidden s) = ''Forbidden: '' @ s"
| "error_to_string (NotFound s) = ''Not found: '' @ s"
| "error_to_string (MethodNotAllowed s) = ''Method not allowed: '' @ s"
| "error_to_string (Timeout s) = ''Timeout error: '' @ s"
| "error_to_string (RateLimitExceeded s) = ''Rate limit exceeded: '' @ s"
| "error_to_string (ImportNotFound s) = ''Import not found: '' @ s"
| "error_to_string (CircularImport s) = ''Circular import detected: '' @ s"
| "error_to_string (DuplicateAlias s) = ''Duplicate import alias: '' @ s"
| "error_to_string (UndefinedScopedReference s) = ''Undefined scoped reference: '' @ s"
| "error_to_string (DebuggerError s) = ''Debugger error: '' @ s"

fun status_code :: "web_pipe_error \<Rightarrow> u16" where
  "status_code (Located _ source) = status_code source"
| "status_code (ParseError _) = 400"
| "status_code (RouteNotFound _) = 404"
| "status_code (PipelineNotFound _) = 500"
| "status_code (MiddlewareNotFound _) = 500"
| "status_code (MiddlewareExecutionError _) = 500"
| "status_code (ConfigError _) = 500"
| "status_code (DatabaseError _) = 500"
| "status_code (AuthError _) = 401"
| "status_code (ValidationError _) = 400"
| "status_code (TemplateError _) = 500"
| "status_code (NetworkError _) = 502"
| "status_code (CacheError _) = 500"
| "status_code (ScriptError _) = 500"
| "status_code (IoError _) = 500"
| "status_code (JsonError _) = 400"
| "status_code (InternalError _) = 500"
| "status_code (BadRequest _) = 400"
| "status_code (Unauthorized _) = 401"
| "status_code (Forbidden _) = 403"
| "status_code (NotFound _) = 404"
| "status_code (MethodNotAllowed _) = 405"
| "status_code (Timeout _) = 408"
| "status_code (RateLimitExceeded _) = 429"
| "status_code (ImportNotFound _) = 500"
| "status_code (CircularImport _) = 500"
| "status_code (DuplicateAlias _) = 500"
| "status_code (UndefinedScopedReference _) = 500"
| "status_code (DebuggerError _) = 500"

fun error_type :: "web_pipe_error \<Rightarrow> string" where
  "error_type (Located _ source) = error_type source"
| "error_type (ParseError _) = ''parse_error''"
| "error_type (RouteNotFound _) = ''route_not_found''"
| "error_type (PipelineNotFound _) = ''pipeline_not_found''"
| "error_type (MiddlewareNotFound _) = ''middleware_not_found''"
| "error_type (MiddlewareExecutionError _) = ''middleware_execution_error''"
| "error_type (ConfigError _) = ''config_error''"
| "error_type (DatabaseError _) = ''database_error''"
| "error_type (AuthError _) = ''auth_error''"
| "error_type (ValidationError _) = ''validation_error''"
| "error_type (TemplateError _) = ''template_error''"
| "error_type (NetworkError _) = ''network_error''"
| "error_type (CacheError _) = ''cache_error''"
| "error_type (ScriptError _) = ''script_error''"
| "error_type (IoError _) = ''io_error''"
| "error_type (JsonError _) = ''json_error''"
| "error_type (InternalError _) = ''internal_error''"
| "error_type (BadRequest _) = ''bad_request''"
| "error_type (Unauthorized _) = ''unauthorized''"
| "error_type (Forbidden _) = ''forbidden''"
| "error_type (NotFound _) = ''not_found''"
| "error_type (MethodNotAllowed _) = ''method_not_allowed''"
| "error_type (Timeout _) = ''timeout''"
| "error_type (RateLimitExceeded _) = ''rate_limit_exceeded''"
| "error_type (ImportNotFound _) = ''import_not_found''"
| "error_type (CircularImport _) = ''circular_import''"
| "error_type (DuplicateAlias _) = ''duplicate_alias''"
| "error_type (UndefinedScopedReference _) = ''undefined_scoped_reference''"
| "error_type (DebuggerError _) = ''debugger_error''"

definition with_source_location :: "source_location \<Rightarrow> web_pipe_error \<Rightarrow> web_pipe_error" where
  "with_source_location l e =
     (case error_label l of
        None \<Rightarrow> e
      | Some label \<Rightarrow> (case e of Located _ _ \<Rightarrow> e | other \<Rightarrow> Located label other))"

definition format_middleware_details :: "string \<Rightarrow> string" where
  "format_middleware_details message =
     (case split_once '': '' message of
        Some (summary, payload) \<Rightarrow>
          ''Middleware execution failed, '' @ summary @ '':'' @ [newline] @ payload
      | None \<Rightarrow> ''Middleware execution failed:'' @ [newline] @ message)"

definition display_pipeline_details :: "web_pipe_error \<Rightarrow> string" where
  "display_pipeline_details e =
     (case e of
        Located location source \<Rightarrow>
          (case source of
             MiddlewareExecutionError message \<Rightarrow>
               ''At '' @ location @ [newline] @ format_middleware_details message
           | other \<Rightarrow> ''At '' @ location @ [newline] @ error_to_string other)
      | MiddlewareExecutionError message \<Rightarrow> format_middleware_details message
      | other \<Rightarrow> error_to_string other)"

text \<open>
  The response \<^verbatim>\<open>IntoResponse\<close> builds: the status and the JSON body.
\<close>

definition into_response :: "web_pipe_error \<Rightarrow> u16 \<times> json" where
  "into_response e =
     (status_code e,
      JObject [(''error'', JObject [(''type'', JString (error_type e)),
                                    (''message'', JString (error_to_string e)),
                                    (''status'', JNumber (PosInt (ucast (status_code e))))])])"

section \<open>Locations are attached once\<close>

text \<open>An error the executor built holds at most one location, the innermost.\<close>

fun located_depth :: "web_pipe_error \<Rightarrow> nat" where
  "located_depth (Located _ e) = Suc (located_depth e)"
| "located_depth _ = 0"

lemma with_source_location_depth:
  "located_depth e \<le> 1 \<Longrightarrow> located_depth (with_source_location l e) \<le> 1"
  by (cases e) (auto simp: with_source_location_def split: option.splits)

lemma with_source_location_status [simp]: "status_code (with_source_location l e) = status_code e"
  by (cases e) (auto simp: with_source_location_def split: option.splits)

lemma with_source_location_type [simp]: "error_type (with_source_location l e) = error_type e"
  by (cases e) (auto simp: with_source_location_def split: option.splits)

lemma with_source_location_nested:
  "error_label l \<noteq> None \<Longrightarrow>
   with_source_location l' (with_source_location l e) = with_source_location l e"
  by (cases e) (auto simp: with_source_location_def split: option.splits)

lemma status_code_is_error: "400 \<le> status_code e \<and> status_code e < 600"
  by (induction e) auto

end
