(* ===== verification/Lru.thy ===== *)
theory Lru
  imports Prelude
begin

text \<open>
  The contract of \<^verbatim>\<open>lru::LruCache\<close>, the third-party container behind the response cache and
  the rate limiter. The stores take its operations as an argument, a record \<^verbatim>\<open>lru_ops\<close>;
  the locale \<^verbatim>\<open>lru_cache\<close> states what its documentation promises, in terms of the entries in
  order of recency (the most recently used first, the order of its \<^verbatim>\<open>iter\<close>). In particular
  \<^verbatim>\<open>push\<close> returns the old entry when the key was already there, not only an evicted one.

  A recency-ordered list satisfies the contract, so what is proved from it is not vacuous.
\<close>

record ('l, 'v) lru_ops =
  lru_new :: "nat \<Rightarrow> 'l"
  lru_get :: "string \<Rightarrow> 'l \<Rightarrow> 'v option \<times> 'l"
  lru_get_mut :: "string \<Rightarrow> 'l \<Rightarrow> 'v option \<times> 'l"
  lru_write :: "string \<Rightarrow> 'v \<Rightarrow> 'l \<Rightarrow> 'l"
  lru_peek :: "string \<Rightarrow> 'l \<Rightarrow> 'v option"
  lru_pop :: "string \<Rightarrow> 'l \<Rightarrow> 'v option \<times> 'l"
  lru_pop_lru :: "'l \<Rightarrow> (string \<times> 'v) option \<times> 'l"
  lru_push :: "string \<Rightarrow> 'v \<Rightarrow> 'l \<Rightarrow> (string \<times> 'v) option \<times> 'l"
  lru_put :: "string \<Rightarrow> 'v \<Rightarrow> 'l \<Rightarrow> 'v option \<times> 'l"
  lru_len :: "'l \<Rightarrow> nat"

text \<open>The entries after a key is dropped, moved to the front, or overwritten in place.\<close>

definition drop_key :: "string \<Rightarrow> (string \<times> 'v) list \<Rightarrow> (string \<times> 'v) list" where
  "drop_key k es = filter (\<lambda>e. fst e \<noteq> k) es"

definition promote :: "string \<Rightarrow> (string \<times> 'v) list \<Rightarrow> (string \<times> 'v) list" where
  "promote k es = (case map_of es k of None \<Rightarrow> es | Some v \<Rightarrow> (k, v) # drop_key k es)"

definition overwrite :: "string \<Rightarrow> 'v \<Rightarrow> (string \<times> 'v) list \<Rightarrow> (string \<times> 'v) list" where
  "overwrite k v es = map (\<lambda>e. if fst e = k then (k, v) else e) es"

definition push_entries ::
  "nat \<Rightarrow> string \<Rightarrow> 'v \<Rightarrow> (string \<times> 'v) list \<Rightarrow> (string \<times> 'v) option \<times> (string \<times> 'v) list" where
  "push_entries cap k v es =
     (case map_of es k of
        Some old \<Rightarrow> (Some (k, old), (k, v) # drop_key k es)
      | None \<Rightarrow>
          if length es < cap then (None, (k, v) # es)
          else (Some (last es), (k, v) # butlast es))"

locale lru_cache =
  fixes ops :: "('l, 'v) lru_ops"
    and ok :: "'l \<Rightarrow> bool"
    and entries :: "'l \<Rightarrow> (string \<times> 'v) list"
    and cap :: "'l \<Rightarrow> nat"
  assumes new_ok: "0 < n \<Longrightarrow> ok (lru_new ops n)"
    and new_entries: "0 < n \<Longrightarrow> entries (lru_new ops n) = []"
    and new_cap: "0 < n \<Longrightarrow> cap (lru_new ops n) = n"
    and distinct_keys: "ok l \<Longrightarrow> wf_omap (entries l)"
    and within_cap: "ok l \<Longrightarrow> length (entries l) \<le> cap l"
    and cap_pos: "ok l \<Longrightarrow> 0 < cap l"
    and get: "ok l \<Longrightarrow> lru_get ops k l = (r, l') \<Longrightarrow>
      r = map_of (entries l) k \<and> ok l' \<and> entries l' = promote k (entries l) \<and> cap l' = cap l"
    and get_mut: "ok l \<Longrightarrow> lru_get_mut ops k l = (r, l') \<Longrightarrow>
      r = map_of (entries l) k \<and> ok l' \<and> entries l' = promote k (entries l) \<and> cap l' = cap l"
    and write_through: "ok l \<Longrightarrow>
      ok (lru_write ops k v l) \<and> entries (lru_write ops k v l) = overwrite k v (entries l) \<and>
      cap (lru_write ops k v l) = cap l"
    and peek: "ok l \<Longrightarrow> lru_peek ops k l = map_of (entries l) k"
    and pop: "ok l \<Longrightarrow> lru_pop ops k l = (r, l') \<Longrightarrow>
      r = map_of (entries l) k \<and> ok l' \<and> entries l' = drop_key k (entries l) \<and> cap l' = cap l"
    and pop_lru: "ok l \<Longrightarrow> lru_pop_lru ops l = (e, l') \<Longrightarrow>
      e = (if entries l = [] then None else Some (last (entries l))) \<and> ok l' \<and>
      entries l' = butlast (entries l) \<and> cap l' = cap l"
    and push: "ok l \<Longrightarrow> lru_push ops k v l = (e, l') \<Longrightarrow>
      (e, entries l') = push_entries (cap l) k v (entries l) \<and> ok l' \<and> cap l' = cap l"
    and put: "ok l \<Longrightarrow> lru_put ops k v l = (old, l') \<Longrightarrow>
      old = map_of (entries l) k \<and> entries l' = snd (push_entries (cap l) k v (entries l)) \<and>
      ok l' \<and> cap l' = cap l"
    and len: "ok l \<Longrightarrow> lru_len ops l = length (entries l)"

section \<open>Lookup after each operation\<close>

lemma map_of_drop_key [simp]: "map_of (drop_key k es) = (map_of es)(k := None)"
  by (induction es) (auto simp: drop_key_def fun_eq_iff)

lemma map_of_promote [simp]: "map_of (promote k es) = map_of es"
  by (auto simp: promote_def fun_eq_iff split: option.splits)

lemma map_of_overwrite:
  "map_of (overwrite k v es) x = (if x = k \<and> map_of es k \<noteq> None then Some v else map_of es x)"
  by (induction es) (auto simp: overwrite_def)

lemma set_drop_key: "set (drop_key k es) = {e \<in> set es. fst e \<noteq> k}"
  by (auto simp: drop_key_def)

lemma wf_drop_key: "wf_omap es \<Longrightarrow> wf_omap (drop_key k es)"
  unfolding drop_key_def by (induction es) auto

lemma wf_promote: "wf_omap es \<Longrightarrow> wf_omap (promote k es)"
  by (auto simp: promote_def wf_drop_key set_drop_key split: option.splits)

lemma keys_overwrite: "map fst (overwrite k v es) = map fst es"
  by (induction es) (auto simp: overwrite_def)

lemma length_drop_key: "wf_omap es \<Longrightarrow> map_of es k = Some v \<Longrightarrow> Suc (length (drop_key k es)) = length es"
proof (induction es)
  case (Cons e es)
  then show ?case
  proof (cases "fst e = k")
    case True
    with Cons.prems have "\<forall>x \<in> set es. fst x \<noteq> k" using key_notin [of k es] by auto
    then have "drop_key k es = es" by (simp add: drop_key_def)
    with True show ?thesis by (simp add: drop_key_def)
  next
    case False
    with Cons show ?thesis by (cases e) (simp add: drop_key_def)
  qed
qed simp

lemma length_drop_key_le: "length (drop_key k es) \<le> length es"
  by (simp add: drop_key_def)

lemma length_overwrite [simp]: "length (overwrite k v es) = length es"
  by (simp add: overwrite_def)

lemma length_promote: "wf_omap es \<Longrightarrow> length (promote k es) = length es"
  by (auto simp: promote_def length_drop_key split: option.splits)

lemma wf_butlast: "wf_omap es \<Longrightarrow> wf_omap (butlast es)"
  by (simp add: map_butlast distinct_butlast)

lemma wf_push_entries:
  assumes "wf_omap es" and "push_entries cap k v es = (r, es')"
  shows "wf_omap es'"
proof (cases "map_of es k")
  case None
  then have "k \<notin> fst ` set es" by (simp add: map_of_eq_None_iff)
  then have "k \<notin> fst ` set (butlast es)" by (auto dest: in_set_butlastD)
  with \<open>k \<notin> fst ` set es\<close> assms None show ?thesis
    by (auto simp: push_entries_def wf_butlast split: if_splits)
next
  case (Some old)
  with assms show ?thesis by (auto simp: push_entries_def wf_drop_key set_drop_key)
qed

lemma length_push_entries:
  assumes "wf_omap es" and "length es \<le> cap" and "0 < cap" and "push_entries cap k v es = (r, es')"
  shows "length es' \<le> cap"
  using assms length_drop_key [OF assms(1), of k]
  by (auto simp: push_entries_def split: option.splits if_splits)

lemma push_entries_self:
  "push_entries cap k v es = (r, es') \<Longrightarrow> map_of es' k = Some v"
  by (auto simp: push_entries_def split: option.splits if_splits)

section \<open>A list in order of recency is such a container\<close>

type_synonym 'v list_lru = "nat \<times> (string \<times> 'v) list"

definition list_lru :: "('v list_lru, 'v) lru_ops" where
  "list_lru = \<lparr>
     lru_new = (\<lambda>n. (n, [])),
     lru_get = (\<lambda>k (c, es). (map_of es k, (c, promote k es))),
     lru_get_mut = (\<lambda>k (c, es). (map_of es k, (c, promote k es))),
     lru_write = (\<lambda>k v (c, es). (c, overwrite k v es)),
     lru_peek = (\<lambda>k (c, es). map_of es k),
     lru_pop = (\<lambda>k (c, es). (map_of es k, (c, drop_key k es))),
     lru_pop_lru = (\<lambda>(c, es). (if es = [] then None else Some (last es), (c, butlast es))),
     lru_push = (\<lambda>k v (c, es). let (r, es') = push_entries c k v es in (r, (c, es'))),
     lru_put = (\<lambda>k v (c, es). (map_of es k, (c, snd (push_entries c k v es)))),
     lru_len = (\<lambda>(c, es). length es) \<rparr>"

definition list_lru_ok :: "'v list_lru \<Rightarrow> bool" where
  "list_lru_ok l \<longleftrightarrow> 0 < fst l \<and> wf_omap (snd l) \<and> length (snd l) \<le> fst l"

lemma list_lru_promote:
  "list_lru_ok (c, es) \<Longrightarrow> list_lru_ok (c, promote k es)"
  by (simp add: list_lru_ok_def wf_promote length_promote)

lemma list_lru_push:
  "list_lru_ok (c, es) \<Longrightarrow> push_entries c k v es = (r, es') \<Longrightarrow> list_lru_ok (c, es')"
  unfolding list_lru_ok_def by (auto dest: wf_push_entries length_push_entries)

interpretation list_lru: lru_cache list_lru list_lru_ok snd fst
proof (unfold_locales, goal_cases)
  case (7 l k r l')
  then show ?case
    by (auto simp: list_lru_def list_lru_promote split: prod.splits)
next
  case (8 l k r l')
  then show ?case
    by (auto simp: list_lru_def list_lru_promote split: prod.splits)
next
  case (9 l k v)
  then show ?case
    by (auto simp: list_lru_def list_lru_ok_def keys_overwrite split: prod.splits)
next
  case (11 l k r l')
  then show ?case
    by (auto simp: list_lru_def list_lru_ok_def wf_drop_key split: prod.splits
        intro: order_trans [OF length_drop_key_le])
next
  case (13 l k v r l')
  then show ?case
    by (auto simp: list_lru_def intro: list_lru_push split: prod.splits)
next
  case (14 l k v old l')
  then show ?case
    by (auto simp: list_lru_def intro: list_lru_push [OF _ prod.collapse [symmetric]] split: prod.splits)
qed (auto simp: list_lru_def list_lru_ok_def wf_butlast)

end
