(* ===== verification/Cache_Store.thy ===== *)
theory Cache_Store
  imports Lru Json_Value
begin

text \<open>
  The response cache shared by all requests (\<^verbatim>\<open>CacheStore\<close> of
  \<^verbatim>\<open>src/runtime/context.rs\<close>): lookup with stale-while-revalidate, the refresh slot, and
  insertion with the per-entry and total size limits. Instants are nanoseconds, durations are
  seconds as in the code; the instant of a call and the estimated size of a body are arguments,
  as are the operations of the LRU container.

  Time-to-live values are taken to be small enough for the sums with the current instant to be
  representable, as the code does.
\<close>

definition nanos :: "nat \<Rightarrow> nat" where
  "nanos secs = secs * 1000000000"

definition as_secs :: "nat \<Rightarrow> nat" where
  "as_secs d = d div 1000000000"

record cached_response =
  cr_body :: json
  cr_content_type :: string
  cr_status_code :: "u16 option"

record cache_entry =
  ce_response :: cached_response
  ce_fresh_until :: nat
  ce_stale_until :: nat
  ce_refresh_started :: "nat option"
  ce_size_bytes :: nat

datatype cache_lookup =
    Fresh cached_response
  | Stale cached_response
  | Refresh cached_response
  | Miss

record 'l cache_store =
  cs_inner :: 'l
  cs_default_ttl_secs :: nat
  cs_max_entry_size :: nat
  cs_max_total_size :: nat
  cs_swr_grace_secs :: nat
  cs_refresh_takeover_secs :: nat
  cs_current_size :: nat

record cache_stats =
  st_entry_count :: nat
  st_total_size_bytes :: nat
  st_max_entry_size :: nat
  st_max_total_size :: nat

section \<open>Construction\<close>

definition DEFAULT_MAX_ENTRY_SIZE :: nat where
  "DEFAULT_MAX_ENTRY_SIZE = 1048576"

definition DEFAULT_MAX_TOTAL_SIZE :: nat where
  "DEFAULT_MAX_TOTAL_SIZE = 10485760"

definition cache_new_with_limits ::
  "('l, cache_entry) lru_ops \<Rightarrow> nat \<Rightarrow> nat \<Rightarrow> nat \<Rightarrow> nat \<Rightarrow> 'l cache_store" where
  "cache_new_with_limits ops max_entries default_ttl max_entry_size max_total_size = \<lparr>
     cs_inner = lru_new ops (if max_entries = 0 then 1024 else max_entries),
     cs_default_ttl_secs = default_ttl,
     cs_max_entry_size = max_entry_size,
     cs_max_total_size = max_total_size,
     cs_swr_grace_secs = 30,
     cs_refresh_takeover_secs = 30,
     cs_current_size = 0 \<rparr>"

definition cache_new :: "('l, cache_entry) lru_ops \<Rightarrow> nat \<Rightarrow> nat \<Rightarrow> 'l cache_store" where
  "cache_new ops max_entries default_ttl =
     cache_new_with_limits ops max_entries default_ttl DEFAULT_MAX_ENTRY_SIZE DEFAULT_MAX_TOTAL_SIZE"

definition with_swr_grace :: "nat \<Rightarrow> 'l cache_store \<Rightarrow> 'l cache_store" where
  "with_swr_grace secs s = s\<lparr>cs_swr_grace_secs := secs\<rparr>"

definition with_refresh_takeover :: "nat \<Rightarrow> 'l cache_store \<Rightarrow> 'l cache_store" where
  "with_refresh_takeover secs s = s\<lparr>cs_refresh_takeover_secs := secs\<rparr>"

section \<open>Operations\<close>

definition cache_lookup ::
  "('l, cache_entry) lru_ops \<Rightarrow> nat \<Rightarrow> string \<Rightarrow> 'l cache_store \<Rightarrow> cache_lookup \<times> 'l cache_store" where
  "cache_lookup ops now key s =
     (case lru_get_mut ops key (cs_inner s) of
        (None, l) \<Rightarrow> (Miss, s\<lparr>cs_inner := l\<rparr>)
      | (Some entry, l) \<Rightarrow>
          if now < ce_fresh_until entry then (Fresh (ce_response entry), s\<lparr>cs_inner := l\<rparr>)
          else if now < ce_stale_until entry then
            (let can_take_over =
                   (case ce_refresh_started entry of
                      None \<Rightarrow> True
                    | Some started \<Rightarrow> as_secs (now - started) \<ge> cs_refresh_takeover_secs s)
             in if can_take_over
                then (Refresh (ce_response entry),
                      s\<lparr>cs_inner := lru_write ops key (entry\<lparr>ce_refresh_started := Some now\<rparr>) l\<rparr>)
                else (Stale (ce_response entry), s\<lparr>cs_inner := l\<rparr>))
          else
            (case lru_pop ops key l of
               (Some removed, l') \<Rightarrow>
                 (Miss, s\<lparr>cs_inner := l', cs_current_size := cs_current_size s - ce_size_bytes removed\<rparr>)
             | (None, l') \<Rightarrow> (Miss, s\<lparr>cs_inner := l'\<rparr>)))"

definition clear_refresh ::
  "('l, cache_entry) lru_ops \<Rightarrow> string \<Rightarrow> 'l cache_store \<Rightarrow> 'l cache_store" where
  "clear_refresh ops key s =
     (case lru_get_mut ops key (cs_inner s) of
        (Some entry, l) \<Rightarrow>
          s\<lparr>cs_inner := lru_write ops key (entry\<lparr>ce_refresh_started := None\<rparr>) l\<rparr>
      | (None, l) \<Rightarrow> s\<lparr>cs_inner := l\<rparr>)"

text \<open>
  The eviction loop. Each round removes an entry, so one more round than there are entries is
  enough; the flag says whether there is room now.
\<close>

fun evict_until ::
  "('l, cache_entry) lru_ops \<Rightarrow> nat \<Rightarrow> nat \<Rightarrow> nat \<Rightarrow> 'l \<Rightarrow> nat \<Rightarrow> (bool \<times> 'l \<times> nat) option" where
  "evict_until ops max_total entry_size 0 l sz = None"
| "evict_until ops max_total entry_size (Suc fuel) l sz =
     (if sz + entry_size > max_total then
        (case lru_pop_lru ops l of
           (Some (_, evicted), l') \<Rightarrow>
             evict_until ops max_total entry_size fuel l' (sz - ce_size_bytes evicted)
         | (None, l') \<Rightarrow> Some (False, l', sz))
      else Some (True, l, sz))"

definition new_entry :: "nat \<Rightarrow> nat \<Rightarrow> nat \<Rightarrow> nat \<Rightarrow> cached_response \<Rightarrow> cache_entry" where
  "new_entry now ttl swr_grace_secs entry_size response =
     \<lparr> ce_response = response, ce_fresh_until = now + nanos ttl,
       ce_stale_until = now + nanos (ttl + swr_grace_secs),
       ce_refresh_started = None, ce_size_bytes = entry_size \<rparr>"

lemma new_entry_simps [simp]:
  "ce_response (new_entry now ttl g n r) = r"
  "ce_fresh_until (new_entry now ttl g n r) = now + nanos ttl"
  "ce_stale_until (new_entry now ttl g n r) = now + nanos (ttl + g)"
  "ce_refresh_started (new_entry now ttl g n r) = None"
  "ce_size_bytes (new_entry now ttl g n r) = n"
  by (simp_all add: new_entry_def)

definition insert_entry ::
  "('l, cache_entry) lru_ops \<Rightarrow> nat \<Rightarrow> nat \<Rightarrow> nat \<Rightarrow> string \<Rightarrow> cached_response \<Rightarrow> 'l cache_store \<Rightarrow>
   'l cache_store" where
  "insert_entry ops now ttl entry_size key response s =
     (let entry = new_entry now ttl (cs_swr_grace_secs s) entry_size response;
          (pushed, l) = lru_push ops key entry (cs_inner s);
          sz = (case pushed of
                    Some (_, evicted) \<Rightarrow> cs_current_size s - ce_size_bytes evicted
                  | None \<Rightarrow> cs_current_size s)
      in s\<lparr>cs_inner := l, cs_current_size := sz + entry_size\<rparr>)"

definition put_response ::
  "('l, cache_entry) lru_ops \<Rightarrow> (json \<Rightarrow> nat) \<Rightarrow> nat \<Rightarrow> string \<Rightarrow> cached_response \<Rightarrow> nat option \<Rightarrow>
   'l cache_store \<Rightarrow> 'l cache_store option" where
  "put_response ops estimate_size now key response ttl_secs s =
     (let ttl = (case ttl_secs of None \<Rightarrow> cs_default_ttl_secs s | Some t \<Rightarrow> t) in
      if ttl = 0 then Some s
      else
        let entry_size = estimate_size (cr_body response) in
        if entry_size > cs_max_entry_size s then Some s
        else
          let sz = (case lru_peek ops key (cs_inner s) of
                        Some old_entry \<Rightarrow> cs_current_size s - ce_size_bytes old_entry
                      | None \<Rightarrow> cs_current_size s)
          in case evict_until ops (cs_max_total_size s) entry_size
                    (Suc (lru_len ops (cs_inner s))) (cs_inner s) sz of
               None \<Rightarrow> None
             | Some (room, l, sz') \<Rightarrow>
                 (let s' = s\<lparr>cs_inner := l, cs_current_size := sz'\<rparr>
                  in if room then Some (insert_entry ops now ttl entry_size key response s')
                     else Some s'))"

definition cache_stats_of :: "('l, cache_entry) lru_ops \<Rightarrow> 'l cache_store \<Rightarrow> cache_stats" where
  "cache_stats_of ops s = \<lparr> st_entry_count = lru_len ops (cs_inner s),
     st_total_size_bytes = cs_current_size s, st_max_entry_size = cs_max_entry_size s,
     st_max_total_size = cs_max_total_size s \<rparr>"

lemmas cache_op_defs = cache_lookup_def clear_refresh_def put_response_def insert_entry_def

section \<open>Invariants\<close>

definition stored_size :: "(string \<times> cache_entry) list \<Rightarrow> nat" where
  "stored_size es = sum_list (map (\<lambda>e. ce_size_bytes (snd e)) es)"

lemma stored_size_simps [simp]:
  "stored_size [] = 0"
  "stored_size (e # es) = ce_size_bytes (snd e) + stored_size es"
  by (simp_all add: stored_size_def)

lemma stored_size_butlast:
  "es \<noteq> [] \<Longrightarrow> stored_size es = stored_size (butlast es) + ce_size_bytes (snd (last es))"
  by (induction es) auto

lemma stored_size_drop_key:
  "wf_omap es \<Longrightarrow>
   stored_size es = stored_size (drop_key k es) +
     (case map_of es k of None \<Rightarrow> 0 | Some e \<Rightarrow> ce_size_bytes e)"
proof (induction es)
  case (Cons e es)
  show ?case
  proof (cases "fst e = k")
    case True
    with Cons.prems have "map_of es k = None" by (auto simp: map_of_eq_None_iff)
    with Cons True show ?thesis by (cases e) (auto simp: drop_key_def)
  next
    case False
    with Cons show ?thesis by (cases e) (auto simp: drop_key_def split: option.splits)
  qed
qed (simp add: drop_key_def)

lemma stored_size_promote: "wf_omap es \<Longrightarrow> stored_size (promote k es) = stored_size es"
  using stored_size_drop_key [of es k] by (auto simp: promote_def split: option.splits)

lemma stored_size_overwrite:
  "wf_omap es \<Longrightarrow> map_of es k = Some e \<Longrightarrow> ce_size_bytes e' = ce_size_bytes e \<Longrightarrow>
   stored_size (overwrite k e' es) = stored_size es"
proof (induction es)
  case (Cons x es)
  show ?case
  proof (cases "fst x = k")
    case True
    with Cons.prems have "overwrite k e' es = es"
      using key_notin [of k es] by (auto simp: overwrite_def intro!: map_idI)
    with True Cons.prems show ?thesis by (cases x) (simp add: overwrite_def)
  next
    case False
    with Cons show ?thesis by (cases x) (simp add: overwrite_def)
  qed
qed simp

lemma stored_size_append [simp]: "stored_size (xs @ ys) = stored_size xs + stored_size ys"
  by (simp add: stored_size_def)

lemma drop_key_append [simp]: "drop_key k (xs @ ys) = drop_key k xs @ drop_key k ys"
  by (simp add: drop_key_def)

lemma stored_size_drop_key_butlast:
  assumes "es \<noteq> []"
  shows "stored_size (drop_key k es) = stored_size (drop_key k (butlast es)) +
    (if fst (last es) = k then 0 else ce_size_bytes (snd (last es)))"
proof -
  have "drop_key k es = drop_key k (butlast es) @ drop_key k [last es]"
    using append_butlast_last_id [OF assms] by (metis drop_key_append)
  then show ?thesis by (simp add: drop_key_def)
qed

lemma drop_key_absent: "k \<notin> fst ` set es \<Longrightarrow> drop_key k es = es"
  unfolding drop_key_def by (rule filter_True) (use key_notin in blast)

text \<open>What the size counter is worth: never more than the bytes actually held.\<close>

definition size_bounded :: "('l \<Rightarrow> (string \<times> cache_entry) list) \<Rightarrow> 'l cache_store \<Rightarrow> bool" where
  "size_bounded entries s \<longleftrightarrow> cs_current_size s \<le> stored_size (entries (cs_inner s))"

text \<open>What it should be: exactly those bytes, within the total limit.\<close>

definition size_exact :: "('l \<Rightarrow> (string \<times> cache_entry) list) \<Rightarrow> 'l cache_store \<Rightarrow> bool" where
  "size_exact entries s \<longleftrightarrow>
     cs_current_size s = stored_size (entries (cs_inner s)) \<and>
     stored_size (entries (cs_inner s)) \<le> cs_max_total_size s"

definition all_small :: "nat \<Rightarrow> (string \<times> cache_entry) list \<Rightarrow> bool" where
  "all_small n es \<longleftrightarrow> list_all (\<lambda>e. ce_size_bytes (snd e) \<le> n) es"

definition entries_small :: "('l \<Rightarrow> (string \<times> cache_entry) list) \<Rightarrow> 'l cache_store \<Rightarrow> bool" where
  "entries_small entries s \<longleftrightarrow> all_small (cs_max_entry_size s) (entries (cs_inner s))"

lemma all_small_subset: "all_small n es \<Longrightarrow> set es' \<subseteq> set es \<Longrightarrow> all_small n es'"
  by (auto simp: all_small_def list_all_iff)

lemma all_small_drop_key: "all_small n es \<Longrightarrow> all_small n (drop_key k es)"
  by (rule all_small_subset) (auto simp: set_drop_key)

lemma all_small_promote: "all_small n es \<Longrightarrow> all_small n (promote k es)"
  by (rule all_small_subset) (auto simp: promote_def set_drop_key dest: map_of_SomeD split: option.splits)

lemma all_small_lookup: "all_small n es \<Longrightarrow> map_of es k = Some e \<Longrightarrow> ce_size_bytes e \<le> n"
  by (auto simp: all_small_def list_all_iff dest!: map_of_SomeD)

lemma all_small_overwrite:
  "all_small n es \<Longrightarrow> ce_size_bytes e \<le> n \<Longrightarrow> all_small n (overwrite k e es)"
  by (auto simp: all_small_def list_all_iff overwrite_def)

text \<open>An operation leaves the limits alone.\<close>

definition limits_kept :: "('l \<Rightarrow> nat) \<Rightarrow> 'l cache_store \<Rightarrow> 'l cache_store \<Rightarrow> bool" where
  "limits_kept cap s s' \<longleftrightarrow> cap (cs_inner s') = cap (cs_inner s) \<and>
     cs_max_entry_size s' = cs_max_entry_size s \<and> cs_max_total_size s' = cs_max_total_size s \<and>
     cs_refresh_takeover_secs s' = cs_refresh_takeover_secs s \<and>
     cs_swr_grace_secs s' = cs_swr_grace_secs s \<and> cs_default_ttl_secs s' = cs_default_ttl_secs s"

lemma limits_kept_refl [simp]: "limits_kept cap s s"
  by (simp add: limits_kept_def)

lemma limits_kept_trans: "limits_kept cap s s' \<Longrightarrow> limits_kept cap s' s'' \<Longrightarrow> limits_kept cap s s''"
  by (simp add: limits_kept_def)

text \<open>Sequences of operations, as concurrent requests issue them under the store's lock.\<close>

datatype cache_op =
    OpLookup nat string
  | OpClear string
  | OpPut nat string cached_response "nat option"

text \<open>Looking up within the takeover time, or working on another key.\<close>

fun op_leaves_slot :: "nat \<Rightarrow> nat \<Rightarrow> string \<Rightarrow> cache_op \<Rightarrow> bool" where
  "op_leaves_slot takeover t0 key (OpLookup now _) = (as_secs (now - t0) < takeover)"
| "op_leaves_slot takeover t0 key (OpClear k) = (k \<noteq> key)"
| "op_leaves_slot takeover t0 key (OpPut _ k _ _) = (k \<noteq> key)"

fun cache_apply ::
  "('l, cache_entry) lru_ops \<Rightarrow> (json \<Rightarrow> nat) \<Rightarrow> cache_op \<Rightarrow> 'l cache_store \<Rightarrow> 'l cache_store option" where
  "cache_apply ops estimate (OpLookup now k) s = Some (snd (cache_lookup ops now k s))"
| "cache_apply ops estimate (OpClear k) s = Some (clear_refresh ops k s)"
| "cache_apply ops estimate (OpPut now k resp ttl) s = put_response ops estimate now k resp ttl s"

fun cache_run ::
  "('l, cache_entry) lru_ops \<Rightarrow> (json \<Rightarrow> nat) \<Rightarrow> cache_op list \<Rightarrow> 'l cache_store \<Rightarrow> 'l cache_store option" where
  "cache_run ops estimate [] s = Some s"
| "cache_run ops estimate (x # xs) s =
     (case cache_apply ops estimate x s of None \<Rightarrow> None | Some s' \<Rightarrow> cache_run ops estimate xs s')"

section \<open>The store over any container that keeps the LRU contract\<close>

text \<open>A condition on every cached body.\<close>

definition cache_bodies ::
  "('l \<Rightarrow> bool) \<Rightarrow> ('l \<Rightarrow> (string \<times> cache_entry) list) \<Rightarrow> (json \<Rightarrow> bool) \<Rightarrow> 'l cache_store \<Rightarrow> bool" where
  "cache_bodies ok entries P s \<longleftrightarrow> ok (cs_inner s) \<and>
     (\<forall>k e. map_of (entries (cs_inner s)) k = Some e \<longrightarrow> P (cr_body (ce_response e)))"

locale response_cache = lru_cache ops ok entries cap
  for ops :: "('l, cache_entry) lru_ops" and ok entries cap
begin

text \<open>The outcome of a lookup and its effect on every key.\<close>

lemma lookup_spec:
  assumes "ok (cs_inner s)" and "cache_lookup ops now key s = (r, s')"
  shows "ok (cs_inner s') \<and> cap (cs_inner s') = cap (cs_inner s) \<and>
    (case map_of (entries (cs_inner s)) key of
       None \<Rightarrow> r = Miss \<and> map_of (entries (cs_inner s')) = map_of (entries (cs_inner s))
     | Some e \<Rightarrow>
         if now < ce_fresh_until e then
           r = Fresh (ce_response e) \<and> map_of (entries (cs_inner s')) = map_of (entries (cs_inner s))
         else if now < ce_stale_until e then
           (if ce_refresh_started e = None \<or>
               as_secs (now - the (ce_refresh_started e)) \<ge> cs_refresh_takeover_secs s
            then r = Refresh (ce_response e) \<and> map_of (entries (cs_inner s')) =
                   (map_of (entries (cs_inner s)))(key \<mapsto> e\<lparr>ce_refresh_started := Some now\<rparr>)
            else r = Stale (ce_response e) \<and>
                   map_of (entries (cs_inner s')) = map_of (entries (cs_inner s)))
         else r = Miss \<and> map_of (entries (cs_inner s')) = (map_of (entries (cs_inner s)))(key := None))"
proof -
  obtain v l where gm: "lru_get_mut ops key (cs_inner s) = (v, l)" by force
  note g = get_mut [OF assms(1) gm]
  note w = write_through [OF g [THEN conjunct2, THEN conjunct1]]
  obtain v' l' where pp: "lru_pop ops key l = (v', l')" by force
  note p = pop [OF g [THEN conjunct2, THEN conjunct1] pp]
  show ?thesis
    using assms(2) gm g w p pp
    by (auto simp: cache_lookup_def map_of_overwrite Let_def fun_eq_iff
        split: option.splits if_splits)
qed

lemma clear_refresh_spec:
  assumes "ok (cs_inner s)"
  shows "ok (cs_inner (clear_refresh ops key s)) \<and>
    map_of (entries (cs_inner (clear_refresh ops key s))) =
      (map_of (entries (cs_inner s)))(key := map_option (\<lambda>e. e\<lparr>ce_refresh_started := None\<rparr>)
         (map_of (entries (cs_inner s)) key))"
proof -
  obtain v l where gm: "lru_get_mut ops key (cs_inner s) = (v, l)" by force
  note g = get_mut [OF assms(1) gm]
  note w = write_through [OF g [THEN conjunct2, THEN conjunct1]]
  show ?thesis
    using gm g w
    by (auto simp: clear_refresh_def map_of_overwrite fun_eq_iff split: option.splits)
qed

text \<open>
  The eviction loop ends, keeps any relation between entries and counter that one eviction keeps,
  and stops either with room or with nothing left.
\<close>

lemma evict_until_spec:
  assumes "ok l" and "length (entries l) < fuel" and "P (entries l) sz"
    and step: "\<And>es sz. es \<noteq> [] \<Longrightarrow> P es sz \<Longrightarrow> P (butlast es) (sz - ce_size_bytes (snd (last es)))"
  obtains room l' sz' where "evict_until ops max_total n fuel l sz = Some (room, l', sz')"
    and "ok l'" and "cap l' = cap l" and "P (entries l') sz'"
    and "if room then sz' + n \<le> max_total else entries l' = [] \<and> sz' + n > max_total"
    and "length (entries l') \<le> length (entries l)" and "set (entries l') \<subseteq> set (entries l)"
proof -
  have "\<exists>room l' sz'. evict_until ops max_total n fuel l sz = Some (room, l', sz') \<and> ok l' \<and>
      cap l' = cap l \<and> P (entries l') sz' \<and>
      (if room then sz' + n \<le> max_total else entries l' = [] \<and> sz' + n > max_total) \<and>
      length (entries l') \<le> length (entries l) \<and> set (entries l') \<subseteq> set (entries l)"
    using assms(1-3)
  proof (induction fuel arbitrary: l sz)
    case (Suc fuel)
    obtain e l1 where pl: "lru_pop_lru ops l = (e, l1)" by force
    note p = pop_lru [OF Suc.prems(1) pl]
    show ?case
    proof (cases "sz + n > max_total \<and> entries l \<noteq> []")
      case True
      then have "P (entries l1) (sz - ce_size_bytes (snd (last (entries l))))"
        using step [of "entries l" sz] Suc.prems(3) p by simp
      moreover have "length (entries l1) < fuel"
        using p Suc.prems(2) True by (simp add: less_diff_conv) (cases "entries l"; simp)
      ultimately obtain room l' sz' where IH:
        "evict_until ops max_total n fuel l1 (sz - ce_size_bytes (snd (last (entries l)))) =
           Some (room, l', sz')" "ok l'" "cap l' = cap l1" "P (entries l') sz'"
        "if room then sz' + n \<le> max_total else entries l' = [] \<and> sz' + n > max_total"
        "length (entries l') \<le> length (entries l1)" "set (entries l') \<subseteq> set (entries l1)"
        using Suc.IH [of l1] p by blast
      have sub: "set (entries l1) \<subseteq> set (entries l)" using p by (auto dest: in_set_butlastD)
      have ev: "evict_until ops max_total n (Suc fuel) l sz = Some (room, l', sz')"
        using True pl p IH(1) by (auto split: prod.splits)
      have len: "length (entries l1) \<le> length (entries l)" using p by simp
      show ?thesis
        by (intro exI conjI) (rule ev IH order_trans [OF IH(6) len] subset_trans [OF IH(7) sub]
            trans [OF IH(3) p [THEN conjunct2, THEN conjunct2, THEN conjunct2]])+
    next
      case False
      show ?thesis
      proof (cases "sz + n > max_total")
        case True
        with False have "entries l = []" by simp
        with True pl p Suc.prems show ?thesis
          by (intro exI [of _ False] exI [of _ l1] exI [of _ sz]) simp
      next
        case False
        with Suc.prems show ?thesis
          by (intro exI [of _ True] exI [of _ l] exI [of _ sz]) simp
      qed
    qed
  qed simp
  then show ?thesis using that by blast
qed

text \<open>Insertion, once there is room: the key holds the new entry.\<close>

lemma insert_entry_spec:
  assumes "ok (cs_inner s)" and "s' = insert_entry ops now ttl n key resp s"
  shows "ok (cs_inner s')" and "cap (cs_inner s') = cap (cs_inner s)"
    and "map_of (entries (cs_inner s')) key = Some (new_entry now ttl (cs_swr_grace_secs s) n resp)"
    and "set (entries (cs_inner s')) \<subseteq>
      insert (key, new_entry now ttl (cs_swr_grace_secs s) n resp) (set (entries (cs_inner s)))"
    and "cs_current_size s \<le> stored_size (drop_key key (entries (cs_inner s))) \<Longrightarrow>
      size_bounded entries s'"
    and "cs_current_size s = stored_size (entries (cs_inner s)) \<Longrightarrow>
      map_of (entries (cs_inner s)) key = None \<Longrightarrow>
      cs_current_size s' = stored_size (entries (cs_inner s')) \<and>
      stored_size (entries (cs_inner s')) \<le> stored_size (entries (cs_inner s)) + n"
proof -
  let ?e = "new_entry now ttl (cs_swr_grace_secs s) n resp"
  obtain r l where pu: "lru_push ops key ?e (cs_inner s) = (r, l)" by force
  note p = push [OF assms(1) pu]
  have wf: "wf_omap (entries (cs_inner s))" and c: "0 < cap (cs_inner s)"
    using distinct_keys [OF assms(1)] cap_pos [OF assms(1)] by auto
  have inner: "cs_inner s' = l"
    and cur: "cs_current_size s' = (case r of Some (_, e) \<Rightarrow> cs_current_size s - ce_size_bytes e
         | None \<Rightarrow> cs_current_size s) + n"
    using assms(2) pu by (simp_all add: insert_entry_def Let_def split: option.splits)
  show "ok (cs_inner s')" "cap (cs_inner s') = cap (cs_inner s)" using p inner by auto
  show "map_of (entries (cs_inner s')) key = Some ?e"
    using p push_entries_self [of "cap (cs_inner s)" key ?e "entries (cs_inner s)" r] inner by simp
  show "set (entries (cs_inner s')) \<subseteq> insert (key, ?e) (set (entries (cs_inner s)))"
    using p inner by (auto simp: push_entries_def set_drop_key split: option.splits if_splits
        dest: in_set_butlastD)
  show "size_bounded entries s'" if "cs_current_size s \<le> stored_size (drop_key key (entries (cs_inner s)))"
  proof (cases "map_of (entries (cs_inner s)) key")
    case None
    then have "drop_key key (entries (cs_inner s)) = entries (cs_inner s)"
      by (simp add: drop_key_absent map_of_eq_None_iff)
    moreover from c have "\<not> length (entries (cs_inner s)) < cap (cs_inner s) \<Longrightarrow>
        stored_size (entries (cs_inner s)) =
          stored_size (butlast (entries (cs_inner s))) + ce_size_bytes (snd (last (entries (cs_inner s))))"
      by (intro stored_size_butlast) auto
    ultimately show ?thesis using None that p
      by (auto simp: size_bounded_def inner cur push_entries_def split: if_splits prod.splits)
  next
    case (Some old)
    with that p show ?thesis
      by (auto simp: size_bounded_def inner cur push_entries_def)
  qed
  show "cs_current_size s' = stored_size (entries (cs_inner s')) \<and>
      stored_size (entries (cs_inner s')) \<le> stored_size (entries (cs_inner s)) + n"
    if "cs_current_size s = stored_size (entries (cs_inner s))"
      "map_of (entries (cs_inner s)) key = None"
  proof (cases "length (entries (cs_inner s)) < cap (cs_inner s)")
    case True
    with that p show ?thesis by (auto simp: inner cur push_entries_def)
  next
    case False
    with c have "entries (cs_inner s) \<noteq> []" by auto
    with False that p stored_size_butlast [OF this] show ?thesis
      by (auto simp: inner cur push_entries_def split: prod.splits)
  qed
qed

text \<open>The stages of \<^const>\<open>put_response\<close>: rejected outright, no room, or inserted.\<close>

lemma put_response_cases:
  assumes "ok (cs_inner s)" and "P (entries (cs_inner s)) (case map_of (entries (cs_inner s)) key of
      Some old \<Rightarrow> cs_current_size s - ce_size_bytes old | None \<Rightarrow> cs_current_size s)"
    and "\<And>es sz. es \<noteq> [] \<Longrightarrow> P es sz \<Longrightarrow> P (butlast es) (sz - ce_size_bytes (snd (last es)))"
  obtains
    (rejected) "put_response ops estimate now key resp ttl s = Some s"
      and "(case ttl of None \<Rightarrow> cs_default_ttl_secs s | Some t \<Rightarrow> t) = 0 \<or>
           estimate (cr_body resp) > cs_max_entry_size s"
  | (evicted) l sz where "put_response ops estimate now key resp ttl s =
        Some (s\<lparr>cs_inner := l, cs_current_size := sz\<rparr>)"
      and "ok l" and "cap l = cap (cs_inner s)" and "entries l = []" and "P [] sz"
      and "sz + estimate (cr_body resp) > cs_max_total_size s"
  | (inserted) l sz where "put_response ops estimate now key resp ttl s =
        Some (insert_entry ops now (case ttl of None \<Rightarrow> cs_default_ttl_secs s | Some t \<Rightarrow> t)
          (estimate (cr_body resp)) key resp (s\<lparr>cs_inner := l, cs_current_size := sz\<rparr>))"
      and "ok l" and "cap l = cap (cs_inner s)" and "P (entries l) sz"
      and "sz + estimate (cr_body resp) \<le> cs_max_total_size s"
      and "estimate (cr_body resp) \<le> cs_max_entry_size s"
      and "set (entries l) \<subseteq> set (entries (cs_inner s))"
proof (cases "(case ttl of None \<Rightarrow> cs_default_ttl_secs s | Some t \<Rightarrow> t) = 0 \<or>
           estimate (cr_body resp) > cs_max_entry_size s")
  case True
  then have "put_response ops estimate now key resp ttl s = Some s"
    by (auto simp: put_response_def Let_def)
  with True that(1) show ?thesis by blast
next
  case False
  let ?n = "estimate (cr_body resp)"
  let ?fuel = "Suc (lru_len ops (cs_inner s))"
  have fuel: "length (entries (cs_inner s)) < ?fuel" by (simp add: len [OF assms(1)])
  obtain room l sz where ev: "evict_until ops (cs_max_total_size s) ?n ?fuel (cs_inner s)
      (case map_of (entries (cs_inner s)) key of Some old \<Rightarrow> cs_current_size s - ce_size_bytes old
       | None \<Rightarrow> cs_current_size s) = Some (room, l, sz)"
    and l: "ok l" "cap l = cap (cs_inner s)" "P (entries l) sz"
    and room: "if room then sz + ?n \<le> cs_max_total_size s
      else entries l = [] \<and> sz + ?n > cs_max_total_size s"
    and sub: "set (entries l) \<subseteq> set (entries (cs_inner s))"
    by (rule evict_until_spec [of "cs_inner s" ?fuel P, OF assms(1) fuel assms(2,3), of "cs_max_total_size s" ?n])
  have put: "put_response ops estimate now key resp ttl s =
      (let s' = s\<lparr>cs_inner := l, cs_current_size := sz\<rparr>
       in if room then Some (insert_entry ops now (case ttl of None \<Rightarrow> cs_default_ttl_secs s | Some t \<Rightarrow> t)
            ?n key resp s') else Some s')"
        unfolding put_response_def peek [OF assms(1)] using False ev
    by (simp only: Let_def de_Morgan_disj if_False option.case prod.case)
  show ?thesis
  proof (cases room)
    case True
    show ?thesis
    proof (rule that(3))
      show "put_response ops estimate now key resp ttl s =
        Some (insert_entry ops now (case ttl of None \<Rightarrow> cs_default_ttl_secs s | Some t \<Rightarrow> t)
          ?n key resp (s\<lparr>cs_inner := l, cs_current_size := sz\<rparr>))"
        using put True by (simp only: Let_def if_True)
    qed (use l room sub False True in simp_all)
  next
    case False
    show ?thesis
    proof (rule that(2))
      show "put_response ops estimate now key resp ttl s =
        Some (s\<lparr>cs_inner := l, cs_current_size := sz\<rparr>)"
        using put False by (simp only: Let_def if_False)
    qed (use l room False in auto)
  qed
qed

lemma put_response_returns:
  assumes "ok (cs_inner s)"
  shows "\<exists>s'. put_response ops estimate now key resp ttl s = Some s' \<and> ok (cs_inner s') \<and>
     cap (cs_inner s') = cap (cs_inner s)"
proof (rule put_response_cases [where P = "\<lambda>_ _. True" and key = key and ttl = ttl and estimate = estimate and resp = resp and now = now, OF assms TrueI TrueI],
    goal_cases)
  case (3 l sz)
  with insert_entry_spec(1,2) [of "s\<lparr>cs_inner := l, cs_current_size := sz\<rparr>", OF _ refl]
  show ?case by simp
qed (use assms in auto)

lemma size_bounded_step:
  assumes "es \<noteq> []" and "sz \<le> stored_size (drop_key k es)"
  shows "sz - ce_size_bytes (snd (last es)) \<le> stored_size (drop_key k (butlast es))"
  using stored_size_drop_key_butlast [OF assms(1), of k] assms(2) by (auto split: if_splits)

lemma lookup_keeps:
  assumes "ok (cs_inner s)" and "cache_lookup ops now key s = (r, s')"
  shows "limits_kept cap s s'" and "size_bounded entries s \<Longrightarrow> size_bounded entries s'"
    and "size_exact entries s \<Longrightarrow> size_exact entries s'"
    and "entries_small entries s \<Longrightarrow> entries_small entries s'"
proof -
  obtain v l where gm: "lru_get_mut ops key (cs_inner s) = (v, l)" by force
  note g = get_mut [OF assms(1) gm]
  obtain v' l' where pp: "lru_pop ops key l = (v', l')" by force
  have okl: "ok l" using g by simp
  note wr = write_through [OF okl]
  note p = pop [OF okl pp]
  have wf: "wf_omap (entries (cs_inner s))" "wf_omap (entries l)"
    using distinct_keys [OF assms(1)] distinct_keys [OF okl] by auto
  have st: "stored_size (entries l) = stored_size (entries (cs_inner s))"
    using g stored_size_promote [OF wf(1)] by simp
  have ml: "map_of (entries l) key = v" using g by simp
  note dk = stored_size_drop_key [OF wf(2), of key]
  have ow: "stored_size (overwrite key (e\<lparr>ce_refresh_started := Some now\<rparr>) (entries l)) =
      stored_size (entries l)" if "v = Some e" for e
    using that ml by (intro stored_size_overwrite [OF wf(2)]) auto
  show "limits_kept cap s s'"
    using assms(2) gm g wr p pp
    by (auto simp: limits_kept_def cache_lookup_def Let_def split: option.splits if_splits)
  show "size_bounded entries s'" if "size_bounded entries s"
    using that assms(2) gm wr p pp st ow dk ml
    by (auto simp: size_bounded_def cache_lookup_def Let_def split: option.splits if_splits)
  show "size_exact entries s'" if "size_exact entries s"
    using that assms(2) gm wr p pp st ow dk ml
    by (auto simp: size_exact_def cache_lookup_def Let_def split: option.splits if_splits)
  show "entries_small entries s'" if "entries_small entries s"
  proof -
    have s: "all_small (cs_max_entry_size s) (entries l)"
      using that g by (simp add: entries_small_def all_small_promote)
    note e = all_small_lookup [OF s] all_small_overwrite [OF s] all_small_drop_key [OF s]
    show ?thesis
      using s e ml assms(2) gm wr p pp
      by (auto simp: entries_small_def cache_lookup_def Let_def split: option.splits if_splits)
  qed
qed

lemma clear_refresh_keeps:
  assumes "ok (cs_inner s)"
  shows "limits_kept cap s (clear_refresh ops key s)"
    and "size_bounded entries s \<Longrightarrow> size_bounded entries (clear_refresh ops key s)"
    and "size_exact entries s \<Longrightarrow> size_exact entries (clear_refresh ops key s)"
    and "entries_small entries s \<Longrightarrow> entries_small entries (clear_refresh ops key s)"
proof -
  obtain v l where gm: "lru_get_mut ops key (cs_inner s) = (v, l)" by force
  note g = get_mut [OF assms(1) gm]
  have okl: "ok l" using g by simp
  note wr = write_through [OF okl]
  have wf: "wf_omap (entries (cs_inner s))" "wf_omap (entries l)"
    using distinct_keys [OF assms(1)] distinct_keys [OF okl] by auto
  have st: "stored_size (entries l) = stored_size (entries (cs_inner s))"
    using g stored_size_promote [OF wf(1)] by simp
  have ml: "map_of (entries l) key = v" using g by simp
  have ow: "stored_size (overwrite key (e\<lparr>ce_refresh_started := None\<rparr>) (entries l)) =
      stored_size (entries l)" if "v = Some e" for e
    using that ml by (intro stored_size_overwrite [OF wf(2)]) auto
  show "limits_kept cap s (clear_refresh ops key s)"
    using gm g wr by (auto simp: limits_kept_def clear_refresh_def split: option.splits)
  show "size_bounded entries (clear_refresh ops key s)" if "size_bounded entries s"
    using that gm wr st ow by (auto simp: size_bounded_def clear_refresh_def split: option.splits)
  show "size_exact entries (clear_refresh ops key s)" if "size_exact entries s"
    using that gm wr st ow by (auto simp: size_exact_def clear_refresh_def split: option.splits)
  show "entries_small entries (clear_refresh ops key s)" if "entries_small entries s"
  proof -
    have s: "all_small (cs_max_entry_size s) (entries l)"
      using that g by (simp add: entries_small_def all_small_promote)
    note e = all_small_lookup [OF s] all_small_overwrite [OF s]
    show ?thesis
      using s e ml gm wr by (auto simp: entries_small_def clear_refresh_def split: option.splits)
  qed
qed

text \<open>Insertion keeps the limits, the entry bound and the counter's upper bound.\<close>

lemma put_response_keeps:
  assumes "ok (cs_inner s)" and "put_response ops estimate now key resp ttl s = Some s'"
  shows "limits_kept cap s s'" and "size_bounded entries s \<Longrightarrow> size_bounded entries s'"
    and "entries_small entries s \<Longrightarrow> entries_small entries s'"
proof -
  let ?t = "case ttl of None \<Rightarrow> cs_default_ttl_secs s | Some t \<Rightarrow> t"
  note cases = put_response_cases [where key = key and ttl = ttl and estimate = estimate and
      resp = resp and now = now and s = s, OF assms(1)]
  show "limits_kept cap s s'"
  proof (rule cases [where P = "\<lambda>_ _. True", OF TrueI TrueI], goal_cases)
    case (3 l sz)
    note i = insert_entry_spec(2) [of "s\<lparr>cs_inner := l, cs_current_size := sz\<rparr>", OF _ refl,
        where now = now and ttl = ?t and n = "estimate (cr_body resp)" and key = key and resp = resp]
    have "s' = insert_entry ops now ?t (estimate (cr_body resp)) key resp
        (s\<lparr>cs_inner := l, cs_current_size := sz\<rparr>)" using 3(1) assms(2) by simp
    with i 3 show ?case
      by (simp add: limits_kept_def) (simp add: insert_entry_def Let_def split: prod.splits)
  qed (use assms in \<open>auto simp: limits_kept_def\<close>)
  show "size_bounded entries s'" if "size_bounded entries s"
  proof (rule cases [where P = "\<lambda>es sz. sz \<le> stored_size (drop_key key es)"], goal_cases)
    case 1
    show ?case
      using that stored_size_drop_key [OF distinct_keys [OF assms(1)], of key]
      by (auto simp: size_bounded_def split: option.splits)
  next
    case (2 es sz)
    then show ?case by (rule size_bounded_step)
  next
    case 3
    with that assms(2) show ?case by simp
  next
    case (4 l sz)
    with assms(2) show ?case by (auto simp: size_bounded_def drop_key_def)
  next
    case (5 l sz)
    note i = insert_entry_spec(5) [of "s\<lparr>cs_inner := l, cs_current_size := sz\<rparr>", OF _ refl,
        where now = now and ttl = ?t and n = "estimate (cr_body resp)" and key = key and resp = resp]
    from i 5 assms(2) show ?case by simp
  qed
  show "entries_small entries s'" if "entries_small entries s"
  proof (rule cases [where P = "\<lambda>_ _. True", OF TrueI TrueI], goal_cases)
    case 1
    with that assms(2) show ?case by simp
  next
    case (2 l sz)
    with assms(2) show ?case by (auto simp: entries_small_def all_small_def)
  next
    case (3 l sz)
    let ?s = "s\<lparr>cs_inner := l, cs_current_size := sz\<rparr>"
    note i = insert_entry_spec(4) [of ?s, OF _ refl,
        where now = now and ttl = ?t and n = "estimate (cr_body resp)" and key = key and resp = resp]
    have s': "s' = insert_entry ops now ?t (estimate (cr_body resp)) key resp ?s"
      using 3(1) assms(2) by simp
    have m: "cs_max_entry_size s' = cs_max_entry_size s"
      by (simp add: s' insert_entry_def Let_def split: prod.splits)
    let ?e = "new_entry now ?t (cs_swr_grace_secs s) (estimate (cr_body resp)) resp"
    have "all_small (cs_max_entry_size s) ((key, ?e) # entries (cs_inner s))"
      using that 3(6) by (simp add: entries_small_def all_small_def)
    moreover have "set (entries (cs_inner s')) \<subseteq> set ((key, ?e) # entries (cs_inner s))"
      using i 3(2,7) by (auto simp: s')
    ultimately show ?case unfolding entries_small_def m by (rule all_small_subset)
  qed
qed

text \<open>A body within both limits is held under its key afterwards.\<close>

lemma put_response_stores:
  assumes "ok (cs_inner s)" and "size_bounded entries s"
    and "put_response ops estimate now key resp (Some ttl) s = Some s'" and "0 < ttl"
    and "estimate (cr_body resp) \<le> cs_max_entry_size s" and "estimate (cr_body resp) \<le> cs_max_total_size s"
  shows "map_of (entries (cs_inner s')) key =
    Some (new_entry now ttl (cs_swr_grace_secs s) (estimate (cr_body resp)) resp)"
proof (rule put_response_cases [where P = "\<lambda>es sz. sz \<le> stored_size (drop_key key es)" and s = s
      and key = key and ttl = "Some ttl" and estimate = estimate and resp = resp and now = now, OF assms(1)],
    goal_cases)
  case 1
  show ?case
    using assms(2) stored_size_drop_key [OF distinct_keys [OF assms(1)], of key]
    by (auto simp: size_bounded_def split: option.splits)
next
  case (2 es sz)
  then show ?case by (rule size_bounded_step)
next
  case 3
  with assms(4,5) show ?case by simp
next
  case (4 l sz)
  with assms(6) show ?case by (simp add: drop_key_def)
next
  case (5 l sz)
  with insert_entry_spec(3) [of "s\<lparr>cs_inner := l, cs_current_size := sz\<rparr>", OF _ refl,
        where now = now and ttl = ttl and n = "estimate (cr_body resp)" and key = key and resp = resp]
    assms(3)
  show ?case by simp
qed

text \<open>Another key keeps its entry or loses it to eviction.\<close>

lemma put_response_other:
  assumes "ok (cs_inner s)" and "put_response ops estimate now key resp ttl s = Some s'" and "k \<noteq> key"
    and "map_of (entries (cs_inner s')) k = Some e"
  shows "map_of (entries (cs_inner s)) k = Some e"
proof (rule put_response_cases [where P = "\<lambda>_ _. True" and s = s
      and key = key and ttl = ttl and estimate = estimate and resp = resp and now = now, OF assms(1) TrueI TrueI],
    goal_cases)
  case (3 l sz)
  let ?t = "case ttl of None \<Rightarrow> cs_default_ttl_secs s | Some t \<Rightarrow> t"
  note i = insert_entry_spec(4) [of "s\<lparr>cs_inner := l, cs_current_size := sz\<rparr>", OF _ refl,
        where now = now and ttl = ?t and n = "estimate (cr_body resp)" and key = key and resp = resp]
  have "(k, e) \<in> set (entries (cs_inner s'))" using assms(4) by (rule map_of_SomeD)
  with i 3 assms(2,3) have "(k, e) \<in> set (entries (cs_inner s))" by auto
  then show ?case using distinct_keys [OF assms(1)] by simp
qed (use assms in auto)

lemma put_absent_exact:
  assumes "ok (cs_inner s)" and "put_response ops estimate now key resp ttl s = Some s'"
    and "size_exact entries s" and "map_of (entries (cs_inner s)) key = None"
  shows "size_exact entries s'"
proof (rule put_response_cases [where P = "\<lambda>es sz. sz = stored_size es \<and> map_of es key = None" and s = s
      and key = key and ttl = ttl and estimate = estimate and resp = resp and now = now, OF assms(1)],
    goal_cases)
  case 1
  with assms show ?case by (simp add: size_exact_def)
next
  case (2 es sz)
  then show ?case
    using stored_size_butlast [of es] by (auto simp: map_of_eq_None_iff dest: in_set_butlastD)
next
  case 3
  with assms show ?case by simp
next
  case (4 l sz)
  with assms show ?case by (auto simp: size_exact_def)
next
  case (5 l sz)
  let ?t = "case ttl of None \<Rightarrow> cs_default_ttl_secs s | Some t \<Rightarrow> t"
  note i = insert_entry_spec(6) [of "s\<lparr>cs_inner := l, cs_current_size := sz\<rparr>", OF _ refl,
        where now = now and ttl = ?t and n = "estimate (cr_body resp)" and key = key and resp = resp]
  have s': "s' = insert_entry ops now ?t (estimate (cr_body resp)) key resp
      (s\<lparr>cs_inner := l, cs_current_size := sz\<rparr>)" using 5(1) assms(2) by simp
  moreover have "cs_max_total_size s' = cs_max_total_size s"
    by (simp add: s' insert_entry_def Let_def split: prod.splits)
  ultimately show ?case using i 5 by (simp add: size_exact_def)
qed

text \<open>Sequences of operations.\<close>

lemma cache_apply_returns:
  "ok (cs_inner s) \<Longrightarrow> \<exists>s'. cache_apply ops estimate x s = Some s' \<and> ok (cs_inner s')"
proof (cases x)
  case (OpLookup now k)
  assume "ok (cs_inner s)"
  with lookup_spec [of s now k, OF _ prod.collapse [symmetric]] OpLookup show ?thesis by simp
next
  case (OpPut now k resp ttl)
  assume "ok (cs_inner s)"
  from put_response_returns [OF this, of estimate now k resp ttl] OpPut show ?thesis by auto
qed (simp add: clear_refresh_spec)

lemma cache_apply_keeps:
  assumes "ok (cs_inner s)" and "cache_apply ops estimate x s = Some s'"
  shows "limits_kept cap s s'" and "size_bounded entries s \<Longrightarrow> size_bounded entries s'"
    and "entries_small entries s \<Longrightarrow> entries_small entries s'"
proof -
  have "limits_kept cap s s' \<and> (size_bounded entries s \<longrightarrow> size_bounded entries s') \<and>
    (entries_small entries s \<longrightarrow> entries_small entries s')"
  proof (cases x)
    case (OpLookup now k)
    with assms lookup_keeps [of s now k "fst (cache_lookup ops now k s)" s'] show ?thesis by auto
  next
    case (OpClear k)
    with assms clear_refresh_keeps [of s k] show ?thesis by auto
  next
    case (OpPut now k resp ttl)
    with assms put_response_keeps [of s estimate now k resp ttl s'] show ?thesis by auto
  qed
  then show "limits_kept cap s s'" and "size_bounded entries s \<Longrightarrow> size_bounded entries s'"
    and "entries_small entries s \<Longrightarrow> entries_small entries s'" by auto
qed

lemma cache_run_keeps:
  "ok (cs_inner s) \<Longrightarrow> size_bounded entries s \<Longrightarrow> entries_small entries s \<Longrightarrow>
   \<exists>s'. cache_run ops estimate xs s = Some s' \<and> ok (cs_inner s') \<and> limits_kept cap s s' \<and>
     size_bounded entries s' \<and> entries_small entries s'"
proof (induction xs arbitrary: s)
  case (Cons x xs)
  obtain s1 where s1: "cache_apply ops estimate x s = Some s1" "ok (cs_inner s1)"
    using cache_apply_returns [OF Cons.prems(1)] by blast
  note k = cache_apply_keeps [OF Cons.prems(1) s1(1)]
  from Cons.IH [OF s1(2) k(2,3)] Cons.prems obtain s' where
    "cache_run ops estimate xs s1 = Some s'" "ok (cs_inner s')" "limits_kept cap s1 s'"
    "size_bounded entries s'" "entries_small entries s'" by blast
  with s1(1) limits_kept_trans [OF k(1)] show ?case by auto
qed simp

text \<open>
  While one refresher holds the slot of a key and its takeover time has not passed, operations on
  other keys and lookups leave the slot taken (or the entry gone).
\<close>

lemma cache_apply_slot:
  assumes "ok (cs_inner s)" and "cache_apply ops estimate x s = Some s'"
    and "map_of (entries (cs_inner s)) key \<in> {None, Some e}" and "ce_refresh_started e = Some t0"
    and "op_leaves_slot (cs_refresh_takeover_secs s) t0 key x"
  shows "map_of (entries (cs_inner s')) key \<in> {None, Some e}"
proof (cases x)
  case (OpLookup now k)
  have lk: "cache_lookup ops now k s = (fst (cache_lookup ops now k s), s')"
    using OpLookup assms(2) by (simp add: prod_eq_iff)
  show ?thesis
    using lookup_spec [OF assms(1) lk] assms(3-5) OpLookup
    by (auto split: option.splits if_splits)
next
  case (OpClear k)
  with assms clear_refresh_spec [OF assms(1), of k] show ?thesis by auto
next
  case (OpPut now k resp ttl)
  then have "map_of (entries (cs_inner s)) key = Some e'" if "map_of (entries (cs_inner s')) key = Some e'" for e'
    using assms put_response_other [OF assms(1), of estimate now k resp ttl s' key e'] that by auto
  with assms(3) show ?thesis by (cases "map_of (entries (cs_inner s')) key") auto
qed

lemma cache_run_slot:
  "ok (cs_inner s) \<Longrightarrow> cache_run ops estimate xs s = Some s' \<Longrightarrow>
   map_of (entries (cs_inner s)) key \<in> {None, Some e} \<Longrightarrow> ce_refresh_started e = Some t0 \<Longrightarrow>
   list_all (op_leaves_slot (cs_refresh_takeover_secs s) t0 key) xs \<Longrightarrow>
   ok (cs_inner s') \<and> map_of (entries (cs_inner s')) key \<in> {None, Some e} \<and>
   cs_refresh_takeover_secs s' = cs_refresh_takeover_secs s"
proof (induction xs arbitrary: s)
  case (Cons x xs)
  obtain s1 where s1: "cache_apply ops estimate x s = Some s1" "ok (cs_inner s1)"
    using cache_apply_returns [OF Cons.prems(1)] by blast
  have run: "cache_run ops estimate xs s1 = Some s'" using Cons.prems(2) s1(1) by simp
  have t: "cs_refresh_takeover_secs s1 = cs_refresh_takeover_secs s"
    using cache_apply_keeps(1) [OF Cons.prems(1) s1(1)] by (simp add: limits_kept_def)
  have "map_of (entries (cs_inner s1)) key \<in> {None, Some e}"
    using cache_apply_slot [OF Cons.prems(1) s1(1) Cons.prems(3,4)] Cons.prems(5) by simp
  from Cons.IH [OF s1(2) run this Cons.prems(4)] Cons.prems(5) t show ?case by simp
qed auto

text \<open>A condition on every cached body is kept when it holds of what is put in.\<close>

abbreviation bodies_satisfy :: "(json \<Rightarrow> bool) \<Rightarrow> 'l cache_store \<Rightarrow> bool" where
  "bodies_satisfy \<equiv> cache_bodies ok entries"

lemma bodies_subset:
  assumes "bodies_satisfy P s" and "ok (cs_inner s')"
    and "set (entries (cs_inner s')) \<subseteq> insert (k, e) (set (entries (cs_inner s)))" and "P (cr_body (ce_response e))"
  shows "bodies_satisfy P s'"
  unfolding cache_bodies_def
proof (intro conjI allI impI)
  fix k' e' assume "map_of (entries (cs_inner s')) k' = Some e'"
  then have "(k', e') \<in> insert (k, e) (set (entries (cs_inner s)))" using assms(3) by (blast dest: map_of_SomeD)
  moreover have "wf_omap (entries (cs_inner s))" using assms(1) distinct_keys by (simp add: cache_bodies_def)
  ultimately show "P (cr_body (ce_response e'))"
    using assms(1,4) by (auto simp: cache_bodies_def map_of_eq_Some_iff)
qed (rule assms(2))

lemma put_response_bodies:
  assumes "bodies_satisfy P s" and "P (cr_body resp)"
    and "put_response ops estimate now key resp ttl s = Some s'"
  shows "bodies_satisfy P s'"
proof -
  have s: "ok (cs_inner s)" using assms(1) by (simp add: cache_bodies_def)
  show ?thesis
  proof (rule put_response_cases [where P = "\<lambda>_ _. True" and key = key and ttl = ttl and estimate = estimate
        and resp = resp and now = now, OF s TrueI TrueI], goal_cases)
    case (2 l sz)
    with assms(3) show ?case by (auto simp: cache_bodies_def)
  next
    case (3 l sz)
    let ?s = "s\<lparr>cs_inner := l, cs_current_size := sz\<rparr>"
    let ?ttl = "case ttl of None \<Rightarrow> cs_default_ttl_secs s | Some t \<Rightarrow> t"
    let ?e = "new_entry now ?ttl (cs_swr_grace_secs s) (estimate (cr_body resp)) resp"
    have l: "ok (cs_inner ?s)" using 3 by simp
    have s': "s' = insert_entry ops now ?ttl (estimate (cr_body resp)) key resp ?s" using 3(1) assms(3) by simp
    have ok': "ok (cs_inner s')" using insert_entry_spec(1) [OF l s'] .
    have "set (entries (cs_inner s')) \<subseteq> insert (key, ?e) (set (entries l))"
      using insert_entry_spec(4) [OF l s'] by simp
    then have "set (entries (cs_inner s')) \<subseteq> insert (key, ?e) (set (entries (cs_inner s)))"
      using 3(7) by blast
    then show ?case using bodies_subset [OF assms(1) ok'] assms(2) by simp
  qed (use assms in auto)
qed

lemma clear_refresh_bodies: "bodies_satisfy P s \<Longrightarrow> bodies_satisfy P (clear_refresh ops key s)"
  using clear_refresh_spec [of s key] by (auto simp: cache_bodies_def split: if_splits)

lemma lookup_bodies:
  assumes "bodies_satisfy P s" and "cache_lookup ops now key s = (r, s')"
  shows "bodies_satisfy P s'"
    and "r = Fresh resp \<or> r = Stale resp \<or> r = Refresh resp \<Longrightarrow> P (cr_body resp)"
proof -
  note L = lookup_spec [OF _ assms(2)]
  show "bodies_satisfy P s'"
    using L assms(1) by (auto simp: cache_bodies_def split: option.splits if_splits)
  show "P (cr_body resp)" if "r = Fresh resp \<or> r = Stale resp \<or> r = Refresh resp"
    using L assms(1) that by (auto simp: cache_bodies_def split: option.splits if_splits)
qed

end

interpretation list_cache: response_cache list_lru list_lru_ok snd fst
  by unfold_locales

section \<open>Properties of the store\<close>


definition sample_response :: cached_response where
  "sample_response = \<lparr> cr_body = JString ''hi'', cr_content_type = ''application/json'',
     cr_status_code = Some 200 \<rparr>"

definition sample_store :: "cache_entry list_lru cache_store" where
  "sample_store = cache_new_with_limits list_lru 4 60 8 10"

lemmas cache_eval = sample_store_def sample_response_def cache_new_with_limits_def list_lru_def
  put_response_def insert_entry_def new_entry_def cache_lookup_def push_entries_def promote_def
  drop_key_def overwrite_def nanos_def as_secs_def stored_size_def Let_def

lemma sample_store_ok:
  "list_lru_ok (cs_inner sample_store)" "size_bounded snd sample_store"
  "cs_max_entry_size sample_store = 8" "cs_max_total_size sample_store = 10"
  "cs_swr_grace_secs sample_store = 30" "cs_refresh_takeover_secs sample_store = 30"
  by (simp_all add: sample_store_def cache_new_with_limits_def list_lru_def list_lru_ok_def size_bounded_def)


text \<open>
  C25: Whatever sequence of lookups, insertions and releases is run on a new store, every
  operation returns, the number of entries never exceeds the configured capacity (1024 where it
  is zero), no entry is larger than the per-entry limit, and the size counter never exceeds the
  bytes really held.
\<close>

theorem cache_reachable_bounds:
  assumes "response_cache ops ok entries cap"
  shows "\<exists>s. cache_run ops estimate xs (cache_new_with_limits ops n ttl max_entry max_total) = Some s \<and>
    length (entries (cs_inner s)) \<le> (if n = 0 then 1024 else n) \<and>
    all_small max_entry (entries (cs_inner s)) \<and>
    cs_current_size s \<le> stored_size (entries (cs_inner s))"
proof -
  note L = response_cache.axioms [OF assms]
  let ?s0 = "cache_new_with_limits ops n ttl max_entry max_total"
  let ?c = "if n = 0 then 1024 else n"
  have c: "0 < ?c" by simp
  note new = lru_cache.new_ok [OF L c] lru_cache.new_entries [OF L c] lru_cache.new_cap [OF L c]
  have i: "cs_inner ?s0 = lru_new ops ?c" and m: "cs_max_entry_size ?s0 = max_entry"
    and z: "cs_current_size ?s0 = 0"
    by (simp_all add: cache_new_with_limits_def)
  have "size_bounded entries ?s0" "entries_small entries ?s0"
    by (simp_all only: size_bounded_def entries_small_def i m z new(2)) (simp_all add: all_small_def)
  from response_cache.cache_run_keeps [OF assms new(1) [folded i] this, of estimate xs]
  obtain s where s: "cache_run ops estimate xs ?s0 = Some s" "ok (cs_inner s)"
    "limits_kept cap ?s0 s" "size_bounded entries s" "entries_small entries s" by blast
  have "length (entries (cs_inner s)) \<le> ?c"
    using lru_cache.within_cap [OF L s(2)] s(3) new(3) i by (simp add: limits_kept_def)
  moreover have "all_small max_entry (entries (cs_inner s))"
    using s(3,5) m by (simp add: entries_small_def limits_kept_def)
  moreover have "cs_current_size s \<le> stored_size (entries (cs_inner s))"
    using s(4) by (simp add: size_bounded_def)
  ultimately show ?thesis using s(1) by blast
qed

theorem cache_reachable_bounds_witness:
  "\<exists>s. cache_run list_lru (\<lambda>_. 4) [OpPut 0 ''a'' sample_response None, OpLookup 5 ''a'', OpClear ''a'']
      (cache_new_with_limits list_lru 1 60 8 10) = Some s \<and> length (snd (cs_inner s)) \<le> 1"
  using cache_reachable_bounds [OF list_cache.response_cache_axioms,
      where estimate = "\<lambda>_. 4" and n = 1 and ttl = 60 and max_entry = 8 and max_total = 10
      and xs = "[OpPut 0 ''a'' sample_response None, OpLookup 5 ''a'', OpClear ''a'']"]
  by auto

text \<open>
  As long as no insertion overwrites a key that is present, the size counter is exactly the
  number of bytes held, and that number stays within the total limit.
\<close>

theorem cache_exact_without_overwrite:
  assumes "response_cache ops ok entries cap" and "ok (cs_inner s)" and "size_exact entries s"
    and "\<And>now k resp ttl. x = OpPut now k resp ttl \<Longrightarrow> map_of (entries (cs_inner s)) k = None"
  shows "\<exists>s'. cache_apply ops estimate x s = Some s' \<and>
    cs_current_size s' = stored_size (entries (cs_inner s')) \<and>
    stored_size (entries (cs_inner s')) \<le> cs_max_total_size s"
proof -
  obtain s' where s': "cache_apply ops estimate x s = Some s'"
    using response_cache.cache_apply_returns [OF assms(1,2)] by blast
  have "size_exact entries s'"
  proof (cases x)
    case (OpLookup now k)
    with s' response_cache.lookup_keeps(3) [OF assms(1,2) prod.collapse [symmetric] assms(3), of now k]
    show ?thesis by simp
  next
    case (OpClear k)
    with s' response_cache.clear_refresh_keeps(3) [OF assms(1,2,3), of k] show ?thesis by simp
  next
    case (OpPut now k resp ttl)
    with s' response_cache.put_absent_exact [OF assms(1,2) _ assms(3)] assms(4) show ?thesis by simp
  qed
  moreover have "cs_max_total_size s' = cs_max_total_size s"
    using response_cache.cache_apply_keeps(1) [OF assms(1,2) s'] by (simp add: limits_kept_def)
  ultimately show ?thesis using s' by (simp add: size_exact_def)
qed

theorem cache_exact_without_overwrite_witness:
  "\<exists>s'. cache_apply list_lru (\<lambda>_. 4) (OpPut 0 ''a'' sample_response None) sample_store = Some s' \<and>
    stored_size (snd (cs_inner s')) \<le> 10"
proof -
  have e: "size_exact snd sample_store" and n: "snd (cs_inner sample_store) = []"
    by (simp_all add: size_exact_def sample_store_def cache_new_with_limits_def list_lru_def)
  show ?thesis
    using cache_exact_without_overwrite [OF list_cache.response_cache_axioms sample_store_ok(1) e,
        of "OpPut 0 ''a'' sample_response None" "\<lambda>_. 4"]
    by (auto simp: n sample_store_ok)
qed

text \<open>
  Overwriting a present key subtracts its old size twice, so the counter falls behind and the
  store then holds more than its total limit: with a limit of 10, putting two bodies of 4 bytes,
  replacing the first and putting a third leaves 12 bytes held and 8 counted.
\<close>

theorem cache_overwrite_exceeds_total:
  "map_option (\<lambda>s. (stored_size (snd (cs_inner s)), cs_current_size s, cs_max_total_size s))
     (cache_run list_lru (\<lambda>_. 4)
        [OpPut 0 ''a'' sample_response None, OpPut 1 ''b'' sample_response None,
         OpPut 2 ''a'' sample_response None, OpPut 3 ''c'' sample_response None] sample_store) =
   Some (12, 8, 10)"
  by (simp add: cache_eval)

text \<open>
  Once a lookup has elected a caller to refresh an expired entry, no later lookup of that key
  elects another one before the takeover time has passed, whatever lookups happen in between and
  whatever is done to other keys.
\<close>

theorem cache_single_refresher:
  assumes "response_cache ops ok entries cap" and "ok (cs_inner s)"
    and "cache_lookup ops t0 key s = (Refresh r, s1)"
    and "cache_run ops estimate xs s1 = Some s2"
    and "list_all (op_leaves_slot (cs_refresh_takeover_secs s) t0 key) xs"
    and "as_secs (t - t0) < cs_refresh_takeover_secs s"
  shows "fst (cache_lookup ops t key s2) \<noteq> Refresh r'"
proof -
  note spec = response_cache.lookup_spec [OF assms(1,2,3)]
  obtain e where e: "map_of (entries (cs_inner s1)) key = Some (e\<lparr>ce_refresh_started := Some t0\<rparr>)"
    using spec by (auto split: option.splits if_splits)
  have t: "cs_refresh_takeover_secs s1 = cs_refresh_takeover_secs s"
    using response_cache.lookup_keeps(1) [OF assms(1-3)] by (simp add: limits_kept_def)
  have ok1: "ok (cs_inner s1)" using spec by simp
  have "ok (cs_inner s2) \<and>
      map_of (entries (cs_inner s2)) key \<in> {None, Some (e\<lparr>ce_refresh_started := Some t0\<rparr>)} \<and>
      cs_refresh_takeover_secs s2 = cs_refresh_takeover_secs s1"
    by (rule response_cache.cache_run_slot [OF assms(1) ok1 assms(4)])
      (use e t assms(5) in simp_all)
  with response_cache.lookup_spec [OF assms(1) _ prod.collapse [symmetric], of s2 t key] t assms(6)
  show ?thesis by (auto split: option.splits if_splits)
qed

theorem cache_single_refresher_witness:
  "fst (cache_lookup list_lru 62000000000 ''a''
     (snd (cache_lookup list_lru 61000000000 ''a'' (the (put_response list_lru (\<lambda>_. 4) 0 ''a''
        sample_response None sample_store))))) \<noteq> Refresh sample_response"
proof -
  let ?s = "the (put_response list_lru (\<lambda>_. 4) 0 ''a'' sample_response None sample_store)"
  have 1: "list_lru_ok (cs_inner ?s)" "cs_refresh_takeover_secs ?s = 30"
    by (simp_all add: cache_eval list_lru_ok_def)
  have "fst (cache_lookup list_lru 61000000000 ''a'' ?s) = Refresh sample_response"
    by (simp add: cache_eval)
  then have 2: "cache_lookup list_lru 61000000000 ''a'' ?s =
      (Refresh sample_response, snd (cache_lookup list_lru 61000000000 ''a'' ?s))" by (simp add: prod_eq_iff)
  show ?thesis
    by (rule cache_single_refresher [OF list_cache.response_cache_axioms 1(1) 2, of "\<lambda>_. 0" "[]"])
      (simp_all add: 1(2) as_secs_def)
qed

end
