(* ===== verification/Rate_Limit.thy ===== *)
theory Rate_Limit
  imports Lru Json_Value Errors
begin

text \<open>
  Rate limiting: the counter store (\<^verbatim>\<open>RateLimitStore\<close> of \<^verbatim>\<open>src/runtime/context.rs\<close>) and
  the \<^verbatim>\<open>rateLimit\<close> middleware (\<^verbatim>\<open>src/middleware/rate_limit.rs\<close>). Counters, limits and
  windows are 64-bit words with the wrap-around of a release build; instants are nanoseconds. The
  printed form of a JSON value is an argument.
\<close>

section \<open>The counter store\<close>

record rate_limit_entry =
  rle_count :: u64
  rle_window_start :: nat
  rle_window_secs :: u64

record rate_limit_status =
  rls_allowed :: bool
  rls_current_count :: u64
  rls_limit :: u64
  rls_retry_after_secs :: u64
  rls_key :: string
  rls_scope :: "string option"

text \<open>\<^verbatim>\<open>Duration::from_secs\<close> and \<^verbatim>\<open>Duration::as_secs\<close>.\<close>

definition window_nanos :: "u64 \<Rightarrow> nat" where
  "window_nanos secs = unat secs * 1000000000"

definition whole_secs :: "nat \<Rightarrow> u64" where
  "whole_secs d = of_nat (d div 1000000000)"

definition rate_limit_new :: "('l, rate_limit_entry) lru_ops \<Rightarrow> nat \<Rightarrow> 'l" where
  "rate_limit_new ops max_entries = lru_new ops (if max_entries = 0 then 10000 else max_entries)"

definition check_and_increment ::
  "('l, rate_limit_entry) lru_ops \<Rightarrow> nat \<Rightarrow> string \<Rightarrow> u64 \<Rightarrow> u64 \<Rightarrow> u64 option \<Rightarrow> 'l \<Rightarrow>
   (bool \<times> u64 \<times> u64 \<times> u64) \<times> 'l" where
  "check_and_increment ops now key limit window_secs burst store =
     (let effective_limit = limit + (case burst of None \<Rightarrow> 0 | Some b \<Rightarrow> b) in
      case lru_get_mut ops key store of
        (Some entry, l) \<Rightarrow>
          (let elapsed = now - rle_window_start entry;
               window_duration = window_nanos (rle_window_secs entry)
           in if elapsed \<ge> window_duration then
                ((True, 1, effective_limit, window_secs),
                 lru_write ops key (entry\<lparr>rle_count := 1, rle_window_start := now,
                                          rle_window_secs := window_secs\<rparr>) l)
              else if rle_count entry < effective_limit then
                ((True, rle_count entry + 1, effective_limit, whole_secs (window_duration - elapsed)),
                 lru_write ops key (entry\<lparr>rle_count := rle_count entry + 1\<rparr>) l)
              else
                ((False, rle_count entry, effective_limit, whole_secs (window_duration - elapsed)), l))
      | (None, l) \<Rightarrow>
          ((True, 1, effective_limit, window_secs),
           snd (lru_put ops key \<lparr> rle_count = 1, rle_window_start = now,
                                  rle_window_secs = window_secs \<rparr> l)))"

definition get_count ::
  "('l, rate_limit_entry) lru_ops \<Rightarrow> nat \<Rightarrow> string \<Rightarrow> 'l \<Rightarrow> u64 option \<times> 'l" where
  "get_count ops now key store =
     (case lru_get ops key store of
        (None, l) \<Rightarrow> (None, l)
      | (Some e, l) \<Rightarrow>
          (Some (if now - rle_window_start e \<ge> window_nanos (rle_window_secs e) then 0 else rle_count e), l))"

section \<open>The middleware's configuration\<close>

record rate_limit_config =
  rlc_key_template :: "string option"
  rlc_limit :: "u64 option"
  rlc_window_secs :: "u64 option"
  rlc_burst :: "u64 option"
  rlc_scope :: "string option"
  rlc_enabled :: "bool option"

definition default_rate_limit_config :: rate_limit_config where
  "default_rate_limit_config = \<lparr> rlc_key_template = None, rlc_limit = None, rlc_window_secs = None,
     rlc_burst = None, rlc_scope = None, rlc_enabled = None \<rparr>"

definition parse_u64 :: "string \<Rightarrow> u64 option" where
  "parse_u64 s = map_option of_nat (parse_uint 64 s)"

text \<open>The units in the order they are tried; \<^verbatim>\<open>ms\<close> before \<^verbatim>\<open>s\<close>.\<close>

definition parse_duration :: "string \<Rightarrow> u64 option" where
  "parse_duration str =
     (let s = trim str in
      if s = [] then None
      else case parse_u64 s of
        Some n \<Rightarrow> Some n
      | None \<Rightarrow>
        (case strip_suffix ''ms'' s of
           Some num_str \<Rightarrow> map_option (\<lambda>num. num div 1000) (parse_u64 (trim num_str))
         | None \<Rightarrow>
        (case strip_suffix ''s'' s of
           Some num_str \<Rightarrow> parse_u64 (trim num_str)
         | None \<Rightarrow>
        (case strip_suffix ''m'' s of
           Some num_str \<Rightarrow> map_option (\<lambda>num. num * 60) (parse_u64 (trim num_str))
         | None \<Rightarrow>
        (case strip_suffix ''h'' s of
           Some num_str \<Rightarrow> map_option (\<lambda>num. num * 3600) (parse_u64 (trim num_str))
         | None \<Rightarrow>
        (case strip_suffix ''d'' s of
           Some num_str \<Rightarrow> map_option (\<lambda>num. num * 86400) (parse_u64 (trim num_str))
         | None \<Rightarrow> None))))))"

definition parse_bool :: "string \<Rightarrow> bool option" where
  "parse_bool s =
     (let t = to_ascii_lowercase (trim s) in
      if t = ''true'' then Some True else if t = ''false'' then Some False else None)"

definition rate_limit_config_part :: "string \<Rightarrow> rate_limit_config \<Rightarrow> rate_limit_config" where
  "rate_limit_config_part part lc =
     (let p = trim part in
      if p = [] then lc
      else case split_once '':'' p of
        None \<Rightarrow> lc
      | Some (k, v) \<Rightarrow>
          (let key = trim k; val = trim v in
           if key = ''keyTemplate'' then lc\<lparr>rlc_key_template := Some val\<rparr>
           else if key = ''limit'' then lc\<lparr>rlc_limit := parse_u64 val\<rparr>
           else if key = ''window'' then lc\<lparr>rlc_window_secs := parse_duration val\<rparr>
           else if key = ''burst'' then lc\<lparr>rlc_burst := parse_u64 val\<rparr>
           else if key = ''scope'' then lc\<lparr>rlc_scope := Some val\<rparr>
           else if key = ''enabled'' then lc\<lparr>rlc_enabled := parse_bool val\<rparr>
           else lc))"

definition rate_limit_parse_config :: "string \<Rightarrow> rate_limit_config" where
  "rate_limit_parse_config cfg =
     fold rate_limit_config_part (split_char CHR '','' (replace_char newline CHR '','' cfg))
       default_rate_limit_config"

section \<open>The key template\<close>

text \<open>Every segment must resolve, the empty ones included.\<close>

fun resolve_parts :: "string list \<Rightarrow> json \<Rightarrow> json option" where
  "resolve_parts [] current = Some current"
| "resolve_parts (part # parts) current =
     (case current of
        JObject m \<Rightarrow> Option.bind (map_of m part) (resolve_parts parts)
      | JArray arr \<Rightarrow>
          Option.bind (parse_uint 64 part)
            (\<lambda>i. if i < length arr then resolve_parts parts (arr ! i) else None)
      | _ \<Rightarrow> None)"

definition resolve_path :: "json \<Rightarrow> string \<Rightarrow> json option" where
  "resolve_path v path = resolve_parts (split_char CHR ''.'' path) v"

definition key_replacement :: "(json \<Rightarrow> string) \<Rightarrow> json \<Rightarrow> string \<Rightarrow> string" where
  "key_replacement to_text input path =
     (case resolve_path input path of
        None \<Rightarrow> ''unknown''
      | Some (JString s) \<Rightarrow> s
      | Some (JBool b) \<Rightarrow> show_bool b
      | Some JNull \<Rightarrow> ''null''
      | Some v \<Rightarrow> to_text v)"

lemma find_sub_Some_nonempty: "find_sub p s = Some i \<Longrightarrow> p \<noteq> [] \<Longrightarrow> i < length s"
proof (induction s arbitrary: i)
  case (Cons c s)
  then show ?case by (auto split: if_splits)
qed simp

text \<open>The scan resumes after the text it has put in, so a replacement is never scanned again.\<close>

function interpolate_key :: "(json \<Rightarrow> string) \<Rightarrow> json \<Rightarrow> string \<Rightarrow> string" where
  "interpolate_key to_text input s =
     (case find_sub ''{'' s of
        None \<Rightarrow> s
      | Some i \<Rightarrow>
          (case find_sub ''}'' (drop i s) of
             None \<Rightarrow> s
           | Some j \<Rightarrow>
               take i s @ key_replacement to_text input (take (j - 1) (drop (i + 1) s)) @
               interpolate_key to_text input (drop (i + j + 1) s)))"
  by pat_completeness auto

termination
proof (relation "measure (length \<circ> snd \<circ> snd)", goal_cases)
  case (2 to_text input s i j)
  from find_sub_Some_nonempty [OF 2(1)] show ?case by simp
qed simp

declare interpolate_key.simps [simp del]

section \<open>The middleware\<close>

text \<open>
  The outcome, the status recorded in the request's metadata (when the limiter was consulted) and
  the store.
\<close>

definition rate_limit_message :: "rate_limit_status \<Rightarrow> u64 \<Rightarrow> string" where
  "rate_limit_message st window_secs =
     ''Rate limit exceeded for key '' @ [CHR 0x27] @ rls_key st @ [CHR 0x27] @ '': '' @
     show_nat (unat (rls_current_count st)) @ ''/'' @ show_nat (unat (rls_limit st)) @
     '' requests in '' @ show_nat (unat window_secs) @ ''s window. Retry after '' @
     show_nat (unat (rls_retry_after_secs st)) @ ''s''"

definition rate_limit_execute ::
  "('l, rate_limit_entry) lru_ops \<Rightarrow> (json \<Rightarrow> string) \<Rightarrow> nat \<Rightarrow> string \<Rightarrow> json \<Rightarrow> 'l \<Rightarrow>
   (web_pipe_error + unit) \<times> rate_limit_status option \<times> 'l" where
  "rate_limit_execute ops to_text now config input store =
     (let cfg = rate_limit_parse_config config;
          enabled = (case rlc_enabled cfg of None \<Rightarrow> True | Some b \<Rightarrow> b)
      in if \<not> enabled then (Inr (), None, store)
      else case rlc_key_template cfg of
        None \<Rightarrow> (Inl (ConfigError ''rateLimit: keyTemplate is required''), None, store)
      | Some key_template \<Rightarrow>
        (case rlc_limit cfg of
           None \<Rightarrow> (Inl (ConfigError ''rateLimit: limit is required''), None, store)
         | Some limit \<Rightarrow>
           (case rlc_window_secs cfg of
              None \<Rightarrow> (Inl (ConfigError ''rateLimit: window is required''), None, store)
            | Some window \<Rightarrow>
              (let window_secs = max window 1;
                   key = interpolate_key to_text input key_template;
                   ((allowed, current_count, effective_limit, retry_after), store') =
                     check_and_increment ops now key limit window_secs (rlc_burst cfg) store;
                   status = \<lparr> rls_allowed = allowed, rls_current_count = current_count,
                              rls_limit = effective_limit, rls_retry_after_secs = retry_after,
                              rls_key = key, rls_scope = rlc_scope cfg \<rparr>
               in if allowed then (Inr (), Some status, store')
                  else (Inl (RateLimitExceeded (rate_limit_message status window_secs)),
                        Some status, store')))))"

section \<open>Sequences of requests\<close>

record rate_request =
  rq_now :: nat
  rq_key :: string
  rq_limit :: u64
  rq_window :: u64
  rq_burst :: "u64 option"

definition rate_step ::
  "('l, rate_limit_entry) lru_ops \<Rightarrow> rate_request \<Rightarrow> 'l \<Rightarrow> (bool \<times> u64 \<times> u64 \<times> u64) \<times> 'l" where
  "rate_step ops q store =
     check_and_increment ops (rq_now q) (rq_key q) (rq_limit q) (rq_window q) (rq_burst q) store"

fun allowed_for :: "('l, rate_limit_entry) lru_ops \<Rightarrow> string \<Rightarrow> rate_request list \<Rightarrow> 'l \<Rightarrow> nat" where
  "allowed_for ops key [] store = 0"
| "allowed_for ops key (q # qs) store =
     (if rq_key q = key \<and> fst (fst (rate_step ops q store)) then 1 else 0) +
     allowed_for ops key qs (snd (rate_step ops q store))"

definition requests_for :: "string \<Rightarrow> rate_request list \<Rightarrow> nat" where
  "requests_for key qs = length (filter (\<lambda>q. rq_key q = key) qs)"

definition effective :: "rate_request \<Rightarrow> u64" where
  "effective q = rq_limit q + (case rq_burst q of None \<Rightarrow> 0 | Some b \<Rightarrow> b)"

lemma unat_Suc_below:
  assumes "a < (b :: 'a::len word)"
  shows "unat (a + 1) = Suc (unat a)"
proof -
  have "Suc (unat a) \<le> unat b" using assms by (simp add: word_less_nat_alt)
  also have "unat b < 2 ^ LENGTH('a)" by (rule unsigned_less)
  finally have "Suc (unat a) < 2 ^ LENGTH('a)" .
  then show ?thesis by (simp add: unat_word_ariths)
qed

locale rate_limiter = lru_cache ops ok entries cap
  for ops :: "('l, rate_limit_entry) lru_ops" and ok entries cap
begin

text \<open>The answer of one request, and what it leaves under each key.\<close>

lemma step_present:
  assumes "ok st" and "map_of (entries st) (rq_key q) = Some e"
  shows "rate_step ops q st = (r, st') \<Longrightarrow> ok st' \<and> cap st' = cap st \<and>
    (if rq_now q - rle_window_start e \<ge> window_nanos (rle_window_secs e) then
       r = (True, 1, effective q, rq_window q) \<and>
       map_of (entries st') = (map_of (entries st))(rq_key q \<mapsto>
         e\<lparr>rle_count := 1, rle_window_start := rq_now q, rle_window_secs := rq_window q\<rparr>)
     else if rle_count e < effective q then
       r = (True, rle_count e + 1, effective q,
            whole_secs (window_nanos (rle_window_secs e) - (rq_now q - rle_window_start e))) \<and>
       map_of (entries st') = (map_of (entries st))(rq_key q \<mapsto> e\<lparr>rle_count := rle_count e + 1\<rparr>)
     else
       r = (False, rle_count e, effective q,
            whole_secs (window_nanos (rle_window_secs e) - (rq_now q - rle_window_start e))) \<and>
       map_of (entries st') = map_of (entries st))"
proof -
  assume st: "rate_step ops q st = (r, st')"
  obtain v l where gm: "lru_get_mut ops (rq_key q) st = (v, l)" by force
  note g = get_mut [OF assms(1) gm]
  have okl: "ok l" using g by simp
  note w = write_through [OF okl]
  have me: "map_of (entries l) = map_of (entries st)" and v: "v = Some e" using g assms(2) by auto
  show ?thesis
    using st gm w me v g assms(2)
    by (auto simp: rate_step_def check_and_increment_def effective_def Let_def map_of_overwrite
        fun_eq_iff split: if_splits)
qed

lemma step_absent:
  assumes "ok st" and "map_of (entries st) (rq_key q) = None"
  shows "rate_step ops q st = (r, st') \<Longrightarrow> ok st' \<and> cap st' = cap st \<and>
    r = (True, 1, effective q, rq_window q) \<and>
    (length (entries st) < cap st \<longrightarrow>
       map_of (entries st') = (map_of (entries st))(rq_key q \<mapsto>
         \<lparr> rle_count = 1, rle_window_start = rq_now q, rle_window_secs = rq_window q \<rparr>))"
proof -
  assume st: "rate_step ops q st = (r, st')"
  let ?e = "\<lparr> rle_count = 1, rle_window_start = rq_now q, rle_window_secs = rq_window q \<rparr>"
  obtain v l where gm: "lru_get_mut ops (rq_key q) st = (v, l)" by force
  note g = get_mut [OF assms(1) gm]
  have okl: "ok l" using g by simp
  obtain old l' where pu: "lru_put ops (rq_key q) ?e l = (old, l')" by force
  note p = put [OF okl pu]
  have me: "entries l = entries st" and v: "v = None" and c: "cap l = cap st"
    using g assms(2) by (auto simp: promote_def)
  show ?thesis
    using st gm me v g c p pu assms(2)
    by (auto simp: rate_step_def check_and_increment_def effective_def Let_def push_entries_def)
qed

lemma step_ok: "ok st \<Longrightarrow> ok (snd (rate_step ops q st)) \<and> cap (snd (rate_step ops q st)) = cap st"
  using step_present [OF _ _ prod.collapse [symmetric], of st q]
    step_absent [OF _ _ prod.collapse [symmetric], of st q]
  by (cases "map_of (entries st) (rq_key q)") auto

text \<open>With room for every key of the trace, no entry is ever evicted.\<close>

lemma dom_entries: "fst ` set (entries st) = dom (map_of (entries st))"
  by (simp add: dom_map_of_conv_image_fst)

lemma length_entries: "ok st \<Longrightarrow> length (entries st) = card (dom (map_of (entries st)))"
  using distinct_card [OF distinct_keys, of st] by (simp add: dom_entries [symmetric])

lemma room_for_key:
  assumes "ok st" and "dom (map_of (entries st)) \<subseteq> K" and "finite K" and "card K \<le> cap st"
    and "map_of (entries st) k = None" and "k \<in> K"
  shows "length (entries st) < cap st"
proof -
  have "dom (map_of (entries st)) \<subset> K" using assms(2,5,6) by auto
  then have "card (dom (map_of (entries st))) < card K" by (rule psubset_card_mono [OF assms(3)])
  with assms(4) show ?thesis by (simp add: length_entries [OF assms(1)])
qed

lemma step_frame:
  assumes "ok st" and "dom (map_of (entries st)) \<subseteq> K" and "finite K" and "card K \<le> cap st"
    and "rq_key q \<in> K"
  shows "dom (map_of (entries (snd (rate_step ops q st)))) \<subseteq> K"
    and "k \<noteq> rq_key q \<Longrightarrow> map_of (entries (snd (rate_step ops q st))) k = map_of (entries st) k"
proof -
  have "\<exists>e. map_of (entries (snd (rate_step ops q st))) = (map_of (entries st))(rq_key q := e)"
  proof (cases "map_of (entries st) (rq_key q)")
    case None
    with room_for_key [OF assms(1-4) None assms(5)]
      step_absent [OF assms(1) None prod.collapse [symmetric]] show ?thesis by blast
  next
    case (Some e)
    from step_present [OF assms(1) Some prod.collapse [symmetric]] show ?thesis
      by (auto split: if_splits intro: fun_upd_triv [symmetric])
  qed
  then obtain e where e:
    "map_of (entries (snd (rate_step ops q st))) = (map_of (entries st))(rq_key q := e)" by blast
  show "dom (map_of (entries (snd (rate_step ops q st)))) \<subseteq> K"
    using assms(2,5) by (auto simp: e split: if_splits)
  show "k \<noteq> rq_key q \<Longrightarrow> map_of (entries (snd (rate_step ops q st))) k = map_of (entries st) k"
    by (simp add: e)
qed

text \<open>Within a running window, exactly what is left of the quota is granted.\<close>

lemma allowed_in_window:
  assumes "ok st" and "dom (map_of (entries st)) \<union> rq_key ` set qs \<subseteq> K" and "finite K"
    and "card K \<le> cap st" and "map_of (entries st) key = Some e"
    and "\<forall>q \<in> set qs. rq_key q = key \<longrightarrow> effective q = quota \<and>
      rq_now q - rle_window_start e < window_nanos (rle_window_secs e)"
  shows "allowed_for ops key qs st = min (requests_for key qs) (unat quota - unat (rle_count e))"
  using assms(1,2,4,5,6)
proof (induction qs arbitrary: st e)
  case (Cons q qs)
  let ?st = "snd (rate_step ops q st)"
  have dom: "dom (map_of (entries st)) \<subseteq> K" and q: "rq_key q \<in> K" and qs: "rq_key ` set qs \<subseteq> K"
    using Cons.prems(2) by auto
  note ok' = step_ok [OF Cons.prems(1), of q]
  note fr = step_frame [OF Cons.prems(1) dom assms(3) Cons.prems(3) q]
  note IH = Cons.IH [OF conjunct1 [OF ok'] Un_least [OF fr(1) qs]]
  show ?case
  proof (cases "rq_key q = key")
    case False
    with IH [of e] fr ok' qs Cons.prems show ?thesis by (simp add: requests_for_def)
  next
    case True
    with Cons.prems have e: "map_of (entries st) (rq_key q) = Some e" by simp
    have w: "effective q = quota" "rq_now q - rle_window_start e < window_nanos (rle_window_secs e)"
      using Cons.prems(5) True by auto
    note sp = step_present [OF Cons.prems(1) e prod.collapse [symmetric]]
    show ?thesis
    proof (cases "rle_count e < quota")
      case less: True
      then have "unat (rle_count e + 1) = Suc (unat (rle_count e))"
        by (rule unat_Suc_below)
      moreover have "unat (rle_count e) < unat quota" using less by (simp add: word_less_nat_alt)
      moreover have "allowed_for ops key qs ?st =
          min (requests_for key qs) (unat quota - unat (rle_count (e\<lparr>rle_count := rle_count e + 1\<rparr>)))"
        by (rule IH) (use sp w True less ok' fr qs Cons.prems in auto)
      ultimately show ?thesis using sp w True less by (simp add: requests_for_def)
    next
      case False
      then have "unat quota \<le> unat (rle_count e)" by (simp add: word_le_nat_alt not_less)
      moreover have "allowed_for ops key qs ?st = min (requests_for key qs) (unat quota - unat (rle_count e))"
        by (rule IH) (use sp w True False ok' fr qs Cons.prems in auto)
      ultimately show ?thesis using sp w True False by (simp add: requests_for_def)
    qed
  qed
qed (simp add: requests_for_def)

end

interpretation list_limiter: rate_limiter list_lru list_lru_ok snd fst
  by unfold_locales

section \<open>Properties of the limiter\<close>

text \<open>
  C26: In one window of a key the limiter grants exactly the first \<open>limit + burst\<close> requests, or
  one where that sum is zero (the request that opens a window is always granted), whatever
  requests for other keys come between, provided the sum does not overflow and the store has room
  for every key in use.
\<close>

theorem rate_limit_window_quota:
  assumes "rate_limiter ops ok entries cap" and "ok st"
    and "card (fst ` set (entries st) \<union> rq_key ` set (first # qs)) \<le> cap st"
    and "rq_key first = key"
    and "\<forall>e. map_of (entries st) key = Some e \<longrightarrow>
      rq_now first - rle_window_start e \<ge> window_nanos (rle_window_secs e)"
    and "\<forall>q \<in> set qs. rq_key q = key \<longrightarrow> rq_limit q = rq_limit first \<and> rq_burst q = rq_burst first \<and>
      rq_now q - rq_now first < window_nanos (rq_window first)"
    and "unat (rq_limit first) + unat (case rq_burst first of None \<Rightarrow> 0 | Some b \<Rightarrow> b) < 2 ^ 64"
  shows "allowed_for ops key (first # qs) st =
    min (requests_for key (first # qs))
      (max 1 (unat (rq_limit first) + unat (case rq_burst first of None \<Rightarrow> 0 | Some b \<Rightarrow> b)))"
proof -
  let ?K = "fst ` set (entries st) \<union> rq_key ` set (first # qs)"
  let ?st = "snd (rate_step ops first st)"
  note L = assms(1)
  have dom: "dom (map_of (entries st)) \<subseteq> ?K" by (auto simp: dom_map_of_conv_image_fst)
  have fin: "finite ?K" by simp
  have q: "rq_key first \<in> ?K" by simp
  note ok' = rate_limiter.step_ok [OF L assms(2), of first]
  note fr = rate_limiter.step_frame [OF L assms(2) dom fin assms(3) q]
  have quota: "unat (effective first) =
      unat (rq_limit first) + unat (case rq_burst first of None \<Rightarrow> 0 | Some b \<Rightarrow> b)"
    using assms(7) by (simp add: effective_def unat_word_ariths)
  obtain e where e: "map_of (entries ?st) key = Some e" "rle_count e = 1"
    "rle_window_start e = rq_now first" "rle_window_secs e = rq_window first"
    and granted: "fst (fst (rate_step ops first st))"
  proof (cases "map_of (entries st) key")
    case None
    with assms(4) have n: "map_of (entries st) (rq_key first) = None" by simp
    from rate_limiter.step_absent [OF L assms(2) n prod.collapse [symmetric]]
      rate_limiter.room_for_key [OF L assms(2) dom fin assms(3) n q] assms(4)
    show ?thesis by (intro that [of "\<lparr> rle_count = 1, rle_window_start = rq_now first,
        rle_window_secs = rq_window first \<rparr>"]) auto
  next
    case (Some e)
    with assms(4) have s: "map_of (entries st) (rq_key first) = Some e" by simp
    from rate_limiter.step_present [OF L assms(2) s prod.collapse [symmetric]] assms(4,5) Some
    show ?thesis
      by (intro that [of "e\<lparr>rle_count := 1, rle_window_start := rq_now first,
        rle_window_secs := rq_window first\<rparr>"]) auto
  qed
  have "allowed_for ops key qs ?st = min (requests_for key qs) (unat (effective first) - unat (rle_count e))"
    by (rule rate_limiter.allowed_in_window [OF L _ _ fin])
      (use ok' fr(1) assms(3,6) e in \<open>auto simp: effective_def\<close>)
  with e(2) quota granted assms(4) show ?thesis by (simp add: requests_for_def)
qed

definition sample_request :: "string \<Rightarrow> nat \<Rightarrow> rate_request" where
  "sample_request k now = \<lparr> rq_now = now, rq_key = k, rq_limit = 2, rq_window = 60, rq_burst = Some 1 \<rparr>"

theorem rate_limit_window_quota_witness:
  "allowed_for list_lru ''a''
     [sample_request ''a'' 0, sample_request ''b'' 1, sample_request ''a'' 2, sample_request ''a'' 3,
      sample_request ''a'' 4] (rate_limit_new list_lru 8) = 3"
proof -
  have l: "rate_limiter list_lru list_lru_ok snd fst" by (rule list_limiter.rate_limiter_axioms)
  have s: "list_lru_ok (rate_limit_new list_lru 8)" "snd (rate_limit_new list_lru 8) = []"
    "fst (rate_limit_new list_lru 8) = 8"
    by (simp_all add: rate_limit_new_def list_lru_def list_lru_ok_def)
  show ?thesis
    by (subst rate_limit_window_quota [OF l s(1)])
      (auto simp: s sample_request_def window_nanos_def requests_for_def card_insert_if)
qed

text \<open>
  A refused request changes no counter, is told the count and the limit it ran into, and the
  announced retry delay is the whole seconds left of the window: the window ends less than a
  second after that delay.
\<close>

theorem rate_limit_refusal:
  assumes "rate_limiter ops ok entries cap" and "ok st"
    and "check_and_increment ops now key limit window burst st = ((False, count, effective_limit, retry), st')"
  shows "\<exists>e. map_of (entries st) key = Some e \<and> map_of (entries st') = map_of (entries st) \<and>
    count = rle_count e \<and> effective_limit \<le> count \<and>
    effective_limit = limit + (case burst of None \<Rightarrow> 0 | Some b \<Rightarrow> b) \<and>
    unat retry * 1000000000 \<le> window_nanos (rle_window_secs e) - (now - rle_window_start e) \<and>
    window_nanos (rle_window_secs e) - (now - rle_window_start e) < (unat retry + 1) * 1000000000"
proof -
  let ?q = "\<lparr> rq_now = now, rq_key = key, rq_limit = limit, rq_window = window, rq_burst = burst \<rparr>"
  have st: "rate_step ops ?q st = ((False, count, effective_limit, retry), st')"
    using assms(3) by (simp add: rate_step_def)
  show ?thesis
  proof (cases "map_of (entries st) key")
    case None
    with rate_limiter.step_absent [OF assms(1,2) _ st] show ?thesis by simp
  next
    case (Some e)
    then have *: "map_of (entries st) (rq_key ?q) = Some e" by simp
    let ?left = "window_nanos (rle_window_secs e) - (now - rle_window_start e)"
    from rate_limiter.step_present [OF assms(1,2) * st]
    have r: "\<not> rle_count e < effective ?q" "count = rle_count e" "effective_limit = effective ?q"
      "retry = whole_secs ?left" "map_of (entries st') = map_of (entries st)"
      by (auto split: if_splits)
    have "?left div 1000000000 \<le> window_nanos (rle_window_secs e) div 1000000000"
      by (rule div_le_mono) simp
    also have "\<dots> = unat (rle_window_secs e)" by (simp add: window_nanos_def)
    also have "\<dots> < 2 ^ 64" using unsigned_less [of "rle_window_secs e"] by simp
    finally have "unat retry = ?left div 1000000000"
      by (simp add: r(4) whole_secs_def take_bit_nat_eq_self unsigned_of_nat)
    then have u: "unat retry * 1000000000 \<le> ?left" "?left < (unat retry + 1) * 1000000000"
      by (simp_all add: dividend_less_div_times)
    show ?thesis
      using Some r u by (auto simp: effective_def not_less)
  qed
qed

theorem rate_limit_refusal_witness:
  "\<exists>e. map_of (snd (8, [(''a'', \<lparr> rle_count = 3, rle_window_start = 0, rle_window_secs = 60 \<rparr>)])) ''a'' = Some e \<and>
     rle_count e = 3"
  using rate_limit_refusal [OF list_limiter.rate_limiter_axioms,
      of "(8, [(''a'', \<lparr> rle_count = 3, rle_window_start = 0, rle_window_secs = 60 \<rparr>)])"
        1500000000 "''a''" 2 60 "Some 1" 3 3 58
        "(8, [(''a'', \<lparr> rle_count = 3, rle_window_start = 0, rle_window_secs = 60 \<rparr>)])"]
  by (simp add: list_lru_ok_def check_and_increment_def list_lru_def promote_def drop_key_def
      window_nanos_def whole_secs_def)

text \<open>
  The middleware fails only for a missing setting or a refused request; a request it refuses
  fails with a rate-limit error (status 429), and whenever the limiter was consulted its answer is
  what the request's metadata records.
\<close>

theorem rate_limit_execute_outcome:
  "case rate_limit_execute ops to_text now config input store of
     (Inr _, None, store') \<Rightarrow> rlc_enabled (rate_limit_parse_config config) = Some False \<and> store' = store
   | (Inr _, Some st, store') \<Rightarrow> rls_allowed st
   | (Inl err, None, store') \<Rightarrow> status_code err = 500 \<and> store' = store
   | (Inl err, Some st, store') \<Rightarrow> \<not> rls_allowed st \<and> status_code err = 429 \<and>
       error_type err = ''rate_limit_exceeded''"
proof -
  let ?cfg = "rate_limit_parse_config config"
  show ?thesis
  proof (cases "rlc_enabled ?cfg = Some False")
    case False
    then have en: "\<not> \<not> (case rlc_enabled ?cfg of None \<Rightarrow> True | Some b \<Rightarrow> b)"
      by (cases "rlc_enabled ?cfg") auto
    show ?thesis
    proof (cases "rlc_key_template ?cfg = None \<or> rlc_limit ?cfg = None \<or> rlc_window_secs ?cfg = None")
      case True
      then show ?thesis
        unfolding rate_limit_execute_def Let_def
        by (simp only: en if_False) (auto split: option.splits)
    next
      case False
      then obtain k l w where c: "rlc_key_template ?cfg = Some k" "rlc_limit ?cfg = Some l"
        "rlc_window_secs ?cfg = Some w" by auto
      obtain a n m r s where ci: "check_and_increment ops now (interpolate_key to_text input k) l (max w 1)
          (rlc_burst ?cfg) store = ((a, n, m, r), s)" by (metis surj_pair)
      show ?thesis
        unfolding rate_limit_execute_def Let_def c
        by (simp only: en if_False option.case ci prod.case) simp
    qed
  qed (simp add: rate_limit_execute_def Let_def)
qed

text \<open>
  A window length written as a number with a unit is read as that many seconds: plain
  seconds, milliseconds rounded down, and minutes, hours and days scaled by their factor.
\<close>

theorem parse_duration_units:
  assumes "n < 2 ^ 64"
  shows "parse_duration (show_nat n) = Some (of_nat n) \<and>
    parse_duration (show_nat n @ ''ms'') = Some (of_nat n div 1000) \<and>
    parse_duration (show_nat n @ ''s'') = Some (of_nat n) \<and>
    parse_duration (show_nat n @ ''m'') = Some (of_nat n * 60) \<and>
    parse_duration (show_nat n @ ''h'') = Some (of_nat n * 3600) \<and>
    parse_duration (show_nat n @ ''d'') = Some (of_nat n * 86400)"
proof -
  let ?d = "show_nat n"
  have hd: "visible (hd (?d @ u))" for u by (simp add: show_nat_visible)
  have t: "trim ?d = ?d" by (rule trim_visible) (simp_all add: show_nat_visible)
  have tu: "trim (?d @ u @ [c]) = ?d @ u @ [c]" if "visible c" for u c
    by (rule trim_visible) (use that hd [of "u @ [c]"] in simp_all)
  have p: "parse_u64 ?d = Some (of_nat n)" by (simp add: parse_u64_def parse_show_nat [OF assms])
  have np: "parse_u64 ((?d @ u) @ [c]) = None" if "\<not> is_ascii_digit c" for u c
    unfolding parse_u64_def using parse_uint_suffix [OF that, of "?d @ u" 64] by simp
  have last: "last ?d \<noteq> CHR ''m''"
  proof -
    have "is_ascii_digit (last ?d)"
      using show_nat_digits [of n] last_in_set [OF show_nat_not_Nil [of n]] by (simp add: list_all_iff)
    then show ?thesis by (auto simp: is_ascii_digit_def)
  qed
  have ms: "strip_suffix ''ms'' (?d @ [CHR ''s'']) = None"
    using last by (cases ?d rule: rev_cases)
      (auto simp: strip_suffix_def ends_with_def starts_with_def numeral_2_eq_2)
  have d: "\<not> is_ascii_digit CHR ''s''" "\<not> is_ascii_digit CHR ''m''" "\<not> is_ascii_digit CHR ''h''"
    "\<not> is_ascii_digit CHR ''d''" by (simp_all add: is_ascii_digit_def)
  have v: "visible CHR ''s''" "visible CHR ''m''" "visible CHR ''h''" "visible CHR ''d''"
    by (simp_all add: visible_def)
  note other = strip_suffix_other [where s = ?d]
  note simps = parse_duration_def Let_def t p
  show ?thesis
  proof (intro conjI)
    show "parse_duration ?d = Some (of_nat n)" by (simp add: simps)
    show "parse_duration (?d @ ''ms'') = Some (of_nat n div 1000)"
      using tu [OF v(1), of "''m''"] np [OF d(1), of "''m''"] strip_suffix_append [of "''ms''" ?d]
      by (simp add: simps)
    show "parse_duration (?d @ ''s'') = Some (of_nat n)"
      using tu [OF v(1), of "[]"] np [OF d(1), of "[]"] ms strip_suffix_append [of "''s''" ?d]
      by (simp add: simps)
    show "parse_duration (?d @ ''m'') = Some (of_nat n * 60)"
      using tu [OF v(2), of "[]"] np [OF d(2), of "[]"] strip_suffix_append [of "''m''" ?d]
      by (simp add: simps other)
    show "parse_duration (?d @ ''h'') = Some (of_nat n * 3600)"
      using tu [OF v(3), of "[]"] np [OF d(3), of "[]"] strip_suffix_append [of "''h''" ?d]
      by (simp add: simps other)
    show "parse_duration (?d @ ''d'') = Some (of_nat n * 86400)"
      using tu [OF v(4), of "[]"] np [OF d(4), of "[]"] strip_suffix_append [of "''d''" ?d]
      by (simp add: simps other)
  qed
qed

theorem parse_duration_units_witness: "parse_duration (show_nat 5 @ ''m'') = Some 300"
  using parse_duration_units [of 5] by simp

end
