(* ===== verification/Exec_Env.thy ===== *)
theory Exec_Env
  imports Syntax_Tree Errors Cache_Store Rate_Limit Cli_Args
begin

text \<open>
  What an execution carries around: the per-request context
  (\<^verbatim>\<open>src/executor/context.rs\<close>, \<^verbatim>\<open>types.rs\<close>, \<^verbatim>\<open>tasks.rs\<close>), the per-run
  pipeline context (\<^verbatim>\<open>src/runtime/pipeline_context.rs\<close>), the shared environment
  (\<^verbatim>\<open>src/executor/env.rs\<close>, \<^verbatim>\<open>modules.rs\<close>), and the jq evaluator's error mapping
  (\<^verbatim>\<open>src/runtime/jq.rs\<close>).

  Type parameters: \<^typ>\<open>'l\<close> the container of the response cache, \<^typ>\<open>'r\<close> that of the
  rate limiter, \<^typ>\<open>'w\<close> everything outside the program (database, network, console, clock).
  Code that is not in the repository is a field of the environment: the jq library, JSON text, the
  clock, the container operations. A map that is iterated is an \<^verbatim>\<open>omap\<close>, in the
  order of iteration.
\<close>

section \<open>Results of execution\<close>

text \<open>
  A computation over a state: \<^const>\<open>None\<close> when it does not return within its fuel, else an
  error or a value together with the state it leaves, also on an error.
\<close>

type_synonym ('s, 'a) ex = "'s \<Rightarrow> ((web_pipe_error + 'a) \<times> 's) option"

record pipeline_output =
  po_state :: json
  po_content_type :: string
  po_status_code :: "u16 option"

definition pipeline_output_new :: "json \<Rightarrow> pipeline_output" where
  "pipeline_output_new state = \<lparr> po_state = state, po_content_type = ''application/json'',
     po_status_code = None \<rparr>"

datatype step_outcome = Continue | Return pipeline_output

datatype execution_mode = Standard | Async string | JoinMode | Recursive

record step_result =
  sr_value :: json
  sr_content_type :: string
  sr_status_code :: "u16 option"

record cache_policy =
  cpol_enabled :: bool
  cpol_ttl :: nat
  cpol_key_template :: "string option"

record log_config =
  lc_level :: string
  lc_include_body :: bool
  lc_include_headers :: bool

section \<open>The request context\<close>

datatype invocation_kind = Http | Script

datatype step_mode = StepOver | StepIn | StepOut

record request_metadata =
  md_start_time :: "nat option"
  md_cache_policy :: "cache_policy option"
  md_log_config :: "log_config option"
  md_rate_limit_status :: "rate_limit_status option"

definition default_metadata :: request_metadata where
  "default_metadata = \<lparr> md_start_time = None, md_cache_policy = None, md_log_config = None,
     md_rate_limit_status = None \<rparr>"

definition json_u64 :: "u64 \<Rightarrow> json" where
  "json_u64 n = JNumber (PosInt n)"

definition json_opt_str :: "string option \<Rightarrow> json" where
  "json_opt_str s = (case s of None \<Rightarrow> JNull | Some x \<Rightarrow> JString x)"

definition metadata_to_value :: "request_metadata \<Rightarrow> json" where
  "metadata_to_value md = JObject
     [(''cache'', case md_cache_policy md of
         None \<Rightarrow> JNull
       | Some cp \<Rightarrow> JObject [(''enabled'', JBool (cpol_enabled cp)), (''ttl'', json_nat (cpol_ttl cp)),
                             (''key_template'', json_opt_str (cpol_key_template cp))]),
      (''log'', case md_log_config md of
         None \<Rightarrow> JNull
       | Some lc \<Rightarrow> JObject [(''level'', JString (lc_level lc)), (''include_body'', JBool (lc_include_body lc)),
                             (''include_headers'', JBool (lc_include_headers lc))]),
      (''rate_limit'', case md_rate_limit_status md of
         None \<Rightarrow> JNull
       | Some rl \<Rightarrow> JObject
           [(''allowed'', JBool (rls_allowed rl)),
            (''remaining'', json_nat (unat (rls_limit rl) - unat (rls_current_count rl))),
            (''limit'', json_u64 (rls_limit rl)),
            (''retry_after'', json_u64 (rls_retry_after_secs rl)),
            (''key'', JString (rls_key rl)),
            (''scope'', json_opt_str (rls_scope rl))])]"

record profiler =
  pf_stack :: "string list"
  pf_samples :: "(string \<times> nat) list"

definition default_profiler :: profiler where
  "default_profiler = \<lparr> pf_stack = [], pf_samples = [] \<rparr>"

definition profiler_push :: "string \<Rightarrow> profiler \<Rightarrow> profiler" where
  "profiler_push name p = p\<lparr>pf_stack := pf_stack p @ [name]\<rparr>"

definition profiler_pop :: "profiler \<Rightarrow> profiler" where
  "profiler_pop p = p\<lparr>pf_stack := butlast (pf_stack p)\<rparr>"

definition record_sample :: "nat \<Rightarrow> profiler \<Rightarrow> profiler" where
  "record_sample duration_micros p =
     (if pf_stack p = [] then p
      else p\<lparr>pf_samples := pf_samples p @ [(join '';'' (pf_stack p), duration_micros)]\<rparr>)"

text \<open>
  A task spawned by an \<^verbatim>\<open>@async\<close> step: what the spawned block captured. A handle is the
  task still to be run or the outcome it has reached; a task may fail with an error or panic.
\<close>

record async_task =
  at_name :: string
  at_args :: "string list"
  at_config :: string
  at_location :: source_location
  at_input :: json

datatype task_outcome =
    TaskDone json profiler
  | TaskFailed web_pipe_error
  | TaskPanicked string

datatype join_handle = Pending async_task | Finished task_outcome

type_synonym async_task_registry = "string \<rightharpoonup> join_handle"

definition registry_register :: "string \<Rightarrow> join_handle \<Rightarrow> async_task_registry \<Rightarrow> async_task_registry" where
  "registry_register name handle tasks = tasks(name \<mapsto> handle)"

definition registry_take ::
  "string \<Rightarrow> async_task_registry \<Rightarrow> join_handle option \<times> async_task_registry" where
  "registry_take name tasks = (tasks name, tasks(name := None))"

record 'w request_context =
  rc_invocation :: invocation_kind
  rc_feature_flags :: "bool omap"
  rc_conditions :: "bool omap"
  rc_async_registry :: async_task_registry
  rc_deferred :: "(json \<Rightarrow> string \<Rightarrow> 'w \<Rightarrow> 'w) list"
  rc_metadata :: request_metadata
  rc_call_log :: "json list omap"
  rc_profiler :: profiler
  rc_request :: json
  rc_stdin_bytes :: "string option"
  rc_debug_thread_id :: "u64 option"
  rc_debug_step_mode :: "step_mode option"
  rc_script_args_override :: "script_args option"

definition request_context_new :: "'w request_context" where
  "request_context_new = \<lparr> rc_invocation = Http, rc_feature_flags = [], rc_conditions = [],
     rc_async_registry = Map.empty, rc_deferred = [], rc_metadata = default_metadata,
     rc_call_log = [], rc_profiler = default_profiler, rc_request = JNull, rc_stdin_bytes = None,
     rc_debug_thread_id = None, rc_debug_step_mode = None, rc_script_args_override = None \<rparr>"

definition request_context_for_script :: "json \<Rightarrow> 'w request_context" where
  "request_context_for_script request = request_context_new\<lparr>rc_invocation := Script, rc_request := request\<rparr>"

definition request_context_for_script_with_stdin :: "json \<Rightarrow> string \<Rightarrow> 'w request_context" where
  "request_context_for_script_with_stdin request stdin =
     (request_context_for_script request)\<lparr>rc_stdin_bytes := Some stdin\<rparr>"

text \<open>Standard input is read once; the read itself is the outside world's.\<close>

definition stdin_bytes ::
  "('w \<Rightarrow> (string + string) \<times> 'w) \<Rightarrow> 'w request_context \<Rightarrow> 'w \<Rightarrow>
   (web_pipe_error + string) \<times> 'w request_context \<times> 'w" where
  "stdin_bytes read_stdin ctx w =
     (case rc_stdin_bytes ctx of
        Some bytes \<Rightarrow> (Inr bytes, ctx, w)
      | None \<Rightarrow>
          (case read_stdin w of
             (Inl e, w') \<Rightarrow> (Inl (MiddlewareExecutionError (''failed to read stdin: '' @ e)), ctx, w')
           | (Inr bytes, w') \<Rightarrow> (Inr bytes, ctx\<lparr>rc_stdin_bytes := Some bytes\<rparr>, w')))"

definition defer_action ::
  "(json \<Rightarrow> string \<Rightarrow> 'w \<Rightarrow> 'w) \<Rightarrow> 'w request_context \<Rightarrow> 'w request_context" where
  "defer_action f ctx = ctx\<lparr>rc_deferred := rc_deferred ctx @ [f]\<rparr>"

definition run_deferred :: "'w request_context \<Rightarrow> json \<Rightarrow> string \<Rightarrow> 'w \<Rightarrow> 'w" where
  "run_deferred ctx final_result content_type w =
     fold (\<lambda>action. action final_result content_type) (rc_deferred ctx) w"

section \<open>The pipeline context\<close>

record pending_cache_save =
  ps_key :: string
  ps_ttl :: nat
  ps_refreshing :: bool

record pipeline_context =
  pc_state :: json
  pc_pending_cache_saves :: "pending_cache_save list"
  pc_cache_hit :: "cached_response option"
  pc_current_step_id :: "string option"

definition pipeline_context_new :: "json \<Rightarrow> pipeline_context" where
  "pipeline_context_new state = \<lparr> pc_state = state, pc_pending_cache_saves = [],
     pc_cache_hit = None, pc_current_step_id = None \<rparr>"

section \<open>Modules\<close>

record module_metadata =
  mm_id :: nat
  mm_path :: string
  mm_import_map :: "(string \<times> nat) list"

record module_registry =
  mreg_modules :: "(nat \<times> module_metadata) list"
  mreg_path_to_id :: "(string \<times> nat) list"

definition module_registry_new :: module_registry where
  "module_registry_new = \<lparr> mreg_modules = [], mreg_path_to_id = [] \<rparr>"

definition get_module :: "nat \<Rightarrow> module_registry \<Rightarrow> module_metadata option" where
  "get_module i reg = map_of (mreg_modules reg) i"

definition get_id_by_path :: "string \<Rightarrow> module_registry \<Rightarrow> nat option" where
  "get_id_by_path path reg = map_of (mreg_path_to_id reg) path"

text \<open>\<^verbatim>\<open>HashMap::insert\<close> on a map that is never iterated.\<close>

definition hash_insert :: "'k \<Rightarrow> 'v \<Rightarrow> ('k \<times> 'v) list \<Rightarrow> ('k \<times> 'v) list" where
  "hash_insert k v m = (k, v) # filter (\<lambda>e. fst e \<noteq> k) m"

lemma hash_insert_lookup [simp]: "map_of (hash_insert k v m) = (map_of m)(k \<mapsto> v)"
proof
  fix x
  have "map_of (filter (\<lambda>e. fst e \<noteq> k) m) x = (if x = k then None else map_of m x)"
    by (induction m) auto
  then show "map_of (hash_insert k v m) x = ((map_of m)(k \<mapsto> v)) x"
    by (simp add: hash_insert_def)
qed

text \<open>The next identifier is the number of modules registered so far.\<close>

definition register_module ::
  "string \<Rightarrow> (string \<times> nat) list \<Rightarrow> module_registry \<Rightarrow> nat \<times> module_registry" where
  "register_module path import_map reg =
     (let i = length (mreg_modules reg);
          metadata = \<lparr> mm_id = i, mm_path = path, mm_import_map = import_map \<rparr>
      in (i, reg\<lparr>mreg_modules := hash_insert i metadata (mreg_modules reg),
                mreg_path_to_id := hash_insert path i (mreg_path_to_id reg)\<rparr>))"

text \<open>Identifiers are the numbers below the number of modules.\<close>

definition registry_dense :: "module_registry \<Rightarrow> bool" where
  "registry_dense reg \<longleftrightarrow> fst ` set (mreg_modules reg) = {..<length (mreg_modules reg)}"

lemma register_module_fresh:
  assumes "registry_dense reg" and "register_module path im reg = (i, reg')"
  shows "get_module i reg = None" and "registry_dense reg'"
    and "length (mreg_modules reg') = Suc (length (mreg_modules reg))"
proof -
  let ?n = "length (mreg_modules reg)"
  have n: "?n \<notin> fst ` set (mreg_modules reg)" using assms(1) by (simp add: registry_dense_def)
  have f: "filter (\<lambda>e. fst e \<noteq> ?n) (mreg_modules reg) = mreg_modules reg"
    by (rule filter_True) (use key_notin [OF n] in blast)
  have i: "i = ?n" using assms(2) by (simp add: register_module_def Let_def)
  show "get_module i reg = None" using n by (simp add: get_module_def i map_of_eq_None_iff)
  have m: "mreg_modules reg' = (?n, \<lparr> mm_id = ?n, mm_path = path, mm_import_map = im \<rparr>) # mreg_modules reg"
    using assms(2) f by (auto simp: register_module_def Let_def hash_insert_def)
  show "registry_dense reg'" using assms(1) by (auto simp: registry_dense_def m)
  show "length (mreg_modules reg') = Suc ?n" by (simp add: m)
qed

section \<open>The environment\<close>

datatype state_behavior = Merge | Transform | Render | ReadOnly

record middleware_output =
  mo_content_type :: "string option"

definition default_output :: middleware_output where
  "default_output = \<lparr> mo_content_type = None \<rparr>"

text \<open>
  Everything a request can change: its own context and what it shares with other requests.
\<close>

record ('l, 'r, 'w) machine =
  mc_ctx :: "'w request_context"
  mc_cache :: "'l cache_store"
  mc_rate :: 'r
  mc_world :: 'w

datatype step_action = ActContinue | ActStepOver | ActStepIn | ActStepOut

record 'w debugger_hook =
  dh_allocate_thread_id :: "'w \<Rightarrow> u64 \<times> 'w"
  dh_before_step ::
    "u64 \<Rightarrow> string \<Rightarrow> source_location \<Rightarrow> json \<Rightarrow> string list \<Rightarrow> 'w \<Rightarrow> (web_pipe_error + step_action) \<times> json \<times> 'w"
  dh_after_step :: "u64 \<Rightarrow> string \<Rightarrow> source_location \<Rightarrow> json \<Rightarrow> string list \<Rightarrow> 'w \<Rightarrow> 'w"

text \<open>The jq library: a filter fails to load or compile, or yields the first of its results.\<close>

datatype jaq_outcome = JaqLoadError string | JaqCompileError string | JaqFirst "(string + json) option"

text \<open>The libraries, and how the async runtime orders a spawned task: at once or when joined.\<close>

record ('l, 'w) platform =
  pl_jaq :: "string \<Rightarrow> json \<Rightarrow> jaq_outcome"
  pl_to_text :: "json \<Rightarrow> string"
  pl_parse_strings :: "string \<Rightarrow> string list option"
  pl_now :: "'w \<Rightarrow> nat \<times> 'w"
  pl_cache_ops :: "('l, cache_entry) lru_ops"
  pl_script_args :: script_args
  pl_task_early :: "async_task \<Rightarrow> bool"
  pl_task_panics :: "async_task \<Rightarrow> string option"

type_synonym ('l, 'r, 'w) invoker =
  "string \<Rightarrow> string list \<Rightarrow> string \<Rightarrow> string option \<Rightarrow> pipeline_context \<Rightarrow> ('l, 'r, 'w) machine \<Rightarrow>
   (web_pipe_error + middleware_output) \<times> pipeline_context \<times> ('l, 'r, 'w) machine"

record ('l, 'r, 'w) execution_env =
  env_variables :: "nat option \<times> string \<times> string \<rightharpoonup> variable"
  env_named_pipelines :: "nat option \<times> string \<rightharpoonup> pipeline"
  env_module_registry :: module_registry
  env_imports :: "string \<rightharpoonup> string"
  env_invoker :: "('l, 'r, 'w) invoker"
  env_behavior :: "string \<Rightarrow> state_behavior option"
  env_environment :: "string option"
  env_debugger :: "'w debugger_hook option"
  env_platform :: "('l, 'w) platform"

definition estimate_size :: "('l, 'r, 'w) execution_env \<Rightarrow> json \<Rightarrow> nat" where
  "estimate_size env v = length (pl_to_text (env_platform env) v)"

definition jq_evaluate :: "(string \<Rightarrow> json \<Rightarrow> jaq_outcome) \<Rightarrow> string \<Rightarrow> json \<Rightarrow> web_pipe_error + json" where
  "jq_evaluate jaq expr input =
     (case jaq (trim expr) input of
        JaqLoadError e \<Rightarrow> Inl (MiddlewareExecutionError (''JQ parsing error: '' @ e))
      | JaqCompileError e \<Rightarrow> Inl (MiddlewareExecutionError (''JQ compilation error: '' @ e))
      | JaqFirst None \<Rightarrow> Inr JNull
      | JaqFirst (Some (Inl e)) \<Rightarrow> Inl (MiddlewareExecutionError (''JQ execution error: '' @ e))
      | JaqFirst (Some (Inr v)) \<Rightarrow> Inr v)"

definition jq_truthy :: "json \<Rightarrow> bool" where
  "jq_truthy v = (case v of JBool b \<Rightarrow> b | JNull \<Rightarrow> False | _ \<Rightarrow> True)"

definition jq_eval_bool :: "(string \<Rightarrow> json \<Rightarrow> jaq_outcome) \<Rightarrow> string \<Rightarrow> json \<Rightarrow> web_pipe_error + bool" where
  "jq_eval_bool jaq expr input =
     (case jq_evaluate jaq expr input of Inl e \<Rightarrow> Inl e | Inr v \<Rightarrow> Inr (jq_truthy v))"

definition env_jq :: "('l, 'r, 'w) execution_env \<Rightarrow> string \<Rightarrow> json \<Rightarrow> web_pipe_error + json" where
  "env_jq env = jq_evaluate (pl_jaq (env_platform env))"

text \<open>The context value scripts see as \<^verbatim>\<open>$context\<close>.\<close>

definition insert_unless_null :: "string \<Rightarrow> json option \<Rightarrow> json_map \<Rightarrow> json_map" where
  "insert_unless_null k v m =
     (case v of None \<Rightarrow> m | Some j \<Rightarrow> if is_null j then m else om_insert k j m)"

definition context_to_value :: "('l, 'r, 'w) execution_env \<Rightarrow> 'w request_context \<Rightarrow> json" where
  "context_to_value env ctx =
     (let bools = (\<lambda>m. JObject (om_insert_all (map (\<lambda>(k, b). (k, JBool b)) m) []));
          script_args = (case rc_script_args_override ctx of
                           Some a \<Rightarrow> a | None \<Rightarrow> pl_script_args (env_platform env));
          metadata_json = metadata_to_value (rc_metadata ctx);
          c0 = om_insert ''conditions'' (bools (rc_conditions ctx))
                 (om_insert ''flags'' (bools (rc_feature_flags ctx)) []);
          c1 = insert_unless_null ''request'' (Some (rc_request ctx)) c0;
          c2 = (case env_environment env of None \<Rightarrow> c1 | Some name \<Rightarrow> om_insert ''env'' (JString name) c1);
          c3 = om_insert ''args'' (JArray (map JString (sa_args script_args))) c2;
          c4 = om_insert ''options'' (JObject (om_insert_all (sa_options script_args) [])) c3
      in JObject
           (insert_unless_null ''rate_limit'' (json_get ''rate_limit'' metadata_json)
             (insert_unless_null ''log'' (json_get ''log'' metadata_json)
               (insert_unless_null ''cache'' (json_get ''cache'' metadata_json) c4))))"

section \<open>Names of joined tasks\<close>

definition parse_join_task_names ::
  "(string \<Rightarrow> string list option) \<Rightarrow> string \<Rightarrow> web_pipe_error + string list" where
  "parse_join_task_names parse_strings config =
     (let trimmed = trim config in
      if starts_with ''['' trimmed then
        (case parse_strings trimmed of
           Some names \<Rightarrow> Inr names
         | None \<Rightarrow> Inl (ConfigError ''Invalid JSON array for join config''))
      else
        (let names = filter (\<lambda>s. s \<noteq> []) (map trim (split_char CHR '','' trimmed)) in
         if names = [] then Inl (ConfigError ''join config must specify at least one task name'')
         else Inr names))"

end
