(* ===== verification/Tags.thy ===== *)
theory Tags
  imports Exec_Env
begin

text \<open>
  Tag expressions (\<^verbatim>\<open>src/executor/tags.rs\<close>): when a step runs, and what an expression names
  as its asynchronous task, its result and its error type.
\<close>

section \<open>Evaluation\<close>

definition check_flag_tag :: "tag \<Rightarrow> 'w request_context \<Rightarrow> bool" where
  "check_flag_tag tg ctx =
     (if tag_args tg = [] then True
      else list_all (\<lambda>flag_name.
        (let is_enabled = (case map_of (rc_feature_flags ctx) flag_name of None \<Rightarrow> False | Some b \<Rightarrow> b)
         in if tag_negated tg then \<not> is_enabled else is_enabled)) (tag_args tg))"

definition check_when_tag :: "tag \<Rightarrow> 'w request_context \<Rightarrow> bool" where
  "check_when_tag tg ctx =
     (if tag_args tg = [] then True
      else list_all (\<lambda>condition_name.
        (let is_met = (case map_of (rc_conditions ctx) condition_name of None \<Rightarrow> False | Some b \<Rightarrow> b)
         in if tag_negated tg then \<not> is_met else is_met)) (tag_args tg))"

definition check_env_tag :: "tag \<Rightarrow> ('l, 'r, 'w) execution_env \<Rightarrow> bool" where
  "check_env_tag tg env =
     (case tag_args tg of
        [required_env] \<Rightarrow>
          (case env_environment env of
             Some current_env \<Rightarrow>
               (let matches = (current_env = required_env) in if tag_negated tg then \<not> matches else matches)
           | None \<Rightarrow> \<not> tag_negated tg)
      | _ \<Rightarrow> True)"

definition check_guard_tag :: "tag \<Rightarrow> ('l, 'r, 'w) execution_env \<Rightarrow> json \<Rightarrow> bool \<Rightarrow> bool" where
  "check_guard_tag tg env input negated =
     (case tag_args tg of
        [] \<Rightarrow> True
      | expr # _ \<Rightarrow>
          (case jq_eval_bool (pl_jaq (env_platform env)) expr input of
             Inr result \<Rightarrow> if negated then \<not> result else result
           | Inl e \<Rightarrow> False))"

definition check_tag :: "tag \<Rightarrow> ('l, 'r, 'w) execution_env \<Rightarrow> 'w request_context \<Rightarrow> json \<Rightarrow> bool" where
  "check_tag tg env ctx input =
     (if tag_name tg = ''env'' then check_env_tag tg env
      else if tag_name tg = ''async'' then True
      else if tag_name tg = ''flag'' then check_flag_tag tg ctx
      else if tag_name tg = ''when'' then check_when_tag tg ctx
      else if tag_name tg = ''guard'' then check_guard_tag tg env input (tag_negated tg)
      else if tag_name tg = ''needs'' then True
      else True)"

fun check_tag_expr ::
  "tag_expr \<Rightarrow> ('l, 'r, 'w) execution_env \<Rightarrow> 'w request_context \<Rightarrow> json \<Rightarrow> bool" where
  "check_tag_expr (TagE tg) env ctx input = check_tag tg env ctx input"
| "check_tag_expr (AndE left right) env ctx input =
     (check_tag_expr left env ctx input \<and> check_tag_expr right env ctx input)"
| "check_tag_expr (OrE left right) env ctx input =
     (check_tag_expr left env ctx input \<or> check_tag_expr right env ctx input)"

definition should_execute_step ::
  "tag_expr option \<Rightarrow> ('l, 'r, 'w) execution_env \<Rightarrow> 'w request_context \<Rightarrow> json \<Rightarrow> bool" where
  "should_execute_step condition env ctx input =
     (case condition of None \<Rightarrow> True | Some e \<Rightarrow> check_tag_expr e env ctx input)"

section \<open>Names in a tag expression\<close>

definition or_else :: "'a option \<Rightarrow> 'a option \<Rightarrow> 'a option" where
  "or_else a b = (case a of None \<Rightarrow> b | Some x \<Rightarrow> Some x)"

definition single_arg :: "string \<Rightarrow> tag \<Rightarrow> string option" where
  "single_arg name tg =
     (case tag_args tg of
        [a] \<Rightarrow> if tag_name tg = name \<and> \<not> tag_negated tg then Some a else None
      | _ \<Rightarrow> None)"

fun get_async_from_tag_expr :: "tag_expr \<Rightarrow> string option" where
  "get_async_from_tag_expr (TagE tg) = single_arg ''async'' tg"
| "get_async_from_tag_expr (AndE left right) =
     or_else (get_async_from_tag_expr left) (get_async_from_tag_expr right)"
| "get_async_from_tag_expr (OrE left right) =
     or_else (get_async_from_tag_expr left) (get_async_from_tag_expr right)"

fun get_result_from_tag_expr :: "tag_expr \<Rightarrow> string option" where
  "get_result_from_tag_expr (TagE tg) = single_arg ''result'' tg"
| "get_result_from_tag_expr (AndE left right) =
     or_else (get_result_from_tag_expr left) (get_result_from_tag_expr right)"
| "get_result_from_tag_expr (OrE left right) =
     or_else (get_result_from_tag_expr left) (get_result_from_tag_expr right)"

fun get_error_from_tag_expr :: "tag_expr \<Rightarrow> string option" where
  "get_error_from_tag_expr (TagE tg) = single_arg ''error'' tg"
| "get_error_from_tag_expr (AndE left right) =
     or_else (get_error_from_tag_expr left) (get_error_from_tag_expr right)"
| "get_error_from_tag_expr (OrE left right) =
     or_else (get_error_from_tag_expr left) (get_error_from_tag_expr right)"

section \<open>Properties\<close>

fun tags_of :: "tag_expr \<Rightarrow> tag list" where
  "tags_of (TagE tg) = [tg]"
| "tags_of (AndE l r) = tags_of l @ tags_of r"
| "tags_of (OrE l r) = tags_of l @ tags_of r"

definition first_named :: "string \<Rightarrow> tag list \<Rightarrow> string option" where
  "first_named name tgs = (case List.map_filter (single_arg name) tgs of [] \<Rightarrow> None | x # _ \<Rightarrow> Some x)"

lemma first_named_append: "first_named name (xs @ ys) = or_else (first_named name xs) (first_named name ys)"
  by (simp add: first_named_def or_else_def List.map_filter_def split: list.splits)

lemma first_named_single: "first_named name [tg] = single_arg name tg"
  by (simp add: first_named_def List.map_filter_def split: option.splits)

text \<open>
  The task name, the result name and the error type of an expression are those of the
  leftmost tag of that name that is not negated and has exactly one argument, whatever
  conjunctions and disjunctions surround it.
\<close>

theorem tag_names_leftmost:
  "get_async_from_tag_expr e = first_named ''async'' (tags_of e) \<and>
   get_result_from_tag_expr e = first_named ''result'' (tags_of e) \<and>
   get_error_from_tag_expr e = first_named ''error'' (tags_of e)"
  by (induction e) (simp_all add: first_named_append first_named_single)

definition gating_tag :: "tag \<Rightarrow> bool" where
  "gating_tag tg \<longleftrightarrow> tag_args tg \<noteq> [] \<and> tag_name tg \<in> {''flag'', ''when'', ''guard''}"

text \<open>
  Flags, conditions and guards fail closed: a step guarded by a positive flag or condition runs
  only if every one of its names is set to true in the request, never for a name the request does
  not have, a negated one runs only if none of them is, and a guard whose filter fails does not
  run whether it is negated or not.
\<close>

theorem tags_fail_closed:
  "(tag_name tg = ''flag'' \<and> tag_args tg \<noteq> [] \<longrightarrow>
      check_tag tg env ctx input =
        (\<forall>a \<in> set (tag_args tg). (map_of (rc_feature_flags ctx) a = Some True) \<noteq> tag_negated tg))
   \<and> (tag_name tg = ''when'' \<and> tag_args tg \<noteq> [] \<longrightarrow>
      check_tag tg env ctx input =
        (\<forall>a \<in> set (tag_args tg). (map_of (rc_conditions ctx) a = Some True) \<noteq> tag_negated tg))
   \<and> (tag_name tg = ''guard'' \<and> tag_args tg \<noteq> [] \<longrightarrow>
      check_tag tg env ctx input =
        (case env_jq env (hd (tag_args tg)) input of
           Inl _ \<Rightarrow> False | Inr v \<Rightarrow> jq_truthy v \<noteq> tag_negated tg))"
  by (auto simp: check_tag_def check_flag_tag_def check_when_tag_def check_guard_tag_def env_jq_def
      jq_eval_bool_def list_all_iff Let_def neq_Nil_conv split: option.splits sum.splits)

text \<open>An expression only depends on the environment, the flags, the conditions and the input.\<close>

lemma check_tag_expr_cong:
  "rc_feature_flags ctx = rc_feature_flags ctx' \<Longrightarrow> rc_conditions ctx = rc_conditions ctx' \<Longrightarrow>
   check_tag_expr e env ctx input = check_tag_expr e env ctx' input"
  by (induction e) (auto simp: check_tag_def check_flag_tag_def check_when_tag_def)

end
