(* ===== verification/Resolver.thy ===== *)
theory Resolver
  imports Tags
begin

text \<open>
  Resolution of references and error envelopes (\<^verbatim>\<open>src/executor/resolver.rs\<close>, and
  \<^verbatim>\<open>resolve_named_pipeline\<close> of \<^verbatim>\<open>src/executor/step.rs\<close>).
\<close>

section \<open>References\<close>

definition identifier_tail_char :: "char \<Rightarrow> bool" where
  "identifier_tail_char ch \<longleftrightarrow> is_ascii_alphanumeric ch \<or> ch = CHR ''_'' \<or> ch = CHR ''-''"

definition is_valid_identifier_part :: "string \<Rightarrow> bool" where
  "is_valid_identifier_part s =
     (case s of
        [] \<Rightarrow> False
      | first # rest \<Rightarrow>
          (is_ascii_alphanumeric first \<or> first = CHR ''_'') \<and> list_all identifier_tail_char rest)"

definition parse_scoped_ref :: "string \<Rightarrow> string option \<times> string" where
  "parse_scoped_ref config =
     (case split_once ''::'' (trim config) of
        Some (namespace, name) \<Rightarrow>
          if \<not> contains_sub ''::'' name \<and> is_valid_identifier_part namespace \<and> is_valid_identifier_part name
          then (Some namespace, name) else (None, config)
      | None \<Rightarrow> (None, config))"

definition with_result_name :: "variable \<Rightarrow> json \<Rightarrow> string \<times> json \<times> bool" where
  "with_result_name var input =
     (case input of
        JObject obj \<Rightarrow>
          if om_has ''resultName'' obj then (var_value var, input, False)
          else (var_value var, JObject (om_insert ''resultName'' (JString (var_name var)) obj), True)
      | _ \<Rightarrow> (var_value var, input, False))"

definition resolve_config_and_autoname ::
  "('l, 'r, 'w) execution_env \<Rightarrow> source_location \<Rightarrow> string \<Rightarrow> string \<Rightarrow> json \<Rightarrow> string \<times> json \<times> bool" where
  "resolve_config_and_autoname env location middleware_name step_config input =
     (case parse_scoped_ref step_config of
        (Some alias, name) \<Rightarrow>
          (case loc_module_id location of
             None \<Rightarrow> (step_config, input, False)
           | Some step_module_id \<Rightarrow>
          (case get_module step_module_id (env_module_registry env) of
             None \<Rightarrow> (step_config, input, False)
           | Some step_module \<Rightarrow>
          (case map_of (mm_import_map step_module) alias of
             None \<Rightarrow> (step_config, input, False)
           | Some target_module_id \<Rightarrow>
          (case env_variables env (Some target_module_id, middleware_name, name) of
             None \<Rightarrow> (step_config, input, False)
           | Some var \<Rightarrow> with_result_name var input))))
      | (None, name) \<Rightarrow>
          (case env_variables env (loc_module_id location, middleware_name, name) of
             Some var \<Rightarrow> with_result_name var input
           | None \<Rightarrow>
               if loc_module_id location \<noteq> None then
                 (case env_variables env (None, middleware_name, name) of
                    Some var \<Rightarrow> with_result_name var input
                  | None \<Rightarrow> (step_config, input, False))
               else (step_config, input, False)))"

definition resolve_named_pipeline ::
  "('l, 'r, 'w) execution_env \<Rightarrow> source_location \<Rightarrow> string \<Rightarrow> pipeline option" where
  "resolve_named_pipeline env location pipeline_name =
     (let (alias, name) = parse_scoped_ref pipeline_name;
          module_id_opt =
            (case alias of
               Some a \<Rightarrow>
                 Option.bind (loc_module_id location) (\<lambda>step_module_id.
                   Option.bind (get_module step_module_id (env_module_registry env)) (\<lambda>step_module.
                     map_of (mm_import_map step_module) a))
             | None \<Rightarrow> loc_module_id location)
      in case env_named_pipelines env (module_id_opt, name) of
           Some p \<Rightarrow> Some p
         | None \<Rightarrow> if alias = None \<and> module_id_opt \<noteq> None then env_named_pipelines env (None, name) else None)"

section \<open>Error envelopes\<close>

definition extract_error_type :: "json \<Rightarrow> string option" where
  "extract_error_type input =
     (case json_get ''errors'' input of
        Some (JArray (first_error # _)) \<Rightarrow> Option.bind (json_get ''type'' first_error) as_str
      | _ \<Rightarrow> None)"

definition override_error_type :: "json \<Rightarrow> string option \<Rightarrow> json" where
  "override_error_type input new_type =
     (case new_type of
        None \<Rightarrow> input
      | Some ty \<Rightarrow>
          (case input of
             JObject m \<Rightarrow>
               (case map_of m ''errors'' of
                  Some (JArray (JObject err # rest)) \<Rightarrow>
                    JObject (om_insert ''errors''
                      (JArray (JObject (om_insert ''type'' (JString ty) err) # rest)) m)
                | _ \<Rightarrow> input)
           | _ \<Rightarrow> input))"

definition make_middleware_error_value :: "string \<Rightarrow> string \<Rightarrow> string option \<Rightarrow> json" where
  "make_middleware_error_value middleware_name message location =
     JObject [(''errors'', JArray [JObject
       ([(''type'', JString (middleware_name @ ''Error'')), (''message'', JString message),
         (''step'', JString middleware_name)] @
        (case location of None \<Rightarrow> [] | Some loc \<Rightarrow> [(''location'', JString loc)]))])]"

definition determine_target_name :: "tag_expr option \<Rightarrow> json \<Rightarrow> bool \<Rightarrow> string option \<times> bool" where
  "determine_target_name condition state auto_named =
     (case Option.bind condition get_result_from_tag_expr of
        Some result_name \<Rightarrow> (Some result_name, False)
      | None \<Rightarrow>
          (case Option.bind (json_get ''resultName'' state) as_str of
             Some result_name \<Rightarrow> (Some result_name, auto_named)
           | None \<Rightarrow> (None, False)))"

definition select_branch :: "result_branch list \<Rightarrow> string option \<Rightarrow> result_branch option" where
  "select_branch branches err =
     (let default = find (\<lambda>b. rb_type b = BranchDefault) branches in
      case err of
        Some err_type \<Rightarrow>
          (case find (\<lambda>b. rb_type b = BranchCustom err_type) branches of
             Some branch \<Rightarrow> Some branch | None \<Rightarrow> default)
      | None \<Rightarrow>
          (case find (\<lambda>b. rb_type b = BranchOk) branches of
             Some branch \<Rightarrow> Some branch | None \<Rightarrow> default))"

section \<open>Properties\<close>

lemma override_error_type_None [simp]: "override_error_type v None = v"
  by (simp add: override_error_type_def)

lemma extract_make_error [simp]:
  "extract_error_type (make_middleware_error_value name msg loc) = Some (name @ ''Error'')"
  by (simp add: extract_error_type_def make_middleware_error_value_def)

lemma extract_override_make_error:
  "extract_error_type (override_error_type (make_middleware_error_value name msg loc) ty) =
     Some (case ty of None \<Rightarrow> name @ ''Error'' | Some t \<Rightarrow> t)"
  by (auto simp: extract_error_type_def override_error_type_def make_middleware_error_value_def
      split: option.splits)

lemma override_error_type_other:
  "extract_error_type v = None \<Longrightarrow> k \<noteq> ''errors'' \<Longrightarrow> json_get k (override_error_type v ty) = json_get k v"
  by (auto simp: override_error_type_def split: option.splits json.splits list.splits)

lemma make_error_wf [wf_intros]: "wf_json (make_middleware_error_value name msg loc)"
  by (auto simp: make_middleware_error_value_def split: option.splits)

lemma override_error_type_wf [wf_intros]: "wf_json v \<Longrightarrow> wf_json (override_error_type v ty)"
proof -
  assume v: "wf_json v"
  show ?thesis
  proof (cases "override_error_type v ty = v")
    case False
    then obtain t m err rest where c: "ty = Some t" "v = JObject m"
      "map_of m ''errors'' = Some (JArray (JObject err # rest))"
      by (auto simp: override_error_type_def split: option.splits json.splits list.splits)
    have "wf_json (JArray (JObject err # rest))" using v c wf_json_get [of v "''errors''"] by simp
    then have "wf_json (JArray (JObject (om_insert ''type'' (JString t) err) # rest))"
      using wf_json_insert [of err "JString t" "''type''"] by simp
    with v c have "wf_json (JObject (om_insert ''errors''
        (JArray (JObject (om_insert ''type'' (JString t) err) # rest)) m))"
      by (intro wf_json_insert) auto
    with c show ?thesis by (simp add: override_error_type_def)
  qed (simp add: v)
qed

lemma with_result_name_wf [wf_intros]: "wf_json input \<Longrightarrow> wf_json (fst (snd (with_result_name var input)))"
  using wf_json_insert by (auto simp: with_result_name_def simp del: wf_json.simps(2) split: json.splits)

lemma resolve_config_wf [wf_intros]:
  "wf_json input \<Longrightarrow> wf_json (fst (snd (resolve_config_and_autoname env l n c input)))"
  by (auto simp: resolve_config_and_autoname_def intro: wf_intros
      split: option.splits prod.splits)

text \<open>The configuration a step resolves to does not depend on the state.\<close>

lemma resolve_config_static:
  "fst (resolve_config_and_autoname env l n c input) = fst (resolve_config_and_autoname env l n c input')"
proof -
  have "fst (with_result_name v input) = fst (with_result_name v input')" for v
    by (auto simp: with_result_name_def split: json.splits)
  then show ?thesis
    by (auto simp: resolve_config_and_autoname_def split: option.splits prod.splits)
qed

text \<open>
  A result block answers an error by the first branch named after its type, else by its first
  default branch; it answers a state without a typed error by its first \<open>ok\<close> branch, else by the
  default; and no branch is chosen exactly when neither exists.
\<close>

theorem select_branch_spec:
  "select_branch branches err = Some b \<longleftrightarrow>
     (let wanted = (case err of None \<Rightarrow> BranchOk | Some t \<Rightarrow> BranchCustom t) in
      (\<exists>pre post. branches = pre @ b # post \<and>
         (rb_type b = wanted \<and> (\<forall>x \<in> set pre. rb_type x \<noteq> wanted) \<or>
          rb_type b = BranchDefault \<and> (\<forall>x \<in> set branches. rb_type x \<noteq> wanted) \<and>
          (\<forall>x \<in> set pre. rb_type x \<noteq> BranchDefault))))"
proof -
  have find_spec: "find P xs = Some y \<longleftrightarrow> (\<exists>pre post. xs = pre @ y # post \<and> P y \<and> (\<forall>x \<in> set pre. \<not> P x))"
    for P :: "result_branch \<Rightarrow> bool" and xs y
  proof (induction xs)
    case (Cons x xs)
    show ?case
    proof (cases "P x")
      case True
      then show ?thesis by (auto simp: Cons_eq_append_conv)
    next
      case False
      then show ?thesis using Cons by (auto simp: Cons_eq_append_conv) (metis append_Cons list.set_intros(1) set_ConsD)+
    qed
  qed simp
  define wanted where "wanted = (case err of None \<Rightarrow> BranchOk | Some t \<Rightarrow> BranchCustom t)"
  have s: "select_branch branches err =
      (case find (\<lambda>b. rb_type b = wanted) branches of
         Some x \<Rightarrow> Some x | None \<Rightarrow> find (\<lambda>b. rb_type b = BranchDefault) branches)"
    by (simp add: select_branch_def wanted_def Let_def split: option.splits)
  have w: "wanted \<noteq> BranchDefault" by (simp add: wanted_def split: option.splits)
  show ?thesis
  proof (cases "find (\<lambda>b. rb_type b = wanted) branches")
    case None
    then have n: "\<forall>x \<in> set branches. rb_type x \<noteq> wanted" by (simp add: find_None_iff)
    with None show ?thesis
      unfolding s wanted_def [symmetric] Let_def by (auto simp: find_spec)
  next
    case (Some c)
    then obtain pre post where c: "branches = pre @ c # post" "rb_type c = wanted" by (auto simp: find_spec)
    have "select_branch branches err = Some b \<longleftrightarrow> find (\<lambda>b. rb_type b = wanted) branches = Some b"
      using Some by (simp add: s)
    also have "\<dots> \<longleftrightarrow> (\<exists>pre post. branches = pre @ b # post \<and> rb_type b = wanted \<and>
        (\<forall>x \<in> set pre. rb_type x \<noteq> wanted))" by (rule find_spec)
    finally have sel: "select_branch branches err = Some b \<longleftrightarrow>
      (\<exists>pre post. branches = pre @ b # post \<and> rb_type b = wanted \<and> (\<forall>x \<in> set pre. rb_type x \<noteq> wanted))" .
    have no_default: "(\<forall>x \<in> set branches. rb_type x \<noteq> wanted) \<longleftrightarrow> False" using c by auto
    show ?thesis
      unfolding wanted_def [symmetric] Let_def sel no_default by simp
  qed
qed

theorem select_branch_spec_witness:
  "select_branch [ResultBranch BranchDefault 500 (Pipeline []) default_location,
       ResultBranch (BranchCustom ''authError'') 401 (Pipeline []) default_location] (Some ''authError'') =
     Some (ResultBranch (BranchCustom ''authError'') 401 (Pipeline []) default_location)"
proof -
  let ?d = "ResultBranch BranchDefault 500 (Pipeline []) default_location"
  let ?a = "ResultBranch (BranchCustom ''authError'') 401 (Pipeline []) default_location"
  have "\<exists>pre post. [?d, ?a] = pre @ ?a # post \<and> (\<forall>x \<in> set pre. rb_type x \<noteq> BranchCustom ''authError'')"
    by (rule exI [of _ "[?d]"], rule exI [of _ "[]"]) simp
  then show ?thesis unfolding select_branch_spec Let_def by auto
qed

end
