(* ===== verification/Pipeline_State.thy ===== *)
theory Pipeline_State
  imports Exec_Env
begin

text \<open>
  How a step's result becomes the pipeline state (\<^verbatim>\<open>src/runtime/pipeline_context.rs\<close> and
  \<^verbatim>\<open>update_pipeline_state\<close> of \<^verbatim>\<open>src/executor/step.rs\<close>): merging, replacing, and carrying
  the runtime keys over a transformation.
\<close>

definition RUNTIME_KEYS :: "string list" where
  "RUNTIME_KEYS = [''async'', ''data'', ''originalRequest'', ''query'', ''params'', ''body'', ''headers'',
     ''cookies'', ''method'', ''path'', ''ip'', ''content_type'']"

definition merge_state :: "json \<Rightarrow> pipeline_context \<Rightarrow> pipeline_context" where
  "merge_state incoming pc =
     (case (pc_state pc, incoming) of
        (JObject current_obj, JObject incoming_obj) \<Rightarrow>
          pc\<lparr>pc_state := JObject (om_insert_all incoming_obj current_obj)\<rparr>
      | _ \<Rightarrow> pc\<lparr>pc_state := incoming\<rparr>)"

definition replace_state :: "json \<Rightarrow> pipeline_context \<Rightarrow> pipeline_context" where
  "replace_state new_state pc = pc\<lparr>pc_state := new_state\<rparr>"

definition backup_system_keys :: "pipeline_context \<Rightarrow> (string \<times> json) list" where
  "backup_system_keys pc =
     List.map_filter (\<lambda>key. map_option (Pair key) (json_get key (pc_state pc))) RUNTIME_KEYS"

definition restore_key :: "string \<times> json \<Rightarrow> json_map \<Rightarrow> json_map" where
  "restore_key kv m = (if om_has (fst kv) m then m else om_insert (fst kv) (snd kv) m)"

definition restore_system_keys :: "(string \<times> json) list \<Rightarrow> pipeline_context \<Rightarrow> pipeline_context" where
  "restore_system_keys backups pc = pc\<lparr>pc_state := map_object (fold restore_key backups) (pc_state pc)\<rparr>"

definition update_pipeline_state ::
  "json \<Rightarrow> state_behavior \<Rightarrow> bool \<Rightarrow> pipeline_context \<Rightarrow> pipeline_context" where
  "update_pipeline_state new_value behavior is_last_step pc =
     (case behavior of
        Merge \<Rightarrow> merge_state new_value pc
      | Transform \<Rightarrow>
          if is_last_step then replace_state new_value pc
          else (let backups = backup_system_keys pc
                in restore_system_keys backups (replace_state new_value pc))
      | Render \<Rightarrow> replace_state new_value pc
      | ReadOnly \<Rightarrow> pc)"

section \<open>Lookup after each operation\<close>

lemma merge_state_other [frame]:
  "pc_pending_cache_saves (merge_state v pc) = pc_pending_cache_saves pc"
  "pc_cache_hit (merge_state v pc) = pc_cache_hit pc"
  "pc_current_step_id (merge_state v pc) = pc_current_step_id pc"
  by (auto simp: merge_state_def split: json.splits)

lemma update_pipeline_state_other [frame]:
  "pc_pending_cache_saves (update_pipeline_state v b l pc) = pc_pending_cache_saves pc"
  "pc_cache_hit (update_pipeline_state v b l pc) = pc_cache_hit pc"
  "pc_current_step_id (update_pipeline_state v b l pc) = pc_current_step_id pc"
  by (auto simp: update_pipeline_state_def frame replace_state_def restore_system_keys_def Let_def
      split: state_behavior.splits)

lemma merge_state_lookup:
  "pc_state pc = JObject m \<Longrightarrow>
   json_get k (pc_state (merge_state (JObject new) pc)) =
     (case map_of (rev new) k of None \<Rightarrow> map_of m k | Some v \<Rightarrow> Some v)"
  by (simp add: merge_state_def om_insert_all_lookup)

lemma restore_key_lookup:
  "map_of (restore_key kv m) k =
     (case map_of m k of Some v \<Rightarrow> Some v | None \<Rightarrow> if k = fst kv then Some (snd kv) else None)"
  by (auto simp: restore_key_def om_has_def split: option.splits)

lemma restore_keys_lookup:
  "map_of (fold restore_key backups m) k =
     (case map_of m k of Some v \<Rightarrow> Some v | None \<Rightarrow> map_of backups k)"
proof (induction backups arbitrary: m)
  case (Cons kv backups)
  show ?case
    by (cases kv) (simp add: Cons.IH restore_key_lookup split: option.splits)
qed (simp split: option.splits)

lemma backups_lookup:
  "map_of (List.map_filter (\<lambda>key. map_option (Pair key) (f key)) ks) k =
     (if k \<in> set ks then f k else None)"
  by (induction ks) (auto simp: List.map_filter_def split: option.splits)

lemma backup_system_keys_lookup:
  "map_of (backup_system_keys pc) k = (if k \<in> set RUNTIME_KEYS then json_get k (pc_state pc) else None)"
  by (simp add: backup_system_keys_def backups_lookup)

lemma restore_key_wf: "wf_json (JObject m) \<Longrightarrow> wf_json (snd kv) \<Longrightarrow> wf_json (JObject (restore_key kv m))"
  using wf_json_insert [of m "snd kv" "fst kv"] by (simp add: restore_key_def)

lemma restore_keys_wf:
  "wf_json (JObject m) \<Longrightarrow> \<forall>kv \<in> set backups. wf_json (snd kv) \<Longrightarrow>
   wf_json (JObject (fold restore_key backups m))"
proof (induction backups arbitrary: m)
  case (Cons kv backups)
  have "wf_json (JObject (restore_key kv m))" by (rule restore_key_wf) (use Cons.prems in auto)
  from Cons.IH [OF this] Cons.prems(2) show ?case by simp
qed simp

lemma backup_system_keys_wf:
  assumes "wf_json (pc_state pc)" and "kv \<in> set (backup_system_keys pc)"
  shows "wf_json (snd kv)"
proof -
  from assms(2) obtain key v where "json_get key (pc_state pc) = Some v" "kv = (key, v)"
    by (auto simp: backup_system_keys_def List.map_filter_def)
  then show ?thesis using wf_json_get [OF assms(1)] by auto
qed

lemma merge_state_wf [wf_intros]:
  "wf_json (pc_state pc) \<Longrightarrow> wf_json v \<Longrightarrow> wf_json (pc_state (merge_state v pc))"
  using wf_json_insert_all
  by (auto simp: merge_state_def simp del: wf_json.simps split: json.splits)

lemma restore_system_keys_wf:
  "wf_json (pc_state pc) \<Longrightarrow> \<forall>kv \<in> set backups. wf_json (snd kv) \<Longrightarrow>
   wf_json (pc_state (restore_system_keys backups pc))"
  using restore_keys_wf by (cases "pc_state pc") (auto simp: restore_system_keys_def simp del: wf_json.simps(2))

lemma update_pipeline_state_wf [wf_intros]:
  assumes "wf_json (pc_state pc)" and "wf_json v"
  shows "wf_json (pc_state (update_pipeline_state v b l pc))"
proof -
  have "wf_json (pc_state (restore_system_keys (backup_system_keys pc) (replace_state v pc)))"
    by (rule restore_system_keys_wf) (use assms backup_system_keys_wf in \<open>auto simp: replace_state_def\<close>)
  with assms merge_state_wf [OF assms] show ?thesis
    by (auto simp: update_pipeline_state_def replace_state_def Let_def split: state_behavior.splits)
qed

text \<open>
  A transforming step that is not the last keeps every runtime key it did not set itself
  (request data, collected results), keeps nothing else of the old state, and a step that is the
  last returns exactly its own value; a merging step keeps every key it did not set.
\<close>

theorem state_update_lookup:
  assumes "pc_state pc = JObject old" and "wf_omap new"
  shows "json_get k (pc_state (update_pipeline_state (JObject new) Transform False pc)) =
      (case map_of new k of Some v \<Rightarrow> Some v
       | None \<Rightarrow> if k \<in> set RUNTIME_KEYS then map_of old k else None)
    \<and> json_get k (pc_state (update_pipeline_state (JObject new) Merge is_last pc)) =
      (case map_of new k of Some v \<Rightarrow> Some v | None \<Rightarrow> map_of old k)
    \<and> pc_state (update_pipeline_state v Transform True pc) = v
    \<and> pc_state (update_pipeline_state v Render is_last pc) = v
    \<and> pc_state (update_pipeline_state v ReadOnly is_last pc) = JObject old"
  using assms
  by (auto simp: update_pipeline_state_def merge_state_lookup map_of_rev_wf Let_def replace_state_def
      restore_system_keys_def restore_keys_lookup backup_system_keys_lookup split: option.splits)

theorem state_update_lookup_witness:
  "json_get ''params'' (pc_state (update_pipeline_state (JObject [(''x'', JNull)]) Transform False
     (pipeline_context_new (JObject [(''params'', JBool True), (''tmp'', JNull)])))) = Some (JBool True)"
  using state_update_lookup [of "pipeline_context_new (JObject [(''params'', JBool True), (''tmp'', JNull)])"
      "[(''params'', JBool True), (''tmp'', JNull)]" "[(''x'', JNull)]" "''params''" False JNull]
  by (simp add: pipeline_context_new_def RUNTIME_KEYS_def)

end
