(* ===== verification/Json_Path.thy ===== *)
theory Json_Path
  imports Json_Value
begin

text \<open>
  Dotted paths into a JSON value (\<^verbatim>\<open>src/runtime/json_path.rs\<close>): the selector of a
  \<^verbatim>\<open>foreach\<close> block. A mutable reference to a slot is modelled by its two uses: reading it
  (\<^verbatim>\<open>get_parts\<close>) and storing into it (\<^verbatim>\<open>put_parts\<close>). The locale \<^verbatim>\<open>slot\<close> states what
  a client of such a reference relies on, and the interpretation shows that paths provide it.
\<close>

definition parse_path :: "string \<Rightarrow> string list" where
  "parse_path path = filter (\<lambda>s. s \<noteq> []) (split_char CHR ''.'' (trim_start_char CHR ''.'' path))"

text \<open>The index a path segment means in an array: any decimal that fits \<^verbatim>\<open>usize\<close>.\<close>

definition array_index :: "string \<Rightarrow> nat option" where
  "array_index part = parse_uint 64 part"

text \<open>
  Walking down a value, by keys of objects and by what the tokens mean as indexes of arrays: the
  walk shared by dotted paths and by JSON pointers.
\<close>

fun look_along :: "(string \<Rightarrow> nat option) \<Rightarrow> string list \<Rightarrow> json \<Rightarrow> json option" where
  "look_along index [] j = Some j"
| "look_along index (part # parts) j =
     (case j of
        JObject m \<Rightarrow> Option.bind (map_of m part) (look_along index parts)
      | JArray xs \<Rightarrow>
          Option.bind (index part)
            (\<lambda>i. if i < length xs then look_along index parts (xs ! i) else None)
      | _ \<Rightarrow> None)"

definition get_parts :: "string list \<Rightarrow> json \<Rightarrow> json option" where
  "get_parts parts j = look_along array_index parts j"

definition get_value :: "json \<Rightarrow> string \<Rightarrow> json option" where
  "get_value root path = get_parts (parse_path path) root"

text \<open>
  Storing through the reference \<^verbatim>\<open>get_value_mut\<close> returns: the value with the slot
  replaced, or \<^const>\<open>None\<close> where the reference does not exist.
\<close>

fun store_along :: "(string \<Rightarrow> nat option) \<Rightarrow> string list \<Rightarrow> json \<Rightarrow> json \<Rightarrow> json option" where
  "store_along index [] v j = Some v"
| "store_along index (part # parts) v j =
     (case j of
        JObject m \<Rightarrow>
          Option.bind (map_of m part) (\<lambda>old.
            map_option (\<lambda>new. JObject (om_insert part new m)) (store_along index parts v old))
      | JArray xs \<Rightarrow>
          Option.bind (index part) (\<lambda>i.
            if i < length xs
            then map_option (\<lambda>new. JArray (xs[i := new])) (store_along index parts v (xs ! i))
            else None)
      | _ \<Rightarrow> None)"

definition put_parts :: "string list \<Rightarrow> json \<Rightarrow> json \<Rightarrow> json option" where
  "put_parts parts v j = store_along array_index parts v j"

definition set_value_mut :: "json \<Rightarrow> string \<Rightarrow> json \<Rightarrow> json option" where
  "set_value_mut root path v = put_parts (parse_path path) v root"

text \<open>\<^verbatim>\<open>get_value_mut(..).map(|v| v.take())\<close>: the old value, and \<^const>\<open>JNull\<close> in its place.\<close>

definition take_value_mut :: "json \<Rightarrow> string \<Rightarrow> json option \<times> json" where
  "take_value_mut root path =
     (case get_value root path of
        None \<Rightarrow> (None, root)
      | Some v \<Rightarrow> (Some v, (case set_value_mut root path JNull of None \<Rightarrow> root | Some r \<Rightarrow> r)))"

section \<open>What a slot promises\<close>

locale slot =
  fixes look :: "'s \<Rightarrow> 'v option"
    and store :: "'v \<Rightarrow> 's \<Rightarrow> 's option"
  assumes store_exists: "store v s = None \<longleftrightarrow> look s = None"
    and look_store: "store v s = Some s' \<Longrightarrow> look s' = Some v"
    and store_look: "look s = Some v \<Longrightarrow> store v s = Some s"
    and store_store: "store v s = Some s' \<Longrightarrow> store w s' = store w s"
begin

lemma store_defined: "look s = Some v \<Longrightarrow> \<exists>s'. store w s = Some s'"
  using store_exists [of w s] by auto

lemma take_then_restore:
  assumes "look s = Some v" and "store hole s = Some s'"
  shows "store v s' = Some s"
  using store_store [OF assms(2), of v] store_look [OF assms(1)] by simp

lemma take_then_implant:
  assumes "store hole s = Some s'"
  shows "store w s' = store w s" and "look s' = Some hole"
  using store_store [OF assms] look_store [OF assms] by auto

end

lemma om_insert_same: "map_of m k = Some v \<Longrightarrow> om_insert k v m = m"
  by (induction m) (auto split: if_splits)

lemma om_insert_twice: "om_insert k w (om_insert k v m) = om_insert k w m"
  by (induction m) auto

lemma store_along_None_iff: "store_along index ps v j = None \<longleftrightarrow> look_along index ps j = None"
  by (induction ps arbitrary: j) (auto split: json.splits option.splits simp: Option.bind_eq_None_conv)

lemma look_store_along: "store_along index ps v j = Some j' \<Longrightarrow> look_along index ps j' = Some v"
  by (induction ps arbitrary: j j')
    (auto split: json.splits if_splits simp: Option.bind_eq_Some_conv map_option_eq_Some)

lemma store_look_along: "look_along index ps j = Some v \<Longrightarrow> store_along index ps v j = Some j"
proof (induction ps arbitrary: j)
  case (Cons p ps)
  then show ?case
    by (cases j) (auto split: if_splits simp: Option.bind_eq_Some_conv om_insert_same)
qed simp

lemma store_store_along: "store_along index ps v j = Some j' \<Longrightarrow> store_along index ps w j' = store_along index ps w j"
proof (induction ps arbitrary: j j')
  case (Cons p ps)
  show ?case
  proof (cases j)
    case (JArray xs)
    with Cons.prems obtain i new where i: "index p = Some i" "i < length xs"
      and new: "store_along index ps v (xs ! i) = Some new" and j': "j' = JArray (xs[i := new])"
      by (auto split: if_splits simp: Option.bind_eq_Some_conv map_option_eq_Some)
    from Cons.IH [OF new] i j' JArray show ?thesis by simp
  next
    case (JObject m)
    with Cons.prems obtain old new where old: "map_of m p = Some old"
      and new: "store_along index ps v old = Some new" and j': "j' = JObject (om_insert p new m)"
      by (auto simp: Option.bind_eq_Some_conv map_option_eq_Some)
    from Cons.IH [OF new] old j' JObject show ?thesis by (simp add: om_insert_twice)
  qed (use Cons.prems in auto)
qed simp

lemma store_along_wf [wf_intros]:
  "store_along index ps v j = Some j' \<Longrightarrow> wf_json j \<Longrightarrow> wf_json v \<Longrightarrow> wf_json j'"
proof (induction ps arbitrary: j j')
  case (Cons p ps)
  show ?case
  proof (cases j)
    case (JArray xs)
    with Cons.prems obtain i new where i: "i < length xs"
      and new: "store_along index ps v (xs ! i) = Some new" and j': "j' = JArray (xs[i := new])"
      by (auto split: if_splits simp: Option.bind_eq_Some_conv map_option_eq_Some)
    have "wf_json (xs ! i)" using Cons.prems(2) i JArray by simp
    then have "wf_json new" using Cons.IH [OF new] Cons.prems(3) by simp
    with Cons.prems(2) JArray show ?thesis
      by (auto simp: j' dest!: subsetD [OF set_update_subset_insert])
  next
    case (JObject m)
    with Cons.prems obtain old new where old: "map_of m p = Some old"
      and new: "store_along index ps v old = Some new" and j': "j' = JObject (om_insert p new m)"
      by (auto simp: Option.bind_eq_Some_conv map_option_eq_Some)
    have "wf_json old" using Cons.prems(2) old JObject wf_json_get [of j p old] by simp
    then have "wf_json new" using Cons.IH [OF new] Cons.prems(3) by simp
    with Cons.prems(2) JObject show ?thesis unfolding j' by (blast intro: wf_json_insert)
  qed (use Cons.prems in auto)
qed simp

lemma look_along_wf [wf_intros]: "look_along index ps j = Some v \<Longrightarrow> wf_json j \<Longrightarrow> wf_json v"
proof (induction ps arbitrary: j)
  case (Cons p ps)
  then show ?case
    by (cases j)
      (auto split: if_splits simp: Option.bind_eq_Some_conv dest!: map_of_SomeD)
qed simp

text \<open>A store below one key of an object is invisible below every other key.\<close>

lemma look_store_other_key:
  "store_along index (common @ k # ps) v j = Some j' \<Longrightarrow> k \<noteq> k' \<Longrightarrow>
   look_along index common j = Some (JObject m) \<Longrightarrow>
   look_along index (common @ k' # qs) j' = look_along index (common @ k' # qs) j"
proof (induction common arbitrary: j j')
  case Nil
  then show ?case by (auto simp: Option.bind_eq_Some_conv map_option_eq_Some)
next
  case (Cons p common)
  then show ?case
    by (cases j) (auto split: if_splits simp: Option.bind_eq_Some_conv map_option_eq_Some)
qed

interpretation token_slot: slot "look_along index ps" "store_along index ps" for index ps
  by unfold_locales
    (rule store_along_None_iff | erule look_store_along | erule store_look_along | erule store_store_along)+

interpretation path_slot: slot "get_parts ps" "put_parts ps" for ps
  unfolding get_parts_def put_parts_def by (rule token_slot.slot_axioms)

lemmas put_parts_wf [wf_intros] = store_along_wf [of array_index, folded put_parts_def]
lemmas get_parts_wf [wf_intros] = look_along_wf [of array_index, folded get_parts_def]
lemmas get_put_other_key = look_store_other_key [of array_index, folded put_parts_def get_parts_def]

text \<open>Taking a value out and putting one back is one store, and the taken value is the one read.\<close>

lemma take_value_mut_read: "fst (take_value_mut root path) = get_value root path"
  by (simp add: take_value_mut_def split: option.splits)

lemma take_value_mut_implant:
  "get_value root path = Some v \<Longrightarrow>
   set_value_mut (snd (take_value_mut root path)) path w = set_value_mut root path w"
  using path_slot.take_then_implant(1) [of "parse_path path" JNull root]
    path_slot.store_defined [of "parse_path path" root v JNull]
  by (auto simp: take_value_mut_def set_value_mut_def get_value_def)

lemma take_value_mut_wf [wf_intros]: "wf_json root \<Longrightarrow> wf_json (snd (take_value_mut root path))"
  by (auto simp: take_value_mut_def set_value_mut_def split: option.splits
      intro: put_parts_wf [where v = JNull])

text \<open>
  Taking the value at a path and storing another one there is seen at that path, is undone by
  storing the taken value back, and is not seen at any path that leaves it at another object key.
\<close>

text \<open>
  What a \<open>foreach\<close> step relies on: a value written back where one was taken is read there,
  putting the taken value back restores the whole, and no other key of any object on the way is
  touched.
\<close>

theorem foreach_slot_laws:
  assumes "get_value root path = Some v"
    and "set_value_mut (snd (take_value_mut root path)) path w = Some root'"
  shows "get_value root' path = Some w \<and> set_value_mut root' path v = Some root \<and>
    (\<forall>common k ps m k' qs. parse_path path = common @ k # ps \<and> k \<noteq> k' \<and>
       get_parts common root = Some (JObject m) \<longrightarrow>
       get_parts (common @ k' # qs) root' = get_parts (common @ k' # qs) root)"
proof -
  have w: "put_parts (parse_path path) w root = Some root'"
    using assms take_value_mut_implant [OF assms(1)] by (simp add: set_value_mut_def)
  have v: "get_parts (parse_path path) root = Some v"
    using assms(1) by (simp add: get_value_def)
  have "get_value root' path = Some w"
    using path_slot.look_store [OF w] by (simp add: get_value_def)
  moreover have "set_value_mut root' path v = Some root"
    using path_slot.take_then_restore [OF v w] by (simp add: set_value_mut_def)
  ultimately show ?thesis
    using w by (metis get_put_other_key)
qed

theorem foreach_slot_laws_witness:
  "set_value_mut (JObject [(''items'', JNull), (''n'', JBool True)]) ''items'' (JArray [JNull]) =
     Some (JObject [(''items'', JArray [JNull]), (''n'', JBool True)])"
proof -
  let ?r = "JObject [(''items'', JArray [JNull]), (''n'', JBool True)]"
  have p: "parse_path ''items'' = [''items'']" by code_simp
  have g: "get_value ?r ''items'' = Some (JArray [JNull])" by (simp add: get_value_def get_parts_def p)
  have s: "set_value_mut (snd (take_value_mut ?r ''items'')) ''items'' (JBool False) =
      Some (JObject [(''items'', JBool False), (''n'', JBool True)])"
    by (simp add: take_value_mut_def set_value_mut_def get_value_def get_parts_def put_parts_def p)
  from foreach_slot_laws [OF g s] show ?thesis by (simp add: set_value_mut_def put_parts_def p)
qed

end
