(* ===== verification/Step.thy ===== *)
theory Step
  imports Resolver Pipeline_State Json_Path
begin

text \<open>
  The execution of one step (\<^verbatim>\<open>src/executor/step.rs\<close>). The recursion is open: a handler
  that runs a pipeline takes the runner as its first argument \<open>run\<close>, and the theory
  \<^verbatim>\<open>Executor\<close> closes it.

  A task spawned by an \<^verbatim>\<open>@async\<close> step runs as one piece, either when it is spawned or when
  it is joined, as the platform's scheduler decides; interleavings inside a task are not modelled.
\<close>

type_synonym ('l, 'r, 'w) runner =
  "pipeline \<Rightarrow> string option \<Rightarrow> json \<Rightarrow> (('l, 'r, 'w) machine, json \<times> string \<times> u16 option) ex"

record ('l, 'r, 'w) step_state =
  ss_machine :: "('l, 'r, 'w) machine"
  ss_pipe :: pipeline_context
  ss_output :: pipeline_output

section \<open>Access to the parts of the state\<close>

definition ss_state :: "('l, 'r, 'w) step_state \<Rightarrow> json" where
  "ss_state s = pc_state (ss_pipe s)"

definition set_state :: "json \<Rightarrow> ('l, 'r, 'w) step_state \<Rightarrow> ('l, 'r, 'w) step_state" where
  "set_state v s = s\<lparr>ss_pipe := (ss_pipe s)\<lparr>pc_state := v\<rparr>\<rparr>"

definition take_state :: "('l, 'r, 'w) step_state \<Rightarrow> json \<times> ('l, 'r, 'w) step_state" where
  "take_state s = (ss_state s, set_state JNull s)"

definition set_ctx :: "'w request_context \<Rightarrow> ('l, 'r, 'w) machine \<Rightarrow> ('l, 'r, 'w) machine" where
  "set_ctx ctx m = m\<lparr>mc_ctx := ctx\<rparr>"

definition on_machine ::
  "(('l, 'r, 'w) machine, 'a) ex \<Rightarrow> (('l, 'r, 'w) step_state, 'a) ex" where
  "on_machine f s = (case f (ss_machine s) of
     None \<Rightarrow> None | Some (r, m) \<Rightarrow> Some (r, s\<lparr>ss_machine := m\<rparr>))"

section \<open>Execution mode and names\<close>

definition detect_execution_mode :: "string \<Rightarrow> tag_expr option \<Rightarrow> execution_mode" where
  "detect_execution_mode name condition =
     (case Option.bind condition get_async_from_tag_expr of
        Some async_name \<Rightarrow> Async async_name
      | None \<Rightarrow> if name = ''join'' then JoinMode else if name = ''pipeline'' then Recursive else Standard)"

definition regular_step_is_pipeline_shorthand :: "('l, 'r, 'w) execution_env \<Rightarrow> string \<Rightarrow> bool \<Rightarrow> bool" where
  "regular_step_is_pipeline_shorthand env name config_present \<longleftrightarrow>
     \<not> config_present \<and> name \<noteq> ''pipeline'' \<and> name \<noteq> ''loader'' \<and> env_behavior env name = None"

definition is_pipeline_shorthand :: "('l, 'r, 'w) execution_env \<Rightarrow> regular_step \<Rightarrow> bool" where
  "is_pipeline_shorthand env rs = regular_step_is_pipeline_shorthand env (rs_name rs) (rs_config_present rs)"

definition effective_name :: "('l, 'r, 'w) execution_env \<Rightarrow> regular_step \<Rightarrow> string" where
  "effective_name env rs =
     (if rs_name rs = ''pipeline'' \<or> is_pipeline_shorthand env rs then ''pipeline'' else rs_name rs)"

definition raw_config :: "('l, 'r, 'w) execution_env \<Rightarrow> regular_step \<Rightarrow> string" where
  "raw_config env rs =
     (if rs_name rs = ''pipeline'' then rs_config rs
      else if is_pipeline_shorthand env rs then rs_name rs
      else rs_config rs)"

text \<open>The last component of a path (\<^verbatim>\<open>Path::file_name\<close>).\<close>

definition file_name :: "string \<Rightarrow> string option" where
  "file_name path =
     (let comps = filter (\<lambda>c. c \<noteq> [] \<and> c \<noteq> ''.'') (split_char CHR ''/'' path) in
      if comps = [] \<or> last comps = ''..'' then None else Some (last comps))"

definition determine_step_name :: "pipeline_step \<Rightarrow> string" where
  "determine_step_name step =
     (let base_name =
            (case step of
               RegularStep rs \<Rightarrow>
                 if rs_name rs = ''pipeline'' then ''pipeline:'' @ trim (rs_config rs) else rs_name rs
             | IfStep _ _ _ _ \<Rightarrow> ''if''
             | ResultStep _ _ \<Rightarrow> ''result''
             | DispatchStep _ _ _ \<Rightarrow> ''dispatch''
             | ForeachStep _ _ _ \<Rightarrow> ''foreach'')
      in case loc_file_path (step_location step) of
           Some file_path \<Rightarrow>
             base_name @ ''@'' @ (case file_name file_path of Some f \<Rightarrow> f | None \<Rightarrow> file_path)
         | None \<Rightarrow> base_name)"

fun is_effectively_last_step ::
  "pipeline_step list \<Rightarrow> ('l, 'r, 'w) execution_env \<Rightarrow> 'w request_context \<Rightarrow> json \<Rightarrow> bool" where
  "is_effectively_last_step [] env ctx state = True"
| "is_effectively_last_step (step # remaining) env ctx state =
     (case step of
        RegularStep rs \<Rightarrow>
          if should_execute_step (rs_condition rs) env ctx state then False
          else is_effectively_last_step remaining env ctx state
      | _ \<Rightarrow> False)"

definition is_last_step ::
  "('l, 'r, 'w) execution_env \<Rightarrow> nat \<Rightarrow> pipeline_step list \<Rightarrow> ('l, 'r, 'w) step_state \<Rightarrow> bool" where
  "is_last_step env idx all_steps s =
     is_effectively_last_step (drop (idx + 1) all_steps) env (mc_ctx (ss_machine s)) (ss_state s)"

section \<open>Running middleware and named pipelines\<close>

definition handle_standard_execution ::
  "('l, 'r, 'w) execution_env \<Rightarrow> string \<Rightarrow> string list \<Rightarrow> string \<Rightarrow> string option \<Rightarrow> pipeline_context \<Rightarrow>
   ('l, 'r, 'w) machine \<Rightarrow> (web_pipe_error + step_result) \<times> pipeline_context \<times> ('l, 'r, 'w) machine" where
  "handle_standard_execution env name args config target pc m =
     (case env_invoker env name args config target pc m of
        (Inl e, pc', m') \<Rightarrow> (Inl e, pc', m')
      | (Inr out, pc', m') \<Rightarrow>
          (Inr \<lparr> sr_value = pc_state pc',
                 sr_content_type = (case mo_content_type out of None \<Rightarrow> ''application/json'' | Some ct \<Rightarrow> ct),
                 sr_status_code = None \<rparr>, pc', m'))"

definition pipeline_argument ::
  "('l, 'r, 'w) execution_env \<Rightarrow> string list \<Rightarrow> json \<Rightarrow> web_pipe_error + json" where
  "pipeline_argument env args input =
     (case args of
        [] \<Rightarrow> Inr input
      | arg # _ \<Rightarrow>
          (case env_jq env arg input of
             Inl e \<Rightarrow> Inl (MiddlewareExecutionError
                            (''pipeline argument evaluation failed: '' @ error_to_string e))
           | Inr arg_value \<Rightarrow>
               Inr (case (input, arg_value) of
                      (JObject input_obj, JObject arg_obj) \<Rightarrow> JObject (om_insert_all arg_obj input_obj)
                    | _ \<Rightarrow> arg_value)))"

definition handle_recursive_pipeline ::
  "('l, 'r, 'w) runner \<Rightarrow> ('l, 'r, 'w) execution_env \<Rightarrow> string list \<Rightarrow> string \<Rightarrow> source_location \<Rightarrow> json \<Rightarrow>
   (('l, 'r, 'w) machine, step_result) ex" where
  "handle_recursive_pipeline run env args config location input m =
     (let pipeline_name = trim config in
      case resolve_named_pipeline env location pipeline_name of
        None \<Rightarrow> Some (Inl (PipelineNotFound pipeline_name), m)
      | Some p \<Rightarrow>
          (case pipeline_argument env args input of
             Inl e \<Rightarrow> Some (Inl e, m)
           | Inr pipeline_input \<Rightarrow>
               (case run p None pipeline_input m of
                  None \<Rightarrow> None
                | Some (Inl e, m') \<Rightarrow> Some (Inl e, m')
                | Some (Inr (v, content_type, status), m') \<Rightarrow>
                    Some (Inr \<lparr> sr_value = v, sr_content_type = content_type, sr_status_code = status \<rparr>, m'))))"

section \<open>Asynchronous tasks\<close>

definition async_context ::
  "('l, 'r, 'w) execution_env \<Rightarrow> ('l, 'r, 'w) machine \<Rightarrow> ('l, 'r, 'w) machine" where
  "async_context env m =
     (case env_debugger env of
        None \<Rightarrow> m\<lparr>mc_ctx := request_context_new\<rparr>
      | Some dbg \<Rightarrow>
          (let (tid, w) = dh_allocate_thread_id dbg (mc_world m) in
           m\<lparr>mc_ctx := request_context_new\<lparr>rc_debug_thread_id := Some tid\<rparr>, mc_world := w\<rparr>))"

text \<open>The block a task runs, in a context of its own; the machine it returns holds that context.\<close>

definition async_task_body ::
  "('l, 'r, 'w) runner \<Rightarrow> ('l, 'r, 'w) execution_env \<Rightarrow> async_task \<Rightarrow>
   (('l, 'r, 'w) machine, json \<times> profiler) ex" where
  "async_task_body run env t m =
     (let (effective_config, effective_input, _) =
            resolve_config_and_autoname env (at_location t) (at_name t) (at_config t) (at_input t);
          m0 = async_context env m
      in if at_name t = ''pipeline'' then
           (let pipeline_name = trim effective_config in
            case resolve_named_pipeline env (at_location t) pipeline_name of
              None \<Rightarrow> Some (Inl (with_source_location (at_location t) (PipelineNotFound pipeline_name)), m0)
            | Some p \<Rightarrow>
                (case pipeline_argument env (at_args t) effective_input of
                   Inl e \<Rightarrow> Some (Inl (with_source_location (at_location t) e), m0)
                 | Inr pipeline_input \<Rightarrow>
                     (case run p None pipeline_input m0 of
                        None \<Rightarrow> None
                      | Some (Inl e, m') \<Rightarrow> Some (Inl (with_source_location (at_location t) e), m')
                      | Some (Inr (v, _, _), m') \<Rightarrow> Some (Inr (v, rc_profiler (mc_ctx m')), m'))))
         else
           (case env_invoker env (at_name t) (at_args t) effective_config None
                   (pipeline_context_new effective_input) m0 of
              (Inl e, pc', m') \<Rightarrow> Some (Inl (with_source_location (at_location t) e), m')
            | (Inr out, pc', m') \<Rightarrow> Some (Inr (pc_state pc', rc_profiler (mc_ctx m')), m')))"

definition run_task ::
  "('l, 'r, 'w) runner \<Rightarrow> ('l, 'r, 'w) execution_env \<Rightarrow> async_task \<Rightarrow> ('l, 'r, 'w) machine \<Rightarrow>
   (task_outcome \<times> ('l, 'r, 'w) machine) option" where
  "run_task run env t m =
     (case pl_task_panics (env_platform env) t of
        Some msg \<Rightarrow> Some (TaskPanicked msg, m)
      | None \<Rightarrow>
          (case async_task_body run env t m of
             None \<Rightarrow> None
           | Some (Inl e, m') \<Rightarrow> Some (TaskFailed e, set_ctx (mc_ctx m) m')
           | Some (Inr (v, p), m') \<Rightarrow> Some (TaskDone v p, set_ctx (mc_ctx m) m')))"

definition register_handle ::
  "string \<Rightarrow> join_handle \<Rightarrow> ('l, 'r, 'w) machine \<Rightarrow> ('l, 'r, 'w) machine" where
  "register_handle name h m =
     set_ctx ((mc_ctx m)\<lparr>rc_async_registry := registry_register name h (rc_async_registry (mc_ctx m))\<rparr>) m"

definition spawn_async_step ::
  "('l, 'r, 'w) runner \<Rightarrow> ('l, 'r, 'w) execution_env \<Rightarrow> string \<Rightarrow> string list \<Rightarrow> string \<Rightarrow> source_location \<Rightarrow>
   json \<Rightarrow> string \<Rightarrow> ('l, 'r, 'w) machine \<Rightarrow> ('l, 'r, 'w) machine option" where
  "spawn_async_step run env name args config location input async_name m =
     (let t = \<lparr> at_name = name, at_args = args, at_config = config, at_location = location,
                at_input = input \<rparr>
      in if pl_task_early (env_platform env) t then
           (case run_task run env t m of
              None \<Rightarrow> None
            | Some (outcome, m') \<Rightarrow> Some (register_handle async_name (Finished outcome) m'))
         else Some (register_handle async_name (Pending t) m))"

definition await_handle ::
  "('l, 'r, 'w) runner \<Rightarrow> ('l, 'r, 'w) execution_env \<Rightarrow> join_handle \<Rightarrow> ('l, 'r, 'w) machine \<Rightarrow>
   (task_outcome \<times> ('l, 'r, 'w) machine) option" where
  "await_handle run env h m =
     (case h of Finished outcome \<Rightarrow> Some (outcome, m) | Pending t \<Rightarrow> run_task run env t m)"

definition outcome_value :: "task_outcome \<Rightarrow> json" where
  "outcome_value outcome =
     (case outcome of
        TaskDone v _ \<Rightarrow> v
      | TaskFailed e \<Rightarrow> JObject [(''error'', JString (error_to_string e))]
      | TaskPanicked msg \<Rightarrow> JObject [(''error'', JString (''Task panicked: '' @ msg))])"

definition merge_task_samples :: "string \<Rightarrow> task_outcome \<Rightarrow> profiler \<Rightarrow> profiler" where
  "merge_task_samples task_name outcome p =
     (case outcome of
        TaskDone _ async_profiler \<Rightarrow>
          (let prefix = (if pf_stack p = [] then ''async:'' @ task_name @ '';''
                         else join '';'' (pf_stack p) @ '';async:'' @ task_name @ '';'')
           in p\<lparr>pf_samples := pf_samples p @
                map (\<lambda>(async_stack, duration). (prefix @ async_stack, duration)) (pf_samples async_profiler)\<rparr>)
      | _ \<Rightarrow> p)"

definition update_profiler ::
  "(profiler \<Rightarrow> profiler) \<Rightarrow> ('l, 'r, 'w) machine \<Rightarrow> ('l, 'r, 'w) machine" where
  "update_profiler f m = set_ctx ((mc_ctx m)\<lparr>rc_profiler := f (rc_profiler (mc_ctx m))\<rparr>) m"

fun join_tasks ::
  "('l, 'r, 'w) runner \<Rightarrow> ('l, 'r, 'w) execution_env \<Rightarrow> string list \<Rightarrow> json_map \<Rightarrow> ('l, 'r, 'w) machine \<Rightarrow>
   (json_map \<times> ('l, 'r, 'w) machine) option" where
  "join_tasks run env [] async_results m = Some (async_results, m)"
| "join_tasks run env (task_name # names) async_results m =
     (case registry_take task_name (rc_async_registry (mc_ctx m)) of
        (None, tasks) \<Rightarrow> join_tasks run env names async_results m
      | (Some h, tasks) \<Rightarrow>
          (case await_handle run env h (set_ctx ((mc_ctx m)\<lparr>rc_async_registry := tasks\<rparr>) m) of
             None \<Rightarrow> None
           | Some (outcome, m') \<Rightarrow>
               join_tasks run env names (om_insert task_name (outcome_value outcome) async_results)
                 (update_profiler (merge_task_samples task_name outcome) m')))"

definition handle_join ::
  "('l, 'r, 'w) runner \<Rightarrow> ('l, 'r, 'w) execution_env \<Rightarrow> string \<Rightarrow> string list option \<Rightarrow> json \<Rightarrow>
   (('l, 'r, 'w) machine, step_result) ex" where
  "handle_join run env config parsed_targets input m =
     (case (case parsed_targets of
              Some targets \<Rightarrow> Inr targets
            | None \<Rightarrow> parse_join_task_names (pl_parse_strings (env_platform env)) config) of
        Inl e \<Rightarrow> Some (Inl e, m)
      | Inr task_names \<Rightarrow>
          (case join_tasks run env task_names [] m of
             None \<Rightarrow> None
           | Some (async_results, m') \<Rightarrow>
               Some (Inr \<lparr> sr_value = map_object (om_insert ''async'' (JObject async_results)) input,
                           sr_content_type = ''application/json'', sr_status_code = None \<rparr>, m')))"

section \<open>Regular steps\<close>

definition log_pipeline_call ::
  "string \<Rightarrow> json \<Rightarrow> ('l, 'r, 'w) machine \<Rightarrow> ('l, 'r, 'w) machine" where
  "log_pipeline_call effective_config input m =
     (let log_key = ''pipeline.'' @ trim effective_config;
          calls = (case map_of (rc_call_log (mc_ctx m)) log_key of None \<Rightarrow> [] | Some cs \<Rightarrow> cs)
      in set_ctx ((mc_ctx m)\<lparr>rc_call_log := om_insert log_key (calls @ [input]) (rc_call_log (mc_ctx m))\<rparr>) m)"

definition step_id :: "source_location \<Rightarrow> nat \<Rightarrow> string" where
  "step_id location idx =
     (case loc_file_path location of None \<Rightarrow> ''?'' | Some f \<Rightarrow> f) @ '':'' @ show_nat (loc_line location) @
     '':'' @ show_nat (loc_column location) @ ''#'' @ show_nat idx"

definition run_core_logic ::
  "('l, 'r, 'w) runner \<Rightarrow> ('l, 'r, 'w) execution_env \<Rightarrow> regular_step \<Rightarrow> nat \<Rightarrow> execution_mode \<Rightarrow> string \<Rightarrow>
   string \<Rightarrow> json \<Rightarrow> string option \<Rightarrow> (('l, 'r, 'w) step_state, step_result) ex" where
  "run_core_logic run env rs idx mode name config input target s =
     (case mode of
        JoinMode \<Rightarrow> on_machine (handle_join run env config (rs_parsed_join_targets rs) input) s
      | Recursive \<Rightarrow>
          on_machine (handle_recursive_pipeline run env (rs_args rs) config (rs_location rs) input) s
      | _ \<Rightarrow>
          (let temp_ctx = (pipeline_context_new input)\<lparr>pc_current_step_id := Some (step_id (rs_location rs) idx)\<rparr>
           in case handle_standard_execution env name (rs_args rs) config target temp_ctx (ss_machine s) of
                (Inl e, temp', m') \<Rightarrow> Some (Inl e, s\<lparr>ss_machine := m'\<rparr>)
              | (Inr result, temp', m') \<Rightarrow>
                  Some (Inr result, s\<lparr>ss_machine := m',
                    ss_pipe := (ss_pipe s)\<lparr>
                      pc_pending_cache_saves := pc_pending_cache_saves (ss_pipe s) @ pc_pending_cache_saves temp',
                      pc_cache_hit := pc_cache_hit temp'\<rparr>\<rparr>)))"

definition data_wrap :: "string \<Rightarrow> json \<Rightarrow> json \<Rightarrow> json" where
  "data_wrap target v state =
     (case state of
        JObject obj \<Rightarrow>
          (let data_obj = (case map_of obj ''data'' of Some (JObject d) \<Rightarrow> d | _ \<Rightarrow> [])
           in JObject (om_insert ''data'' (JObject (om_insert target v data_obj)) obj))
      | _ \<Rightarrow> JObject [(''data'', JObject [(target, v)])])"

definition apply_result_to_state ::
  "('l, 'r, 'w) execution_env \<Rightarrow> string \<Rightarrow> json \<Rightarrow> string option \<Rightarrow> bool \<Rightarrow>
   ('l, 'r, 'w) step_state \<Rightarrow> ('l, 'r, 'w) step_state" where
  "apply_result_to_state env name new_value target is_last s =
     (let merged = s\<lparr>ss_pipe := update_pipeline_state new_value
            (case env_behavior env name of None \<Rightarrow> Merge | Some b \<Rightarrow> b) is_last (ss_pipe s)\<rparr>
      in case target of
           Some tgt \<Rightarrow>
             if name \<in> {''pg'', ''fetch'', ''graphql''} \<and> extract_error_type new_value = None
             then set_state (data_wrap tgt new_value (ss_state s)) s
             else merged
         | None \<Rightarrow> merged)"

definition update_metadata ::
  "string \<Rightarrow> string \<Rightarrow> u16 option \<Rightarrow> bool \<Rightarrow> ('l, 'r, 'w) step_state \<Rightarrow> ('l, 'r, 'w) step_state" where
  "update_metadata name content_type status is_last s =
     (let out1 = (if (content_type \<noteq> ''application/json'' \<or> is_last) \<and>
                     (name = ''pipeline'' \<or> is_last \<or> name = ''handlebars'' \<or> name = ''gg'' \<or>
                      name = ''algraf'' \<or> name = ''ag'')
                  then (ss_output s)\<lparr>po_content_type := content_type\<rparr> else ss_output s);
          out2 = (case status of Some c \<Rightarrow> out1\<lparr>po_status_code := Some c\<rparr> | None \<Rightarrow> out1)
      in s\<lparr>ss_output := out2\<rparr>)"

definition check_cache_stop ::
  "('l, 'r, 'w) step_state \<Rightarrow> step_outcome option \<times> ('l, 'r, 'w) step_state" where
  "check_cache_stop s =
     (case pc_cache_hit (ss_pipe s) of
        None \<Rightarrow> (None, s)
      | Some hit \<Rightarrow>
          (Some (Return \<lparr> po_state = cr_body hit, po_content_type = cr_content_type hit,
             po_status_code = (case cr_status_code hit of
                Some c \<Rightarrow> Some c | None \<Rightarrow> po_status_code (ss_output s)) \<rparr>),
           s\<lparr>ss_pipe := (ss_pipe s)\<lparr>pc_cache_hit := None\<rparr>\<rparr>))"

text \<open>What follows a successful core: the state, the metadata, a cached response, the clean-up.\<close>

definition finish_regular ::
  "('l, 'r, 'w) execution_env \<Rightarrow> regular_step \<Rightarrow> string \<Rightarrow> string option \<Rightarrow> bool \<Rightarrow> bool \<Rightarrow> step_result \<Rightarrow>
   ('l, 'r, 'w) step_state \<Rightarrow> step_outcome \<times> ('l, 'r, 'w) step_state" where
  "finish_regular env rs name target should_cleanup is_last result s =
     (let v = override_error_type (sr_value result) (Option.bind (rs_condition rs) get_error_from_tag_expr);
          s1 = apply_result_to_state env name v target is_last s;
          s2 = update_metadata name (sr_content_type result) (sr_status_code result) is_last s1
      in case check_cache_stop s2 of
           (Some outcome, s3) \<Rightarrow> (outcome, s3)
         | (None, s3) \<Rightarrow>
             (Continue, if should_cleanup then set_state (map_object (om_remove ''resultName'') (ss_state s3)) s3
                        else s3))"

text \<open>A step that is not spawned: resolution, the core by mode, and what follows.\<close>

definition regular_step_run ::
  "('l, 'r, 'w) runner \<Rightarrow> ('l, 'r, 'w) execution_env \<Rightarrow> regular_step \<Rightarrow> nat \<Rightarrow> bool \<Rightarrow> execution_mode \<Rightarrow>
   string \<Rightarrow> string \<Rightarrow> (('l, 'r, 'w) step_state, step_outcome) ex" where
  "regular_step_run run env rs idx is_last mode name raw s =
     (let (config, input, auto_named) =
            resolve_config_and_autoname env (rs_location rs) name raw (ss_state s);
          s1 = (if name = ''pipeline''
                then s\<lparr>ss_machine := log_pipeline_call config input (ss_machine s)\<rparr> else s);
          s2 = (if auto_named then set_state input s1 else s1);
          (target, should_cleanup) = determine_target_name (rs_condition rs) (ss_state s2) auto_named
      in case run_core_logic run env rs idx mode name config input target s2 of
           None \<Rightarrow> None
         | Some (Inl e, s3) \<Rightarrow> Some (Inl e, s3)
         | Some (Inr result, s3) \<Rightarrow>
             (case finish_regular env rs name target should_cleanup is_last result s3 of
                (outcome, s4) \<Rightarrow> Some (Inr outcome, s4)))"

definition regular_step_execute ::
  "('l, 'r, 'w) runner \<Rightarrow> ('l, 'r, 'w) execution_env \<Rightarrow> regular_step \<Rightarrow> nat \<Rightarrow> pipeline_step list \<Rightarrow>
   (('l, 'r, 'w) step_state, step_outcome) ex" where
  "regular_step_execute run env rs idx all_steps s =
     (if \<not> should_execute_step (rs_condition rs) env (mc_ctx (ss_machine s)) (ss_state s) then
        Some (Inr Continue, s)
      else
        (let is_last = is_last_step env idx all_steps s;
             name = effective_name env rs;
             raw = raw_config env rs
         in case detect_execution_mode name (rs_condition rs) of
              Async async_name \<Rightarrow>
                (case spawn_async_step run env name (rs_args rs) raw (rs_location rs) (ss_state s) async_name
                        (ss_machine s) of
                   None \<Rightarrow> None
                 | Some m' \<Rightarrow> Some (Inr Continue, s\<lparr>ss_machine := m'\<rparr>))
            | mode \<Rightarrow> regular_step_run run env rs idx is_last mode name raw s))"

section \<open>Control flow\<close>

definition execute_branch ::
  "('l, 'r, 'w) runner \<Rightarrow> pipeline \<Rightarrow> (('l, 'r, 'w) step_state, unit) ex" where
  "execute_branch run p s =
     (case take_state s of
        (input_state, s1) \<Rightarrow>
          (case on_machine (run p None input_state) s1 of
             None \<Rightarrow> None
           | Some (Inl e, s2) \<Rightarrow> Some (Inl e, s2)
           | Some (Inr (res, ct, status), s2) \<Rightarrow>
               (let out = ss_output s2;
                    out1 = (case status of Some c \<Rightarrow> out\<lparr>po_status_code := Some c\<rparr> | None \<Rightarrow> out);
                    out2 = (if ct \<noteq> ''application/json'' then out1\<lparr>po_content_type := ct\<rparr> else out1)
                in Some (Inr (), (set_state res s2)\<lparr>ss_output := out2\<rparr>))))"

definition continue_after ::
  "(('l, 'r, 'w) step_state, unit) ex \<Rightarrow> (('l, 'r, 'w) step_state, step_outcome) ex" where
  "continue_after f s =
     (case f s of
        None \<Rightarrow> None
      | Some (Inl e, s') \<Rightarrow> Some (Inl e, s')
      | Some (Inr _, s') \<Rightarrow> Some (Inr Continue, s'))"

definition handle_if_step ::
  "('l, 'r, 'w) runner \<Rightarrow> pipeline \<Rightarrow> pipeline \<Rightarrow> pipeline option \<Rightarrow>
   (('l, 'r, 'w) step_state, step_outcome) ex" where
  "handle_if_step run condition then_branch else_branch s =
     (case on_machine (run condition None (ss_state s)) s of
        None \<Rightarrow> None
      | Some (Inl e, s1) \<Rightarrow> Some (Inl e, s1)
      | Some (Inr (cond_result, _, _), s1) \<Rightarrow>
          if jq_truthy cond_result then continue_after (execute_branch run then_branch) s1
          else (case else_branch of
                  Some else_pipe \<Rightarrow> continue_after (execute_branch run else_pipe) s1
                | None \<Rightarrow> Some (Inr Continue, s1)))"

definition handle_dispatch_step ::
  "('l, 'r, 'w) runner \<Rightarrow> ('l, 'r, 'w) execution_env \<Rightarrow> dispatch_branch list \<Rightarrow> pipeline option \<Rightarrow>
   (('l, 'r, 'w) step_state, step_outcome) ex" where
  "handle_dispatch_step run env branches default_pipeline s =
     (let matched_pipeline =
            (case find (\<lambda>b. check_tag_expr (db_condition b) env (mc_ctx (ss_machine s)) (ss_state s)) branches of
               Some b \<Rightarrow> Some (db_pipeline b)
             | None \<Rightarrow> default_pipeline)
      in case matched_pipeline of
           Some p \<Rightarrow> continue_after (execute_branch run p) s
         | None \<Rightarrow> Some (Inr Continue, s))"

fun foreach_items ::
  "('l, 'r, 'w) runner \<Rightarrow> pipeline \<Rightarrow> json list \<Rightarrow> json list \<Rightarrow> (('l, 'r, 'w) machine, json list) ex" where
  "foreach_items run p [] results m = Some (Inr results, m)"
| "foreach_items run p (item # items) results m =
     (case run p None item m of
        None \<Rightarrow> None
      | Some (Inl e, m') \<Rightarrow> Some (Inl e, m')
      | Some (Inr (final_state, _, _), m') \<Rightarrow> foreach_items run p items (results @ [final_state]) m')"

definition handle_foreach_step ::
  "('l, 'r, 'w) runner \<Rightarrow> string \<Rightarrow> pipeline \<Rightarrow> (('l, 'r, 'w) step_state, step_outcome) ex" where
  "handle_foreach_step run selector p s =
     (case take_value_mut (ss_state s) selector of
        (Some (JArray items), state') \<Rightarrow>
          (let s1 = set_state state' s in
           case on_machine (foreach_items run p items []) s1 of
             None \<Rightarrow> None
           | Some (Inl e, s2) \<Rightarrow> Some (Inl e, s2)
           | Some (Inr results, s2) \<Rightarrow>
               Some (Inr Continue,
                 (case set_value_mut (ss_state s2) selector (JArray results) of
                    Some state'' \<Rightarrow> set_state state'' s2
                  | None \<Rightarrow> s2)))
      | (_, state') \<Rightarrow>
          Some (Inl (MiddlewareExecutionError
                  (''foreach: path '' @ [CHR 0x27] @ selector @ [CHR 0x27] @ '' is not an array or does not exist'')),
                set_state state' s))"

definition restore_cookies :: "json option \<Rightarrow> json \<Rightarrow> json" where
  "restore_cookies inherited result =
     (case inherited of
        None \<Rightarrow> result
      | Some c \<Rightarrow> map_object (\<lambda>obj. if om_has ''setCookies'' obj then obj else om_insert ''setCookies'' c obj) result)"

definition handle_result_step ::
  "('l, 'r, 'w) runner \<Rightarrow> result_branch list \<Rightarrow> (('l, 'r, 'w) step_state, step_outcome) ex" where
  "handle_result_step run branches s =
     (case select_branch branches (extract_error_type (ss_state s)) of
        Some branch \<Rightarrow>
          (let inherited_cookies = json_get ''setCookies'' (ss_state s);
               (input_state, s1) = take_state s;
               handled_error_type = extract_error_type input_state
           in case on_machine (run (rb_pipeline branch) handled_error_type input_state) s1 of
                None \<Rightarrow> None
              | Some (Inl e, s2) \<Rightarrow> Some (Inl e, s2)
              | Some (Inr (res, branch_ct, _), s2) \<Rightarrow>
                  (let result = restore_cookies inherited_cookies res;
                       final_ct = (if branch_ct \<noteq> ''application/json'' then branch_ct
                                   else po_content_type (ss_output s2))
                   in Some (Inr (Return \<lparr> po_state = result, po_content_type = final_ct,
                                          po_status_code = Some (rb_status_code branch) \<rparr>),
                            set_state result s2)))
      | None \<Rightarrow>
          Some (Inr (Return \<lparr> po_state = ss_state s, po_content_type = po_content_type (ss_output s),
                              po_status_code = po_status_code (ss_output s) \<rparr>), s))"

section \<open>Debugger hooks\<close>

definition debug_thread :: "('l, 'r, 'w) machine \<Rightarrow> u64" where
  "debug_thread m = (case rc_debug_thread_id (mc_ctx m) of None \<Rightarrow> 0 | Some t \<Rightarrow> t)"

definition action_mode :: "step_action \<Rightarrow> step_mode option" where
  "action_mode a =
     (case a of ActContinue \<Rightarrow> None | ActStepOver \<Rightarrow> Some StepOver | ActStepIn \<Rightarrow> Some StepIn
              | ActStepOut \<Rightarrow> Some StepOut)"

definition handle_debugger_before ::
  "('l, 'r, 'w) execution_env \<Rightarrow> pipeline_step \<Rightarrow> string \<Rightarrow> (('l, 'r, 'w) step_state, unit) ex" where
  "handle_debugger_before env step step_name s =
     (case env_debugger env of
        None \<Rightarrow> Some (Inr (), s)
      | Some dbg \<Rightarrow>
          (let m = ss_machine s in
           case dh_before_step dbg (debug_thread m) step_name (step_location step) (ss_state s)
                  (pf_stack (rc_profiler (mc_ctx m))) (mc_world m) of
             (r, state', w) \<Rightarrow>
               (let s1 = (set_state state' s)\<lparr>ss_machine := m\<lparr>mc_world := w\<rparr>\<rparr> in
                case r of
                  Inl e \<Rightarrow> Some (Inl e, s1)
                | Inr action \<Rightarrow>
                    Some (Inr (), s1\<lparr>ss_machine := set_ctx
                      ((mc_ctx m)\<lparr>rc_debug_step_mode := action_mode action\<rparr>) (ss_machine s1)\<rparr>))))"

definition handle_debugger_after ::
  "('l, 'r, 'w) execution_env \<Rightarrow> pipeline_step \<Rightarrow> string \<Rightarrow> ('l, 'r, 'w) step_state \<Rightarrow> ('l, 'r, 'w) step_state" where
  "handle_debugger_after env step step_name s =
     (case env_debugger env of
        None \<Rightarrow> s
      | Some dbg \<Rightarrow>
          (let m = ss_machine s in
           s\<lparr>ss_machine := m\<lparr>mc_world := dh_after_step dbg (debug_thread m) step_name (step_location step)
               (ss_state s) (pf_stack (rc_profiler (mc_ctx m))) (mc_world m)\<rparr>\<rparr>))"

section \<open>What the state updates leave alone\<close>

lemma set_state_simps [simp]:
  "ss_machine (set_state v s) = ss_machine s"
  "ss_output (set_state v s) = ss_output s"
  "ss_state (set_state v s) = v"
  "pc_pending_cache_saves (ss_pipe (set_state v s)) = pc_pending_cache_saves (ss_pipe s)"
  "pc_cache_hit (ss_pipe (set_state v s)) = pc_cache_hit (ss_pipe s)"
  by (simp_all add: set_state_def ss_state_def)

lemma ss_state_machine [simp]: "ss_state (s\<lparr>ss_machine := m\<rparr>) = ss_state s"
  "ss_state (s\<lparr>ss_output := out\<rparr>) = ss_state s"
  by (simp_all add: ss_state_def)

lemma apply_result_frame [frame]:
  "ss_machine (apply_result_to_state env n v t l s) = ss_machine s"
  "ss_output (apply_result_to_state env n v t l s) = ss_output s"
  "pc_pending_cache_saves (ss_pipe (apply_result_to_state env n v t l s)) = pc_pending_cache_saves (ss_pipe s)"
  "pc_cache_hit (ss_pipe (apply_result_to_state env n v t l s)) = pc_cache_hit (ss_pipe s)"
  by (simp_all add: apply_result_to_state_def Let_def update_pipeline_state_other split: option.split)

lemma update_metadata_frame [frame]:
  "ss_machine (update_metadata n c st l s) = ss_machine s"
  "ss_pipe (update_metadata n c st l s) = ss_pipe s"
  "ss_state (update_metadata n c st l s) = ss_state s"
  by (simp_all add: update_metadata_def Let_def ss_state_def)

lemma check_cache_stop_frame [frame]:
  "ss_machine (snd (check_cache_stop s)) = ss_machine s"
  "ss_state (snd (check_cache_stop s)) = ss_state s"
  "pc_pending_cache_saves (ss_pipe (snd (check_cache_stop s))) = pc_pending_cache_saves (ss_pipe s)"
  by (simp_all add: check_cache_stop_def ss_state_def split: option.split)

lemma finish_regular_frame [frame]:
  "ss_machine (snd (finish_regular env rs n t cl l r s)) = ss_machine s"
  "pc_pending_cache_saves (ss_pipe (snd (finish_regular env rs n t cl l r s))) = pc_pending_cache_saves (ss_pipe s)"
  by (simp_all add: finish_regular_def Let_def frame split: prod.split option.split)
    (metis check_cache_stop_frame snd_conv apply_result_frame update_metadata_frame)+

lemma finish_regular_machine:
  "finish_regular env rs n t cl l r s = (out, s') \<Longrightarrow> ss_machine s' = ss_machine s"
  by (metis finish_regular_frame(1) snd_conv)

end
