(* ===== verification/Executor.thy ===== *)
theory Executor
  imports Step
begin

text \<open>
  The pipeline executor (\<^verbatim>\<open>src/executor/mod.rs\<close>): one step with its profiling and debugger
  hooks, the loop over the steps with the error short-circuit, and the cache writes at the end of a
  run. \<open>exec_pipeline\<close> closes the recursion on a fuel argument that bounds the nesting of
  pipelines.
\<close>

section \<open>One step\<close>

definition extract_middleware_failure :: "web_pipe_error \<Rightarrow> (string \<times> string option) option" where
  "extract_middleware_failure err =
     (case err of
        MiddlewareExecutionError msg \<Rightarrow> Some (msg, None)
      | Located location source \<Rightarrow>
          (case source of MiddlewareExecutionError msg \<Rightarrow> Some (msg, Some location) | _ \<Rightarrow> None)
      | _ \<Rightarrow> None)"

definition execute_regular ::
  "('l, 'r, 'w) runner \<Rightarrow> ('l, 'r, 'w) execution_env \<Rightarrow> regular_step \<Rightarrow> nat \<Rightarrow> pipeline_step list \<Rightarrow>
   (('l, 'r, 'w) step_state, step_outcome) ex" where
  "execute_regular run env rs idx all_steps s =
     (case regular_step_execute run env rs idx all_steps s of
        None \<Rightarrow> None
      | Some (Inr outcome, s') \<Rightarrow> Some (Inr outcome, s')
      | Some (Inl e, s') \<Rightarrow>
          (let err = with_source_location (rs_location rs) e in
           case extract_middleware_failure err of
             Some (message, loc_str) \<Rightarrow>
               (let error_value = override_error_type
                      (make_middleware_error_value (rs_name rs) message loc_str)
                      (Option.bind (rs_condition rs) get_error_from_tag_expr)
                in Some (Inr Continue, set_state error_value s'))
           | None \<Rightarrow> Some (Inl err, s')))"

definition dispatch_step_kind ::
  "('l, 'r, 'w) runner \<Rightarrow> ('l, 'r, 'w) execution_env \<Rightarrow> pipeline_step \<Rightarrow> nat \<Rightarrow> pipeline_step list \<Rightarrow>
   (('l, 'r, 'w) step_state, step_outcome) ex" where
  "dispatch_step_kind run env step idx all_steps =
     (case step of
        RegularStep rs \<Rightarrow> execute_regular run env rs idx all_steps
      | ResultStep branches _ \<Rightarrow> handle_result_step run branches
      | IfStep condition then_branch else_branch _ \<Rightarrow> handle_if_step run condition then_branch else_branch
      | DispatchStep branches default_pipeline _ \<Rightarrow> handle_dispatch_step run env branches default_pipeline
      | ForeachStep selector p _ \<Rightarrow> handle_foreach_step run selector p)"

definition read_clock ::
  "('l, 'r, 'w) execution_env \<Rightarrow> ('l, 'r, 'w) machine \<Rightarrow> nat \<times> ('l, 'r, 'w) machine" where
  "read_clock env m = (case pl_now (env_platform env) (mc_world m) of (t, w) \<Rightarrow> (t, m\<lparr>mc_world := w\<rparr>))"

definition start_step ::
  "('l, 'r, 'w) execution_env \<Rightarrow> string \<Rightarrow> ('l, 'r, 'w) step_state \<Rightarrow> nat \<times> ('l, 'r, 'w) step_state" where
  "start_step env step_name s =
     (case read_clock env (update_profiler (profiler_push step_name) (ss_machine s)) of
        (start_time, m) \<Rightarrow> (start_time, s\<lparr>ss_machine := m\<rparr>))"

definition end_step ::
  "('l, 'r, 'w) execution_env \<Rightarrow> nat \<Rightarrow> ('l, 'r, 'w) step_state \<Rightarrow> ('l, 'r, 'w) step_state" where
  "end_step env start_time s =
     (case read_clock env (ss_machine s) of
        (now, m) \<Rightarrow>
          s\<lparr>ss_machine := update_profiler (\<lambda>p. profiler_pop (record_sample ((now - start_time) div 1000) p)) m\<rparr>)"

definition execute_step ::
  "('l, 'r, 'w) runner \<Rightarrow> ('l, 'r, 'w) execution_env \<Rightarrow> pipeline_step \<Rightarrow> nat \<Rightarrow> pipeline_step list \<Rightarrow>
   (('l, 'r, 'w) step_state, step_outcome) ex" where
  "execute_step run env step idx all_steps s =
     (let step_name = determine_step_name step;
          (start_time, s1) = start_step env step_name s
      in case handle_debugger_before env step step_name s1 of
           None \<Rightarrow> None
         | Some (Inl e, s2) \<Rightarrow> Some (Inl e, s2)
         | Some (Inr _, s2) \<Rightarrow>
             (case dispatch_step_kind run env step idx all_steps s2 of
                None \<Rightarrow> None
              | Some (result, s3) \<Rightarrow>
                  Some (result, end_step env start_time (handle_debugger_after env step step_name s3))))"

section \<open>Cache writes at the end of a run\<close>

fun save_all ::
  "('l, 'r, 'w) execution_env \<Rightarrow> cached_response \<Rightarrow> pending_cache_save list \<Rightarrow> ('l, 'r, 'w) machine \<Rightarrow>
   ('l, 'r, 'w) machine option" where
  "save_all env response [] m = Some m"
| "save_all env response (save # saves) m =
     (case read_clock env m of
        (now, m1) \<Rightarrow>
          (case put_response (pl_cache_ops (env_platform env)) (estimate_size env) now (ps_key save) response
                  (Some (ps_ttl save)) (mc_cache m1) of
             None \<Rightarrow> None
           | Some c \<Rightarrow> save_all env response saves (m1\<lparr>mc_cache := c\<rparr>)))"

definition release_slot ::
  "('l, 'r, 'w) execution_env \<Rightarrow> pending_cache_save \<Rightarrow> ('l, 'r, 'w) machine \<Rightarrow> ('l, 'r, 'w) machine" where
  "release_slot env save m =
     (if ps_refreshing save
      then m\<lparr>mc_cache := clear_refresh (pl_cache_ops (env_platform env)) (ps_key save) (mc_cache m)\<rparr>
      else m)"

definition uncacheable :: "json \<Rightarrow> u16 option \<Rightarrow> bool" where
  "uncacheable state status \<longleftrightarrow>
     extract_error_type state \<noteq> None \<or> (case status of None \<Rightarrow> False | Some c \<Rightarrow> c \<ge> 500)"

definition run_pending_cache_saves ::
  "('l, 'r, 'w) execution_env \<Rightarrow> pending_cache_save list \<Rightarrow> json \<Rightarrow> string \<Rightarrow> u16 option \<Rightarrow>
   ('l, 'r, 'w) machine \<Rightarrow> ('l, 'r, 'w) machine option" where
  "run_pending_cache_saves env saves state content_type status m =
     (if saves = [] then Some m
      else if uncacheable state status then Some (fold (release_slot env) saves m)
      else save_all env \<lparr> cr_body = state, cr_content_type = content_type, cr_status_code = status \<rparr> saves m)"

section \<open>The loop over the steps\<close>

definition is_result_step :: "pipeline_step \<Rightarrow> bool" where
  "is_result_step step = (case step of ResultStep _ _ \<Rightarrow> True | _ \<Rightarrow> False)"

definition finish_run ::
  "('l, 'r, 'w) execution_env \<Rightarrow> pipeline_context \<Rightarrow> json \<Rightarrow> string \<Rightarrow> u16 option \<Rightarrow>
   (('l, 'r, 'w) machine, json \<times> string \<times> u16 option) ex" where
  "finish_run env pc state content_type status m =
     (case run_pending_cache_saves env (pc_pending_cache_saves pc) state content_type status m of
        None \<Rightarrow> None
      | Some m' \<Rightarrow> Some (Inr (state, content_type, status), m'))"

primrec exec_loop ::
  "pipeline_step list \<Rightarrow> ('l, 'r, 'w) runner \<Rightarrow> ('l, 'r, 'w) execution_env \<Rightarrow> pipeline_step list \<Rightarrow> nat \<Rightarrow>
   string option \<Rightarrow> string \<Rightarrow> u16 option \<Rightarrow> pipeline_context \<Rightarrow>
   (('l, 'r, 'w) machine, json \<times> string \<times> u16 option) ex" where
  "exec_loop [] run env all_steps idx handled content_type status pc m =
     finish_run env pc (pc_state pc) content_type status m"
| "exec_loop (step # rest) run env all_steps idx handled content_type status pc m =
     (let current_error_type = extract_error_type (pc_state pc);
          handled' = (if handled \<noteq> current_error_type then None else handled)
      in if current_error_type \<noteq> None \<and> handled' = None \<and> \<not> is_result_step step then
           exec_loop rest run env all_steps (idx + 1) handled' content_type status pc m
         else
           (case execute_step run env step idx all_steps
                   \<lparr> ss_machine = m, ss_pipe = pc,
                     ss_output = \<lparr> po_state = JNull, po_content_type = content_type, po_status_code = status \<rparr> \<rparr> of
              None \<Rightarrow> None
            | Some (Inl e, s) \<Rightarrow> Some (Inl e, ss_machine s)
            | Some (Inr Continue, s) \<Rightarrow>
                exec_loop rest run env all_steps (idx + 1) handled' (po_content_type (ss_output s))
                  (po_status_code (ss_output s)) (ss_pipe s) (ss_machine s)
            | Some (Inr (Return out), s) \<Rightarrow>
                finish_run env (ss_pipe s) (po_state out) (po_content_type out) (po_status_code out)
                  (ss_machine s)))"

definition run_steps ::
  "('l, 'r, 'w) runner \<Rightarrow> ('l, 'r, 'w) execution_env \<Rightarrow> ('l, 'r, 'w) runner" where
  "run_steps run env p handled input m =
     exec_loop (steps p) run env (steps p) 0 handled ''application/json'' None (pipeline_context_new input) m"

fun exec_pipeline :: "('l, 'r, 'w) execution_env \<Rightarrow> nat \<Rightarrow> ('l, 'r, 'w) runner" where
  "exec_pipeline env 0 p handled input m = None"
| "exec_pipeline env (Suc fuel) p handled input m =
     run_steps (exec_pipeline env fuel) env p handled input m"

text \<open>The public entry point: the context is handed back for the deferred actions.\<close>

definition execute_pipeline ::
  "('l, 'r, 'w) execution_env \<Rightarrow> nat \<Rightarrow> pipeline \<Rightarrow> json \<Rightarrow> 'w request_context \<Rightarrow> ('l, 'r, 'w) machine \<Rightarrow>
   ((web_pipe_error + json \<times> string \<times> u16 option \<times> 'w request_context) \<times> ('l, 'r, 'w) machine) option" where
  "execute_pipeline env fuel p input ctx m =
     (case exec_pipeline env fuel p None input (m\<lparr>mc_ctx := ctx\<rparr>) of
        None \<Rightarrow> None
      | Some (Inl e, m') \<Rightarrow> Some (Inl e, m')
      | Some (Inr (v, ct, st), m') \<Rightarrow> Some (Inr (v, ct, st, mc_ctx m'), m'))"

section \<open>More fuel changes nothing\<close>

text \<open>A result that may only improve from not returning.\<close>

definition upto_fuel :: "'a option \<Rightarrow> 'a option \<Rightarrow> bool" where
  "upto_fuel a b \<longleftrightarrow> a = None \<or> a = b"

named_theorems fuel_intros \<open>congruence of \<^const>\<open>upto_fuel\<close>\<close>

lemma upto_fuel_refl [fuel_intros]: "upto_fuel a a"
  by (simp add: upto_fuel_def)

lemma upto_fuel_bind [fuel_intros]:
  "upto_fuel a b \<Longrightarrow> (\<And>x. upto_fuel (f x) (g x)) \<Longrightarrow>
   upto_fuel (case a of None \<Rightarrow> None | Some x \<Rightarrow> f x) (case b of None \<Rightarrow> None | Some x \<Rightarrow> g x)"
  by (auto simp: upto_fuel_def split: option.splits)

lemma upto_fuel_option [fuel_intros]:
  "upto_fuel a b \<Longrightarrow> (\<And>x. upto_fuel (f x) (g x)) \<Longrightarrow>
   upto_fuel (case t of None \<Rightarrow> a | Some x \<Rightarrow> f x) (case t of None \<Rightarrow> b | Some x \<Rightarrow> g x)"
  by (auto split: option.splits)

lemma upto_fuel_prod [fuel_intros]:
  "(\<And>x y. upto_fuel (f x y) (g x y)) \<Longrightarrow>
   upto_fuel (case p of (x, y) \<Rightarrow> f x y) (case p of (x, y) \<Rightarrow> g x y)"
  by (auto split: prod.splits)

lemma upto_fuel_sum [fuel_intros]:
  "(\<And>x. upto_fuel (f x) (g x)) \<Longrightarrow> (\<And>x. upto_fuel (f' x) (g' x)) \<Longrightarrow>
   upto_fuel (case s of Inl x \<Rightarrow> f x | Inr x \<Rightarrow> f' x) (case s of Inl x \<Rightarrow> g x | Inr x \<Rightarrow> g' x)"
  by (auto split: sum.splits)

lemma upto_fuel_list [fuel_intros]:
  "upto_fuel a b \<Longrightarrow> (\<And>x xs. upto_fuel (f x xs) (g x xs)) \<Longrightarrow>
   upto_fuel (case l of [] \<Rightarrow> a | x # xs \<Rightarrow> f x xs) (case l of [] \<Rightarrow> b | x # xs \<Rightarrow> g x xs)"
  by (auto split: list.splits)

lemma upto_fuel_if [fuel_intros]:
  "upto_fuel a b \<Longrightarrow> upto_fuel c d \<Longrightarrow> upto_fuel (if P then a else c) (if P then b else d)"
  by simp

lemma upto_fuel_Let [fuel_intros]: "(\<And>x. upto_fuel (f x) (g x)) \<Longrightarrow> upto_fuel (Let x f) (Let x g)"
  by simp

lemma upto_fuel_handle [fuel_intros]:
  "(\<And>x. upto_fuel (f x) (g x)) \<Longrightarrow> (\<And>x. upto_fuel (f' x) (g' x)) \<Longrightarrow>
   upto_fuel (case h of Pending x \<Rightarrow> f x | Finished x \<Rightarrow> f' x) (case h of Pending x \<Rightarrow> g x | Finished x \<Rightarrow> g' x)"
  by (auto split: join_handle.splits)

lemma upto_fuel_mode [fuel_intros]:
  "upto_fuel a a' \<Longrightarrow> (\<And>x. upto_fuel (f x) (f' x)) \<Longrightarrow> upto_fuel b b' \<Longrightarrow> upto_fuel c c' \<Longrightarrow>
   upto_fuel (case md of Standard \<Rightarrow> a | Async x \<Rightarrow> f x | JoinMode \<Rightarrow> b | Recursive \<Rightarrow> c)
     (case md of Standard \<Rightarrow> a' | Async x \<Rightarrow> f' x | JoinMode \<Rightarrow> b' | Recursive \<Rightarrow> c')"
  by (auto split: execution_mode.splits)

lemma upto_fuel_outcome [fuel_intros]:
  "upto_fuel a b \<Longrightarrow> (\<And>x. upto_fuel (f x) (g x)) \<Longrightarrow>
   upto_fuel (case t of Continue \<Rightarrow> a | Return x \<Rightarrow> f x) (case t of Continue \<Rightarrow> b | Return x \<Rightarrow> g x)"
  by (auto split: step_outcome.splits)

lemma upto_fuel_json [fuel_intros]:
  "upto_fuel a a' \<Longrightarrow> (\<And>x. upto_fuel (b x) (b' x)) \<Longrightarrow> (\<And>x. upto_fuel (c x) (c' x)) \<Longrightarrow>
   (\<And>x. upto_fuel (d x) (d' x)) \<Longrightarrow> (\<And>x. upto_fuel (e x) (e' x)) \<Longrightarrow> (\<And>x. upto_fuel (f x) (f' x)) \<Longrightarrow>
   upto_fuel (case_json a b c d e f j) (case_json a' b' c' d' e' f' j)"
  by (auto split: json.splits)

lemma upto_fuel_step [fuel_intros]:
  "(\<And>x. upto_fuel (a x s) (a' x s)) \<Longrightarrow> (\<And>x y. upto_fuel (b x y s) (b' x y s)) \<Longrightarrow>
   (\<And>x y z w. upto_fuel (c x y z w s) (c' x y z w s)) \<Longrightarrow>
   (\<And>x y z. upto_fuel (d x y z s) (d' x y z s)) \<Longrightarrow>
   (\<And>x y z. upto_fuel (e x y z s) (e' x y z s)) \<Longrightarrow>
   upto_fuel (case_pipeline_step a b c d e st s) (case_pipeline_step a' b' c' d' e' st s)"
  by (auto split: pipeline_step.splits)

locale runner_extends =
  fixes run run' :: "('l, 'r, 'w) runner"
  assumes extends: "upto_fuel (run p h i m) (run' p h i m)"
begin

lemma on_machine_run: "upto_fuel (on_machine (run p h i) s) (on_machine (run' p h i) s)"
  unfolding on_machine_def by (intro fuel_intros extends)

lemma recursive: "upto_fuel (handle_recursive_pipeline run env args c l i m)
    (handle_recursive_pipeline run' env args c l i m)"
  unfolding handle_recursive_pipeline_def by (intro fuel_intros extends)

lemma async_body: "upto_fuel (async_task_body run env t m) (async_task_body run' env t m)"
  unfolding async_task_body_def by (intro fuel_intros extends)

lemma task: "upto_fuel (run_task run env t m) (run_task run' env t m)"
  unfolding run_task_def by (intro fuel_intros async_body)

lemma spawn: "upto_fuel (spawn_async_step run env n a c l i an m) (spawn_async_step run' env n a c l i an m)"
  unfolding spawn_async_step_def by (intro fuel_intros task)

lemma await_h: "upto_fuel (await_handle run env h m) (await_handle run' env h m)"
  unfolding await_handle_def by (intro fuel_intros task)

lemma joins: "upto_fuel (join_tasks run env ns rs m) (join_tasks run' env ns rs m)"
proof (induction ns arbitrary: rs m)
  case (Cons n ns)
  show ?case unfolding join_tasks.simps by (intro fuel_intros await_h Cons.IH)
qed (simp add: upto_fuel_refl)

lemma join_step: "upto_fuel (handle_join run env c pt i m) (handle_join run' env c pt i m)"
  unfolding handle_join_def by (intro fuel_intros joins)

lemma on_machine_join:
  "upto_fuel (on_machine (handle_join run env c pt i) s) (on_machine (handle_join run' env c pt i) s)"
  "upto_fuel (on_machine (handle_recursive_pipeline run env args c l i) s)
     (on_machine (handle_recursive_pipeline run' env args c l i) s)"
  unfolding on_machine_def by (intro fuel_intros join_step recursive)+

lemma core: "upto_fuel (run_core_logic run env rs idx mode n c i t s) (run_core_logic run' env rs idx mode n c i t s)"
  unfolding run_core_logic_def by (intro fuel_intros on_machine_join)

lemma regular: "upto_fuel (regular_step_execute run env rs idx all s) (regular_step_execute run' env rs idx all s)"
  unfolding regular_step_execute_def regular_step_run_def by (intro fuel_intros core spawn)

lemma branch: "upto_fuel (execute_branch run p s) (execute_branch run' p s)"
  unfolding execute_branch_def by (intro fuel_intros on_machine_run)

lemma continue: "upto_fuel (continue_after (execute_branch run p) s) (continue_after (execute_branch run' p) s)"
  unfolding continue_after_def by (intro fuel_intros branch)

lemma if_step: "upto_fuel (handle_if_step run c t e s) (handle_if_step run' c t e s)"
  unfolding handle_if_step_def by (intro fuel_intros on_machine_run continue)

lemma dispatch: "upto_fuel (handle_dispatch_step run env bs d s) (handle_dispatch_step run' env bs d s)"
  unfolding handle_dispatch_step_def by (intro fuel_intros continue)

lemma items: "upto_fuel (foreach_items run p xs acc m) (foreach_items run' p xs acc m)"
proof (induction xs arbitrary: acc m)
  case (Cons x xs)
  show ?case unfolding foreach_items.simps by (intro fuel_intros extends Cons.IH)
qed (simp add: upto_fuel_refl)

lemma foreach: "upto_fuel (handle_foreach_step run sel p s) (handle_foreach_step run' sel p s)"
  unfolding handle_foreach_step_def on_machine_def by (intro fuel_intros items)

lemma result_step: "upto_fuel (handle_result_step run bs s) (handle_result_step run' bs s)"
  unfolding handle_result_step_def by (intro fuel_intros on_machine_run)

lemma exec_regular: "upto_fuel (execute_regular run env rs idx all s) (execute_regular run' env rs idx all s)"
  unfolding execute_regular_def by (intro fuel_intros regular)

lemma step_kind: "upto_fuel (dispatch_step_kind run env st idx all s) (dispatch_step_kind run' env st idx all s)"
  unfolding dispatch_step_kind_def
  by (intro fuel_intros exec_regular result_step if_step dispatch foreach)

lemma step: "upto_fuel (execute_step run env st idx all s) (execute_step run' env st idx all s)"
  unfolding execute_step_def by (intro fuel_intros step_kind)

lemma loop: "upto_fuel (exec_loop ss run env all idx h ct st pc m) (exec_loop ss run' env all idx h ct st pc m)"
proof (induction ss arbitrary: idx h ct st pc m)
  case (Cons a ss)
  show ?case unfolding exec_loop.simps by (intro fuel_intros step Cons.IH)
qed (simp add: upto_fuel_refl)

lemma steps_extend: "upto_fuel (run_steps run env p h i m) (run_steps run' env p h i m)"
  unfolding run_steps_def by (rule loop)

end

lemma exec_pipeline_Suc: "upto_fuel (exec_pipeline env n p h i m) (exec_pipeline env (Suc n) p h i m)"
proof (induction n arbitrary: p h i m)
  case (Suc n)
  have "runner_extends (exec_pipeline env n) (exec_pipeline env (Suc n))"
    by (rule runner_extends.intro) (rule Suc.IH)
  from runner_extends.steps_extend [OF this] show ?case by simp
qed (simp add: upto_fuel_def)

lemma exec_pipeline_le: "n \<le> k \<Longrightarrow> upto_fuel (exec_pipeline env n p h i m) (exec_pipeline env k p h i m)"
proof (induction k)
  case (Suc k)
  then show ?case
    using exec_pipeline_Suc [of env k p h i m] by (cases "n = Suc k") (auto simp: upto_fuel_def)
qed (simp add: upto_fuel_def)

interpretation fuel_runner: runner_extends "exec_pipeline env n" "exec_pipeline env (n + k)" for env n k
  by unfold_locales (rule exec_pipeline_le, simp)

section \<open>A small environment for the examples\<close>

text \<open>
  The world is the clock; a middleware named \<open>fail\<close> fails, one named \<open>limit\<close> refuses, any
  other writes its configuration under its own name.
\<close>

definition sample_platform :: "(cache_entry list_lru, nat) platform" where
  "sample_platform = \<lparr> pl_jaq = (\<lambda>expr v. JaqFirst (Some (Inr v))), pl_to_text = (\<lambda>v. ''text''),
     pl_parse_strings = (\<lambda>s. None), pl_now = (\<lambda>w. (w, w + 1)), pl_cache_ops = list_lru,
     pl_script_args = default_script_args, pl_task_early = (\<lambda>t. False), pl_task_panics = (\<lambda>t. None) \<rparr>"

definition sample_invoker :: "(cache_entry list_lru, unit, nat) invoker" where
  "sample_invoker name args config target pc m =
     (if name = ''fail'' then (Inl (MiddlewareExecutionError ''boom''), pc, m)
      else if name = ''limit'' then (Inl (RateLimitExceeded ''slow down''), pc, m)
      else (Inr default_output, pc\<lparr>pc_state := map_object (om_insert name (JString config)) (pc_state pc)\<rparr>, m))"

definition sample_env :: "(cache_entry list_lru, unit, nat) execution_env" where
  "sample_env = \<lparr> env_variables = Map.empty,
     env_named_pipelines = [(None, ''noop'') \<mapsto> Pipeline []],
     env_module_registry = module_registry_new, env_imports = Map.empty,
     env_invoker = sample_invoker, env_behavior = (\<lambda>name. Some Merge), env_environment = None,
     env_debugger = None, env_platform = sample_platform \<rparr>"

definition sample_machine :: "(cache_entry list_lru, unit, nat) machine" where
  "sample_machine = \<lparr> mc_ctx = request_context_new, mc_cache = sample_store, mc_rate = (), mc_world = 0 \<rparr>"

definition sample_step :: "string \<Rightarrow> string \<Rightarrow> regular_step" where
  "sample_step name config = \<lparr> rs_name = name, rs_args = [], rs_config = config, rs_config_type = Quoted,
     rs_config_present = True, rs_condition = None, rs_parsed_join_targets = None,
     rs_location = default_location \<rparr>"

text \<open>
  The fuel is only a bound: a run that returns gives the same result, and leaves the same
  machine, under any larger bound, so two runs that both return agree.
\<close>

theorem executor_fuel_irrelevant:
  assumes "exec_pipeline env n p h i m = Some r" and "exec_pipeline env k p h i m = Some r'"
  shows "r = r'"
proof (cases "n \<le> k")
  case True
  with assms exec_pipeline_le [OF True, of env p h i m] show ?thesis by (auto simp: upto_fuel_def)
next
  case False
  then have "k \<le> n" by simp
  from assms exec_pipeline_le [OF this, of env p h i m] show ?thesis by (auto simp: upto_fuel_def)
qed

lemma sample_noop:
  "exec_pipeline sample_env 1 (Pipeline []) None JNull sample_machine =
     Some (Inr (JNull, ''application/json'', None), sample_machine)"
  "exec_pipeline sample_env 2 (Pipeline []) None JNull sample_machine =
     Some (Inr (JNull, ''application/json'', None), sample_machine)"
  by (simp_all add: numeral_2_eq_2 run_steps_def finish_run_def run_pending_cache_saves_def
      pipeline_context_new_def)

theorem executor_fuel_irrelevant_witness:
  "(Inr (JNull, ''application/json'', None) ::
      web_pipe_error + json \<times> string \<times> u16 option, sample_machine) =
    the (exec_pipeline sample_env 2 (Pipeline []) None JNull sample_machine)"
  using executor_fuel_irrelevant [OF sample_noop] by (simp only: sample_noop option.sel)

end
