(* ===== verification/Executor_Termination.thy ===== *)
theory Executor_Termination
  imports Executor
begin

text \<open>
  The executor returns. Pipelines call each other only through named pipelines; when those calls
  are not circular, a fuel quadratic in the depth of the calls is enough for every run to return,
  with an error or a result, joined tasks included.
\<close>

section \<open>What a pipeline calls\<close>

definition config_callee ::
  "('l, 'r, 'w) execution_env \<Rightarrow> source_location \<Rightarrow> string \<Rightarrow> string \<Rightarrow> pipeline option" where
  "config_callee env location name raw =
     (if name = ''pipeline''
      then resolve_named_pipeline env location
             (trim (fst (resolve_config_and_autoname env location name raw JNull)))
      else None)"

definition step_callees :: "('l, 'r, 'w) execution_env \<Rightarrow> pipeline_step \<Rightarrow> pipeline list" where
  "step_callees env step =
     (case step of
        RegularStep rs \<Rightarrow>
          (case config_callee env (rs_location rs) (effective_name env rs) (raw_config env rs) of
             None \<Rightarrow> [] | Some q \<Rightarrow> [q])
      | ResultStep branches _ \<Rightarrow> map rb_pipeline branches
      | IfStep c t e _ \<Rightarrow> [c, t] @ (case e of None \<Rightarrow> [] | Some q \<Rightarrow> [q])
      | DispatchStep branches d _ \<Rightarrow> map db_pipeline branches @ (case d of None \<Rightarrow> [] | Some q \<Rightarrow> [q])
      | ForeachStep _ q _ \<Rightarrow> [q])"

definition calls :: "('l, 'r, 'w) execution_env \<Rightarrow> pipeline \<Rightarrow> pipeline list" where
  "calls env p = concat (map (step_callees env) (steps p))"

definition task_callee :: "('l, 'r, 'w) execution_env \<Rightarrow> async_task \<Rightarrow> pipeline option" where
  "task_callee env t = config_callee env (at_location t) (at_name t) (at_config t)"

definition tasks_below ::
  "('l, 'r, 'w) execution_env \<Rightarrow> (pipeline \<Rightarrow> nat) \<Rightarrow> nat \<Rightarrow> async_task_registry \<Rightarrow> bool" where
  "tasks_below env rank K reg \<longleftrightarrow>
     (\<forall>n t q. reg n = Some (Pending t) \<longrightarrow> task_callee env t = Some q \<longrightarrow> rank q < K)"

text \<open>What middleware may not do to the machine: touch the task registry or break the cache.\<close>

definition invoker_safe :: "('l, 'r, 'w) execution_env \<Rightarrow> ('l cache_store \<Rightarrow> bool) \<Rightarrow> bool" where
  "invoker_safe env cok \<longleftrightarrow>
     (\<forall>name args config target pc m r pc' m'.
        env_invoker env name args config target pc m = (r, pc', m') \<longrightarrow>
        rc_async_registry (mc_ctx m') = rc_async_registry (mc_ctx m) \<and>
        (cok (mc_cache m) \<longrightarrow> cok (mc_cache m')))"

section \<open>Computations that return\<close>

definition returns :: "('b \<Rightarrow> bool) \<Rightarrow> 'b option \<Rightarrow> bool" where
  "returns Q a \<longleftrightarrow> (\<exists>x. a = Some x \<and> Q x)"

lemma returns_Some [simp]: "returns Q (Some x) = Q x"
  by (simp add: returns_def)

lemma returns_bind:
  "returns P a \<Longrightarrow> (\<And>x. P x \<Longrightarrow> returns Q (f x)) \<Longrightarrow> returns Q (case a of None \<Rightarrow> None | Some x \<Rightarrow> f x)"
  by (auto simp: returns_def)

lemma returns_prod: "(\<And>x y. p = (x, y) \<Longrightarrow> returns Q (f x y)) \<Longrightarrow> returns Q (case p of (x, y) \<Rightarrow> f x y)"
  by (cases p) auto

lemma returns_sum:
  "(\<And>x. s = Inl x \<Longrightarrow> returns Q (f x)) \<Longrightarrow> (\<And>x. s = Inr x \<Longrightarrow> returns Q (g x)) \<Longrightarrow>
   returns Q (case s of Inl x \<Rightarrow> f x | Inr x \<Rightarrow> g x)"
  by (cases s) auto

lemma returns_option:
  "(t = None \<Longrightarrow> returns Q a) \<Longrightarrow> (\<And>x. t = Some x \<Longrightarrow> returns Q (f x)) \<Longrightarrow>
   returns Q (case t of None \<Rightarrow> a | Some x \<Rightarrow> f x)"
  by (cases t) auto

lemma returns_if: "(P \<Longrightarrow> returns Q a) \<Longrightarrow> (\<not> P \<Longrightarrow> returns Q b) \<Longrightarrow> returns Q (if P then a else b)"
  by simp

lemma returns_Let: "returns Q (f x) \<Longrightarrow> returns Q (Let x f)"
  by simp

lemma returns_mono: "returns P a \<Longrightarrow> (\<And>x. P x \<Longrightarrow> Q x) \<Longrightarrow> returns Q a"
  by (auto simp: returns_def)

lemmas returns_intros = returns_prod returns_sum returns_if returns_Let

locale returning =
  fixes run :: "('l, 'r, 'w) runner"
    and env :: "('l, 'r, 'w) execution_env"
    and cok :: "'l cache_store \<Rightarrow> bool"
    and rank :: "pipeline \<Rightarrow> nat"
    and K d :: nat
  assumes sub: "rank q < d \<Longrightarrow> cok (mc_cache m) \<Longrightarrow> tasks_below env rank K (rc_async_registry (mc_ctx m)) \<Longrightarrow>
      returns (\<lambda>(r, m'). cok (mc_cache m') \<and> tasks_below env rank K (rc_async_registry (mc_ctx m')))
        (run q h i m)"
    and task_run: "rank q < K \<Longrightarrow> cok (mc_cache m) \<Longrightarrow> rc_async_registry (mc_ctx m) = Map.empty \<Longrightarrow>
      returns (\<lambda>(r, m'). cok (mc_cache m')) (run q None i m)"
    and below: "d \<le> K"
    and safe: "invoker_safe env cok"
    and puts: "cok c \<Longrightarrow> returns cok
      (put_response (pl_cache_ops (env_platform env)) (estimate_size env) now key resp ttl c)"
    and clears: "cok c \<Longrightarrow> cok (clear_refresh (pl_cache_ops (env_platform env)) key c)"
begin

definition good :: "('l, 'r, 'w) machine \<Rightarrow> bool" where
  "good m \<longleftrightarrow> cok (mc_cache m) \<and> tasks_below env rank K (rc_async_registry (mc_ctx m))"

lemma good_simps [simp]:
  "good (m\<lparr>mc_world := w\<rparr>) = good m"
  "good (update_profiler f m) = good m"
  "good (log_pipeline_call c i m) = good m"
  "good (set_ctx ((mc_ctx m)\<lparr>rc_debug_step_mode := md\<rparr>) m) = good m"
  by (simp_all add: good_def update_profiler_def set_ctx_def log_pipeline_call_def Let_def)

lemma good_sub: "rank q < d \<Longrightarrow> good m \<Longrightarrow> returns (\<lambda>(r, m'). good m') (run q h i m)"
  using sub by (simp add: good_def)

lemma good_on_machine:
  "returns (\<lambda>(r, m'). good m') (f (ss_machine s)) \<Longrightarrow> returns (\<lambda>(r, s'). good (ss_machine s')) (on_machine f s)"
  unfolding on_machine_def by (erule returns_bind) auto

lemma good_sub_machine:
  "rank q < d \<Longrightarrow> good (ss_machine s) \<Longrightarrow>
   returns (\<lambda>(r, s'). good (ss_machine s')) (on_machine (run q h i) s)"
  by (rule good_on_machine) (rule good_sub)

lemma good_invoker:
  "env_invoker env n a c t pc m = (r, pc', m') \<Longrightarrow> good m \<Longrightarrow> good m'"
  using safe unfolding invoker_safe_def good_def by (metis (full_types))

lemma standard:
  "handle_standard_execution env n a c t pc m = (r, pc', m') \<Longrightarrow> good m \<Longrightarrow> good m'"
  by (auto simp: handle_standard_execution_def split: prod.splits sum.splits dest: good_invoker)

lemma recursive:
  assumes "good m" and "\<And>q. resolve_named_pipeline env l (trim c) = Some q \<Longrightarrow> rank q < d"
  shows "returns (\<lambda>(r, m'). good m') (handle_recursive_pipeline run env args c l i m)"
  unfolding handle_recursive_pipeline_def
  by (intro returns_intros returns_option returns_bind [OF good_sub]) (use assms in auto)

text \<open>A task whose pipeline is below the bound runs to its end in its own context.\<close>

lemma callee_config:
  "resolve_config_and_autoname env l n raw i = (c, i', a) \<Longrightarrow>
   config_callee env l n raw = (if n = ''pipeline'' then resolve_named_pipeline env l (trim c) else None)"
  using resolve_config_static [of env l n raw i JNull] by (simp add: config_callee_def)

lemma task_body:
  assumes "cok (mc_cache m)" and "\<And>q. task_callee env t = Some q \<Longrightarrow> rank q < K"
  shows "returns (\<lambda>(r, m'). cok (mc_cache m')) (async_task_body run env t m)"
proof -
  obtain c i a where res:
    "resolve_config_and_autoname env (at_location t) (at_name t) (at_config t) (at_input t) = (c, i, a)"
    by (metis surj_pair)
  have callee: "rank q < K" if "at_name t = ''pipeline''"
    "resolve_named_pipeline env (at_location t) (trim c) = Some q" for q
    using assms(2) that callee_config [OF res] by (simp add: task_callee_def)
  have inv: "cok (mc_cache m')" if "env_invoker env n a c t pc m0 = (r, pc', m')" "cok (mc_cache m0)"
    for n a c t pc m0 r pc' m'
    using safe that unfolding invoker_safe_def by metis
  have m0: "cok (mc_cache (async_context env m))"
    "rc_async_registry (mc_ctx (async_context env m)) = Map.empty"
    using assms(1) by (auto simp: async_context_def request_context_new_def split: option.splits prod.splits)
  show ?thesis
  proof (cases "at_name t = ''pipeline''")
    case True
    then show ?thesis
      unfolding async_task_body_def res prod.case Let_def
      by (simp only: if_True) (intro returns_intros returns_option returns_bind [OF task_run],
        use m0 callee in auto)
  next
    case False
    then show ?thesis
      using m0(1) inv
      by (auto simp: async_task_body_def res Let_def split: prod.splits sum.splits)
  qed
qed

lemma good_run_task:
  assumes "good m" and "\<And>q. task_callee env t = Some q \<Longrightarrow> rank q < K"
  shows "returns (\<lambda>(outcome, m'). good m') (run_task run env t m)"
proof -
  have "cok (mc_cache m)" using assms(1) by (simp add: good_def)
  from task_body [OF this assms(2)]
  have b: "returns (\<lambda>(r, m'). cok (mc_cache m')) (async_task_body run env t m)" by blast
  show ?thesis
    unfolding run_task_def
    by (intro returns_option returns_intros returns_bind [OF b])
      (use assms(1) in \<open>auto simp: good_def set_ctx_def\<close>)
qed

lemma register_good:
  "good m \<Longrightarrow> (\<And>t q. h = Pending t \<Longrightarrow> task_callee env t = Some q \<Longrightarrow> rank q < K) \<Longrightarrow>
   good (register_handle n h m)"
  by (auto simp: good_def register_handle_def set_ctx_def registry_register_def tasks_below_def)

lemma spawn:
  assumes "good m" and "\<And>q. config_callee env l n raw = Some q \<Longrightarrow> rank q < K"
  shows "returns good (spawn_async_step run env n a raw l i an m)"
proof -
  let ?t = "\<lparr> at_name = n, at_args = a, at_config = raw, at_location = l, at_input = i \<rparr>"
  have c: "rank q < K" if "task_callee env ?t = Some q" for q
    using assms(2) that by (simp add: task_callee_def)
  show ?thesis
    unfolding spawn_async_step_def Let_def
    by (intro returns_if returns_bind [OF good_run_task] returns_prod)
      (use assms(1) c in \<open>auto intro!: register_good\<close>)
qed

lemma joins: "good m \<Longrightarrow> returns (\<lambda>(rs, m'). good m') (join_tasks run env ns acc m)"
proof (induction ns arbitrary: acc m)
  case (Cons n ns)
  show ?case
  proof (cases "rc_async_registry (mc_ctx m) n")
    case None
    with Cons show ?thesis by (simp add: registry_take_def)
  next
    case (Some h)
    let ?m = "set_ctx ((mc_ctx m)\<lparr>rc_async_registry := (rc_async_registry (mc_ctx m))(n := None)\<rparr>) m"
    have "tasks_below env rank K (rc_async_registry (mc_ctx m))" using Cons.prems by (simp add: good_def)
    then have m: "good ?m" using Cons.prems by (auto simp: good_def set_ctx_def tasks_below_def)
    have "returns (\<lambda>(outcome, m'). good m') (await_handle run env h ?m)"
    proof (cases h)
      case (Pending t)
      have "rank q < K" if "task_callee env t = Some q" for q
        using Some Pending that Cons.prems by (auto simp: good_def tasks_below_def)
      with good_run_task [OF m, of t] Pending show ?thesis by (simp add: await_handle_def)
    qed (simp add: await_handle_def m)
    then show ?thesis
      unfolding join_tasks.simps registry_take_def Some prod.case option.case
      by (rule returns_bind) (auto intro!: Cons.IH)
  qed
qed simp

lemma join_step: "good m \<Longrightarrow> returns (\<lambda>(r, m'). good m') (handle_join run env c pt i m)"
  unfolding handle_join_def by (intro returns_intros returns_bind [OF joins]) auto

lemma core:
  assumes "good (ss_machine s)" and "\<And>q. mode = Recursive \<Longrightarrow>
      resolve_named_pipeline env (rs_location rs) (trim c) = Some q \<Longrightarrow> rank q < d"
  shows "returns (\<lambda>(r, s'). good (ss_machine s')) (run_core_logic run env rs idx mode n c i t s)"
proof -
  have std: "returns (\<lambda>(r, s'). good (ss_machine s'))
      (run_core_logic run env rs idx md n c i t s)" if "md \<noteq> JoinMode" "md \<noteq> Recursive" for md
    using that standard assms(1)
    by (auto simp: run_core_logic_def Let_def split: execution_mode.splits prod.splits sum.splits)
  show ?thesis
  proof (cases mode)
    case JoinMode
    then show ?thesis using assms(1) by (simp add: run_core_logic_def good_on_machine join_step)
  next
    case Recursive
    then show ?thesis using assms by (simp add: run_core_logic_def good_on_machine recursive)
  qed (use std in simp_all)
qed

lemma mode_recursive: "detect_execution_mode n c = Recursive \<Longrightarrow> n = ''pipeline''"
  by (auto simp: detect_execution_mode_def split: option.splits if_splits)

lemma regular_run:
  assumes "good (ss_machine s)"
    and "\<And>q. mode = Recursive \<Longrightarrow>
      config_callee env (rs_location rs) n raw = Some q \<Longrightarrow> rank q < d"
    and "mode = Recursive \<Longrightarrow> n = ''pipeline''"
  shows "returns (\<lambda>(r, s'). good (ss_machine s')) (regular_step_run run env rs idx l mode n raw s)"
proof -
  obtain c i a where res:
    "resolve_config_and_autoname env (rs_location rs) n raw (ss_state s) = (c, i, a)" by (metis surj_pair)
  show ?thesis
    unfolding regular_step_run_def res prod.case Let_def
    by (intro returns_prod returns_bind [OF core] returns_sum)
      (use assms callee_config [OF res] in \<open>auto dest: finish_regular_machine\<close>)
qed

lemma regular:
  assumes "good (ss_machine s)"
    and "\<And>q. config_callee env (rs_location rs) (effective_name env rs) (raw_config env rs) = Some q \<Longrightarrow> rank q < d"
  shows "returns (\<lambda>(r, s'). good (ss_machine s')) (regular_step_execute run env rs idx all s)"
proof (cases "should_execute_step (rs_condition rs) env (mc_ctx (ss_machine s)) (ss_state s)")
  case True
  let ?n = "effective_name env rs" and ?raw = "raw_config env rs"
  show ?thesis
  proof (cases "detect_execution_mode ?n (rs_condition rs)")
    case (Async an)
    have "returns good (spawn_async_step run env ?n (rs_args rs) ?raw (rs_location rs) (ss_state s) an (ss_machine s))"
      by (rule spawn [OF assms(1)]) (use assms(2) below in fastforce)
    then show ?thesis
      using True by (auto simp: regular_step_execute_def Let_def Async returns_def)
  next
    case Standard
    with True show ?thesis
      by (simp add: regular_step_execute_def Let_def) (rule regular_run, use assms in auto)
  next
    case JoinMode
    with True show ?thesis
      by (simp add: regular_step_execute_def Let_def) (rule regular_run, use assms in auto)
  next
    case Recursive
    with True show ?thesis
      by (simp add: regular_step_execute_def Let_def)
        (rule regular_run, use assms mode_recursive [OF Recursive] in auto)
  qed
qed (simp add: regular_step_execute_def assms(1))

lemma branch:
  assumes "good (ss_machine s)" and "rank q < d"
  shows "returns (\<lambda>(r, s'). good (ss_machine s')) (continue_after (execute_branch run q) s)"
proof -
  have "returns (\<lambda>(r, s'). good (ss_machine s')) (execute_branch run q s)"
    unfolding execute_branch_def take_state_def prod.case
    by (intro returns_intros returns_bind [OF good_sub_machine]) (use assms in auto)
  then show ?thesis
    unfolding continue_after_def by (rule returns_bind) (auto split: sum.splits)
qed

lemma if_step:
  assumes "good (ss_machine s)" and "rank c < d" and "rank t < d" and "\<And>q. e = Some q \<Longrightarrow> rank q < d"
  shows "returns (\<lambda>(r, s'). good (ss_machine s')) (handle_if_step run c t e s)"
  unfolding handle_if_step_def
  by (intro returns_intros returns_bind [OF good_sub_machine] returns_option branch) (use assms in auto)

lemma dispatch:
  assumes "good (ss_machine s)" and "\<And>b. b \<in> set bs \<Longrightarrow> rank (db_pipeline b) < d"
    and "\<And>q. dflt = Some q \<Longrightarrow> rank q < d"
  shows "returns (\<lambda>(r, s'). good (ss_machine s')) (handle_dispatch_step run env bs dflt s)"
  unfolding handle_dispatch_step_def Let_def
  by (intro returns_option branch)
    (use assms in \<open>auto simp: find_Some_iff split: option.splits intro: nth_mem\<close>)

lemma items:
  assumes "rank q < d"
  shows "good m \<Longrightarrow> returns (\<lambda>(r, m'). good m') (foreach_items run q xs acc m)"
proof (induction xs arbitrary: acc m)
  case (Cons x xs)
  show ?case
    unfolding foreach_items.simps
    by (intro returns_intros returns_bind [OF good_sub]) (use Cons assms in auto)
qed simp

lemma foreach:
  assumes "good (ss_machine s)" and "rank q < d"
  shows "returns (\<lambda>(r, s'). good (ss_machine s')) (handle_foreach_step run sel q s)"
proof -
  have items': "returns (\<lambda>(r, s'). good (ss_machine s'))
      (on_machine (foreach_items run q xs []) (set_state v s))" for xs v
    by (rule good_on_machine) (use items [OF assms(2)] assms(1) in simp)
  show ?thesis
  proof (cases "\<exists>xs v. take_value_mut (ss_state s) sel = (Some (JArray xs), v)")
    case True
    then obtain xs v where tv: "take_value_mut (ss_state s) sel = (Some (JArray xs), v)" by blast
    show ?thesis
      unfolding handle_foreach_step_def tv prod.case option.case json.case Let_def
      by (intro returns_intros returns_bind [OF items']) (auto split: option.splits)
  next
    case False
    then show ?thesis
      using assms(1)
      by (auto simp: handle_foreach_step_def split: prod.splits option.splits json.splits)
  qed
qed

lemma result_step:
  assumes "good (ss_machine s)" and "\<And>b. b \<in> set bs \<Longrightarrow> rank (rb_pipeline b) < d"
  shows "returns (\<lambda>(r, s'). good (ss_machine s')) (handle_result_step run bs s)"
proof -
  have "rank (rb_pipeline b) < d" if "select_branch bs e = Some b" for b e
    using that assms(2)
    by (auto simp: select_branch_def Let_def find_Some_iff split: option.splits)
  then show ?thesis
    unfolding handle_result_step_def take_state_def Let_def prod.case
    by (intro returns_option returns_intros returns_bind [OF good_sub_machine]) (use assms in auto)
qed

lemma step_kind:
  assumes "good (ss_machine s)" and "\<And>q. q \<in> set (step_callees env st) \<Longrightarrow> rank q < d"
  shows "returns (\<lambda>(r, s'). good (ss_machine s')) (dispatch_step_kind run env st idx all s)"
proof (cases st)
  case (RegularStep rs)
  have "returns (\<lambda>(r, s'). good (ss_machine s')) (regular_step_execute run env rs idx all s)"
    by (rule regular) (use assms RegularStep in \<open>auto simp: step_callees_def\<close>)
  then show ?thesis
    unfolding RegularStep dispatch_step_kind_def pipeline_step.case execute_regular_def Let_def
    by (rule returns_bind) (auto split: sum.splits option.splits)
next
  case (ResultStep bs l)
  have "returns (\<lambda>(r, s'). good (ss_machine s')) (handle_result_step run bs s)"
    by (rule result_step) (use assms ResultStep in \<open>auto simp: step_callees_def\<close>)
  then show ?thesis by (simp add: dispatch_step_kind_def ResultStep)
next
  case (IfStep c t e l)
  have "returns (\<lambda>(r, s'). good (ss_machine s')) (handle_if_step run c t e s)"
    by (rule if_step) (use assms IfStep in \<open>auto simp: step_callees_def\<close>)
  then show ?thesis by (simp add: dispatch_step_kind_def IfStep)
next
  case (DispatchStep bs df l)
  have "returns (\<lambda>(r, s'). good (ss_machine s')) (handle_dispatch_step run env bs df s)"
    by (rule dispatch) (use assms DispatchStep in \<open>auto simp: step_callees_def\<close>)
  then show ?thesis by (simp add: dispatch_step_kind_def DispatchStep)
next
  case (ForeachStep sel q l)
  have "returns (\<lambda>(r, s'). good (ss_machine s')) (handle_foreach_step run sel q s)"
    by (rule foreach) (use assms ForeachStep in \<open>auto simp: step_callees_def\<close>)
  then show ?thesis by (simp add: dispatch_step_kind_def ForeachStep)
qed

lemma read_clock_good: "read_clock env m = (t, m') \<Longrightarrow> good m' = good m"
  by (auto simp: read_clock_def split: prod.splits)

lemma start_step_good: "start_step env n s = (t, s') \<Longrightarrow> good (ss_machine s') = good (ss_machine s)"
  by (auto simp: start_step_def split: prod.splits dest: read_clock_good)

lemma end_step_good: "good (ss_machine (end_step env t s)) = good (ss_machine s)"
  by (auto simp: end_step_def split: prod.splits dest: read_clock_good)

lemma debug_before_good:
  "good (ss_machine s) \<Longrightarrow> returns (\<lambda>(r, s'). good (ss_machine s')) (handle_debugger_before env st n s)"
  by (auto simp: handle_debugger_before_def Let_def good_def set_ctx_def split: option.splits prod.splits sum.splits)

lemma debug_after_good: "good (ss_machine (handle_debugger_after env st n s)) = good (ss_machine s)"
  by (simp add: handle_debugger_after_def Let_def split: option.splits)

lemma step:
  assumes "good (ss_machine s)" and "\<And>q. q \<in> set (step_callees env st) \<Longrightarrow> rank q < d"
  shows "returns (\<lambda>(r, s'). good (ss_machine s')) (execute_step run env st idx all s)"
  unfolding execute_step_def Let_def
  by (intro returns_intros returns_bind [OF debug_before_good] returns_bind [OF step_kind])
    (use assms in \<open>auto simp: end_step_good debug_after_good dest: start_step_good\<close>)

lemma saves: "good m \<Longrightarrow> returns good (save_all env r ss m)"
proof (induction ss arbitrary: m)
  case (Cons x ss)
  obtain t m1 where rc: "read_clock env m = (t, m1)" by force
  with Cons.prems have m1: "good m1" by (simp add: read_clock_good)
  then have c: "cok (mc_cache m1)" by (simp add: good_def)
  show ?case
    unfolding save_all.simps rc prod.case
    by (rule returns_bind [OF puts [OF c]], rule Cons.IH) (use m1 in \<open>simp add: good_def\<close>)
qed simp

lemma releases: "good m \<Longrightarrow> good (fold (release_slot env) ss m)"
  by (induction ss arbitrary: m) (auto simp: release_slot_def good_def clears)

lemma finish: "good m \<Longrightarrow> returns (\<lambda>(r, m'). good m') (finish_run env pc v ct st m)"
proof -
  assume m: "good m"
  have "returns good (run_pending_cache_saves env (pc_pending_cache_saves pc) v ct st m)"
    using m saves by (auto simp: run_pending_cache_saves_def releases)
  then show ?thesis unfolding finish_run_def by (rule returns_bind) simp
qed

lemma loop:
  "good m \<Longrightarrow> (\<And>q. q \<in> set (concat (map (step_callees env) ss)) \<Longrightarrow> rank q < d) \<Longrightarrow>
   returns (\<lambda>(r, m'). good m') (exec_loop ss run env all idx h ct st pc m)"
proof (induction ss arbitrary: idx h ct st pc m)
  case (Cons a ss)
  have rest: "rank q < d" if "q \<in> set (concat (map (step_callees env) ss))" for q
    using Cons.prems(2) that by auto
  note IH = Cons.IH [OF _ rest]
  have stp: "returns (\<lambda>(r, s'). good (ss_machine s')) (execute_step run env a idx all
      \<lparr> ss_machine = m, ss_pipe = pc,
        ss_output = \<lparr> po_state = JNull, po_content_type = ct, po_status_code = st \<rparr> \<rparr>)"
    by (rule step) (use Cons.prems in auto)
  show ?case
    unfolding exec_loop.simps Let_def
    by (intro returns_if returns_bind [OF stp] returns_prod returns_sum)
      (use Cons.prems(1) in \<open>auto intro: IH finish split: step_outcome.splits\<close>)
qed (simp add: finish)

lemma steps_return:
  "good m \<Longrightarrow> (\<And>q. q \<in> set (calls env p) \<Longrightarrow> rank q < d) \<Longrightarrow>
   returns (\<lambda>(r, m'). good m') (run_steps run env p h i m)"
  unfolding run_steps_def calls_def by (rule loop)

end

section \<open>Enough fuel\<close>

text \<open>
  A pipeline of depth \<open>k\<close> with joinable tasks of depth below \<open>K\<close> needs \<open>k + 1\<close> levels for its own
  nesting and as many again as the deepest task it may join inside.
\<close>

lemma exec_pipeline_returns:
  assumes env: "invoker_safe env cok"
    and puts: "\<And>now key resp ttl c. cok c \<Longrightarrow> returns cok
      (put_response (pl_cache_ops (env_platform env)) (estimate_size env) now key resp ttl c)"
    and clears: "\<And>key c. cok c \<Longrightarrow> cok (clear_refresh (pl_cache_ops (env_platform env)) key c)"
    and rank: "\<And>p q. q \<in> set (calls env p) \<Longrightarrow> rank q < rank p"
  shows "rank p \<le> K \<Longrightarrow> rank p + 1 + K * K \<le> fuel \<Longrightarrow> cok (mc_cache m) \<Longrightarrow>
    tasks_below env rank K (rc_async_registry (mc_ctx m)) \<Longrightarrow>
    returns (\<lambda>(r, m'). cok (mc_cache m') \<and> tasks_below env rank K (rc_async_registry (mc_ctx m')))
      (exec_pipeline env fuel p h i m)"
proof (induction fuel arbitrary: p h i m K)
  case (Suc n)
  have "returning (exec_pipeline env n) env cok rank K (rank p)"
  proof
    show "returns (\<lambda>(r, m'). cok (mc_cache m') \<and> tasks_below env rank K (rc_async_registry (mc_ctx m')))
        (exec_pipeline env n q h i m)"
      if "rank q < rank p" "cok (mc_cache m)" "tasks_below env rank K (rc_async_registry (mc_ctx m))" for q h i m
      by (rule Suc.IH) (use that Suc.prems in auto)
    show "returns (\<lambda>(r, m'). cok (mc_cache m')) (exec_pipeline env n q None i m)"
      if "rank q < K" "cok (mc_cache m)" "rc_async_registry (mc_ctx m) = Map.empty" for q i m
    proof -
      have "Suc (rank q) * Suc (rank q) \<le> K * K" by (rule mult_le_mono) (use that in auto)
      then have "rank q + 1 + rank q * rank q \<le> n" using Suc.prems(2) by simp
      then have "returns (\<lambda>(r, m'). cok (mc_cache m') \<and>
          tasks_below env rank (rank q) (rc_async_registry (mc_ctx m'))) (exec_pipeline env n q None i m)"
        by (intro Suc.IH) (use that in \<open>auto simp: tasks_below_def\<close>)
      then show ?thesis by (rule returns_mono) auto
    qed
  qed (use env puts clears Suc.prems in auto)
  note L = this
  have g: "returning.good env cok rank K m"
    using Suc.prems by (simp add: returning.good_def [OF L])
  have "returns (\<lambda>(r, m'). returning.good env cok rank K m') (run_steps (exec_pipeline env n) env p h i m)"
    by (rule returning.steps_return [OF L g]) (rule rank)
  then show ?case by (simp add: returning.good_def [OF L])
qed simp

text \<open>
  C1: When the calls among pipelines are not circular (some rank decreases along every call), every
  run returns: with fuel \<open>rank + 1 + rank ^ 2\<close> there is a result or an error, and the same one
  with any larger fuel; middleware is only assumed to leave the task registry alone and to keep
  the cache container's own invariant.
\<close>

theorem executor_terminates:
  assumes "response_cache (pl_cache_ops (env_platform env)) ok entries cap"
    and "ok (cs_inner (mc_cache m))" and "rc_async_registry (mc_ctx m) = Map.empty"
    and "invoker_safe env (\<lambda>c. ok (cs_inner c))"
    and "\<And>p q. q \<in> set (calls env p) \<Longrightarrow> rank q < rank p"
    and "rank p + 1 + rank p * rank p \<le> fuel"
  shows "\<exists>r m'. exec_pipeline env fuel p h i m = Some (r, m') \<and>
    (\<forall>k \<ge> fuel. exec_pipeline env k p h i m = Some (r, m'))"
proof -
  have "returns (\<lambda>(r, m'). ok (cs_inner (mc_cache m')) \<and>
      tasks_below env rank (rank p) (rc_async_registry (mc_ctx m'))) (exec_pipeline env fuel p h i m)"
  proof (rule exec_pipeline_returns [where cok = "\<lambda>c. ok (cs_inner c)"])
    show "returns (\<lambda>c. ok (cs_inner c))
        (put_response (pl_cache_ops (env_platform env)) (estimate_size env) now key resp ttl c)"
      if "ok (cs_inner c)" for now key resp ttl c
      using response_cache.put_response_returns [OF assms(1) that, of "estimate_size env" now key resp ttl]
      by (auto simp: returns_def)
    show "ok (cs_inner (clear_refresh (pl_cache_ops (env_platform env)) key c))"
      if "ok (cs_inner c)" for key c
      using response_cache.clear_refresh_spec [OF assms(1) that] by simp
  qed (use assms in \<open>auto simp: tasks_below_def\<close>)
  then obtain r m' where r: "exec_pipeline env fuel p h i m = Some (r, m')" by (auto simp: returns_def)
  moreover have "exec_pipeline env k p h i m = Some (r, m')" if "fuel \<le> k" for k
    using exec_pipeline_le [OF that, of env p h i m] r by (simp add: upto_fuel_def)
  ultimately show ?thesis by blast
qed

text \<open>With no named pipeline the size of the syntax is a rank.\<close>

lemma rb_size: "b \<in> set bs \<Longrightarrow> size (rb_pipeline b) < size_list size bs"
  by (erule size_list_estimation) (cases b, simp)

lemma db_size: "b \<in> set bs \<Longrightarrow> size (db_pipeline b) < size_list size bs"
  by (erule size_list_estimation) (cases b, simp)

lemma sub_pipeline_size:
  assumes "st \<in> set ss" and "q \<in> set (step_callees env st)" and "\<And>rs. st \<noteq> RegularStep rs"
  shows "size q < size (Pipeline ss)"
proof -
  have "size st < size (Pipeline ss)" using size_list_estimation' [OF assms(1) order_refl, of size] by simp
  moreover have "size q < size st"
    using assms(2,3) rb_size db_size
    by (cases st) (fastforce simp: step_callees_def split: option.splits)+
  ultimately show ?thesis by simp
qed

lemma calls_size:
  assumes "\<And>l n q. resolve_named_pipeline env l n = Some q \<Longrightarrow> size q = Suc 0" and "q \<in> set (calls env p)"
  shows "size q < size p"
proof -
  obtain ss where p: "p = Pipeline ss" by (cases p)
  then obtain st where st: "st \<in> set ss" "q \<in> set (step_callees env st)"
    using assms(2) by (auto simp: calls_def)
  show ?thesis
  proof (cases "\<exists>rs. st = RegularStep rs")
    case True
    then have "size q = Suc 0"
      using st(2) assms(1) by (auto simp: step_callees_def config_callee_def split: option.splits if_splits)
    moreover have "Suc 0 < size (Pipeline ss)" using st(1) by (cases ss) auto
    ultimately show ?thesis using p by simp
  next
    case False
    then show ?thesis using sub_pipeline_size [OF st] p by auto
  qed
qed

theorem executor_terminates_witness:
  "\<exists>r m'. exec_pipeline sample_env 100
     (Pipeline [ForeachStep ''items'' (Pipeline [RegularStep (sample_step ''pipeline'' ''noop'')]) default_location])
     None (JObject [(''items'', JArray [JNull, JNull])]) sample_machine = Some (r, m')"
proof -
  let ?p = "Pipeline [ForeachStep ''items'' (Pipeline [RegularStep (sample_step ''pipeline'' ''noop'')]) default_location]"
  have "response_cache (pl_cache_ops (env_platform sample_env)) list_lru_ok snd fst"
    using list_cache.response_cache_axioms by (simp add: sample_env_def sample_platform_def)
  moreover have "list_lru_ok (cs_inner (mc_cache sample_machine))"
    by (simp add: sample_machine_def sample_store_ok)
  moreover have "rc_async_registry (mc_ctx sample_machine) = Map.empty"
    by (simp add: sample_machine_def request_context_new_def)
  moreover have "invoker_safe sample_env (\<lambda>c. list_lru_ok (cs_inner c))"
    by (auto simp: invoker_safe_def sample_env_def sample_invoker_def split: if_splits)
  moreover have "size q < size p" if "q \<in> set (calls sample_env p)" for p q
    by (rule calls_size [OF _ that])
      (auto simp: resolve_named_pipeline_def sample_env_def Let_def split: option.splits prod.splits if_splits)
  moreover have "size ?p + 1 + size ?p * size ?p \<le> 100" by simp
  ultimately show ?thesis
    using executor_terminates [of sample_env list_lru_ok snd fst sample_machine size ?p 100] by blast
qed

end
