(* ===== verification/Executor_Properties.thy ===== *)
theory Executor_Properties
  imports Executor
begin

text \<open>
  What a pipeline run guarantees: the error short-circuit, the error envelope of a failed step and
  the branch it selects, the cache writes at the end of a run, iteration, asynchronous steps and
  joins.
\<close>

section \<open>Errors skip to the result block\<close>

lemma exec_loop_skip:
  "extract_error_type (pc_state pc) = Some t \<Longrightarrow> list_all (\<lambda>st. \<not> is_result_step st) pre \<Longrightarrow>
   exec_loop (pre @ post) run env all idx None ct st pc m =
   exec_loop post run env all (idx + length pre) None ct st pc m"
  by (induction pre arbitrary: idx) auto


definition sample_error :: json where
  "sample_error = JObject [(''errors'', JArray [JObject [(''type'', JString ''bad'')]])]"


section \<open>A failing step\<close>

lemma debug_none [simp]:
  "env_debugger env = None \<Longrightarrow> handle_debugger_before env st n s = Some (Inr (), s)"
  "env_debugger env = None \<Longrightarrow> handle_debugger_after env st n s = s"
  by (simp_all add: handle_debugger_before_def handle_debugger_after_def)

lemma start_end_step_frame [frame]:
  "ss_pipe (snd (start_step env n s)) = ss_pipe s"
  "ss_output (snd (start_step env n s)) = ss_output s"
  "ss_pipe (end_step env t s) = ss_pipe s"
  "ss_output (end_step env t s) = ss_output s"
  by (simp_all add: start_step_def end_step_def split: prod.splits)

lemma start_step_flags:
  "rc_feature_flags (mc_ctx (ss_machine (snd (start_step env n s)))) = rc_feature_flags (mc_ctx (ss_machine s))"
  "rc_conditions (mc_ctx (ss_machine (snd (start_step env n s)))) = rc_conditions (mc_ctx (ss_machine s))"
  by (simp_all add: start_step_def read_clock_def update_profiler_def set_ctx_def split: prod.splits)

lemma should_execute_cong:
  "rc_feature_flags ctx = rc_feature_flags ctx' \<Longrightarrow> rc_conditions ctx = rc_conditions ctx' \<Longrightarrow>
   should_execute_step c env ctx i = should_execute_step c env ctx' i"
  using check_tag_expr_cong [of ctx ctx'] by (auto simp: should_execute_step_def split: option.splits)

lemma start_step_state [simp]: "ss_state (snd (start_step env n s)) = ss_state s"
  by (simp add: ss_state_def frame)

lemma extract_with_location:
  "extract_middleware_failure (with_source_location l e) = None \<longleftrightarrow> extract_middleware_failure e = None"
  by (cases "error_label l"; cases e) (simp_all add: extract_middleware_failure_def with_source_location_def)

lemma regular_step_fails:
  assumes "should_execute_step (rs_condition rs) env (mc_ctx (ss_machine s)) (ss_state s)"
    and "detect_execution_mode (effective_name env rs) (rs_condition rs) = Standard"
    and "\<And>config target pc m. fst (env_invoker env (effective_name env rs) (rs_args rs) config target pc m) = Inl e"
  shows "\<exists>s'. regular_step_execute run env rs idx all s = Some (Inl e, s') \<and>
    ss_output s' = ss_output s \<and>
    pc_pending_cache_saves (ss_pipe s') = pc_pending_cache_saves (ss_pipe s) \<and>
    pc_cache_hit (ss_pipe s') = pc_cache_hit (ss_pipe s)"
proof -
  have std: "\<exists>pc' m'. handle_standard_execution env (effective_name env rs) (rs_args rs) config target pc m =
      (Inl e, pc', m')" for config target pc m
    using assms(3) [of config target pc m]
    by (auto simp: handle_standard_execution_def split: prod.splits)
  have core: "\<exists>m'. run_core_logic run env rs idx Standard (effective_name env rs) c i t s0 =
      Some (Inl e, s0\<lparr>ss_machine := m'\<rparr>)" for c i t s0
    using std [of c t "(pipeline_context_new i)\<lparr>pc_current_step_id := Some (step_id (rs_location rs) idx)\<rparr>"
        "ss_machine s0"] by (auto simp: run_core_logic_def Let_def)
  let ?n = "effective_name env rs"
  obtain c i a where res:
    "resolve_config_and_autoname env (rs_location rs) ?n (raw_config env rs) (ss_state s) = (c, i, a)"
    by (metis surj_pair)
  let ?s1 = "if ?n = ''pipeline'' then s\<lparr>ss_machine := log_pipeline_call c i (ss_machine s)\<rparr> else s"
  let ?s2 = "if a then set_state i ?s1 else ?s1"
  obtain t cl where dt: "determine_target_name (rs_condition rs) (ss_state ?s2) a = (t, cl)" by force
  obtain m' where m': "run_core_logic run env rs idx Standard ?n c i t ?s2 = Some (Inl e, ?s2\<lparr>ss_machine := m'\<rparr>)"
    using core by blast
  have "regular_step_execute run env rs idx all s = Some (Inl e, ?s2\<lparr>ss_machine := m'\<rparr>)"
    using assms(1,2) dt m'
    by (simp add: regular_step_execute_def regular_step_run_def res Let_def)
  then show ?thesis by (intro exI [of _ "?s2\<lparr>ss_machine := m'\<rparr>"]) simp
qed

text \<open>
  A step whose middleware reports an execution failure does not abort the pipeline: the state
  becomes an error envelope of type \<open><step>Error\<close>, or of the type its \<open>@error\<close> tag names, and
  nothing it may have registered is kept; any other error aborts the pipeline with the step's
  location attached.
\<close>

theorem failing_step_outcome:
  assumes "env_debugger env = None"
    and "should_execute_step (rs_condition rs) env (mc_ctx (ss_machine s)) (ss_state s)"
    and "detect_execution_mode (effective_name env rs) (rs_condition rs) = Standard"
    and "\<And>config target pc m. fst (env_invoker env (effective_name env rs) (rs_args rs) config target pc m) = Inl e"
  shows "\<exists>s'. pc_pending_cache_saves (ss_pipe s') = pc_pending_cache_saves (ss_pipe s) \<and>
    ss_output s' = ss_output s \<and>
    (case extract_middleware_failure e of
       Some _ \<Rightarrow>
         execute_step run env (RegularStep rs) idx all s = Some (Inr Continue, s') \<and>
         extract_error_type (ss_state s') =
           Some (case Option.bind (rs_condition rs) get_error_from_tag_expr of
                   Some ty \<Rightarrow> ty | None \<Rightarrow> rs_name rs @ ''Error'')
     | None \<Rightarrow>
         execute_step run env (RegularStep rs) idx all s =
           Some (Inl (with_source_location (rs_location rs) e), s'))"
proof -
  obtain t0 s1 where ss: "start_step env (determine_step_name (RegularStep rs)) s = (t0, s1)" by force
  then have s1: "s1 = snd (start_step env (determine_step_name (RegularStep rs)) s)" by simp
  have se: "should_execute_step (rs_condition rs) env (mc_ctx (ss_machine s1)) (ss_state s1)"
    using assms(2) by (simp add: s1 should_execute_cong [OF start_step_flags])
  obtain s2 where s2: "regular_step_execute run env rs idx all s1 = Some (Inl e, s2)"
    "ss_output s2 = ss_output s1" "pc_pending_cache_saves (ss_pipe s2) = pc_pending_cache_saves (ss_pipe s1)"
    using regular_step_fails [OF se assms(3,4), of run idx all] by blast
  have fr: "ss_output s1 = ss_output s" "ss_pipe s1 = ss_pipe s" by (simp_all add: s1 frame)
  show ?thesis
  proof (cases "extract_middleware_failure e")
    case None
    have "extract_middleware_failure (with_source_location (rs_location rs) e) = None"
      using None by (simp add: extract_with_location)
    then have "execute_step run env (RegularStep rs) idx all s =
        Some (Inl (with_source_location (rs_location rs) e), end_step env t0 s2)"
      using s2(1) assms(1) by (simp add: execute_step_def ss Let_def dispatch_step_kind_def execute_regular_def)
    then show ?thesis using None s2 fr by (intro exI [of _ "end_step env t0 s2"]) (simp add: frame)
  next
    case (Some x)
    then obtain msg loc where f:
      "extract_middleware_failure (with_source_location (rs_location rs) e) = Some (msg, loc)"
      using extract_with_location [of "rs_location rs" e] by fastforce
    let ?v = "override_error_type (make_middleware_error_value (rs_name rs) msg loc)
      (Option.bind (rs_condition rs) get_error_from_tag_expr)"
    have ex: "execute_step run env (RegularStep rs) idx all s =
        Some (Inr Continue, end_step env t0 (set_state ?v s2))"
      using s2(1) assms(1) f by (simp add: execute_step_def ss Let_def dispatch_step_kind_def execute_regular_def)
    have "ss_state (end_step env t0 (set_state ?v s2)) = ?v" by (simp add: ss_state_def frame set_state_def)
    then have "extract_error_type (ss_state (end_step env t0 (set_state ?v s2))) =
        Some (case Option.bind (rs_condition rs) get_error_from_tag_expr of
                Some ty \<Rightarrow> ty | None \<Rightarrow> rs_name rs @ ''Error'')"
      by (simp add: extract_override_make_error split: option.split)
    with ex Some s2 fr show ?thesis
      by (intro exI [of _ "end_step env t0 (set_state ?v s2)"]) (simp add: frame set_state_def)
  qed
qed

definition sample_state :: "json \<Rightarrow> (cache_entry list_lru, unit, nat) step_state" where
  "sample_state v = \<lparr> ss_machine = sample_machine, ss_pipe = pipeline_context_new v,
     ss_output = pipeline_output_new JNull \<rparr>"

theorem failing_step_outcome_witness:
  "\<exists>s'. execute_step (exec_pipeline sample_env 0) sample_env (RegularStep (sample_step ''fail'' ''boom'')) 0 []
      (sample_state JNull) = Some (Inr Continue, s') \<and>
    extract_error_type (ss_state s') = Some ''failError''"
proof -
  let ?rs = "sample_step ''fail'' ''boom''" and ?e = "MiddlewareExecutionError ''boom''"
  have n: "effective_name sample_env ?rs = ''fail''"
    by (simp add: effective_name_def is_pipeline_shorthand_def regular_step_is_pipeline_shorthand_def sample_step_def)
  have c: "raw_config sample_env ?rs = ''boom''"
    by (simp add: raw_config_def is_pipeline_shorthand_def regular_step_is_pipeline_shorthand_def sample_step_def)
  have 1: "env_debugger sample_env = None" by (simp add: sample_env_def)
  have 2: "should_execute_step (rs_condition ?rs) sample_env (mc_ctx (ss_machine (sample_state JNull)))
      (ss_state (sample_state JNull))" by (simp add: should_execute_step_def sample_step_def)
  have 3: "detect_execution_mode (effective_name sample_env ?rs) (rs_condition ?rs) = Standard"
    unfolding n by (simp add: detect_execution_mode_def sample_step_def)
  have 4: "fst (env_invoker sample_env (effective_name sample_env ?rs) (rs_args ?rs) config target pc m) = Inl ?e"
    for config target pc m
    unfolding n by (simp add: sample_env_def sample_invoker_def)
  have o: "Option.bind (rs_condition ?rs) get_error_from_tag_expr = None" "rs_name ?rs = ''fail''"
    by (simp_all add: sample_step_def)
  have f: "extract_middleware_failure ?e = Some (''boom'', None)" by (simp add: extract_middleware_failure_def)
  show ?thesis
    using failing_step_outcome [OF 1 2 3 4, of "exec_pipeline sample_env 0" 0 "[]"]
    by (auto simp: f o)
qed

section \<open>Cache writes\<close>

lemma release_slots:
  assumes "response_cache (pl_cache_ops (env_platform env)) ok entries cap"
  shows "ok (cs_inner (mc_cache m)) \<Longrightarrow>
    ok (cs_inner (mc_cache (fold (release_slot env) saves m))) \<and>
    map_of (entries (cs_inner (mc_cache (fold (release_slot env) saves m)))) k =
      map_option (\<lambda>e. if \<exists>s \<in> set saves. ps_refreshing s \<and> ps_key s = k
                      then e\<lparr>ce_refresh_started := None\<rparr> else e)
        (map_of (entries (cs_inner (mc_cache m))) k)"
proof (induction saves arbitrary: m)
  case (Cons s saves)
  have one: "ok (cs_inner (mc_cache (release_slot env s m))) \<and>
      map_of (entries (cs_inner (mc_cache (release_slot env s m)))) k =
        map_option (\<lambda>e. if ps_refreshing s \<and> ps_key s = k then e\<lparr>ce_refresh_started := None\<rparr> else e)
          (map_of (entries (cs_inner (mc_cache m))) k)"
    using response_cache.clear_refresh_spec [OF assms Cons.prems, of "ps_key s"] Cons.prems
    by (auto simp: release_slot_def option.map_ident)
  from Cons.IH [OF one [THEN conjunct1]] one show ?case
    by (auto simp: option.map_comp comp_def intro!: option.map_cong)
qed (simp add: option.map_ident)

text \<open>
  A run that ends in a typed error or a server error stores nothing: every entry of the cache
  is the one it was, except that the refresh slot of each key the run was refreshing is free again.
\<close>

theorem failed_run_not_cached:
  assumes "response_cache (pl_cache_ops (env_platform env)) ok entries cap" and "ok (cs_inner (mc_cache m))"
    and "extract_error_type state \<noteq> None \<or> (\<exists>c. status = Some c \<and> 500 \<le> c)"
  shows "\<exists>m'. run_pending_cache_saves env saves state content_type status m = Some m' \<and>
    (\<forall>k. map_of (entries (cs_inner (mc_cache m'))) k =
       map_option (\<lambda>e. if \<exists>s \<in> set saves. ps_refreshing s \<and> ps_key s = k
                       then e\<lparr>ce_refresh_started := None\<rparr> else e)
         (map_of (entries (cs_inner (mc_cache m))) k))"
proof -
  have u: "uncacheable state status" using assms(3) by (auto simp: uncacheable_def)
  show ?thesis
  proof (cases saves)
    case Nil
    then show ?thesis by (simp add: run_pending_cache_saves_def option.map_ident)
  next
    case (Cons s ss)
    with u have "run_pending_cache_saves env saves state content_type status m =
        Some (fold (release_slot env) saves m)" by (simp add: run_pending_cache_saves_def)
    with release_slots [OF assms(1,2), of saves] show ?thesis by blast
  qed
qed

lemma sample_cache:
  "response_cache (pl_cache_ops (env_platform sample_env)) list_lru_ok snd fst"
  "list_lru_ok (cs_inner (mc_cache sample_machine))"
  "size_bounded snd (mc_cache sample_machine)"
  using list_cache.response_cache_axioms sample_store_ok
  by (simp_all add: sample_env_def sample_platform_def sample_machine_def)

theorem failed_run_not_cached_witness:
  "\<exists>m'. run_pending_cache_saves sample_env [\<lparr> ps_key = ''k'', ps_ttl = 60, ps_refreshing = False \<rparr>]
      sample_error ''application/json'' None sample_machine = Some m' \<and> map_of (snd (cs_inner (mc_cache m'))) ''k'' = None"
proof -
  have e: "extract_error_type sample_error \<noteq> None \<or> (\<exists>c. (None :: u16 option) = Some c \<and> 500 \<le> c)"
    by (simp add: sample_error_def extract_error_type_def)
  have n: "snd (cs_inner (mc_cache sample_machine)) = []"
    by (simp add: sample_machine_def sample_store_def cache_new_with_limits_def list_lru_def)
  show ?thesis
    using failed_run_not_cached [OF sample_cache(1,2) e] by (fastforce simp: n)
qed

text \<open>
  A run that ends without an error stores its final state, content type and status under the
  key it registered, so that a lookup before the time-to-live ends answers exactly that response.
\<close>

theorem finished_run_cached:
  assumes "response_cache (pl_cache_ops (env_platform env)) ok entries cap" and "ok (cs_inner (mc_cache m))"
    and "size_bounded entries (mc_cache m)"
    and "extract_error_type state = None" and "\<forall>c. status = Some c \<longrightarrow> c < 500"
    and "0 < ps_ttl save"
    and "estimate_size env state \<le> min (cs_max_entry_size (mc_cache m)) (cs_max_total_size (mc_cache m))"
    and "fst (pl_now (env_platform env) (mc_world m)) = saved_at" and "now < saved_at + nanos (ps_ttl save)"
  shows "\<exists>m'. run_pending_cache_saves env [save] state content_type status m = Some m' \<and>
    fst (cache_lookup (pl_cache_ops (env_platform env)) now (ps_key save) (mc_cache m')) =
      Fresh \<lparr> cr_body = state, cr_content_type = content_type, cr_status_code = status \<rparr>"
proof -
  let ?r = "\<lparr> cr_body = state, cr_content_type = content_type, cr_status_code = status \<rparr>"
  have u: "\<not> uncacheable state status"
    using assms(4,5) by (auto simp: uncacheable_def not_le split: option.splits)
  obtain w where rc: "read_clock env m = (saved_at, m\<lparr>mc_world := w\<rparr>)"
    using assms(8) by (cases "pl_now (env_platform env) (mc_world m)") (auto simp: read_clock_def)
  obtain c where c: "put_response (pl_cache_ops (env_platform env)) (estimate_size env) saved_at (ps_key save) ?r
      (Some (ps_ttl save)) (mc_cache m) = Some c"
    "ok (cs_inner c)"
    using response_cache.put_response_returns [OF assms(1,2), of "estimate_size env" saved_at "ps_key save" ?r
        "Some (ps_ttl save)"] by blast
  have e: "map_of (entries (cs_inner c)) (ps_key save) =
      Some (new_entry saved_at (ps_ttl save) (cs_swr_grace_secs (mc_cache m)) (estimate_size env state) ?r)"
    using response_cache.put_response_stores [OF assms(1-3) c(1) assms(6)] assms(7) by simp
  have "fst (cache_lookup (pl_cache_ops (env_platform env)) now (ps_key save) c) = Fresh ?r"
    using response_cache.lookup_spec [OF assms(1) c(2) prod.collapse [symmetric], of now "ps_key save"] e assms(9)
    by (auto split: if_splits)
  with u rc c(1) show ?thesis by (simp add: run_pending_cache_saves_def)
qed

theorem finished_run_cached_witness:
  "\<exists>m'. run_pending_cache_saves sample_env [\<lparr> ps_key = ''k'', ps_ttl = 60, ps_refreshing = False \<rparr>]
      (JString ''hi'') ''text/html'' (Some 200) sample_machine = Some m' \<and>
    fst (cache_lookup list_lru 59999999999 ''k'' (mc_cache m')) =
      Fresh \<lparr> cr_body = JString ''hi'', cr_content_type = ''text/html'', cr_status_code = Some 200 \<rparr>"
  using finished_run_cached [OF sample_cache, where save = "\<lparr> ps_key = ''k'', ps_ttl = 60, ps_refreshing = False \<rparr>"
      and state = "JString ''hi''" and status = "Some 200" and now = 59999999999 and saved_at = 0
      and content_type = "''text/html''"]
  by (simp add: sample_env_def sample_platform_def sample_machine_def extract_error_type_def
      estimate_size_def sample_store_ok nanos_def)

section \<open>Iteration\<close>

text \<open>The machines between the items of a loop: item \<open>i\<close> runs from the \<open>i\<close>-th to the next.\<close>

definition item_runs ::
  "('l, 'r, 'w) runner \<Rightarrow> pipeline \<Rightarrow> json list \<Rightarrow> json list \<Rightarrow> ('l, 'r, 'w) machine list \<Rightarrow> bool" where
  "item_runs run p items results ms \<longleftrightarrow>
     length results = length items \<and> length ms = Suc (length items) \<and>
     (\<forall>i < length items. \<exists>ct st. run p None (items ! i) (ms ! i) =
        Some (Inr (results ! i, ct, st), ms ! Suc i))"

lemma item_runs_Cons:
  "run p None x m = Some (Inr (r, ct, st), m1) \<Longrightarrow> item_runs run p xs rs (m1 # ms) \<Longrightarrow>
   item_runs run p (x # xs) (r # rs) (m # m1 # ms)"
  by (auto simp: item_runs_def less_Suc_eq_0_disj)

lemma foreach_items_runs:
  "foreach_items run p items acc m = Some (Inr results, m') \<Longrightarrow>
   \<exists>new ms. results = acc @ new \<and> item_runs run p items new (m # ms) \<and> last (m # ms) = m'"
proof (induction items arbitrary: acc m)
  case Nil
  then show ?case by (intro exI [of _ "[]"]) (simp add: item_runs_def)
next
  case (Cons x xs)
  then obtain r ct st m1 where r: "run p None x m = Some (Inr (r, ct, st), m1)"
    and rest: "foreach_items run p xs (acc @ [r]) m1 = Some (Inr results, m')"
    by (auto split: option.splits sum.splits)
  from Cons.IH [OF rest] obtain new ms where "results = (acc @ [r]) @ new"
    "item_runs run p xs new (m1 # ms)" "last (m1 # ms) = m'" by blast
  with item_runs_Cons [where run = run and p = p, OF r] show ?case
    by (intro exI [of _ "r # new"] exI [of _ "m1 # ms"]) simp
qed

text \<open>
  A \<open>foreach\<close> step runs its pipeline on every element in order, each from the machine the
  previous one left, and writes the list of their final states, of the same length, where the
  list was; nothing else of the state changes. A selector that is no list is an error.
\<close>

theorem foreach_step_spec:
  assumes "handle_foreach_step run sel p s = Some (r, s')"
  shows "case get_value (ss_state s) sel of
      Some (JArray items) \<Rightarrow>
        (\<forall>out. r = Inr out \<longrightarrow> out = Continue \<and>
          (\<exists>results ms. item_runs run p items results (ss_machine s # ms) \<and>
             ss_machine s' = last (ss_machine s # ms) \<and>
             set_value_mut (ss_state s) sel (JArray results) = Some (ss_state s') \<and>
             get_value (ss_state s') sel = Some (JArray results)))
    | _ \<Rightarrow> \<exists>msg. r = Inl (MiddlewareExecutionError msg) \<and> ss_machine s' = ss_machine s"
proof (cases "\<exists>items. get_value (ss_state s) sel = Some (JArray items)")
  case False
  obtain v st where tv: "take_value_mut (ss_state s) sel = (v, st)" by force
  have "v = get_value (ss_state s) sel" using take_value_mut_read [of "ss_state s" sel] tv by simp
  with assms False tv show ?thesis
    by (auto simp: handle_foreach_step_def split: option.splits json.splits)
next
  case True
  then obtain items where g: "get_value (ss_state s) sel = Some (JArray items)" by blast
  then obtain st where tv: "take_value_mut (ss_state s) sel = (Some (JArray items), st)"
    using take_value_mut_read [of "ss_state s" sel] by (metis prod.collapse)
  have st: "st = snd (take_value_mut (ss_state s) sel)" by (simp add: tv)
  have ok: "\<exists>results ms. item_runs run p items results (ss_machine s # ms) \<and>
      ss_machine s' = last (ss_machine s # ms) \<and>
      set_value_mut (ss_state s) sel (JArray results) = Some (ss_state s') \<and>
      get_value (ss_state s') sel = Some (JArray results) \<and> out = Continue" if rout: "r = Inr out" for out
  proof -
    obtain results m' where f: "foreach_items run p items [] (ss_machine s) = Some (Inr results, m')"
      and s': "out = Continue" "s' = (let s2 = (set_state st s)\<lparr>ss_machine := m'\<rparr> in
        case set_value_mut (ss_state s2) sel (JArray results) of
          Some v \<Rightarrow> set_state v s2 | None \<Rightarrow> s2)"
      using assms rout
      by (auto simp: handle_foreach_step_def tv Let_def on_machine_def split: option.splits sum.splits)
    obtain ms where ms: "item_runs run p items results (ss_machine s # ms)" "last (ss_machine s # ms) = m'"
      using foreach_items_runs [OF f] by auto
    have "set_value_mut st sel (JArray results) = set_value_mut (ss_state s) sel (JArray results)"
      unfolding st by (rule take_value_mut_implant [OF g])
    moreover obtain v where v: "set_value_mut (ss_state s) sel (JArray results) = Some v"
      using path_slot.store_defined [of "parse_path sel" "ss_state s" "JArray items" "JArray results"] g
      by (auto simp: set_value_mut_def get_value_def)
    ultimately have "s' = set_state v ((set_state st s)\<lparr>ss_machine := m'\<rparr>)"
      using s'(2) by simp
    moreover have "get_value v sel = Some (JArray results)"
      using path_slot.look_store [of "parse_path sel" "JArray results" "ss_state s" v] v
      by (simp add: set_value_mut_def get_value_def)
    ultimately show ?thesis using ms v s'(1)
      by (intro exI [of _ results] exI [of _ ms]) (simp del: last.simps)
  qed
  then show ?thesis unfolding g option.case json.case by blast
qed

theorem foreach_step_spec_witness:
  "\<exists>s'. handle_foreach_step (exec_pipeline sample_env 1) ''xs'' (Pipeline [])
      (sample_state (JObject [(''xs'', JArray [JNull, JBool True])])) = Some (Inr Continue, s') \<and>
    get_value (ss_state s') ''xs'' = Some (JArray [JNull, JBool True])"
proof -
  let ?st = "sample_state (JObject [(''xs'', JArray [JNull, JBool True])])"
  have p: "parse_path ''xs'' = [''xs'']"
    by (simp add: parse_path_def trim_start_char_def)
  have f: "foreach_items (exec_pipeline sample_env (Suc 0)) (Pipeline []) [JNull, JBool True] [] sample_machine =
      Some (Inr [JNull, JBool True], sample_machine)"
    by (simp add: run_steps_def finish_run_def run_pending_cache_saves_def pipeline_context_new_def)
  have h: "\<exists>s'. handle_foreach_step (exec_pipeline sample_env (Suc 0)) ''xs'' (Pipeline []) ?st = Some (Inr Continue, s')"
    by (simp add: handle_foreach_step_def take_value_mut_def get_value_def set_value_mut_def get_parts_def put_parts_def p
        sample_state_def ss_state_def pipeline_context_new_def on_machine_def f set_state_def Let_def
        del: exec_pipeline.simps foreach_items.simps)
  then obtain s' where s': "handle_foreach_step (exec_pipeline sample_env (Suc 0)) ''xs'' (Pipeline []) ?st = Some (Inr Continue, s')"
    by blast
  have g: "get_value (ss_state ?st) ''xs'' = Some (JArray [JNull, JBool True])"
    by (simp add: get_value_def get_parts_def p sample_state_def ss_state_def pipeline_context_new_def)
  from foreach_step_spec [OF s'] obtain results ms where
    i: "item_runs (exec_pipeline sample_env (Suc 0)) (Pipeline []) [JNull, JBool True] results (ss_machine ?st # ms)"
    and v: "get_value (ss_state s') ''xs'' = Some (JArray results)" unfolding g by auto
  have "results = [JNull, JBool True]"
    using i by (auto simp: item_runs_def less_Suc_eq_0_disj run_steps_def finish_run_def
        run_pending_cache_saves_def pipeline_context_new_def length_Suc_conv all_conj_distrib)
  with v s' show ?thesis unfolding One_nat_def by blast
qed

section \<open>Result blocks\<close>

text \<open>
  A result block always ends the run. With a branch for the state it answers with that
  branch's status whatever its pipeline set, passes the handled error type on so that the branch
  may run, and keeps the cookies the state had collected unless the branch sets its own; without a
  branch it answers the state as it is.
\<close>

theorem result_step_spec:
  assumes "handle_result_step run branches s = Some (Inr outcome, s')"
  shows "case select_branch branches (extract_error_type (ss_state s)) of
      Some b \<Rightarrow>
        (\<exists>v ct st m. run (rb_pipeline b) (extract_error_type (ss_state s)) (ss_state s) (ss_machine s) =
            Some (Inr (v, ct, st), m) \<and> ss_machine s' = m \<and>
          (\<exists>out. outcome = Return out \<and> po_status_code out = Some (rb_status_code b) \<and>
            po_state out = ss_state s' \<and>
            (\<forall>k. json_get k (po_state out) =
               (if k = ''setCookies'' \<and> is_object v \<and> json_get k v = None
                then json_get k (ss_state s) else json_get k v)) \<and>
            (is_object v \<or> po_state out = v)))
    | None \<Rightarrow> outcome = Return \<lparr> po_state = ss_state s, po_content_type = po_content_type (ss_output s),
                                   po_status_code = po_status_code (ss_output s) \<rparr> \<and> s' = s"
proof (cases "select_branch branches (extract_error_type (ss_state s))")
  case None
  with assms show ?thesis by (auto simp: handle_result_step_def)
next
  case (Some b)
  with assms obtain v ct st m where r: "run (rb_pipeline b) (extract_error_type (ss_state s)) (ss_state s)
      (ss_machine s) = Some (Inr (v, ct, st), m)"
    and o: "\<exists>final_ct. outcome = Return \<lparr> po_state = restore_cookies (json_get ''setCookies'' (ss_state s)) v,
      po_content_type = final_ct, po_status_code = Some (rb_status_code b) \<rparr>"
    and s': "ss_state s' = restore_cookies (json_get ''setCookies'' (ss_state s)) v" "ss_machine s' = m"
    by (auto simp: handle_result_step_def take_state_def on_machine_def Let_def split: option.splits sum.splits)
  have c: "json_get k (restore_cookies (json_get ''setCookies'' (ss_state s)) v) =
      (if k = ''setCookies'' \<and> is_object v \<and> json_get k v = None
       then json_get k (ss_state s) else json_get k v)" for k
    by (cases v) (auto simp: restore_cookies_def is_object_def om_has_def split: option.splits)
  have n: "is_object v \<or> restore_cookies (json_get ''setCookies'' (ss_state s)) v = v"
    by (cases v) (auto simp: restore_cookies_def is_object_def split: option.splits)
  obtain final_ct where fc: "outcome = Return \<lparr> po_state = restore_cookies (json_get ''setCookies'' (ss_state s)) v,
      po_content_type = final_ct, po_status_code = Some (rb_status_code b) \<rparr>" using o by blast
  show ?thesis
    unfolding Some option.case
    by (intro exI [of _ v] exI [of _ ct] exI [of _ st] exI [of _ m] conjI exI [of _
        "\<lparr> po_state = restore_cookies (json_get ''setCookies'' (ss_state s)) v,
           po_content_type = final_ct, po_status_code = Some (rb_status_code b) \<rparr>"] allI)
      (simp_all only: r fc s' c n pipeline_output.simps)
qed

theorem result_step_spec_witness:
  "\<exists>s' out. handle_result_step (exec_pipeline sample_env 1)
      [ResultBranch BranchOk 201 (Pipeline []) default_location] (sample_state (JObject [])) =
        Some (Inr (Return out), s') \<and> po_status_code out = Some 201"
proof -
  let ?b = "ResultBranch BranchOk 201 (Pipeline []) default_location"
  have sel: "select_branch [?b] None = Some ?b" by (simp add: select_branch_def)
  have e: "extract_error_type (ss_state (sample_state (JObject []))) = None"
    by (simp add: extract_error_type_def sample_state_def ss_state_def pipeline_context_new_def)
  have "\<exists>out s'. handle_result_step (exec_pipeline sample_env 1) [?b] (sample_state (JObject [])) =
      Some (Inr out, s')"
    by (simp add: handle_result_step_def e sel take_state_def on_machine_def run_steps_def finish_run_def
        run_pending_cache_saves_def pipeline_context_new_def Let_def)
  then obtain out s' where r: "handle_result_step (exec_pipeline sample_env 1) [?b] (sample_state (JObject [])) =
      Some (Inr out, s')" by blast
  from result_step_spec [OF r] r show ?thesis unfolding e sel by auto
qed

section \<open>Asynchronous steps and joins\<close>

lemma run_task_ctx: "run_task run env t m = Some (out, m') \<Longrightarrow> mc_ctx m' = mc_ctx m"
  by (auto simp: run_task_def set_ctx_def split: option.splits sum.splits)

lemma await_ctx: "await_handle run env h m = Some (out, m') \<Longrightarrow> mc_ctx m' = mc_ctx m"
  by (auto simp: await_handle_def run_task_ctx split: join_handle.splits)

text \<open>
  An asynchronous step changes nothing its own pipeline can see: the state, the metadata, the
  pending cache writes and the whole request context stay as they are but for one new entry in
  the task registry, under the name of the tag; the task is given the state at that moment.
\<close>

theorem async_step_effect:
  assumes "should_execute_step (rs_condition rs) env (mc_ctx (ss_machine s)) (ss_state s)"
    and "Option.bind (rs_condition rs) get_async_from_tag_expr = Some name"
    and "regular_step_execute run env rs idx all s = Some (r, s')"
  shows "r = Inr Continue \<and> ss_pipe s' = ss_pipe s \<and> ss_output s' = ss_output s \<and>
    (\<exists>h. mc_ctx (ss_machine s') = (mc_ctx (ss_machine s))\<lparr>rc_async_registry :=
        (rc_async_registry (mc_ctx (ss_machine s)))(name \<mapsto> h)\<rparr> \<and>
      (\<forall>t. h = Pending t \<longrightarrow> at_input t = ss_state s \<and> at_name t = effective_name env rs))"
proof -
  have mode: "detect_execution_mode (effective_name env rs) (rs_condition rs) = Async name"
    using assms(2) by (simp add: detect_execution_mode_def)
  let ?t = "\<lparr> at_name = effective_name env rs, at_args = rs_args rs, at_config = raw_config env rs,
    at_location = rs_location rs, at_input = ss_state s \<rparr>"
  obtain m' where m': "spawn_async_step run env (effective_name env rs) (rs_args rs) (raw_config env rs)
      (rs_location rs) (ss_state s) name (ss_machine s) = Some m'"
    and r: "r = Inr Continue" "s' = s\<lparr>ss_machine := m'\<rparr>"
    using assms(1,3) mode by (auto simp: regular_step_execute_def Let_def split: option.splits)
  have "\<exists>h m0. m' = register_handle name h m0 \<and> mc_ctx m0 = mc_ctx (ss_machine s) \<and>
      (h = Pending ?t \<or> (\<exists>out. h = Finished out))"
    using m' by (auto simp: spawn_async_step_def Let_def dest: run_task_ctx split: option.splits if_splits)
  then obtain h m0 where "m' = register_handle name h m0" "mc_ctx m0 = mc_ctx (ss_machine s)"
    "h = Pending ?t \<or> (\<exists>out. h = Finished out)" by blast
  with r show ?thesis
    by (auto simp: register_handle_def set_ctx_def registry_register_def)
qed

lemma join_tasks_registry:
  "join_tasks run env names acc m = Some (results, m') \<Longrightarrow>
   (\<forall>n. rc_async_registry (mc_ctx m') n = (if n \<in> set names then None else rc_async_registry (mc_ctx m) n)) \<and>
   (\<forall>n. (map_of results n \<noteq> None) =
      (map_of acc n \<noteq> None \<or> n \<in> set names \<and> rc_async_registry (mc_ctx m) n \<noteq> None))"
proof (induction names arbitrary: acc m)
  case (Cons a names)
  show ?case
  proof (cases "rc_async_registry (mc_ctx m) a")
    case None
    with Cons.prems have "join_tasks run env names acc m = Some (results, m')"
      by (simp add: registry_take_def)
    from Cons.IH [OF this] None show ?thesis by auto
  next
    case (Some h)
    let ?m = "set_ctx ((mc_ctx m)\<lparr>rc_async_registry := (rc_async_registry (mc_ctx m))(a := None)\<rparr>) m"
    from Cons.prems Some obtain out m1 where aw: "await_handle run env h ?m = Some (out, m1)"
      and rest: "join_tasks run env names (om_insert a (outcome_value out) acc)
        (update_profiler (merge_task_samples a out) m1) = Some (results, m')"
      by (auto simp: registry_take_def split: option.splits)
    have reg: "rc_async_registry (mc_ctx (update_profiler (merge_task_samples a out) m1)) =
        (rc_async_registry (mc_ctx m))(a := None)"
      using await_ctx [OF aw] by (simp add: update_profiler_def set_ctx_def)
    from Cons.IH [OF rest] show ?thesis unfolding reg using Some by auto
  qed
qed simp

text \<open>
  A join takes each task it names out of the registry, so a task is joined at most once, leaves
  the other tasks alone, and puts one entry under \<open>async\<close> for exactly the named tasks that were
  registered; an unknown name is skipped. Every other key of the state is kept.
\<close>

theorem join_step_spec:
  assumes "handle_join run env config (Some names) (JObject obj) m = Some (Inr result, m')"
  shows "\<exists>results. sr_value result = JObject (om_insert ''async'' (JObject results) obj) \<and>
    (\<forall>n. (map_of results n \<noteq> None) = (n \<in> set names \<and> rc_async_registry (mc_ctx m) n \<noteq> None)) \<and>
    (\<forall>n. rc_async_registry (mc_ctx m') n =
      (if n \<in> set names then None else rc_async_registry (mc_ctx m) n))"
proof -
  obtain results where j: "join_tasks run env names [] m = Some (results, m')"
    and v: "sr_value result = JObject (om_insert ''async'' (JObject results) obj)"
    using assms by (auto simp: handle_join_def split: option.splits)
  from join_tasks_registry [OF j] v show ?thesis by (intro exI [of _ results]) simp
qed

theorem join_step_spec_witness:
  "\<exists>results m'. handle_join (exec_pipeline sample_env 0) sample_env '''' (Some [''a'', ''b'']) (JObject [])
      (register_handle ''a'' (Finished (TaskDone JNull default_profiler)) sample_machine) =
      Some (Inr \<lparr> sr_value = JObject [(''async'', JObject results)], sr_content_type = ''application/json'',
                 sr_status_code = None \<rparr>, m') \<and>
    map_of results ''b'' = None \<and> rc_async_registry (mc_ctx m') ''a'' = None"
proof -
  let ?m = "register_handle ''a'' (Finished (TaskDone JNull default_profiler)) sample_machine"
  have reg: "rc_async_registry (mc_ctx ?m) = [''a'' \<mapsto> Finished (TaskDone JNull default_profiler)]"
    by (simp add: register_handle_def set_ctx_def registry_register_def sample_machine_def
        request_context_new_def)
  have "\<exists>results m'. handle_join (exec_pipeline sample_env 0) sample_env '''' (Some [''a'', ''b'']) (JObject []) ?m =
      Some (Inr \<lparr> sr_value = JObject [(''async'', JObject results)], sr_content_type = ''application/json'',
                 sr_status_code = None \<rparr>, m')"
    by (simp add: handle_join_def reg registry_take_def await_handle_def set_ctx_def update_profiler_def)
  then obtain results m' where h: "handle_join (exec_pipeline sample_env 0) sample_env '''' (Some [''a'', ''b''])
      (JObject []) ?m = Some (Inr \<lparr> sr_value = JObject [(''async'', JObject results)],
        sr_content_type = ''application/json'', sr_status_code = None \<rparr>, m')" by blast
  obtain rs where rs: "JObject [(''async'', JObject results)] = JObject (om_insert ''async'' (JObject rs) [])"
    "\<forall>n. (map_of rs n \<noteq> None) = (n \<in> set [''a'', ''b''] \<and> rc_async_registry (mc_ctx ?m) n \<noteq> None)"
    "\<forall>n. rc_async_registry (mc_ctx m') n =
      (if n \<in> set [''a'', ''b''] then None else rc_async_registry (mc_ctx ?m) n)"
    using join_step_spec [OF h] by (auto simp only: step_result.simps)
  have "map_of results ''b'' = None" using rs(1) spec [OF rs(2), of "''b''"] by (simp add: reg)
  moreover have "rc_async_registry (mc_ctx m') ''a'' = None" using spec [OF rs(3), of "''a''"] by simp
  ultimately show ?thesis using h by blast
qed

definition sample_async_step :: regular_step where
  "sample_async_step = (sample_step ''jq'' ''.'')\<lparr>rs_condition :=
     Some (TagE \<lparr> tag_name = ''async'', tag_negated = False, tag_args = [''t''] \<rparr>)\<rparr>"

theorem async_step_effect_witness:
  "\<exists>s'. regular_step_execute (exec_pipeline sample_env 0) sample_env sample_async_step 0 [] (sample_state JNull) =
      Some (Inr Continue, s') \<and> ss_pipe s' = ss_pipe (sample_state JNull)"
proof -
  have c: "should_execute_step (rs_condition sample_async_step) sample_env
      (mc_ctx (ss_machine (sample_state JNull))) (ss_state (sample_state JNull))"
    by (simp add: sample_async_step_def should_execute_step_def check_tag_def)
  have n: "Option.bind (rs_condition sample_async_step) get_async_from_tag_expr = Some ''t''"
    by (simp add: sample_async_step_def single_arg_def)
  have "\<exists>r s'. regular_step_execute (exec_pipeline sample_env 0) sample_env sample_async_step 0 []
      (sample_state JNull) = Some (r, s')"
    using c n by (simp add: regular_step_execute_def detect_execution_mode_def spawn_async_step_def Let_def
        sample_env_def sample_platform_def)
  then obtain r s' where r: "regular_step_execute (exec_pipeline sample_env 0) sample_env sample_async_step 0 []
      (sample_state JNull) = Some (r, s')" by blast
  from async_step_effect [OF c n r] r show ?thesis by auto
qed

section \<open>Tags\<close>

theorem tags_fail_closed_witness:
  "\<not> check_tag \<lparr> tag_name = ''flag'', tag_negated = False, tag_args = [''beta''] \<rparr> sample_env
     (request_context_new :: nat request_context) JNull"
  using tags_fail_closed [of "\<lparr> tag_name = ''flag'', tag_negated = False, tag_args = [''beta''] \<rparr>" sample_env
      request_context_new JNull]
  by (simp add: request_context_new_def)

end
