(* ===== verification/Executor_Invariants.thy ===== *)
theory Executor_Invariants
  imports Executor
begin

text \<open>
  Invariants of a whole run, proved once for any machine predicate the executor's own updates keep
  and any condition on middleware: the locale \<^verbatim>\<open>run_keeps\<close>. Its two uses are the balance of the
  profiler stack and the well-formedness of every JSON value.
\<close>

section \<open>Partial correctness of computations\<close>

definition after :: "('b \<Rightarrow> bool) \<Rightarrow> 'b option \<Rightarrow> bool" where
  "after Q a \<longleftrightarrow> (\<forall>x. a = Some x \<longrightarrow> Q x)"

lemma after_simps [simp]: "after Q None" "after Q (Some x) = Q x"
  by (simp_all add: after_def)

lemma afterD: "after Q a \<Longrightarrow> a = Some x \<Longrightarrow> Q x"
  by (simp add: after_def)

lemma after_bind:
  "after P a \<Longrightarrow> (\<And>x. P x \<Longrightarrow> after Q (f x)) \<Longrightarrow> after Q (case a of None \<Rightarrow> None | Some x \<Rightarrow> f x)"
  by (auto simp: after_def split: option.splits)

lemma after_prod: "(\<And>x y. p = (x, y) \<Longrightarrow> after Q (f x y)) \<Longrightarrow> after Q (case p of (x, y) \<Rightarrow> f x y)"
  by (cases p) auto

lemma after_sum:
  "(\<And>x. s = Inl x \<Longrightarrow> after Q (f x)) \<Longrightarrow> (\<And>x. s = Inr x \<Longrightarrow> after Q (g x)) \<Longrightarrow>
   after Q (case s of Inl x \<Rightarrow> f x | Inr x \<Rightarrow> g x)"
  by (cases s) auto

lemma after_option:
  "(t = None \<Longrightarrow> after Q a) \<Longrightarrow> (\<And>x. t = Some x \<Longrightarrow> after Q (f x)) \<Longrightarrow>
   after Q (case t of None \<Rightarrow> a | Some x \<Rightarrow> f x)"
  by (cases t) auto

lemma after_if: "(P \<Longrightarrow> after Q a) \<Longrightarrow> (\<not> P \<Longrightarrow> after Q b) \<Longrightarrow> after Q (if P then a else b)"
  by simp

lemma after_Let: "after Q (f x) \<Longrightarrow> after Q (Let x f)"
  by simp

lemma after_outcome:
  "(t = Continue \<Longrightarrow> after Q a) \<Longrightarrow> (\<And>x. t = Return x \<Longrightarrow> after Q (f x)) \<Longrightarrow>
   after Q (case t of Continue \<Rightarrow> a | Return x \<Rightarrow> f x)"
  by (cases t) auto

lemmas after_intros = after_prod after_sum after_if after_Let

section \<open>What every run keeps\<close>

fun handle_values :: "(json \<Rightarrow> bool) \<Rightarrow> join_handle \<Rightarrow> bool" where
  "handle_values J (Pending t) = J (at_input t)"
| "handle_values J (Finished (TaskDone v _)) = J v"
| "handle_values J (Finished _) = True"

text \<open>
  \<open>G S\<close> is the machine predicate while the profiler stack is \<open>S\<close>; \<open>check\<close> says whether values are
  tracked too.
\<close>

locale env_keeps =
  fixes env :: "('l, 'r, 'w) execution_env"
    and check :: bool
    and G :: "string list \<Rightarrow> ('l, 'r, 'w) machine \<Rightarrow> bool"
  assumes world: "G S m \<Longrightarrow> G S (m\<lparr>mc_world := w\<rparr>)"
    and samples: "G S m \<Longrightarrow> G S (update_profiler (merge_task_samples n outcome) m)"
    and log_call: "G S m \<Longrightarrow> G S (log_pipeline_call c i m)"
    and debug_mode: "G S m \<Longrightarrow> G S (set_ctx ((mc_ctx m)\<lparr>rc_debug_step_mode := md\<rparr>) m)"
    and register: "G S m \<Longrightarrow> handle_values (\<lambda>v. check \<longrightarrow> wf_json v) jh \<Longrightarrow> G S (register_handle n jh m)"
    and unregister: "G S m \<Longrightarrow>
      G S (set_ctx ((mc_ctx m)\<lparr>rc_async_registry := (rc_async_registry (mc_ctx m))(n := None)\<rparr>) m)"
    and registered: "G S m \<Longrightarrow> rc_async_registry (mc_ctx m) n = Some jh \<Longrightarrow>
      handle_values (\<lambda>v. check \<longrightarrow> wf_json v) jh"
    and restore: "G S m \<Longrightarrow> G S' m' \<Longrightarrow> G S (set_ctx (mc_ctx m) m')"
    and fresh: "G S m \<Longrightarrow> G [] (async_context env m)"
    and push: "G S m \<Longrightarrow> G (S @ [n]) (update_profiler (profiler_push n) m)"
    and pop: "G (S @ [n]) m \<Longrightarrow> G S (update_profiler (\<lambda>p. profiler_pop (record_sample d p)) m)"
    and invoker: "env_invoker env name args config target pc m = (r, pc', m') \<Longrightarrow> G S m \<Longrightarrow>
      check \<longrightarrow> wf_json (pc_state pc) \<Longrightarrow> pc_cache_hit pc = None \<Longrightarrow>
      G S m' \<and> (check \<longrightarrow> wf_json (pc_state pc') \<and>
        (\<forall>hit. pc_cache_hit pc' = Some hit \<longrightarrow> wf_json (cr_body hit)))"
    and saves: "G S m \<Longrightarrow> check \<longrightarrow> wf_json v \<Longrightarrow>
      after (G S) (run_pending_cache_saves env ss v ct st m)"
    and debugger: "env_debugger env = Some dbg \<Longrightarrow> dh_before_step dbg t n l v stack w = (act, v', w') \<Longrightarrow>
      (\<exists>a. act = Inr a) \<and> (check \<longrightarrow> wf_json v \<longrightarrow> wf_json v')"
    and jq: "env_jq env e v = Inr v' \<Longrightarrow> check \<longrightarrow> wf_json v \<Longrightarrow> check \<longrightarrow> wf_json v'"

locale run_keeps = env_keeps env check G
  for env :: "('l, 'r, 'w) execution_env"
    and check :: bool
    and G :: "string list \<Rightarrow> ('l, 'r, 'w) machine \<Rightarrow> bool" +
  fixes run :: "('l, 'r, 'w) runner"
  assumes sub_run: "G S m \<Longrightarrow> check \<longrightarrow> wf_json i \<Longrightarrow>
      after (\<lambda>(r, m'). G S m' \<and> (\<forall>v ct st. r = Inr (v, ct, st) \<longrightarrow> check \<longrightarrow> wf_json v)) (run p h i m)"
begin

abbreviation J :: "json \<Rightarrow> bool" where
  "J v \<equiv> check \<longrightarrow> wf_json v"

definition pipe_ok :: "pipeline_context \<Rightarrow> bool" where
  "pipe_ok pc \<longleftrightarrow> J (pc_state pc) \<and> (\<forall>hit. pc_cache_hit pc = Some hit \<longrightarrow> J (cr_body hit))"

definition step_ok :: "string list \<Rightarrow> ('l, 'r, 'w) step_state \<Rightarrow> bool" where
  "step_ok S s \<longleftrightarrow> G S (ss_machine s) \<and> pipe_ok (ss_pipe s)"

lemma step_ok_simps [simp]:
  "step_ok S (s\<lparr>ss_output := out\<rparr>) = step_ok S s"
  by (simp add: step_ok_def)

lemma step_ok_state: "step_ok S s \<Longrightarrow> J (ss_state s)"
  by (simp add: step_ok_def pipe_ok_def ss_state_def)

lemma step_ok_machine: "step_ok S s \<Longrightarrow> G S (ss_machine s)"
  by (simp add: step_ok_def)

lemma step_ok_set_state: "step_ok S s \<Longrightarrow> J v \<Longrightarrow> step_ok S (set_state v s)"
  by (simp add: step_ok_def pipe_ok_def set_state_def)

lemma step_ok_set_machine: "step_ok S s \<Longrightarrow> G S m \<Longrightarrow> step_ok S (s\<lparr>ss_machine := m\<rparr>)"
  by (simp add: step_ok_def)

lemma run_machine:
  "step_ok S s \<Longrightarrow> J i \<Longrightarrow>
   after (\<lambda>(r, s'). step_ok S s' \<and> (\<forall>v ct st. r = Inr (v, ct, st) \<longrightarrow> J v)) (on_machine (run p h i) s)"
  unfolding on_machine_def
  by (rule after_bind [OF sub_run [OF step_ok_machine]]) (auto simp: step_ok_def)

lemma argument:
  assumes "pipeline_argument env args i = Inr v" and "J i"
  shows "J v"
proof (cases args)
  case (Cons a as)
  then obtain av where av: "env_jq env a i = Inr av"
    and v: "v = (case (i, av) of (JObject input_obj, JObject arg_obj) \<Rightarrow>
      JObject (om_insert_all arg_obj input_obj) | _ \<Rightarrow> av)"
    using assms(1) by (auto simp: pipeline_argument_def split: sum.splits)
  have "J av" using jq [OF av] assms(2) by simp
  with assms(2) v wf_json_insert_all show ?thesis
    by (auto simp del: wf_json.simps split: json.splits)
qed (use assms in \<open>simp add: pipeline_argument_def\<close>)

lemma recursive:
  assumes "G S m" and "J i"
  shows "after (\<lambda>(r, m'). G S m' \<and> (\<forall>sr. r = Inr sr \<longrightarrow> J (sr_value sr)))
    (handle_recursive_pipeline run env args c l i m)"
  unfolding handle_recursive_pipeline_def
  by (intro after_intros after_option after_bind [OF sub_run]) (use assms argument in auto)

lemma resolved: "resolve_config_and_autoname env l n c i = (c', i', a) \<Longrightarrow> J i \<Longrightarrow> J i'"
  using resolve_config_wf [of i env l n c] by simp

lemma task_body:
  assumes "G S m" and "J (at_input t)"
  shows "after (\<lambda>(r, m'). G [] m' \<and> (\<forall>v p. r = Inr (v, p) \<longrightarrow> J v)) (async_task_body run env t m)"
proof -
  obtain c i a where res:
    "resolve_config_and_autoname env (at_location t) (at_name t) (at_config t) (at_input t) = (c, i, a)"
    by (metis surj_pair)
  note i = resolved [OF res assms(2)]
  note m0 = fresh [OF assms(1)]
  show ?thesis
  proof (cases "at_name t = ''pipeline''")
    case True
    then show ?thesis
      unfolding async_task_body_def res prod.case Let_def
      by (simp only: if_True) (intro after_intros after_option after_bind [OF sub_run],
        use m0 i argument in auto)
  next
    case False
    have pc: "J (pc_state (pipeline_context_new i))" "pc_cache_hit (pipeline_context_new i) = None"
      using i by (simp_all add: pipeline_context_new_def)
    show ?thesis
      unfolding async_task_body_def res prod.case Let_def
      by (simp only: False if_False) (intro after_intros, use m0 pc invoker in auto)
  qed
qed

lemma task:
  assumes "G S m" and "J (at_input t)"
  shows "after (\<lambda>(outcome, m'). G S m' \<and> handle_values J (Finished outcome)) (run_task run env t m)"
  unfolding run_task_def
  by (intro after_option after_intros after_bind [OF task_body])
    (use assms restore [OF assms(1)] in auto)

lemma spawn:
  assumes "G S m" and "J i"
  shows "after (G S) (spawn_async_step run env n a raw l i an m)"
  unfolding spawn_async_step_def Let_def
  by (intro after_if after_prod after_bind [OF task])
    (use assms in \<open>auto intro!: register\<close>)

lemma outcome_J: "handle_values J (Finished outcome) \<Longrightarrow> J (outcome_value outcome)"
  by (cases outcome) (auto simp: outcome_value_def)

lemma joins:
  "G S m \<Longrightarrow> J (JObject acc) \<Longrightarrow>
   after (\<lambda>(results, m'). G S m' \<and> J (JObject results)) (join_tasks run env ns acc m)"
proof (induction ns arbitrary: acc m)
  case (Cons n ns)
  show ?case
  proof (cases "rc_async_registry (mc_ctx m) n")
    case None
    with Cons show ?thesis by (simp add: registry_take_def)
  next
    case (Some jh)
    let ?m = "set_ctx ((mc_ctx m)\<lparr>rc_async_registry := (rc_async_registry (mc_ctx m))(n := None)\<rparr>) m"
    have m: "G S ?m" by (rule unregister [OF Cons.prems(1)])
    have h: "handle_values J jh" by (rule registered [OF Cons.prems(1) Some])
    have aw: "after (\<lambda>(outcome, m'). G S m' \<and> handle_values J (Finished outcome)) (await_handle run env jh ?m)"
    proof (cases jh)
      case (Pending t)
      with task [OF m, of t] h show ?thesis by (simp add: await_handle_def)
    qed (use m h in \<open>simp add: await_handle_def\<close>)
    have ins: "J (JObject (om_insert n (outcome_value out) acc))" if "handle_values J (Finished out)" for out
      using wf_json_insert [of acc "outcome_value out" n] Cons.prems(2) outcome_J [OF that]
      by (simp del: wf_json.simps)
    show ?thesis
      unfolding join_tasks.simps registry_take_def Some prod.case option.case
      by (intro after_bind [OF aw] after_prod) (auto intro!: Cons.IH samples ins simp del: wf_json.simps)
  qed
qed simp

lemma join_step:
  assumes "G S m" and "J i"
  shows "after (\<lambda>(r, m'). G S m' \<and> (\<forall>sr. r = Inr sr \<longrightarrow> J (sr_value sr))) (handle_join run env c pt i m)"
proof -
  have "J (map_object (om_insert ''async'' (JObject rs)) i)" if "J (JObject rs)" for rs
    using assms(2) that wf_json_insert by (cases i) (auto simp del: wf_json.simps(2))
  then show ?thesis
    unfolding handle_join_def
    by (intro after_intros after_bind [OF joins]) (use assms in \<open>auto simp del: wf_json.simps(2) simp: wf_json.simps(2) [of "[]"]\<close>)
qed

lemma standard:
  assumes "handle_standard_execution env n a c t pc m = (r, pc', m')" and "G S m" and "J (pc_state pc)"
    and "pc_cache_hit pc = None"
  shows "G S m' \<and> (\<forall>sr. r = Inr sr \<longrightarrow> J (sr_value sr)) \<and> pipe_ok pc'"
  using assms invoker
  by (auto simp: handle_standard_execution_def pipe_ok_def split: prod.splits sum.splits)

lemma core:
  assumes "step_ok S s" and "J i"
  shows "after (\<lambda>(r, s'). step_ok S s' \<and> (\<forall>sr. r = Inr sr \<longrightarrow> J (sr_value sr)))
    (run_core_logic run env rs idx mode n c i t s)"
proof -
  note m = step_ok_machine [OF assms(1)]
  have std: "after (\<lambda>(r, s'). step_ok S s' \<and> (\<forall>sr. r = Inr sr \<longrightarrow> J (sr_value sr)))
      (run_core_logic run env rs idx md n c i t s)" if "md \<noteq> JoinMode" "md \<noteq> Recursive" for md
  proof -
    let ?pc = "(pipeline_context_new i)\<lparr>pc_current_step_id := Some (step_id (rs_location rs) idx)\<rparr>"
    obtain r pc' m' where h: "handle_standard_execution env n (rs_args rs) c t ?pc (ss_machine s) = (r, pc', m')"
      by (metis surj_pair)
    have "G S m' \<and> (\<forall>sr. r = Inr sr \<longrightarrow> J (sr_value sr)) \<and> pipe_ok pc'"
      by (rule standard [OF h m]) (use assms(2) in \<open>simp_all add: pipeline_context_new_def\<close>)
    then show ?thesis
      using that assms(1) h
      by (cases md; cases r) (auto simp: run_core_logic_def Let_def step_ok_def pipe_ok_def)
  qed
  have lift: "after (\<lambda>(r, s'). step_ok S s' \<and> (\<forall>sr. r = Inr sr \<longrightarrow> J (sr_value sr))) (on_machine f s)"
    if "after (\<lambda>(r, m'). G S m' \<and> (\<forall>sr. r = Inr sr \<longrightarrow> J (sr_value sr))) (f (ss_machine s))" for f
    unfolding on_machine_def
    by (rule after_bind [OF that]) (use assms(1) in \<open>auto simp: step_ok_def\<close>)
  show ?thesis
  proof (cases mode)
    case JoinMode
    then show ?thesis
      by (simp add: run_core_logic_def) (rule lift, rule join_step [OF m assms(2)])
  next
    case Recursive
    then show ?thesis
      by (simp add: run_core_logic_def) (rule lift, rule recursive [OF m assms(2)])
  qed (use std in simp_all)
qed

definition outcome_ok :: "(web_pipe_error + step_outcome) \<Rightarrow> bool" where
  "outcome_ok r \<longleftrightarrow> (\<forall>out. r = Inr (Return out) \<longrightarrow> J (po_state out))"

lemma outcome_ok_simps [simp]:
  "outcome_ok (Inl e)" "outcome_ok (Inr Continue)" "outcome_ok (Inr (Return out)) = J (po_state out)"
  by (simp_all add: outcome_ok_def)

lemma data_wrap_wf: "wf_json v \<Longrightarrow> wf_json st \<Longrightarrow> wf_json (data_wrap t v st)"
proof (cases st)
  case (JObject obj)
  assume v: "wf_json v" and st: "wf_json st"
  have "wf_json (JObject (case map_of obj ''data'' of Some (JObject d) \<Rightarrow> d | _ \<Rightarrow> []))"
  proof (cases "\<exists>d. map_of obj ''data'' = Some (JObject d)")
    case True
    then obtain d where d: "map_of obj ''data'' = Some (JObject d)" by blast
    with wf_json_get [OF st, of "''data''" "JObject d"] JObject have "wf_json (JObject d)"
      by (simp del: wf_json.simps(2))
    with d show ?thesis by (simp del: wf_json.simps(2))
  next
    case False
    then have "(case map_of obj ''data'' of Some (JObject d) \<Rightarrow> d | _ \<Rightarrow> []) = []"
      by (auto split: option.splits json.splits)
    then show ?thesis by simp
  qed
  then have "wf_json (JObject (om_insert t v (case map_of obj ''data'' of Some (JObject d) \<Rightarrow> d | _ \<Rightarrow> [])))"
    using v by (rule wf_json_insert)
  then show ?thesis
    using st JObject wf_json_insert by (simp add: data_wrap_def Let_def del: wf_json.simps(2))
qed (simp_all add: data_wrap_def)

lemma apply_result:
  assumes "step_ok S s" and "J v"
  shows "step_ok S (apply_result_to_state env n v t l s)"
proof -
  have st: "J (ss_state s)" by (rule step_ok_state [OF assms(1)])
  have m: "step_ok S (s\<lparr>ss_pipe := update_pipeline_state v b l (ss_pipe s)\<rparr>)" for b
    using assms update_pipeline_state_wf [of "ss_pipe s" v b l]
    by (auto simp: step_ok_def pipe_ok_def update_pipeline_state_other)
  have w: "step_ok S (set_state (data_wrap tgt v (ss_state s)) s)" for tgt
    by (rule step_ok_set_state [OF assms(1)]) (use st assms(2) data_wrap_wf in blast)
  show ?thesis
    unfolding apply_result_to_state_def Let_def using m w by (cases t) simp_all
qed

lemma metadata_ok: "step_ok S (update_metadata n c st l s) = step_ok S s"
  by (simp add: update_metadata_def Let_def)

lemma cache_stop:
  assumes "step_ok S s" and "check_cache_stop s = (stop, s')"
  shows "step_ok S s' \<and> (\<forall>out. stop = Some out \<longrightarrow> outcome_ok (Inr out))"
proof (cases "pc_cache_hit (ss_pipe s)")
  case (Some hit)
  have J: "J (cr_body hit)" using assms(1) Some unfolding step_ok_def pipe_ok_def by blast
  have s': "s' = s\<lparr>ss_pipe := (ss_pipe s)\<lparr>pc_cache_hit := None\<rparr>\<rparr>"
    and stop: "\<And>out. stop = Some out \<Longrightarrow> \<exists>p. out = Return p \<and> po_state p = cr_body hit"
    using assms(2) Some by (auto simp: check_cache_stop_def)
  have "step_ok S s'"
    using assms(1) unfolding s' step_ok_def pipe_ok_def by simp
  moreover have "outcome_ok (Inr out)" if "stop = Some out" for out
    using stop [OF that] J unfolding outcome_ok_def by auto
  ultimately show ?thesis by blast
next
  case None
  then show ?thesis using assms unfolding check_cache_stop_def by simp
qed

lemma cleaned:
  assumes "step_ok S s"
  shows "step_ok S (set_state (map_object (om_remove k) (ss_state s)) s)"
proof (rule step_ok_set_state [OF assms])
  show "J (map_object (om_remove k) (ss_state s))"
    using step_ok_state [OF assms] wf_json_remove by (cases "ss_state s") (auto simp del: wf_json.simps(2))
qed

lemma finish:
  assumes "step_ok S s" and "J (sr_value sr)" and "finish_regular env rs n t cl l sr s = (out, s')"
  shows "step_ok S s' \<and> outcome_ok (Inr out)"
proof -
  let ?v = "override_error_type (sr_value sr) (Option.bind (rs_condition rs) get_error_from_tag_expr)"
  let ?s = "update_metadata n (sr_content_type sr) (sr_status_code sr) l (apply_result_to_state env n ?v t l s)"
  have "J ?v" using assms(2) override_error_type_wf by blast
  then have s: "step_ok S ?s" using apply_result [OF assms(1)] by (simp only: metadata_ok)
  obtain stop s3 where st: "check_cache_stop ?s = (stop, s3)" by force
  from cache_stop [OF s st] assms(3) st show ?thesis
    by (cases stop) (auto simp: finish_regular_def Let_def cleaned split: if_splits)
qed

lemma regular_run:
  assumes "step_ok S s"
  shows "after (\<lambda>(r, s'). step_ok S s' \<and> outcome_ok r) (regular_step_run run env rs idx l mode n raw s)"
proof -
  obtain c i a where res:
    "resolve_config_and_autoname env (rs_location rs) n raw (ss_state s) = (c, i, a)" by (metis surj_pair)
  have i: "J i" by (rule resolved [OF res step_ok_state [OF assms]])
  let ?s1 = "if n = ''pipeline'' then s\<lparr>ss_machine := log_pipeline_call c i (ss_machine s)\<rparr> else s"
  let ?s2 = "if a then set_state i ?s1 else ?s1"
  have "step_ok S ?s1"
    using assms step_ok_set_machine [OF assms log_call [OF step_ok_machine [OF assms]]] by simp
  then have s2: "step_ok S ?s2" using step_ok_set_state i by simp
  show ?thesis
    unfolding regular_step_run_def res prod.case Let_def
    by (intro after_prod after_bind [OF core [OF s2 i]] after_sum) (auto dest: finish)
qed

lemma regular:
  assumes "step_ok S s"
  shows "after (\<lambda>(r, s'). step_ok S s' \<and> outcome_ok r) (regular_step_execute run env rs idx all s)"
proof -
  have spawned: "after (\<lambda>(r, s'). step_ok S s' \<and> outcome_ok r)
      (case spawn_async_step run env n a c l (ss_state s) an (ss_machine s) of
         None \<Rightarrow> None | Some m' \<Rightarrow> Some (Inr Continue, s\<lparr>ss_machine := m'\<rparr>))" for n a c l an
    by (rule after_bind [OF spawn [OF step_ok_machine [OF assms] step_ok_state [OF assms]]])
      (simp add: step_ok_set_machine [OF assms])
  show ?thesis
    using assms regular_run [OF assms] spawned
    by (simp add: regular_step_execute_def Let_def split: execution_mode.split)
qed

lemma branch:
  assumes "step_ok S s"
  shows "after (\<lambda>(r, s'). step_ok S s' \<and> outcome_ok r) (continue_after (execute_branch run q) s)"
proof -
  have s1: "step_ok S (set_state JNull s)" by (rule step_ok_set_state [OF assms]) simp
  have "after (\<lambda>(r, s'). step_ok S s') (execute_branch run q s)"
    unfolding execute_branch_def take_state_def prod.case
    by (intro after_intros after_bind [OF run_machine [OF s1 step_ok_state [OF assms]]])
      (auto intro!: step_ok_set_state)
  then show ?thesis
    unfolding continue_after_def by (rule after_bind) (auto split: sum.splits)
qed

lemma if_step:
  assumes "step_ok S s"
  shows "after (\<lambda>(r, s'). step_ok S s' \<and> outcome_ok r) (handle_if_step run c t e s)"
  unfolding handle_if_step_def
  by (intro after_intros after_bind [OF run_machine [OF assms step_ok_state [OF assms]]] after_option branch)
    auto

lemma dispatch:
  assumes "step_ok S s"
  shows "after (\<lambda>(r, s'). step_ok S s' \<and> outcome_ok r) (handle_dispatch_step run env bs d s)"
  unfolding handle_dispatch_step_def Let_def
  by (intro after_option branch [OF assms]) (use assms in auto)

lemma items:
  "G S m \<Longrightarrow> \<forall>x \<in> set xs \<union> set acc. J x \<Longrightarrow>
   after (\<lambda>(r, m'). G S m' \<and> (\<forall>vs. r = Inr vs \<longrightarrow> (\<forall>x \<in> set vs. J x))) (foreach_items run q xs acc m)"
proof (induction xs arbitrary: acc m)
  case (Cons x xs)
  have x: "J x" using Cons.prems(2) by simp
  show ?case
    unfolding foreach_items.simps
    by (intro after_intros after_bind [OF sub_run [OF Cons.prems(1) x]])
      (use Cons in \<open>auto intro!: Cons.IH\<close>)
qed simp

lemma foreach:
  assumes "step_ok S s"
  shows "after (\<lambda>(r, s'). step_ok S s' \<and> outcome_ok r) (handle_foreach_step run sel q s)"
proof -
  obtain g st where tv: "take_value_mut (ss_state s) sel = (g, st)" by force
  have st: "J st" using step_ok_state [OF assms] take_value_mut_wf [of "ss_state s" sel] tv by simp
  have s1: "step_ok S (set_state st s)" by (rule step_ok_set_state [OF assms st])
  show ?thesis
  proof (cases "\<exists>xs. g = Some (JArray xs)")
    case True
    then obtain xs where g: "g = Some (JArray xs)" by blast
    have "get_parts (parse_path sel) (ss_state s) = Some (JArray xs)"
      using take_value_mut_read [of "ss_state s" sel] tv g by (simp add: get_value_def)
    then have xs: "\<forall>x \<in> set xs. J x"
      using get_parts_wf [of "parse_path sel" "ss_state s" "JArray xs"] step_ok_state [OF assms] by auto
    have its: "after (\<lambda>(r, s'). step_ok S s' \<and> (\<forall>vs. r = Inr vs \<longrightarrow> (\<forall>x \<in> set vs. J x)))
        (on_machine (foreach_items run q xs []) (set_state st s))"
      unfolding on_machine_def
      by (rule after_bind [OF items [OF step_ok_machine [OF s1]]])
        (use s1 xs in \<open>auto simp: step_ok_def\<close>)
    have put: "step_ok S (case set_value_mut (ss_state s2) sel (JArray vs) of
        Some v \<Rightarrow> set_state v s2 | None \<Rightarrow> s2)" if "step_ok S s2" "\<forall>x \<in> set vs. J x" for s2 vs
      using that put_parts_wf [of "parse_path sel" "JArray vs" "ss_state s2"] step_ok_state [OF that(1)]
      by (auto simp: set_value_mut_def intro!: step_ok_set_state split: option.splits)
    show ?thesis
      unfolding handle_foreach_step_def tv g prod.case option.case json.case Let_def
      by (intro after_intros after_bind [OF its]) (auto intro!: put)
  next
    case False
    with s1 tv show ?thesis
      by (auto simp: handle_foreach_step_def split: option.splits json.splits)
  qed
qed

lemma result_step:
  assumes "step_ok S s"
  shows "after (\<lambda>(r, s'). step_ok S s' \<and> outcome_ok r) (handle_result_step run bs s)"
proof -
  note st = step_ok_state [OF assms]
  have s1: "step_ok S (set_state JNull s)" by (rule step_ok_set_state [OF assms]) simp
  have c: "J (restore_cookies (json_get ''setCookies'' (ss_state s)) v)" if "J v" for v
    using that st wf_json_get [of "ss_state s" "''setCookies''"] wf_json_insert
    by (cases v) (auto simp: restore_cookies_def simp del: wf_json.simps(2) split: option.splits)
  show ?thesis
    unfolding handle_result_step_def take_state_def Let_def prod.case
    by (intro after_option after_intros after_bind [OF run_machine [OF s1 st]])
      (use assms st c in \<open>auto intro!: step_ok_set_state\<close>)
qed

lemma exec_regular:
  assumes "step_ok S s"
  shows "after (\<lambda>(r, s'). step_ok S s' \<and> outcome_ok r) (execute_regular run env rs idx all s)"
  unfolding execute_regular_def Let_def
  by (intro after_bind [OF regular [OF assms]] after_prod after_sum after_option)
    (auto intro!: step_ok_set_state override_error_type_wf make_error_wf)

lemma step_kind:
  assumes "step_ok S s"
  shows "after (\<lambda>(r, s'). step_ok S s' \<and> outcome_ok r) (dispatch_step_kind run env st idx all s)"
  using assms
  by (cases st) (simp_all add: dispatch_step_kind_def exec_regular result_step if_step dispatch foreach)

lemma clock: "G S m \<Longrightarrow> read_clock env m = (t, m') \<Longrightarrow> G S m'"
  by (auto simp: read_clock_def world split: prod.splits)

lemma start:
  "step_ok S s \<Longrightarrow> start_step env n s = (t, s') \<Longrightarrow> step_ok (S @ [n]) s'"
  by (auto simp: start_step_def step_ok_def split: prod.splits dest: clock [OF push])

lemma finish_step: "step_ok (S @ [n]) s \<Longrightarrow> step_ok S (end_step env t s)"
  by (auto simp: end_step_def step_ok_def split: prod.splits intro!: pop dest: clock)

lemma debug_before:
  assumes "step_ok S s"
  shows "after (\<lambda>(r, s'). step_ok S s' \<and> (\<exists>u. r = Inr u)) (handle_debugger_before env st n s)"
proof (cases "env_debugger env")
  case (Some dbg)
  obtain r v w where d: "dh_before_step dbg (debug_thread (ss_machine s)) n (step_location st) (ss_state s)
      (pf_stack (rc_profiler (mc_ctx (ss_machine s)))) (mc_world (ss_machine s)) = (r, v, w)"
    by (metis surj_pair)
  from debugger [OF Some d] step_ok_state [OF assms] obtain a where r: "r = Inr a" and v: "J v" by auto
  have "G S (set_ctx ((mc_ctx (ss_machine s))\<lparr>rc_debug_step_mode := md\<rparr>) ((ss_machine s)\<lparr>mc_world := w\<rparr>))" for md
    using debug_mode [OF world [OF step_ok_machine [OF assms], where w = w], where md = md] by simp
  with assms v show ?thesis
    by (simp add: handle_debugger_before_def Some d r Let_def step_ok_def pipe_ok_def set_state_def)
qed (simp add: handle_debugger_before_def assms)

lemma debug_after: "step_ok S s \<Longrightarrow> step_ok S (handle_debugger_after env st n s)"
  by (auto simp: handle_debugger_after_def Let_def step_ok_def world split: option.splits)

lemma step:
  assumes "step_ok S s"
  shows "after (\<lambda>(r, s'). step_ok S s' \<and> outcome_ok r) (execute_step run env st idx all s)"
proof -
  obtain t s1 where ss: "start_step env (determine_step_name st) s = (t, s1)" by force
  note s1 = start [OF assms ss]
  show ?thesis
    unfolding execute_step_def ss prod.case Let_def
    by (intro after_bind [OF debug_before [OF s1]] after_prod after_sum after_bind [OF step_kind])
      (auto intro: finish_step debug_after)
qed

lemma run_end:
  assumes "G S m" and "J v"
  shows "after (\<lambda>(r, m'). G S m' \<and> (\<forall>v ct st. r = Inr (v, ct, st) \<longrightarrow> J v)) (finish_run env pc v ct st m)"
  unfolding finish_run_def by (rule after_bind [OF saves [OF assms]]) (use assms in auto)

abbreviation result_ok :: "string list \<Rightarrow> ((web_pipe_error + json \<times> string \<times> u16 option) \<times> ('l, 'r, 'w) machine) option \<Rightarrow> bool" where
  "result_ok S a \<equiv> after (\<lambda>(r, m'). G S m' \<and> (\<forall>v ct st. r = Inr (v, ct, st) \<longrightarrow> J v)) a"

lemma next_step:
  assumes rest: "\<And>ct st pc m. G S m \<Longrightarrow> pipe_ok pc \<Longrightarrow> result_ok S (rest ct st pc m)"
    and x: "case x of (r, s) \<Rightarrow> step_ok S s \<and> outcome_ok r"
  shows "result_ok S (case x of (Inl e, s) \<Rightarrow> Some (Inl e, ss_machine s)
    | (Inr Continue, s) \<Rightarrow> rest (po_content_type (ss_output s)) (po_status_code (ss_output s)) (ss_pipe s) (ss_machine s)
    | (Inr (Return out), s) \<Rightarrow> finish_run env (ss_pipe s) (po_state out) (po_content_type out)
        (po_status_code out) (ss_machine s))"
proof (cases x)
  case (Pair r s)
  have s: "G S (ss_machine s)" "pipe_ok (ss_pipe s)" and r: "outcome_ok r"
    using x Pair by (simp_all add: step_ok_def)
  show ?thesis
  proof (cases r)
    case (Inr o')
    show ?thesis
    proof (cases o')
      case (Return out)
      then have "J (po_state out)" using r Inr by (simp only: outcome_ok_simps)
      with Pair Inr Return s show ?thesis by (simp only: prod.case sum.case step_outcome.case) (rule run_end)
    qed (use Pair Inr rest s in simp)
  qed (use Pair s in simp)
qed

lemma loop:
  "G S m \<Longrightarrow> pipe_ok pc \<Longrightarrow> result_ok S (exec_loop ss run env all idx h ct st pc m)"
proof (induction ss arbitrary: idx h ct st pc m)
  case Nil
  then have "J (pc_state pc)" by (simp add: pipe_ok_def)
  with Nil show ?case unfolding exec_loop.simps by (intro run_end) auto
next
  case (Cons a ss)
  have s: "step_ok S \<lparr> ss_machine = m, ss_pipe = pc,
      ss_output = \<lparr> po_state = JNull, po_content_type = ct, po_status_code = st \<rparr> \<rparr>"
    using Cons.prems by (simp add: step_ok_def)
  show ?case
    unfolding exec_loop.simps Let_def
    by (intro after_if after_bind [OF step [OF s]] Cons.IH [OF Cons.prems])
      (rule next_step, rule Cons.IH, assumption+)
qed

lemma steps_keep:
  "G S m \<Longrightarrow> J i \<Longrightarrow>
   after (\<lambda>(r, m'). G S m' \<and> (\<forall>v ct st. r = Inr (v, ct, st) \<longrightarrow> J v)) (run_steps run env p h i m)"
  unfolding run_steps_def by (rule loop) (simp_all add: pipe_ok_def pipeline_context_new_def)

end

text \<open>Closing the recursion: every fuel gives a computation that keeps the invariant.\<close>

context env_keeps
begin

lemma fuel_keeps: "run_keeps env check G (exec_pipeline env n)"
proof (induction n)
  case 0
  show ?case by unfold_locales simp
next
  case (Suc n)
  show ?case by unfold_locales (simp only: exec_pipeline.simps, rule run_keeps.steps_keep [OF Suc])
qed

lemmas pipeline_keeps = run_keeps.sub_run [OF fuel_keeps]

end

end
