(* ===== verification/Executor_Safety.thy ===== *)
theory Executor_Safety
  imports Executor_Invariants
begin

text \<open>
  Two invariants of a whole run, from the locale of \<^verbatim>\<open>Executor_Invariants\<close>: the profiler
  stack is balanced, and every JSON value the program holds has distinct object keys.
\<close>

section \<open>The profiler stack\<close>

definition stack_of :: "('l, 'r, 'w) machine \<Rightarrow> string list" where
  "stack_of m = pf_stack (rc_profiler (mc_ctx m))"

text \<open>What the stack invariant asks of middleware and of a debugger.\<close>

definition keeps_stack :: "('l, 'r, 'w) execution_env \<Rightarrow> bool" where
  "keeps_stack env \<longleftrightarrow>
     (\<forall>name args config target pc m. stack_of (snd (snd (env_invoker env name args config target pc m))) = stack_of m) \<and>
     (\<forall>dbg t n l v stack w. env_debugger env = Some dbg \<longrightarrow>
        (\<exists>a. fst (dh_before_step dbg t n l v stack w) = Inr a))"

lemma stack_samples: "pf_stack (merge_task_samples n outcome p) = pf_stack p"
  by (cases outcome) (simp_all add: merge_task_samples_def)

lemma handle_values_True [simp]: "handle_values (\<lambda>v. True) jh"
proof (cases jh)
  case (Finished out)
  then show ?thesis by (cases out) simp_all
qed simp

lemma save_all_ctx: "after (\<lambda>m'. mc_ctx m' = mc_ctx m) (save_all env resp ss m)"
proof (induction ss arbitrary: m)
  case (Cons s ss)
  show ?case
    unfolding save_all.simps
  proof (intro after_prod after_option after_bind)
    fix now m1 c
    assume "read_clock env m = (now, m1)"
    then have "mc_ctx m1 = mc_ctx m" by (auto simp: read_clock_def split: prod.splits)
    with Cons [of "m1\<lparr>mc_cache := c\<rparr>"]
    show "after (\<lambda>m'. mc_ctx m' = mc_ctx m) (save_all env resp ss (m1\<lparr>mc_cache := c\<rparr>))" by simp
  qed simp
qed simp

lemma release_slots_ctx: "mc_ctx (fold (release_slot env) ss m) = mc_ctx m"
  by (induction ss arbitrary: m) (simp_all add: release_slot_def)

lemma saves_ctx: "after (\<lambda>m'. mc_ctx m' = mc_ctx m) (run_pending_cache_saves env ss v ct st m)"
  by (simp add: run_pending_cache_saves_def save_all_ctx release_slots_ctx)

lemma stack_keeps:
  assumes "keeps_stack env"
  shows "env_keeps env False (\<lambda>S m. stack_of m = S)"
proof (unfold_locales, goal_cases)
  case (12 name args config target pc m r pc' m' S)
  have "stack_of (snd (snd (env_invoker env name args config target pc m))) = stack_of m"
    using assms by (simp add: keeps_stack_def)
  with 12 show ?case by simp
next
  case (13 S m v ss ct st)
  show ?case
    unfolding after_def
  proof (intro allI impI)
    fix m' assume "run_pending_cache_saves env ss v ct st m = Some m'"
    from afterD [OF saves_ctx this] 13(1) show "stack_of m' = S" by (simp only: stack_of_def)
  qed
next
  case (14 dbg t n l v stack w act v' w')
  have "\<exists>a. fst (dh_before_step dbg t n l v stack w) = Inr a"
    using assms 14(1) by (simp add: keeps_stack_def)
  with 14 show ?case by simp
qed (simp_all add: stack_of_def stack_samples log_pipeline_call_def register_handle_def async_context_def
    profiler_push_def profiler_pop_def record_sample_def update_profiler_def default_profiler_def
    request_context_new_def set_ctx_def Let_def split: option.splits prod.splits)

lemma run_keeps_stack:
  assumes "keeps_stack env" and "exec_pipeline env fuel p h i m = Some (r, m')"
  shows "stack_of m' = stack_of m"
proof -
  have "after (\<lambda>(r, m'). stack_of m' = stack_of m \<and> (\<forall>v ct st. r = Inr (v, ct, st) \<longrightarrow> False \<longrightarrow> wf_json v))
      (exec_pipeline env fuel p h i m)"
    by (rule env_keeps.pipeline_keeps [OF stack_keeps [OF assms(1)]]) simp_all
  from afterD [OF this assms(2)] show ?thesis by simp
qed

text \<open>
  The profiler stack is balanced: a run, whatever steps it takes, whichever of them fails and
  wherever it stops, leaves the stack of open frames as it found it, provided middleware does not
  touch it and the debugger does not abort a step.
\<close>

theorem profiler_stack_balanced:
  assumes "keeps_stack env" and "exec_pipeline env fuel p h i m = Some (r, m')"
  shows "pf_stack (rc_profiler (mc_ctx m')) = pf_stack (rc_profiler (mc_ctx m))"
  using run_keeps_stack [OF assms] by (simp add: stack_of_def)

lemma sample_invoker_ctx: "mc_ctx (snd (snd (sample_invoker n a c t pc m))) = mc_ctx m"
  by (simp add: sample_invoker_def)

lemma sample_keeps_stack: "keeps_stack sample_env"
  using sample_invoker_ctx by (simp add: keeps_stack_def sample_env_def stack_of_def)

definition sample_pipeline :: pipeline where
  "sample_pipeline = Pipeline [RegularStep (sample_step ''a'' ''1''), RegularStep (sample_step ''fail'' ''2'')]"

lemma sample_run:
  "exec_pipeline sample_env 1 sample_pipeline None (JObject []) sample_machine \<noteq> None"
  by code_simp

theorem profiler_stack_balanced_witness:
  "\<exists>r m'. exec_pipeline sample_env 1 sample_pipeline None (JObject []) sample_machine = Some (r, m') \<and>
     pf_stack (rc_profiler (mc_ctx m')) = []"
proof -
  from sample_run obtain r m' where run:
    "exec_pipeline sample_env 1 sample_pipeline None (JObject []) sample_machine = Some (r, m')"
    by (auto simp del: exec_pipeline.simps)
  with profiler_stack_balanced [OF sample_keeps_stack run] show ?thesis
    by (simp add: sample_machine_def request_context_new_def default_profiler_def del: exec_pipeline.simps)
qed

section \<open>Well-formed values\<close>

definition machine_wf ::
  "('l \<Rightarrow> bool) \<Rightarrow> ('l \<Rightarrow> (string \<times> cache_entry) list) \<Rightarrow> ('l, 'r, 'w) machine \<Rightarrow> bool" where
  "machine_wf ok entries m \<longleftrightarrow>
     (\<forall>n jh. rc_async_registry (mc_ctx m) n = Some jh \<longrightarrow> handle_values wf_json jh) \<and>
     cache_bodies ok entries wf_json (mc_cache m)"

text \<open>What middleware, the debugger and the jq library must keep.\<close>

definition keeps_json ::
  "('l \<Rightarrow> bool) \<Rightarrow> ('l \<Rightarrow> (string \<times> cache_entry) list) \<Rightarrow> ('l, 'r, 'w) execution_env \<Rightarrow> bool" where
  "keeps_json ok entries env \<longleftrightarrow>
     (\<forall>name args config target pc m r pc' m'. env_invoker env name args config target pc m = (r, pc', m') \<longrightarrow>
        machine_wf ok entries m \<longrightarrow> wf_json (pc_state pc) \<longrightarrow> pc_cache_hit pc = None \<longrightarrow>
        machine_wf ok entries m' \<and> wf_json (pc_state pc') \<and>
        (\<forall>hit. pc_cache_hit pc' = Some hit \<longrightarrow> wf_json (cr_body hit))) \<and>
     (\<forall>dbg t n l v stack w act v' w'. env_debugger env = Some dbg \<longrightarrow>
        dh_before_step dbg t n l v stack w = (act, v', w') \<longrightarrow>
        (\<exists>a. act = Inr a) \<and> (wf_json v \<longrightarrow> wf_json v')) \<and>
     (\<forall>e v v'. env_jq env e v = Inr v' \<longrightarrow> wf_json v \<longrightarrow> wf_json v')"

lemma save_all_wf:
  assumes L: "response_cache (pl_cache_ops (env_platform env)) ok entries cap" and resp: "wf_json (cr_body resp)"
  shows "cache_bodies ok entries wf_json (mc_cache m) \<Longrightarrow>
    after (\<lambda>m'. cache_bodies ok entries wf_json (mc_cache m')) (save_all env resp ss m)"
proof (induction ss arbitrary: m)
  case (Cons s ss)
  show ?case
    unfolding save_all.simps
  proof (intro after_prod after_option after_bind)
    fix now m1 c
    assume "read_clock env m = (now, m1)"
    then have "mc_cache m1 = mc_cache m" by (auto simp: read_clock_def split: prod.splits)
    moreover assume "put_response (pl_cache_ops (env_platform env)) (estimate_size env) now (ps_key s) resp
        (Some (ps_ttl s)) (mc_cache m1) = Some c"
    ultimately have "cache_bodies ok entries wf_json c"
      using response_cache.put_response_bodies [OF L] Cons.prems resp by metis
    then show "after (\<lambda>m'. cache_bodies ok entries wf_json (mc_cache m')) (save_all env resp ss (m1\<lparr>mc_cache := c\<rparr>))"
      using Cons.IH [of "m1\<lparr>mc_cache := c\<rparr>"] by simp
  qed simp
qed simp

lemma release_slots_wf:
  assumes "response_cache (pl_cache_ops (env_platform env)) ok entries cap"
  shows "cache_bodies ok entries wf_json (mc_cache m) \<Longrightarrow>
    cache_bodies ok entries wf_json (mc_cache (fold (release_slot env) ss m))"
  by (induction ss arbitrary: m)
    (simp_all add: release_slot_def response_cache.clear_refresh_bodies [OF assms])

lemma saves_wf:
  assumes "response_cache (pl_cache_ops (env_platform env)) ok entries cap" and "wf_json v"
    and "machine_wf ok entries m"
  shows "after (machine_wf ok entries) (run_pending_cache_saves env ss v ct st m)"
  unfolding after_def
proof (intro allI impI)
  fix m' assume run: "run_pending_cache_saves env ss v ct st m = Some m'"
  have c: "cache_bodies ok entries wf_json (mc_cache m)" using assms(3) by (simp add: machine_wf_def)
  have "after (\<lambda>m'. cache_bodies ok entries wf_json (mc_cache m')) (run_pending_cache_saves env ss v ct st m)"
    using assms(2) c by (simp add: run_pending_cache_saves_def save_all_wf [OF assms(1)] release_slots_wf [OF assms(1)])
  with afterD [OF saves_ctx run] afterD [OF this run] assms(3) show "machine_wf ok entries m'"
    by (simp add: machine_wf_def)
qed

lemma json_keeps:
  assumes L: "response_cache (pl_cache_ops (env_platform env)) ok entries cap" and K: "keeps_json ok entries env"
  shows "env_keeps env True (\<lambda>S m. machine_wf ok entries m)"
proof (unfold_locales, goal_cases)
  case (12 name args config target pc m r pc' m' S)
  have st: "wf_json (pc_state pc)" using 12(3) by simp
  from K [unfolded keeps_json_def, THEN conjunct1, rule_format, OF 12(1,2) st 12(4)] show ?case by simp
next
  case (13 S m v ss ct st)
  with saves_wf [OF L] show ?case by simp
next
  case (14 dbg t n l v stack w act v' w')
  from K [unfolded keeps_json_def, THEN conjunct2, THEN conjunct1, rule_format, OF 14] show ?case by simp
next
  case (15 e v v')
  with K [unfolded keeps_json_def, THEN conjunct2, THEN conjunct2, rule_format, OF 15(1)] show ?case by simp
qed (auto simp: machine_wf_def log_pipeline_call_def register_handle_def async_context_def registry_register_def
    update_profiler_def request_context_new_def set_ctx_def Let_def split: option.splits prod.splits if_splits)


lemma sample_machine_wf: "machine_wf list_lru_ok snd sample_machine"
  by (simp add: machine_wf_def cache_bodies_def sample_machine_def request_context_new_def sample_store_ok)
    (simp add: sample_store_def cache_new_with_limits_def list_lru_def)

lemma sample_keeps_json: "keeps_json list_lru_ok snd sample_env"
proof -
  have "wf_json (map_object (om_insert k (JString c)) v)" if "wf_json v" for k c v
    using that wf_json_insert by (cases v) (auto simp del: wf_json.simps(2))
  then show ?thesis
    by (auto simp: keeps_json_def sample_env_def sample_invoker_def env_jq_def jq_evaluate_def sample_platform_def
        split: if_splits)
qed


end
