(* ===== verification/Config_Manager.thy ===== *)
theory Config_Manager
  imports Syntax_Tree Json_Value Errors
begin

text \<open>
  The configuration blocks of a program and their typed lookups
  (\<^verbatim>\<open>src/config/mod.rs\<close>). The process environment is an argument: the value of a
  variable, or \<^const>\<open>None\<close> when \<^verbatim>\<open>env::var\<close> fails.
\<close>

type_synonym config_manager = "string \<rightharpoonup> config"

text \<open>A later block of the same name replaces an earlier one.\<close>

definition config_manager_new :: "config list \<Rightarrow> config_manager" where
  "config_manager_new configs = fold (\<lambda>c m. m(cfg_name c \<mapsto> c)) configs Map.empty"

definition get_config :: "string \<Rightarrow> config_manager \<Rightarrow> config option" where
  "get_config name mgr = mgr name"

definition number_of_i64 :: "int \<Rightarrow> number" where
  "number_of_i64 n = (if n < 0 then NegInt (of_int n) else PosInt (of_int n))"

definition resolve_config_value ::
  "(string \<Rightarrow> string option) \<Rightarrow> config_value \<Rightarrow> web_pipe_error + json" where
  "resolve_config_value env_var value =
     (case value of
        CfgString s \<Rightarrow> Inr (JString s)
      | CfgBoolean b \<Rightarrow> Inr (JBool b)
      | CfgNumber n \<Rightarrow> Inr (JNumber (number_of_i64 n))
      | CfgEnvVar var fallback \<Rightarrow>
          (case env_var var of
             Some val \<Rightarrow> Inr (JString val)
           | None \<Rightarrow>
               (case fallback of
                  Some default_val \<Rightarrow> Inr (JString default_val)
                | None \<Rightarrow> Inl (ConfigError (''Environment variable '' @ var @
                            '' not found and no default provided'')))))"

fun resolve_properties ::
  "(string \<Rightarrow> string option) \<Rightarrow> config_property list \<Rightarrow> json_map \<Rightarrow> web_pipe_error + json_map" where
  "resolve_properties env_var [] result = Inr result"
| "resolve_properties env_var (p # ps) result =
     (case resolve_config_value env_var (cp_value p) of
        Inl e \<Rightarrow> Inl e
      | Inr v \<Rightarrow> resolve_properties env_var ps (om_insert (cp_key p) v result))"

definition quote_name :: "string \<Rightarrow> string" where
  "quote_name s = [CHR 0x27] @ s @ [CHR 0x27]"

definition resolve_config_as_json ::
  "(string \<Rightarrow> string option) \<Rightarrow> config_manager \<Rightarrow> string \<Rightarrow> web_pipe_error + json" where
  "resolve_config_as_json env_var mgr name =
     (case get_config name mgr of
        None \<Rightarrow> Inl (ConfigError (''Config '' @ quote_name name @ '' not found''))
      | Some cfg \<Rightarrow>
          (case resolve_properties env_var (cfg_properties cfg) [] of
             Inl e \<Rightarrow> Inl e
           | Inr result \<Rightarrow> Inr (JObject result)))"

definition typed_value ::
  "(string \<Rightarrow> string option) \<Rightarrow> config_manager \<Rightarrow> (json \<Rightarrow> 'a option) \<Rightarrow> string \<Rightarrow> string \<Rightarrow> string \<Rightarrow>
   web_pipe_error + 'a" where
  "typed_value env_var mgr as_kind kind config_name key =
     (case resolve_config_as_json env_var mgr config_name of
        Inl e \<Rightarrow> Inl e
      | Inr config_json \<Rightarrow>
          (case Option.bind (json_get key config_json) as_kind of
             Some v \<Rightarrow> Inr v
           | None \<Rightarrow> Inl (ConfigError (kind @ '' value '' @ quote_name key @ '' not found in config '' @
                                       quote_name config_name))))"

definition get_string_value ::
  "(string \<Rightarrow> string option) \<Rightarrow> config_manager \<Rightarrow> string \<Rightarrow> string \<Rightarrow> web_pipe_error + string" where
  "get_string_value env_var mgr = typed_value env_var mgr as_str ''String''"

definition get_bool_value ::
  "(string \<Rightarrow> string option) \<Rightarrow> config_manager \<Rightarrow> string \<Rightarrow> string \<Rightarrow> web_pipe_error + bool" where
  "get_bool_value env_var mgr = typed_value env_var mgr as_bool ''Boolean''"

definition get_number_value ::
  "(string \<Rightarrow> string option) \<Rightarrow> config_manager \<Rightarrow> string \<Rightarrow> string \<Rightarrow> web_pipe_error + int" where
  "get_number_value env_var mgr = typed_value env_var mgr as_i64 ''Number''"

definition get_graphql_endpoint ::
  "(string \<Rightarrow> string option) \<Rightarrow> config_manager \<Rightarrow> string option" where
  "get_graphql_endpoint env_var mgr =
     (case resolve_config_as_json env_var mgr ''graphql'' of
        Inl _ \<Rightarrow> None
      | Inr config \<Rightarrow> Option.bind (json_get ''endpoint'' config) as_str)"

section \<open>Lookup\<close>

lemma config_manager_new_lookup:
  "config_manager_new cs name = find (\<lambda>c. cfg_name c = name) (rev cs)"
proof (induction cs rule: rev_induct)
  case (snoc c cs)
  then show ?case by (simp add: config_manager_new_def)
qed (simp add: config_manager_new_def)

text \<open>What a property stands for, and the last property of a key.\<close>

definition property_resolves :: "(string \<Rightarrow> string option) \<Rightarrow> config_property \<Rightarrow> bool" where
  "property_resolves env_var p \<longleftrightarrow>
     (case cp_value p of CfgEnvVar var None \<Rightarrow> env_var var \<noteq> None | _ \<Rightarrow> True)"

definition last_property :: "string \<Rightarrow> config_property list \<Rightarrow> config_property option" where
  "last_property key ps = find (\<lambda>p. cp_key p = key) (rev ps)"

lemma resolves_iff: "property_resolves env_var p \<longleftrightarrow> (\<exists>v. resolve_config_value env_var (cp_value p) = Inr v)"
  by (auto simp: property_resolves_def resolve_config_value_def split: config_value.splits option.splits)

lemma find_append:
  "find P (xs @ ys) = (case find P xs of None \<Rightarrow> find P ys | Some x \<Rightarrow> Some x)"
  by (induction xs) auto

lemma resolve_properties_spec:
  "(\<exists>r. resolve_properties env_var ps acc = Inr r) \<longleftrightarrow> list_all (property_resolves env_var) ps"
  "resolve_properties env_var ps acc = Inr r \<Longrightarrow> map_of r key =
     (case last_property key ps of None \<Rightarrow> map_of acc key
      | Some p \<Rightarrow> (case resolve_config_value env_var (cp_value p) of Inl _ \<Rightarrow> None | Inr v \<Rightarrow> Some v))"
proof (induction ps arbitrary: acc)
  case (Cons p ps)
  {
    case 1
    show ?case using Cons.IH(1) by (auto simp: resolves_iff split: sum.splits)
  next
    case 2
    then obtain v where v: "resolve_config_value env_var (cp_value p) = Inr v"
      and r: "resolve_properties env_var ps (om_insert (cp_key p) v acc) = Inr r"
      by (auto split: sum.splits)
    have "last_property key (p # ps) =
        (case last_property key ps of None \<Rightarrow> if cp_key p = key then Some p else None | Some q \<Rightarrow> Some q)"
      by (auto simp: last_property_def find_append split: option.splits)
    with Cons.IH(2) [OF r] v show ?case by (auto split: option.splits)
  }
qed (simp_all add: last_property_def)

lemma typed_value_iff:
  assumes "\<And>v. as_kind v = Some x \<longleftrightarrow> v = mk x"
  shows "typed_value env_var (config_manager_new cs) as_kind kind name key = Inr x \<longleftrightarrow>
    (\<exists>cfg p. find (\<lambda>c. cfg_name c = name) (rev cs) = Some cfg \<and>
       list_all (property_resolves env_var) (cfg_properties cfg) \<and>
       last_property key (cfg_properties cfg) = Some p \<and>
       resolve_config_value env_var (cp_value p) = Inr (mk x))"
proof (cases "find (\<lambda>c. cfg_name c = name) (rev cs)")
  case (Some cfg)
  have mk: "as_kind (mk x) = Some x" and only: "\<And>v. as_kind v = Some x \<Longrightarrow> v = mk x"
    using assms by blast+
  show ?thesis
  proof (cases "resolve_properties env_var (cfg_properties cfg) []")
    case (Inl e)
    with resolve_properties_spec(1) [of env_var "cfg_properties cfg" "[]"] Some show ?thesis
      by (auto simp: typed_value_def resolve_config_as_json_def get_config_def config_manager_new_lookup)
  next
    case (Inr r)
    have "list_all (property_resolves env_var) (cfg_properties cfg)"
      using resolve_properties_spec(1) [of env_var "cfg_properties cfg" "[]"] Inr by blast
    with resolve_properties_spec(2) [OF Inr, of key] Some Inr show ?thesis
      by (auto simp: mk dest!: only simp: typed_value_def resolve_config_as_json_def get_config_def config_manager_new_lookup
          split: option.splits sum.splits)
  qed
qed (simp add: typed_value_def resolve_config_as_json_def get_config_def config_manager_new_lookup)

lemma as_bool_Some_iff: "as_bool j = Some b \<longleftrightarrow> j = JBool b"
  by (cases j) (auto simp: as_bool_def)

text \<open>
  A typed lookup finds exactly what the program's text says: the last block of that name, the
  last property of that key in it, of the type asked for; and one environment variable of the
  block that is unset and has no default makes every lookup in the block fail.
\<close>

theorem config_lookup_exact:
  "(get_string_value env_var (config_manager_new cs) name key = Inr s \<longleftrightarrow>
    (\<exists>cfg p. find (\<lambda>c. cfg_name c = name) (rev cs) = Some cfg \<and>
       list_all (property_resolves env_var) (cfg_properties cfg) \<and>
       last_property key (cfg_properties cfg) = Some p \<and>
       resolve_config_value env_var (cp_value p) = Inr (JString s))) \<and>
   (get_bool_value env_var (config_manager_new cs) name key = Inr b \<longleftrightarrow>
    (\<exists>cfg p. find (\<lambda>c. cfg_name c = name) (rev cs) = Some cfg \<and>
       list_all (property_resolves env_var) (cfg_properties cfg) \<and>
       last_property key (cfg_properties cfg) = Some p \<and> cp_value p = CfgBoolean b))"
proof
  have "resolve_config_value env_var v = Inr (JBool b) \<longleftrightarrow> v = CfgBoolean b" for v
    by (auto simp: resolve_config_value_def split: config_value.splits option.splits)
  then show "get_bool_value env_var (config_manager_new cs) name key = Inr b \<longleftrightarrow>
    (\<exists>cfg p. find (\<lambda>c. cfg_name c = name) (rev cs) = Some cfg \<and>
       list_all (property_resolves env_var) (cfg_properties cfg) \<and>
       last_property key (cfg_properties cfg) = Some p \<and> cp_value p = CfgBoolean b)"
    unfolding get_bool_value_def by (simp add: typed_value_iff [where mk = JBool, OF as_bool_Some_iff])
qed (simp add: get_string_value_def typed_value_iff [where mk = JString, OF as_str_Some_iff])

end
