(* ===== verification/Text_Scan.thy ===== *)
theory Text_Scan
  imports Prelude
begin

text \<open>
  What the hand-written scanners of the sources share: splitting at a substring, the first
  character of a UTF-8 text, and reading a decimal numeral as an IEEE double
  (\<^verbatim>\<open>str::parse::<f64>\<close>), bit by bit.
\<close>

section \<open>Strings\<close>

lemma find_sub_bound: "find_sub p s = Some i \<Longrightarrow> i + length p \<le> length s"
proof (induction s arbitrary: i)
  case (Cons c s)
  show ?case
  proof (cases "starts_with p (c # s)")
    case True
    then have "length p = length (take (length p) (c # s))" unfolding starts_with_def by (rule arg_cong [OF sym])
    with True Cons.prems show ?thesis by (simp add: min_def split: if_splits)
  next
    case False
    with Cons show ?thesis by auto
  qed
qed (auto split: if_splits)

text \<open>\<^verbatim>\<open>str::split\<close> with a non-empty string: from the left, without overlaps.\<close>

function split_str :: "string \<Rightarrow> string \<Rightarrow> string list" where
  "split_str p s =
     (if p = [] then [s]
      else case find_sub p s of
        None \<Rightarrow> [s]
      | Some i \<Rightarrow> take i s # split_str p (drop (i + length p) s))"
  by pat_completeness auto

termination
proof (relation "measure (length \<circ> snd)", goal_cases)
  case (2 p s i)
  with find_sub_bound [OF 2(2)] show ?case by (cases p) auto
qed simp

declare split_str.simps [simp del]

text \<open>\<^verbatim>\<open>str::rfind\<close> with a character.\<close>

definition rfind_char :: "char \<Rightarrow> string \<Rightarrow> nat option" where
  "rfind_char c s = map_option (\<lambda>i. length s - 1 - i) (find_sub [c] (rev s))"

text \<open>The bytes of the first character.\<close>

definition utf8_len :: "char \<Rightarrow> nat" where
  "utf8_len c = (let b = (of_char c :: nat) in if b < 192 then 1 else if b < 224 then 2 else if b < 240 then 3 else 4)"

definition first_char :: "string \<Rightarrow> string" where
  "first_char s = (case s of [] \<Rightarrow> [] | c # cs \<Rightarrow> take (utf8_len c) s)"

section \<open>Doubles\<close>

fun bit_length :: "nat \<Rightarrow> nat" where
  "bit_length n = (if n = 0 then 0 else Suc (bit_length (n div 2)))"

declare bit_length.simps [simp del]

lemma bit_length_bounds: "0 < n \<Longrightarrow> 2 ^ (bit_length n - 1) \<le> n \<and> n < 2 ^ bit_length n"
proof (induction n rule: less_induct)
  case (less n)
  show ?case
  proof (cases "n = 1")
    case True
    then show ?thesis by (simp add: bit_length.simps)
  next
    case False
    with less.prems have h: "0 < n div 2" "n div 2 < n" by auto
    note IH = less.IH [OF h(2,1)]
    have b: "bit_length n = Suc (bit_length (n div 2))" using less.prems by (simp add: bit_length.simps)
    have s: "0 < bit_length (n div 2)" using h by (simp add: bit_length.simps)
    then obtain k where k: "bit_length (n div 2) = Suc k" by (cases "bit_length (n div 2)") auto
    from IH k have "2 ^ k \<le> n div 2" "n div 2 < 2 ^ Suc k" by auto
    then have "2 * 2 ^ k \<le> n" "n < 2 * 2 ^ Suc k" by presburger+
    with b k show ?thesis by simp
  qed
qed

text \<open>The quotient of two numbers, rounded to the nearest integer, ties to the even one.\<close>

definition div_round :: "nat \<Rightarrow> nat \<Rightarrow> nat" where
  "div_round n d =
     (let q = n div d; r = n mod d
      in if 2 * r > d \<or> (2 * r = d \<and> odd q) then q + 1 else q)"

text \<open>\<open>n / (d * 2 powi e)\<close>, rounded.\<close>

definition scaled :: "nat \<Rightarrow> nat \<Rightarrow> int \<Rightarrow> nat" where
  "scaled n d e = (if 0 \<le> e then div_round n (d * 2 ^ nat e) else div_round (n * 2 ^ nat (- e)) d)"

definition fits_mantissa :: "nat \<Rightarrow> nat \<Rightarrow> int \<Rightarrow> bool" where
  "fits_mantissa n d e \<longleftrightarrow>
     (if 0 \<le> e then n < d * 2 ^ nat e * 2 ^ 53 else n * 2 ^ nat (- e) < d * 2 ^ 53)"

text \<open>
  The double nearest to \<open>n / d\<close>, as its bits; \<^const>\<open>None\<close> when it overflows to infinity. The
  mantissa has 53 bits, the exponent is at least that of the subnormal numbers.
\<close>

definition f64_ratio :: "nat \<Rightarrow> nat \<Rightarrow> nat option" where
  "f64_ratio n d =
     (if n = 0 then Some 0
      else
        let e0 = max (-1074) (int (bit_length n) - int (bit_length d) - 53);
            e1 = (if fits_mantissa n d e0 then e0 else e0 + 1);
            m = scaled n d e1;
            (m', e) = (if m = 2 ^ 53 then (2 ^ 52, e1 + 1) else (m, e1))
        in if e > 971 then None
           else if m' < 2 ^ 52 then Some m'
           else Some (nat (e + 1075) * 2 ^ 52 + (m' - 2 ^ 52)))"

text \<open>One, a tenth, the largest double, a third.\<close>

lemma f64_ratio_samples:
  "f64_ratio 1 1 = Some 0x3FF0000000000000"
  "f64_ratio 1 10 = Some 0x3FB999999999999A"
  "f64_ratio 1 3 = Some 0x3FD5555555555555"
  by (simp_all add: f64_ratio_def bit_length.simps fits_mantissa_def scaled_def div_round_def Let_def)

text \<open>The value of the fraction digits, and the parser: a sign, digits, and digits after a point.\<close>

definition f64_bits :: "bool \<Rightarrow> nat \<Rightarrow> u64" where
  "f64_bits negative magnitude = of_nat ((if negative then 2 ^ 63 else 0) + magnitude)"

definition parse_f64_decimal :: "string \<Rightarrow> u64 option option" where
  "parse_f64_decimal s =
     (let (negative, body) = (case s of [] \<Rightarrow> (False, []) | c # cs \<Rightarrow> if c = CHR ''-'' then (True, cs) else (False, s));
          whole = takeWhile is_ascii_digit body;
          after = drop (length whole) body;
          frac = (case after of [] \<Rightarrow> [] | c # cs \<Rightarrow> if c = CHR ''.'' then takeWhile is_ascii_digit cs else []);
          used = length whole + (case after of [] \<Rightarrow> 0 | c # cs \<Rightarrow> if c = CHR ''.'' then 1 + length frac else 0)
      in if (whole = [] \<and> frac = []) \<or> used \<noteq> length body then None
         else Some (map_option (f64_bits negative) (f64_ratio (digits_val (whole @ frac)) (10 ^ length frac))))"

end
