(* ===== verification/Assert_Schema.thy ===== *)
theory Assert_Schema
  imports Text_Scan Resolver
begin

text \<open>
  The \<^verbatim>\<open>assert\<close> middleware (\<^verbatim>\<open>src/middleware/assert.rs\<close>): the schema language, its
  recursive-descent parser, the validation of a value with its first error, and the effect on the
  state.

  The parser's position is the rest of the text. Its loops and its recursion take fuel; one more
  than the length of the text is enough (property \<open>assert_parse_total\<close>). The printed form of a JSON value
  and the \<^verbatim>\<open>Debug\<close> form of a string, which only occur in messages, are arguments.
\<close>

section \<open>Schemas\<close>

datatype assert_schema =
    SUnknown
  | SNull
  | SBool
  | SNumber
  | SString (s_min: "nat option") (s_max: "nat option")
  | SEmail
  | SLiteral json
  | SArray assert_schema
  | SObject "object_field list"
  | SUnion "assert_schema list"
and object_field =
    ObjectField (of_name: string) (of_optional: bool) (of_schema: assert_schema)

record validation_issue =
  vi_path :: string
  vi_message :: string

section \<open>Validation\<close>

definition type_name :: "json \<Rightarrow> string" where
  "type_name value =
     (case value of JNull \<Rightarrow> ''null'' | JBool _ \<Rightarrow> ''boolean'' | JNumber _ \<Rightarrow> ''number''
      | JString _ \<Rightarrow> ''string'' | JArray _ \<Rightarrow> ''array'' | JObject _ \<Rightarrow> ''object'')"

definition type_issue :: "string \<Rightarrow> string \<Rightarrow> json \<Rightarrow> validation_issue" where
  "type_issue path expected actual = \<lparr> vi_path = path,
     vi_message = ''Expected '' @ expected @ '' at '' @ path @ '', got '' @ type_name actual \<rparr>"

definition display_json :: "(json \<Rightarrow> string) \<Rightarrow> (string \<Rightarrow> string) \<Rightarrow> json \<Rightarrow> string" where
  "display_json to_text debug_str value = (case value of JString s \<Rightarrow> debug_str s | other \<Rightarrow> to_text other)"

definition is_email :: "string \<Rightarrow> bool" where
  "is_email s \<longleftrightarrow> CHR 0x40 \<in> set s \<and> CHR ''.'' \<in> set s \<and> hd s \<noteq> CHR 0x40 \<and> List.last s \<noteq> CHR 0x40"

definition check_length :: "string \<Rightarrow> nat option \<Rightarrow> nat option \<Rightarrow> string \<Rightarrow> validation_issue + unit" where
  "check_length s min_len max_len path =
     (let len = char_count s in
      case min_len of
        Some lo \<Rightarrow>
          if len < lo then
            Inl \<lparr> vi_path = path, vi_message = ''Expected string at '' @ path @ '' to be at least '' @
                   show_nat lo @ '' characters'' \<rparr>
          else (case max_len of
            Some hi \<Rightarrow> if len > hi then Inl \<lparr> vi_path = path, vi_message = ''Expected string at '' @ path @
                '' to be at most '' @ show_nat hi @ '' characters'' \<rparr> else Inr ()
          | None \<Rightarrow> Inr ())
      | None \<Rightarrow>
          (case max_len of
            Some hi \<Rightarrow> if len > hi then Inl \<lparr> vi_path = path, vi_message = ''Expected string at '' @ path @
                '' to be at most '' @ show_nat hi @ '' characters'' \<rparr> else Inr ()
          | None \<Rightarrow> Inr ()))"

definition child_path :: "string \<Rightarrow> string \<Rightarrow> string" where
  "child_path path name = (if path = ''$'' then ''$.'' @ name else path @ ''.'' @ name)"

definition item_path :: "string \<Rightarrow> nat \<Rightarrow> string" where
  "item_path path idx = path @ ''['' @ show_nat idx @ '']''"

text \<open>
  The loops of the source over the items of an array, the fields of an object and the options of a
  union, given what validates one of them.
\<close>

fun validate_items ::
  "(json \<Rightarrow> string \<Rightarrow> validation_issue + unit) \<Rightarrow> json list \<Rightarrow> nat \<Rightarrow> string \<Rightarrow> validation_issue + unit" where
  "validate_items check [] idx path = Inr ()"
| "validate_items check (item # items) idx path =
     (case check item (item_path path idx) of
        Inl e \<Rightarrow> Inl e
      | Inr _ \<Rightarrow> validate_items check items (idx + 1) path)"

fun validate_fields ::
  "(object_field \<Rightarrow> json \<Rightarrow> string \<Rightarrow> validation_issue + unit) \<Rightarrow> json_map \<Rightarrow> object_field list \<Rightarrow> string \<Rightarrow>
   validation_issue + unit" where
  "validate_fields check obj [] path = Inr ()"
| "validate_fields check obj (field # rest) path =
     (let cp = child_path path (of_name field) in
      case map_of obj (of_name field) of
        Some child \<Rightarrow>
          (case check field child cp of
             Inl e \<Rightarrow> Inl e
           | Inr _ \<Rightarrow> validate_fields check obj rest path)
      | None \<Rightarrow>
          if of_optional field then validate_fields check obj rest path
          else Inl \<lparr> vi_path = cp, vi_message = ''Missing required field '' @ cp \<rparr>)"

fun validate_options ::
  "(assert_schema \<Rightarrow> validation_issue + unit) \<Rightarrow> assert_schema list \<Rightarrow> string list \<Rightarrow> string \<Rightarrow>
   validation_issue + unit" where
  "validate_options check [] messages path =
     Inl \<lparr> vi_path = path, vi_message = ''Value at '' @ path @ '' did not match any union member: '' @
            join ''; '' messages \<rparr>"
| "validate_options check (option # options) messages path =
     (case check option of
        Inr _ \<Rightarrow> Inr ()
      | Inl err \<Rightarrow> validate_options check options (messages @ [vi_message err]) path)"

lemma validate_fields_cong [fundef_cong]:
  "obj = obj' \<Longrightarrow> fs = fs' \<Longrightarrow> path = path' \<Longrightarrow> (\<And>f v p. f \<in> set fs' \<Longrightarrow> check f v p = check' f v p) \<Longrightarrow>
   validate_fields check obj fs path = validate_fields check' obj' fs' path'"
  by (induction fs arbitrary: obj' fs' path') (auto simp: Let_def split: option.splits sum.splits)

lemma validate_options_cong [fundef_cong]:
  "ts = ts' \<Longrightarrow> ms = ms' \<Longrightarrow> path = path' \<Longrightarrow> (\<And>t. t \<in> set ts' \<Longrightarrow> check t = check' t) \<Longrightarrow>
   validate_options check ts ms path = validate_options check' ts' ms' path'"
  by (induction ts arbitrary: ts' ms' ms path path') (auto split: sum.splits)

lemma of_schema_size [termination_simp]: "f \<in> set fs \<Longrightarrow> size (of_schema f) < Suc (size_list size fs)"
proof (induction fs)
  case (Cons g fs)
  then show ?case by (cases g) auto
qed simp

fun validate_value ::
  "(json \<Rightarrow> string) \<Rightarrow> json \<Rightarrow> assert_schema \<Rightarrow> string \<Rightarrow> validation_issue + unit" where
  "validate_value display v SUnknown path = Inr ()"
| "validate_value display v SNull path = (if is_null v then Inr () else Inl (type_issue path ''null'' v))"
| "validate_value display v SBool path =
     (case v of JBool _ \<Rightarrow> Inr () | _ \<Rightarrow> Inl (type_issue path ''boolean'' v))"
| "validate_value display v SNumber path =
     (case v of JNumber _ \<Rightarrow> Inr () | _ \<Rightarrow> Inl (type_issue path ''number'' v))"
| "validate_value display v (SString lo hi) path =
     (case as_str v of None \<Rightarrow> Inl (type_issue path ''string'' v) | Some s \<Rightarrow> check_length s lo hi path)"
| "validate_value display v SEmail path =
     (case as_str v of
        None \<Rightarrow> Inl (type_issue path ''email string'' v)
      | Some s \<Rightarrow> if is_email s then Inr ()
                  else Inl \<lparr> vi_path = path, vi_message = ''Expected valid email at '' @ path \<rparr>)"
| "validate_value display v (SLiteral expected) path =
     (if json_eq v expected then Inr ()
      else Inl \<lparr> vi_path = path, vi_message = ''Expected literal '' @ display expected @ '' at '' @ path @
             '', got '' @ type_name v \<rparr>)"
| "validate_value display v (SArray item_schema) path =
     (case as_array v of
        None \<Rightarrow> Inl (type_issue path ''array'' v)
      | Some items \<Rightarrow>
          validate_items (\<lambda>item p. validate_value display item item_schema p) items 0 path)"
| "validate_value display v (SObject object_fields) path =
     (case as_object v of
        None \<Rightarrow> Inl (type_issue path ''object'' v)
      | Some obj \<Rightarrow>
          validate_fields (\<lambda>f child p. validate_value display child (of_schema f) p) obj object_fields path)"
| "validate_value display v (SUnion options) path =
     validate_options (\<lambda>schema. validate_value display v schema path) options [] path"

text \<open>What a schema means, without paths or messages.\<close>

fun conforms :: "json \<Rightarrow> assert_schema \<Rightarrow> bool" where
  "conforms v SUnknown = True"
| "conforms v SNull = (v = JNull)"
| "conforms v SBool = (\<exists>b. v = JBool b)"
| "conforms v SNumber = (\<exists>n. v = JNumber n)"
| "conforms v (SString lo hi) =
     (\<exists>s. v = JString s \<and> (\<forall>n. lo = Some n \<longrightarrow> n \<le> char_count s) \<and> (\<forall>n. hi = Some n \<longrightarrow> char_count s \<le> n))"
| "conforms v SEmail = (\<exists>s. v = JString s \<and> is_email s)"
| "conforms v (SLiteral e) = json_eq v e"
| "conforms v (SArray t) = (\<exists>xs. v = JArray xs \<and> (\<forall>x \<in> set xs. conforms x t))"
| "conforms v (SObject fs) =
     (\<exists>m. v = JObject m \<and> (\<forall>f \<in> set fs. case map_of m (of_name f) of
        None \<Rightarrow> of_optional f | Some c \<Rightarrow> conforms c (of_schema f)))"
| "conforms v (SUnion ts) = (\<exists>t \<in> set ts. conforms v t)"

section \<open>The scanner\<close>

definition quoted :: "string \<Rightarrow> string" where
  "quoted s = [CHR 0x27] @ s @ [CHR 0x27]"

definition skip_ws :: "string \<Rightarrow> string" where
  "skip_ws s = strip_seqs ws_seqs s"

definition skip_ws_and_commas :: "string \<Rightarrow> string" where
  "skip_ws_and_commas s = strip_seqs (ws_seqs @ ['','']) s"

definition eat :: "char \<Rightarrow> string \<Rightarrow> string option" where
  "eat expected s = (case s of [] \<Rightarrow> None | c # cs \<Rightarrow> if c = expected then Some cs else None)"

definition expect :: "char \<Rightarrow> string \<Rightarrow> string + string" where
  "expect expected s =
     (let s1 = skip_ws s in
      case eat expected s1 of
        Some s2 \<Rightarrow> Inr s2
      | None \<Rightarrow> Inl (''expected '' @ quoted [expected] @ '', got '' @
                     quoted (if s1 = [] then ''end of schema'' else first_char s1)))"

definition is_ident_start :: "char \<Rightarrow> bool" where
  "is_ident_start ch \<longleftrightarrow> is_ascii_alphabetic ch \<or> ch = CHR ''_''"

definition is_ident_continue :: "char \<Rightarrow> bool" where
  "is_ident_continue ch \<longleftrightarrow> is_ascii_alphanumeric ch \<or> ch = CHR ''_'' \<or> ch = CHR ''-''"

definition consume_ellipsis :: "string \<Rightarrow> string option" where
  "consume_ellipsis s = (if starts_with ''...'' s then Some (drop 3 s) else None)"

text \<open>The identifier at the head of a text that starts with one.\<close>

definition parse_identifier :: "string \<Rightarrow> string \<times> string" where
  "parse_identifier s =
     (let ident = take 1 s @ takeWhile is_ident_continue (drop 1 s) in (ident, drop (length ident) s))"

fun parse_string_body :: "string \<Rightarrow> string \<Rightarrow> string + string \<times> string" where
  "parse_string_body out [] = Inl ''unterminated string literal''"
| "parse_string_body out (c # cs) =
     (if c = CHR 0x22 then Inr (out, cs)
      else if c = CHR 0x5C then
        (case cs of
           [] \<Rightarrow> Inl ''unterminated string escape''
         | e # rest \<Rightarrow>
             if e = CHR 0x22 \<or> e = CHR 0x5C \<or> e = CHR ''/'' then parse_string_body (out @ [e]) rest
             else if e = CHR ''n'' then parse_string_body (out @ [CHR 0x0A]) rest
             else if e = CHR ''r'' then parse_string_body (out @ [CHR 0x0D]) rest
             else if e = CHR ''t'' then parse_string_body (out @ [CHR 0x09]) rest
             else Inl (''unsupported string escape '' @ quoted (CHR 0x5C # first_char cs)))
      else parse_string_body (out @ [c]) cs)"

definition parse_string :: "string \<Rightarrow> string + string \<times> string" where
  "parse_string s = (case expect (CHR 0x22) s of Inl e \<Rightarrow> Inl e | Inr s1 \<Rightarrow> parse_string_body [] s1)"

definition parse_key :: "string \<Rightarrow> string + string \<times> string" where
  "parse_key s =
     (let s1 = skip_ws s in
      case s1 of
        [] \<Rightarrow> Inl ''expected object field name, got end of schema''
      | c # _ \<Rightarrow>
          if c = CHR 0x22 then parse_string s1
          else if is_ident_start c then Inr (parse_identifier s1)
          else Inl (''expected object field name, got '' @ quoted (first_char s1)))"

definition parse_optional_range :: "string \<Rightarrow> string + (nat option \<times> nat option) \<times> string" where
  "parse_optional_range s =
     (case eat CHR ''('' (skip_ws s) of
        None \<Rightarrow> Inr ((None, None), skip_ws s)
      | Some s1 \<Rightarrow>
          (let s2 = skip_ws s1;
               inside = takeWhile (\<lambda>c. c \<noteq> CHR '')'') s2;
               raw = trim inside
           in case expect CHR '')'' (drop (length inside) s2) of
                Inl e \<Rightarrow> Inl e
              | Inr s3 \<Rightarrow>
                  (let bad = Inl (''invalid string range '' @ quoted raw) in
                   case map trim (split_str ''..'' raw) of
                     [single] \<Rightarrow>
                       if single = [] then bad
                       else (case parse_uint 64 single of
                               None \<Rightarrow> bad | Some value \<Rightarrow> Inr ((Some value, Some value), s3))
                   | [lo, hi] \<Rightarrow>
                       (case (if lo = [] then Some None else map_option Some (parse_uint 64 lo)) of
                          None \<Rightarrow> bad
                        | Some min_len \<Rightarrow>
                            (case (if hi = [] then Some None else map_option Some (parse_uint 64 hi)) of
                               None \<Rightarrow> bad
                             | Some max_len \<Rightarrow> Inr ((min_len, max_len), s3)))
                   | _ \<Rightarrow> bad)))"

definition parse_named_type_or_literal :: "string \<Rightarrow> string + assert_schema \<times> string" where
  "parse_named_type_or_literal s =
     (let (ident, s1) = parse_identifier s in
      if ident = ''unknown'' \<or> ident = ''any'' then Inr (SUnknown, s1)
      else if ident = ''null'' then Inr (SNull, s1)
      else if ident = ''bool'' \<or> ident = ''boolean'' then Inr (SBool, s1)
      else if ident = ''number'' then Inr (SNumber, s1)
      else if ident = ''email'' then Inr (SEmail, s1)
      else if ident = ''true'' then Inr (SLiteral (JBool True), s1)
      else if ident = ''false'' then Inr (SLiteral (JBool False), s1)
      else if ident = ''string'' then
        (case parse_optional_range s1 of
           Inl e \<Rightarrow> Inl e
         | Inr ((lo, hi), s2) \<Rightarrow> Inr (SString lo hi, s2))
      else Inl (''unknown assert type '' @ quoted ident))"

definition number_text :: "string \<Rightarrow> string" where
  "number_text s =
     (let sign = (if eat CHR ''-'' s = None then [] else ''-'');
          s1 = drop (length sign) s;
          whole = takeWhile is_ascii_digit s1;
          s2 = drop (length whole) s1
      in sign @ whole @
         (case eat CHR ''.'' s2 of None \<Rightarrow> [] | Some s3 \<Rightarrow> CHR ''.'' # takeWhile is_ascii_digit s3))"

definition parse_number_literal :: "string \<Rightarrow> string + assert_schema \<times> string" where
  "parse_number_literal s =
     (let raw = number_text s in
      case parse_f64_decimal raw of
        Some (Some bits) \<Rightarrow> Inr (SLiteral (JNumber (Float bits)), drop (length raw) s)
      | _ \<Rightarrow> Inl (''invalid number literal '' @ quoted raw))"

section \<open>The parser\<close>

text \<open>
  The mutual recursion of the methods goes through the parser of a union, an argument \<open>inner\<close> of
  the parsers of its parts. The two loops have fuel of their own.
\<close>

type_synonym schema_parser = "string \<Rightarrow> (string + assert_schema \<times> string) option"

fun parse_object :: "schema_parser \<Rightarrow> nat \<Rightarrow> object_field list \<Rightarrow> schema_parser" where
  "parse_object inner 0 acc s = None"
| "parse_object inner (Suc fuel) acc s =
     (let s1 = skip_ws_and_commas s in
      case eat CHR ''}'' s1 of
        Some s2 \<Rightarrow> Some (Inr (SObject acc, s2))
      | None \<Rightarrow>
        (case consume_ellipsis s1 of
           Some s2 \<Rightarrow>
             (let s3 = skip_ws_and_commas s2 in
              case eat CHR ''}'' s3 of
                Some s4 \<Rightarrow> Some (Inr (SObject acc, s4))
              | None \<Rightarrow> parse_object inner fuel acc s3)
         | None \<Rightarrow>
           (case parse_key s1 of
              Inl e \<Rightarrow> Some (Inl e)
            | Inr (name, s2) \<Rightarrow>
                (let s3 = skip_ws s2;
                     optional = (eat CHR ''?'' s3 \<noteq> None);
                     s4 = (if optional then drop 1 s3 else s3)
                 in case expect CHR '':'' (skip_ws s4) of
                      Inl e \<Rightarrow> Some (Inl e)
                    | Inr s5 \<Rightarrow>
                        (case inner s5 of
                           None \<Rightarrow> None
                         | Some (Inl e) \<Rightarrow> Some (Inl e)
                         | Some (Inr (schema, s6)) \<Rightarrow>
                             (let acc' = acc @ [ObjectField name optional schema];
                                  s7 = skip_ws_and_commas s6
                              in case eat CHR ''}'' s7 of
                                   Some s8 \<Rightarrow> Some (Inr (SObject acc', s8))
                                 | None \<Rightarrow> parse_object inner fuel acc' s7))))))"

definition parse_array :: "schema_parser \<Rightarrow> schema_parser" where
  "parse_array inner s =
     (let s1 = skip_ws s in
      case eat CHR '']'' s1 of
        Some s2 \<Rightarrow> Some (Inr (SArray SUnknown, s2))
      | None \<Rightarrow>
          (case inner s1 of
             None \<Rightarrow> None
           | Some (Inl e) \<Rightarrow> Some (Inl e)
           | Some (Inr (item, s2)) \<Rightarrow>
               (case expect CHR '']'' (skip_ws_and_commas s2) of
                  Inl e \<Rightarrow> Some (Inl e)
                | Inr s3 \<Rightarrow> Some (Inr (SArray item, s3)))))"

definition parse_primary :: "schema_parser \<Rightarrow> schema_parser" where
  "parse_primary inner s =
     (let s1 = skip_ws s in
      case s1 of
        [] \<Rightarrow> Some (Inl ''unexpected end of schema'')
      | c # _ \<Rightarrow>
          if c = CHR ''{'' then
            (case expect CHR ''{'' s1 of
               Inl e \<Rightarrow> Some (Inl e) | Inr s2 \<Rightarrow> parse_object inner (Suc (length s2)) [] s2)
          else if c = CHR ''['' then
            (case expect CHR ''['' s1 of
               Inl e \<Rightarrow> Some (Inl e) | Inr s2 \<Rightarrow> parse_array inner s2)
          else if c = CHR 0x22 then
            (case parse_string s1 of
               Inl e \<Rightarrow> Some (Inl e)
             | Inr (str, s2) \<Rightarrow> Some (Inr (SLiteral (JString str), s2)))
          else if c = CHR ''-'' \<or> is_ascii_digit c then Some (parse_number_literal s1)
          else if is_ident_start c then Some (parse_named_type_or_literal s1)
          else Some (Inl (''unexpected token '' @ quoted (first_char s1))))"

fun parse_alternatives :: "schema_parser \<Rightarrow> nat \<Rightarrow> assert_schema list \<Rightarrow> schema_parser" where
  "parse_alternatives inner 0 options s = None"
| "parse_alternatives inner (Suc fuel) options s =
     (let s1 = skip_ws s in
      case eat CHR ''|'' s1 of
        None \<Rightarrow> Some (Inr (if length options = 1 then hd options else SUnion options, s1))
      | Some s2 \<Rightarrow>
          (case parse_primary inner s2 of
             None \<Rightarrow> None
           | Some (Inl e) \<Rightarrow> Some (Inl e)
           | Some (Inr (schema, s3)) \<Rightarrow> parse_alternatives inner fuel (options @ [schema]) s3))"

fun parse_union :: "nat \<Rightarrow> schema_parser" where
  "parse_union 0 s = None"
| "parse_union (Suc depth) s =
     (case parse_primary (parse_union depth) s of
        None \<Rightarrow> None
      | Some (Inl e) \<Rightarrow> Some (Inl e)
      | Some (Inr (schema, s1)) \<Rightarrow>
          parse_alternatives (parse_union depth) (Suc (length s1)) [schema] s1)"

definition assert_parse :: "string \<Rightarrow> (string + assert_schema) option" where
  "assert_parse s =
     (case parse_union (Suc (length s)) s of
        None \<Rightarrow> None
      | Some (Inl e) \<Rightarrow> Some (Inl e)
      | Some (Inr (schema, s1)) \<Rightarrow>
          (let s2 = skip_ws s1 in
           if s2 = [] then Some (Inr schema)
           else Some (Inl (''unexpected token '' @ quoted (first_char s2)))))"

section \<open>The middleware\<close>

definition make_assertion_error :: "string \<Rightarrow> string \<Rightarrow> json" where
  "make_assertion_error path message =
     (let field = (case strip_prefix ''$.'' path of Some f \<Rightarrow> f | None \<Rightarrow> path) in
      JObject [(''errors'', JArray [JObject
        [(''type'', JString ''assertionError''), (''field'', JString field), (''context'', JString field),
         (''rule'', JString ''assert''), (''code'', JString ''assert_failed''), (''message'', JString message)]])])"

text \<open>The outcome and the state it leaves.\<close>

definition assert_execute ::
  "(json \<Rightarrow> string) \<Rightarrow> (string \<Rightarrow> string) \<Rightarrow> string \<Rightarrow> json \<Rightarrow> ((web_pipe_error + unit) \<times> json) option" where
  "assert_execute to_text debug_str config state =
     (case assert_parse config of
        None \<Rightarrow> None
      | Some (Inl err) \<Rightarrow> Some (Inl (MiddlewareExecutionError (''assert schema parse error: '' @ err)), state)
      | Some (Inr schema) \<Rightarrow>
          (case validate_value (display_json to_text debug_str) state schema ''$'' of
             Inl e \<Rightarrow> Some (Inr (), make_assertion_error (vi_path e) (vi_message e))
           | Inr _ \<Rightarrow> Some (Inr (), state)))"

section \<open>Validation is conformance\<close>

lemma validate_items_iff:
  "(\<And>x p. x \<in> set xs \<Longrightarrow> check x p = Inr () \<longleftrightarrow> P x) \<Longrightarrow>
   validate_items check xs idx path = Inr () \<longleftrightarrow> (\<forall>x \<in> set xs. P x)"
proof (induction xs arbitrary: idx)
  case (Cons x xs)
  show ?case
    using Cons.prems [of x] Cons.IH [OF Cons.prems] by (auto split: sum.split)
qed simp

lemma validate_fields_iff:
  "(\<And>f v p. f \<in> set fs \<Longrightarrow> check f v p = Inr () \<longleftrightarrow> P f v) \<Longrightarrow>
   validate_fields check obj fs path = Inr () \<longleftrightarrow>
     (\<forall>f \<in> set fs. case map_of obj (of_name f) of None \<Rightarrow> of_optional f | Some c \<Rightarrow> P f c)"
proof (induction fs)
  case (Cons f fs)
  have c: "check f v p = Inr () \<longleftrightarrow> P f v" for v p using Cons.prems by simp
  show ?case
  proof (cases "map_of obj (of_name f)")
    case None
    with Cons.IH [OF Cons.prems] show ?thesis by (simp add: Let_def)
  next
    case (Some child)
    with Cons.IH [OF Cons.prems] c [of child "child_path path (of_name f)"] show ?thesis
      by (cases "check f child (child_path path (of_name f))") (simp_all add: Let_def)
  qed
qed simp

lemma validate_options_iff:
  "(\<And>t. t \<in> set ts \<Longrightarrow> check t = Inr () \<longleftrightarrow> P t) \<Longrightarrow>
   validate_options check ts ms path = Inr () \<longleftrightarrow> (\<exists>t \<in> set ts. P t)"
proof (induction ts arbitrary: ms)
  case (Cons t ts)
  show ?case
    using Cons.prems [of t] Cons.IH [OF Cons.prems] by (auto split: sum.split)
qed simp

lemma check_length_iff:
  "check_length s lo hi path = Inr () \<longleftrightarrow>
     (\<forall>n. lo = Some n \<longrightarrow> n \<le> char_count s) \<and> (\<forall>n. hi = Some n \<longrightarrow> char_count s \<le> n)"
  by (auto simp: check_length_def Let_def split: option.splits)

lemma unit_sum: "(r :: 'e + unit) \<noteq> Inr () \<longleftrightarrow> (\<exists>e. r = Inl e)"
  by (cases r) auto

lemma validate_value_iff: "validate_value display v schema path = Inr () \<longleftrightarrow> conforms v schema"
proof (induction display v schema path rule: validate_value.induct)
  case (8 display v t path)
  show ?case
  proof (cases v)
    case (JArray xs)
    have "validate_items (\<lambda>item p. validate_value display item t p) xs 0 path = Inr () \<longleftrightarrow>
        (\<forall>x \<in> set xs. conforms x t)"
      by (rule validate_items_iff) (rule 8, simp add: JArray)
    then show ?thesis by (simp add: JArray)
  qed simp_all
next
  case (9 display v fs path)
  show ?case
  proof (cases v)
    case (JObject m)
    have "validate_fields (\<lambda>f child p. validate_value display child (of_schema f) p) m fs path = Inr () \<longleftrightarrow>
        (\<forall>f \<in> set fs. case map_of m (of_name f) of None \<Rightarrow> of_optional f | Some c \<Rightarrow> conforms c (of_schema f))"
      by (rule validate_fields_iff) (rule 9, simp_all add: JObject)
    then show ?thesis by (simp add: JObject)
  qed simp_all
next
  case (10 display v ts path)
  have "validate_options (\<lambda>t. validate_value display v t path) ts [] path = Inr () \<longleftrightarrow> (\<exists>t \<in> set ts. conforms v t)"
    by (rule validate_options_iff) (rule 10)
  then show ?case by simp
qed (auto simp: is_null_def check_length_iff as_str_Some_iff split: json.splits option.splits)

section \<open>The parser returns\<close>

lemma strip_seqs_length: "length (strip_seqs ws s) \<le> length s"
proof (induction ws s rule: strip_seqs.induct)
  case (1 ws s)
  show ?case
  proof (cases "find (\<lambda>w. w \<noteq> [] \<and> starts_with w s) ws")
    case (Some w)
    with 1 [OF Some] show ?thesis by (subst strip_seqs.simps) simp
  qed (simp add: strip_seqs.simps [of ws s])
qed

lemma strip_seqs_visible:
  assumes "s \<noteq> []" and "visible (hd s)"
  shows "strip_seqs ws_seqs s = s"
proof (rule strip_seqs_id [OF _ assms(1)])
  have "list_all (\<lambda>w. \<not> visible (hd w)) ws_seqs" by (simp add: ws_seqs_def visible_def)
  then show "list_all (\<lambda>w. w = [] \<or> hd w \<noteq> hd s) ws_seqs"
    by (rule list.pred_mono_strong) (use assms(2) in auto)
qed

lemma skip_visible:
  "s \<noteq> [] \<Longrightarrow> visible (hd s) \<Longrightarrow> skip_ws s = s"
  "s \<noteq> [] \<Longrightarrow> visible (hd s) \<Longrightarrow> hd s \<noteq> CHR '','' \<Longrightarrow> skip_ws_and_commas s = s"
proof -
  assume s: "s \<noteq> []" "visible (hd s)"
  then show "skip_ws s = s" by (simp add: skip_ws_def strip_seqs_visible)
  assume "hd s \<noteq> CHR '',''"
  moreover have "list_all (\<lambda>w. \<not> visible (hd w)) ws_seqs" by (simp add: ws_seqs_def visible_def)
  then have "list_all (\<lambda>w. w = [] \<or> hd w \<noteq> hd s) ws_seqs"
    by (rule list.pred_mono_strong) (use s in auto)
  ultimately show "skip_ws_and_commas s = s"
    unfolding skip_ws_and_commas_def by (intro strip_seqs_id) (use s in auto)
qed

lemma strip_seqs_Nil [simp]: "strip_seqs ws_seqs [] = []"
  by (simp add: strip_seqs.simps ws_seqs_def starts_with_def)

lemma skip_length: "length (skip_ws s) \<le> length s" "length (skip_ws_and_commas s) \<le> length s"
  by (simp_all add: skip_ws_def skip_ws_and_commas_def strip_seqs_length)

lemma eat_Some_iff: "eat c s = Some s' \<longleftrightarrow> s = c # s'"
  by (cases s) (auto simp: eat_def)

lemma expect_length: "expect c s = Inr s' \<Longrightarrow> length s' < length s"
  using skip_length(1) [of s] by (auto simp: expect_def Let_def eat_Some_iff split: option.splits)

lemma parse_identifier_length: "s \<noteq> [] \<Longrightarrow> parse_identifier s = (i, s') \<Longrightarrow> length s' < length s"
  by (cases s) (auto simp: parse_identifier_def Let_def)

lemma parse_string_body_length: "parse_string_body out s = Inr (r, s') \<Longrightarrow> length s' < length s"
proof (induction out s rule: parse_string_body.induct)
  case (2 out c cs)
  then show ?case by (cases cs) (auto split: if_splits)
qed simp

lemma parse_string_length: "parse_string s = Inr (r, s') \<Longrightarrow> length s' < length s"
  by (auto simp: parse_string_def split: sum.splits dest!: expect_length parse_string_body_length)

lemma parse_key_length: "parse_key s = Inr (r, s') \<Longrightarrow> length s' < length s"
  using skip_length(1) [of s]
  by (auto simp: parse_key_def Let_def split: list.splits if_splits
      dest!: parse_string_length parse_identifier_length [rotated])

lemma parse_range_length: "parse_optional_range s = Inr (r, s') \<Longrightarrow> length s' \<le> length s"
proof -
  assume p: "parse_optional_range s = Inr (r, s')"
  show ?thesis
  proof (cases "eat CHR ''('' (skip_ws s)")
    case None
    with p skip_length(1) [of s] show ?thesis by (auto simp: parse_optional_range_def)
  next
    case (Some s1)
    have l: "length (skip_ws s1) < length s"
      using skip_length(1) [of s] skip_length(1) [of s1] Some by (simp add: eat_Some_iff)
    from p Some have "\<exists>d. expect CHR '')'' (drop d (skip_ws s1)) = Inr s'"
      by (auto simp: parse_optional_range_def Let_def split: sum.splits list.splits if_splits option.splits)
    then obtain d where "length s' < length (drop d (skip_ws s1))" by (auto dest: expect_length)
    with l show ?thesis by simp
  qed
qed

definition consumes :: "string \<Rightarrow> ('e + 'a \<times> string) option \<Rightarrow> bool" where
  "consumes s r \<longleftrightarrow> (\<exists>x. r = Some x \<and> (\<forall>t s'. x = Inr (t, s') \<longrightarrow> length s' < length s))"

definition parses_below :: "nat \<Rightarrow> schema_parser \<Rightarrow> bool" where
  "parses_below n inner \<longleftrightarrow> (\<forall>s. length s < n \<longrightarrow> consumes s (inner s))"

lemma consumes_simps [simp]:
  "consumes s (Some (Inl e))" "consumes s (Some (Inr (t, s'))) \<longleftrightarrow> length s' < length s" "\<not> consumes s None"
  by (simp_all add: consumes_def)

lemma consumes_mono: "consumes s r \<Longrightarrow> length s \<le> length s' \<Longrightarrow> consumes s' r"
  unfolding consumes_def by fastforce

lemma consumes_option:
  "(t = None \<Longrightarrow> consumes s a) \<Longrightarrow> (\<And>x. t = Some x \<Longrightarrow> consumes s (f x)) \<Longrightarrow>
   consumes s (case t of None \<Rightarrow> a | Some x \<Rightarrow> f x)"
  by (cases t) auto

lemma consumes_sum:
  "(\<And>e. t = Inl e \<Longrightarrow> consumes s (f e)) \<Longrightarrow> (\<And>x. t = Inr x \<Longrightarrow> consumes s (g x)) \<Longrightarrow>
   consumes s (case t of Inl e \<Rightarrow> f e | Inr x \<Rightarrow> g x)"
  by (cases t) auto

lemma consumes_prod:
  "(\<And>x y. t = (x, y) \<Longrightarrow> consumes s (f x y)) \<Longrightarrow> consumes s (case t of (x, y) \<Rightarrow> f x y)"
  by (cases t) auto

lemma consumes_if: "(P \<Longrightarrow> consumes s a) \<Longrightarrow> (\<not> P \<Longrightarrow> consumes s b) \<Longrightarrow> consumes s (if P then a else b)"
  by simp

text \<open>The parser of a part may be used where less text is left than it was built for.\<close>

lemma consumes_inner:
  assumes "parses_below n inner" and "length s < n" and "\<And>e. consumes s0 (f (Inl e))"
    and "\<And>t s'. length s' < length s \<Longrightarrow> consumes s0 (f (Inr (t, s')))"
  shows "consumes s0 (case inner s of None \<Rightarrow> None | Some r \<Rightarrow> f r)"
proof -
  have "consumes s (inner s)" using assms(1,2) by (simp add: parses_below_def)
  then obtain r where r: "inner s = Some r" "\<And>t s'. r = Inr (t, s') \<Longrightarrow> length s' < length s"
    by (auto simp: consumes_def)
  show ?thesis using r assms(3,4) by (cases r) auto
qed

lemmas consumes_intros = consumes_option consumes_sum consumes_prod consumes_if

lemma consume_ellipsis_length: "consume_ellipsis s = Some s' \<Longrightarrow> length s' < length s"
proof -
  assume e: "consume_ellipsis s = Some s'"
  then have "take (length ''...'') s = ''...''" "s' = drop 3 s" unfolding consume_ellipsis_def starts_with_def by (auto simp only: option.inject split: if_splits)
  then show ?thesis by (cases s) auto
qed

lemma eat_length: "eat c s = Some s' \<Longrightarrow> length s' < length s"
  by (simp add: eat_Some_iff)

lemma parse_object_total:
  assumes "parses_below n inner"
  shows "length s < fuel \<Longrightarrow> length s < n \<Longrightarrow> length s < length s0 \<Longrightarrow> consumes s0 (parse_object inner fuel acc s)"
proof (induction fuel arbitrary: acc s)
  case (Suc fuel)
  note again = Suc.IH
  note len = Suc.prems
  let ?s1 = "skip_ws_and_commas s"
  have l1: "length ?s1 \<le> length s" by (rule skip_length)
  have skip: "length r < length s \<Longrightarrow> length (skip_ws r) < length s"
    "length r < length s \<Longrightarrow> length (skip_ws_and_commas r) < length s"
    "length r < length s \<Longrightarrow> length (skip_ws (if b then drop 1 r else r)) < length s" for r b
    using skip_length [of r] skip_length(1) [of "drop 1 r"] by (auto simp: le_less_trans)
  have colon: "length s5 < length s"
    if "parse_key ?s1 = Inr x" and "x = (name, s2)"
      and "expect c (skip_ws (if b then drop 1 (skip_ws s2) else skip_ws s2)) = Inr s5" for x name s2 b c s5
    using parse_key_length [of ?s1 name s2] that(1,2) l1 expect_length [OF that(3)]
      skip_length(1) [of s2] skip_length(1) [of "if b then drop 1 (skip_ws s2) else skip_ws s2"]
    by (auto split: if_splits)
  have part: "consumes s5 (inner s5)" if "length s5 < length s" for s5
    using assms that len(2) by (simp add: parses_below_def)
  show ?case
    unfolding parse_object.simps Let_def
  proof (intro consumes_intros, goal_cases)
    case (3 x name s2 s5)
    from part [OF colon [OF 3(3,4,5)]] 3(6) show ?case by simp
  next
    case (5 x name s2 s5 xa xb schema s6)
    from part [OF colon [OF 5(3,4,5)]] colon [OF 5(3,4,5)] 5(6-8) skip(2) [of s6] len
    show ?case by (intro again) simp_all
  next
    case (6 x name s2 s5 xa xb schema s6 s8)
    from part [OF colon [OF 6(3,4,5)]] colon [OF 6(3,4,5)] 6(6-8) skip(2) [of s6] eat_length [OF 6(9)] len
    show ?case by simp
  next
    case (7 s2)
    from skip(2) [of s2] consume_ellipsis_length [OF 7(2)] l1 len show ?case by (intro again) simp_all
  next
    case (8 s2 s4)
    from skip(2) [of s2] consume_ellipsis_length [OF 8(2)] eat_length [OF 8(3)] l1 len show ?case by simp
  next
    case (9 s2)
    from eat_length [OF 9] l1 len show ?case by simp
  qed simp_all
qed simp

lemma parse_array_total:
  assumes "parses_below n inner" and "length s < n" and "length s < length s0"
  shows "consumes s0 (parse_array inner s)"
proof -
  have l1: "length (skip_ws s) \<le> length s" by (rule skip_length)
  have part: "consumes (skip_ws s) (inner (skip_ws s))" using assms(1,2) l1 by (simp add: parses_below_def)
  show ?thesis
    unfolding parse_array_def Let_def
  proof (intro consumes_intros, goal_cases)
    case (4 x xa item s2 s3)
    from part 4(2-4) expect_length [OF 4(5)] skip_length(2) [of s2] l1 assms(3) show ?case by simp
  next
    case (5 s2)
    from eat_length [OF 5] l1 assms(3) show ?case by simp
  qed (use part in simp_all)
qed

lemma parse_number_length:
  "parse_number_literal s = Inr (t, s') \<Longrightarrow> s \<noteq> [] \<Longrightarrow> length s' < length s"
proof -
  assume p: "parse_number_literal s = Inr (t, s')" and s: "s \<noteq> []"
  have "parse_f64_decimal [] = None" by (simp add: parse_f64_decimal_def)
  with p have "number_text s \<noteq> []" and "s' = drop (length (number_text s)) s"
    by (auto simp: parse_number_literal_def Let_def split: option.splits)
  with s show ?thesis by (cases "number_text s"; cases s) auto
qed

lemma parse_named_length: "parse_named_type_or_literal s = Inr (t, s') \<Longrightarrow> s \<noteq> [] \<Longrightarrow> length s' < length s"
proof -
  assume p: "parse_named_type_or_literal s = Inr (t, s')" and s: "s \<noteq> []"
  obtain i s1 where i: "parse_identifier s = (i, s1)" by force
  from parse_identifier_length [OF s i] p i show ?thesis
    by (auto simp: parse_named_type_or_literal_def dest!: parse_range_length split: if_splits sum.splits)
qed

lemma parse_primary_total:
  assumes "parses_below n inner" and "length s \<le> n"
  shows "consumes s (parse_primary inner s)"
proof (cases "skip_ws s")
  case Nil
  then show ?thesis by (simp add: parse_primary_def)
next
  case (Cons c cs)
  have l: "length (c # cs) \<le> length s" using skip_length(1) [of s] Cons by simp
  have e: "length s2 < n" "length s2 < length s" if "expect d (c # cs) = Inr s2" for d s2
    using expect_length [OF that] l assms(2) by simp_all
  have tail: "consumes s (Some r)" if "\<And>t s'. r = Inr (t, s') \<Longrightarrow> length s' < length (c # cs)" for r
    using that l by (cases r) fastforce+
  show ?thesis
    unfolding parse_primary_def Let_def Cons list.case
    by (intro consumes_intros tail)
      (auto simp: e parse_object_total [OF assms(1)] parse_array_total [OF assms(1)] simp del: parse_object.simps
        dest: parse_string_length parse_number_length parse_named_length)
qed

lemma parse_alternatives_total:
  assumes "parses_below n inner"
  shows "length s < fuel \<Longrightarrow> length s \<le> n \<Longrightarrow> length s < length s0 \<Longrightarrow>
    consumes s0 (parse_alternatives inner fuel ts s)"
proof (induction fuel arbitrary: ts s)
  case (Suc fuel)
  have l1: "length (skip_ws s) \<le> length s" by (rule skip_length)
  show ?case
  proof (cases "eat CHR ''|'' (skip_ws s)")
    case None
    with l1 Suc.prems show ?thesis by (simp add: Let_def)
  next
    case (Some s2)
    have "length s2 \<le> n" using eat_length [OF Some] l1 Suc.prems by simp
    from parse_primary_total [OF assms this] obtain r where r: "parse_primary inner s2 = Some r"
      "\<And>t s'. r = Inr (t, s') \<Longrightarrow> length s' < length s2" by (auto simp: consumes_def)
    show ?thesis
    proof (cases r)
      case (Inr p)
      obtain t s3 where p: "p = (t, s3)" by force
      have "length s3 < length s" using r(2) [OF Inr [unfolded p]] eat_length [OF Some] l1 by simp
      then have "consumes s0 (parse_alternatives inner fuel (ts @ [t]) s3)"
        by (intro Suc.IH) (use Suc.prems in simp_all)
      with Some r(1) Inr p show ?thesis by (simp add: Let_def)
    qed (use Some r in \<open>simp add: Let_def\<close>)
  qed
qed simp

lemma parse_union_total: "parses_below depth (parse_union depth)"
proof (induction depth)
  case (Suc depth)
  show ?case
    unfolding parses_below_def
  proof (intro allI impI)
    fix s :: string assume "length s < Suc depth"
    then have s: "length s \<le> depth" by simp
    from parse_primary_total [OF Suc s] obtain r where r: "parse_primary (parse_union depth) s = Some r"
      "\<And>t s'. r = Inr (t, s') \<Longrightarrow> length s' < length s" by (auto simp: consumes_def)
    show "consumes s (parse_union (Suc depth) s)"
    proof (cases r)
      case (Inr p)
      obtain t s1 where p: "p = (t, s1)" by force
      with r(2) Inr have "length s1 < length s" by blast
      then have "consumes s (parse_alternatives (parse_union depth) (Suc (length s1)) [t] s1)"
        by (intro parse_alternatives_total [OF Suc]) (use s in simp_all)
      with r(1) Inr p show ?thesis by simp
    qed (use r in simp)
  qed
qed (simp add: parses_below_def)

section \<open>Properties of the middleware\<close>

text \<open>
  The schema parser returns on every text: its recursion and its loops end within the fuel, one
  more than the number of bytes, with a schema or a message.
\<close>

theorem assert_parse_total: "\<exists>r. assert_parse s = Some r"
proof -
  have "consumes s (parse_union (Suc (length s)) s)"
    using parse_union_total [of "Suc (length s)"] by (simp add: parses_below_def)
  then obtain r where "parse_union (Suc (length s)) s = Some r" by (auto simp: consumes_def)
  then show ?thesis by (cases r) (auto simp: assert_parse_def Let_def)
qed

text \<open>
  C32: For a schema that parses, the step refines the state: it passes through unchanged exactly when
  it conforms to the schema, and otherwise is replaced by an \<^verbatim>\<open>assertionError\<close>
  envelope, without the step itself failing.
\<close>

theorem assert_outcome:
  assumes "assert_parse config = Some (Inr schema)"
  shows "\<exists>st'. assert_execute to_text debug_str config st = Some (Inr (), st') \<and>
    (if conforms st schema then st' = st else extract_error_type st' = Some ''assertionError'')"
proof (cases "validate_value (display_json to_text debug_str) st schema ''$''")
  case (Inl e)
  then have "\<not> conforms st schema"
    using validate_value_iff [of "display_json to_text debug_str" st schema "''$''"] by simp
  with assms Inl show ?thesis
    by (simp add: assert_execute_def make_assertion_error_def extract_error_type_def Let_def)
next
  case (Inr u)
  then have "conforms st schema"
    using validate_value_iff [of "display_json to_text debug_str" st schema "''$''"] by simp
  with assms Inr show ?thesis by (simp add: assert_execute_def)
qed

lemma sample_schema: "assert_parse ''[bool]'' = Some (Inr (SArray SBool))"
  by (simp add: assert_parse_def parse_primary_def parse_array_def parse_identifier_def
      parse_named_type_or_literal_def expect_def eat_def skip_visible visible_def skip_ws_def [of "[]"]
      is_ident_start_def is_ident_continue_def is_ascii_alphabetic_def is_ascii_alphanumeric_def
      is_ascii_upper_def is_ascii_lower_def is_ascii_digit_def Let_def cong: let_weak_cong)

theorem assert_outcome_witness:
  "\<exists>st'. assert_execute (\<lambda>_. []) (\<lambda>s. s) ''[bool]'' (JArray [JBool True, JNull]) = Some (Inr (), st') \<and>
    extract_error_type st' = Some ''assertionError''"
  using assert_outcome [OF sample_schema, of "\<lambda>_. []" "\<lambda>s. s" "JArray [JBool True, JNull]"] by simp

text \<open>
  A number literal in a schema is read as a double, and a JSON integer is never equal to a
  double, so a schema with the literal \<^verbatim>\<open>200\<close> rejects the value 200.
\<close>

theorem assert_number_literal_rejects_integers:
  assumes "parse_number_literal s = Inr (schema, rest)"
  shows "\<not> conforms (JNumber (PosInt n)) schema \<and> \<not> conforms (JNumber (NegInt n)) schema"
  using assms
  by (auto simp: parse_number_literal_def Let_def number_eq_def split: option.splits)

theorem assert_number_literal_rejects_integers_witness:
  "\<exists>schema. assert_parse ''200'' = Some (Inr schema) \<and> \<not> conforms (JNumber (PosInt 200)) schema"
proof -
  have "parse_number_literal ''200'' = Inr (SLiteral (JNumber (Float 0x4069000000000000)), [])"
    by (simp add: parse_number_literal_def number_text_def eat_def is_ascii_digit_def parse_f64_decimal_def
        digits_val_def f64_ratio_def bit_length.simps fits_mantissa_def scaled_def div_round_def f64_bits_def)
  moreover from this have "assert_parse ''200'' = Some (Inr (SLiteral (JNumber (Float 0x4069000000000000))))"
    by (simp add: assert_parse_def parse_primary_def skip_ws_def strip_seqs_visible visible_def is_ascii_digit_def
        eat_def Let_def cong: let_weak_cong)
  ultimately show ?thesis using assert_number_literal_rejects_integers by blast
qed

end
