(* ===== verification/Middleware.thy ===== *)
theory Middleware
  imports Executor Config_Manager Assert_Schema
begin

text \<open>
  The middleware registry and the built-in middleware that is written in the program itself
  (\<^verbatim>\<open>src/middleware/mod.rs\<close>, \<^verbatim>\<open>cache.rs\<close>, \<^verbatim>\<open>log.rs\<close>, \<^verbatim>\<open>debug.rs\<close>,
  \<^verbatim>\<open>join.rs\<close>, \<^verbatim>\<open>jq.rs\<close>, \<^verbatim>\<open>stdin.rs\<close>, \<^verbatim>\<open>rate_limit.rs\<close>,
  \<^verbatim>\<open>assert.rs\<close>), and the invoker the executor calls (\<^verbatim>\<open>src/executor/env.rs\<close>). What
  wraps a database, an HTTP client, a script or a template engine is an argument \<open>others\<close>.
\<close>

section \<open>Interfaces\<close>

text \<open>What the built-ins use of the world and of the libraries.\<close>

record ('r, 'w) libraries =
  lb_rate_ops :: "('r, rate_limit_entry) lru_ops"
  lb_env_var :: "string \<Rightarrow> string option"
  lb_print :: "string \<Rightarrow> 'w \<Rightarrow> 'w"
  lb_pretty :: "json \<Rightarrow> string"
  lb_parse_json :: "string \<Rightarrow> string + json"
  lb_utf8_error :: "string \<Rightarrow> string option"
  lb_read_stdin :: "'w \<Rightarrow> (string + string) \<times> 'w"
  lb_hash :: "string list \<Rightarrow> u64"
  lb_mono_micros :: "'w \<Rightarrow> nat \<times> 'w"
  lb_debug_str :: "string \<Rightarrow> string"

text \<open>One middleware: \<^verbatim>\<open>execute\<close>, which may fail, and \<^verbatim>\<open>behavior\<close>.\<close>

type_synonym ('l, 'r, 'w) mw_execute =
  "string list \<Rightarrow> string \<Rightarrow> pipeline_context \<Rightarrow> ('l, 'r, 'w) machine \<Rightarrow> string option \<Rightarrow>
   (web_pipe_error + middleware_output) \<times> pipeline_context \<times> ('l, 'r, 'w) machine"

record ('l, 'r, 'w) middleware =
  mw_run :: "('l, 'r, 'w) mw_execute"
  mw_behavior :: state_behavior

text \<open>The default implementation of \<^verbatim>\<open>behavior\<close>.\<close>

definition default_behavior :: state_behavior where
  "default_behavior = Merge"

definition set_metadata :: "(request_metadata \<Rightarrow> request_metadata) \<Rightarrow> ('l, 'r, 'w) machine \<Rightarrow> ('l, 'r, 'w) machine" where
  "set_metadata f m = m\<lparr>mc_ctx := (mc_ctx m)\<lparr>rc_metadata := f (rc_metadata (mc_ctx m))\<rparr>\<rparr>"

section \<open>Settings of a step\<close>

text \<open>\<^verbatim>\<open>key: value\<close> parts, one per line or comma; a later one overrides.\<close>

definition config_parts :: "string \<Rightarrow> (string \<times> string) list" where
  "config_parts cfg =
     concat (map (\<lambda>part. let p = trim part in
                         if p = [] then []
                         else (case split_once '':'' p of None \<Rightarrow> [] | Some (k, v) \<Rightarrow> [(trim k, trim v)]))
       (split_char CHR '','' (replace_char newline CHR '','' cfg)))"

record cache_step_config =
  csc_enabled :: "bool option"
  csc_ttl :: "nat option"
  csc_key_template :: "string option"

definition cache_config_part :: "string \<times> string \<Rightarrow> cache_step_config \<Rightarrow> cache_step_config" where
  "cache_config_part kv lc =
     (case kv of (key, val) \<Rightarrow>
        if key = ''enabled'' then lc\<lparr>csc_enabled := parse_bool val\<rparr>
        else if key = ''ttl'' then lc\<lparr>csc_ttl := parse_uint 64 val\<rparr>
        else if key = ''keyTemplate'' then lc\<lparr>csc_key_template := Some val\<rparr>
        else lc)"

definition cache_parse_config :: "string \<Rightarrow> cache_step_config" where
  "cache_parse_config cfg =
     fold cache_config_part (config_parts cfg)
       \<lparr> csc_enabled = None, csc_ttl = None, csc_key_template = None \<rparr>"

record log_step_config =
  lsc_level :: "string option"
  lsc_include_body :: "bool option"
  lsc_include_headers :: "bool option"
  lsc_enabled :: "bool option"

definition log_config_part :: "string \<times> string \<Rightarrow> log_step_config \<Rightarrow> log_step_config" where
  "log_config_part kv sc =
     (case kv of (key, val) \<Rightarrow>
        if key = ''level'' then sc\<lparr>lsc_level := Some val\<rparr>
        else if key = ''includeBody'' then sc\<lparr>lsc_include_body := parse_bool val\<rparr>
        else if key = ''includeHeaders'' then sc\<lparr>lsc_include_headers := parse_bool val\<rparr>
        else if key = ''enabled'' then sc\<lparr>lsc_enabled := parse_bool val\<rparr>
        else sc)"

definition log_parse_config :: "string \<Rightarrow> log_step_config" where
  "log_parse_config cfg =
     fold log_config_part (config_parts cfg)
       \<lparr> lsc_level = None, lsc_include_body = None, lsc_include_headers = None, lsc_enabled = None \<rparr>"

text \<open>A setting of the step, else of the global block, else the built-in default.\<close>

definition setting :: "'a option \<Rightarrow> json \<Rightarrow> string \<Rightarrow> (json \<Rightarrow> 'a option) \<Rightarrow> 'a \<Rightarrow> 'a" where
  "setting step_value global_config key as_kind fallback =
     (case step_value of
        Some v \<Rightarrow> v
      | None \<Rightarrow> (case Option.bind (json_get key global_config) as_kind of Some v \<Rightarrow> v | None \<Rightarrow> fallback))"

definition global_block ::
  "('r, 'w) libraries \<Rightarrow> config_manager \<Rightarrow> string \<Rightarrow> json \<Rightarrow> json" where
  "global_block libs mgr name fallback =
     (case resolve_config_as_json (lb_env_var libs) mgr name of Inr v \<Rightarrow> v | Inl _ \<Rightarrow> fallback)"

section \<open>The cache middleware\<close>

fun lookup_segments :: "string list \<Rightarrow> json \<Rightarrow> json" where
  "lookup_segments [] cur = cur"
| "lookup_segments (seg # segs) cur =
     (if seg = [] then lookup_segments segs cur
      else lookup_segments segs
        (case cur of JObject m \<Rightarrow> (case map_of m seg of Some v \<Rightarrow> v | None \<Rightarrow> JNull) | _ \<Rightarrow> JNull))"

definition lookup_path_string :: "(json \<Rightarrow> string) \<Rightarrow> json \<Rightarrow> string \<Rightarrow> string" where
  "lookup_path_string to_text input path =
     (case lookup_segments (split_char CHR ''.'' path) input of
        JNull \<Rightarrow> []
      | JBool b \<Rightarrow> show_bool b
      | JString s \<Rightarrow> s
      | other \<Rightarrow> to_text other)"

function render_key_template :: "(json \<Rightarrow> string) \<Rightarrow> json \<Rightarrow> string \<Rightarrow> string" where
  "render_key_template to_text input [] = []"
| "render_key_template to_text input (c # cs) =
     (if c = CHR ''{'' \<and> CHR ''}'' \<in> set cs then
        lookup_path_string to_text input (trim (takeWhile (\<lambda>x. x \<noteq> CHR ''}'') cs)) @
        render_key_template to_text input (drop 1 (dropWhile (\<lambda>x. x \<noteq> CHR ''}'') cs))
      else c # render_key_template to_text input cs)"
  by pat_completeness auto
termination
proof (relation "measure (length \<circ> snd \<circ> snd)", goal_cases)
  case (2 to_text input c cs)
  have "length (dropWhile (\<lambda>x. x \<noteq> CHR ''}'') cs) \<le> length cs" by (rule length_dropWhile_le)
  then show ?case by simp
qed simp_all

definition hex_digit :: "nat \<Rightarrow> char" where
  "hex_digit d = (if d < 10 then char_of (48 + d) else char_of (87 + d))"

fun show_hex :: "nat \<Rightarrow> string" where
  "show_hex n = (if n < 16 then [hex_digit n] else show_hex (n div 16) @ [hex_digit (n mod 16)])"

declare show_hex.simps [simp del]

text \<open>What is hashed for a step without a template: its identity, its text and the request.\<close>

definition str_field :: "string \<Rightarrow> json \<Rightarrow> string list" where
  "str_field k input = (case Option.bind (json_get k input) as_str of None \<Rightarrow> [] | Some s \<Rightarrow> [s])"

definition text_field :: "(json \<Rightarrow> string) \<Rightarrow> string \<Rightarrow> json \<Rightarrow> string list" where
  "text_field to_text k input = (case json_get k input of None \<Rightarrow> [] | Some v \<Rightarrow> [to_text v])"

definition cache_key ::
  "(string list \<Rightarrow> u64) \<Rightarrow> (json \<Rightarrow> string) \<Rightarrow> string option \<Rightarrow> string option \<Rightarrow> string \<Rightarrow> json \<Rightarrow> string" where
  "cache_key hash to_text key_template step config input =
     (case key_template of
        Some tpl \<Rightarrow> render_key_template to_text input tpl
      | None \<Rightarrow>
          ''pipeline:'' @ show_hex (unat (hash
            ((case step of None \<Rightarrow> [] | Some s \<Rightarrow> [s]) @ [config] @
             str_field ''method'' input @ str_field ''path'' input @
             text_field to_text ''query'' input @ text_field to_text ''params'' input))))"

definition default_cache_block :: json where
  "default_cache_block = JObject [(''enabled'', JBool True), (''defaultTtl'', json_nat 60),
     (''maxCacheSize'', json_nat 10485760)]"

definition push_save :: "string \<Rightarrow> nat \<Rightarrow> bool \<Rightarrow> pipeline_context \<Rightarrow> pipeline_context" where
  "push_save key ttl refreshing pc =
     pc\<lparr>pc_pending_cache_saves := pc_pending_cache_saves pc @
         [\<lparr> ps_key = key, ps_ttl = ttl, ps_refreshing = refreshing \<rparr>]\<rparr>"

definition cache_execute ::
  "('r, 'w) libraries \<Rightarrow> config_manager \<Rightarrow> ('l, 'r, 'w) execution_env \<Rightarrow> ('l, 'r, 'w) mw_execute" where
  "cache_execute libs mgr env args config pc m target =
     (let input = pc_state pc;
          global_cache = global_block libs mgr ''cache'' default_cache_block;
          parsed = cache_parse_config config;
          enabled = setting (csc_enabled parsed) global_cache ''enabled'' as_bool True;
          ttl = setting (csc_ttl parsed) global_cache ''defaultTtl'' (\<lambda>v. map_option unat (as_u64 v)) 60
      in if \<not> enabled then (Inr default_output, pc, m)
         else
           (let m1 = set_metadata (\<lambda>md. md\<lparr>md_cache_policy :=
                  Some \<lparr> cpol_enabled = enabled, cpol_ttl = ttl, cpol_key_template = csc_key_template parsed \<rparr>\<rparr>) m;
                key = cache_key (lb_hash libs) (pl_to_text (env_platform env)) (csc_key_template parsed)
                        (pc_current_step_id pc) config input;
                (now, m2) = read_clock env m1;
                (found, store) = cache_lookup (pl_cache_ops (env_platform env)) now key (mc_cache m2);
                m3 = m2\<lparr>mc_cache := store\<rparr>
            in case found of
                 Fresh resp \<Rightarrow> (Inr default_output, pc\<lparr>pc_cache_hit := Some resp\<rparr>, m3)
               | Stale resp \<Rightarrow> (Inr default_output, pc\<lparr>pc_cache_hit := Some resp\<rparr>, m3)
               | Refresh _ \<Rightarrow> (Inr default_output, push_save key ttl True pc, m3)
               | Miss \<Rightarrow> (Inr default_output, push_save key ttl False pc, m3)))"

section \<open>Log, debug, join\<close>

definition default_log_block :: json where
  "default_log_block = JObject [(''enabled'', JBool True), (''format'', JString ''json''),
     (''level'', JString ''debug''), (''includeBody'', JBool False), (''includeHeaders'', JBool True),
     (''maxBodySize'', json_nat 1024), (''timestamp'', JBool True)]"

text \<open>\<^verbatim>\<open>delta as f64 / 1000.0\<close>: the conversion keeps 53 bits, the quotient is rounded again.\<close>

definition round53 :: "nat \<Rightarrow> nat" where
  "round53 n = (let b = bit_length n in if b \<le> 53 then n else div_round n (2 ^ (b - 53)) * 2 ^ (b - 53))"

definition millis_number :: "nat \<Rightarrow> number" where
  "millis_number delta_micros =
     (case f64_ratio (round53 delta_micros) 1000 of
        Some bits \<Rightarrow> Float (f64_bits False bits)
      | None \<Rightarrow> PosInt 0)"

definition copy_key :: "string \<Rightarrow> json_map \<Rightarrow> json_map \<Rightarrow> json_map" where
  "copy_key k from to = (case map_of from k of None \<Rightarrow> to | Some v \<Rightarrow> om_insert k v to)"

definition log_request_object :: "bool \<Rightarrow> json option \<Rightarrow> json option \<Rightarrow> json_map" where
  "log_request_object include_headers original_request headers =
     (let req = (case Option.bind original_request as_object of
                   None \<Rightarrow> []
                 | Some orig \<Rightarrow> copy_key ''query'' orig (copy_key ''params'' orig (copy_key ''method'' orig [])))
      in case headers of
           Some h \<Rightarrow> if include_headers then om_insert ''headers'' h req else req
         | None \<Rightarrow> req)"

definition log_response_object :: "bool \<Rightarrow> json \<Rightarrow> json_map" where
  "log_response_object include_body final_response =
     (if include_body
      then [(''body'', map_object (om_remove ''setCookies'' \<circ> om_remove ''originalRequest'') final_response)]
      else [])"

definition log_line ::
  "(json \<Rightarrow> string) \<Rightarrow> log_config \<Rightarrow> json option \<Rightarrow> json option \<Rightarrow> nat \<Rightarrow> json \<Rightarrow> string" where
  "log_line to_text lc original_request headers delta_micros final_response =
     to_text (JObject
       [(''level'', JString (lc_level lc)), (''duration_ms'', JNumber (millis_number delta_micros)),
        (''request'', JObject (log_request_object (lc_include_headers lc) original_request headers)),
        (''response'', JObject (log_response_object (lc_include_body lc) final_response))])"

definition log_deferred ::
  "('r, 'w) libraries \<Rightarrow> (json \<Rightarrow> string) \<Rightarrow> log_config \<Rightarrow> json option \<Rightarrow> json option \<Rightarrow> nat \<Rightarrow>
   json \<Rightarrow> string \<Rightarrow> 'w \<Rightarrow> 'w" where
  "log_deferred libs to_text lc original_request headers start_micros final_response content_type w =
     (case lb_mono_micros libs w of
        (now_micros, w') \<Rightarrow>
          lb_print libs (log_line to_text lc original_request headers (now_micros - start_micros) final_response) w')"

definition log_execute ::
  "('r, 'w) libraries \<Rightarrow> config_manager \<Rightarrow> ('l, 'r, 'w) execution_env \<Rightarrow> ('l, 'r, 'w) mw_execute" where
  "log_execute libs mgr env args config pc m target =
     (let input = pc_state pc;
          global_log = global_block libs mgr ''log'' default_log_block;
          sc = log_parse_config config;
          level = setting (lsc_level sc) global_log ''level'' as_str ''debug'';
          include_body = setting (lsc_include_body sc) global_log ''includeBody'' as_bool False;
          include_headers = setting (lsc_include_headers sc) global_log ''includeHeaders'' as_bool True;
          enabled = setting (lsc_enabled sc) global_log ''enabled'' as_bool True
      in if \<not> enabled then (Inr default_output, pc, m)
         else
           (let lc = \<lparr> lc_level = level, lc_include_body = include_body, lc_include_headers = include_headers \<rparr>;
                m1 = set_metadata (\<lambda>md. md\<lparr>md_log_config := Some lc\<rparr>) m;
                (start_micros, w) = lb_mono_micros libs (mc_world m1);
                action = log_deferred libs (pl_to_text (env_platform env)) lc (json_get ''originalRequest'' input)
                           (json_get ''headers'' input) start_micros
            in (Inr default_output, pc, m1\<lparr>mc_world := w, mc_ctx := defer_action action (mc_ctx m1)\<rparr>)))"

definition debug_execute :: "('r, 'w) libraries \<Rightarrow> ('l, 'r, 'w) mw_execute" where
  "debug_execute libs args config pc m target =
     (let label = (if trim config = [] then ''debug'' else trim config)
      in (Inr default_output, pc,
          m\<lparr>mc_world := lb_print libs (lb_pretty libs (pc_state pc)) (lb_print libs label (mc_world m))\<rparr>))"

definition join_execute :: "('l, 'r, 'w) execution_env \<Rightarrow> ('l, 'r, 'w) mw_execute" where
  "join_execute env args config pc m target =
     (case parse_join_task_names (pl_parse_strings (env_platform env)) config of
        Inl e \<Rightarrow> (Inl e, pc, m)
      | Inr _ \<Rightarrow> (Inr default_output, pc, m))"

section \<open>jq, stdin, rate limit, assert\<close>

definition jq_execute :: "('l, 'r, 'w) execution_env \<Rightarrow> ('l, 'r, 'w) mw_execute" where
  "jq_execute env args config pc m target =
     (let combined_input = JObject [(''state'', pc_state pc), (''context'', context_to_value env (mc_ctx m))];
          final_filter = ''.context as $context | .state | '' @ config
      in case env_jq env final_filter combined_input of
           Inl e \<Rightarrow> (Inl e, pc, m)
         | Inr result \<Rightarrow> (Inr default_output, pc\<lparr>pc_state := result\<rparr>, m))"

definition stdin_value :: "('r, 'w) libraries \<Rightarrow> string \<Rightarrow> string \<Rightarrow> web_pipe_error + json" where
  "stdin_value libs mode bytes =
     (let text = (case lb_utf8_error libs bytes of
                    None \<Rightarrow> Inr bytes
                  | Some e \<Rightarrow> Inl (MiddlewareExecutionError (''stdin is not valid UTF-8: '' @ e)))
      in if mode = ''text'' then (case text of Inl e \<Rightarrow> Inl e | Inr s \<Rightarrow> Inr (JString s))
         else if mode = ''json'' then
           (case lb_parse_json libs bytes of
              Inl e \<Rightarrow> Inl (MiddlewareExecutionError (''stdin is not valid JSON: '' @ e))
            | Inr v \<Rightarrow> Inr v)
         else if mode = ''lines'' then
           (case text of Inl e \<Rightarrow> Inl e | Inr s \<Rightarrow> Inr (JArray (map JString (str_lines s))))
         else Inl (MiddlewareExecutionError
                (''unknown stdin mode '' @ quote_name mode @ '', expected text, json, or lines'')))"

definition stdin_execute :: "('r, 'w) libraries \<Rightarrow> ('l, 'r, 'w) mw_execute" where
  "stdin_execute libs args config pc m target =
     (if rc_invocation (mc_ctx m) \<noteq> Script then
        (Inl (MiddlewareExecutionError ''stdin is only available in script mode''), pc, m)
      else
        (case stdin_bytes (lb_read_stdin libs) (mc_ctx m) (mc_world m) of
           (Inl e, ctx, w) \<Rightarrow> (Inl e, pc, m\<lparr>mc_ctx := ctx, mc_world := w\<rparr>)
         | (Inr bytes, ctx, w) \<Rightarrow>
             (let m' = m\<lparr>mc_ctx := ctx, mc_world := w\<rparr>;
                  mode = (if trim config = [] then ''text'' else trim config)
              in case stdin_value libs mode bytes of
                   Inl e \<Rightarrow> (Inl e, pc, m')
                 | Inr v \<Rightarrow> (Inr default_output, pc\<lparr>pc_state := v\<rparr>, m'))))"

definition rate_limit_middleware ::
  "('r, 'w) libraries \<Rightarrow> ('l, 'r, 'w) execution_env \<Rightarrow> ('l, 'r, 'w) mw_execute" where
  "rate_limit_middleware libs env args config pc m target =
     (let (now, m1) = read_clock env m;
          (outcome, status, store) = rate_limit_execute (lb_rate_ops libs) (pl_to_text (env_platform env)) now
             config (pc_state pc) (mc_rate m1);
          m2 = (case status of
                  None \<Rightarrow> m1
                | Some st \<Rightarrow> set_metadata (\<lambda>md. md\<lparr>md_rate_limit_status := Some st\<rparr>) m1)
      in (case outcome of Inl e \<Rightarrow> Inl e | Inr _ \<Rightarrow> Inr default_output, pc, m2\<lparr>mc_rate := store\<rparr>))"

text \<open>The schema parser always returns (property \<open>assert_parse_total\<close>).\<close>

definition assert_middleware ::
  "('r, 'w) libraries \<Rightarrow> ('l, 'r, 'w) execution_env \<Rightarrow> ('l, 'r, 'w) mw_execute" where
  "assert_middleware libs env args config pc m target =
     (case the (assert_execute (pl_to_text (env_platform env)) (lb_debug_str libs) config (pc_state pc)) of
        (Inl e, _) \<Rightarrow> (Inl e, pc, m)
      | (Inr _, v) \<Rightarrow> (Inr default_output, pc\<lparr>pc_state := v\<rparr>, m))"

section \<open>The registry\<close>

type_synonym ('l, 'r, 'w) mw_registry = "string \<rightharpoonup> ('l, 'r, 'w) middleware"

definition mw_register ::
  "string \<Rightarrow> ('l, 'r, 'w) middleware \<Rightarrow> ('l, 'r, 'w) mw_registry \<Rightarrow> ('l, 'r, 'w) mw_registry" where
  "mw_register name mw reg = reg(name \<mapsto> mw)"

definition merging :: "('l, 'r, 'w) mw_execute \<Rightarrow> ('l, 'r, 'w) middleware" where
  "merging f = \<lparr> mw_run = f, mw_behavior = default_behavior \<rparr>"

definition transforming :: "('l, 'r, 'w) mw_execute \<Rightarrow> ('l, 'r, 'w) middleware" where
  "transforming f = \<lparr> mw_run = f, mw_behavior = Transform \<rparr>"

definition with_builtins ::
  "('r, 'w) libraries \<Rightarrow> config_manager \<Rightarrow> (string \<Rightarrow> ('l, 'r, 'w) middleware) \<Rightarrow>
   ('l, 'r, 'w) execution_env \<Rightarrow> ('l, 'r, 'w) mw_registry" where
  "with_builtins libs mgr others env =
     fold (\<lambda>(name, mw). mw_register name mw)
       [(''jq'', transforming (jq_execute env)),
        (''auth'', others ''auth''),
        (''validate'', others ''validate''),
        (''assert'', merging (assert_middleware libs env)),
        (''pg'', others ''pg''),
        (''handlebars'', others ''handlebars''),
        (''fetch'', others ''fetch''),
        (''cache'', merging (cache_execute libs mgr env)),
        (''lua'', others ''lua''),
        (''js'', others ''js''),
        (''log'', merging (log_execute libs mgr env)),
        (''debug'', merging (debug_execute libs)),
        (''join'', merging (join_execute env)),
        (''graphql'', others ''graphql''),
        (''rateLimit'', merging (rate_limit_middleware libs env)),
        (''gg'', others ''gg''),
        (''stdin'', transforming (stdin_execute libs)),
        (''algraf'', others ''algraf''),
        (''ag'', others ''algraf'')] Map.empty"

definition registry_execute :: "('l, 'r, 'w) mw_registry \<Rightarrow> ('l, 'r, 'w) invoker" where
  "registry_execute reg name args config target pc m =
     (case reg name of
        None \<Rightarrow> (Inl (MiddlewareNotFound name), pc, m)
      | Some mw \<Rightarrow> mw_run mw args config pc m target)"

definition get_behavior :: "('l, 'r, 'w) mw_registry \<Rightarrow> string \<Rightarrow> state_behavior option" where
  "get_behavior reg name = map_option mw_behavior (reg name)"

text \<open>
  The environment of a server: the invoker calls the registry. The built-ins read only the platform
  and the name of the environment, which do not depend on the invoker.
\<close>

definition with_registry ::
  "('r, 'w) libraries \<Rightarrow> config_manager \<Rightarrow> (string \<Rightarrow> ('l, 'r, 'w) middleware) \<Rightarrow>
   ('l, 'r, 'w) execution_env \<Rightarrow> ('l, 'r, 'w) execution_env" where
  "with_registry libs mgr others env =
     env\<lparr>env_invoker := registry_execute (with_builtins libs mgr others env),
         env_behavior := get_behavior (with_builtins libs mgr others env)\<rparr>"

end
