(* ===== verification/Builtin_Contract.thy ===== *)
theory Builtin_Contract
  imports Middleware Executor_Safety Executor_Termination
begin

text \<open>
  The contract between the executor and its middleware (the trait \<^verbatim>\<open>Middleware\<close> of
  \<^verbatim>\<open>src/middleware/mod.rs\<close>), as the locale \<^verbatim>\<open>middleware_contract\<close>: what the executor
  needs of an implementation. Every built-in provides it; a registry of middleware that
  provide it gives an invoker with the assumptions of the executor's theorems.
\<close>

section \<open>The contract\<close>

text \<open>The cache store after at most one lookup, and the cached response a lookup may hand out.\<close>

definition looked_up :: "('l, cache_entry) lru_ops \<Rightarrow> 'l cache_store \<Rightarrow> 'l cache_store \<Rightarrow> bool" where
  "looked_up ops c c' \<longleftrightarrow> c' = c \<or> (\<exists>now key. c' = snd (cache_lookup ops now key c))"

definition hit_from :: "('l, cache_entry) lru_ops \<Rightarrow> 'l cache_store \<Rightarrow> cached_response option \<Rightarrow> bool" where
  "hit_from ops c hit \<longleftrightarrow> (\<forall>resp. hit = Some resp \<longrightarrow>
     (\<exists>now key. fst (cache_lookup ops now key c) \<in> {Fresh resp, Stale resp}))"

locale middleware_contract =
  fixes env :: "('l, 'r, 'w) execution_env"
    and execute :: "('l, 'r, 'w) mw_execute"
  assumes keeps_tasks: "execute args config pc m target = (r, pc', m') \<Longrightarrow>
      rc_async_registry (mc_ctx m') = rc_async_registry (mc_ctx m)"
    and keeps_profiler: "execute args config pc m target = (r, pc', m') \<Longrightarrow>
      rc_profiler (mc_ctx m') = rc_profiler (mc_ctx m)"
    and cache_access: "execute args config pc m target = (r, pc', m') \<Longrightarrow>
      looked_up (pl_cache_ops (env_platform env)) (mc_cache m) (mc_cache m')"
    and hit: "execute args config pc m target = (r, pc', m') \<Longrightarrow> pc_cache_hit pc = None \<Longrightarrow>
      hit_from (pl_cache_ops (env_platform env)) (mc_cache m) (pc_cache_hit pc')"
begin

lemma keeps_stack_of: "execute args config pc m target = (r, pc', m') \<Longrightarrow> stack_of m' = stack_of m"
  using keeps_profiler by (simp add: stack_of_def)

lemma keeps_cache_invariant:
  assumes "response_cache (pl_cache_ops (env_platform env)) ok entries cap"
    and "ok (cs_inner (mc_cache m))" and "execute args config pc m target = (r, pc', m')"
  shows "ok (cs_inner (mc_cache m'))"
proof -
  from cache_access [OF assms(3)] consider "mc_cache m' = mc_cache m"
    | now key where "mc_cache m' = snd (cache_lookup (pl_cache_ops (env_platform env)) now key (mc_cache m))"
    by (auto simp: looked_up_def)
  then show ?thesis
  proof cases
    case 2
    with response_cache.lookup_spec [OF assms(1,2) prod.collapse [symmetric], of now key] show ?thesis by simp
  qed (use assms(2) in simp)
qed

lemma keeps_bodies:
  assumes L: "response_cache (pl_cache_ops (env_platform env)) ok entries cap"
    and b: "cache_bodies ok entries P (mc_cache m)" and e: "execute args config pc m target = (r, pc', m')"
  shows "cache_bodies ok entries P (mc_cache m')"
    and "pc_cache_hit pc = None \<Longrightarrow> pc_cache_hit pc' = Some resp \<Longrightarrow> P (cr_body resp)"
proof -
  note look = response_cache.lookup_bodies [OF L b prod.collapse [symmetric]]
  from cache_access [OF e] show "cache_bodies ok entries P (mc_cache m')"
    using b look(1) by (auto simp: looked_up_def)
  show "P (cr_body resp)" if "pc_cache_hit pc = None" "pc_cache_hit pc' = Some resp"
  proof -
    from hit [OF e that(1)] that(2) obtain now key where
      "fst (cache_lookup (pl_cache_ops (env_platform env)) now key (mc_cache m)) \<in> {Fresh resp, Stale resp}"
      by (auto simp: hit_from_def)
    then show ?thesis using look(2) [of now key resp] by auto
  qed
qed

end

section \<open>The built-ins\<close>

lemma looked_up_refl [simp]: "looked_up ops c c"
  by (simp add: looked_up_def)

lemma looked_up_lookup: "cache_lookup ops now key c = (f, c') \<Longrightarrow> looked_up ops c c'"
  unfolding looked_up_def by (rule disjI2, rule exI [of _ now], rule exI [of _ key]) simp

lemma hit_from_None [simp]: "hit_from ops c None"
  by (simp add: hit_from_def)

lemma hit_from_lookup:
  "cache_lookup ops now key c = (f, c') \<Longrightarrow> f = Fresh resp \<or> f = Stale resp \<Longrightarrow> hit_from ops c (Some resp)"
  unfolding hit_from_def by (metis fst_conv insertCI option.inject)

lemmas builtin_defs = log_execute_def debug_execute_def join_execute_def jq_execute_def
  rate_limit_middleware_def assert_middleware_def set_metadata_def defer_action_def read_clock_def Let_def

interpretation log_mw: middleware_contract env "log_execute libs mgr env" for libs mgr env
  by unfold_locales (auto simp: builtin_defs split: prod.splits if_splits)

interpretation debug_mw: middleware_contract env "debug_execute libs" for libs env
  by unfold_locales (auto simp: builtin_defs)

interpretation join_mw: middleware_contract env "join_execute env" for env
  by unfold_locales (auto simp: builtin_defs split: sum.splits)

interpretation jq_mw: middleware_contract env "jq_execute env" for env
  by unfold_locales (auto simp: builtin_defs split: sum.splits)

interpretation rate_mw: middleware_contract env "rate_limit_middleware libs env" for libs env
  by unfold_locales (auto simp: builtin_defs split: prod.splits option.splits)

interpretation assert_mw: middleware_contract env "assert_middleware libs env" for libs env
  by unfold_locales (auto simp: builtin_defs split: prod.splits sum.splits)

lemma stdin_bytes_ctx:
  "stdin_bytes rd ctx w = (r, ctx', w') \<Longrightarrow>
   rc_async_registry ctx' = rc_async_registry ctx \<and> rc_profiler ctx' = rc_profiler ctx"
  by (auto simp: stdin_bytes_def split: option.splits prod.splits sum.splits)

interpretation stdin_mw: middleware_contract env "stdin_execute libs" for libs env
  by unfold_locales
    (auto simp: stdin_execute_def Let_def dest: stdin_bytes_ctx split: prod.splits sum.splits if_splits)

interpretation cache_mw: middleware_contract env "cache_execute libs mgr env" for libs mgr env
  by unfold_locales
    (auto simp: cache_execute_def Let_def set_metadata_def read_clock_def push_save_def
      dest: looked_up_lookup hit_from_lookup split: prod.splits if_splits cache_lookup.splits)

section \<open>A registry of such middleware\<close>

lemma with_builtins_cases:
  assumes "with_builtins libs mgr others env name = Some mw"
  shows "(\<exists>n. mw = others n) \<or> mw_run mw \<in> {jq_execute env, assert_middleware libs env, cache_execute libs mgr env,
    log_execute libs mgr env, debug_execute libs, join_execute env, rate_limit_middleware libs env, stdin_execute libs}"
  using assms
  by (auto simp: with_builtins_def mw_register_def transforming_def merging_def split: if_splits)

lemma builtin_contract:
  assumes "\<And>n. middleware_contract env (mw_run (others n))"
    and "with_builtins libs mgr others env name = Some mw"
  shows "middleware_contract env (mw_run mw)"
  using with_builtins_cases [OF assms(2)] assms(1)
    log_mw.middleware_contract_axioms debug_mw.middleware_contract_axioms join_mw.middleware_contract_axioms
    jq_mw.middleware_contract_axioms rate_mw.middleware_contract_axioms assert_mw.middleware_contract_axioms
    stdin_mw.middleware_contract_axioms cache_mw.middleware_contract_axioms
  by auto

lemma registry_contract:
  assumes "\<And>name mw. reg name = Some mw \<Longrightarrow> middleware_contract env (mw_run mw)"
  shows "middleware_contract env (\<lambda>args config pc m target. registry_execute reg name args config target pc m)"
proof (cases "reg name")
  case None
  show ?thesis by unfold_locales (auto simp: registry_execute_def None)
next
  case (Some mw)
  have "(\<lambda>args config pc m target. registry_execute reg name args config target pc m) = mw_run mw"
    by (simp add: registry_execute_def Some)
  with assms [OF Some] show ?thesis by simp
qed

text \<open>A server's environment, as long as the middleware of the other libraries behaves.\<close>

lemma registry_env_contract:
  assumes "\<And>n. middleware_contract env (mw_run (others n))"
  shows "middleware_contract env (\<lambda>args config pc m target.
    env_invoker (with_registry libs mgr others env) name args config target pc m)"
  using registry_contract [of "with_builtins libs mgr others env" env name] builtin_contract [OF assms]
  by (simp add: with_registry_def)

lemma with_registry_simps [simp]:
  "env_platform (with_registry libs mgr others env) = env_platform env"
  "env_debugger (with_registry libs mgr others env) = env_debugger env"
  "env_named_pipelines (with_registry libs mgr others env) = env_named_pipelines env"
  "env_jq (with_registry libs mgr others env) = env_jq env"
  by (simp_all add: with_registry_def env_jq_def)

lemma registry_keeps_stack:
  assumes "\<And>n. middleware_contract env (mw_run (others n))"
    and "\<And>dbg t n l v stack w. env_debugger env = Some dbg \<Longrightarrow> \<exists>a. fst (dh_before_step dbg t n l v stack w) = Inr a"
  shows "keeps_stack (with_registry libs mgr others env)"
  unfolding keeps_stack_def
proof (intro conjI allI impI)
  fix name args config target pc m
  obtain r pc' m' where e: "env_invoker (with_registry libs mgr others env) name args config target pc m = (r, pc', m')"
    by (metis surj_pair)
  note K = registry_env_contract [OF assms(1), where libs = libs and mgr = mgr and name = name]
  from middleware_contract.keeps_stack_of [OF K e] e
  show "stack_of (snd (snd (env_invoker (with_registry libs mgr others env) name args config target pc m))) = stack_of m"
    by simp
qed (use assms(2) in simp)

lemma registry_invoker_safe:
  assumes "\<And>n. middleware_contract env (mw_run (others n))"
    and "response_cache (pl_cache_ops (env_platform env)) ok entries cap"
  shows "invoker_safe (with_registry libs mgr others env) (\<lambda>c. ok (cs_inner c))"
  unfolding invoker_safe_def
proof (intro allI impI conjI)
  fix name args config target pc m r pc' m'
  assume e: "env_invoker (with_registry libs mgr others env) name args config target pc m = (r, pc', m')"
  note K = registry_env_contract [OF assms(1), where libs = libs and mgr = mgr and name = name]
  show "rc_async_registry (mc_ctx m') = rc_async_registry (mc_ctx m)"
    by (rule middleware_contract.keeps_tasks [OF K e])
  assume "ok (cs_inner (mc_cache m))"
  then show "ok (cs_inner (mc_cache m'))"
    by (rule middleware_contract.keeps_cache_invariant [OF K assms(2) _ e])
qed

section \<open>The program's own middleware, without the other libraries\<close>

text \<open>What a build without a library answers, and the environment it gives.\<close>

definition unavailable :: "string \<Rightarrow> ('l, 'r, 'w) middleware" where
  "unavailable name = merging (\<lambda>args config pc m target. (Inl (MiddlewareNotFound name), pc, m))"

definition builtin_env ::
  "('r, 'w) libraries \<Rightarrow> config_manager \<Rightarrow> (cache_entry list_lru, 'r, 'w) execution_env \<Rightarrow>
   (cache_entry list_lru, 'r, 'w) execution_env" where
  "builtin_env libs mgr env =
     with_registry libs mgr unavailable
       (env\<lparr>env_debugger := None, env_named_pipelines := Map.empty,
            env_platform := (env_platform env)\<lparr>pl_cache_ops := list_lru\<rparr>\<rparr>)"

interpretation unavailable_mw: middleware_contract env "mw_run (unavailable name)" for env name
  by unfold_locales (auto simp: unavailable_def merging_def)

lemma builtin_env_cache: "response_cache (pl_cache_ops (env_platform (builtin_env libs mgr env))) list_lru_ok snd fst"
  using list_cache.response_cache_axioms by (simp add: builtin_env_def)

lemma builtin_env_safe: "invoker_safe (builtin_env libs mgr env) (\<lambda>c. list_lru_ok (cs_inner c))"
  unfolding builtin_env_def
  by (rule registry_invoker_safe [OF unavailable_mw.middleware_contract_axioms])
    (use list_cache.response_cache_axioms in simp)

lemma builtin_env_stack: "keeps_stack (builtin_env libs mgr env)"
  unfolding builtin_env_def
  by (rule registry_keeps_stack [OF unavailable_mw.middleware_contract_axioms]) simp

lemma builtin_env_rank: "q \<in> set (calls (builtin_env libs mgr env) p) \<Longrightarrow> size q < size p"
  by (rule calls_size [rotated])
    (auto simp: resolve_named_pipeline_def builtin_env_def Let_def split: prod.splits option.splits if_splits)

interpretation stack: env_keeps "builtin_env libs mgr env" False "\<lambda>S m. stack_of m = S" for libs mgr env
  by (rule stack_keeps [OF builtin_env_stack])

interpretation stack_run: run_keeps "builtin_env libs mgr env" False "\<lambda>S m. stack_of m = S"
  "exec_pipeline (builtin_env libs mgr env) n" for libs mgr env n
  by (rule stack.fuel_keeps)

interpretation bounded_run: returning "exec_pipeline (builtin_env libs mgr env) (K + 1 + K * K)"
  "builtin_env libs mgr env" "\<lambda>c. list_lru_ok (cs_inner c)" size K K for libs mgr env K
proof
  note puts = response_cache.put_response_returns [OF builtin_env_cache]
  show puts': "returns (\<lambda>c. list_lru_ok (cs_inner c)) (put_response
      (pl_cache_ops (env_platform (builtin_env libs mgr env))) (estimate_size (builtin_env libs mgr env)) now key resp ttl c)"
    if "list_lru_ok (cs_inner c)" for now key resp ttl c
    using puts [OF that, of libs mgr env "estimate_size (builtin_env libs mgr env)" now key resp ttl]
    by (auto simp: returns_def)
  show clears': "list_lru_ok (cs_inner (clear_refresh (pl_cache_ops (env_platform (builtin_env libs mgr env))) key c))"
    if "list_lru_ok (cs_inner c)" for key c
    by (rule conjunct1 [OF response_cache.clear_refresh_spec [OF builtin_env_cache that]])
  show sub: "returns (\<lambda>(r, m'). list_lru_ok (cs_inner (mc_cache m')) \<and>
      tasks_below (builtin_env libs mgr env) size K (rc_async_registry (mc_ctx m')))
      (exec_pipeline (builtin_env libs mgr env) (K + 1 + K * K) q h i m)"
    if "size q < K" "list_lru_ok (cs_inner (mc_cache m))"
      "tasks_below (builtin_env libs mgr env) size K (rc_async_registry (mc_ctx m))" for q h i m
    by (rule exec_pipeline_returns [where cok = "\<lambda>c. list_lru_ok (cs_inner c)", OF builtin_env_safe puts' clears' builtin_env_rank])
      (use that in auto)
  show "returns (\<lambda>(r, m'). list_lru_ok (cs_inner (mc_cache m')))
      (exec_pipeline (builtin_env libs mgr env) (K + 1 + K * K) q None i m)"
    if "size q < K" "list_lru_ok (cs_inner (mc_cache m))" "rc_async_registry (mc_ctx m) = Map.empty" for q i m
    using sub [of q m None i] that by (auto simp: tasks_below_def returns_def)
qed (rule order_refl, rule builtin_env_safe)

end
