(* ===== verification/Middleware_Properties.thy ===== *)
theory Middleware_Properties
  imports Builtin_Contract Executor_Properties
begin

text \<open>
  What the executor and the built-in middleware guarantee together: a cache hit ends the run, a
  server's runs are safe whatever their pipelines do.
\<close>

section \<open>A cache hit\<close>

lemma registry_cache:
  "env_invoker (with_registry libs mgr others env) ''cache'' = (\<lambda>args config target pc m.
     cache_execute libs mgr env args config pc m target)"
  by (rule ext)+ (simp add: with_registry_def registry_execute_def with_builtins_def mw_register_def merging_def)

lemma registry_behavior_cache: "env_behavior (with_registry libs mgr others env) ''cache'' = Some Merge"
  by (simp add: with_registry_def get_behavior_def with_builtins_def mw_register_def merging_def default_behavior_def)

text \<open>The key of a cache step in a run on the input \<open>i\<close>, and whether it is enabled.\<close>

definition step_cache_key ::
  "('r, 'w) libraries \<Rightarrow> ('l, 'r, 'w) execution_env \<Rightarrow> regular_step \<Rightarrow> nat \<Rightarrow> json \<Rightarrow> string" where
  "step_cache_key libs env rs idx i =
     (case resolve_config_and_autoname env (rs_location rs) ''cache'' (rs_config rs) i of
        (config, input, _) \<Rightarrow>
          cache_key (lb_hash libs) (pl_to_text (env_platform env)) (csc_key_template (cache_parse_config config))
            (Some (step_id (rs_location rs) idx)) config input)"

definition step_cache_enabled ::
  "('r, 'w) libraries \<Rightarrow> config_manager \<Rightarrow> ('l, 'r, 'w) execution_env \<Rightarrow> regular_step \<Rightarrow> json \<Rightarrow> bool" where
  "step_cache_enabled libs mgr env rs i =
     (case resolve_config_and_autoname env (rs_location rs) ''cache'' (rs_config rs) i of
        (config, _, _) \<Rightarrow> setting (csc_enabled (cache_parse_config config))
          (global_block libs mgr ''cache'' default_cache_block) ''enabled'' as_bool True)"

lemma resolve_registry [simp]:
  "resolve_config_and_autoname (with_registry libs mgr others env) l n c i = resolve_config_and_autoname env l n c i"
  by (simp add: resolve_config_and_autoname_def with_registry_def split: prod.splits option.splits)

lemma cache_execute_hit:
  assumes "setting (csc_enabled (cache_parse_config config))
      (global_block libs mgr ''cache'' default_cache_block) ''enabled'' as_bool True"
    and "pl_now (env_platform env) (mc_world m) = (now, w)"
    and "fst (cache_lookup (pl_cache_ops (env_platform env)) now
      (cache_key (lb_hash libs) (pl_to_text (env_platform env)) (csc_key_template (cache_parse_config config))
         (pc_current_step_id pc) config (pc_state pc)) (mc_cache m)) \<in> {Fresh resp, Stale resp}"
  shows "\<exists>m'. cache_execute libs mgr env args config pc m target =
    (Inr default_output, pc\<lparr>pc_cache_hit := Some resp\<rparr>, m')"
  using assms
  by (auto simp: cache_execute_def Let_def set_metadata_def read_clock_def split: prod.splits)

lemma status_without:
  "po_status_code (ss_output (update_metadata n c None l s)) = po_status_code (ss_output s)"
  by (simp add: update_metadata_def Let_def)

lemma finish_regular_hit:
  assumes "pc_cache_hit (ss_pipe s) = Some resp" and "sr_status_code r = None"
  shows "\<exists>s'. finish_regular env rs n t cl l r s = (Return \<lparr> po_state = cr_body resp,
    po_content_type = cr_content_type resp, po_status_code = (case cr_status_code resp of
      Some c \<Rightarrow> Some c | None \<Rightarrow> po_status_code (ss_output s)) \<rparr>, s') \<and>
    pc_pending_cache_saves (ss_pipe s') = pc_pending_cache_saves (ss_pipe s)"
  by (simp add: finish_regular_def Let_def check_cache_stop_def frame status_without assms split: option.split)

lemma regular_step_cache_hit:
  assumes rs: "rs_name rs = ''cache''" "rs_condition rs = None"
    and pc: "pc_pending_cache_saves (ss_pipe s) = []"
    and out: "po_status_code (ss_output s) = None"
    and en: "step_cache_enabled libs mgr env rs (ss_state s)"
    and now: "pl_now (env_platform env) (mc_world (ss_machine s)) = (now, w)"
    and hit: "fst (cache_lookup (pl_cache_ops (env_platform env)) now
      (step_cache_key libs env rs idx (ss_state s)) (mc_cache (ss_machine s))) \<in> {Fresh resp, Stale resp}"
  shows "\<exists>s'. regular_step_execute run (with_registry libs mgr others env) rs idx all s =
    Some (Inr (Return \<lparr> po_state = cr_body resp, po_content_type = cr_content_type resp,
      po_status_code = cr_status_code resp \<rparr>), s') \<and> pc_pending_cache_saves (ss_pipe s') = []"
proof -
  let ?env = "with_registry libs mgr others env"
  have n: "effective_name ?env rs = ''cache''" "raw_config ?env rs = rs_config rs"
    by (simp_all add: effective_name_def raw_config_def is_pipeline_shorthand_def
        regular_step_is_pipeline_shorthand_def rs registry_behavior_cache)
  obtain c i a where res: "resolve_config_and_autoname env (rs_location rs) ''cache'' (rs_config rs) (ss_state s) = (c, i, a)"
    by (metis surj_pair)
  let ?s2 = "if a then set_state i s else s"
  obtain t cl where dt: "determine_target_name (rs_condition rs) (ss_state ?s2) a = (t, cl)" by force
  let ?pc = "(pipeline_context_new i)\<lparr>pc_current_step_id := Some (step_id (rs_location rs) idx)\<rparr>"
  have m: "ss_machine ?s2 = ss_machine s" "pc_pending_cache_saves (ss_pipe ?s2) = []"
    "po_status_code (ss_output ?s2) = None" using pc out by simp_all
  obtain m' where ex: "cache_execute libs mgr env (rs_args rs) c ?pc (ss_machine s) t =
      (Inr default_output, ?pc\<lparr>pc_cache_hit := Some resp\<rparr>, m')"
    using cache_execute_hit [of c libs mgr env "ss_machine s" now w ?pc resp "rs_args rs" t] en now hit res
    by (auto simp: step_cache_enabled_def step_cache_key_def pipeline_context_new_def)
  let ?s3 = "?s2\<lparr>ss_machine := m', ss_pipe := (ss_pipe ?s2)\<lparr>pc_cache_hit := Some resp\<rparr>\<rparr>"
  have core: "run_core_logic run ?env rs idx Standard ''cache'' c i t ?s2 =
      Some (Inr \<lparr> sr_value = i, sr_content_type = ''application/json'', sr_status_code = None \<rparr>, ?s3)"
    using ex m by (simp add: run_core_logic_def Let_def handle_standard_execution_def registry_cache
        default_output_def pipeline_context_new_def)
  let ?r = "\<lparr> sr_value = i, sr_content_type = ''application/json'', sr_status_code = None \<rparr>"
  have se: "should_execute_step (rs_condition rs) ?env (mc_ctx (ss_machine s)) (ss_state s)"
    by (simp add: should_execute_step_def rs)
  have md: "detect_execution_mode ''cache'' (rs_condition rs) = Standard"
    by (simp add: detect_execution_mode_def rs)
  obtain s' where fin: "finish_regular ?env rs ''cache'' t cl (is_last_step ?env idx all s) ?r ?s3 =
      (Return \<lparr> po_state = cr_body resp, po_content_type = cr_content_type resp,
        po_status_code = (case cr_status_code resp of Some x \<Rightarrow> Some x | None \<Rightarrow> po_status_code (ss_output ?s3)) \<rparr>, s')"
    "pc_pending_cache_saves (ss_pipe s') = pc_pending_cache_saves (ss_pipe ?s3)"
    using finish_regular_hit [of ?s3 resp ?r ?env rs "''cache''" t cl "is_last_step ?env idx all s"] by auto
  have "regular_step_execute run ?env rs idx all s = Some (Inr (Return \<lparr> po_state = cr_body resp,
      po_content_type = cr_content_type resp, po_status_code = cr_status_code resp \<rparr>), s')"
    using se md n dt core fin(1) m(3)
    by (simp add: regular_step_execute_def regular_step_run_def res Let_def out split: option.splits)
  with fin(2) m(2) show ?thesis by simp
qed

text \<open>
  C23: A cache hit ends the run: when the first step of a pipeline is a cache step whose key holds an
  entry that is fresh, or stale while another caller refreshes it, the run answers exactly the
  stored response, whatever steps follow, and stores nothing.
\<close>

theorem cache_hit_answers:
  assumes "rs_name rs = ''cache''" and "rs_condition rs = None" and "env_debugger env = None"
    and "extract_error_type i = None" and "step_cache_enabled libs mgr env rs i"
    and "pl_now (env_platform env) (mc_world m) = (t0, w0)" and "pl_now (env_platform env) w0 = (now, w1)"
    and "fst (cache_lookup (pl_cache_ops (env_platform env)) now (step_cache_key libs env rs 0 i) (mc_cache m))
      \<in> {Fresh resp, Stale resp}"
  shows "\<exists>m'. exec_pipeline (with_registry libs mgr others env) (Suc fuel) (Pipeline (RegularStep rs # rest)) h i m =
    Some (Inr (cr_body resp, cr_content_type resp, cr_status_code resp), m')"
proof -
  let ?env = "with_registry libs mgr others env" and ?run = "exec_pipeline (with_registry libs mgr others env) fuel"
  let ?all = "RegularStep rs # rest"
  let ?s = "\<lparr> ss_machine = m, ss_pipe = pipeline_context_new i,
      ss_output = \<lparr> po_state = JNull, po_content_type = ''application/json'', po_status_code = None \<rparr> \<rparr>"
  obtain s1 where st: "start_step ?env (determine_step_name (RegularStep rs)) ?s = (t0, s1)"
    and w: "mc_world (ss_machine s1) = w0" "mc_cache (ss_machine s1) = mc_cache m"
    using assms(6) by (simp add: start_step_def read_clock_def update_profiler_def set_ctx_def)
  have s1: "ss_pipe s1 = pipeline_context_new i" "ss_output s1 = ss_output ?s"
    using start_end_step_frame(1,2) [of ?env "determine_step_name (RegularStep rs)" ?s] st by simp_all
  then have state: "ss_state s1 = i" by (simp add: ss_state_def pipeline_context_new_def)
  obtain s2 where r: "regular_step_execute ?run ?env rs 0 ?all s1 =
      Some (Inr (Return \<lparr> po_state = cr_body resp, po_content_type = cr_content_type resp,
        po_status_code = cr_status_code resp \<rparr>), s2)" "pc_pending_cache_saves (ss_pipe s2) = []"
    using regular_step_cache_hit [where s = s1 and idx = 0 and run = ?run and all = ?all and others = others,
        OF assms(1,2) _ _ _ assms(7) [folded w(1)], where resp = resp and libs = libs and mgr = mgr]
      assms(5,8) s1 w state by (auto simp: pipeline_context_new_def)
  have d: "env_debugger ?env = None" using assms(3) by simp
  have "execute_step ?run ?env (RegularStep rs) 0 ?all ?s =
      Some (Inr (Return \<lparr> po_state = cr_body resp, po_content_type = cr_content_type resp,
        po_status_code = cr_status_code resp \<rparr>), end_step ?env t0 s2)"
    using st r(1) d by (simp add: execute_step_def Let_def dispatch_step_kind_def execute_regular_def)
  then show ?thesis
    using assms(4) r(2)
    by (simp add: run_steps_def pipeline_context_new_def Let_def finish_run_def run_pending_cache_saves_def frame)
qed

text \<open>An environment for the examples: the world is the clock and the lines printed.\<close>

definition sample_libs :: "(rate_limit_entry list_lru, nat) libraries" where
  "sample_libs = \<lparr> lb_rate_ops = list_lru, lb_env_var = Map.empty, lb_print = (\<lambda>line w. w),
     lb_pretty = (\<lambda>v. ''text''), lb_parse_json = (\<lambda>s. Inr JNull), lb_utf8_error = (\<lambda>s. None),
     lb_read_stdin = (\<lambda>w. (Inr [], w)), lb_hash = (\<lambda>ss. 0), lb_mono_micros = (\<lambda>w. (w, w)),
     lb_debug_str = (\<lambda>s. s) \<rparr>"

definition sample_server :: "(cache_entry list_lru, rate_limit_entry list_lru, nat) execution_env" where
  "sample_server = \<lparr> env_variables = Map.empty, env_named_pipelines = Map.empty,
     env_module_registry = module_registry_new, env_imports = Map.empty,
     env_invoker = (\<lambda>name args config target pc m. (Inl (MiddlewareNotFound name), pc, m)),
     env_behavior = (\<lambda>name. None), env_environment = None, env_debugger = None,
     env_platform = sample_platform \<rparr>"

definition sample_cached :: "(cache_entry list_lru, rate_limit_entry list_lru, nat) machine" where
  "sample_cached = \<lparr> mc_ctx = request_context_new,
     mc_cache = sample_store\<lparr>cs_inner := (4, [(''k'', new_entry 0 60 30 4 sample_response)])\<rparr>,
     mc_rate = (4, []), mc_world = 1 \<rparr>"

lemma sample_key_config:
  "cache_parse_config ''keyTemplate:k'' = \<lparr> csc_enabled = None, csc_ttl = None, csc_key_template = Some ''k'' \<rparr>"
  by code_simp

theorem cache_hit_answers_witness:
  "\<exists>m'. exec_pipeline (with_registry sample_libs Map.empty unavailable sample_server) 1
      (Pipeline [RegularStep (sample_step ''cache'' ''keyTemplate:k''), RegularStep (sample_step ''fetch'' ''x'')])
      None JNull sample_cached =
    Some (Inr (JString ''hi'', ''application/json'', Some 200), m')"
proof -
  let ?rs = "sample_step ''cache'' ''keyTemplate:k''"
  have res: "resolve_config_and_autoname sample_server (rs_location ?rs) ''cache'' (rs_config ?rs) JNull =
      (''keyTemplate:k'', JNull, False)"
    by code_simp
  have en: "step_cache_enabled sample_libs Map.empty sample_server ?rs JNull"
    unfolding step_cache_enabled_def res by (simp add: sample_key_config setting_def global_block_def
        resolve_config_as_json_def get_config_def default_cache_block_def as_bool_def)
  have key: "step_cache_key sample_libs sample_server ?rs 0 JNull = ''k''"
    unfolding step_cache_key_def res by (simp add: sample_key_config cache_key_def)
  have look: "fst (cache_lookup (pl_cache_ops (env_platform sample_server)) 2
      (step_cache_key sample_libs sample_server ?rs 0 JNull) (mc_cache sample_cached)) \<in>
      {Fresh sample_response, Stale sample_response}"
    unfolding key by (simp add: sample_server_def sample_platform_def sample_cached_def cache_lookup_def
        list_lru_def new_entry_def nanos_def)
  have rs: "rs_name ?rs = ''cache''" "rs_condition ?rs = None" by (simp_all add: sample_step_def)
  have env: "env_debugger sample_server = None" by (simp add: sample_server_def)
  have err: "extract_error_type JNull = None" by (simp add: extract_error_type_def)
  have clock: "pl_now (env_platform sample_server) (mc_world sample_cached) = (1, 2)"
    "pl_now (env_platform sample_server) 2 = (2, 3)"
    by (simp_all add: sample_server_def sample_platform_def sample_cached_def)
  from cache_hit_answers [OF rs env err en clock look, of unavailable 0 "[RegularStep (sample_step ''fetch'' ''x'')]" None]
  show ?thesis by (simp add: sample_response_def)
qed

section \<open>A server's runs\<close>

text \<open>A run with any safe invoker returns and leaves a valid cache.\<close>

lemma exec_pipeline_safe:
  assumes "invoker_safe env (\<lambda>c. ok (cs_inner c))"
    and "response_cache (pl_cache_ops (env_platform env)) ok entries cap"
    and "ok (cs_inner (mc_cache m))" and "rc_async_registry (mc_ctx m) = Map.empty"
    and "\<And>p q. q \<in> set (calls env p) \<Longrightarrow> rank q < rank p"
    and "rank p + 1 + rank p * rank p \<le> fuel"
  shows "\<exists>r m'. exec_pipeline env fuel p h i m = Some (r, m') \<and> ok (cs_inner (mc_cache m'))"
proof -
  have puts: "returns (\<lambda>c. ok (cs_inner c)) (put_response (pl_cache_ops (env_platform env)) (estimate_size env)
      now key resp ttl c)" if "ok (cs_inner c)" for now key resp ttl c
    using response_cache.put_response_returns [OF assms(2) that, of "estimate_size env" now key resp ttl]
    by (auto simp: returns_def)
  have clears: "ok (cs_inner (clear_refresh (pl_cache_ops (env_platform env)) key c))" if "ok (cs_inner c)" for key c
    using response_cache.clear_refresh_spec [OF assms(2) that] by simp
  have "returns (\<lambda>(r, m'). ok (cs_inner (mc_cache m')) \<and>
      tasks_below env rank (rank p) (rc_async_registry (mc_ctx m'))) (exec_pipeline env fuel p h i m)"
    by (rule exec_pipeline_returns [where cok = "\<lambda>c. ok (cs_inner c)", OF assms(1) puts clears assms(5)])
      (use assms(3,4,6) in \<open>auto simp: tasks_below_def\<close>)
  then show ?thesis by (auto simp: returns_def)
qed

lemma execute_pipeline_safe:
  assumes "invoker_safe env (\<lambda>c. ok (cs_inner c))"
    and "response_cache (pl_cache_ops (env_platform env)) ok entries cap"
    and "ok (cs_inner (mc_cache m))" and "rc_async_registry ctx = Map.empty"
    and "\<And>p q. q \<in> set (calls env p) \<Longrightarrow> rank q < rank p"
    and "rank p + 1 + rank p * rank p \<le> fuel"
  shows "\<exists>r m'. execute_pipeline env fuel p i ctx m = Some (r, m') \<and> ok (cs_inner (mc_cache m'))"
proof -
  have "\<exists>r m'. exec_pipeline env fuel p None i (m\<lparr>mc_ctx := ctx\<rparr>) = Some (r, m') \<and> ok (cs_inner (mc_cache m'))"
    by (rule exec_pipeline_safe [where ok = ok and rank = rank, OF assms(1,2)]) (use assms(3-6) in simp_all)
  then show ?thesis by (auto simp: execute_pipeline_def split: sum.split)
qed

lemma server_run_returns:
  assumes "\<And>n. middleware_contract env (mw_run (others n))"
    and "response_cache (pl_cache_ops (env_platform env)) ok entries cap"
    and "ok (cs_inner (mc_cache m))" and "rc_async_registry (mc_ctx m) = Map.empty"
    and "\<And>p q. q \<in> set (calls (with_registry libs mgr others env) p) \<Longrightarrow> rank q < rank p"
    and "rank p + 1 + rank p * rank p \<le> fuel"
  shows "\<exists>r m'. exec_pipeline (with_registry libs mgr others env) fuel p h i m = Some (r, m') \<and>
    ok (cs_inner (mc_cache m'))"
proof (rule exec_pipeline_safe [where ok = ok and rank = rank])
  show "invoker_safe (with_registry libs mgr others env) (\<lambda>c. ok (cs_inner c))"
    by (rule registry_invoker_safe [OF assms(1,2)])
qed (use assms(2-6) in simp_all)



end
