(* ===== verification/Loader.thy ===== *)
theory Loader
  imports Errors Text_Scan
begin

text \<open>
  The module loader (\<^verbatim>\<open>src/loader.rs\<close>): resolving import paths, loading a module with its imports
  under circular-import detection, and collecting the tree of modules below a root file. The file
  system and the parser are arguments; a file system does not change while a load runs. Paths are
  UTF-8 texts. The recursion is bounded by fuel; \<open>loads\<close> states what it is to load: an inductive
  predicate, so a derivation is finite and no import cycle has one.
\<close>

section \<open>Paths and the file system\<close>

text \<open>\<^verbatim>\<open>Path::parent\<close>, \<^verbatim>\<open>Path::file_name\<close> and \<^verbatim>\<open>Path::join\<close> on normalised Unix paths.\<close>

definition path_parent :: "string \<Rightarrow> string option" where
  "path_parent p =
     (if p = [] \<or> p = ''/'' then None
      else case rfind_char (CHR ''/'') p of
        None \<Rightarrow> Some []
      | Some i \<Rightarrow> Some (if i = 0 then ''/'' else take i p))"

definition path_file_name :: "string \<Rightarrow> string option" where
  "path_file_name p =
     (let name = (case rfind_char (CHR ''/'') p of None \<Rightarrow> p | Some i \<Rightarrow> drop (i + 1) p)
      in if name = [] \<or> name = ''..'' then None else Some name)"

definition path_join :: "string \<Rightarrow> string \<Rightarrow> string" where
  "path_join dir p =
     (if starts_with ''/'' p then p
      else if dir = [] \<or> last dir = CHR ''/'' then dir @ p
      else dir @ ''/'' @ p)"

text \<open>
  What the operating system answers: \<^verbatim>\<open>fs::canonicalize\<close> and \<^verbatim>\<open>fs::read_to_string\<close>, an error
  as its printed form.
\<close>

record file_system =
  fs_canonicalize :: "string \<Rightarrow> string + string"
  fs_read :: "string \<Rightarrow> string + string"

definition resolve_import_path :: "file_system \<Rightarrow> string \<Rightarrow> string \<Rightarrow> web_pipe_error + string" where
  "resolve_import_path fs current_file import_path =
     (case path_parent current_file of
        None \<Rightarrow> Inl (ImportNotFound (''Cannot determine parent directory of '' @ [CHR 0x27] @ current_file @ [CHR 0x27]))
      | Some current_dir \<Rightarrow>
          (case fs_canonicalize fs (path_join current_dir import_path) of
             Inl e \<Rightarrow> Inl (ImportNotFound (''Cannot resolve import '' @ [CHR 0x27] @ import_path @ [CHR 0x27] @
               '' from '' @ [CHR 0x27] @ current_file @ [CHR 0x27] @ '': '' @ e))
           | Inr abs_path \<Rightarrow> Inr abs_path))"

section \<open>Loading a module\<close>

record module_loader =
  ml_cache :: "string \<rightharpoonup> program"
  ml_loading_stack :: "string list"

definition module_loader_new :: module_loader where
  "module_loader_new = \<lparr> ml_cache = Map.empty, ml_loading_stack = [] \<rparr>"

definition get_cached :: "module_loader \<Rightarrow> string \<Rightarrow> program option" where
  "get_cached ld path = ml_cache ld path"

definition clear_cache :: "module_loader \<Rightarrow> module_loader" where
  "clear_cache ld = ld\<lparr>ml_cache := Map.empty\<rparr>"

definition format_import_cycle :: "module_loader \<Rightarrow> string \<Rightarrow> string" where
  "format_import_cycle ld target =
     (let cycle_parts = map (\<lambda>p. case path_file_name p of None \<Rightarrow> ''?'' | Some n \<Rightarrow> n)
            (dropWhile (\<lambda>p. p \<noteq> target) (ml_loading_stack ld))
      in join '' -> '' (cycle_parts @ (case path_file_name target of None \<Rightarrow> [] | Some n \<Rightarrow> [n])))"

definition canonical :: "file_system \<Rightarrow> string \<Rightarrow> web_pipe_error + string" where
  "canonical fs path =
     (case fs_canonicalize fs path of
        Inl e \<Rightarrow> Inl (ImportNotFound (''Cannot resolve path '' @ [CHR 0x27] @ path @ [CHR 0x27] @ '': '' @ e))
      | Inr abs_path \<Rightarrow> Inr abs_path)"

text \<open>Reading and parsing, with the errors of the two calls.\<close>

definition read_module :: "file_system \<Rightarrow> (string \<Rightarrow> string + program) \<Rightarrow> string \<Rightarrow> web_pipe_error + program" where
  "read_module fs parse abs_path =
     (case fs_read fs abs_path of
        Inl e \<Rightarrow> Inl (ImportNotFound (''Cannot read file '' @ [CHR 0x27] @ abs_path @ [CHR 0x27] @ '': '' @ e))
      | Inr content \<Rightarrow>
          (case parse content of
             Inl e \<Rightarrow> Inl (ParseError (''Failed to parse '' @ [CHR 0x27] @ abs_path @ [CHR 0x27] @ '': '' @ e))
           | Inr prog \<Rightarrow> Inr prog))"

primrec load_imports ::
  "import_stmt list \<Rightarrow> (string \<Rightarrow> module_loader \<Rightarrow> ((web_pipe_error + program) \<times> module_loader) option) \<Rightarrow>
   file_system \<Rightarrow> string \<Rightarrow> module_loader \<Rightarrow> ((web_pipe_error + unit) \<times> module_loader) option" where
  "load_imports [] load fs abs_path ld = Some (Inr (), ld)"
| "load_imports (i # is) load fs abs_path ld =
     (case resolve_import_path fs abs_path (imp_path i) of
        Inl e \<Rightarrow> Some (Inl e, ld)
      | Inr import_path \<Rightarrow>
          (case load import_path ld of
             None \<Rightarrow> None
           | Some (Inl e, ld') \<Rightarrow> Some (Inl e, ld')
           | Some (Inr _, ld') \<Rightarrow> load_imports is load fs abs_path ld'))"

fun load_module ::
  "file_system \<Rightarrow> (string \<Rightarrow> string + program) \<Rightarrow> nat \<Rightarrow> string \<Rightarrow> module_loader \<Rightarrow>
   ((web_pipe_error + program) \<times> module_loader) option" where
  "load_module fs parse 0 path ld = None"
| "load_module fs parse (Suc fuel) path ld =
     (case canonical fs path of
        Inl e \<Rightarrow> Some (Inl e, ld)
      | Inr abs_path \<Rightarrow>
          (case ml_cache ld abs_path of
             Some prog \<Rightarrow> Some (Inr prog, ld)
           | None \<Rightarrow>
               if abs_path \<in> set (ml_loading_stack ld)
               then Some (Inl (CircularImport (format_import_cycle ld abs_path)), ld)
               else
                 let ld1 = ld\<lparr>ml_loading_stack := ml_loading_stack ld @ [abs_path]\<rparr>
                 in case read_module fs parse abs_path of
                      Inl e \<Rightarrow> Some (Inl e, ld1)
                    | Inr prog \<Rightarrow>
                        (case load_imports (pr_imports prog) (load_module fs parse fuel) fs abs_path ld1 of
                           None \<Rightarrow> None
                         | Some (Inl e, ld2) \<Rightarrow> Some (Inl e, ld2)
                         | Some (Inr _, ld2) \<Rightarrow>
                             Some (Inr prog, ld2\<lparr>ml_loading_stack := butlast (ml_loading_stack ld2),
                                                ml_cache := (ml_cache ld2)(abs_path \<mapsto> prog)\<rparr>))))"

section \<open>The tree of modules below a root\<close>

record module_info =
  mi_path :: string
  mi_program :: program
  mi_imports :: "string \<rightharpoonup> string"

type_synonym module_tree = "string \<rightharpoonup> module_info"

primrec collect_imports ::
  "import_stmt list \<Rightarrow>
   (string \<Rightarrow> module_tree \<Rightarrow> module_loader \<Rightarrow> ((web_pipe_error + module_tree) \<times> module_loader) option) \<Rightarrow>
   file_system \<Rightarrow> string \<Rightarrow> (string \<rightharpoonup> string) \<Rightarrow> module_tree \<Rightarrow> module_loader \<Rightarrow>
   ((web_pipe_error + (string \<rightharpoonup> string) \<times> module_tree) \<times> module_loader) option" where
  "collect_imports [] load fs abs_path import_map reg ld = Some (Inr (import_map, reg), ld)"
| "collect_imports (i # is) load fs abs_path import_map reg ld =
     (case resolve_import_path fs abs_path (imp_path i) of
        Inl e \<Rightarrow> Some (Inl e, ld)
      | Inr import_abs_path \<Rightarrow>
          (case load import_abs_path reg ld of
             None \<Rightarrow> None
           | Some (Inl e, ld') \<Rightarrow> Some (Inl e, ld')
           | Some (Inr reg', ld') \<Rightarrow>
               collect_imports is load fs abs_path (import_map(imp_alias i \<mapsto> import_abs_path)) reg' ld'))"

fun load_recursive ::
  "file_system \<Rightarrow> (string \<Rightarrow> string + program) \<Rightarrow> nat \<Rightarrow> nat \<Rightarrow> string \<Rightarrow> module_tree \<Rightarrow> module_loader \<Rightarrow>
   ((web_pipe_error + module_tree) \<times> module_loader) option" where
  "load_recursive fs parse fuel 0 path reg ld = None"
| "load_recursive fs parse fuel (Suc n) path reg ld =
     (case canonical fs path of
        Inl e \<Rightarrow> Some (Inl e, ld)
      | Inr abs_path \<Rightarrow>
          if reg abs_path \<noteq> None then Some (Inr reg, ld)
          else
            (case load_module fs parse fuel abs_path ld of
               None \<Rightarrow> None
             | Some (Inl e, ld1) \<Rightarrow> Some (Inl e, ld1)
             | Some (Inr prog, ld1) \<Rightarrow>
                 (case collect_imports (pr_imports prog) (load_recursive fs parse fuel n) fs abs_path
                         Map.empty reg ld1 of
                    None \<Rightarrow> None
                  | Some (Inl e, ld2) \<Rightarrow> Some (Inl e, ld2)
                  | Some (Inr (import_map, reg'), ld2) \<Rightarrow>
                      Some (Inr (reg'(abs_path \<mapsto> \<lparr> mi_path = abs_path, mi_program = prog,
                                                       mi_imports = import_map \<rparr>)), ld2))))"

definition load_module_tree ::
  "file_system \<Rightarrow> (string \<Rightarrow> string + program) \<Rightarrow> nat \<Rightarrow> string \<Rightarrow> module_loader \<Rightarrow>
   ((web_pipe_error + module_tree) \<times> module_loader) option" where
  "load_module_tree fs parse fuel root_path ld = load_recursive fs parse fuel fuel root_path Map.empty ld"


section \<open>What it is to load\<close>

text \<open>One file imports another.\<close>

definition imports_file :: "file_system \<Rightarrow> (string \<Rightarrow> string + program) \<Rightarrow> string \<Rightarrow> string \<Rightarrow> bool" where
  "imports_file fs parse a b \<longleftrightarrow>
     (\<exists>prog. read_module fs parse a = Inr prog \<and>
        (\<exists>i \<in> set (pr_imports prog). resolve_import_path fs a (imp_path i) = Inr b))"

text \<open>A module loads when its file parses, its imports resolve and they load in turn.\<close>

inductive loads :: "file_system \<Rightarrow> (string \<Rightarrow> string + program) \<Rightarrow> string \<Rightarrow> program \<Rightarrow> bool"
  for fs :: file_system and parse :: "string \<Rightarrow> string + program" where
  loads: "read_module fs parse a = Inr prog \<Longrightarrow>
    (\<And>i. i \<in> set (pr_imports prog) \<Longrightarrow>
       \<exists>b q. resolve_import_path fs a (imp_path i) = Inr b \<and> loads fs parse b q) \<Longrightarrow>
    loads fs parse a prog"

inductive_cases loadsE: "loads fs parse a prog"

text \<open>Canonical paths are their own canonical form, and there are finitely many files.\<close>

definition files_ok :: "file_system \<Rightarrow> string set \<Rightarrow> bool" where
  "files_ok fs files \<longleftrightarrow> finite files \<and>
     (\<forall>p a. fs_canonicalize fs p = Inr a \<longrightarrow> a \<in> files \<and> fs_canonicalize fs a = Inr a)"

lemma canonical_resolved:
  "files_ok fs files \<Longrightarrow> resolve_import_path fs a p = Inr b \<Longrightarrow> canonical fs b = Inr b"
  by (auto simp: files_ok_def resolve_import_path_def canonical_def split: option.splits sum.splits)

lemma canonical_file:
  "files_ok fs files \<Longrightarrow> canonical fs p = Inr a \<Longrightarrow> a \<in> files \<and> canonical fs a = Inr a"
  by (auto simp: files_ok_def canonical_def split: sum.splits)

lemma loads_read: "loads fs parse a prog \<Longrightarrow> read_module fs parse a = Inr prog"
  by (erule loadsE)

lemma loads_resolves:
  "loads fs parse a prog \<Longrightarrow> i \<in> set (pr_imports prog) \<Longrightarrow> \<exists>b. resolve_import_path fs a (imp_path i) = Inr b"
  by (erule loadsE) blast

lemma loads_import:
  "loads fs parse a prog \<Longrightarrow> imports_file fs parse a b \<Longrightarrow> \<exists>q. loads fs parse b q"
  by (erule loadsE) (fastforce simp: imports_file_def)

text \<open>No module that loads is on an import cycle.\<close>

lemma loads_accessible: "loads fs parse a prog \<Longrightarrow> Wellfounded.accp (\<lambda>x y. imports_file fs parse y x) a"
proof (induction rule: loads.induct)
  case (loads a prog)
  show ?case
  proof (rule accp.intros)
    fix b assume "imports_file fs parse a b"
    with loads show "Wellfounded.accp (\<lambda>x y. imports_file fs parse y x) b"
      by (fastforce simp: imports_file_def)
  qed
qed

lemma accessible_acyclic: "Wellfounded.accp (\<lambda>x y. r y x) a \<Longrightarrow> \<not> r\<^sup>+\<^sup>+ a a"
proof (induction rule: accp.induct)
  case (accI a)
  show ?case
  proof
    assume "r\<^sup>+\<^sup>+ a a"
    then obtain b where b: "r a b" "r\<^sup>*\<^sup>* b a" by (meson tranclpD)
    then have "r\<^sup>+\<^sup>+ b b" by (meson rtranclp_into_tranclp1)
    with accI(2) b(1) show False by blast
  qed
qed

lemma loads_acyclic: "loads fs parse a prog \<Longrightarrow> \<not> (imports_file fs parse)\<^sup>+\<^sup>+ a a"
  by (rule accessible_acyclic [OF loads_accessible])

lemma loads_reachable: "(imports_file fs parse)\<^sup>*\<^sup>* a b \<Longrightarrow> loads fs parse a prog \<Longrightarrow> \<exists>q. loads fs parse b q"
  by (induction arbitrary: prog rule: rtranclp_induct) (blast dest: loads_import)+

section \<open>The loader decides it\<close>

definition cache_sound :: "file_system \<Rightarrow> (string \<Rightarrow> string + program) \<Rightarrow> module_loader \<Rightarrow> bool" where
  "cache_sound fs parse ld \<longleftrightarrow> (\<forall>a prog. ml_cache ld a = Some prog \<longrightarrow> loads fs parse a prog)"

text \<open>The files being loaded import, directly or not, the one to load next.\<close>

definition stack_leads_to :: "file_system \<Rightarrow> (string \<Rightarrow> string + program) \<Rightarrow> module_loader \<Rightarrow> string \<Rightarrow> bool" where
  "stack_leads_to fs parse ld a \<longleftrightarrow> (\<forall>s \<in> set (ml_loading_stack ld). (imports_file fs parse)\<^sup>+\<^sup>+ s a)"

definition loaded_ok ::
  "file_system \<Rightarrow> (string \<Rightarrow> string + program) \<Rightarrow> string \<Rightarrow> module_loader \<Rightarrow>
   (web_pipe_error + program) \<times> module_loader \<Rightarrow> bool" where
  "loaded_ok fs parse a ld out =
     (case out of
        (Inr prog, ld') \<Rightarrow> loads fs parse a prog \<and> cache_sound fs parse ld' \<and>
          ml_loading_stack ld' = ml_loading_stack ld
      | (Inl e, ld') \<Rightarrow> (\<nexists>prog. loads fs parse a prog))"

lemma load_imports_ok:
  assumes ok: "\<And>b ld. stack_leads_to fs parse ld b \<Longrightarrow> cache_sound fs parse ld \<Longrightarrow> canonical fs b = Inr b \<Longrightarrow>
      ml_loading_stack ld = stack \<Longrightarrow> \<exists>out. load b ld = Some out \<and> loaded_ok fs parse b ld out"
    and files: "files_ok fs files" and prog: "read_module fs parse a = Inr prog"
  shows "set is \<subseteq> set (pr_imports prog) \<Longrightarrow> cache_sound fs parse ld \<Longrightarrow> ml_loading_stack ld = stack \<Longrightarrow>
    (\<And>s. s \<in> set stack \<Longrightarrow> (imports_file fs parse)\<^sup>*\<^sup>* s a) \<Longrightarrow>
    \<exists>r ld'. load_imports is load fs a ld = Some (r, ld') \<and>
      (case r of
         Inl e \<Rightarrow> \<exists>i \<in> set is. \<nexists>b q. resolve_import_path fs a (imp_path i) = Inr b \<and> loads fs parse b q
       | Inr _ \<Rightarrow> (\<forall>i \<in> set is. \<exists>b q. resolve_import_path fs a (imp_path i) = Inr b \<and> loads fs parse b q) \<and>
           cache_sound fs parse ld' \<and> ml_loading_stack ld' = stack)"
proof (induction "is" arbitrary: ld)
  case (Cons i "is")
  show ?case
  proof (cases "resolve_import_path fs a (imp_path i)")
    case (Inr b)
    have edge: "imports_file fs parse a b"
      using Cons.prems(1) Inr prog by (auto simp: imports_file_def)
    have "stack_leads_to fs parse ld b"
      unfolding stack_leads_to_def using Cons.prems(3,4) edge by (blast intro: rtranclp_into_tranclp1)
    then obtain r ld' where out: "load b ld = Some (r, ld')" "loaded_ok fs parse b ld (r, ld')"
      using ok Cons.prems canonical_resolved [OF files Inr] by fastforce
    show ?thesis
    proof (cases r)
      case (Inl e)
      with out Inr \<open>resolve_import_path fs a (imp_path i) = Inr b\<close> show ?thesis
        by (auto simp: loaded_ok_def)
    next
      case (Inr q)
      then have "loads fs parse b q" "cache_sound fs parse ld'" "ml_loading_stack ld' = stack"
        using out(2) Cons.prems(3) by (auto simp: loaded_ok_def)
      with Cons.IH [of ld'] Cons.prems out(1) Inr \<open>resolve_import_path fs a (imp_path i) = Inr b\<close>
      show ?thesis by (fastforce split: sum.splits)
    qed
  qed auto
qed simp


lemma load_module_ok:
  assumes files: "files_ok fs files"
  shows "stack_leads_to fs parse ld a \<Longrightarrow> cache_sound fs parse ld \<Longrightarrow> canonical fs path = Inr a \<Longrightarrow>
    distinct (ml_loading_stack ld) \<Longrightarrow> set (ml_loading_stack ld) \<subseteq> files \<Longrightarrow>
    card files < fuel + length (ml_loading_stack ld) \<Longrightarrow>
    \<exists>out. load_module fs parse fuel path ld = Some out \<and> loaded_ok fs parse a ld out"
proof (induction fuel arbitrary: path a ld)
  case 0
  then show ?case
    using card_mono [of files "set (ml_loading_stack ld)"] files
    by (simp add: distinct_card files_ok_def)
next
  case (Suc n)
  let ?st = "ml_loading_stack ld"
  consider (hit) prog where "ml_cache ld a = Some prog" | (cycle) "ml_cache ld a = None" "a \<in> set ?st"
    | (fresh) "ml_cache ld a = None" "a \<notin> set ?st" by fastforce
  then show ?case
  proof cases
    case hit
    with Suc.prems(2,3) show ?thesis by (simp add: loaded_ok_def cache_sound_def)
  next
    case cycle
    then have "(imports_file fs parse)\<^sup>+\<^sup>+ a a" using Suc.prems(1) by (simp add: stack_leads_to_def)
    with cycle Suc.prems(3) show ?thesis by (auto simp: loaded_ok_def dest: loads_acyclic)
  next
    case fresh
    define ld1 where "ld1 = ld\<lparr>ml_loading_stack := ?st @ [a]\<rparr>"
    have ld1: "cache_sound fs parse ld1" "ml_loading_stack ld1 = ?st @ [a]"
      using Suc.prems(2) by (simp_all add: ld1_def cache_sound_def)
    show ?thesis
    proof (cases "read_module fs parse a")
      case (Inl e)
      with fresh Suc.prems(3) show ?thesis by (auto simp: loaded_ok_def dest: loads_read)
    next
      case (Inr prog)
      have a: "a \<in> files" using canonical_file [OF files Suc.prems(3)] by simp
      have sub: "\<exists>out. load_module fs parse n b ld' = Some out \<and> loaded_ok fs parse b ld' out"
        if "stack_leads_to fs parse ld' b" "cache_sound fs parse ld'" "canonical fs b = Inr b"
          "ml_loading_stack ld' = ?st @ [a]" for b ld'
        by (rule Suc.IH [OF that(1-3)]) (use that(4) fresh(2) a Suc.prems(4-6) in auto)
      have reach: "(imports_file fs parse)\<^sup>*\<^sup>* s a" if "s \<in> set (?st @ [a])" for s
        using that Suc.prems(1) by (auto simp: stack_leads_to_def)
      from load_imports_ok [OF sub files Inr subset_refl ld1 reach]
      obtain r ld' where run: "load_imports (pr_imports prog) (load_module fs parse n) fs a ld1 = Some (r, ld')"
        and r: "case r of
             Inl e \<Rightarrow> \<exists>i \<in> set (pr_imports prog). \<nexists>b q. resolve_import_path fs a (imp_path i) = Inr b \<and> loads fs parse b q
           | Inr _ \<Rightarrow> (\<forall>i \<in> set (pr_imports prog). \<exists>b q. resolve_import_path fs a (imp_path i) = Inr b \<and> loads fs parse b q) \<and>
               cache_sound fs parse ld' \<and> ml_loading_stack ld' = ?st @ [a]"
        by blast
      show ?thesis
      proof (cases r)
        case (Inl e)
        have "\<nexists>p. loads fs parse a p" using r Inl \<open>read_module fs parse a = Inr prog\<close> by (fastforce elim: loadsE)
        then show ?thesis
          using fresh Suc.prems(3) \<open>read_module fs parse a = Inr prog\<close> run Inl by (simp add: ld1_def loaded_ok_def)
      next
        case (Inr u)
        have "loads fs parse a prog"
          by (rule loads.loads [OF \<open>read_module fs parse a = Inr prog\<close>]) (use r Inr in auto)
        then show ?thesis
          using fresh Suc.prems(3) \<open>read_module fs parse a = Inr prog\<close> run Inr r
          by (simp add: ld1_def loaded_ok_def cache_sound_def)
      qed
    qed
  qed
qed

text \<open>
  C30: A load returns, and a module loads exactly when it has a finite derivation: every file below
  it parses, every import resolves, and no file imports itself, directly or through others. Then
  the result is the parsed file and the stack of files being loaded is empty again.
\<close>

theorem load_module_decides:
  assumes "files_ok fs files" and "canonical fs path = Inr a" and "card files < fuel"
  shows "\<exists>r ld'. load_module fs parse fuel path module_loader_new = Some (r, ld') \<and>
    (case r of
       Inr prog \<Rightarrow> loads fs parse a prog \<and> ml_loading_stack ld' = [] \<and> \<not> (imports_file fs parse)\<^sup>+\<^sup>+ a a
     | Inl e \<Rightarrow> \<forall>prog. \<not> loads fs parse a prog)"
proof -
  have "stack_leads_to fs parse module_loader_new a" "cache_sound fs parse module_loader_new"
    by (simp_all add: stack_leads_to_def cache_sound_def module_loader_new_def)
  from load_module_ok [OF assms(1) this assms(2), of fuel] assms(3)
  obtain r ld' where "load_module fs parse fuel path module_loader_new = Some (r, ld')"
    "loaded_ok fs parse a module_loader_new (r, ld')"
    by (auto simp: module_loader_new_def)
  then show ?thesis
    by (auto simp: loaded_ok_def module_loader_new_def loads_acyclic split: sum.splits)
qed

section \<open>A failed load\<close>

text \<open>
  What a load does to the loader: the stack is only extended, and put back on success; a file on
  the stack gets no cache entry.
\<close>

definition load_frame ::
  "module_loader \<Rightarrow> ((web_pipe_error + 'a) \<times> module_loader) option \<Rightarrow> bool" where
  "load_frame ld out \<longleftrightarrow>
     (\<forall>r ld'. out = Some (r, ld') \<longrightarrow>
        (\<exists>ext. ml_loading_stack ld' = ml_loading_stack ld @ ext \<and> ((\<exists>x. r = Inr x) \<longrightarrow> ext = [])) \<and>
        (\<forall>s \<in> set (ml_loading_stack ld). ml_cache ld' s = ml_cache ld s))"

lemma load_frame_same: "load_frame ld (Some (r, ld))"
  by (simp add: load_frame_def)

lemma load_frame_trans:
  "load_frame ld (Some (Inr x, ld1)) \<Longrightarrow> load_frame ld1 out \<Longrightarrow> load_frame ld out"
  by (auto simp: load_frame_def)

lemma load_frame_error: "load_frame ld (Some (Inl e, ld1)) \<Longrightarrow> load_frame ld (Some (Inl e', ld1))"
  by (simp add: load_frame_def)

lemma load_imports_frame:
  assumes "\<And>b ld. load_frame ld (load b ld)"
  shows "load_frame ld (load_imports is load fs a ld)"
proof (induction "is" arbitrary: ld)
  case (Cons i "is")
  show ?case
  proof (cases "resolve_import_path fs a (imp_path i)")
    case (Inr b)
    have out: "load_frame ld (load b ld)" by (rule assms)
    show ?thesis
    proof (cases "load b ld")
      case (Some p)
      then obtain r ld1 where p: "load b ld = Some (r, ld1)" by (cases p) simp
      with out Inr show ?thesis
        by (cases r) (auto intro: load_frame_error load_frame_trans [OF _ Cons.IH])
    qed (simp add: Inr load_frame_def)
  qed (simp add: load_frame_same)
qed (simp add: load_frame_same)

lemma load_module_frame: "load_frame ld (load_module fs parse fuel path ld)"
proof (induction fuel arbitrary: path ld)
  case (Suc n)
  let ?ld1 = "\<lambda>a. ld\<lparr>ml_loading_stack := ml_loading_stack ld @ [a]\<rparr>"
  have sub: "load_frame (?ld1 a) (load_imports is (load_module fs parse n) fs a (?ld1 a))" for a "is"
    by (rule load_imports_frame) (rule Suc.IH)
  show ?case
    by (auto simp: load_frame_same Let_def split: option.splits sum.splits prod.splits)
      (use sub in \<open>fastforce simp: load_frame_def butlast_append\<close>)+
qed (simp add: load_frame_def)

text \<open>
  A load that fails leaves its file on the stack of files being loaded. From then on the same
  loader answers a circular import for it, whatever the files contain and however they are read.
\<close>

theorem failed_load_blocks_reload:
  assumes "load_module fs parse fuel path ld = Some (Inl e, ld')" and "canonical fs path = Inr a"
    and "ml_cache ld a = None" and "canonical fs' path' = Inr a"
  shows "load_module fs' parse' (Suc n) path' ld' =
    Some (Inl (CircularImport (format_import_cycle ld' a)), ld')"
proof -
  let ?ld1 = "ld\<lparr>ml_loading_stack := ml_loading_stack ld @ [a]\<rparr>"
  obtain k where k: "fuel = Suc k" using assms(1) by (cases fuel) auto
  have sub: "load_frame ?ld1 (load_imports is (load_module fs parse k) fs a ?ld1)" for "is"
    by (rule load_imports_frame) (rule load_module_frame)
  have "a \<in> set (ml_loading_stack ld') \<and> ml_cache ld' a = None"
    using assms(1-3)
    by (auto simp: k Let_def split: if_splits option.splits sum.splits prod.splits)
      (use sub in \<open>fastforce simp: load_frame_def\<close>)+
  then show ?thesis using assms(4) by simp
qed


section \<open>The tree holds what is reachable\<close>

definition bind_alias :: "file_system \<Rightarrow> string \<Rightarrow> import_stmt \<Rightarrow> (string \<rightharpoonup> string) \<Rightarrow> (string \<rightharpoonup> string)" where
  "bind_alias fs a i m =
     (case resolve_import_path fs a (imp_path i) of Inl e \<Rightarrow> m | Inr b \<Rightarrow> m(imp_alias i \<mapsto> b))"

definition info_of :: "file_system \<Rightarrow> string \<Rightarrow> program \<Rightarrow> module_info" where
  "info_of fs a prog = \<lparr> mi_path = a, mi_program = prog,
     mi_imports = fold (bind_alias fs a) (pr_imports prog) Map.empty \<rparr>"

definition below :: "file_system \<Rightarrow> (string \<Rightarrow> string + program) \<Rightarrow> string \<Rightarrow> string set" where
  "below fs parse a = {b. (imports_file fs parse)\<^sup>*\<^sup>* a b}"

definition tree_ok ::
  "file_system \<Rightarrow> (string \<Rightarrow> string + program) \<Rightarrow> module_tree \<Rightarrow> module_loader \<Rightarrow> bool" where
  "tree_ok fs parse reg ld \<longleftrightarrow> cache_sound fs parse ld \<and> ml_loading_stack ld = [] \<and>
     (\<forall>a info. reg a = Some info \<longrightarrow> (\<exists>prog. read_module fs parse a = Inr prog \<and> info = info_of fs a prog)) \<and>
     (\<forall>a b. a \<in> dom reg \<longrightarrow> imports_file fs parse a b \<longrightarrow> b \<in> dom reg)"

lemma below_unfold:
  assumes "read_module fs parse a = Inr prog"
  shows "below fs parse a = insert a (\<Union>i \<in> set (pr_imports prog).
    {c. \<exists>b. resolve_import_path fs a (imp_path i) = Inr b \<and> c \<in> below fs parse b})"
proof -
  have "below fs parse a = insert a (\<Union>b \<in> Collect (imports_file fs parse a). below fs parse b)"
  proof (rule set_eqI)
    fix c
    have "c \<in> below fs parse a \<longleftrightarrow> c = a \<or> (\<exists>b. imports_file fs parse a b \<and> c \<in> below fs parse b)"
      unfolding below_def mem_Collect_eq
      by (rule iffI, erule converse_rtranclpE) (auto intro: converse_rtranclp_into_rtranclp)
    then show "c \<in> below fs parse a \<longleftrightarrow> c \<in> insert a (\<Union>b \<in> Collect (imports_file fs parse a). below fs parse b)"
      by simp
  qed
  moreover have "Collect (imports_file fs parse a) =
      {b. \<exists>i \<in> set (pr_imports prog). resolve_import_path fs a (imp_path i) = Inr b}"
    using assms by (auto simp: imports_file_def)
  ultimately show ?thesis by auto
qed

lemma tree_ok_closed: "tree_ok fs parse reg ld \<Longrightarrow> a \<in> dom reg \<Longrightarrow> below fs parse a \<subseteq> dom reg"
proof
  fix b assume "tree_ok fs parse reg ld" "a \<in> dom reg" "b \<in> below fs parse a"
  from this(3) have "(imports_file fs parse)\<^sup>*\<^sup>* a b" by (simp add: below_def)
  then show "b \<in> dom reg"
    by (induction rule: rtranclp_induct) (use \<open>tree_ok fs parse reg ld\<close> \<open>a \<in> dom reg\<close> in \<open>auto simp: tree_ok_def\<close>)
qed

text \<open>A strictly decreasing measure along imports: the number of files below.\<close>

definition files_below :: "file_system \<Rightarrow> (string \<Rightarrow> string + program) \<Rightarrow> string \<Rightarrow> nat" where
  "files_below fs parse a = card {b. (imports_file fs parse)\<^sup>+\<^sup>+ a b}"

lemma imported_file: "files_ok fs files \<Longrightarrow> imports_file fs parse a b \<Longrightarrow> b \<in> files"
  using canonical_resolved canonical_file by (fastforce simp: imports_file_def)

lemma below_files: "files_ok fs files \<Longrightarrow> {b. (imports_file fs parse)\<^sup>+\<^sup>+ a b} \<subseteq> files"
  by (auto elim: tranclp.cases dest: imported_file)

lemma files_below_less:
  assumes "files_ok fs files" and "loads fs parse a prog" and "imports_file fs parse a b"
  shows "files_below fs parse b < files_below fs parse a"
  unfolding files_below_def
proof (rule psubset_card_mono)
  show "finite {c. (imports_file fs parse)\<^sup>+\<^sup>+ a c}"
    using below_files [OF assms(1)] assms(1) finite_subset by (metis files_ok_def)
  obtain q where "loads fs parse b q" using loads_import [OF assms(2,3)] by blast
  then have "\<not> (imports_file fs parse)\<^sup>+\<^sup>+ b b" by (rule loads_acyclic)
  moreover have "(imports_file fs parse)\<^sup>+\<^sup>+ a b" using assms(3) by (rule tranclp.r_into_trancl)
  moreover have "(imports_file fs parse)\<^sup>+\<^sup>+ a c" if "(imports_file fs parse)\<^sup>+\<^sup>+ b c" for c
    using assms(3) that by (rule tranclp_into_tranclp2)
  ultimately show "{c. (imports_file fs parse)\<^sup>+\<^sup>+ b c} \<subset> {c. (imports_file fs parse)\<^sup>+\<^sup>+ a c}" by blast
qed

lemma collect_imports_ok:
  assumes sub: "\<And>b reg ld. imports_file fs parse a b \<Longrightarrow> canonical fs b = Inr b \<Longrightarrow> tree_ok fs parse reg ld \<Longrightarrow>
      \<exists>reg' ld'. load b reg ld = Some (Inr reg', ld') \<and> tree_ok fs parse reg' ld' \<and>
        dom reg' = dom reg \<union> below fs parse b"
    and files: "files_ok fs files" and a: "loads fs parse a prog"
  shows "set is \<subseteq> set (pr_imports prog) \<Longrightarrow> tree_ok fs parse reg ld \<Longrightarrow>
    \<exists>reg' ld'. collect_imports is load fs a m reg ld = Some (Inr (fold (bind_alias fs a) is m, reg'), ld') \<and>
      tree_ok fs parse reg' ld' \<and>
      dom reg' = dom reg \<union> (\<Union>i \<in> set is. {c. \<exists>b. resolve_import_path fs a (imp_path i) = Inr b \<and> c \<in> below fs parse b})"
proof (induction "is" arbitrary: m reg ld)
  case (Cons i "is")
  obtain b where b: "resolve_import_path fs a (imp_path i) = Inr b"
    using Cons.prems(1) loads_resolves [OF a, of i] by auto
  have "imports_file fs parse a b"
    using b Cons.prems(1) loads_read [OF a] by (auto simp: imports_file_def)
  from sub [OF this canonical_resolved [OF files b] Cons.prems(2)]
  obtain reg1 ld1 where 1: "load b reg ld = Some (Inr reg1, ld1)" "tree_ok fs parse reg1 ld1"
    "dom reg1 = dom reg \<union> below fs parse b" by blast
  have "set is \<subseteq> set (pr_imports prog)" using Cons.prems(1) by simp
  from Cons.IH [OF this 1(2), of "m(imp_alias i \<mapsto> b)"]
  obtain reg2 ld2 where 2: "collect_imports is load fs a (m(imp_alias i \<mapsto> b)) reg1 ld1 =
      Some (Inr (fold (bind_alias fs a) is (m(imp_alias i \<mapsto> b)), reg2), ld2)" "tree_ok fs parse reg2 ld2"
    "dom reg2 = dom reg1 \<union>
      (\<Union>i \<in> set is. {c. \<exists>b. resolve_import_path fs a (imp_path i) = Inr b \<and> c \<in> below fs parse b})"
    by blast
  have "bind_alias fs a i m = m(imp_alias i \<mapsto> b)" by (simp add: bind_alias_def b)
  with 1 2 b show ?case by auto
qed simp

lemma load_recursive_ok:
  assumes files: "files_ok fs files" and fuel: "card files < fuel"
  shows "loads fs parse a prog \<Longrightarrow> canonical fs path = Inr a \<Longrightarrow> tree_ok fs parse reg ld \<Longrightarrow>
    files_below fs parse a < n \<Longrightarrow>
    \<exists>reg' ld'. load_recursive fs parse fuel n path reg ld = Some (Inr reg', ld') \<and> tree_ok fs parse reg' ld' \<and>
      dom reg' = dom reg \<union> below fs parse a"
proof (induction n arbitrary: a prog path reg ld)
  case (Suc n)
  have canon: "canonical fs a = Inr a" using canonical_file [OF files Suc.prems(2)] by simp
  show ?case
  proof (cases "a \<in> dom reg")
    case True
    with Suc.prems tree_ok_closed [OF Suc.prems(3) True] show ?thesis by auto
  next
    case False
    have lead: "stack_leads_to fs parse ld a" "cache_sound fs parse ld" and stack: "ml_loading_stack ld = []"
      using Suc.prems(3) by (simp_all add: tree_ok_def stack_leads_to_def)
    from load_module_ok [OF files lead canon, of fuel] fuel stack
    obtain r ld1 where r: "load_module fs parse fuel a ld = Some (r, ld1)" "loaded_ok fs parse a ld (r, ld1)"
      by auto
    then obtain p where p: "r = Inr p" "loads fs parse a p"
      using Suc.prems(1) by (cases r) (auto simp: loaded_ok_def)
    have "p = prog" using loads_read [OF p(2)] loads_read [OF Suc.prems(1)] by simp
    with r p stack have 1: "load_module fs parse fuel a ld = Some (Inr prog, ld1)"
      "cache_sound fs parse ld1" "ml_loading_stack ld1 = []"
      by (simp_all add: loaded_ok_def)
    have inv1: "tree_ok fs parse reg ld1" using Suc.prems(3) 1 by (simp add: tree_ok_def)
    have sub: "\<exists>reg' ld'. load_recursive fs parse fuel n b reg ld = Some (Inr reg', ld') \<and> tree_ok fs parse reg' ld' \<and>
        dom reg' = dom reg \<union> below fs parse b"
      if "imports_file fs parse a b" "canonical fs b = Inr b" "tree_ok fs parse reg ld" for b reg ld
    proof -
      note edge = that(1)
      obtain q where q: "loads fs parse b q" using loads_import [OF Suc.prems(1) edge] by blast
      show ?thesis
        using Suc.IH [OF q that(2,3)] files_below_less [OF files Suc.prems(1) that(1)] Suc.prems(4) by simp
    qed
    from collect_imports_ok [where load = "load_recursive fs parse fuel n" and m = Map.empty,
        OF sub files Suc.prems(1) subset_refl inv1]
    obtain reg' ld' where 2: "collect_imports (pr_imports prog) (load_recursive fs parse fuel n) fs a Map.empty reg ld1 =
        Some (Inr (mi_imports (info_of fs a prog), reg'), ld')" "tree_ok fs parse reg' ld'"
      "dom reg' = dom reg \<union> (\<Union>i \<in> set (pr_imports prog).
         {c. \<exists>b. resolve_import_path fs a (imp_path i) = Inr b \<and> c \<in> below fs parse b})"
      by (auto simp: info_of_def)
    have below: "below fs parse a = insert a (\<Union>i \<in> set (pr_imports prog).
         {c. \<exists>b. resolve_import_path fs a (imp_path i) = Inr b \<and> c \<in> below fs parse b})"
      by (rule below_unfold [OF loads_read [OF Suc.prems(1)]])
    have succ: "b \<in> dom reg'" if "imports_file fs parse a b" for b
    proof -
      have "b \<in> below fs parse a" using that by (simp add: below_def r_into_rtranclp)
      moreover have "b \<noteq> a" using that loads_acyclic [OF Suc.prems(1)] by blast
      ultimately show ?thesis using below 2(3) by auto
    qed
    have "load_recursive fs parse fuel (Suc n) path reg ld =
        Some (Inr (reg'(a \<mapsto> info_of fs a prog)), ld')"
      using False Suc.prems(2) 1(1) 2(1) by (simp add: domIff info_of_def)
    moreover have "tree_ok fs parse (reg'(a \<mapsto> info_of fs a prog)) ld'"
      using 2(2) succ loads_read [OF Suc.prems(1)] by (auto simp: tree_ok_def)
    moreover have "dom (reg'(a \<mapsto> info_of fs a prog)) = dom reg \<union> below fs parse a"
      using 2(3) below by auto
    ultimately show ?thesis by blast
  qed
qed simp

text \<open>
  The tree of a root whose imports load holds exactly the files reachable from it, each with its
  parsed program and its map from aliases to files; a root that does not load yields an error.
\<close>

theorem load_module_tree_reachable:
  assumes "files_ok fs files" and "canonical fs root = Inr a" and "card files < fuel"
  shows "\<exists>r ld'. load_module_tree fs parse fuel root module_loader_new = Some (r, ld') \<and>
    (case r of
       Inr tree \<Rightarrow> (\<exists>prog. loads fs parse a prog) \<and> dom tree = {b. (imports_file fs parse)\<^sup>*\<^sup>* a b} \<and>
         (\<forall>b info. tree b = Some info \<longrightarrow> (\<exists>prog. loads fs parse b prog \<and> info = info_of fs b prog))
     | Inl e \<Rightarrow> \<nexists>prog. loads fs parse a prog)"
proof (cases "\<exists>prog. loads fs parse a prog")
  case True
  then obtain prog where prog: "loads fs parse a prog" by blast
  have inv: "tree_ok fs parse Map.empty module_loader_new"
    by (simp add: tree_ok_def cache_sound_def module_loader_new_def)
  have "files_below fs parse a \<le> card files"
    unfolding files_below_def using below_files [OF assms(1)] assms(1) by (simp add: card_mono files_ok_def)
  then obtain tree ld' where r: "load_module_tree fs parse fuel root module_loader_new = Some (Inr tree, ld')"
    and ok: "tree_ok fs parse tree ld'" and d: "dom tree = below fs parse a"
    using load_recursive_ok [OF assms(1,3) prog assms(2) inv, of fuel] assms(3)
    by (auto simp: load_module_tree_def)
  have "\<exists>prog. loads fs parse b prog \<and> info = info_of fs b prog" if "tree b = Some info" for b info
  proof -
    have "(imports_file fs parse)\<^sup>*\<^sup>* a b" using d that by (auto simp: below_def)
    then obtain q where q: "loads fs parse b q" using loads_reachable [OF _ prog] by blast
    obtain p where "read_module fs parse b = Inr p" "info = info_of fs b p"
      using ok \<open>tree b = Some info\<close> unfolding tree_ok_def by blast
    with loads_read [OF q] q show ?thesis by auto
  qed
  with r d prog show ?thesis by (auto simp: below_def)
next
  case False
  obtain n where n: "fuel = Suc n" using assms(3) by (cases fuel) auto
  have canon: "canonical fs a = Inr a" using canonical_file [OF assms(1,2)] by simp
  have "stack_leads_to fs parse module_loader_new a" "cache_sound fs parse module_loader_new"
    by (simp_all add: stack_leads_to_def cache_sound_def module_loader_new_def)
  from load_module_ok [OF assms(1) this canon, of fuel] assms(3)
  obtain r ld' where "load_module fs parse fuel a module_loader_new = Some (r, ld')"
    "loaded_ok fs parse a module_loader_new (r, ld')"
    by (auto simp: module_loader_new_def)
  moreover from this(2) False obtain e where "r = Inl e" by (cases r) (auto simp: loaded_ok_def)
  ultimately have "load_module_tree fs parse fuel root module_loader_new = Some (Inl e, ld')"
    using assms(2) by (simp add: load_module_tree_def n)
  with False show ?thesis by simp
qed


section \<open>Two files\<close>

definition empty_program :: program where
  "empty_program = \<lparr> pr_configs = [], pr_imports = [], pr_pipelines = [], pr_variables = [], pr_routes = [],
     pr_describes = [], pr_graphql_schema = None, pr_queries = [], pr_mutations = [], pr_resolvers = [],
     pr_feature_flags = None \<rparr>"

text \<open>\<open>/a\<close> imports \<open>/b\<close>, which imports what it is given.\<close>

definition importing :: "string \<Rightarrow> program" where
  "importing path = empty_program\<lparr>pr_imports := [\<lparr> imp_path = path, imp_alias = ''x'', imp_location = default_location \<rparr>]\<rparr>"

definition sample_files :: file_system where
  "sample_files = \<lparr>
     fs_canonicalize = (\<lambda>p. if p = ''/a'' \<or> p = ''/b'' then Inr p else Inl ''not found''),
     fs_read = (\<lambda>p. if p = ''/a'' then Inr ''1'' else if p = ''/b'' then Inr ''2'' else Inl ''not found'') \<rparr>"

definition sample_parse :: "program \<Rightarrow> string \<Rightarrow> string + program" where
  "sample_parse b s = (if s = ''1'' then Inr (importing ''b'') else if s = ''2'' then Inr b else Inl ''bad'')"

lemma sample_files_ok: "files_ok sample_files {''/a'', ''/b''}"
  by (auto simp: files_ok_def sample_files_def)

lemma sample_canonical: "canonical sample_files ''/a'' = Inr ''/a''" "canonical sample_files ''/b'' = Inr ''/b''"
  by (simp_all add: canonical_def sample_files_def)

lemma sample_resolve:
  "resolve_import_path sample_files ''/a'' ''b'' = Inr ''/b''"
  "resolve_import_path sample_files ''/b'' ''a'' = Inr ''/a''"
  by (simp_all add: resolve_import_path_def path_parent_def path_join_def rfind_char_def starts_with_def sample_files_def)

lemma sample_read:
  "read_module sample_files (sample_parse b) ''/a'' = Inr (importing ''b'')"
  "read_module sample_files (sample_parse b) ''/b'' = Inr b"
  by (simp_all add: read_module_def sample_files_def sample_parse_def)

lemmas sample_loading = sample_canonical sample_resolve sample_read importing_def empty_program_def
  module_loader_new_def Let_def

theorem load_module_decides_witness:
  "(\<exists>ld'. load_module sample_files (sample_parse empty_program) 3 ''/a'' module_loader_new =
       Some (Inr (importing ''b''), ld') \<and> ml_loading_stack ld' = []) \<and>
   (\<forall>prog. \<not> loads sample_files (sample_parse (importing ''a'')) ''/a'' prog)"
proof -
  have fuel: "card {''/a'', ''/b''} < 3" by simp
  note decides = load_module_decides [OF sample_files_ok sample_canonical(1) fuel]
  have "\<exists>ld'. load_module sample_files (sample_parse empty_program) 3 ''/a'' module_loader_new =
      Some (Inr (importing ''b''), ld')"
    by (simp add: sample_loading numeral_3_eq_3)
  with decides [of "sample_parse empty_program"] have 1: "\<exists>ld'. load_module sample_files
      (sample_parse empty_program) 3 ''/a'' module_loader_new = Some (Inr (importing ''b''), ld') \<and>
      ml_loading_stack ld' = []"
    by auto
  have "\<exists>e ld'. load_module sample_files (sample_parse (importing ''a'')) 3 ''/a'' module_loader_new = Some (Inl e, ld')"
    by (simp add: sample_loading numeral_3_eq_3)
  with decides [of "sample_parse (importing ''a'')"] 1 show ?thesis by auto
qed

theorem load_module_tree_reachable_witness:
  "\<exists>tree ld'. load_module_tree sample_files (sample_parse empty_program) 3 ''/a'' module_loader_new =
      Some (Inr tree, ld') \<and> dom tree = {b. (imports_file sample_files (sample_parse empty_program))\<^sup>*\<^sup>* ''/a'' b}"
proof -
  have fuel: "card {''/a'', ''/b''} < 3" by simp
  have "\<exists>tree ld'. load_module_tree sample_files (sample_parse empty_program) 3 ''/a'' module_loader_new =
      Some (Inr tree, ld')"
    by (simp add: load_module_tree_def sample_loading numeral_3_eq_3)
  with load_module_tree_reachable [OF sample_files_ok sample_canonical(1) fuel, of "sample_parse empty_program"]
  show ?thesis by auto
qed

text \<open>A file that did not parse is reported as a circular import once it is repaired.\<close>

theorem failed_load_blocks_reload_witness:
  "\<exists>e ld'. load_module sample_files (\<lambda>s. Inl ''bad'') 1 ''/b'' module_loader_new = Some (Inl (ParseError e), ld') \<and>
     load_module sample_files (\<lambda>s. Inr empty_program) 1 ''/b'' ld' = Some (Inl (CircularImport ''b -> b''), ld')"
proof -
  let ?e = "''Failed to parse '' @ [CHR 0x27] @ ''/b'' @ [CHR 0x27] @ '': '' @ ''bad''"
  let ?ld = "module_loader_new\<lparr>ml_loading_stack := [''/b'']\<rparr>"
  have r: "read_module sample_files (\<lambda>s. Inl ''bad'') ''/b'' = Inl (ParseError ?e)"
    by (simp add: read_module_def sample_files_def)
  have f: "load_module sample_files (\<lambda>s. Inl ''bad'') 1 ''/b'' module_loader_new = Some (Inl (ParseError ?e), ?ld)"
    using r by (simp add: sample_canonical module_loader_new_def)
  have "ml_cache module_loader_new ''/b'' = None" by (simp add: module_loader_new_def)
  from failed_load_blocks_reload [OF f sample_canonical(2) this sample_canonical(2), of "\<lambda>s. Inr empty_program" 0]
  have "load_module sample_files (\<lambda>s. Inr empty_program) 1 ''/b'' ?ld =
      Some (Inl (CircularImport (format_import_cycle ?ld ''/b'')), ?ld)" by simp
  moreover have "format_import_cycle ?ld ''/b'' = ''b -> b''" by code_simp
  ultimately show ?thesis using f by metis
qed

end
