(* ===== verification/Validate.thy ===== *)
theory Validate
  imports Json_Value Text_Scan
begin

text \<open>
  The validate middleware (\<^verbatim>\<open>src/middleware/validate.rs\<close>): the rules read from its configuration,
  one per line, and the check of the request body, which replaces the state with an error envelope
  at the first rule that fails. Reading the rules can panic; that is \<^const>\<open>None\<close>.
\<close>

section \<open>Rules\<close>

record validate_rule =
  vr_field :: string
  vr_kind :: string
  vr_min :: "nat option"
  vr_max :: "nat option"

definition trim_wrapping_braces :: "string \<Rightarrow> string" where
  "trim_wrapping_braces s =
     (let t = trim s
      in if starts_with ''{'' t \<and> ends_with ''}'' t then take (length t - 2) (drop 1 t) else t)"

definition length_range :: "string \<Rightarrow> nat option \<times> nat option" where
  "length_range spec =
     (case split_str ''..'' spec of
        [a, b] \<Rightarrow> (parse_uint 64 (trim a), parse_uint 64 (trim b))
      | [a] \<Rightarrow> (case parse_uint 64 (trim a) of None \<Rightarrow> (None, None) | Some v \<Rightarrow> (Some v, Some v))
      | _ \<Rightarrow> (None, None))"

text \<open>The slice between the first opening and the last closing parenthesis panics when they cross.\<close>

definition string_range :: "string \<Rightarrow> (nat option \<times> nat option) option" where
  "string_range rhs =
     (case find_sub ''('' rhs of
        None \<Rightarrow> Some (None, None)
      | Some lp \<Rightarrow>
          (case rfind_char (CHR '')'') rhs of
             None \<Rightarrow> Some (None, None)
           | Some rp \<Rightarrow>
               if lp + 1 \<le> rp then Some (length_range (take (rp - (lp + 1)) (drop (lp + 1) rhs))) else None))"

definition plain_rule :: "string \<Rightarrow> string \<Rightarrow> validate_rule" where
  "plain_rule field kind = \<lparr> vr_field = field, vr_kind = kind, vr_min = None, vr_max = None \<rparr>"

text \<open>The rules of one line: none for a line without a known kind.\<close>

definition parse_rule_line :: "string \<Rightarrow> validate_rule list option" where
  "parse_rule_line raw_line =
     (let line = trim_end_char (CHR '','') (trim raw_line)
      in if line = [] then Some []
      else case find_sub '':'' line of
        None \<Rightarrow> Some []
      | Some colon_pos \<Rightarrow>
          (let field = trim (take colon_pos line);
               rhs = trim (drop (colon_pos + 1) line)
           in if starts_with ''string'' rhs then
                (case string_range rhs of
                   None \<Rightarrow> None
                 | Some (mn, mx) \<Rightarrow> Some [\<lparr> vr_field = field, vr_kind = ''string'', vr_min = mn, vr_max = mx \<rparr>])
              else if starts_with ''email'' rhs then Some [plain_rule field ''email'']
              else if starts_with ''boolean'' rhs \<or> starts_with ''bool'' rhs then Some [plain_rule field ''boolean'']
              else if starts_with ''number'' rhs then Some [plain_rule field ''number'']
              else Some []))"

fun parse_rule_lines :: "string list \<Rightarrow> validate_rule list option" where
  "parse_rule_lines [] = Some []"
| "parse_rule_lines (l # ls) =
     (case parse_rule_line l of
        None \<Rightarrow> None
      | Some rs \<Rightarrow> map_option (\<lambda>rest. rs @ rest) (parse_rule_lines ls))"

definition parse_rules :: "string \<Rightarrow> validate_rule list option" where
  "parse_rules cfg = parse_rule_lines (str_lines (trim_wrapping_braces cfg))"

section \<open>The check\<close>

definition make_validation_error :: "string \<Rightarrow> string \<Rightarrow> string \<Rightarrow> json" where
  "make_validation_error field rule message =
     JObject [(''errors'', JArray [JObject
       [(''type'', JString ''validationError''), (''field'', JString field), (''context'', JString field),
        (''rule'', JString rule), (''message'', JString message)]])]"

definition field_message :: "string \<Rightarrow> string \<Rightarrow> string" where
  "field_message field rest = ''Field '' @ [CHR 0x27] @ field @ [CHR 0x27] @ rest"

definition check_string :: "validate_rule \<Rightarrow> json option \<Rightarrow> json option" where
  "check_string rule val =
     (case val of
        Some (JString s) \<Rightarrow>
          if s = [] then Some (make_validation_error (vr_field rule) ''required''
            (field_message (vr_field rule) '' is required and must be a non-empty string''))
          else
            (let too_short = (case vr_min rule of Some mn \<Rightarrow> char_count s < mn | None \<Rightarrow> False);
                 too_long = (case vr_max rule of Some mx \<Rightarrow> char_count s > mx | None \<Rightarrow> False)
             in if too_short then Some (make_validation_error (vr_field rule) ''minLength''
                  (field_message (vr_field rule) ('' must be at least '' @ show_nat (the (vr_min rule)) @ '' characters'')))
                else if too_long then Some (make_validation_error (vr_field rule) ''maxLength''
                  (field_message (vr_field rule) ('' must be at most '' @ show_nat (the (vr_max rule)) @ '' characters'')))
                else None)
      | _ \<Rightarrow> Some (make_validation_error (vr_field rule) ''required''
          (field_message (vr_field rule) '' is required and must be a non-empty string'')))"

definition check_email :: "validate_rule \<Rightarrow> json option \<Rightarrow> json option" where
  "check_email rule val =
     (case Option.bind val as_str of
        None \<Rightarrow> Some (make_validation_error (vr_field rule) ''required''
          (field_message (vr_field rule) '' is required and must be a valid email''))
      | Some s \<Rightarrow>
          if s = [] then Some (make_validation_error (vr_field rule) ''required''
            (field_message (vr_field rule) '' is required and must be a valid email''))
          else if contains_sub ''@'' s \<and> contains_sub ''.'' s \<and> \<not> starts_with ''@'' s \<and> \<not> ends_with ''@'' s then None
          else Some (make_validation_error (vr_field rule) ''email''
            (field_message (vr_field rule) '' must be a valid email address'')))"

text \<open>The envelope a rule answers with, if the value does not satisfy it.\<close>

definition check_rule :: "validate_rule \<Rightarrow> json option \<Rightarrow> json option" where
  "check_rule rule val =
     (if vr_kind rule = ''string'' then check_string rule val
      else if vr_kind rule = ''boolean'' then
        (case val of Some (JBool _) \<Rightarrow> None
         | _ \<Rightarrow> Some (make_validation_error (vr_field rule) ''required''
             (field_message (vr_field rule) '' is required and must be a boolean'')))
      else if vr_kind rule = ''number'' then
        (case val of Some (JNumber _) \<Rightarrow> None
         | _ \<Rightarrow> Some (make_validation_error (vr_field rule) ''required''
             (field_message (vr_field rule) '' is required and must be a number'')))
      else if vr_kind rule = ''email'' then check_email rule val
      else None)"

fun check_rules :: "validate_rule list \<Rightarrow> json_map \<Rightarrow> json \<Rightarrow> json" where
  "check_rules [] obj state = state"
| "check_rules (rule # rules) obj state =
     (case check_rule rule (map_of obj (vr_field rule)) of
        Some err \<Rightarrow> err
      | None \<Rightarrow> check_rules rules obj state)"

text \<open>The state it leaves; a state whose body is no object passes.\<close>

definition validate_execute :: "string \<Rightarrow> json \<Rightarrow> json option" where
  "validate_execute config input =
     (case parse_rules config of
        None \<Rightarrow> None
      | Some rules \<Rightarrow>
          if rules = [] then Some input
          else (case Option.bind (json_get ''body'' input) as_object of
                  None \<Rightarrow> Some input
                | Some obj \<Rightarrow> Some (check_rules rules obj input)))"

section \<open>What a rule demands\<close>

definition satisfies :: "validate_rule \<Rightarrow> json_map \<Rightarrow> bool" where
  "satisfies rule obj \<longleftrightarrow>
     (if vr_kind rule = ''string'' then
        \<exists>s. map_of obj (vr_field rule) = Some (JString s) \<and> s \<noteq> [] \<and>
          (\<forall>n. vr_min rule = Some n \<longrightarrow> n \<le> char_count s) \<and> (\<forall>n. vr_max rule = Some n \<longrightarrow> char_count s \<le> n)
      else if vr_kind rule = ''boolean'' then \<exists>b. map_of obj (vr_field rule) = Some (JBool b)
      else if vr_kind rule = ''number'' then \<exists>n. map_of obj (vr_field rule) = Some (JNumber n)
      else if vr_kind rule = ''email'' then
        \<exists>s. map_of obj (vr_field rule) = Some (JString s) \<and> CHR ''@'' \<in> set s \<and> CHR ''.'' \<in> set s \<and>
          hd s \<noteq> CHR ''@'' \<and> last s \<noteq> CHR ''@''
      else True)"

lemma contains_char_iff: "contains_sub [c] s \<longleftrightarrow> c \<in> set s"
  by (induction s) (auto simp: contains_sub_def starts_with_def)

lemma starts_with_char: "starts_with [c] s \<longleftrightarrow> s \<noteq> [] \<and> hd s = c"
  by (cases s) (auto simp: starts_with_def)

lemma ends_with_char: "ends_with [c] s \<longleftrightarrow> s \<noteq> [] \<and> last s = c"
  by (cases s rule: rev_cases) (auto simp: ends_with_def starts_with_def)

lemma check_string_iff:
  "check_string rule val = None \<longleftrightarrow>
     (\<exists>s. val = Some (JString s) \<and> s \<noteq> [] \<and>
       (\<forall>n. vr_min rule = Some n \<longrightarrow> n \<le> char_count s) \<and> (\<forall>n. vr_max rule = Some n \<longrightarrow> char_count s \<le> n))"
  by (auto simp: check_string_def Let_def not_less split: option.splits json.splits)

lemma check_email_iff:
  "check_email rule val = None \<longleftrightarrow>
     (\<exists>s. val = Some (JString s) \<and> CHR ''@'' \<in> set s \<and> CHR ''.'' \<in> set s \<and>
          hd s \<noteq> CHR ''@'' \<and> last s \<noteq> CHR ''@'')"
  by (auto simp: check_email_def contains_char_iff starts_with_char ends_with_char bind_eq_Some_conv as_str_Some_iff
      split: option.splits if_splits)

lemma check_rule_iff: "check_rule rule (map_of obj (vr_field rule)) = None \<longleftrightarrow> satisfies rule obj"
  by (auto simp: check_rule_def satisfies_def check_string_iff check_email_iff split: option.splits json.splits)

lemma check_rules_find:
  "check_rules rules obj state =
     (case find (\<lambda>r. \<not> satisfies r obj) rules of
        None \<Rightarrow> state
      | Some r \<Rightarrow> the (check_rule r (map_of obj (vr_field r))))"
  by (induction rules) (auto simp: check_rule_iff [symmetric] split: option.splits)


lemma check_rule_error:
  "check_rule rule val = Some err \<Longrightarrow>
   \<exists>what msg. err = make_validation_error (vr_field rule) what msg \<and>
     what \<in> {''required'', ''minLength'', ''maxLength'', ''email''}"
  by (auto simp: check_rule_def check_string_def check_email_def Let_def split: option.splits json.splits if_splits)

text \<open>
  C31: On a request whose body is an object, the validate step leaves the state alone exactly when
  the body satisfies every rule; otherwise it answers a validationError envelope for the first rule
  the body violates.
\<close>

theorem validate_first_violation:
  assumes "parse_rules config = Some rules" and "json_get ''body'' input = Some (JObject obj)"
  shows "case find (\<lambda>r. \<not> satisfies r obj) rules of
      None \<Rightarrow> validate_execute config input = Some input
    | Some r \<Rightarrow> \<exists>what msg. validate_execute config input = Some (make_validation_error (vr_field r) what msg) \<and>
        what \<in> {''required'', ''minLength'', ''maxLength'', ''email''}"
proof (cases "find (\<lambda>r. \<not> satisfies r obj) rules")
  case None
  with assms show ?thesis by (simp add: validate_execute_def check_rules_find)
next
  case (Some r)
  then have "\<not> satisfies r obj" "rules \<noteq> []" by (auto simp: find_Some_iff)
  then obtain err where err: "check_rule r (map_of obj (vr_field r)) = Some err"
    using check_rule_iff [of r obj] by (cases "check_rule r (map_of obj (vr_field r))") auto
  then have "validate_execute config input = Some err"
    using assms Some \<open>rules \<noteq> []\<close> by (simp add: validate_execute_def check_rules_find)
  with Some check_rule_error [OF err] show ?thesis by auto
qed

section \<open>One rule per line\<close>

lemma set_strip_seqs: "set (strip_seqs ws s) \<subseteq> set s"
proof (induction ws s rule: strip_seqs.induct)
  case (1 ws s)
  show ?case
    by (subst strip_seqs.simps) (use 1 set_drop_subset in \<open>force split: option.splits\<close>)
qed

lemma set_trim: "set (trim s) \<subseteq> set s"
proof -
  have "set (trim_end t) \<subseteq> set t" for t
    using set_strip_seqs [of "map rev ws_seqs" "rev t"] by (simp add: trim_end_def)
  then show ?thesis using set_strip_seqs [of ws_seqs s] by (fastforce simp: trim_def trim_start_def)
qed

lemma set_trim_wrapping_braces: "set (trim_wrapping_braces s) \<subseteq> set s"
  using set_trim [of s] by (auto simp: trim_wrapping_braces_def Let_def dest!: in_set_takeD in_set_dropD)

lemma parse_rule_line_length: "parse_rule_line l = Some rs \<Longrightarrow> length rs \<le> 1"
  by (auto simp: parse_rule_line_def Let_def split: if_splits option.splits)

text \<open>
  A configuration written on one line has at most one rule, however many fields it lists: the
  others are not checked.
\<close>

theorem single_line_one_rule:
  assumes "newline \<notin> set config" and "parse_rules config = Some rules"
  shows "length rules \<le> 1"
proof -
  have "newline \<notin> set (trim_wrapping_braces config)"
    using set_trim_wrapping_braces assms(1) by blast
  then have "str_lines (trim_wrapping_braces config) \<in> {[], [trim_wrapping_braces config]}"
    by (simp add: str_lines_def split_char_single)
  then show ?thesis
    using assms(2) parse_rule_line_length by (auto simp: parse_rules_def split: option.splits)
qed

text \<open>The example of \<^verbatim>\<open>docs/graphql.md\<close>: the second field may be anything.\<close>

lemma documented_range: "string_range ''string(3..100), email: email'' = Some (Some 3, Some 100)"
proof -
  have "find_sub ''('' ''string(3..100), email: email'' = Some 6"
    "rfind_char (CHR '')'') ''string(3..100), email: email'' = Some 13"
    "split_str ''..'' ''3..100'' = [''3'', ''100'']" "trim ''3'' = ''3''" "trim ''100'' = ''100''"
    by code_simp+
  moreover have "parse_uint 64 ''3'' = Some 3" "parse_uint 64 ''100'' = Some 100"
    by (simp_all add: parse_uint_def digits_val_def is_ascii_digit_def)
  ultimately show ?thesis by (simp add: string_range_def length_range_def)
qed

lemma documented_rules:
  "parse_rules ''{ name: string(3..100), email: email }'' =
     Some [\<lparr> vr_field = ''name'', vr_kind = ''string'', vr_min = Some 3, vr_max = Some 100 \<rparr>]"
proof -
  have "str_lines (trim_wrapping_braces ''{ name: string(3..100), email: email }'') =
      ['' name: string(3..100), email: email '']" by code_simp
  moreover have "trim_end_char (CHR '','') (trim '' name: string(3..100), email: email '') =
      ''name: string(3..100), email: email''" by code_simp
  moreover have "find_sub '':'' ''name: string(3..100), email: email'' = Some 4" by code_simp
  moreover have "trim ''name'' = ''name''"
    "trim '' string(3..100), email: email'' = ''string(3..100), email: email''" by code_simp+
  ultimately show ?thesis
    by (simp add: parse_rules_def parse_rule_line_def Let_def starts_with_def documented_range)
qed

theorem single_line_one_rule_witness:
  "\<exists>rules. parse_rules ''{ name: string(3..100), email: email }'' = Some rules \<and> length rules \<le> 1 \<and>
     validate_execute ''{ name: string(3..100), email: email }''
       (JObject [(''body'', JObject [(''name'', JString ''anna''), (''email'', JNull)])]) =
     Some (JObject [(''body'', JObject [(''name'', JString ''anna''), (''email'', JNull)])])"
proof -
  let ?config = "''{ name: string(3..100), email: email }''"
  note rules = documented_rules
  have "newline \<notin> set ?config" by (simp add: newline_def)
  from single_line_one_rule [OF this rules] rules show ?thesis
    by (simp add: validate_execute_def check_rule_def check_string_def char_count_def)
qed

theorem validate_first_violation_witness:
  "\<exists>what msg. validate_execute ''{ name: string(3..100), email: email }''
       (JObject [(''body'', JObject [(''name'', JString ''al'')])]) =
     Some (make_validation_error ''name'' what msg)"
proof -
  note rules = documented_rules
  have "json_get ''body'' (JObject [(''body'', JObject [(''name'', JString ''al'')])]) =
      Some (JObject [(''name'', JString ''al'')])" by simp
  from validate_first_violation [OF rules this] show ?thesis
    by (auto simp: satisfies_def char_count_def)
qed

lemma crossed_parentheses_panic: "validate_execute ''title: string)('' input = None"
proof -
  have "parse_rules ''title: string)('' = None" by code_simp
  then show ?thesis by (simp add: validate_execute_def)
qed

end
