(* ===== verification/Nom.thy ===== *)
theory Nom
  imports Syntax_Tree Text_Scan
begin

text \<open>
  What the parser (\<^verbatim>\<open>src/ast/parser.rs\<close>) takes from its libraries. The recognisers of the
  \<^verbatim>\<open>nom\<close> crate and the positions of \<^verbatim>\<open>nom_locate\<close> are arguments, collected in the record
  \<open>parse_libs\<close>; a recogniser answers how many bytes of the text it matches. Their documented
  behaviour is the locale \<open>nom_laws\<close>. The control structure of the combinators the sources write
  (sequencing by the question mark, \<open>alt\<close>, \<open>opt\<close>, \<open>many0\<close> and so on) is spelled out on the four
  outcomes a parser has.
\<close>

section \<open>Spans\<close>

text \<open>The text already consumed, latest byte first, and the text left.\<close>

record span =
  sp_before :: string
  sp_fragment :: string

definition span_new :: "string \<Rightarrow> span" where
  "span_new s = \<lparr> sp_before = [], sp_fragment = s \<rparr>"

definition advance :: "nat \<Rightarrow> span \<Rightarrow> span" where
  "advance n i = \<lparr> sp_before = rev (take n (sp_fragment i)) @ sp_before i, sp_fragment = drop n (sp_fragment i) \<rparr>"

definition sp_left :: "span \<Rightarrow> nat" where
  "sp_left i = length (sp_fragment i)"

section \<open>Libraries\<close>

record parse_libs =
  nm_tag :: "string \<Rightarrow> string \<Rightarrow> nat option"
  nm_char :: "char \<Rightarrow> string \<Rightarrow> nat option"
  nm_multispace0 :: "string \<Rightarrow> nat option"
  nm_multispace1 :: "string \<Rightarrow> nat option"
  nm_alphanumeric1 :: "string \<Rightarrow> nat option"
  nm_digit1 :: "string \<Rightarrow> nat option"
  nm_take :: "nat \<Rightarrow> string \<Rightarrow> nat option"
  nm_take_until :: "string \<Rightarrow> string \<Rightarrow> nat option"
  nm_take_till1 :: "(char \<Rightarrow> bool) \<Rightarrow> string \<Rightarrow> nat option"
  nm_take_while :: "(char \<Rightarrow> bool) \<Rightarrow> string \<Rightarrow> nat option"
  nm_line :: "span \<Rightarrow> nat"
  nm_column :: "span \<Rightarrow> nat"
  serde_strings :: "string \<Rightarrow> string list option"

section \<open>Outcomes and sequencing\<close>

text \<open>
  \<open>Failed\<close> is nom's recoverable error, \<open>Aborted\<close> its failure, which alternatives do not catch;
  \<open>Unfinished\<close> is a bound on the recursion that was too small.
\<close>

datatype 'a presult = Parsed span 'a | Failed | Aborted | Unfinished

type_synonym 'a parser = "span \<Rightarrow> 'a presult"

definition p_return :: "'a \<Rightarrow> 'a parser" where
  "p_return x i = Parsed i x"

definition p_bind :: "'a parser \<Rightarrow> ('a \<Rightarrow> 'b parser) \<Rightarrow> 'b parser" where
  "p_bind p f i =
     (case p i of Parsed j x \<Rightarrow> f x j | Failed \<Rightarrow> Failed | Aborted \<Rightarrow> Aborted | Unfinished \<Rightarrow> Unfinished)"

definition p_map :: "('a \<Rightarrow> 'b) \<Rightarrow> 'a parser \<Rightarrow> 'b parser" where
  "p_map f p = p_bind p (\<lambda>x. p_return (f x))"

text \<open>Running parsers for their effect on the input, then one for its value.\<close>

primrec p_seq :: "unit parser list \<Rightarrow> 'a parser \<Rightarrow> 'a parser" where
  "p_seq [] q = q"
| "p_seq (p # ps) q = p_bind p (\<lambda>_. p_seq ps q)"

text \<open>The input itself: \<^verbatim>\<open>let start_span = input\<close>.\<close>

definition p_here :: "span parser" where
  "p_here i = Parsed i i"

fun p_alt :: "'a parser list \<Rightarrow> 'a parser" where
  "p_alt [] i = Failed"
| "p_alt [p] i = p i"
| "p_alt (p # q # ps) i = (case p i of Failed \<Rightarrow> p_alt (q # ps) i | r \<Rightarrow> r)"

lemma p_alt_single [simp]: "p_alt [p] = p"
  by (rule ext) simp

definition p_opt :: "'a parser \<Rightarrow> 'a option parser" where
  "p_opt p i =
     (case p i of Parsed j x \<Rightarrow> Parsed j (Some x) | Failed \<Rightarrow> Parsed i None
      | Aborted \<Rightarrow> Aborted | Unfinished \<Rightarrow> Unfinished)"

text \<open>Repetition stops at the first error; a round that consumes nothing is an error itself.\<close>

primrec p_many :: "nat \<Rightarrow> 'a parser \<Rightarrow> 'a list parser" where
  "p_many 0 p i = Unfinished"
| "p_many (Suc n) p i =
     (case p i of
        Failed \<Rightarrow> Parsed i []
      | Aborted \<Rightarrow> Aborted
      | Unfinished \<Rightarrow> Unfinished
      | Parsed j x \<Rightarrow> if sp_left j = sp_left i then Failed else p_map (Cons x) (p_many n p) j)"

definition p_many0 :: "'a parser \<Rightarrow> 'a list parser" where
  "p_many0 p i = p_many (Suc (sp_left i)) p i"

primrec p_rest :: "nat \<Rightarrow> unit parser \<Rightarrow> 'a parser \<Rightarrow> 'a list parser" where
  "p_rest 0 sep p i = Unfinished"
| "p_rest (Suc n) sep p i =
     (case sep i of
        Failed \<Rightarrow> Parsed i []
      | Aborted \<Rightarrow> Aborted
      | Unfinished \<Rightarrow> Unfinished
      | Parsed j _ \<Rightarrow>
          (case p j of
             Failed \<Rightarrow> Parsed i []
           | Aborted \<Rightarrow> Aborted
           | Unfinished \<Rightarrow> Unfinished
           | Parsed k x \<Rightarrow> if sp_left k = sp_left i then Failed else p_map (Cons x) (p_rest n sep p) k))"

definition p_separated_list1 :: "unit parser \<Rightarrow> 'a parser \<Rightarrow> 'a list parser" where
  "p_separated_list1 sep p = p_bind p (\<lambda>x. p_map (Cons x) (\<lambda>i. p_rest (Suc (sp_left i)) sep p i))"

text \<open>The text a parser consumes.\<close>

definition p_recognize :: "'a parser \<Rightarrow> string parser" where
  "p_recognize p i =
     (case p i of
        Parsed j _ \<Rightarrow> Parsed j (take (sp_left i - sp_left j) (sp_fragment i))
      | Failed \<Rightarrow> Failed | Aborted \<Rightarrow> Aborted | Unfinished \<Rightarrow> Unfinished)"

definition matched :: "(string \<Rightarrow> nat option) \<Rightarrow> string parser" where
  "matched m i =
     (case m (sp_fragment i) of
        None \<Rightarrow> Failed
      | Some n \<Rightarrow> Parsed (advance n i) (take n (sp_fragment i)))"

definition p_drop :: "'a parser \<Rightarrow> unit parser" where
  "p_drop p = p_map (\<lambda>_. ()) p"

text \<open>The three that only move the input: white space, a keyword and a character.\<close>

definition ws :: "parse_libs \<Rightarrow> unit parser" where
  "ws nm = p_drop (matched (nm_multispace0 nm))"

definition kw :: "parse_libs \<Rightarrow> string \<Rightarrow> unit parser" where
  "kw nm t = p_drop (matched (nm_tag nm t))"

definition sym :: "parse_libs \<Rightarrow> char \<Rightarrow> unit parser" where
  "sym nm c = p_drop (matched (nm_char nm c))"

definition word_of :: "parse_libs \<Rightarrow> string \<Rightarrow> string parser" where
  "word_of nm t = matched (nm_tag nm t)"

section \<open>The documented behaviour\<close>

definition is_multispace :: "char \<Rightarrow> bool" where
  "is_multispace c \<longleftrightarrow> c \<in> {CHR 0x20, CHR 0x09, CHR 0x0D, CHR 0x0A}"

text \<open>The bytes of the first \<open>n\<close> characters of a UTF-8 text.\<close>

fun char_bytes :: "nat \<Rightarrow> string \<Rightarrow> nat option" where
  "char_bytes 0 s = Some 0"
| "char_bytes (Suc n) s =
     (if s = [] then None
      else map_option ((+) (length (first_char s))) (char_bytes n (drop (length (first_char s)) s)))"

definition nonzero :: "nat \<Rightarrow> nat option" where
  "nonzero n = (if n = 0 then None else Some n)"

locale nom_laws =
  fixes nm :: parse_libs
  assumes tag_law: "nm_tag nm t s = (if starts_with t s then Some (length t) else None)"
    and char_law: "nm_char nm c s = (if starts_with [c] s then Some 1 else None)"
    and multispace0_law: "nm_multispace0 nm s = Some (length (takeWhile is_multispace s))"
    and multispace1_law: "nm_multispace1 nm s = nonzero (length (takeWhile is_multispace s))"
    and alphanumeric1_law: "nm_alphanumeric1 nm s = nonzero (length (takeWhile is_ascii_alphanumeric s))"
    and digit1_law: "nm_digit1 nm s = nonzero (length (takeWhile is_ascii_digit s))"
    and take_law: "nm_take nm n s = char_bytes n s"
    and take_until_law: "p \<noteq> [] \<Longrightarrow> nm_take_until nm p s = find_sub p s"
    and take_till1_law: "nm_take_till1 nm f s = nonzero (length (takeWhile (\<lambda>c. \<not> f c) s))"
    and take_while_law: "nm_take_while nm f s = Some (length (takeWhile f s))"

text \<open>A library that behaves so; its positions count newlines and bytes.\<close>

definition nom_reference :: parse_libs where
  "nom_reference = \<lparr>
     nm_tag = (\<lambda>t s. if starts_with t s then Some (length t) else None),
     nm_char = (\<lambda>c s. if starts_with [c] s then Some 1 else None),
     nm_multispace0 = (\<lambda>s. Some (length (takeWhile is_multispace s))),
     nm_multispace1 = (\<lambda>s. nonzero (length (takeWhile is_multispace s))),
     nm_alphanumeric1 = (\<lambda>s. nonzero (length (takeWhile is_ascii_alphanumeric s))),
     nm_digit1 = (\<lambda>s. nonzero (length (takeWhile is_ascii_digit s))),
     nm_take = char_bytes,
     nm_take_until = find_sub,
     nm_take_till1 = (\<lambda>f s. nonzero (length (takeWhile (\<lambda>c. \<not> f c) s))),
     nm_take_while = (\<lambda>f s. Some (length (takeWhile f s))),
     nm_line = (\<lambda>i. Suc (length (filter (\<lambda>c. c = newline) (sp_before i)))),
     nm_column = (\<lambda>i. Suc (length (takeWhile (\<lambda>c. c \<noteq> newline) (sp_before i)))),
     serde_strings = (\<lambda>s. None) \<rparr>"

interpretation reference_nom: nom_laws nom_reference
  by unfold_locales (simp_all add: nom_reference_def)


section \<open>Moving over a text\<close>

lemma advance_fragment [simp]: "sp_fragment (advance n i) = drop n (sp_fragment i)"
  by (simp add: advance_def)

lemma advance_0 [simp]: "advance 0 i = i"
  by (simp add: advance_def)

lemma advance_advance [simp]: "advance m (advance n i) = advance (n + m) i"
  by (simp add: advance_def take_add) (simp add: add.commute)

lemma sp_left_advance [simp]: "sp_left (advance n i) = sp_left i - n"
  by (simp add: sp_left_def)

lemma starts_with_append [simp]: "starts_with t (t @ s)"
  by (simp add: starts_with_def)

lemma starts_with_Nil [simp]: "starts_with [] s"
  by (simp add: starts_with_def)

lemma starts_with_Cons: "starts_with (c # t) s \<longleftrightarrow> (\<exists>s'. s = c # s' \<and> starts_with t s')"
  by (cases s) (auto simp: starts_with_def)

lemma starts_with_length: "starts_with t s \<Longrightarrow> length t \<le> length s"
  unfolding starts_with_def by (metis length_take min.cobounded2 nat_le_linear take_all)

text \<open>A parser that reads exactly the text \<open>s\<close> when what follows it satisfies \<open>ok\<close>.\<close>

definition reads :: "'a parser \<Rightarrow> string \<Rightarrow> (string \<Rightarrow> bool) \<Rightarrow> 'a \<Rightarrow> bool" where
  "reads p s ok x \<longleftrightarrow>
     (\<forall>i rest. sp_fragment i = s @ rest \<longrightarrow> ok rest \<longrightarrow> p i = Parsed (advance (length s) i) x)"

lemma readsD: "reads p s ok x \<Longrightarrow> sp_fragment i = s @ rest \<Longrightarrow> ok rest \<Longrightarrow> p i = Parsed (advance (length s) i) x"
  by (simp add: reads_def)

lemma reads_bind:
  assumes "reads p s ok x" and "reads (f x) t ok' y" and "\<And>rest. ok' rest \<Longrightarrow> ok (t @ rest)"
  shows "reads (p_bind p f) (s @ t) ok' y"
  unfolding reads_def
proof (intro allI impI)
  fix i :: span and rest
  assume i: "sp_fragment i = (s @ t) @ rest" and ok: "ok' rest"
  have "p i = Parsed (advance (length s) i) x"
    by (rule readsD [OF assms(1)]) (use i ok assms(3) in auto)
  moreover have "f x (advance (length s) i) = Parsed (advance (length t) (advance (length s) i)) y"
    by (rule readsD [OF assms(2)]) (use i ok in auto)
  ultimately show "p_bind p f i = Parsed (advance (length (s @ t)) i) y" by (simp add: p_bind_def)
qed

lemma reads_return: "reads (p_return x) [] ok x"
  by (simp add: reads_def p_return_def)

lemma reads_map: "reads p s ok x \<Longrightarrow> reads (p_map f p) s ok (f x)"
  by (simp add: reads_def p_map_def p_bind_def p_return_def)

lemma reads_drop: "reads p s ok x \<Longrightarrow> reads (p_drop p) s ok ()"
  by (simp add: reads_def p_drop_def p_map_def p_bind_def p_return_def)

lemma reads_weaken: "reads p s ok x \<Longrightarrow> (\<And>rest. ok' rest \<Longrightarrow> ok rest) \<Longrightarrow> reads p s ok' x"
  by (simp add: reads_def)

lemma reads_seq:
  assumes "reads p s ok ()" and "reads (p_seq ps q) t ok' y" and "\<And>rest. ok' rest \<Longrightarrow> ok (t @ rest)"
  shows "reads (p_seq (p # ps) q) (s @ t) ok' y"
  using reads_bind [OF assms(1), of "\<lambda>_. p_seq ps q" t ok' y] assms(2,3) by simp

lemma reads_opt: "reads p s ok x \<Longrightarrow> reads (p_opt p) s ok (Some x)"
  by (simp add: reads_def p_opt_def)

lemma reads_alt: "reads p s ok x \<Longrightarrow> reads (p_alt (p # ps)) s ok x"
  by (cases ps) (simp_all add: reads_def)

text \<open>A parser that fails wherever the text satisfies \<open>ok\<close>.\<close>

definition fails :: "'a parser \<Rightarrow> (string \<Rightarrow> bool) \<Rightarrow> bool" where
  "fails p ok \<longleftrightarrow> (\<forall>i. ok (sp_fragment i) \<longrightarrow> p i = Failed)"

lemma fails_bind: "fails p ok \<Longrightarrow> fails (p_bind p f) ok"
  by (simp add: fails_def p_bind_def)

lemma fails_map: "fails p ok \<Longrightarrow> fails (p_map f p) ok"
  by (simp add: p_map_def fails_bind)

lemma fails_seq: "fails p ok \<Longrightarrow> fails (p_seq (p # ps) q) ok"
  by (simp add: fails_bind)

lemma fails_seq_after:
  assumes "reads p s ok ()" and "fails (p_seq ps q) bad"
  shows "fails (p_seq (p # ps) q) (\<lambda>t. \<exists>rest. t = s @ rest \<and> ok rest \<and> bad rest)"
  unfolding fails_def
proof (intro allI impI, elim exE conjE)
  fix i :: span and rest
  assume i: "sp_fragment i = s @ rest" "ok rest" "bad rest"
  then show "p_seq (p # ps) q i = Failed"
    using readsD [OF assms(1) i(1,2)] assms(2) by (simp add: p_bind_def fails_def)
qed

lemma reads_alt_second:
  assumes "fails p bad" and "reads (p_alt ps) s ok x" and "\<And>rest. ok rest \<Longrightarrow> bad (s @ rest)" and "ps \<noteq> []"
  shows "reads (p_alt (p # ps)) s ok x"
  using assms by (cases ps) (auto simp: reads_def fails_def)

lemma reads_opt_none: "fails p ok \<Longrightarrow> reads (p_opt p) [] ok None"
  by (simp add: reads_def fails_def p_opt_def)

text \<open>A repetition reads its items one after another and stops where the item fails.\<close>

lemma reads_many:
  assumes "\<forall>(s, x) \<in> set items. reads p s ok x \<and> s \<noteq> [] \<and> (\<forall>t. ok (s @ t))"
    and after: "\<And>rest. ok' rest \<Longrightarrow> ok rest" and "fails p ok'"
  shows "reads (p_many0 p) (concat (map fst items)) ok' (map snd items)"
proof -
  have "sp_fragment i = concat (map fst items) @ rest \<Longrightarrow> ok' rest \<Longrightarrow> sp_left i < n \<Longrightarrow>
      p_many n p i = Parsed (advance (length (concat (map fst items))) i) (map snd items)"
    for i rest n
    using assms(1)
  proof (induction items arbitrary: i n)
    case Nil
    then show ?case using assms(3) by (cases n) (simp_all add: fails_def)
  next
    case (Cons it items)
    obtain s x where it: "it = (s, x)" by (cases it)
    let ?t = "concat (map fst items) @ rest"
    have s: "reads p s ok x" "s \<noteq> []" using Cons.prems(4) it by auto
    have "ok ?t"
      using Cons.prems(2,4) after by (cases items) auto
    then have r: "p i = Parsed (advance (length s) i) x"
      using readsD [OF s(1)] Cons.prems(1) it by auto
    obtain k where n: "n = Suc k" using Cons.prems(3) by (cases n) auto
    have "sp_left (advance (length s) i) < k"
      using Cons.prems(1,3) n it s(2) by (cases s) (auto simp: sp_left_def)
    then have "p_many k p (advance (length s) i) =
        Parsed (advance (length (concat (map fst items))) (advance (length s) i)) (map snd items)"
      by (intro Cons.IH) (use Cons.prems it in auto)
    moreover have "sp_left (advance (length s) i) \<noteq> sp_left i"
      using Cons.prems(1) it s(2) by (auto simp: sp_left_def)
    ultimately show ?case using r n it by (simp add: p_map_def p_bind_def p_return_def)
  qed
  then show ?thesis by (simp add: reads_def p_many0_def del: p_many.simps)
qed


section \<open>What the recognisers read\<close>

definition id_char :: "char \<Rightarrow> bool" where
  "id_char c \<longleftrightarrow> is_ascii_alphanumeric c \<or> c = CHR ''_'' \<or> c = CHR ''-''"

definition ident :: "string \<Rightarrow> bool" where
  "ident s \<longleftrightarrow> s \<noteq> [] \<and> hd s \<noteq> CHR ''-'' \<and> list_all id_char s"

text \<open>The text that follows does not go on with a character of the kind.\<close>

definition stops :: "(char \<Rightarrow> bool) \<Rightarrow> string \<Rightarrow> bool" where
  "stops f rest \<longleftrightarrow> rest = [] \<or> \<not> f (hd rest)"

lemma takeWhile_stops: "list_all f s \<Longrightarrow> stops f rest \<Longrightarrow> takeWhile f (s @ rest) = s"
  by (induction s) (auto simp: stops_def takeWhile_eq_Nil_iff)

lemma multispace_not_id: "is_multispace c \<Longrightarrow> \<not> id_char c"
  by (auto simp: is_multispace_def id_char_def is_ascii_alphanumeric_def is_ascii_alphabetic_def
      is_ascii_upper_def is_ascii_lower_def is_ascii_digit_def)

context nom_laws
begin

lemma reads_kw: "reads (kw nm t) t ok ()"
  unfolding kw_def by (rule reads_drop [where x = t]) (simp add: reads_def matched_def tag_law)

lemma fails_kw: "fails (kw nm t) (\<lambda>s. \<not> starts_with t s)"
  by (simp add: kw_def fails_def p_drop_def p_map_def p_bind_def matched_def tag_law)

lemma reads_word: "reads (word_of nm t) t ok t"
  by (simp add: word_of_def reads_def matched_def tag_law)

lemma fails_word: "fails (word_of nm t) (\<lambda>s. \<not> starts_with t s)"
  by (simp add: word_of_def fails_def matched_def tag_law)

lemma reads_sym: "reads (sym nm c) [c] ok ()"
  unfolding sym_def by (rule reads_drop [where x = "[c]"]) (simp add: reads_def matched_def char_law starts_with_def)

lemma fails_sym: "fails (sym nm c) (\<lambda>s. s = [] \<or> hd s \<noteq> c)"
  unfolding fails_def
proof (intro allI impI)
  fix i :: span
  assume "sp_fragment i = [] \<or> hd (sp_fragment i) \<noteq> c"
  then show "sym nm c i = Failed"
    by (cases "sp_fragment i") (auto simp: sym_def p_drop_def p_map_def p_bind_def matched_def char_law starts_with_def)
qed

lemma reads_ws: "list_all is_multispace w \<Longrightarrow> reads (ws nm) w (stops is_multispace) ()"
  unfolding ws_def by (rule reads_drop [where x = w]) (simp add: reads_def matched_def multispace0_law takeWhile_stops)

lemma ws_run: "ws nm i = Parsed (advance (length (takeWhile is_multispace (sp_fragment i))) i) ()"
  by (simp add: ws_def p_drop_def p_map_def p_bind_def p_return_def matched_def multispace0_law)

end

end
