(* ===== verification/Parser.thy ===== *)
theory Parser
  imports Nom
begin

text \<open>
  The grammar of pipelines (\<^verbatim>\<open>src/ast/parser.rs\<close>): comments, configuration texts, tags and tag
  expressions, inline arguments and the five kinds of step. Parsers that call the pipeline parser
  take it as an argument; \<open>parse_pipeline\<close> closes the recursion on a fuel that bounds the nesting.
  A repetition inside one level carries the length of its input as its own bound.
\<close>

section \<open>Locations\<close>

definition location_from_span :: "parse_libs \<Rightarrow> span \<Rightarrow> source_location" where
  "location_from_span nm sp =
     (let line = nm_line nm sp; column = nm_column nm sp
      in \<lparr> loc_line = line, loc_column = column, loc_end_line = line, loc_end_column = column,
           loc_offset = length (sp_before sp), loc_file_path = None, loc_module_id = None \<rparr>)"

definition location_from_spans :: "parse_libs \<Rightarrow> span \<Rightarrow> span \<Rightarrow> source_location" where
  "location_from_spans nm start end_span =
     \<lparr> loc_line = nm_line nm start, loc_column = nm_column nm start, loc_end_line = nm_line nm end_span,
       loc_end_column = nm_column nm end_span, loc_offset = length (sp_before start),
       loc_file_path = None, loc_module_id = None \<rparr>"

section \<open>White space, comments and texts\<close>

text \<open>
  The end of a comment is found as a byte offset and then taken as a number of characters, as the
  code does.
\<close>

primrec skip_comments :: "nat \<Rightarrow> parse_libs \<Rightarrow> unit parser" where
  "skip_comments 0 nm i = Unfinished"
| "skip_comments (Suc n) nm i =
     (case ws nm i of
        Parsed j _ \<Rightarrow>
          (if starts_with ''#'' (sp_fragment j) then
             (let newline_pos = find_sub [newline] (sp_fragment j);
                  count = (case newline_pos of Some p \<Rightarrow> p + 1 | None \<Rightarrow> length (sp_fragment j))
              in case matched (nm_take nm count) j of
                   Parsed k _ \<Rightarrow> skip_comments n nm k
                 | Failed \<Rightarrow> Failed | Aborted \<Rightarrow> Aborted | Unfinished \<Rightarrow> Unfinished)
           else Parsed j ())
      | Failed \<Rightarrow> Failed | Aborted \<Rightarrow> Aborted | Unfinished \<Rightarrow> Unfinished)"

definition skip_ws_and_comments :: "parse_libs \<Rightarrow> unit parser" where
  "skip_ws_and_comments nm i = skip_comments (Suc (sp_left i)) nm i"

definition delimited_text :: "parse_libs \<Rightarrow> char \<Rightarrow> string parser" where
  "delimited_text nm q =
     p_bind (p_seq [sym nm q] (matched (nm_take_until nm [q]))) (\<lambda>s. p_seq [sym nm q] (p_return s))"

definition parse_multiline_string :: "parse_libs \<Rightarrow> string parser" where
  "parse_multiline_string nm = delimited_text nm (CHR 0x60)"

definition quoted_text :: "parse_libs \<Rightarrow> string parser" where
  "quoted_text nm = delimited_text nm (CHR 0x22)"

definition parse_method :: "parse_libs \<Rightarrow> string parser" where
  "parse_method nm = p_alt [word_of nm ''GET'', word_of nm ''POST'', word_of nm ''PUT'', word_of nm ''DELETE'']"

definition parse_identifier :: "parse_libs \<Rightarrow> string parser" where
  "parse_identifier nm =
     p_recognize (p_bind (p_alt [matched (nm_alphanumeric1 nm), word_of nm ''_''])
       (\<lambda>_. p_many0 (p_alt [matched (nm_alphanumeric1 nm), word_of nm ''_'', word_of nm ''-''])))"

text \<open>The second part of a scoped name is optional, and so are the colons before it.\<close>

definition parse_scoped_identifier_string :: "parse_libs \<Rightarrow> string parser" where
  "parse_scoped_identifier_string nm =
     p_bind (parse_identifier nm) (\<lambda>first_part input.
       case p_seq [kw nm ''::''] (parse_identifier nm) input of
         Parsed input3 second_part \<Rightarrow> Parsed input3 (first_part @ ''::'' @ second_part)
       | Unfinished \<Rightarrow> Unfinished
       | _ \<Rightarrow> Parsed input first_part)"

definition parse_step_config :: "parse_libs \<Rightarrow> (string \<times> config_type) parser" where
  "parse_step_config nm =
     p_alt [p_map (\<lambda>s. (s, Backtick)) (parse_multiline_string nm),
            p_map (\<lambda>s. (s, Quoted)) (quoted_text nm),
            p_map (\<lambda>s. (s, Identifier)) (parse_scoped_identifier_string nm)]"

section \<open>Configuration blocks\<close>

definition parse_i64 :: "string \<Rightarrow> int option" where
  "parse_i64 s = (if s \<noteq> [] \<and> list_all is_ascii_digit s \<and> digits_val s < 2 ^ 63 then Some (int (digits_val s)) else None)"

definition p_map_res :: "('a \<Rightarrow> 'b option) \<Rightarrow> 'a parser \<Rightarrow> 'b parser" where
  "p_map_res f p = p_bind p (\<lambda>x. case f x of None \<Rightarrow> (\<lambda>_. Failed) | Some y \<Rightarrow> p_return y)"

definition parse_config_value :: "parse_libs \<Rightarrow> config_value parser" where
  "parse_config_value nm =
     p_alt [p_bind (p_seq [sym nm (CHR ''$'')] (parse_identifier nm))
              (\<lambda>var. p_seq [ws nm, kw nm ''||'', ws nm]
                 (p_map (\<lambda>def. CfgEnvVar var (Some def)) (quoted_text nm))),
            p_map (\<lambda>var. CfgEnvVar var None) (p_seq [sym nm (CHR ''$'')] (parse_identifier nm)),
            p_map CfgString (quoted_text nm),
            p_map (\<lambda>s. CfgBoolean (s = ''true'')) (p_alt [word_of nm ''true'', word_of nm ''false'']),
            p_map_res (\<lambda>s. map_option CfgNumber (parse_i64 s)) (matched (nm_digit1 nm))]"

definition parse_config_property :: "parse_libs \<Rightarrow> config_property parser" where
  "parse_config_property nm =
     p_seq [ws nm] (p_bind (parse_identifier nm) (\<lambda>key.
       p_seq [ws nm, sym nm (CHR '':''), ws nm]
         (p_map (\<lambda>v. \<lparr> cp_key = key, cp_value = v \<rparr>) (parse_config_value nm))))"

definition parse_config :: "parse_libs \<Rightarrow> config parser" where
  "parse_config nm =
     p_seq [kw nm ''config'', ws nm] (p_bind (parse_identifier nm) (\<lambda>name.
       p_seq [ws nm, sym nm (CHR ''{''), ws nm] (p_bind (p_many0 (parse_config_property nm)) (\<lambda>properties.
         p_seq [ws nm, sym nm (CHR ''}''), ws nm]
           (p_return \<lparr> cfg_name = name, cfg_properties = properties \<rparr>)))))"

section \<open>Tags\<close>

definition parse_tag_argument :: "parse_libs \<Rightarrow> string parser" where
  "parse_tag_argument nm = p_alt [parse_multiline_string nm, parse_identifier nm]"

definition parse_tag_args :: "parse_libs \<Rightarrow> string list parser" where
  "parse_tag_args nm =
     p_bind (p_seq [sym nm (CHR ''('')]
         (p_separated_list1 (p_seq [sym nm (CHR '','')] (ws nm)) (p_seq [ws nm] (parse_tag_argument nm))))
       (\<lambda>args. p_seq [sym nm (CHR '')'')] (p_return args))"

definition parse_tag :: "parse_libs \<Rightarrow> tag parser" where
  "parse_tag nm =
     p_seq [sym nm (CHR ''@'')] (p_bind (p_opt (sym nm (CHR ''!''))) (\<lambda>negated.
       p_bind (parse_identifier nm) (\<lambda>name.
         p_map (\<lambda>args. \<lparr> tag_name = name, tag_negated = negated \<noteq> None,
                         tag_args = (case args of None \<Rightarrow> [] | Some as \<Rightarrow> as) \<rparr>)
           (p_opt (parse_tag_args nm)))))"

text \<open>Conjunction binds tighter than disjunction; both associate to the left.\<close>

definition parse_tag_primary :: "parse_libs \<Rightarrow> tag_expr parser \<Rightarrow> tag_expr parser" where
  "parse_tag_primary nm parse_group =
     p_alt [p_bind (p_seq [sym nm (CHR ''(''), ws nm] parse_group)
              (\<lambda>expr. p_seq [ws nm, sym nm (CHR '')'')] (p_return expr)),
            p_map TagE (parse_tag nm)]"

definition parse_and_expr :: "parse_libs \<Rightarrow> tag_expr parser \<Rightarrow> tag_expr parser" where
  "parse_and_expr nm parse_group =
     p_bind (parse_tag_primary nm parse_group) (\<lambda>first.
       p_map (\<lambda>rest. foldl AndE first rest)
         (p_many0 (p_seq [ws nm, kw nm ''and'', ws nm] (parse_tag_primary nm parse_group))))"

definition parse_or_expr :: "parse_libs \<Rightarrow> tag_expr parser \<Rightarrow> tag_expr parser" where
  "parse_or_expr nm parse_group =
     p_bind (parse_and_expr nm parse_group) (\<lambda>first.
       p_map (\<lambda>rest. foldl OrE first rest)
         (p_many0 (p_seq [ws nm, kw nm ''or'', ws nm] (parse_and_expr nm parse_group))))"

primrec parse_grouped :: "nat \<Rightarrow> parse_libs \<Rightarrow> tag_expr parser" where
  "parse_grouped 0 nm = (\<lambda>i. Unfinished)"
| "parse_grouped (Suc n) nm = parse_or_expr nm (parse_grouped n nm)"

text \<open>Every group consumes its parenthesis, so the length of the input bounds the nesting.\<close>

definition parse_tag_expr :: "parse_libs \<Rightarrow> tag_expr parser" where
  "parse_tag_expr nm i = parse_grouped (Suc (sp_left i)) nm i"

section \<open>Regular steps\<close>

definition preparse_join_targets :: "parse_libs \<Rightarrow> string \<Rightarrow> string list option" where
  "preparse_join_targets nm config =
     (let trimmed = trim config
      in if starts_with ''['' trimmed then serde_strings nm trimmed
         else let names = filter (\<lambda>s. s \<noteq> []) (map trim (split_char (CHR '','') trimmed))
              in if names = [] then None else Some names)"

definition is_blank :: "char \<Rightarrow> bool" where
  "is_blank c \<longleftrightarrow> c = CHR 0x20 \<or> c = CHR 0x09"

definition skip_blanks :: "parse_libs \<Rightarrow> unit parser" where
  "skip_blanks nm = p_drop (matched (nm_take_while nm is_blank))"

text \<open>Tags that follow without a connective are a conjunction.\<close>

primrec more_tags :: "nat \<Rightarrow> parse_libs \<Rightarrow> tag_expr \<Rightarrow> tag_expr parser" where
  "more_tags 0 nm expr i = Unfinished"
| "more_tags (Suc n) nm expr i =
     (case skip_blanks nm i of
        Parsed remaining _ \<Rightarrow>
          (if \<not> starts_with ''@'' (sp_fragment remaining) then Parsed i expr
           else case parse_tag nm remaining of
             Parsed j next_tag \<Rightarrow> more_tags n nm (AndE expr (TagE next_tag)) j
           | Failed \<Rightarrow> Failed | Aborted \<Rightarrow> Aborted | Unfinished \<Rightarrow> Unfinished)
      | Failed \<Rightarrow> Failed | Aborted \<Rightarrow> Aborted | Unfinished \<Rightarrow> Unfinished)"

definition parse_step_condition :: "parse_libs \<Rightarrow> tag_expr option parser" where
  "parse_step_condition nm =
     p_seq [skip_blanks nm] (\<lambda>input.
       if \<not> starts_with ''@'' (sp_fragment input) \<and> \<not> starts_with ''('' (sp_fragment input)
       then Parsed input None
       else p_map Some (p_bind (parse_tag_expr nm) (\<lambda>expr j. more_tags (Suc (sp_left j)) nm expr j)) input)"

text \<open>The offset of the bracket that closes the arguments, outside of string literals.\<close>

fun find_close :: "char \<Rightarrow> char \<Rightarrow> nat \<Rightarrow> bool \<Rightarrow> bool \<Rightarrow> nat \<Rightarrow> string \<Rightarrow> nat option" where
  "find_close open_char close_char depth in_string escape_next idx [] = None"
| "find_close open_char close_char depth in_string escape_next idx (c # cs) =
     (if escape_next then find_close open_char close_char depth in_string False (Suc idx) cs
      else if c = CHR 0x5C \<and> in_string then find_close open_char close_char depth in_string True (Suc idx) cs
      else if c = CHR 0x22 then find_close open_char close_char depth (\<not> in_string) False (Suc idx) cs
      else if c = open_char \<and> \<not> in_string then
        find_close open_char close_char (Suc depth) in_string False (Suc idx) cs
      else if c = close_char \<and> \<not> in_string then
        (if depth = 0 then Some idx
         else find_close open_char close_char (depth - 1) in_string False (Suc idx) cs)
      else find_close open_char close_char depth in_string False (Suc idx) cs)"

text \<open>Splitting at the commas outside of brackets and strings; the pieces are trimmed.\<close>

fun split_args :: "int \<Rightarrow> bool \<Rightarrow> bool \<Rightarrow> string \<Rightarrow> string list \<Rightarrow> string \<Rightarrow> string list" where
  "split_args depth in_string escape_next current args [] =
     (if trim current = [] then args else args @ [trim current])"
| "split_args depth in_string escape_next current args (c # cs) =
     (if escape_next then split_args depth in_string False (current @ [c]) args cs
      else if c = CHR 0x5C \<and> in_string then split_args depth in_string True (current @ [c]) args cs
      else if c = CHR 0x22 then split_args depth (\<not> in_string) False (current @ [c]) args cs
      else if c \<in> {CHR ''('', CHR ''['', CHR ''{''} \<and> \<not> in_string then
        split_args (depth + 1) in_string False (current @ [c]) args cs
      else if c \<in> {CHR '')'', CHR '']'', CHR ''}''} \<and> \<not> in_string then
        split_args (depth - 1) in_string False (current @ [c]) args cs
      else if c = CHR '','' \<and> depth = 0 \<and> \<not> in_string then
        split_args depth in_string False [] (args @ [trim current]) cs
      else split_args depth in_string False (current @ [c]) args cs)"

definition split_balanced_args :: "string \<Rightarrow> string list" where
  "split_balanced_args content =
     (if trim content = [] then [] else split_args 0 False False [] [] content)"

text \<open>
  White space before the bracket is looked through but not consumed, so arguments after white space
  are an error. The closing bracket's byte offset is taken as a number of characters.
\<close>

definition parse_inline_args :: "parse_libs \<Rightarrow> string list parser" where
  "parse_inline_args nm input =
     (let trimmed_input = trim_start (sp_fragment input)
      in if \<not> starts_with ''('' trimmed_input \<and> \<not> starts_with ''['' trimmed_input then Parsed input []
      else
        let open_char = (if starts_with ''('' trimmed_input then CHR ''('' else CHR ''['');
            close_char = (if open_char = CHR ''('' then CHR '')'' else CHR '']'')
        in p_seq [sym nm open_char] (\<lambda>j.
             case find_close open_char close_char 0 False False 0 (sp_fragment j) of
               None \<Rightarrow> Failed
             | Some end_pos \<Rightarrow>
                 p_map (\<lambda>_. split_balanced_args (take end_pos (sp_fragment j)))
                   (matched (nm_take nm (end_pos + 1))) j) input)"

definition parse_regular_step :: "parse_libs \<Rightarrow> pipeline_step parser" where
  "parse_regular_step nm =
     p_seq [skip_ws_and_comments nm] (p_bind p_here (\<lambda>start_span.
       p_seq [kw nm ''|>'', ws nm] (p_bind (parse_identifier nm) (\<lambda>name.
         p_bind (parse_inline_args nm) (\<lambda>args. p_seq [ws nm]
           (p_bind (p_opt (p_seq [sym nm (CHR '':''), ws nm] (parse_step_config nm))) (\<lambda>config_pair.
             let (config, config_type) = (case config_pair of None \<Rightarrow> ([], Quoted) | Some p \<Rightarrow> p)
             in p_bind (parse_step_condition nm) (\<lambda>condition. p_bind p_here (\<lambda>end_span. p_seq [ws nm]
                  (p_return (RegularStep
                     \<lparr> rs_name = name, rs_args = args, rs_config = config, rs_config_type = config_type,
                       rs_config_present = config_pair \<noteq> None, rs_condition = condition,
                       rs_parsed_join_targets = (if name = ''join'' then preparse_join_targets nm config else None),
                       rs_location = location_from_spans nm start_span end_span \<rparr>)))))))))))"

section \<open>Compound steps\<close>

definition parse_if_step :: "parse_libs \<Rightarrow> pipeline parser \<Rightarrow> pipeline_step parser" where
  "parse_if_step nm parse_pipeline =
     p_seq [skip_ws_and_comments nm] (p_bind p_here (\<lambda>start_span.
       p_seq [kw nm ''|>'', ws nm, kw nm ''if'', skip_ws_and_comments nm]
         (p_bind parse_pipeline (\<lambda>condition.
           p_seq [skip_ws_and_comments nm, kw nm ''then:'', skip_ws_and_comments nm]
             (p_bind parse_pipeline (\<lambda>then_branch. p_seq [skip_ws_and_comments nm]
               (p_bind (p_opt (p_seq [kw nm ''else:'', skip_ws_and_comments nm] parse_pipeline)) (\<lambda>else_branch.
                 p_seq [skip_ws_and_comments nm, p_drop (p_opt (kw nm ''end''))]
                   (p_return (IfStep condition then_branch else_branch (location_from_span nm start_span)))))))))))"

definition parse_dispatch_branch :: "parse_libs \<Rightarrow> pipeline parser \<Rightarrow> dispatch_branch parser" where
  "parse_dispatch_branch nm parse_pipeline =
     p_seq [skip_ws_and_comments nm] (p_bind p_here (\<lambda>start_span.
       p_seq [kw nm ''case'', ws nm] (p_bind (parse_tag_expr nm) (\<lambda>condition.
         p_seq [ws nm, sym nm (CHR '':''), skip_ws_and_comments nm]
           (p_map (\<lambda>p. DispatchBranch condition p (location_from_span nm start_span)) parse_pipeline)))))"

definition parse_dispatch_step :: "parse_libs \<Rightarrow> pipeline parser \<Rightarrow> pipeline_step parser" where
  "parse_dispatch_step nm parse_pipeline =
     p_seq [skip_ws_and_comments nm] (p_bind p_here (\<lambda>start_span.
       p_seq [kw nm ''|>'', ws nm, kw nm ''dispatch'', skip_ws_and_comments nm]
         (p_bind (p_many0 (parse_dispatch_branch nm parse_pipeline)) (\<lambda>branches.
           p_bind (p_opt (p_seq [skip_ws_and_comments nm, kw nm ''default:'', skip_ws_and_comments nm] parse_pipeline))
             (\<lambda>default_pipeline.
               p_seq [skip_ws_and_comments nm, p_drop (p_opt (kw nm ''end''))]
                 (p_return (DispatchStep branches default_pipeline (location_from_span nm start_span))))))))"

definition parse_foreach_step :: "parse_libs \<Rightarrow> pipeline parser \<Rightarrow> pipeline_step parser" where
  "parse_foreach_step nm parse_pipeline =
     p_seq [skip_ws_and_comments nm] (p_bind p_here (\<lambda>start_span.
       p_seq [kw nm ''|>'', ws nm, kw nm ''foreach'', p_drop (matched (nm_multispace1 nm))]
         (p_bind (matched (nm_take_till1 nm (\<lambda>c. c = newline \<or> c = CHR ''#''))) (\<lambda>raw_selector.
           p_seq [skip_ws_and_comments nm] (p_bind parse_pipeline (\<lambda>p.
             p_seq [skip_ws_and_comments nm, kw nm ''end'']
               (p_return (ForeachStep (trim raw_selector) p (location_from_span nm start_span)))))))))"

definition branch_type_of :: "string \<Rightarrow> result_branch_type" where
  "branch_type_of s = (if s = ''ok'' then BranchOk else if s = ''default'' then BranchDefault else BranchCustom s)"

text \<open>A status that is no 16-bit number is a failure, not an error.\<close>

definition parse_result_branch :: "parse_libs \<Rightarrow> pipeline parser \<Rightarrow> result_branch parser" where
  "parse_result_branch nm parse_pipeline =
     p_seq [skip_ws_and_comments nm] (p_bind p_here (\<lambda>start_span.
       p_bind (parse_identifier nm) (\<lambda>branch_type. p_seq [sym nm (CHR ''('')]
         (p_bind (matched (nm_digit1 nm)) (\<lambda>status.
           case parse_uint 16 status of
             None \<Rightarrow> (\<lambda>_. Aborted)
           | Some n \<Rightarrow>
               p_seq [sym nm (CHR '')''), sym nm (CHR '':''), ws nm]
                 (p_map (\<lambda>p. ResultBranch (branch_type_of branch_type) (of_nat n) p (location_from_span nm start_span))
                    parse_pipeline))))))"

definition parse_result_step :: "parse_libs \<Rightarrow> pipeline parser \<Rightarrow> pipeline_step parser" where
  "parse_result_step nm parse_pipeline =
     p_seq [skip_ws_and_comments nm] (p_bind p_here (\<lambda>start_span.
       p_seq [kw nm ''|>'', ws nm, kw nm ''result'', skip_ws_and_comments nm]
         (p_map (\<lambda>bs. ResultStep bs (location_from_span nm start_span))
            (p_many0 (parse_result_branch nm parse_pipeline)))))"

definition parse_pipeline_step :: "parse_libs \<Rightarrow> pipeline parser \<Rightarrow> pipeline_step parser" where
  "parse_pipeline_step nm parse_pipeline =
     p_alt [parse_result_step nm parse_pipeline, parse_if_step nm parse_pipeline,
            parse_dispatch_step nm parse_pipeline, parse_foreach_step nm parse_pipeline,
            parse_regular_step nm]"

text \<open>Any error of a step ends the pipeline before the white space that precedes it.\<close>

primrec pipeline_steps :: "nat \<Rightarrow> parse_libs \<Rightarrow> pipeline parser \<Rightarrow> pipeline_step list parser" where
  "pipeline_steps 0 nm parse_pipeline remaining = Unfinished"
| "pipeline_steps (Suc n) nm parse_pipeline remaining =
     (case skip_ws_and_comments nm remaining of
        Parsed new_input _ \<Rightarrow>
          (case parse_pipeline_step nm parse_pipeline new_input of
             Parsed after_step step \<Rightarrow> p_map (Cons step) (pipeline_steps n nm parse_pipeline) after_step
           | Unfinished \<Rightarrow> Unfinished
           | _ \<Rightarrow> Parsed remaining [])
      | Failed \<Rightarrow> Failed | Aborted \<Rightarrow> Aborted | Unfinished \<Rightarrow> Unfinished)"

primrec parse_nested :: "nat \<Rightarrow> parse_libs \<Rightarrow> pipeline parser" where
  "parse_nested 0 nm = (\<lambda>i. Unfinished)"
| "parse_nested (Suc n) nm =
     (\<lambda>i. p_map Pipeline (pipeline_steps (Suc (sp_left i)) nm (parse_nested n nm)) i)"

definition parse_pipeline :: "parse_libs \<Rightarrow> pipeline parser" where
  "parse_pipeline nm i = parse_nested (Suc (sp_left i)) nm i"

end
