(* ===== verification/Parser_Program.thy ===== *)
theory Parser_Program
  imports Parser
begin

text \<open>
  The grammar of a program (\<^verbatim>\<open>src/ast/parser.rs\<close>): its declarations, its test suites, and the
  loop that reads them in any order and skips a line it does not recognise.
\<close>

section \<open>Declarations\<close>

text \<open>The name and the pipeline of a declaration that begins with a keyword.\<close>

definition declared :: "parse_libs \<Rightarrow> string \<Rightarrow> (string \<times> pipeline) parser" where
  "declared nm keyword =
     p_seq [kw nm keyword, ws nm] (p_bind (parse_identifier nm) (\<lambda>name.
       p_seq [ws nm, sym nm (CHR ''=''), ws nm] (p_bind (parse_pipeline nm) (\<lambda>p.
         p_seq [ws nm] (p_return (name, p))))))"

definition parse_named_pipeline :: "parse_libs \<Rightarrow> named_pipeline parser" where
  "parse_named_pipeline nm = p_map (\<lambda>(n, p). \<lparr> np_name = n, np_pipeline = p \<rparr>) (declared nm ''pipeline'')"

definition parse_query_resolver :: "parse_libs \<Rightarrow> query_resolver parser" where
  "parse_query_resolver nm = p_map (\<lambda>(n, p). \<lparr> qr_name = n, qr_pipeline = p \<rparr>) (declared nm ''query'')"

definition parse_mutation_resolver :: "parse_libs \<Rightarrow> mutation_resolver parser" where
  "parse_mutation_resolver nm = p_map (\<lambda>(n, p). \<lparr> mr_name = n, mr_pipeline = p \<rparr>) (declared nm ''mutation'')"

definition parse_type_resolver :: "parse_libs \<Rightarrow> type_resolver parser" where
  "parse_type_resolver nm =
     p_seq [kw nm ''resolver'', ws nm] (p_bind (parse_identifier nm) (\<lambda>type_name.
       p_seq [sym nm (CHR ''.'')] (p_bind (parse_identifier nm) (\<lambda>field_name.
         p_seq [ws nm, sym nm (CHR ''=''), ws nm] (p_bind (parse_pipeline nm) (\<lambda>p.
           p_seq [ws nm] (p_return \<lparr> tr_type_name = type_name, tr_field_name = field_name, tr_pipeline = p \<rparr>)))))))"

definition parse_feature_flags :: "parse_libs \<Rightarrow> pipeline parser" where
  "parse_feature_flags nm =
     p_seq [kw nm ''featureFlags'', ws nm, sym nm (CHR ''=''), ws nm] (p_bind (parse_pipeline nm) (\<lambda>p.
       p_seq [ws nm] (p_return p)))"

definition parse_pipeline_ref :: "parse_libs \<Rightarrow> pipeline_ref parser" where
  "parse_pipeline_ref nm =
     p_alt [p_map Inline (parse_pipeline nm),
            p_map Named (p_seq [ws nm, kw nm ''|>'', ws nm, kw nm ''pipeline:'', ws nm] (parse_identifier nm))]"

definition parse_import :: "parse_libs \<Rightarrow> import_stmt parser" where
  "parse_import nm =
     p_bind p_here (\<lambda>start. p_seq [kw nm ''import'', ws nm] (p_bind (quoted_text nm) (\<lambda>path.
       p_seq [ws nm, kw nm ''as'', ws nm] (p_bind (parse_identifier nm) (\<lambda>alias.
         p_seq [ws nm] (p_return
           \<lparr> imp_path = path, imp_alias = alias, imp_location = location_from_span nm start \<rparr>))))))"

definition parse_variable :: "parse_libs \<Rightarrow> variable parser" where
  "parse_variable nm =
     p_bind (parse_identifier nm) (\<lambda>type_name. p_seq [ws nm] (p_bind (parse_identifier nm) (\<lambda>name.
       p_seq [ws nm, sym nm (CHR ''=''), ws nm] (p_bind (parse_multiline_string nm) (\<lambda>v.
         p_seq [ws nm] (p_return \<lparr> var_type = type_name, var_name = name, var_value = v \<rparr>))))))"

definition parse_route :: "parse_libs \<Rightarrow> route parser" where
  "parse_route nm =
     p_bind (parse_method nm) (\<lambda>http_method. p_seq [ws nm]
       (p_bind (matched (nm_take_till1 nm (\<lambda>c. c = CHR 0x20 \<or> c = newline))) (\<lambda>path. p_seq [ws nm]
         (p_bind (parse_pipeline_ref nm) (\<lambda>p. p_seq [ws nm]
           (p_return \<lparr> rt_method = http_method, rt_path = path, rt_pipeline = p \<rparr>))))))"

definition parse_graphql_schema :: "parse_libs \<Rightarrow> string parser" where
  "parse_graphql_schema nm =
     p_seq [kw nm ''graphqlSchema'', ws nm, sym nm (CHR ''=''), ws nm] (p_bind (parse_multiline_string nm) (\<lambda>sdl.
       p_seq [ws nm] (p_return sdl)))"

section \<open>Tests\<close>

definition rest_of_line :: "parse_libs \<Rightarrow> string parser" where
  "rest_of_line nm = matched (nm_take_till1 nm (\<lambda>c. c = newline))"

definition up_to_blank :: "parse_libs \<Rightarrow> string parser" where
  "up_to_blank nm = matched (nm_take_till1 nm (\<lambda>c. c = CHR 0x20))"

definition parse_when :: "parse_libs \<Rightarrow> when_clause parser" where
  "parse_when nm =
     p_alt [p_seq [kw nm ''calling'', ws nm] (p_bind (parse_method nm) (\<lambda>http_method.
              p_seq [ws nm] (p_map (CallingRoute http_method) (rest_of_line nm)))),
            p_seq [kw nm ''executing'', ws nm, kw nm ''pipeline'', ws nm] (p_map ExecutingPipeline (parse_identifier nm)),
            p_seq [kw nm ''executing'', ws nm, kw nm ''variable'', ws nm] (p_bind (parse_identifier nm) (\<lambda>type_name.
              p_seq [ws nm] (p_map (ExecutingVariable type_name) (parse_identifier nm))))]"

definition any_value :: "parse_libs \<Rightarrow> string parser" where
  "any_value nm = p_alt [parse_multiline_string nm, quoted_text nm, rest_of_line nm]"

definition plain_condition :: "condition_type \<Rightarrow> string \<Rightarrow> string \<Rightarrow> string \<Rightarrow> test_condition" where
  "plain_condition ct field comparison v =
     \<lparr> tc_condition_type = ct, tc_field = field, tc_header_name = None, tc_jq_expr = None,
       tc_comparison = comparison, tc_value = v, tc_is_call_assertion = False, tc_call_target = None,
       tc_selector = None, tc_dom_assert = None \<rparr>"

text \<open>\<open>call query users with ...\<close>\<close>

definition parse_call_condition :: "parse_libs \<Rightarrow> condition_type \<Rightarrow> test_condition parser" where
  "parse_call_condition nm ct =
     p_bind (p_alt [word_of nm ''query'', word_of nm ''mutation'', word_of nm ''pipeline'']) (\<lambda>call_type.
       p_seq [p_drop (matched (nm_multispace1 nm))] (p_bind (parse_identifier nm) (\<lambda>call_name. p_seq [ws nm]
         (p_bind (p_alt [word_of nm ''with arguments'', word_of nm ''with'']) (\<lambda>comparison. p_seq [ws nm]
           (p_map (\<lambda>v. (plain_condition ct ''call'' comparison v)
                \<lparr>tc_is_call_assertion := True, tc_call_target := Some (call_type @ ''.'' @ call_name)\<rparr>)
              (any_value nm)))))))"

definition selector_condition ::
  "condition_type \<Rightarrow> string \<Rightarrow> string \<Rightarrow> string \<Rightarrow> dom_assert_type \<Rightarrow> test_condition" where
  "selector_condition ct selector comparison v da =
     (plain_condition ct ''selector'' comparison v)\<lparr>tc_selector := Some selector, tc_dom_assert := Some da\<rparr>"

definition parse_selector_condition :: "parse_libs \<Rightarrow> condition_type \<Rightarrow> test_condition parser" where
  "parse_selector_condition nm ct =
     p_bind (p_alt [parse_multiline_string nm, quoted_text nm]) (\<lambda>selector. p_seq [ws nm]
       (p_bind (matched (nm_take_till1 nm (\<lambda>c. c = CHR 0x20 \<or> c = newline))) (\<lambda>operation. p_seq [ws nm]
         (if operation = ''exists'' then p_return (selector_condition ct selector ''exists'' ''true'' DomExists)
          else if operation = ''does'' then
            p_seq [kw nm ''not'', ws nm, kw nm ''exist'']
              (p_return (selector_condition ct selector ''does_not_exist'' ''false'' DomExists))
          else if operation = ''text'' then
            p_bind (up_to_blank nm) (\<lambda>comparison. p_seq [ws nm]
              (p_map (\<lambda>v. selector_condition ct selector comparison v DomText) (any_value nm)))
          else if operation = ''count'' then
            p_bind (matched (nm_take_till1 nm is_ascii_digit)) (\<lambda>comp_text.
              p_map (\<lambda>v. selector_condition ct selector (trim comp_text) (trim v) DomCount) (rest_of_line nm))
          else if operation = ''attribute'' then
            p_bind (p_alt [parse_multiline_string nm, quoted_text nm]) (\<lambda>attr_name. p_seq [ws nm]
              (p_bind (matched (nm_take_till1 nm (\<lambda>c. c = CHR 0x22 \<or> c = CHR 0x60))) (\<lambda>comparison.
                p_map (\<lambda>v. selector_condition ct selector (trim comparison) v (DomAttribute attr_name)) (any_value nm))))
          else (\<lambda>_. Aborted)))))"

text \<open>A quoted value keeps its quotes, so that it is read back as a JSON string.\<close>

definition parse_field_condition :: "parse_libs \<Rightarrow> condition_type \<Rightarrow> string \<Rightarrow> test_condition parser" where
  "parse_field_condition nm ct field =
     p_bind (if field = ''header''
             then p_bind (p_alt [parse_multiline_string nm, quoted_text nm]) (\<lambda>h. p_seq [ws nm] (p_return (Some h)))
             else p_return None) (\<lambda>header_name.
       p_bind (if header_name = None then p_opt (parse_multiline_string nm) else p_return None) (\<lambda>jq_expr.
         p_seq [ws nm] (p_bind (up_to_blank nm) (\<lambda>comparison. p_seq [ws nm]
           (p_map (\<lambda>v. (plain_condition ct field comparison v)\<lparr>tc_header_name := header_name, tc_jq_expr := jq_expr\<rparr>)
             (p_alt [parse_multiline_string nm, p_map (\<lambda>s. [CHR 0x22] @ s @ [CHR 0x22]) (quoted_text nm),
                     rest_of_line nm]))))))"

definition parse_condition :: "parse_libs \<Rightarrow> test_condition parser" where
  "parse_condition nm =
     p_seq [ws nm] (p_bind (p_alt [word_of nm ''then'', word_of nm ''and'']) (\<lambda>word.
       let ct = (if word = ''then'' then CondThen else CondAnd)
       in p_seq [ws nm] (p_bind (up_to_blank nm) (\<lambda>field. p_seq [ws nm]
            (if field = ''call'' then parse_call_condition nm ct
             else if field = ''selector'' then parse_selector_condition nm ct
             else parse_field_condition nm ct field)))))"

text \<open>A target that begins with a keyword is a scoped one; the keyword then needs its white space.\<close>

definition parse_mock_target :: "parse_libs \<Rightarrow> string parser" where
  "parse_mock_target nm input =
     (let scoped = (\<lambda>word j. p_seq [p_drop (matched (nm_multispace1 nm))]
                        (p_map (\<lambda>name. word @ ''.'' @ name) (parse_identifier nm)) j)
      in case kw nm ''pipeline'' input of
           Parsed j _ \<Rightarrow> scoped ''pipeline'' j
         | _ \<Rightarrow>
             (case kw nm ''query'' input of
                Parsed j _ \<Rightarrow> scoped ''query'' j
              | _ \<Rightarrow>
                  (case kw nm ''mutation'' input of
                     Parsed j _ \<Rightarrow> scoped ''mutation'' j
                   | _ \<Rightarrow> matched (nm_take_till1 nm (\<lambda>c. c = CHR 0x20 \<or> c = newline)) input)))"

definition mock_after :: "parse_libs \<Rightarrow> string \<Rightarrow> mock parser" where
  "mock_after nm word =
     p_seq [ws nm, kw nm word, ws nm, kw nm ''mock'', ws nm] (p_bind (parse_mock_target nm) (\<lambda>target.
       p_seq [ws nm, kw nm ''returning'', ws nm] (p_bind (parse_multiline_string nm) (\<lambda>return_value.
         p_seq [ws nm] (p_return \<lparr> mock_target = target, mock_return_value = return_value \<rparr>)))))"

definition parse_mock :: "parse_libs \<Rightarrow> mock parser" where
  "parse_mock nm = mock_after nm ''with''"

definition parse_and_mock :: "parse_libs \<Rightarrow> mock parser" where
  "parse_and_mock nm = mock_after nm ''and''"

definition parse_let_binding :: "parse_libs \<Rightarrow> (string \<times> string \<times> let_value_format) parser" where
  "parse_let_binding nm =
     p_seq [kw nm ''let'', ws nm] (p_bind (parse_identifier nm) (\<lambda>name.
       p_seq [ws nm, sym nm (CHR ''=''), ws nm]
         (p_map (\<lambda>(v, format). (name, v, format))
            (p_alt [p_map (\<lambda>v. (v, LetBacktick)) (parse_multiline_string nm),
                    p_map (\<lambda>v. (v, LetQuoted)) (quoted_text nm),
                    p_map (\<lambda>v. (v, LetBare)) (word_of nm ''null''),
                    p_map (\<lambda>v. (v, LetBare)) (p_alt [word_of nm ''true'', word_of nm ''false'']),
                    p_map (\<lambda>v. (v, LetBare)) (p_recognize
                      (p_seq [p_drop (matched (nm_digit1 nm)), sym nm (CHR ''.'')] (matched (nm_digit1 nm)))),
                    p_map (\<lambda>v. (v, LetBare)) (matched (nm_digit1 nm))]))))"

definition with_clause_body :: "parse_libs \<Rightarrow> (string \<times> string) parser" where
  "with_clause_body nm =
     p_seq [kw nm ''with'', ws nm]
       (p_bind (p_alt [word_of nm ''input'', word_of nm ''body'', word_of nm ''headers'', word_of nm ''cookies'']) (\<lambda>kind.
         p_seq [ws nm] (p_bind (parse_multiline_string nm) (\<lambda>v. p_seq [ws nm] (p_return (kind, v))))))"

definition parse_with_clause :: "parse_libs \<Rightarrow> (string \<times> string) parser" where
  "parse_with_clause nm = with_clause_body nm"

definition parse_and_with_clause :: "parse_libs \<Rightarrow> (string \<times> string) parser" where
  "parse_and_with_clause nm = p_seq [kw nm ''and'', ws nm] (with_clause_body nm)"

definition parse_and_stdin_clause :: "parse_libs \<Rightarrow> string parser" where
  "parse_and_stdin_clause nm =
     p_seq [kw nm ''and'', ws nm, kw nm ''stdin'', ws nm, kw nm ''is'', ws nm]
       (p_bind (p_alt [parse_multiline_string nm, quoted_text nm]) (\<lambda>v. p_seq [ws nm] (p_return v)))"

definition parse_and_args_clause :: "parse_libs \<Rightarrow> string parser" where
  "parse_and_args_clause nm =
     p_seq [kw nm ''and'', ws nm, kw nm ''args'', ws nm, kw nm ''are'', ws nm]
       (p_bind (parse_multiline_string nm) (\<lambda>v. p_seq [ws nm] (p_return v)))"

definition parse_and_options_clause :: "parse_libs \<Rightarrow> string parser" where
  "parse_and_options_clause nm =
     p_seq [kw nm ''and'', ws nm, kw nm ''options'', ws nm, kw nm ''are'', ws nm]
       (p_bind (parse_multiline_string nm) (\<lambda>v. p_seq [ws nm] (p_return v)))"

text \<open>The clauses that follow a \<^verbatim>\<open>when\<close>: later ones of a kind replace earlier ones.\<close>

definition no_clauses :: it_block where
  "no_clauses = \<lparr> it_name = [], it_mocks = [], it_when = ExecutingPipeline [], it_variables = [],
     it_input = None, it_body = None, it_headers = None, it_cookies = None, it_stdin = None,
     it_args = None, it_options = None, it_conditions = [], it_location = default_location \<rparr>"

definition set_clause :: "string \<Rightarrow> string \<Rightarrow> it_block \<Rightarrow> it_block" where
  "set_clause kind v t =
     (if kind = ''input'' then t\<lparr>it_input := Some v\<rparr>
      else if kind = ''body'' then t\<lparr>it_body := Some v\<rparr>
      else if kind = ''headers'' then t\<lparr>it_headers := Some v\<rparr>
      else if kind = ''cookies'' then t\<lparr>it_cookies := Some v\<rparr>
      else t)"

primrec parse_clauses :: "nat \<Rightarrow> parse_libs \<Rightarrow> bool \<Rightarrow> it_block \<Rightarrow> it_block parser" where
  "parse_clauses 0 nm first_with t i = Unfinished"
| "parse_clauses (Suc n) nm first_with t i =
     (case (if first_with then parse_with_clause nm else parse_and_with_clause nm) i of
        Parsed j (kind, v) \<Rightarrow> parse_clauses n nm False (set_clause kind v t) j
      | Unfinished \<Rightarrow> Unfinished
      | _ \<Rightarrow>
        (case parse_and_stdin_clause nm i of
           Parsed j v \<Rightarrow> parse_clauses n nm False (t\<lparr>it_stdin := Some v\<rparr>) j
         | Unfinished \<Rightarrow> Unfinished
         | _ \<Rightarrow>
           (case parse_and_args_clause nm i of
              Parsed j v \<Rightarrow> parse_clauses n nm False (t\<lparr>it_args := Some v\<rparr>) j
            | Unfinished \<Rightarrow> Unfinished
            | _ \<Rightarrow>
              (case parse_and_options_clause nm i of
                 Parsed j v \<Rightarrow> parse_clauses n nm False (t\<lparr>it_options := Some v\<rparr>) j
               | Unfinished \<Rightarrow> Unfinished
               | _ \<Rightarrow> Parsed i t))))"

text \<open>The let bindings of a test, with the white space after each.\<close>

primrec parse_lets :: "nat \<Rightarrow> parse_libs \<Rightarrow> (string \<times> string \<times> let_value_format) list parser" where
  "parse_lets 0 nm i = Unfinished"
| "parse_lets (Suc n) nm i =
     (case parse_let_binding nm i of
        Parsed j b \<Rightarrow> p_seq [skip_ws_and_comments nm] (p_map (Cons b) (parse_lets n nm)) j
      | Unfinished \<Rightarrow> Unfinished
      | _ \<Rightarrow> Parsed i [])"

definition parse_it :: "parse_libs \<Rightarrow> it_block parser" where
  "parse_it nm =
     p_seq [skip_ws_and_comments nm] (p_bind p_here (\<lambda>it_start.
       p_seq [kw nm ''it'', ws nm, sym nm (CHR 0x22)] (p_bind (matched (nm_take_until nm [CHR 0x22])) (\<lambda>name.
         p_seq [sym nm (CHR 0x22), skip_ws_and_comments nm] (p_bind (p_many0 (parse_mock nm)) (\<lambda>mocks.
           p_bind (\<lambda>i. parse_lets (Suc (sp_left i)) nm i) (\<lambda>variables.
             p_seq [kw nm ''when'', skip_ws_and_comments nm] (p_bind (parse_when nm) (\<lambda>when_part.
               p_seq [skip_ws_and_comments nm] (p_bind (\<lambda>i. parse_clauses (Suc (sp_left i)) nm True no_clauses i) (\<lambda>t.
                 p_seq [skip_ws_and_comments nm] (p_bind (p_many0 (parse_and_mock nm)) (\<lambda>extra_mocks.
                   p_seq [skip_ws_and_comments nm]
                     (p_map (\<lambda>conditions. t\<lparr>it_name := name, it_mocks := mocks @ extra_mocks, it_when := when_part,
                          it_variables := variables, it_conditions := conditions,
                          it_location := location_from_span nm it_start\<rparr>)
                       (p_many0 (parse_condition nm))))))))))))))))"

text \<open>A suite: bindings, mocks and tests in any order.\<close>

primrec parse_suite :: "nat \<Rightarrow> parse_libs \<Rightarrow> describe_block \<Rightarrow> describe_block parser" where
  "parse_suite 0 nm d remaining = Unfinished"
| "parse_suite (Suc n) nm d remaining =
     (case skip_ws_and_comments nm remaining of
        Parsed i _ \<Rightarrow>
          (case parse_let_binding nm i of
             Parsed j b \<Rightarrow> parse_suite n nm (d\<lparr>de_variables := de_variables d @ [b]\<rparr>) j
           | Unfinished \<Rightarrow> Unfinished
           | _ \<Rightarrow>
             (case parse_mock nm i of
                Parsed j m \<Rightarrow> parse_suite n nm (d\<lparr>de_mocks := de_mocks d @ [m]\<rparr>) j
              | Unfinished \<Rightarrow> Unfinished
              | _ \<Rightarrow>
                (case parse_and_mock nm i of
                   Parsed j m \<Rightarrow> parse_suite n nm (d\<lparr>de_mocks := de_mocks d @ [m]\<rparr>) j
                 | Unfinished \<Rightarrow> Unfinished
                 | _ \<Rightarrow>
                   (case parse_it nm i of
                      Parsed j t \<Rightarrow> parse_suite n nm (d\<lparr>de_tests := de_tests d @ [t]\<rparr>) j
                    | Unfinished \<Rightarrow> Unfinished
                    | _ \<Rightarrow> Parsed remaining d))))
      | Failed \<Rightarrow> Failed | Aborted \<Rightarrow> Aborted | Unfinished \<Rightarrow> Unfinished)"

definition parse_describe :: "parse_libs \<Rightarrow> describe_block parser" where
  "parse_describe nm =
     p_seq [skip_ws_and_comments nm] (p_bind p_here (\<lambda>describe_start.
       p_seq [kw nm ''describe'', ws nm, sym nm (CHR 0x22)] (p_bind (matched (nm_take_until nm [CHR 0x22])) (\<lambda>name.
         p_seq [sym nm (CHR 0x22), skip_ws_and_comments nm]
           (\<lambda>i. parse_suite (Suc (sp_left i)) nm
              \<lparr> de_name = name, de_variables = [], de_mocks = [], de_tests = [],
                de_location = location_from_span nm describe_start \<rparr> i)))))"

section \<open>Programs\<close>

definition program_new :: program where
  "program_new = \<lparr> pr_configs = [], pr_imports = [], pr_pipelines = [], pr_variables = [], pr_routes = [],
     pr_describes = [], pr_graphql_schema = None, pr_queries = [], pr_mutations = [], pr_resolvers = [],
     pr_feature_flags = None \<rparr>"

text \<open>One declaration of a program: what it adds, or a duplicate alias.\<close>

definition first_of :: "'a parser \<Rightarrow> (span \<Rightarrow> 'a \<Rightarrow> 'b presult) \<Rightarrow> 'b parser \<Rightarrow> 'b parser" where
  "first_of p f q i =
     (case p i of Parsed j x \<Rightarrow> f j x | Unfinished \<Rightarrow> Unfinished | _ \<Rightarrow> q i)"

definition keep :: "('a \<Rightarrow> 'b) \<Rightarrow> span \<Rightarrow> 'a \<Rightarrow> 'b presult" where
  "keep f j x = Parsed j (f x)"

definition add_import :: "import_stmt \<Rightarrow> program \<Rightarrow> program option" where
  "add_import imp prog =
     (if \<exists>i \<in> set (pr_imports prog). imp_alias i = imp_alias imp then None
      else Some (prog\<lparr>pr_imports := pr_imports prog @ [imp]\<rparr>))"

definition parse_element :: "parse_libs \<Rightarrow> program \<Rightarrow> program parser" where
  "parse_element nm prog =
     (first_of (parse_config nm) (keep (\<lambda>c. prog\<lparr>pr_configs := pr_configs prog @ [c]\<rparr>))
     (first_of (parse_import nm)
        (\<lambda>j imp. case add_import imp prog of None \<Rightarrow> Aborted | Some prog' \<Rightarrow> Parsed j prog')
     (first_of (parse_feature_flags nm) (keep (\<lambda>p. prog\<lparr>pr_feature_flags := Some p\<rparr>))
     (first_of (parse_graphql_schema nm) (keep (\<lambda>s. prog\<lparr>pr_graphql_schema := Some s\<rparr>))
     (first_of (parse_query_resolver nm) (keep (\<lambda>q. prog\<lparr>pr_queries := pr_queries prog @ [q]\<rparr>))
     (first_of (parse_mutation_resolver nm) (keep (\<lambda>m. prog\<lparr>pr_mutations := pr_mutations prog @ [m]\<rparr>))
     (first_of (parse_type_resolver nm) (keep (\<lambda>r. prog\<lparr>pr_resolvers := pr_resolvers prog @ [r]\<rparr>))
     (first_of (parse_named_pipeline nm) (keep (\<lambda>p. prog\<lparr>pr_pipelines := pr_pipelines prog @ [p]\<rparr>))
     (first_of (parse_variable nm) (keep (\<lambda>v. prog\<lparr>pr_variables := pr_variables prog @ [v]\<rparr>))
     (first_of (parse_route nm) (keep (\<lambda>r. prog\<lparr>pr_routes := pr_routes prog @ [r]\<rparr>))
     (first_of (parse_describe nm) (keep (\<lambda>d. prog\<lparr>pr_describes := pr_describes prog @ [d]\<rparr>))
     (p_map (\<lambda>_. prog) (rest_of_line nm)))))))))))))"

text \<open>The loop; it ends where neither a declaration nor a line can be read.\<close>

primrec parse_elements :: "nat \<Rightarrow> parse_libs \<Rightarrow> program \<Rightarrow> program parser" where
  "parse_elements 0 nm prog remaining = Unfinished"
| "parse_elements (Suc n) nm prog remaining =
     (if sp_fragment remaining = [] then Parsed remaining prog
      else case skip_ws_and_comments nm remaining of
        Parsed i _ \<Rightarrow>
          (if sp_fragment i = [] then Parsed remaining prog
           else case parse_element nm prog i of
             Parsed j prog' \<Rightarrow> parse_elements n nm prog' j
           | Failed \<Rightarrow> Parsed remaining prog
           | Aborted \<Rightarrow> Aborted
           | Unfinished \<Rightarrow> Unfinished)
      | Failed \<Rightarrow> Failed | Aborted \<Rightarrow> Aborted | Unfinished \<Rightarrow> Unfinished)"

definition parse_program :: "parse_libs \<Rightarrow> string \<Rightarrow> program presult" where
  "parse_program nm input =
     p_seq [skip_ws_and_comments nm] (\<lambda>i. parse_elements (Suc (sp_left i)) nm program_new i) (span_new input)"

end
