(* ===== verification/Parser_Total.thy ===== *)
theory Parser_Total
  imports Parser_Program
begin

text \<open>
  The parser returns on every text. A parser \<open>runs\<close> up to a length of input and by an amount when,
  on inputs no longer, its bounds suffice and a success has consumed that amount; each definition of
  the grammar runs because its parts do, and the recursion passes through a parser that consumes.
\<close>

named_theorems run_intros \<open>how the combinators run\<close>

definition runs :: "nat \<Rightarrow> nat \<Rightarrow> 'a parser \<Rightarrow> bool" where
  "runs k d p \<longleftrightarrow>
     (\<forall>i. sp_left i \<le> k \<longrightarrow> p i \<noteq> Unfinished \<and> (\<forall>j x. p i = Parsed j x \<longrightarrow> sp_left j + d \<le> sp_left i))"

lemma runsD: "runs k d p \<Longrightarrow> sp_left i \<le> k \<Longrightarrow> p i \<noteq> Unfinished \<and> (\<forall>j x. p i = Parsed j x \<longrightarrow> sp_left j + d \<le> sp_left i)"
  by (simp add: runs_def)

lemma runs_le: "runs k d p \<Longrightarrow> k' \<le> k \<Longrightarrow> d' \<le> d \<Longrightarrow> runs k' d' p"
  unfolding runs_def by (meson add_le_mono le_refl le_trans)

lemma runs_return [run_intros]: "runs k 0 (p_return x)"
  by (simp add: runs_def p_return_def)

lemma runs_here [run_intros]: "runs k 0 p_here"
  by (simp add: runs_def p_here_def)

lemma runs_fail [run_intros]: "runs k d (\<lambda>_. Failed)" "runs k d (\<lambda>_. Aborted)"
  by (simp_all add: runs_def)

lemma runs_if [run_intros]: "runs k d p \<Longrightarrow> runs k d q \<Longrightarrow> runs k d (if b then p else q)"
  by simp

lemma runs_bind [run_intros]:
  assumes "runs k 0 p" and "\<And>x. runs k 0 (f x)"
  shows "runs k 0 (p_bind p f)"
  unfolding runs_def
proof (intro allI impI)
  fix i :: span
  assume i: "sp_left i \<le> k"
  show "p_bind p f i \<noteq> Unfinished \<and> (\<forall>j x. p_bind p f i = Parsed j x \<longrightarrow> sp_left j + 0 \<le> sp_left i)"
  proof (cases "p i")
    case (Parsed j x)
    then have "sp_left j \<le> sp_left i" using runsD [OF assms(1) i] by simp
    with i Parsed runsD [OF assms(2), of j x] show ?thesis by (fastforce simp: p_bind_def)
  qed (use runsD [OF assms(1) i] in \<open>auto simp: p_bind_def\<close>)
qed

text \<open>After a parser that consumes, the rest need only run on shorter inputs.\<close>

lemma runs_bind_less:
  assumes "runs k (Suc 0) p" and "\<And>x. 0 < k \<Longrightarrow> runs (k - 1) 0 (f x)"
  shows "runs k (Suc 0) (p_bind p f)"
  unfolding runs_def
proof (intro allI impI)
  fix i :: span
  assume i: "sp_left i \<le> k"
  show "p_bind p f i \<noteq> Unfinished \<and> (\<forall>j x. p_bind p f i = Parsed j x \<longrightarrow> sp_left j + Suc 0 \<le> sp_left i)"
  proof (cases "p i")
    case (Parsed j x)
    then have less: "sp_left j + Suc 0 \<le> sp_left i" using runsD [OF assms(1) i] by simp
    then have "0 < k" "sp_left j \<le> k - 1" using i by auto
    with less Parsed runsD [OF assms(2), of j x] show ?thesis by (fastforce simp: p_bind_def)
  qed (use runsD [OF assms(1) i] in \<open>auto simp: p_bind_def\<close>)
qed

lemma runs_bind_first: "runs k (Suc 0) p \<Longrightarrow> (\<And>x. runs k 0 (f x)) \<Longrightarrow> runs k (Suc 0) (p_bind p f)"
  by (erule runs_bind_less) (rule runs_le [where k = k], auto)

lemma runs_bind_later:
  assumes "runs k 0 p" and "\<And>x. runs k (Suc 0) (f x)"
  shows "runs k (Suc 0) (p_bind p f)"
  unfolding runs_def
proof (intro allI impI)
  fix i :: span
  assume i: "sp_left i \<le> k"
  show "p_bind p f i \<noteq> Unfinished \<and> (\<forall>j x. p_bind p f i = Parsed j x \<longrightarrow> sp_left j + Suc 0 \<le> sp_left i)"
  proof (cases "p i")
    case (Parsed j x)
    then have "sp_left j \<le> sp_left i" using runsD [OF assms(1) i] by simp
    with i Parsed runsD [OF assms(2), of j x] show ?thesis by (fastforce simp: p_bind_def)
  qed (use runsD [OF assms(1) i] in \<open>auto simp: p_bind_def\<close>)
qed

lemma runs_map [run_intros]: "runs k 0 p \<Longrightarrow> runs k 0 (p_map f p)"
  unfolding p_map_def by (intro runs_bind runs_return)

lemma runs_map_first: "runs k (Suc 0) p \<Longrightarrow> runs k (Suc 0) (p_map f p)"
  unfolding p_map_def by (intro runs_bind_first runs_return)

lemma runs_drop [run_intros]: "runs k 0 p \<Longrightarrow> runs k 0 (p_drop p)"
  unfolding p_drop_def by (rule runs_map)

lemma runs_drop_first: "runs k (Suc 0) p \<Longrightarrow> runs k (Suc 0) (p_drop p)"
  unfolding p_drop_def by (rule runs_map_first)

lemma runs_map_res [run_intros]: "runs k 0 p \<Longrightarrow> runs k 0 (p_map_res f p)"
  unfolding p_map_res_def by (auto intro!: run_intros split: option.split)

lemma runs_map_res_first: "runs k (Suc 0) p \<Longrightarrow> runs k (Suc 0) (p_map_res f p)"
  unfolding p_map_res_def by (auto intro!: runs_bind_first run_intros split: option.split)

lemma runs_seq_Nil [run_intros]: "runs k d q \<Longrightarrow> runs k d (p_seq [] q)"
  by simp

lemma runs_seq [run_intros]: "runs k 0 p \<Longrightarrow> runs k 0 (p_seq ps q) \<Longrightarrow> runs k 0 (p_seq (p # ps) q)"
  by (simp add: runs_bind)

lemma runs_seq_less: "runs k (Suc 0) p \<Longrightarrow> (0 < k \<Longrightarrow> runs (k - 1) 0 (p_seq ps q)) \<Longrightarrow> runs k (Suc 0) (p_seq (p # ps) q)"
  by (simp add: runs_bind_less)

lemma runs_seq_first: "runs k (Suc 0) p \<Longrightarrow> runs k 0 (p_seq ps q) \<Longrightarrow> runs k (Suc 0) (p_seq (p # ps) q)"
  by (simp add: runs_bind_first)

lemma runs_seq_later: "runs k 0 p \<Longrightarrow> runs k (Suc 0) (p_seq ps q) \<Longrightarrow> runs k (Suc 0) (p_seq (p # ps) q)"
  by (simp add: runs_bind_later)

lemma runs_from_here:
  "runs k 0 p \<Longrightarrow> (\<And>start. runs k (Suc 0) (q start)) \<Longrightarrow> runs k (Suc 0) (p_seq [p] (p_bind p_here q))"
  by (intro runs_seq_later runs_seq_Nil runs_bind_later runs_here)

lemma runs_alt_Nil [run_intros]: "runs k d (p_alt [])"
  by (simp add: runs_def)

lemma runs_alt [run_intros]: "runs k d p \<Longrightarrow> runs k d (p_alt ps) \<Longrightarrow> runs k d (p_alt (p # ps))"
proof (cases ps)
  case (Cons q qs)
  assume "runs k d p" "runs k d (p_alt ps)"
  with Cons show ?thesis by (auto simp: runs_def split: presult.split)
qed simp

lemma runs_opt [run_intros]: "runs k 0 p \<Longrightarrow> runs k 0 (p_opt p)"
  by (auto simp: runs_def p_opt_def split: presult.splits)

lemma runs_recognize: "runs k d p \<Longrightarrow> runs k d (p_recognize p)"
  by (auto simp: runs_def p_recognize_def split: presult.splits)

lemma runs_many: "runs k 0 p \<Longrightarrow> sp_left i \<le> k \<Longrightarrow> sp_left i < n \<Longrightarrow>
  p_many n p i \<noteq> Unfinished \<and> (\<forall>j x. p_many n p i = Parsed j x \<longrightarrow> sp_left j \<le> sp_left i)"
proof (induction n arbitrary: i)
  case (Suc n)
  show ?case
  proof (cases "p i")
    case (Parsed j x)
    then have le: "sp_left j \<le> sp_left i" using runsD [OF Suc.prems(1,2)] by simp
    show ?thesis
    proof (cases "sp_left j = sp_left i")
      case False
      then have "sp_left j \<le> k" "sp_left j < n" using le Suc.prems by auto
      from Suc.IH [OF Suc.prems(1) this] Parsed False le show ?thesis
        by (cases "p_many n p j") (auto simp: p_map_def p_bind_def p_return_def)
    qed (simp add: Parsed)
  qed (use runsD [OF Suc.prems(1,2)] in auto)
qed simp

lemma runs_many0 [run_intros]: "runs k 0 p \<Longrightarrow> runs k 0 (p_many0 p)"
  unfolding runs_def [of _ _ "p_many0 p"] p_many0_def using runs_many by fastforce

lemma runs_rest: "runs k 0 sep \<Longrightarrow> runs k 0 p \<Longrightarrow> sp_left i \<le> k \<Longrightarrow> sp_left i < n \<Longrightarrow>
  p_rest n sep p i \<noteq> Unfinished \<and> (\<forall>j x. p_rest n sep p i = Parsed j x \<longrightarrow> sp_left j \<le> sp_left i)"
proof (induction n arbitrary: i)
  case (Suc n)
  show ?case
  proof (cases "sep i")
    case (Parsed j u)
    then have le: "sp_left j \<le> sp_left i" using runsD [OF Suc.prems(1,3)] by simp
    then have jk: "sp_left j \<le> k" using Suc.prems(3) by simp
    show ?thesis
    proof (cases "p j")
      case (Parsed l x)
      then have le2: "sp_left l \<le> sp_left j" using runsD [OF Suc.prems(2) jk] by simp
      show ?thesis
      proof (cases "sp_left l = sp_left i")
        case False
        then have "sp_left l \<le> k" "sp_left l < n" using le le2 Suc.prems by auto
        from Suc.IH [OF Suc.prems(1,2) this] \<open>sep i = Parsed j u\<close> Parsed False le le2 show ?thesis
          by (cases "p_rest n sep p l") (auto simp: p_map_def p_bind_def p_return_def)
      qed (simp add: \<open>sep i = Parsed j u\<close> Parsed)
    qed (use runsD [OF Suc.prems(2) jk] Parsed in auto)
  qed (use runsD [OF Suc.prems(1,3)] in auto)
qed simp

lemma runs_separated_list1 [run_intros]:
  assumes "runs k 0 sep" and "runs k 0 p"
  shows "runs k 0 (p_separated_list1 sep p)"
proof -
  have "runs k 0 (\<lambda>i. p_rest (Suc (sp_left i)) sep p i)"
    unfolding runs_def using runs_rest [OF assms] by fastforce
  with assms show ?thesis unfolding p_separated_list1_def by (intro run_intros)
qed

lemma runs_matched:
  assumes "\<And>s n. m s = Some n \<Longrightarrow> d \<le> n \<and> n \<le> length s"
  shows "runs k d (matched m)"
  using assms by (fastforce simp: runs_def matched_def sp_left_def split: option.split)

lemma length_takeWhile_le': "length (takeWhile f s) \<le> length s"
  by (rule length_takeWhile_le)

lemma char_bytes_le: "char_bytes n s = Some m \<Longrightarrow> m \<le> length s"
proof (induction n arbitrary: s m)
  case (Suc n)
  have "length (first_char s) \<le> length s" by (cases s) (auto simp: first_char_def)
  with Suc show ?case by (fastforce split: if_splits)
qed simp

lemma char_bytes_pos: "char_bytes (Suc n) s = Some m \<Longrightarrow> 0 < m"
  by (cases s) (auto simp: first_char_def utf8_len_def Let_def split: if_splits)

lemma find_sub_le: "find_sub p s = Some n \<Longrightarrow> n \<le> length s"
  using find_sub_bound by fastforce

context nom_laws
begin

lemma runs_ws [run_intros]: "runs k 0 (ws nm)"
  unfolding ws_def
  by (intro run_intros runs_matched) (auto simp: multispace0_law length_takeWhile_le)

lemma runs_kw [run_intros]: "runs k 0 (kw nm t)"
  unfolding kw_def
  by (intro run_intros runs_matched) (auto simp: tag_law starts_with_length split: if_splits)

lemma runs_kw_first: "t \<noteq> [] \<Longrightarrow> runs k (Suc 0) (kw nm t)"
  unfolding kw_def
  by (intro runs_drop_first runs_matched) (auto simp: tag_law starts_with_length Suc_le_eq split: if_splits)

lemma runs_word [run_intros]: "runs k 0 (word_of nm t)"
  unfolding word_of_def
  by (intro runs_matched) (auto simp: tag_law starts_with_length split: if_splits)

lemma runs_word_first: "t \<noteq> [] \<Longrightarrow> runs k (Suc 0) (word_of nm t)"
  unfolding word_of_def
  by (intro runs_matched) (auto simp: tag_law starts_with_length Suc_le_eq split: if_splits)

lemma runs_sym_first: "runs k (Suc 0) (sym nm c)"
  unfolding sym_def
  by (intro runs_drop_first runs_matched) (auto simp: char_law dest: starts_with_length split: if_splits)

lemma runs_sym [run_intros]: "runs k 0 (sym nm c)"
  by (rule runs_le [OF runs_sym_first [of k]]) simp_all

lemma nonzero_le: "nonzero (length (takeWhile f s)) = Some n \<Longrightarrow> 0 < n \<and> n \<le> length s"
  by (auto simp: nonzero_def length_takeWhile_le split: if_splits)

lemma runs_first:
  "runs k (Suc 0) (matched (nm_multispace1 nm))" "runs k (Suc 0) (matched (nm_alphanumeric1 nm))"
  "runs k (Suc 0) (matched (nm_digit1 nm))" "runs k (Suc 0) (matched (nm_take_till1 nm f))"
  by (auto intro!: runs_matched dest: nonzero_le
      simp: multispace1_law alphanumeric1_law digit1_law take_till1_law Suc_le_eq)

lemma runs_lib [run_intros]:
  "runs k 0 (matched (nm_multispace1 nm))" "runs k 0 (matched (nm_alphanumeric1 nm))"
  "runs k 0 (matched (nm_digit1 nm))" "runs k 0 (matched (nm_take_till1 nm f))"
  "runs k 0 (matched (nm_take nm n))" "runs k 0 (matched (nm_take_until nm [c]))"
  "runs k 0 (matched (nm_take_while nm f))"
  by (auto intro!: runs_matched dest: char_bytes_le find_sub_le nonzero_le
      simp: take_law take_until_law take_while_law length_takeWhile_le multispace1_law alphanumeric1_law
        digit1_law take_till1_law)

end


section \<open>Texts, tags and regular steps\<close>

context nom_laws
begin

lemma skip_comments_runs:
  "sp_left i < n \<Longrightarrow> skip_comments n nm i \<noteq> Unfinished \<and>
     (\<forall>j x. skip_comments n nm i = Parsed j x \<longrightarrow> sp_left j \<le> sp_left i)"
proof (induction n arbitrary: i)
  case (Suc n)
  define j where "j = advance (length (takeWhile is_multispace (sp_fragment i))) i"
  have ws: "ws nm i = Parsed j ()" and j: "sp_left j \<le> sp_left i" by (simp_all add: j_def ws_run)
  show ?case
  proof (cases "starts_with ''#'' (sp_fragment j)")
    case True
    define count where "count = (case find_sub [newline] (sp_fragment j) of
        Some p \<Rightarrow> p + 1 | None \<Rightarrow> length (sp_fragment j))"
    have "sp_fragment j \<noteq> []" using True by (auto simp: starts_with_def)
    then have "0 < count" by (simp add: count_def split: option.split)
    then obtain c where c: "count = Suc c" by (cases count) auto
    show ?thesis
    proof (cases "char_bytes count (sp_fragment j)")
      case (Some m)
      have "0 < m" "m \<le> sp_left j"
        using char_bytes_pos [of c] char_bytes_le [OF Some] Some c by (simp_all add: sp_left_def del: char_bytes.simps)
      then have less: "sp_left (advance m j) < n" "sp_left (advance m j) \<le> sp_left i" using Suc.prems j by auto
      have "skip_comments (Suc n) nm i = skip_comments n nm (advance m j)"
        using True Some by (simp add: ws Let_def matched_def take_law count_def [symmetric])
      with Suc.IH [OF less(1)] less(2) show ?thesis by fastforce
    qed (use True in \<open>simp add: ws Let_def matched_def take_law count_def [symmetric]\<close>)
  qed (use j in \<open>simp add: ws\<close>)
qed simp

lemma runs_skip [run_intros]: "runs k 0 (skip_ws_and_comments nm)"
  unfolding runs_def skip_ws_and_comments_def using skip_comments_runs by fastforce

lemma runs_delimited: "runs k (Suc 0) (delimited_text nm c)"
  unfolding delimited_text_def by (intro runs_bind_first runs_seq_first run_intros runs_sym_first)

lemma runs_multiline: "runs k (Suc 0) (parse_multiline_string nm)"
  unfolding parse_multiline_string_def by (rule runs_delimited)

lemma runs_quoted: "runs k (Suc 0) (quoted_text nm)"
  unfolding quoted_text_def by (rule runs_delimited)

lemma runs_method: "runs k (Suc 0) (parse_method nm)"
  unfolding parse_method_def by (intro run_intros runs_word_first) simp_all

lemma runs_identifier: "runs k (Suc 0) (parse_identifier nm)"
  unfolding parse_identifier_def
  by (intro runs_recognize runs_bind_first run_intros runs_first runs_word_first) simp

lemma runs_texts [run_intros]:
  "runs k 0 (parse_multiline_string nm)" "runs k 0 (quoted_text nm)" "runs k 0 (parse_method nm)"
  "runs k 0 (parse_identifier nm)" "runs k 0 (delimited_text nm c)"
  by (rule runs_le [OF _ order_refl], rule runs_multiline runs_quoted runs_method runs_identifier runs_delimited, simp)+

lemma runs_scoped [run_intros]: "runs k 0 (parse_scoped_identifier_string nm)"
proof -
  have "runs k 0 (\<lambda>input. case p_seq [kw nm ''::''] (parse_identifier nm) input of
      Parsed input3 second_part \<Rightarrow> Parsed input3 (first_part @ ''::'' @ second_part)
    | Unfinished \<Rightarrow> Unfinished | _ \<Rightarrow> Parsed input first_part)" for first_part
  proof -
    have "runs k 0 (p_seq [kw nm ''::''] (parse_identifier nm))" by (intro run_intros)
    then show ?thesis by (auto simp: runs_def split: presult.split)
  qed
  then show ?thesis unfolding parse_scoped_identifier_string_def by (intro run_intros)
qed

lemma runs_step_config [run_intros]: "runs k 0 (parse_step_config nm)"
  unfolding parse_step_config_def by (intro run_intros)

lemma runs_config_value [run_intros]: "runs k 0 (parse_config_value nm)"
  unfolding parse_config_value_def by (intro run_intros)

lemma runs_config_property [run_intros]: "runs k 0 (parse_config_property nm)"
  unfolding parse_config_property_def by (intro run_intros)

lemma runs_config: "runs k (Suc 0) (parse_config nm)"
  unfolding parse_config_def by (rule runs_seq_first [OF runs_kw_first]) (simp, intro run_intros)

lemma runs_tag_args [run_intros]: "runs k 0 (parse_tag_args nm)"
  unfolding parse_tag_args_def parse_tag_argument_def by (intro run_intros)

lemma runs_tag: "runs k (Suc 0) (parse_tag nm)"
  unfolding parse_tag_def by (rule runs_seq_first [OF runs_sym_first]) (intro run_intros)

lemma runs_primary:
  assumes "0 < k \<Longrightarrow> runs (k - 1) 0 g"
  shows "runs k (Suc 0) (parse_tag_primary nm g)"
proof -
  have "runs k (Suc 0) (p_seq [sym nm (CHR ''(''), ws nm] g)"
    by (rule runs_seq_less [OF runs_sym_first]) (use assms in \<open>auto intro!: run_intros\<close>)
  then show ?thesis
    unfolding parse_tag_primary_def by (intro run_intros runs_bind_first runs_map_first runs_tag)
qed

lemma runs_or_expr:
  assumes "0 < k \<Longrightarrow> runs (k - 1) 0 g"
  shows "runs k 0 (parse_or_expr nm g)"
proof -
  have "runs k 0 (parse_tag_primary nm g)" by (rule runs_le [OF runs_primary [OF assms]]) simp_all
  then have "runs k 0 (parse_and_expr nm g)" unfolding parse_and_expr_def by (intro run_intros)
  then show ?thesis unfolding parse_or_expr_def by (intro run_intros)
qed

lemma runs_grouped: "runs n 0 (parse_grouped (Suc n) nm)"
proof (induction n)
  case 0
  show ?case using runs_or_expr [of 0] by simp
next
  case (Suc n)
  then show ?case using runs_or_expr [of "Suc n" "parse_grouped (Suc n) nm"] by simp
qed

lemma runs_tag_expr [run_intros]: "runs k 0 (parse_tag_expr nm)"
  unfolding runs_def parse_tag_expr_def using runsD [OF runs_grouped] by fastforce

lemma runs_blanks [run_intros]: "runs k 0 (skip_blanks nm)"
  unfolding skip_blanks_def by (intro run_intros)

lemma more_tags_runs:
  "sp_left i < n \<Longrightarrow> more_tags n nm e i \<noteq> Unfinished \<and>
     (\<forall>j x. more_tags n nm e i = Parsed j x \<longrightarrow> sp_left j \<le> sp_left i)"
proof (induction n arbitrary: i e)
  case (Suc n)
  have "sp_left i \<le> sp_left i" by simp
  note b = runsD [OF runs_blanks this]
  show ?case
  proof (cases "skip_blanks nm i")
    case (Parsed r u)
    then have r: "sp_left r \<le> sp_left i" using b by simp
    show ?thesis
    proof (cases "starts_with ''@'' (sp_fragment r)")
      case True
      note t = runsD [OF runs_tag [of "sp_left r"] order_refl]
      show ?thesis
      proof (cases "parse_tag nm r")
        case (Parsed j x)
        then have "sp_left j < n" "sp_left j \<le> sp_left i" using t r Suc.prems by fastforce+
        with Suc.IH [of j "AndE e (TagE x)"] Parsed \<open>skip_blanks nm i = Parsed r u\<close> True show ?thesis by fastforce
      qed (use t \<open>skip_blanks nm i = Parsed r u\<close> True in auto)
    qed (simp add: Parsed)
  qed (use b in auto)
qed simp

lemma runs_step_condition [run_intros]: "runs k 0 (parse_step_condition nm)"
proof -
  have "runs k 0 (\<lambda>j. more_tags (Suc (sp_left j)) nm e j)" for e
    unfolding runs_def using more_tags_runs by fastforce
  then have "runs k 0 (p_map Some (p_bind (parse_tag_expr nm) (\<lambda>e j. more_tags (Suc (sp_left j)) nm e j)))"
    by (intro run_intros)
  then have "runs k 0 (\<lambda>input. if \<not> starts_with ''@'' (sp_fragment input) \<and> \<not> starts_with ''('' (sp_fragment input)
      then Parsed input None
      else p_map Some (p_bind (parse_tag_expr nm) (\<lambda>e j. more_tags (Suc (sp_left j)) nm e j)) input)"
    by (auto simp: runs_def)
  then show ?thesis unfolding parse_step_condition_def by (intro run_intros)
qed

lemma runs_inline_args [run_intros]: "runs k 0 (parse_inline_args nm)"
proof -
  have "runs k 0 (\<lambda>j. case find_close c c' 0 False False 0 (sp_fragment j) of
      None \<Rightarrow> Failed
    | Some end_pos \<Rightarrow> p_map (\<lambda>_. split_balanced_args (take end_pos (sp_fragment j)))
        (matched (nm_take nm (end_pos + 1))) j)" for c c'
  proof -
    have "runs k 0 (p_map (\<lambda>_. x) (matched (nm_take nm m)))" for x :: "string list" and m by (intro run_intros)
    then show ?thesis by (auto simp: runs_def split: option.split)
  qed
  then have "runs k 0 (p_seq [sym nm c] (\<lambda>j. case find_close c c' 0 False False 0 (sp_fragment j) of
      None \<Rightarrow> Failed
    | Some end_pos \<Rightarrow> p_map (\<lambda>_. split_balanced_args (take end_pos (sp_fragment j)))
        (matched (nm_take nm (end_pos + 1))) j))" for c c'
    by (intro run_intros)
  note part = this
  show ?thesis
    unfolding runs_def parse_inline_args_def Let_def
    using runsD [OF part] by (auto simp del: p_seq.simps)
qed

lemma runs_regular_step: "runs k (Suc 0) (parse_regular_step nm)"
  unfolding parse_regular_step_def Let_def case_prod_unfold
  by (rule runs_from_here [OF runs_skip], rule runs_seq_first [OF runs_kw_first]) (simp, intro run_intros)

end


section \<open>Pipelines\<close>

context nom_laws
begin

lemma runs_if_step:
  assumes "0 < k \<Longrightarrow> runs (k - 1) 0 pp"
  shows "runs k (Suc 0) (parse_if_step nm pp)"
  unfolding parse_if_step_def
  by (rule runs_from_here [OF runs_skip], rule runs_seq_less [OF runs_kw_first], simp)
    (use assms in \<open>(intro run_intros; assumption?)\<close>)

lemma runs_dispatch_branch [run_intros]: "runs k 0 pp \<Longrightarrow> runs k 0 (parse_dispatch_branch nm pp)"
  unfolding parse_dispatch_branch_def by (intro run_intros; assumption)

lemma runs_dispatch_step:
  assumes "0 < k \<Longrightarrow> runs (k - 1) 0 pp"
  shows "runs k (Suc 0) (parse_dispatch_step nm pp)"
  unfolding parse_dispatch_step_def
  by (rule runs_from_here [OF runs_skip], rule runs_seq_less [OF runs_kw_first], simp)
    (use assms in \<open>(intro run_intros; assumption?)\<close>)

lemma runs_foreach_step:
  assumes "0 < k \<Longrightarrow> runs (k - 1) 0 pp"
  shows "runs k (Suc 0) (parse_foreach_step nm pp)"
  unfolding parse_foreach_step_def
  by (rule runs_from_here [OF runs_skip], rule runs_seq_less [OF runs_kw_first], simp)
    (use assms in \<open>(intro run_intros; assumption?)\<close>)

lemma runs_result_branch [run_intros]:
  assumes "runs k 0 pp"
  shows "runs k 0 (parse_result_branch nm pp)"
proof -
  have "runs k 0 (case parse_uint 16 status of None \<Rightarrow> (\<lambda>_. Aborted)
      | Some n \<Rightarrow> p_seq [sym nm (CHR '')''), sym nm (CHR '':''), ws nm] (p_map (f n) pp))" for status and f :: "nat \<Rightarrow> pipeline \<Rightarrow> result_branch"
    by (simp del: p_seq.simps split: option.split) (intro conjI allI impI run_intros; simp add: assms)
  note status = this
  show ?thesis unfolding parse_result_branch_def by (intro run_intros; rule status)
qed

lemma runs_result_step:
  assumes "0 < k \<Longrightarrow> runs (k - 1) 0 pp"
  shows "runs k (Suc 0) (parse_result_step nm pp)"
  unfolding parse_result_step_def
  by (rule runs_from_here [OF runs_skip], rule runs_seq_less [OF runs_kw_first], simp)
    (use assms in \<open>(intro run_intros; assumption?)\<close>)

lemma runs_pipeline_step:
  assumes "0 < k \<Longrightarrow> runs (k - 1) 0 pp"
  shows "runs k (Suc 0) (parse_pipeline_step nm pp)"
  unfolding parse_pipeline_step_def
  by (intro runs_alt runs_alt_Nil runs_result_step runs_if_step runs_dispatch_step runs_foreach_step runs_regular_step)
    (use assms in auto)

lemma pipeline_steps_run:
  assumes "0 < k \<Longrightarrow> runs (k - 1) 0 pp"
  shows "sp_left i \<le> k \<Longrightarrow> sp_left i < n \<Longrightarrow> pipeline_steps n nm pp i \<noteq> Unfinished \<and>
    (\<forall>j x. pipeline_steps n nm pp i = Parsed j x \<longrightarrow> sp_left j \<le> sp_left i)"
proof (induction n arbitrary: i)
  case (Suc n)
  note skip = runsD [OF runs_skip [of "sp_left i"] order_refl]
  show ?case
  proof (cases "skip_ws_and_comments nm i")
    case (Parsed r u)
    then have r: "sp_left r \<le> sp_left i" using skip by simp
    then have "sp_left r \<le> k" using Suc.prems by simp
    note step = runsD [OF runs_pipeline_step [OF assms] this]
    show ?thesis
    proof (cases "parse_pipeline_step nm pp r")
      case (Parsed j x)
      then have less: "sp_left j \<le> k" "sp_left j < n" "sp_left j \<le> sp_left i"
        using step r Suc.prems by fastforce+
      from Suc.IH [OF less(1,2)] Parsed \<open>skip_ws_and_comments nm i = Parsed r u\<close> less(3) show ?thesis
        by (cases "pipeline_steps n nm pp j") (auto simp: p_map_def p_bind_def p_return_def)
    qed (use step \<open>skip_ws_and_comments nm i = Parsed r u\<close> in auto)
  qed (use skip in auto)
qed simp

lemma runs_nested: "runs n 0 (parse_nested (Suc n) nm)"
proof (induction n)
  case 0
  have "runs 0 0 (\<lambda>i. pipeline_steps (Suc (sp_left i)) nm (parse_nested 0 nm) i)"
    unfolding runs_def using pipeline_steps_run [of 0] by fastforce
  from runs_map [OF this, of Pipeline] show ?case by (simp add: p_map_def p_bind_def runs_def)
next
  case (Suc n)
  have "runs (Suc n) 0 (\<lambda>i. pipeline_steps (Suc (sp_left i)) nm (parse_nested (Suc n) nm) i)"
    unfolding runs_def using pipeline_steps_run [of "Suc n" "parse_nested (Suc n) nm"] Suc by fastforce
  from runs_map [OF this, of Pipeline] show ?case by (simp add: p_map_def p_bind_def runs_def)
qed

lemma runs_pipeline [run_intros]: "runs k 0 (parse_pipeline nm)"
  unfolding runs_def parse_pipeline_def using runsD [OF runs_nested] by fastforce

end

section \<open>Programs\<close>

context nom_laws
begin

lemma runs_declared: "keyword \<noteq> [] \<Longrightarrow> runs k (Suc 0) (declared nm keyword)"
  unfolding declared_def by (rule runs_seq_first [OF runs_kw_first]) (simp, intro run_intros)

lemma runs_declarations:
  "runs k (Suc 0) (parse_named_pipeline nm)" "runs k (Suc 0) (parse_query_resolver nm)"
  "runs k (Suc 0) (parse_mutation_resolver nm)"
  unfolding parse_named_pipeline_def parse_query_resolver_def parse_mutation_resolver_def
  by (intro runs_map_first runs_declared; simp)+

lemma runs_type_resolver: "runs k (Suc 0) (parse_type_resolver nm)"
  unfolding parse_type_resolver_def by (rule runs_seq_first [OF runs_kw_first]) (simp, intro run_intros)

lemma runs_feature_flags: "runs k (Suc 0) (parse_feature_flags nm)"
  unfolding parse_feature_flags_def by (rule runs_seq_first [OF runs_kw_first]) (simp, intro run_intros)

lemma runs_import: "runs k (Suc 0) (parse_import nm)"
  unfolding parse_import_def
  by (rule runs_bind_later [OF runs_here], rule runs_seq_first [OF runs_kw_first]) (simp, intro run_intros)

lemma runs_variable: "runs k (Suc 0) (parse_variable nm)"
  unfolding parse_variable_def by (rule runs_bind_first [OF runs_identifier]) (intro run_intros)

lemma runs_pipeline_ref [run_intros]: "runs k 0 (parse_pipeline_ref nm)"
  unfolding parse_pipeline_ref_def by (intro run_intros)

lemma runs_route: "runs k (Suc 0) (parse_route nm)"
  unfolding parse_route_def by (rule runs_bind_first [OF runs_method]) (intro run_intros)

lemma runs_graphql_schema: "runs k (Suc 0) (parse_graphql_schema nm)"
  unfolding parse_graphql_schema_def by (rule runs_seq_first [OF runs_kw_first]) (simp, intro run_intros)

lemma runs_test_texts [run_intros]:
  "runs k 0 (rest_of_line nm)" "runs k 0 (up_to_blank nm)" "runs k 0 (any_value nm)"
  unfolding rest_of_line_def up_to_blank_def any_value_def by (intro run_intros)+

lemma runs_when [run_intros]: "runs k 0 (parse_when nm)"
  unfolding parse_when_def by (intro run_intros)

lemma runs_conditions [run_intros]:
  "runs k 0 (parse_call_condition nm ct)" "runs k 0 (parse_field_condition nm ct field)"
  unfolding parse_call_condition_def parse_field_condition_def
  by (intro run_intros; simp add: run_intros del: p_seq.simps)+

lemma runs_selector_condition [run_intros]: "runs k 0 (parse_selector_condition nm ct)"
  unfolding parse_selector_condition_def by (intro run_intros)

lemma runs_condition [run_intros]: "runs k 0 (parse_condition nm)"
  unfolding parse_condition_def Let_def by (intro run_intros; simp add: run_intros)

lemma mock_target_cases:
  fixes i :: span
  defines "scoped \<equiv> \<lambda>t. p_seq [kw nm t] (p_seq [p_drop (matched (nm_multispace1 nm))]
    (p_map (\<lambda>name. t @ ''.'' @ name) (parse_identifier nm)))"
  shows "parse_mock_target nm i \<in> {scoped ''pipeline'' i, scoped ''query'' i, scoped ''mutation'' i,
    matched (nm_take_till1 nm (\<lambda>c. c = CHR 0x20 \<or> c = newline)) i}"
  unfolding parse_mock_target_def scoped_def Let_def p_seq.simps p_bind_def
  by (simp split: presult.split)

lemma runs_mock_target [run_intros]: "runs k 0 (parse_mock_target nm)"
proof -
  have scoped: "runs k 0 (p_seq [kw nm t] (p_seq [p_drop (matched (nm_multispace1 nm))]
      (p_map (\<lambda>name. t @ ''.'' @ name) (parse_identifier nm))))" for t
    by (intro run_intros)
  have till: "runs k 0 (matched (nm_take_till1 nm (\<lambda>c. c = CHR 0x20 \<or> c = newline)))" by (intro run_intros)
  show ?thesis
    unfolding runs_def
  proof (intro allI impI)
    fix i :: span
    assume i: "sp_left i \<le> k"
    from mock_target_cases [of i] show "parse_mock_target nm i \<noteq> Unfinished \<and>
        (\<forall>j x. parse_mock_target nm i = Parsed j x \<longrightarrow> sp_left j + 0 \<le> sp_left i)"
      by (elim insertE emptyE; simp only:) (rule runsD [OF scoped i] runsD [OF till i])+
  qed
qed

lemma runs_mock_after: "word \<noteq> [] \<Longrightarrow> runs k (Suc 0) (mock_after nm word)"
  unfolding mock_after_def
  by (rule runs_seq_later [OF runs_ws], rule runs_seq_first [OF runs_kw_first]) (simp, intro run_intros)

lemma runs_mocks: "runs k (Suc 0) (parse_mock nm)" "runs k (Suc 0) (parse_and_mock nm)"
  unfolding parse_mock_def parse_and_mock_def by (simp_all add: runs_mock_after)

lemma runs_mocks_any [run_intros]: "runs k 0 (parse_mock nm)" "runs k 0 (parse_and_mock nm)"
  by (rule runs_le [OF _ order_refl], rule runs_mocks, simp)+

lemma runs_let_binding: "runs k (Suc 0) (parse_let_binding nm)"
  unfolding parse_let_binding_def
  by (rule runs_seq_first [OF runs_kw_first]) (simp, intro run_intros runs_recognize)

lemma runs_with_body: "runs k (Suc 0) (with_clause_body nm)"
  unfolding with_clause_body_def by (rule runs_seq_first [OF runs_kw_first]) (simp, intro run_intros)

lemma runs_clauses:
  "runs k (Suc 0) (parse_with_clause nm)" "runs k (Suc 0) (parse_and_with_clause nm)"
  "runs k (Suc 0) (parse_and_stdin_clause nm)" "runs k (Suc 0) (parse_and_args_clause nm)"
  "runs k (Suc 0) (parse_and_options_clause nm)"
proof -
  show "runs k (Suc 0) (parse_with_clause nm)" unfolding parse_with_clause_def by (rule runs_with_body)
  show "runs k (Suc 0) (parse_and_with_clause nm)" unfolding parse_and_with_clause_def
    by (intro runs_seq_later runs_seq_Nil run_intros runs_with_body)
qed (unfold parse_and_stdin_clause_def parse_and_args_clause_def parse_and_options_clause_def,
    (rule runs_seq_first [OF runs_kw_first], simp, intro run_intros)+)

end

text \<open>Every remaining parser of a test runs because a round of its loop consumes.\<close>

definition ends :: "nat \<Rightarrow> 'a presult \<Rightarrow> bool" where
  "ends m r \<longleftrightarrow> r \<noteq> Unfinished \<and> (\<forall>j x. r = Parsed j x \<longrightarrow> sp_left j \<le> m)"

lemma runs_parsed: "(\<And>k. runs k d p) \<Longrightarrow> p i = Parsed j x \<Longrightarrow> sp_left j + d \<le> sp_left i"
  using runsD [of "sp_left i" d p i] by simp

lemma runs_finishes: "(\<And>k. runs k d p) \<Longrightarrow> p i \<noteq> Unfinished"
  using runsD [of "sp_left i" d p i] by simp

lemma runs_ends: "(\<And>i. ends (sp_left i) (p i)) \<Longrightarrow> runs k 0 p"
  by (simp add: runs_def ends_def)

lemma ends_le: "ends m r \<Longrightarrow> m \<le> m' \<Longrightarrow> ends m' r"
  by (cases r) (simp_all add: ends_def)

lemma ends_here: "sp_left i \<le> m \<Longrightarrow> ends m (Parsed i x)"
  by (simp add: ends_def)

lemma ends_choose:
  assumes "a \<noteq> Unfinished" and "\<And>j x. a = Parsed j x \<Longrightarrow> ends m (f j x)" and "ends m g"
  shows "ends m (case a of Parsed j x \<Rightarrow> f j x | Unfinished \<Rightarrow> Unfinished | _ \<Rightarrow> g)"
  using assms by (cases a) simp_all

context nom_laws
begin

lemma skip_ends:
  "skip_comments n nm i = Parsed j x \<Longrightarrow> sp_fragment j \<noteq> [] \<Longrightarrow> \<not> is_multispace (hd (sp_fragment j))"
proof (induction n arbitrary: i)
  case (Suc n)
  define r where "r = advance (length (takeWhile is_multispace (sp_fragment i))) i"
  have ws: "ws nm i = Parsed r ()"
    by (simp add: r_def ws_def p_drop_def p_map_def p_bind_def p_return_def matched_def multispace0_law)
  have head: "sp_fragment r \<noteq> [] \<Longrightarrow> \<not> is_multispace (hd (sp_fragment r))"
    unfolding r_def advance_fragment dropWhile_eq_drop [symmetric] by (rule hd_dropWhile)
  show ?case
    using Suc.prems head Suc.IH by (auto simp: ws Let_def split: if_splits presult.splits)
qed simp

lemma runs_let_any [run_intros]: "runs k 0 (parse_let_binding nm)"
  by (rule runs_le [OF runs_let_binding [of k]]) simp_all

lemma lets_run:
  "sp_left i < n \<Longrightarrow> parse_lets n nm i \<noteq> Unfinished \<and>
     (\<forall>j x. parse_lets n nm i = Parsed j x \<longrightarrow> sp_left j \<le> sp_left i)"
proof (induction n arbitrary: i)
  case (Suc n)
  show ?case
  proof (cases "parse_let_binding nm i")
    case (Parsed j x)
    from runs_parsed [OF runs_let_binding this] have j: "Suc (sp_left j) \<le> sp_left i" by simp
    show ?thesis
    proof (cases "skip_ws_and_comments nm j")
      case (Parsed r u)
      with runs_parsed [OF runs_skip this] j have r: "Suc (sp_left r) \<le> sp_left i" by simp
      then have "sp_left r < n" using Suc.prems by simp
      from Suc.IH [OF this] r Parsed \<open>parse_let_binding nm i = Parsed j x\<close> show ?thesis
        by (cases "parse_lets n nm r") (auto simp: p_map_def p_bind_def p_return_def)
    qed (use runs_finishes [OF runs_skip, of j] \<open>parse_let_binding nm i = Parsed j x\<close> in \<open>auto simp: p_bind_def\<close>)
  qed (use runs_finishes [OF runs_let_binding, of i] in auto)
qed simp

lemma clauses_run: "sp_left i < n \<Longrightarrow> ends (sp_left i) (parse_clauses n nm f t i)"
proof (induction n arbitrary: i f t)
  case (Suc n)
  have next_round: "ends (sp_left i) (parse_clauses n nm False t' j)" if "sp_left j + Suc 0 \<le> sp_left i" for j t'
    using Suc.IH [of j False t'] Suc.prems that by (auto intro: ends_le)
  have first: "runs k (Suc 0) (if f then parse_with_clause nm else parse_and_with_clause nm)" for k
    by (intro runs_if runs_clauses)
  show ?case
    unfolding parse_clauses.simps
    by (intro ends_choose)
      (auto intro: ends_here intro!: next_round dest!: runs_parsed [OF first] runs_parsed [OF runs_clauses(3)]
         runs_parsed [OF runs_clauses(4)] runs_parsed [OF runs_clauses(5)]
       dest: runs_finishes [OF runs_clauses(1), THEN notE] runs_finishes [OF runs_clauses(2), THEN notE]
         runs_finishes [OF runs_clauses(3), THEN notE]
         runs_finishes [OF runs_clauses(4), THEN notE] runs_finishes [OF runs_clauses(5), THEN notE])
qed simp

lemma runs_it: "runs k (Suc 0) (parse_it nm)"
proof -
  have "runs k 0 (\<lambda>i. parse_lets (Suc (sp_left i)) nm i)" unfolding runs_def using lets_run by fastforce
  moreover have "runs k 0 (\<lambda>i. parse_clauses (Suc (sp_left i)) nm True no_clauses i)"
    by (rule runs_ends, rule clauses_run) simp
  ultimately show ?thesis
    unfolding parse_it_def
    by (intro runs_from_here [OF runs_skip] runs_seq_first [OF runs_kw_first] run_intros; simp?)
qed

lemma suite_runs: "sp_left i < n \<Longrightarrow> ends (sp_left i) (parse_suite n nm d i)"
proof (induction n arbitrary: i d)
  case (Suc n)
  show ?case
  proof (cases "skip_ws_and_comments nm i")
    case (Parsed r u)
    from runs_parsed [OF runs_skip this] have r: "sp_left r \<le> sp_left i" by simp
    have next_round: "ends (sp_left i) (parse_suite n nm d' j)" if "sp_left j + Suc 0 \<le> sp_left r" for j d'
      using Suc.IH [of j d'] Suc.prems r that by (auto intro: ends_le)
    show ?thesis
      unfolding parse_suite.simps Parsed presult.case
      by (intro ends_choose)
        (auto intro: ends_here intro!: next_round dest!: runs_parsed [OF runs_let_binding] runs_parsed [OF runs_mocks(1)]
           runs_parsed [OF runs_mocks(2)] runs_parsed [OF runs_it]
         dest: runs_finishes [OF runs_let_binding, THEN notE] runs_finishes [OF runs_mocks(1), THEN notE]
           runs_finishes [OF runs_mocks(2), THEN notE] runs_finishes [OF runs_it, THEN notE])
  qed (use runs_finishes [OF runs_skip, of i] in \<open>auto simp: ends_def\<close>)
qed simp

lemma runs_describe: "runs k (Suc 0) (parse_describe nm)"
proof -
  have "runs k 0 (\<lambda>i. parse_suite (Suc (sp_left i)) nm d i)" for d
    by (rule runs_ends, rule suite_runs) simp
  then show ?thesis
    unfolding parse_describe_def
    by (intro runs_from_here [OF runs_skip] runs_seq_first [OF runs_kw_first] run_intros; simp?)
qed

end

section \<open>The whole program\<close>

lemma runs_first_of:
  assumes "runs k (Suc 0) p" and "\<And>j x. f j x \<noteq> Unfinished"
    and "\<And>j x l y. f j x = Parsed l y \<Longrightarrow> l = j" and "runs k (Suc 0) q"
  shows "runs k (Suc 0) (first_of p f q)"
  unfolding runs_def first_of_def
proof (intro allI impI)
  fix i :: span
  assume i: "sp_left i \<le> k"
  show "(case p i of Parsed j x \<Rightarrow> f j x | Unfinished \<Rightarrow> Unfinished | _ \<Rightarrow> q i) \<noteq> Unfinished \<and>
    (\<forall>l y. (case p i of Parsed j x \<Rightarrow> f j x | Unfinished \<Rightarrow> Unfinished | _ \<Rightarrow> q i) = Parsed l y \<longrightarrow>
       sp_left l + Suc 0 \<le> sp_left i)"
    using runsD [OF assms(1) i] runsD [OF assms(4) i] assms(2,3)
    by (cases "p i") (simp_all, blast)
qed

lemma runs_first_of_keep: "runs k (Suc 0) p \<Longrightarrow> runs k (Suc 0) q \<Longrightarrow> runs k (Suc 0) (first_of p (keep f) q)"
  by (rule runs_first_of) (simp_all add: keep_def)

context nom_laws
begin

lemma runs_element: "runs k (Suc 0) (parse_element nm prog)"
  unfolding parse_element_def
  by (intro runs_first_of_keep runs_first_of runs_config runs_import runs_feature_flags runs_graphql_schema
      runs_declarations runs_type_resolver runs_variable runs_route runs_describe runs_map_first)
    (auto simp: rest_of_line_def runs_first split: option.splits)

text \<open>Only a text that begins with a newline, or none, is no declaration and no line.\<close>

lemma element_fails:
  assumes "parse_element nm prog i = Failed"
  shows "sp_fragment i = [] \<or> hd (sp_fragment i) = newline"
proof -
  have "first_of p (keep f) q i \<noteq> Failed" if "q i \<noteq> Failed" for p f and q :: "program parser"
    using that by (simp add: first_of_def keep_def split: presult.split)
  note step = this
  have "first_of p (\<lambda>j imp. case add_import imp prog of None \<Rightarrow> Aborted | Some prog' \<Rightarrow> Parsed j prog') q i \<noteq> Failed"
    if "q i \<noteq> Failed" for p and q :: "program parser"
    using that by (simp add: first_of_def split: presult.split option.split)
  note import_step = this
  have "p_map (\<lambda>_. prog) (rest_of_line nm) i = Failed"
    using assms unfolding parse_element_def by (rule contrapos_pp) (intro step import_step)
  then show ?thesis
    by (cases "sp_fragment i")
      (auto simp: p_map_def p_bind_def p_return_def rest_of_line_def matched_def take_till1_law nonzero_def
        split: option.splits presult.splits if_splits)
qed

definition blank_rest :: "span \<Rightarrow> bool" where
  "blank_rest j \<longleftrightarrow> sp_fragment j = [] \<or> (\<exists>k. skip_ws_and_comments nm j = Parsed k () \<and> sp_fragment k = [])"

lemma elements_run:
  "sp_left i < n \<Longrightarrow> ends (sp_left i) (parse_elements n nm prog i) \<and>
     (\<forall>j prog'. parse_elements n nm prog i = Parsed j prog' \<longrightarrow> blank_rest j)"
proof (induction n arbitrary: i prog)
  case (Suc n)
  show ?case
  proof (cases "sp_fragment i = []")
    case False
    show ?thesis
    proof (cases "skip_ws_and_comments nm i")
      case (Parsed r u)
      from runs_parsed [OF runs_skip this] have r: "sp_left r \<le> sp_left i" by simp
      have head: "sp_fragment r \<noteq> [] \<Longrightarrow> hd (sp_fragment r) \<noteq> newline"
        using skip_ends [of "Suc (sp_left i)" i r u] Parsed
        by (auto simp: skip_ws_and_comments_def is_multispace_def newline_def simp del: skip_comments.simps)
      show ?thesis
      proof (cases "parse_element nm prog r")
        case (Parsed j prog')
        from runs_parsed [OF runs_element this] have j: "sp_left j < n" "sp_left j \<le> sp_left i"
          using r Suc.prems by auto
        with Suc.IH [OF j(1), of prog'] Parsed \<open>skip_ws_and_comments nm i = Parsed r u\<close> False show ?thesis
          by (auto simp: blank_rest_def ends_def intro: ends_le [OF _ j(2), unfolded ends_def])
      next
        case Failed
        then show ?thesis
          using element_fails [OF Failed] head \<open>skip_ws_and_comments nm i = Parsed r u\<close> False
          by (auto simp: blank_rest_def ends_def)
      qed (use runs_finishes [OF runs_element, of prog r] \<open>skip_ws_and_comments nm i = Parsed r u\<close> False in
          \<open>auto simp: blank_rest_def ends_def\<close>)
    qed (use runs_finishes [OF runs_skip, of i] False in \<open>auto simp: ends_def\<close>)
  qed (simp add: ends_def blank_rest_def)
qed simp

end


section \<open>Import aliases\<close>

definition aliases_distinct :: "program \<Rightarrow> bool" where
  "aliases_distinct prog \<longleftrightarrow> distinct (map imp_alias (pr_imports prog))"

definition yields :: "('a \<Rightarrow> bool) \<Rightarrow> 'a parser \<Rightarrow> bool" where
  "yields P p \<longleftrightarrow> (\<forall>i j x. p i = Parsed j x \<longrightarrow> P x)"

lemma yields_first_of: "(\<And>i j x y. f j x = Parsed i y \<Longrightarrow> P y) \<Longrightarrow> yields P q \<Longrightarrow> yields P (first_of p f q)"
  by (auto simp: yields_def first_of_def split: presult.splits)

lemma yields_first_of_keep: "(\<And>x. P (f x)) \<Longrightarrow> yields P q \<Longrightarrow> yields P (first_of p (keep f) q)"
  by (rule yields_first_of) (auto simp: keep_def)

lemma yields_map: "(\<And>x. P (f x)) \<Longrightarrow> yields P (p_map f p)"
  by (auto simp: yields_def p_map_def p_bind_def p_return_def split: presult.splits)

lemma add_import_aliases: "add_import imp prog = Some prog' \<Longrightarrow> aliases_distinct prog \<Longrightarrow> aliases_distinct prog'"
  unfolding add_import_def aliases_distinct_def by (auto split: if_splits) (metis imageE)

lemma element_aliases:
  assumes "aliases_distinct prog"
  shows "yields aliases_distinct (parse_element nm prog)"
  unfolding parse_element_def
  by (intro yields_first_of_keep yields_first_of yields_map)
    (use assms add_import_aliases in \<open>auto simp: aliases_distinct_def split: option.splits\<close>)

lemma elements_aliases:
  "parse_elements n nm prog i = Parsed l prog' \<Longrightarrow> aliases_distinct prog \<Longrightarrow> aliases_distinct prog'"
  proof (induction n arbitrary: prog i)
  case (Suc n)
  then show ?case
    using element_aliases [OF Suc.prems(2), of nm] by (auto simp: yields_def split: if_splits presult.splits)
qed simp

text \<open>
  C28: the parser returns on every text, whatever it holds: the bounds of its loops and of its
  recursion suffice. A program it returns has no two imports of one alias, and after it only white
  space and comments are left, so no text is dropped at the end.
\<close>

theorem parse_program_total:
  assumes "nom_laws nm"
  shows "parse_program nm s \<noteq> Unfinished \<and>
    (\<forall>j prog. parse_program nm s = Parsed j prog \<longrightarrow>
       aliases_distinct prog \<and>
       (sp_fragment j = [] \<or> (\<exists>k. skip_ws_and_comments nm j = Parsed k () \<and> sp_fragment k = [])))"
proof (cases "skip_ws_and_comments nm (span_new s)")
  case (Parsed i u)
  then have "parse_program nm s = parse_elements (Suc (sp_left i)) nm program_new i"
    by (simp add: parse_program_def p_bind_def del: parse_elements.simps)
  moreover have "aliases_distinct program_new" by (simp add: aliases_distinct_def program_new_def)
  ultimately show ?thesis
    using nom_laws.elements_run [OF assms, of i "Suc (sp_left i)" program_new]
      elements_aliases [of "Suc (sp_left i)" nm program_new i]
    unfolding nom_laws.blank_rest_def [OF assms] ends_def by (metis lessI)
qed (use runs_finishes [OF nom_laws.runs_skip [OF assms], of "span_new s"] in
    \<open>auto simp: parse_program_def p_bind_def\<close>)

lemma parse_program_total_witness:
  "parse_program nom_reference ''GET /a'' \<noteq> Unfinished"
  using parse_program_total [OF reference_nom.nom_laws_axioms, of "''GET /a''"] by (rule conjunct1)

end
