(* ===== verification/Fmt.thy ===== *)
theory Fmt
  imports Syntax_Tree Text_Scan
begin

text \<open>
  The printed form of the syntax (\<^verbatim>\<open>src/ast/fmt.rs\<close>): one definition per \<^verbatim>\<open>Display\<close>
  implementation. Which letters and digits outside ASCII count as alphanumeric is Unicode's table,
  an argument.
\<close>

section \<open>Configuration\<close>

definition line :: "string \<Rightarrow> string" where
  "line s = s @ [newline]"

definition show_int :: "int \<Rightarrow> string" where
  "show_int n = (if n < 0 then ''-'' @ show_nat (nat (- n)) else show_nat (nat n))"

definition in_quotes :: "string \<Rightarrow> string" where
  "in_quotes s = [CHR 0x22] @ s @ [CHR 0x22]"

definition in_backticks :: "string \<Rightarrow> string" where
  "in_backticks s = [CHR 0x60] @ s @ [CHR 0x60]"

fun fmt_config_value :: "config_value \<Rightarrow> string" where
  "fmt_config_value (CfgString s) = in_quotes s"
| "fmt_config_value (CfgEnvVar var (Some def)) = ''$'' @ var @ '' || '' @ in_quotes def"
| "fmt_config_value (CfgEnvVar var None) = ''$'' @ var"
| "fmt_config_value (CfgBoolean b) = show_bool b"
| "fmt_config_value (CfgNumber n) = show_int n"

definition fmt_config_property :: "config_property \<Rightarrow> string" where
  "fmt_config_property p = cp_key p @ '': '' @ fmt_config_value (cp_value p)"

definition fmt_config :: "config \<Rightarrow> string" where
  "fmt_config c = line (''config '' @ cfg_name c @ '' {'') @
     concat (map (\<lambda>p. line (''  '' @ fmt_config_property p)) (cfg_properties c)) @ ''}''"

section \<open>Tags\<close>

text \<open>The characters of a UTF-8 text.\<close>

function chars_of :: "string \<Rightarrow> string list" where
  "chars_of s = (if s = [] then [] else first_char s # chars_of (drop (length (first_char s)) s))"
  by pat_completeness auto
termination
proof (relation "measure length", goal_cases)
  case (2 s)
  then have "0 < length (first_char s)"
    by (cases s) (auto simp: first_char_def utf8_len_def Let_def)
  with 2 show ?case by simp
qed simp

declare chars_of.simps [simp del]

definition char_alphanumeric :: "(string \<Rightarrow> bool) \<Rightarrow> string \<Rightarrow> bool" where
  "char_alphanumeric unicode ch \<longleftrightarrow> (case ch of [c] \<Rightarrow> is_ascii_alphanumeric c | _ \<Rightarrow> unicode ch)"

definition needs_backticks :: "(string \<Rightarrow> bool) \<Rightarrow> string \<Rightarrow> bool" where
  "needs_backticks unicode arg \<longleftrightarrow>
     list_ex (\<lambda>ch. \<not> char_alphanumeric unicode ch \<and> ch \<noteq> ''_'' \<and> ch \<noteq> ''-'') (chars_of arg)"

definition fmt_tag_arg :: "(string \<Rightarrow> bool) \<Rightarrow> string \<Rightarrow> string" where
  "fmt_tag_arg unicode arg = (if needs_backticks unicode arg then in_backticks arg else arg)"

definition fmt_tag :: "(string \<Rightarrow> bool) \<Rightarrow> tag \<Rightarrow> string" where
  "fmt_tag unicode t =
     ''@'' @ (if tag_negated t then ''!'' else []) @ tag_name t @
     (if tag_args t = [] then [] else ''('' @ join '','' (map (fmt_tag_arg unicode) (tag_args t)) @ '')'')"

text \<open>Parentheses go around a disjunction inside a conjunction, and nowhere else.\<close>

fun is_or :: "tag_expr \<Rightarrow> bool" where
  "is_or (OrE _ _) = True"
| "is_or _ = False"

fun fmt_tag_expr :: "(string \<Rightarrow> bool) \<Rightarrow> tag_expr \<Rightarrow> string" where
  "fmt_tag_expr unicode (TagE t) = fmt_tag unicode t"
| "fmt_tag_expr unicode (AndE l r) =
     (let left_str = (if is_or l then ''('' @ fmt_tag_expr unicode l @ '')'' else fmt_tag_expr unicode l);
          right_str = (if is_or r then ''('' @ fmt_tag_expr unicode r @ '')'' else fmt_tag_expr unicode r)
      in left_str @ '' and '' @ right_str)"
| "fmt_tag_expr unicode (OrE l r) = fmt_tag_expr unicode l @ '' or '' @ fmt_tag_expr unicode r"

section \<open>Pipelines\<close>

definition fmt_step_config :: "config_type \<Rightarrow> string \<Rightarrow> string" where
  "fmt_step_config t config =
     (case t of Backtick \<Rightarrow> in_backticks config | Quoted \<Rightarrow> in_quotes config | Identifier \<Rightarrow> config)"

definition fmt_regular_step :: "(string \<Rightarrow> bool) \<Rightarrow> regular_step \<Rightarrow> string" where
  "fmt_regular_step unicode rs =
     ''  |> '' @ rs_name rs @ (if rs_args rs = [] then [] else ''('' @ join '', '' (rs_args rs) @ '')'') @
     (if rs_config_present rs then '': '' @ fmt_step_config (rs_config_type rs) (rs_config rs) else []) @
     (case rs_condition rs of None \<Rightarrow> [] | Some cond \<Rightarrow> '' '' @ fmt_tag_expr unicode cond)"

fun fmt_result_branch_type :: "result_branch_type \<Rightarrow> string" where
  "fmt_result_branch_type BranchOk = ''ok''"
| "fmt_result_branch_type (BranchCustom name) = name"
| "fmt_result_branch_type BranchDefault = ''default''"

text \<open>The lines of some texts, each indented.\<close>

definition indented :: "string \<Rightarrow> string list \<Rightarrow> string" where
  "indented prefix ss = concat (map (\<lambda>s. line (prefix @ s)) ss)"

fun fmt_pipeline :: "(string \<Rightarrow> bool) \<Rightarrow> pipeline \<Rightarrow> string"
and fmt_step :: "(string \<Rightarrow> bool) \<Rightarrow> pipeline_step \<Rightarrow> string"
and fmt_result_branch :: "(string \<Rightarrow> bool) \<Rightarrow> result_branch \<Rightarrow> string"
and fmt_dispatch_branch :: "(string \<Rightarrow> bool) \<Rightarrow> dispatch_branch \<Rightarrow> string" where
  "fmt_pipeline unicode (Pipeline ss) = join [newline] (map (fmt_step unicode) ss)"
| "fmt_step unicode (RegularStep rs) = fmt_regular_step unicode rs"
| "fmt_step unicode (ResultStep branches loc) =
     line ''  |> result'' @ concat (map (\<lambda>b. ''    '' @ fmt_result_branch unicode b) branches)"
| "fmt_step unicode (IfStep (Pipeline cs) (Pipeline ts) else_branch loc) =
     line ''  |> if'' @ indented ''  '' (map (fmt_step unicode) cs) @
     line ''    then:'' @ indented ''    '' (map (fmt_step unicode) ts) @
     (case else_branch of
        None \<Rightarrow> []
      | Some (Pipeline es) \<Rightarrow> line ''    else:'' @ indented ''    '' (map (fmt_step unicode) es))"
| "fmt_step unicode (DispatchStep branches default_pipeline loc) =
     line ''  |> dispatch'' @ concat (map (fmt_dispatch_branch unicode) branches) @
     (case default_pipeline of
        None \<Rightarrow> []
      | Some (Pipeline ds) \<Rightarrow> line ''    default:'' @ indented ''    '' (map (fmt_step unicode) ds))"
| "fmt_step unicode (ForeachStep selector (Pipeline ss) loc) =
     line (''  |> foreach '' @ selector) @ indented ''  '' (map (fmt_step unicode) ss) @ ''  end''"
| "fmt_result_branch unicode (ResultBranch branch_type status p loc) =
     line (fmt_result_branch_type branch_type @ ''('' @ show_nat (unat status) @ ''):'') @
     indented ''    '' (str_lines (fmt_pipeline unicode p))"
| "fmt_dispatch_branch unicode (DispatchBranch cond (Pipeline ss) loc) =
     ''    case '' @ fmt_tag_expr unicode cond @ '': '' @
     (case ss of
        [s] \<Rightarrow> line (fmt_step unicode s)
      | _ \<Rightarrow> line [] @ indented ''    '' (map (fmt_step unicode) ss))"

section \<open>Tests\<close>

definition fmt_mock :: "mock \<Rightarrow> string" where
  "fmt_mock m = ''with mock '' @ mock_target m @ '' returning '' @ in_backticks (mock_return_value m)"

fun fmt_when :: "when_clause \<Rightarrow> string" where
  "fmt_when (CallingRoute http_method path) = ''calling '' @ http_method @ '' '' @ path"
| "fmt_when (ExecutingPipeline name) = ''executing pipeline '' @ name"
| "fmt_when (ExecutingVariable type_name name) = ''executing variable '' @ type_name @ '' '' @ name"

fun fmt_condition_type :: "condition_type \<Rightarrow> string" where
  "fmt_condition_type CondThen = ''then''"
| "fmt_condition_type CondAnd = ''and''"

definition fmt_selector_condition :: "test_condition \<Rightarrow> string \<Rightarrow> dom_assert_type \<Rightarrow> string" where
  "fmt_selector_condition c selector dom_assert =
     fmt_condition_type (tc_condition_type c) @ '' selector '' @ in_quotes selector @
     (case dom_assert of
        DomExists \<Rightarrow> '' '' @ (if tc_comparison c = ''exists'' then ''exists'' else ''does not exist'')
      | DomText \<Rightarrow> '' text '' @ tc_comparison c @ '' '' @ tc_value c
      | DomCount \<Rightarrow> '' count '' @ tc_comparison c @ '' '' @ tc_value c
      | DomAttribute attr_name \<Rightarrow>
          '' attribute '' @ in_quotes attr_name @ '' '' @ tc_comparison c @ '' '' @ tc_value c)"

definition fmt_plain_condition :: "test_condition \<Rightarrow> string" where
  "fmt_plain_condition c =
     (if tc_is_call_assertion c then
        fmt_condition_type (tc_condition_type c) @ '' call '' @
        (case tc_call_target c of
           Some target \<Rightarrow> replace_char (CHR ''.'') (CHR 0x20) target @ '' ''
         | None \<Rightarrow> []) @ tc_comparison c @ '' '' @ tc_value c
      else
        let field_part = (case tc_header_name c of
              Some header \<Rightarrow> tc_field c @ '' '' @ in_quotes header
            | None \<Rightarrow> (case tc_jq_expr c of
                 Some expr \<Rightarrow> tc_field c @ '' '' @ in_backticks expr
               | None \<Rightarrow> tc_field c))
        in fmt_condition_type (tc_condition_type c) @ '' '' @ field_part @ '' '' @ tc_comparison c @ '' '' @ tc_value c)"

definition fmt_condition :: "test_condition \<Rightarrow> string" where
  "fmt_condition c =
     (case (tc_selector c, tc_dom_assert c) of
        (Some selector, Some dom_assert) \<Rightarrow> fmt_selector_condition c selector dom_assert
      | _ \<Rightarrow> fmt_plain_condition c)"

definition fmt_let_value :: "let_value_format \<Rightarrow> string \<Rightarrow> string" where
  "fmt_let_value format v =
     (case format of LetQuoted \<Rightarrow> in_quotes v | LetBacktick \<Rightarrow> in_backticks v | LetBare \<Rightarrow> v)"

definition optional_line :: "(string \<Rightarrow> string) \<Rightarrow> string option \<Rightarrow> string" where
  "optional_line f v = (case v of None \<Rightarrow> [] | Some s \<Rightarrow> line (f s))"

definition fmt_it :: "it_block \<Rightarrow> string" where
  "fmt_it t =
     line (''it '' @ in_quotes (it_name t)) @
     indented ''    '' (map fmt_mock (it_mocks t)) @
     line (''    when '' @ fmt_when (it_when t)) @
     concat (map (\<lambda>(name, v, format). line (''    let '' @ name @ '' = '' @ fmt_let_value format v)) (it_variables t)) @
     optional_line (\<lambda>s. ''    with input '' @ in_backticks s) (it_input t) @
     optional_line (\<lambda>s. ''    with body '' @ in_backticks s) (it_body t) @
     optional_line (\<lambda>s. ''    with headers '' @ in_backticks s) (it_headers t) @
     optional_line (\<lambda>s. ''    with cookies '' @ in_backticks s) (it_cookies t) @
     optional_line (\<lambda>s. ''    and stdin is '' @ in_quotes s) (it_stdin t) @
     optional_line (\<lambda>s. ''    and args are '' @ in_backticks s) (it_args t) @
     optional_line (\<lambda>s. ''    and options are '' @ in_backticks s) (it_options t) @
     indented ''    '' (map fmt_condition (it_conditions t))"

definition fmt_describe :: "describe_block \<Rightarrow> string" where
  "fmt_describe d =
     line (''describe '' @ in_quotes (de_name d)) @
     indented ''  '' (map fmt_mock (de_mocks d)) @ indented ''  '' (map fmt_it (de_tests d))"

section \<open>Programs\<close>

definition fmt_named_pipeline :: "(string \<Rightarrow> bool) \<Rightarrow> named_pipeline \<Rightarrow> string" where
  "fmt_named_pipeline unicode p = ''pipeline '' @ np_name p @ '' = '' @ fmt_pipeline unicode (np_pipeline p)"

definition fmt_variable :: "variable \<Rightarrow> string" where
  "fmt_variable v = var_type v @ '' '' @ var_name v @ '' = '' @ in_backticks (var_value v)"

fun fmt_pipeline_ref :: "(string \<Rightarrow> bool) \<Rightarrow> pipeline_ref \<Rightarrow> string" where
  "fmt_pipeline_ref unicode (Inline p) = fmt_pipeline unicode p"
| "fmt_pipeline_ref unicode (Named name) = ''  |> pipeline: '' @ name"

definition fmt_route :: "(string \<Rightarrow> bool) \<Rightarrow> route \<Rightarrow> string" where
  "fmt_route unicode r = line (rt_method r @ '' '' @ rt_path r) @ fmt_pipeline_ref unicode (rt_pipeline r)"

definition fmt_graphql_schema :: "string \<Rightarrow> string" where
  "fmt_graphql_schema sdl = ''graphqlSchema = '' @ in_backticks sdl"

definition fmt_query_resolver :: "(string \<Rightarrow> bool) \<Rightarrow> query_resolver \<Rightarrow> string" where
  "fmt_query_resolver unicode q = line (''query '' @ qr_name q @ '' ='') @ fmt_pipeline unicode (qr_pipeline q)"

definition fmt_mutation_resolver :: "(string \<Rightarrow> bool) \<Rightarrow> mutation_resolver \<Rightarrow> string" where
  "fmt_mutation_resolver unicode m = line (''mutation '' @ mr_name m @ '' ='') @ fmt_pipeline unicode (mr_pipeline m)"

definition fmt_type_resolver :: "(string \<Rightarrow> bool) \<Rightarrow> type_resolver \<Rightarrow> string" where
  "fmt_type_resolver unicode r =
     line (''resolver '' @ tr_type_name r @ ''.'' @ tr_field_name r @ '' ='') @ fmt_pipeline unicode (tr_pipeline r)"

text \<open>Imports are not printed.\<close>

definition fmt_program :: "(string \<Rightarrow> bool) \<Rightarrow> program \<Rightarrow> string" where
  "fmt_program unicode p =
     concat (map (line \<circ> fmt_config) (pr_configs p)) @
     concat (map (line \<circ> fmt_named_pipeline unicode) (pr_pipelines p)) @
     concat (map (line \<circ> fmt_variable) (pr_variables p)) @
     (case pr_feature_flags p of None \<Rightarrow> [] | Some flags \<Rightarrow> line ''featureFlags ='' @ line (fmt_pipeline unicode flags)) @
     (case pr_graphql_schema p of None \<Rightarrow> [] | Some sdl \<Rightarrow> line (fmt_graphql_schema sdl) @ line []) @
     concat (map (\<lambda>q. line (fmt_query_resolver unicode q) @ line []) (pr_queries p)) @
     concat (map (\<lambda>m. line (fmt_mutation_resolver unicode m) @ line []) (pr_mutations p)) @
     concat (map (\<lambda>r. line (fmt_type_resolver unicode r) @ line []) (pr_resolvers p)) @
     concat (map (line \<circ> fmt_route unicode) (pr_routes p)) @
     concat (map (line \<circ> fmt_describe) (pr_describes p))"

end
