(* ===== verification/Parser_Reads.thy ===== *)
theory Parser_Reads
  imports Parser Fmt Tags
begin

text \<open>
  What the parsers of the grammar read, for a library that behaves as documented: identifiers,
  quoted texts and tags, each on its printed form.
\<close>

context nom_laws
begin

lemma reads_delimited: "q \<notin> set s \<Longrightarrow> reads (delimited_text nm q) ([q] @ s @ [q]) ok s"
proof -
  assume q: "q \<notin> set s"
  have "find_sub [q] (s @ q # t) = Some (length s)" for t
    using q by (induction s) (auto simp: starts_with_def)
  then have until: "reads (matched (nm_take_until nm [q])) s (\<lambda>rest. \<exists>t. rest = q # t) s"
    by (auto simp: reads_def matched_def take_until_law)
  show "reads (delimited_text nm q) ([q] @ s @ [q]) ok s"
    unfolding delimited_text_def append_assoc [symmetric]
  proof (rule reads_bind)
    show "reads (p_seq [sym nm q] (matched (nm_take_until nm [q]))) ([q] @ s) (\<lambda>rest. \<exists>t. rest = q # t) s"
      by (rule reads_seq [OF reads_sym [where ok = "\<lambda>_. True"]]) (simp_all add: until)
    have "reads (p_seq [sym nm q] (p_return s)) ([q] @ []) ok s"
      by (rule reads_seq [OF reads_sym [where ok = "\<lambda>_. True"]]) (simp_all add: reads_return)
    then show "reads (p_seq [sym nm q] (p_return s)) [q] ok s" by simp
  qed simp
qed

lemma fails_delimited: "fails (delimited_text nm q) (\<lambda>s. s = [] \<or> hd s \<noteq> q)"
  unfolding delimited_text_def by (intro fails_bind fails_seq fails_sym)

end


section \<open>Identifiers\<close>

context nom_laws
begin

text \<open>A chunk of an identifier: a run of letters and digits, or one underscore or dash.\<close>

lemma alnum_chunk:
  assumes "sp_fragment i = c # s" and "is_ascii_alphanumeric c"
  shows "\<exists>k > 0. matched (nm_alphanumeric1 nm) i = Parsed (advance k i) (take k (sp_fragment i)) \<and>
    k \<le> length (takeWhile id_char (sp_fragment i)) \<and>
    takeWhile id_char (drop k (sp_fragment i)) = drop k (takeWhile id_char (sp_fragment i))"
proof (intro exI conjI)
  let ?k = "length (takeWhile is_ascii_alphanumeric (sp_fragment i))"
  show "?k > 0" using assms by simp
  then show "matched (nm_alphanumeric1 nm) i = Parsed (advance ?k i) (take ?k (sp_fragment i))"
    by (simp add: matched_def alphanumeric1_law nonzero_def)
  have split: "takeWhile id_char (sp_fragment i) = takeWhile is_ascii_alphanumeric (sp_fragment i) @
      takeWhile id_char (dropWhile is_ascii_alphanumeric (sp_fragment i))"
  proof -
    have "takeWhile id_char (takeWhile is_ascii_alphanumeric s @ t) =
        takeWhile is_ascii_alphanumeric s @ takeWhile id_char t" for s t
      by (rule takeWhile_append2) (auto simp: id_char_def dest: set_takeWhileD)
    from this [of "sp_fragment i" "dropWhile is_ascii_alphanumeric (sp_fragment i)"] show ?thesis by simp
  qed
  show "?k \<le> length (takeWhile id_char (sp_fragment i))" by (subst split) simp
  show "takeWhile id_char (drop ?k (sp_fragment i)) = drop ?k (takeWhile id_char (sp_fragment i))"
    using arg_cong [OF split, of "drop ?k"] by (simp add: dropWhile_eq_drop)
qed

lemma chunk_run:
  assumes "sp_fragment i = c # s" and "id_char c"
  shows "\<exists>k x. p_alt [matched (nm_alphanumeric1 nm), word_of nm ''_'', word_of nm ''-''] i = Parsed (advance k i) x \<and>
    0 < k \<and> k \<le> length (takeWhile id_char (sp_fragment i)) \<and>
    takeWhile id_char (drop k (sp_fragment i)) = drop k (takeWhile id_char (sp_fragment i))"
proof (cases "is_ascii_alphanumeric c")
  case True
  from alnum_chunk [OF assms(1) this] show ?thesis by fastforce
next
  case False
  then have "matched (nm_alphanumeric1 nm) i = Failed"
    using assms(1) by (simp add: matched_def alphanumeric1_law nonzero_def)
  moreover from False assms(2) have "c = CHR ''_'' \<or> c = CHR ''-''" by (simp add: id_char_def)
  ultimately show ?thesis
    using assms by (intro exI [of _ 1]) (auto simp: word_of_def matched_def tag_law starts_with_def)
qed

lemma chunk_stop:
  assumes "stops id_char (sp_fragment i)"
  shows "p_alt [matched (nm_alphanumeric1 nm), word_of nm ''_'', word_of nm ''-''] i = Failed"
  using assms
  by (cases "sp_fragment i")
    (auto simp: stops_def id_char_def matched_def alphanumeric1_law nonzero_def word_of_def tag_law starts_with_def)

lemma chunks_run:
  "sp_left i < n \<Longrightarrow>
   \<exists>xs. p_many n (p_alt [matched (nm_alphanumeric1 nm), word_of nm ''_'', word_of nm ''-'']) i =
     Parsed (advance (length (takeWhile id_char (sp_fragment i))) i) xs"
proof (induction n arbitrary: i)
  case (Suc n)
  let ?p = "p_alt [matched (nm_alphanumeric1 nm), word_of nm ''_'', word_of nm ''-'']"
  show ?case
  proof (cases "stops id_char (sp_fragment i)")
    case True
    then have "takeWhile id_char (sp_fragment i) = []" by (cases "sp_fragment i") (auto simp: stops_def)
    with chunk_stop [OF True] show ?thesis by simp
  next
    case False
    then obtain c s where c: "sp_fragment i = c # s" "id_char c"
      by (cases "sp_fragment i") (auto simp: stops_def)
    from chunk_run [OF this] obtain k x where k: "?p i = Parsed (advance k i) x" "0 < k"
      "k \<le> length (takeWhile id_char (sp_fragment i))"
      "takeWhile id_char (drop k (sp_fragment i)) = drop k (takeWhile id_char (sp_fragment i))"
      by blast
    have "sp_left i > 0" using c(1) by (simp add: sp_left_def)
    then have less: "sp_left (advance k i) < n" using Suc.prems k(2) by simp
    from Suc.IH [OF this] obtain xs where "p_many n ?p (advance k i) =
        Parsed (advance (length (takeWhile id_char (sp_fragment (advance k i)))) (advance k i)) xs" by blast
    with k less \<open>sp_left i > 0\<close> show ?thesis
      by (auto simp: p_map_def p_bind_def p_return_def simp del: p_alt.simps)
  qed
qed simp

lemma identifier_run:
  assumes "sp_fragment i = c # s" and "id_char c" and "c \<noteq> CHR ''-''"
  shows "parse_identifier nm i = Parsed (advance (length (takeWhile id_char (sp_fragment i))) i)
    (takeWhile id_char (sp_fragment i))"
proof -
  let ?first = "p_alt [matched (nm_alphanumeric1 nm), word_of nm ''_'']"
  let ?L = "length (takeWhile id_char (sp_fragment i))"
  have "\<exists>k x. ?first i = Parsed (advance k i) x \<and> k \<le> ?L \<and>
      takeWhile id_char (drop k (sp_fragment i)) = drop k (takeWhile id_char (sp_fragment i))"
  proof (cases "is_ascii_alphanumeric c")
    case True
    from alnum_chunk [OF assms(1) this] show ?thesis by fastforce
  next
    case False
    then have "matched (nm_alphanumeric1 nm) i = Failed"
      using assms(1) by (simp add: matched_def alphanumeric1_law nonzero_def)
    moreover from False assms(2,3) have "c = CHR ''_''" by (simp add: id_char_def)
    ultimately show ?thesis
      using assms by (intro exI [of _ 1]) (auto simp: word_of_def matched_def tag_law starts_with_def)
  qed
  then obtain k x where k: "?first i = Parsed (advance k i) x" "k \<le> ?L"
    "takeWhile id_char (drop k (sp_fragment i)) = drop k (takeWhile id_char (sp_fragment i))" by blast
  from chunks_run [of "advance k i" "Suc (sp_left (advance k i))"] obtain xs where
    "p_many0 (p_alt [matched (nm_alphanumeric1 nm), word_of nm ''_'', word_of nm ''-'']) (advance k i) =
      Parsed (advance ?L i) xs"
    using k(2,3) unfolding p_many0_def by (auto simp del: p_many.simps)
  moreover have "?L \<le> sp_left i" by (simp add: sp_left_def length_takeWhile_le)
  ultimately show ?thesis
    using k(1) by (simp add: parse_identifier_def p_recognize_def p_bind_def takeWhile_eq_take [symmetric])
qed

lemma reads_identifier: "ident s \<Longrightarrow> reads (parse_identifier nm) s (stops id_char) s"
  unfolding reads_def
proof (intro allI impI)
  fix i :: span and rest
  assume s: "ident s" and i: "sp_fragment i = s @ rest" and rest: "stops id_char rest"
  from s obtain c t where "s = c # t" by (cases s) (auto simp: ident_def)
  with s i have "sp_fragment i = c # (t @ rest)" "id_char c" "c \<noteq> CHR ''-''" by (auto simp: ident_def)
  moreover have "takeWhile id_char (sp_fragment i) = s"
    using s i rest by (simp add: takeWhile_stops ident_def)
  ultimately show "parse_identifier nm i = Parsed (advance (length s) i) s"
    using identifier_run by fastforce
qed

lemma fails_identifier: "fails (parse_identifier nm) (\<lambda>s. s = [] \<or> \<not> id_char (hd s) \<or> hd s = CHR ''-'')"
  unfolding fails_def
proof (intro allI impI)
  fix i :: span
  assume "sp_fragment i = [] \<or> \<not> id_char (hd (sp_fragment i)) \<or> hd (sp_fragment i) = CHR ''-''"
  then show "parse_identifier nm i = Failed"
    by (cases "sp_fragment i")
      (auto simp: parse_identifier_def p_recognize_def p_bind_def matched_def alphanumeric1_law nonzero_def
        word_of_def tag_law starts_with_def id_char_def is_ascii_alphanumeric_def is_ascii_alphabetic_def
        is_ascii_upper_def is_ascii_lower_def is_ascii_digit_def)
qed

end


section \<open>Tags\<close>

definition good_arg :: "(string \<Rightarrow> bool) \<Rightarrow> string \<Rightarrow> bool" where
  "good_arg unicode a \<longleftrightarrow> (if needs_backticks unicode a then CHR 0x60 \<notin> set a else ident a)"

text \<open>A tag the grammar can name: its arguments are identifiers or texts that need backticks.\<close>

definition good_tag :: "(string \<Rightarrow> bool) \<Rightarrow> tag \<Rightarrow> bool" where
  "good_tag unicode t \<longleftrightarrow> ident (tag_name t) \<and> list_all (good_arg unicode) (tag_args t)"

definition tag_stop :: "string \<Rightarrow> bool" where
  "tag_stop rest \<longleftrightarrow> rest = [] \<or> (\<not> id_char (hd rest) \<and> hd rest \<noteq> CHR ''('')"

lemma id_char_simps [simp]:
  "\<not> id_char (CHR '','')" "\<not> id_char (CHR '')'')" "\<not> id_char (CHR ''('')" "\<not> id_char (CHR 0x20)"
  "\<not> id_char (CHR ''@'')" "\<not> id_char (CHR ''!'')" "\<not> id_char (CHR 0x60)" "\<not> id_char (CHR '':'')"
  "\<not> id_char newline"
  by (simp_all add: id_char_def is_ascii_alphanumeric_def is_ascii_alphabetic_def is_ascii_upper_def
      is_ascii_lower_def is_ascii_digit_def newline_def)

lemma multispace_simps [simp]:
  "\<not> is_multispace (CHR 0x60)" "\<not> is_multispace (CHR '')'')" "\<not> is_multispace (CHR ''@'')"
  "\<not> is_multispace (CHR ''('')" "is_multispace (CHR 0x20)" "is_multispace newline"
  "\<not> is_multispace (CHR ''a'')" "\<not> is_multispace (CHR ''o'')" "\<not> is_multispace (CHR ''|'')"
  "\<not> is_multispace (CHR ''#'')" "\<not> is_multispace (CHR '':'')" "\<not> is_multispace (CHR 0x22)"
  by (simp_all add: is_multispace_def newline_def)

lemma ident_hd: "ident s \<Longrightarrow> s \<noteq> [] \<and> id_char (hd s) \<and> \<not> is_multispace (hd s)"
  using multispace_not_id by (cases s) (auto simp: ident_def)

lemma fmt_tag_arg_hd: "good_arg unicode a \<Longrightarrow> fmt_tag_arg unicode a \<noteq> [] \<and> \<not> is_multispace (hd (fmt_tag_arg unicode a))"
  using ident_hd by (auto simp: good_arg_def fmt_tag_arg_def in_backticks_def)

context nom_laws
begin

lemma reads_ws_none: "reads (ws nm) [] (stops is_multispace) ()"
  using reads_ws [of "[]"] by simp

lemma reads_tag_argument:
  assumes "good_arg unicode a"
  shows "reads (p_seq [ws nm] (parse_tag_argument nm)) (fmt_tag_arg unicode a) (stops id_char) a"
proof -
  have "reads (parse_tag_argument nm) (fmt_tag_arg unicode a) (stops id_char) a"
  proof (cases "needs_backticks unicode a")
    case True
    with assms have "reads (parse_multiline_string nm) (in_backticks a) (stops id_char) a"
      using reads_delimited [of "CHR 0x60" a] by (simp add: parse_multiline_string_def in_backticks_def good_arg_def)
    with True show ?thesis by (simp add: parse_tag_argument_def fmt_tag_arg_def reads_alt del: p_alt.simps)
  next
    case False
    with assms have a: "ident a" by (simp add: good_arg_def)
    have "reads (p_alt [parse_multiline_string nm, parse_identifier nm]) a (stops id_char) a"
      unfolding parse_multiline_string_def
      by (rule reads_alt_second [OF fails_delimited]) (use a ident_hd [OF a] reads_identifier [OF a] in \<open>auto simp: hd_append\<close>)
    with False show ?thesis by (simp add: parse_tag_argument_def fmt_tag_arg_def)
  qed
  then have "reads (p_seq [ws nm] (parse_tag_argument nm)) ([] @ fmt_tag_arg unicode a) (stops id_char) a"
    by (intro reads_seq [OF reads_ws_none]) (use fmt_tag_arg_hd [OF assms] in \<open>auto simp: stops_def hd_append\<close>)
  then show ?thesis by simp
qed

lemma reads_comma: "reads (p_seq [sym nm (CHR '','')] (ws nm)) '','' (stops is_multispace) ()"
proof -
  have "reads (p_seq [sym nm (CHR '','')] (ws nm)) ('','' @ []) (stops is_multispace) ()"
    by (rule reads_seq [OF reads_sym [where ok = "\<lambda>_. True"]]) (simp_all add: reads_ws_none)
  then show ?thesis by simp
qed

lemma reads_more_args:
  "list_all (good_arg unicode) as \<Longrightarrow>
   sp_fragment i = concat (map (\<lambda>a. '','' @ fmt_tag_arg unicode a) as) @ '')'' @ rest \<Longrightarrow> sp_left i < n \<Longrightarrow>
   p_rest n (p_seq [sym nm (CHR '','')] (ws nm)) (p_seq [ws nm] (parse_tag_argument nm)) i =
     Parsed (advance (length (concat (map (\<lambda>a. '','' @ fmt_tag_arg unicode a) as))) i) as"
proof (induction as arbitrary: i n)
  case Nil
  have "fails (p_seq [sym nm (CHR '','')] (ws nm)) (\<lambda>s. s = [] \<or> hd s \<noteq> CHR '','')"
    by (intro fails_seq fails_sym)
  with Nil show ?case by (cases n) (simp_all add: fails_def del: p_seq.simps)
next
  case (Cons a as)
  obtain k where n: "n = Suc k" using Cons.prems(3) by (cases n) auto
  let ?sep = "p_seq [sym nm (CHR '','')] (ws nm)" and ?p = "p_seq [ws nm] (parse_tag_argument nm)"
  let ?t = "concat (map (\<lambda>a. '','' @ fmt_tag_arg unicode a) as) @ '')'' @ rest"
  have a: "good_arg unicode a" using Cons.prems(1) by simp
  have sep: "?sep i = Parsed (advance 1 i) ()"
    using readsD [OF reads_comma, of i "fmt_tag_arg unicode a @ ?t"] Cons.prems(2) fmt_tag_arg_hd [OF a]
    by (auto simp: stops_def hd_append simp del: p_seq.simps)
  have "stops id_char ?t" by (cases as) (auto simp: stops_def)
  then have arg: "?p (advance 1 i) = Parsed (advance (length (fmt_tag_arg unicode a)) (advance 1 i)) a"
    by (intro readsD [OF reads_tag_argument [OF a], where rest = ?t]) (use Cons.prems(2) in auto)
  let ?j = "advance (Suc (length (fmt_tag_arg unicode a))) i"
  have "sp_left ?j < k" "sp_left ?j \<noteq> sp_left i"
    using Cons.prems(2,3) n by (auto simp: sp_left_def)
  moreover have "sp_fragment ?j = ?t" using Cons.prems(2) by simp
  ultimately have "p_rest k ?sep ?p ?j = Parsed (advance (length (concat (map (\<lambda>a. '','' @ fmt_tag_arg unicode a) as))) ?j) as"
    using Cons.IH [of ?j k] Cons.prems(1) by (simp del: p_seq.simps)
  with sep arg n \<open>sp_left ?j \<noteq> sp_left i\<close> show ?case
    by (simp add: p_map_def p_bind_def p_return_def del: p_seq.simps)
qed

lemma join_comma: "join '','' (s # ss) = s @ concat (map (\<lambda>t. '','' @ t) ss)"
  by (induction ss arbitrary: s) auto

lemma reads_tag_args:
  assumes "list_all (good_arg unicode) args" and "args \<noteq> []"
  shows "reads (parse_tag_args nm) (''('' @ join '','' (map (fmt_tag_arg unicode) args) @ '')'') ok args"
  unfolding reads_def
proof (intro allI impI)
  fix i :: span and rest
  assume "sp_fragment i = (''('' @ join '','' (map (fmt_tag_arg unicode) args) @ '')'') @ rest"
  moreover obtain a as where as: "args = a # as" using assms(2) by (cases args) auto
  ultimately have i: "sp_fragment i = ''('' @ fmt_tag_arg unicode a @
      concat (map (\<lambda>a. '','' @ fmt_tag_arg unicode a) as) @ '')'' @ rest"
    by (simp add: join_comma comp_def)
  let ?sep = "p_seq [sym nm (CHR '','')] (ws nm)" and ?p = "p_seq [ws nm] (parse_tag_argument nm)"
  let ?t = "concat (map (\<lambda>a. '','' @ fmt_tag_arg unicode a) as) @ '')'' @ rest"
  have a: "good_arg unicode a" "list_all (good_arg unicode) as" using assms(1) as by auto
  have open_p: "sym nm (CHR ''('') i = Parsed (advance 1 i) ()"
    using readsD [OF reads_sym [where ok = "\<lambda>_. True"], of i "CHR ''(''"] i by simp
  have "stops id_char ?t" by (cases as) (auto simp: stops_def)
  then have first: "?p (advance 1 i) = Parsed (advance (length (fmt_tag_arg unicode a)) (advance 1 i)) a"
    by (intro readsD [OF reads_tag_argument [OF a(1)], where rest = ?t]) (use i in auto)
  let ?j = "advance (Suc (length (fmt_tag_arg unicode a))) i"
  have "sp_fragment ?j = ?t" using i by simp
  then have more: "p_rest (Suc (sp_left ?j)) ?sep ?p ?j =
      Parsed (advance (length (concat (map (\<lambda>a. '','' @ fmt_tag_arg unicode a) as))) ?j) as"
    by (intro reads_more_args [OF a(2)]) auto
  let ?k = "advance (length (concat (map (\<lambda>a. '','' @ fmt_tag_arg unicode a) as))) ?j"
  have "sym nm (CHR '')'') ?k = Parsed (advance 1 ?k) ()"
    using readsD [OF reads_sym [where ok = "\<lambda>_. True"], of ?k "CHR '')''" rest] i by simp
  moreover define sep where "sep = ?sep"
  moreover define p where "p = ?p"
  moreover have "parse_tag_args nm = p_bind (p_bind (sym nm (CHR ''('')) (\<lambda>_. p_separated_list1 sep p))
      (\<lambda>args. p_bind (sym nm (CHR '')'')) (\<lambda>_. p_return args))"
    by (simp add: parse_tag_args_def sep_def p_def)
  ultimately show "parse_tag_args nm i = Parsed
      (advance (length (''('' @ join '','' (map (fmt_tag_arg unicode) args) @ '')'')) i) args"
    using open_p first [folded p_def] more [folded sep_def p_def]
    by (simp add: p_separated_list1_def p_bind_def p_map_def p_return_def as join_comma comp_def del: p_rest.simps)
qed

lemma fails_tag_args: "fails (parse_tag_args nm) (\<lambda>s. s = [] \<or> hd s \<noteq> CHR ''('')"
  unfolding parse_tag_args_def by (intro fails_bind fails_seq fails_sym)

end


context nom_laws
begin

lemma reads_tag:
  assumes "good_tag unicode t"
  shows "reads (parse_tag nm) (fmt_tag unicode t) tag_stop t"
proof -
  have name: "ident (tag_name t)" and args: "list_all (good_arg unicode) (tag_args t)"
    using assms by (simp_all add: good_tag_def)
  let ?args = "if tag_args t = [] then [] else ''('' @ join '','' (map (fmt_tag_arg unicode) (tag_args t)) @ '')''"
  let ?F = "\<lambda>name negated args. \<lparr> tag_name = name, tag_negated = negated \<noteq> (None :: unit option),
      tag_args = (case args of None \<Rightarrow> [] | Some as \<Rightarrow> as) \<rparr>"
  let ?neg = "if tag_negated t then Some () else None"
  have a: "reads (p_opt (parse_tag_args nm)) ?args tag_stop (if tag_args t = [] then None else Some (tag_args t))"
  proof (cases "tag_args t = []")
    case True
    then show ?thesis
      using reads_weaken [OF reads_opt_none [OF fails_tag_args], of tag_stop] by (auto simp: tag_stop_def)
  next
    case False
    with reads_opt [OF reads_tag_args [OF args False]] show ?thesis by simp
  qed
  have "reads (p_map (?F (tag_name t) ?neg) (p_opt (parse_tag_args nm))) ?args tag_stop
      (?F (tag_name t) ?neg (if tag_args t = [] then None else Some (tag_args t)))"
    by (rule reads_map [OF a])
  then have n: "reads (p_bind (parse_identifier nm) (\<lambda>name. p_map (?F name ?neg) (p_opt (parse_tag_args nm))))
      (tag_name t @ ?args) tag_stop (?F (tag_name t) ?neg (if tag_args t = [] then None else Some (tag_args t)))"
    by (rule reads_bind [OF reads_identifier [OF name]]) (auto simp: stops_def tag_stop_def)
  have neg: "reads (p_opt (sym nm (CHR ''!''))) (if tag_negated t then ''!'' else [])
      (\<lambda>s. s \<noteq> [] \<and> id_char (hd s)) ?neg"
  proof (cases "tag_negated t")
    case True
    then show ?thesis using reads_opt [OF reads_sym] by simp
  next
    case False
    have "c \<noteq> CHR ''!''" if "id_char c" for c using that by auto
    then have "reads (p_opt (sym nm (CHR ''!''))) [] (\<lambda>s. s \<noteq> [] \<and> id_char (hd s)) None"
      by (intro reads_weaken [OF reads_opt_none [OF fails_sym]]) blast
    with False show ?thesis by simp
  qed
  have b: "reads (p_bind (p_opt (sym nm (CHR ''!''))) (\<lambda>negated. p_bind (parse_identifier nm)
        (\<lambda>name. p_map (?F name negated) (p_opt (parse_tag_args nm)))))
      ((if tag_negated t then ''!'' else []) @ tag_name t @ ?args) tag_stop
      (?F (tag_name t) ?neg (if tag_args t = [] then None else Some (tag_args t)))"
    by (rule reads_bind [OF neg], rule n) (use ident_hd [OF name] in auto)
  have "reads (parse_tag nm) (''@'' @ (if tag_negated t then ''!'' else []) @ tag_name t @ ?args) tag_stop
      (?F (tag_name t) ?neg (if tag_args t = [] then None else Some (tag_args t)))"
    unfolding parse_tag_def
    by (rule reads_seq [OF reads_sym [where ok = "\<lambda>_. True"]]) (use b in simp_all)
  then show ?thesis by (cases t) (simp add: fmt_tag_def split: if_splits)
qed

lemma fails_tag: "fails (parse_tag nm) (\<lambda>s. s = [] \<or> hd s \<noteq> CHR ''@'')"
  unfolding parse_tag_def by (intro fails_seq fails_sym)

end

section \<open>Tag expressions\<close>

text \<open>
  The shape the grammar gives a printed expression: chains of conjuncts and of disjuncts, both
  associated to the left.
\<close>

fun chain :: "('a \<Rightarrow> 'a \<Rightarrow> 'a) \<Rightarrow> 'a list \<Rightarrow> 'a" where
  "chain f [] = undefined"
| "chain f (x # xs) = foldl f x xs"

fun factors :: "tag_expr \<Rightarrow> tag_expr list" and disjuncts :: "tag_expr \<Rightarrow> tag_expr list" where
  "factors (TagE t) = [TagE t]"
| "factors (AndE l r) = factors l @ factors r"
| "factors (OrE l r) = [chain OrE (disjuncts l @ disjuncts r)]"
| "disjuncts (TagE t) = [TagE t]"
| "disjuncts (AndE l r) = [chain AndE (factors l @ factors r)]"
| "disjuncts (OrE l r) = disjuncts l @ disjuncts r"

definition regroup :: "tag_expr \<Rightarrow> tag_expr" where
  "regroup e = chain OrE (disjuncts e)"

fun good_expr :: "(string \<Rightarrow> bool) \<Rightarrow> tag_expr \<Rightarrow> bool" where
  "good_expr unicode (TagE t) \<longleftrightarrow> good_tag unicode t"
| "good_expr unicode (AndE l r) \<longleftrightarrow> good_expr unicode l \<and> good_expr unicode r"
| "good_expr unicode (OrE l r) \<longleftrightarrow> good_expr unicode l \<and> good_expr unicode r"

text \<open>The printed pieces between the connectives, in the same order.\<close>

definition fmt_factor :: "(string \<Rightarrow> bool) \<Rightarrow> tag_expr \<Rightarrow> string" where
  "fmt_factor unicode e = (if is_or e then ''('' @ fmt_tag_expr unicode e @ '')'' else fmt_tag_expr unicode e)"

fun factor_texts :: "(string \<Rightarrow> bool) \<Rightarrow> tag_expr \<Rightarrow> string list" where
  "factor_texts unicode (AndE l r) = factor_texts unicode l @ factor_texts unicode r"
| "factor_texts unicode e = [fmt_factor unicode e]"

fun disjunct_texts :: "(string \<Rightarrow> bool) \<Rightarrow> tag_expr \<Rightarrow> string list" where
  "disjunct_texts unicode (OrE l r) = disjunct_texts unicode l @ disjunct_texts unicode r"
| "disjunct_texts unicode e = [fmt_tag_expr unicode e]"

lemma join_append: "xs \<noteq> [] \<Longrightarrow> ys \<noteq> [] \<Longrightarrow> join sep (xs @ ys) = join sep xs @ sep @ join sep ys"
proof (induction sep xs rule: join.induct)
  case (2 sep s)
  then show ?case by (cases ys) auto
qed auto

lemma texts_not_Nil [simp]: "factor_texts unicode e \<noteq> []" "disjunct_texts unicode e \<noteq> []"
  by (induction e) auto

lemma fmt_factors: "fmt_factor unicode e = join '' and '' (factor_texts unicode e)"
proof (induction e)
  case (AndE l r)
  then show ?case by (simp add: fmt_factor_def join_append Let_def)
qed (simp_all add: fmt_factor_def)

lemma fmt_disjuncts: "fmt_tag_expr unicode e = join '' or '' (disjunct_texts unicode e)"
  by (induction e) (simp_all add: join_append Let_def)

lemma regroup_lengths: "length (factors e) = length (factor_texts unicode e)"
  "length (disjuncts e) = length (disjunct_texts unicode e)"
  by (induction e) auto

section \<open>Regrouping keeps the meaning\<close>

lemma foldl_and: "check_tag_expr (foldl AndE e es) env ctx input \<longleftrightarrow>
    check_tag_expr e env ctx input \<and> (\<forall>x \<in> set es. check_tag_expr x env ctx input)"
  by (induction es arbitrary: e) auto

lemma foldl_or: "check_tag_expr (foldl OrE e es) env ctx input \<longleftrightarrow>
    check_tag_expr e env ctx input \<or> (\<exists>x \<in> set es. check_tag_expr x env ctx input)"
  by (induction es arbitrary: e) auto

lemma chain_and: "es \<noteq> [] \<Longrightarrow> check_tag_expr (chain AndE es) env ctx input \<longleftrightarrow>
    (\<forall>x \<in> set es. check_tag_expr x env ctx input)"
  by (cases es) (auto simp: foldl_and)

lemma chain_or: "es \<noteq> [] \<Longrightarrow> check_tag_expr (chain OrE es) env ctx input \<longleftrightarrow>
    (\<exists>x \<in> set es. check_tag_expr x env ctx input)"
  by (cases es) (auto simp: foldl_or)

lemma factors_not_Nil [simp]: "factors e \<noteq> []" and disjuncts_not_Nil [simp]: "disjuncts e \<noteq> []"
  by (induction e) auto

lemma regroup_meaning:
  "(\<forall>x \<in> set (factors e). check_tag_expr x env ctx input) \<longleftrightarrow> check_tag_expr e env ctx input"
  "(\<exists>x \<in> set (disjuncts e). check_tag_expr x env ctx input) \<longleftrightarrow> check_tag_expr e env ctx input"
  by (induction e) (auto simp: chain_and chain_or)

lemma check_regroup: "check_tag_expr (regroup e) env ctx input = check_tag_expr e env ctx input"
  by (simp add: regroup_def chain_or regroup_meaning)


section \<open>Reading a printed expression\<close>

text \<open>What may follow: nothing that would go on with the tag, or with a connective.\<close>

definition no_word :: "string \<Rightarrow> string \<Rightarrow> bool" where
  "no_word w rest \<longleftrightarrow> \<not> starts_with w (dropWhile is_multispace rest)"

definition and_stop :: "string \<Rightarrow> bool" where
  "and_stop rest \<longleftrightarrow> tag_stop rest \<and> no_word ''and'' rest"

definition expr_stop :: "string \<Rightarrow> bool" where
  "expr_stop rest \<longleftrightarrow> and_stop rest \<and> no_word ''or'' rest"

context nom_laws
begin

lemma fails_connective: "fails (p_seq [ws nm, kw nm w, ws nm] p) (no_word w)"
  unfolding fails_def
proof (intro allI impI)
  fix i :: span
  assume "no_word w (sp_fragment i)"
  then show "p_seq [ws nm, kw nm w, ws nm] p i = Failed"
    using fails_kw [of w] by (simp add: p_bind_def ws_run fails_def no_word_def dropWhile_eq_drop)
qed

lemma reads_connective:
  assumes "reads p s ok x" and "s \<noteq> []" "\<not> is_multispace (hd s)" and "w \<noteq> []" "\<not> is_multispace (hd w)"
  shows "reads (p_seq [ws nm, kw nm w, ws nm] p) ('' '' @ w @ '' '' @ s) ok x"
proof (rule reads_seq)
  show "reads (ws nm) '' '' (stops is_multispace) ()" by (rule reads_ws) simp
  show "stops is_multispace ((w @ '' '' @ s) @ rest)" for rest using assms(4,5) by (simp add: stops_def)
  show "reads (p_seq [kw nm w, ws nm] p) (w @ '' '' @ s) ok x"
  proof (rule reads_seq [OF reads_kw [where ok = "\<lambda>_. True"]])
    show "reads (p_seq [ws nm] p) ('' '' @ s) ok x"
      by (rule reads_seq [OF reads_ws]) (use assms(1-3) in \<open>auto simp: stops_def\<close>)
  qed simp
qed

lemma reads_chain:
  assumes items: "\<forall>(s, x) \<in> set items. reads p s ok x \<and> s \<noteq> [] \<and> \<not> is_multispace (hd s)" "items \<noteq> []"
    and w: "w \<noteq> []" "\<not> is_multispace (hd w)" and ok: "\<And>t. ok ('' '' @ w @ '' '' @ t)"
    and ok': "\<And>rest. ok' rest \<Longrightarrow> ok rest \<and> no_word w rest"
  shows "reads (p_bind p (\<lambda>first. p_map (\<lambda>rest. foldl f first rest) (p_many0 (p_seq [ws nm, kw nm w, ws nm] p))))
    (join ('' '' @ w @ '' '') (map fst items)) ok' (chain f (map snd items))"
proof -
  obtain s x rest where it: "items = (s, x) # rest" using items(2) by (cases items) auto
  let ?more = "map (\<lambda>(s, x). ('' '' @ w @ '' '' @ s, x)) rest"
  let ?q = "p_seq [ws nm, kw nm w, ws nm] p"
  have texts: "concat (map fst ?more) = concat (map (\<lambda>(s, x). '' '' @ w @ '' '' @ s) rest)"
    by (induction rest) auto
  have "\<forall>(s, x) \<in> set ?more. reads ?q s ok x \<and> s \<noteq> [] \<and> (\<forall>t. ok (s @ t))"
  proof (clarsimp simp del: p_seq.simps, intro conjI allI)
    fix a b assume "(a, b) \<in> set rest"
    then have "reads p a ok b" "a \<noteq> []" "\<not> is_multispace (hd a)" using items(1) it by auto
    from reads_connective [OF this w] show "reads ?q (CHR 0x20 # w @ CHR 0x20 # a) ok b" by simp
  next
    show "ok (CHR 0x20 # w @ CHR 0x20 # a @ t)" for a t using ok [of "a @ t"] by simp
  qed
  then have "reads (p_many0 ?q) (concat (map fst ?more)) ok' (map snd ?more)"
    by (rule reads_many) (use ok' fails_connective [of w p] in \<open>auto simp: fails_def simp del: p_seq.simps\<close>)
  then have more: "reads (p_map (\<lambda>rest. foldl f x rest) (p_many0 ?q)) (concat (map fst ?more)) ok' (foldl f x (map snd ?more))"
    by (rule reads_map)
  have first: "reads p s ok x" using items(1) it by simp
  have "reads (p_bind p (\<lambda>first. p_map (\<lambda>rest. foldl f first rest) (p_many0 ?q)))
      (s @ concat (map fst ?more)) ok' (foldl f x (map snd ?more))"
  proof (rule reads_bind [OF first], rule more)
    show "ok (concat (map fst ?more) @ r)" if "ok' r" for r
      using ok' [OF that] ok [of "fst (hd rest) @ concat (map fst (tl ?more)) @ r"] by (cases rest) (auto simp: case_prod_unfold)
  qed
  moreover have "join ('' '' @ w @ '' '') (map fst items) = s @ concat (map fst ?more)"
    unfolding texts it by (induction rest arbitrary: s x) auto
  moreover have "chain f (map snd items) = foldl f x (map snd ?more)"
    by (simp add: it comp_def case_prod_unfold)
  ultimately show ?thesis by (simp only:)
qed

lemma fmt_tag_expr_hd: "good_expr unicode e \<Longrightarrow> fmt_tag_expr unicode e \<noteq> [] \<and> hd (fmt_tag_expr unicode e) \<in> {CHR ''@'', CHR ''(''}"
  by (induction e) (auto simp: fmt_tag_def Let_def)

lemma reads_primary:
  assumes "good_expr unicode e" and "\<And>l r. e \<noteq> AndE l r"
    and "is_or e \<Longrightarrow> reads g (fmt_tag_expr unicode e) expr_stop (regroup e)"
  shows "reads (parse_tag_primary nm g) (fmt_factor unicode e) tag_stop (case e of TagE t \<Rightarrow> TagE t | _ \<Rightarrow> regroup e)"
proof (cases e)
  case (TagE t)
  have "fails (p_bind (p_seq [sym nm (CHR ''(''), ws nm] g) (\<lambda>expr. p_seq [ws nm, sym nm (CHR '')'')] (p_return expr)))
      (\<lambda>s. s = [] \<or> hd s \<noteq> CHR ''('')"
    by (intro fails_bind fails_seq fails_sym)
  moreover have "reads (p_alt [p_map TagE (parse_tag nm)]) (fmt_tag unicode t) tag_stop (TagE t)"
    using TagE assms(1) reads_map [OF reads_tag, of unicode t TagE] by simp
  ultimately have "reads (parse_tag_primary nm g) (fmt_tag unicode t) tag_stop (TagE t)"
    unfolding parse_tag_primary_def by (rule reads_alt_second) (simp_all add: fmt_tag_def)
  with TagE show ?thesis by (simp add: fmt_factor_def)
next
  case (OrE l r)
  let ?t = "fmt_tag_expr unicode e"
  have g: "reads g ?t expr_stop (regroup e)" using assms(3) OrE by simp
  have hd_t: "?t \<noteq> []" "\<not> is_multispace (hd ?t)" using fmt_tag_expr_hd [OF assms(1)] by auto
  have inner: "reads (p_seq [ws nm] g) ([] @ ?t) expr_stop (regroup e)"
    by (rule reads_seq [OF reads_ws_none]) (use g hd_t in \<open>auto simp: stops_def\<close>)
  have "reads (p_seq [sym nm (CHR ''(''), ws nm] g) (''('' @ ?t) expr_stop (regroup e)"
    by (rule reads_seq [OF reads_sym [where ok = "\<lambda>_. True"]]) (use inner in simp_all)
  moreover have "reads (p_seq [sym nm (CHR '')'')] (p_return (regroup e))) ('')'' @ []) tag_stop (regroup e)"
    by (rule reads_seq [OF reads_sym [where ok = "\<lambda>_. True"]]) (simp_all add: reads_return)
  then have "reads (p_seq [ws nm, sym nm (CHR '')'')] (p_return (regroup e))) ([] @ '')'') tag_stop (regroup e)"
    by (intro reads_seq [OF reads_ws_none]) (simp_all add: stops_def)
  ultimately have "reads (p_bind (p_seq [sym nm (CHR ''(''), ws nm] g)
      (\<lambda>expr. p_seq [ws nm, sym nm (CHR '')'')] (p_return expr))) ((''('' @ ?t) @ '')'') tag_stop (regroup e)"
    by (intro reads_bind [where ok = expr_stop])
      (auto simp: expr_stop_def and_stop_def tag_stop_def no_word_def starts_with_def simp del: p_seq.simps)
  with OrE show ?thesis by (simp add: parse_tag_primary_def reads_alt fmt_factor_def del: p_alt.simps p_seq.simps)
qed (use assms(2) in auto)

end


context nom_laws
begin

lemma fmt_factor_hd:
  "good_expr unicode e \<Longrightarrow> fmt_factor unicode e \<noteq> [] \<and> \<not> is_multispace (hd (fmt_factor unicode e))"
  using fmt_tag_expr_hd [of unicode e] by (auto simp: fmt_factor_def)

definition reads_groups :: "(string \<Rightarrow> bool) \<Rightarrow> tag_expr parser \<Rightarrow> nat \<Rightarrow> bool" where
  "reads_groups unicode g n \<longleftrightarrow>
     (\<forall>e. good_expr unicode e \<longrightarrow> length (fmt_tag_expr unicode e) < n \<longrightarrow>
        reads g (fmt_tag_expr unicode e) expr_stop (regroup e))"

definition reads_items :: "'a parser \<Rightarrow> (string \<Rightarrow> bool) \<Rightarrow> string list \<Rightarrow> 'a list \<Rightarrow> bool" where
  "reads_items p ok ss xs \<longleftrightarrow> list_all2 (\<lambda>s x. reads p s ok x \<and> s \<noteq> [] \<and> \<not> is_multispace (hd s)) ss xs"

lemma reads_chain_items:
  assumes "reads_items p ok ss xs" and "ss \<noteq> []"
    and w: "w \<noteq> []" "\<not> is_multispace (hd w)" and ok: "\<And>t. ok ('' '' @ w @ '' '' @ t)"
    and ok': "\<And>rest. ok' rest \<Longrightarrow> ok rest \<and> no_word w rest"
  shows "reads (p_bind p (\<lambda>first. p_map (\<lambda>rest. foldl f first rest) (p_many0 (p_seq [ws nm, kw nm w, ws nm] p))))
    (join ('' '' @ w @ '' '') ss) ok' (chain f xs)"
proof -
  have len: "length ss = length xs" using assms(1) by (simp add: reads_items_def list_all2_lengthD)
  have "\<forall>(s, x) \<in> set (zip ss xs). reads p s ok x \<and> s \<noteq> [] \<and> \<not> is_multispace (hd s)"
    using assms(1) by (auto simp: reads_items_def list_all2_iff)
  moreover have "zip ss xs \<noteq> []" using assms(2) len by (cases ss; cases xs) auto
  ultimately show ?thesis using reads_chain [of "zip ss xs" p ok w ok' f] w ok ok' len by simp
qed

lemma reads_factors:
  assumes g: "reads_groups unicode g n"
  shows "good_expr unicode e \<Longrightarrow> length (fmt_factor unicode e) \<le> Suc n \<Longrightarrow>
    reads_items (parse_tag_primary nm g) tag_stop (factor_texts unicode e) (factors e)"
proof (induction e)
  case (TagE t)
  with reads_primary [of unicode "TagE t" g] fmt_factor_hd [of unicode "TagE t"] show ?case
    by (simp add: reads_items_def)
next
  case (AndE l r)
  then have "length (fmt_factor unicode l) \<le> Suc n" "length (fmt_factor unicode r) \<le> Suc n"
    by (simp_all add: fmt_factor_def [of _ "AndE l r"] Let_def)
      (simp_all add: fmt_factor_def split: if_splits)
  with AndE show ?case by (simp add: reads_items_def list_all2_appendI)
next
  case (OrE l r)
  then have "reads g (fmt_tag_expr unicode (OrE l r)) expr_stop (regroup (OrE l r))"
    using g by (simp add: reads_groups_def fmt_factor_def del: fmt_tag_expr.simps)
  with OrE reads_primary [of unicode "OrE l r" g] fmt_factor_hd [of unicode "OrE l r"] show ?case
    by (simp add: reads_items_def regroup_def)
qed

lemma reads_and_expr:
  assumes g: "reads_groups unicode g n" and e: "good_expr unicode e" "\<not> is_or e"
    and n: "length (fmt_tag_expr unicode e) \<le> Suc n"
  shows "reads (parse_and_expr nm g) (fmt_tag_expr unicode e) and_stop (chain AndE (factors e))"
proof -
  have t: "fmt_tag_expr unicode e = join '' and '' (factor_texts unicode e)"
    using e(2) fmt_factors [of unicode e] by (simp add: fmt_factor_def)
  have "reads_items (parse_tag_primary nm g) tag_stop (factor_texts unicode e) (factors e)"
    by (rule reads_factors [OF g e(1)]) (use e(2) n in \<open>simp add: fmt_factor_def\<close>)
  from reads_chain_items [OF this, of "''and''" and_stop AndE] show ?thesis
    by (simp add: parse_and_expr_def t and_stop_def tag_stop_def del: p_seq.simps)
qed

lemma reads_disjuncts:
  assumes g: "reads_groups unicode g n"
  shows "good_expr unicode e \<Longrightarrow> length (fmt_tag_expr unicode e) \<le> Suc n \<Longrightarrow>
    reads_items (parse_and_expr nm g) and_stop (disjunct_texts unicode e) (disjuncts e)"
proof (induction e)
  case (OrE l r)
  then show ?case by (simp add: reads_items_def list_all2_appendI)
next
  case (TagE t)
  with reads_and_expr [OF g, of "TagE t"] fmt_tag_expr_hd [of unicode "TagE t"] show ?case
    by (auto simp: reads_items_def)
next
  case (AndE l r)
  with reads_and_expr [OF g, of "AndE l r"] fmt_tag_expr_hd [of unicode "AndE l r"] show ?case
    by (auto simp: reads_items_def simp del: fmt_tag_expr.simps)
qed

lemma reads_or_expr:
  assumes "reads_groups unicode g n" and "good_expr unicode e" and "length (fmt_tag_expr unicode e) \<le> Suc n"
  shows "reads (parse_or_expr nm g) (fmt_tag_expr unicode e) expr_stop (regroup e)"
  using reads_chain_items [OF reads_disjuncts [OF assms] texts_not_Nil(2), of "''or''" expr_stop OrE]
  by (simp add: parse_or_expr_def fmt_disjuncts [of unicode e] regroup_def expr_stop_def and_stop_def tag_stop_def
      no_word_def starts_with_def dropWhile_append3 del: p_seq.simps)

lemma grouped_reads: "reads_groups unicode (parse_grouped n nm) n"
proof (induction n)
  case (Suc n)
  then show ?case using reads_or_expr by (simp add: reads_groups_def [of _ _ "Suc n"] less_Suc_eq_le le_SucI)
qed (simp add: reads_groups_def)

lemma reads_tag_expr:
  assumes "good_expr unicode e"
  shows "reads (parse_tag_expr nm) (fmt_tag_expr unicode e) expr_stop (regroup e)"
  unfolding reads_def
proof (intro allI impI)
  fix i :: span and rest
  assume i: "sp_fragment i = fmt_tag_expr unicode e @ rest" and ok: "expr_stop rest"
  then have "length (fmt_tag_expr unicode e) < Suc (sp_left i)" by (simp add: sp_left_def)
  then have "reads (parse_grouped (Suc (sp_left i)) nm) (fmt_tag_expr unicode e) expr_stop (regroup e)"
    using grouped_reads assms unfolding reads_groups_def by blast
  from readsD [OF this i ok]
  show "parse_tag_expr nm i = Parsed (advance (length (fmt_tag_expr unicode e)) i) (regroup e)"
    by (simp add: parse_tag_expr_def)
qed

end



definition sample_tags :: tag_expr where
  "sample_tags = AndE (TagE \<lparr> tag_name = ''dev'', tag_negated = True, tag_args = [] \<rparr>)
     (OrE (TagE \<lparr> tag_name = ''flag'', tag_negated = False, tag_args = [''beta'', ''new-ui''] \<rparr>)
          (TagE \<lparr> tag_name = ''guard'', tag_negated = False, tag_args = [''.a > 1''] \<rparr>))"


end
