(* ===== verification/Parser_Properties.thy ===== *)
theory Parser_Properties
  imports Parser_Reads
begin

text \<open>
  What the parser does with comments and with names that begin with a keyword.
\<close>

section \<open>Comments\<close>

text \<open>A text of whole UTF-8 characters.\<close>

definition whole_char :: "string \<Rightarrow> bool" where
  "whole_char ch \<longleftrightarrow> ch \<noteq> [] \<and> length ch = utf8_len (hd ch)"

lemma first_char_whole: "whole_char ch \<Longrightarrow> first_char (ch @ s) = ch"
proof -
  assume "whole_char ch"
  then have "ch \<noteq> []" and n: "utf8_len (hd ch) = length ch" by (simp_all add: whole_char_def)
  then have "first_char (ch @ s) = take (length ch) (ch @ s)" by (cases ch) (simp_all add: first_char_def)
  then show "first_char (ch @ s) = ch" by simp
qed

lemma char_bytes_whole:
  "list_all whole_char cs \<Longrightarrow>
     char_bytes (length cs + n) (concat cs @ s) = map_option ((+) (length (concat cs))) (char_bytes n s)"
proof (induction cs)
  case (Cons ch cs)
  then have "ch \<noteq> []" by (simp add: whole_char_def)
  with Cons show ?case
    by (simp add: first_char_whole) (simp add: option.map_comp comp_def add.assoc)
qed (cases "char_bytes n s"; simp)

lemma char_bytes_concat: "list_all whole_char cs \<Longrightarrow> char_bytes (length cs) (concat cs @ s) = Some (length (concat cs))"
  using char_bytes_whole [of cs 0 s] by simp

lemma find_sub_first: "c \<notin> set s \<Longrightarrow> find_sub [c] (s @ c # t) = Some (length s)"
  by (induction s) (auto simp: starts_with_def)

text \<open>
  a comment is skipped up to the byte offset of its newline counted in characters. For a comment
  of \<open>length cs\<close> characters the parser passes over the comment, its newline and, for every byte by
  which its text is longer than its number of characters, one further character of the next lines. A
  comment in ASCII loses nothing; after one with an accented letter the next line has lost its first
  letter.
\<close>

theorem comment_takes_characters:
  assumes "nom_laws nm"
    and "list_all whole_char cs" and "newline \<notin> set (concat cs)"
    and "list_all whole_char lost" and "length lost + length cs = length (concat cs)"
    and "stops is_multispace rest" and "stops ((=) (CHR ''#'')) rest"
    and "sp_fragment i = ''#'' @ concat cs @ [newline] @ concat lost @ rest"
  shows "skip_ws_and_comments nm i = Parsed (advance (length (''#'' @ concat cs @ [newline] @ concat lost)) i) ()"
proof -
  let ?skip = "''#'' @ concat cs @ [newline] @ concat lost"
  have at_i: "ws nm i = Parsed i ()"
    using assms(8) by (simp add: nom_laws.ws_run [OF assms(1)] is_multispace_def)
  have pos: "find_sub [newline] (sp_fragment i) = Some (Suc (length (concat cs)))"
    using find_sub_first [of newline "CHR ''#'' # concat cs" "concat lost @ rest"] assms(3,8)
    by (simp add: newline_def)
  have "list_all whole_char ([''#''] @ cs @ [[newline]] @ lost)"
    using assms(2,4) by (simp add: whole_char_def utf8_len_def newline_def)
  from char_bytes_concat [OF this, of rest]
  have "char_bytes (Suc (length cs + Suc (length lost))) (sp_fragment i) = Some (length ?skip)"
    using assms(8) by (simp del: char_bytes.simps)
  moreover have "Suc (length cs + Suc (length lost)) = Suc (Suc (length (concat cs)))" using assms(5) by simp
  ultimately have "char_bytes (Suc (Suc (length (concat cs)))) (sp_fragment i) = Some (length ?skip)" by (simp only:)
  then have taken: "matched (nm_take nm (Suc (Suc (length (concat cs))))) i = Parsed (advance (length ?skip) i) (take (length ?skip) (sp_fragment i))"
    unfolding matched_def nom_laws.take_law [OF assms(1)] by (simp only: option.case)
  define j where "j = advance (length ?skip) i"
  have "sp_fragment j = rest" using assms(8) by (simp add: j_def)
  then have "ws nm j = Parsed j ()" "\<not> starts_with ''#'' (sp_fragment j)"
    using assms(6,7) by (cases rest; auto simp: nom_laws.ws_run [OF assms(1)] stops_def starts_with_Cons)+
  then have last: "skip_comments (Suc n) nm j = Parsed j ()" for n by simp
  obtain n where "sp_left i = Suc n" using assms(8) by (simp add: sp_left_def)
  then have "skip_ws_and_comments nm i = skip_comments (Suc (Suc n)) nm i"
    by (simp only: skip_ws_and_comments_def)
  also have "\<dots> = skip_comments (Suc n) nm j"
    using at_i pos taken assms(8)
    by (subst skip_comments.simps) (simp add: j_def starts_with_def Let_def del: skip_comments.simps)
  finally show ?thesis using last by (simp add: j_def)
qed

lemma comment_takes_characters_witness:
  "skip_ws_and_comments nom_reference (span_new (''# '' @ [CHR 0xC3, CHR 0xA9] @ [newline] @ ''GET /a'')) =
     Parsed (advance 6 (span_new (''# '' @ [CHR 0xC3, CHR 0xA9] @ [newline] @ ''GET /a''))) ()"
  using comment_takes_characters [OF reference_nom.nom_laws_axioms, of "['' '', [CHR 0xC3, CHR 0xA9]]" "[''G'']" "''ET /a''"
      "span_new (''# '' @ [CHR 0xC3, CHR 0xA9] @ [newline] @ ''GET /a'')"]
  by (simp add: whole_char_def utf8_len_def newline_def stops_def is_multispace_def span_new_def numeral_eq_Suc)


section \<open>Names that begin with a keyword\<close>

text \<open>
  the keyword \<^verbatim>\<open>result\<close> of a step needs no end: a step whose name goes on after it, such as
  \<^verbatim>\<open>|> results: `x`\<close>, is read as a result step without branches, and the rest of the name is left
  over, where no step can begin.
\<close>

theorem result_prefix_is_result_step:
  assumes "nom_laws nm" and "ident w" and "stops id_char rest" and "stops ((=) (CHR ''('')) rest"
    and "sp_fragment i = ''|> result'' @ w @ rest"
  shows "parse_pipeline_step nm pp i = Parsed (advance 9 i) (ResultStep [] (location_from_span nm i))"
proof -
  have w: "w \<noteq> []" "id_char (hd w)" "\<not> is_multispace (hd w)" using ident_hd [OF assms(2)] by auto
  have "hd w \<noteq> CHR ''#''" using w(2)
    by (auto simp: id_char_def is_ascii_alphanumeric_def is_ascii_alphabetic_def is_ascii_upper_def
        is_ascii_lower_def is_ascii_digit_def)
  have skips: "skip_ws_and_comments nm j = Parsed j ()"
    if "sp_fragment j \<noteq> []" "\<not> is_multispace (hd (sp_fragment j))" "hd (sp_fragment j) \<noteq> CHR ''#''" for j
    using that by (cases "sp_fragment j")
      (auto simp: skip_ws_and_comments_def nom_laws.ws_run [OF assms(1)] starts_with_def)
  let ?j = "advance 9 i"
  have j: "sp_fragment ?j = w @ rest" using assms(5) by simp
  have "parse_identifier nm ?j = Parsed (advance (length w) ?j) w"
    by (rule readsD [OF nom_laws.reads_identifier [OF assms(1,2)] j assms(3)])
  moreover have "sym nm (CHR ''('') (advance (length w) ?j) = Failed"
  proof -
    have "sp_fragment (advance (length w) ?j) = rest" using j by (simp del: advance_advance)
    then show ?thesis
      using nom_laws.fails_sym [OF assms(1), of "CHR ''(''"] assms(4) unfolding fails_def stops_def by metis
  qed
  moreover have "skip_ws_and_comments nm ?j = Parsed ?j ()"
    by (rule skips; unfold j) (use w \<open>hd w \<noteq> CHR ''#''\<close> in simp_all)
  ultimately have branch: "parse_result_branch nm pp ?j = Failed"
    by (simp add: parse_result_branch_def p_bind_def p_here_def)
  have kw: "kw nm t l = Parsed (advance (length t) l) ()" if "sp_fragment l = t @ s" for t s l
    using readsD [OF nom_laws.reads_kw [OF assms(1), of t "\<lambda>_. True"] that] by simp
  have i: "skip_ws_and_comments nm i = Parsed i ()" using skips [of i] assms(5) by (simp add: is_multispace_def)
  have k1: "kw nm ''|>'' i = Parsed (advance 2 i) ()" using kw [of i "''|>''"] assms(5) by (simp add: numeral_2_eq_2)
  have k2: "ws nm (advance 2 i) = Parsed (advance 3 i) ()"
    using assms(5) by (simp add: nom_laws.ws_run [OF assms(1)] is_multispace_def)
  have k3: "kw nm ''result'' (advance 3 i) = Parsed ?j ()" using kw [of "advance 3 i" "''result''"] assms(5) by (simp add: numeral_eq_Suc)
  show ?thesis
    using i k1 k2 k3 branch \<open>skip_ws_and_comments nm ?j = Parsed ?j ()\<close>
    by (simp add: parse_pipeline_step_def parse_result_step_def p_bind_def p_here_def p_map_def p_many0_def p_return_def)
qed

lemma result_prefix_is_result_step_witness:
  "parse_pipeline_step nom_reference (parse_pipeline nom_reference) (span_new ''|> results: `x`'') =
     Parsed (advance 9 (span_new ''|> results: `x`''))
       (ResultStep [] (location_from_span nom_reference (span_new ''|> results: `x`'')))"
proof -
  have "ident ''s''" "stops id_char '': `x`''"
    by (simp_all add: ident_def id_char_def is_ascii_alphanumeric_def is_ascii_alphabetic_def is_ascii_upper_def
        is_ascii_lower_def is_ascii_digit_def stops_def)
  from result_prefix_is_result_step [OF reference_nom.nom_laws_axioms this] show ?thesis
    by (simp add: stops_def span_new_def)
qed

end
