(* ===== verification/Server_Modules.thy ===== *)
theory Server_Modules
  imports Loader Middleware "HOL-Library.List_Lexorder" "HOL-Library.Char_ord"
begin

text \<open>
  How the server puts the modules of a program together (\<^verbatim>\<open>src/server.rs\<close>): every step learns
  the file and the number of its module, the declarations of all modules are merged, and the symbols
  the executor resolves names with are collected. A hash map that is iterated is the list of its
  entries, in the order of the iteration.
\<close>

section \<open>Locations\<close>

definition in_module :: "string \<Rightarrow> nat \<Rightarrow> source_location \<Rightarrow> source_location" where
  "in_module file_path module_id l = l\<lparr>loc_file_path := Some file_path, loc_module_id := Some module_id\<rparr>"

fun set_pipeline_module_info :: "string \<Rightarrow> nat \<Rightarrow> pipeline \<Rightarrow> pipeline"
and set_step_module_info :: "string \<Rightarrow> nat \<Rightarrow> pipeline_step \<Rightarrow> pipeline_step"
and set_result_branch_info :: "string \<Rightarrow> nat \<Rightarrow> result_branch \<Rightarrow> result_branch"
and set_dispatch_branch_info :: "string \<Rightarrow> nat \<Rightarrow> dispatch_branch \<Rightarrow> dispatch_branch" where
  "set_pipeline_module_info f i (Pipeline ss) = Pipeline (map (set_step_module_info f i) ss)"
| "set_step_module_info f i (RegularStep rs) = RegularStep (rs\<lparr>rs_location := in_module f i (rs_location rs)\<rparr>)"
| "set_step_module_info f i (ResultStep branches l) =
     ResultStep (map (set_result_branch_info f i) branches) (in_module f i l)"
| "set_step_module_info f i (IfStep c t e l) =
     IfStep (set_pipeline_module_info f i c) (set_pipeline_module_info f i t)
       (map_option (set_pipeline_module_info f i) e) (in_module f i l)"
| "set_step_module_info f i (DispatchStep branches d l) =
     DispatchStep (map (set_dispatch_branch_info f i) branches)
       (map_option (set_pipeline_module_info f i) d) (in_module f i l)"
| "set_step_module_info f i (ForeachStep s p l) =
     ForeachStep s (set_pipeline_module_info f i p) (in_module f i l)"
| "set_result_branch_info f i (ResultBranch ty st p l) = ResultBranch ty st (set_pipeline_module_info f i p) l"
| "set_dispatch_branch_info f i (DispatchBranch c p l) = DispatchBranch c (set_pipeline_module_info f i p) l"

definition set_file_path :: "string \<Rightarrow> source_location \<Rightarrow> source_location" where
  "set_file_path file_path l = (if loc_file_path l = None then l\<lparr>loc_file_path := Some file_path\<rparr> else l)"

definition set_describe_file_path :: "string \<Rightarrow> describe_block \<Rightarrow> describe_block" where
  "set_describe_file_path file_path d =
     d\<lparr>de_location := set_file_path file_path (de_location d),
       de_tests := map (\<lambda>t. t\<lparr>it_location := set_file_path file_path (it_location t)\<rparr>) (de_tests d)\<rparr>"

section \<open>Merging\<close>

type_synonym tree_entries = "(string \<times> module_info) list"

text \<open>Paths are compared component by component.\<close>

definition path_key :: "string \<Rightarrow> string list" where
  "path_key p = filter (\<lambda>c. c \<noteq> []) (split_char (CHR ''/'') p)"

definition sorted_paths :: "tree_entries \<Rightarrow> string list" where
  "sorted_paths tree = sort_key path_key (map fst tree)"

definition path_ids :: "string list \<Rightarrow> (string \<times> nat) list" where
  "path_ids paths = zip paths [0..<length paths]"

definition set_route_info :: "string \<Rightarrow> nat \<Rightarrow> route \<Rightarrow> route" where
  "set_route_info f i r =
     (case rt_pipeline r of
        Inline p \<Rightarrow> r\<lparr>rt_pipeline := Inline (set_pipeline_module_info f i p)\<rparr>
      | Named name \<Rightarrow> r)"

text \<open>What one module adds to the merged program; its schema text is added to a list of its own.\<close>

definition merge_module :: "string \<Rightarrow> nat \<Rightarrow> program \<Rightarrow> program \<Rightarrow> program" where
  "merge_module f i m merged =
     merged\<lparr>
       pr_queries := pr_queries merged @
         map (\<lambda>q. q\<lparr>qr_pipeline := set_pipeline_module_info f i (qr_pipeline q)\<rparr>) (pr_queries m),
       pr_mutations := pr_mutations merged @
         map (\<lambda>q. q\<lparr>mr_pipeline := set_pipeline_module_info f i (mr_pipeline q)\<rparr>) (pr_mutations m),
       pr_resolvers := pr_resolvers merged @
         map (\<lambda>r. r\<lparr>tr_pipeline := set_pipeline_module_info f i (tr_pipeline r)\<rparr>) (pr_resolvers m),
       pr_routes := pr_routes merged @ map (set_route_info f i) (pr_routes m),
       pr_pipelines := pr_pipelines merged @
         map (\<lambda>p. p\<lparr>np_pipeline := set_pipeline_module_info f i (np_pipeline p)\<rparr>) (pr_pipelines m),
       pr_variables := pr_variables merged @ pr_variables m,
       pr_describes := pr_describes merged @ map (set_describe_file_path f) (pr_describes m)\<rparr>"

definition schema_parts :: "program \<Rightarrow> string list" where
  "schema_parts p = (case pr_graphql_schema p of None \<Rightarrow> [] | Some sdl \<Rightarrow> [sdl])"

definition module_program :: "tree_entries \<Rightarrow> string \<Rightarrow> program" where
  "module_program tree path = mi_program (the (map_of tree path))"

definition combined_schema :: "string list \<Rightarrow> string option" where
  "combined_schema parts = (if parts = [] then None else Some (join [newline, newline] parts))"

definition merge_from_module_tree :: "program \<Rightarrow> tree_entries \<Rightarrow> program" where
  "merge_from_module_tree main_program tree =
     (let ids = path_ids (sorted_paths tree);
          empty_merged = empty_program\<lparr>pr_configs := pr_configs main_program, pr_imports := pr_imports main_program,
            pr_feature_flags := pr_feature_flags main_program\<rparr>;
          merged = fold (\<lambda>(path, i). merge_module path i (module_program tree path)) ids empty_merged
      in merged\<lparr>pr_graphql_schema :=
           combined_schema (concat (map (\<lambda>(path, i). schema_parts (module_program tree path)) ids))\<rparr>)"

text \<open>
  Without a module tree the direct imports are loaded, with one loader for all of them; one that
  cannot be loaded is left out.
\<close>

primrec loaded_imports ::
  "(string \<Rightarrow> module_loader \<Rightarrow> ((web_pipe_error + program) \<times> module_loader) option) \<Rightarrow> file_system \<Rightarrow> string \<Rightarrow>
   import_stmt list \<Rightarrow> module_loader \<Rightarrow> program list option" where
  "loaded_imports load fs file_path [] ld = Some []"
| "loaded_imports load fs file_path (i # is) ld =
     (case resolve_import_path fs file_path (imp_path i) of
        Inl e \<Rightarrow> loaded_imports load fs file_path is ld
      | Inr path \<Rightarrow>
          (case load path ld of
             None \<Rightarrow> None
           | Some (Inl e, ld') \<Rightarrow> loaded_imports load fs file_path is ld'
           | Some (Inr p, ld') \<Rightarrow> map_option (Cons p) (loaded_imports load fs file_path is ld')))"

definition imports_of ::
  "file_system \<Rightarrow> (string \<Rightarrow> string + program) \<Rightarrow> nat \<Rightarrow> program \<Rightarrow> string option \<Rightarrow> program list option" where
  "imports_of fs parse fuel prog file_path =
     (case file_path of None \<Rightarrow> Some []
      | Some f \<Rightarrow> loaded_imports (load_module fs parse fuel) fs f (pr_imports prog) module_loader_new)"

definition load_imported_configs ::
  "file_system \<Rightarrow> (string \<Rightarrow> string + program) \<Rightarrow> nat \<Rightarrow> program \<Rightarrow> string option \<Rightarrow> config list option" where
  "load_imported_configs fs parse fuel prog file_path =
     map_option (\<lambda>ps. concat (map pr_configs ps)) (imports_of fs parse fuel prog file_path)"

definition add_imported :: "program \<Rightarrow> program \<Rightarrow> program" where
  "add_imported p merged =
     merged\<lparr>pr_queries := pr_queries merged @ pr_queries p, pr_mutations := pr_mutations merged @ pr_mutations p,
            pr_resolvers := pr_resolvers merged @ pr_resolvers p, pr_routes := pr_routes merged @ pr_routes p,
            pr_pipelines := pr_pipelines merged @ pr_pipelines p, pr_describes := pr_describes merged @ pr_describes p\<rparr>"

definition merge_imported_graphql ::
  "file_system \<Rightarrow> (string \<Rightarrow> string + program) \<Rightarrow> nat \<Rightarrow> program \<Rightarrow> string option \<Rightarrow> program option" where
  "merge_imported_graphql fs parse fuel prog file_path =
     map_option (\<lambda>ps.
         let merged = fold add_imported ps prog; parts = concat (map schema_parts (prog # ps))
         in if parts = [] then merged else merged\<lparr>pr_graphql_schema := combined_schema parts\<rparr>)
       (imports_of fs parse fuel prog file_path)"

text \<open>Templates of imported modules, by the alias of the import.\<close>

definition load_handlebars_from_module_tree ::
  "((string \<rightharpoonup> string) \<Rightarrow> (string \<times> string) list) \<Rightarrow> tree_entries \<Rightarrow> variable list" where
  "load_handlebars_from_module_tree entries tree =
     concat (map (\<lambda>(_, info).
       concat (map (\<lambda>(alias, target_path).
           case map_of tree target_path of
             None \<Rightarrow> []
           | Some target \<Rightarrow>
               map (\<lambda>v. v\<lparr>var_name := alias @ ''/'' @ var_name v\<rparr>)
                 (filter (\<lambda>v. var_type v = ''handlebars'' \<or> var_type v = ''mustache'') (pr_variables (mi_program target))))
         (entries (mi_imports info)))) tree)"

section \<open>Symbols\<close>

type_synonym pipeline_symbols = "nat option \<times> string \<rightharpoonup> pipeline"
type_synonym variable_symbols = "nat option \<times> string \<times> string \<rightharpoonup> variable"

definition insert_pipelines :: "nat option \<Rightarrow> named_pipeline list \<Rightarrow> pipeline_symbols \<Rightarrow> pipeline_symbols" where
  "insert_pipelines i ps = fold (\<lambda>p m. m((i, np_name p) \<mapsto> np_pipeline p)) ps"

definition insert_variables :: "nat option \<Rightarrow> variable list \<Rightarrow> variable_symbols \<Rightarrow> variable_symbols" where
  "insert_variables i vs = fold (\<lambda>v m. m((i, var_type v, var_name v) \<mapsto> v)) vs"

definition insert_queries :: "query_resolver list \<Rightarrow> pipeline_symbols \<Rightarrow> pipeline_symbols" where
  "insert_queries qs = fold (\<lambda>q m. m((None, ''query::'' @ qr_name q) \<mapsto> qr_pipeline q)) qs"

definition insert_mutations :: "mutation_resolver list \<Rightarrow> pipeline_symbols \<Rightarrow> pipeline_symbols" where
  "insert_mutations qs = fold (\<lambda>q m. m((None, ''mutation::'' @ mr_name q) \<mapsto> mr_pipeline q)) qs"

text \<open>The aliases of a module whose targets are in the tree, with the numbers of those modules.\<close>

definition import_ids ::
  "((string \<rightharpoonup> string) \<Rightarrow> (string \<times> string) list) \<Rightarrow> (string \<times> nat) list \<Rightarrow> module_info \<Rightarrow> (string \<times> nat) list" where
  "import_ids entries ids info =
     concat (map (\<lambda>(alias, target). case map_of ids target of None \<Rightarrow> [] | Some j \<Rightarrow> [(alias, j)])
       (entries (mi_imports info)))"

definition register_modules ::
  "((string \<rightharpoonup> string) \<Rightarrow> (string \<times> string) list) \<Rightarrow> tree_entries \<Rightarrow> module_registry" where
  "register_modules entries tree =
     (let ids = path_ids (sorted_paths tree)
      in fold (\<lambda>path reg. snd (register_module path (import_ids entries ids (the (map_of tree path))) reg))
           (sorted_paths tree) module_registry_new)"

definition module_symbols ::
  "string \<times> nat \<Rightarrow> program \<Rightarrow> pipeline_symbols \<times> variable_symbols \<Rightarrow> pipeline_symbols \<times> variable_symbols" where
  "module_symbols = (\<lambda>(f, i) m (ps, vs).
     (let located = set_pipeline_module_info f i
      in (insert_mutations (map (\<lambda>q. q\<lparr>mr_pipeline := located (mr_pipeline q)\<rparr>) (pr_mutations m))
            (insert_queries (map (\<lambda>q. q\<lparr>qr_pipeline := located (qr_pipeline q)\<rparr>) (pr_queries m))
              (insert_pipelines (Some i)
                (map (\<lambda>p. p\<lparr>np_pipeline := located (np_pipeline p)\<rparr>) (pr_pipelines m)) ps)),
          insert_variables (Some i) (pr_variables m) vs)))"

definition local_symbols :: "program \<Rightarrow> pipeline_symbols \<times> variable_symbols" where
  "local_symbols prog =
     (insert_mutations (pr_mutations prog) (insert_queries (pr_queries prog)
        (insert_pipelines None (pr_pipelines prog) Map.empty)),
      insert_variables None (pr_variables prog) Map.empty)"

definition build_symbols :: "program \<Rightarrow> tree_entries \<Rightarrow> pipeline_symbols \<times> variable_symbols" where
  "build_symbols prog tree =
     fold (\<lambda>(path, i). module_symbols (path, i) (module_program tree path)) (path_ids (sorted_paths tree))
       (local_symbols prog)"

end
