(* ===== verification/Server_Names.thy ===== *)
theory Server_Names
  imports Server_Modules Executor "HOL-Library.Multiset"
begin

text \<open>
  Names in a program of several modules: the numbers of modules do not depend on the order in which
  a hash map is iterated, every step knows its module, and a name in a step is looked up in the
  module the step belongs to or, behind an alias, in the module that alias imports.
\<close>

section \<open>Every step knows its module\<close>

text \<open>All steps of a pipeline, those of branches included.\<close>

fun pipeline_locations :: "pipeline \<Rightarrow> source_location list"
  and step_locations :: "pipeline_step \<Rightarrow> source_location list"
  and result_branch_locations :: "result_branch \<Rightarrow> source_location list"
  and dispatch_branch_locations :: "dispatch_branch \<Rightarrow> source_location list" where
  "pipeline_locations (Pipeline ss) = concat (map step_locations ss)"
| "step_locations (RegularStep rs) = [rs_location rs]"
| "step_locations (ResultStep branches l) = l # concat (map result_branch_locations branches)"
| "step_locations (IfStep c t e l) =
     l # pipeline_locations c @ pipeline_locations t @ (case e of None \<Rightarrow> [] | Some p \<Rightarrow> pipeline_locations p)"
| "step_locations (DispatchStep branches d l) =
     l # concat (map dispatch_branch_locations branches) @ (case d of None \<Rightarrow> [] | Some p \<Rightarrow> pipeline_locations p)"
| "step_locations (ForeachStep s p l) = l # pipeline_locations p"
| "result_branch_locations (ResultBranch ty st p l) = pipeline_locations p"
| "dispatch_branch_locations (DispatchBranch c p l) = pipeline_locations p"

lemma set_info_locations:
  "pipeline_locations (set_pipeline_module_info f i p) = map (in_module f i) (pipeline_locations p)"
  "step_locations (set_step_module_info f i s) = map (in_module f i) (step_locations s)"
  "result_branch_locations (set_result_branch_info f i b) = map (in_module f i) (result_branch_locations b)"
  "dispatch_branch_locations (set_dispatch_branch_info f i d) = map (in_module f i) (dispatch_branch_locations d)"
  by (induction p and s and b and d rule: pipeline_locations_step_locations_result_branch_locations_dispatch_branch_locations.induct)
    (simp_all add: map_concat comp_def cong: map_cong split: option.split)

section \<open>The order of modules\<close>

lemma map_of_entries: "distinct (map fst t) \<Longrightarrow> distinct (map fst t') \<Longrightarrow> set t = set t' \<Longrightarrow> map_of t = map_of t'"
  by (simp add: map_of_inject_set)

lemma sorted_paths_unique:
  assumes "distinct (map fst t)" and "distinct (map fst t')" and "set t = set t'" and "inj_on path_key (fst ` set t)"
  shows "sorted_paths t = sorted_paths t'"
proof -
  have "set (map fst t) = set (map fst t')" using assms(3) by simp
  then have "mset (map fst t) = mset (map fst t')" by (rule set_eq_iff_mset_eq_distinct [THEN iffD1, OF assms(1,2)])
  then have "mset (map fst t) = mset (sorted_paths t')" by (simp add: sorted_paths_def)
  moreover have "inj_on path_key (set (map fst t))" using assms(4) by simp
  moreover have "sorted (map path_key (sorted_paths t'))" by (simp add: sorted_paths_def)
  ultimately show ?thesis unfolding sorted_paths_def [of t] by (rule sort_key_inj_key_eq)
qed

text \<open>
  The hasher decides nothing: whatever the order in which the module tree is iterated, the merged
  program, the numbers of the modules with their import tables and the tables of names are the same.
\<close>

theorem modules_are_deterministic:
  assumes "distinct (map fst t)" and "distinct (map fst t')" and "set t = set t'" and "inj_on path_key (fst ` set t)"
  shows "merge_from_module_tree prog t = merge_from_module_tree prog t' \<and>
    register_modules entries t = register_modules entries t' \<and>
    build_symbols prog t = build_symbols prog t'"
  using sorted_paths_unique [OF assms] map_of_entries [OF assms(1-3)]
  by (simp add: merge_from_module_tree_def register_modules_def build_symbols_def module_program_def)

section \<open>The registry\<close>

lemma map_of_path_ids: "distinct ps \<Longrightarrow> map_of (path_ids ps) p = Some i \<longleftrightarrow> i < length ps \<and> ps ! i = p"
proof -
  assume d: "distinct ps"
  then have "distinct (map fst (path_ids ps))" by (simp add: path_ids_def)
  then have "map_of (path_ids ps) p = Some i \<longleftrightarrow> (p, i) \<in> set (path_ids ps)" by simp
  also have "\<dots> \<longleftrightarrow> i < length ps \<and> ps ! i = p" by (auto simp: path_ids_def in_set_zip)
  finally show ?thesis .
qed

definition registered :: "(string \<Rightarrow> (string \<times> nat) list) \<Rightarrow> string list \<Rightarrow> module_registry" where
  "registered im ps = fold (\<lambda>path reg. snd (register_module path (im path) reg)) ps module_registry_new"

lemma registered_spec:
  "length (mreg_modules (registered im ps)) = length ps \<and>
   (\<forall>i. get_module i (registered im ps) =
      (if i < length ps then Some \<lparr> mm_id = i, mm_path = ps ! i, mm_import_map = im (ps ! i) \<rparr> else None))"
proof (induction ps rule: rev_induct)
  case (snoc p ps)
  let ?reg = "registered im ps"
  have new: "registered im (ps @ [p]) = snd (register_module p (im p) ?reg)" by (simp add: registered_def)
  have "map_of (mreg_modules ?reg) (length ps) = None" using snoc.IH by (simp add: get_module_def)
  then have "length ps \<notin> fst ` set (mreg_modules ?reg)" by (simp add: map_of_eq_None_iff)
  then have "filter (\<lambda>e. fst e \<noteq> length ps) (mreg_modules ?reg) = mreg_modules ?reg"
    by (intro filter_True ballI) (rule key_notin)
  then have m: "mreg_modules (registered im (ps @ [p])) =
      (length ps, \<lparr> mm_id = length ps, mm_path = p, mm_import_map = im p \<rparr>) # mreg_modules ?reg"
    using snoc.IH by (simp add: new register_module_def Let_def hash_insert_def)
  then have "get_module i (registered im (ps @ [p])) =
      (if i = length ps then Some \<lparr> mm_id = length ps, mm_path = p, mm_import_map = im p \<rparr> else get_module i ?reg)" for i
    by (simp add: get_module_def)
  with m snoc.IH show ?case by (auto simp: nth_append less_Suc_eq)
qed (simp add: registered_def module_registry_new_def get_module_def)

lemma registered_id:
  "distinct ps \<Longrightarrow> get_id_by_path p (registered im ps) = Some i \<longleftrightarrow> i < length ps \<and> ps ! i = p"
proof (induction ps arbitrary: i rule: rev_induct)
  case (snoc q ps)
  have new: "registered im (ps @ [q]) = snd (register_module q (im q) (registered im ps))" by (simp add: registered_def)
  have "get_id_by_path p (registered im (ps @ [q])) =
      (if p = q then Some (length ps) else get_id_by_path p (registered im ps))"
    using registered_spec [of im ps] by (simp add: new register_module_def Let_def get_id_by_path_def)
  moreover have "(i < length (ps @ [q]) \<and> (ps @ [q]) ! i = p) \<longleftrightarrow> (if p = q then i = length ps else i < length ps \<and> ps ! i = p)"
    using snoc.prems nth_mem [of i ps] by (cases "i < length ps") (auto simp: nth_append)
  ultimately show ?case using snoc.IH [of i] snoc.prems by auto
qed (simp add: registered_def module_registry_new_def get_id_by_path_def)

section \<open>The tables of names\<close>

text \<open>The last pipeline or variable of a name.\<close>

definition last_pipeline :: "named_pipeline list \<Rightarrow> string \<Rightarrow> pipeline option" where
  "last_pipeline ps n = map_of (rev (map (\<lambda>p. (np_name p, np_pipeline p)) ps)) n"

definition last_variable :: "variable list \<Rightarrow> string \<Rightarrow> string \<Rightarrow> variable option" where
  "last_variable vs ty n = map_of (rev (map (\<lambda>v. ((var_type v, var_name v), v)) vs)) (ty, n)"

lemma insert_pipelines_lookup:
  "insert_pipelines i ps m (j, n) =
     (if i = j then case last_pipeline ps n of None \<Rightarrow> m (j, n) | Some p \<Rightarrow> Some p else m (j, n))"
  unfolding insert_pipelines_def last_pipeline_def
  by (induction ps arbitrary: m) (auto simp: map_add_def split: option.split)

lemma insert_variables_lookup:
  "insert_variables i vs m (j, ty, n) =
     (if i = j then case last_variable vs ty n of None \<Rightarrow> m (j, ty, n) | Some v \<Rightarrow> Some v else m (j, ty, n))"
  unfolding insert_variables_def last_variable_def
  by (induction vs arbitrary: m) (auto simp: map_add_def split: option.split)

lemma insert_queries_lookup: "insert_queries qs m (Some i, n) = m (Some i, n)"
  unfolding insert_queries_def by (induction qs arbitrary: m) simp_all

lemma insert_mutations_lookup: "insert_mutations qs m (Some i, n) = m (Some i, n)"
  unfolding insert_mutations_def by (induction qs arbitrary: m) simp_all

text \<open>What a module declares, with its locations set.\<close>

definition module_pipeline :: "string \<Rightarrow> nat \<Rightarrow> program \<Rightarrow> string \<Rightarrow> pipeline option" where
  "module_pipeline path i m n = map_option (set_pipeline_module_info path i) (last_pipeline (pr_pipelines m) n)"

lemma last_pipeline_map:
  "last_pipeline (map (\<lambda>p. p\<lparr>np_pipeline := f (np_pipeline p)\<rparr>) ps) n = map_option f (last_pipeline ps n)"
  unfolding last_pipeline_def by (induction ps) (auto simp: map_add_def split: option.split)

lemma module_symbols_lookup:
  "fst (module_symbols (path, i) m (ps, vs)) (Some j, n) =
     (if i = j then case module_pipeline path i m n of None \<Rightarrow> ps (Some j, n) | Some p \<Rightarrow> Some p else ps (Some j, n))"
  "snd (module_symbols (path, i) m (ps, vs)) (Some j, ty, n) =
     (if i = j then case last_variable (pr_variables m) ty n of None \<Rightarrow> vs (Some j, ty, n) | Some v \<Rightarrow> Some v
      else vs (Some j, ty, n))"
  by (simp_all add: module_symbols_def Let_def insert_queries_lookup insert_mutations_lookup insert_pipelines_lookup
      insert_variables_lookup last_pipeline_map module_pipeline_def option.case_eq_if)

lemma fold_symbols_lookup:
  assumes "distinct (map snd ids)"
  shows "fst (fold (\<lambda>(path, i). module_symbols (path, i) (progs path)) ids s) (Some j, n) =
      (case map_of (map (\<lambda>(path, i). (i, path)) ids) j of
         None \<Rightarrow> fst s (Some j, n)
       | Some path \<Rightarrow> case module_pipeline path j (progs path) n of None \<Rightarrow> fst s (Some j, n) | Some p \<Rightarrow> Some p)"
    and "snd (fold (\<lambda>(path, i). module_symbols (path, i) (progs path)) ids s) (Some j, ty, n) =
      (case map_of (map (\<lambda>(path, i). (i, path)) ids) j of
         None \<Rightarrow> snd s (Some j, ty, n)
       | Some path \<Rightarrow> case last_variable (pr_variables (progs path)) ty n of None \<Rightarrow> snd s (Some j, ty, n) | Some v \<Rightarrow> Some v)"
proof -
  have absent: "map_of (map (\<lambda>(path, i). (i, path)) ids) i = None" if "i \<notin> set (map snd ids)" for i ids
    using that by (auto simp: map_of_eq_None_iff image_iff)
  show "fst (fold (\<lambda>(path, i). module_symbols (path, i) (progs path)) ids s) (Some j, n) =
      (case map_of (map (\<lambda>(path, i). (i, path)) ids) j of
         None \<Rightarrow> fst s (Some j, n)
       | Some path \<Rightarrow> case module_pipeline path j (progs path) n of None \<Rightarrow> fst s (Some j, n) | Some p \<Rightarrow> Some p)"
    using assms
  proof (induction ids arbitrary: s)
    case (Cons e ids)
    obtain path i where e: "e = (path, i)" by (cases e)
    obtain ps vs where s: "s = (ps, vs)" by (cases s)
    show ?case using Cons.IH [of "module_symbols (path, i) (progs path) s"] Cons.prems absent [of i ids]
      by (auto simp: e s module_symbols_lookup split: option.split)
  qed simp
  show "snd (fold (\<lambda>(path, i). module_symbols (path, i) (progs path)) ids s) (Some j, ty, n) =
      (case map_of (map (\<lambda>(path, i). (i, path)) ids) j of
         None \<Rightarrow> snd s (Some j, ty, n)
       | Some path \<Rightarrow> case last_variable (pr_variables (progs path)) ty n of None \<Rightarrow> snd s (Some j, ty, n) | Some v \<Rightarrow> Some v)"
    using assms
  proof (induction ids arbitrary: s)
    case (Cons e ids)
    obtain path i where e: "e = (path, i)" by (cases e)
    obtain ps vs where s: "s = (ps, vs)" by (cases s)
    show ?case using Cons.IH [of "module_symbols (path, i) (progs path) s"] Cons.prems absent [of i ids]
      by (auto simp: e s module_symbols_lookup split: option.split)
  qed simp
qed

lemma local_symbols_modules [simp]: "fst (local_symbols prog) (Some j, n) = None" "snd (local_symbols prog) (Some j, ty, n) = None"
  by (simp_all add: local_symbols_def insert_queries_lookup insert_mutations_lookup insert_pipelines_lookup
      insert_variables_lookup)

definition module_number :: "tree_entries \<Rightarrow> string \<Rightarrow> nat option" where
  "module_number tree path = map_of (path_ids (sorted_paths tree)) path"

lemma sorted_paths_props: "set (sorted_paths tree) = fst ` set tree" "distinct (map fst tree) \<Longrightarrow> distinct (sorted_paths tree)"
  by (simp_all add: sorted_paths_def)

lemma path_of_number:
  assumes "distinct (map fst tree)"
  shows "map_of (map (\<lambda>(path, i). (i, path)) (path_ids (sorted_paths tree))) j = Some path \<longleftrightarrow>
    module_number tree path = Some j"
proof -
  let ?ids = "path_ids (sorted_paths tree)"
  have "distinct (map fst (map (\<lambda>(path, i). (i, path)) ?ids))" by (simp add: path_ids_def comp_def case_prod_unfold)
  then have "map_of (map (\<lambda>(path, i). (i, path)) ?ids) j = Some path \<longleftrightarrow> (path, j) \<in> set ?ids" by force
  moreover have "distinct (map fst ?ids)" using sorted_paths_props(2) [OF assms] by (simp add: path_ids_def)
  ultimately show ?thesis by (simp add: module_number_def)
qed

lemma build_symbols_lookup:
  assumes "distinct (map fst tree)" and "module_number tree path = Some j"
  shows "fst (build_symbols prog tree) (Some j, n) = module_pipeline path j (module_program tree path) n"
    and "snd (build_symbols prog tree) (Some j, ty, n) = last_variable (pr_variables (module_program tree path)) ty n"
proof -
  have d: "distinct (map snd (path_ids (sorted_paths tree)))" by (simp add: path_ids_def)
  note j = path_of_number [OF assms(1), THEN iffD2, OF assms(2)]
  show "fst (build_symbols prog tree) (Some j, n) = module_pipeline path j (module_program tree path) n"
    "snd (build_symbols prog tree) (Some j, ty, n) = last_variable (pr_variables (module_program tree path)) ty n"
    unfolding build_symbols_def fold_symbols_lookup [OF d] j by (simp_all split: option.split)
qed

text \<open>How a hash map of imports is iterated.\<close>

definition lists_imports :: "((string \<rightharpoonup> string) \<Rightarrow> (string \<times> string) list) \<Rightarrow> tree_entries \<Rightarrow> bool" where
  "lists_imports entries tree \<longleftrightarrow>
     (\<forall>(path, info) \<in> set tree. map_of (entries (mi_imports info)) = mi_imports info \<and>
        distinct (map fst (entries (mi_imports info))))"

lemma import_ids_lookup:
  assumes "map_of (entries (mi_imports info)) = mi_imports info" and "distinct (map fst (entries (mi_imports info)))"
  shows "map_of (import_ids entries ids info) a = Option.bind (mi_imports info a) (map_of ids)"
proof -
  have "map_of (concat (map (\<lambda>(alias, target). case map_of ids target of None \<Rightarrow> [] | Some j \<Rightarrow> [(alias, j)]) es)) a =
      Option.bind (map_of es a) (map_of ids)" if "distinct (map fst es)" for es
    using that
  proof (induction es)
    case (Cons e es)
    obtain b t where e: "e = (b, t)" by (cases e)
    have "map_of es b = None" using Cons.prems e by (simp add: map_of_eq_None_iff)
    with Cons show ?case by (auto simp: e map_add_def split: option.split)
  qed simp
  from this [OF assms(2)] assms(1) show ?thesis by (simp add: import_ids_def)
qed

text \<open>
  C15: In the environment the server builds, a pipeline name in a step is the last pipeline of that name
  in the step's own module, else one of the merged program; behind an alias it is the last one in the
  module the alias imports. An alias the module does not import is no error: the name is then looked up
  in the merged program of all modules.
\<close>

theorem names_resolve_by_module:
  assumes "distinct (map fst tree)" and "lists_imports entries tree"
    and "env_named_pipelines env = fst (build_symbols prog tree)"
    and "env_module_registry env = register_modules entries tree"
    and "(path, info) \<in> set tree" and "module_number tree path = Some i" and "loc_module_id loc = Some i"
  shows "resolve_named_pipeline env loc ref =
    (case parse_scoped_ref ref of
       (None, name) \<Rightarrow>
         (case module_pipeline path i (mi_program info) name of
            Some p \<Rightarrow> Some p | None \<Rightarrow> env_named_pipelines env (None, name))
     | (Some alias, name) \<Rightarrow>
         (case Option.bind (mi_imports info alias) (module_number tree) of
            None \<Rightarrow> env_named_pipelines env (None, name)
          | Some j \<Rightarrow> module_pipeline (the (mi_imports info alias)) j
                        (module_program tree (the (mi_imports info alias))) name))"
proof -
  have info: "map_of tree path = Some info" using assms(1,5) by simp
  let ?ids = "path_ids (sorted_paths tree)"
  let ?im = "\<lambda>p. import_ids entries ?ids (the (map_of tree p))"
  have reg: "env_module_registry env = registered ?im (sorted_paths tree)"
    by (simp add: assms(4) register_modules_def registered_def)
  have i: "i < length (sorted_paths tree)" "sorted_paths tree ! i = path"
    using assms(6) map_of_path_ids [OF sorted_paths_props(2) [OF assms(1)]] by (auto simp: module_number_def)
  have own: "get_module i (env_module_registry env) =
      Some \<lparr> mm_id = i, mm_path = path, mm_import_map = import_ids entries ?ids info \<rparr>"
    using registered_spec [of ?im "sorted_paths tree"] i info by (simp add: reg)
  have aliases: "map_of (import_ids entries ?ids info) a = Option.bind (mi_imports info a) (module_number tree)" for a
    using import_ids_lookup assms(2,5) by (fastforce simp: lists_imports_def module_number_def [abs_def])
  have mine: "env_named_pipelines env (Some i, n) = module_pipeline path i (mi_program info) n" for n
    using build_symbols_lookup(1) [OF assms(1,6)] info by (simp add: assms(3) module_program_def)
  have theirs: "env_named_pipelines env (Some j, n) =
      module_pipeline (the (mi_imports info a)) j (module_program tree (the (mi_imports info a))) n"
    if "Option.bind (mi_imports info a) (module_number tree) = Some j" for a j n
    using build_symbols_lookup(1) [OF assms(1)] that by (auto simp: assms(3) bind_eq_Some_conv)
  show ?thesis
    by (auto simp: resolve_named_pipeline_def assms(7) own aliases mine theirs Let_def split: prod.split option.split)
qed

section \<open>Examples\<close>

definition sample_library :: module_info where
  "sample_library = \<lparr> mi_path = ''/b'',
     mi_program = empty_program\<lparr>pr_pipelines := [\<lparr> np_name = ''auth'', np_pipeline = Pipeline [] \<rparr>]\<rparr>,
     mi_imports = Map.empty \<rparr>"

definition sample_root :: module_info where
  "sample_root = \<lparr> mi_path = ''/a'', mi_program = empty_program, mi_imports = [''lib'' \<mapsto> ''/b''] \<rparr>"

definition sample_tree :: tree_entries where
  "sample_tree = [(''/b'', sample_library), (''/a'', sample_root)]"

definition sample_entries :: "(string \<rightharpoonup> string) \<Rightarrow> (string \<times> string) list" where
  "sample_entries m = (case m ''lib'' of None \<Rightarrow> [] | Some p \<Rightarrow> [(''lib'', p)])"

lemma sample_sorted: "sorted_paths sample_tree = [''/a'', ''/b'']"
  "sorted_paths [(''/a'', sample_root), (''/b'', sample_library)] = [''/a'', ''/b'']"
  by (simp_all add: sorted_paths_def sample_tree_def path_key_def)

theorem modules_are_deterministic_witness:
  "merge_from_module_tree empty_program sample_tree =
     merge_from_module_tree empty_program [(''/a'', sample_root), (''/b'', sample_library)]"
proof -
  have "inj_on path_key {''/a'', ''/b''}" by (simp add: inj_on_def path_key_def)
  then have "inj_on path_key (fst ` set sample_tree)" by (simp add: sample_tree_def insert_commute)
  then have "merge_from_module_tree empty_program sample_tree =
      merge_from_module_tree empty_program [(''/a'', sample_root), (''/b'', sample_library)] \<and>
    register_modules sample_entries sample_tree =
      register_modules sample_entries [(''/a'', sample_root), (''/b'', sample_library)] \<and>
    build_symbols empty_program sample_tree = build_symbols empty_program [(''/a'', sample_root), (''/b'', sample_library)]"
    by (intro modules_are_deterministic) (auto simp: sample_tree_def)
  then show ?thesis by blast
qed

text \<open>The executor's sample environment with the names of the tree.\<close>

definition sample_modules_env :: "(cache_entry list_lru, unit, nat) execution_env" where
  "sample_modules_env = sample_env
     \<lparr>env_named_pipelines := fst (build_symbols empty_program sample_tree),
      env_module_registry := register_modules sample_entries sample_tree\<rparr>"

theorem names_resolve_by_module_witness:
  "resolve_named_pipeline sample_modules_env (in_module ''/a'' 0 default_location) ''lib::auth'' = Some (Pipeline [])"
proof -
  have ref: "parse_scoped_ref ''lib::auth'' = (Some ''lib'', ''auth'')" by code_simp
  have "resolve_named_pipeline sample_modules_env (in_module ''/a'' 0 default_location) ''lib::auth'' =
    (case parse_scoped_ref ''lib::auth'' of
       (None, name) \<Rightarrow>
         (case module_pipeline ''/a'' 0 (mi_program sample_root) name of
            Some p \<Rightarrow> Some p | None \<Rightarrow> env_named_pipelines sample_modules_env (None, name))
     | (Some alias, name) \<Rightarrow>
         (case Option.bind (mi_imports sample_root alias) (module_number sample_tree) of
            None \<Rightarrow> env_named_pipelines sample_modules_env (None, name)
          | Some j \<Rightarrow> module_pipeline (the (mi_imports sample_root alias)) j
                        (module_program sample_tree (the (mi_imports sample_root alias))) name))"
    by (rule names_resolve_by_module [where entries = sample_entries and prog = empty_program])
      (simp_all add: lists_imports_def sample_tree_def sample_entries_def sample_root_def sample_library_def
        sample_modules_env_def module_number_def sample_sorted [unfolded sample_tree_def sample_root_def sample_library_def]
        path_ids_def in_module_def fun_eq_iff)
  also have "\<dots> = Some (Pipeline [])"
  proof -
    have "module_number sample_tree ''/b'' = Some 1" by (simp add: module_number_def sample_sorted path_ids_def)
    moreover have "mi_imports sample_root ''lib'' = Some ''/b''" by (simp add: sample_root_def)
    moreover have "module_program sample_tree ''/b'' = mi_program sample_library"
      by (simp add: module_program_def sample_tree_def)
    ultimately show ?thesis by (simp add: ref module_pipeline_def last_pipeline_def sample_library_def)
  qed
  finally show ?thesis .
qed

end
