(* ===== verification/Server_Flags.thy ===== *)
theory Server_Flags
  imports Executor_Termination
begin

text \<open>
  Which routes need the feature flags (\<^verbatim>\<open>pipeline_needs_flags\<close> of \<^verbatim>\<open>src/server.rs\<close>):
  the flag pipeline runs before a route's pipeline only if that pipeline, or one it refers to, tests
  a flag. The function recurses through references to named pipelines; its fuel is the depth of the
  recursion, that is of the stack.
\<close>

section \<open>The analysis\<close>

fun tag_expr_has_flag :: "tag_expr \<Rightarrow> bool" where
  "tag_expr_has_flag (TagE t) \<longleftrightarrow> tag_name t = ''flag''"
| "tag_expr_has_flag (AndE left right) \<longleftrightarrow> tag_expr_has_flag left \<or> tag_expr_has_flag right"
| "tag_expr_has_flag (OrE left right) \<longleftrightarrow> tag_expr_has_flag left \<or> tag_expr_has_flag right"

fun tag_expr_has_needs_flags :: "tag_expr \<Rightarrow> bool" where
  "tag_expr_has_needs_flags (TagE t) \<longleftrightarrow> tag_name t = ''needs'' \<and> ''flags'' \<in> set (tag_args t)"
| "tag_expr_has_needs_flags (AndE left right) \<longleftrightarrow> tag_expr_has_needs_flags left \<or> tag_expr_has_needs_flags right"
| "tag_expr_has_needs_flags (OrE left right) \<longleftrightarrow> tag_expr_has_needs_flags left \<or> tag_expr_has_needs_flags right"

type_synonym named_pipelines = "nat option \<times> string \<rightharpoonup> pipeline"

text \<open>A loop that returns at the first answer that is true.\<close>

primrec any_of :: "('a \<Rightarrow> bool option) \<Rightarrow> 'a list \<Rightarrow> bool option" where
  "any_of f [] = Some False"
| "any_of f (x # xs) =
     (case f x of None \<Rightarrow> None | Some b \<Rightarrow> if b then Some True else any_of f xs)"

definition shorthand_pipeline :: "(string \<Rightarrow> state_behavior option) \<Rightarrow> regular_step \<Rightarrow> bool" where
  "shorthand_pipeline behavior rs \<longleftrightarrow>
     \<not> rs_config_present rs \<and> rs_name rs \<noteq> ''loader'' \<and> behavior (rs_name rs) = None"

definition find_referenced ::
  "named_pipelines \<Rightarrow> (string \<Rightarrow> state_behavior option) \<Rightarrow> regular_step \<Rightarrow> pipeline option" where
  "find_referenced named behavior rs =
     (if rs_name rs = ''pipeline'' \<or> shorthand_pipeline behavior rs then
        let target = (if rs_name rs = ''pipeline'' then trim (rs_config rs) else trim (rs_name rs));
            module_id = loc_module_id (rs_location rs)
        in case named (module_id, target) of
             Some sub \<Rightarrow> Some sub
           | None \<Rightarrow> if module_id \<noteq> None then named (None, target) else None
      else None)"

definition step_needs_flags ::
  "(pipeline \<Rightarrow> bool option) \<Rightarrow> named_pipelines \<Rightarrow> (string \<Rightarrow> state_behavior option) \<Rightarrow>
   pipeline_step \<Rightarrow> bool option" where
  "step_needs_flags needs named behavior step =
     (case step of
        RegularStep rs \<Rightarrow>
          (if (case rs_condition rs of None \<Rightarrow> False
               | Some e \<Rightarrow> tag_expr_has_flag e \<or> tag_expr_has_needs_flags e) then Some True
           else case find_referenced named behavior rs of None \<Rightarrow> Some False | Some sub \<Rightarrow> needs sub)
      | ResultStep branches _ \<Rightarrow> any_of (\<lambda>b. needs (rb_pipeline b)) branches
      | IfStep condition then_branch else_branch _ \<Rightarrow>
          any_of needs ([condition, then_branch] @ (case else_branch of None \<Rightarrow> [] | Some p \<Rightarrow> [p]))
      | DispatchStep branches default_pipe _ \<Rightarrow>
          (case any_of (\<lambda>b. if tag_expr_has_flag (db_condition b) then Some True else needs (db_pipeline b)) branches of
             None \<Rightarrow> None
           | Some b \<Rightarrow> if b then Some True else (case default_pipe of None \<Rightarrow> Some False | Some p \<Rightarrow> needs p))
      | ForeachStep _ p _ \<Rightarrow> needs p)"

primrec pipeline_needs_flags ::
  "nat \<Rightarrow> named_pipelines \<Rightarrow> (string \<Rightarrow> state_behavior option) \<Rightarrow> pipeline \<Rightarrow> bool option" where
  "pipeline_needs_flags 0 named behavior p = None"
| "pipeline_needs_flags (Suc n) named behavior p =
     any_of (step_needs_flags (pipeline_needs_flags n named behavior) named behavior) (steps p)"

section \<open>What it computes\<close>

text \<open>The pipelines a step refers to, and the flags it tests itself.\<close>

definition step_refs ::
  "named_pipelines \<Rightarrow> (string \<Rightarrow> state_behavior option) \<Rightarrow> pipeline_step \<Rightarrow> pipeline list" where
  "step_refs named behavior step =
     (case step of
        RegularStep rs \<Rightarrow> (case find_referenced named behavior rs of None \<Rightarrow> [] | Some q \<Rightarrow> [q])
      | ResultStep branches _ \<Rightarrow> map rb_pipeline branches
      | IfStep c t e _ \<Rightarrow> [c, t] @ (case e of None \<Rightarrow> [] | Some q \<Rightarrow> [q])
      | DispatchStep branches d _ \<Rightarrow> map db_pipeline branches @ (case d of None \<Rightarrow> [] | Some q \<Rightarrow> [q])
      | ForeachStep _ q _ \<Rightarrow> [q])"

definition tests_flag :: "pipeline_step \<Rightarrow> bool" where
  "tests_flag step =
     (case step of
        RegularStep rs \<Rightarrow>
          (case rs_condition rs of None \<Rightarrow> False | Some e \<Rightarrow> tag_expr_has_flag e \<or> tag_expr_has_needs_flags e)
      | DispatchStep branches _ _ \<Rightarrow> \<exists>b \<in> set branches. tag_expr_has_flag (db_condition b)
      | _ \<Rightarrow> False)"

definition refers :: "named_pipelines \<Rightarrow> (string \<Rightarrow> state_behavior option) \<Rightarrow> pipeline \<Rightarrow> pipeline \<Rightarrow> bool" where
  "refers named behavior p q \<longleftrightarrow> (\<exists>st \<in> set (steps p). q \<in> set (step_refs named behavior st))"

definition has_flag_step :: "pipeline \<Rightarrow> bool" where
  "has_flag_step p \<longleftrightarrow> (\<exists>st \<in> set (steps p). tests_flag st)"

definition needs_flags :: "named_pipelines \<Rightarrow> (string \<Rightarrow> state_behavior option) \<Rightarrow> pipeline \<Rightarrow> bool" where
  "needs_flags named behavior p \<longleftrightarrow> (\<exists>q. (refers named behavior)\<^sup>*\<^sup>* p q \<and> has_flag_step q)"

lemma any_of_Some:
  assumes "any_of f xs = Some b" and "\<And>x c. x \<in> set xs \<Longrightarrow> f x = Some c \<Longrightarrow> c = P x"
  shows "b = (\<exists>x \<in> set xs. P x)"
  using assms by (induction xs) (auto split: option.splits if_splits)

lemma any_of_returns: "(\<And>x. x \<in> set xs \<Longrightarrow> f x \<noteq> None) \<Longrightarrow> any_of f xs \<noteq> None"
  by (induction xs) (auto split: option.split)

lemma needs_flags_unfold:
  "needs_flags named behavior p \<longleftrightarrow>
     (\<exists>st \<in> set (steps p). tests_flag st \<or> (\<exists>q \<in> set (step_refs named behavior st). needs_flags named behavior q))"
proof
  assume "needs_flags named behavior p"
  then obtain q where "(refers named behavior)\<^sup>*\<^sup>* p q" "has_flag_step q" unfolding needs_flags_def by blast
  then show "\<exists>st \<in> set (steps p). tests_flag st \<or> (\<exists>q \<in> set (step_refs named behavior st). needs_flags named behavior q)"
    by (cases rule: converse_rtranclpE) (auto simp: has_flag_step_def refers_def needs_flags_def)
next
  assume "\<exists>st \<in> set (steps p). tests_flag st \<or> (\<exists>q \<in> set (step_refs named behavior st). needs_flags named behavior q)"
  then consider "has_flag_step p" | q where "refers named behavior p q" "needs_flags named behavior q"
    by (auto simp: has_flag_step_def refers_def)
  then show "needs_flags named behavior p"
    by cases (auto simp: needs_flags_def intro: converse_rtranclp_into_rtranclp)
qed

lemma step_needs_flags_Some:
  assumes "step_needs_flags needs named behavior st = Some b" and "\<And>q c. needs q = Some c \<Longrightarrow> c = N q"
  shows "b = (tests_flag st \<or> (\<exists>q \<in> set (step_refs named behavior st). N q))"
proof (cases st)
  case (RegularStep rs)
  then show ?thesis
    using assms by (auto simp: step_needs_flags_def tests_flag_def step_refs_def split: option.splits if_splits)
next
  case (ResultStep branches l)
  then have "any_of (\<lambda>b. needs (rb_pipeline b)) branches = Some b"
    using assms(1) by (simp add: step_needs_flags_def)
  from any_of_Some [OF this, of "\<lambda>b. N (rb_pipeline b)"] assms(2) ResultStep show ?thesis
    by (auto simp: tests_flag_def step_refs_def)
next
  case (IfStep c t e l)
  then have "any_of needs ([c, t] @ (case e of None \<Rightarrow> [] | Some p \<Rightarrow> [p])) = Some b"
    using assms(1) by (simp add: step_needs_flags_def)
  from any_of_Some [OF this, of N] assms(2) IfStep show ?thesis
    by (auto simp: tests_flag_def step_refs_def split: option.splits)
next
  case (DispatchStep branches d l)
  let ?f = "\<lambda>b. if tag_expr_has_flag (db_condition b) then Some True else needs (db_pipeline b)"
  obtain b0 where b0: "any_of ?f branches = Some b0"
    using assms(1) DispatchStep by (auto simp: step_needs_flags_def split: option.splits)
  have "b0 = (\<exists>b \<in> set branches. tag_expr_has_flag (db_condition b) \<or> N (db_pipeline b))"
    by (rule any_of_Some [OF b0]) (use assms(2) in \<open>auto split: if_splits\<close>)
  with b0 assms DispatchStep show ?thesis
    by (auto simp: step_needs_flags_def tests_flag_def step_refs_def split: option.splits if_splits)
next
  case (ForeachStep s p l)
  then show ?thesis using assms by (simp add: step_needs_flags_def tests_flag_def step_refs_def)
qed

lemma pipeline_needs_flags_reach:
  assumes "pipeline_needs_flags n named behavior p = Some b"
  shows "b \<longleftrightarrow> (\<exists>q. (refers named behavior)\<^sup>*\<^sup>* p q \<and> has_flag_step q)"
proof -
  have "pipeline_needs_flags n named behavior p = Some b \<Longrightarrow> b = needs_flags named behavior p" for b
  proof (induction n arbitrary: p b)
    case (Suc n)
    have "b = (\<exists>st \<in> set (steps p). tests_flag st \<or>
        (\<exists>q \<in> set (step_refs named behavior st). needs_flags named behavior q))"
      by (rule any_of_Some [where f = "step_needs_flags (pipeline_needs_flags n named behavior) named behavior"])
        (use Suc step_needs_flags_Some in \<open>auto\<close>)
    then show ?case by (simp only: needs_flags_unfold [of _ _ p])
  qed simp
  with assms show ?thesis by (simp add: needs_flags_def)
qed


section \<open>When it returns\<close>

lemma step_needs_flags_returns:
  assumes "\<And>q. q \<in> set (step_refs named behavior st) \<Longrightarrow> needs q \<noteq> None"
  shows "step_needs_flags needs named behavior st \<noteq> None"
proof (cases st)
  case (DispatchStep branches d l)
  have "any_of (\<lambda>b. if tag_expr_has_flag (db_condition b) then Some True else needs (db_pipeline b)) branches \<noteq> None"
    by (rule any_of_returns) (use assms DispatchStep in \<open>auto simp: step_refs_def\<close>)
  with assms DispatchStep show ?thesis by (auto simp: step_needs_flags_def step_refs_def split: option.splits)
next
  case (ResultStep branches l)
  then show ?thesis
    using assms any_of_returns [of branches "\<lambda>b. needs (rb_pipeline b)"] by (simp add: step_needs_flags_def step_refs_def)
next
  case (IfStep c t e l)
  then show ?thesis
    using assms any_of_returns [of "[c, t] @ (case e of None \<Rightarrow> [] | Some p \<Rightarrow> [p])" needs]
    by (simp add: step_needs_flags_def step_refs_def)
qed (use assms in \<open>auto simp: step_needs_flags_def step_refs_def split: option.splits\<close>)

lemma flag_analysis_returns:
  assumes "\<And>p q. refers named behavior p q \<Longrightarrow> rank q < rank p"
  shows "rank p < n \<Longrightarrow> pipeline_needs_flags n named behavior p \<noteq> None"
proof (induction n arbitrary: p)
  case (Suc n)
  have "pipeline_needs_flags n named behavior q \<noteq> None"
    if "st \<in> set (steps p)" "q \<in> set (step_refs named behavior st)" for st q
  proof (rule Suc.IH)
    have "refers named behavior p q" using that by (auto simp: refers_def)
    with assms Suc.prems show "rank q < n" by fastforce
  qed
  then have "any_of (step_needs_flags (pipeline_needs_flags n named behavior) named behavior) (steps p) \<noteq> None"
    by (intro any_of_returns step_needs_flags_returns)
  then show ?case by simp
qed simp

lemma any_of_False: "any_of f xs = Some False \<Longrightarrow> x \<in> set xs \<Longrightarrow> f x = Some False"
  by (induction xs) (auto split: option.splits if_splits)

lemma step_needs_flags_False:
  assumes "step_needs_flags needs named behavior st = Some False" and "q \<in> set (step_refs named behavior st)"
  shows "needs q = Some False"
proof (cases st)
  case (ResultStep branches l)
  then show ?thesis
    using assms any_of_False [of "\<lambda>b. needs (rb_pipeline b)" branches] by (auto simp: step_needs_flags_def step_refs_def)
next
  case (IfStep c t e l)
  then show ?thesis
    using assms any_of_False [of needs "[c, t] @ (case e of None \<Rightarrow> [] | Some p \<Rightarrow> [p])" q]
    by (simp add: step_needs_flags_def step_refs_def)
next
  case (DispatchStep branches d l)
  then show ?thesis
    using assms any_of_False
      [of "\<lambda>b. if tag_expr_has_flag (db_condition b) then Some True else needs (db_pipeline b)" branches]
    by (fastforce simp: step_needs_flags_def step_refs_def split: option.splits if_splits)
qed (use assms in \<open>auto simp: step_needs_flags_def step_refs_def split: option.splits if_splits\<close>)

lemma analysis_descends:
  assumes "pipeline_needs_flags n named behavior p = Some False" and "refers named behavior p q"
  shows "\<exists>m < n. pipeline_needs_flags m named behavior q = Some False"
proof (cases n)
  case (Suc m)
  from assms(2) obtain st where st: "st \<in> set (steps p)" "q \<in> set (step_refs named behavior st)"
    by (auto simp: refers_def)
  from any_of_False [OF _ st(1)] assms(1) Suc
  have "step_needs_flags (pipeline_needs_flags m named behavior) named behavior st = Some False" by simp
  from step_needs_flags_False [OF this st(2)] Suc show ?thesis by blast
qed (use assms(1) in simp)

lemma analysis_descends_path:
  assumes "(refers named behavior)\<^sup>+\<^sup>+ p q" and "pipeline_needs_flags n named behavior p = Some False"
  shows "\<exists>m < n. pipeline_needs_flags m named behavior q = Some False"
  using assms
proof (induction rule: tranclp_induct)
  case (step q r)
  then obtain m where m: "m < n" "pipeline_needs_flags m named behavior q = Some False" by blast
  from analysis_descends [OF m(2) step.hyps(2)] m(1) show ?case by (meson less_trans)
qed (rule analysis_descends)

lemma no_return_on_cycle:
  "(refers named behavior)\<^sup>+\<^sup>+ p p \<Longrightarrow> pipeline_needs_flags n named behavior p \<noteq> Some False"
proof (induction n rule: less_induct)
  case (less n)
  show ?case
  proof
    assume "pipeline_needs_flags n named behavior p = Some False"
    from analysis_descends_path [OF less.prems this] less.IH less.prems show False by blast
  qed
qed

text \<open>
  The analysis has no memory of the pipelines it is in: when a route can reach a pipeline that
  refers to itself, directly or through others, and no reachable step tests a flag, it never
  returns, however deep its stack. The router is built at start-up, so a recursive pipeline that
  would end at run time, because its call is conditional, ends the server there.
\<close>

theorem circular_reference_never_returns:
  assumes "(refers named behavior)\<^sup>*\<^sup>* p q" and "(refers named behavior)\<^sup>+\<^sup>+ q q"
    and "\<And>r. (refers named behavior)\<^sup>*\<^sup>* p r \<Longrightarrow> \<not> has_flag_step r"
  shows "pipeline_needs_flags n named behavior p = None"
proof (cases "pipeline_needs_flags n named behavior p")
  case (Some b)
  have "b = needs_flags named behavior p"
    using pipeline_needs_flags_reach [OF Some] by (simp add: needs_flags_def)
  then have f: "pipeline_needs_flags n named behavior p = Some False"
    using assms(3) Some by (auto simp: needs_flags_def)
  have "(refers named behavior)\<^sup>+\<^sup>+ p q" if "p \<noteq> q" using assms(1) that by (metis rtranclpD)
  with f analysis_descends_path [of named behavior p q n] have "\<exists>m. pipeline_needs_flags m named behavior q = Some False"
    by (cases "p = q") auto
  with no_return_on_cycle [OF assms(2)] show ?thesis by blast
qed

section \<open>What execution can reach\<close>

lemma strip_seqs_stuck: "find (\<lambda>w. w \<noteq> [] \<and> starts_with w (strip_seqs ws s)) ws = None"
proof (induction ws s rule: strip_seqs.induct)
  case (1 ws s)
  then show ?case
    by (cases "find (\<lambda>w. w \<noteq> [] \<and> starts_with w s) ws") (subst strip_seqs.simps, simp)+
qed

lemma strip_seqs_stop: "find (\<lambda>w. w \<noteq> [] \<and> starts_with w s) ws = None \<Longrightarrow> strip_seqs ws s = s"
  by (subst strip_seqs.simps) simp

lemma strip_seqs_suffix: "\<exists>k. strip_seqs ws s = drop k s"
proof (induction ws s rule: strip_seqs.induct)
  case (1 ws s)
  show ?case
  proof (cases "find (\<lambda>w. w \<noteq> [] \<and> starts_with w s) ws")
    case None
    then show ?thesis by (intro exI [of _ 0]) (simp add: strip_seqs_stop)
  next
    case (Some w)
    with 1 obtain k where "strip_seqs ws (drop (length w) s) = drop k (drop (length w) s)" by blast
    with Some show ?thesis by (subst strip_seqs.simps) (auto simp: add.commute)
  qed
qed

lemma starts_with_prefix: "starts_with w (take k s) \<Longrightarrow> starts_with w s"
  by (auto simp: starts_with_def min_def split: if_splits)

lemma trim_trim: "trim (trim s) = trim s"
proof -
  let ?u = "trim_start s"
  obtain k where "strip_seqs (map rev ws_seqs) (rev ?u) = drop k (rev ?u)" using strip_seqs_suffix by blast
  then have prefix: "trim s = take (length ?u - k) ?u" by (simp add: trim_def trim_end_def rev_drop)
  have "\<not> (w \<noteq> [] \<and> starts_with w ?u)" if "w \<in> set ws_seqs" for w
    using strip_seqs_stuck [of ws_seqs s] that by (simp add: find_None_iff trim_start_def)
  then have "find (\<lambda>w. w \<noteq> [] \<and> starts_with w (trim s)) ws_seqs = None"
    unfolding prefix find_None_iff using starts_with_prefix by blast
  then have "trim_start (trim s) = trim s" by (simp add: trim_start_def strip_seqs_stop)
  moreover have "trim_end (trim s) = trim s"
    unfolding trim_def trim_end_def by (simp add: strip_seqs_stop [OF strip_seqs_stuck])
  ultimately show ?thesis by (simp add: trim_def [of "trim s"])
qed

lemma scoped_ref_trim: "fst (parse_scoped_ref s) = None \<Longrightarrow> parse_scoped_ref (trim s) = (None, trim s)"
  by (auto simp: parse_scoped_ref_def trim_trim split: option.splits if_splits)

lemma plain_scoped_ref: "fst (parse_scoped_ref s) = None \<Longrightarrow> parse_scoped_ref s = (None, s)"
  by (auto simp: parse_scoped_ref_def split: option.splits if_splits)

text \<open>Without scoped references and pipeline variables the two resolve a reference alike.\<close>

lemma config_callee_find_referenced:
  assumes "fst (parse_scoped_ref (raw_config env rs)) = None"
    and "\<And>m n. env_variables env (m, ''pipeline'', n) = None"
  shows "config_callee env (rs_location rs) (effective_name env rs) (raw_config env rs) =
    find_referenced (env_named_pipelines env) (env_behavior env) rs"
proof (cases "rs_name rs = ''pipeline'' \<or> is_pipeline_shorthand env rs")
  case True
  then have n: "effective_name env rs = ''pipeline''" by (simp add: effective_name_def)
  have raw: "raw_config env rs = (if rs_name rs = ''pipeline'' then rs_config rs else rs_name rs)"
    using True by (auto simp: raw_config_def)
  have "fst (resolve_config_and_autoname env (rs_location rs) ''pipeline'' (raw_config env rs) JNull) = raw_config env rs"
    using assms(2) by (simp add: resolve_config_and_autoname_def plain_scoped_ref [OF assms(1)] split: option.split)
  then have "config_callee env (rs_location rs) (effective_name env rs) (raw_config env rs) =
      resolve_named_pipeline env (rs_location rs) (trim (raw_config env rs))"
    by (simp add: config_callee_def n)
  also have "\<dots> = find_referenced (env_named_pipelines env) (env_behavior env) rs"
    using True scoped_ref_trim [OF assms(1)]
    by (auto simp: resolve_named_pipeline_def find_referenced_def shorthand_pipeline_def raw Let_def
        is_pipeline_shorthand_def regular_step_is_pipeline_shorthand_def split: option.splits)
  finally show ?thesis .
next
  case False
  then have "effective_name env rs \<noteq> ''pipeline''" "\<not> shorthand_pipeline (env_behavior env) rs"
    by (auto simp: effective_name_def is_pipeline_shorthand_def regular_step_is_pipeline_shorthand_def
        shorthand_pipeline_def)
  with False show ?thesis by (simp add: config_callee_def find_referenced_def)
qed

text \<open>
  A route the analysis finds not to need flags never comes upon one: no pipeline that its
  execution can call, in any number of steps, tests a flag. That holds where references are not
  scoped by a module alias and no variable holds a pipeline; a scoped reference is not followed by
  the analysis, so flags tested behind it are all taken to be off.
\<close>

theorem flag_analysis_covers_calls:
  assumes "pipeline_needs_flags n (env_named_pipelines env) (env_behavior env) p = Some False"
    and "\<And>m k. env_variables env (m, ''pipeline'', k) = None"
    and "\<And>q rs. (\<lambda>a b. b \<in> set (calls env a))\<^sup>*\<^sup>* p q \<Longrightarrow> RegularStep rs \<in> set (steps q) \<Longrightarrow>
           fst (parse_scoped_ref (raw_config env rs)) = None"
    and "(\<lambda>a b. b \<in> set (calls env a))\<^sup>*\<^sup>* p q"
  shows "\<not> has_flag_step q"
proof -
  let ?calls = "\<lambda>a b. b \<in> set (calls env a)" and ?refers = "refers (env_named_pipelines env) (env_behavior env)"
  have same: "step_callees env st = step_refs (env_named_pipelines env) (env_behavior env) st"
    if "?calls\<^sup>*\<^sup>* p a" "st \<in> set (steps a)" for a st
  proof (cases st)
    case (RegularStep rs)
    have "fst (parse_scoped_ref (raw_config env rs)) = None" by (rule assms(3) [OF that(1)]) (use that RegularStep in simp)
    with RegularStep show ?thesis
      using config_callee_find_referenced [of env rs] assms(2) by (simp add: step_callees_def step_refs_def)
  qed (simp_all add: step_callees_def step_refs_def)
  from assms(4) have "?calls\<^sup>*\<^sup>* p q \<and> ?refers\<^sup>*\<^sup>* p q"
  proof (induction rule: rtranclp_induct)
    case (step a b)
    then obtain st where "st \<in> set (steps a)" "b \<in> set (step_callees env st)" by (auto simp: calls_def)
    with same [of a st] step.IH have "?refers a b" by (auto simp: refers_def)
    with step show ?case by (auto intro: rtranclp.rtrancl_into_rtrancl)
  qed simp
  with pipeline_needs_flags_reach [OF assms(1)] show ?thesis by blast
qed


section \<open>Examples\<close>

definition flag_condition :: tag_expr where
  "flag_condition = TagE \<lparr> tag_name = ''flag'', tag_negated = False, tag_args = [''beta''] \<rparr>"

text \<open>A pipeline that calls \<open>shared\<close>, which tests a flag, and one that calls itself.\<close>

definition sample_named :: named_pipelines where
  "sample_named = [(None, ''shared'') \<mapsto> Pipeline [RegularStep ((sample_step ''jq'' ''.'')\<lparr>rs_condition := Some flag_condition\<rparr>)],
     (None, ''retry'') \<mapsto> Pipeline [RegularStep (sample_step ''pipeline'' ''retry'')]]"

lemma sample_trims: "trim ''shared'' = ''shared''" "trim ''retry'' = ''retry''" "trim ''noop'' = ''noop''"
  by (rule trim_visible; simp add: visible_def)+


theorem circular_reference_never_returns_witness:
  "pipeline_needs_flags 1000 sample_named (\<lambda>name. Some Merge)
     (Pipeline [RegularStep (sample_step ''pipeline'' ''retry'')]) = None"
proof (rule circular_reference_never_returns)
  let ?p = "Pipeline [RegularStep (sample_step ''pipeline'' ''retry'')]"
  have ref: "refers sample_named (\<lambda>name. Some Merge) ?p q \<longleftrightarrow> q = ?p" for q
    by (auto simp: refers_def step_refs_def find_referenced_def sample_step_def sample_named_def sample_trims Let_def
        default_location_def location_new_def)
  then show "(refers sample_named (\<lambda>name. Some Merge))\<^sup>*\<^sup>* ?p ?p" "(refers sample_named (\<lambda>name. Some Merge))\<^sup>+\<^sup>+ ?p ?p"
    by auto
  fix r
  assume "(refers sample_named (\<lambda>name. Some Merge))\<^sup>*\<^sup>* ?p r"
  then have "r = ?p" by (induction rule: rtranclp_induct) (use ref in auto)
  then show "\<not> has_flag_step r" by (simp add: has_flag_step_def tests_flag_def sample_step_def)
qed

lemma sample_callee: "config_callee sample_env l n r = Some q \<Longrightarrow> q = Pipeline []"
  by (auto simp: config_callee_def resolve_named_pipeline_def sample_env_def Let_def split: option.splits prod.splits if_splits)

theorem flag_analysis_covers_calls_witness:
  "\<not> has_flag_step (Pipeline [RegularStep (sample_step ''pipeline'' ''noop'')])"
proof (rule flag_analysis_covers_calls)
  let ?p = "Pipeline [RegularStep (sample_step ''pipeline'' ''noop'')]"
  show "pipeline_needs_flags 2 (env_named_pipelines sample_env) (env_behavior sample_env) ?p = Some False"
    by (simp add: numeral_2_eq_2 step_needs_flags_def sample_step_def sample_env_def find_referenced_def
        sample_trims default_location_def location_new_def)
  show "env_variables sample_env (m, ''pipeline'', k) = None" for m k by (simp add: sample_env_def)
  show "(\<lambda>a b. b \<in> set (calls sample_env a))\<^sup>*\<^sup>* ?p ?p" by simp
  have plain: "fst (parse_scoped_ref ''noop'') = None" by (simp add: parse_scoped_ref_def sample_trims split_once_def starts_with_def)
  fix q rs
  assume path: "(\<lambda>a b. b \<in> set (calls sample_env a))\<^sup>*\<^sup>* ?p q" and rs: "RegularStep rs \<in> set (steps q)"
  from path have "q = ?p \<or> q = Pipeline []"
  proof (induction rule: rtranclp_induct)
    case (step a b)
    then show ?case by (auto simp: calls_def step_callees_def dest: sample_callee [OF sym] split: option.splits)
  qed simp
  with rs plain show "fst (parse_scoped_ref (raw_config sample_env rs)) = None"
    by (auto simp: raw_config_def sample_step_def)
qed

end
