(* ===== verification/Static_Files.thy ===== *)
theory Static_Files
  imports Loader Step
begin

text \<open>
  Serving files from the public directory (\<^verbatim>\<open>src/server.rs\<close>). The operating system's answers
  and percent decoding are arguments. Paths are compared by their components, as
  \<^verbatim>\<open>Path::starts_with\<close> does.
\<close>

record static_os =
  so_public_dir :: "string option"
  so_canonicalize :: "string \<Rightarrow> string option"
  so_exists :: "string \<Rightarrow> bool"
  so_read_bytes :: "string \<Rightarrow> string option"
  so_percent_decode :: "string \<Rightarrow> string option"

definition public_dir_path :: "static_os \<Rightarrow> string" where
  "public_dir_path os = (case so_public_dir os of Some d \<Rightarrow> d | None \<Rightarrow> ''public'')"

text \<open>The components of a path: a root, a leading dot, names; other dots and empty parts vanish.\<close>

definition path_components :: "string \<Rightarrow> string list" where
  "path_components p =
     (let parts = split_char (CHR ''/'') p
      in (if starts_with ''/'' p then [''/''] else if hd parts = ''.'' then [''.''] else []) @
         filter (\<lambda>c. c \<noteq> [] \<and> c \<noteq> ''.'') parts)"

definition path_starts_with :: "string \<Rightarrow> string \<Rightarrow> bool" where
  "path_starts_with p base \<longleftrightarrow>
     take (length (path_components base)) (path_components p) = path_components base"

definition normalize_static_path :: "static_os \<Rightarrow> string \<Rightarrow> string option" where
  "normalize_static_path os request_path =
     (if \<not> starts_with ''/'' request_path then None
      else case so_percent_decode os request_path of
        None \<Rightarrow> None
      | Some decoded \<Rightarrow>
          (let rel0 = trim_start_char (CHR ''/'') decoded;
               rel = (if rel0 = [] then ''index.html'' else rel0)
           in if ''..'' \<in> set (path_components rel) then None
              else
                (let public_dir = public_dir_path os; full = path_join public_dir rel
                 in case (so_canonicalize os full, so_canonicalize os public_dir) of
                      (Some canonical_full, Some canonical_public) \<Rightarrow>
                        if path_starts_with canonical_full canonical_public then Some full else None
                    | _ \<Rightarrow> if path_starts_with full public_dir then Some full else None)))"

text \<open>\<^verbatim>\<open>Path::extension\<close>: what follows the last dot of a name that is not its first character.\<close>

definition path_extension :: "string \<Rightarrow> string option" where
  "path_extension p =
     (case file_name p of None \<Rightarrow> None
      | Some name \<Rightarrow>
          (case rfind_char (CHR ''.'') name of
             None \<Rightarrow> None
           | Some i \<Rightarrow> if i = 0 then None else Some (drop (i + 1) name)))"

definition guess_content_type :: "string \<Rightarrow> string" where
  "guess_content_type p =
     (let e = to_ascii_lowercase (case path_extension p of None \<Rightarrow> [] | Some e \<Rightarrow> e)
      in if e = ''html'' \<or> e = ''htm'' then ''text/html; charset=utf-8''
         else if e = ''css'' then ''text/css; charset=utf-8''
         else if e = ''js'' \<or> e = ''mjs'' then ''application/javascript; charset=utf-8''
         else if e = ''json'' then ''application/json; charset=utf-8''
         else if e = ''svg'' then ''image/svg+xml''
         else if e = ''png'' then ''image/png''
         else if e = ''jpg'' \<or> e = ''jpeg'' then ''image/jpeg''
         else if e = ''gif'' then ''image/gif''
         else if e = ''webp'' then ''image/webp''
         else if e = ''ico'' then ''image/x-icon''
         else if e = ''woff'' then ''font/woff''
         else if e = ''woff2'' then ''font/woff2''
         else if e = ''ttf'' then ''font/ttf''
         else if e = ''otf'' then ''font/otf''
         else ''application/octet-stream'')"

text \<open>The file that answers a request: its content type and its bytes.\<close>

definition static_candidate :: "static_os \<Rightarrow> string \<Rightarrow> string \<Rightarrow> string" where
  "static_candidate os request_path full =
     (let candidate = (if ends_with ''/'' request_path then path_join full ''index.html'' else full);
          idx = path_join candidate ''index.html''
      in if \<not> so_exists os candidate \<and> path_extension request_path = None \<and> so_exists os idx then idx else candidate)"

definition try_serve_static :: "static_os \<Rightarrow> string \<Rightarrow> (string \<times> string) option" where
  "try_serve_static os request_path =
     (case normalize_static_path os request_path of
        None \<Rightarrow> None
      | Some full \<Rightarrow>
          (let candidate = static_candidate os request_path full
           in case so_read_bytes os candidate of
                None \<Rightarrow> None
              | Some bytes \<Rightarrow> Some (guess_content_type candidate, bytes)))"

section \<open>Containment\<close>

lemma split_char_snoc: "split_char d (s @ d # t) = split_char d s @ split_char d t"
proof (induction s)
  case (Cons c s)
  obtain p ps where p: "split_char d s = p # ps" by (cases "split_char d s") auto
  then show ?case using Cons by auto
qed simp

lemma trim_start_char_hd: "trim_start_char c s = [] \<or> hd (trim_start_char c s) \<noteq> c"
  unfolding trim_start_char_def using hd_dropWhile [of "\<lambda>x. x = c" s] by blast

text \<open>The names below the directory a relative path is joined to.\<close>

lemma path_join_components:
  assumes "dir \<noteq> []" and "\<not> starts_with ''/'' p"
  shows "path_components (path_join dir p) = path_components dir @ filter (\<lambda>c. c \<noteq> [] \<and> c \<noteq> ''.'') (split_char (CHR ''/'') p)"
proof -
  let ?keep = "filter (\<lambda>c. c \<noteq> [] \<and> c \<noteq> ''.'')"
  have nonempty: "split_char (CHR ''/'') s \<noteq> []" for s by simp
  show ?thesis
  proof (cases "last dir = CHR ''/''")
    case True
    then obtain d where d: "dir = d @ ''/''" using assms(1) by (metis append_butlast_last_id)
    then have j: "path_join dir p = d @ CHR ''/'' # p" using assms True by (simp add: path_join_def)
    have h: "hd (split_char (CHR ''/'') (d @ CHR ''/'' # p)) = hd (split_char (CHR ''/'') dir)"
      using d by (simp add: split_char_snoc [of "CHR ''/''" d])
    have "starts_with ''/'' (d @ CHR ''/'' # p) = starts_with ''/'' dir" using d by (cases d) (simp_all add: starts_with_def)
    then show ?thesis
      unfolding path_components_def Let_def j h by (simp add: d split_char_snoc [of "CHR ''/''" d] split_char_snoc [of "CHR ''/''" d "[]", simplified])
  next
    case False
    then have j: "path_join dir p = dir @ CHR ''/'' # p" using assms by (simp add: path_join_def)
    have "hd (split_char (CHR ''/'') (dir @ CHR ''/'' # p)) = hd (split_char (CHR ''/'') dir)"
      by (simp add: split_char_snoc)
    moreover have "starts_with ''/'' (dir @ CHR ''/'' # p) = starts_with ''/'' dir"
      using assms(1) by (cases dir) (simp_all add: starts_with_def)
    ultimately show ?thesis unfolding path_components_def Let_def j by (simp add: split_char_snoc)
  qed
qed

definition below_dir :: "string \<Rightarrow> string \<Rightarrow> bool" where
  "below_dir dir p \<longleftrightarrow>
     (\<exists>names. path_components p = path_components dir @ names \<and> ''..'' \<notin> set names \<and> [] \<notin> set names \<and> ''.'' \<notin> set names)"

lemma below_dir_join:
  assumes "dir \<noteq> []" and "\<not> starts_with ''/'' p" and "''..'' \<notin> set (split_char (CHR ''/'') p)"
  shows "below_dir dir (path_join dir p)"
  unfolding below_dir_def
  by (rule exI [of _ "filter (\<lambda>c. c \<noteq> [] \<and> c \<noteq> ''.'') (split_char (CHR ''/'') p)"])
    (use assms(3) path_join_components [OF assms(1,2)] in simp)

lemma below_dir_index: "below_dir dir p \<Longrightarrow> p \<noteq> [] \<Longrightarrow> below_dir dir (path_join p ''index.html'')"
  using path_join_components [of p "''index.html''"] by (auto simp: below_dir_def starts_with_def)

lemma path_join_not_Nil: "dir \<noteq> [] \<Longrightarrow> path_join dir p \<noteq> []"
  by (auto simp: path_join_def starts_with_def)

text \<open>
  C14: A request never reads outside the public directory: the file that answers it, the index of a
  directory included, is the public directory followed by names none of which is the parent directory,
  whatever the request's percent encoding hides; and where the operating system resolves both, the
  path before an index is added lies below the resolved directory, so its links do not lead out of it.
\<close>

theorem static_path_contained:
  assumes "normalize_static_path os request_path = Some full" and "public_dir_path os \<noteq> []"
  shows "below_dir (public_dir_path os) (static_candidate os request_path full) \<and>
    (\<forall>cf cp. so_canonicalize os full = Some cf \<longrightarrow> so_canonicalize os (public_dir_path os) = Some cp \<longrightarrow>
       path_starts_with cf cp)"
proof -
  obtain decoded where d: "so_percent_decode os request_path = Some decoded"
    using assms(1) by (auto simp: normalize_static_path_def split: if_splits option.splits)
  define rel where "rel = (if trim_start_char (CHR ''/'') decoded = [] then ''index.html'' else trim_start_char (CHR ''/'') decoded)"
  have parts: "''..'' \<notin> set (split_char (CHR ''/'') rel)" and full: "full = path_join (public_dir_path os) rel"
    and canon: "so_canonicalize os full = Some cf \<Longrightarrow> so_canonicalize os (public_dir_path os) = Some cp \<Longrightarrow> path_starts_with cf cp"
    for cf cp
    using assms(1) d by (auto simp: normalize_static_path_def rel_def path_components_def Let_def split: if_splits option.splits)
  have "\<not> starts_with ''/'' rel"
    using trim_start_char_hd [of "CHR ''/''" decoded] by (auto simp: rel_def starts_with_def split: if_splits) (metis list.sel(1) take_Suc)
  from below_dir_join [OF assms(2) this parts] have "below_dir (public_dir_path os) full" by (simp only: full)
  moreover have "full \<noteq> []" using path_join_not_Nil [OF assms(2)] by (simp add: full)
  ultimately have "below_dir (public_dir_path os) (static_candidate os request_path full)"
    by (auto simp: static_candidate_def Let_def intro!: below_dir_index path_join_not_Nil)
  with canon show ?thesis by blast
qed

text \<open>An encoded traversal is refused, a plain file is found.\<close>

definition sample_os :: static_os where
  "sample_os = \<lparr> so_public_dir = None, so_canonicalize = (\<lambda>p. None), so_exists = (\<lambda>p. True),
     so_read_bytes = (\<lambda>p. Some p), so_percent_decode = (\<lambda>p. Some (if p = ''/%2e%2e/etc'' then ''/../etc'' else p)) \<rparr>"

lemma sample_normalize:
  "normalize_static_path sample_os ''/css/app.css'' = Some ''public/css/app.css''"
  "normalize_static_path sample_os ''/%2e%2e/etc'' = None"
  by (simp_all add: normalize_static_path_def sample_os_def starts_with_def trim_start_char_def path_components_def
      path_join_def public_dir_path_def path_starts_with_def)

theorem static_path_contained_witness:
  "below_dir ''public'' (static_candidate sample_os ''/css/app.css'' ''public/css/app.css'')"
  using static_path_contained [OF sample_normalize(1)] by (simp add: public_dir_path_def sample_os_def)

end
