(* ===== verification/Http_Request.thy ===== *)
theory Http_Request
  imports Json_Value Text_Scan Fmt
begin

text \<open>
  The request value a route's pipeline starts from (\<^verbatim>\<open>src/http/request.rs\<close>): number
  coercion of path, query and form values, cookies, the body by its content type, the client's
  address. JSON text, lossy decoding and the order in which a hash map is iterated are arguments; a
  header is its name and its text, \<^const>\<open>None\<close> when its bytes are no visible ASCII.
\<close>

record http_libs =
  hl_from_slice :: "string \<Rightarrow> json option"
  hl_lossy :: "string \<Rightarrow> string"
  hl_hash_order :: "string omap \<Rightarrow> string omap"

type_synonym header_map = "(string \<times> string option) list"

section \<open>Numbers\<close>

text \<open>\<^verbatim>\<open>str::parse::<i64>\<close>: an optional sign and decimal digits within the range.\<close>

definition parse_int64 :: "string \<Rightarrow> int option" where
  "parse_int64 s =
     (let (negative, ds) = (case s of [] \<Rightarrow> (False, [])
            | c # cs \<Rightarrow> if c = CHR ''-'' then (True, cs) else if c = CHR ''+'' then (False, cs) else (False, s))
      in if ds \<noteq> [] \<and> list_all is_ascii_digit ds \<and> digits_val ds < 2 ^ 63 + (if negative then 1 else 0)
         then Some (if negative then - int (digits_val ds) else int (digits_val ds)) else None)"

text \<open>
  \<^verbatim>\<open>str::parse::<f64>\<close> followed by \<^verbatim>\<open>Number::from_f64\<close>, which refuses what is not
  finite: an optional sign, digits with at most one point, an optional exponent.
\<close>

definition exponent_text :: "string \<Rightarrow> int option" where
  "exponent_text s =
     (case s of [] \<Rightarrow> Some 0
      | c # cs \<Rightarrow>
          if c = CHR ''e'' \<or> c = CHR ''E'' then
            (let (negative, ds) = (case cs of [] \<Rightarrow> (False, [])
                  | d # ds \<Rightarrow> if d = CHR ''-'' then (True, ds) else if d = CHR ''+'' then (False, ds) else (False, cs))
             in if ds \<noteq> [] \<and> list_all is_ascii_digit ds
                then Some (if negative then - int (digits_val ds) else int (digits_val ds)) else None)
          else None)"

definition parse_finite_f64 :: "string \<Rightarrow> u64 option" where
  "parse_finite_f64 s =
     (let (negative, body) = (case s of [] \<Rightarrow> (False, [])
            | c # cs \<Rightarrow> if c = CHR ''-'' then (True, cs) else if c = CHR ''+'' then (False, cs) else (False, s));
          whole = takeWhile is_ascii_digit body;
          after = drop (length whole) body;
          (frac, tail) = (case after of [] \<Rightarrow> ([], [])
            | c # cs \<Rightarrow> if c = CHR ''.'' then (takeWhile is_ascii_digit cs, dropWhile is_ascii_digit cs) else ([], after))
      in if whole = [] \<and> frac = [] then None
         else case exponent_text tail of
           None \<Rightarrow> None
         | Some e \<Rightarrow>
             (let n = digits_val (whole @ frac); k = e - int (length frac)
              in map_option (f64_bits negative)
                   (if 0 \<le> k then f64_ratio (n * 10 ^ nat k) 1 else f64_ratio n (10 ^ nat (- k)))))"

definition json_int :: "int \<Rightarrow> json" where
  "json_int i = JNumber (if i < 0 then NegInt (of_int i) else PosInt (of_int i))"

definition string_to_number_or_string :: "string \<Rightarrow> json" where
  "string_to_number_or_string s =
     (case parse_int64 s of
        Some i \<Rightarrow> json_int i
      | None \<Rightarrow> (case parse_finite_f64 s of Some bits \<Rightarrow> JNumber (Float bits) | None \<Rightarrow> JString s))"

definition string_map_to_json_with_number_coercion :: "string omap \<Rightarrow> json" where
  "string_map_to_json_with_number_coercion m =
     JObject (om_insert_all (map (\<lambda>(k, v). (k, string_to_number_or_string v)) m) [])"

section \<open>Cookies, body and address\<close>

text \<open>The text before the first equals sign, and the one between the first and the second.\<close>

definition key_and_value :: "string \<Rightarrow> string \<times> string" where
  "key_and_value s =
     (case split_char (CHR ''='') s of
        key # v # _ \<Rightarrow> (key, v) | [key] \<Rightarrow> (key, []) | [] \<Rightarrow> ([], []))"

definition collect_map :: "(string \<times> string) list \<Rightarrow> string omap" where
  "collect_map ps = om_insert_all ps []"

definition header_text :: "string \<Rightarrow> header_map \<Rightarrow> string" where
  "header_text name headers = (case map_of headers name of Some (Some v) \<Rightarrow> v | _ \<Rightarrow> [])"

definition parse_cookies_from_headers :: "http_libs \<Rightarrow> header_map \<Rightarrow> string omap" where
  "parse_cookies_from_headers libs headers =
     hl_hash_order libs (collect_map
       (map (\<lambda>cookie. key_and_value (trim cookie)) (split_char (CHR '';'') (header_text ''cookie'' headers))))"

definition parse_body_from_content_type :: "http_libs \<Rightarrow> string \<Rightarrow> string \<Rightarrow> json" where
  "parse_body_from_content_type libs body content_type =
     (if body = [] then JObject []
      else if starts_with ''application/json'' content_type then
        (case hl_from_slice libs body of None \<Rightarrow> JNull | Some v \<Rightarrow> v)
      else if starts_with ''application/x-www-form-urlencoded'' content_type then
        string_map_to_json_with_number_coercion
          (hl_hash_order libs (collect_map (map key_and_value (split_char (CHR ''&'') (hl_lossy libs body)))))
      else JString (hl_lossy libs body))"

definition extract_client_ip :: "string omap \<Rightarrow> string option" where
  "extract_client_ip headers =
     (let forwarded = (case map_of headers ''x-forwarded-for'' of
            None \<Rightarrow> [] | Some xff \<Rightarrow> trim (hd (split_char (CHR '','') xff)))
      in if forwarded \<noteq> [] then Some forwarded
         else case map_of headers ''x-real-ip'' of
           None \<Rightarrow> None
         | Some xri \<Rightarrow> if trim xri \<noteq> [] then Some (trim xri) else None)"

section \<open>The request value\<close>

record request_assembly =
  ra_method :: string
  ra_path :: string
  ra_path_params :: "string omap"
  ra_query_params :: "string omap"
  ra_headers :: "string omap option"
  ra_cookies :: "string omap option"
  ra_body :: json
  ra_content_type :: string
  ra_ip :: "string option"

definition string_map_json :: "string omap option \<Rightarrow> json" where
  "string_map_json m =
     (case m of None \<Rightarrow> JObject []
      | Some h \<Rightarrow> JObject (om_insert_all (map (\<lambda>(k, v). (k, JString v)) h) []))"

definition assemble_request_object :: "request_assembly \<Rightarrow> json" where
  "assemble_request_object a =
     (let m0 = om_insert ''path'' (JString (ra_path a)) (om_insert ''method'' (JString (ra_method a)) []);
          m1 = (case ra_ip a of None \<Rightarrow> m0 | Some ip \<Rightarrow> om_insert ''ip'' (JString ip) m0);
          m2 = om_insert ''query'' (string_map_to_json_with_number_coercion (ra_query_params a)) m1;
          m3 = om_insert ''params'' (string_map_to_json_with_number_coercion (ra_path_params a)) m2;
          m4 = om_insert ''headers'' (string_map_json (ra_headers a)) m3;
          m5 = om_insert ''cookies'' (string_map_json (ra_cookies a)) m4;
          m6 = om_insert ''body'' (ra_body a) m5;
          m7 = om_insert ''content_type'' (JString (ra_content_type a)) m6;
          orig = om_insert ''query'' (string_map_to_json_with_number_coercion (ra_query_params a))
                   (om_insert ''params'' (string_map_to_json_with_number_coercion (ra_path_params a))
                     (om_insert ''method'' (JString (ra_method a)) []))
      in JObject (om_insert ''originalRequest'' (JObject orig) m7))"

text \<open>The headers by lower-case name; of several with one name the last.\<close>

definition headers_map_of :: "http_libs \<Rightarrow> header_map \<Rightarrow> string omap" where
  "headers_map_of libs headers =
     hl_hash_order libs (collect_map
       (map (\<lambda>(k, v). (to_ascii_lowercase k, case v of None \<Rightarrow> [] | Some s \<Rightarrow> s)) headers))"

definition content_type_of :: "string omap \<Rightarrow> string" where
  "content_type_of headers =
     (case map_of headers ''content-type'' of None \<Rightarrow> ''application/json'' | Some ct \<Rightarrow> ct)"

definition build_request_from_axum_with_ip ::
  "http_libs \<Rightarrow> string \<Rightarrow> header_map \<Rightarrow> string \<Rightarrow> string omap \<Rightarrow> string omap \<Rightarrow> string \<Rightarrow> string option \<Rightarrow>
   json \<times> string" where
  "build_request_from_axum_with_ip libs http_method headers path path_params query_params body remote_ip =
     (let hs = headers_map_of libs headers;
          content_type = content_type_of hs;
          ip = (case extract_client_ip hs of Some ip \<Rightarrow> Some ip | None \<Rightarrow> remote_ip)
      in (assemble_request_object
            \<lparr> ra_method = http_method, ra_path = path, ra_path_params = path_params,
              ra_query_params = query_params, ra_headers = Some hs,
              ra_cookies = Some (parse_cookies_from_headers libs headers),
              ra_body = parse_body_from_content_type libs body content_type,
              ra_content_type = content_type, ra_ip = ip \<rparr>,
          content_type))"

definition build_request_from_axum ::
  "http_libs \<Rightarrow> string \<Rightarrow> header_map \<Rightarrow> string \<Rightarrow> string omap \<Rightarrow> string omap \<Rightarrow> string \<Rightarrow> json \<times> string" where
  "build_request_from_axum libs http_method headers path path_params query_params body =
     (let hs = headers_map_of libs headers; content_type = content_type_of hs
      in (assemble_request_object
            \<lparr> ra_method = http_method, ra_path = path, ra_path_params = path_params,
              ra_query_params = query_params, ra_headers = Some hs,
              ra_cookies = Some (parse_cookies_from_headers libs headers),
              ra_body = parse_body_from_content_type libs body content_type,
              ra_content_type = content_type, ra_ip = extract_client_ip hs \<rparr>,
          content_type))"

definition build_request_for_tests ::
  "string \<Rightarrow> string \<Rightarrow> string omap \<Rightarrow> string omap \<Rightarrow> string omap option \<Rightarrow> string omap option \<Rightarrow> json \<Rightarrow> json" where
  "build_request_for_tests http_method path path_params query_params headers cookies body =
     assemble_request_object
       \<lparr> ra_method = http_method, ra_path = path, ra_path_params = path_params, ra_query_params = query_params,
         ra_headers = headers, ra_cookies = cookies, ra_body = body, ra_content_type = ''application/json'',
         ra_ip = None \<rparr>"

definition build_minimal_request_for_tests :: "string \<Rightarrow> string \<Rightarrow> string omap \<Rightarrow> string omap \<Rightarrow> json" where
  "build_minimal_request_for_tests http_method path path_params query_params =
     assemble_request_object
       \<lparr> ra_method = http_method, ra_path = path, ra_path_params = path_params, ra_query_params = query_params,
         ra_headers = None, ra_cookies = None, ra_body = JObject [], ra_content_type = ''application/json'',
         ra_ip = None \<rparr>"

end
