(* ===== verification/Server.thy ===== *)
theory Server
  imports Server_Flags Server_Modules Static_Files Http_Request Middleware
begin

text \<open>
  The server (\<^verbatim>\<open>src/server.rs\<close>): the environment built at start-up, the routers, and the handler
  of a request, from the static files over the flag pipeline to the response. The path router of the
  \<^verbatim>\<open>matchit\<close> crate, header syntax, base64, percent decoding and the 50 milliseconds the flag
  pipeline is given are arguments. Log lines are left out; \<^const>\<open>None\<close> is a run that does not return
  within its fuel.
\<close>

section \<open>Start-up\<close>

record ('l, 'r, 'w) server =
  sv_program :: program
  sv_file_path :: "string option"
  sv_middleware :: "string \<Rightarrow> ('l, 'r, 'w) middleware"
  sv_libs :: "('r, 'w) libraries"
  sv_configs :: config_manager
  sv_platform :: "('l, 'w) platform"
  sv_environment :: "string option"
  sv_debugger :: "'w debugger_hook option"
  sv_trace_enabled :: bool
  sv_graphql :: bool

text \<open>
  The part of \<^verbatim>\<open>from_program_internal\<close> before the libraries are set up: the configuration,
  the templates and the merged program.
\<close>

definition server_program ::
  "file_system \<Rightarrow> (string \<Rightarrow> string + program) \<Rightarrow> nat \<Rightarrow>
   (module_tree \<Rightarrow> tree_entries) \<Rightarrow> ((string \<rightharpoonup> string) \<Rightarrow> (string \<times> string) list) \<Rightarrow>
   program \<Rightarrow> string option \<Rightarrow> (web_pipe_error + config list \<times> variable list \<times> program) option" where
  "server_program fs parse fuel tree_list entries prog file_path =
     (case (case file_path of
              None \<Rightarrow> Some (Inr None)
            | Some f \<Rightarrow> map_option (\<lambda>(r, _). case r of Inl e \<Rightarrow> Inl e | Inr t \<Rightarrow> Inr (Some (tree_list t)))
                          (load_module_tree fs parse fuel f module_loader_new)) of
        None \<Rightarrow> None
      | Some (Inl e) \<Rightarrow> Some (Inl e)
      | Some (Inr tree) \<Rightarrow>
          (case (load_imported_configs fs parse fuel prog file_path,
                 case tree of Some t \<Rightarrow> Some (merge_from_module_tree prog t)
                            | None \<Rightarrow> merge_imported_graphql fs parse fuel prog file_path) of
             (Some imported_configs, Some merged) \<Rightarrow>
               Some (Inr (imported_configs @ pr_configs prog,
                          (case tree of None \<Rightarrow> [] | Some t \<Rightarrow> load_handlebars_from_module_tree entries t) @ pr_variables prog,
                          merged))
           | _ \<Rightarrow> None))"

definition build_runtime ::
  "file_system \<Rightarrow> (string \<Rightarrow> string + program) \<Rightarrow> nat \<Rightarrow>
   (module_tree \<Rightarrow> tree_entries) \<Rightarrow> ((string \<rightharpoonup> string) \<Rightarrow> (string \<times> string) list) \<Rightarrow>
   ('l, 'r, 'w) server \<Rightarrow> (('l, 'r, 'w) execution_env \<times> nat option) option" where
  "build_runtime fs parse fuel tree_list entries sv =
     (case (case sv_file_path sv of
              None \<Rightarrow> Some []
            | Some f \<Rightarrow> map_option (\<lambda>(r, _). case r of Inl e \<Rightarrow> [] | Inr t \<Rightarrow> tree_list t)
                          (load_module_tree fs parse fuel f module_loader_new)) of
        None \<Rightarrow> None
      | Some tree \<Rightarrow>
          (let (named, variables) = build_symbols (sv_program sv) tree;
               registry = register_modules entries tree;
               root_module_id =
                 (case sv_file_path sv of
                    None \<Rightarrow> None
                  | Some f \<Rightarrow> (case fs_canonicalize fs f of Inl e \<Rightarrow> None | Inr p \<Rightarrow> get_id_by_path p registry));
               env = \<lparr> env_variables = variables, env_named_pipelines = named, env_module_registry = registry,
                 env_imports = Map.empty,
                 env_invoker = (\<lambda>name args config target pc m. (Inl (MiddlewareNotFound name), pc, m)),
                 env_behavior = (\<lambda>name. None), env_environment = sv_environment sv,
                 env_debugger = sv_debugger sv, env_platform = sv_platform sv \<rparr>
           in Some (with_registry (sv_libs sv) (sv_configs sv) (sv_middleware sv) env, root_module_id)))"

definition feature_flags_pipeline ::
  "file_system \<Rightarrow> ('l, 'r, 'w) server \<Rightarrow> nat option \<Rightarrow> pipeline option" where
  "feature_flags_pipeline fs sv root_module_id =
     (case pr_feature_flags (sv_program sv) of
        None \<Rightarrow> None
      | Some p \<Rightarrow>
          (case (root_module_id, sv_file_path sv) of
             (Some i, Some f) \<Rightarrow>
               (case fs_canonicalize fs f of Inl e \<Rightarrow> Some p | Inr path \<Rightarrow> Some (set_pipeline_module_info path i p))
           | _ \<Rightarrow> Some p))"

section \<open>Running the main pipeline\<close>

text \<open>The flag pipeline of a script may fail the whole run.\<close>

definition script_flags ::
  "nat \<Rightarrow> ('l, 'r, 'w) execution_env \<Rightarrow> pipeline option \<Rightarrow> json \<Rightarrow> ('l, 'r, 'w) machine \<Rightarrow>
   ((web_pipe_error + bool omap) \<times> ('l, 'r, 'w) machine) option" where
  "script_flags fuel env flag_pipeline input m =
     (case flag_pipeline of
        None \<Rightarrow> Some (Inr [], m)
      | Some p \<Rightarrow>
          (case execute_pipeline env fuel p input (request_context_for_script input) m of
             None \<Rightarrow> None
           | Some (Inl e, m') \<Rightarrow> Some (Inl e, m')
           | Some (Inr (_, _, _, flag_ctx), m') \<Rightarrow> Some (Inr (rc_feature_flags flag_ctx), m')))"

definition attach_thread :: "('l, 'r, 'w) execution_env \<Rightarrow> 'w request_context \<Rightarrow> ('l, 'r, 'w) machine \<Rightarrow>
   'w request_context \<times> ('l, 'r, 'w) machine" where
  "attach_thread env ctx m =
     (case env_debugger env of
        None \<Rightarrow> (ctx, m)
      | Some dbg \<Rightarrow>
          (let (tid, w) = dh_allocate_thread_id dbg (mc_world m)
           in (ctx\<lparr>rc_debug_thread_id := Some tid\<rparr>, m\<lparr>mc_world := w\<rparr>)))"

definition find_main :: "('l, 'r, 'w) execution_env \<Rightarrow> nat option \<Rightarrow> pipeline option" where
  "find_main env root_module_id =
     (case (case root_module_id of None \<Rightarrow> None | Some i \<Rightarrow> env_named_pipelines env (Some i, ''main'')) of
        Some p \<Rightarrow> Some p
      | None \<Rightarrow> env_named_pipelines env (None, ''main''))"

definition execute_main_pipeline ::
  "nat \<Rightarrow> ('l, 'r, 'w) execution_env \<Rightarrow> nat option \<Rightarrow> pipeline option \<Rightarrow> json \<Rightarrow> ('l, 'r, 'w) machine \<Rightarrow>
   ((web_pipe_error + json \<times> string \<times> u16 option) \<times> ('l, 'r, 'w) machine) option" where
  "execute_main_pipeline fuel env root_module_id flag_pipeline input m =
     (case find_main env root_module_id of
        None \<Rightarrow> Some (Inl (PipelineNotFound ''main''), m)
      | Some p \<Rightarrow>
          (case script_flags fuel env flag_pipeline input m of
             None \<Rightarrow> None
           | Some (Inl e, m1) \<Rightarrow> Some (Inl e, m1)
           | Some (Inr flags, m1) \<Rightarrow>
               (let (ctx, m2) = attach_thread env ((request_context_for_script input)\<lparr>rc_feature_flags := flags\<rparr>) m1
                in case execute_pipeline env fuel p input ctx m2 of
                     None \<Rightarrow> None
                   | Some (Inl e, m3) \<Rightarrow> Some (Inl e, m3)
                   | Some (Inr (result, content_type, status, ctx'), m3) \<Rightarrow>
                       Some (Inr (result, content_type, status),
                             m3\<lparr>mc_world := run_deferred ctx' result content_type (mc_world m3)\<rparr>))))"

section \<open>Routes\<close>

record route_payload =
  rp_pipeline :: pipeline
  rp_needs_flags :: bool

text \<open>The path router: a pattern that conflicts with an earlier one is refused.\<close>

record ('v, 'm) path_router =
  pr_new :: 'm
  pr_insert :: "string \<Rightarrow> 'v \<Rightarrow> 'm \<Rightarrow> 'm option"
  pr_at :: "'m \<Rightarrow> string \<Rightarrow> ('v \<times> (string \<times> string) list) option"

record 'm method_routers =
  mr_get :: 'm
  mr_post :: 'm
  mr_put :: 'm
  mr_delete :: 'm

definition insert_route :: "('v, 'm) path_router \<Rightarrow> string \<Rightarrow> 'v \<Rightarrow> 'm \<Rightarrow> 'm" where
  "insert_route pr path payload m = (case pr_insert pr path payload m of None \<Rightarrow> m | Some m' \<Rightarrow> m')"

definition register_route ::
  "(route_payload, 'm) path_router \<Rightarrow> string \<Rightarrow> string \<Rightarrow> route_payload \<Rightarrow> 'm method_routers \<Rightarrow> 'm method_routers" where
  "register_route pr http_method path payload rs =
     (if http_method = ''GET'' then rs\<lparr>mr_get := insert_route pr path payload (mr_get rs)\<rparr>
      else if http_method = ''POST'' then rs\<lparr>mr_post := insert_route pr path payload (mr_post rs)\<rparr>
      else if http_method = ''PUT'' then rs\<lparr>mr_put := insert_route pr path payload (mr_put rs)\<rparr>
      else if http_method = ''DELETE'' then rs\<lparr>mr_delete := insert_route pr path payload (mr_delete rs)\<rparr>
      else rs)"

text \<open>Building the routers may panic, on the name of a pipeline that does not exist.\<close>

datatype 'm built = Built "'m method_routers" | Panicked string

definition route_pipeline :: "program \<Rightarrow> route \<Rightarrow> pipeline option" where
  "route_pipeline prog r =
     (case rt_pipeline r of
        Inline p \<Rightarrow> Some p
      | Named name \<Rightarrow> map_option np_pipeline (find (\<lambda>p. np_name p = name) (pr_pipelines prog)))"

primrec build_routes ::
  "(route_payload, 'm) path_router \<Rightarrow> nat \<Rightarrow> ('l, 'r, 'w) execution_env \<Rightarrow> program \<Rightarrow> route list \<Rightarrow> 'm method_routers \<Rightarrow> 'm built option" where
  "build_routes pr fuel env prog [] rs = Some (Built rs)"
| "build_routes pr fuel env prog (r # routes) rs =
     (case route_pipeline prog r of
        None \<Rightarrow> Some (Panicked ''pipeline not found'')
      | Some p \<Rightarrow>
          (case pipeline_needs_flags fuel (env_named_pipelines env) (env_behavior env) p of
             None \<Rightarrow> None
           | Some needed \<Rightarrow>
               build_routes pr fuel env prog routes
                 (register_route pr (rt_method r) (rt_path r)
                    \<lparr> rp_pipeline = p, rp_needs_flags = needed \<rparr> rs)))"

definition graphql_jq_text :: string where
  "graphql_jq_text = ''{'' @ [newline] @ ''                    query: .body.query,'' @ [newline] @
     ''                    variables: (.body.variables // {})'' @ [newline] @ ''                }''"

definition create_graphql_endpoint_pipeline :: pipeline where
  "create_graphql_endpoint_pipeline =
     (let step = (\<lambda>name config present. RegularStep
            \<lparr> rs_name = name, rs_args = [], rs_config = config, rs_config_type = Backtick,
              rs_config_present = present, rs_condition = None, rs_parsed_join_targets = None,
              rs_location = location_new 0 0 0 \<rparr>)
      in Pipeline [step ''jq'' graphql_jq_text True, step ''graphql'' [] False])"

definition build_routers ::
  "(route_payload, 'm) path_router \<Rightarrow> nat \<Rightarrow> ('l, 'r, 'w) execution_env \<Rightarrow> ('l, 'r, 'w) server \<Rightarrow> 'm built option" where
  "build_routers pr fuel env sv =
     (let prog = sv_program sv;
          empty = \<lparr> mr_get = pr_new pr, mr_post = pr_new pr, mr_put = pr_new pr, mr_delete = pr_new pr \<rparr>
      in case build_routes pr fuel env prog (pr_routes prog) empty of
           Some (Built rs) \<Rightarrow>
             (case get_graphql_endpoint (lb_env_var (sv_libs sv)) (sv_configs sv) of
                None \<Rightarrow> Some (Built rs)
              | Some endpoint \<Rightarrow>
                  if \<not> sv_graphql sv \<or> (\<exists>r \<in> set (pr_routes prog). rt_method r = ''POST'' \<and> rt_path r = endpoint)
                  then Some (Built rs)
                  else
                    (case pipeline_needs_flags fuel (env_named_pipelines env) (env_behavior env)
                            create_graphql_endpoint_pipeline of
                       None \<Rightarrow> None
                     | Some needed \<Rightarrow>
                         Some (Built (register_route pr ''POST'' endpoint
                           \<lparr> rp_pipeline = create_graphql_endpoint_pipeline, rp_needs_flags = needed \<rparr> rs))))
         | other \<Rightarrow> other)"

section \<open>Responses\<close>

record http_response =
  resp_status :: u16
  resp_body :: string
  resp_headers :: "(string \<times> string) list"

record response_libs =
  rl_valid_status :: "u16 \<Rightarrow> bool"
  rl_header_name :: "string \<Rightarrow> string option"
  rl_header_value :: "string \<Rightarrow> bool"
  rl_base64_decode :: "string \<Rightarrow> string option"
  rl_percent_decode_lossy :: "string \<Rightarrow> string"

definition header_insert :: "string \<Rightarrow> string \<Rightarrow> (string \<times> string) list \<Rightarrow> (string \<times> string) list" where
  "header_insert k v hs = filter (\<lambda>h. fst h \<noteq> k) hs @ [(k, v)]"

definition typed_response :: "u16 \<Rightarrow> string \<Rightarrow> string \<Rightarrow> http_response" where
  "typed_response status content_type body =
     \<lparr> resp_status = status, resp_body = body, resp_headers = [(''content-type'', content_type)] \<rparr>"

definition base_response :: "response_libs \<Rightarrow> (json \<Rightarrow> string) \<Rightarrow> u16 \<Rightarrow> json \<Rightarrow> string \<Rightarrow> http_response" where
  "base_response rl to_text status result content_type =
     (if starts_with ''text/html'' content_type then
        typed_response status ''text/html; charset=utf-8''
          (case as_str result of Some html \<Rightarrow> html | None \<Rightarrow> to_text result)
      else if starts_with ''image/svg+xml'' content_type then
        typed_response status ''image/svg+xml'' (case as_str result of Some s \<Rightarrow> s | None \<Rightarrow> [])
      else if starts_with ''image/png'' content_type then
        (let body = (case as_str result of Some s \<Rightarrow> s | None \<Rightarrow> [])
         in typed_response status ''image/png'' (case rl_base64_decode rl body of Some b \<Rightarrow> b | None \<Rightarrow> body))
      else typed_response status ''application/json'' (to_text result))"

definition add_cookies :: "response_libs \<Rightarrow> json \<Rightarrow> (string \<times> string) list \<Rightarrow> (string \<times> string) list" where
  "add_cookies rl result hs =
     (case Option.bind (json_get ''setCookies'' result) as_array of
        None \<Rightarrow> hs
      | Some cookies \<Rightarrow>
          hs @ map (\<lambda>c. (''set-cookie'', c)) (filter (rl_header_value rl) (List.map_filter as_str cookies)))"

definition add_custom_headers :: "response_libs \<Rightarrow> json \<Rightarrow> (string \<times> string) list \<Rightarrow> (string \<times> string) list" where
  "add_custom_headers rl result hs =
     (case Option.bind (json_get ''setHeaders'' result) as_object of
        None \<Rightarrow> hs
      | Some m \<Rightarrow>
          fold (\<lambda>(k, v) acc.
              case (as_str v, rl_header_name rl k) of
                (Some s, Some name) \<Rightarrow> if rl_header_value rl s then header_insert name s acc else acc
              | _ \<Rightarrow> acc) m hs)"

definition success_response ::
  "response_libs \<Rightarrow> (json \<Rightarrow> string) \<Rightarrow> json \<Rightarrow> string \<Rightarrow> u16 option \<Rightarrow> http_response" where
  "success_response rl to_text result content_type status_opt =
     (let status = (case status_opt of None \<Rightarrow> 200 | Some code \<Rightarrow> if rl_valid_status rl code then code else 500);
          response = base_response rl to_text status result content_type
      in response\<lparr>resp_headers := add_custom_headers rl result (add_cookies rl result (resp_headers response))\<rparr>)"

definition failure_response :: "(json \<Rightarrow> string) \<Rightarrow> web_pipe_error \<Rightarrow> http_response" where
  "failure_response to_text e =
     typed_response 500 ''application/json''
       (to_text (JObject [(''error'', JString ''Pipeline execution failed''),
                          (''details'', JString (display_pipeline_details e))]))"

section \<open>A request\<close>

definition create_request_context ::
  "('l, 'r, 'w) execution_env \<Rightarrow> bool omap \<Rightarrow> json \<Rightarrow> ('l, 'r, 'w) machine \<Rightarrow>
   'w request_context \<times> ('l, 'r, 'w) machine" where
  "create_request_context env flags request m =
     attach_thread env (request_context_new\<lparr>rc_feature_flags := flags, rc_request := request\<rparr>) m"

text \<open>
  The flag pipeline, when the route needs it: its flags and the user it found. A run that takes too
  long is cut off, in whatever state it has left by then.
\<close>

definition preflight ::
  "(('l, 'r, 'w) machine \<Rightarrow> ('l, 'r, 'w) machine option) \<Rightarrow> nat \<Rightarrow> ('l, 'r, 'w) execution_env \<Rightarrow>
   pipeline option \<Rightarrow> bool \<Rightarrow> json \<Rightarrow> ('l, 'r, 'w) machine \<Rightarrow>
   (bool omap \<times> json \<times> ('l, 'r, 'w) machine) option" where
  "preflight timed_out fuel env flag_pipeline needed request m =
     (case (if needed then flag_pipeline else None) of
        None \<Rightarrow> Some ([], request, m)
      | Some p \<Rightarrow>
          (let (flag_ctx, m1) = create_request_context env [] request m
           in case timed_out m1 of
                Some m2 \<Rightarrow> Some ([], request, m2)
              | None \<Rightarrow>
                  (case execute_pipeline env fuel p request flag_ctx m1 of
                     None \<Rightarrow> None
                   | Some (Inl e, m2) \<Rightarrow> Some ([], request, m2)
                   | Some (Inr (result, _, _, ctx'), m2) \<Rightarrow>
                       Some (rc_feature_flags ctx',
                             (case json_get ''user'' result of
                                None \<Rightarrow> request | Some user \<Rightarrow> map_object (om_insert ''user'' user) request),
                             m2))))"

definition print_trace :: "('r, 'w) libraries \<Rightarrow> bool \<Rightarrow> profiler \<Rightarrow> 'w \<Rightarrow> 'w" where
  "print_trace libs trace_enabled p w =
     (if trace_enabled \<and> pf_samples p \<noteq> [] then
        lb_print libs (''# speedscope trace end'' @ [newline])
          (fold (\<lambda>(stack, micros) w. lb_print libs (stack @ '' '' @ show_nat micros) w) (pf_samples p)
            (lb_print libs ([newline] @ ''# speedscope trace start'') w))
      else w)"

definition respond_with_pipeline ::
  "(('l, 'r, 'w) machine \<Rightarrow> ('l, 'r, 'w) machine option) \<Rightarrow> nat \<Rightarrow> response_libs \<Rightarrow> ('r, 'w) libraries \<Rightarrow>
   ('l, 'r, 'w) execution_env \<Rightarrow> pipeline option \<Rightarrow> bool \<Rightarrow> string \<Rightarrow> string \<Rightarrow> json \<Rightarrow> route_payload \<Rightarrow>
   ('l, 'r, 'w) machine \<Rightarrow> (http_response \<times> ('l, 'r, 'w) machine) option" where
  "respond_with_pipeline timed_out fuel rl libs env flag_pipeline trace_enabled http_method path request payload m =
     (case preflight timed_out fuel env flag_pipeline (rp_needs_flags payload) request m of
        None \<Rightarrow> None
      | Some (flags, request_json, m1) \<Rightarrow>
          (let (ctx, m2) = create_request_context env flags request_json m1;
               ctx = ctx\<lparr>rc_profiler := profiler_push (http_method @ '' '' @ path) (rc_profiler ctx)\<rparr>;
               (route_start, w) = pl_now (env_platform env) (mc_world m2);
               to_text = pl_to_text (env_platform env)
           in case execute_pipeline env fuel (rp_pipeline payload) request_json ctx (m2\<lparr>mc_world := w\<rparr>) of
                None \<Rightarrow> None
              | Some (Inl e, m3) \<Rightarrow> Some (failure_response to_text e, m3)
              | Some (Inr (result, content_type, status_opt, ctx'), m3) \<Rightarrow>
                  (let (now, w3) = pl_now (env_platform env) (mc_world m3);
                       p = profiler_pop (record_sample ((now - route_start) div 1000) (rc_profiler ctx'));
                       ctx'' = ctx'\<lparr>rc_profiler := p\<rparr>;
                       w4 = run_deferred ctx'' result content_type (print_trace libs trace_enabled p w3)
                   in Some (success_response rl to_text result content_type status_opt,
                            m3\<lparr>mc_ctx := ctx'', mc_world := w4\<rparr>))))"

definition empty_response :: "u16 \<Rightarrow> http_response" where
  "empty_response status = \<lparr> resp_status = status, resp_body = [], resp_headers = [] \<rparr>"

definition static_response :: "string \<times> string \<Rightarrow> http_response" where
  "static_response f = typed_response 200 (fst f) (snd f)"

text \<open>What a request is answered by: a file, a route's pipeline or a status alone.\<close>

datatype target = File http_response | Route route_payload "string omap" | NoRoute u16

definition select_target ::
  "(route_payload, 'm) path_router \<Rightarrow> 'm method_routers \<Rightarrow> response_libs \<Rightarrow> static_os \<Rightarrow> string \<Rightarrow> string \<Rightarrow> target" where
  "select_target pr rs rl os http_method path =
     (let routed = (\<lambda>m. case pr_at pr m path of
            Some (payload, params) \<Rightarrow>
              Route payload (om_insert_all (map (\<lambda>(k, v). (k, rl_percent_decode_lossy rl v)) params) [])
          | None \<Rightarrow> NoRoute 404)
      in if http_method = ''GET'' then
           (case try_serve_static os path of
              Some f \<Rightarrow> File (static_response f)
            | None \<Rightarrow>
                (case routed (mr_get rs) of
                   NoRoute s \<Rightarrow> (case try_serve_static os path of Some f \<Rightarrow> File (static_response f) | None \<Rightarrow> NoRoute s)
                 | t \<Rightarrow> t))
         else if http_method = ''POST'' then routed (mr_post rs)
         else if http_method = ''PUT'' then routed (mr_put rs)
         else if http_method = ''DELETE'' then routed (mr_delete rs)
         else NoRoute 405)"

record ('l, 'r, 'w, 'm) server_state =
  ss_router :: "(route_payload, 'm) path_router"
  ss_routers :: "'m method_routers"
  ss_env :: "('l, 'r, 'w) execution_env"
  ss_feature_flags :: "pipeline option"
  ss_trace_enabled :: bool

record http_request =
  hr_method :: string
  hr_headers :: header_map
  hr_path :: string
  hr_query :: "string omap"
  hr_body :: string
  hr_remote_ip :: "string option"

definition unified_handler ::
  "(('l, 'r, 'w) machine \<Rightarrow> ('l, 'r, 'w) machine option) \<Rightarrow> nat \<Rightarrow> response_libs \<Rightarrow> http_libs \<Rightarrow> static_os \<Rightarrow>
   ('r, 'w) libraries \<Rightarrow> ('l, 'r, 'w, 'm) server_state \<Rightarrow> http_request \<Rightarrow> ('l, 'r, 'w) machine \<Rightarrow>
   (http_response \<times> ('l, 'r, 'w) machine) option" where
  "unified_handler timed_out fuel rl hl os libs state req m =
     (case select_target (ss_router state) (ss_routers state) rl os (hr_method req) (hr_path req) of
        File f \<Rightarrow> Some (f, m)
      | NoRoute s \<Rightarrow> Some (empty_response s, m)
      | Route payload params \<Rightarrow>
          (let request = fst (build_request_from_axum_with_ip hl (hr_method req) (hr_headers req) (hr_path req)
                                (hl_hash_order hl params) (hr_query req) (hr_body req) (hr_remote_ip req))
           in respond_with_pipeline timed_out fuel rl libs (ss_env state) (ss_feature_flags state)
                (ss_trace_enabled state) (hr_method req) (hr_path req) request payload m))"

end
