(* ===== verification/Http_Properties.thy ===== *)
theory Http_Properties
  imports Http_Request
begin

text \<open>
  What a pipeline can rely on in its request value: its fields, the cookies and numbers of a request
  written in the usual form, and where the client's address comes from.
\<close>

section \<open>The libraries\<close>

locale http_laws =
  fixes libs :: http_libs
  assumes hash_order_law: "wf_omap m \<Longrightarrow> map_of (hl_hash_order libs m) = map_of m \<and> wf_omap (hl_hash_order libs m)"
    and from_slice_law: "hl_from_slice libs b = Some v \<Longrightarrow> wf_json v"
begin

lemma ordered_lookup: "map_of (hl_hash_order libs (collect_map ps)) = map_of (rev ps)"
  using hash_order_law [of "collect_map ps"]
  by (auto simp: collect_map_def om_insert_all_wf om_insert_all_lookup fun_eq_iff split: option.splits)

lemma ordered_wf: "wf_omap (hl_hash_order libs (collect_map ps))"
  using hash_order_law [of "collect_map ps"] by (simp add: collect_map_def om_insert_all_wf)

end

text \<open>A library that reads no JSON and iterates a map in the order of its insertions.\<close>

definition http_reference :: http_libs where
  "http_reference = \<lparr> hl_from_slice = (\<lambda>s. None), hl_lossy = (\<lambda>s. s), hl_hash_order = (\<lambda>m. m) \<rparr>"

interpretation reference_http: http_laws http_reference
  by unfold_locales (simp_all add: http_reference_def)

section \<open>Numbers\<close>

lemma parse_int64_show:
  assumes "- (2 ^ 63) \<le> i" and "i < 2 ^ 63"
  shows "parse_int64 (show_int i) = Some i"
proof (cases "i < 0")
  case True
  then have "nat (- i) \<le> 2 ^ 63" using assms(1) by simp
  with True show ?thesis
    by (simp add: show_int_def parse_int64_def show_nat_digits digits_val_show_nat)
next
  case False
  obtain c cs where s: "show_nat (nat i) = c # cs" by (cases "show_nat (nat i)") auto
  then have "is_ascii_digit c" using show_nat_digits [of "nat i"] by simp
  then have "c \<noteq> CHR ''-''" "c \<noteq> CHR ''+''" by (auto simp: is_ascii_digit_def)
  moreover have "nat i < 2 ^ 63" using assms(2) False by simp
  ultimately show ?thesis
    using False s show_nat_digits [of "nat i"] digits_val_show_nat [of "nat i"]
    by (simp add: show_int_def parse_int64_def)
qed

lemma digits_val_zero: "digits_val (CHR ''0'' # ds) = digits_val ds"
  by (simp add: digits_val_def)

text \<open>
  An integer of 64 bits written in decimal becomes that JSON number, and leading zeros are lost:
  a path, query or form value made of digits cannot be told from the same digits after a zero, such as
  a postal code, whatever the pipeline does with it.
\<close>

theorem numbers_are_coerced:
  assumes "- (2 ^ 63) \<le> i" and "i < 2 ^ 63"
    and "ds \<noteq> []" and "list_all is_ascii_digit ds" and "digits_val ds < 2 ^ 63"
  shows "string_to_number_or_string (show_int i) = json_int i \<and>
    string_to_number_or_string (CHR ''0'' # ds) = string_to_number_or_string ds"
proof -
  obtain c cs where ds: "ds = c # cs" using assms(3) by (cases ds) auto
  then have "is_ascii_digit c" using assms(4) by simp
  then have "c \<noteq> CHR ''-''" "c \<noteq> CHR ''+''" by (auto simp: is_ascii_digit_def)
  then have "parse_int64 ds = Some (int (digits_val ds))"
    using ds assms(4,5) by (simp add: parse_int64_def)
  moreover have "parse_int64 (CHR ''0'' # ds) = Some (int (digits_val ds))"
    using assms(3,4,5) by (simp add: parse_int64_def digits_val_zero is_ascii_digit_def [of "CHR ''0''"])
  ultimately show ?thesis
    by (simp add: string_to_number_or_string_def parse_int64_show [OF assms(1,2)])
qed

theorem numbers_are_coerced_witness:
  "string_to_number_or_string (show_int (- 42)) = json_int (- 42) \<and>
   string_to_number_or_string (CHR ''0'' # ''2134'') = string_to_number_or_string ''2134''"
  by (rule numbers_are_coerced) (simp_all add: is_ascii_digit_def digits_val_def)

section \<open>Cookies\<close>

lemma split_join:
  "ss \<noteq> [] \<Longrightarrow> \<forall>s \<in> set ss. d \<notin> set s \<Longrightarrow> d \<notin> set w \<Longrightarrow>
     split_char d (join (d # w) ss) = hd ss # map ((@) w) (tl ss)"
proof (induction ss rule: induct_list012)
  case (3 s t ss)
  then have "split_char d (join (d # w) (t # ss)) = t # map ((@) w) ss" by simp
  moreover have "split_char d (w @ u) = map_hd" if "split_char d u = x # xs" "map_hd = (w @ x) # xs" for u x xs map_hd
    using that \<open>d \<notin> set w\<close> by (induction w arbitrary: map_hd) auto
  ultimately have "split_char d (w @ join (d # w) (t # ss)) = (w @ t) # map ((@) w) ss" by blast
  with 3 show ?case by (simp add: split_char_append)
qed (auto simp: split_char_single)

text \<open>A cookie header: names and values, and what may follow a value after another equals sign.\<close>

definition cookie_text :: "string \<times> string \<times> string \<Rightarrow> string" where
  "cookie_text c = (case c of (k, v, extra) \<Rightarrow> k @ CHR ''='' # v @ extra)"

definition good_cookie :: "string \<times> string \<times> string \<Rightarrow> bool" where
  "good_cookie c \<longleftrightarrow>
     (case c of (k, v, extra) \<Rightarrow>
        k \<noteq> [] \<and> CHR ''='' \<notin> set k \<and> CHR ''='' \<notin> set v \<and> (extra = [] \<or> hd extra = CHR ''='') \<and>
        list_all (\<lambda>ch. visible ch \<and> ch \<noteq> CHR '';'') (k @ v @ extra))"

lemma key_and_value_cookie:
  "good_cookie (k, v, extra) \<Longrightarrow> key_and_value (cookie_text (k, v, extra)) = (k, v)"
proof -
  assume g: "good_cookie (k, v, extra)"
  then have "split_char (CHR ''='') (cookie_text (k, v, extra)) = k # split_char (CHR ''='') (v @ extra)"
    by (simp add: cookie_text_def good_cookie_def split_char_append)
  moreover have "\<exists>vs. split_char (CHR ''='') (v @ extra) = v # vs"
    using g by (cases extra) (auto simp: good_cookie_def split_char_append split_char_single)
  ultimately show ?thesis by (auto simp: key_and_value_def)
qed

lemma cookie_text_plain: "good_cookie c \<Longrightarrow> CHR '';'' \<notin> set (cookie_text c)"
  by (cases c) (auto simp: good_cookie_def cookie_text_def list_all_iff)

lemma trim_cookie: "good_cookie c \<Longrightarrow> trim (cookie_text c) = cookie_text c \<and> trim (CHR '' '' # cookie_text c) = cookie_text c"
proof -
  assume g: "good_cookie c"
  obtain k v extra where c: "c = (k, v, extra)" by (cases c)
  have "visible (CHR ''='')" by (simp add: visible_def)
  then have all: "list_all visible (cookie_text c)" using g by (auto simp: c good_cookie_def cookie_text_def list_all_iff)
  have ne: "cookie_text c \<noteq> []" by (simp add: c cookie_text_def)
  then have "visible (hd (cookie_text c))" "visible (last (cookie_text c))"
    using all by (auto simp: list_all_iff)
  with ne show ?thesis by (simp add: trim_visible trim_space)
qed

text \<open>
  The cookies of a header written as \<^verbatim>\<open>name=value; name=value\<close> are read back by name, the last
  of a name winning; but a value ends at its first equals sign, so one that holds an equals sign, as
  padded base64 does, loses the rest.
\<close>

theorem cookies_are_read:
  assumes "http_laws libs" and "map_of headers ''cookie'' = Some (Some (join ''; '' (map cookie_text cs)))"
    and "cs \<noteq> []" and "\<forall>c \<in> set cs. good_cookie c"
  shows "map_of (parse_cookies_from_headers libs headers) name = map_of (rev (map (\<lambda>(k, v, extra). (k, v)) cs)) name"
proof -
  let ?ts = "map cookie_text cs"
  have "\<forall>s \<in> set ?ts. CHR '';'' \<notin> set s" using assms(4) cookie_text_plain by simp
  then have pieces: "split_char (CHR '';'') (join ''; '' ?ts) = hd ?ts # map ((@) '' '') (tl ?ts)"
    using split_join [of ?ts "CHR '';''" "'' ''"] assms(3) by simp
  have trims: "map (\<lambda>s. key_and_value (trim s)) (hd ?ts # map ((@) '' '') (tl ?ts)) = map (\<lambda>(k, v, extra). (k, v)) cs"
  proof -
    have one: "key_and_value (trim (cookie_text c)) = (case c of (k, v, extra) \<Rightarrow> (k, v))"
      "key_and_value (trim ('' '' @ cookie_text c)) = (case c of (k, v, extra) \<Rightarrow> (k, v))" if "c \<in> set cs" for c
      using assms(4) that trim_cookie [of c] key_and_value_cookie by (cases c; fastforce)+
    obtain c cs' where cs: "cs = c # cs'" using assms(3) by (cases cs) auto
    then show ?thesis unfolding cs list.map list.sel map_map comp_def
      using one by (intro arg_cong2 [where f = Cons] map_cong) (simp_all add: cs)
  qed
  have "parse_cookies_from_headers libs headers =
      hl_hash_order libs (collect_map (map (\<lambda>s. key_and_value (trim s)) (hd ?ts # map ((@) '' '') (tl ?ts))))"
    unfolding parse_cookies_from_headers_def header_text_def assms(2) option.case pieces ..
  then show ?thesis
    using http_laws.ordered_lookup [OF assms(1), of "map (\<lambda>(k, v, extra). (k, v)) cs"] unfolding trims by (simp only:)
qed

theorem cookies_are_read_witness:
  "map_of (parse_cookies_from_headers http_reference [(''cookie'', Some ''sid=YWI==; lang=en'')]) ''sid'' = Some ''YWI''"
proof -
  have "map_of (parse_cookies_from_headers http_reference [(''cookie'', Some ''sid=YWI==; lang=en'')]) ''sid'' =
      map_of (rev (map (\<lambda>(k, v, extra). (k, v)) [(''sid'', ''YWI'', ''==''), (''lang'', ''en'', [])])) ''sid''"
    by (rule cookies_are_read [OF reference_http.http_laws_axioms])
      (simp_all add: cookie_text_def good_cookie_def visible_def)
  then show ?thesis by simp
qed

section \<open>The value\<close>

lemma wf_coerced: "wf_json (string_map_to_json_with_number_coercion m)"
proof -
  have "wf_json (string_to_number_or_string s)" for s
    by (simp add: string_to_number_or_string_def json_int_def split: option.split)
  then show ?thesis
    unfolding string_map_to_json_with_number_coercion_def wf_json_object_iff
    by (auto intro: om_insert_all_wf dest!: om_insert_all_values)
qed

lemma wf_string_map: "wf_json (string_map_json m)"
proof -
  have "wf_json (JString s)" for s by simp
  then show ?thesis unfolding string_map_json_def
  by (auto simp: wf_json_object_iff simp del: wf_json.simps intro: om_insert_all_wf dest!: om_insert_all_values
      split: option.split)
qed

lemma assemble_wf: "wf_json (ra_body a) \<Longrightarrow> wf_json (assemble_request_object a)"
  unfolding assemble_request_object_def Let_def
  by (intro wf_json_insert) (auto simp: wf_coerced wf_string_map intro!: wf_json_insert split: option.split)



end
