(* ===== verification/Server_Properties.thy ===== *)
theory Server_Properties
  imports Server Http_Properties Middleware_Properties
begin

text \<open>
  What the server promises for its routes and requests: which route answers, where feature flags come
  from, that every request is answered, and by what when its pipeline fails.
\<close>

section \<open>Routes\<close>

text \<open>
  The documented behaviour of the path router: an inserted pattern is new, and a match answers the
  value of some pattern.
\<close>

locale path_routing =
  fixes pr :: "('v, 'm) path_router" and patterns :: "'m \<Rightarrow> string \<rightharpoonup> 'v"
  assumes new_law: "patterns (pr_new pr) = Map.empty"
    and insert_law: "pr_insert pr path v m = Some m' \<Longrightarrow> patterns m path = None \<and> patterns m' = (patterns m)(path \<mapsto> v)"
    and at_law: "pr_at pr m path = Some (v, ps) \<Longrightarrow> \<exists>pattern. patterns m pattern = Some v"
begin

lemma insert_route_patterns:
  "patterns (insert_route pr path v m) = patterns m \<or>
   (patterns m path = None \<and> patterns (insert_route pr path v m) = (patterns m)(path \<mapsto> v))"
  using insert_law by (auto simp: insert_route_def split: option.split)

end

text \<open>A router of fixed paths.\<close>

definition fixed_router :: "('v, (string \<times> 'v) list) path_router" where
  "fixed_router = \<lparr> pr_new = [],
     pr_insert = (\<lambda>path v m. if map_of m path = None then Some ((path, v) # m) else None),
     pr_at = (\<lambda>m path. map_option (\<lambda>v. (v, [])) (map_of m path)) \<rparr>"

interpretation fixed: path_routing fixed_router map_of
  by unfold_locales (auto simp: fixed_router_def split: if_splits)

definition router_of :: "string \<Rightarrow> 'm method_routers \<Rightarrow> 'm option" where
  "router_of http_method rs =
     (if http_method = ''GET'' then Some (mr_get rs) else if http_method = ''POST'' then Some (mr_post rs)
      else if http_method = ''PUT'' then Some (mr_put rs) else if http_method = ''DELETE'' then Some (mr_delete rs)
      else None)"

text \<open>A payload that says whether flags can be tested from its pipeline, for one of the routes.\<close>

definition exact_payload :: "('l, 'r, 'w) execution_env \<Rightarrow> route_payload \<Rightarrow> bool" where
  "exact_payload env v \<longleftrightarrow>
     rp_needs_flags v = (\<exists>q. (refers (env_named_pipelines env) (env_behavior env))\<^sup>*\<^sup>* (rp_pipeline v) q \<and> has_flag_step q)"

definition route_of :: "program \<Rightarrow> route list \<Rightarrow> string \<Rightarrow> string \<Rightarrow> route_payload \<Rightarrow> bool" where
  "route_of prog routes http_method path v \<longleftrightarrow>
     (\<exists>r \<in> set routes. rt_method r = http_method \<and> rt_path r = path \<and> route_pipeline prog r = Some (rp_pipeline v))"

lemma router_of_register:
  "router_of http_method (register_route pr meth path v rs) =
     (if http_method = meth then map_option (insert_route pr path v) (router_of http_method rs) else router_of http_method rs)"
  by (auto simp: router_of_def register_route_def)

text \<open>The routers of the server's methods.\<close>

locale route_tables = path_routing pr patterns
  for pr :: "(route_payload, 'm) path_router" and patterns :: "'m \<Rightarrow> string \<rightharpoonup> route_payload"
begin

definition routers_ok :: "(string \<Rightarrow> string \<Rightarrow> route_payload \<Rightarrow> bool) \<Rightarrow> 'm method_routers \<Rightarrow> bool" where
  "routers_ok P rs \<longleftrightarrow>
     (\<forall>http_method m path v. router_of http_method rs = Some m \<longrightarrow> patterns m path = Some v \<longrightarrow> P http_method path v)"

lemma routers_ok_register:
  assumes "routers_ok P rs" and "P meth path v"
  shows "routers_ok P (register_route pr meth path v rs)"
  unfolding routers_ok_def
proof (intro allI impI)
  fix http_method m q u
  assume m: "router_of http_method (register_route pr meth path v rs) = Some m" and u: "patterns m q = Some u"
  show "P http_method q u"
  proof (cases "http_method = meth")
    case True
    then obtain m0 where m0: "router_of http_method rs = Some m0" "m = insert_route pr path v m0"
      using m by (auto simp: router_of_register)
    then have "patterns m0 q = Some u \<or> (q = path \<and> u = v)"
      using insert_route_patterns [of path v m0] u by (auto split: if_splits)
    with m0 assms True show ?thesis by (auto simp: routers_ok_def)
  qed (use m u assms(1) in \<open>auto simp: routers_ok_def router_of_register\<close>)
qed

lemma build_routes_ok:
  assumes "build_routes pr fuel env prog routes rs = Some (Built rs')" and "routers_ok P rs"
    and "\<And>r v. r \<in> set routes \<Longrightarrow> route_pipeline prog r = Some (rp_pipeline v) \<Longrightarrow>
      pipeline_needs_flags fuel (env_named_pipelines env) (env_behavior env) (rp_pipeline v) = Some (rp_needs_flags v) \<Longrightarrow>
      P (rt_method r) (rt_path r) v"
  shows "routers_ok P rs'"
  using assms
proof (induction routes arbitrary: rs)
  case (Cons r routes)
  obtain p b where p: "route_pipeline prog r = Some p"
    "pipeline_needs_flags fuel (env_named_pipelines env) (env_behavior env) p = Some b"
    "build_routes pr fuel env prog routes
       (register_route pr (rt_method r) (rt_path r) \<lparr> rp_pipeline = p, rp_needs_flags = b \<rparr> rs) = Some (Built rs')"
    using Cons.prems(1) by (auto split: option.splits)
  have "P (rt_method r) (rt_path r) \<lparr> rp_pipeline = p, rp_needs_flags = b \<rparr>"
    by (rule Cons.prems(3)) (simp_all add: p)
  from routers_ok_register [OF Cons.prems(2) this] show ?case
    by (rule Cons.IH [OF p(3)]) (rule Cons.prems(3), simp_all)
qed simp

lemma routers_ok_at:
  "routers_ok P rs \<Longrightarrow> router_of http_method rs = Some m \<Longrightarrow> pr_at pr m path = Some (v, ps) \<Longrightarrow> \<exists>q. P http_method q v"
  unfolding routers_ok_def by (drule at_law) blast

lemma routers_ok_new:
  "routers_ok P \<lparr> mr_get = pr_new pr, mr_post = pr_new pr, mr_put = pr_new pr, mr_delete = pr_new pr \<rparr>"
  by (auto simp: routers_ok_def router_of_def new_law split: if_splits)

end

interpretation fixed_tables: route_tables fixed_router map_of
  by unfold_locales


definition sample_sv :: "(cache_entry list_lru, rate_limit_entry list_lru, nat) server" where
  "sample_sv = \<lparr> sv_program = empty_program\<lparr>pr_routes := [\<lparr> rt_method = ''GET'', rt_path = ''/a'',
       rt_pipeline = Inline (Pipeline [RegularStep (sample_step ''cache'' ''keyTemplate:k'')]) \<rparr>]\<rparr>,
     sv_file_path = None, sv_middleware = unavailable, sv_libs = sample_libs, sv_configs = Map.empty,
     sv_platform = sample_platform, sv_environment = None, sv_debugger = None, sv_trace_enabled = False,
     sv_graphql = False \<rparr>"

abbreviation sample_route :: route_payload where
  "sample_route \<equiv> \<lparr> rp_pipeline = Pipeline [RegularStep (sample_step ''cache'' ''keyTemplate:k'')], rp_needs_flags = False \<rparr>"

abbreviation sample_routers :: "(string \<times> route_payload) list method_routers" where
  "sample_routers \<equiv> \<lparr> mr_get = [(''/a'', sample_route)], mr_post = [], mr_put = [], mr_delete = [] \<rparr>"

lemma sample_build: "build_routers fixed_router 3 sample_server sample_sv = Some (Built sample_routers)"
  by code_simp


section \<open>Requests\<close>

lemma attach_without_debugger: "env_debugger env = None \<Longrightarrow> attach_thread env ctx m = (ctx, m)"
  by (simp add: attach_thread_def)

text \<open>A server answers its requests one after the other, on one machine.\<close>

primrec serve ::
  "(http_request \<Rightarrow> ('l, 'r, 'w) machine \<Rightarrow> (http_response \<times> ('l, 'r, 'w) machine) option) \<Rightarrow>
   http_request list \<Rightarrow> ('l, 'r, 'w) machine \<Rightarrow> (http_response list \<times> ('l, 'r, 'w) machine) option" where
  "serve handle [] m = Some ([], m)"
| "serve handle (r # rs) m =
     (case handle r m of
        None \<Rightarrow> None
      | Some (resp, m1) \<Rightarrow> (case serve handle rs m1 of None \<Rightarrow> None | Some (resps, m2) \<Rightarrow> Some (resp # resps, m2)))"

lemma serve_returns:
  assumes "\<And>r m. r \<in> set rs \<Longrightarrow> ok m \<Longrightarrow> \<exists>resp m'. handle r m = Some (resp, m') \<and> ok m'" and "ok m"
  shows "\<exists>resps m'. serve handle rs m = Some (resps, m') \<and> length resps = length rs \<and> ok m'"
  using assms
proof (induction rs arbitrary: m)
  case (Cons r rs)
  from Cons.prems(1) [of r m] Cons.prems(2) obtain resp m1 where 1: "handle r m = Some (resp, m1)" "ok m1" by auto
  from Cons.IH [OF _ 1(2)] Cons.prems(1) obtain resps m2 where "serve handle rs m1 = Some (resps, m2)"
    "length resps = length rs" "ok m2" by auto
  with 1 show ?case by simp
qed simp

text \<open>A fuel that is enough for a pipeline of the given rank.\<close>

definition enough :: "(pipeline \<Rightarrow> nat) \<Rightarrow> nat \<Rightarrow> pipeline \<Rightarrow> bool" where
  "enough rank fuel p \<longleftrightarrow> rank p + 1 + rank p * rank p \<le> fuel"

lemma preflight_returns:
  assumes run: "\<And>p i ctx m. flag_pipeline = Some p \<Longrightarrow> rc_async_registry ctx = Map.empty \<Longrightarrow> ok (cs_inner (mc_cache m)) \<Longrightarrow>
      \<exists>r m'. execute_pipeline env fuel p i ctx m = Some (r, m') \<and> ok (cs_inner (mc_cache m'))"
    and "env_debugger env = None"
    and cut: "\<And>m m'. timed_out m = Some m' \<Longrightarrow> ok (cs_inner (mc_cache m)) \<Longrightarrow> ok (cs_inner (mc_cache m'))"
    and "ok (cs_inner (mc_cache m))"
  shows "\<exists>flags req m'. preflight timed_out fuel env flag_pipeline needed request m = Some (flags, req, m') \<and>
    ok (cs_inner (mc_cache m'))"
proof (cases "if needed then flag_pipeline else None")
  case None
  then show ?thesis using assms(4) by (simp add: preflight_def)
next
  case (Some p)
  then have p: "flag_pipeline = Some p" by (simp split: if_splits)
  let ?ctx = "request_context_new\<lparr>rc_feature_flags := [], rc_request := request\<rparr>"
  have "rc_async_registry ?ctx = Map.empty" by (simp add: request_context_new_def)
  from run [OF p this assms(4)] obtain r m1 where r: "execute_pipeline env fuel p request ?ctx m = Some (r, m1)"
    "ok (cs_inner (mc_cache m1))" by blast
  show ?thesis
  proof (cases "timed_out m")
    case None
    with r Some show ?thesis
      by (cases r) (auto simp: preflight_def create_request_context_def attach_without_debugger [OF assms(2)])
  next
    case (Some m2)
    with cut [OF Some assms(4)] \<open>(if needed then flag_pipeline else None) = Some p\<close> show ?thesis
      by (auto simp: preflight_def create_request_context_def attach_without_debugger [OF assms(2)])
  qed
qed

lemma respond_returns:
  fixes m :: "('l, 'r, 'w) machine"
  assumes run: "\<And>p i ctx m. p = rp_pipeline payload \<or> flag_pipeline = Some p \<Longrightarrow> rc_async_registry ctx = Map.empty \<Longrightarrow>
      ok (cs_inner (mc_cache m)) \<Longrightarrow>
      \<exists>r m'. execute_pipeline env fuel p i ctx m = Some (r, m') \<and> ok (cs_inner (mc_cache m'))"
    and "env_debugger env = None"
    and "\<And>m m'. timed_out m = Some m' \<Longrightarrow> ok (cs_inner (mc_cache m)) \<Longrightarrow> ok (cs_inner (mc_cache m'))"
    and "ok (cs_inner (mc_cache m))"
  shows "\<exists>resp m'. respond_with_pipeline timed_out fuel rl libs env flag_pipeline trace http_method path request payload m =
    Some (resp, m') \<and> ok (cs_inner (mc_cache m'))"
proof -
  have "\<exists>flags req m1. preflight timed_out fuel env flag_pipeline (rp_needs_flags payload) request m = Some (flags, req, m1) \<and>
      ok (cs_inner (mc_cache m1))"
    by (rule preflight_returns [OF run]) (use assms(2,3,4) in \<open>simp_all\<close>)
  then obtain flags req m1 where pre: "preflight timed_out fuel env flag_pipeline (rp_needs_flags payload) request m = Some (flags, req, m1)"
    "ok (cs_inner (mc_cache m1))" by blast
  obtain start w where now: "pl_now (env_platform env) (mc_world m1) = (start, w)" by force
  define ctx :: "'w request_context" where "ctx = (let c = request_context_new\<lparr>rc_feature_flags := flags, rc_request := req\<rparr>
    in c\<lparr>rc_profiler := profiler_push (http_method @ '' '' @ path) (rc_profiler c)\<rparr>)"
  have "rc_async_registry ctx = Map.empty" by (simp add: ctx_def request_context_new_def)
  moreover have "ok (cs_inner (mc_cache (m1\<lparr>mc_world := w\<rparr>)))" using pre by simp
  ultimately obtain r m2 where r: "execute_pipeline env fuel (rp_pipeline payload) req ctx (m1\<lparr>mc_world := w\<rparr>) = Some (r, m2)"
    "ok (cs_inner (mc_cache m2))"
    using run [of "rp_pipeline payload" ctx "m1\<lparr>mc_world := w\<rparr>" req] by blast
  show ?thesis
    using pre now r
    by (cases r) (auto simp: ctx_def respond_with_pipeline_def create_request_context_def attach_without_debugger [OF assms(2)]
        Let_def split: prod.splits)
qed


section \<open>Who the user is\<close>

lemma request_has_no_user:
  "fst (build_request_from_axum_with_ip libs http_method headers path params query body ip) = JObject o' \<Longrightarrow>
   map_of o' ''user'' = None"
  by (auto simp: build_request_from_axum_with_ip_def Let_def assemble_request_object_def split: option.splits)

lemma request_is_object:
  "\<exists>o'. fst (build_request_from_axum_with_ip libs http_method headers path params query body ip) = JObject o'"
  by (simp add: build_request_from_axum_with_ip_def Let_def assemble_request_object_def)

text \<open>
  C4: A client cannot claim to be a user nor switch a flag on: the request value a route's pipeline
  gets has a \<^verbatim>\<open>user\<close>, and its run has flags, only if the flag pipeline ran on this request to its end,
  and then exactly those; everything else of the request is as the client sent it. When the flag
  pipeline fails or runs out of time there is no user and no flag.
\<close>

theorem only_the_flag_pipeline_grants:
  assumes "request = fst (build_request_from_axum_with_ip hl http_method headers path params query body ip)"
    and "preflight timed_out fuel env flag_pipeline needed request m = Some (flags, req, m')"
  shows "(\<forall>k. k \<noteq> ''user'' \<longrightarrow> json_get k req = json_get k request) \<and>
    ((flags = [] \<and> json_get ''user'' req = None) \<or>
     (\<exists>p ctx m1 result ct st ctx'. needed \<and> flag_pipeline = Some p \<and>
        rc_feature_flags ctx = [] \<and> rc_request ctx = request \<and>
        execute_pipeline env fuel p request ctx m1 = Some (Inr (result, ct, st, ctx'), m') \<and>
        flags = rc_feature_flags ctx' \<and> json_get ''user'' req = json_get ''user'' result))"
proof -
  obtain o' where o: "request = JObject o'" "map_of o' ''user'' = None"
    using request_is_object request_has_no_user unfolding assms(1) by blast
  show ?thesis
  proof (cases "if needed then flag_pipeline else None")
    case None
    with assms(2) have "flags = []" "req = request" by (simp_all add: preflight_def)
    with o show ?thesis by simp
  next
    case (Some p)
    then have p: "needed" "flag_pipeline = Some p" by (simp_all split: if_splits)
    obtain ctx m1 where c: "create_request_context env [] request m = (ctx, m1)" by force
    then have ctx: "rc_feature_flags ctx = []" "rc_request ctx = request"
      by (auto simp: create_request_context_def attach_thread_def split: option.splits prod.splits)
    show ?thesis
    proof (cases "timed_out m1")
      case (Some m2)
      with assms(2) p c have "flags = []" "req = request" by (simp_all add: preflight_def)
      with o show ?thesis by simp
    next
      case None
      then obtain r m2 where r: "execute_pipeline env fuel p request ctx m1 = Some (r, m2)"
        using assms(2) p c by (auto simp: preflight_def split: option.splits)
      show ?thesis
      proof (cases r)
        case (Inl e)
        with assms(2) p c None r have "flags = []" "req = request" by (simp_all add: preflight_def)
        with o show ?thesis by simp
      next
        case (Inr x)
        obtain result ct st ctx' where x: "x = (result, ct, st, ctx')" by (cases x)
        have out: "flags = rc_feature_flags ctx'" "m' = m2" "req =
            (case json_get ''user'' result of None \<Rightarrow> request | Some user \<Rightarrow> map_object (om_insert ''user'' user) request)"
          using assms(2) p c None r Inr x by (simp_all add: preflight_def)
        have "json_get ''user'' req = json_get ''user'' result" "k \<noteq> ''user'' \<longrightarrow> json_get k req = json_get k request" for k
          using out(3) o by (auto split: option.splits)
        with out p ctx r Inr x show ?thesis by blast
      qed
    qed
  qed
qed

section \<open>The headers of a response\<close>

text \<open>The headers a pipeline's result sets, in the order they are applied.\<close>

definition accepted_headers :: "response_libs \<Rightarrow> json \<Rightarrow> (string \<times> string) list" where
  "accepted_headers rl result =
     (case Option.bind (json_get ''setHeaders'' result) as_object of
        None \<Rightarrow> []
      | Some o' \<Rightarrow> List.map_filter (\<lambda>(k, v).
          case (as_str v, rl_header_name rl k) of
            (Some s, Some name) \<Rightarrow> if rl_header_value rl s then Some (name, s) else None
          | _ \<Rightarrow> None) o')"

definition values_of :: "string \<Rightarrow> (string \<times> string) list \<Rightarrow> string list" where
  "values_of name hs = map snd (filter (\<lambda>h. fst h = name) hs)"

lemma values_of_insert: "values_of name (header_insert k v hs) = (if name = k then [v] else values_of name hs)"
  by (auto simp: values_of_def header_insert_def filter_empty_conv intro!: arg_cong [where f = "map snd"] filter_cong)

lemma values_of_fold:
  "values_of name (fold (\<lambda>(k, v). header_insert k v) kvs hs) =
     (case values_of name kvs of [] \<Rightarrow> values_of name hs | vs \<Rightarrow> [last vs])"
proof (induction kvs arbitrary: hs)
  case Nil
  then show ?case by (simp add: values_of_def)
next
  case (Cons kv kvs)
  obtain k v where kv: "kv = (k, v)" by (cases kv)
  have "values_of name (kv # kvs) = (if k = name then v # values_of name kvs else values_of name kvs)"
    by (simp add: values_of_def kv)
  then show ?case using Cons by (auto simp: kv values_of_insert split: list.splits)
qed

lemma add_custom_headers_eq:
  "add_custom_headers rl result hs = fold (\<lambda>(k, v). header_insert k v) (accepted_headers rl result) hs"
proof -
  have "fold (\<lambda>(k, v) acc. case (as_str v, rl_header_name rl k) of
        (Some s, Some name) \<Rightarrow> if rl_header_value rl s then header_insert name s acc else acc | _ \<Rightarrow> acc) o' hs =
      fold (\<lambda>(k, v). header_insert k v) (List.map_filter (\<lambda>(k, v). case (as_str v, rl_header_name rl k) of
        (Some s, Some name) \<Rightarrow> if rl_header_value rl s then Some (name, s) else None | _ \<Rightarrow> None) o') hs" for o'
    by (induction o' arbitrary: hs) (auto simp: map_filter_simps split: option.splits)
  then show ?thesis by (simp add: add_custom_headers_def accepted_headers_def split: option.split)
qed

text \<open>The cookies a result sets.\<close>

definition accepted_cookies :: "response_libs \<Rightarrow> json \<Rightarrow> string list" where
  "accepted_cookies rl result =
     (case Option.bind (json_get ''setCookies'' result) as_array of
        None \<Rightarrow> [] | Some cs \<Rightarrow> filter (rl_header_value rl) (List.map_filter as_str cs))"

lemma values_of_cookies:
  "values_of name (add_cookies rl result hs) =
     values_of name hs @ (if name = ''set-cookie'' then accepted_cookies rl result else [])"
  by (auto simp: values_of_def add_cookies_def accepted_cookies_def filter_map o_def split: option.split)

text \<open>The content types a response has.\<close>

definition served_type :: "string \<Rightarrow> string" where
  "served_type content_type =
     (if starts_with ''text/html'' content_type then ''text/html; charset=utf-8''
      else if starts_with ''image/svg+xml'' content_type then ''image/svg+xml''
      else if starts_with ''image/png'' content_type then ''image/png''
      else ''application/json'')"

lemma base_response_headers:
  "resp_headers (base_response rl to_text status result content_type) = [(''content-type'', served_type content_type)]"
  by (simp add: base_response_def typed_response_def served_type_def Let_def)

text \<open>
  The headers of a successful response: a header the result sets in \<^verbatim>\<open>setHeaders\<close> occurs once,
  with the last value set for it, and stands for everything else under that name, the content type and
  the cookies included; otherwise every cookie the result sets is there, in order, none overwriting
  another, next to one content type and nothing else. An invalid name or value is dropped alone.
\<close>

theorem response_header_values:
  "values_of name (resp_headers (success_response rl to_text result content_type status)) =
    (case values_of name (accepted_headers rl result) of
       [] \<Rightarrow> (if name = ''content-type'' then [served_type content_type]
              else if name = ''set-cookie'' then accepted_cookies rl result else [])
     | vs \<Rightarrow> [last vs])"
proof -
  have "values_of n [(''content-type'', v)] = (if n = ''content-type'' then [v] else [])" for n v
    by (simp add: values_of_def)
  then show ?thesis
    by (simp add: success_response_def Let_def add_custom_headers_eq values_of_fold values_of_cookies
        base_response_headers split: list.split)
qed

section \<open>The properties at work\<close>

definition sample_response_libs :: response_libs where
  "sample_response_libs = \<lparr> rl_valid_status = (\<lambda>s. True), rl_header_name = Some, rl_header_value = (\<lambda>v. True),
     rl_base64_decode = Some, rl_percent_decode_lossy = (\<lambda>s. s) \<rparr>"

definition no_files :: static_os where
  "no_files = \<lparr> so_public_dir = None, so_canonicalize = (\<lambda>p. None), so_exists = (\<lambda>p. False),
     so_read_bytes = (\<lambda>p. None), so_percent_decode = (\<lambda>p. None) \<rparr>"

definition served_state :: "(cache_entry list_lru, rate_limit_entry list_lru, nat, (string \<times> route_payload) list) server_state" where
  "served_state = \<lparr> ss_router = fixed_router, ss_routers = sample_routers,
     ss_env = with_registry sample_libs Map.empty unavailable sample_server, ss_feature_flags = None,
     ss_trace_enabled = False \<rparr>"

definition plain_request :: "string \<Rightarrow> string \<Rightarrow> http_request" where
  "plain_request http_method path = \<lparr> hr_method = http_method, hr_headers = [], hr_path = path, hr_query = [],
     hr_body = [], hr_remote_ip = None \<rparr>"

lemma no_static: "try_serve_static no_files path = None"
  by (simp add: try_serve_static_def normalize_static_path_def no_files_def)


theorem only_the_flag_pipeline_grants_witness:
  "json_get ''user'' (fst (snd (the (preflight (\<lambda>m. None) 1 sample_env (Some (Pipeline [])) True
     (fst (build_request_from_axum_with_ip http_reference ''GET'' [] ''/'' [] [] [] None)) sample_machine)))) = None"
proof -
  let ?r = "fst (build_request_from_axum_with_ip http_reference ''GET'' [] ''/'' [] [] [] None)"
  obtain flags req m' where p: "preflight (\<lambda>m. None) 1 sample_env (Some (Pipeline [])) True ?r sample_machine = Some (flags, req, m')"
    by (simp add: preflight_def create_request_context_def attach_thread_def sample_env_def execute_pipeline_def
        run_steps_def finish_run_def run_pending_cache_saves_def pipeline_context_new_def)
  obtain o' where o: "?r = JObject o'" "map_of o' ''user'' = None" using request_is_object request_has_no_user by blast
  have "json_get ''user'' req = None"
    using only_the_flag_pipeline_grants [OF refl p] o
    by (auto simp: execute_pipeline_def run_steps_def finish_run_def run_pending_cache_saves_def pipeline_context_new_def
        split: option.splits sum.splits prod.splits)
  then show ?thesis by (simp only: p option.sel fst_conv snd_conv)
qed

end
