(* ===== verification/Test_Mocks.thy ===== *)
theory Test_Mocks
  imports Middleware Text_Scan
begin

text \<open>
  The mocks of a test run (\<^verbatim>\<open>src/test_runner.rs\<close>): the resolver built from the
  \<^verbatim>\<open>with mock\<close> clauses, the lookups, the invoker that answers with a mock before the registry,
  and the jq expressions of a test over its \<^verbatim>\<open>let\<close> variables. Handlebars, regular
  expressions, the HTML parser with its selectors, JSON text and Unicode case are arguments.
\<close>

section \<open>Libraries\<close>

text \<open>An element a selector finds: its text nodes and its attributes.\<close>

record element =
  el_text :: "string list"
  el_attr :: "string \<Rightarrow> string option"

record test_libs =
  tl_from_str :: "string \<Rightarrow> json option"
  tl_render :: "string \<Rightarrow> json_map \<Rightarrow> string + string"
  tl_regex :: "string \<Rightarrow> string + (string \<Rightarrow> bool)"
  tl_select :: "string \<Rightarrow> string \<Rightarrow> string + element list"
  tl_pretty :: "json \<Rightarrow> string"
  tl_debug :: "json \<Rightarrow> string"
  tl_lower :: "string \<Rightarrow> string"
  tl_upper :: "string \<Rightarrow> string"
  tl_jaq :: "string \<Rightarrow> json \<Rightarrow> jaq_outcome"
  tl_to_text :: "json \<Rightarrow> string"
  tl_mock_order :: "((string \<times> string) \<times> json) list \<Rightarrow> ((string \<times> string) \<times> json) list"

section \<open>Values written in a test\<close>

text \<open>What stands between the first and the last backtick, if there are two.\<close>

definition between_backticks :: "string \<Rightarrow> string" where
  "between_backticks s =
     (let trimmed = trim s
      in case (find_sub [CHR 0x60] trimmed, rfind_char (CHR 0x60) trimmed) of
           (Some i, Some j) \<Rightarrow> if j > i then drop (Suc i) (take j trimmed) else trimmed
         | _ \<Rightarrow> trimmed)"

definition parse_backticked_json :: "test_libs \<Rightarrow> string \<Rightarrow> json" where
  "parse_backticked_json lib s =
     (case tl_from_str lib (between_backticks s) of Some v \<Rightarrow> v | None \<Rightarrow> JString (between_backticks s))"

definition jq_program :: "json_map \<Rightarrow> string \<Rightarrow> string" where
  "jq_program vars content = concat (map (\<lambda>(name, _). ''.'' @ name @ '' as $'' @ name @ '' | '') vars) @ content"

definition evaluate_jq_input_with_role ::
  "test_libs \<Rightarrow> string \<Rightarrow> json_map \<Rightarrow> string \<Rightarrow> web_pipe_error + json" where
  "evaluate_jq_input_with_role lib expr vars role =
     (let content = between_backticks expr
      in case jq_evaluate (tl_jaq lib) (jq_program vars content) (JObject vars) of
           Inl e \<Rightarrow> Inl (BadRequest (''JQ error in '' @ role @ '' '' @ [CHR 0x60] @ trim content @ [CHR 0x60] @
                                   '': '' @ error_to_string e))
         | Inr v \<Rightarrow> Inr v)"

definition evaluate_jq_input :: "test_libs \<Rightarrow> string \<Rightarrow> json_map \<Rightarrow> web_pipe_error + json" where
  "evaluate_jq_input lib expr vars = evaluate_jq_input_with_role lib expr vars ''test input''"

section \<open>The resolver\<close>

record mock_resolver =
  mk_middleware :: "(string \<times> json) list"
  mk_variable :: "((string \<times> string) \<times> json) list"
  mk_pipeline :: "(string \<times> json) list"

definition empty_mocks :: mock_resolver where
  "empty_mocks = \<lparr> mk_middleware = [], mk_variable = [], mk_pipeline = [] \<rparr>"

definition add_mock :: "mock \<Rightarrow> json \<Rightarrow> mock_resolver \<Rightarrow> mock_resolver" where
  "add_mock m v r =
     (case split_once ''.'' (mock_target m) of
        Some (left, right) \<Rightarrow>
          if left = ''pipeline'' then r\<lparr>mk_pipeline := hash_insert right v (mk_pipeline r)\<rparr>
          else r\<lparr>mk_variable := hash_insert (left, right) v (mk_variable r)\<rparr>
      | None \<Rightarrow> r\<lparr>mk_middleware := hash_insert (mock_target m) v (mk_middleware r)\<rparr>)"

primrec add_mocks :: "test_libs \<Rightarrow> json_map \<Rightarrow> mock list \<Rightarrow> mock_resolver \<Rightarrow> web_pipe_error + mock_resolver" where
  "add_mocks lib vars [] r = Inr r"
| "add_mocks lib vars (m # ms) r =
     (case evaluate_jq_input lib (mock_return_value m) vars of
        Inl e \<Rightarrow> Inl e
      | Inr v \<Rightarrow> add_mocks lib vars ms (add_mock m v r))"

definition from_mocks :: "test_libs \<Rightarrow> mock list \<Rightarrow> json_map \<Rightarrow> web_pipe_error + mock_resolver" where
  "from_mocks lib ms vars = add_mocks lib vars ms empty_mocks"

text \<open>\<^verbatim>\<open>HashMap::extend\<close>.\<close>

definition hash_extend :: "('k \<times> 'v) list \<Rightarrow> ('k \<times> 'v) list \<Rightarrow> ('k \<times> 'v) list" where
  "hash_extend m new = fold (\<lambda>(k, v) acc. hash_insert k v acc) new m"

definition overlay :: "mock_resolver \<Rightarrow> mock_resolver \<Rightarrow> mock_resolver" where
  "overlay r other =
     \<lparr> mk_middleware = hash_extend (mk_middleware r) (mk_middleware other),
       mk_variable = hash_extend (mk_variable r) (mk_variable other),
       mk_pipeline = hash_extend (mk_pipeline r) (mk_pipeline other) \<rparr>"

definition get_pipeline_mock :: "mock_resolver \<Rightarrow> string \<Rightarrow> json option" where
  "get_pipeline_mock r name = map_of (mk_pipeline r) name"

text \<open>\<^verbatim>\<open>str::rfind\<close> with a string.\<close>

definition rfind_sub :: "string \<Rightarrow> string \<Rightarrow> nat option" where
  "rfind_sub p s = map_option (\<lambda>i. length s - length p - i) (find_sub (rev p) (rev s))"

definition scoped_name :: "string \<Rightarrow> string option" where
  "scoped_name s = map_option (\<lambda>i. drop (i + 2) s) (rfind_sub ''::'' s)"

definition variable_mock :: "test_libs \<Rightarrow> mock_resolver \<Rightarrow> string \<Rightarrow> string \<Rightarrow> json option" where
  "variable_mock lib r middleware name =
     (case map_of (mk_variable r) (middleware, name) of
        Some v \<Rightarrow> Some v
      | None \<Rightarrow> map_option snd
          (find (\<lambda>((mw, mock_var), _). mw = middleware \<and> scoped_name mock_var = Some name)
             (tl_mock_order lib (mk_variable r))))"

definition result_name :: "json \<Rightarrow> string option" where
  "result_name input = Option.bind (json_get ''resultName'' input) as_str"

definition get_middleware_mock :: "test_libs \<Rightarrow> mock_resolver \<Rightarrow> string \<Rightarrow> json \<Rightarrow> json option" where
  "get_middleware_mock lib r middleware input =
     (case Option.bind (result_name input) (variable_mock lib r middleware) of
        Some v \<Rightarrow> Some v
      | None \<Rightarrow> map_of (mk_middleware r) middleware)"

definition get_mock_by_key :: "test_libs \<Rightarrow> mock_resolver \<Rightarrow> string \<Rightarrow> json option" where
  "get_mock_by_key lib r key =
     (let level = map_of (mk_middleware r) key
      in case split_once ''.'' key of
           None \<Rightarrow> level
         | Some (prefix, name) \<Rightarrow>
             if prefix = ''pipeline'' then map_of (mk_pipeline r) name
             else
               (case map_of (mk_variable r) (prefix, name) of
                  Some v \<Rightarrow> Some v
                | None \<Rightarrow>
                    (case if tl_lower lib prefix \<noteq> prefix then map_of (mk_variable r) (tl_lower lib prefix, name) else None of
                       Some v \<Rightarrow> Some v
                     | None \<Rightarrow> level)))"

section \<open>The invoker\<close>

definition mocking_invoker ::
  "test_libs \<Rightarrow> mock_resolver \<Rightarrow> ('l, 'r, 'w) invoker \<Rightarrow> ('l, 'r, 'w) invoker" where
  "mocking_invoker lib mocks registry name args config target pc m =
     (case get_middleware_mock lib mocks name (pc_state pc) of
        Some v \<Rightarrow> (Inr default_output, pc\<lparr>pc_state := v\<rparr>, m)
      | None \<Rightarrow> registry name args config target pc m)"

definition mocked_env ::
  "test_libs \<Rightarrow> mock_resolver \<Rightarrow> ('l, 'r, 'w) execution_env \<Rightarrow> ('l, 'r, 'w) execution_env" where
  "mocked_env lib mocks env = env\<lparr>env_invoker := mocking_invoker lib mocks (env_invoker env)\<rparr>"

end
