(* ===== verification/Test_Conditions.thy ===== *)
theory Test_Conditions
  imports Test_Mocks
begin

text \<open>
  The assertions of a test (\<^verbatim>\<open>src/test_runner.rs\<close>, the loop over \<^verbatim>\<open>test.conditions\<close>): calls,
  status, content type, output, headers and elements of the page. An assertion holds, fails with a
  message, ends the test with an error, or panics.
\<close>

datatype verdict = Holds | Fails string | Errs web_pipe_error | Panics

definition sq :: "string \<Rightarrow> string" where
  "sq s = [CHR 0x27] @ s @ [CHR 0x27]"

definition backticked :: "string \<Rightarrow> string" where
  "backticked s = [CHR 0x60] @ s @ [CHR 0x60]"

definition holds_if :: "bool \<Rightarrow> string \<Rightarrow> verdict" where
  "holds_if b message = (if b then Holds else Fails message)"

section \<open>Comparing values\<close>

lemma size_snd_entry [termination_simp]: "(k, v) \<in> set m \<Longrightarrow> size v < Suc (size_list (size_prod (\<lambda>_. 0) size) m)"
  by (erule size_list_estimation [THEN less_SucI]) simp

fun deep_contains :: "json \<Rightarrow> json \<Rightarrow> bool" where
  "deep_contains (JObject ao) (JObject eo) =
     (\<forall>(k, ev) \<in> set eo. case map_of ao k of None \<Rightarrow> False | Some av \<Rightarrow> deep_contains av ev)"
| "deep_contains (JArray aa) (JArray ea) =
     (\<forall>ev \<in> set ea. \<exists>av \<in> set aa. json_eq av ev \<or> deep_contains av ev)"
| "deep_contains (JString a) (JString e) = contains_sub e a"
| "deep_contains actual expected = json_eq actual expected"

definition value_to_string :: "test_libs \<Rightarrow> json \<Rightarrow> string" where
  "value_to_string lib v = (case v of JString s \<Rightarrow> s | _ \<Rightarrow> tl_to_text lib v)"

section \<open>Calls\<close>

definition find_calls :: "test_libs \<Rightarrow> json list omap \<Rightarrow> string \<Rightarrow> json list option" where
  "find_calls lib call_log key =
     (case map_of call_log key of
        Some calls \<Rightarrow> Some calls
      | None \<Rightarrow>
          (case split_once ''.'' key of
             None \<Rightarrow> None
           | Some (prefix, suffix) \<Rightarrow>
               if prefix = [] then None
               else (let c = first_char prefix
                     in map_of call_log (tl_upper lib c @ drop (length c) prefix @ ''.'' @ suffix))))"

definition check_call :: "test_libs \<Rightarrow> json_map \<Rightarrow> json list omap \<Rightarrow> test_condition \<Rightarrow> verdict" where
  "check_call lib vars call_log c =
     (case tc_call_target c of
        None \<Rightarrow> Holds
      | Some target \<Rightarrow>
          (case evaluate_jq_input_with_role lib (tc_value c) vars (''call assertion '' @ backticked target) of
             Inl e \<Rightarrow> Errs e
           | Inr expected \<Rightarrow>
               (case find_calls lib call_log target of
                  None \<Rightarrow> Fails (target @ '' was never called'')
                | Some calls \<Rightarrow>
                    holds_if (\<exists>call \<in> set calls. deep_contains call expected)
                      (''Expected '' @ target @ '' to be called with '' @ tl_debug lib expected @
                       '', but no matching call found''))))"

section \<open>Status and content type\<close>

definition check_status_is :: "u16 \<Rightarrow> string \<Rightarrow> verdict" where
  "check_status_is status val_str =
     (case parse_uint 16 val_str of
        None \<Rightarrow> Fails (''invalid expected status: '' @ val_str)
      | Some expected \<Rightarrow>
          holds_if (unat status = expected)
            (''expected status '' @ show_nat expected @ '' got '' @ show_nat (unat status)))"

definition check_status_in :: "u16 \<Rightarrow> string \<Rightarrow> verdict" where
  "check_status_in status val_str =
     (case split_str ''..'' val_str of
        [from, to] \<Rightarrow>
          (case (parse_uint 16 (trim from), parse_uint 16 (trim to)) of
             (Some a, Some b) \<Rightarrow>
               holds_if (a \<le> unat status \<and> unat status \<le> b)
                 (''expected status in '' @ show_nat a @ ''..'' @ show_nat b @ '' got '' @ show_nat (unat status))
           | _ \<Rightarrow> Fails (''invalid status range: '' @ val_str))
      | _ \<Rightarrow> Fails (''invalid status range: '' @ val_str))"

definition check_content_type :: "string \<Rightarrow> string \<Rightarrow> verdict" where
  "check_content_type content_type val_str =
     (let expected = trim_end_char (CHR 0x22) (trim_start_char (CHR 0x22) val_str)
      in holds_if (content_type = expected) (''expected contentType '' @ expected @ '' got '' @ content_type))"

section \<open>Output\<close>

definition check_matches :: "test_libs \<Rightarrow> string \<Rightarrow> string \<Rightarrow> string \<Rightarrow> verdict" where
  "check_matches lib pattern hay message =
     (case tl_regex lib pattern of
        Inl e \<Rightarrow> Errs (BadRequest (''invalid regex: '' @ e))
      | Inr is_match \<Rightarrow> holds_if (is_match hay) message)"

definition check_output ::
  "test_libs \<Rightarrow> bool \<Rightarrow> json \<Rightarrow> string option \<Rightarrow> string \<Rightarrow> string \<Rightarrow> verdict" where
  "check_output lib verbose output_value jq_expr op val_str =
     (let actual_line = (if verbose then [newline] @ ''Actual output: '' @ tl_pretty lib output_value else []);
          selected = (case jq_expr of None \<Rightarrow> Inr output_value
            | Some expr \<Rightarrow>
                (case jq_evaluate (tl_jaq lib) expr output_value of
                   Inr v \<Rightarrow> Inr v
                 | Inl e \<Rightarrow> Inl (''output assertion '' @ backticked (trim expr) @ '' '' @ op @ '' '' @ val_str @
                     '': '' @ error_to_string e @ actual_line)));
          expected = parse_backticked_json lib val_str
      in case selected of
           Inl message \<Rightarrow> Fails message
         | Inr target \<Rightarrow>
             if op = ''equals'' then
               holds_if (json_eq target expected)
                 (if verbose then ''output mismatch'' @ [newline] @ ''Expected: '' @ tl_pretty lib expected @
                    [newline] @ ''Actual: '' @ tl_pretty lib target
                  else ''output mismatch'')
             else if op = ''contains'' then
               holds_if (deep_contains target expected)
                 (if verbose then ''output missing expected fragment'' @ [newline] @ ''Expected to contain: '' @
                    tl_pretty lib expected @ [newline] @ ''Actual output: '' @ tl_pretty lib target
                  else ''output missing expected fragment'')
             else check_matches lib (value_to_string lib expected) (value_to_string lib target) ''output does not match regex'')"

section \<open>Headers\<close>

definition response_header :: "test_libs \<Rightarrow> json \<Rightarrow> string \<Rightarrow> string option" where
  "response_header lib output_value name =
     (if tl_lower lib name = ''set-cookie'' then
        map_option (\<lambda>cookies. join ''; '' (List.map_filter as_str cookies))
          (Option.bind (json_get ''setCookies'' output_value) as_array)
      else
        (case Option.bind (Option.bind (json_get ''setHeaders'' output_value) (json_get name)) as_str of
           Some s \<Rightarrow> Some s
         | None \<Rightarrow> Option.bind (json_get name output_value) as_str))"

definition check_header :: "test_libs \<Rightarrow> json \<Rightarrow> string option \<Rightarrow> string \<Rightarrow> string \<Rightarrow> verdict" where
  "check_header lib output_value header_name op val_str =
     (case header_name of
        None \<Rightarrow> Fails ''header assertion requires header name''
      | Some name \<Rightarrow>
          (let expected = value_to_string lib (parse_backticked_json lib val_str);
               found = response_header lib output_value name;
               missing = Fails (''header '' @ sq name @ '' not found'')
           in if op = ''contains'' then
                (case found of None \<Rightarrow> missing
                 | Some actual \<Rightarrow> holds_if (contains_sub expected actual)
                     (''header '' @ sq name @ '' does not contain '' @ sq expected))
              else if op = ''equals'' then
                (case found of None \<Rightarrow> missing
                 | Some actual \<Rightarrow> holds_if (actual = expected)
                     (''header '' @ sq name @ '' expected '' @ sq expected @ '' got '' @ sq actual))
              else
                (case tl_regex lib expected of
                   Inl e \<Rightarrow> Errs (BadRequest (''invalid regex: '' @ e))
                 | Inr is_match \<Rightarrow>
                     (case found of None \<Rightarrow> missing
                      | Some actual \<Rightarrow> holds_if (is_match actual)
                          (''header '' @ sq name @ '' does not match pattern '' @ sq expected)))))"

section \<open>Elements\<close>

definition regex_or_false :: "test_libs \<Rightarrow> string \<Rightarrow> string \<Rightarrow> bool" where
  "regex_or_false lib pattern hay = (case tl_regex lib pattern of Inl e \<Rightarrow> False | Inr is_match \<Rightarrow> is_match hay)"

definition text_matches :: "test_libs \<Rightarrow> string \<Rightarrow> string \<Rightarrow> string \<Rightarrow> bool" where
  "text_matches lib cmp val_str text =
     (if cmp = ''equals'' \<or> cmp = ''is'' then text = val_str
      else if cmp = ''contains'' then contains_sub val_str text
      else if cmp = ''matches'' then regex_or_false lib val_str text
      else False)"

text \<open>Whether the comparison matches, and whether it is a negated one.\<close>

definition attr_matches :: "test_libs \<Rightarrow> string \<Rightarrow> string \<Rightarrow> string \<Rightarrow> bool \<times> bool" where
  "attr_matches lib cmp val_str attr_value =
     (if cmp = ''equals'' \<or> cmp = ''is'' then (attr_value = val_str, False)
      else if cmp = ''contains'' then (contains_sub val_str attr_value, False)
      else if cmp = ''matches'' then (regex_or_false lib val_str attr_value, False)
      else if cmp = ''does not equal'' then (attr_value = val_str, True)
      else if cmp = ''does not contain'' then (contains_sub val_str attr_value, True)
      else if cmp = ''does not match'' then (regex_or_false lib val_str attr_value, True)
      else (False, False))"

definition check_attribute :: "test_libs \<Rightarrow> string \<Rightarrow> string \<Rightarrow> string \<Rightarrow> string \<Rightarrow> element \<Rightarrow> verdict" where
  "check_attribute lib selector_str attr_name cmp val_str el =
     (case el_attr el attr_name of
        None \<Rightarrow> Fails (''Selector '' @ sq selector_str @ '' found but attribute '' @ sq attr_name @ '' not present'')
      | Some attr_value \<Rightarrow>
          (let (matches, is_negated) = attr_matches lib cmp val_str attr_value;
               op_desc = (if is_negated \<and> matches then ''matches'' else ''doesn'' @ [CHR 0x27] @ ''t match'')
           in holds_if (\<not> (if is_negated then matches else \<not> matches))
                (''Selector '' @ sq selector_str @ '' attribute '' @ sq attr_name @ '' = '' @ sq attr_value @ '' '' @
                 op_desc @ '' expected condition '' @ sq (cmp @ '' '' @ val_str))))"

definition check_dom ::
  "test_libs \<Rightarrow> string \<Rightarrow> string \<Rightarrow> string \<Rightarrow> dom_assert_type \<Rightarrow> element list \<Rightarrow> verdict" where
  "check_dom lib selector_str cmp val_str dom_assert found =
     (let missing = Fails (''Selector '' @ sq selector_str @ '' not found in HTML'')
      in case dom_assert of
        DomExists \<Rightarrow>
          (let describe = (\<lambda>b. if b then ''exists'' else ''does not exist''); expected = (cmp = ''exists'')
           in holds_if ((found \<noteq> []) = expected)
                (''Selector '' @ sq selector_str @ '' '' @ describe (found \<noteq> []) @ '' (expected: '' @ describe expected @ '')''))
      | DomCount \<Rightarrow>
          (let count = length found; expected = (case parse_uint 64 (trim val_str) of Some n \<Rightarrow> n | None \<Rightarrow> 0)
           in holds_if (if cmp = ''equals'' \<or> cmp = ''is'' then count = expected
                        else if cmp = ''is greater than'' \<or> cmp = ''greater than'' then count > expected
                        else if cmp = ''is less than'' \<or> cmp = ''less than'' then count < expected
                        else False)
                (''Selector '' @ sq selector_str @ '' count is '' @ show_nat count @ '' (expected '' @ cmp @ '' '' @
                 show_nat expected @ '')''))
      | DomText \<Rightarrow>
          (case found of
             [] \<Rightarrow> missing
           | el # _ \<Rightarrow>
               (let text = trim (concat (el_text el))
                in holds_if (text_matches lib cmp val_str text)
                     (''Selector '' @ sq selector_str @ '' text '' @ sq text @ '' does not '' @ cmp @ '' '' @ sq val_str)))
      | DomAttribute attr_name \<Rightarrow>
          (case found of [] \<Rightarrow> missing | el # _ \<Rightarrow> check_attribute lib selector_str attr_name cmp val_str el))"

definition render :: "test_libs \<Rightarrow> json_map \<Rightarrow> string \<Rightarrow> web_pipe_error + string" where
  "render lib vars s =
     (case tl_render lib s vars of
        Inl e \<Rightarrow> Inl (BadRequest (''Template substitution failed: '' @ e))
      | Inr text \<Rightarrow> Inr text)"

definition check_selector ::
  "test_libs \<Rightarrow> json_map \<Rightarrow> json \<Rightarrow> test_condition \<Rightarrow> string \<Rightarrow> string \<Rightarrow> string \<Rightarrow> verdict" where
  "check_selector lib vars output_value c selector cmp val_str =
     (case render lib vars selector of
        Inl e \<Rightarrow> Errs e
      | Inr selector_str \<Rightarrow>
          (case tc_dom_assert c of
             None \<Rightarrow> Panics
           | Some dom_assert \<Rightarrow>
               (case output_value of
                  JString html \<Rightarrow>
                    (case tl_select lib html selector_str of
                       Inl e \<Rightarrow> Fails (''Invalid CSS selector '' @ sq selector_str @ '': '' @ e)
                     | Inr found \<Rightarrow> check_dom lib selector_str cmp val_str dom_assert found)
                | _ \<Rightarrow> Fails (''Selector assertion requires HTML string output, got: '' @ tl_to_text lib output_value))))"

section \<open>An assertion\<close>

text \<open>What an assertion is about: status, output, content type, and the calls that were logged.\<close>

record test_run =
  tr_status :: u16
  tr_output :: json
  tr_content_type :: string
  tr_pass :: bool
  tr_message :: string
  tr_call_log :: "json list omap"

definition check_condition :: "test_libs \<Rightarrow> bool \<Rightarrow> json_map \<Rightarrow> test_run \<Rightarrow> test_condition \<Rightarrow> verdict" where
  "check_condition lib verbose vars run c =
     (if tc_is_call_assertion c then check_call lib vars (tr_call_log run) c
      else
        (let field = trim (tc_field c); cmp = trim (tc_comparison c)
         in case render lib vars (tc_value c) of
              Inl e \<Rightarrow> Errs e
            | Inr rendered \<Rightarrow>
                (let val_str = trim rendered
                 in if field = ''status'' \<and> (cmp = ''is'' \<or> cmp = ''equals'') then check_status_is (tr_status run) val_str
                    else if field = ''status'' \<and> cmp = ''in'' then check_status_in (tr_status run) val_str
                    else if field = ''contentType'' \<and> (cmp = ''is'' \<or> cmp = ''equals'')
                      then check_content_type (tr_content_type run) val_str
                    else if field = ''output'' \<and> (cmp = ''equals'' \<or> cmp = ''contains'' \<or> cmp = ''matches'')
                      then check_output lib verbose (tr_output run) (tc_jq_expr c) cmp val_str
                    else if field = ''header'' \<and> (cmp = ''contains'' \<or> cmp = ''equals'' \<or> cmp = ''matches'')
                      then check_header lib (tr_output run) (tc_header_name c) cmp val_str
                    else
                      (case (if field = ''selector'' then tc_selector c else None) of
                         Some selector \<Rightarrow> check_selector lib vars (tr_output run) c selector cmp val_str
                       | None \<Rightarrow> Fails (''unsupported condition: '' @ field @ '' '' @ cmp @ '' '' @ val_str)))))"

text \<open>All assertions are checked, the failures collected; an error or a panic ends the test.\<close>

primrec check_conditions ::
  "test_libs \<Rightarrow> bool \<Rightarrow> json_map \<Rightarrow> test_run \<Rightarrow> test_condition list \<Rightarrow> (web_pipe_error + string list) option" where
  "check_conditions lib verbose vars run [] = Some (Inr [])"
| "check_conditions lib verbose vars run (c # cs) =
     (case check_condition lib verbose vars run c of
        Panics \<Rightarrow> None
      | Errs e \<Rightarrow> Some (Inl e)
      | Holds \<Rightarrow> check_conditions lib verbose vars run cs
      | Fails message \<Rightarrow> map_option (map_sum id (Cons message)) (check_conditions lib verbose vars run cs))"

end
