(* ===== verification/Test_Runner.thy ===== *)
theory Test_Runner
  imports Test_Conditions Server
begin

text \<open>
  The test runner (\<^verbatim>\<open>src/test_runner.rs\<close>): the symbols of a test run, the run a
  \<^verbatim>\<open>when\<close> clause asks for, the outcome of a test and the summary. The caches of a run are new
  ones; the path router, percent decoding and building the GraphQL runtime and the context are
  arguments. \<^const>\<open>None\<close> is a run that does not return within its fuel, or a panic.
\<close>

section \<open>Symbols\<close>

text \<open>Merging with the file's name on the tests, when there is no module tree.\<close>

definition test_merge :: "program \<times> string \<Rightarrow> program \<Rightarrow> program" where
  "test_merge = (\<lambda>(p, path) merged.
     add_imported (p\<lparr>pr_describes := map (set_describe_file_path path) (pr_describes p)\<rparr>) merged)"

primrec loaded_with_paths ::
  "(string \<Rightarrow> module_loader \<Rightarrow> ((web_pipe_error + program) \<times> module_loader) option) \<Rightarrow> file_system \<Rightarrow> string \<Rightarrow>
   import_stmt list \<Rightarrow> module_loader \<Rightarrow> (program \<times> string) list option" where
  "loaded_with_paths load fs file_path [] ld = Some []"
| "loaded_with_paths load fs file_path (i # is) ld =
     (case resolve_import_path fs file_path (imp_path i) of
        Inl e \<Rightarrow> loaded_with_paths load fs file_path is ld
      | Inr path \<Rightarrow>
          (case load path ld of
             None \<Rightarrow> None
           | Some (Inl e, ld') \<Rightarrow> loaded_with_paths load fs file_path is ld'
           | Some (Inr p, ld') \<Rightarrow> map_option (Cons (p, path)) (loaded_with_paths load fs file_path is ld')))"

definition merge_imported_graphql_for_tests ::
  "file_system \<Rightarrow> (string \<Rightarrow> string + program) \<Rightarrow> nat \<Rightarrow> program \<Rightarrow> string option \<Rightarrow> program option" where
  "merge_imported_graphql_for_tests fs parse fuel prog file_path =
     map_option (\<lambda>ps.
         let own = (case file_path of None \<Rightarrow> prog
                    | Some f \<Rightarrow> prog\<lparr>pr_describes := map (set_describe_file_path f) (pr_describes prog)\<rparr>);
             merged = fold test_merge ps own; parts = concat (map schema_parts (prog # map fst ps))
         in if parts = [] then merged else merged\<lparr>pr_graphql_schema := combined_schema parts\<rparr>)
       (case file_path of None \<Rightarrow> Some []
        | Some f \<Rightarrow> loaded_with_paths (load_module fs parse fuel) fs f (pr_imports prog) module_loader_new)"

definition register_local_symbols :: "program \<Rightarrow> pipeline_symbols \<times> variable_symbols" where
  "register_local_symbols prog =
     (insert_pipelines None (pr_pipelines prog) Map.empty, insert_variables None (pr_variables prog) Map.empty)"

definition test_module_symbols ::
  "string \<times> nat \<Rightarrow> program \<Rightarrow> pipeline_symbols \<times> variable_symbols \<Rightarrow> pipeline_symbols \<times> variable_symbols" where
  "test_module_symbols = (\<lambda>(f, i) m (ps, vs).
     (insert_pipelines (Some i)
        (map (\<lambda>p. p\<lparr>np_pipeline := set_pipeline_module_info f i (np_pipeline p)\<rparr>) (pr_pipelines m)) ps,
      insert_variables (Some i) (pr_variables m) vs))"

record loaded_tests =
  lt_symbols :: "pipeline_symbols \<times> variable_symbols"
  lt_registry :: module_registry
  lt_configs :: "config list"
  lt_tree :: "tree_entries option"

definition load_imports_for_tests ::
  "file_system \<Rightarrow> (string \<Rightarrow> string + program) \<Rightarrow> nat \<Rightarrow>
   (module_tree \<Rightarrow> tree_entries) \<Rightarrow> ((string \<rightharpoonup> string) \<Rightarrow> (string \<times> string) list) \<Rightarrow>
   program \<Rightarrow> string option \<Rightarrow> loaded_tests option" where
  "load_imports_for_tests fs parse fuel tree_list entries prog file_path =
     (let fallback = \<lparr> lt_symbols = register_local_symbols prog, lt_registry = module_registry_new,
            lt_configs = [], lt_tree = None \<rparr>
      in case file_path of
           None \<Rightarrow> Some fallback
         | Some f \<Rightarrow>
             (case load_module_tree fs parse fuel f module_loader_new of
                None \<Rightarrow> None
              | Some (Inl e, _) \<Rightarrow> Some fallback
              | Some (Inr t, _) \<Rightarrow>
                  (let tree = tree_list t; ids = path_ids (sorted_paths tree)
                   in Some \<lparr> lt_symbols = fold (\<lambda>(path, i). test_module_symbols (path, i) (module_program tree path)) ids
                               (Map.empty, Map.empty),
                        lt_registry = register_modules entries tree,
                        lt_configs = concat (map (\<lambda>(path, i). pr_configs (module_program tree path)) ids),
                        lt_tree = Some tree \<rparr>)))"

text \<open>The runner has its own copy of the function that collects imported templates.\<close>

definition load_handlebars_from_module_tree_for_tests ::
  "((string \<rightharpoonup> string) \<Rightarrow> (string \<times> string) list) \<Rightarrow> tree_entries \<Rightarrow> variable list" where
  "load_handlebars_from_module_tree_for_tests entries tree =
     concat (map (\<lambda>(_, info).
       concat (map (\<lambda>(alias, target_path).
           case map_of tree target_path of
             None \<Rightarrow> []
           | Some target \<Rightarrow>
               map (\<lambda>v. v\<lparr>var_name := alias @ ''/'' @ var_name v\<rparr>)
                 (filter (\<lambda>v. var_type v = ''handlebars'' \<or> var_type v = ''mustache'') (pr_variables (mi_program target))))
         (entries (mi_imports info)))) tree)"

section \<open>What a test runs\<close>

text \<open>The part of a run that is the same for all tests.\<close>

record ('l, 'r, 'w, 'm) test_setup =
  ts_program :: program
  ts_merged :: program
  ts_env :: "('l, 'r, 'w) execution_env"
  ts_rate_ops :: "('r, rate_limit_entry) lru_ops"
  ts_router :: "(pipeline \<times> string option, 'm) path_router"
  ts_percent_decode_lossy :: "string \<Rightarrow> string"
  ts_hash_order :: "string omap \<Rightarrow> string omap"
  ts_graphql_endpoint :: "string option"

text \<open>The path and the query of a route's address.\<close>

definition query_pair :: "string \<Rightarrow> string \<times> string" where
  "query_pair pair = (case split_once ''='' pair of None \<Rightarrow> (pair, []) | Some kv \<Rightarrow> kv)"

definition split_query :: "string \<Rightarrow> string \<times> string omap" where
  "split_query path =
     (case split_once ''?'' path of
        None \<Rightarrow> (path, [])
      | Some (p, qs) \<Rightarrow>
          (p, om_insert_all (filter (\<lambda>kv. fst kv \<noteq> [])
                (map query_pair (filter (\<lambda>pair. pair \<noteq> []) (split_char CHR ''&'' qs)))) []))"

definition insert_test_route :: "(pipeline \<times> string option, 'm) path_router \<Rightarrow> program \<Rightarrow> string \<Rightarrow> route \<Rightarrow> 'm \<Rightarrow> 'm" where
  "insert_test_route tr prog http_method r m =
     (if rt_method r \<noteq> http_method then m
      else case rt_pipeline r of
        Inline p \<Rightarrow> insert_route tr (rt_path r) (p, None) m
      | Named name \<Rightarrow>
          (case find (\<lambda>np. np_name np = name) (pr_pipelines prog) of
             None \<Rightarrow> m
           | Some np \<Rightarrow> insert_route tr (rt_path r) (np_pipeline np, Some name) m))"

definition graphql_endpoint_for_tests :: "program \<Rightarrow> string option \<Rightarrow> string \<Rightarrow> string option" where
  "graphql_endpoint_for_tests prog endpoint http_method =
     (if http_method \<noteq> ''POST'' \<or> pr_graphql_schema prog = None then None
      else case endpoint of None \<Rightarrow> None
      | Some e \<Rightarrow> if \<exists>r \<in> set (pr_routes prog). rt_method r = ''POST'' \<and> rt_path r = e then None else Some e)"

definition build_test_router :: "('l, 'r, 'w, 'm) test_setup \<Rightarrow> string \<Rightarrow> 'm" where
  "build_test_router ts http_method =
     (let tr = ts_router ts; prog = ts_merged ts;
          m = fold (insert_test_route tr prog http_method) (pr_routes prog) (pr_new tr)
      in case graphql_endpoint_for_tests prog (ts_graphql_endpoint ts) http_method of
           None \<Rightarrow> m
         | Some e \<Rightarrow> insert_route tr e (create_graphql_endpoint_pipeline, Some ''graphql'') m)"

text \<open>The environment of one run, with caches of its own.\<close>

definition fresh_stores :: "('l, 'r, 'w, 'm) test_setup \<Rightarrow> ('l, 'r, 'w) machine \<Rightarrow> ('l, 'r, 'w) machine" where
  "fresh_stores ts m = m\<lparr>mc_cache := cache_new (pl_cache_ops (env_platform (ts_env ts))) 8 60,
     mc_rate := rate_limit_new (ts_rate_ops ts) 1000\<rparr>"

definition test_env ::
  "test_libs \<Rightarrow> mock_resolver \<Rightarrow> ('l, 'r, 'w, 'm) test_setup \<Rightarrow> ('l, 'r, 'w) execution_env" where
  "test_env lib mocks ts = mocked_env lib mocks ((ts_env ts)\<lparr>env_environment := None\<rparr>)"

definition run_pipeline ::
  "nat \<Rightarrow> test_libs \<Rightarrow> mock_resolver \<Rightarrow> ('l, 'r, 'w, 'm) test_setup \<Rightarrow> pipeline \<Rightarrow> json \<Rightarrow> 'w request_context \<Rightarrow>
   ('l, 'r, 'w) machine \<Rightarrow> ((web_pipe_error + test_run) \<times> ('l, 'r, 'w) machine) option" where
  "run_pipeline fuel lib mocks ts p input ctx m =
     (case execute_pipeline (test_env lib mocks ts) fuel p input ctx (fresh_stores ts m) of
        None \<Rightarrow> None
      | Some (Inl e, m') \<Rightarrow> Some (Inl e, m')
      | Some (Inr (out, ct, status, ctx'), m') \<Rightarrow>
          Some (Inr \<lparr> tr_status = (case status of None \<Rightarrow> 200 | Some s \<Rightarrow> s), tr_output = out,
                     tr_content_type = ct, tr_pass = True, tr_message = [], tr_call_log = rc_call_log ctx' \<rparr>, m'))"

definition mocked_run :: "json \<Rightarrow> test_run" where
  "mocked_run v = \<lparr> tr_status = 200, tr_output = v, tr_content_type = ''application/json'', tr_pass = True,
     tr_message = [], tr_call_log = [] \<rparr>"

definition unknown_route :: "string \<Rightarrow> string \<Rightarrow> test_run" where
  "unknown_route http_method path = \<lparr> tr_status = 404, tr_output = JObject [],
     tr_content_type = ''application/json'', tr_pass = False,
     tr_message = ''Route not found: '' @ http_method @ '' '' @ path, tr_call_log = [] \<rparr>"

definition test_value ::
  "test_libs \<Rightarrow> json_map \<Rightarrow> string \<Rightarrow> string option \<Rightarrow> web_pipe_error + json" where
  "test_value lib vars role text =
     (case text of None \<Rightarrow> Inr (JObject []) | Some t \<Rightarrow> evaluate_jq_input_with_role lib t vars role)"

text \<open>Headers and cookies: an object of strings; anything else is left out.\<close>

definition test_string_map ::
  "test_libs \<Rightarrow> json_map \<Rightarrow> string \<Rightarrow> string option \<Rightarrow> web_pipe_error + string omap option" where
  "test_string_map lib vars role text =
     (case text of
        None \<Rightarrow> Inr None
      | Some t \<Rightarrow>
          (case evaluate_jq_input_with_role lib t vars role of
             Inl e \<Rightarrow> Inl e
           | Inr (JObject o') \<Rightarrow>
               Inr (Some (om_insert_all (map (\<lambda>(k, v). (k, case as_str v of None \<Rightarrow> [] | Some s \<Rightarrow> s)) o') []))
           | Inr _ \<Rightarrow> Inr None))"

definition test_context ::
  "('l, 'r, 'w) execution_env \<Rightarrow> json \<Rightarrow> 'w request_context \<Rightarrow> ('l, 'r, 'w) machine \<Rightarrow>
   'w request_context \<times> ('l, 'r, 'w) machine" where
  "test_context env input ctx m = attach_thread env (ctx\<lparr>rc_request := input\<rparr>) m"

definition calling_route ::
  "nat \<Rightarrow> test_libs \<Rightarrow> mock_resolver \<Rightarrow> ('l, 'r, 'w, 'm) test_setup \<Rightarrow> json_map \<Rightarrow> it_block \<Rightarrow> string \<Rightarrow> string \<Rightarrow>
   ('l, 'r, 'w) machine \<Rightarrow> ((web_pipe_error + test_run) \<times> ('l, 'r, 'w) machine) option" where
  "calling_route fuel lib mocks ts vars t http_method path m =
     (case render lib vars path of
        Inl e \<Rightarrow> Some (Inl e, m)
      | Inr rendered \<Rightarrow>
          (let (path_str, query) = split_query rendered
           in case pr_at (ts_router ts) (build_test_router ts http_method) path_str of
                None \<Rightarrow> Some (Inr (unknown_route http_method path), m)
              | Some ((p, name), params) \<Rightarrow>
                  (let params_map = om_insert_all (map (\<lambda>(k, v). (k, ts_percent_decode_lossy ts v)) params) []
                   in case test_value lib vars ''test body'' (it_body t) of
                        Inl e \<Rightarrow> Some (Inl e, m)
                      | Inr body \<Rightarrow>
                          (case test_string_map lib vars ''test headers'' (it_headers t) of
                             Inl e \<Rightarrow> Some (Inl e, m)
                           | Inr headers \<Rightarrow>
                               (case test_string_map lib vars ''test cookies'' (it_cookies t) of
                                  Inl e \<Rightarrow> Some (Inl e, m)
                                | Inr cookies \<Rightarrow>
                                    (let order = ts_hash_order ts;
                                         input = build_request_for_tests http_method path_str (order params_map) (order query)
                                           (map_option order headers) (map_option order cookies) body
                                     in case Option.bind name (get_pipeline_mock mocks) of
                                          Some v \<Rightarrow> Some (Inr (mocked_run v), m)
                                        | None \<Rightarrow>
                                            (let (ctx, m1) = test_context (ts_env ts) input request_context_new m
                                             in run_pipeline fuel lib mocks ts p input ctx m1)))))))"

definition test_args :: "test_libs \<Rightarrow> json_map \<Rightarrow> it_block \<Rightarrow> web_pipe_error + string list" where
  "test_args lib vars t =
     (case it_args t of
        None \<Rightarrow> Inr []
      | Some text \<Rightarrow>
          (case evaluate_jq_input_with_role lib text vars ''test args'' of
             Inl e \<Rightarrow> Inl e
           | Inr (JArray items) \<Rightarrow> Inr (map (value_to_string lib) items)
           | Inr other \<Rightarrow> Inl (BadRequest (backticked ''and args are'' @ '' expects a JSON array, got '' @ tl_to_text lib other))))"

definition test_options :: "test_libs \<Rightarrow> json_map \<Rightarrow> it_block \<Rightarrow> web_pipe_error + json_map" where
  "test_options lib vars t =
     (case it_options t of
        None \<Rightarrow> Inr []
      | Some text \<Rightarrow>
          (case evaluate_jq_input_with_role lib text vars ''test options'' of
             Inl e \<Rightarrow> Inl e
           | Inr (JObject o') \<Rightarrow> Inr o'
           | Inr other \<Rightarrow> Inl (BadRequest (backticked ''and options are'' @ '' expects a JSON object, got '' @ tl_to_text lib other))))"

definition override_args ::
  "test_libs \<Rightarrow> json_map \<Rightarrow> it_block \<Rightarrow> 'w request_context \<Rightarrow> web_pipe_error + 'w request_context" where
  "override_args lib vars t ctx =
     (if it_args t = None \<and> it_options t = None then Inr ctx
      else case test_args lib vars t of
        Inl e \<Rightarrow> Inl e
      | Inr args \<Rightarrow>
          (case test_options lib vars t of
             Inl e \<Rightarrow> Inl e
           | Inr options \<Rightarrow>
               Inr (ctx\<lparr>rc_script_args_override := Some \<lparr> sa_args = args, sa_options = options \<rparr>\<rparr>)))"

definition executing_pipeline ::
  "nat \<Rightarrow> test_libs \<Rightarrow> mock_resolver \<Rightarrow> ('l, 'r, 'w, 'm) test_setup \<Rightarrow> json_map \<Rightarrow> it_block \<Rightarrow> string \<Rightarrow>
   ('l, 'r, 'w) machine \<Rightarrow> ((web_pipe_error + test_run) \<times> ('l, 'r, 'w) machine) option" where
  "executing_pipeline fuel lib mocks ts vars t name m =
     (case get_pipeline_mock mocks name of
        Some v \<Rightarrow> Some (Inr (mocked_run v), m)
      | None \<Rightarrow>
          (case test_value lib vars ''test input'' (it_input t) of
             Inl e \<Rightarrow> Some (Inl e, m)
           | Inr input \<Rightarrow>
               (case find (\<lambda>np. np_name np = name) (pr_pipelines (ts_merged ts)) of
                  None \<Rightarrow> Some (Inl (PipelineNotFound name), m)
                | Some np \<Rightarrow>
                    (case (case it_stdin t of
                             None \<Rightarrow> Inr request_context_new
                           | Some text \<Rightarrow> map_sum id (request_context_for_script_with_stdin input) (render lib vars text)) of
                       Inl e \<Rightarrow> Some (Inl e, m)
                     | Inr ctx0 \<Rightarrow>
                         (let (ctx1, m1) = test_context (ts_env ts) input ctx0 m
                          in case override_args lib vars t ctx1 of
                               Inl e \<Rightarrow> Some (Inl e, m1)
                             | Inr ctx \<Rightarrow> run_pipeline fuel lib mocks ts (np_pipeline np) input ctx m1)))))"

definition find_variable :: "variable list \<Rightarrow> string \<Rightarrow> string \<Rightarrow> variable option" where
  "find_variable vs ty name = find (\<lambda>v. var_type v = ty \<and> var_name v = name) vs"

definition variable_pipeline :: "variable \<Rightarrow> pipeline" where
  "variable_pipeline v = Pipeline [RegularStep
     \<lparr> rs_name = var_type v, rs_args = [], rs_config = var_value v, rs_config_type = Backtick, rs_config_present = True,
       rs_condition = None, rs_parsed_join_targets = None, rs_location = location_new 0 0 0 \<rparr>]"

definition executing_variable ::
  "nat \<Rightarrow> test_libs \<Rightarrow> mock_resolver \<Rightarrow> ('l, 'r, 'w, 'm) test_setup \<Rightarrow> json_map \<Rightarrow> it_block \<Rightarrow> string \<Rightarrow> string \<Rightarrow>
   ('l, 'r, 'w) machine \<Rightarrow> ((web_pipe_error + test_run) \<times> ('l, 'r, 'w) machine) option" where
  "executing_variable fuel lib mocks ts vars t ty name m =
     (case find_variable (pr_variables (ts_program ts)) ty name of
        None \<Rightarrow> Some (Inl (BadRequest (''Variable not found: '' @ ty @ '' '' @ name)), m)
      | Some v \<Rightarrow>
          (case test_value lib vars ''test input'' (it_input t) of
             Inl e \<Rightarrow> Some (Inl e, m)
           | Inr input \<Rightarrow>
               (case map_of (mk_variable mocks) (var_type v, var_name v) of
                  Some mocked \<Rightarrow> Some (Inr (mocked_run mocked), m)
                | None \<Rightarrow>
                    (let (ctx, m1) = test_context (ts_env ts) input request_context_new m
                     in run_pipeline fuel lib mocks ts (variable_pipeline v) input ctx m1))))"

definition run_when ::
  "nat \<Rightarrow> test_libs \<Rightarrow> mock_resolver \<Rightarrow> ('l, 'r, 'w, 'm) test_setup \<Rightarrow> json_map \<Rightarrow> it_block \<Rightarrow>
   ('l, 'r, 'w) machine \<Rightarrow> ((web_pipe_error + test_run) \<times> ('l, 'r, 'w) machine) option" where
  "run_when fuel lib mocks ts vars t m =
     (case it_when t of
        CallingRoute http_method path \<Rightarrow> calling_route fuel lib mocks ts vars t http_method path m
      | ExecutingPipeline name \<Rightarrow> executing_pipeline fuel lib mocks ts vars t name m
      | ExecutingVariable ty name \<Rightarrow> executing_variable fuel lib mocks ts vars t ty name m)"

section \<open>Outcomes\<close>

record test_outcome =
  to_describe :: string
  to_test :: string
  to_passed :: bool
  to_message :: string

record test_summary =
  su_total :: nat
  su_passed :: nat
  su_failed :: nat
  su_outcomes :: "test_outcome list"

definition let_value :: "test_libs \<Rightarrow> string \<Rightarrow> json" where
  "let_value lib raw = (case tl_from_str lib raw of Some v \<Rightarrow> v | None \<Rightarrow> JString raw)"

definition bind_lets ::
  "test_libs \<Rightarrow> (string \<times> string \<times> let_value_format) list \<Rightarrow> json_map \<Rightarrow> json_map" where
  "bind_lets lib lets vars = om_insert_all (map (\<lambda>(name, raw, _). (name, let_value lib raw)) lets) vars"

text \<open>Whether a test passes and with what message, or the error that ended it.\<close>

definition run_body ::
  "nat \<Rightarrow> test_libs \<Rightarrow> bool \<Rightarrow> ('l, 'r, 'w, 'm) test_setup \<Rightarrow> json_map \<Rightarrow> mock_resolver \<Rightarrow> it_block \<Rightarrow>
   ('l, 'r, 'w) machine \<Rightarrow> ((web_pipe_error + bool \<times> string) \<times> ('l, 'r, 'w) machine) option" where
  "run_body fuel lib verbose ts describe_ctx describe_mocks t m =
     (let vars = bind_lets lib (it_variables t) describe_ctx
      in case from_mocks lib (it_mocks t) vars of
           Inl e \<Rightarrow> Some (Inl e, m)
         | Inr test_mocks \<Rightarrow>
             (case run_when fuel lib (overlay describe_mocks test_mocks) ts vars t m of
                None \<Rightarrow> None
              | Some (Inl e, m1) \<Rightarrow> Some (Inl e, m1)
              | Some (Inr run, m1) \<Rightarrow>
                  (case check_conditions lib verbose vars run (it_conditions t) of
                     None \<Rightarrow> None
                   | Some (Inl e) \<Rightarrow> Some (Inl e, m1)
                   | Some (Inr failures) \<Rightarrow>
                       Some (Inr (if tr_pass run \<and> failures = [] then (True, [])
                                  else (False, if failures \<noteq> [] then join ''; '' failures else tr_message run)), m1))))"

definition run_test ::
  "nat \<Rightarrow> test_libs \<Rightarrow> bool \<Rightarrow> ('l, 'r, 'w, 'm) test_setup \<Rightarrow> string \<Rightarrow> json_map \<Rightarrow> mock_resolver \<Rightarrow> it_block \<Rightarrow>
   ('l, 'r, 'w) machine \<Rightarrow> (test_outcome \<times> ('l, 'r, 'w) machine) option" where
  "run_test fuel lib verbose ts describe describe_ctx describe_mocks t m =
     (case run_body fuel lib verbose ts describe_ctx describe_mocks t m of
        None \<Rightarrow> None
      | Some (r, m') \<Rightarrow>
          (let (passed, message) =
             (case r of
                Inr x \<Rightarrow> x
              | Inl e \<Rightarrow>
                  (False, ''test errored'' @ (case error_label (it_location t) of None \<Rightarrow> [] | Some l \<Rightarrow> '' at '' @ l) @
                          '': '' @ error_to_string e))
           in Some (\<lparr> to_describe = describe, to_test = it_name t, to_passed = passed, to_message = message \<rparr>, m')))"

primrec run_each ::
  "('a \<Rightarrow> 's \<Rightarrow> ('b \<times> 's) option) \<Rightarrow> 'a list \<Rightarrow> 's \<Rightarrow> ('b list \<times> 's) option" where
  "run_each f [] m = Some ([], m)"
| "run_each f (x # xs) m =
     (case f x m of
        None \<Rightarrow> None
      | Some (y, m1) \<Rightarrow> (case run_each f xs m1 of None \<Rightarrow> None | Some (ys, m2) \<Rightarrow> Some (y # ys, m2)))"

primrec run_describes ::
  "nat \<Rightarrow> test_libs \<Rightarrow> bool \<Rightarrow> ('l, 'r, 'w, 'm) test_setup \<Rightarrow> describe_block list \<Rightarrow> ('l, 'r, 'w) machine \<Rightarrow>
   ((web_pipe_error + test_outcome list) \<times> ('l, 'r, 'w) machine) option" where
  "run_describes fuel lib verbose ts [] m = Some (Inr [], m)"
| "run_describes fuel lib verbose ts (d # ds) m =
     (let describe_ctx = bind_lets lib (de_variables d) []
      in case from_mocks lib (de_mocks d) describe_ctx of
           Inl e \<Rightarrow> Some (Inl e, m)
         | Inr describe_mocks \<Rightarrow>
             (case run_each (run_test fuel lib verbose ts (de_name d) describe_ctx describe_mocks) (de_tests d) m of
                None \<Rightarrow> None
              | Some (outcomes, m1) \<Rightarrow>
                  (case run_describes fuel lib verbose ts ds m1 of
                     None \<Rightarrow> None
                   | Some (Inl e, m2) \<Rightarrow> Some (Inl e, m2)
                   | Some (Inr rest, m2) \<Rightarrow> Some (Inr (outcomes @ rest), m2))))"

definition summarize :: "test_outcome list \<Rightarrow> test_summary" where
  "summarize outcomes =
     (let total = length outcomes; passed = length (filter to_passed outcomes)
      in \<lparr> su_total = total, su_passed = passed, su_failed = total - passed, su_outcomes = outcomes \<rparr>)"

text \<open>
  \<^verbatim>\<open>run_tests_internal\<close>. The context and the GraphQL runtime built from the merged
  configuration may be refused; else they give the environment and the GraphQL endpoint of the runs.
\<close>

definition run_tests_internal ::
  "file_system \<Rightarrow> (string \<Rightarrow> string + program) \<Rightarrow> nat \<Rightarrow>
   (module_tree \<Rightarrow> tree_entries) \<Rightarrow> ((string \<rightharpoonup> string) \<Rightarrow> (string \<times> string) list) \<Rightarrow>
   (config list \<Rightarrow> variable list \<Rightarrow> program \<Rightarrow> pipeline_symbols \<times> variable_symbols \<Rightarrow> module_registry \<Rightarrow>
      web_pipe_error + ('l, 'r, 'w, 'm) test_setup) \<Rightarrow>
   test_libs \<Rightarrow> bool \<Rightarrow> program \<Rightarrow> string option \<Rightarrow> ('l, 'r, 'w) machine \<Rightarrow>
   ((web_pipe_error + test_summary) \<times> ('l, 'r, 'w) machine) option" where
  "run_tests_internal fs parse fuel tree_list entries build lib verbose prog file_path m =
     (case load_imports_for_tests fs parse fuel tree_list entries prog file_path of
        None \<Rightarrow> None
      | Some lt \<Rightarrow>
          (let configs = lt_configs lt @ pr_configs prog;
               variables = (case lt_tree lt of None \<Rightarrow> [] | Some tree \<Rightarrow> load_handlebars_from_module_tree_for_tests entries tree) @
                 pr_variables prog
           in case (case lt_tree lt of
                      Some tree \<Rightarrow> Some (merge_from_module_tree prog tree)
                    | None \<Rightarrow> merge_imported_graphql_for_tests fs parse fuel prog file_path) of
                None \<Rightarrow> None
              | Some merged \<Rightarrow>
                  (case build configs variables merged (lt_symbols lt) (lt_registry lt) of
                     Inl e \<Rightarrow> Some (Inl e, m)
                   | Inr ts \<Rightarrow>
                       (let ts = ts\<lparr>ts_program := prog, ts_merged := merged\<rparr>
                        in case run_describes fuel lib verbose ts (pr_describes merged) m of
                             None \<Rightarrow> None
                           | Some (Inl e, m') \<Rightarrow> Some (Inl e, m')
                           | Some (Inr outcomes, m') \<Rightarrow> Some (Inr (summarize outcomes), m')))))"

end
