(* ===== verification/Test_Properties.thy ===== *)
theory Test_Properties
  imports Test_Runner Server_Properties
begin

text \<open>
  What the test runner promises: every test is reported, a test passes only if its run and all its
  assertions do, mocks stand for the middleware they name, a test's mocks come before those of its
  block, and what the comparison behind \<^verbatim>\<open>contains\<close> means.
\<close>

section \<open>Every test is reported\<close>

lemma holds_if_no_panic [simp]: "holds_if b message \<noteq> Panics"
  by (simp add: holds_if_def)

lemma check_dom_no_panic: "check_dom lib sel cmp v a found \<noteq> Panics"
  by (simp add: check_dom_def check_attribute_def Let_def split: dom_assert_type.split list.split option.split prod.split)

lemma checks_no_panic [simp]:
  "check_call lib vars log c \<noteq> Panics" "check_status_is s v \<noteq> Panics" "check_status_in s v \<noteq> Panics"
  "check_content_type ct v \<noteq> Panics" "check_output lib verbose out e op v \<noteq> Panics"
  "check_header lib out h op v \<noteq> Panics"
  by (simp_all add: check_call_def check_status_is_def check_status_in_def check_content_type_def check_output_def
      check_header_def check_matches_def Let_def split: option.split sum.split list.split)

text \<open>What the parser sees to: a selector comes with what to assert of its elements.\<close>

definition asserts_selector :: "test_condition \<Rightarrow> bool" where
  "asserts_selector c \<longleftrightarrow> tc_selector c = None \<or> tc_dom_assert c \<noteq> None"

lemma check_condition_no_panic: "asserts_selector c \<Longrightarrow> check_condition lib verbose vars run c \<noteq> Panics"
  by (auto simp: check_condition_def check_selector_def check_dom_no_panic asserts_selector_def Let_def
      split: sum.split option.split json.split)

lemma check_conditions_returns:
  "list_all asserts_selector cs \<Longrightarrow> \<exists>r. check_conditions lib verbose vars run cs = Some r"
proof (induction cs)
  case (Cons c cs)
  then show ?case using check_condition_no_panic [of c lib verbose vars run] by (auto split: verdict.split)
qed simp

text \<open>The pipelines a test may run by itself.\<close>

definition test_pipelines :: "('l, 'r, 'w, 'm) test_setup \<Rightarrow> pipeline set" where
  "test_pipelines ts =
     {p. \<exists>r \<in> set (pr_routes (ts_merged ts)). route_pipeline (ts_merged ts) r = Some p} \<union>
     np_pipeline ` set (pr_pipelines (ts_merged ts)) \<union> {create_graphql_endpoint_pipeline} \<union>
     variable_pipeline ` set (pr_variables (ts_program ts))"

locale test_table = path_routing pr patterns
  for pr :: "(pipeline \<times> string option, 'm) path_router" and patterns
begin

lemma inserted:
  "patterns (insert_route pr path v m) q = Some u \<Longrightarrow> patterns m q = Some u \<or> u = v"
  using insert_route_patterns [of path v m] by (auto split: if_splits)

lemma test_routes:
  assumes "\<And>q p name. patterns m q = Some (p, name) \<Longrightarrow> p \<in> S"
    and "\<And>r p. r \<in> set rs \<Longrightarrow> route_pipeline prog r = Some p \<Longrightarrow> p \<in> S"
  shows "patterns (fold (insert_test_route pr prog http_method) rs m) q = Some (p, name) \<Longrightarrow> p \<in> S"
  using assms
proof (induction rs arbitrary: m)
  case (Cons r rs)
  have "p' \<in> S" if "patterns (insert_test_route pr prog http_method r m) q' = Some (p', name')" for q' p' name'
    using that Cons.prems(2,3) inserted
    by (fastforce simp: insert_test_route_def route_pipeline_def split: if_splits pipeline_ref.splits option.splits)
  with Cons show ?case by (metis (no_types) fold_simps(2) list.set_intros(2))
qed auto

lemma test_router_pipelines:
  assumes "ts_router ts = pr" and "pr_at pr (build_test_router ts http_method) path = Some ((p, name), params)"
  shows "p \<in> test_pipelines ts"
proof -
  obtain q where q: "patterns (build_test_router ts http_method) q = Some (p, name)" using at_law [OF assms(2)] by blast
  let ?m = "fold (insert_test_route pr (ts_merged ts) http_method) (pr_routes (ts_merged ts)) (pr_new pr)"
  have routes: "p' \<in> test_pipelines ts" if "patterns ?m q' = Some (p', name')" for q' p' name'
    by (rule test_routes [OF _ _ that]) (auto simp: new_law test_pipelines_def)
  from q show ?thesis
    using routes inserted by (fastforce simp: build_test_router_def assms(1) Let_def test_pipelines_def split: option.splits)
qed

end

interpretation fixed_tests: test_table fixed_router map_of
  by unfold_locales

lemma mocked_safe: "invoker_safe env cok \<Longrightarrow> invoker_safe (mocked_env lib mocks env) cok"
  unfolding invoker_safe_def mocked_env_def
  by (auto simp: mocking_invoker_def split: option.splits)

lemma test_env_reads:
  "env_variables (test_env lib mocks ts) = env_variables (ts_env ts)"
  "env_named_pipelines (test_env lib mocks ts) = env_named_pipelines (ts_env ts)"
  "env_module_registry (test_env lib mocks ts) = env_module_registry (ts_env ts)"
  "env_behavior (test_env lib mocks ts) = env_behavior (ts_env ts)"
  "env_platform (test_env lib mocks ts) = env_platform (ts_env ts)"
  by (simp_all add: test_env_def mocked_env_def)

lemma test_env_resolves:
  "resolve_config_and_autoname (test_env lib mocks ts) = resolve_config_and_autoname (ts_env ts)"
  "resolve_named_pipeline (test_env lib mocks ts) = resolve_named_pipeline (ts_env ts)"
  unfolding resolve_config_and_autoname_def resolve_named_pipeline_def test_env_reads fun_eq_iff by simp_all

lemma test_env_calls: "calls (test_env lib mocks ts) = calls (ts_env ts)"
proof -
  have "step_callees (test_env lib mocks ts) = step_callees (ts_env ts)"
    unfolding step_callees_def config_callee_def effective_name_def raw_config_def is_pipeline_shorthand_def
      regular_step_is_pipeline_shorthand_def test_env_resolves test_env_reads fun_eq_iff by simp
  then show ?thesis by (intro ext) (simp only: calls_def)
qed

text \<open>
  The setting in which every run returns: a valid cache container, safe middleware, no circular calls
  and enough fuel for each pipeline a test may run.
\<close>

definition runs_return ::
  "nat \<Rightarrow> ('l \<Rightarrow> bool) \<Rightarrow> ('l \<Rightarrow> (string \<times> cache_entry) list) \<Rightarrow> ('l \<Rightarrow> nat) \<Rightarrow> (pipeline \<Rightarrow> nat) \<Rightarrow>
   ('l, 'r, 'w, 'm) test_setup \<Rightarrow> bool" where
  "runs_return fuel ok entries cap rank ts \<longleftrightarrow>
     response_cache (pl_cache_ops (env_platform (ts_env ts))) ok entries cap \<and>
     invoker_safe (ts_env ts) (\<lambda>c. ok (cs_inner c)) \<and>
     (\<forall>p q. q \<in> set (calls (ts_env ts) p) \<longrightarrow> rank q < rank p) \<and>
     (\<forall>p \<in> test_pipelines ts. enough rank fuel p)"

lemma run_pipeline_returns:
  assumes "runs_return fuel ok entries cap rank ts" and "p \<in> test_pipelines ts" and "rc_async_registry ctx = Map.empty"
  shows "\<exists>r m'. run_pipeline fuel lib mocks ts p input ctx m = Some (r, m')"
proof -
  have L: "response_cache (pl_cache_ops (env_platform (ts_env ts))) ok entries cap"
    using assms(1) by (simp add: runs_return_def)
  have "invoker_safe ((ts_env ts)\<lparr>env_environment := None\<rparr>) (\<lambda>c. ok (cs_inner c))"
    using assms(1) by (simp add: runs_return_def invoker_safe_def)
  then have safe: "invoker_safe (test_env lib mocks ts) (\<lambda>c. ok (cs_inner c))" unfolding test_env_def by (rule mocked_safe)
  have c: "ok (cs_inner (mc_cache (fresh_stores ts m)))"
    using lru_cache.new_ok [OF response_cache.axioms [OF L]]
    by (simp add: fresh_stores_def cache_new_def cache_new_with_limits_def)
  have "\<exists>r m'. execute_pipeline (test_env lib mocks ts) fuel p input ctx (fresh_stores ts m) = Some (r, m') \<and>
      ok (cs_inner (mc_cache m'))"
    by (rule execute_pipeline_safe [where ok = ok and rank = rank, OF safe])
      (use assms L c in \<open>auto simp: test_env_calls test_env_reads runs_return_def enough_def\<close>)
  then show ?thesis by (auto simp: run_pipeline_def split: sum.split)
qed

lemma test_context_tasks:
  "test_context env input ctx m = (ctx', m') \<Longrightarrow> rc_async_registry ctx' = rc_async_registry ctx"
  by (auto simp: test_context_def attach_thread_def split: option.splits prod.splits)

lemma fresh_tasks [simp]:
  "rc_async_registry request_context_new = Map.empty"
  "rc_async_registry (request_context_for_script_with_stdin i s) = Map.empty"
  by (simp_all add: request_context_for_script_with_stdin_def request_context_for_script_def request_context_new_def)

lemma stdin_tasks:
  "map_sum id (request_context_for_script_with_stdin i) r = Inr ctx \<Longrightarrow> rc_async_registry ctx = Map.empty"
  by (cases r) auto

lemma override_args_tasks: "override_args lib vars t ctx = Inr ctx' \<Longrightarrow> rc_async_registry ctx' = rc_async_registry ctx"
  by (auto simp: override_args_def split: if_splits sum.splits)

lemma calling_route_returns:
  assumes "runs_return fuel ok entries cap rank ts" and "test_table (ts_router ts) patterns"
  shows "\<exists>r. calling_route fuel lib mocks ts vars t http_method path m = Some r"
proof -
  have "\<exists>r. run_pipeline fuel lib mocks ts p input ctx m' = Some r"
    if "pr_at (ts_router ts) (build_test_router ts http_method) path' = Some ((p, name), params)"
      "test_context (ts_env ts) input request_context_new m = (ctx, m')" for p name params path' input ctx m'
    using run_pipeline_returns [OF assms(1), of p ctx lib mocks input m'] test_context_tasks [OF that(2)]
      test_table.test_router_pipelines [OF assms(2) refl that(1)] by auto
  then show ?thesis by (auto simp: calling_route_def Let_def split: sum.split prod.split option.split)
qed

lemma executing_pipeline_returns:
  assumes "runs_return fuel ok entries cap rank ts"
  shows "\<exists>r. executing_pipeline fuel lib mocks ts vars t name m = Some r"
proof -
  have "\<exists>r. run_pipeline fuel lib mocks ts (np_pipeline np) input ctx m' = Some r"
    if "find (\<lambda>np. np_name np = name) (pr_pipelines (ts_merged ts)) = Some np" "rc_async_registry ctx = Map.empty"
    for np input ctx m'
  proof -
    have "np \<in> set (pr_pipelines (ts_merged ts))" using that(1) by (auto simp: find_Some_iff)
    then have "np_pipeline np \<in> test_pipelines ts" by (simp add: test_pipelines_def)
    from run_pipeline_returns [OF assms this that(2), of lib mocks input m'] show ?thesis by auto
  qed
  then show ?thesis
    by (auto simp: executing_pipeline_def Let_def dest!: test_context_tasks override_args_tasks stdin_tasks
        split: sum.split prod.split option.split)
qed

lemma executing_variable_returns:
  assumes "runs_return fuel ok entries cap rank ts"
  shows "\<exists>r. executing_variable fuel lib mocks ts vars t ty name m = Some r"
proof -
  have "\<exists>r. run_pipeline fuel lib mocks ts (variable_pipeline v) input ctx m' = Some r"
    if "find_variable (pr_variables (ts_program ts)) ty name = Some v" "rc_async_registry ctx = Map.empty" for v input ctx m'
  proof -
    have "v \<in> set (pr_variables (ts_program ts))" using that(1) by (auto simp: find_variable_def find_Some_iff)
    then have "variable_pipeline v \<in> test_pipelines ts" by (simp add: test_pipelines_def)
    from run_pipeline_returns [OF assms this that(2), of lib mocks input m'] show ?thesis by auto
  qed
  then show ?thesis
    by (auto simp: executing_variable_def Let_def dest!: test_context_tasks split: sum.split prod.split option.split)
qed

lemma run_test_returns:
  assumes "runs_return fuel ok entries cap rank ts" and "test_table (ts_router ts) patterns"
    and "list_all asserts_selector (it_conditions t)"
  shows "\<exists>oc m'. run_test fuel lib verbose ts d vars mocks t m = Some (oc, m') \<and> to_describe oc = d \<and> to_test oc = it_name t"
proof -
  have "\<exists>r. run_when fuel lib mk ts vs t m = Some r" for mk vs
    using calling_route_returns [OF assms(1,2)] executing_pipeline_returns [OF assms(1)]
      executing_variable_returns [OF assms(1)] by (simp add: run_when_def split: when_clause.split)
  then have "\<exists>r. run_body fuel lib verbose ts vars mocks t m = Some r"
    using check_conditions_returns [OF assms(3)]
    by (auto simp: run_body_def Let_def split: sum.split option.split prod.split) (metis option.distinct(1))+
  then show ?thesis by (auto simp: run_test_def Let_def split: prod.split)
qed

text \<open>The tests of some blocks, in order, by the names an outcome has.\<close>

definition test_names :: "describe_block list \<Rightarrow> (string \<times> string) list" where
  "test_names ds = concat (map (\<lambda>d. map (\<lambda>t. (de_name d, it_name t)) (de_tests d)) ds)"

definition reported :: "test_outcome list \<Rightarrow> (string \<times> string) list" where
  "reported outcomes = map (\<lambda>oc. (to_describe oc, to_test oc)) outcomes"

lemma run_each_returns:
  assumes "\<And>t m. t \<in> set ts \<Longrightarrow> \<exists>oc m'. f t m = Some (oc, m') \<and> to_describe oc = d \<and> to_test oc = it_name t"
  shows "\<exists>ocs m'. run_each f ts m = Some (ocs, m') \<and> reported ocs = map (\<lambda>t. (d, it_name t)) ts"
  using assms
proof (induction ts arbitrary: m)
  case (Cons t ts)
  from Cons.prems [of t m] obtain oc m1 where 1: "f t m = Some (oc, m1)" "to_describe oc = d" "to_test oc = it_name t" by auto
  from Cons.IH [of m1] Cons.prems obtain ocs m2 where "run_each f ts m1 = Some (ocs, m2)"
    "reported ocs = map (\<lambda>t. (d, it_name t)) ts" by auto
  with 1 show ?case by (simp add: reported_def)
qed (simp add: reported_def)


section \<open>When a test passes\<close>

lemma check_conditions_ok:
  "check_conditions lib verbose vars run cs = Some (Inr []) \<longleftrightarrow> (\<forall>c \<in> set cs. check_condition lib verbose vars run c = Holds)"
proof (induction cs)
  case (Cons c cs)
  have "map_option (map_sum id (Cons message)) r \<noteq> Some (Inr [])" for message and r :: "(web_pipe_error + string list) option"
    by (cases r; cases "the r") auto
  then show ?case using Cons by (auto split: verdict.split)
qed simp

text \<open>
  A test passes exactly when its mocks can be evaluated, its run answers (with a route, if it
  calls one) and every assertion holds of the answer; no assertion is skipped, and an error while
  evaluating one, or of the run itself, never counts as passed.
\<close>

theorem test_passes_iff:
  assumes "run_test fuel lib verbose ts d describe_ctx describe_mocks t m = Some (oc, m')"
  shows "to_passed oc \<longleftrightarrow>
    (\<exists>mocks run m1. from_mocks lib (it_mocks t) (bind_lets lib (it_variables t) describe_ctx) = Inr mocks \<and>
       run_when fuel lib (overlay describe_mocks mocks) ts (bind_lets lib (it_variables t) describe_ctx) t m = Some (Inr run, m1) \<and>
       tr_pass run \<and>
       (\<forall>c \<in> set (it_conditions t).
          check_condition lib verbose (bind_lets lib (it_variables t) describe_ctx) run c = Holds))"
proof -
  obtain r where r: "run_body fuel lib verbose ts describe_ctx describe_mocks t m = Some (r, m')"
    "to_passed oc = (case r of Inl e \<Rightarrow> False | Inr x \<Rightarrow> fst x)"
    using assms by (auto simp: run_test_def Let_def split: option.splits prod.splits sum.splits)
  show ?thesis
    unfolding r(2) check_conditions_ok [symmetric]
    using r(1) by (auto simp: run_body_def Let_def split: option.splits sum.splits prod.splits if_splits)
qed

text \<open>
  A test of an address that no route matches never passes, not even one that asserts the status
  404 the server answers there: the run is marked as failed before its assertions are looked at.
\<close>

theorem unknown_route_never_passes:
  assumes "it_when t = CallingRoute http_method path"
    and "render lib (bind_lets lib (it_variables t) describe_ctx) path = Inr rendered"
    and "pr_at (ts_router ts) (build_test_router ts http_method) (fst (split_query rendered)) = None"
    and "run_test fuel lib verbose ts d describe_ctx describe_mocks t m = Some (oc, m')"
  shows "\<not> to_passed oc"
proof -
  have "run_when fuel lib mocks ts (bind_lets lib (it_variables t) describe_ctx) t m = Some (Inr run, m1) \<Longrightarrow> \<not> tr_pass run"
    for mocks run m1
    using assms(1-3) by (auto simp: run_when_def calling_route_def unknown_route_def Let_def split: prod.splits)
  with assms(4) show ?thesis
    by (auto simp: run_test_def run_body_def Let_def split: option.splits prod.splits sum.splits if_splits)
qed

section \<open>Mocks\<close>

lemma mocking_invoker_cong:
  assumes "\<And>name args config target pc m. name \<notin> S \<Longrightarrow> impl name args config target pc m = impl' name args config target pc m"
    and "\<And>name. name \<in> S \<Longrightarrow> map_of (mk_middleware mocks) name \<noteq> None"
  shows "mocking_invoker lib mocks impl = mocking_invoker lib mocks impl'"
proof -
  have "get_middleware_mock lib mocks name v \<noteq> None" if "name \<in> S" for name v
    using assms(2) [OF that] by (auto simp: get_middleware_mock_def split: option.splits)
  note mocked = this
  show ?thesis
  proof (intro ext)
    fix name args config target pc and m :: "('a, 'b, 'c) machine"
    show "mocking_invoker lib mocks impl name args config target pc m = mocking_invoker lib mocks impl' name args config target pc m"
      using mocked [of name "pc_state pc"] assms(1) [of name]
      by (cases "name \<in> S") (auto simp: mocking_invoker_def split: option.split)
  qed
qed

text \<open>
  Mocked middleware is never called: two implementations of the middleware that agree on
  everything that is not mocked as a whole give the same run, whatever the pipelines do and however
  deep the mocked steps are.
\<close>

theorem mocked_middleware_is_never_called:
  assumes "\<And>name args config target pc m. name \<notin> S \<Longrightarrow>
      impl name args config target pc m = env_invoker (ts_env ts) name args config target pc m"
    and "\<And>name. name \<in> S \<Longrightarrow> map_of (mk_middleware mocks) name \<noteq> None"
  shows "run_when fuel lib mocks (ts\<lparr>ts_env := (ts_env ts)\<lparr>env_invoker := impl\<rparr>\<rparr>) vars t m =
    run_when fuel lib mocks ts vars t m"
proof -
  let ?ts = "ts\<lparr>ts_env := (ts_env ts)\<lparr>env_invoker := impl\<rparr>\<rparr>"
  have "mocking_invoker lib mocks impl = mocking_invoker lib mocks (env_invoker (ts_env ts))"
    by (rule mocking_invoker_cong [OF assms]) assumption+
  then have "test_env lib mocks ?ts = test_env lib mocks ts" by (simp add: test_env_def mocked_env_def)
  then have run: "run_pipeline fuel lib mocks ?ts = run_pipeline fuel lib mocks ts"
    by (intro ext) (simp add: run_pipeline_def fresh_stores_def)
  have ctx: "test_context (ts_env ?ts) = test_context (ts_env ts)"
    by (intro ext) (simp add: test_context_def attach_thread_def)
  have router: "build_test_router ?ts = build_test_router ts" by (intro ext) (simp add: build_test_router_def)
  have parts: "ts_router ?ts = ts_router ts" "ts_percent_decode_lossy ?ts = ts_percent_decode_lossy ts"
    "ts_hash_order ?ts = ts_hash_order ts" "ts_merged ?ts = ts_merged ts" "ts_program ?ts = ts_program ts"
    by simp_all
  show ?thesis
    unfolding run_when_def calling_route_def executing_pipeline_def executing_variable_def run ctx router parts ..
qed

lemma hash_extend_lookup:
  "distinct (map fst new) \<Longrightarrow> map_of (hash_extend m new) k = (case map_of new k of Some v \<Rightarrow> Some v | None \<Rightarrow> map_of m k)"
proof (induction new arbitrary: m)
  case (Cons kv new)
  obtain k' v' where kv: "kv = (k', v')" by (cases kv)
  have "map_of (hash_extend m (kv # new)) k = map_of (hash_extend (hash_insert k' v' m) new) k"
    by (simp add: hash_extend_def kv)
  moreover have "map_of new k' = None" using Cons.prems by (simp add: kv map_of_eq_None_iff)
  moreover have "distinct (map fst new)" using Cons.prems by simp
  ultimately show ?case using Cons.IH [of "hash_insert k' v' m"] by (simp add: kv split: option.split)
qed (simp add: hash_extend_def)

definition distinct_mocks :: "mock_resolver \<Rightarrow> bool" where
  "distinct_mocks r \<longleftrightarrow> distinct (map fst (mk_middleware r)) \<and> distinct (map fst (mk_variable r)) \<and>
     distinct (map fst (mk_pipeline r))"

lemma hash_insert_distinct: "distinct (map fst m) \<Longrightarrow> distinct (map fst (hash_insert k v m))"
  by (auto simp: hash_insert_def distinct_map_filter)

lemma from_mocks_distinct:
  assumes "from_mocks lib ms vars = Inr r"
  shows "distinct_mocks r"
proof -
  have "add_mocks lib vars ms r0 = Inr r \<Longrightarrow> distinct_mocks r0 \<Longrightarrow> distinct_mocks r" for r0
  proof (induction ms arbitrary: r0)
    case (Cons x ms)
    have "distinct_mocks (add_mock x v r0)" for v
      using Cons.prems(2) hash_insert_distinct [of "mk_variable r0"] hash_insert_distinct [of "mk_middleware r0"]
        hash_insert_distinct [of "mk_pipeline r0"] by (auto simp: add_mock_def distinct_mocks_def split: option.split)
    with Cons show ?case by (auto split: sum.splits)
  qed simp
  with assms show ?thesis by (simp add: from_mocks_def empty_mocks_def distinct_mocks_def)
qed

text \<open>
  Which mock answers a step: with a result name the test's mock of that variable, else the
  block's, else one of a variable imported under that name; without any of them the test's mock of
  the middleware, else the block's. A mock of a variable in the block so comes before a mock of the
  whole middleware in the test.
\<close>

theorem mock_precedence:
  assumes "from_mocks lib ms vars = Inr test_mocks"
  shows "get_middleware_mock lib (overlay describe_mocks test_mocks) middleware input =
    (case Option.bind (result_name input) (\<lambda>name.
        case map_of (mk_variable test_mocks) (middleware, name) of
          Some v \<Rightarrow> Some v
        | None \<Rightarrow>
            (case map_of (mk_variable describe_mocks) (middleware, name) of
               Some v \<Rightarrow> Some v
             | None \<Rightarrow> map_option snd
                 (find (\<lambda>((mw, mock_var), _). mw = middleware \<and> scoped_name mock_var = Some name)
                    (tl_mock_order lib (mk_variable (overlay describe_mocks test_mocks)))))) of
       Some v \<Rightarrow> Some v
     | None \<Rightarrow>
         (case map_of (mk_middleware test_mocks) middleware of
            Some v \<Rightarrow> Some v | None \<Rightarrow> map_of (mk_middleware describe_mocks) middleware))"
proof -
  have "distinct_mocks test_mocks" by (rule from_mocks_distinct [OF assms])
  then show ?thesis
    by (cases "result_name input")
      (auto simp: get_middleware_mock_def variable_mock_def overlay_def hash_extend_lookup distinct_mocks_def split: option.splits)
qed

section \<open>The properties at work\<close>

definition sample_lib :: test_libs where
  "sample_lib = \<lparr> tl_from_str = (\<lambda>s. None), tl_render = (\<lambda>s v. Inr s), tl_regex = (\<lambda>p. Inr (\<lambda>s. s = p)),
     tl_select = (\<lambda>html sel. Inr []), tl_pretty = (\<lambda>v. []), tl_debug = (\<lambda>v. []), tl_lower = to_ascii_lowercase,
     tl_upper = (\<lambda>s. s), tl_jaq = (\<lambda>e v. JaqFirst (Some (Inr (JString e)))), tl_to_text = (\<lambda>v. []),
     tl_mock_order = (\<lambda>m. m) \<rparr>"

definition sample_setup ::
  "(cache_entry list_lru, rate_limit_entry list_lru, nat, (string \<times> pipeline \<times> string option) list) test_setup" where
  "sample_setup = \<lparr> ts_program = empty_program,
     ts_merged = empty_program\<lparr>pr_pipelines := [\<lparr> np_name = ''p'', np_pipeline = Pipeline [] \<rparr>]\<rparr>,
     ts_env = with_registry sample_libs Map.empty unavailable sample_server,
     ts_rate_ops = list_lru, ts_router = fixed_router, ts_percent_decode_lossy = (\<lambda>s. s),
     ts_hash_order = (\<lambda>m. m), ts_graphql_endpoint = None \<rparr>"

definition status_is :: "string \<Rightarrow> test_condition" where
  "status_is v = \<lparr> tc_condition_type = CondThen, tc_field = ''status'', tc_header_name = None, tc_jq_expr = None,
     tc_comparison = ''is'', tc_value = v, tc_is_call_assertion = False, tc_call_target = None, tc_selector = None,
     tc_dom_assert = None \<rparr>"

definition sample_it :: "string \<Rightarrow> when_clause \<Rightarrow> mock list \<Rightarrow> string \<Rightarrow> it_block" where
  "sample_it name clause ms status = \<lparr> it_name = name, it_mocks = ms, it_when = clause, it_variables = [], it_input = None,
     it_body = None, it_headers = None, it_cookies = None, it_stdin = None, it_args = None, it_options = None,
     it_conditions = [status_is status], it_location = default_location \<rparr>"

lemma sample_runs_return: "runs_return 20 list_lru_ok snd fst size sample_setup"
proof -
  have "size q < size p" if "q \<in> set (calls (ts_env sample_setup) p)" for p q
    by (rule calls_size [OF _ that])
      (auto simp: resolve_named_pipeline_def sample_setup_def sample_server_def Let_def
        split: prod.splits option.splits if_splits)
  moreover have "response_cache (pl_cache_ops (env_platform (ts_env sample_setup))) list_lru_ok snd fst"
    using list_cache.response_cache_axioms by (simp add: sample_setup_def sample_server_def sample_platform_def)
  moreover have "invoker_safe (ts_env sample_setup) (\<lambda>c. list_lru_ok (cs_inner c))"
    unfolding sample_setup_def test_setup.select_convs
    by (rule registry_invoker_safe [OF unavailable_mw.middleware_contract_axioms])
      (use list_cache.response_cache_axioms in \<open>simp add: sample_server_def sample_platform_def\<close>)
  moreover have "enough size 20 p" if "p \<in> test_pipelines sample_setup" for p
    using that by (auto simp: test_pipelines_def sample_setup_def empty_program_def enough_def
        create_graphql_endpoint_pipeline_def Let_def)
  ultimately show ?thesis by (simp add: runs_return_def)
qed

definition sample_block :: describe_block where
  "sample_block = \<lparr> de_name = ''d'', de_variables = [], de_mocks = [],
     de_tests = [sample_it ''a'' (ExecutingPipeline ''p'') [] ''200'', sample_it ''b'' (CallingRoute ''GET'' ''/x'') [] ''404''],
     de_location = default_location \<rparr>"


lemma sample_trim: "trim ''status'' = ''status''" "trim ''is'' = ''is''" "trim ''200'' = ''200''"
  by (rule trim_visible; simp add: visible_def)+

lemma sample_status: "check_condition sample_lib False [] (mocked_run JNull) (status_is ''200'') = Holds"
  by (simp add: check_condition_def status_is_def sample_trim render_def sample_lib_def check_status_is_def mocked_run_def
      parse_uint_def is_ascii_digit_def digits_val_def holds_if_def)

lemma sample_mocked_test:
  "run_test 20 sample_lib False sample_setup ''d'' [] (empty_mocks\<lparr>mk_pipeline := [(''p'', JNull)]\<rparr>)
     (sample_it ''a'' (ExecutingPipeline ''p'') [] ''200'') sample_cached =
   Some (\<lparr> to_describe = ''d'', to_test = ''a'', to_passed = True, to_message = [] \<rparr>, sample_cached)"
  using sample_status
  by (simp add: run_test_def run_body_def sample_it_def from_mocks_def run_when_def executing_pipeline_def bind_lets_def
      get_pipeline_mock_def overlay_def hash_extend_def empty_mocks_def mocked_run_def Let_def)

theorem test_passes_iff_witness:
  "\<exists>mocks run m1. from_mocks sample_lib [] [] = Inr mocks \<and>
     run_when 20 sample_lib (overlay (empty_mocks\<lparr>mk_pipeline := [(''p'', JNull)]\<rparr>) mocks) sample_setup []
       (sample_it ''a'' (ExecutingPipeline ''p'') [] ''200'') sample_cached = Some (Inr run, m1) \<and>
     tr_pass run \<and> check_condition sample_lib False [] run (status_is ''200'') = Holds"
  using test_passes_iff [OF sample_mocked_test] by (simp add: sample_it_def bind_lets_def)

definition mock_pg :: mock where
  "mock_pg = \<lparr> mock_target = ''pg'', mock_return_value = ''1'' \<rparr>"

theorem mock_precedence_witness:
  "get_middleware_mock sample_lib (overlay (empty_mocks\<lparr>mk_middleware := [(''pg'', JNull)]\<rparr>)
     (empty_mocks\<lparr>mk_middleware := [(''pg'', JString ''1'')]\<rparr>)) ''pg'' JNull = Some (JString ''1'')"
proof -
  have "trim ''1'' = ''1''" by (rule trim_visible) (simp_all add: visible_def)
  then have "from_mocks sample_lib [mock_pg] [] = Inr (empty_mocks\<lparr>mk_middleware := [(''pg'', JString ''1'')]\<rparr>)"
    by (simp add: from_mocks_def mock_pg_def evaluate_jq_input_def evaluate_jq_input_with_role_def between_backticks_def
        jq_evaluate_def jq_program_def sample_lib_def add_mock_def split_once_def starts_with_def empty_mocks_def
        hash_insert_def Let_def)
  from mock_precedence [OF this] show ?thesis by (simp add: result_name_def empty_mocks_def)
qed

theorem mocked_middleware_is_never_called_witness:
  "run_when 20 sample_lib (empty_mocks\<lparr>mk_middleware := [(''pg'', JNull)]\<rparr>)
     (sample_setup\<lparr>ts_env := (ts_env sample_setup)\<lparr>env_invoker := (\<lambda>name args config target pc m.
        if name = ''pg'' then (Inl (DatabaseError ''down''), pc, m)
        else env_invoker (ts_env sample_setup) name args config target pc m)\<rparr>\<rparr>) [] (sample_it ''a'' (ExecutingPipeline ''p'') [] ''200'') sample_cached =
   run_when 20 sample_lib (empty_mocks\<lparr>mk_middleware := [(''pg'', JNull)]\<rparr>) sample_setup []
     (sample_it ''a'' (ExecutingPipeline ''p'') [] ''200'') sample_cached"
  by (rule mocked_middleware_is_never_called [where S = "{''pg''}"]) simp_all

theorem unknown_route_never_passes_witness:
  "\<exists>oc m'. run_test 20 sample_lib False sample_setup ''d'' [] empty_mocks
     (sample_it ''b'' (CallingRoute ''GET'' ''/x'') [] ''404'') sample_cached = Some (oc, m') \<and> \<not> to_passed oc"
proof -
  let ?t = "sample_it ''b'' (CallingRoute ''GET'' ''/x'') [] ''404''"
  have t: "test_table (ts_router sample_setup) map_of" using fixed_tests.test_table_axioms by (simp add: sample_setup_def)
  have "list_all asserts_selector (it_conditions ?t)" by (simp add: sample_it_def status_is_def asserts_selector_def)
  from run_test_returns [OF sample_runs_return t this] obtain oc m'
    where r: "run_test 20 sample_lib False sample_setup ''d'' [] empty_mocks ?t sample_cached = Some (oc, m')" by blast
  have "\<not> to_passed oc"
  proof (rule unknown_route_never_passes [OF _ _ _ r])
    show "it_when ?t = CallingRoute ''GET'' ''/x''" by (simp add: sample_it_def)
    show "render sample_lib (bind_lets sample_lib (it_variables ?t) []) ''/x'' = Inr ''/x''" by (simp add: render_def sample_lib_def)
    show "pr_at (ts_router sample_setup) (build_test_router sample_setup ''GET'') (fst (split_query ''/x'')) = None"
      by (simp add: sample_setup_def build_test_router_def empty_program_def fixed_router_def graphql_endpoint_for_tests_def)
  qed
  with r show ?thesis by blast
qed

end
