(* ===== verification/Dap_Protocol.thy ===== *)
theory Dap_Protocol
  imports Http_Request "HOL-Library.Monad_Syntax"
begin

text \<open>
  The messages of the debug adapter protocol (\<^verbatim>\<open>src/debugger/protocol.rs\<close>): one record
  per struct the server reads or writes, with what \<^verbatim>\<open>serde\<close> derives for it. A struct is
  written field by field, an absent optional field being left out, and its field names turned to
  camel case; it is read from an object, whose other keys are ignored, or from an array of exactly
  its fields.

  An \<^verbatim>\<open>i64\<close> is a 64-bit word read with \<^const>\<open>sint\<close>. Why a value is refused is text of
  \<^verbatim>\<open>serde\<close> and does not appear here.
\<close>

type_synonym i64 = "64 word"

section \<open>Field names and values\<close>

definition to_ascii_upper :: "char \<Rightarrow> char" where
  "to_ascii_upper c = (if is_ascii_lower c then char_of ((of_char c :: nat) - 32) else c)"

fun camel_words :: "bool \<Rightarrow> string \<Rightarrow> string" where
  "camel_words up [] = []"
| "camel_words up (c # s) =
     (if c = CHR ''_'' then camel_words True s else (if up then to_ascii_upper c else c) # camel_words False s)"

definition camel_case :: "string \<Rightarrow> string" where
  "camel_case name = camel_words False name"

definition field :: "string \<Rightarrow> json \<Rightarrow> json_map" where
  "field name v = [(camel_case name, v)]"

definition skip_none :: "string \<Rightarrow> ('a \<Rightarrow> json) \<Rightarrow> 'a option \<Rightarrow> json_map" where
  "skip_none name enc v = (case v of None \<Rightarrow> [] | Some x \<Rightarrow> field name (enc x))"

definition json_i64 :: "i64 \<Rightarrow> json" where
  "json_i64 w = json_int (sint w)"

definition json_list :: "('a \<Rightarrow> json) \<Rightarrow> 'a list \<Rightarrow> json" where
  "json_list enc xs = JArray (map enc xs)"

definition struct_fields :: "string list \<Rightarrow> json \<Rightarrow> json option list option" where
  "struct_fields names j =
     (case j of
        JObject m \<Rightarrow> Some (map (\<lambda>n. map_of m (camel_case n)) names)
      | JArray xs \<Rightarrow> if length xs = length names then Some (map Some xs) else None
      | _ \<Rightarrow> None)"

definition required :: "(json \<Rightarrow> 'a option) \<Rightarrow> json option \<Rightarrow> 'a option" where
  "required dec v = (case v of None \<Rightarrow> None | Some j \<Rightarrow> dec j)"

definition optional :: "(json \<Rightarrow> 'a option) \<Rightarrow> json option \<Rightarrow> 'a option option" where
  "optional dec v =
     (case v of
        None \<Rightarrow> Some None
      | Some j \<Rightarrow> if is_null j then Some None else map_option Some (dec j))"

definition i64_of :: "json \<Rightarrow> i64 option" where
  "i64_of j = map_option word_of_int (as_i64 j)"

fun traverse :: "('a \<Rightarrow> 'b option) \<Rightarrow> 'a list \<Rightarrow> 'b list option" where
  "traverse f [] = Some []"
| "traverse f (x # xs) = (case f x of None \<Rightarrow> None | Some y \<Rightarrow> map_option ((#) y) (traverse f xs))"

definition list_of :: "(json \<Rightarrow> 'a option) \<Rightarrow> json \<Rightarrow> 'a list option" where
  "list_of dec j = (case j of JArray xs \<Rightarrow> traverse dec xs | _ \<Rightarrow> None)"

lemma traverse_cong [fundef_cong]:
  assumes "xs = ys" and "\<And>x. x \<in> set ys \<Longrightarrow> f x = g x"
  shows "traverse f xs = traverse g ys"
proof -
  have "traverse f ys = traverse g ys" using assms(2) by (induction ys) (auto split: option.splits)
  with assms(1) show ?thesis by simp
qed

lemma list_of_cong [fundef_cong]:
  "j = j' \<Longrightarrow> (\<And>x xs. j' = JArray xs \<Longrightarrow> x \<in> set xs \<Longrightarrow> f x = g x) \<Longrightarrow> list_of f j = list_of g j'"
  by (auto simp: list_of_def split: json.splits intro: traverse_cong)

lemma optional_cong [fundef_cong]:
  "v = v' \<Longrightarrow> (\<And>j. v' = Some j \<Longrightarrow> f j = g j) \<Longrightarrow> optional f v = optional g v'"
  by (auto simp: optional_def split: option.splits)

lemma skip_none_cong [fundef_cong]:
  "v = v' \<Longrightarrow> (\<And>x. v' = Some x \<Longrightarrow> f x = g x) \<Longrightarrow> skip_none n f v = skip_none n g v'"
  by (auto simp: skip_none_def split: option.splits)

lemma json_list_cong [fundef_cong]:
  "xs = ys \<Longrightarrow> (\<And>x. x \<in> set ys \<Longrightarrow> f x = g x) \<Longrightarrow> json_list f xs = json_list g ys"
  by (simp add: json_list_def)

text \<open>What a document means as a value: of a repeated key the last entry counts.\<close>

fun collapse :: "json \<Rightarrow> json" where
  "collapse (JArray xs) = JArray (map collapse xs)"
| "collapse (JObject m) = JObject (om_insert_all (map (\<lambda>(k, v). (k, collapse v)) m) [])"
| "collapse j = j"

section \<open>Requests\<close>

record request =
  rq_seq :: i64
  rq_command :: string
  rq_arguments :: "json option"

text \<open>
  A request is read from its document, in which a field of the struct must not appear twice; its
  names are written as they are (the struct has no \<^verbatim>\<open>rename_all\<close>).
\<close>

definition request_names :: "string list" where
  "request_names = [''seq'', ''command'', ''arguments'']"

definition repeats_field :: "string list \<Rightarrow> json \<Rightarrow> bool" where
  "repeats_field names doc =
     (case doc of JObject m \<Rightarrow> \<not> distinct (filter (\<lambda>k. k \<in> set names) (map fst m)) | _ \<Rightarrow> False)"

definition request_of :: "json \<Rightarrow> request option" where
  "request_of doc =
     (if repeats_field request_names doc then None
      else do {
        fs \<leftarrow> struct_fields request_names doc;
        n \<leftarrow> required i64_of (fs ! 0);
        command \<leftarrow> required as_str (fs ! 1);
        arguments \<leftarrow> optional (\<lambda>j. Some (collapse j)) (fs ! 2);
        Some \<lparr> rq_seq = n, rq_command = command, rq_arguments = arguments \<rparr>
      })"

definition request_json :: "request \<Rightarrow> json" where
  "request_json r =
     JObject ([(''seq'', json_i64 (rq_seq r)), (''command'', JString (rq_command r))] @
              (case rq_arguments r of None \<Rightarrow> [] | Some a \<Rightarrow> [(''arguments'', a)]))"

section \<open>Sources and breakpoints\<close>

record checksum =
  ck_algorithm :: string
  ck_checksum :: string

definition checksum_json :: "checksum \<Rightarrow> json" where
  "checksum_json c = JObject (field ''algorithm'' (JString (ck_algorithm c)) @ field ''checksum'' (JString (ck_checksum c)))"

definition checksum_of :: "json \<Rightarrow> checksum option" where
  "checksum_of j = do {
     fs \<leftarrow> struct_fields [''algorithm'', ''checksum''] j;
     a \<leftarrow> required as_str (fs ! 0);
     c \<leftarrow> required as_str (fs ! 1);
     Some \<lparr> ck_algorithm = a, ck_checksum = c \<rparr>
   }"

datatype source = Source
  (src_name: "string option")
  (src_path: "string option")
  (src_source_reference: "i64 option")
  (src_presentation_hint: "string option")
  (src_origin: "string option")
  (src_sources: "source list option")
  (src_adapter_data: "json option")
  (src_checksums: "checksum list option")

definition source_names :: "string list" where
  "source_names = [''name'', ''path'', ''source_reference'', ''presentation_hint'', ''origin'', ''sources'',
     ''adapter_data'', ''checksums'']"

lemma size_sources [termination_simp]:
  "s \<in> set ss \<Longrightarrow> size s < Suc (size_option (size_list size) (Some ss))"
  using size_list_estimation' [of s ss "size s" size] by simp

fun source_json :: "source \<Rightarrow> json" where
  "source_json (Source name path ref hint origin ss data sums) =
     JObject (skip_none ''name'' JString name @ skip_none ''path'' JString path @
       skip_none ''source_reference'' json_i64 ref @ skip_none ''presentation_hint'' JString hint @
       skip_none ''origin'' JString origin @ skip_none ''sources'' (json_list source_json) ss @
       skip_none ''adapter_data'' id data @ skip_none ''checksums'' (json_list checksum_json) sums)"

lemma struct_field_size:
  assumes "struct_fields names j = Some fs" and "i < length fs" and "fs ! i = Some (JArray xs)" and "x \<in> set xs"
  shows "size x < size j"
proof -
  have le: "size y \<le> size_list size ys" if "y \<in> set ys" for y and ys :: "json list"
    using that by (rule size_list_estimation') simp
  have x: "size x < size (JArray xs)" using le [OF assms(4)] by simp
  show ?thesis
  proof (cases j)
    case (JArray ys)
    with assms have "JArray xs \<in> set ys"
      by (auto simp: struct_fields_def split: if_splits) (metis nth_mem)
    from le [OF this] have "size (JArray xs) < size (JArray ys)" by simp
    with x JArray show ?thesis by simp
  next
    case (JObject m)
    with assms obtain k where "map_of m k = Some (JArray xs)" by (auto simp: struct_fields_def)
    then have "(k, JArray xs) \<in> set m" by (rule map_of_SomeD)
    then have "size (JArray xs) < size (JObject m)"
      using size_list_estimation' [of "(k, JArray xs)" m "size (JArray xs)" "size_prod (\<lambda>_. 0) size"] by simp
    with x JObject show ?thesis by simp
  qed (use assms in \<open>auto simp: struct_fields_def\<close>)
qed

text \<open>Reading a source: its \<^verbatim>\<open>sources\<close> are read the same way.\<close>

function source_of :: "json \<Rightarrow> source option" where
  "source_of j =
     (case struct_fields source_names j of
        None \<Rightarrow> None
      | Some fs \<Rightarrow> do {
          name \<leftarrow> optional as_str (fs ! 0);
          path \<leftarrow> optional as_str (fs ! 1);
          ref \<leftarrow> optional i64_of (fs ! 2);
          hint \<leftarrow> optional as_str (fs ! 3);
          origin \<leftarrow> optional as_str (fs ! 4);
          ss \<leftarrow> optional (list_of source_of) (fs ! 5);
          data \<leftarrow> optional Some (fs ! 6);
          sums \<leftarrow> optional (list_of checksum_of) (fs ! 7);
          Some (Source name path ref hint origin ss data sums)
        })"
  by pat_completeness auto

lemma struct_fields_length: "struct_fields names j = Some fs \<Longrightarrow> length fs = length names"
  by (auto simp: struct_fields_def split: json.splits if_splits)

termination source_of
proof (relation "measure size", goal_cases)
  case 1
  show ?case by simp
next
  case (2 j fs name path ref hint origin child element children)
  then have "length fs = 8" using struct_fields_length [of source_names j fs] by (simp add: source_names_def)
  with 2 show ?case using struct_field_size [of source_names j fs 5 children element] by simp
qed

declare source_of.simps [simp del]

record source_breakpoint =
  sb_line :: i64
  sb_column :: "i64 option"
  sb_condition :: "string option"
  sb_hit_condition :: "string option"
  sb_log_message :: "string option"

definition source_breakpoint_json :: "source_breakpoint \<Rightarrow> json" where
  "source_breakpoint_json b =
     JObject (field ''line'' (json_i64 (sb_line b)) @ skip_none ''column'' json_i64 (sb_column b) @
       skip_none ''condition'' JString (sb_condition b) @ skip_none ''hit_condition'' JString (sb_hit_condition b) @
       skip_none ''log_message'' JString (sb_log_message b))"

definition source_breakpoint_of :: "json \<Rightarrow> source_breakpoint option" where
  "source_breakpoint_of j = do {
     fs \<leftarrow> struct_fields [''line'', ''column'', ''condition'', ''hit_condition'', ''log_message''] j;
     line \<leftarrow> required i64_of (fs ! 0);
     column \<leftarrow> optional i64_of (fs ! 1);
     condition \<leftarrow> optional as_str (fs ! 2);
     hit \<leftarrow> optional as_str (fs ! 3);
     log \<leftarrow> optional as_str (fs ! 4);
     Some \<lparr> sb_line = line, sb_column = column, sb_condition = condition, sb_hit_condition = hit, sb_log_message = log \<rparr>
   }"

record set_breakpoints_arguments =
  sba_source :: source
  sba_breakpoints :: "source_breakpoint list option"
  sba_lines :: "i64 list option"
  sba_source_modified :: "bool option"

definition set_breakpoints_arguments_json :: "set_breakpoints_arguments \<Rightarrow> json" where
  "set_breakpoints_arguments_json a =
     JObject (field ''source'' (source_json (sba_source a)) @
       skip_none ''breakpoints'' (json_list source_breakpoint_json) (sba_breakpoints a) @
       skip_none ''lines'' (json_list json_i64) (sba_lines a) @
       skip_none ''source_modified'' JBool (sba_source_modified a))"

definition set_breakpoints_arguments_of :: "json \<Rightarrow> set_breakpoints_arguments option" where
  "set_breakpoints_arguments_of j = do {
     fs \<leftarrow> struct_fields [''source'', ''breakpoints'', ''lines'', ''source_modified''] j;
     src \<leftarrow> required source_of (fs ! 0);
     bps \<leftarrow> optional (list_of source_breakpoint_of) (fs ! 1);
     ls \<leftarrow> optional (list_of i64_of) (fs ! 2);
     modified \<leftarrow> optional as_bool (fs ! 3);
     Some \<lparr> sba_source = src, sba_breakpoints = bps, sba_lines = ls, sba_source_modified = modified \<rparr>
   }"

record breakpoint =
  bp_id :: "i64 option"
  bp_verified :: bool
  bp_message :: "string option"
  bp_source :: "source option"
  bp_line :: "i64 option"
  bp_column :: "i64 option"
  bp_end_line :: "i64 option"
  bp_end_column :: "i64 option"
  bp_instruction_reference :: "string option"
  bp_offset :: "i64 option"

definition breakpoint_json :: "breakpoint \<Rightarrow> json" where
  "breakpoint_json b =
     JObject (skip_none ''id'' json_i64 (bp_id b) @ field ''verified'' (JBool (bp_verified b)) @
       skip_none ''message'' JString (bp_message b) @ skip_none ''source'' source_json (bp_source b) @
       skip_none ''line'' json_i64 (bp_line b) @ skip_none ''column'' json_i64 (bp_column b) @
       skip_none ''end_line'' json_i64 (bp_end_line b) @ skip_none ''end_column'' json_i64 (bp_end_column b) @
       skip_none ''instruction_reference'' JString (bp_instruction_reference b) @
       skip_none ''offset'' json_i64 (bp_offset b))"

section \<open>Threads, stacks and scopes\<close>

record dap_thread =
  th_id :: i64
  th_name :: string

definition dap_thread_json :: "dap_thread \<Rightarrow> json" where
  "dap_thread_json t = JObject (field ''id'' (json_i64 (th_id t)) @ field ''name'' (JString (th_name t)))"

record stack_frame_format =
  sff_parameters :: "bool option"
  sff_parameter_types :: "bool option"
  sff_parameter_names :: "bool option"
  sff_parameter_values :: "bool option"
  sff_line :: "bool option"
  sff_module :: "bool option"
  sff_include_all :: "bool option"

definition stack_frame_format_of :: "json \<Rightarrow> stack_frame_format option" where
  "stack_frame_format_of j = do {
     fs \<leftarrow> struct_fields [''parameters'', ''parameter_types'', ''parameter_names'', ''parameter_values'', ''line'',
            ''module'', ''include_all''] j;
     p \<leftarrow> optional as_bool (fs ! 0);
     types \<leftarrow> optional as_bool (fs ! 1);
     names \<leftarrow> optional as_bool (fs ! 2);
     values \<leftarrow> optional as_bool (fs ! 3);
     line \<leftarrow> optional as_bool (fs ! 4);
     module \<leftarrow> optional as_bool (fs ! 5);
     all \<leftarrow> optional as_bool (fs ! 6);
     Some \<lparr> sff_parameters = p, sff_parameter_types = types, sff_parameter_names = names,
       sff_parameter_values = values, sff_line = line, sff_module = module, sff_include_all = all \<rparr>
   }"

record stack_trace_arguments =
  sta_thread_id :: i64
  sta_start_frame :: "i64 option"
  sta_levels :: "i64 option"
  sta_format :: "stack_frame_format option"

definition stack_trace_arguments_of :: "json \<Rightarrow> stack_trace_arguments option" where
  "stack_trace_arguments_of j = do {
     fs \<leftarrow> struct_fields [''thread_id'', ''start_frame'', ''levels'', ''format''] j;
     thread \<leftarrow> required i64_of (fs ! 0);
     start \<leftarrow> optional i64_of (fs ! 1);
     levels \<leftarrow> optional i64_of (fs ! 2);
     format \<leftarrow> optional stack_frame_format_of (fs ! 3);
     Some \<lparr> sta_thread_id = thread, sta_start_frame = start, sta_levels = levels, sta_format = format \<rparr>
   }"

record stack_frame =
  sf_id :: i64
  sf_name :: string
  sf_source :: "source option"
  sf_line :: i64
  sf_column :: i64
  sf_end_line :: "i64 option"
  sf_end_column :: "i64 option"
  sf_can_restart :: "bool option"
  sf_instruction_pointer_reference :: "string option"
  sf_module_id :: "json option"
  sf_presentation_hint :: "string option"

definition stack_frame_json :: "stack_frame \<Rightarrow> json" where
  "stack_frame_json f =
     JObject (field ''id'' (json_i64 (sf_id f)) @ field ''name'' (JString (sf_name f)) @
       skip_none ''source'' source_json (sf_source f) @
       field ''line'' (json_i64 (sf_line f)) @ field ''column'' (json_i64 (sf_column f)) @
       skip_none ''end_line'' json_i64 (sf_end_line f) @ skip_none ''end_column'' json_i64 (sf_end_column f) @
       skip_none ''can_restart'' JBool (sf_can_restart f) @
       skip_none ''instruction_pointer_reference'' JString (sf_instruction_pointer_reference f) @
       skip_none ''module_id'' id (sf_module_id f) @
       skip_none ''presentation_hint'' JString (sf_presentation_hint f))"

definition scopes_arguments_of :: "json \<Rightarrow> i64 option" where
  "scopes_arguments_of j = do { fs \<leftarrow> struct_fields [''frame_id''] j; required i64_of (fs ! 0) }"

record scope =
  sc_name :: string
  sc_presentation_hint :: "string option"
  sc_variables_reference :: i64
  sc_named_variables :: "i64 option"
  sc_indexed_variables :: "i64 option"
  sc_expensive :: bool
  sc_source :: "source option"
  sc_line :: "i64 option"
  sc_column :: "i64 option"
  sc_end_line :: "i64 option"
  sc_end_column :: "i64 option"

definition scope_json :: "scope \<Rightarrow> json" where
  "scope_json s =
     JObject (field ''name'' (JString (sc_name s)) @ skip_none ''presentation_hint'' JString (sc_presentation_hint s) @
       field ''variables_reference'' (json_i64 (sc_variables_reference s)) @
       skip_none ''named_variables'' json_i64 (sc_named_variables s) @
       skip_none ''indexed_variables'' json_i64 (sc_indexed_variables s) @
       field ''expensive'' (JBool (sc_expensive s)) @ skip_none ''source'' source_json (sc_source s) @
       skip_none ''line'' json_i64 (sc_line s) @ skip_none ''column'' json_i64 (sc_column s) @
       skip_none ''end_line'' json_i64 (sc_end_line s) @ skip_none ''end_column'' json_i64 (sc_end_column s))"

section \<open>Variables\<close>

record value_format =
  vf_hex :: "bool option"

definition value_format_of :: "json \<Rightarrow> value_format option" where
  "value_format_of j = do {
     fs \<leftarrow> struct_fields [''hex''] j;
     hex \<leftarrow> optional as_bool (fs ! 0);
     Some \<lparr> vf_hex = hex \<rparr>
   }"

record variables_arguments =
  va_variables_reference :: i64
  va_filter :: "string option"
  va_start :: "i64 option"
  va_count :: "i64 option"
  va_format :: "value_format option"

definition variables_arguments_of :: "json \<Rightarrow> variables_arguments option" where
  "variables_arguments_of j = do {
     fs \<leftarrow> struct_fields [''variables_reference'', ''filter'', ''start'', ''count'', ''format''] j;
     ref \<leftarrow> required i64_of (fs ! 0);
     filt \<leftarrow> optional as_str (fs ! 1);
     start \<leftarrow> optional i64_of (fs ! 2);
     count \<leftarrow> optional i64_of (fs ! 3);
     format \<leftarrow> optional value_format_of (fs ! 4);
     Some \<lparr> va_variables_reference = ref, va_filter = filt, va_start = start, va_count = count, va_format = format \<rparr>
   }"

record variable_presentation_hint =
  vph_kind :: "string option"
  vph_attributes :: "string list option"
  vph_visibility :: "string option"

definition variable_presentation_hint_json :: "variable_presentation_hint \<Rightarrow> json" where
  "variable_presentation_hint_json h =
     JObject (skip_none ''kind'' JString (vph_kind h) @ skip_none ''attributes'' (json_list JString) (vph_attributes h) @
       skip_none ''visibility'' JString (vph_visibility h))"

record dap_variable =
  dv_name :: string
  dv_value :: string
  dv_type :: "string option"
  dv_presentation_hint :: "variable_presentation_hint option"
  dv_evaluate_name :: "string option"
  dv_variables_reference :: i64
  dv_named_variables :: "i64 option"
  dv_indexed_variables :: "i64 option"
  dv_memory_reference :: "string option"

definition dap_variable_json :: "dap_variable \<Rightarrow> json" where
  "dap_variable_json v =
     JObject (field ''name'' (JString (dv_name v)) @ field ''value'' (JString (dv_value v)) @
       skip_none ''type_'' JString (dv_type v) @
       skip_none ''presentation_hint'' variable_presentation_hint_json (dv_presentation_hint v) @
       skip_none ''evaluate_name'' JString (dv_evaluate_name v) @
       field ''variables_reference'' (json_i64 (dv_variables_reference v)) @
       skip_none ''named_variables'' json_i64 (dv_named_variables v) @
       skip_none ''indexed_variables'' json_i64 (dv_indexed_variables v) @
       skip_none ''memory_reference'' JString (dv_memory_reference v))"

record set_variable_arguments =
  sva_variables_reference :: i64
  sva_name :: string
  sva_value :: string
  sva_format :: "value_format option"

definition set_variable_arguments_of :: "json \<Rightarrow> set_variable_arguments option" where
  "set_variable_arguments_of j = do {
     fs \<leftarrow> struct_fields [''variables_reference'', ''name'', ''value'', ''format''] j;
     ref \<leftarrow> required i64_of (fs ! 0);
     name \<leftarrow> required as_str (fs ! 1);
     val \<leftarrow> required as_str (fs ! 2);
     format \<leftarrow> optional value_format_of (fs ! 3);
     Some \<lparr> sva_variables_reference = ref, sva_name = name, sva_value = val, sva_format = format \<rparr>
   }"

record set_variable_response_body =
  svr_value :: string
  svr_type :: "string option"
  svr_variables_reference :: "i64 option"
  svr_named_variables :: "i64 option"
  svr_indexed_variables :: "i64 option"

definition set_variable_response_body_json :: "set_variable_response_body \<Rightarrow> json" where
  "set_variable_response_body_json b =
     JObject (field ''value'' (JString (svr_value b)) @ skip_none ''type_'' JString (svr_type b) @
       skip_none ''variables_reference'' json_i64 (svr_variables_reference b) @
       skip_none ''named_variables'' json_i64 (svr_named_variables b) @
       skip_none ''indexed_variables'' json_i64 (svr_indexed_variables b))"

record evaluate_arguments =
  ea_expression :: string
  ea_frame_id :: "i64 option"
  ea_context :: "string option"
  ea_format :: "value_format option"

definition evaluate_arguments_of :: "json \<Rightarrow> evaluate_arguments option" where
  "evaluate_arguments_of j = do {
     fs \<leftarrow> struct_fields [''expression'', ''frame_id'', ''context'', ''format''] j;
     expression \<leftarrow> required as_str (fs ! 0);
     frame \<leftarrow> optional i64_of (fs ! 1);
     context \<leftarrow> optional as_str (fs ! 2);
     format \<leftarrow> optional value_format_of (fs ! 3);
     Some \<lparr> ea_expression = expression, ea_frame_id = frame, ea_context = context, ea_format = format \<rparr>
   }"

record evaluate_response_body =
  er_result :: string
  er_type :: "string option"
  er_presentation_hint :: "variable_presentation_hint option"
  er_variables_reference :: i64
  er_named_variables :: "i64 option"
  er_indexed_variables :: "i64 option"

definition evaluate_response_body_json :: "evaluate_response_body \<Rightarrow> json" where
  "evaluate_response_body_json b =
     JObject (field ''result'' (JString (er_result b)) @ skip_none ''type_'' JString (er_type b) @
       skip_none ''presentation_hint'' variable_presentation_hint_json (er_presentation_hint b) @
       field ''variables_reference'' (json_i64 (er_variables_reference b)) @
       skip_none ''named_variables'' json_i64 (er_named_variables b) @
       skip_none ''indexed_variables'' json_i64 (er_indexed_variables b))"

section \<open>Resuming a thread\<close>

record continue_arguments =
  ca_thread_id :: i64
  ca_single_thread :: "bool option"

definition continue_arguments_of :: "json \<Rightarrow> continue_arguments option" where
  "continue_arguments_of j = do {
     fs \<leftarrow> struct_fields [''thread_id'', ''single_thread''] j;
     thread \<leftarrow> required i64_of (fs ! 0);
     single \<leftarrow> optional as_bool (fs ! 1);
     Some \<lparr> ca_thread_id = thread, ca_single_thread = single \<rparr>
   }"

record next_arguments =
  na_thread_id :: i64
  na_single_thread :: "bool option"
  na_granularity :: "string option"

definition next_arguments_of :: "json \<Rightarrow> next_arguments option" where
  "next_arguments_of j = do {
     fs \<leftarrow> struct_fields [''thread_id'', ''single_thread'', ''granularity''] j;
     thread \<leftarrow> required i64_of (fs ! 0);
     single \<leftarrow> optional as_bool (fs ! 1);
     granularity \<leftarrow> optional as_str (fs ! 2);
     Some \<lparr> na_thread_id = thread, na_single_thread = single, na_granularity = granularity \<rparr>
   }"

record step_in_arguments =
  sia_thread_id :: i64
  sia_single_thread :: "bool option"
  sia_target_id :: "i64 option"
  sia_granularity :: "string option"

definition step_in_arguments_of :: "json \<Rightarrow> step_in_arguments option" where
  "step_in_arguments_of j = do {
     fs \<leftarrow> struct_fields [''thread_id'', ''single_thread'', ''target_id'', ''granularity''] j;
     thread \<leftarrow> required i64_of (fs ! 0);
     single \<leftarrow> optional as_bool (fs ! 1);
     target \<leftarrow> optional i64_of (fs ! 2);
     granularity \<leftarrow> optional as_str (fs ! 3);
     Some \<lparr> sia_thread_id = thread, sia_single_thread = single, sia_target_id = target, sia_granularity = granularity \<rparr>
   }"

record step_out_arguments =
  soa_thread_id :: i64
  soa_single_thread :: "bool option"
  soa_granularity :: "string option"

definition step_out_arguments_of :: "json \<Rightarrow> step_out_arguments option" where
  "step_out_arguments_of j = do {
     fs \<leftarrow> struct_fields [''thread_id'', ''single_thread'', ''granularity''] j;
     thread \<leftarrow> required i64_of (fs ! 0);
     single \<leftarrow> optional as_bool (fs ! 1);
     granularity \<leftarrow> optional as_str (fs ! 2);
     Some \<lparr> soa_thread_id = thread, soa_single_thread = single, soa_granularity = granularity \<rparr>
   }"

section \<open>Events and capabilities\<close>

record stopped_event_body =
  seb_reason :: string
  seb_description :: "string option"
  seb_thread_id :: "i64 option"
  seb_preserve_focus_hint :: "bool option"
  seb_text :: "string option"
  seb_all_threads_stopped :: "bool option"
  seb_hit_breakpoint_ids :: "i64 list option"

definition stopped_event_body_json :: "stopped_event_body \<Rightarrow> json" where
  "stopped_event_body_json b =
     JObject (field ''reason'' (JString (seb_reason b)) @ skip_none ''description'' JString (seb_description b) @
       skip_none ''thread_id'' json_i64 (seb_thread_id b) @
       skip_none ''preserve_focus_hint'' JBool (seb_preserve_focus_hint b) @
       skip_none ''text'' JString (seb_text b) @
       skip_none ''all_threads_stopped'' JBool (seb_all_threads_stopped b) @
       skip_none ''hit_breakpoint_ids'' (json_list json_i64) (seb_hit_breakpoint_ids b))"

text \<open>The bodies with a single field, and \<^verbatim>\<open>StackTraceResponseBody\<close>.\<close>

definition set_breakpoints_response_json :: "breakpoint list \<Rightarrow> json" where
  "set_breakpoints_response_json bps = JObject (field ''breakpoints'' (json_list breakpoint_json bps))"

definition threads_response_json :: "dap_thread list \<Rightarrow> json" where
  "threads_response_json ts = JObject (field ''threads'' (json_list dap_thread_json ts))"

definition stack_trace_response_json :: "stack_frame list \<Rightarrow> i64 option \<Rightarrow> json" where
  "stack_trace_response_json frames frame_count =
     JObject (field ''stack_frames'' (json_list stack_frame_json frames) @ skip_none ''total_frames'' json_i64 frame_count)"

definition scopes_response_json :: "scope list \<Rightarrow> json" where
  "scopes_response_json ss = JObject (field ''scopes'' (json_list scope_json ss))"

definition variables_response_json :: "dap_variable list \<Rightarrow> json" where
  "variables_response_json vs = JObject (field ''variables'' (json_list dap_variable_json vs))"

definition continue_response_json :: "bool option \<Rightarrow> json" where
  "continue_response_json all = JObject (skip_none ''all_threads_continued'' JBool all)"

text \<open>
  \<^verbatim>\<open>Capabilities\<close>: every field is an optional flag, written as null when absent. The server
  sets all of them; the three listed are true.
\<close>

definition capability_names :: "string list" where
  "capability_names =
     [''supports_configuration_done_request'', ''supports_function_breakpoints'',
      ''supports_conditional_breakpoints'', ''supports_hit_conditional_breakpoints'',
      ''supports_evaluate_for_hovers'', ''supports_step_back'', ''supports_set_variable'',
      ''supports_restart_frame'', ''supports_goto_targets_request'', ''supports_step_in_targets_request'',
      ''supports_completions_request'', ''supports_modules_request'', ''supports_restart_request'',
      ''supports_exception_options'', ''supports_value_formatting_options'',
      ''supports_exception_info_request'', ''support_terminate_debuggee'', ''support_suspend_debuggee'',
      ''supports_delayed_stack_trace_loading'', ''supports_loaded_sources_request'', ''supports_log_points'',
      ''supports_terminate_threads_request'', ''supports_set_expression'', ''supports_terminate_request'',
      ''supports_data_breakpoints'', ''supports_read_memory_request'', ''supports_write_memory_request'',
      ''supports_disassemble_request'', ''supports_cancel_request'', ''supports_breakpoint_locations_request'',
      ''supports_clipboard_context'', ''supports_stepping_granularity'', ''supports_instruction_breakpoints'',
      ''supports_exception_filter_options'']"

definition capabilities_json :: "(string \<Rightarrow> bool option) \<Rightarrow> json" where
  "capabilities_json flag =
     JObject (concat (map (\<lambda>n. field n (case flag n of None \<Rightarrow> JNull | Some b \<Rightarrow> JBool b)) capability_names))"

section \<open>What is written is read back\<close>

lemma field_lookup:
  "map_of (field n v) k = (if camel_case n = k then Some v else None)"
  "camel_case n = k \<Longrightarrow> map_of (field n v @ rest) k = Some v"
  "camel_case n \<noteq> k \<Longrightarrow> map_of (field n v @ rest) k = map_of rest k"
  by (simp_all add: field_def)

lemma skip_none_lookup:
  "map_of (skip_none n enc v) k = (if camel_case n = k then map_option enc v else None)"
  "camel_case n = k \<Longrightarrow> map_of rest k = None \<Longrightarrow> map_of (skip_none n enc v @ rest) k = map_option enc v"
  "camel_case n \<noteq> k \<Longrightarrow> map_of (skip_none n enc v @ rest) k = map_of rest k"
  by (cases v; simp add: skip_none_def field_def map_add_def)+

lemma optional_map [simp]:
  assumes "\<And>x. v = Some x \<Longrightarrow> dec (enc x) = Some x" and "\<And>x. v = Some x \<Longrightarrow> \<not> is_null (enc x)"
  shows "optional dec (map_option enc v) = Some v"
  using assms by (cases v) (simp_all add: optional_def)

lemma traverse_map: "(\<And>x. x \<in> set xs \<Longrightarrow> dec (enc x) = Some x) \<Longrightarrow> traverse dec (map enc xs) = Some xs"
  by (induction xs) auto

lemma list_of_json_list: "(\<And>x. x \<in> set xs \<Longrightarrow> dec (enc x) = Some x) \<Longrightarrow> list_of dec (json_list enc xs) = Some xs"
  by (simp add: list_of_def json_list_def traverse_map)

lemma i64_json_i64: "i64_of (json_i64 w) = Some w"
proof (cases "0 \<le> sint w")
  case True
  have lt: "sint w < 2 ^ 63" using sint_lt [of w] by simp
  have "take_bit 64 (sint w) = sint w" using True lt by (intro take_bit_int_eq_self) simp_all
  then have "uint w = sint w" using uint_sint [of w] by simp
  then have u: "uint (word_of_int (sint w) :: u64) = sint w" by simp
  then have "unat (word_of_int (sint w) :: u64) < 2 ^ 63"
    using lt True unfolding unat_eq_nat_uint by (simp add: nat_less_iff)
  with u True show ?thesis by (simp add: i64_of_def json_i64_def json_int_def as_i64_def)
next
  case False
  then show ?thesis by (simp add: i64_of_def json_i64_def json_int_def as_i64_def)
qed

lemma json_not_null [simp]:
  "\<not> is_null (JString s)" "\<not> is_null (JBool b)" "\<not> is_null (json_i64 w)" "\<not> is_null (json_list enc xs)"
  "\<not> is_null (JObject m)"
  by (simp_all add: is_null_def json_i64_def json_int_def json_list_def)

lemmas struct_simps = struct_fields_def required_def field_lookup skip_none_lookup camel_case_def to_ascii_upper_def is_ascii_lower_def

lemma as_bool_JBool [simp]: "as_bool (JBool b) = Some b"
  by (simp add: as_bool_def)

lemma source_breakpoint_read: "source_breakpoint_of (source_breakpoint_json b) = Some b"
  by (simp add: source_breakpoint_of_def source_breakpoint_json_def struct_simps i64_json_i64 del: map_of_append)

lemma checksum_read: "checksum_of (checksum_json c) = Some c"
  by (simp add: checksum_of_def checksum_json_def struct_simps del: map_of_append)

fun clean_source :: "source \<Rightarrow> bool" where
  "clean_source (Source name path ref hint origin ss data sums) =
     ((case ss of None \<Rightarrow> True | Some l \<Rightarrow> list_all clean_source l) \<and> data \<noteq> Some JNull)"

lemma source_read: "clean_source s \<Longrightarrow> source_of (source_json s) = Some s"
proof (induction s)
  case (Source name path ref hint origin ss data sums)
  have ss: "optional (list_of source_of) (map_option (json_list source_json) ss) = Some ss"
    using Source by (intro optional_map list_of_json_list) (auto simp: list_all_iff)
  have data: "optional Some (map_option id data) = Some data"
    using Source.prems by (intro optional_map) (auto simp: is_null_def)
  have sums: "optional (list_of checksum_of) (map_option (json_list checksum_json) sums) = Some sums"
    by (intro optional_map list_of_json_list) (auto simp: checksum_read)
  show ?case
    by (subst source_of.simps)
      (simp add: source_names_def struct_simps i64_json_i64 ss data sums del: map_of_append)
qed

lemma collapse_wf: "wf_json j \<Longrightarrow> collapse j = j"
proof (induction j)
  case (JArray xs)
  then have "map collapse xs = map id xs" by (intro map_cong) auto
  then show ?case by simp
next
  case (JObject m)
  have "map (\<lambda>(k, v). (k, collapse v)) m = map id m" using JObject by (intro map_cong) auto
  then have "map (\<lambda>(k, v). (k, collapse v)) m = m" by simp
  with JObject.prems om_insert_all_fresh [of m "[]"] show ?case by simp
qed simp_all

lemma request_read:
  assumes "\<And>a. rq_arguments r = Some a \<Longrightarrow> wf_json a \<and> \<not> is_null a"
  shows "request_of (request_json r) = Some r"
proof -
  have "optional (\<lambda>j. Some (collapse j)) (rq_arguments r) = Some (rq_arguments r)"
    using assms by (cases "rq_arguments r") (auto simp: optional_def collapse_wf)
  then show ?thesis
    by (cases "rq_arguments r")
      (simp_all add: request_of_def request_json_def repeats_field_def request_names_def struct_simps i64_json_i64)
qed

text \<open>
  What a client writes is what the server reads: the arguments of setBreakpoints, with a source
  whose adapter data is not a bare null at any depth, are read back exactly as they were written.
\<close>

theorem set_breakpoints_read_back:
  assumes "clean_source (sba_source a)"
  shows "set_breakpoints_arguments_of (set_breakpoints_arguments_json a) = Some a"
proof -
  have "optional (list_of source_breakpoint_of) (map_option (json_list source_breakpoint_json) (sba_breakpoints a)) = Some (sba_breakpoints a)"
    by (intro optional_map list_of_json_list) (auto simp: source_breakpoint_read)
  moreover have "optional (list_of i64_of) (map_option (json_list json_i64) (sba_lines a)) = Some (sba_lines a)"
    by (intro optional_map list_of_json_list) (auto simp: i64_json_i64)
  ultimately show ?thesis
    by (simp add: set_breakpoints_arguments_of_def set_breakpoints_arguments_json_def struct_simps source_read [OF assms]
          del: map_of_append)
qed

theorem set_breakpoints_read_back_witness:
  "set_breakpoints_arguments_of (set_breakpoints_arguments_json
     \<lparr> sba_source = Source None (Some ''/a.wp'') None None None (Some [Source (Some ''b'') None None None None None None None]) None None,
       sba_breakpoints = Some [\<lparr> sb_line = 3, sb_column = None, sb_condition = None, sb_hit_condition = None, sb_log_message = None \<rparr>],
       sba_lines = Some [3], sba_source_modified = Some False \<rparr>) =
   Some \<lparr> sba_source = Source None (Some ''/a.wp'') None None None (Some [Source (Some ''b'') None None None None None None None]) None None,
       sba_breakpoints = Some [\<lparr> sb_line = 3, sb_column = None, sb_condition = None, sb_hit_condition = None, sb_log_message = None \<rparr>],
       sba_lines = Some [3], sba_source_modified = Some False \<rparr>"
  by (rule set_breakpoints_read_back) simp

end
