(* ===== verification/Dap_Framing.thy ===== *)
theory Dap_Framing
  imports Dap_Protocol Exec_Env
begin

text \<open>
  How messages travel on the debugger's connection (\<^verbatim>\<open>read_message\<close> and the framing of
  \<^verbatim>\<open>send_message\<close> in \<^verbatim>\<open>src/debugger/dap_server.rs\<close>): headers up to an empty
  line, of which one gives the body's length in bytes, then the body. The input is what the client
  writes until it closes the connection. What the JSON library, the jq engine, the file system and
  the operating system answer are arguments.
\<close>

record dap_libs =
  dl_parse :: "string \<Rightarrow> string + json"
  dl_to_text :: "json \<Rightarrow> string"
  dl_reason :: "string \<Rightarrow> json \<Rightarrow> string"
  dl_utf8_reason :: "string \<Rightarrow> string"
  dl_read_error :: string
  dl_jaq :: "string \<Rightarrow> json \<Rightarrow> jaq_outcome"
  dl_read_file :: "string \<Rightarrow> string + string"
  dl_thread_order :: "u64 list \<Rightarrow> u64 list"

section \<open>Bytes and characters\<close>

text \<open>\<^verbatim>\<open>headers.push(buf[0] as char)\<close>: a byte is the character of that number.\<close>

definition latin1_char :: "char \<Rightarrow> string" where
  "latin1_char c =
     (let n = (of_char c :: nat) in if n < 128 then [c] else [char_of (192 + n div 64), char_of (128 + n mod 64)])"

text \<open>\<^verbatim>\<open>String::from_utf8\<close> succeeds: only well-formed sequences of one to four bytes.\<close>

definition byte_in :: "nat \<Rightarrow> nat \<Rightarrow> char \<Rightarrow> bool" where
  "byte_in lo hi c \<longleftrightarrow> lo \<le> (of_char c :: nat) \<and> (of_char c :: nat) \<le> hi"

fun utf8_valid :: "string \<Rightarrow> bool" where
  "utf8_valid [] = True"
| "utf8_valid (a # s) =
     (if byte_in 0 127 a then utf8_valid s
      else (case s of
              [] \<Rightarrow> False
            | b # s1 \<Rightarrow>
                if byte_in 194 223 a then byte_in 128 191 b \<and> utf8_valid s1
                else (case s1 of
                        [] \<Rightarrow> False
                      | c # s2 \<Rightarrow>
                          if byte_in 224 239 a
                          then byte_in (if byte_in 224 224 a then 160 else 128) (if byte_in 237 237 a then 159 else 191) b \<and>
                               byte_in 128 191 c \<and> utf8_valid s2
                          else (case s2 of
                                  [] \<Rightarrow> False
                                | d # s3 \<Rightarrow>
                                    byte_in 240 244 a \<and>
                                    byte_in (if byte_in 240 240 a then 144 else 128) (if byte_in 244 244 a then 143 else 191) b \<and>
                                    byte_in 128 191 c \<and> byte_in 128 191 d \<and> utf8_valid s3))))"

section \<open>Reading and framing a message\<close>

definition crlf :: string where
  "crlf = [CHR 0x0D, CHR 0x0A]"

fun read_headers :: "string \<Rightarrow> string \<Rightarrow> (string \<times> string) option" where
  "read_headers headers [] = None"
| "read_headers headers (b # input) =
     (let headers' = headers @ latin1_char b
      in if ends_with (crlf @ crlf) headers' then Some (headers', input) else read_headers headers' input)"

definition content_length :: "string \<Rightarrow> nat option" where
  "content_length headers =
     Option.bind (find (starts_with ''Content-Length:'') (str_lines headers)) (\<lambda>line.
       let parts = split_char CHR '':'' line
       in if 1 < length parts then parse_uint 64 (trim (parts ! 1)) else None)"

text \<open>A buffer of more bytes than \<^verbatim>\<open>isize\<close> counts cannot be allocated: the task panics.\<close>

datatype read_result = Message string string | ReadError web_pipe_error | ReadPanic

definition read_message :: "dap_libs \<Rightarrow> string \<Rightarrow> read_result" where
  "read_message lib input =
     (case read_headers [] input of
        None \<Rightarrow> ReadError (DebuggerError (''Failed to read: '' @ dl_read_error lib))
      | Some (headers, rest) \<Rightarrow>
          (case content_length headers of
             None \<Rightarrow> ReadError (DebuggerError ''Missing Content-Length header'')
           | Some n \<Rightarrow>
               if 2 ^ 63 \<le> n then ReadPanic
               else if length rest < n then ReadError (DebuggerError (''Failed to read body: '' @ dl_read_error lib))
               else let body = take n rest
                    in if utf8_valid body then Message body (drop n rest)
                       else ReadError (DebuggerError (''Invalid UTF-8: '' @ dl_utf8_reason lib body))))"

definition frame :: "string \<Rightarrow> string" where
  "frame msg = ''Content-Length: '' @ show_nat (length msg) @ crlf @ crlf @ msg"

text \<open>All the messages of an input, and how reading ends.\<close>

lemma read_headers_length: "read_headers headers input = Some (h, rest) \<Longrightarrow> length rest < length input"
  by (induction headers input rule: read_headers.induct) (auto simp: Let_def split: if_splits)

lemma read_message_length: "read_message lib input = Message body rest \<Longrightarrow> length rest < length input"
  using read_headers_length [of "[]" input]
  by (auto simp: read_message_def Let_def split: option.splits if_splits prod.splits)

function read_messages :: "dap_libs \<Rightarrow> string \<Rightarrow> string list \<times> read_result" where
  "read_messages lib input =
     (case read_message lib input of
        Message body rest \<Rightarrow> (case read_messages lib rest of (bodies, last_read) \<Rightarrow> (body # bodies, last_read))
      | other \<Rightarrow> ([], other))"
  by pat_completeness auto
termination
  by (relation "measure (length \<circ> snd)") (auto dest: read_message_length)

declare read_messages.simps [simp del]

section \<open>A framed message is read back\<close>

lemma ends_with_append: "ends_with p s \<Longrightarrow> \<exists>a. s = a @ p"
proof -
  assume "ends_with p s"
  then have "rev s = rev p @ drop (length p) (rev s)"
    using append_take_drop_id [of "length p" "rev s"] by (simp add: ends_with_def starts_with_def)
  then have "s = rev (drop (length p) (rev s)) @ p" by (metis rev_append rev_rev_ident)
  then show ?thesis by blast
qed

lemma ends_with_crlf: "ends_with (crlf @ crlf) s \<Longrightarrow> 2 \<le> count_list s newline"
  using ends_with_append by (fastforce simp: crlf_def newline_def)

lemma read_headers_skip:
  "list_all (byte_in 0 127) h \<Longrightarrow> count_list (headers @ h) newline \<le> 1 \<Longrightarrow>
   read_headers headers (h @ input) = read_headers (headers @ h) input"
proof (induction h arbitrary: headers)
  case (Cons c h)
  have one: "latin1_char c = [c]" using Cons.prems(1) by (simp add: latin1_char_def byte_in_def)
  have "\<not> ends_with (crlf @ crlf) (headers @ [c])"
    using ends_with_crlf [of "headers @ [c]"] Cons.prems(2) by (auto split: if_splits)
  moreover have "read_headers (headers @ [c]) (h @ input) = read_headers ((headers @ [c]) @ h) input"
    using Cons.prems by (intro Cons.IH) (auto split: if_splits)
  ultimately show ?case using one by simp
qed simp

definition length_line :: "nat \<Rightarrow> string" where
  "length_line n = ''Content-Length: '' @ show_nat n"

lemma length_line_plain:
  "list_all (\<lambda>c. byte_in 0 127 c \<and> c \<noteq> newline) (length_line n)"
  using show_nat_digits [of n]
  by (auto simp: length_line_def byte_in_def newline_def list_all_iff is_ascii_digit_def)

lemma read_headers_frame:
  "read_headers [] (length_line n @ crlf @ crlf @ input) = Some (length_line n @ crlf @ crlf, input)"
proof -
  let ?h = "length_line n @ [CHR 0x0D, CHR 0x0A, CHR 0x0D]"
  have plain: "list_all (byte_in 0 127) ?h" using length_line_plain [of n] by (auto simp: byte_in_def list_all_iff)
  have "count_list (length_line n) newline = 0"
    using length_line_plain [of n] by (auto simp: count_list_0_iff list_all_iff)
  then have "count_list ([] @ ?h) newline \<le> 1" by (simp add: newline_def)
  from read_headers_skip [OF plain this, of "CHR 0x0A # input"] show ?thesis
    by (simp add: crlf_def latin1_char_def ends_with_def starts_with_def)
qed

lemma content_length_frame: "n < 2 ^ 64 \<Longrightarrow> content_length (length_line n @ crlf @ crlf) = Some n"
proof -
  assume n: "n < 2 ^ 64"
  have "newline \<notin> set (length_line n)" using length_line_plain [of n] by (auto simp: list_all_iff)
  then have "split_char newline (length_line n @ crlf @ crlf) = [length_line n @ [CHR 0x0D], [CHR 0x0D], []]"
    using split_char_append [of newline "length_line n @ [CHR 0x0D]" "[CHR 0x0D, CHR 0x0A]"]
    by (simp add: crlf_def newline_def)
  then have "str_lines (length_line n @ crlf @ crlf) = [length_line n, []]"
    by (simp add: str_lines_def strip_cr_def)
  moreover have "starts_with ''Content-Length:'' (length_line n)" by (simp add: length_line_def starts_with_def)
  moreover have "split_char CHR '':'' (length_line n) = [''Content-Length'', CHR '' '' # show_nat n]"
  proof -
    have "CHR '':'' \<notin> set (CHR '' '' # show_nat n)"
      using show_nat_digits [of n] by (auto simp: list_all_iff is_ascii_digit_def)
    then have "split_char CHR '':'' (CHR '' '' # show_nat n) = [CHR '' '' # show_nat n]" by (rule split_char_single)
    then show ?thesis by (simp add: length_line_def)
  qed
  ultimately show ?thesis
    using n trim_space [OF show_nat_not_Nil show_nat_visible, of n]
    by (simp add: content_length_def parse_show_nat)
qed

lemma frame_not_Nil [simp]: "frame msg \<noteq> []"
  by (simp add: frame_def)

lemma read_frame:
  assumes "utf8_valid msg" and "length msg < 2 ^ 63"
  shows "read_message lib (frame msg @ rest) = Message msg rest"
proof -
  have "frame msg @ rest = length_line (length msg) @ crlf @ crlf @ msg @ rest"
    by (simp add: frame_def length_line_def)
  moreover have "content_length (length_line (length msg) @ crlf @ crlf) = Some (length msg)"
    using assms(2) by (intro content_length_frame) simp
  ultimately show ?thesis using assms by (simp add: read_message_def read_headers_frame)
qed

end
