(* ===== verification/Json_Pointer.thy ===== *)
theory Json_Pointer
  imports Json_Path
begin

text \<open>
  JSON pointers (RFC 6901) as the debugger builds them (\<^verbatim>\<open>escape_json_pointer\<close> in
  \<^verbatim>\<open>src/debugger/dap_server.rs\<close>) and as \<^verbatim>\<open>serde_json\<close>'s
  \<^verbatim>\<open>pointer_mut\<close> follows them: the pointer of a child of a value leads to the child.
\<close>

text \<open>\<^verbatim>\<open>str::replace\<close> of one character by a text, and of a two-character text by a character.\<close>

definition replace_with :: "char \<Rightarrow> string \<Rightarrow> string \<Rightarrow> string" where
  "replace_with c t s = concat (map (\<lambda>x. if x = c then t else [x]) s)"

fun replace_pair :: "char \<Rightarrow> char \<Rightarrow> char \<Rightarrow> string \<Rightarrow> string" where
  "replace_pair a b c (x # y # s) =
     (if x = a \<and> y = b then c # replace_pair a b c s else x # replace_pair a b c (y # s))"
| "replace_pair a b c s = s"

definition escape_json_pointer :: "string \<Rightarrow> string" where
  "escape_json_pointer key = replace_with CHR ''/'' ''~1'' (replace_with CHR ''~'' ''~0'' key)"

definition unescape_token :: "string \<Rightarrow> string" where
  "unescape_token t =
     replace_pair CHR ''~'' CHR ''0'' CHR ''~'' (replace_pair CHR ''~'' CHR ''1'' CHR ''/'' t)"

text \<open>An index of an array in a pointer: decimal, without sign and without leading zeros.\<close>

definition pointer_index :: "string \<Rightarrow> nat option" where
  "pointer_index t =
     (if starts_with ''+'' t \<or> starts_with ''0'' t \<and> length t \<noteq> 1 then None else parse_uint 64 t)"

definition pointer_tokens :: "string \<Rightarrow> string list option" where
  "pointer_tokens p =
     (if p = [] then Some []
      else if starts_with ''/'' p then Some (map unescape_token (tl (split_char CHR ''/'' p)))
      else None)"

text \<open>\<^verbatim>\<open>pointer_mut\<close>: reading the slot, and storing into it.\<close>

definition pointer_look :: "string \<Rightarrow> json \<Rightarrow> json option" where
  "pointer_look p j = Option.bind (pointer_tokens p) (\<lambda>ts. look_along pointer_index ts j)"

definition pointer_store :: "string \<Rightarrow> json \<Rightarrow> json \<Rightarrow> json option" where
  "pointer_store p v j = Option.bind (pointer_tokens p) (\<lambda>ts. store_along pointer_index ts v j)"

interpretation pointer_slot: slot "pointer_look p" "pointer_store p" for p
proof (cases "pointer_tokens p")
  case None
  then show "slot (pointer_look p) (pointer_store p)"
    by unfold_locales (simp_all add: pointer_look_def pointer_store_def)
next
  case (Some ts)
  then have "pointer_look p = look_along pointer_index ts" "pointer_store p = store_along pointer_index ts"
    by (simp_all add: fun_eq_iff pointer_look_def pointer_store_def)
  then show "slot (pointer_look p) (pointer_store p)" by (simp add: token_slot.slot_axioms)
qed

lemma pointer_store_wf [wf_intros]:
  "pointer_store p v j = Some j' \<Longrightarrow> wf_json j \<Longrightarrow> wf_json v \<Longrightarrow> wf_json j'"
  by (auto simp: pointer_store_def Option.bind_eq_Some_conv intro: store_along_wf)

section \<open>Escaping\<close>

lemma replace_with_simps:
  "replace_with c t [] = []"
  "replace_with c t (x # s) = (if x = c then t else [x]) @ replace_with c t s"
  by (simp_all add: replace_with_def)

lemma escape_Cons:
  "escape_json_pointer [] = []"
  "escape_json_pointer (x # s) =
     (if x = CHR ''~'' then ''~0'' else if x = CHR ''/'' then ''~1'' else [x]) @ escape_json_pointer s"
  by (simp_all add: escape_json_pointer_def replace_with_simps)

lemma escape_no_slash: "CHR ''/'' \<notin> set (escape_json_pointer key)"
  by (induction key) (auto simp: escape_Cons)

lemma replace_pair_other: "x \<noteq> a \<Longrightarrow> replace_pair a b c (x # s) = x # replace_pair a b c s"
  by (cases s) auto

text \<open>Undoing the slashes first leaves the text with its tildes still escaped.\<close>

lemma undo_slashes:
  "replace_pair CHR ''~'' CHR ''1'' CHR ''/'' (escape_json_pointer key) = replace_with CHR ''~'' ''~0'' key"
  by (induction key) (auto simp: escape_Cons replace_with_simps replace_pair_other)

lemma undo_tildes: "replace_pair CHR ''~'' CHR ''0'' CHR ''~'' (replace_with CHR ''~'' ''~0'' key) = key"
  by (induction key) (auto simp: replace_with_simps replace_pair_other)

lemma unescape_escape: "unescape_token (escape_json_pointer key) = key"
  by (simp add: unescape_token_def undo_slashes undo_tildes)

lemma escape_number: "escape_json_pointer (show_nat n) = show_nat n"
proof -
  have "escape_json_pointer s = s" if "list_all is_ascii_digit s" for s
    using that by (induction s) (auto simp: escape_Cons is_ascii_digit_def)
  then show ?thesis using show_nat_digits by blast
qed

lemma unescape_number: "unescape_token (show_nat n) = show_nat n"
  using unescape_escape [of "show_nat n"] by (simp add: escape_number)

lemma pointer_index_show: "n < 2 ^ 64 \<Longrightarrow> pointer_index (show_nat n) = Some n"
proof -
  assume n: "n < 2 ^ 64"
  have "\<not> starts_with ''+'' (show_nat n)"
    using show_nat_digits [of n] by (cases "show_nat n") (auto simp: starts_with_def is_ascii_digit_def)
  moreover have "\<not> (starts_with ''0'' (show_nat n) \<and> length (show_nat n) \<noteq> 1)"
  proof (induction n rule: show_nat.induct)
    case (1 n)
    have d: "digit_char m \<noteq> CHR ''0''" if "0 < m" "m < 10" for m
      using digit_char_props(2) [OF that(2)] that(1) by auto
    show ?case
    proof (cases "n < 10")
      case True
      then show ?thesis by (subst (2) show_nat.simps) simp
    next
      case False
      have s: "show_nat n = show_nat (n div 10) @ [digit_char (n mod 10)]"
        using False by (subst show_nat.simps) simp
      have "hd (show_nat (n div 10)) \<noteq> CHR ''0''"
      proof (cases "n div 10 < 10")
        case True
        then have "show_nat (n div 10) = [digit_char (n div 10)]" by (subst show_nat.simps) simp
        with d [of "n div 10"] True False show ?thesis by simp
      next
        case large: False
        then have "length (show_nat (n div 10)) \<noteq> 1"
          by (subst show_nat.simps) simp
        with 1 [OF False] show ?thesis
          by (cases "show_nat (n div 10)") (auto simp: starts_with_def)
      qed
      then show ?thesis using s by (cases "show_nat (n div 10)") (auto simp: starts_with_def)
    qed
  qed
  ultimately show ?thesis using n by (simp add: pointer_index_def parse_show_nat)
qed

section \<open>The pointer of a child\<close>

lemma split_char_append_right:
  "d \<notin> set t \<Longrightarrow> split_char d (s @ d # t) = split_char d s @ [t]"
  by (induction s) (auto simp: split_char_single split: list.splits)

lemma pointer_tokens_child:
  assumes "pointer_tokens p = Some ts" and "CHR ''/'' \<notin> set t"
  shows "pointer_tokens (p @ ''/'' @ t) = Some (ts @ [unescape_token t])"
proof (cases "p = []")
  case True
  with assms show ?thesis by (simp add: pointer_tokens_def starts_with_def split_char_single)
next
  case False
  with assms have p: "starts_with ''/'' p" "ts = map unescape_token (tl (split_char CHR ''/'' p))"
    by (auto simp: pointer_tokens_def split: if_splits)
  then have "starts_with ''/'' (p @ ''/'' @ t)" using False by (cases p) (auto simp: starts_with_def)
  with p False assms(2) show ?thesis
    by (simp add: pointer_tokens_def split_char_append_right)
qed

lemma look_along_append:
  "look_along index (ps @ qs) j = Option.bind (look_along index ps j) (look_along index qs)"
proof (induction ps arbitrary: j)
  case (Cons p ps)
  then show ?case
    by (cases j; cases "index p"; cases "map_of (the (as_object j)) p") simp_all
qed simp

lemma look_along_Nil: "look_along index [] = Some"
  by (rule ext) simp

lemma pointer_child_key:
  assumes "pointer_look p j = Some (JObject m)"
  shows "pointer_look (p @ ''/'' @ escape_json_pointer k) j = map_of m k"
  using assms pointer_tokens_child [OF _ escape_no_slash]
  by (auto simp: pointer_look_def Option.bind_eq_Some_conv look_along_append look_along_Nil unescape_escape split: option.splits)

lemma pointer_child_index:
  assumes "pointer_look p j = Some (JArray xs)" and "i < length xs" and "length xs < 2 ^ 64"
  shows "pointer_look (p @ ''/'' @ show_nat i) j = Some (xs ! i)"
proof -
  have "CHR ''/'' \<notin> set (show_nat i)" using escape_no_slash [of "show_nat i"] by (simp add: escape_number)
  from pointer_tokens_child [OF _ this] assms show ?thesis
    by (auto simp: pointer_look_def Option.bind_eq_Some_conv look_along_append unescape_number pointer_index_show)
qed

text \<open>A name in brackets is no index: it leads nowhere in an array.\<close>

lemma pointer_bracketed:
  assumes "pointer_look p j = Some (JArray xs)"
  shows "pointer_look (p @ ''/'' @ escape_json_pointer (CHR ''['' # name)) j = None"
proof -
  have "pointer_index (CHR ''['' # name) = None"
    by (simp add: pointer_index_def starts_with_def parse_uint_def is_ascii_digit_def)
  with assms pointer_tokens_child [OF _ escape_no_slash] show ?thesis
    by (auto simp: pointer_look_def Option.bind_eq_Some_conv look_along_append look_along_Nil unescape_escape split: option.splits)
qed

end
