(* ===== verification/Dap_Server.thy ===== *)
theory Dap_Server
  imports Dap_Framing Json_Pointer "HOL-Library.AList" "HOL-Library.Signed_Division"
begin

text \<open>
  The debug adapter server and its hook into the executor
  (\<^verbatim>\<open>src/debugger/dap_server.rs\<close>).

  The server's concurrent maps are association lists. A paused thread waits on a one-shot channel:
  the server's half is in \<^verbatim>\<open>paused_threads\<close>, the hook's is its position in
  \<^verbatim>\<open>dp_channels\<close>. A handler, and the hook up to the point where it waits, are one step each;
  \<^verbatim>\<open>before_step\<close> is split there. What the server writes to the client is kept as bytes.

  Arithmetic on references wraps, as in a release build. When a thread was paused is not kept: it is
  never read.
\<close>

section \<open>State\<close>

datatype step_command =
    CmdContinue "json option" | CmdStepOver "json option" | CmdStepIn "json option" | CmdStepOut "json option"

datatype stepping_mode = StepInto | StepOver nat | StepOut nat

text \<open>A one-shot channel: unused, carrying a command, or with one of its halves dropped.\<close>

datatype channel = Unsent | Sent step_command | SenderDropped | ReceiverDropped

record paused_state =
  pd_resume_tx :: nat
  pd_state :: json
  pd_location :: source_location
  pd_step_name :: string
  pd_stack :: "string list"
  pd_var_ref_index :: i64

text \<open>The writing half of the connection: none yet, working, or failing with an error of the system.\<close>

datatype client_writer = NoClient | Client | Broken string

text \<open>Where the main task stands that waits for \<^verbatim>\<open>configurationDone\<close>.\<close>

datatype config_wait = NotWaiting | Checked | Registered | Released

record dap_server =
  dp_breakpoints :: "(string \<times> nat list) list"
  dp_breakpoint_ids :: "(string \<times> (nat \<times> i64) list) list"
  dp_next_breakpoint_id :: i64
  dp_paused_threads :: "(u64 \<times> paused_state) list"
  dp_stepping_threads :: "(u64 \<times> stepping_mode) list"
  dp_announced_threads :: "u64 list"
  dp_next_thread_id :: u64
  dp_variable_cache :: "(i64 \<times> json) list"
  dp_variable_pointers :: "(i64 \<times> string) list"
  dp_file_path :: string
  dp_client_writer :: client_writer
  dp_seq :: i64
  dp_shutdown_notify :: "bool option"
  dp_configuration_done :: config_wait
  dp_configuration_done_received :: bool
  dp_channels :: "channel list"
  dp_output :: string

type_synonym 'a outcome = "(web_pipe_error + 'a) \<times> dap_server"

definition dap_new :: "string \<Rightarrow> bool \<Rightarrow> dap_server" where
  "dap_new file_path has_notify =
     \<lparr> dp_breakpoints = [], dp_breakpoint_ids = [], dp_next_breakpoint_id = 1, dp_paused_threads = [],
       dp_stepping_threads = [], dp_announced_threads = [], dp_next_thread_id = 1, dp_variable_cache = [],
       dp_variable_pointers = [], dp_file_path = file_path, dp_client_writer = NoClient, dp_seq = 1,
       dp_shutdown_notify = (if has_notify then Some False else None), dp_configuration_done = NotWaiting,
       dp_configuration_done_received = False, dp_channels = [], dp_output = [] \<rparr>"

text \<open>
  \<^verbatim>\<open>wait_for_configuration_done\<close> in its two steps: it looks at the flag, and only then
  starts to wait for the notification.
\<close>

definition config_check :: "dap_server \<Rightarrow> dap_server" where
  "config_check s = s\<lparr>dp_configuration_done := if dp_configuration_done_received s then Released else Checked\<rparr>"

definition config_register :: "dap_server \<Rightarrow> dap_server" where
  "config_register s = s\<lparr>dp_configuration_done := Registered\<rparr>"

definition allocate_thread_id :: "dap_server \<Rightarrow> u64 \<times> dap_server" where
  "allocate_thread_id s = (dp_next_thread_id s, s\<lparr>dp_next_thread_id := dp_next_thread_id s + 1\<rparr>)"

definition VAR_REF_STRIDE :: int where
  "VAR_REF_STRIDE = 100000"

text \<open>\<^verbatim>\<open>thread_id as i64 * VAR_REF_STRIDE + index\<close>, with the wrap of a release build.\<close>

definition var_ref :: "u64 \<Rightarrow> i64 \<Rightarrow> i64" where
  "var_ref thread_id index = thread_id * word_of_int VAR_REF_STRIDE + index"

text \<open>Division of signed integers, which truncates.\<close>

definition i64_div :: "i64 \<Rightarrow> int \<Rightarrow> i64" where
  "i64_div a b = word_of_int (sint a sdiv b)"

definition i64_rem :: "i64 \<Rightarrow> int \<Rightarrow> int" where
  "i64_rem a b = sint a smod b"

definition clear_thread_variables :: "u64 \<Rightarrow> dap_server \<Rightarrow> dap_server" where
  "clear_thread_variables thread_id s =
     (let start = var_ref thread_id 0;
          last_ref = start + word_of_int VAR_REF_STRIDE - 1;
          keep = (\<lambda>k. sint k < sint start \<or> sint k > sint last_ref)
      in s\<lparr>dp_variable_cache := filter (\<lambda>e. keep (fst e)) (dp_variable_cache s),
           dp_variable_pointers := filter (\<lambda>e. keep (fst e)) (dp_variable_pointers s)\<rparr>)"

section \<open>Sending\<close>

definition send_message :: "string \<Rightarrow> dap_server \<Rightarrow> unit outcome" where
  "send_message msg s =
     (case dp_client_writer s of
        NoClient \<Rightarrow> (Inl (DebuggerError ''No client connected''), s)
      | Broken e \<Rightarrow> (Inl (DebuggerError (''Failed to write header: '' @ e)), s)
      | Client \<Rightarrow> (Inr (), s\<lparr>dp_output := dp_output s @ frame msg\<rparr>))"

definition send_json :: "dap_libs \<Rightarrow> (i64 \<Rightarrow> json) \<Rightarrow> dap_server \<Rightarrow> unit outcome" where
  "send_json lib msg s = send_message (dl_to_text lib (msg (dp_seq s))) (s\<lparr>dp_seq := dp_seq s + 1\<rparr>)"

definition json_or_null :: "json option \<Rightarrow> json" where
  "json_or_null v = (case v of None \<Rightarrow> JNull | Some j \<Rightarrow> j)"

definition response_json :: "i64 \<Rightarrow> string \<Rightarrow> json option \<Rightarrow> i64 \<Rightarrow> json" where
  "response_json request_seq command body n =
     JObject [(''type'', JString ''response''), (''seq'', json_i64 n), (''request_seq'', json_i64 request_seq),
       (''success'', JBool True), (''command'', JString command), (''body'', json_or_null body)]"

definition error_response_json :: "i64 \<Rightarrow> string \<Rightarrow> string \<Rightarrow> i64 \<Rightarrow> json" where
  "error_response_json request_seq command message n =
     JObject [(''type'', JString ''response''), (''seq'', json_i64 n), (''request_seq'', json_i64 request_seq),
       (''success'', JBool False), (''command'', JString command), (''message'', JString message)]"

definition event_json :: "string \<Rightarrow> json option \<Rightarrow> i64 \<Rightarrow> json" where
  "event_json event body n =
     JObject [(''type'', JString ''event''), (''seq'', json_i64 n), (''event'', JString event),
       (''body'', json_or_null body)]"

definition send_response :: "dap_libs \<Rightarrow> i64 \<Rightarrow> string \<Rightarrow> json option \<Rightarrow> dap_server \<Rightarrow> unit outcome" where
  "send_response lib request_seq command body = send_json lib (response_json request_seq command body)"

definition send_error_response :: "dap_libs \<Rightarrow> i64 \<Rightarrow> string \<Rightarrow> string \<Rightarrow> dap_server \<Rightarrow> unit outcome" where
  "send_error_response lib request_seq command message = send_json lib (error_response_json request_seq command message)"

definition send_event :: "dap_libs \<Rightarrow> string \<Rightarrow> json option \<Rightarrow> dap_server \<Rightarrow> unit outcome" where
  "send_event lib event body = send_json lib (event_json event body)"

text \<open>The \<^verbatim>\<open>?\<close> operator: an error ends the function, what was done so far stays done.\<close>

definition and_then :: "'a outcome \<Rightarrow> ('a \<Rightarrow> dap_server \<Rightarrow> 'b outcome) \<Rightarrow> 'b outcome" where
  "and_then r k = (case r of (Inl e, s) \<Rightarrow> (Inl e, s) | (Inr x, s) \<Rightarrow> k x s)"

text \<open>Reading a handler's arguments, null when the request has none.\<close>

definition with_arguments ::
  "dap_libs \<Rightarrow> string \<Rightarrow> (json \<Rightarrow> 'a option) \<Rightarrow> request \<Rightarrow> ('a \<Rightarrow> dap_server \<Rightarrow> 'b outcome) \<Rightarrow>
   dap_server \<Rightarrow> 'b outcome" where
  "with_arguments lib command dec request k s =
     (let j = json_or_null (rq_arguments request)
      in case dec j of
           None \<Rightarrow> (Inl (DebuggerError (''Invalid '' @ command @ '' arguments: '' @ dl_reason lib command j)), s)
         | Some args \<Rightarrow> k args s)"

section \<open>Previews\<close>

definition is_complex :: "json \<Rightarrow> bool" where
  "is_complex v = (case v of JObject m \<Rightarrow> True | JArray xs \<Rightarrow> True | _ \<Rightarrow> False)"

definition format_preview :: "dap_libs \<Rightarrow> json \<Rightarrow> string" where
  "format_preview lib v =
     (case v of
        JObject m \<Rightarrow> ''{...}''
      | JArray xs \<Rightarrow> ''['' @ show_nat (length xs) @ '' items]''
      | JString s \<Rightarrow> in_quotes s
      | _ \<Rightarrow> dl_to_text lib v)"

definition dap_type_name :: "json \<Rightarrow> string" where
  "dap_type_name v =
     (case v of
        JNull \<Rightarrow> ''null'' | JBool b \<Rightarrow> ''boolean'' | JNumber n \<Rightarrow> ''number'' | JString s \<Rightarrow> ''string''
      | JArray xs \<Rightarrow> ''array'' | JObject m \<Rightarrow> ''object'')"

definition named_count :: "json \<Rightarrow> i64 option" where
  "named_count v = (case v of JObject m \<Rightarrow> if m = [] then None else Some (of_nat (length m)) | _ \<Rightarrow> None)"

definition indexed_count :: "json \<Rightarrow> i64 option" where
  "indexed_count v = (case v of JArray xs \<Rightarrow> if xs = [] then None else Some (of_nat (length xs)) | _ \<Rightarrow> None)"

section \<open>Variables\<close>

text \<open>
  \<^verbatim>\<open>json_to_variables_cached\<close>: an entry is the name shown, the pointer's token and the
  value; a complex value gets the next reference of the thread.
\<close>

definition child_entries :: "json \<Rightarrow> (string \<times> string \<times> json) list" where
  "child_entries v =
     (case v of
        JObject m \<Rightarrow> map (\<lambda>(k, c). (k, escape_json_pointer k, c)) m
      | JArray xs \<Rightarrow> map (\<lambda>(i, c). (''['' @ show_nat i @ '']'', show_nat i, c)) (enumerate 0 xs)
      | _ \<Rightarrow> [])"

definition child_variable :: "dap_libs \<Rightarrow> string \<Rightarrow> json \<Rightarrow> i64 \<Rightarrow> dap_variable" where
  "child_variable lib name v ref =
     \<lparr> dv_name = name, dv_value = format_preview lib v, dv_type = Some (dap_type_name v),
       dv_presentation_hint = None, dv_evaluate_name = None, dv_variables_reference = ref,
       dv_named_variables = named_count v, dv_indexed_variables = indexed_count v, dv_memory_reference = None \<rparr>"

definition cache_value :: "i64 \<Rightarrow> json \<Rightarrow> dap_server \<Rightarrow> dap_server" where
  "cache_value ref v s = s\<lparr>dp_variable_cache := AList.update ref v (dp_variable_cache s)\<rparr>"

definition set_pointer :: "i64 \<Rightarrow> string \<Rightarrow> dap_server \<Rightarrow> dap_server" where
  "set_pointer ref p s = s\<lparr>dp_variable_pointers := AList.update ref p (dp_variable_pointers s)\<rparr>"

primrec cache_children ::
  "dap_libs \<Rightarrow> u64 \<Rightarrow> string \<Rightarrow> (string \<times> string \<times> json) list \<Rightarrow> i64 \<Rightarrow> dap_server \<Rightarrow>
   dap_variable list \<times> i64 \<times> dap_server" where
  "cache_children lib thread_id parent_ptr [] counter s = ([], counter, s)"
| "cache_children lib thread_id parent_ptr (e # es) counter s =
     (case e of (name, tok, v) \<Rightarrow>
        (let counter1 = (if is_complex v then counter + 1 else counter);
             ref = (if is_complex v then var_ref thread_id counter1 else 0);
             s1 = (if is_complex v then set_pointer ref (parent_ptr @ ''/'' @ tok) (cache_value ref v s) else s)
         in case cache_children lib thread_id parent_ptr es counter1 s1 of
              (vars, counter2, s2) \<Rightarrow> (child_variable lib name v ref # vars, counter2, s2)))"

text \<open>A value that is neither an object nor an array is shown as the single variable \<^verbatim>\<open>value\<close>.\<close>

definition scalar_text :: "dap_libs \<Rightarrow> json \<Rightarrow> string" where
  "scalar_text lib v =
     (case v of JString t \<Rightarrow> in_quotes t | JBool b \<Rightarrow> show_bool b | JNull \<Rightarrow> ''null'' | _ \<Rightarrow> dl_to_text lib v)"

definition scalar_variable :: "dap_libs \<Rightarrow> json \<Rightarrow> dap_variable" where
  "scalar_variable lib v =
     \<lparr> dv_name = ''value'', dv_value = scalar_text lib v, dv_type = Some (dap_type_name v),
       dv_presentation_hint = None, dv_evaluate_name = None, dv_variables_reference = 0,
       dv_named_variables = None, dv_indexed_variables = None, dv_memory_reference = None \<rparr>"

definition json_to_variables_cached ::
  "dap_libs \<Rightarrow> json \<Rightarrow> u64 \<Rightarrow> string \<Rightarrow> i64 \<Rightarrow> dap_server \<Rightarrow> dap_variable list \<times> i64 \<times> dap_server" where
  "json_to_variables_cached lib v thread_id parent_ptr counter s =
     (if is_complex v then cache_children lib thread_id parent_ptr (child_entries v) counter s
      else ([scalar_variable lib v], counter, s))"

section \<open>Channels and paused threads\<close>

definition send_channel :: "nat \<Rightarrow> step_command \<Rightarrow> dap_server \<Rightarrow> dap_server" where
  "send_channel c command s =
     (if c < length (dp_channels s) \<and> dp_channels s ! c = Unsent
      then s\<lparr>dp_channels := (dp_channels s)[c := Sent command]\<rparr> else s)"

definition drop_sender :: "nat \<Rightarrow> dap_server \<Rightarrow> dap_server" where
  "drop_sender c s =
     (if c < length (dp_channels s) \<and> dp_channels s ! c = Unsent
      then s\<lparr>dp_channels := (dp_channels s)[c := SenderDropped]\<rparr> else s)"

definition drop_receiver :: "nat \<Rightarrow> dap_server \<Rightarrow> dap_server" where
  "drop_receiver c s = s\<lparr>dp_channels := (dp_channels s)[c := ReceiverDropped]\<rparr>"

text \<open>Taking a thread out of \<^verbatim>\<open>paused_threads\<close> and sending it a command with its state.\<close>

definition resume_thread :: "(json option \<Rightarrow> step_command) \<Rightarrow> u64 \<Rightarrow> dap_server \<Rightarrow> dap_server" where
  "resume_thread command thread_id s =
     (case map_of (dp_paused_threads s) thread_id of
        None \<Rightarrow> s
      | Some p \<Rightarrow> send_channel (pd_resume_tx p) (command (Some (pd_state p)))
                    (s\<lparr>dp_paused_threads := AList.delete thread_id (dp_paused_threads s)\<rparr>))"

text \<open>Inserting a paused thread drops the one it replaces, and with it the other's sender.\<close>

definition insert_paused :: "u64 \<Rightarrow> paused_state \<Rightarrow> dap_server \<Rightarrow> dap_server" where
  "insert_paused thread_id p s =
     (case map_of (dp_paused_threads s) thread_id of None \<Rightarrow> s | Some old \<Rightarrow> drop_sender (pd_resume_tx old) s)
       \<lparr>dp_paused_threads := AList.update thread_id p (dp_paused_threads s)\<rparr>"

definition set_stepping :: "u64 \<Rightarrow> stepping_mode \<Rightarrow> dap_server \<Rightarrow> dap_server" where
  "set_stepping thread_id mode s = s\<lparr>dp_stepping_threads := AList.update thread_id mode (dp_stepping_threads s)\<rparr>"

definition clear_stepping :: "u64 \<Rightarrow> dap_server \<Rightarrow> dap_server" where
  "clear_stepping thread_id s = s\<lparr>dp_stepping_threads := AList.delete thread_id (dp_stepping_threads s)\<rparr>"

definition get_breakpoint_id :: "dap_server \<Rightarrow> string \<Rightarrow> nat \<Rightarrow> i64 option" where
  "get_breakpoint_id s file_path at =
     Option.bind (map_of (dp_breakpoint_ids s) file_path) (\<lambda>m. map_of m at)"

definition has_breakpoint :: "dap_server \<Rightarrow> string \<Rightarrow> nat \<Rightarrow> bool" where
  "has_breakpoint s file_path at =
     (case map_of (dp_breakpoints s) file_path of None \<Rightarrow> False | Some ls \<Rightarrow> at \<in> set ls)"

section \<open>Handlers: session and breakpoints\<close>

definition server_capabilities :: "string \<Rightarrow> bool option" where
  "server_capabilities name =
     Some (name \<in> {''supports_configuration_done_request'', ''supports_evaluate_for_hovers'', ''supports_set_variable''})"

definition handle_initialize :: "dap_libs \<Rightarrow> request \<Rightarrow> dap_server \<Rightarrow> unit outcome" where
  "handle_initialize lib request s =
     and_then (send_response lib (rq_seq request) ''initialize'' (Some (capabilities_json server_capabilities)) s)
       (\<lambda>_. send_event lib ''initialized'' None)"

definition handle_launch :: "dap_libs \<Rightarrow> request \<Rightarrow> dap_server \<Rightarrow> unit outcome" where
  "handle_launch lib request = send_response lib (rq_seq request) ''launch'' None"

definition requested_lines :: "set_breakpoints_arguments \<Rightarrow> nat list" where
  "requested_lines args =
     (case sba_breakpoints args of
        Some bps \<Rightarrow> map (\<lambda>b. unat (sb_line b)) bps
      | None \<Rightarrow> (case sba_lines args of Some ls \<Rightarrow> map unat ls | None \<Rightarrow> []))"

primrec assign_ids :: "nat list \<Rightarrow> i64 \<Rightarrow> (nat \<times> i64) list \<Rightarrow> (nat \<times> i64) list \<times> i64" where
  "assign_ids [] n ids = (ids, n)"
| "assign_ids (l # ls) n ids = assign_ids ls (n + 1) (AList.update l n ids)"

definition path_source :: "string \<Rightarrow> source" where
  "path_source path = Source None (Some path) None None None None None None"

definition verified_breakpoint :: "string \<Rightarrow> (nat \<times> i64) list \<Rightarrow> nat \<Rightarrow> breakpoint" where
  "verified_breakpoint path ids l =
     \<lparr> bp_id = map_of ids l, bp_verified = True, bp_message = None, bp_source = Some (path_source path),
       bp_line = Some (of_nat l), bp_column = None, bp_end_line = None, bp_end_column = None,
       bp_instruction_reference = None, bp_offset = None \<rparr>"

definition handle_set_breakpoints :: "dap_libs \<Rightarrow> request \<Rightarrow> dap_server \<Rightarrow> unit outcome" where
  "handle_set_breakpoints lib request =
     with_arguments lib ''setBreakpoints'' set_breakpoints_arguments_of request (\<lambda>args s.
       let path = (case src_path (sba_source args) of Some p \<Rightarrow> p | None \<Rightarrow> dp_file_path s);
           ls = requested_lines args;
           (ids, next_id) = assign_ids ls (dp_next_breakpoint_id s) [];
           s1 = (if ls = []
                 then s\<lparr>dp_breakpoints := AList.delete path (dp_breakpoints s),
                        dp_breakpoint_ids := AList.delete path (dp_breakpoint_ids s)\<rparr>
                 else s\<lparr>dp_breakpoints := AList.update path ls (dp_breakpoints s), dp_next_breakpoint_id := next_id,
                        dp_breakpoint_ids := AList.update path ids (dp_breakpoint_ids s)\<rparr>)
       in send_response lib (rq_seq request) ''setBreakpoints''
            (Some (set_breakpoints_response_json (map (verified_breakpoint path ids) ls))) s1)"

definition handle_configuration_done :: "dap_libs \<Rightarrow> request \<Rightarrow> dap_server \<Rightarrow> unit outcome" where
  "handle_configuration_done lib request s =
     send_response lib (rq_seq request) ''configurationDone'' None
       (s\<lparr>dp_configuration_done_received := True,
          dp_configuration_done := if dp_configuration_done s = Registered then Released else dp_configuration_done s\<rparr>)"

definition handle_threads :: "dap_libs \<Rightarrow> request \<Rightarrow> dap_server \<Rightarrow> unit outcome" where
  "handle_threads lib request s =
     send_response lib (rq_seq request) ''threads''
       (Some (threads_response_json
         (map (\<lambda>i. \<lparr> th_id = i, th_name = ''HTTP Request #'' @ show_nat (unat i) \<rparr>)
            (dl_thread_order lib (dp_announced_threads s))))) s"

definition stack_frame_of :: "dap_server \<Rightarrow> u64 \<Rightarrow> paused_state \<Rightarrow> nat \<Rightarrow> string \<Rightarrow> stack_frame" where
  "stack_frame_of s thread_id p i name =
     (let loc = pd_location p;
          src = path_source (case loc_file_path loc of Some f \<Rightarrow> f | None \<Rightarrow> dp_file_path s);
          top = (i = 0)
      in \<lparr> sf_id = thread_id * 10000 + of_nat i, sf_name = name, sf_source = (if top then Some src else None),
           sf_line = (if top then of_nat (loc_line loc) else 0),
           sf_column = (if top then of_nat (loc_column loc) else 0),
           sf_end_line = (if top then Some (of_nat (loc_end_line loc)) else None),
           sf_end_column = (if top then Some (of_nat (loc_end_column loc)) else None),
           sf_can_restart = None, sf_instruction_pointer_reference = None, sf_module_id = None,
           sf_presentation_hint = (if top then None else Some ''label'') \<rparr>)"

definition handle_stack_trace :: "dap_libs \<Rightarrow> request \<Rightarrow> dap_server \<Rightarrow> unit outcome" where
  "handle_stack_trace lib request =
     with_arguments lib ''stackTrace'' stack_trace_arguments_of request (\<lambda>args s.
       let thread_id = sta_thread_id args;
           frames = (case map_of (dp_paused_threads s) thread_id of
                       None \<Rightarrow> []
                     | Some p \<Rightarrow> map (\<lambda>(i, name). stack_frame_of s thread_id p i name) (enumerate 0 (rev (pd_stack p))))
       in send_response lib (rq_seq request) ''stackTrace''
            (Some (stack_trace_response_json frames (Some (of_nat (length frames))))) s)"

section \<open>Handlers: variables\<close>

definition handle_scopes :: "dap_libs \<Rightarrow> request \<Rightarrow> dap_server \<Rightarrow> unit outcome" where
  "handle_scopes lib request =
     with_arguments lib ''scopes'' scopes_arguments_of request (\<lambda>frame_id s.
       let thread_id = i64_div frame_id 10000;
           root_ref = var_ref thread_id 1
       in send_response lib (rq_seq request) ''scopes''
            (Some (scopes_response_json
              [\<lparr> sc_name = ''Pipeline State'', sc_presentation_hint = None, sc_variables_reference = root_ref,
                 sc_named_variables = None, sc_indexed_variables = None, sc_expensive = False, sc_source = None,
                 sc_line = None, sc_column = None, sc_end_line = None, sc_end_column = None \<rparr>]))
            (set_pointer root_ref [] s))"

definition set_var_ref_index :: "u64 \<Rightarrow> paused_state \<Rightarrow> i64 \<Rightarrow> dap_server \<Rightarrow> dap_server" where
  "set_var_ref_index thread_id p n s =
     s\<lparr>dp_paused_threads := AList.update thread_id (p\<lparr>pd_var_ref_index := n\<rparr>) (dp_paused_threads s)\<rparr>"

definition string_or_empty :: "string option \<Rightarrow> string" where
  "string_or_empty v = (case v of None \<Rightarrow> [] | Some t \<Rightarrow> t)"

definition shown_value :: "dap_server \<Rightarrow> i64 \<Rightarrow> paused_state \<Rightarrow> json option" where
  "shown_value s ref p =
     (if i64_rem ref VAR_REF_STRIDE = 1 then Some (pd_state p) else map_of (dp_variable_cache s) ref)"

definition handle_variables :: "dap_libs \<Rightarrow> request \<Rightarrow> dap_server \<Rightarrow> unit outcome" where
  "handle_variables lib request =
     with_arguments lib ''variables'' variables_arguments_of request (\<lambda>args s.
       let ref = va_variables_reference args;
           thread_id = i64_div ref VAR_REF_STRIDE;
           parent_ptr = string_or_empty (map_of (dp_variable_pointers s) ref);
           (vars, s1) =
             (case map_of (dp_paused_threads s) thread_id of
                None \<Rightarrow> ([], s)
              | Some p \<Rightarrow>
                  (case shown_value s ref p of
                     None \<Rightarrow> ([], s)
                   | Some v \<Rightarrow>
                       (case json_to_variables_cached lib v thread_id parent_ptr (pd_var_ref_index p) s of
                          (vars, n, s2) \<Rightarrow> (vars, set_var_ref_index thread_id p n s2))))
       in send_response lib (rq_seq request) ''variables'' (Some (variables_response_json vars)) s1)"

text \<open>The text of a new value is read as JSON, else it is a string.\<close>

definition parse_value :: "dap_libs \<Rightarrow> string \<Rightarrow> json" where
  "parse_value lib text = (case dl_parse lib text of Inr j \<Rightarrow> collapse j | Inl e \<Rightarrow> JString text)"

definition trim_brackets :: "string \<Rightarrow> string" where
  "trim_brackets name =
     (let strip = dropWhile (\<lambda>c. c = CHR ''['' \<or> c = CHR '']'') in rev (strip (rev (strip name))))"

text \<open>The container in the cache is kept in step with the state.\<close>

definition patch_cached :: "string \<Rightarrow> json \<Rightarrow> json \<Rightarrow> json" where
  "patch_cached name new_val container =
     (case container of
        JObject m \<Rightarrow> JObject (om_insert name new_val m)
      | JArray xs \<Rightarrow>
          (case parse_uint 64 (trim_brackets name) of
             Some i \<Rightarrow> if i < length xs then JArray (xs[i := new_val]) else container
           | None \<Rightarrow> container)
      | _ \<Rightarrow> container)"

definition update_cached :: "i64 \<Rightarrow> string \<Rightarrow> json \<Rightarrow> dap_server \<Rightarrow> dap_server" where
  "update_cached ref name new_val s =
     (case map_of (dp_variable_cache s) ref of
        None \<Rightarrow> s
      | Some container \<Rightarrow> cache_value ref (patch_cached name new_val container) s)"

definition set_variable_result :: "dap_libs \<Rightarrow> json \<Rightarrow> i64 \<Rightarrow> json" where
  "set_variable_result lib new_val ref =
     set_variable_response_body_json
       \<lparr> svr_value = format_preview lib new_val, svr_type = Some (dap_type_name new_val),
         svr_variables_reference = Some ref, svr_named_variables = None, svr_indexed_variables = None \<rparr>"

definition set_variable_target :: "dap_server \<Rightarrow> set_variable_arguments \<Rightarrow> string option" where
  "set_variable_target s args =
     map_option (\<lambda>ptr. ptr @ ''/'' @ escape_json_pointer (sva_name args))
       (map_of (dp_variable_pointers s) (sva_variables_reference args))"

definition handle_set_variable :: "dap_libs \<Rightarrow> request \<Rightarrow> dap_server \<Rightarrow> unit outcome" where
  "handle_set_variable lib request =
     with_arguments lib ''setVariable'' set_variable_arguments_of request (\<lambda>args s.
       let ref = sva_variables_reference args;
           thread_id = i64_div ref VAR_REF_STRIDE;
           new_val = parse_value lib (sva_value args);
           refused = send_error_response lib (rq_seq request) ''setVariable'' ''Failed to update variable'' s
       in case set_variable_target s args of
            None \<Rightarrow> refused
          | Some target \<Rightarrow>
              (case map_of (dp_paused_threads s) thread_id of
                 None \<Rightarrow> refused
               | Some p \<Rightarrow>
                   (case pointer_store target new_val (pd_state p) of
                      None \<Rightarrow> refused
                    | Some state' \<Rightarrow>
                        (let n = pd_var_ref_index p + 1;
                             child = var_ref thread_id n;
                             p' = p\<lparr>pd_state := state', pd_var_ref_index := if is_complex new_val then n else pd_var_ref_index p\<rparr>;
                             s1 = update_cached ref (sva_name args) new_val s;
                             s2 = (if is_complex new_val then set_pointer child target (cache_value child new_val s1) else s1);
                             s3 = s2\<lparr>dp_paused_threads := AList.update thread_id p' (dp_paused_threads s2)\<rparr>
                         in send_response lib (rq_seq request) ''setVariable''
                              (Some (set_variable_result lib new_val (if is_complex new_val then child else 0))) s3))))"

definition evaluate_result :: "dap_libs \<Rightarrow> json \<Rightarrow> i64 \<Rightarrow> json" where
  "evaluate_result lib v ref =
     evaluate_response_body_json
       \<lparr> er_result = format_preview lib v, er_type = Some (dap_type_name v), er_presentation_hint = None,
         er_variables_reference = ref, er_named_variables = named_count v, er_indexed_variables = indexed_count v \<rparr>"

definition handle_evaluate :: "dap_libs \<Rightarrow> request \<Rightarrow> dap_server \<Rightarrow> unit outcome" where
  "handle_evaluate lib request =
     with_arguments lib ''evaluate'' evaluate_arguments_of request (\<lambda>args s.
       let thread_id = (case ea_frame_id args of Some f \<Rightarrow> i64_div f 10000 | None \<Rightarrow> 0);
           expr = (if starts_with ''.'' (ea_expression args) then ea_expression args else ''.'' @ ea_expression args)
       in case map_of (dp_paused_threads s) thread_id of
            None \<Rightarrow> send_error_response lib (rq_seq request) ''evaluate'' ''Thread not paused'' s
          | Some p \<Rightarrow>
              (case jq_evaluate (dl_jaq lib) expr (pd_state p) of
                 Inl e \<Rightarrow> send_error_response lib (rq_seq request) ''evaluate'' (''Evaluation failed: '' @ error_to_string e) s
               | Inr v \<Rightarrow>
                   (let n = pd_var_ref_index p + 1;
                        ref = (if is_complex v then var_ref thread_id n else 0);
                        s1 = (if is_complex v then set_var_ref_index thread_id p n (cache_value ref v s) else s)
                    in send_response lib (rq_seq request) ''evaluate'' (Some (evaluate_result lib v ref)) s1)))"

section \<open>Handlers: resuming and the end of a session\<close>

definition handle_continue :: "dap_libs \<Rightarrow> request \<Rightarrow> dap_server \<Rightarrow> unit outcome" where
  "handle_continue lib request =
     with_arguments lib ''continue'' continue_arguments_of request (\<lambda>args s.
       let thread_id = ca_thread_id args
       in send_response lib (rq_seq request) ''continue'' (Some (continue_response_json (Some False)))
            (resume_thread CmdContinue thread_id (clear_stepping thread_id (clear_thread_variables thread_id s))))"

definition current_depth :: "u64 \<Rightarrow> dap_server \<Rightarrow> nat" where
  "current_depth thread_id s =
     (case map_of (dp_paused_threads s) thread_id of Some p \<Rightarrow> length (pd_stack p) | None \<Rightarrow> 1)"

definition handle_next :: "dap_libs \<Rightarrow> request \<Rightarrow> dap_server \<Rightarrow> unit outcome" where
  "handle_next lib request =
     with_arguments lib ''next'' next_arguments_of request (\<lambda>args s.
       let thread_id = na_thread_id args;
           s1 = clear_thread_variables thread_id s;
           s2 = set_stepping thread_id (StepOver (current_depth thread_id s1)) s1
       in send_response lib (rq_seq request) ''next'' None (resume_thread CmdStepOver thread_id s2))"

definition handle_step_in :: "dap_libs \<Rightarrow> request \<Rightarrow> dap_server \<Rightarrow> unit outcome" where
  "handle_step_in lib request =
     with_arguments lib ''stepIn'' step_in_arguments_of request (\<lambda>args s.
       let thread_id = sia_thread_id args;
           s1 = set_stepping thread_id StepInto (clear_thread_variables thread_id s)
       in send_response lib (rq_seq request) ''stepIn'' None (resume_thread CmdStepIn thread_id s1))"

definition handle_step_out :: "dap_libs \<Rightarrow> request \<Rightarrow> dap_server \<Rightarrow> unit outcome" where
  "handle_step_out lib request =
     with_arguments lib ''stepOut'' step_out_arguments_of request (\<lambda>args s.
       let thread_id = soa_thread_id args;
           s1 = clear_thread_variables thread_id s;
           s2 = set_stepping thread_id (StepOut (current_depth thread_id s1)) s1
       in send_response lib (rq_seq request) ''stepOut'' None (resume_thread CmdStepOut thread_id s2))"

definition handle_pause :: "dap_libs \<Rightarrow> request \<Rightarrow> dap_server \<Rightarrow> unit outcome" where
  "handle_pause lib request = send_response lib (rq_seq request) ''pause'' None"

definition handle_source :: "dap_libs \<Rightarrow> request \<Rightarrow> dap_server \<Rightarrow> unit outcome" where
  "handle_source lib request s =
     (case dl_read_file lib (dp_file_path s) of
        Inr content \<Rightarrow>
          send_response lib (rq_seq request) ''source''
            (Some (JObject [(''content'', JString content), (''mimeType'', JString ''text/plain'')])) s
      | Inl e \<Rightarrow> send_error_response lib (rq_seq request) ''source'' (''Failed to read source: '' @ e) s)"

definition notify_shutdown :: "dap_server \<Rightarrow> dap_server" where
  "notify_shutdown s = s\<lparr>dp_shutdown_notify := map_option (\<lambda>_. True) (dp_shutdown_notify s)\<rparr>"

definition handle_disconnect :: "dap_libs \<Rightarrow> request \<Rightarrow> dap_server \<Rightarrow> unit outcome" where
  "handle_disconnect lib request s =
     (let s1 = fold (resume_thread CmdContinue) (map fst (dp_paused_threads s)) s
      in and_then (send_response lib (rq_seq request) ''disconnect'' None (s1\<lparr>dp_announced_threads := []\<rparr>))
           (\<lambda>_ s2. (Inr (), notify_shutdown s2)))"

section \<open>The session\<close>

text \<open>One request; the answer says whether the session goes on.\<close>

definition goes_on :: "unit outcome \<Rightarrow> bool outcome" where
  "goes_on r = and_then r (\<lambda>_ s. (Inr True, s))"

definition dispatch_request :: "dap_libs \<Rightarrow> request \<Rightarrow> dap_server \<Rightarrow> bool outcome" where
  "dispatch_request lib request s =
     (let command = rq_command request in
      if command = ''initialize'' then goes_on (handle_initialize lib request s)
      else if command = ''launch'' then goes_on (handle_launch lib request s)
      else if command = ''setBreakpoints'' then goes_on (handle_set_breakpoints lib request s)
      else if command = ''configurationDone'' then goes_on (handle_configuration_done lib request s)
      else if command = ''threads'' then goes_on (handle_threads lib request s)
      else if command = ''stackTrace'' then goes_on (handle_stack_trace lib request s)
      else if command = ''scopes'' then goes_on (handle_scopes lib request s)
      else if command = ''variables'' then goes_on (handle_variables lib request s)
      else if command = ''setVariable'' then goes_on (handle_set_variable lib request s)
      else if command = ''evaluate'' then goes_on (handle_evaluate lib request s)
      else if command = ''continue'' then goes_on (handle_continue lib request s)
      else if command = ''next'' then goes_on (handle_next lib request s)
      else if command = ''stepIn'' then goes_on (handle_step_in lib request s)
      else if command = ''stepOut'' then goes_on (handle_step_out lib request s)
      else if command = ''pause'' then goes_on (handle_pause lib request s)
      else if command = ''source'' then goes_on (handle_source lib request s)
      else if command = ''disconnect'' then and_then (handle_disconnect lib request s) (\<lambda>_ s1. (Inr False, s1))
      else goes_on (send_error_response lib (rq_seq request) command ''Command not supported'' s))"

definition handle_message :: "dap_libs \<Rightarrow> string \<Rightarrow> dap_server \<Rightarrow> bool outcome" where
  "handle_message lib msg s =
     (case dl_parse lib msg of
        Inl e \<Rightarrow> (Inl (DebuggerError (''Failed to parse request: '' @ e)), s)
      | Inr doc \<Rightarrow>
          (case request_of doc of
             None \<Rightarrow> (Inl (DebuggerError (''Failed to parse request: '' @ dl_reason lib ''request'' doc)), s)
           | Some request \<Rightarrow> dispatch_request lib request s))"

datatype session_end = Disconnected | Aborted web_pipe_error | SessionPanic

function handle_messages :: "dap_libs \<Rightarrow> string \<Rightarrow> dap_server \<Rightarrow> session_end \<times> dap_server" where
  "handle_messages lib input s =
     (case read_message lib input of
        ReadError e \<Rightarrow> (Aborted e, s)
      | ReadPanic \<Rightarrow> (SessionPanic, s)
      | Message msg rest \<Rightarrow>
          (case handle_message lib msg s of
             (Inl e, s1) \<Rightarrow> (Aborted e, s1)
           | (Inr False, s1) \<Rightarrow> (Disconnected, s1)
           | (Inr True, s1) \<Rightarrow> handle_messages lib rest s1))"
  by pat_completeness auto
termination
  by (relation "measure (\<lambda>(lib, input, s). length input)") (auto dest: read_message_length)

declare handle_messages.simps [simp del]

text \<open>
  The task that \<^verbatim>\<open>start_tcp_listener\<close> starts once a client is connected. Its end, but
  for a panic, asks the program to shut down.
\<close>

definition dap_session :: "dap_libs \<Rightarrow> string \<Rightarrow> dap_server \<Rightarrow> session_end \<times> dap_server" where
  "dap_session lib input s =
     (case handle_messages lib input (s\<lparr>dp_client_writer := Client\<rparr>) of
        (SessionPanic, s1) \<Rightarrow> (SessionPanic, s1)
      | (e, s1) \<Rightarrow> (e, notify_shutdown s1))"

section \<open>The hook\<close>

definition send_stopped_event :: "dap_libs \<Rightarrow> u64 \<Rightarrow> string \<Rightarrow> i64 option \<Rightarrow> dap_server \<Rightarrow> unit outcome" where
  "send_stopped_event lib thread_id reason breakpoint_id =
     send_event lib ''stopped'' (Some (stopped_event_body_json
       \<lparr> seb_reason = reason, seb_description = Some (''Paused on '' @ reason), seb_thread_id = Some thread_id,
         seb_preserve_focus_hint = Some False, seb_text = None, seb_all_threads_stopped = Some True,
         seb_hit_breakpoint_ids = map_option (\<lambda>i. [i]) breakpoint_id \<rparr>))"

definition send_continued_event :: "dap_libs \<Rightarrow> u64 \<Rightarrow> dap_server \<Rightarrow> unit outcome" where
  "send_continued_event lib thread_id =
     send_event lib ''continued''
       (Some (JObject [(''threadId'', json_i64 thread_id), (''allThreadsContinued'', JBool False)]))"

definition send_thread_event :: "dap_libs \<Rightarrow> u64 \<Rightarrow> string \<Rightarrow> dap_server \<Rightarrow> unit outcome" where
  "send_thread_event lib thread_id reason =
     send_event lib ''thread'' (Some (JObject [(''reason'', JString reason), (''threadId'', json_i64 thread_id)]))"

definition step_file :: "dap_server \<Rightarrow> source_location \<Rightarrow> string" where
  "step_file s loc = (case loc_file_path loc of Some f \<Rightarrow> f | None \<Rightarrow> dp_file_path s)"

definition mode_stops :: "stepping_mode option \<Rightarrow> nat \<Rightarrow> bool" where
  "mode_stops mode depth =
     (case mode of
        None \<Rightarrow> False
      | Some StepInto \<Rightarrow> True
      | Some (StepOver target_depth) \<Rightarrow> depth \<le> target_depth
      | Some (StepOut target_depth) \<Rightarrow> depth < target_depth)"

definition should_stop :: "u64 \<Rightarrow> source_location \<Rightarrow> string list \<Rightarrow> dap_server \<Rightarrow> bool" where
  "should_stop thread_id loc stack s \<longleftrightarrow>
     has_breakpoint s (step_file s loc) (loc_line loc) \<or>
     mode_stops (map_of (dp_stepping_threads s) thread_id) (length stack)"

definition announce_thread :: "dap_libs \<Rightarrow> u64 \<Rightarrow> dap_server \<Rightarrow> unit outcome" where
  "announce_thread lib thread_id s =
     (if thread_id \<in> set (dp_announced_threads s) then (Inr (), s)
      else send_thread_event lib thread_id ''started''
             (s\<lparr>dp_announced_threads := thread_id # dp_announced_threads s\<rparr>))"

text \<open>
  \<^verbatim>\<open>before_step\<close> up to its wait: the hook lets the step go on, or waits on a channel. If
  the client cannot be told, the hook fails, and with it goes the receiving half of the channel.
\<close>

datatype hook_entry = Proceed | WaitOn nat

definition pause_thread ::
  "dap_libs \<Rightarrow> u64 \<Rightarrow> string \<Rightarrow> source_location \<Rightarrow> json \<Rightarrow> string list \<Rightarrow> dap_server \<Rightarrow> hook_entry outcome" where
  "pause_thread lib thread_id step_name loc state stack s =
     (let file = step_file s loc;
          at_breakpoint = has_breakpoint s file (loc_line loc);
          reason = (if at_breakpoint then ''breakpoint'' else ''step'');
          breakpoint_id = (if at_breakpoint then get_breakpoint_id s file (loc_line loc) else None);
          c = length (dp_channels s);
          s1 = insert_paused thread_id
                 \<lparr> pd_resume_tx = c, pd_state = state, pd_location = loc, pd_step_name = step_name, pd_stack = stack,
                   pd_var_ref_index = 1 \<rparr>
                 ((clear_stepping thread_id s)\<lparr>dp_channels := dp_channels s @ [Unsent]\<rparr>)
      in case send_stopped_event lib thread_id reason breakpoint_id s1 of
           (Inl e, s2) \<Rightarrow> (Inl e, drop_receiver c s2)
         | (Inr _, s2) \<Rightarrow> (Inr (WaitOn c), s2))"

definition before_step_enter ::
  "dap_libs \<Rightarrow> u64 \<Rightarrow> string \<Rightarrow> source_location \<Rightarrow> json \<Rightarrow> string list \<Rightarrow> dap_server \<Rightarrow> hook_entry outcome" where
  "before_step_enter lib thread_id step_name loc state stack s =
     (if should_stop thread_id loc stack s
      then and_then (announce_thread lib thread_id s) (\<lambda>_. pause_thread lib thread_id step_name loc state stack)
      else (Inr Proceed, s))"

text \<open>The rest of \<^verbatim>\<open>before_step\<close>, once the channel has an answer: the action and the new state.\<close>

definition command_effect :: "step_command \<Rightarrow> step_action \<times> json option" where
  "command_effect command =
     (case command of
        CmdContinue v \<Rightarrow> (ActContinue, v) | CmdStepOver v \<Rightarrow> (ActStepOver, v)
      | CmdStepIn v \<Rightarrow> (ActStepIn, v) | CmdStepOut v \<Rightarrow> (ActStepOut, v))"

definition before_step_resume :: "nat \<Rightarrow> json \<Rightarrow> dap_server \<Rightarrow> (web_pipe_error + step_action \<times> json) option" where
  "before_step_resume c state s =
     (case dp_channels s ! c of
        Sent command \<Rightarrow>
          (case command_effect command of (action, v) \<Rightarrow> Some (Inr (action, (case v of Some j \<Rightarrow> j | None \<Rightarrow> state))))
      | SenderDropped \<Rightarrow> Some (Inl (DebuggerError ''Resume channel closed''))
      | _ \<Rightarrow> None)"

end
