(* ===== verification/Dap_Session.thy ===== *)
theory Dap_Session
  imports Dap_Server
begin

text \<open>
  The debugger at work: requests from the client and hooks of running requests interleave on one
  server. A step relation gives every interleaving; its invariant is that a hook that waits on an
  open channel is the one its thread is paused by, so a client can always resume it.
\<close>

section \<open>Interleavings\<close>

text \<open>A waiting hook: its channel, its thread and the state its step was about to run on.\<close>

record dap_system =
  sy_server :: dap_server
  sy_hooks :: "(nat \<times> u64 \<times> json) list"

inductive dap_step :: "dap_libs \<Rightarrow> dap_system \<Rightarrow> dap_system \<Rightarrow> bool" for lib :: dap_libs where
  client_connects:
    "dap_step lib \<lparr> sy_server = s, sy_hooks = hs \<rparr> \<lparr> sy_server = s\<lparr>dp_client_writer := Client\<rparr>, sy_hooks = hs \<rparr>"
| client_is_lost:
    "dap_step lib \<lparr> sy_server = s, sy_hooks = hs \<rparr> \<lparr> sy_server = s\<lparr>dp_client_writer := Broken e\<rparr>, sy_hooks = hs \<rparr>"
| message_arrives:
    "handle_message lib msg s = (r, s') \<Longrightarrow>
     dap_step lib \<lparr> sy_server = s, sy_hooks = hs \<rparr> \<lparr> sy_server = s', sy_hooks = hs \<rparr>"
| session_ends:
    "dap_step lib \<lparr> sy_server = s, sy_hooks = hs \<rparr> \<lparr> sy_server = notify_shutdown s, sy_hooks = hs \<rparr>"
| thread_starts:
    "allocate_thread_id s = (t, s') \<Longrightarrow>
     dap_step lib \<lparr> sy_server = s, sy_hooks = hs \<rparr> \<lparr> sy_server = s', sy_hooks = hs \<rparr>"
| hook_returns:
    "before_step_enter lib t name loc state stack s = (r, s') \<Longrightarrow> (\<And>c. r \<noteq> Inr (WaitOn c)) \<Longrightarrow>
     dap_step lib \<lparr> sy_server = s, sy_hooks = hs \<rparr> \<lparr> sy_server = s', sy_hooks = hs \<rparr>"
| hook_waits:
    "before_step_enter lib t name loc state stack s = (Inr (WaitOn c), s') \<Longrightarrow>
     dap_step lib \<lparr> sy_server = s, sy_hooks = hs \<rparr> \<lparr> sy_server = s', sy_hooks = (c, t, state) # hs \<rparr>"
| hook_resumes:
    "(c, t, state) \<in> set hs \<Longrightarrow> before_step_resume c state s = Some r \<Longrightarrow>
     dap_step lib \<lparr> sy_server = s, sy_hooks = hs \<rparr>
       \<lparr> sy_server = s, sy_hooks = filter (\<lambda>h. fst h \<noteq> c) hs \<rparr>"
| main_checks:
    "dap_step lib \<lparr> sy_server = s, sy_hooks = hs \<rparr> \<lparr> sy_server = config_check s, sy_hooks = hs \<rparr>"
| main_registers:
    "dp_configuration_done s = Checked \<Longrightarrow>
     dap_step lib \<lparr> sy_server = s, sy_hooks = hs \<rparr> \<lparr> sy_server = config_register s, sy_hooks = hs \<rparr>"

inductive dap_reachable :: "dap_libs \<Rightarrow> string \<Rightarrow> dap_system \<Rightarrow> bool" for lib :: dap_libs and path :: string where
  start: "dap_reachable lib path \<lparr> sy_server = dap_new path notify, sy_hooks = [] \<rparr>"
| step: "dap_reachable lib path sys \<Longrightarrow> dap_step lib sys sys' \<Longrightarrow> dap_reachable lib path sys'"

section \<open>The invariant\<close>

definition tx_of :: "dap_server \<Rightarrow> u64 \<Rightarrow> nat option" where
  "tx_of s t = map_option pd_resume_tx (map_of (dp_paused_threads s) t)"

definition channels_ok :: "dap_server \<Rightarrow> bool" where
  "channels_ok s \<longleftrightarrow>
     (\<forall>t c. tx_of s t = Some c \<longrightarrow>
        c < length (dp_channels s) \<and> t \<in> set (dp_announced_threads s) \<and> dp_channels s ! c \<in> {Unsent, ReceiverDropped}) \<and>
     (\<forall>t u c. tx_of s t = Some c \<longrightarrow> tx_of s u = Some c \<longrightarrow> t = u)"

definition hook_ok :: "dap_server \<Rightarrow> nat \<Rightarrow> u64 \<Rightarrow> bool" where
  "hook_ok s c t \<longleftrightarrow>
     c < length (dp_channels s) \<and> dp_channels s ! c \<noteq> ReceiverDropped \<and>
     (dp_channels s ! c = Unsent \<longrightarrow> tx_of s t = Some c)"

definition hooks_ok :: "dap_server \<Rightarrow> (nat \<times> u64 \<times> json) list \<Rightarrow> bool" where
  "hooks_ok s hs \<longleftrightarrow> channels_ok s \<and> (\<forall>(c, t, state) \<in> set hs. hook_ok s c t)"

text \<open>Most operations leave channels and pauses as they are.\<close>

definition same_pauses :: "dap_server \<Rightarrow> dap_server \<Rightarrow> bool" where
  "same_pauses s s' \<longleftrightarrow> dp_channels s' = dp_channels s \<and> dp_announced_threads s' = dp_announced_threads s \<and> tx_of s' = tx_of s"

lemma same_pauses_ok: "same_pauses s s' \<Longrightarrow> hooks_ok s hs \<Longrightarrow> hooks_ok s' hs"
  by (simp add: same_pauses_def hooks_ok_def channels_ok_def hook_ok_def)

lemma same_pauses_refl [intro]: "same_pauses s s"
  by (simp add: same_pauses_def)

lemma same_pauses_trans: "same_pauses s s1 \<Longrightarrow> same_pauses s1 s2 \<Longrightarrow> same_pauses s s2"
  by (simp add: same_pauses_def)

lemma same_pauses_paused:
  "dp_channels s' = dp_channels s \<Longrightarrow> dp_announced_threads s' = dp_announced_threads s \<Longrightarrow>
   dp_paused_threads s' = dp_paused_threads s \<Longrightarrow> same_pauses s s'"
  by (simp add: same_pauses_def tx_of_def fun_eq_iff)

text \<open>Updating a paused thread without giving it another channel.\<close>

lemma same_pauses_update:
  assumes "map_of (dp_paused_threads s) t = Some p" and "pd_resume_tx p' = pd_resume_tx p"
  shows "same_pauses s (s\<lparr>dp_paused_threads := AList.update t p' (dp_paused_threads s)\<rparr>)"
  using assms by (simp add: same_pauses_def tx_of_def fun_eq_iff update_conv)

lemma send_json_frame: "same_pauses s (snd (send_json lib msg s))"
  by (intro same_pauses_paused) (simp_all add: send_json_def send_message_def split: client_writer.splits)

lemma send_frames:
  "same_pauses s (snd (send_response lib n command body s))"
  "same_pauses s (snd (send_error_response lib n command message s))"
  "same_pauses s (snd (send_event lib event body s))"
  by (simp_all add: send_response_def send_error_response_def send_event_def send_json_frame)

lemma sent_after:
  "same_pauses s s1 \<Longrightarrow> same_pauses s (snd (send_response lib n command body s1))"
  "same_pauses s s1 \<Longrightarrow> same_pauses s (snd (send_error_response lib n command message s1))"
  "same_pauses s s1 \<Longrightarrow> same_pauses s (snd (send_event lib event body s1))"
  using send_frames same_pauses_trans by blast+

lemma cache_frames:
  "same_pauses s (cache_value ref v s)" "same_pauses s (set_pointer ref q s)"
  "same_pauses s (update_cached ref name v s)" "same_pauses s (clear_thread_variables t s)"
  "same_pauses s (set_stepping t mode s)" "same_pauses s (clear_stepping t s)"
  "same_pauses s (notify_shutdown s)"
  by (auto simp: cache_value_def set_pointer_def update_cached_def clear_thread_variables_def set_stepping_def
      clear_stepping_def notify_shutdown_def Let_def intro!: same_pauses_paused split: option.splits)

lemmas cache_after =
  same_pauses_trans [OF _ cache_frames(1)] same_pauses_trans [OF _ cache_frames(2)] same_pauses_trans [OF _ cache_frames(3)]
  same_pauses_trans [OF _ cache_frames(4)] same_pauses_trans [OF _ cache_frames(5)] same_pauses_trans [OF _ cache_frames(6)]

lemma cache_children_frame:
  "cache_children lib t ptr es n s = (vars, n', s') \<Longrightarrow> dp_paused_threads s' = dp_paused_threads s \<and>
     dp_channels s' = dp_channels s \<and> dp_announced_threads s' = dp_announced_threads s"
  by (induction es arbitrary: vars n s)
    (auto simp: Let_def set_pointer_def cache_value_def split: prod.splits if_splits)

lemma with_arguments_frame:
  "(\<And>args. same_pauses s (snd (k args s))) \<Longrightarrow> same_pauses s (snd (with_arguments lib command dec request k s))"
  by (auto simp: with_arguments_def Let_def split: option.splits)

lemma plain_handlers_frame:
  "same_pauses s (snd (handle_initialize lib r s))" "same_pauses s (snd (handle_launch lib r s))"
  "same_pauses s (snd (handle_pause lib r s))" "same_pauses s (snd (handle_source lib r s))"
  "same_pauses s (snd (handle_threads lib r s))" "same_pauses s (snd (handle_configuration_done lib r s))"
  "same_pauses s (snd (handle_stack_trace lib r s))" "same_pauses s (snd (handle_scopes lib r s))"
  "same_pauses s (snd (handle_set_breakpoints lib r s))"
proof -
  obtain a s1 where i: "send_response lib (rq_seq r) ''initialize'' (Some (capabilities_json server_capabilities)) s = (a, s1)"
    by (cases "send_response lib (rq_seq r) ''initialize'' (Some (capabilities_json server_capabilities)) s")
  then have "same_pauses s s1" using send_frames(1) by (metis snd_conv)
  with i show "same_pauses s (snd (handle_initialize lib r s))"
    using same_pauses_trans [OF _ send_frames(3)] by (simp add: handle_initialize_def and_then_def split: sum.splits)
  show "same_pauses s (snd (handle_set_breakpoints lib r s))"
    unfolding handle_set_breakpoints_def
    by (rule with_arguments_frame)
      (auto simp: Let_def split: prod.splits intro!: sent_after same_pauses_paused)
  show "same_pauses s (snd (handle_scopes lib r s))"
    unfolding handle_scopes_def
    by (rule with_arguments_frame) (auto simp: Let_def intro!: sent_after cache_frames)
qed (auto simp: handle_launch_def handle_pause_def handle_source_def handle_threads_def handle_configuration_done_def
      handle_stack_trace_def Let_def send_frames intro!: with_arguments_frame sent_after same_pauses_paused split: sum.splits)

lemma handle_variables_frame: "same_pauses s (snd (handle_variables lib r s))"
  unfolding handle_variables_def
proof (rule with_arguments_frame)
  fix args
  have shown: "same_pauses s (set_var_ref_index t p n s2)"
    if "map_of (dp_paused_threads s) t = Some p" "json_to_variables_cached lib v t ptr m s = (vars, n, s2)"
    for t p n s2 v ptr m vars
  proof -
    have f: "dp_paused_threads s2 = dp_paused_threads s" "dp_channels s2 = dp_channels s"
      "dp_announced_threads s2 = dp_announced_threads s"
      using that(2) cache_children_frame [of lib t ptr _ m s vars n s2]
      by (auto simp: json_to_variables_cached_def split: if_splits)
    then have "same_pauses s s2" by (intro same_pauses_paused) simp_all
    moreover have "same_pauses s2 (set_var_ref_index t p n s2)"
      unfolding set_var_ref_index_def using that(1) f(1) by (intro same_pauses_update [where p = p]) simp_all
    ultimately show ?thesis by (rule same_pauses_trans)
  qed
  show "same_pauses s (snd (let ref = va_variables_reference args;
           thread_id = i64_div ref VAR_REF_STRIDE;
           parent_ptr = string_or_empty (map_of (dp_variable_pointers s) ref);
           (vars, s1) =
             (case map_of (dp_paused_threads s) thread_id of
                None \<Rightarrow> ([], s)
              | Some p \<Rightarrow>
                  (case shown_value s ref p of
                     None \<Rightarrow> ([], s)
                   | Some v \<Rightarrow>
                       (case json_to_variables_cached lib v thread_id parent_ptr (pd_var_ref_index p) s of
                          (vars, n, s2) \<Rightarrow> (vars, set_var_ref_index thread_id p n s2))))
       in send_response lib (rq_seq r) ''variables'' (Some (variables_response_json vars)) s1))"
    by (auto simp: Let_def split: prod.splits option.splits intro!: sent_after intro: shown)
qed

lemma handle_set_variable_frame: "same_pauses s (snd (handle_set_variable lib r s))"
  unfolding handle_set_variable_def
proof (rule with_arguments_frame, goal_cases)
  case (1 args)
  have patched: "same_pauses s (s2\<lparr>dp_paused_threads := AList.update t p' (dp_paused_threads s)\<rparr>)"
    if "map_of (dp_paused_threads s) t = Some p" "pd_resume_tx p' = pd_resume_tx p" "same_pauses s s2"
      "dp_paused_threads s2 = dp_paused_threads s" for t p p' s2
    using that same_pauses_update [of s2 t p p'] same_pauses_trans by auto
  have kept: "dp_paused_threads (set_pointer a q (cache_value b v s1)) = dp_paused_threads s1"
    "dp_paused_threads (update_cached a name v s) = dp_paused_threads s" for a b q v s1 name
    by (auto simp: set_pointer_def cache_value_def update_cached_def split: option.splits)
  have cached: "same_pauses s (set_pointer a q (cache_value b v (update_cached c name w s)))" for a q b v c name w
    by (intro cache_after same_pauses_refl)
  show ?case
    by (auto simp: Let_def send_frames kept intro!: sent_after patched cached cache_frames split: option.splits)
qed

lemma handle_evaluate_frame: "same_pauses s (snd (handle_evaluate lib r s))"
  unfolding handle_evaluate_def
proof (rule with_arguments_frame, goal_cases)
  case (1 args)
  have "same_pauses s (set_var_ref_index t p n (cache_value ref v s))"
    if "map_of (dp_paused_threads s) t = Some p" for t p n ref v
  proof -
    have "same_pauses (cache_value ref v s) (set_var_ref_index t p n (cache_value ref v s))"
      unfolding set_var_ref_index_def
      using that by (intro same_pauses_update [where p = p]) (simp_all add: cache_value_def)
    with cache_frames(1) show ?thesis by (rule same_pauses_trans)
  qed
  then show ?case
    by (auto simp: Let_def send_frames intro!: sent_after split: option.splits sum.splits)
qed

section \<open>Resuming and pausing\<close>

lemma resume_thread_facts:
  "tx_of (resume_thread command t s) = (tx_of s)(t := None)"
  "dp_announced_threads (resume_thread command t s) = dp_announced_threads s"
  "length (dp_channels (resume_thread command t s)) = length (dp_channels s)"
  by (auto simp: resume_thread_def tx_of_def fun_eq_iff send_channel_def delete_conv split: option.splits)

lemma resume_thread_channel:
  "dp_channels (resume_thread command t s) ! c =
     (if tx_of s t = Some c \<and> c < length (dp_channels s) \<and> dp_channels s ! c = Unsent
      then Sent (command (Some (pd_state (the (map_of (dp_paused_threads s) t))))) else dp_channels s ! c)"
  by (auto simp: resume_thread_def tx_of_def send_channel_def nth_list_update split: option.splits)

lemma resume_thread_ok: "hooks_ok s hs \<Longrightarrow> hooks_ok (resume_thread command t s) hs"
  unfolding hooks_ok_def channels_ok_def hook_ok_def
  by (clarsimp simp: resume_thread_facts resume_thread_channel split: if_splits) (fastforce split: if_splits)

lemma resume_all_ok: "hooks_ok s hs \<Longrightarrow> hooks_ok (fold (resume_thread command) ts s) hs"
  by (induction ts arbitrary: s) (auto intro: resume_thread_ok)

lemma resume_all_tx: "tx_of (fold (resume_thread command) ts s) t = (if t \<in> set ts then None else tx_of s t)"
  by (induction ts arbitrary: s) (auto simp: resume_thread_facts)

lemma no_pauses_ok:
  "hooks_ok s hs \<Longrightarrow> (\<And>t. tx_of s t = None) \<Longrightarrow> hooks_ok (s\<lparr>dp_announced_threads := []\<rparr>) hs"
  by (simp add: hooks_ok_def channels_ok_def hook_ok_def tx_of_def)

definition keeps_hooks :: "(dap_server \<Rightarrow> 'a outcome) \<Rightarrow> bool" where
  "keeps_hooks f \<longleftrightarrow> (\<forall>s hs. hooks_ok s hs \<longrightarrow> hooks_ok (snd (f s)) hs)"

lemma keeps_frame: "(\<And>s. same_pauses s (snd (f s))) \<Longrightarrow> keeps_hooks f"
  using same_pauses_ok by (auto simp: keeps_hooks_def)

lemma keeps_arguments: "(\<And>args. keeps_hooks (k args)) \<Longrightarrow> keeps_hooks (with_arguments lib command dec request k)"
  by (auto simp: keeps_hooks_def with_arguments_def Let_def split: option.splits)

lemma send_response_ok: "hooks_ok s hs \<Longrightarrow> hooks_ok (snd (send_response lib n command body s)) hs"
  using send_frames(1) same_pauses_ok by blast

lemma resuming_handlers_ok:
  "keeps_hooks (handle_continue lib r)" "keeps_hooks (handle_next lib r)" "keeps_hooks (handle_step_in lib r)"
  "keeps_hooks (handle_step_out lib r)"
proof -
  have start: "hooks_ok (clear_stepping t (clear_thread_variables u s)) hs" "hooks_ok (set_stepping t mode (clear_thread_variables u s)) hs"
    if "hooks_ok s hs" for t u mode s hs
    by (rule same_pauses_ok [OF _ that], intro cache_after same_pauses_refl)+
  show "keeps_hooks (handle_continue lib r)" "keeps_hooks (handle_next lib r)" "keeps_hooks (handle_step_in lib r)"
    "keeps_hooks (handle_step_out lib r)"
    unfolding handle_continue_def handle_next_def handle_step_in_def handle_step_out_def
    by (rule keeps_arguments, simp add: keeps_hooks_def Let_def start send_response_ok resume_thread_ok)+
qed

lemma handle_disconnect_ok: "keeps_hooks (handle_disconnect lib r)"
  unfolding keeps_hooks_def
proof (intro allI impI)
  fix s hs assume ok: "hooks_ok s hs"
  let ?s1 = "fold (resume_thread CmdContinue) (map fst (dp_paused_threads s)) s"
  have "tx_of ?s1 t = None" for t
  proof (cases "t \<in> fst ` set (dp_paused_threads s)")
    case False
    then have "tx_of s t = None" by (simp add: tx_of_def map_of_eq_None_iff)
    then show ?thesis by (simp add: resume_all_tx)
  qed (simp add: resume_all_tx)
  then have "hooks_ok (?s1\<lparr>dp_announced_threads := []\<rparr>) hs"
    using resume_all_ok [OF ok] by (rule no_pauses_ok [rotated])
  then have "hooks_ok (snd (send_response lib (rq_seq r) ''disconnect'' None (?s1\<lparr>dp_announced_threads := []\<rparr>))) hs"
    by (rule send_response_ok)
  then show "hooks_ok (snd (handle_disconnect lib r s)) hs"
    using same_pauses_ok [OF cache_frames(7)]
    by (auto simp: handle_disconnect_def and_then_def Let_def split: prod.splits sum.splits)
qed

lemma keeps_if: "keeps_hooks f \<Longrightarrow> keeps_hooks g \<Longrightarrow> keeps_hooks (\<lambda>s. if b then f s else g s)"
  by (simp add: keeps_hooks_def)

lemma goes_on_ok: "keeps_hooks f \<Longrightarrow> keeps_hooks (\<lambda>s. goes_on (f s))"
  by (simp add: keeps_hooks_def goes_on_def and_then_def split: prod.splits sum.splits) (metis snd_conv)

lemma dispatch_request_ok: "keeps_hooks (dispatch_request lib r)"
proof -
  have stop: "keeps_hooks (\<lambda>s. and_then (handle_disconnect lib r s) (\<lambda>_ s1. (Inr False, s1)))"
    using handle_disconnect_ok [of lib r]
    by (simp add: keeps_hooks_def and_then_def split: prod.splits sum.splits) (metis snd_conv)
  have "keeps_hooks (handle_initialize lib r)" "keeps_hooks (handle_launch lib r)" "keeps_hooks (handle_pause lib r)"
    "keeps_hooks (handle_source lib r)" "keeps_hooks (handle_threads lib r)" "keeps_hooks (handle_configuration_done lib r)"
    "keeps_hooks (handle_stack_trace lib r)" "keeps_hooks (handle_scopes lib r)" "keeps_hooks (handle_set_breakpoints lib r)"
    "keeps_hooks (handle_variables lib r)" "keeps_hooks (handle_set_variable lib r)" "keeps_hooks (handle_evaluate lib r)"
    "keeps_hooks (send_error_response lib (rq_seq r) (rq_command r) ''Command not supported'')"
    by (rule keeps_frame, rule plain_handlers_frame handle_variables_frame handle_set_variable_frame
        handle_evaluate_frame send_frames(2))+
  then show ?thesis
    unfolding dispatch_request_def [abs_def] Let_def
    using stop resuming_handlers_ok [of lib r] by (intro keeps_if goes_on_ok)
qed

lemma handle_message_ok: "hooks_ok s hs \<Longrightarrow> hooks_ok (snd (handle_message lib msg s)) hs"
  using dispatch_request_ok by (auto simp: handle_message_def keeps_hooks_def split: sum.splits option.splits)

lemma announce_ok:
  assumes "hooks_ok s hs"
  shows "hooks_ok (snd (announce_thread lib t s)) hs"
    and "announce_thread lib t s = (Inr u, s') \<Longrightarrow> t \<in> set (dp_announced_threads s')"
proof -
  let ?s1 = "s\<lparr>dp_announced_threads := t # dp_announced_threads s\<rparr>"
  have "hooks_ok ?s1 hs" using assms by (auto simp: hooks_ok_def channels_ok_def hook_ok_def tx_of_def)
  then show "hooks_ok (snd (announce_thread lib t s)) hs"
    using assms same_pauses_ok [OF send_frames(3)] by (simp add: announce_thread_def send_thread_event_def)
  assume "announce_thread lib t s = (Inr u, s')"
  then show "t \<in> set (dp_announced_threads s')"
    using send_frames(3) [of ?s1] by (auto simp: announce_thread_def send_thread_event_def same_pauses_def split: if_splits)
      (metis list.set_intros(1) snd_conv)
qed

text \<open>The new pause: the thread's earlier one, if any, is dropped.\<close>

lemma insert_paused_facts:
  "tx_of (insert_paused t p s) = (tx_of s)(t \<mapsto> pd_resume_tx p)"
  "dp_announced_threads (insert_paused t p s) = dp_announced_threads s"
  "length (dp_channels (insert_paused t p s)) = length (dp_channels s)"
  "dp_channels (insert_paused t p s) ! c =
     (if tx_of s t = Some c \<and> c < length (dp_channels s) \<and> dp_channels s ! c = Unsent then SenderDropped
      else dp_channels s ! c)"
  by (auto simp: insert_paused_def tx_of_def fun_eq_iff drop_sender_def update_conv nth_list_update split: option.splits)

lemma hooks_ok_grow:
  assumes "hooks_ok s hs"
  shows "hooks_ok ((clear_stepping t s)\<lparr>dp_channels := dp_channels s @ [Unsent]\<rparr>) hs"
  using assms unfolding hooks_ok_def channels_ok_def hook_ok_def
  by (fastforce simp: tx_of_def clear_stepping_def nth_append)

lemma insert_paused_ok:
  assumes "hooks_ok s hs" and "t \<in> set (dp_announced_threads s)" and "c < length (dp_channels s)"
    and "dp_channels s ! c = Unsent" and "pd_resume_tx p = c" and "\<And>u. tx_of s u \<noteq> Some c"
    and "\<And>h. h \<in> set hs \<Longrightarrow> fst h \<noteq> c"
  shows "hooks_ok (insert_paused t p s) hs" and "hook_ok (insert_paused t p s) c t"
  using assms unfolding hooks_ok_def channels_ok_def hook_ok_def
  by (fastforce simp: insert_paused_facts split: if_splits)+

lemma drop_receiver_ok:
  assumes "hooks_ok s hs" and "\<And>h. h \<in> set hs \<Longrightarrow> fst h \<noteq> c"
  shows "hooks_ok (drop_receiver c s) hs"
proof -
  have f: "tx_of (drop_receiver c s) = tx_of s" "dp_announced_threads (drop_receiver c s) = dp_announced_threads s"
    "length (dp_channels (drop_receiver c s)) = length (dp_channels s)"
    "dp_channels (drop_receiver c s) ! k = (if k = c \<and> c < length (dp_channels s) then ReceiverDropped else dp_channels s ! k)" for k
    by (cases "c < length (dp_channels s)") (auto simp: drop_receiver_def tx_of_def fun_eq_iff nth_list_update list_update_beyond)
  have "channels_ok (drop_receiver c s)" using assms(1) by (simp add: hooks_ok_def channels_ok_def f)
  moreover have "hook_ok (drop_receiver c s) k t" if "(k, t, state) \<in> set hs" for k t state
    using assms(1) assms(2) [OF that] that by (auto simp: hooks_ok_def hook_ok_def f)
  ultimately show ?thesis by (auto simp: hooks_ok_def)
qed

lemma pause_thread_ok:
  assumes ok: "hooks_ok s hs" and announced: "t \<in> set (dp_announced_threads s)"
    and p: "pause_thread lib t name loc state stack s = (r, s')"
  shows "hooks_ok s' hs \<and> (\<forall>c. r = Inr (WaitOn c) \<longrightarrow> hook_ok s' c t) \<and> r \<noteq> Inr Proceed"
proof -
  let ?c = "length (dp_channels s)"
  let ?s0 = "(clear_stepping t s)\<lparr>dp_channels := dp_channels s @ [Unsent]\<rparr>"
  let ?p = "\<lparr> pd_resume_tx = ?c, pd_state = state, pd_location = loc, pd_step_name = name, pd_stack = stack, pd_var_ref_index = 1 \<rparr>"
  have fresh: "tx_of ?s0 u \<noteq> Some ?c" for u
    using ok by (auto simp: hooks_ok_def channels_ok_def tx_of_def clear_stepping_def)
  have new: "fst h \<noteq> ?c" if "h \<in> set hs" for h using ok that by (auto simp: hooks_ok_def hook_ok_def)
  have prems: "t \<in> set (dp_announced_threads ?s0)" "?c < length (dp_channels ?s0)" "dp_channels ?s0 ! ?c = Unsent"
    "pd_resume_tx ?p = ?c"
    using announced by (simp_all add: clear_stepping_def)
  note ok1 = insert_paused_ok [OF hooks_ok_grow [OF ok] prems fresh new]
  obtain a s2 where sent: "send_stopped_event lib t (if has_breakpoint s (step_file s loc) (loc_line loc) then ''breakpoint'' else ''step'')
      (if has_breakpoint s (step_file s loc) (loc_line loc) then get_breakpoint_id s (step_file s loc) (loc_line loc) else None)
      (insert_paused t ?p ?s0) = (a, s2)"
    by (cases "send_stopped_event lib t (if has_breakpoint s (step_file s loc) (loc_line loc) then ''breakpoint'' else ''step'')
      (if has_breakpoint s (step_file s loc) (loc_line loc) then get_breakpoint_id s (step_file s loc) (loc_line loc) else None)
      (insert_paused t ?p ?s0)")
  have same: "same_pauses (insert_paused t ?p ?s0) s2"
    using send_frames(3) sent by (metis send_stopped_event_def snd_conv)
  have ok2: "hooks_ok s2 hs" "hook_ok s2 ?c t"
    using same_pauses_ok [OF same ok1(1)] ok1(2) same by (simp_all add: hook_ok_def same_pauses_def)
  have dropped: "hooks_ok (drop_receiver ?c s2) hs"
    by (rule drop_receiver_ok [OF ok2(1) new])
  show ?thesis
    using p ok2 dropped unfolding pause_thread_def Let_def sent by (auto split: sum.splits)
qed

lemma before_step_ok:
  assumes "hooks_ok s hs" and "before_step_enter lib t name loc state stack s = (r, s')"
  shows "hooks_ok s' hs" and "r = Inr (WaitOn c) \<Longrightarrow> hook_ok s' c t"
proof -
  obtain a s1 where a: "announce_thread lib t s = (a, s1)" by (cases "announce_thread lib t s")
  from announce_ok(1) [OF assms(1), of lib t] a have "hooks_ok s1 hs" by simp
  then show "hooks_ok s' hs" "r = Inr (WaitOn c) \<Longrightarrow> hook_ok s' c t"
    using assms a announce_ok(2) [OF assms(1)] pause_thread_ok [of s1 hs t lib name loc state stack r s']
    by (auto simp: before_step_enter_def and_then_def split: if_splits sum.splits)
qed

text \<open>In every reachable system the invariant holds.\<close>

lemma dap_step_ok: "dap_step lib sys sys' \<Longrightarrow> hooks_ok (sy_server sys) (sy_hooks sys) \<Longrightarrow> hooks_ok (sy_server sys') (sy_hooks sys')"
proof (induction rule: dap_step.induct)
  case (message_arrives msg s r s' hs)
  then show ?case using handle_message_ok [of s hs lib msg] by simp
next
  case (hook_returns t name loc state stack s r s' hs)
  then show ?case using before_step_ok(1) by simp
next
  case (hook_waits t name loc state stack s c s' hs)
  from hook_waits.prems have ok: "hooks_ok s hs" by simp
  from before_step_ok [OF ok hook_waits.hyps] show ?case by (simp add: hooks_ok_def)
next
  case (thread_starts s t s' hs)
  then have "same_pauses s s'" by (auto simp: allocate_thread_id_def intro: same_pauses_paused)
  from same_pauses_ok [OF this] thread_starts.prems show ?case by simp
qed (auto simp: hooks_ok_def config_check_def config_register_def notify_shutdown_def
    intro: same_pauses_ok [unfolded hooks_ok_def, rotated] same_pauses_paused
    simp: channels_ok_def hook_ok_def tx_of_def)

lemma dap_reachable_ok: "dap_reachable lib path sys \<Longrightarrow> hooks_ok (sy_server sys) (sy_hooks sys)"
proof (induction rule: dap_reachable.induct)
  case (step sys sys')
  then show ?case by (simp add: dap_step_ok)
qed (simp add: hooks_ok_def channels_ok_def tx_of_def dap_new_def)

end
