(* ===== verification/Dap_Properties.thy ===== *)
theory Dap_Properties
  imports Dap_Session
begin

text \<open>
  What a debugging session promises: messages arrive as they were sent, every request has one
  answer, a waiting request can always be resumed and gets its edited state, stepping stops where it
  should, variables lead to the values they show.
\<close>

section \<open>Resuming\<close>

text \<open>What a continue request does, whether or not its answer can be sent.\<close>

lemma send_response_channels [simp]:
  "dp_channels (snd (send_response lib n command body s)) = dp_channels s"
  "dp_stepping_threads (snd (send_response lib n command body s)) = dp_stepping_threads s"
  "dp_breakpoints (snd (send_response lib n command body s)) = dp_breakpoints s"
  "dp_file_path (snd (send_response lib n command body s)) = dp_file_path s"
  "dp_paused_threads (snd (send_response lib n command body s)) = dp_paused_threads s"
  by (auto simp: send_response_def send_json_def send_message_def split: client_writer.splits)

lemma resume_thread_fields [simp]:
  "dp_stepping_threads (resume_thread command t s) = dp_stepping_threads s"
  "dp_breakpoints (resume_thread command t s) = dp_breakpoints s"
  "dp_file_path (resume_thread command t s) = dp_file_path s"
  by (auto simp: resume_thread_def send_channel_def split: option.splits)

lemma set_up_fields [simp]:
  "dp_paused_threads (clear_thread_variables t s) = dp_paused_threads s"
  "dp_channels (clear_thread_variables t s) = dp_channels s"
  "dp_breakpoints (clear_thread_variables t s) = dp_breakpoints s"
  "dp_file_path (clear_thread_variables t s) = dp_file_path s"
  "dp_paused_threads (set_stepping t mode s) = dp_paused_threads s"
  "dp_channels (set_stepping t mode s) = dp_channels s"
  "dp_breakpoints (set_stepping t mode s) = dp_breakpoints s"
  "dp_file_path (set_stepping t mode s) = dp_file_path s"
  "dp_stepping_threads (set_stepping t mode s) = AList.update t mode (dp_stepping_threads s)"
  "dp_paused_threads (clear_stepping t s) = dp_paused_threads s"
  "dp_channels (clear_stepping t s) = dp_channels s"
  "dp_breakpoints (clear_stepping t s) = dp_breakpoints s"
  "dp_file_path (clear_stepping t s) = dp_file_path s"
  by (simp_all add: clear_thread_variables_def set_stepping_def clear_stepping_def Let_def)

text \<open>The four requests that resume a thread, with the command and the stepping mode each leaves.\<close>

datatype resumption = ByContinue | ByNext | ByStepIn | ByStepOut

definition resumption_target :: "resumption \<Rightarrow> json \<Rightarrow> u64 option" where
  "resumption_target kind j =
     (case kind of
        ByContinue \<Rightarrow> map_option ca_thread_id (continue_arguments_of j)
      | ByNext \<Rightarrow> map_option na_thread_id (next_arguments_of j)
      | ByStepIn \<Rightarrow> map_option sia_thread_id (step_in_arguments_of j)
      | ByStepOut \<Rightarrow> map_option soa_thread_id (step_out_arguments_of j))"

definition resumption_handler :: "resumption \<Rightarrow> dap_libs \<Rightarrow> request \<Rightarrow> dap_server \<Rightarrow> unit outcome" where
  "resumption_handler kind =
     (case kind of ByContinue \<Rightarrow> handle_continue | ByNext \<Rightarrow> handle_next | ByStepIn \<Rightarrow> handle_step_in
      | ByStepOut \<Rightarrow> handle_step_out)"

definition resumption_command :: "resumption \<Rightarrow> json option \<Rightarrow> step_command" where
  "resumption_command kind =
     (case kind of ByContinue \<Rightarrow> CmdContinue | ByNext \<Rightarrow> CmdStepOver | ByStepIn \<Rightarrow> CmdStepIn | ByStepOut \<Rightarrow> CmdStepOut)"

definition resumption_mode :: "resumption \<Rightarrow> nat \<Rightarrow> stepping_mode option" where
  "resumption_mode kind depth =
     (case kind of ByContinue \<Rightarrow> None | ByNext \<Rightarrow> Some (StepOver depth) | ByStepIn \<Rightarrow> Some StepInto
      | ByStepOut \<Rightarrow> Some (StepOut depth))"

definition resumption_action :: "resumption \<Rightarrow> step_action" where
  "resumption_action kind =
     (case kind of ByContinue \<Rightarrow> ActContinue | ByNext \<Rightarrow> ActStepOver | ByStepIn \<Rightarrow> ActStepIn | ByStepOut \<Rightarrow> ActStepOut)"

lemma resumption_command_effect: "command_effect (resumption_command kind v) = (resumption_action kind, v)"
  by (cases kind) (simp_all add: resumption_command_def resumption_action_def command_effect_def)

definition same_threads :: "dap_server \<Rightarrow> dap_server \<Rightarrow> bool" where
  "same_threads s u \<longleftrightarrow> dp_paused_threads u = dp_paused_threads s \<and> dp_channels u = dp_channels s \<and>
     dp_breakpoints u = dp_breakpoints s \<and> dp_file_path u = dp_file_path s"

lemma resumption_form:
  assumes "resumption_target kind (json_or_null (rq_arguments r)) = Some t"
  shows "\<exists>u name body. resumption_handler kind lib r s =
      send_response lib (rq_seq r) name body (resume_thread (resumption_command kind) t u) \<and> same_threads s u \<and>
      map_of (dp_stepping_threads u) t = resumption_mode kind (current_depth t s)"
proof -
  have depth: "current_depth v (clear_thread_variables w s) = current_depth v s" for v w by (simp add: current_depth_def)
  have u: "same_threads s (set_stepping t mode (clear_thread_variables t s))"
    "map_of (dp_stepping_threads (set_stepping t mode (clear_thread_variables t s))) t = Some mode"
    "same_threads s (clear_stepping t (clear_thread_variables t s))"
    "map_of (dp_stepping_threads (clear_stepping t (clear_thread_variables t s))) t = None" for mode
    by (simp_all add: same_threads_def update_conv) (simp add: clear_stepping_def delete_conv)
  have form: ?thesis if "resumption_handler kind lib r s =
      send_response lib (rq_seq r) name body (resume_thread (resumption_command kind) t v)" "same_threads s v"
      "map_of (dp_stepping_threads v) t = resumption_mode kind (current_depth t s)" for v name body
    using that by blast
  note defs = resumption_target_def resumption_handler_def resumption_command_def resumption_mode_def with_arguments_def Let_def
  show ?thesis
  proof (cases kind)
    case ByContinue
    with assms show ?thesis by (intro form [OF _ u(3)]) (auto simp: defs handle_continue_def u(4))
  next
    case ByNext
    with assms show ?thesis
      by (intro form [OF _ u(1) [of "StepOver (current_depth t s)"]]) (auto simp: defs handle_next_def update_conv depth)
  next
    case ByStepIn
    with assms show ?thesis by (intro form [OF _ u(1) [of StepInto]]) (auto simp: defs handle_step_in_def update_conv)
  next
    case ByStepOut
    with assms show ?thesis
      by (intro form [OF _ u(1) [of "StepOut (current_depth t s)"]]) (auto simp: defs handle_step_out_def update_conv depth)
  qed
qed

lemma resumption_effect:
  fixes lib :: dap_libs and s :: dap_server
  assumes "resumption_target kind (json_or_null (rq_arguments r)) = Some t"
  defines "s' \<equiv> snd (resumption_handler kind lib r s)"
  shows "dp_channels s' = dp_channels (resume_thread (resumption_command kind) t s)"
    and "map_of (dp_stepping_threads s') t = resumption_mode kind (current_depth t s)"
    and "dp_breakpoints s' = dp_breakpoints s" and "dp_file_path s' = dp_file_path s"
    and "map_of (dp_paused_threads s') = (map_of (dp_paused_threads s))(t := None)"
proof -
  obtain u name body where h: "resumption_handler kind lib r s =
      send_response lib (rq_seq r) name body (resume_thread (resumption_command kind) t u)"
    and u: "same_threads s u" and mode: "map_of (dp_stepping_threads u) t = resumption_mode kind (current_depth t s)"
    using resumption_form [OF assms(1)] by blast
  show "dp_channels s' = dp_channels (resume_thread (resumption_command kind) t s)"
    "map_of (dp_paused_threads s') = (map_of (dp_paused_threads s))(t := None)"
    using u by (auto simp: s'_def h same_threads_def resume_thread_def send_channel_def delete_conv split: option.splits)
  show "map_of (dp_stepping_threads s') t = resumption_mode kind (current_depth t s)"
    "dp_breakpoints s' = dp_breakpoints s" "dp_file_path s' = dp_file_path s"
    using u mode by (simp_all add: s'_def h same_threads_def)
qed


section \<open>Stepping\<close>

text \<open>The position of the first step, in the order its thread runs them, at which the hook does not let it pass.\<close>

primrec first_stop ::
  "dap_libs \<Rightarrow> u64 \<Rightarrow> (string \<times> source_location \<times> json \<times> string list) list \<Rightarrow> dap_server \<Rightarrow> nat option" where
  "first_stop lib t [] s = None"
| "first_stop lib t (call # calls) s =
     (case call of (name, loc, state, stack) \<Rightarrow>
        (case before_step_enter lib t name loc state stack s of
           (Inr Proceed, s') \<Rightarrow> map_option Suc (first_stop lib t calls s')
         | _ \<Rightarrow> Some 0))"

fun first_index :: "('a \<Rightarrow> bool) \<Rightarrow> 'a list \<Rightarrow> nat option" where
  "first_index P [] = None"
| "first_index P (x # xs) = (if P x then Some 0 else map_option Suc (first_index P xs))"

lemma pause_never_proceeds: "pause_thread lib t name loc state stack s \<noteq> (Inr Proceed, s')"
  by (auto simp: pause_thread_def Let_def split: prod.splits sum.splits)

lemma first_stop_index:
  "first_stop lib t calls s = first_index (\<lambda>(name, loc, state, stack). should_stop t loc stack s) calls"
proof (induction calls)
  case (Cons call calls)
  obtain name loc state stack where call: "call = (name, loc, state, stack)" by (cases call)
  have "before_step_enter lib t name loc state stack s \<noteq> (Inr Proceed, s')" if "should_stop t loc stack s" for s'
    using that pause_never_proceeds [of lib t name loc state stack]
    by (auto simp: before_step_enter_def and_then_def split: prod.splits sum.splits)
  then show ?case using Cons call
    by (auto simp: before_step_enter_def split: prod.splits sum.splits hook_entry.splits)
qed simp

text \<open>
  C10: Where a resumed thread stops next: after continue only at a breakpoint; after stepIn at its
  next step; after next at the first step at a breakpoint or no deeper than where it was; after
  stepOut at the first step at a breakpoint or less deep than where it was. It runs past all steps
  before that one.
\<close>

theorem stepping_stops:
  assumes "resumption_target kind (json_or_null (rq_arguments r)) = Some t"
    and "map_of (dp_paused_threads s) t = Some p"
  shows "first_stop lib t calls (snd (resumption_handler kind lib r s)) =
    first_index (\<lambda>(name, loc, state, stack).
      has_breakpoint s (step_file s loc) (loc_line loc) \<or>
      (case kind of
         ByContinue \<Rightarrow> False
       | ByNext \<Rightarrow> length stack \<le> length (pd_stack p)
       | ByStepIn \<Rightarrow> True
       | ByStepOut \<Rightarrow> length stack < length (pd_stack p))) calls"
proof -
  note e = resumption_effect [OF assms(1), of lib s]
  have "should_stop t loc stack (snd (resumption_handler kind lib r s)) \<longleftrightarrow>
      has_breakpoint s (step_file s loc) (loc_line loc) \<or>
      (case kind of
         ByContinue \<Rightarrow> False
       | ByNext \<Rightarrow> length stack \<le> length (pd_stack p)
       | ByStepIn \<Rightarrow> True
       | ByStepOut \<Rightarrow> length stack < length (pd_stack p))" for loc stack
    using assms(2) unfolding should_stop_def has_breakpoint_def step_file_def e(2,3,4)
    by (cases kind) (simp_all add: mode_stops_def resumption_mode_def current_depth_def)
  then show ?thesis by (simp add: first_stop_index)
qed

section \<open>Messages\<close>

lemma read_messages_frames:
  "list_all (\<lambda>m. utf8_valid m \<and> length m < 2 ^ 63) ms \<Longrightarrow>
   read_messages lib (concat (map frame ms) @ rest) =
     (case read_messages lib rest of (bodies, last_read) \<Rightarrow> (ms @ bodies, last_read))"
proof (induction ms)
  case (Cons m ms)
  then have "read_message lib (frame m @ (concat (map frame ms) @ rest)) = Message m (concat (map frame ms) @ rest)"
    by (intro read_frame) simp_all
  with Cons show ?case by (subst read_messages.simps) (simp split: prod.splits)
qed (simp split: prod.splits)

text \<open>
  C20: The framing of messages is unambiguous: whatever the messages are, as long as each is UTF-8
  text, the bytes that frame them one after another are read back as exactly these messages, in
  order, and then the end of the input is reported.
\<close>

theorem messages_read_back:
  assumes "list_all (\<lambda>m. utf8_valid m \<and> length m < 2 ^ 63) ms"
  shows "read_messages lib (concat (map frame ms)) =
    (ms, ReadError (DebuggerError (''Failed to read: '' @ dl_read_error lib)))"
proof -
  have "read_messages lib [] = ([], ReadError (DebuggerError (''Failed to read: '' @ dl_read_error lib)))"
    by (subst read_messages.simps) (simp add: read_message_def)
  with read_messages_frames [OF assms, of lib "[]"] show ?thesis by simp
qed

section \<open>Answers\<close>

text \<open>What was sent between two states: numbered messages, framed in order.\<close>

definition sent_between :: "dap_libs \<Rightarrow> dap_server \<Rightarrow> dap_server \<Rightarrow> (i64 \<Rightarrow> json) list \<Rightarrow> bool" where
  "sent_between lib s s' msgs \<longleftrightarrow>
     dp_output s' = dp_output s @
       concat (map (\<lambda>(i, m). frame (dl_to_text lib (m (dp_seq s + of_nat i)))) (enumerate 0 msgs)) \<and>
     dp_seq s' = dp_seq s + of_nat (length msgs) \<and> dp_client_writer s' = Client"

definition answers :: "request \<Rightarrow> (i64 \<Rightarrow> json) \<Rightarrow> bool" where
  "answers r m \<longleftrightarrow> (\<forall>n. json_get ''type'' (m n) = Some (JString ''response'') \<and>
     json_get ''request_seq'' (m n) = Some (json_i64 (rq_seq r)) \<and>
     json_get ''command'' (m n) = Some (JString (rq_command r)))"

text \<open>A handler answers when it sends one response, after an unchanged output, and fails only with nothing sent.\<close>

definition unsent :: "dap_server \<Rightarrow> dap_server \<Rightarrow> bool" where
  "unsent s s' \<longleftrightarrow> dp_output s' = dp_output s \<and> dp_seq s' = dp_seq s \<and> dp_client_writer s' = dp_client_writer s"

definition answers_once :: "dap_libs \<Rightarrow> request \<Rightarrow> dap_server \<Rightarrow> 'a outcome \<Rightarrow> bool" where
  "answers_once lib r s out \<longleftrightarrow>
     (case out of
        (Inl e, s') \<Rightarrow> s' = s
      | (Inr x, s') \<Rightarrow> \<exists>m rest. sent_between lib s s' (m # rest) \<and> answers r m \<and>
          (\<forall>e \<in> set rest. \<exists>name body. e = event_json name body))"

lemma send_json_client:
  "dp_client_writer s = Client \<Longrightarrow>
   send_json lib m s = (Inr (), s\<lparr>dp_seq := dp_seq s + 1, dp_output := dp_output s @ frame (dl_to_text lib (m (dp_seq s)))\<rparr>)"
  by (simp add: send_json_def send_message_def)

lemma answers_response:
  assumes "dp_client_writer s = Client" and "unsent s s1" and "answers r m"
  shows "answers_once lib r s (send_json lib m s1)"
proof -
  have "send_json lib m s1 = (Inr (), s1\<lparr>dp_seq := dp_seq s + 1, dp_output := dp_output s @ frame (dl_to_text lib (m (dp_seq s)))\<rparr>)"
    using assms by (simp add: send_json_client unsent_def)
  moreover have "sent_between lib s (s1\<lparr>dp_seq := dp_seq s + 1, dp_output := dp_output s @ frame (dl_to_text lib (m (dp_seq s)))\<rparr>) [m]"
    using assms by (simp add: sent_between_def unsent_def)
  ultimately show ?thesis using assms(3) unfolding answers_once_def
    by (simp, intro exI [of _ m] exI [of _ "[]"]) simp
qed

lemma answers_responses:
  "rq_command r = command \<Longrightarrow> answers r (response_json (rq_seq r) command body)"
  "rq_command r = command \<Longrightarrow> answers r (error_response_json (rq_seq r) command message)"
  by (simp_all add: answers_def response_json_def error_response_json_def)

lemma send_response_once:
  assumes "dp_client_writer s = Client" and "rq_command r = command" and "unsent s s1"
  shows "answers_once lib r s (send_response lib (rq_seq r) command body s1)"
    and "answers_once lib r s (send_error_response lib (rq_seq r) command message s1)"
  using assms by (simp_all add: send_response_def send_error_response_def answers_response answers_responses)

lemma with_arguments_once:
  "(\<And>args. answers_once lib r s (k args s)) \<Longrightarrow> answers_once lib r s (with_arguments lib command dec r k s)"
  by (auto simp: with_arguments_def Let_def answers_once_def split: option.splits)

lemma unsent_refl [simp]: "unsent s s"
  by (simp add: unsent_def)

lemma unsent_steps:
  "unsent s s1 \<Longrightarrow> unsent s (cache_value ref v s1)" "unsent s s1 \<Longrightarrow> unsent s (set_pointer ref q s1)"
  "unsent s s1 \<Longrightarrow> unsent s (update_cached ref name v s1)" "unsent s s1 \<Longrightarrow> unsent s (clear_thread_variables t s1)"
  "unsent s s1 \<Longrightarrow> unsent s (set_stepping t mode s1)" "unsent s s1 \<Longrightarrow> unsent s (clear_stepping t s1)"
  "unsent s s1 \<Longrightarrow> unsent s (resume_thread command t s1)" "unsent s s1 \<Longrightarrow> unsent s (set_var_ref_index t p n s1)"
  "unsent s s1 \<Longrightarrow> unsent s (s1\<lparr>dp_paused_threads := ps\<rparr>)" "unsent s s1 \<Longrightarrow> unsent s (s1\<lparr>dp_announced_threads := ts\<rparr>)"
  by (auto simp: unsent_def cache_value_def set_pointer_def update_cached_def clear_thread_variables_def set_stepping_def
      clear_stepping_def resume_thread_def send_channel_def set_var_ref_index_def Let_def split: option.splits)

lemma unsent_children:
  "cache_children lib t ptr es n s1 = (vars, n', s2) \<Longrightarrow> unsent s s1 \<Longrightarrow> unsent s s2"
  by (induction es arbitrary: vars n s1)
    (auto simp: Let_def unsent_steps split: prod.splits if_splits)

lemma unsent_variables:
  "json_to_variables_cached lib v t ptr n s = (vars, n', s2) \<Longrightarrow> unsent s s2"
  using unsent_children [of lib t ptr _ n s vars n' s2 s]
  by (auto simp: json_to_variables_cached_def split: if_splits)

lemma unsent_resume_all: "unsent s s1 \<Longrightarrow> unsent s (fold (resume_thread command) ts s1)"
  by (induction ts arbitrary: s1) (auto simp: unsent_steps)

lemma handlers_once:
  assumes client: "dp_client_writer s = Client"
  shows "rq_command r = ''launch'' \<Longrightarrow> answers_once lib r s (handle_launch lib r s)"
    and "rq_command r = ''setBreakpoints'' \<Longrightarrow> answers_once lib r s (handle_set_breakpoints lib r s)"
    and "rq_command r = ''configurationDone'' \<Longrightarrow> answers_once lib r s (handle_configuration_done lib r s)"
    and "rq_command r = ''threads'' \<Longrightarrow> answers_once lib r s (handle_threads lib r s)"
    and "rq_command r = ''stackTrace'' \<Longrightarrow> answers_once lib r s (handle_stack_trace lib r s)"
    and "rq_command r = ''scopes'' \<Longrightarrow> answers_once lib r s (handle_scopes lib r s)"
    and "rq_command r = ''pause'' \<Longrightarrow> answers_once lib r s (handle_pause lib r s)"
    and "rq_command r = ''source'' \<Longrightarrow> answers_once lib r s (handle_source lib r s)"
    and "rq_command r = ''continue'' \<Longrightarrow> answers_once lib r s (handle_continue lib r s)"
    and "rq_command r = ''next'' \<Longrightarrow> answers_once lib r s (handle_next lib r s)"
    and "rq_command r = ''stepIn'' \<Longrightarrow> answers_once lib r s (handle_step_in lib r s)"
    and "rq_command r = ''stepOut'' \<Longrightarrow> answers_once lib r s (handle_step_out lib r s)"
  unfolding handle_launch_def handle_configuration_done_def handle_threads_def handle_pause_def handle_source_def
    handle_set_breakpoints_def handle_stack_trace_def handle_scopes_def handle_continue_def handle_next_def
    handle_step_in_def handle_step_out_def
  by (auto simp: Let_def unsent_def split: prod.splits sum.splits
      intro!: with_arguments_once send_response_once [OF client] unsent_steps unsent_refl)

lemma variable_handlers_once:
  assumes client: "dp_client_writer s = Client"
  shows "rq_command r = ''variables'' \<Longrightarrow> answers_once lib r s (handle_variables lib r s)"
    and "rq_command r = ''setVariable'' \<Longrightarrow> answers_once lib r s (handle_set_variable lib r s)"
    and "rq_command r = ''evaluate'' \<Longrightarrow> answers_once lib r s (handle_evaluate lib r s)"
proof -
  show "answers_once lib r s (handle_variables lib r s)" if "rq_command r = ''variables''"
    unfolding handle_variables_def
    by (rule with_arguments_once)
      (auto simp: Let_def split: prod.splits option.splits
        intro!: send_response_once [OF client that] unsent_steps(8) intro: unsent_variables)
  show "answers_once lib r s (handle_set_variable lib r s)" if "rq_command r = ''setVariable''"
    unfolding handle_set_variable_def
    by (rule with_arguments_once)
      (auto simp: Let_def split: option.splits intro!: send_response_once [OF client that] unsent_steps)
  show "answers_once lib r s (handle_evaluate lib r s)" if "rq_command r = ''evaluate''"
    unfolding handle_evaluate_def
    by (rule with_arguments_once)
      (auto simp: Let_def split: option.splits sum.splits intro!: send_response_once [OF client that] unsent_steps)
qed

lemma initialize_once:
  assumes "dp_client_writer s = Client" and "rq_command r = ''initialize''"
  shows "answers_once lib r s (handle_initialize lib r s)"
proof -
  let ?m = "response_json (rq_seq r) ''initialize'' (Some (capabilities_json server_capabilities))"
  let ?e = "event_json ''initialized'' None"
  obtain s' where h: "handle_initialize lib r s = (Inr (), s')" and sent: "sent_between lib s s' [?m, ?e]"
    using assms
    by (simp add: handle_initialize_def and_then_def send_response_def send_event_def send_json_client sent_between_def)
  moreover have "answers r ?m" using assms(2) by (rule answers_responses)
  ultimately show ?thesis unfolding answers_once_def h sum.case prod.case
    by (intro exI [of _ ?m] exI [of _ "[?e]"]) auto
qed

lemma answers_once_after:
  assumes "answers_once lib r s out" and "\<And>x s1. k x s1 = (Inr (f x), g s1) \<and> unsent s1 (g s1)"
  shows "answers_once lib r s (and_then out k)"
  using assms by (auto simp: answers_once_def and_then_def sent_between_def unsent_def split: prod.splits sum.splits)

lemma disconnect_once:
  assumes "dp_client_writer s = Client" and "rq_command r = ''disconnect''"
  shows "answers_once lib r s (handle_disconnect lib r s)"
proof -
  let ?s1 = "(fold (resume_thread CmdContinue) (map fst (dp_paused_threads s)) s)\<lparr>dp_announced_threads := []\<rparr>"
  have "unsent s ?s1" by (rule unsent_steps(10), rule unsent_resume_all, rule unsent_refl)
  then have "answers_once lib r s (send_response lib (rq_seq r) ''disconnect'' None ?s1)"
    by (rule send_response_once(1) [OF assms])
  then have "answers_once lib r s (and_then (send_response lib (rq_seq r) ''disconnect'' None ?s1)
      (\<lambda>_ s2. (Inr (), notify_shutdown s2)))"
    by (rule answers_once_after [where f = "\<lambda>_. ()" and g = notify_shutdown]) (simp add: unsent_def notify_shutdown_def)
  then show ?thesis by (simp add: handle_disconnect_def Let_def)
qed


section \<open>Variables\<close>

lemma var_ref_eq [simp]: "var_ref t a = var_ref t b \<longleftrightarrow> a = b"
  by (simp add: var_ref_def)

text \<open>The references an expansion hands out, and what it leaves of the others.\<close>

lemma cache_children_others:
  "cache_children lib t ptr es n s = (vars, n', s') \<Longrightarrow>
   (\<And>k. 1 \<le> k \<Longrightarrow> k \<le> length es \<Longrightarrow> r \<noteq> var_ref t (n + of_nat k)) \<Longrightarrow>
   map_of (dp_variable_cache s') r = map_of (dp_variable_cache s) r \<and>
   map_of (dp_variable_pointers s') r = map_of (dp_variable_pointers s) r"
proof (induction es arbitrary: n s vars)
  case (Cons e es)
  obtain name tok v where e: "e = (name, tok, v)" by (cases e)
  have tail: "r \<noteq> var_ref t (n + of_nat k)" if "1 \<le> k" "k \<le> length es" for k using Cons.prems(2) [of k] that by simp
  have next_tail: "r \<noteq> var_ref t (n + 1 + of_nat k)" if "1 \<le> k" "k \<le> length es" for k
    using Cons.prems(2) [of "Suc k"] that by (simp add: add.assoc)
  have head: "r \<noteq> var_ref t (n + 1)" using Cons.prems(2) [of 1] by simp
  show ?case
  proof (cases "is_complex v")
    case True
    let ?s1 = "set_pointer (var_ref t (n + 1)) (ptr @ ''/'' @ tok) (cache_value (var_ref t (n + 1)) v s)"
    obtain vs where c: "cache_children lib t ptr es (n + 1) ?s1 = (vs, n', s')"
      using Cons.prems(1) True e by (auto simp: Let_def split: prod.splits)
    from Cons.IH [OF c next_tail] head show ?thesis by (simp add: set_pointer_def cache_value_def update_conv)
  next
    case False
    obtain vs where c: "cache_children lib t ptr es n s = (vs, n', s')"
      using Cons.prems(1) False e by (auto simp: Let_def split: prod.splits)
    from Cons.IH [OF c tail] show ?thesis by simp
  qed
qed simp

lemma of_nat_neq_one:
  assumes "1 \<le> k" and "k < 2 ^ 63"
  shows "(1 :: i64) + of_nat k \<noteq> 1"
proof
  assume "(1 :: i64) + of_nat k = 1"
  then have "(of_nat k :: i64) = 0" by simp
  then have "2 ^ 64 dvd k" by (simp add: word_of_nat_eq_0_iff)
  with assms show False by (auto dest: dvd_imp_le)
qed

lemma cache_children_entries:
  "cache_children lib t ptr es n s = (vars, n', s') \<Longrightarrow> length es < 2 ^ 63 \<Longrightarrow>
   length vars = length es \<and>
   (\<forall>i < length es. case es ! i of (name, tok, v) \<Rightarrow>
      dv_name (vars ! i) = name \<and>
      (if is_complex v
       then map_of (dp_variable_cache s') (dv_variables_reference (vars ! i)) = Some v \<and>
            map_of (dp_variable_pointers s') (dv_variables_reference (vars ! i)) = Some (ptr @ ''/'' @ tok)
       else dv_variables_reference (vars ! i) = 0))"
proof (induction es arbitrary: n s vars)
  case (Cons e es)
  obtain name tok v where e: "e = (name, tok, v)" by (cases e)
  define n1 where "n1 = (if is_complex v then n + 1 else n)"
  define r where "r = (if is_complex v then var_ref t n1 else 0)"
  define s1 where "s1 = (if is_complex v then set_pointer r (ptr @ ''/'' @ tok) (cache_value r v s) else s)"
  obtain vs where c: "cache_children lib t ptr es n1 s1 = (vs, n', s')" and vars: "vars = child_variable lib name v r # vs"
    using Cons.prems(1) e unfolding n1_def r_def s1_def by (auto simp: Let_def split: prod.splits)
  from Cons.IH [OF c] Cons.prems(2) have tail: "length vs = length es"
    "\<forall>i < length es. case es ! i of (name, tok, v) \<Rightarrow> dv_name (vs ! i) = name \<and>
      (if is_complex v
       then map_of (dp_variable_cache s') (dv_variables_reference (vs ! i)) = Some v \<and>
            map_of (dp_variable_pointers s') (dv_variables_reference (vs ! i)) = Some (ptr @ ''/'' @ tok)
       else dv_variables_reference (vs ! i) = 0)" by simp_all
  have head: "map_of (dp_variable_cache s') r = Some v \<and> map_of (dp_variable_pointers s') r = Some (ptr @ ''/'' @ tok)"
    if "is_complex v"
  proof -
    have "r \<noteq> var_ref t (n1 + of_nat k)" if "1 \<le> k" "k \<le> length es" for k
      using that Cons.prems(2) \<open>is_complex v\<close> of_nat_neq_one [of k]
      by (simp add: r_def n1_def add.assoc [symmetric] del: of_nat_add)
    from cache_children_others [OF c this] that show ?thesis
      by (simp add: s1_def set_pointer_def cache_value_def update_conv)
  qed
  show ?case
    using tail head by (auto simp: e vars nth_Cons child_variable_def r_def split: nat.splits)
qed simp

text \<open>
  What the variables view shows is what is there: each child of an expanded value is listed
  under its name, and a child that can be expanded in turn has a reference of its own, cached
  with exactly the child's value and with a JSON pointer that leads from the root of the thread's
  state to that child, whatever characters its key has.
\<close>

theorem children_resolve:
  assumes "pointer_look ptr root = Some v" and "is_complex v" and "wf_json root"
    and "length (child_entries v) < 2 ^ 63"
    and "json_to_variables_cached lib v t ptr n s = (vars, n', s')"
  shows "map dv_name vars = map fst (child_entries v) \<and>
    (\<forall>i < length vars. case child_entries v ! i of (name, tok, child) \<Rightarrow>
       if is_complex child
       then map_of (dp_variable_cache s') (dv_variables_reference (vars ! i)) = Some child \<and>
            (\<exists>q. map_of (dp_variable_pointers s') (dv_variables_reference (vars ! i)) = Some q \<and>
                 pointer_look q root = Some child)
       else dv_variables_reference (vars ! i) = 0)"
proof -
  have "cache_children lib t ptr (child_entries v) n s = (vars, n', s')"
    using assms(2,5) by (simp add: json_to_variables_cached_def)
  from cache_children_entries [OF this assms(4)] have len: "length vars = length (child_entries v)"
    and all: "\<And>i. i < length vars \<Longrightarrow> case child_entries v ! i of (name, tok, child) \<Rightarrow>
      dv_name (vars ! i) = name \<and>
      (if is_complex child
       then map_of (dp_variable_cache s') (dv_variables_reference (vars ! i)) = Some child \<and>
            map_of (dp_variable_pointers s') (dv_variables_reference (vars ! i)) = Some (ptr @ ''/'' @ tok)
       else dv_variables_reference (vars ! i) = 0)" by auto
  have leads: "pointer_look (ptr @ ''/'' @ tok) root = Some child"
    if "i < length vars" "child_entries v ! i = (name, tok, child)" for i name tok child
  proof (cases v)
    case (JObject m)
    have "wf_json v" using assms(1,3) by (auto simp: pointer_look_def Option.bind_eq_Some_conv intro: look_along_wf)
    then have "map_of m name = Some child" "tok = escape_json_pointer name"
      using that len JObject by (auto simp: child_entries_def split: prod.splits) (metis map_of_is_SomeI nth_mem)
    then show ?thesis using pointer_child_key assms(1) JObject by simp
  next
    case (JArray xs)
    have "i < length xs" "tok = show_nat i" "child = xs ! i" "length xs < 2 ^ 64"
      using that len JArray assms(4) by (auto simp: child_entries_def nth_enumerate_eq)
    then show ?thesis using pointer_child_index assms(1) JArray by simp
  qed (use assms(2) in \<open>auto simp: is_complex_def\<close>)
  have "map dv_name vars = map fst (child_entries v)"
  proof (rule nth_equalityI)
    fix i assume "i < length (map dv_name vars)"
    then have i: "i < length vars" by simp
    obtain name tok child where e: "child_entries v ! i = (name, tok, child)" by (cases "child_entries v ! i")
    show "map dv_name vars ! i = map fst (child_entries v) ! i" using all [OF i] i len by (simp add: e)
  qed (simp add: len)
  moreover have "case child_entries v ! i of (name, tok, child) \<Rightarrow>
       if is_complex child
       then map_of (dp_variable_cache s') (dv_variables_reference (vars ! i)) = Some child \<and>
            (\<exists>q. map_of (dp_variable_pointers s') (dv_variables_reference (vars ! i)) = Some q \<and>
                 pointer_look q root = Some child)
       else dv_variables_reference (vars ! i) = 0" if i: "i < length vars" for i
  proof -
    obtain name tok child where e: "child_entries v ! i = (name, tok, child)" by (cases "child_entries v ! i")
    show ?thesis using all [OF i] leads [OF i e] unfolding e by (simp split: if_splits)
  qed
  ultimately show ?thesis by blast
qed

section \<open>Editing\<close>

text \<open>
  C19: A variable edit stores into exactly one slot of the paused thread's state: the one the
  container's pointer and the name lead to. Where that slot exists, its new value is the text read
  as JSON (else the text), storing the old value back would restore the state, and no other thread
  is touched; where it does not exist the request is refused and nothing changes.
\<close>

theorem set_variable_edits_slot:
  assumes "set_variable_arguments_of (json_or_null (rq_arguments r)) = Some args"
    and "map_of (dp_variable_pointers s) (sva_variables_reference args) = Some ptr"
    and "i64_div (sva_variables_reference args) VAR_REF_STRIDE = t"
    and "map_of (dp_paused_threads s) t = Some p"
    and "target = ptr @ ''/'' @ escape_json_pointer (sva_name args)"
  shows "case pointer_look target (pd_state p) of
      None \<Rightarrow> handle_set_variable lib r s =
        send_error_response lib (rq_seq r) ''setVariable'' ''Failed to update variable'' s
    | Some old \<Rightarrow> \<exists>p'. map_of (dp_paused_threads (snd (handle_set_variable lib r s))) = (map_of (dp_paused_threads s))(t \<mapsto> p') \<and>
        pd_resume_tx p' = pd_resume_tx p \<and>
        pointer_look target (pd_state p') = Some (parse_value lib (sva_value args)) \<and>
        pointer_store target old (pd_state p') = Some (pd_state p)"
proof -
  let ?v = "parse_value lib (sva_value args)"
  have target: "set_variable_target s args = Some target" using assms(2,5) by (simp add: set_variable_target_def)
  have kept: "dp_paused_threads (set_pointer a q (cache_value b v u)) = dp_paused_threads u"
    "dp_paused_threads (update_cached a name v u) = dp_paused_threads u" for a b q v u name
    by (auto simp: set_pointer_def cache_value_def update_cached_def split: option.splits)
  show ?thesis
  proof (cases "pointer_look target (pd_state p)")
    case None
    then have "pointer_store target ?v (pd_state p) = None" using pointer_slot.store_exists by blast
    with None show ?thesis
      by (simp add: handle_set_variable_def with_arguments_def Let_def assms(1,3,4) target)
  next
    case (Some old)
    then obtain j where j: "pointer_store target ?v (pd_state p) = Some j" using pointer_slot.store_defined by blast
    have "pointer_look target j = Some ?v" "pointer_store target old j = Some (pd_state p)"
      using pointer_slot.look_store [OF j] pointer_slot.take_then_restore [OF Some j] by simp_all
    moreover define p' where "p' = p\<lparr>pd_state := j,
      pd_var_ref_index := if is_complex ?v then pd_var_ref_index p + 1 else pd_var_ref_index p\<rparr>"
    moreover have "dp_paused_threads (snd (handle_set_variable lib r s)) = AList.update t p' (dp_paused_threads s)"
      by (simp add: handle_set_variable_def with_arguments_def Let_def assms(1,3,4) target kept j p'_def)
    ultimately show ?thesis unfolding Some option.case by (intro exI [of _ p']) (simp add: update_conv')
  qed
qed

text \<open>
  The elements of an array, which the variables view lists as [0], [1] and so on, can never be
  set: the request that names one as it is listed is refused and nothing changes.
\<close>

theorem array_elements_are_never_set:
  assumes "set_variable_arguments_of (json_or_null (rq_arguments r)) = Some args"
    and "map_of (dp_variable_pointers s) (sva_variables_reference args) = Some ptr"
    and "map_of (dp_paused_threads s) (i64_div (sva_variables_reference args) VAR_REF_STRIDE) = Some p"
    and "pointer_look ptr (pd_state p) = Some (JArray xs)"
    and "sva_name args \<in> fst ` set (child_entries (JArray xs))"
  shows "handle_set_variable lib r s =
    send_error_response lib (rq_seq r) ''setVariable'' ''Failed to update variable'' s"
proof -
  from assms(5) obtain rest where n: "sva_name args = CHR ''['' # rest" by (auto simp: child_entries_def)
  have "pointer_look (ptr @ ''/'' @ escape_json_pointer (sva_name args)) (pd_state p) = None"
    unfolding n by (rule pointer_bracketed [OF assms(4)])
  then have "pointer_store (ptr @ ''/'' @ escape_json_pointer (sva_name args)) (parse_value lib (sva_value args)) (pd_state p) = None"
    using pointer_slot.store_exists by blast
  then show ?thesis
    by (simp add: handle_set_variable_def with_arguments_def Let_def assms(1,2,3) set_variable_target_def)
qed

section \<open>References\<close>

lemma sdiv_nonneg: "0 \<le> a \<Longrightarrow> 0 < b \<Longrightarrow> a sdiv b = a div b" for a b :: int
  by (cases "a = 0") (auto simp: signed_divide_int_def sgn_if)

lemma sint_var_ref:
  assumes "unat t < 2 ^ 46" and "k < 2 ^ 46"
  shows "sint (var_ref t (of_nat k)) = int (unat t) * 100000 + int k"
proof -
  define n where "n = unat t * 100000 + k"
  have "unat t * 100000 < 2 ^ 46 * 100000" using assms(1) by simp
  then have n: "n < 2 ^ 63" using assms(2) by (simp add: n_def)
  have "var_ref t (of_nat k) = of_nat (unat t) * of_nat 100000 + (of_nat k :: i64)"
    by (simp add: var_ref_def VAR_REF_STRIDE_def)
  also have "\<dots> = of_nat n" by (simp add: n_def)
  finally have v: "var_ref t (of_nat k) = of_nat n" .
  have "sint (of_nat n :: i64) = int n"
    using n by (simp add: signed_of_nat signed_take_bit_int_eq_self)
  with v show ?thesis by (simp add: n_def)
qed

text \<open>
  References belong to threads: the first hundred thousand references of a thread lead back to
  it, are forgotten when it resumes, and survive when any other thread does. The reference after
  these is one of the next thread: it is the other's root.
\<close>

theorem references_stay_with_thread:
  assumes "unat t < 2 ^ 45" and "unat u < 2 ^ 45" and "k < 100000"
  shows "i64_div (var_ref t (of_nat k)) VAR_REF_STRIDE = t \<and>
    map_of (dp_variable_cache (clear_thread_variables u s)) (var_ref t (of_nat k)) =
      (if u = t then None else map_of (dp_variable_cache s) (var_ref t (of_nat k))) \<and>
    var_ref t (of_nat (100000 + 1)) = var_ref (t + 1) 1"
proof -
  have t: "sint (var_ref t (of_nat k)) = int (unat t) * 100000 + int k" using assms by (intro sint_var_ref) simp_all
  have start: "sint (var_ref u 0) = int (unat u) * 100000" using sint_var_ref [of u 0] assms by simp
  have last: "var_ref u 0 + word_of_int VAR_REF_STRIDE - 1 = var_ref u (of_nat 99999)"
    by (simp add: var_ref_def VAR_REF_STRIDE_def)
  have stop: "sint (var_ref u (of_nat 99999)) = int (unat u) * 100000 + 99999"
    using sint_var_ref [of u 99999] assms by simp
  have "sint (var_ref t (of_nat k)) sdiv 100000 = int (unat t)"
    unfolding t using assms(3) by (subst sdiv_nonneg) simp_all
  then have div: "i64_div (var_ref t (of_nat k)) VAR_REF_STRIDE = t"
    by (simp add: i64_div_def VAR_REF_STRIDE_def)
  define out where "out (k' :: i64) \<longleftrightarrow> sint k' < sint (var_ref u 0) \<or> sint k' > sint (var_ref u (of_nat 99999))" for k'
  have "out (var_ref t (of_nat k)) \<longleftrightarrow> b \<noteq> a" if "unat t = a" "unat u = b" for a b
    unfolding out_def t start stop that using assms(3)
    by (cases b a rule: linorder_cases) auto
  then have same: "out (var_ref t (of_nat k)) \<longleftrightarrow> u \<noteq> t" by (simp add: word_unat_eq_iff)
  have cache: "dp_variable_cache (clear_thread_variables u s) = filter (\<lambda>e. out (fst e)) (dp_variable_cache s)"
    by (simp add: clear_thread_variables_def Let_def last out_def)
  have filt: "map_of (filter (\<lambda>e. out (fst e)) al) r = (if out r then map_of al r else None)" for al :: "(i64 \<times> json) list" and r
    by (induction al) auto
  have "var_ref t (of_nat (100000 + 1)) = var_ref (t + 1) 1"
    by (simp add: var_ref_def VAR_REF_STRIDE_def algebra_simps)
  with div same show ?thesis unfolding cache filt by auto
qed

section \<open>The start of a program under the debugger\<close>

text \<open>
  The main task looks at the flag before it starts to wait. A configurationDone that arrives between
  the two is lost: the flag is set, and the task still waits.
\<close>

lemma configuration_done_in_time:
  "dp_configuration_done (config_check (snd (handle_configuration_done lib r s))) = Released"
  "dp_configuration_done s = Registered \<Longrightarrow> dp_configuration_done (snd (handle_configuration_done lib r s)) = Released"
  by (simp_all add: handle_configuration_done_def config_check_def send_response_def send_json_def send_message_def
      split: client_writer.splits)

lemma configuration_done_lost:
  fixes lib :: dap_libs and r :: request
  assumes "\<not> dp_configuration_done_received s"
  defines "s' \<equiv> config_register (snd (handle_configuration_done lib r (config_check s)))"
  shows "dp_configuration_done_received s' \<and> dp_configuration_done s' = Registered"
  using assms(1)
  by (simp add: s'_def handle_configuration_done_def config_check_def config_register_def send_response_def send_json_def
      send_message_def split: client_writer.splits)

section \<open>The hypotheses can hold\<close>

text \<open>Libraries whose client sends the same request over and over: stepIn for thread 1.\<close>

definition thread_arguments :: json where
  "thread_arguments = JObject [(''threadId'', json_i64 1)]"

definition sample_dap_libs :: dap_libs where
  "sample_dap_libs =
     \<lparr> dl_parse = (\<lambda>text. if text = ''step'' then Inr (request_json \<lparr> rq_seq = 7, rq_command = ''stepIn'', rq_arguments = Some thread_arguments \<rparr>)
          else Inl ''no JSON''),
       dl_to_text = (\<lambda>j. ''{}''), dl_reason = (\<lambda>what j. ''refused''), dl_utf8_reason = (\<lambda>t. ''bad''), dl_read_error = ''early eof'',
       dl_jaq = (\<lambda>f j. JaqFirst None), dl_read_file = (\<lambda>f. Inr []), dl_thread_order = id \<rparr>"

definition thread_request :: "string \<Rightarrow> request" where
  "thread_request command = \<lparr> rq_seq = 7, rq_command = command, rq_arguments = Some thread_arguments \<rparr>"

lemma thread_arguments_read:
  "continue_arguments_of thread_arguments = Some \<lparr> ca_thread_id = 1, ca_single_thread = None \<rparr>"
  "next_arguments_of thread_arguments = Some \<lparr> na_thread_id = 1, na_single_thread = None, na_granularity = None \<rparr>"
  "step_in_arguments_of thread_arguments = Some \<lparr> sia_thread_id = 1, sia_single_thread = None, sia_target_id = None, sia_granularity = None \<rparr>"
  by (simp_all add: thread_arguments_def continue_arguments_of_def next_arguments_of_def step_in_arguments_of_def
      struct_simps optional_def i64_json_i64 char_of_def bit_0)

definition sample_paused :: "json \<Rightarrow> paused_state" where
  "sample_paused state = \<lparr> pd_resume_tx = 0, pd_state = state, pd_location = default_location, pd_step_name = ''jq'',
     pd_stack = [''GET /'', ''jq''], pd_var_ref_index = 1 \<rparr>"

definition sample_session :: "json \<Rightarrow> dap_server" where
  "sample_session state = (dap_new ''/a.wp'' True)\<lparr>dp_client_writer := Client, dp_paused_threads := [(1, sample_paused state)],
     dp_announced_threads := [1], dp_channels := [Unsent], dp_variable_pointers := [(100001, [])]\<rparr>"

text \<open>A session in which a thread was asked to step, ran into its next step and waits there.\<close>

definition stepping_start :: dap_server where
  "stepping_start = (dap_new ''/a.wp'' True)\<lparr>dp_client_writer := Client\<rparr>"

definition stepping_asked :: dap_server where
  "stepping_asked = snd (handle_message sample_dap_libs ''step'' stepping_start)"

lemma stepping_asked_fields:
  "dp_stepping_threads stepping_asked = [(1, StepInto)]" "dp_client_writer stepping_asked = Client"
  "dp_channels stepping_asked = []" "dp_paused_threads stepping_asked = []"
proof -
  let ?r = "thread_request ''stepIn''"
  have "request_of (request_json ?r) = Some ?r"
    by (rule request_read) (simp add: thread_request_def thread_arguments_def wf_json_object_iff json_i64_def json_int_def)
  then have "handle_message sample_dap_libs ''step'' stepping_start = goes_on (handle_step_in sample_dap_libs ?r stepping_start)"
    by (simp add: handle_message_def sample_dap_libs_def dispatch_request_def thread_request_def Let_def)
  then show "dp_stepping_threads stepping_asked = [(1, StepInto)]" "dp_client_writer stepping_asked = Client"
    "dp_channels stepping_asked = []" "dp_paused_threads stepping_asked = []"
    by (simp_all add: stepping_asked_def goes_on_def and_then_def handle_step_in_def with_arguments_def thread_request_def
        json_or_null_def thread_arguments_read Let_def send_response_def send_json_def send_message_def resume_thread_def
        set_stepping_def clear_thread_variables_def stepping_start_def dap_new_def)
qed

lemma stepping_waits:
  "\<exists>s'. before_step_enter sample_dap_libs 1 ''jq'' default_location JNull [''GET /'', ''jq''] stepping_asked = (Inr (WaitOn 0), s')"
proof -
  have stop: "should_stop 1 default_location [''GET /'', ''jq''] stepping_asked"
    by (simp add: should_stop_def mode_stops_def stepping_asked_fields)
  have announce: "\<exists>s1. announce_thread sample_dap_libs 1 stepping_asked = (Inr (), s1) \<and> dp_client_writer s1 = Client \<and> dp_channels s1 = []"
    by (simp add: announce_thread_def send_thread_event_def send_event_def send_json_client stepping_asked_fields)
  then obtain s1 where s1: "announce_thread sample_dap_libs 1 stepping_asked = (Inr (), s1)" "dp_client_writer s1 = Client" "dp_channels s1 = []"
    by blast
  have "dp_client_writer (insert_paused t p ((clear_stepping 1 s1)\<lparr>dp_channels := [Unsent]\<rparr>)) = Client" for t p
    using s1(2) by (simp add: insert_paused_def clear_stepping_def drop_sender_def split: option.splits)
  then show ?thesis
    by (simp add: before_step_enter_def stop and_then_def s1 pause_thread_def Let_def send_stopped_event_def send_event_def
        send_json_client)
qed


theorem stepping_stops_witness:
  "first_stop sample_dap_libs 1
     [(''handlebars'', default_location, JNull, [''GET /'', ''pipeline'', ''jq'']), (''jq'', default_location, JNull, [''GET /'', ''jq''])]
     (snd (resumption_handler ByNext sample_dap_libs (thread_request ''next'') (sample_session JNull))) = Some 1"
proof -
  have t: "resumption_target ByNext (json_or_null (rq_arguments (thread_request ''next''))) = Some 1"
    by (simp add: resumption_target_def thread_request_def json_or_null_def thread_arguments_read)
  have p: "map_of (dp_paused_threads (sample_session JNull)) 1 = Some (sample_paused JNull)"
    by (simp add: sample_session_def)
  show ?thesis unfolding stepping_stops [OF t p]
    by (simp add: has_breakpoint_def sample_session_def dap_new_def sample_paused_def)
qed

theorem messages_read_back_witness:
  "read_messages sample_dap_libs (concat (map frame [''{}'', ''[1]''])) =
     ([''{}'', ''[1]''], ReadError (DebuggerError (''Failed to read: '' @ dl_read_error sample_dap_libs)))"
  by (rule messages_read_back) (simp add: byte_in_def)


definition sample_object :: json where
  "sample_object = JObject [(''a/b'', JArray [JNull, JBool True])]"

lemma sample_object_root: "pointer_look [] sample_object = Some sample_object" "wf_json sample_object"
  by (simp_all add: pointer_look_def pointer_tokens_def sample_object_def)

theorem children_resolve_witness:
  "\<exists>vars n' s' q. json_to_variables_cached sample_dap_libs sample_object 1 [] 1 (sample_session sample_object) = (vars, n', s') \<and>
     map_of (dp_variable_pointers s') (dv_variables_reference (vars ! 0)) = Some q \<and>
     pointer_look q sample_object = Some (JArray [JNull, JBool True])"
proof -
  obtain vars n' s' where e: "json_to_variables_cached sample_dap_libs sample_object 1 [] 1 (sample_session sample_object) = (vars, n', s')"
    by (cases "json_to_variables_cached sample_dap_libs sample_object 1 [] 1 (sample_session sample_object)")
  have "is_complex sample_object" "length (child_entries sample_object) < 2 ^ 63"
    by (simp_all add: sample_object_def is_complex_def child_entries_def)
  from children_resolve [OF sample_object_root(1) this(1) sample_object_root(2) this(2) e]
  have "length vars = 1" "map_of (dp_variable_pointers s') (dv_variables_reference (vars ! 0)) \<noteq> None \<and>
      (\<exists>q. map_of (dp_variable_pointers s') (dv_variables_reference (vars ! 0)) = Some q \<and>
        pointer_look q sample_object = Some (JArray [JNull, JBool True]))"
    by (auto simp: sample_object_def child_entries_def is_complex_def dest: arg_cong [of _ _ length])
  with e show ?thesis by blast
qed

definition edit_request :: "string \<Rightarrow> request" where
  "edit_request name = \<lparr> rq_seq = 8, rq_command = ''setVariable'', rq_arguments = Some (JObject
     [(''variablesReference'', json_i64 100001), (''name'', JString name), (''value'', JString ''hello'')]) \<rparr>"

lemma edit_request_read:
  "set_variable_arguments_of (json_or_null (rq_arguments (edit_request name))) =
     Some \<lparr> sva_variables_reference = 100001, sva_name = name, sva_value = ''hello'', sva_format = None \<rparr>"
  by (simp add: edit_request_def json_or_null_def set_variable_arguments_of_def struct_simps optional_def i64_json_i64 char_of_def bit_0)

lemma sample_reference: "i64_div 100001 VAR_REF_STRIDE = 1"
  by (simp add: i64_div_def VAR_REF_STRIDE_def signed_divide_int_def)

theorem set_variable_edits_slot_witness:
  "\<exists>p'. map_of (dp_paused_threads (snd (handle_set_variable sample_dap_libs (edit_request ''a/b'') (sample_session sample_object)))) 1 = Some p' \<and>
     pointer_look ''/a~1b'' (pd_state p') = Some (JString ''hello'')"
proof -
  have t: "''/a~1b'' = [] @ ''/'' @ escape_json_pointer (sva_name \<lparr> sva_variables_reference = 100001, sva_name = ''a/b'', sva_value = ''hello'', sva_format = None \<rparr>)"
    by (simp add: escape_Cons)
  have ptr: "map_of (dp_variable_pointers (sample_session sample_object)) (sva_variables_reference
      \<lparr> sva_variables_reference = 100001, sva_name = ''a/b'', sva_value = ''hello'', sva_format = None \<rparr>) = Some []"
    by (simp add: sample_session_def)
  have div: "i64_div (sva_variables_reference \<lparr> sva_variables_reference = 100001, sva_name = ''a/b'', sva_value = ''hello'', sva_format = None \<rparr>) VAR_REF_STRIDE = 1"
    by (simp add: sample_reference)
  have p: "map_of (dp_paused_threads (sample_session sample_object)) 1 = Some (sample_paused sample_object)"
    by (simp add: sample_session_def)
  have look: "pointer_look ''/a~1b'' (pd_state (sample_paused sample_object)) = Some (JArray [JNull, JBool True])"
    using pointer_child_key [OF sample_object_root(1) [unfolded sample_object_def], of "''a/b''"]
    by (simp add: sample_paused_def sample_object_def escape_Cons)
  have v: "parse_value sample_dap_libs ''hello'' = JString ''hello''" by (simp add: parse_value_def sample_dap_libs_def)
  from set_variable_edits_slot [OF edit_request_read ptr div p t, of sample_dap_libs] look v show ?thesis by auto
qed

theorem array_elements_are_never_set_witness:
  "handle_set_variable sample_dap_libs (edit_request ''[0]'') (sample_session (JArray [JNull])) =
     send_error_response sample_dap_libs 8 ''setVariable'' ''Failed to update variable'' (sample_session (JArray [JNull]))"
proof -
  have "handle_set_variable sample_dap_libs (edit_request ''[0]'') (sample_session (JArray [JNull])) =
     send_error_response sample_dap_libs (rq_seq (edit_request ''[0]'')) ''setVariable'' ''Failed to update variable'' (sample_session (JArray [JNull]))"
  proof (rule array_elements_are_never_set [OF edit_request_read, where p = "sample_paused (JArray [JNull])" and ptr = "[]" and xs = "[JNull]"])
    have "show_nat 0 = ''0''" by (subst show_nat.simps) (simp add: digit_char_def char_of_def bit_0)
    then show "sva_name \<lparr> sva_variables_reference = 100001, sva_name = ''[0]'', sva_value = ''hello'', sva_format = None \<rparr> \<in>
        fst ` set (child_entries (JArray [JNull]))" by (simp add: child_entries_def)
  qed (simp_all add: sample_session_def sample_reference sample_paused_def pointer_look_def pointer_tokens_def)
  then show ?thesis by (simp add: edit_request_def)
qed

theorem references_stay_with_thread_witness:
  "map_of (dp_variable_cache (clear_thread_variables 1 ((sample_session JNull)\<lparr>dp_variable_cache := [(var_ref 2 (of_nat 5), JNull)]\<rparr>)))
     (var_ref 2 (of_nat 5)) = Some JNull"
  using references_stay_with_thread [of 2 1 5 "(sample_session JNull)\<lparr>dp_variable_cache := [(var_ref 2 (of_nat 5), JNull)]\<rparr>"]
  by simp

end
