(* ===== verification/Auth.thy ===== *)
theory Auth
  imports Middleware Http_Request
begin

text \<open>
  The auth middleware (\<^verbatim>\<open>src/middleware/auth.rs\<close>): login, registration, logout and the
  checks of a session, over the tables \<^verbatim>\<open>users\<close> and \<^verbatim>\<open>sessions\<close> of the
  documented schema (\<^verbatim>\<open>docs/database-setup.md\<close>: a serial key, unique logins and
  tokens). A query is what its SQL text says of these tables; a database that does not answer fails
  every query. Password hashing, random bytes, the two clocks (the program's and the database's) and
  the calendar are arguments.
\<close>

record auth_libs =
  au_verify :: "string \<Rightarrow> string \<Rightarrow> bool"
  au_hash :: "string \<Rightarrow> string \<Rightarrow> string + string"
  au_add_seconds :: "int \<Rightarrow> int \<Rightarrow> int option"
  au_release :: bool
  au_mismatch :: string
  au_unique :: "string \<Rightarrow> string"

section \<open>Tables\<close>

record user_row =
  us_id :: int
  us_login :: string
  us_email :: string
  us_password_hash :: string
  us_type :: "string option"
  us_status :: "string option"

record session_row =
  se_user_id :: int
  se_token :: string
  se_expires_at :: int

text \<open>The type of the key column decides which of the program's integer types it can be read as.\<close>

datatype id_type = Int4 | Int8

record auth_db =
  ad_id_type :: id_type
  ad_users :: "user_row list"
  ad_sessions :: "session_row list"
  ad_next_id :: int
  ad_down :: "string option"

definition coalesce :: "'a \<Rightarrow> 'a option \<Rightarrow> 'a" where
  "coalesce d v = (case v of None \<Rightarrow> d | Some x \<Rightarrow> x)"

definition read_i32 :: "auth_libs \<Rightarrow> auth_db \<Rightarrow> int \<Rightarrow> string + int" where
  "read_i32 lib db i = (if ad_id_type db = Int4 then Inr i else Inl (au_mismatch lib))"

definition read_i64 :: "auth_libs \<Rightarrow> auth_db \<Rightarrow> int \<Rightarrow> string + int" where
  "read_i64 lib db i = (if ad_id_type db = Int8 then Inr i else Inl (au_mismatch lib))"

definition query :: "auth_db \<Rightarrow> (string + 'a) \<Rightarrow> web_pipe_error + 'a" where
  "query db answer =
     (case ad_down db of
        Some e \<Rightarrow> Inl (DatabaseError e)
      | None \<Rightarrow> (case answer of Inl e \<Rightarrow> Inl (DatabaseError e) | Inr x \<Rightarrow> Inr x))"

text \<open>A row that was found, with its key read as the type the program asks for.\<close>

definition keyed :: "('u \<Rightarrow> string + int) \<Rightarrow> 'u option \<Rightarrow> string + (int \<times> 'u) option" where
  "keyed read row =
     (case row of
        None \<Rightarrow> Inr None
      | Some u \<Rightarrow> (case read u of Inl e \<Rightarrow> Inl e | Inr i \<Rightarrow> Inr (Some (i, u))))"

definition select_active_user :: "auth_libs \<Rightarrow> auth_db \<Rightarrow> string \<Rightarrow> web_pipe_error + (int \<times> user_row) option" where
  "select_active_user lib db login =
     query db (keyed (\<lambda>u. read_i32 lib db (us_id u))
       (find (\<lambda>u. us_login u = login \<and> coalesce ''active'' (us_status u) = ''active'') (ad_users db)))"

definition select_user_id :: "auth_libs \<Rightarrow> auth_db \<Rightarrow> string \<Rightarrow> web_pipe_error + (int \<times> user_row) option" where
  "select_user_id lib db login =
     query db (keyed (\<lambda>u. read_i64 lib db (us_id u)) (find (\<lambda>u. us_login u = login) (ad_users db)))"

definition insert_session :: "auth_libs \<Rightarrow> int \<Rightarrow> string \<Rightarrow> int \<Rightarrow> auth_db \<Rightarrow> (web_pipe_error + unit) \<times> auth_db" where
  "insert_session lib user_id token expires_at db =
     (let broken = (if token \<in> se_token ` set (ad_sessions db) then Some ''token''
                    else if user_id \<notin> us_id ` set (ad_users db) then Some ''user_id'' else None)
      in case query db (case broken of Some column \<Rightarrow> Inl (au_unique lib column) | None \<Rightarrow> Inr ()) of
           Inl e \<Rightarrow> (Inl e, db)
         | Inr _ \<Rightarrow> (Inr (), db\<lparr>ad_sessions := ad_sessions db @
               [\<lparr> se_user_id = user_id, se_token = token, se_expires_at = expires_at \<rparr>]\<rparr>))"

definition insert_user :: "auth_libs \<Rightarrow> string \<Rightarrow> string \<Rightarrow> string \<Rightarrow> auth_db \<Rightarrow> (web_pipe_error + int) \<times> auth_db" where
  "insert_user lib login email password_hash db =
     (case query db (if login \<in> us_login ` set (ad_users db) then Inl (au_unique lib ''login'') else Inr ()) of
        Inl e \<Rightarrow> (Inl e, db)
      | Inr _ \<Rightarrow>
          (query db (read_i32 lib db (ad_next_id db)),
           db\<lparr>ad_next_id := ad_next_id db + 1,
              ad_users := ad_users db @ [\<lparr> us_id = ad_next_id db, us_login = login, us_email = email,
                us_password_hash = password_hash, us_type = Some ''local'', us_status = Some ''active'' \<rparr>]\<rparr>))"

definition delete_session :: "string \<Rightarrow> auth_db \<Rightarrow> (web_pipe_error + unit) \<times> auth_db" where
  "delete_session token db =
     (case query db (Inr ()) of
        Inl e \<Rightarrow> (Inl e, db)
      | Inr _ \<Rightarrow> (Inr (), db\<lparr>ad_sessions := filter (\<lambda>s. se_token s \<noteq> token) (ad_sessions db)\<rparr>))"

definition session_user :: "auth_db \<Rightarrow> int \<Rightarrow> string \<Rightarrow> user_row option" where
  "session_user db now token =
     Option.bind (find (\<lambda>s. se_token s = token \<and> se_expires_at s > now \<and> se_user_id s \<in> us_id ` set (ad_users db))
                   (ad_sessions db))
       (\<lambda>s. find (\<lambda>u. us_id u = se_user_id s) (ad_users db))"

definition lookup_session_user :: "auth_libs \<Rightarrow> int \<Rightarrow> string \<Rightarrow> auth_db \<Rightarrow> web_pipe_error + (int \<times> user_row) option" where
  "lookup_session_user lib db_now token db =
     query db (keyed (\<lambda>u. read_i32 lib db (us_id u)) (session_user db db_now token))"

section \<open>Configuration and cookies\<close>

record auth_config =
  ac_session_ttl :: int
  ac_cookie_name :: string
  ac_cookie_secure :: bool
  ac_cookie_http_only :: bool
  ac_cookie_same_site :: string
  ac_cookie_path :: string

definition default_auth_json :: json where
  "default_auth_json = JObject
     [(''sessionTtl'', json_int 604800), (''cookieName'', JString ''wp_session''), (''cookieSecure'', JBool False),
      (''cookieHttpOnly'', JBool True), (''cookieSameSite'', JString ''Lax''), (''cookiePath'', JString ''/'')]"

definition get_auth_config :: "web_pipe_error + json \<Rightarrow> auth_config" where
  "get_auth_config resolved =
     (let j = (case resolved of Inl _ \<Rightarrow> default_auth_json | Inr v \<Rightarrow> v);
          get = (\<lambda>read key d. coalesce d (Option.bind (json_get key j) read));
          get_flag = (\<lambda>key d. coalesce d (Option.bind (json_get key j) as_bool));
          get_text = (\<lambda>key d. coalesce d (Option.bind (json_get key j) as_str))
      in \<lparr> ac_session_ttl = get as_i64 ''sessionTtl'' 604800, ac_cookie_name = get_text ''cookieName'' ''wp_session'',
           ac_cookie_secure = get_flag ''cookieSecure'' False, ac_cookie_http_only = get_flag ''cookieHttpOnly'' True,
           ac_cookie_same_site = get_text ''cookieSameSite'' ''Lax'', ac_cookie_path = get_text ''cookiePath'' ''/'' \<rparr>)"

definition insecure_cookie :: web_pipe_error where
  "insecure_cookie =
     ConfigError ''cookieSecure MUST be true in production builds. Set it in your config auth block.''"

definition build_set_cookie_header :: "auth_libs \<Rightarrow> auth_config \<Rightarrow> string \<Rightarrow> web_pipe_error + string" where
  "build_set_cookie_header lib cfg token =
     (if au_release lib \<and> \<not> ac_cookie_secure cfg then Inl insecure_cookie
      else Inr (join ''; ''
        ([ac_cookie_name cfg @ ''='' @ token] @
         (if ac_cookie_http_only cfg then [''HttpOnly''] else []) @
         (if ac_cookie_secure cfg then [''Secure''] else []) @
         [''SameSite='' @ ac_cookie_same_site cfg, ''Path='' @ ac_cookie_path cfg,
          ''Max-Age='' @ show_int (ac_session_ttl cfg)])))"

definition build_clear_cookie_header :: "auth_config \<Rightarrow> string" where
  "build_clear_cookie_header cfg = join ''; ''
     ([ac_cookie_name cfg @ ''='', ''HttpOnly''] @ (if ac_cookie_secure cfg then [''Secure''] else []) @
      [''SameSite=Strict'', ''Path='' @ ac_cookie_path cfg, ''Max-Age=0''])"

definition build_auth_error_object :: "string \<Rightarrow> json" where
  "build_auth_error_object message =
     JObject [(''errors'', JArray [JObject [(''type'', JString ''authError''), (''message'', JString message)]])]"

definition extract_body_field :: "json \<Rightarrow> string \<Rightarrow> string option" where
  "extract_body_field input key =
     Option.bind (json_get ''body'' input) (\<lambda>b. Option.bind (json_get key b) as_str)"

definition session_cookie :: "auth_config \<Rightarrow> json \<Rightarrow> string option" where
  "session_cookie cfg input =
     Option.bind (json_get ''cookies'' input) (\<lambda>c. Option.bind (json_get (ac_cookie_name cfg) c) as_str)"

section \<open>The flows\<close>

text \<open>\<^verbatim>\<open>hex::encode\<close>.\<close>

definition hex_encode :: "string \<Rightarrow> string" where
  "hex_encode bytes = concat (map (\<lambda>c. let n = (of_char c :: nat) in [hex_digit (n div 16), hex_digit (n mod 16)]) bytes)"

definition user_json :: "int \<Rightarrow> string \<Rightarrow> string \<Rightarrow> string \<Rightarrow> json_map" where
  "user_json user_id login email user_type =
     [(''id'', json_int user_id), (''login'', JString login), (''email'', JString email), (''type'', JString user_type)]"

definition active_user_json :: "int \<Rightarrow> string \<Rightarrow> string \<Rightarrow> string \<Rightarrow> json" where
  "active_user_json user_id login email user_type =
     JObject (user_json user_id login email user_type @ [(''status'', JString ''active'')])"

definition add_cookie :: "string \<Rightarrow> json_map \<Rightarrow> json_map" where
  "add_cookie cookie m =
     (case map_of m ''setCookies'' of
        None \<Rightarrow> om_insert ''setCookies'' (JArray [JString cookie]) m
      | Some (JArray xs) \<Rightarrow> om_insert ''setCookies'' (JArray (xs @ [JString cookie])) m
      | Some _ \<Rightarrow> m)"

definition login_result :: "auth_libs \<Rightarrow> auth_config \<Rightarrow> int \<Rightarrow> user_row \<Rightarrow> string \<Rightarrow> string \<Rightarrow> json \<Rightarrow> web_pipe_error + json" where
  "login_result lib cfg user_id user login token input =
     (case input of
        JObject m \<Rightarrow>
          (let m1 = om_insert ''user'' (active_user_json user_id login (us_email user) (coalesce ''local'' (us_type user))) m
           in case build_set_cookie_header lib cfg token of
                Inl e \<Rightarrow> Inl e
              | Inr cookie \<Rightarrow> Inr (JObject (add_cookie cookie m1)))
      | _ \<Rightarrow> Inr input)"

text \<open>A login; \<^const>\<open>None\<close> when the end of the session is beyond the calendar, where the code panics.\<close>

definition auth_login ::
  "auth_libs \<Rightarrow> auth_config \<Rightarrow> int \<Rightarrow> string \<Rightarrow> json \<Rightarrow> auth_db \<Rightarrow> ((web_pipe_error + json) \<times> auth_db) option" where
  "auth_login lib cfg now random_bytes input db =
     (let login = (case extract_body_field input ''login'' of Some l \<Rightarrow> Some l | None \<Rightarrow> extract_body_field input ''username'');
          refused = (\<lambda>message. Some (Inr (build_auth_error_object message), db))
      in case (login, extract_body_field input ''password'') of
           (Some login, Some password) \<Rightarrow>
             (case select_active_user lib db login of
                Inl e \<Rightarrow> Some (Inl e, db)
              | Inr None \<Rightarrow> refused ''Invalid credentials''
              | Inr (Some (user_id, user)) \<Rightarrow>
                  if \<not> au_verify lib (us_password_hash user) password then refused ''Invalid credentials''
                  else
                    (let token = hex_encode random_bytes
                     in case au_add_seconds lib now (ac_session_ttl cfg) of
                          None \<Rightarrow> None
                        | Some expires_at \<Rightarrow>
                            (case insert_session lib user_id token expires_at db of
                               (Inl e, db1) \<Rightarrow> Some (Inl e, db1)
                             | (Inr _, db1) \<Rightarrow> Some (login_result lib cfg user_id user login token input, db1))))
         | _ \<Rightarrow> refused ''Missing login or password'')"

definition register_result :: "int \<Rightarrow> string \<Rightarrow> string \<Rightarrow> json \<Rightarrow> json" where
  "register_result user_id login email input =
     map_object (\<lambda>m. om_insert ''message'' (JString ''User registration successful'')
       (om_insert ''user'' (active_user_json user_id login email ''local'') m)) input"

definition auth_register ::
  "auth_libs \<Rightarrow> string \<Rightarrow> json \<Rightarrow> auth_db \<Rightarrow> (web_pipe_error + json) \<times> auth_db" where
  "auth_register lib salt input db =
     (case (extract_body_field input ''login'', extract_body_field input ''email'', extract_body_field input ''password'') of
        (Some login, Some email, Some password) \<Rightarrow>
          (case select_user_id lib db login of
             Inl e \<Rightarrow> (Inl e, db)
           | Inr (Some _) \<Rightarrow> (Inr (build_auth_error_object ''User already exists''), db)
           | Inr None \<Rightarrow>
               (case au_hash lib password salt of
                  Inl e \<Rightarrow> (Inl (InternalError e), db)
                | Inr password_hash \<Rightarrow>
                    (case insert_user lib login email password_hash db of
                       (Inl e, db1) \<Rightarrow> (Inl e, db1)
                     | (Inr user_id, db1) \<Rightarrow> (Inr (register_result user_id login email input), db1))))
      | _ \<Rightarrow> (Inr (build_auth_error_object ''Missing required fields: login, email, password''), db))"

definition with_user :: "int \<times> user_row \<Rightarrow> json \<Rightarrow> json" where
  "with_user = (\<lambda>(user_id, user) input. map_object (om_insert ''user''
     (JObject (user_json user_id (us_login user) (us_email user) (coalesce ''local'' (us_type user))))) input)"

definition auth_required :: "auth_libs \<Rightarrow> auth_config \<Rightarrow> int \<Rightarrow> json \<Rightarrow> auth_db \<Rightarrow> web_pipe_error + json" where
  "auth_required lib cfg db_now input db =
     (case session_cookie cfg input of
        Some (c # cs) \<Rightarrow>
          (case lookup_session_user lib db_now (c # cs) db of
             Inl e \<Rightarrow> Inl e
           | Inr (Some u) \<Rightarrow> Inr (with_user u input)
           | Inr None \<Rightarrow> Inr (build_auth_error_object ''Invalid session''))
      | _ \<Rightarrow> Inr (build_auth_error_object ''Authentication required''))"

definition auth_optional :: "auth_libs \<Rightarrow> auth_config \<Rightarrow> int \<Rightarrow> json \<Rightarrow> auth_db \<Rightarrow> web_pipe_error + json" where
  "auth_optional lib cfg db_now input db =
     (case session_cookie cfg input of
        None \<Rightarrow> Inr input
      | Some token \<Rightarrow>
          (case lookup_session_user lib db_now token db of
             Inl e \<Rightarrow> Inl e
           | Inr (Some u) \<Rightarrow> Inr (with_user u input)
           | Inr None \<Rightarrow> Inr input))"

text \<open>A logout ignores whether its deletion succeeded.\<close>

definition auth_logout :: "auth_config \<Rightarrow> json \<Rightarrow> auth_db \<Rightarrow> (web_pipe_error + json) \<times> auth_db" where
  "auth_logout cfg input db =
     (Inr (map_object (om_insert ''setCookies'' (JArray [JString (build_clear_cookie_header cfg)])) input),
      case session_cookie cfg input of None \<Rightarrow> db | Some token \<Rightarrow> snd (delete_session token db))"

definition auth_type_check :: "auth_libs \<Rightarrow> auth_config \<Rightarrow> int \<Rightarrow> string \<Rightarrow> json \<Rightarrow> auth_db \<Rightarrow> web_pipe_error + json" where
  "auth_type_check lib cfg db_now required_type input db =
     (case auth_required lib cfg db_now input db of
        Inl e \<Rightarrow> Inl e
      | Inr checked \<Rightarrow>
          if Option.bind (json_get ''user'' checked) (\<lambda>u. Option.bind (json_get ''type'' u) as_str) = Some required_type
          then Inr checked else Inr (build_auth_error_object ''Insufficient permissions''))"

text \<open>What a step draws from outside: the clocks, and random bytes for a token or a salt.\<close>

record auth_draw =
  dr_now :: int
  dr_db_now :: int
  dr_bytes :: string
  dr_salt :: string

definition auth_flow ::
  "auth_libs \<Rightarrow> auth_config \<Rightarrow> auth_draw \<Rightarrow> string \<Rightarrow> json \<Rightarrow> auth_db \<Rightarrow> ((web_pipe_error + json) \<times> auth_db) option" where
  "auth_flow lib cfg draw config input db =
     (if config = ''login'' then auth_login lib cfg (dr_now draw) (dr_bytes draw) input db
      else if config = ''logout'' then Some (auth_logout cfg input db)
      else if config = ''register'' then Some (auth_register lib (dr_salt draw) input db)
      else if config = ''required'' then Some (auth_required lib cfg (dr_db_now draw) input db, db)
      else if config = ''optional'' then Some (auth_optional lib cfg (dr_db_now draw) input db, db)
      else (case strip_prefix ''type:'' config of
              Some rest \<Rightarrow> Some (auth_type_check lib cfg (dr_db_now draw) (trim rest) input db, db)
            | None \<Rightarrow> Some (Inr (build_auth_error_object ''Invalid auth configuration''), db)))"

definition auth_execute ::
  "auth_libs \<Rightarrow> auth_config \<Rightarrow> auth_draw \<Rightarrow> string \<Rightarrow> pipeline_context \<Rightarrow> auth_db option \<Rightarrow>
   ((web_pipe_error + middleware_output) \<times> pipeline_context \<times> auth_db option) option" where
  "auth_execute lib cfg draw config pc pool =
     (case pool of
        None \<Rightarrow> Some (Inl (DatabaseError ''database not configured''), pc, None)
      | Some db \<Rightarrow>
          (case auth_flow lib cfg draw (trim config) (pc_state pc) db of
             None \<Rightarrow> None
           | Some (Inl e, db1) \<Rightarrow> Some (Inl e, pc, Some db1)
           | Some (Inr v, db1) \<Rightarrow> Some (Inr default_output, pc\<lparr>pc_state := v\<rparr>, Some db1)))"

end
