(* ===== verification/Auth_Properties.thy ===== *)
theory Auth_Properties
  imports Auth
begin

text \<open>
  What the auth middleware promises: a login opens a session that identifies its user until it
  expires or is closed, nobody else is let in, and what one user does leaves the sessions of the
  others alone.
\<close>

section \<open>The tables stay well-formed\<close>

definition auth_wf :: "auth_db \<Rightarrow> bool" where
  "auth_wf db \<longleftrightarrow>
     distinct (map se_token (ad_sessions db)) \<and> distinct (map us_login (ad_users db)) \<and>
     distinct (map us_id (ad_users db)) \<and> (\<forall>u \<in> set (ad_users db). us_id u < ad_next_id db) \<and>
     (\<forall>s \<in> set (ad_sessions db). se_user_id s \<in> us_id ` set (ad_users db))"

lemma query_up: "ad_down db = None \<Longrightarrow> query db answer = (case answer of Inl e \<Rightarrow> Inl (DatabaseError e) | Inr x \<Rightarrow> Inr x)"
  by (simp add: query_def)

lemma insert_session_cases:
  assumes "insert_session lib user_id token expires_at db = (r, db')"
  shows "(db' = db \<and> (\<exists>e. r = Inl e)) \<or>
    (r = Inr () \<and> token \<notin> se_token ` set (ad_sessions db) \<and> user_id \<in> us_id ` set (ad_users db) \<and>
     db' = db\<lparr>ad_sessions := ad_sessions db @ [\<lparr> se_user_id = user_id, se_token = token, se_expires_at = expires_at \<rparr>]\<rparr>)"
  using assms by (auto simp: insert_session_def Let_def query_def split: option.splits sum.splits if_splits)

lemma insert_user_cases:
  assumes "insert_user lib login email h db = (r, db')"
  shows "db' = db \<or> (login \<notin> us_login ` set (ad_users db) \<and> db' = db\<lparr>ad_next_id := ad_next_id db + 1,
     ad_users := ad_users db @ [\<lparr> us_id = ad_next_id db, us_login = login, us_email = email,
       us_password_hash = h, us_type = Some ''local'', us_status = Some ''active'' \<rparr>]\<rparr>)"
  using assms by (auto simp: insert_user_def query_def split: option.splits sum.splits if_splits)

lemma delete_session_cases:
  "snd (delete_session token db) = db \<or>
   snd (delete_session token db) = db\<lparr>ad_sessions := filter (\<lambda>s. se_token s \<noteq> token) (ad_sessions db)\<rparr>"
  by (auto simp: delete_session_def query_def split: option.splits)

text \<open>What a flow may do to the tables.\<close>

inductive table_change :: "string set \<Rightarrow> auth_db \<Rightarrow> auth_db \<Rightarrow> bool" for ts :: "string set" where
  nothing: "table_change ts db db"
| opened: "s = \<lparr> se_user_id = user_id, se_token = token, se_expires_at = expires_at \<rparr> \<Longrightarrow>
     token \<in> ts \<Longrightarrow> token \<notin> se_token ` set (ad_sessions db) \<Longrightarrow>
     user_id \<in> us_id ` set (ad_users db) \<Longrightarrow> table_change ts db (db\<lparr>ad_sessions := ad_sessions db @ [s]\<rparr>)"
| registered: "us_id u = ad_next_id db \<Longrightarrow> us_login u \<notin> us_login ` set (ad_users db) \<Longrightarrow>
     table_change ts db (db\<lparr>ad_next_id := ad_next_id db + 1, ad_users := ad_users db @ [u]\<rparr>)"
| closed: "token \<in> ts \<Longrightarrow> table_change ts db (db\<lparr>ad_sessions := filter (\<lambda>s. se_token s \<noteq> token) (ad_sessions db)\<rparr>)"

lemma login_changes:
  assumes "auth_login lib cfg now bytes input db = Some (r, db')"
  shows "table_change {hex_encode bytes} db db'"
proof -
  have "table_change {hex_encode bytes} db db1"
    if "insert_session lib i (hex_encode bytes) e db = (x, db1)" for i e x db1
    using insert_session_cases [OF that] by (auto intro: table_change.intros)
  then show ?thesis using assms
    by (auto simp: auth_login_def Let_def split: option.splits sum.splits prod.splits if_splits intro: table_change.nothing)
qed

lemma register_changes:
  assumes "auth_register lib salt input db = (r, db')"
  shows "table_change {} db db'"
proof -
  have "table_change {} db db1" if "insert_user lib l e h db = (x, db1)" for l e h x db1
    using insert_user_cases [OF that] by (auto intro: table_change.intros)
  then show ?thesis using assms
    by (auto simp: auth_register_def split: option.splits sum.splits prod.splits intro: table_change.nothing)
qed

definition flow_tokens :: "auth_config \<Rightarrow> auth_draw \<Rightarrow> json \<Rightarrow> string set" where
  "flow_tokens cfg draw input = {t. t = hex_encode (dr_bytes draw) \<or> session_cookie cfg input = Some t}"

lemma table_change_mono: "table_change ts db db' \<Longrightarrow> ts \<subseteq> ts' \<Longrightarrow> table_change ts' db db'"
  by (induction rule: table_change.induct) (auto intro: table_change.intros)

lemma flow_changes:
  assumes "auth_flow lib cfg draw config input db = Some (r, db')"
  shows "table_change (flow_tokens cfg draw input) db db'"
proof -
  have "table_change (flow_tokens cfg draw input) db db1"
    if "auth_login lib cfg now (dr_bytes draw) input db = Some (x, db1)" for now x db1
    by (rule table_change_mono [OF login_changes [OF that]]) (simp add: flow_tokens_def)
  moreover have "table_change (flow_tokens cfg draw input) db (snd (auth_register lib salt input db))" for salt
    by (rule table_change_mono [OF register_changes]) (auto simp: prod_eq_iff)
  moreover have "table_change (flow_tokens cfg draw input) db (snd (auth_logout cfg input db))"
  proof (cases "session_cookie cfg input")
    case (Some token)
    then show ?thesis using delete_session_cases [of token db]
      by (auto simp: auth_logout_def flow_tokens_def intro: table_change.intros)
  qed (simp add: auth_logout_def table_change.nothing)
  ultimately show ?thesis using assms
    by (auto simp: auth_flow_def split: if_splits option.splits intro: table_change.nothing) (metis snd_conv)+
qed

lemma table_change_wf: "table_change ts db db' \<Longrightarrow> auth_wf db \<Longrightarrow> auth_wf db'"
proof (induction rule: table_change.induct)
  case (registered u db)
  then show ?case by (fastforce simp: auth_wf_def)
next
  case (closed token db)
  then show ?case by (auto simp: auth_wf_def intro: distinct_map_filter)
qed (auto simp: auth_wf_def)

text \<open>A session is found by its token among the others.\<close>

lemma find_in: "find P xs = Some x \<Longrightarrow> x \<in> set xs \<and> P x"
  by (induction xs) (auto split: if_splits)

lemma session_user_wf:
  assumes "auth_wf db"
  shows "session_user db now token = Some u \<longleftrightarrow>
    u \<in> set (ad_users db) \<and>
    (\<exists>s \<in> set (ad_sessions db). se_token s = token \<and> se_expires_at s > now \<and> se_user_id s = us_id u)"
proof
  assume "session_user db now token = Some u"
  then show "u \<in> set (ad_users db) \<and>
    (\<exists>s \<in> set (ad_sessions db). se_token s = token \<and> se_expires_at s > now \<and> se_user_id s = us_id u)"
    by (auto simp: session_user_def Option.bind_eq_Some_conv dest!: find_in)
next
  assume r: "u \<in> set (ad_users db) \<and>
    (\<exists>s \<in> set (ad_sessions db). se_token s = token \<and> se_expires_at s > now \<and> se_user_id s = us_id u)"
  then obtain s where s: "s \<in> set (ad_sessions db)" "se_token s = token" "se_expires_at s > now" "se_user_id s = us_id u" by auto
  let ?P = "\<lambda>s. se_token s = token \<and> se_expires_at s > now \<and> se_user_id s \<in> us_id ` set (ad_users db)"
  have "?P s" using s r by auto
  then obtain s' where s': "find ?P (ad_sessions db) = Some s'" using s(1) by (cases "find ?P (ad_sessions db)") (auto simp: find_None_iff)
  then have "s' \<in> set (ad_sessions db)" "se_token s' = token" by (auto dest: find_in)
  then have "s' = s" using assms s(1,2) by (auto simp: auth_wf_def distinct_map inj_on_def)
  moreover have "find (\<lambda>v. us_id v = us_id u) (ad_users db) = Some u"
  proof -
    obtain v where v: "find (\<lambda>v. us_id v = us_id u) (ad_users db) = Some v"
      using r by (cases "find (\<lambda>v. us_id v = us_id u) (ad_users db)") (auto simp: find_None_iff)
    then have "v \<in> set (ad_users db)" "us_id v = us_id u" by (auto dest: find_in)
    then show ?thesis using v r assms by (auto simp: auth_wf_def distinct_map inj_on_def)
  qed
  ultimately show "session_user db now token = Some u" using s' s(4) by (simp add: session_user_def)
qed

lemma table_change_other:
  assumes "table_change ts db db'" and "auth_wf db" and "token \<notin> ts"
  shows "session_user db' now token = session_user db now token"
proof -
  have "session_user db' now token = Some u \<longleftrightarrow> session_user db now token = Some u" for u
    unfolding session_user_wf [OF assms(2)] session_user_wf [OF table_change_wf [OF assms(1,2)]]
    using assms
  proof (induction rule: table_change.induct)
    case (registered v db)
    then have "\<forall>s \<in> set (ad_sessions db). se_user_id s < ad_next_id db" by (fastforce simp: auth_wf_def)
    with registered show ?case by auto
  qed auto
  then show ?thesis by (metis option.exhaust_sel option.distinct(1))
qed

section \<open>Every reachable database\<close>

text \<open>
  Requests of any kind, in any order, with any configuration, clock and random bytes; the database
  may fail and recover, and an administrator may change the types and the status of users.
\<close>

inductive auth_reachable :: "auth_libs \<Rightarrow> auth_db \<Rightarrow> bool" for lib :: auth_libs where
  empty: "auth_reachable lib \<lparr> ad_id_type = it, ad_users = [], ad_sessions = [], ad_next_id = 1, ad_down = None \<rparr>"
| flow: "auth_reachable lib db \<Longrightarrow> auth_flow lib cfg draw config input db = Some (r, db') \<Longrightarrow> auth_reachable lib db'"
| outage: "auth_reachable lib db \<Longrightarrow> auth_reachable lib (db\<lparr>ad_down := d\<rparr>)"
| administered: "auth_reachable lib db \<Longrightarrow>
    auth_reachable lib (db\<lparr>ad_users := map (\<lambda>u. u\<lparr>us_type := f u, us_status := g u\<rparr>) (ad_users db)\<rparr>)"

lemma auth_reachable_wf: "auth_reachable lib db \<Longrightarrow> auth_wf db"
proof (induction rule: auth_reachable.induct)
  case (flow db cfg draw config input r db')
  then show ?case using table_change_wf [OF flow_changes] by blast
next
  case (administered db f g)
  then show ?case by (simp add: auth_wf_def comp_def image_image)
qed (simp_all add: auth_wf_def)

text \<open>
  C7: In every reachable database tokens, logins and keys are unique and every session belongs to a
  user, and whatever a request does, it leaves every session alone but the one its own cookie names
  and the one it opens: all other tokens identify the same user, or nobody, as before.
\<close>

theorem sessions_are_independent:
  assumes "auth_reachable lib db" and "auth_flow lib cfg draw config input db = Some (r, db')"
    and "token \<noteq> hex_encode (dr_bytes draw)" and "session_cookie cfg input \<noteq> Some token"
  shows "auth_wf db' \<and> session_user db' now token = session_user db now token"
proof -
  note wf = auth_reachable_wf [OF assms(1)]
  note change = flow_changes [OF assms(2)]
  have "token \<notin> flow_tokens cfg draw input" using assms(3,4) by (simp add: flow_tokens_def)
  from table_change_other [OF change wf this] table_change_wf [OF change wf] show ?thesis by simp
qed

section \<open>A session from its login to its end\<close>

lemma find_unique:
  assumes "x \<in> set xs" and "P x" and "\<And>y. y \<in> set xs \<Longrightarrow> P y \<Longrightarrow> y = x"
  shows "find P xs = Some x"
proof -
  obtain y where y: "find P xs = Some y" using assms(1,2) by (cases "find P xs") (auto simp: find_None_iff)
  with find_in [OF y] assms(3) show ?thesis by simp
qed

lemma find_active:
  assumes "auth_wf db" and "u \<in> set (ad_users db)" and "coalesce ''active'' (us_status u) = ''active''"
  shows "find (\<lambda>v. us_login v = us_login u \<and> coalesce ''active'' (us_status v) = ''active'') (ad_users db) = Some u"
  using assms by (intro find_unique) (auto simp: auth_wf_def distinct_map inj_on_def)

lemma required_by_session:
  assumes "ad_down db = None" and "ad_id_type db = Int4" and "session_cookie cfg input = Some (c # cs)"
  shows "auth_required lib cfg now input db =
    Inr (case session_user db now (c # cs) of
           Some u \<Rightarrow> with_user (us_id u, u) input
         | None \<Rightarrow> build_auth_error_object ''Invalid session'')"
  using assms by (simp add: auth_required_def lookup_session_user_def query_up keyed_def read_i32_def split: option.splits)

text \<open>The database with a fresh session, and with that session deleted by a logout.\<close>

definition with_session :: "int \<Rightarrow> string \<Rightarrow> int \<Rightarrow> auth_db \<Rightarrow> auth_db" where
  "with_session user_id token expires_at db =
     db\<lparr>ad_sessions := ad_sessions db @ [\<lparr> se_user_id = user_id, se_token = token, se_expires_at = expires_at \<rparr>]\<rparr>"

lemma with_session_wf:
  assumes "auth_wf db" and "u \<in> set (ad_users db)" and "token \<notin> se_token ` set (ad_sessions db)"
  shows "auth_wf (with_session (us_id u) token expires_at db)"
  using table_change_wf [OF table_change.opened [OF refl], of token "{token}" db "us_id u" expires_at] assms
  by (simp add: with_session_def)

lemma session_until_expiry:
  assumes "auth_wf db" and "u \<in> set (ad_users db)" and "token \<notin> se_token ` set (ad_sessions db)"
  shows "session_user (with_session (us_id u) token expires_at db) later token = (if later < expires_at then Some u else None)"
proof (cases "later < expires_at")
  case True
  then show ?thesis using session_user_wf [OF with_session_wf [OF assms, of expires_at]] assms(2) by (simp add: with_session_def)
next
  case False
  have "session_user (with_session (us_id u) token expires_at db) later token \<noteq> Some v" for v
  proof -
    have "se_token s \<noteq> token" if "s \<in> set (ad_sessions db)" for s
      using assms(3) that by (auto simp: image_iff)
    with False show ?thesis
      using session_user_wf [OF with_session_wf [OF assms, of expires_at], of later token v] by (auto simp: with_session_def)
  qed
  with False show ?thesis
    by (cases "session_user (with_session (us_id u) token expires_at db) later token") auto
qed

lemma logged_out:
  assumes "auth_wf db" and "ad_down db = None" and "session_cookie cfg request = Some token"
  shows "session_user (snd (auth_logout cfg request db)) later token = None"
    and "ad_down (snd (auth_logout cfg request db)) = None"
    and "ad_id_type (snd (auth_logout cfg request db)) = ad_id_type db"
proof -
  let ?closed = "db\<lparr>ad_sessions := filter (\<lambda>s. se_token s \<noteq> token) (ad_sessions db)\<rparr>"
  have out: "snd (auth_logout cfg request db) = ?closed"
    using assms(2,3) by (simp add: auth_logout_def delete_session_def query_up)
  have closed: "auth_wf ?closed"
    by (rule table_change_wf [OF table_change.closed [of token "{token}"] assms(1)]) simp
  show "session_user (snd (auth_logout cfg request db)) later token = None"
    unfolding out using session_user_wf [OF closed] by (cases "session_user ?closed later token") auto
qed (use assms(2,3) in \<open>simp_all add: auth_logout_def delete_session_def query_up\<close>)

text \<open>
  C6: A session lasts from its login to its expiry or its logout: with the right password, an active
  user gets a fresh token; any later request that brings the token as its cookie is let in as that
  user as long as the database's clock has not reached the login's time plus the configured ttl,
  and is refused afterwards; once a request with the cookie has logged out, the token is refused at
  any time.
\<close>

theorem session_opens_and_closes:
  assumes "auth_wf db" and "ad_down db = None" and "ad_id_type db = Int4"
    and "extract_body_field input ''login'' = Some (us_login u)" and "extract_body_field input ''password'' = Some password"
    and "u \<in> set (ad_users db)" and "coalesce ''active'' (us_status u) = ''active''"
    and "au_verify lib (us_password_hash u) password"
    and "bytes \<noteq> []" and "hex_encode bytes \<notin> se_token ` set (ad_sessions db)"
    and "au_add_seconds lib now (ac_session_ttl cfg) = Some expires_at"
    and "au_release lib \<longrightarrow> ac_cookie_secure cfg"
  shows "\<exists>result db'. auth_login lib cfg now bytes input db = Some (Inr result, db') \<and>
    json_get ''user'' result = Some (active_user_json (us_id u) (us_login u) (us_email u) (coalesce ''local'' (us_type u))) \<and>
    (\<forall>later request. session_cookie cfg request = Some (hex_encode bytes) \<longrightarrow>
       auth_required lib cfg later request db' =
         Inr (if later < expires_at then with_user (us_id u, u) request else build_auth_error_object ''Invalid session'') \<and>
       auth_required lib cfg later request (snd (auth_logout cfg request db')) =
         Inr (build_auth_error_object ''Invalid session''))"
proof -
  let ?token = "hex_encode bytes"
  obtain c cs where token: "?token = c # cs" using assms(9) by (cases bytes) (simp_all add: hex_encode_def Let_def)
  define db' where "db' = with_session (us_id u) ?token expires_at db"
  obtain m where m: "input = JObject m" using assms(4) by (cases input) (simp_all add: extract_body_field_def)
  obtain cookie where cookie: "build_set_cookie_header lib cfg ?token = Inr cookie"
    using assms(12) by (simp add: build_set_cookie_header_def)
  have select: "select_active_user lib db (us_login u) = Inr (Some (us_id u, u))"
    using assms(2,3) find_active [OF assms(1,6,7)] by (simp add: select_active_user_def query_up keyed_def read_i32_def)
  have insert: "insert_session lib (us_id u) ?token expires_at db = (Inr (), db')"
    using assms(2,6,10) by (simp add: insert_session_def Let_def query_up db'_def with_session_def)
  define result where "result = JObject (add_cookie cookie (om_insert ''user''
      (active_user_json (us_id u) (us_login u) (us_email u) (coalesce ''local'' (us_type u))) m))"
  have login: "auth_login lib cfg now bytes input db = Some (Inr result, db')"
    using assms(4,5,8,11) select insert cookie by (simp add: auth_login_def login_result_def m result_def)
  have user: "json_get ''user'' result = Some (active_user_json (us_id u) (us_login u) (us_email u) (coalesce ''local'' (us_type u)))"
    by (auto simp: result_def add_cookie_def split: option.splits json.splits)
  note session = assms(1,6,10)
  have wf: "auth_wf db'" unfolding db'_def by (rule with_session_wf [OF session])
  have up: "ad_down db' = None" "ad_id_type db' = Int4" using assms(2,3) by (simp_all add: db'_def with_session_def)
  note alive = session_until_expiry [OF session, of expires_at, folded db'_def]
  note gone = logged_out [OF wf up(1)]
  have "auth_required lib cfg later request db' =
         Inr (if later < expires_at then with_user (us_id u, u) request else build_auth_error_object ''Invalid session'') \<and>
       auth_required lib cfg later request (snd (auth_logout cfg request db')) =
         Inr (build_auth_error_object ''Invalid session'')"
    if "session_cookie cfg request = Some ?token" for later request
    using required_by_session [OF up, of cfg request c cs]
      required_by_session [OF gone(2) [OF that] trans [OF gone(3) [OF that] up(2)], of cfg request c cs]
      that alive gone(1) [OF that] token by simp
  with login user show ?thesis by blast
qed

section \<open>Who is let in\<close>


section \<open>What fails\<close>

text \<open>
  C8: Registering a login that is taken never reports that the user exists: the check reads the
  key as a 64-bit integer and every other query reads it as a 32-bit one, so on the documented
  schema the check itself fails; and on a table with 64-bit keys, where it works, nobody can log in.
\<close>

theorem taken_login_is_a_database_error:
  assumes "auth_wf db" and "ad_down db = None" and "u \<in> set (ad_users db)"
    and "extract_body_field input ''login'' = Some (us_login u)"
    and "extract_body_field input ''email'' = Some email" and "extract_body_field input ''password'' = Some password"
  shows "(ad_id_type db = Int4 \<longrightarrow> auth_register lib salt input db = (Inl (DatabaseError (au_mismatch lib)), db)) \<and>
    (ad_id_type db = Int8 \<longrightarrow> auth_register lib salt input db = (Inr (build_auth_error_object ''User already exists''), db) \<and>
       (coalesce ''active'' (us_status u) = ''active'' \<longrightarrow>
          auth_login lib cfg now bytes input db = Some (Inl (DatabaseError (au_mismatch lib)), db)))"
proof -
  have "find (\<lambda>v. us_login v = us_login u) (ad_users db) = Some u"
    using assms(1,3) by (intro find_unique) (auto simp: auth_wf_def distinct_map inj_on_def)
  then have "select_user_id lib db (us_login u) =
      (if ad_id_type db = Int8 then Inr (Some (us_id u, u)) else Inl (DatabaseError (au_mismatch lib)))"
    using assms(2) by (simp add: select_user_id_def query_up keyed_def read_i64_def)
  moreover have "select_active_user lib db (us_login u) = Inl (DatabaseError (au_mismatch lib))"
    if "ad_id_type db = Int8" "coalesce ''active'' (us_status u) = ''active''"
    using that assms(2) find_active [OF assms(1,3)] by (simp add: select_active_user_def query_up keyed_def read_i32_def)
  ultimately show ?thesis using assms(4,5,6) by (simp add: auth_register_def auth_login_def Let_def)
qed

text \<open>A release build with the default configuration opens a session and then refuses the login.\<close>

lemma insecure_login_leaves_session:
  assumes "au_release lib" and "\<not> ac_cookie_secure cfg"
    and "extract_body_field input ''login'' = Some login" and "extract_body_field input ''password'' = Some password"
    and "select_active_user lib db login = Inr (Some (i, u))" and "au_verify lib (us_password_hash u) password"
    and "au_add_seconds lib now (ac_session_ttl cfg) = Some e"
    and "insert_session lib i (hex_encode bytes) e db = (Inr (), db')"
  shows "auth_login lib cfg now bytes input db = Some (Inl insecure_cookie, db')"
proof -
  obtain m where "input = JObject m" using assms(3) by (cases input) (simp_all add: extract_body_field_def)
  with assms show ?thesis by (simp add: auth_login_def login_result_def build_set_cookie_header_def)
qed

text \<open>The status of a user is looked at when the user logs in, and never again.\<close>

lemma required_ignores_status:
  "auth_required lib cfg now input (db\<lparr>ad_users := map (\<lambda>u. u\<lparr>us_status := g u\<rparr>) (ad_users db)\<rparr>) =
   auth_required lib cfg now input db"
proof -
  have f: "find (\<lambda>u. us_id u = i) (map (\<lambda>u. u\<lparr>us_status := g u\<rparr>) us) = map_option (\<lambda>u. u\<lparr>us_status := g u\<rparr>) (find (\<lambda>u. us_id u = i) us)" for i us
    by (induction us) auto
  have "session_user (db\<lparr>ad_users := map (\<lambda>u. u\<lparr>us_status := g u\<rparr>) (ad_users db)\<rparr>) now token =
      map_option (\<lambda>u. u\<lparr>us_status := g u\<rparr>) (session_user db now token)" for token
    by (simp add: session_user_def image_image f Option.map_option_bind comp_def)
  then show ?thesis
    by (auto simp: auth_required_def lookup_session_user_def query_def keyed_def read_i32_def with_user_def
        split: option.splits list.splits sum.splits)
qed

text \<open>A logout that cannot reach the database answers as if it had closed the session, which stays open.\<close>

lemma logout_in_outage:
  "ad_down db = Some e \<Longrightarrow> fst (auth_logout cfg input db) = fst (auth_logout cfg input (db\<lparr>ad_down := None\<rparr>)) \<and>
     snd (auth_logout cfg input db) = db"
  by (simp add: auth_logout_def delete_session_def query_def split: option.splits)

section \<open>The hypotheses can hold\<close>

definition sample_auth_libs :: auth_libs where
  "sample_auth_libs = \<lparr> au_verify = (\<lambda>h p. h = p), au_hash = (\<lambda>p salt. Inr p), au_add_seconds = (\<lambda>now n. Some (now + n)),
     au_release = False, au_mismatch = ''mismatched types'', au_unique = (\<lambda>c. ''duplicate key'') \<rparr>"

definition sample_config :: auth_config where
  "sample_config = get_auth_config (Inl (ConfigError ''no auth''))"

definition sample_user :: user_row where
  "sample_user = \<lparr> us_id = 1, us_login = ''ann'', us_email = ''a@b.c'', us_password_hash = ''pw'', us_type = Some ''local'',
     us_status = Some ''active'' \<rparr>"

definition sample_db :: "id_type \<Rightarrow> auth_db" where
  "sample_db it = \<lparr> ad_id_type = it, ad_users = [sample_user],
     ad_sessions = [\<lparr> se_user_id = 1, se_token = ''t'', se_expires_at = 10 \<rparr>], ad_next_id = 2, ad_down = None \<rparr>"

definition login_input :: json where
  "login_input = JObject [(''body'', JObject [(''login'', JString ''ann''), (''email'', JString ''a@b.c''), (''password'', JString ''pw'')])]"

definition cookie_input :: "string \<Rightarrow> json" where
  "cookie_input token = JObject [(''cookies'', JObject [(''wp_session'', JString token)])]"

lemma sample_db_wf: "auth_wf (sample_db it)"
  by (simp add: auth_wf_def sample_db_def sample_user_def)

lemma sample_fields:
  "extract_body_field login_input ''login'' = Some ''ann''" "extract_body_field login_input ''email'' = Some ''a@b.c''"
  "extract_body_field login_input ''password'' = Some ''pw''"
  "session_cookie sample_config (cookie_input token) = Some token"
  by (simp_all add: extract_body_field_def login_input_def session_cookie_def cookie_input_def sample_config_def
      get_auth_config_def default_auth_json_def coalesce_def Let_def)

theorem sessions_are_independent_witness:
  "auth_wf \<lparr> ad_id_type = Int4, ad_users = [], ad_sessions = [], ad_next_id = 1, ad_down = None \<rparr> \<and>
   session_user \<lparr> ad_id_type = Int4, ad_users = [], ad_sessions = [], ad_next_id = 1, ad_down = None \<rparr> 0 ''other'' =
   session_user \<lparr> ad_id_type = Int4, ad_users = [], ad_sessions = [], ad_next_id = 1, ad_down = None \<rparr> 0 ''other''"
proof -
  let ?db = "\<lparr> ad_id_type = Int4, ad_users = [], ad_sessions = [], ad_next_id = 1, ad_down = None \<rparr>"
  let ?draw = "\<lparr> dr_now = 0, dr_db_now = 0, dr_bytes = [], dr_salt = [] \<rparr>"
  have "auth_flow sample_auth_libs sample_config ?draw ''logout'' (cookie_input ''mine'') ?db =
      Some (fst (auth_logout sample_config (cookie_input ''mine'') ?db), ?db)"
    by (simp add: auth_flow_def auth_logout_def sample_fields delete_session_def query_def)
  from sessions_are_independent [OF auth_reachable.empty this, of "''other''" 0]
  show ?thesis by (simp add: hex_encode_def sample_fields)
qed

theorem session_opens_and_closes_witness:
  "\<exists>result db'. auth_login sample_auth_libs sample_config 100 ''x'' login_input (sample_db Int4) = Some (Inr result, db') \<and>
     auth_required sample_auth_libs sample_config 101 (cookie_input (hex_encode ''x'')) db' =
       Inr (with_user (1, sample_user) (cookie_input (hex_encode ''x'')))"
proof -
  have token: "hex_encode ''x'' \<noteq> ''t''" by (simp add: hex_encode_def Let_def)
  have ttl: "ac_session_ttl sample_config = 604800"
    by (simp add: sample_config_def get_auth_config_def default_auth_json_def coalesce_def Let_def as_i64_def json_int_def)
  obtain result db' where "auth_login sample_auth_libs sample_config 100 ''x'' login_input (sample_db Int4) = Some (Inr result, db')"
    and later: "\<forall>later request. session_cookie sample_config request = Some (hex_encode ''x'') \<longrightarrow>
       auth_required sample_auth_libs sample_config later request db' =
         Inr (if later < 604900 then with_user (us_id sample_user, sample_user) request else build_auth_error_object ''Invalid session'')"
    using session_opens_and_closes [OF sample_db_wf, of Int4 login_input sample_user "''pw''" sample_auth_libs "''x''" 100 sample_config 604900]
      token by (auto simp: sample_db_def sample_fields sample_user_def coalesce_def sample_auth_libs_def ttl)
  then show ?thesis using sample_fields(4) [of "hex_encode ''x''"] by (auto simp: sample_user_def)
qed


theorem taken_login_is_a_database_error_witness:
  "auth_register sample_auth_libs [] login_input (sample_db Int4) = (Inl (DatabaseError ''mismatched types''), sample_db Int4)"
proof -
  have "sample_user \<in> set (ad_users (sample_db Int4))" "ad_down (sample_db Int4) = None" "ad_id_type (sample_db Int4) = Int4"
    by (simp_all add: sample_db_def)
  moreover have "extract_body_field login_input ''login'' = Some (us_login sample_user)" by (simp add: sample_fields sample_user_def)
  ultimately show ?thesis
    using taken_login_is_a_database_error [OF sample_db_wf, of Int4 sample_user login_input "''a@b.c''" "''pw''" sample_auth_libs "[]"]
      sample_fields by (simp add: sample_auth_libs_def)
qed

end
