(* ===== verification/Migrations.thy ===== *)
theory Migrations
  imports Static_Files Dap_Framing "HOL-Library.List_Lexorder" "HOL-Library.Char_ord"
begin

text \<open>
  The database migrations (\<^verbatim>\<open>src/migrations/mod.rs\<close>): reading the files of the directory
  \<^verbatim>\<open>migrations\<close>, and applying and rolling them back, each in a transaction of its own
  that also keeps the table \<^verbatim>\<open>_wp_migrations\<close>. What a script does to the rest of the
  database is an argument, a function of that rest; so are the Unicode tables, the environment, the
  directory, and which statements a failing connection loses. The progress that is printed is left
  out; the printed status is the result of its operation.
\<close>

datatype migrate_failure = Fails string | Panics

record 'd migrate_libs =
  mg_upper :: "string \<Rightarrow> string"
  mg_lower :: "string \<Rightarrow> string"
  mg_all_numeric :: "string \<Rightarrow> bool"
  mg_exec :: "string \<Rightarrow> 'd \<Rightarrow> string + 'd"
  mg_lost :: "nat \<Rightarrow> string option"
  mg_sql_error :: "string \<Rightarrow> string"
  mg_env :: "string \<Rightarrow> string option"
  mg_quote :: "string \<Rightarrow> string"
  mg_connect :: "string \<Rightarrow> string option"

section \<open>Migration files\<close>

record migration =
  mi_version :: string
  mi_name :: string
  mi_filename :: string
  mi_up_sql :: string
  mi_down_sql :: string

record dir_entry =
  en_name :: string
  en_is_file :: bool
  en_content :: "string + string"

datatype directory = Missing | Unreadable string | Entries "(string + dir_entry) list"

text \<open>\<^verbatim>\<open>&s[a..b]\<close>: it panics outside the text, or inside a character.\<close>

definition is_char_boundary :: "string \<Rightarrow> nat \<Rightarrow> bool" where
  "is_char_boundary s i \<longleftrightarrow> i = length s \<or> i < length s \<and> \<not> byte_in 128 191 (s ! i)"

definition slice_str :: "string \<Rightarrow> nat \<Rightarrow> nat \<Rightarrow> migrate_failure + string" where
  "slice_str s a b =
     (if a \<le> b \<and> is_char_boundary s a \<and> is_char_boundary s b then Inr (take (b - a) (drop a s)) else Inl Panics)"

definition up_marker :: string where
  "up_marker = ''-- UP --''"

definition down_marker :: string where
  "down_marker = ''-- DOWN --''"

definition parse_migration_content :: "'d migrate_libs \<Rightarrow> string \<Rightarrow> migrate_failure + (string \<times> string)" where
  "parse_migration_content lib content =
     (case (find_sub up_marker (mg_upper lib content), find_sub down_marker (mg_upper lib content)) of
        (None, _) \<Rightarrow> Inl (Fails ''Missing -- UP -- marker'')
      | (Some _, None) \<Rightarrow> Inl (Fails ''Missing -- DOWN -- marker'')
      | (Some up_start, Some down_start) \<Rightarrow>
          if down_start \<le> up_start then Inl (Fails ''-- DOWN -- must come after -- UP --'')
          else
            (case slice_str content (up_start + length up_marker) down_start of
               Inl e \<Rightarrow> Inl e
             | Inr up_sql \<Rightarrow>
                 (case slice_str content (down_start + length down_marker) (length content) of
                    Inl e \<Rightarrow> Inl e
                  | Inr down_sql \<Rightarrow> Inr (trim up_sql, trim down_sql))))"

text \<open>\<^verbatim>\<open>trim_end_matches\<close> with a string.\<close>

definition trim_end_str :: "string \<Rightarrow> string \<Rightarrow> string" where
  "trim_end_str p s = rev (strip_seqs [rev p] (rev s))"

text \<open>One directory entry: an error, nothing when it is skipped, or a migration.\<close>

definition scan_entry :: "'d migrate_libs \<Rightarrow> dir_entry \<Rightarrow> migrate_failure + migration option" where
  "scan_entry lib e =
     (if \<not> en_is_file e \<or> path_extension (en_name e) \<noteq> Some ''sql'' then Inr None
      else if \<not> utf8_valid (en_name e) then Inl (Fails ''Invalid filename'')
      else
        (case split_once ''_'' (en_name e) of
           None \<Rightarrow> Inr None
         | Some (version, rest) \<Rightarrow>
             if length version \<noteq> 14 \<or> \<not> mg_all_numeric lib version then Inr None
             else
               (case en_content e of
                  Inl err \<Rightarrow> Inl (Fails err)
                | Inr content \<Rightarrow>
                    (case parse_migration_content lib content of
                       Inl err \<Rightarrow> Inl err
                     | Inr (up_sql, down_sql) \<Rightarrow>
                         Inr (Some \<lparr> mi_version = version, mi_name = trim_end_str ''.sql'' rest,
                                mi_filename = en_name e, mi_up_sql = up_sql, mi_down_sql = down_sql \<rparr>)))))"

fun scan_entries :: "'d migrate_libs \<Rightarrow> (string + dir_entry) list \<Rightarrow> migrate_failure + migration list" where
  "scan_entries lib [] = Inr []"
| "scan_entries lib (Inl err # es) = Inl (Fails err)"
| "scan_entries lib (Inr e # es) =
     (case scan_entry lib e of
        Inl err \<Rightarrow> Inl err
      | Inr found \<Rightarrow>
          (case scan_entries lib es of
             Inl err \<Rightarrow> Inl err
           | Inr ms \<Rightarrow> Inr (case found of None \<Rightarrow> ms | Some m \<Rightarrow> m # ms)))"

definition scan_migration_files :: "'d migrate_libs \<Rightarrow> directory \<Rightarrow> migrate_failure + migration list" where
  "scan_migration_files lib dir =
     (case dir of
        Missing \<Rightarrow> Inr []
      | Unreadable err \<Rightarrow> Inl (Fails err)
      | Entries es \<Rightarrow>
          (case scan_entries lib es of Inl err \<Rightarrow> Inl err | Inr ms \<Rightarrow> Inr (sort_key mi_version ms)))"

definition template :: string where
  "template = ''-- UP --'' @ [newline, newline, newline] @ ''-- DOWN --'' @ [newline, newline]"

text \<open>
  A new file; the name is the user's, so one with a slash is a path below the directory, which the
  operating system may refuse. The two last arguments are the errors of making the directory and of
  writing the file.
\<close>

definition create_migration ::
  "string \<Rightarrow> string \<Rightarrow> string option \<Rightarrow> string option \<Rightarrow> directory \<Rightarrow> (migrate_failure + unit) \<times> directory" where
  "create_migration timestamp name mkdir_error write_error dir =
     (let filename = timestamp @ ''_'' @ name @ ''.sql'';
          new = Inr \<lparr> en_name = filename, en_is_file = True, en_content = Inr template \<rparr>;
          put = (\<lambda>d. case d of
              Entries es \<Rightarrow>
                Entries (if CHR ''/'' \<in> set filename then es
                         else filter (\<lambda>e. case e of Inl _ \<Rightarrow> True | Inr x \<Rightarrow> en_name x \<noteq> filename) es @ [new])
            | _ \<Rightarrow> d);
          write = (\<lambda>d. case write_error of Some err \<Rightarrow> (Inl (Fails err), d) | None \<Rightarrow> (Inr (), put d))
      in case dir of
           Missing \<Rightarrow> (case mkdir_error of Some err \<Rightarrow> (Inl (Fails err), Missing) | None \<Rightarrow> write (Entries []))
         | _ \<Rightarrow> write dir)"

section \<open>The database\<close>

text \<open>
  The rest of the database, the tracking table once it exists (its versions and names), and how many
  statements have been sent; the statement of a number may be lost with its connection.
\<close>

record 'd migration_db =
  md_schema :: 'd
  md_rows :: "(string \<times> string) list option"
  md_sent :: nat

type_synonym ('d, 'a) db_action = "'d migration_db \<Rightarrow> (migrate_failure + 'a) \<times> 'd migration_db"

definition and_then :: "('d, 'a) db_action \<Rightarrow> ('a \<Rightarrow> ('d, 'b) db_action) \<Rightarrow> ('d, 'b) db_action" where
  "and_then a f db = (case a db of (Inl e, db1) \<Rightarrow> (Inl e, db1) | (Inr x, db1) \<Rightarrow> f x db1)"

definition give :: "migrate_failure + 'a \<Rightarrow> ('d, 'a) db_action" where
  "give r db = (r, db)"

text \<open>One statement: lost, refused, or answered with its effect.\<close>

definition statement ::
  "'d migrate_libs \<Rightarrow> ('d migration_db \<Rightarrow> string + ('a \<times> 'd migration_db)) \<Rightarrow> ('d, 'a) db_action" where
  "statement lib run db =
     (let db1 = db\<lparr>md_sent := Suc (md_sent db)\<rparr>
      in case mg_lost lib (md_sent db) of
           Some err \<Rightarrow> (Inl (Fails err), db1)
         | None \<Rightarrow> (case run db1 of Inl err \<Rightarrow> (Inl (Fails err), db1) | Inr (x, db2) \<Rightarrow> (Inr x, db2)))"

text \<open>A transaction that is not committed leaves the tables as they were.\<close>

definition transaction :: "'d migrate_libs \<Rightarrow> ('d, unit) db_action \<Rightarrow> ('d, unit) db_action" where
  "transaction lib body db =
     (let nothing = (\<lambda>db. Inr ((), db));
          (r, db1) = and_then (statement lib nothing) (\<lambda>_. and_then body (\<lambda>_. statement lib nothing)) db
      in (r, case r of Inl _ \<Rightarrow> db\<lparr>md_sent := md_sent db1\<rparr> | Inr _ \<Rightarrow> db1))"

definition script :: "'d migrate_libs \<Rightarrow> string \<Rightarrow> string \<Rightarrow> ('d, unit) db_action" where
  "script lib label sql db =
     (case statement lib (\<lambda>db. case mg_exec lib sql (md_schema db) of
             Inl err \<Rightarrow> Inl err | Inr d \<Rightarrow> Inr ((), db\<lparr>md_schema := d\<rparr>)) db of
        (Inl (Fails err), db1) \<Rightarrow> (Inl (Fails (label @ err)), db1)
      | r \<Rightarrow> r)"

text \<open>A statement on the tracking table.\<close>

definition on_rows ::
  "'d migrate_libs \<Rightarrow> ((string \<times> string) list \<Rightarrow> string + ('a \<times> (string \<times> string) list)) \<Rightarrow> ('d, 'a) db_action" where
  "on_rows lib run = statement lib (\<lambda>db.
     case md_rows db of
       None \<Rightarrow> Inl (mg_sql_error lib ''relation'')
     | Some rows \<Rightarrow>
         (case run rows of Inl err \<Rightarrow> Inl err | Inr (x, rows') \<Rightarrow> Inr (x, db\<lparr>md_rows := Some rows'\<rparr>)))"

definition select_versions :: "'d migrate_libs \<Rightarrow> ('d, string list) db_action" where
  "select_versions lib = on_rows lib (\<lambda>rows. Inr (map fst rows, rows))"

definition insert_version :: "'d migrate_libs \<Rightarrow> migration \<Rightarrow> ('d, unit) db_action" where
  "insert_version lib m = on_rows lib (\<lambda>rows.
     if mi_version m \<in> fst ` set rows then Inl (mg_sql_error lib ''unique'')
     else Inr ((), rows @ [(mi_version m, mi_name m)]))"

definition insert_version_if_new :: "'d migrate_libs \<Rightarrow> migration \<Rightarrow> ('d, unit) db_action" where
  "insert_version_if_new lib m = on_rows lib (\<lambda>rows.
     Inr ((), if mi_version m \<in> fst ` set rows then rows else rows @ [(mi_version m, mi_name m)]))"

definition delete_version :: "'d migrate_libs \<Rightarrow> migration \<Rightarrow> ('d, unit) db_action" where
  "delete_version lib m = on_rows lib (\<lambda>rows. Inr ((), filter (\<lambda>r. fst r \<noteq> mi_version m) rows))"

definition connect_db :: "'d migrate_libs \<Rightarrow> migrate_failure + unit" where
  "connect_db lib =
     (let env = (\<lambda>key default. case mg_env lib key of Some v \<Rightarrow> v | None \<Rightarrow> default)
      in case mg_env lib ''WP_PG_DATABASE'' of
           None \<Rightarrow> Inl (Fails ''WP_PG_DATABASE environment variable required'')
         | Some database \<Rightarrow>
             (case mg_connect lib
                     (''postgres://'' @ mg_quote lib (env ''WP_PG_USER'' ''postgres'') @ '':'' @
                      mg_quote lib (env ''WP_PG_PASSWORD'' '''') @ ''@'' @ env ''WP_PG_HOST'' ''localhost'' @ '':'' @
                      env ''WP_PG_PORT'' ''5432'' @ ''/'' @ database) of
                Some err \<Rightarrow> Inl (Fails (''Failed to connect to database: '' @ err))
              | None \<Rightarrow> Inr ()))"

definition ensure_migration_table :: "'d migrate_libs \<Rightarrow> ('d, unit) db_action" where
  "ensure_migration_table lib =
     and_then (statement lib (\<lambda>db. Inr ((), db\<lparr>md_rows := Some (case md_rows db of None \<Rightarrow> [] | Some rows \<Rightarrow> rows)\<rparr>)))
       (\<lambda>_. statement lib (\<lambda>db. Inr ((), db)))"

section \<open>The commands\<close>

definition get_pending_migrations :: "'d migrate_libs \<Rightarrow> directory \<Rightarrow> ('d, migration list) db_action" where
  "get_pending_migrations lib dir =
     and_then (give (scan_migration_files lib dir)) (\<lambda>all. and_then (select_versions lib) (\<lambda>versions.
       give (Inr (filter (\<lambda>m. mi_version m \<notin> set versions) all))))"

text \<open>A stable sort in descending order.\<close>

definition sort_descending :: "migration list \<Rightarrow> migration list" where
  "sort_descending ms = rev (sort_key mi_version (rev ms))"

definition get_applied_migrations :: "'d migrate_libs \<Rightarrow> directory \<Rightarrow> ('d, migration list) db_action" where
  "get_applied_migrations lib dir =
     and_then (give (scan_migration_files lib dir)) (\<lambda>all. and_then (select_versions lib) (\<lambda>versions.
       give (Inr (sort_descending (filter (\<lambda>m. mi_version m \<in> set versions) all)))))"

definition apply_migration :: "'d migrate_libs \<Rightarrow> migration \<Rightarrow> ('d, unit) db_action" where
  "apply_migration lib m =
     transaction lib (and_then (script lib ''Migration failed: '' (mi_up_sql m)) (\<lambda>_. insert_version lib m))"

definition rollback_migration :: "'d migrate_libs \<Rightarrow> migration \<Rightarrow> ('d, unit) db_action" where
  "rollback_migration lib m =
     transaction lib (and_then (script lib ''Rollback failed: '' (mi_down_sql m)) (\<lambda>_. delete_version lib m))"

fun for_each :: "(migration \<Rightarrow> ('d, unit) db_action) \<Rightarrow> migration list \<Rightarrow> ('d, unit) db_action" where
  "for_each f [] = give (Inr ())"
| "for_each f (m # ms) = and_then (f m) (\<lambda>_. for_each f ms)"

definition prepared :: "'d migrate_libs \<Rightarrow> (unit \<Rightarrow> ('d, 'a) db_action) \<Rightarrow> ('d, 'a) db_action" where
  "prepared lib command =
     and_then (give (connect_db lib)) (\<lambda>_. and_then (ensure_migration_table lib) command)"

definition migrate_up :: "'d migrate_libs \<Rightarrow> directory \<Rightarrow> nat option \<Rightarrow> ('d, unit) db_action" where
  "migrate_up lib dir limit = prepared lib (\<lambda>_. and_then (get_pending_migrations lib dir) (\<lambda>pending.
     for_each (apply_migration lib) (case limit of None \<Rightarrow> pending | Some n \<Rightarrow> take n pending)))"

definition migrate_down :: "'d migrate_libs \<Rightarrow> directory \<Rightarrow> nat \<Rightarrow> ('d, unit) db_action" where
  "migrate_down lib dir limit = prepared lib (\<lambda>_. and_then (get_applied_migrations lib dir) (\<lambda>applied.
     for_each (rollback_migration lib) (take limit applied)))"

definition tick_mark :: string where
  "tick_mark = [CHR 0xE2, CHR 0x9C, CHR 0x93]"

text \<open>\<^verbatim>\<open>{:<n}\<close>: padded to a number of characters.\<close>

definition pad_right :: "nat \<Rightarrow> string \<Rightarrow> string" where
  "pad_right n s = s @ replicate (n - char_count s) (CHR '' '')"

definition status_line :: "string \<Rightarrow> string \<Rightarrow> string \<Rightarrow> string" where
  "status_line version name status =
     pad_right 20 version @ '' '' @ pad_right 40 name @ '' '' @ pad_right 10 status"

definition migration_status :: "'d migrate_libs \<Rightarrow> directory \<Rightarrow> ('d, string list) db_action" where
  "migration_status lib dir = prepared lib (\<lambda>_. and_then (give (scan_migration_files lib dir)) (\<lambda>all.
     and_then (select_versions lib) (\<lambda>versions. give (Inr
       ([[newline] @ ''Migration Status:'' @ [newline], status_line ''VERSION'' ''NAME'' ''STATUS'', replicate 70 (CHR ''-'')] @
        map (\<lambda>m. status_line (mi_version m) (mi_name m)
          (if mi_version m \<in> set versions then tick_mark @ '' Applied'' else ''  Pending'')) all)))))"

text \<open>The confirmation is a line of the standard input, or the error of reading it.\<close>

definition force_version :: "'d migrate_libs \<Rightarrow> directory \<Rightarrow> string + string \<Rightarrow> string \<Rightarrow> ('d, unit) db_action" where
  "force_version lib dir confirmation version =
     (case confirmation of
        Inl err \<Rightarrow> give (Inl (Fails err))
      | Inr input \<Rightarrow>
          if mg_lower lib (trim input) \<noteq> ''yes'' then give (Inr ())
          else prepared lib (\<lambda>_. and_then (give (scan_migration_files lib dir)) (\<lambda>all.
            case find (\<lambda>m. mi_version m = version) all of
              None \<Rightarrow> give (Inl (Fails (''Migration version '' @ version @ '' not found'')))
            | Some m \<Rightarrow> insert_version_if_new lib m)))"

datatype migrate_action = Create string | Up "nat option" | Down nat | Status | Force string

text \<open>What a command prints as its answer, with the database and the directory after it.\<close>

definition handle_migrate ::
  "'d migrate_libs \<Rightarrow> string \<Rightarrow> string option \<Rightarrow> string option \<Rightarrow> string + string \<Rightarrow> migrate_action \<Rightarrow> directory \<Rightarrow>
   'd migration_db \<Rightarrow> (migrate_failure + string list) \<times> directory \<times> 'd migration_db" where
  "handle_migrate lib timestamp mkdir_error write_error confirmation action dir db =
     (let silent = (\<lambda>(r, db). (case r of Inl e \<Rightarrow> Inl e | Inr _ \<Rightarrow> Inr [], dir, db))
      in case action of
           Create name \<Rightarrow>
             (case create_migration timestamp name mkdir_error write_error dir of
                (Inl e, dir1) \<Rightarrow> (Inl e, dir1, db) | (Inr _, dir1) \<Rightarrow> (Inr [], dir1, db))
         | Up limit \<Rightarrow> silent (migrate_up lib dir limit db)
         | Down limit \<Rightarrow> silent (migrate_down lib dir limit db)
         | Status \<Rightarrow> (case migration_status lib dir db of (r, db1) \<Rightarrow> (r, dir, db1))
         | Force version \<Rightarrow> silent (force_version lib dir confirmation version db))"

end
