(* ===== verification/Migration_Properties.thy ===== *)
theory Migration_Properties
  imports Migrations "HOL-Library.Multiset"
begin

text \<open>
  What the migrations guarantee: a run applies a prefix of what is pending, whatever fails, and
  rolling back what was applied last restores the database.
\<close>

section \<open>Statements and transactions\<close>

lemma and_then_Inr: "and_then a f db = (Inr x, db') \<longleftrightarrow> (\<exists>y db1. a db = (Inr y, db1) \<and> f y db1 = (Inr x, db'))"
  by (auto simp: and_then_def split: prod.splits sum.splits)

lemma and_then_Inl:
  "and_then a f db = (Inl e, db') \<longleftrightarrow>
     a db = (Inl e, db') \<or> (\<exists>y db1. a db = (Inr y, db1) \<and> f y db1 = (Inl e, db'))"
  by (auto simp: and_then_def split: prod.splits sum.splits)

lemma give_iff [simp]: "give r db = (r', db') \<longleftrightarrow> r = r' \<and> db = db'"
  by (auto simp: give_def)

definition tables :: "'d migration_db \<Rightarrow> 'd \<times> (string \<times> string) list option" where
  "tables db = (md_schema db, md_rows db)"

definition recorded :: "'d migration_db \<Rightarrow> (string \<times> string) list" where
  "recorded db = (case md_rows db of None \<Rightarrow> [] | Some rows \<Rightarrow> rows)"

definition row_of :: "migration \<Rightarrow> string \<times> string" where
  "row_of m = (mi_version m, mi_name m)"

lemma transaction_Inl: "transaction lib body db = (Inl e, db') \<Longrightarrow> tables db' = tables db"
  by (auto simp: transaction_def tables_def Let_def split: prod.splits)

lemma statement_Inr:
  "statement lib run db = (Inr x, db') \<longleftrightarrow> mg_lost lib (md_sent db) = None \<and> run (db\<lparr>md_sent := Suc (md_sent db)\<rparr>) = Inr (x, db')"
  by (auto simp: statement_def Let_def split: option.splits sum.splits)

lemma statement_tables:
  "statement lib run db = (Inl e, db') \<Longrightarrow> tables db' = tables db"
  by (auto simp: statement_def tables_def Let_def split: option.splits sum.splits)

lemma transaction_Inr:
  assumes "transaction lib body db = (Inr (), db')"
  obtains db1 db2 where "tables db1 = tables db" "body db1 = (Inr (), db2)" "tables db' = tables db2"
proof -
  from assms obtain db2 where "body (db\<lparr>md_sent := Suc (md_sent db)\<rparr>) = (Inr (), db2)" "db' = db2\<lparr>md_sent := Suc (md_sent db2)\<rparr>"
    by (auto simp: transaction_def Let_def and_then_Inr statement_Inr split: prod.splits sum.splits)
  then show ?thesis by (intro that [of "db\<lparr>md_sent := Suc (md_sent db)\<rparr>" db2]) (simp_all add: tables_def)
qed

lemma script_Inr:
  "script lib label sql db = (Inr (), db') \<longleftrightarrow> mg_lost lib (md_sent db) = None \<and>
     (\<exists>d. mg_exec lib sql (md_schema db) = Inr d \<and> db' = db\<lparr>md_sent := Suc (md_sent db), md_schema := d\<rparr>)"
proof -
  have "script lib label sql db = (Inr (), db') \<longleftrightarrow>
      statement lib (\<lambda>db. case mg_exec lib sql (md_schema db) of
        Inl err \<Rightarrow> Inl err | Inr d \<Rightarrow> Inr ((), db\<lparr>md_schema := d\<rparr>)) db = (Inr (), db')"
    by (auto simp: script_def split: prod.splits sum.splits migrate_failure.splits)
  then show ?thesis by (auto simp: statement_Inr split: sum.splits)
qed

lemma on_rows_Inr:
  "on_rows lib run db = (Inr x, db') \<longleftrightarrow> mg_lost lib (md_sent db) = None \<and>
     (\<exists>rows rows'. md_rows db = Some rows \<and> run rows = Inr (x, rows') \<and>
        db' = db\<lparr>md_sent := Suc (md_sent db), md_rows := Some rows'\<rparr>)"
  by (auto simp: on_rows_def statement_Inr split: option.splits sum.splits)

lemma apply_Inr:
  assumes "apply_migration lib m db = (Inr (), db')"
  obtains d rows where "mg_exec lib (mi_up_sql m) (md_schema db) = Inr d" "md_rows db = Some rows"
    "mi_version m \<notin> fst ` set rows" "tables db' = (d, Some (rows @ [row_of m]))"
  using assms unfolding apply_migration_def
  by (elim transaction_Inr) (auto simp: and_then_Inr script_Inr insert_version_def on_rows_Inr tables_def row_of_def split: if_splits)

text \<open>The scripts of some migrations, run one after the other.\<close>

fun executed :: "'d migrate_libs \<Rightarrow> migration list \<Rightarrow> 'd \<Rightarrow> 'd option" where
  "executed lib [] d = Some d"
| "executed lib (m # ms) d =
     (case mg_exec lib (mi_up_sql m) d of Inl _ \<Rightarrow> None | Inr d1 \<Rightarrow> executed lib ms d1)"

text \<open>Whatever fails, what was applied is a prefix, and the table records exactly that prefix.\<close>

lemma applies_prefix:
  assumes "for_each (apply_migration lib) ms db = (r, db')"
  shows "\<exists>k \<le> length ms. executed lib (take k ms) (md_schema db) = Some (md_schema db') \<and>
    recorded db' = recorded db @ map row_of (take k ms) \<and> (md_rows db' = None \<longleftrightarrow> md_rows db = None) \<and>
    (distinct (map fst (recorded db)) \<longrightarrow> distinct (map fst (recorded db'))) \<and> (r = Inr () \<longrightarrow> k = length ms)"
  using assms
proof (induction ms arbitrary: db)
  case (Cons m ms)
  obtain r1 db1 where step: "apply_migration lib m db = (r1, db1)" by (cases "apply_migration lib m db")
  show ?case
  proof (cases r1)
    case (Inl e)
    with step have "tables db1 = tables db" by (auto simp: apply_migration_def dest: transaction_Inl)
    with Inl step Cons.prems show ?thesis
      by (intro exI [of _ 0]) (auto simp: and_then_def tables_def recorded_def)
  next
    case (Inr u)
    with step obtain d rows where d: "mg_exec lib (mi_up_sql m) (md_schema db) = Inr d" "md_rows db = Some rows"
      "mi_version m \<notin> fst ` set rows" "tables db1 = (d, Some (rows @ [row_of m]))"
      by (auto elim: apply_Inr)
    have "for_each (apply_migration lib) ms db1 = (r, db')"
      using Cons.prems step Inr by (simp add: and_then_def)
    from Cons.IH [OF this] obtain k where k: "k \<le> length ms" "executed lib (take k ms) (md_schema db1) = Some (md_schema db')"
      "recorded db' = recorded db1 @ map row_of (take k ms)" "md_rows db' = None \<longleftrightarrow> md_rows db1 = None"
      "distinct (map fst (recorded db1)) \<longrightarrow> distinct (map fst (recorded db'))" "r = Inr () \<longrightarrow> k = length ms"
      by (elim exE conjE) (rule that)
    have t: "md_schema db1 = d" "md_rows db1 = Some (rows @ [row_of m])" using d(4) by (simp_all add: tables_def)
    have "md_schema db1 = d" "recorded db = rows" "recorded db1 = rows @ [row_of m]" "md_rows db1 \<noteq> None"
      and "distinct (map fst rows) \<longrightarrow> distinct (map fst (rows @ [row_of m]))"
      using d(2,3) t by (simp_all add: recorded_def row_of_def)
    moreover have "executed lib (take (Suc k) (m # ms)) (md_schema db) = Some (md_schema db')"
      using d(1) k(2) calculation(1) by simp
    moreover have "md_rows db' = None \<longleftrightarrow> md_rows db = None" using k(4) calculation(4) d(2) by simp
    moreover have "recorded db' = recorded db @ map row_of (take (Suc k) (m # ms))" using k(3) calculation(2,3) by simp
    moreover have "distinct (map fst (recorded db)) \<longrightarrow> distinct (map fst (recorded db'))"
      using k(5) calculation(2,3,5) by metis
    moreover have "Suc k \<le> length (m # ms)" "r = Inr () \<longrightarrow> Suc k = length (m # ms)" using k(1,6) by simp_all
    ultimately show ?thesis by (intro exI [of _ "Suc k"] conjI)
  qed
qed auto

text \<open>Before it applies anything, a command only prepares the table.\<close>

lemma ensured: "ensure_migration_table lib db = (r, db') \<Longrightarrow>
    md_schema db' = md_schema db \<and> recorded db' = recorded db \<and> (r = Inr () \<longrightarrow> md_rows db' = Some (recorded db))"
  by (cases r) (auto simp: ensure_migration_table_def and_then_Inl and_then_Inr statement_Inr recorded_def tables_def
      dest!: statement_tables split: option.splits)

definition pending_of :: "'d migration_db \<Rightarrow> migration list \<Rightarrow> migration list" where
  "pending_of db all = filter (\<lambda>m. mi_version m \<notin> fst ` set (recorded db)) all"

definition limited :: "nat option \<Rightarrow> 'a list \<Rightarrow> 'a list" where
  "limited limit xs = (case limit of None \<Rightarrow> xs | Some n \<Rightarrow> take n xs)"

definition files_of :: "'d migrate_libs \<Rightarrow> directory \<Rightarrow> migration list" where
  "files_of lib dir = (case scan_migration_files lib dir of Inl _ \<Rightarrow> [] | Inr all \<Rightarrow> all)"


lemma pending_Inr:
  assumes "get_pending_migrations lib dir db = (Inr pending, db')"
  shows "scan_migration_files lib dir = Inr (files_of lib dir) \<and> pending = pending_of db (files_of lib dir) \<and>
    tables db' = tables db"
  using assms
  by (auto simp: get_pending_migrations_def and_then_Inr select_versions_def on_rows_Inr files_of_def pending_of_def
      recorded_def tables_def)

lemma on_rows_Inl: "on_rows lib run db = (Inl e, db') \<Longrightarrow> tables db' = tables db"
  unfolding on_rows_def by (rule statement_tables)

lemma pending_Inl: "get_pending_migrations lib dir db = (Inl e, db') \<Longrightarrow> tables db' = tables db"
  by (auto simp: get_pending_migrations_def and_then_Inl select_versions_def dest: on_rows_Inl)

lemma up_cases:
  assumes "migrate_up lib dir limit db = (r, db')"
  shows "(\<exists>e. r = Inl e) \<and> md_schema db' = md_schema db \<and> recorded db' = recorded db \<or>
    (\<exists>db1. md_schema db1 = md_schema db \<and> md_rows db1 = Some (recorded db) \<and>
       scan_migration_files lib dir = Inr (files_of lib dir) \<and>
       for_each (apply_migration lib) (limited limit (pending_of db (files_of lib dir))) db1 = (r, db'))"
proof -
  obtain r1 db1 where e: "ensure_migration_table lib db = (r1, db1)" by (cases "ensure_migration_table lib db")
  obtain r2 db2 where p: "get_pending_migrations lib dir db1 = (r2, db2)" by (cases "get_pending_migrations lib dir db1")
  have db1: "md_schema db1 = md_schema db" "recorded db1 = recorded db" "r1 = Inr () \<longrightarrow> md_rows db1 = Some (recorded db)"
    using ensured [OF e] by auto
  have t: "tables db2 = tables db1" using p by (cases r2) (auto dest: pending_Inl pending_Inr)
  then have db2: "md_schema db2 = md_schema db1" "md_rows db2 = md_rows db1" "recorded db2 = recorded db1"
    by (simp_all add: tables_def recorded_def)
  show ?thesis
  proof (cases "connect_db lib")
    case (Inl err)
    with assms have "r = Inl err" "db' = db" by (simp_all add: migrate_up_def prepared_def and_then_def give_def)
    then show ?thesis by simp
  next
    case connected: (Inr u)
    show ?thesis
    proof (cases r1)
      case (Inl err)
      with assms e connected have "r = Inl err" "db' = db1" by (simp_all add: migrate_up_def prepared_def and_then_def give_def)
      with db1 show ?thesis by simp
    next
      case ready: (Inr u1)
      show ?thesis
      proof (cases r2)
        case (Inl err)
        with assms e p connected ready have "r = Inl err" "db' = db2"
          by (simp_all add: migrate_up_def prepared_def and_then_def give_def)
        with db1 db2 show ?thesis by simp
      next
        case (Inr pending)
        with pending_Inr [of lib dir db1 pending db2] p
        have "scan_migration_files lib dir = Inr (files_of lib dir)" "pending = pending_of db1 (files_of lib dir)" by auto
        moreover have "pending_of db1 (files_of lib dir) = pending_of db (files_of lib dir)"
          using db1 by (simp add: pending_of_def)
        ultimately show ?thesis using assms e p connected ready db1 db2 Inr
          by (intro disjI2 exI [of _ db2]) (simp add: migrate_up_def prepared_def and_then_def give_def limited_def)
      qed
    qed
  qed
qed


lemma files_sorted: "sorted (map mi_version (files_of lib dir))"
  by (auto simp: files_of_def scan_migration_files_def split: directory.splits sum.splits)

lemma sorted_map_filter: "sorted (map f xs) \<Longrightarrow> sorted (map f (filter P xs))"
  by (simp add: sorted_filter)

lemma limited_sorted: "sorted (map mi_version (limited limit (pending_of db (files_of lib dir))))"
  using sorted_map_filter [OF files_sorted, of "\<lambda>m. mi_version m \<notin> fst ` set (recorded db)" lib dir]
  by (auto simp: limited_def pending_of_def take_map [symmetric] sorted_wrt_take split: option.splits)

lemma up_prefix:
  assumes "migrate_up lib dir limit db = (r, db')"
  shows "(\<exists>k \<le> length (limited limit (pending_of db (files_of lib dir))).
      executed lib (take k (limited limit (pending_of db (files_of lib dir)))) (md_schema db) = Some (md_schema db') \<and>
      recorded db' = recorded db @ map row_of (take k (limited limit (pending_of db (files_of lib dir)))) \<and>
      (r = Inr () \<longrightarrow> k = length (limited limit (pending_of db (files_of lib dir))))) \<and>
      (distinct (map fst (recorded db)) \<longrightarrow> distinct (map fst (recorded db')))"
  using up_cases [OF assms]
proof (elim disjE exE conjE)
  fix e assume "r = Inl e" "md_schema db' = md_schema db" "recorded db' = recorded db"
  then show ?thesis by (intro conjI exI [of _ 0]) simp_all
next
  fix db1
  assume db1: "md_schema db1 = md_schema db" "md_rows db1 = Some (recorded db)"
    and run: "for_each (apply_migration lib) (limited limit (pending_of db (files_of lib dir))) db1 = (r, db')"
  have "recorded db1 = recorded db" using db1 by (simp add: recorded_def)
  then show ?thesis using applies_prefix [OF run] db1 by auto
qed

section \<open>What is applied\<close>

text \<open>
  C11: However a run of the migrations ends, a failing script or a lost statement included, the
  scripts that took effect are a prefix of those that were to be applied, in the order of their
  versions, the tracking table records exactly that prefix behind what it recorded before, and its
  versions stay distinct. When the run succeeds the prefix is everything, and without a limit
  another run changes nothing.
\<close>

theorem up_applies_a_prefix:
  assumes "migrate_up lib dir limit db = (r, db')" and "todo = limited limit (pending_of db (files_of lib dir))"
  shows "(\<exists>k \<le> length todo. executed lib (take k todo) (md_schema db) = Some (md_schema db') \<and>
      recorded db' = recorded db @ map row_of (take k todo) \<and> (r = Inr () \<longrightarrow> k = length todo)) \<and>
    sorted (map mi_version todo) \<and>
    (distinct (map fst (recorded db)) \<longrightarrow> distinct (map fst (recorded db'))) \<and>
    (r = Inr () \<and> limit = None \<longrightarrow> (\<forall>again r2 db2. migrate_up lib dir again db' = (r2, db2) \<longrightarrow>
       md_schema db2 = md_schema db' \<and> recorded db2 = recorded db'))"
proof -
  have again: "md_schema db2 = md_schema db' \<and> recorded db2 = recorded db'"
    if "r = Inr ()" "limit = None" "migrate_up lib dir again db' = (r2, db2)" for again r2 db2
  proof -
    have "recorded db' = recorded db @ map row_of (pending_of db (files_of lib dir))"
      using up_prefix [OF assms(1)] that(1,2) by (auto simp: limited_def)
    then have "fst ` set (recorded db') =
        fst ` set (recorded db) \<union> mi_version ` set (pending_of db (files_of lib dir))"
      by (simp add: image_Un image_image row_of_def)
    then have "pending_of db' (files_of lib dir) = []"
      by (auto simp: pending_of_def filter_empty_conv)
    with up_prefix [OF that(3)] show ?thesis by (auto simp: limited_def split: option.splits)
  qed
  show ?thesis
    using up_prefix [OF assms(1)] limited_sorted [of limit db lib dir] again unfolding assms(2)
    by (intro conjI impI allI) (auto simp del: One_nat_def)
qed

section \<open>Undoing\<close>

definition reliable :: "'d migrate_libs \<Rightarrow> bool" where
  "reliable lib \<longleftrightarrow> connect_db lib = Inr () \<and> (\<forall>n. mg_lost lib n = None)"

lemma statement_reliable:
  "reliable lib \<Longrightarrow> statement lib run db =
     (case run (db\<lparr>md_sent := Suc (md_sent db)\<rparr>) of
        Inl err \<Rightarrow> (Inl (Fails err), db\<lparr>md_sent := Suc (md_sent db)\<rparr>) | Inr (x, db2) \<Rightarrow> (Inr x, db2))"
  by (simp add: statement_def reliable_def Let_def)

lemmas reliable_steps = transaction_def script_def on_rows_def statement_reliable and_then_def tables_def

lemma rollback_reliable:
  "reliable lib \<Longrightarrow> md_rows db = Some rows \<Longrightarrow> mg_exec lib (mi_down_sql m) (md_schema db) = Inr d \<Longrightarrow>
     \<exists>db'. rollback_migration lib m db = (Inr (), db') \<and>
       tables db' = (d, Some (filter (\<lambda>r. fst r \<noteq> mi_version m) rows))"
  by (simp add: rollback_migration_def delete_version_def reliable_steps)

lemma apply_reliable:
  "reliable lib \<Longrightarrow> md_rows db = Some rows \<Longrightarrow> mg_exec lib (mi_up_sql m) (md_schema db) = Inr d \<Longrightarrow>
     mi_version m \<notin> fst ` set rows \<Longrightarrow>
     \<exists>db'. apply_migration lib m db = (Inr (), db') \<and> tables db' = (d, Some (rows @ [row_of m]))"
  by (simp add: apply_migration_def insert_version_def reliable_steps row_of_def)

lemma ensure_reliable:
  "reliable lib \<Longrightarrow> \<exists>db'. ensure_migration_table lib db = (Inr (), db') \<and> tables db' = (md_schema db, Some (recorded db))"
  by (simp add: ensure_migration_table_def reliable_steps recorded_def split: option.splits)

lemma select_reliable:
  "reliable lib \<Longrightarrow> md_rows db = Some rows \<Longrightarrow>
     \<exists>db'. select_versions lib db = (Inr (map fst rows), db') \<and> tables db' = tables db"
  by (simp add: select_versions_def reliable_steps)

lemma executed_append:
  "executed lib (ms @ ns) d = Option.bind (executed lib ms d) (executed lib ns)"
  by (induction ms arbitrary: d) (auto split: sum.splits)

lemma rolls_back:
  assumes "reliable lib" and "md_rows db = Some (rows @ map row_of ms)" and "executed lib ms d = Some (md_schema db)"
    and "distinct (map fst rows @ map mi_version ms)"
    and "\<And>m s s'. m \<in> set ms \<Longrightarrow> mg_exec lib (mi_up_sql m) s = Inr s' \<Longrightarrow> mg_exec lib (mi_down_sql m) s' = Inr s"
  shows "\<exists>db'. for_each (rollback_migration lib) (rev ms) db = (Inr (), db') \<and> tables db' = (d, Some rows)"
  using assms(2-5)
proof (induction ms arbitrary: db rule: rev_induct)
  case Nil
  then show ?case by (simp add: give_def tables_def)
next
  case (snoc m ms)
  obtain s where s: "executed lib ms d = Some s" "mg_exec lib (mi_up_sql m) s = Inr (md_schema db)"
    using snoc.prems(2)
    by (cases "executed lib ms d"; cases "mg_exec lib (mi_up_sql m) (the (executed lib ms d))") (auto simp: executed_append)
  then have "mg_exec lib (mi_down_sql m) (md_schema db) = Inr s" using snoc.prems(4) by simp
  with rollback_reliable [OF assms(1) snoc.prems(1) this] obtain db1 where db1:
    "rollback_migration lib m db = (Inr (), db1)"
    "tables db1 = (s, Some (filter (\<lambda>r. fst r \<noteq> mi_version m) (rows @ map row_of (ms @ [m]))))" by blast
  have "filter (\<lambda>r. fst r \<noteq> mi_version m) (rows @ map row_of (ms @ [m])) = rows @ map row_of ms"
  proof -
    have "mi_version m \<notin> fst ` set rows \<union> mi_version ` set ms" using snoc.prems(3) by auto
    then have "filter (\<lambda>r. fst r \<noteq> mi_version m) rows = rows"
      "filter (\<lambda>r. fst r \<noteq> mi_version m) (map row_of ms) = map row_of ms"
      by (auto simp: filter_id_conv row_of_def image_iff)
    then show ?thesis by (simp add: row_of_def)
  qed
  with db1 have rows: "md_rows db1 = Some (rows @ map row_of ms)" "md_schema db1 = s" by (simp_all add: tables_def)
  have "\<exists>db'. for_each (rollback_migration lib) (rev ms) db1 = (Inr (), db') \<and> tables db' = (d, Some rows)"
    using snoc.IH [OF rows(1)] s(1) rows(2) snoc.prems(3,4) by simp
  with db1(1) show ?case by (simp add: and_then_def)
qed

text \<open>Of files with distinct versions, those that were applied last are rolled back first.\<close>

lemma sorted_split:
  assumes "sorted (map f (xs :: 'a list))" and "distinct (map f xs)" and "\<forall>x \<in> set xs. \<forall>y \<in> set xs. P x \<and> \<not> P y \<longrightarrow> f x < f y"
  shows "xs = filter P xs @ filter (\<lambda>x. \<not> P x) xs"
  using assms
proof (induction xs)
  case (Cons x xs)
  show ?case
  proof (cases "P x")
    case True
    with Cons show ?thesis by simp
  next
    case False
    have "\<not> P y" if "y \<in> set xs" for y using False that Cons.prems by (auto dest: leD)
    with False show ?thesis by (simp add: filter_empty_conv)
  qed
qed simp

lemma sort_descending_sorted:
  assumes "sorted (map mi_version ms)" and "distinct (map mi_version ms)"
  shows "sort_descending ms = rev ms"
proof -
  have "sort_key mi_version (rev ms) = ms"
    by (rule sort_key_inj_key_eq) (use assms in \<open>simp_all add: distinct_map\<close>)
  then show ?thesis by (simp add: sort_descending_def)
qed

lemma applied_files:
  assumes "distinct (map mi_version all)" and "sorted (map mi_version all)"
    and "todo = limited limit (pending_of db all)"
    and "\<forall>r \<in> set (recorded db). \<forall>m \<in> set (pending_of db all). fst r < mi_version m"
    and "versions = map fst (recorded db @ map row_of todo)"
  shows "\<exists>old. filter (\<lambda>m. mi_version m \<in> set versions) all = old @ todo"
proof -
  let ?Q = "\<lambda>m. mi_version m \<in> fst ` set (recorded db)" and ?P = "\<lambda>m. mi_version m \<in> set versions"
  let ?pending = "filter (\<lambda>m. \<not> ?Q m) all"
  have pending: "pending_of db all = ?pending" by (simp add: pending_of_def)
  have all: "all = filter ?Q all @ ?pending"
    by (rule sorted_split [OF assms(2,1)]) (use assms(4) in \<open>auto simp: pending\<close>)
  have versions: "set versions = fst ` set (recorded db) \<union> mi_version ` set todo"
    using assms(5) by (simp add: image_Un image_image row_of_def)
  obtain rest where rest: "?pending = todo @ rest"
    using assms(3) unfolding pending limited_def
    by (cases limit) (auto intro: append_take_drop_id [symmetric])
  have "distinct (map mi_version ?pending)" using assms(1) by (simp add: distinct_map_filter)
  with rest have "mi_version ` set todo \<inter> mi_version ` set rest = {}" by (metis distinct_append map_append set_map)
  moreover have "\<not> ?Q m" if "m \<in> set (todo @ rest)" for m using that unfolding rest [symmetric] by simp
  ultimately have "filter ?P rest = []" unfolding filter_empty_conv versions by (metis UnE Un_iff disjoint_iff imageI set_append)
  moreover have "filter ?P todo = todo" by (simp add: filter_id_conv versions)
  ultimately have "filter ?P all = filter ?P (filter ?Q all) @ todo" by (subst all) (simp only: rest filter_append append_Nil2)
  then show ?thesis by blast
qed

lemma up_reliable_record:
  assumes "migrate_up lib dir limit db = (Inr (), db')" and "todo = limited limit (pending_of db (files_of lib dir))"
  shows "executed lib todo (md_schema db) = Some (md_schema db')" and "recorded db' = recorded db @ map row_of todo"
  using up_prefix [OF assms(1)] assms(2) by auto

text \<open>
  C12: Rolling back as many migrations as a run has applied restores the database: with distinct
  versions that are all above those already recorded, and down scripts that undo what their up
  scripts do, the run's successor has the schema and the tracking table from before the run. Without
  the condition on the versions it need not: the rollback picks by version, not by what was applied
  last.
\<close>

theorem down_undoes_up:
  assumes "reliable lib" and "scan_migration_files lib dir = Inr all" and "distinct (map mi_version all)"
    and "distinct (map fst (recorded db))"
    and "\<forall>r \<in> set (recorded db). \<forall>m \<in> set (pending_of db all). fst r < mi_version m"
    and "\<forall>m \<in> set all. \<forall>s s'. mg_exec lib (mi_up_sql m) s = Inr s' \<longrightarrow> mg_exec lib (mi_down_sql m) s' = Inr s"
    and "migrate_up lib dir limit db = (Inr (), db1)"
  shows "\<exists>db2. migrate_down lib dir (length (limited limit (pending_of db all))) db1 = (Inr (), db2) \<and>
    md_schema db2 = md_schema db \<and> md_rows db2 = Some (recorded db)"
proof -
  define todo where "todo = limited limit (pending_of db all)"
  have all: "files_of lib dir = all" using assms(2) by (simp add: files_of_def)
  have up: "executed lib todo (md_schema db) = Some (md_schema db1)" "recorded db1 = recorded db @ map row_of todo"
    using up_reliable_record [OF assms(7), of todo] by (simp_all add: all todo_def)
  obtain dba where dba: "ensure_migration_table lib db1 = (Inr (), dba)" "tables dba = (md_schema db1, Some (recorded db1))"
    using ensure_reliable [OF assms(1)] by blast
  obtain dbb where dbb: "select_versions lib dba = (Inr (map fst (recorded db1)), dbb)" "tables dbb = tables dba"
    using select_reliable [OF assms(1), of dba "recorded db1"] dba(2) by (auto simp: tables_def)
  let ?P = "\<lambda>m. mi_version m \<in> set (map fst (recorded db1))"
  have sorted: "sorted (map mi_version all)" using files_sorted [of lib dir] by (simp add: all)
  obtain old where old: "filter ?P all = old @ todo"
    using applied_files [OF assms(3) sorted todo_def assms(5), of "map fst (recorded db1)"] up(2) by auto
  have "sort_descending (filter ?P all) = rev (filter ?P all)"
    by (rule sort_descending_sorted) (use sorted assms(3) in \<open>simp_all add: sorted_map_filter distinct_map_filter\<close>)
  then have "sort_descending (filter ?P all) = rev todo @ rev old" unfolding old by simp
  then have applied: "take (length todo) (sort_descending (filter ?P all)) = rev todo" by (simp del: set_map)
  have rows: "md_rows dbb = Some (recorded db @ map row_of todo)" "executed lib todo (md_schema db) = Some (md_schema dbb)"
    using dba(2) dbb(2) up by (simp_all add: tables_def)
  have "distinct (map fst (recorded db1))" using up_prefix [OF assms(7)] assms(4) by (blast dest: conjunct2)
  moreover have "map fst (recorded db1) = map fst (recorded db) @ map mi_version todo"
    unfolding up(2) by (simp add: row_of_def)
  ultimately have distinct: "distinct (map fst (recorded db) @ map mi_version todo)" by (simp only:)
  have "set todo \<subseteq> set all" by (auto simp: todo_def limited_def pending_of_def dest!: in_set_takeD split: option.splits)
  then have undone: "mg_exec lib (mi_down_sql m) s' = Inr s" if "m \<in> set todo" "mg_exec lib (mi_up_sql m) s = Inr s'" for m s s'
    using assms(6) that by blast
  obtain db2 where db2: "for_each (rollback_migration lib) (rev todo) dbb = (Inr (), db2)" "tables db2 = (md_schema db, Some (recorded db))"
    using rolls_back [OF assms(1) rows distinct undone] by blast
  have "migrate_down lib dir (length todo) db1 = (Inr (), db2)"
    using assms(1,2) dba(1) dbb(1) db2(1) applied
    by (simp add: migrate_down_def prepared_def get_applied_migrations_def and_then_def give_def reliable_def)
  with db2(2) show ?thesis by (auto simp: tables_def todo_def)
qed

section \<open>Two files of one version\<close>

lemma for_each_append:
  "for_each f (ms @ ns) db =
     (case for_each f ms db of (Inl e, db1) \<Rightarrow> (Inl e, db1) | (Inr _, db1) \<Rightarrow> for_each f ns db1)"
  by (induction ms arbitrary: db) (auto simp: give_def and_then_def split: prod.splits sum.splits)

lemma applies_all:
  assumes "reliable lib"
  shows "md_rows db = Some rows \<Longrightarrow> executed lib ms (md_schema db) = Some d \<Longrightarrow>
    distinct (map mi_version ms) \<Longrightarrow> fst ` set rows \<inter> mi_version ` set ms = {} \<Longrightarrow>
    \<exists>db'. for_each (apply_migration lib) ms db = (Inr (), db') \<and> tables db' = (d, Some (rows @ map row_of ms))"
proof (induction ms arbitrary: db rows)
  case (Cons m ms)
  obtain s where s: "mg_exec lib (mi_up_sql m) (md_schema db) = Inr s" "executed lib ms s = Some d"
    using Cons.prems(2) by (auto split: sum.split_asm)
  have "mi_version m \<notin> fst ` set rows" using Cons.prems(4) by auto
  from apply_reliable [OF assms Cons.prems(1) s(1) this] obtain db1 where db1:
    "apply_migration lib m db = (Inr (), db1)" "md_schema db1 = s" "md_rows db1 = Some (rows @ [row_of m])"
    by (auto simp: tables_def)
  have "fst ` set (rows @ [row_of m]) \<inter> mi_version ` set ms = {}"
    using Cons.prems(3,4) by (auto simp: row_of_def)
  with Cons.IH [OF db1(3), unfolded db1(2), OF s(2)] Cons.prems(3) db1(1) show ?case by (simp add: and_then_def)
qed (simp add: give_def tables_def)

lemma apply_taken:
  assumes "reliable lib" and "md_rows db = Some rows" and "mi_version m \<in> fst ` set rows"
  shows "\<exists>e db'. apply_migration lib m db = (Inl e, db') \<and> tables db' = tables db"
proof -
  obtain r db' where step: "apply_migration lib m db = (r, db')" by (cases "apply_migration lib m db")
  show ?thesis
  proof (cases r)
    case (Inl e)
    with step show ?thesis by (auto simp: apply_migration_def dest: transaction_Inl)
  next
    case (Inr u)
    with step have "apply_migration lib m db = (Inr (), db')" by simp
    then show ?thesis by (rule apply_Inr) (use assms(2,3) in simp)
  qed
qed

lemma up_reliable:
  assumes "reliable lib" and "scan_migration_files lib dir = Inr all"
  obtains db1 where "tables db1 = (md_schema db, Some (recorded db))"
    and "migrate_up lib dir limit db = for_each (apply_migration lib) (limited limit (pending_of db all)) db1"
proof -
  obtain dba where dba: "ensure_migration_table lib db = (Inr (), dba)" "tables dba = (md_schema db, Some (recorded db))"
    using ensure_reliable [OF assms(1)] by blast
  obtain dbb where dbb: "select_versions lib dba = (Inr (map fst (recorded db)), dbb)" "tables dbb = tables dba"
    using select_reliable [OF assms(1), of dba "recorded db"] dba(2) by (auto simp: tables_def)
  show ?thesis
  proof (rule that)
    show "tables dbb = (md_schema db, Some (recorded db))" using dba(2) dbb(2) by simp
    show "migrate_up lib dir limit db = for_each (apply_migration lib) (limited limit (pending_of db all)) dbb"
      using assms dba(1) dbb(1)
      by (simp add: migrate_up_def prepared_def get_pending_migrations_def and_then_def give_def reliable_def
          limited_def pending_of_def)
  qed
qed

text \<open>
  Of two files with the same version only the first is ever applied: the run that comes to the
  second fails there, with everything before it applied, and from then on the second file counts as
  applied although its script has never taken effect: it is no longer pending, and the status shows
  its version as applied.
\<close>

theorem same_version_is_skipped:
  assumes "reliable lib" and "scan_migration_files lib dir = Inr all"
    and "pending_of db all = ms @ m # m' # rest" and "mi_version m' = mi_version m"
    and "distinct (map mi_version (ms @ [m]))" and "executed lib (ms @ [m]) (md_schema db) = Some d"
  shows "\<exists>e db1. migrate_up lib dir None db = (Inl e, db1) \<and> md_schema db1 = d \<and>
    recorded db1 = recorded db @ map row_of (ms @ [m]) \<and> m' \<notin> set (pending_of db1 all) \<and>
    (\<exists>shown db2. migration_status lib dir db1 = (Inr shown, db2) \<and>
       status_line (mi_version m') (mi_name m') (tick_mark @ '' Applied'') \<in> set shown)"
proof -
  obtain dba where dba: "tables dba = (md_schema db, Some (recorded db))"
    "migrate_up lib dir None db = for_each (apply_migration lib) ((ms @ [m]) @ m' # rest) dba"
    using up_reliable [OF assms(1,2), of db None] assms(3) by (auto simp: limited_def)
  have pending: "x \<in> set (pending_of db all) \<Longrightarrow> mi_version x \<notin> fst ` set (recorded db)" for x
    by (simp add: pending_of_def)
  have "fst ` set (recorded db) \<inter> mi_version ` set (ms @ [m]) = {}"
  proof -
    have "mi_version x \<notin> fst ` set (recorded db)" if "x \<in> set (ms @ [m])" for x
      using pending [of x] that by (simp add: assms(3)) blast
    then show ?thesis unfolding disjoint_iff by (metis imageE)
  qed
  then obtain dbb where dbb: "for_each (apply_migration lib) (ms @ [m]) dba = (Inr (), dbb)"
    "tables dbb = (d, Some (recorded db @ map row_of (ms @ [m])))"
    using applies_all [OF assms(1) _ _ assms(5), of dba "recorded db" d] dba(1) assms(6) by (auto simp: tables_def)
  have rows: "md_rows dbb = Some (recorded db @ map row_of (ms @ [m]))" using dbb(2) by (simp add: tables_def)
  have "mi_version m' \<in> fst ` set (recorded db @ map row_of (ms @ [m]))" by (simp add: assms(4) row_of_def)
  from apply_taken [OF assms(1) rows this] obtain e db1 where db1: "apply_migration lib m' dbb = (Inl e, db1)" "tables db1 = tables dbb"
    by blast
  have up: "migrate_up lib dir None db = (Inl e, db1)"
    unfolding dba(2) by (subst for_each_append) (simp only: dbb(1) for_each.simps and_then_def db1(1) prod.case sum.case)
  have after: "md_schema db1 = d" "recorded db1 = recorded db @ map row_of (ms @ [m])" "md_rows db1 = Some (recorded db1)"
    using db1(2) dbb(2) by (simp_all add: tables_def recorded_def)
  have taken: "mi_version m' \<in> fst ` set (recorded db1)" by (simp add: after(2) assms(4) row_of_def)
  obtain dbc where dbc: "ensure_migration_table lib db1 = (Inr (), dbc)" "tables dbc = (md_schema db1, Some (recorded db1))"
    using ensure_reliable [OF assms(1)] by blast
  obtain dbd where dbd: "select_versions lib dbc = (Inr (map fst (recorded db1)), dbd)"
    using select_reliable [OF assms(1), of dbc "recorded db1"] dbc(2) by (auto simp: tables_def)
  have "m' \<in> set (pending_of db all)" by (simp add: assms(3))
  then have "m' \<in> set all" by (simp add: pending_of_def)
  then have "\<exists>shown db2. migration_status lib dir db1 = (Inr shown, db2) \<and>
       status_line (mi_version m') (mi_name m') (tick_mark @ '' Applied'') \<in> set shown"
    using assms(1,2) dbc(1) dbd taken
    by (auto simp: migration_status_def prepared_def and_then_def give_def reliable_def intro!: rev_image_eqI)
  moreover have "m' \<notin> set (pending_of db1 all)" using taken by (simp add: pending_of_def)
  ultimately show ?thesis using up after by blast
qed

section \<open>Reading a file\<close>

text \<open>Markers that share their dashes are in order, and the slice between them ends before it begins.\<close>

lemma overlapping_markers_panic:
  assumes "mg_upper lib ''-- UP -- DOWN --'' = ''-- UP -- DOWN --''"
  shows "parse_migration_content lib ''-- UP -- DOWN --'' = Inl Panics"
proof -
  have "find_sub up_marker ''-- UP -- DOWN --'' = Some 0" "find_sub down_marker ''-- UP -- DOWN --'' = Some 6"
    by code_simp+
  then show ?thesis by (simp add: parse_migration_content_def assms slice_str_def up_marker_def down_marker_def)
qed

text \<open>
  A Turkish dotless i before the markers is two bytes long and its upper case one, so the offsets that
  were found in the upper-cased text point one byte before the markers' ends in the file.
\<close>

definition turkish_file :: string where
  "turkish_file = [CHR 0xC4, CHR 0xB1] @ ''-- UP -- SELECT 1 -- DOWN -- SELECT 2''"

lemma shifted_by_upper_case:
  assumes "mg_upper lib turkish_file = ''I'' @ ''-- UP -- SELECT 1 -- DOWN -- SELECT 2''"
  shows "parse_migration_content lib turkish_file = Inr (''- SELECT 1'', ''- SELECT 2'')"
proof -
  have "find_sub up_marker (''I'' @ ''-- UP -- SELECT 1 -- DOWN -- SELECT 2'') = Some 1"
    "find_sub down_marker (''I'' @ ''-- UP -- SELECT 1 -- DOWN -- SELECT 2'') = Some 19"
    by code_simp+
  moreover have "slice_str turkish_file 9 19 = Inr ''- SELECT 1''" "slice_str turkish_file 29 39 = Inr ''- SELECT 2''"
    "trim ''- SELECT 1'' = ''- SELECT 1''" "trim ''- SELECT 2'' = ''- SELECT 2''" "length turkish_file = 39"
    "1 + length up_marker = 9" "19 + length down_marker = 29"
    by code_simp+
  ultimately show ?thesis by (simp add: parse_migration_content_def assms del: find_sub.simps One_nat_def append_Cons)
qed

section \<open>Instances\<close>

text \<open>
  A database of table names, where \<^verbatim>\<open>+t\<close> creates a table and \<^verbatim>\<open>-t\<close> drops the one that
  was created last.
\<close>

definition sample_exec :: "string \<Rightarrow> string list \<Rightarrow> string + string list" where
  "sample_exec sql d =
     (case sql of
        c # t \<Rightarrow>
          if c = CHR ''+'' then (if t \<in> set d then Inl ''exists'' else Inr (t # d))
          else (case d of t' # d' \<Rightarrow> if t' = t then Inr d' else Inl ''other'' | [] \<Rightarrow> Inl ''none'')
      | [] \<Rightarrow> Inr d)"

definition sample_libs :: "string list migrate_libs" where
  "sample_libs = \<lparr> mg_upper = (\<lambda>s. s), mg_lower = (\<lambda>s. s), mg_all_numeric = list_all is_ascii_digit,
     mg_exec = sample_exec, mg_lost = (\<lambda>_. None), mg_sql_error = (\<lambda>s. s),
     mg_env = (\<lambda>k. if k = ''WP_PG_DATABASE'' then Some ''app'' else None), mg_quote = (\<lambda>s. s), mg_connect = (\<lambda>_. None) \<rparr>"

definition sample_file :: "string \<Rightarrow> string \<Rightarrow> string + dir_entry" where
  "sample_file filename t = Inr \<lparr> en_name = filename, en_is_file = True,
     en_content = Inr (up_marker @ ''+'' @ t @ down_marker @ ''-'' @ t) \<rparr>"

definition sample_migration :: "string \<Rightarrow> string \<Rightarrow> migration" where
  "sample_migration version t = \<lparr> mi_version = version, mi_name = t, mi_filename = version @ ''_'' @ t @ ''.sql'',
     mi_up_sql = CHR ''+'' # t, mi_down_sql = CHR ''-'' # t \<rparr>"

definition sample_dir :: directory where
  "sample_dir = Entries [sample_file ''20240102000000_b.sql'' ''b'', sample_file ''20240101000000_a.sql'' ''a'',
     sample_file ''notes.sql'' ''x'']"

definition clash_dir :: directory where
  "clash_dir = Entries [sample_file ''20240101000000_a.sql'' ''a'', sample_file ''20240101000000_b.sql'' ''b'']"

definition sample_start :: "string list migration_db" where
  "sample_start = \<lparr> md_schema = [''u''], md_rows = None, md_sent = 0 \<rparr>"

lemma sample_scan:
  "scan_migration_files sample_libs sample_dir =
     Inr [sample_migration ''20240101000000'' ''a'', sample_migration ''20240102000000'' ''b'']"
  by code_simp

lemma clash_scan:
  "scan_migration_files sample_libs clash_dir =
     Inr [sample_migration ''20240101000000'' ''a'', sample_migration ''20240101000000'' ''b'']"
  by code_simp

lemma sample_reliable: "reliable sample_libs"
  unfolding reliable_def by (intro conjI allI) (code_simp, simp add: sample_libs_def)

lemma sample_start_recorded: "recorded sample_start = []"
  by (simp add: recorded_def sample_start_def)

lemma sample_undo: "sample_exec (CHR ''+'' # t) s = Inr s' \<Longrightarrow> sample_exec (CHR ''-'' # t) s' = Inr s"
  by (auto simp: sample_exec_def split: if_splits)

lemma sample_up:
  "migrate_up sample_libs sample_dir None sample_start =
     (Inr (), \<lparr> md_schema = [''b'', ''a'', ''u''],
        md_rows = Some [(''20240101000000'', ''a''), (''20240102000000'', ''b'')], md_sent = 11 \<rparr>)"
  by code_simp

theorem up_applies_a_prefix_witness:
  "recorded (snd (migrate_up sample_libs sample_dir None sample_start)) =
     [(''20240101000000'', ''a''), (''20240102000000'', ''b'')] \<and>
   (\<forall>again. recorded (snd (migrate_up sample_libs sample_dir again (snd (migrate_up sample_libs sample_dir None sample_start)))) =
     [(''20240101000000'', ''a''), (''20240102000000'', ''b'')])"
proof -
  note up = up_applies_a_prefix [OF sample_up refl]
  have "recorded (snd (migrate_up sample_libs sample_dir None sample_start)) =
     [(''20240101000000'', ''a''), (''20240102000000'', ''b'')]"
    by (simp add: sample_up recorded_def)
  with up show ?thesis unfolding sample_up by (metis prod.collapse snd_conv)
qed

theorem down_undoes_up_witness:
  "\<exists>db2. migrate_down sample_libs sample_dir 2 (snd (migrate_up sample_libs sample_dir None sample_start)) = (Inr (), db2) \<and>
     md_schema db2 = [''u''] \<and> md_rows db2 = Some []"
proof -
  let ?all = "[sample_migration ''20240101000000'' ''a'', sample_migration ''20240102000000'' ''b'']"
  have pending: "pending_of sample_start ?all = ?all" by (simp add: pending_of_def sample_start_recorded)
  have undo: "\<forall>m \<in> set ?all. \<forall>s s'. mg_exec sample_libs (mi_up_sql m) s = Inr s' \<longrightarrow> mg_exec sample_libs (mi_down_sql m) s' = Inr s"
    by (auto simp: sample_migration_def sample_libs_def dest: sample_undo)
  have "distinct (map mi_version ?all)" by (simp add: sample_migration_def)
  from down_undoes_up [OF sample_reliable sample_scan this _ _ undo sample_up]
  show ?thesis unfolding sample_up
    by (simp add: pending sample_start_recorded limited_def) (simp add: sample_start_def eval_nat_numeral)
qed

theorem same_version_is_skipped_witness:
  "\<exists>e db1. migrate_up sample_libs clash_dir None sample_start = (Inl e, db1) \<and> md_schema db1 = [''a'', ''u''] \<and>
     recorded db1 = [(''20240101000000'', ''a'')]"
proof -
  let ?m = "sample_migration ''20240101000000'' ''a''" and ?m' = "sample_migration ''20240101000000'' ''b''"
  have pending: "pending_of sample_start [?m, ?m'] = [] @ ?m # ?m' # []" by (simp add: pending_of_def sample_start_recorded)
  have "executed sample_libs ([] @ [?m]) (md_schema sample_start) = Some [''a'', ''u'']" by code_simp
  from same_version_is_skipped [OF sample_reliable clash_scan pending _ _ this]
  show ?thesis by (auto simp: sample_start_recorded row_of_def sample_migration_def)
qed

end
