(* ===== verification/Graphql.thy ===== *)
theory Graphql
  imports Executor
begin

text \<open>
  GraphQL (\<^verbatim>\<open>src/graphql/mod.rs\<close>, \<^verbatim>\<open>src/graphql/loader.rs\<close>,
  \<^verbatim>\<open>src/middleware/graphql.rs\<close>): which pipeline resolves a field, what it is run on, how keys
  of one batch are loaded, and the middleware that runs a query. The \<^verbatim>\<open>async-graphql\<close>
  library, which parses the schema, walks a query and collects the keys of a batch, is a parameter;
  its values are JSON values here. \<^const>\<open>None\<close> is a run that does not return within its fuel.
\<close>

section \<open>The schema\<close>

datatype 't gql_base = GqlNamed string | GqlList 't

datatype gql_type = GqlType "gql_type gql_base" bool

datatype type_ref = RefNamed string | RefList type_ref | RefNonNull type_ref

text \<open>The five built-in types keep their names; the flag of a type says that it is nullable.\<close>

fun convert_type :: "gql_type \<Rightarrow> type_ref" where
  "convert_type (GqlType (GqlNamed name) nullable) =
     (let t = RefNamed name in if \<not> nullable then RefNonNull t else t)"
| "convert_type (GqlType (GqlList inner) nullable) =
     (let inner_ref = convert_type inner; t = RefList inner_ref in if \<not> nullable then RefNonNull t else t)"

record field_def =
  fd_name :: string
  fd_type :: gql_type
  fd_arguments :: "(string \<times> gql_type) list"

datatype type_definition = ObjectType string "field_def list" | OtherType string

text \<open>Only object types are registered.\<close>

definition schema_objects ::
  "type_definition list \<Rightarrow> (string \<times> (string \<times> type_ref \<times> (string \<times> type_ref) list) list) list" where
  "schema_objects doc =
     concat (map (\<lambda>d. case d of
         ObjectType name fs \<Rightarrow>
           [(name, map (\<lambda>f. (fd_name f, convert_type (fd_type f),
                             map (\<lambda>(n, t). (n, convert_type t)) (fd_arguments f))) fs)]
       | OtherType name \<Rightarrow> []) doc)"

definition mutation_type :: "program \<Rightarrow> string option" where
  "mutation_type prog = (if pr_mutations prog = [] then None else Some ''Mutation'')"

section \<open>Which pipeline resolves a field\<close>

definition field_key :: "string \<Rightarrow> string \<Rightarrow> string" where
  "field_key type_name field_name = type_name @ ''.'' @ field_name"

definition pipeline_registry :: "program \<Rightarrow> string \<rightharpoonup> pipeline" where
  "pipeline_registry prog =
     map_of (rev
       (map (\<lambda>q. (field_key ''Query'' (qr_name q), qr_pipeline q)) (pr_queries prog) @
        map (\<lambda>q. (field_key ''Mutation'' (mr_name q), mr_pipeline q)) (pr_mutations prog) @
        map (\<lambda>r. (field_key (tr_type_name r) (tr_field_name r), tr_pipeline r)) (pr_resolvers prog)))"

definition loader_step :: "pipeline_step \<Rightarrow> regular_step option" where
  "loader_step step = (case step of RegularStep rs \<Rightarrow> if rs_name rs = ''loader'' then Some rs else None | _ \<Rightarrow> None)"

fun find_loader :: "pipeline_step list \<Rightarrow> (nat \<times> regular_step) option" where
  "find_loader [] = None"
| "find_loader (s # ss) =
     (case loader_step s of
        Some rs \<Rightarrow> Some (0, rs)
      | None \<Rightarrow> map_option (\<lambda>(i, rs). (Suc i, rs)) (find_loader ss))"

section \<open>Loading a batch of keys\<close>

record loader_key =
  lk_pipeline_name :: string
  lk_key :: json
  lk_context :: json
  lk_module_id :: "nat option"

text \<open>Equality and hash look at the name and the key only.\<close>

definition same_key :: "loader_key \<Rightarrow> loader_key \<Rightarrow> bool" where
  "same_key a b \<longleftrightarrow> lk_pipeline_name a = lk_pipeline_name b \<and> lk_key a = lk_key b"

definition key_entry :: "loader_key \<Rightarrow> string \<times> json" where
  "key_entry k = (lk_pipeline_name k, lk_key k)"

fun add_to_group :: "loader_key \<Rightarrow> (string \<times> loader_key list) list \<Rightarrow> (string \<times> loader_key list) list" where
  "add_to_group k [] = [(lk_pipeline_name k, [k])]"
| "add_to_group k ((name, ks) # groups) =
     (if name = lk_pipeline_name k then (name, ks @ [k]) # groups else (name, ks) # add_to_group k groups)"

definition group_keys :: "loader_key list \<Rightarrow> (string \<times> loader_key list) list" where
  "group_keys keys = fold add_to_group keys []"

definition key_text :: "('l, 'r, 'w) execution_env \<Rightarrow> json \<Rightarrow> string" where
  "key_text env key = (case key of JString s \<Rightarrow> s | JBool b \<Rightarrow> show_bool b | _ \<Rightarrow> pl_to_text (env_platform env) key)"

definition batch_pipeline :: "('l, 'r, 'w) execution_env \<Rightarrow> nat option \<Rightarrow> string \<Rightarrow> pipeline option" where
  "batch_pipeline env module_id name =
     (case env_named_pipelines env (module_id, name) of
        Some p \<Rightarrow> Some p
      | None \<Rightarrow> if module_id = None then None else env_named_pipelines env (None, name))"

definition batch_input :: "loader_key list \<Rightarrow> json" where
  "batch_input entries =
     (let field = (\<lambda>name. case json_get name (lk_context (hd entries)) of None \<Rightarrow> JNull | Some v \<Rightarrow> v)
      in JObject [(''keys'', JArray (map lk_key entries)), (''args'', field ''args''), (''context'', field ''context'')])"

type_synonym load_results = "((string \<times> json) \<times> json) list"

definition group_results :: "('l, 'r, 'w) execution_env \<Rightarrow> json_map \<Rightarrow> loader_key list \<Rightarrow> load_results" where
  "group_results env result_map entries =
     map (\<lambda>k. (key_entry k, case map_of result_map (key_text env (lk_key k)) of None \<Rightarrow> JNull | Some v \<Rightarrow> v)) entries"

text \<open>One pipeline with its keys, in a frame of the profiler.\<close>

definition load_group ::
  "('l, 'r, 'w) execution_env \<Rightarrow> (json \<Rightarrow> string) \<Rightarrow> nat \<Rightarrow> string \<times> loader_key list \<Rightarrow>
   (('l, 'r, 'w) machine, load_results) ex" where
  "load_group env debug_json fuel = (\<lambda>(name, entries) m.
     case batch_pipeline env (lk_module_id (hd entries)) name of
       None \<Rightarrow> Some (Inl (PipelineNotFound name), m)
     | Some p \<Rightarrow>
         (let (start, m1) = read_clock env (update_profiler (profiler_push name) m)
          in case exec_pipeline env fuel p None (batch_input entries) m1 of
               None \<Rightarrow> None
             | Some (r, m2) \<Rightarrow>
                 (let (now, m3) = read_clock env m2;
                      m4 = update_profiler (\<lambda>pf. profiler_pop (record_sample ((now - start) div 1000) pf)) m3
                  in Some (case r of
                       Inl e \<Rightarrow> Inl e
                     | Inr (JObject result_map, _, _) \<Rightarrow> Inr (group_results env result_map entries)
                     | Inr (v, _, _) \<Rightarrow>
                         Inl (InternalError (''Loader pipeline '' @ name @ '' must return an object/map, got: '' @ debug_json v)),
                       m4))))"

text \<open>The groups in the order in which the hash map is iterated; the first failure ends the batch.\<close>

fun load_groups ::
  "('l, 'r, 'w) execution_env \<Rightarrow> (json \<Rightarrow> string) \<Rightarrow> nat \<Rightarrow> (string \<times> loader_key list) list \<Rightarrow> load_results \<Rightarrow>
   (('l, 'r, 'w) machine, load_results) ex" where
  "load_groups env debug_json fuel [] results m = Some (Inr results, m)"
| "load_groups env debug_json fuel (g # groups) results m =
     (case load_group env debug_json fuel g m of
        None \<Rightarrow> None
      | Some (Inl e, m1) \<Rightarrow> Some (Inl e, m1)
      | Some (Inr new, m1) \<Rightarrow> load_groups env debug_json fuel groups (new @ results) m1)"

definition load ::
  "('l, 'r, 'w) execution_env \<Rightarrow> (json \<Rightarrow> string) \<Rightarrow> ((string \<times> loader_key list) list \<Rightarrow> (string \<times> loader_key list) list) \<Rightarrow>
   nat \<Rightarrow> loader_key list \<Rightarrow> (('l, 'r, 'w) machine, load_results) ex" where
  "load env debug_json order fuel keys = load_groups env debug_json fuel (order (group_keys keys)) []"

section \<open>Resolving a field\<close>

record gql_call =
  gc_type_name :: string
  gc_field_name :: string
  gc_parent :: "json option"
  gc_args :: "(string \<times> json) list"
  gc_context :: json

type_synonym ('l, 'r, 'w) load_one =
  "loader_key \<Rightarrow> ('l, 'r, 'w) machine \<Rightarrow> ((web_pipe_error + json option) \<times> ('l, 'r, 'w) machine) option"

type_synonym ('l, 'r, 'w) resolution =
  "('l, 'r, 'w) machine \<Rightarrow> ((string + json option) \<times> ('l, 'r, 'w) machine) option"

definition field_value :: "json \<Rightarrow> json option" where
  "field_value v = (if v = JNull then None else Some v)"

definition args_object :: "(string \<times> json) list \<Rightarrow> json_map" where
  "args_object args = om_insert_all args []"

text \<open>Part of a pipeline, run for its value; nothing is run for no steps.\<close>

definition run_part ::
  "('l, 'r, 'w) execution_env \<Rightarrow> nat \<Rightarrow> pipeline_step list \<Rightarrow> json \<Rightarrow> ('l, 'r, 'w) machine \<Rightarrow>
   ((string + json) \<times> ('l, 'r, 'w) machine) option" where
  "run_part env fuel part v m =
     (if part = [] then Some (Inr v, m)
      else (case exec_pipeline env fuel (Pipeline part) None v m of
              None \<Rightarrow> None
            | Some (Inl e, m1) \<Rightarrow> Some (Inl (error_to_string e), m1)
            | Some (Inr (result, _, _), m1) \<Rightarrow> Some (Inr result, m1)))"

definition resolve_by_loader ::
  "('l, 'r, 'w) execution_env \<Rightarrow> nat \<Rightarrow> ('l, 'r, 'w) load_one \<Rightarrow> pipeline \<Rightarrow> nat \<Rightarrow> regular_step \<Rightarrow> gql_call \<Rightarrow>
   ('l, 'r, 'w) resolution" where
  "resolve_by_loader env fuel load_one p i rs call m =
     (if gc_type_name call \<in> {''Query'', ''Mutation''}
      then Some (Inl ''loader can only be used in type resolvers, not Query/Mutation'', m)
      else
        (case (rs_args rs, gc_parent call) of
           ([], _) \<Rightarrow> Some (Inl ''loader requires a key expression'', m)
         | (key_expr # _, None) \<Rightarrow> Some (Inl ''loader requires parent context'', m)
         | (key_expr # _, Some parent) \<Rightarrow>
             (case run_part env fuel (take i (steps p))
                     (JObject [(''parent'', parent), (''args'', JObject (args_object (gc_args call))),
                               (''context'', gc_context call)]) m of
                None \<Rightarrow> None
              | Some (Inl e, m1) \<Rightarrow> Some (Inl e, m1)
              | Some (Inr current, m1) \<Rightarrow>
                  (case env_jq env key_expr current of
                     Inl e \<Rightarrow> Some (Inl (''Failed to evaluate key expression: '' @ error_to_string e), m1)
                   | Inr key \<Rightarrow>
                       (case load_one \<lparr> lk_pipeline_name = rs_config rs, lk_key = key, lk_context = current,
                                        lk_module_id = loc_module_id (rs_location rs) \<rparr> m1 of
                          None \<Rightarrow> None
                        | Some (Inl e, m2) \<Rightarrow> Some (Inl (''DataLoader error: '' @ error_to_string e), m2)
                        | Some (Inr found, m2) \<Rightarrow>
                            (case run_part env fuel (drop (Suc i) (steps p))
                                    (case found of None \<Rightarrow> JNull | Some v \<Rightarrow> v) m2 of
                               None \<Rightarrow> None
                             | Some (Inl e, m3) \<Rightarrow> Some (Inl e, m3)
                             | Some (Inr v, m3) \<Rightarrow> Some (Inr (field_value v), m3)))))))"

definition resolver_input :: "gql_call \<Rightarrow> json_map" where
  "resolver_input call =
     om_insert ''args'' (JObject (args_object (gc_args call)))
       (om_insert_all (gc_args call)
         (om_insert ''context'' (gc_context call)
           (case gc_parent call of None \<Rightarrow> [] | Some parent \<Rightarrow> [(''parent'', parent)])))"

definition log_resolver_call :: "string \<Rightarrow> json \<Rightarrow> ('l, 'r, 'w) machine \<Rightarrow> ('l, 'r, 'w) machine" where
  "log_resolver_call key input m =
     (let calls = (case map_of (rc_call_log (mc_ctx m)) key of None \<Rightarrow> [] | Some cs \<Rightarrow> cs)
      in set_ctx ((mc_ctx m)\<lparr>rc_call_log := om_insert key (calls @ [input]) (rc_call_log (mc_ctx m))\<rparr>) m)"

text \<open>The first error of a result, if it has any.\<close>

definition first_error :: "json \<Rightarrow> string option" where
  "first_error v =
     (case Option.bind (json_get ''errors'' v) as_array of
        Some (e # _) \<Rightarrow>
          Some (case Option.bind (json_get ''message'' e) as_str of None \<Rightarrow> ''Unknown pipeline error'' | Some s \<Rightarrow> s)
      | _ \<Rightarrow> None)"

definition resolve_by_pipeline ::
  "('l, 'r, 'w) execution_env \<Rightarrow> nat \<Rightarrow> (string \<Rightarrow> json option) \<Rightarrow> pipeline \<Rightarrow> gql_call \<Rightarrow> ('l, 'r, 'w) resolution" where
  "resolve_by_pipeline env fuel get_mock p call m =
     (let key = field_key (gc_type_name call) (gc_field_name call);
          input = JObject (resolver_input call);
          (start, m1) = read_clock env (update_profiler (profiler_push key) (log_resolver_call key input m))
      in case (case get_mock key of
                 Some v \<Rightarrow> Some (Inr v, m1)
               | None \<Rightarrow>
                   (case exec_pipeline env fuel p None input m1 of
                      None \<Rightarrow> None
                    | Some (Inl e, m2) \<Rightarrow> Some (Inl (error_to_string e), m2)
                    | Some (Inr (v, _, _), m2) \<Rightarrow> Some (Inr v, m2))) of
           None \<Rightarrow> None
         | Some (Inl e, m2) \<Rightarrow> Some (Inl e, m2)
         | Some (Inr v, m2) \<Rightarrow>
             (let (now, m3) = read_clock env m2;
                  m4 = update_profiler (\<lambda>pf. profiler_pop (record_sample ((now - start) div 1000) pf)) m3
              in Some (case first_error v of Some msg \<Rightarrow> Inl msg | None \<Rightarrow> Inr (field_value v), m4)))"

definition resolve_property :: "gql_call \<Rightarrow> string + json option" where
  "resolve_property call =
     (case gc_parent call of
        None \<Rightarrow> Inl ''Parent is not a Value''
      | Some parent \<Rightarrow> Inr (json_get (gc_field_name call) parent))"

definition resolve_field ::
  "('l, 'r, 'w) execution_env \<Rightarrow> nat \<Rightarrow> (string \<Rightarrow> json option) \<Rightarrow> ('l, 'r, 'w) load_one \<Rightarrow> (string \<rightharpoonup> pipeline) \<Rightarrow> gql_call \<Rightarrow>
   ('l, 'r, 'w) resolution" where
  "resolve_field env fuel get_mock load_one registry call m =
     (case registry (field_key (gc_type_name call) (gc_field_name call)) of
        None \<Rightarrow> Some (resolve_property call, m)
      | Some p \<Rightarrow>
          (case find_loader (steps p) of
             Some (i, rs) \<Rightarrow> resolve_by_loader env fuel load_one p i rs call m
           | None \<Rightarrow> resolve_by_pipeline env fuel get_mock p call m))"

section \<open>The middleware\<close>

text \<open>
  The runtime's answer to a query with its variables, run on the context of the request: the library
  calls the resolvers above. \<^const>\<open>None\<close> stands for a program without a schema.
\<close>

type_synonym ('l, 'r, 'w) gql_runtime =
  "string \<Rightarrow> json \<Rightarrow> json \<Rightarrow> ('l, 'r, 'w) machine \<Rightarrow> json \<times> ('l, 'r, 'w) machine"

definition graphql_variables ::
  "('l, 'r, 'w) execution_env \<Rightarrow> (json \<Rightarrow> string) \<Rightarrow> string list \<Rightarrow> json \<Rightarrow> web_pipe_error + json" where
  "graphql_variables env debug_json args state =
     (case args of
        a # _ \<Rightarrow>
          (case env_jq env a state of
             Inl e \<Rightarrow> Inl e
           | Inr v \<Rightarrow>
               if is_object v then Inr v
               else Inl (MiddlewareExecutionError (''graphql argument 0 must evaluate to an object, got: '' @ debug_json v)))
      | [] \<Rightarrow>
          Inr (case json_get ''variables'' state of
                 Some v \<Rightarrow> v
               | None \<Rightarrow> (case json_get ''graphqlParams'' state of Some v \<Rightarrow> v | None \<Rightarrow> JObject [])))"

definition graphql_query :: "string \<Rightarrow> json \<Rightarrow> web_pipe_error + string" where
  "graphql_query config state =
     (if config = [] then
        (case Option.bind (json_get ''query'' state) as_str of
           None \<Rightarrow> Inl (ConfigError ''GraphQL middleware requires either a config string or 'query' in state'')
         | Some q \<Rightarrow> Inr q)
      else Inr config)"

text \<open>A response whose only field is the target is replaced by that field's value.\<close>

definition unwrap_response :: "string option \<Rightarrow> json \<Rightarrow> json" where
  "unwrap_response target response =
     (case (target, Option.bind (json_get ''data'' response) as_object) of
        (Some name, Some data) \<Rightarrow>
          (case map_of data name of Some v \<Rightarrow> if length data = 1 then v else response | None \<Rightarrow> response)
      | _ \<Rightarrow> response)"

definition graphql_execute ::
  "('l, 'r, 'w) gql_runtime option \<Rightarrow> ('l, 'r, 'w) execution_env \<Rightarrow> (json \<Rightarrow> string) \<Rightarrow> ('l, 'r, 'w) invoker" where
  "graphql_execute runtime env debug_json name args config target pc m =
     (case runtime of
        None \<Rightarrow> (Inl (ConfigError ''No GraphQL schema defined in program''), pc, m)
      | Some run \<Rightarrow>
          (case graphql_variables env debug_json args (pc_state pc) of
             Inl e \<Rightarrow> (Inl e, pc, m)
           | Inr variables \<Rightarrow>
               (case graphql_query config (pc_state pc) of
                  Inl e \<Rightarrow> (Inl e, pc, m)
                | Inr query \<Rightarrow>
                    (case run query variables (pc_state pc) m of
                       (response, m1) \<Rightarrow>
                         (Inr default_output, pc\<lparr>pc_state := unwrap_response target response\<rparr>, m1)))))"

end
