(* ===== verification/Graphql_Properties.thy ===== *)
theory Graphql_Properties
  imports Graphql Executor_Safety "HOL-Library.Multiset"
begin

text \<open>
  What a batch of keys gets, and what resolvers leave in the profiler.
\<close>

section \<open>Grouping\<close>

lemma add_to_group_fst: "fst ` set (add_to_group k gs) = insert (lk_pipeline_name k) (fst ` set gs)"
  by (induction k gs rule: add_to_group.induct) auto

lemma add_to_group_distinct: "distinct (map fst gs) \<Longrightarrow> distinct (map fst (add_to_group k gs))"
proof (induction k gs rule: add_to_group.induct)
  case (2 k name ks groups)
  then show ?case using add_to_group_fst [of k groups] by auto
qed simp

lemma add_to_group_lookup:
  "map_of (add_to_group k gs) n =
     (if n = lk_pipeline_name k then Some ((case map_of gs n of None \<Rightarrow> [] | Some ks \<Rightarrow> ks) @ [k]) else map_of gs n)"
  by (induction k gs rule: add_to_group.induct) auto

lemma group_keys_snoc: "group_keys (keys @ [k]) = add_to_group k (group_keys keys)"
  by (simp add: group_keys_def)

lemma group_keys_distinct: "distinct (map fst (group_keys keys))"
  by (induction keys rule: rev_induct) (simp_all add: group_keys_snoc add_to_group_distinct group_keys_def [of "[]"])

text \<open>The group of a name holds the keys of that name, in the order of the batch.\<close>

lemma group_keys_lookup:
  "map_of (group_keys keys) n =
     (let ks = filter (\<lambda>k. lk_pipeline_name k = n) keys in if ks = [] then None else Some ks)"
proof (induction keys rule: rev_induct)
  case Nil
  then show ?case by (simp add: group_keys_def)
next
  case (snoc k keys)
  then show ?case by (auto simp: group_keys_snoc add_to_group_lookup Let_def)
qed

section \<open>A batch\<close>

definition loaded :: "('l, 'r, 'w) execution_env \<Rightarrow> json_map \<Rightarrow> json \<Rightarrow> json" where
  "loaded env result_map key =
     (case map_of result_map (key_text env key) of None \<Rightarrow> JNull | Some v \<Rightarrow> v)"

text \<open>A pipeline was run on the keys of a group, and gave an object.\<close>

definition group_run ::
  "('l, 'r, 'w) execution_env \<Rightarrow> nat \<Rightarrow> string \<Rightarrow> loader_key list \<Rightarrow> json_map \<Rightarrow> bool" where
  "group_run env fuel name ks result_map \<longleftrightarrow>
     (\<exists>p m1 ct st m2. batch_pipeline env (lk_module_id (hd ks)) name = Some p \<and>
        exec_pipeline env fuel p None (batch_input ks) m1 = Some (Inr (JObject result_map, ct, st), m2))"

lemma group_results_loaded: "group_results env rm ks = map (\<lambda>k. (key_entry k, loaded env rm (lk_key k))) ks"
  by (simp add: group_results_def loaded_def)

lemma load_group_Inr:
  assumes "load_group env dbg fuel (name, ks) m = Some (Inr new, m')"
  shows "\<exists>rm. group_run env fuel name ks rm \<and> new = map (\<lambda>k. (key_entry k, loaded env rm (lk_key k))) ks"
proof -
  obtain p m1 rm ct st m2 where "batch_pipeline env (lk_module_id (hd ks)) name = Some p"
    "exec_pipeline env fuel p None (batch_input ks) m1 = Some (Inr (JObject rm, ct, st), m2)" "new = group_results env rm ks"
    using assms by (auto simp: load_group_def Let_def split: option.splits prod.splits sum.splits json.splits)
  then show ?thesis unfolding group_run_def group_results_loaded by blast
qed

lemma map_of_group:
  "k \<in> set ks \<Longrightarrow> map_of (map (\<lambda>k. (key_entry k, loaded env rm (lk_key k))) ks) (key_entry k) = Some (loaded env rm (lk_key k))"
  by (induction ks) (auto simp: key_entry_def)

lemma map_of_other_group:
  "\<forall>k \<in> set ks. lk_pipeline_name k = name \<Longrightarrow> fst e \<noteq> name \<Longrightarrow>
     map_of (map (\<lambda>k. (key_entry k, loaded env rm (lk_key k))) ks) e = None"
  by (induction ks) (auto simp: key_entry_def)

lemma load_groups_other:
  assumes "load_groups env dbg fuel gs results m = Some (Inr out, m')"
    and "\<forall>(name, ks) \<in> set gs. (\<forall>k \<in> set ks. lk_pipeline_name k = name) \<and> name \<noteq> fst e"
  shows "map_of out e = map_of results e"
  using assms
proof (induction gs arbitrary: results m)
  case (Cons g gs)
  obtain name ks where g: "g = (name, ks)" by (cases g)
  obtain new m1 where step: "load_group env dbg fuel (name, ks) m = Some (Inr new, m1)"
    and rest: "load_groups env dbg fuel gs (new @ results) m1 = Some (Inr out, m')"
    using Cons.prems(1) by (auto simp: g split: option.splits prod.splits sum.splits)
  obtain rm where "new = map (\<lambda>k. (key_entry k, loaded env rm (lk_key k))) ks"
    using load_group_Inr [OF step] by blast
  then have "map_of new e = None" using map_of_other_group [of ks name e] Cons.prems(2) by (auto simp: g)
  with Cons.IH [OF rest] Cons.prems(2) show ?case by (auto simp: map_add_def)
qed simp

lemma load_groups_key:
  assumes "load_groups env dbg fuel gs results m = Some (Inr out, m')"
    and "\<forall>(name, ks) \<in> set gs. \<forall>k \<in> set ks. lk_pipeline_name k = name" and "distinct (map fst gs)"
    and "(name, ks) \<in> set gs" and "k \<in> set ks"
  shows "\<exists>rm. group_run env fuel name ks rm \<and> map_of out (key_entry k) = Some (loaded env rm (lk_key k))"
  using assms(1-4)
proof (induction gs arbitrary: results m)
  case (Cons g gs)
  obtain name' ks' where g: "g = (name', ks')" by (cases g)
  obtain new m1 where step: "load_group env dbg fuel (name', ks') m = Some (Inr new, m1)"
    and rest: "load_groups env dbg fuel gs (new @ results) m1 = Some (Inr out, m')"
    using Cons.prems(1) by (auto simp: g split: option.splits prod.splits sum.splits)
  show ?case
  proof (cases "(name, ks) \<in> set gs")
    case True
    with Cons.IH [OF rest] Cons.prems(2,3) show ?thesis by (auto simp: g)
  next
    case False
    with Cons.prems(4) have eq: "name' = name" "ks' = ks" by (simp_all add: g)
    obtain rm where rm: "group_run env fuel name ks rm" "new = map (\<lambda>k. (key_entry k, loaded env rm (lk_key k))) ks"
      using load_group_Inr [OF step] eq by blast
    have k: "lk_pipeline_name k = name" using Cons.prems(2,4) assms(5) by fastforce
    have "map_of out (key_entry k) = map_of (new @ results) (key_entry k)"
      by (rule load_groups_other [OF rest]) (use Cons.prems(2,3) k in \<open>auto simp: g eq key_entry_def rev_image_eqI\<close>)
    with map_of_group [OF assms(5), of env rm] rm show ?thesis by (intro exI [of _ rm]) (simp add: map_add_def)
  qed
qed simp

text \<open>
  C33: A batch that succeeds answers every key it was asked for: the keys of one pipeline name are
  given, in the order of the batch, to one run of that pipeline, and each gets the entry of the
  run's result under its own text, or null; what the other names of the batch load does not matter.
  The pipeline is looked up, and its arguments and context are taken, for the group's first key only.
\<close>

theorem load_answers_every_key:
  assumes "load env dbg order fuel keys m = Some (Inr results, m')"
    and "mset (order (group_keys keys)) = mset (group_keys keys)" and "k \<in> set keys"
    and "ks = filter (\<lambda>j. lk_pipeline_name j = lk_pipeline_name k) keys"
  shows "\<exists>p m1 result_map ct st m2.
    batch_pipeline env (lk_module_id (hd ks)) (lk_pipeline_name k) = Some p \<and>
    exec_pipeline env fuel p None (batch_input ks) m1 = Some (Inr (JObject result_map, ct, st), m2) \<and>
    map_of results (key_entry k) =
      Some (case map_of result_map (key_text env (lk_key k)) of None \<Rightarrow> JNull | Some v \<Rightarrow> v)"
proof -
  have set: "set (order (group_keys keys)) = set (group_keys keys)" using mset_eq_setD [OF assms(2)] .
  have distinct: "distinct (map fst (order (group_keys keys)))"
    using group_keys_distinct [of keys] assms(2) by (metis mset_eq_imp_distinct_iff mset_map)
  have members: "ks' = filter (\<lambda>j. lk_pipeline_name j = name) keys" if "(name, ks') \<in> set (group_keys keys)" for name ks'
    using map_of_is_SomeI [OF group_keys_distinct that] by (auto simp: group_keys_lookup Let_def split: if_splits)
  have "ks \<noteq> []" using assms(3,4) by (auto simp: filter_empty_conv)
  then have group: "(lk_pipeline_name k, ks) \<in> set (order (group_keys keys))"
    unfolding set by (intro map_of_SomeD) (simp add: group_keys_lookup assms(4))
  have "\<forall>(name, ks) \<in> set (order (group_keys keys)). \<forall>k \<in> set ks. lk_pipeline_name k = name"
    using members unfolding set by fastforce
  moreover have "k \<in> set ks" using assms(3,4) by simp
  ultimately obtain rm where "group_run env fuel (lk_pipeline_name k) ks rm"
    "map_of results (key_entry k) = Some (loaded env rm (lk_key k))"
    using load_groups_key [OF assms(1) [unfolded load_def] _ distinct group] by blast
  then show ?thesis unfolding group_run_def loaded_def by blast
qed

section \<open>The profiler\<close>

lemma update_profiler_stack: "stack_of (update_profiler f m) = pf_stack (f (rc_profiler (mc_ctx m)))"
  by (simp add: stack_of_def update_profiler_def set_ctx_def)

lemma read_clock_stack: "read_clock env m = (t, m') \<Longrightarrow> stack_of m' = stack_of m"
  by (auto simp: read_clock_def stack_of_def split: prod.splits)

lemma closed_frame:
  "stack_of m = frames @ [name] \<Longrightarrow>
     stack_of (update_profiler (\<lambda>pf. profiler_pop (record_sample d pf)) m) = frames"
  by (simp add: update_profiler_stack profiler_pop_def record_sample_def) (simp add: stack_of_def)

lemma opened_frame: "stack_of (update_profiler (profiler_push name) m) = stack_of m @ [name]"
  by (simp add: update_profiler_stack profiler_push_def) (simp add: stack_of_def)

text \<open>A batch closes its frames, whether its pipeline fails or not.\<close>

lemma load_group_stack:
  assumes "keeps_stack env" and "load_group env dbg fuel (name, ks) m = Some (r, m')"
  shows "stack_of m' = stack_of m"
proof (cases "batch_pipeline env (lk_module_id (hd ks)) name")
  case None
  with assms(2) show ?thesis by (simp add: load_group_def)
next
  case (Some p)
  obtain start m1 where c1: "read_clock env (update_profiler (profiler_push name) m) = (start, m1)"
    by (cases "read_clock env (update_profiler (profiler_push name) m)")
  obtain r2 m2 where run: "exec_pipeline env fuel p None (batch_input ks) m1 = Some (r2, m2)"
    using assms(2) Some c1 by (auto simp: load_group_def split: option.splits)
  obtain now m3 where c2: "read_clock env m2 = (now, m3)" by (cases "read_clock env m2")
  have "stack_of m3 = stack_of m @ [name]"
    using read_clock_stack [OF c1] run_keeps_stack [OF assms(1) run] read_clock_stack [OF c2] by (simp add: opened_frame)
  moreover have "m' = update_profiler (\<lambda>pf. profiler_pop (record_sample ((now - start) div 1000) pf)) m3"
    using assms(2) Some c1 run c2 by (simp add: load_group_def)
  ultimately show ?thesis using closed_frame by blast
qed

text \<open>A resolver whose pipeline fails returns before it closes its own.\<close>

lemma failed_resolver_leaves_frame:
  assumes "keeps_stack env" and "get_mock (field_key (gc_type_name call) (gc_field_name call)) = None"
    and "resolve_by_pipeline env fuel get_mock p call m = Some (Inl msg, m')"
    and "read_clock env (update_profiler (profiler_push (field_key (gc_type_name call) (gc_field_name call)))
           (log_resolver_call (field_key (gc_type_name call) (gc_field_name call)) (JObject (resolver_input call)) m)) = (start, m1)"
    and "exec_pipeline env fuel p None (JObject (resolver_input call)) m1 = Some (Inl e, m2)"
  shows "stack_of m' = stack_of m @ [field_key (gc_type_name call) (gc_field_name call)]"
proof -
  have "m' = m2" using assms(2-5) by (simp add: resolve_by_pipeline_def)
  then show ?thesis using read_clock_stack [OF assms(4)] run_keeps_stack [OF assms(1,5)]
    by (simp add: opened_frame) (simp add: stack_of_def log_resolver_call_def set_ctx_def)
qed

section \<open>The middleware's answer\<close>

text \<open>With a target, the errors of a response that has that one field are dropped.\<close>

lemma unwrapping_drops_errors:
  "map_of m ''data'' = Some (JObject [(name, v)]) \<Longrightarrow> unwrap_response (Some name) (JObject m) = v"
  by (simp add: unwrap_response_def)

lemma convert_type_not_twice: "convert_type t \<noteq> RefNonNull (RefNonNull u)"
  by (cases t rule: convert_type.cases) (simp_all add: Let_def)

section \<open>An instance\<close>

definition sample_key :: "string \<Rightarrow> nat option \<Rightarrow> loader_key" where
  "sample_key key module_id = \<lparr> lk_pipeline_name = ''noop'', lk_key = JString key,
     lk_context = JObject [(''args'', JBool True)], lk_module_id = module_id \<rparr>"

lemma sample_load:
  "load sample_env (\<lambda>v. ''value'') rev 1 [sample_key ''args'' None, sample_key ''other'' (Some 7)] sample_machine \<noteq> None \<and>
   (\<forall>e m. load sample_env (\<lambda>v. ''value'') rev 1 [sample_key ''args'' None, sample_key ''other'' (Some 7)] sample_machine \<noteq> Some (Inl e, m))"
  by (intro conjI allI) (code_simp, simp add: load_def group_keys_def sample_key_def load_group_def batch_pipeline_def
    sample_env_def run_steps_def finish_run_def run_pending_cache_saves_def pipeline_context_new_def batch_input_def read_clock_def
    sample_platform_def split: prod.splits)

theorem load_answers_every_key_witness:
  "\<exists>results m'. load sample_env (\<lambda>v. ''value'') rev 1 [sample_key ''args'' None, sample_key ''other'' (Some 7)] sample_machine =
      Some (Inr results, m') \<and>
    (\<exists>p m1 result_map ct st m2. batch_pipeline sample_env None ''noop'' = Some p \<and>
      exec_pipeline sample_env 1 p None (batch_input [sample_key ''args'' None, sample_key ''other'' (Some 7)]) m1 =
        Some (Inr (JObject result_map, ct, st), m2) \<and>
      map_of results (''noop'', JString ''other'') =
        Some (case map_of result_map ''other'' of None \<Rightarrow> JNull | Some v \<Rightarrow> v))"
proof -
  let ?keys = "[sample_key ''args'' None, sample_key ''other'' (Some 7)]"
  obtain results m' where run: "load sample_env (\<lambda>v. ''value'') rev 1 ?keys sample_machine = Some (Inr results, m')"
    using sample_load by (cases "load sample_env (\<lambda>v. ''value'') rev 1 ?keys sample_machine") (auto split: sum.splits, metis sum.exhaust)
  have "?keys = filter (\<lambda>j. lk_pipeline_name j = lk_pipeline_name (sample_key ''other'' (Some 7))) ?keys"
    by (simp add: sample_key_def)
  from load_answers_every_key [OF run mset_rev _ this] run show ?thesis
    by (auto simp: sample_key_def key_entry_def key_text_def)
qed

end
