(* ===== verification/Handlebars.thy ===== *)
theory Handlebars
  imports Exec_Env
begin

text \<open>
  The handlebars middleware (\<^verbatim>\<open>src/middleware/handlebars.rs\<close>): removing the indentation
  of a template, and the templates compiled so far. The engine is an argument: what a template
  compiles to an error with, and how it renders with the partials of the program; so is the hash
  that names a template.
\<close>

section \<open>Indentation\<close>

definition trim_newlines :: "string \<Rightarrow> string" where
  "trim_newlines s =
     (let drop = dropWhile (\<lambda>c. c = newline \<or> c = CHR 0x0D) in rev (drop (rev (drop s))))"

definition blank_char :: "char \<Rightarrow> bool" where
  "blank_char c \<longleftrightarrow> c = CHR '' '' \<or> c = CHR 0x09"

definition indent_of :: "string \<Rightarrow> nat" where
  "indent_of l = length (takeWhile blank_char l)"

definition common_indent :: "string list \<Rightarrow> nat" where
  "common_indent ls =
     (case map indent_of (filter (\<lambda>l. trim l \<noteq> []) ls) of [] \<Rightarrow> 0 | i # is \<Rightarrow> fold min is i)"

definition strip_indent :: "nat \<Rightarrow> string \<Rightarrow> string" where
  "strip_indent n l = drop (min n (indent_of l)) l"

definition dedent_multiline :: "string \<Rightarrow> string" where
  "dedent_multiline input =
     (let trimmed = trim_newlines input; ls = str_lines trimmed; common = common_indent ls
      in if ls = [] then [] else if common = 0 then trimmed
         else join [newline] (map (strip_indent common) ls))"

section \<open>Templates\<close>

record hb_engine =
  he_hash :: "string \<Rightarrow> u64"
  he_hex :: "u64 \<Rightarrow> string"
  he_compile_error :: "string \<Rightarrow> string option"
  he_render :: "string \<Rightarrow> json \<Rightarrow> string + string"
  he_not_found :: "string \<Rightarrow> string"

record hb_state =
  hs_registry :: "string \<rightharpoonup> string"
  hs_registered :: "string set"

definition hb_new :: hb_state where
  "hb_new = \<lparr> hs_registry = Map.empty, hs_registered = {} \<rparr>"

definition template_id :: "hb_engine \<Rightarrow> string \<Rightarrow> string" where
  "template_id eng tpl = ''tpl_'' @ he_hex eng (he_hash eng tpl)"

text \<open>What the engine makes of a text, each time anew.\<close>

definition render_text :: "hb_engine \<Rightarrow> string \<Rightarrow> json \<Rightarrow> web_pipe_error + string" where
  "render_text eng tpl data =
     (case he_render eng tpl data of
        Inl e \<Rightarrow> Inl (MiddlewareExecutionError (''Handlebars render error: '' @ e))
      | Inr out \<Rightarrow> Inr out)"

definition register_template :: "hb_engine \<Rightarrow> string \<Rightarrow> hb_state \<Rightarrow> (web_pipe_error + unit) \<times> hb_state" where
  "register_template eng tpl st =
     (let i = template_id eng tpl
      in if i \<in> hs_registered st then (Inr (), st)
         else (case he_compile_error eng tpl of
                 Some e \<Rightarrow> (Inl (MiddlewareExecutionError (''Handlebars template compile error: '' @ e)), st)
               | None \<Rightarrow> (Inr (), st\<lparr>hs_registry := (hs_registry st)(i \<mapsto> tpl),
                                     hs_registered := insert i (hs_registered st)\<rparr>)))"

definition render_template :: "hb_engine \<Rightarrow> string \<Rightarrow> json \<Rightarrow> hb_state \<Rightarrow> (web_pipe_error + string) \<times> hb_state" where
  "render_template eng template data st =
     (let tpl = dedent_multiline template
      in case register_template eng tpl st of
           (Inl e, st1) \<Rightarrow> (Inl e, st1)
         | (Inr _, st1) \<Rightarrow>
             ((case hs_registry st1 (template_id eng tpl) of
                 None \<Rightarrow> Inl (MiddlewareExecutionError (''Handlebars render error: '' @ he_not_found eng (template_id eng tpl)))
               | Some text \<Rightarrow> render_text eng text data), st1))"

definition render_data :: "json \<Rightarrow> json \<Rightarrow> json" where
  "render_data state context_value =
     (case state of
        JObject m \<Rightarrow> JObject (om_insert ''context'' context_value (om_insert_all m []))
      | _ \<Rightarrow> JObject [(''data'', state), (''context'', context_value)])"

definition handlebars_execute ::
  "hb_engine \<Rightarrow> ('l, 'r, 'w) execution_env \<Rightarrow> 'w request_context \<Rightarrow> string \<Rightarrow> pipeline_context \<Rightarrow> hb_state \<Rightarrow>
   (web_pipe_error + middleware_output) \<times> pipeline_context \<times> hb_state" where
  "handlebars_execute eng env ctx config pc st =
     (case render_template eng config (render_data (pc_state pc) (context_to_value env ctx)) st of
        (Inl e, st1) \<Rightarrow> (Inl e, pc, st1)
      | (Inr text, st1) \<Rightarrow> (Inr \<lparr> mo_content_type = Some ''text/html'' \<rparr>, pc\<lparr>pc_state := JString text\<rparr>, st1))"

definition handlebars_behavior :: state_behavior where
  "handlebars_behavior = Render"

section \<open>Compiled templates do not show\<close>

text \<open>
  Every template that is registered is under its own name, for a hash that tells the templates of
  the program apart.
\<close>

definition templates_ok :: "hb_engine \<Rightarrow> string set \<Rightarrow> hb_state \<Rightarrow> bool" where
  "templates_ok eng T st \<longleftrightarrow>
     (\<forall>i tpl. hs_registry st i = Some tpl \<longrightarrow> tpl \<in> T \<and> i = template_id eng tpl \<and> he_compile_error eng tpl = None) \<and>
     hs_registered st = dom (hs_registry st)"

lemma templates_ok_new: "templates_ok eng T hb_new"
  by (simp add: templates_ok_def hb_new_def)

text \<open>What a middleware that keeps no templates would answer.\<close>

definition render_fresh :: "hb_engine \<Rightarrow> string \<Rightarrow> json \<Rightarrow> web_pipe_error + string" where
  "render_fresh eng template data =
     (let tpl = dedent_multiline template
      in case he_compile_error eng tpl of
           Some e \<Rightarrow> Inl (MiddlewareExecutionError (''Handlebars template compile error: '' @ e))
         | None \<Rightarrow> render_text eng tpl data)"

lemma render_template_fresh:
  assumes "templates_ok eng T st" and "inj_on (template_id eng) T" and "dedent_multiline template \<in> T"
  shows "fst (render_template eng template data st) = render_fresh eng template data"
    and "templates_ok eng T (snd (render_template eng template data st))"
proof -
  let ?tpl = "dedent_multiline template" and ?i = "template_id eng (dedent_multiline template)"
  have "fst (render_template eng template data st) = render_fresh eng template data \<and>
    templates_ok eng T (snd (render_template eng template data st))"
  proof (cases "?i \<in> hs_registered st")
    case True
    then obtain tpl where tpl: "hs_registry st ?i = Some tpl" using assms(1) by (auto simp: templates_ok_def)
    with assms(1) have "tpl \<in> T" "template_id eng ?tpl = template_id eng tpl" "he_compile_error eng tpl = None"
      by (auto simp: templates_ok_def)
    then have "tpl = ?tpl" using assms(2,3) by (simp add: inj_on_def)
    with True tpl assms(1) \<open>he_compile_error eng tpl = None\<close> show ?thesis
      by (simp add: render_template_def register_template_def render_fresh_def Let_def)
  next
    case False
    then show ?thesis
      using assms by (cases "he_compile_error eng ?tpl")
        (auto simp: render_template_def register_template_def render_fresh_def templates_ok_def Let_def)
  qed
  then show "fst (render_template eng template data st) = render_fresh eng template data"
    and "templates_ok eng T (snd (render_template eng template data st))" by simp_all
qed

fun render_all :: "hb_engine \<Rightarrow> (string \<times> json) list \<Rightarrow> hb_state \<Rightarrow> (web_pipe_error + string) list \<times> hb_state" where
  "render_all eng [] st = ([], st)"
| "render_all eng ((template, data) # rs) st =
     (case render_template eng template data st of
        (r, st1) \<Rightarrow> (case render_all eng rs st1 of (out, st2) \<Rightarrow> (r # out, st2)))"

lemma render_all_ok:
  "templates_ok eng T st \<Longrightarrow> inj_on (template_id eng) T \<Longrightarrow> (\<forall>(template, data) \<in> set rs. dedent_multiline template \<in> T) \<Longrightarrow>
     fst (render_all eng rs st) = map (\<lambda>(template, data). render_fresh eng template data) rs"
proof (induction rs arbitrary: st)
  case (Cons r rs)
  obtain template data where r: "r = (template, data)" by (cases r)
  have "dedent_multiline template \<in> T" using Cons.prems(3) by (simp add: r)
  note step = render_template_fresh [OF Cons.prems(1,2) this, of data]
  with Cons.IH [OF step(2) Cons.prems(2)] Cons.prems(3) show ?case
    by (auto simp: r split: prod.splits)
qed simp

text \<open>
  C34: The templates that are kept compiled do not show: in any sequence of renderings each is what
  the engine makes of that template and that data alone, errors of compilation included, as long as
  the hash that names templates tells the templates of the sequence apart.
\<close>

theorem renderings_are_independent:
  assumes "inj_on (template_id eng) ((dedent_multiline \<circ> fst) ` set rs)"
  shows "fst (render_all eng rs hb_new) = map (\<lambda>(template, data). render_fresh eng template data) rs"
  by (rule render_all_ok [OF templates_ok_new assms]) (auto intro: rev_image_eqI)

text \<open>Two templates of one name: the second is never compiled, and renders as the first.\<close>

lemma colliding_template_renders_as_first:
  assumes "templates_ok eng T st" and "hs_registry st (template_id eng (dedent_multiline template)) = Some tpl"
  shows "render_template eng template data st = (render_text eng tpl data, st)"
  using assms by (auto simp: render_template_def register_template_def templates_ok_def Let_def)

section \<open>What is removed from a template\<close>

lemma fold_min_le: "fold min is (i :: nat) \<le> i \<and> (\<forall>j \<in> set is. fold min is i \<le> j)"
proof (induction "is" arbitrary: i)
  case (Cons a "is")
  from Cons [of "min a i"] show ?case by auto
qed simp

lemma fold_min_in: "fold min is (i :: nat) \<in> insert i (set is)"
proof (induction "is" arbitrary: i)
  case (Cons a "is")
  from Cons [of "min a i"] show ?case by (auto simp: min_def split: if_splits)
qed simp

lemma common_indent_le: "l \<in> set ls \<Longrightarrow> trim l \<noteq> [] \<Longrightarrow> common_indent ls \<le> indent_of l"
proof -
  assume "l \<in> set ls" "trim l \<noteq> []"
  then have "indent_of l \<in> set (map indent_of (filter (\<lambda>l. trim l \<noteq> []) ls))" by simp
  then show ?thesis
    unfolding common_indent_def using fold_min_le
    by (cases "map indent_of (filter (\<lambda>l. trim l \<noteq> []) ls)") auto
qed

lemma common_indent_attained:
  assumes "l \<in> set ls" and "trim l \<noteq> []"
  shows "\<exists>l' \<in> set ls. trim l' \<noteq> [] \<and> indent_of l' = common_indent ls"
proof -
  obtain i js where js: "map indent_of (filter (\<lambda>l. trim l \<noteq> []) ls) = i # js"
    using assms by (cases "map indent_of (filter (\<lambda>l. trim l \<noteq> []) ls)") (auto simp: filter_empty_conv)
  have "common_indent ls \<in> set (map indent_of (filter (\<lambda>l. trim l \<noteq> []) ls))"
    using fold_min_in [of js i] unfolding common_indent_def js by simp
  then show ?thesis by auto
qed

text \<open>A line that is not blank loses blanks only, and as many as every other such line.\<close>

lemma stripped_line:
  assumes "l \<in> set ls" and "trim l \<noteq> []"
  shows "\<exists>blanks. l = blanks @ strip_indent (common_indent ls) l \<and> length blanks = common_indent ls \<and> list_all blank_char blanks"
proof -
  have le: "common_indent ls \<le> indent_of l" by (rule common_indent_le [OF assms])
  have "l = take (common_indent ls) l @ strip_indent (common_indent ls) l"
    using le by (simp add: strip_indent_def)
  moreover have "length (take (common_indent ls) l) = common_indent ls"
    using le length_takeWhile_le [of blank_char l] by (simp add: indent_of_def)
  moreover have "list_all blank_char (take (common_indent ls) l)"
  proof -
    have "take (common_indent ls) l = take (common_indent ls) (takeWhile blank_char l)"
      using le by (metis indent_of_def takeWhile_eq_take take_take min_absorb1)
    then show ?thesis by (auto simp: list_all_iff dest: in_set_takeD set_takeWhileD)
  qed
  ultimately show ?thesis by blast
qed

section \<open>Indentation does not matter\<close>

lemma split_char_join:
  "ls \<noteq> [] \<Longrightarrow> \<forall>l \<in> set ls. d \<notin> set l \<Longrightarrow> split_char d (join [d] ls) = ls"
proof (induction ls)
  case (Cons l ls)
  then show ?case by (cases ls) (simp_all add: split_char_single split_char_append)
qed simp

definition plain_line :: "string \<Rightarrow> bool" where
  "plain_line l \<longleftrightarrow> newline \<notin> set l \<and> CHR 0x0D \<notin> set l"

lemma str_lines_join:
  assumes "ls \<noteq> []" and "last ls \<noteq> []" and "\<forall>l \<in> set ls. plain_line l"
  shows "str_lines (join [newline] ls) = ls"
proof -
  have "map strip_cr (butlast ls) = butlast ls"
    using assms(3) by (intro map_idI) (metis in_set_butlastD last_in_set plain_line_def strip_cr_def)
  then show ?thesis
    using assms split_char_join [of ls newline] by (simp add: str_lines_def Let_def plain_line_def)
qed

lemma join_ends:
  assumes "ls \<noteq> []" and "hd ls \<noteq> []" and "last ls \<noteq> []"
  shows "join d ls \<noteq> [] \<and> hd (join d ls) = hd (hd ls) \<and> last (join d ls) = last (last ls)"
  using assms
proof (induction ls)
  case (Cons l ls)
  show ?case
  proof (cases ls)
    case (Cons l' ls')
    have "last (join d ls) = last (last ls) \<and> join d ls \<noteq> []" if "l' \<noteq> []" using Cons.IH Cons.prems that Cons by simp
    moreover have "last (join d ls) = last (last ls) \<and> join d ls \<noteq> []" if "l' = []"
      using that Cons Cons.prems
    proof (induction ls' arbitrary: ls l')
      case (Cons x xs)
      then show ?case by (cases xs) auto
    qed simp
    ultimately show ?thesis using Cons Cons.prems by (cases "l' = []") auto
  qed (use Cons in simp)
qed simp

lemma trim_blank: "trim (CHR '' '' # s) = trim s"
proof -
  have "find (\<lambda>w. w \<noteq> [] \<and> starts_with w (CHR '' '' # s)) ws_seqs = Some '' ''"
    by (simp add: ws_seqs_def starts_with_def)
  then have "trim_start (CHR '' '' # s) = trim_start s"
    unfolding trim_start_def by (subst strip_seqs.simps) simp
  then show ?thesis by (simp add: trim_def)
qed

lemma trim_blanks: "trim (replicate k (CHR '' '') @ s) = trim s"
  by (induction k) (simp_all add: trim_blank)

definition indented :: "nat \<Rightarrow> string \<Rightarrow> string" where
  "indented k l = (if l = [] then [] else replicate k (CHR '' '') @ l)"

lemma indented_indent: "l \<noteq> [] \<Longrightarrow> indent_of (indented k l) = k + indent_of l"
  by (induction k) (simp_all add: indented_def indent_of_def blank_char_def)

lemma fold_min_add: "fold min (map ((+) k) js) (k + j) = k + fold min js (j :: nat)"
  by (induction js arbitrary: j) (simp_all add: min_add_distrib_right [symmetric])

lemma common_indent_indented:
  assumes "\<forall>l \<in> set ls. l = [] \<or> trim l \<noteq> []" and "l \<in> set ls" and "l \<noteq> []"
  shows "common_indent (map (indented k) ls) = k + common_indent ls"
proof -
  have trim: "trim (indented k l) = trim l" for l by (simp add: indented_def trim_blanks)
  have "map indent_of (filter (\<lambda>l. trim l \<noteq> []) (map (indented k) ls)) =
      map ((+) k) (map indent_of (filter (\<lambda>l. trim l \<noteq> []) ls))"
    by (auto simp: filter_map comp_def trim intro: indented_indent)
  moreover obtain j js where "map indent_of (filter (\<lambda>l. trim l \<noteq> []) ls) = j # js"
    using assms by (cases "map indent_of (filter (\<lambda>l. trim l \<noteq> []) ls)") (auto simp: filter_empty_conv)
  ultimately show ?thesis using fold_min_add [of k js j] by (simp add: common_indent_def)
qed

lemma strip_indent_indented:
  assumes "l = [] \<or> c \<le> indent_of l"
  shows "strip_indent (k + c) (indented k l) = strip_indent c l"
proof (cases "l = []")
  case False
  with assms show ?thesis using indented_indent [of l k] by (simp add: strip_indent_def indented_def)
qed (simp add: strip_indent_def indented_def)

lemma trim_newlines_id:
  assumes "s \<noteq> []" and "\<not> (hd s = newline \<or> hd s = CHR 0x0D)" and "\<not> (last s = newline \<or> last s = CHR 0x0D)"
  shows "trim_newlines s = s"
proof -
  have "dropWhile P xs = xs" if "xs \<noteq> []" "\<not> P (hd xs)" for P and xs :: string
    using that by (cases xs) simp_all
  then show ?thesis using assms by (simp add: trim_newlines_def Let_def hd_rev)
qed

lemma dedent_lines:
  assumes "ls \<noteq> []" and "hd ls \<noteq> []" and "last ls \<noteq> []" and "\<forall>l \<in> set ls. plain_line l"
  shows "dedent_multiline (join [newline] ls) = join [newline] (map (strip_indent (common_indent ls)) ls)"
proof -
  have ends: "hd (join [newline] ls) = hd (hd ls)" "last (join [newline] ls) = last (last ls)" "join [newline] ls \<noteq> []"
    using join_ends [OF assms(1-3)] by simp_all
  have "plain_line (hd ls)" "plain_line (last ls)" using assms(1,4) by simp_all
  then have "trim_newlines (join [newline] ls) = join [newline] ls"
    using ends assms(2,3) by (intro trim_newlines_id) (auto simp: plain_line_def dest: hd_in_set last_in_set)
  moreover have "map (strip_indent 0) ls = ls" by (simp add: strip_indent_def map_idI)
  ultimately show ?thesis
    using assms str_lines_join [OF assms(1,3,4)] by (simp add: dedent_multiline_def Let_def)
qed

text \<open>How deep a template stands in the program does not change what is rendered.\<close>

theorem dedent_ignores_indentation:
  assumes "ls \<noteq> []" and "hd ls \<noteq> []" and "last ls \<noteq> []" and "\<forall>l \<in> set ls. plain_line l"
    and "\<forall>l \<in> set ls. l = [] \<or> trim l \<noteq> []"
  shows "dedent_multiline (join [newline] (map (indented k) ls)) = dedent_multiline (join [newline] ls)"
proof -
  have hd: "hd ls \<in> set ls" using assms(1) by simp
  have "hd (map (indented k) ls) \<noteq> []" "last (map (indented k) ls) \<noteq> []"
    using assms(1-3) by (simp_all add: hd_map last_map indented_def)
  moreover have "\<forall>l \<in> set (map (indented k) ls). plain_line l"
    using assms(4) by (auto simp: plain_line_def indented_def newline_def split: if_splits)
  moreover have "map (strip_indent (common_indent (map (indented k) ls))) (map (indented k) ls) =
      map (strip_indent (common_indent ls)) ls"
    unfolding common_indent_indented [OF assms(5) hd assms(2)] map_map comp_def
  proof (intro map_cong refl)
    fix l assume "l \<in> set ls"
    then have "l = [] \<or> common_indent ls \<le> indent_of l" using common_indent_le assms(5) by blast
    then show "strip_indent (k + common_indent ls) (indented k l) = strip_indent (common_indent ls) l"
      by (rule strip_indent_indented)
  qed
  ultimately show ?thesis
    using assms dedent_lines [of "map (indented k) ls"] unfolding dedent_lines [OF assms(1-4)] by (simp del: map_map)
qed

section \<open>Instances\<close>

definition sample_engine :: hb_engine where
  "sample_engine = \<lparr> he_hash = of_nat \<circ> length, he_hex = (\<lambda>h. show_nat (unat h)),
     he_compile_error = (\<lambda>t. if contains_sub ''{{#'' t then Some ''unclosed'' else None),
     he_render = (\<lambda>t d. Inr (t @ ''!'')), he_not_found = (\<lambda>i. ''not found'') \<rparr>"

theorem renderings_are_independent_witness:
  "fst (render_all sample_engine [(''a'', JNull), (''{{#b'', JNull), (''a'', JBool True)] hb_new) =
     [Inr ''a!'', Inl (MiddlewareExecutionError ''Handlebars template compile error: unclosed''), Inr ''a!'']"
proof -
  have d: "dedent_multiline ''a'' = ''a''" "dedent_multiline ''{{#b'' = ''{{#b''" by code_simp+
  have "template_id sample_engine ''a'' \<noteq> template_id sample_engine ''{{#b''" by code_simp
  then have "inj_on (template_id sample_engine) ((dedent_multiline \<circ> fst) ` set [(''a'', JNull), (''{{#b'', JNull), (''a'', JBool True)])"
    by (auto simp: d inj_on_def)
  from renderings_are_independent [OF this]
  show ?thesis by (simp add: render_fresh_def d render_text_def sample_engine_def contains_sub_def starts_with_def)
qed

end
