(* ===== verification/Fetch.thy ===== *)
theory Fetch
  imports Exec_Env
begin

text \<open>
  The fetch middleware (\<^verbatim>\<open>src/middleware/fetch.rs\<close>): which request is sent, and how its
  outcome becomes the state. The HTTP client, the syntax of methods and headers, and JSON text are
  arguments.
\<close>

record fetch_request =
  hq_method :: string
  hq_url :: string
  hq_timeout :: "u64 option"
  hq_headers :: "string omap"
  hq_body :: "json option"

record fetch_response =
  hr_status :: u16
  hr_headers :: "(string \<times> string option) list"
  hr_body :: "string + string"

datatype send_error = TimedOut string | NotSent string

record 'w http_client =
  hc_method :: "string \<Rightarrow> string option"
  hc_header_name :: "string \<Rightarrow> string option"
  hc_header_value :: "string \<Rightarrow> bool"
  hc_send :: "fetch_request \<Rightarrow> 'w \<Rightarrow> (send_error + fetch_response) \<times> 'w"
  hc_parse_json :: "string \<Rightarrow> json option"
  hc_order :: "string omap \<Rightarrow> string omap"

definition build_fetch_error_object :: "(json \<Rightarrow> string) \<Rightarrow> string \<Rightarrow> json \<Rightarrow> json" where
  "build_fetch_error_object to_text etype details =
     (let d = (case details of JObject m \<Rightarrow> m | _ \<Rightarrow> [(''message'', JString (to_text details))])
      in JObject [(''errors'', JArray [JObject (om_insert_all d [(''type'', JString etype)])])])"

section \<open>The request\<close>

record fetch_options =
  fo_url :: string
  fo_method :: string
  fo_headers :: "json_map option"
  fo_body :: "json option"
  fo_timeout :: "u64 option"

definition options_from :: "string \<Rightarrow> (string \<Rightarrow> json option) \<Rightarrow> string \<times> string \<times> string \<times> string \<Rightarrow> fetch_options" where
  "options_from url get = (\<lambda>(method_key, headers_key, body_key, timeout_key).
     \<lparr> fo_url = url,
       fo_method = (case Option.bind (get method_key) as_str of None \<Rightarrow> ''GET'' | Some s \<Rightarrow> s),
       fo_headers = Option.bind (get headers_key) as_object,
       fo_body = get body_key,
       fo_timeout = Option.bind (get timeout_key) as_u64 \<rparr>)"

definition option_keys :: "string \<times> string \<times> string \<times> string" where
  "option_keys = (''method'', ''headers'', ''body'', ''timeout'')"

definition state_keys :: "string \<times> string \<times> string \<times> string" where
  "state_keys = (''fetchMethod'', ''fetchHeaders'', ''fetchBody'', ''fetchTimeout'')"

definition fetch_options_of ::
  "('l, 'r, 'w) execution_env \<Rightarrow> (json \<Rightarrow> string) \<Rightarrow> string list \<Rightarrow> string \<Rightarrow> json \<Rightarrow> web_pipe_error + fetch_options" where
  "fetch_options_of env debug_json args config state =
     (case args of
        [] \<Rightarrow>
          Inr (options_from
            (trim (case Option.bind (json_get ''fetchUrl'' state) as_str of None \<Rightarrow> config | Some s \<Rightarrow> s))
            (\<lambda>k. json_get k state) state_keys)
      | url_expr # more_args \<Rightarrow>
          (case env_jq env url_expr state of
             Inl e \<Rightarrow> Inl e
           | Inr url_value \<Rightarrow>
               (case as_str url_value of
                  None \<Rightarrow> Inl (MiddlewareExecutionError
                    (''fetch argument 0 must evaluate to a string, got: '' @ debug_json url_value))
                | Some url \<Rightarrow>
                    (case more_args of
                       [] \<Rightarrow> Inr (options_from (trim url) (\<lambda>k. None) option_keys)
                     | options_expr # _ \<Rightarrow>
                         (case env_jq env options_expr state of
                            Inl e \<Rightarrow> Inl e
                          | Inr options_value \<Rightarrow>
                              (case as_object options_value of
                                 None \<Rightarrow> Inl (MiddlewareExecutionError
                                   (''fetch argument 1 must evaluate to an object, got: '' @ debug_json options_value))
                               | Some opts \<Rightarrow> Inr (options_from (trim url) (map_of opts) option_keys)))))))"

text \<open>Headers whose value is no text, or which HTTP does not allow, are left out.\<close>

definition add_header :: "'w http_client \<Rightarrow> string \<times> json \<Rightarrow> string omap \<Rightarrow> string omap" where
  "add_header client = (\<lambda>(k, v) headers.
     case (as_str v, hc_header_name client k) of
       (Some text, Some name) \<Rightarrow> if hc_header_value client text then om_insert name text headers else headers
     | _ \<Rightarrow> headers)"

definition request_headers :: "'w http_client \<Rightarrow> json_map option \<Rightarrow> string omap" where
  "request_headers client given =
     (let headers = fold (add_header client) (case given of None \<Rightarrow> [] | Some m \<Rightarrow> m) []
      in if om_has ''user-agent'' headers then headers else om_insert ''user-agent'' ''WebPipe/1.0'' headers)"

definition request_of_options :: "'w http_client \<Rightarrow> fetch_options \<Rightarrow> fetch_request" where
  "request_of_options client fo =
     \<lparr> hq_method = (case hc_method client (fo_method fo) of None \<Rightarrow> ''GET'' | Some m \<Rightarrow> m),
       hq_url = fo_url fo, hq_timeout = fo_timeout fo,
       hq_headers = request_headers client (fo_headers fo), hq_body = fo_body fo \<rparr>"

section \<open>The outcome\<close>

definition response_headers :: "'w http_client \<Rightarrow> fetch_response \<Rightarrow> json_map" where
  "response_headers client r =
     (let m = fold (\<lambda>(k, v). om_insert k (case v of None \<Rightarrow> [] | Some s \<Rightarrow> s)) (hr_headers r) []
      in map (\<lambda>(k, v). (k, JString v)) (hc_order client m))"

definition status_success :: "u16 \<Rightarrow> bool" where
  "status_success s \<longleftrightarrow> 200 \<le> s \<and> s < 300"

definition json_u16 :: "u16 \<Rightarrow> json" where
  "json_u16 s = JNumber (PosInt (ucast s))"

definition fetched ::
  "(json \<Rightarrow> string) \<Rightarrow> 'w http_client \<Rightarrow> string \<Rightarrow> string option \<Rightarrow> json \<Rightarrow> send_error + fetch_response \<Rightarrow> json" where
  "fetched to_text client url target state outcome =
     (let failed = build_fetch_error_object to_text
      in case outcome of
           Inl (TimedOut e) \<Rightarrow> failed ''timeoutError'' (JObject [(''message'', JString e)])
         | Inl (NotSent e) \<Rightarrow> failed ''networkError'' (JObject [(''message'', JString e), (''url'', JString url)])
         | Inr r \<Rightarrow>
             (case hr_body r of
                Inl e \<Rightarrow> failed ''networkError'' (JObject
                  [(''message'', JString (''Failed to read response body: '' @ e)), (''url'', JString url)])
              | Inr text \<Rightarrow>
                  if \<not> status_success (hr_status r) then
                    failed ''httpError'' (JObject
                      [(''status'', json_u16 (hr_status r)), (''message'', JString text), (''url'', JString url)])
                  else
                    (let result = JObject
                       [(''response'', case hc_parse_json client text of None \<Rightarrow> JString text | Some v \<Rightarrow> v),
                        (''status'', json_u16 (hr_status r)), (''headers'', JObject (response_headers client r))]
                     in case target of
                          Some _ \<Rightarrow> result
                        | None \<Rightarrow> map_object (om_insert ''data'' result) state)))"

definition fetch_execute ::
  "'w http_client \<Rightarrow> ('l, 'r, 'w) execution_env \<Rightarrow> (json \<Rightarrow> string) \<Rightarrow> ('l, 'r, 'w) invoker" where
  "fetch_execute client env debug_json name args config target pc m =
     (let to_text = pl_to_text (env_platform env)
      in case fetch_options_of env debug_json args config (pc_state pc) of
           Inl e \<Rightarrow> (Inl e, pc, m)
         | Inr fo \<Rightarrow>
             if fo_url fo = [] then
               (Inr default_output, pc\<lparr>pc_state := build_fetch_error_object to_text ''networkError''
                  (JObject [(''message'', JString ''Missing URL for fetch middleware'')])\<rparr>, m)
             else
               (case hc_send client (request_of_options client fo) (mc_world m) of
                  (outcome, w) \<Rightarrow>
                    (Inr default_output, pc\<lparr>pc_state := fetched to_text client (fo_url fo) target (pc_state pc) outcome\<rparr>,
                     m\<lparr>mc_world := w\<rparr>)))"

section \<open>What a step can rely on\<close>

text \<open>Every request names an agent.\<close>

lemma request_names_agent: "\<exists>agent. map_of (hq_headers (request_of_options client fo)) ''user-agent'' = Some agent"
  by (auto simp: request_of_options_def request_headers_def Let_def om_has_def map_of_eq_None_iff
      dest: weak_map_of_SomeI)

text \<open>
  The error type of a state that fetch has left, which selects the branch of a following result step:
  by the kind of failure, and none for a success with a target.
\<close>

definition fetch_error_type :: "json \<Rightarrow> string option" where
  "fetch_error_type v =
     (case Option.bind (json_get ''errors'' v) as_array of
        Some (e # _) \<Rightarrow> Option.bind (json_get ''type'' e) as_str
      | _ \<Rightarrow> None)"

lemma failure_type: "fetch_error_type (build_fetch_error_object to_text t (JObject m)) =
    (case map_of (rev m) ''type'' of None \<Rightarrow> Some t | Some v \<Rightarrow> as_str v)"
  by (simp add: fetch_error_type_def build_fetch_error_object_def om_insert_all_lookup split: option.splits)

lemma fetched_type:
  "fetch_error_type (fetched to_text client url (Some name) state outcome) =
     (case outcome of
        Inl (TimedOut _) \<Rightarrow> Some ''timeoutError''
      | Inl (NotSent _) \<Rightarrow> Some ''networkError''
      | Inr r \<Rightarrow> (case hr_body r of
          Inl _ \<Rightarrow> Some ''networkError''
        | Inr _ \<Rightarrow> if status_success (hr_status r) then None else Some ''httpError''))"
  by (simp add: fetched_def failure_type Let_def split: sum.splits send_error.splits)
    (simp add: fetch_error_type_def)

text \<open>Without a target, the answer to a state that is no object is dropped.\<close>

lemma answer_is_dropped:
  assumes "hr_body r = Inr text" and "status_success (hr_status r)" and "as_object state = None"
  shows "fetched to_text client url None state (Inr r) = state"
  using assms by (cases state) (simp_all add: fetched_def Let_def)

text \<open>Of a header that is sent more than once, cookies among them, the last value is kept.\<close>

lemma last_header_wins:
  assumes "hr_headers r = hs @ [(k, Some v)]" and "hc_order client = (\<lambda>m. m)"
  shows "map_of (response_headers client r) k = Some (JString v)"
  using assms by (simp add: response_headers_def Let_def map_of_map comp_def case_prod_beta)

end
