(* ===== verification/Lua_Values.thy ===== *)
theory Lua_Values
  imports Fmt Dap_Framing "HOL-Library.Multiset"
begin

text \<open>
  JSON values as Lua values and back (\<^verbatim>\<open>json_to_lua\<close> and \<^verbatim>\<open>lua_to_json_with_depth\<close> of
  \<^verbatim>\<open>src/middleware/lua.rs\<close>). A Lua table is the list of its entries; the order in which
  \<^verbatim>\<open>pairs\<close> gives them is the interpreter's, an argument. A Lua string is any bytes; an integer
  has 64 bits and is kept as the number it is.
\<close>

datatype lua_value =
    LuaNil
  | LuaBoolean bool
  | LuaInteger int
  | LuaNumber u64
  | LuaString string
  | LuaTable "(lua_value \<times> lua_value) list"
  | LuaOther

type_synonym lua_table = "(lua_value \<times> lua_value) list"

record lua_libs =
  lu_pairs :: "lua_table \<Rightarrow> lua_table"
  lu_number_text :: "u64 \<Rightarrow> string"

section \<open>To Lua\<close>

definition f64_of_nat :: "nat \<Rightarrow> u64" where
  "f64_of_nat n = f64_bits False (case f64_ratio n 1 of None \<Rightarrow> 0 | Some b \<Rightarrow> b)"

text \<open>\<^verbatim>\<open>table.set\<close>: nil removes a key, as in Lua.\<close>

fun lua_set :: "lua_value \<Rightarrow> lua_value \<Rightarrow> lua_table \<Rightarrow> lua_table" where
  "lua_set k v [] = (if v = LuaNil then [] else [(k, v)])"
| "lua_set k v ((k', v') # t) =
     (if k = k' then (if v = LuaNil then t else (k, v) # t) else (k', v') # lua_set k v t)"

definition lua_table_of :: "(lua_value \<times> lua_value) list \<Rightarrow> lua_table" where
  "lua_table_of es = fold (\<lambda>(k, v). lua_set k v) es []"

definition number_to_lua :: "number \<Rightarrow> lua_value" where
  "number_to_lua n =
     (case as_i64 (JNumber n) of
        Some i \<Rightarrow> LuaInteger i
      | None \<Rightarrow> (case n of Float f \<Rightarrow> LuaNumber f | PosInt u \<Rightarrow> LuaNumber (f64_of_nat (unat u)) | NegInt u \<Rightarrow> LuaNumber 0))"

text \<open>The positions of a list, from one, as keys.\<close>

definition positions :: "'a list \<Rightarrow> (int \<times> 'a) list" where
  "positions xs = zip (map (\<lambda>i. int i + 1) [0..<length xs]) xs"

fun json_to_lua :: "json \<Rightarrow> lua_value" where
  "json_to_lua JNull = LuaNil"
| "json_to_lua (JBool b) = LuaBoolean b"
| "json_to_lua (JNumber n) = number_to_lua n"
| "json_to_lua (JString s) = LuaString s"
| "json_to_lua (JArray xs) =
     LuaTable (lua_table_of (map (\<lambda>(i, v). (LuaInteger i, v)) (positions (map json_to_lua xs))))"
| "json_to_lua (JObject m) = LuaTable (lua_table_of (map (\<lambda>(k, v). (LuaString k, json_to_lua v)) m))"

section \<open>From Lua\<close>

definition f64_finite :: "u64 \<Rightarrow> bool" where
  "f64_finite f \<longleftrightarrow> (unat f div 2 ^ 52) mod 2 ^ 11 \<noteq> 2047"

definition json_of_i64 :: "int \<Rightarrow> json" where
  "json_of_i64 i = JNumber (if 0 \<le> i then PosInt (of_int i) else NegInt (of_int i))"

definition index_of :: "lua_value \<times> lua_value \<Rightarrow> int" where
  "index_of e = (case fst e of LuaInteger i \<Rightarrow> i | _ \<Rightarrow> 0)"

definition positive_key :: "lua_value \<times> lua_value \<Rightarrow> bool" where
  "positive_key e \<longleftrightarrow> (case fst e of LuaInteger i \<Rightarrow> 0 < i | _ \<Rightarrow> False)"

text \<open>A table is a sequence when its keys are positive and as many as the greatest of them.\<close>

definition is_sequence :: "lua_table \<Rightarrow> bool" where
  "is_sequence t \<longleftrightarrow> t \<noteq> [] \<and> list_all positive_key t \<and> int (length t) = fold max (map index_of t) 0"

definition lua_key_text :: "lua_libs \<Rightarrow> lua_value \<Rightarrow> string" where
  "lua_key_text lib k =
     (case k of
        LuaString s \<Rightarrow> if utf8_valid s then s else ''[invalid key]''
      | LuaInteger i \<Rightarrow> show_int i
      | LuaNumber n \<Rightarrow> lu_number_text lib n
      | _ \<Rightarrow> ''[unsupported key]'')"

function lua_to_json :: "lua_libs \<Rightarrow> nat \<Rightarrow> lua_value \<Rightarrow> json" where
  "lua_to_json lib depth v =
     (if 20 < depth then JString ''[max depth exceeded]''
      else case v of
        LuaNil \<Rightarrow> JNull
      | LuaBoolean b \<Rightarrow> JBool b
      | LuaInteger i \<Rightarrow> json_of_i64 i
      | LuaNumber f \<Rightarrow> if f64_finite f then JNumber (Float f) else json_of_i64 0
      | LuaString s \<Rightarrow> JString (if utf8_valid s then s else ''[invalid utf8]'')
      | LuaTable t \<Rightarrow>
          (let ps = lu_pairs lib t
           in if is_sequence ps then JArray (map (\<lambda>e. lua_to_json lib (Suc depth) (snd e)) (sort_key index_of ps))
              else JObject (om_insert_all
                (map (\<lambda>e. (lua_key_text lib (fst e), lua_to_json lib (Suc depth) (snd e))) ps) []))
      | LuaOther \<Rightarrow> JString ''[unsupported lua type]'')"
  by pat_completeness auto
termination by (relation "measure (\<lambda>(lib, depth, v). 21 - depth)") auto

declare lua_to_json.simps [simp del]

section \<open>What becomes of a value\<close>

text \<open>
  Seen through Lua: entries that are null are not there. A list whose nulls are all at its end is
  shorter; one with other nulls, and the empty one, becomes an object. An integer beyond 63 bits is
  rounded to a float.
\<close>

definition float_view :: "u64 \<Rightarrow> json" where
  "float_view f = (if f64_finite f then JNumber (Float f) else json_of_i64 0)"

definition number_view :: "number \<Rightarrow> json" where
  "number_view n =
     (case n of
        PosInt u \<Rightarrow> if unat u < 2 ^ 63 then JNumber n else float_view (f64_of_nat (unat u))
      | NegInt u \<Rightarrow> json_of_i64 (sint u)
      | Float f \<Rightarrow> float_view f)"

definition without_null :: "('a \<times> json) list \<Rightarrow> ('a \<times> json) list" where
  "without_null es = filter (\<lambda>e. snd e \<noteq> JNull) es"

definition list_view :: "(int \<times> json) list \<Rightarrow> json" where
  "list_view es =
     (if es \<noteq> [] \<and> map fst es = map (\<lambda>i. int i + 1) [0..<length es] then JArray (map snd es)
      else JObject (map (\<lambda>(i, v). (show_int i, v)) es))"

fun lua_view :: "json \<Rightarrow> json" where
  "lua_view JNull = JNull"
| "lua_view (JBool b) = JBool b"
| "lua_view (JNumber n) = number_view n"
| "lua_view (JString s) = JString s"
| "lua_view (JArray xs) = list_view (without_null (positions (map lua_view xs)))"
| "lua_view (JObject m) = JObject (without_null (map (\<lambda>(k, v). (k, lua_view v)) m))"

text \<open>Values that Lua gives back as they are.\<close>

fun lua_safe :: "json \<Rightarrow> bool" where
  "lua_safe (JNumber (PosInt n)) = (unat n < 2 ^ 63)"
| "lua_safe (JNumber (NegInt n)) = (sint n < 0)"
| "lua_safe (JNumber (Float f)) = f64_finite f"
| "lua_safe (JArray xs) = (xs \<noteq> [] \<and> (\<forall>x \<in> set xs. x \<noteq> JNull \<and> lua_safe x))"
| "lua_safe (JObject m) = (\<forall>e \<in> set m. snd e \<noteq> JNull \<and> lua_safe (snd e))"
| "lua_safe _ = True"

fun json_depth :: "json \<Rightarrow> nat" where
  "json_depth (JArray xs) = Suc (fold max (map json_depth xs) 0)"
| "json_depth (JObject m) = Suc (fold max (map (\<lambda>e. json_depth (snd e)) m) 0)"
| "json_depth _ = 0"

fun utf8_json :: "json \<Rightarrow> bool" where
  "utf8_json (JString s) = utf8_valid s"
| "utf8_json (JArray xs) = (\<forall>x \<in> set xs. utf8_json x)"
| "utf8_json (JObject m) = (\<forall>e \<in> set m. utf8_valid (fst e) \<and> utf8_json (snd e))"
| "utf8_json _ = True"

lemma positions_fst: "map fst (positions xs) = map (\<lambda>i. int i + 1) [0..<length xs]"
  by (simp add: positions_def)

lemma positions_snd: "map snd (positions xs) = xs"
  by (simp add: positions_def)

lemma positions_map: "positions (map f xs) = map (\<lambda>(i, x). (i, f x)) (positions xs)"
  by (simp add: positions_def zip_map2)

lemma lua_view_safe: "lua_safe v \<Longrightarrow> lua_view v = v"
proof (induction v)
  case (JNumber n)
  show ?case
  proof (cases n)
    case (NegInt u)
    with JNumber show ?thesis by (simp add: number_view_def json_of_i64_def)
  qed (use JNumber in \<open>simp_all add: number_view_def float_view_def\<close>)
next
  case (JArray xs)
  have "map lua_view xs = xs" using JArray by (intro map_idI) auto
  moreover have "without_null (positions xs) = positions xs"
  proof -
    have "snd e \<noteq> JNull" if "e \<in> set (positions xs)" for e
    proof -
      have "snd e \<in> set (map snd (positions xs))" using that by simp
      then show ?thesis using JArray.prems by (auto simp: positions_snd)
    qed
    then show ?thesis by (simp add: without_null_def filter_id_conv)
  qed
  moreover have "positions xs \<noteq> []" "length (positions xs) = length xs"
    using JArray.prems positions_snd [of xs] by (force, metis length_map)
  ultimately show ?case using JArray.prems by (simp add: list_view_def positions_fst positions_snd)
next
  case (JObject m)
  have "map (\<lambda>(k, v). (k, lua_view v)) m = m" using JObject by (intro map_idI) auto
  moreover have "without_null m = m" using JObject.prems by (simp add: without_null_def filter_id_conv)
  ultimately show ?case by simp
qed simp_all


section \<open>Tables\<close>

lemma lua_set_fresh: "k \<notin> fst ` set t \<Longrightarrow> lua_set k v t = (if v = LuaNil then t else t @ [(k, v)])"
  by (induction t) auto

definition without_nil :: "('a \<times> lua_value) list \<Rightarrow> ('a \<times> lua_value) list" where
  "without_nil es = filter (\<lambda>e. snd e \<noteq> LuaNil) es"

lemma lua_table_fold:
  "distinct (map fst es) \<Longrightarrow> fst ` set t \<inter> fst ` set es = {} \<Longrightarrow> fold (\<lambda>(k, v). lua_set k v) es t = t @ without_nil es"
proof (induction es arbitrary: t)
  case (Cons e es)
  obtain k v where e: "e = (k, v)" by (cases e)
  have k: "k \<notin> fst ` set t" using Cons.prems(2) by (auto simp: e)
  have "fst ` set (lua_set k v t) \<inter> fst ` set es = {}"
    using Cons.prems by (auto simp: lua_set_fresh [OF k] e)
  with Cons.IH [of "lua_set k v t"] Cons.prems(1) show ?case
    by (simp add: e lua_set_fresh [OF k] without_nil_def)
qed (simp add: without_nil_def)

lemma lua_table_of_distinct: "distinct (map fst es) \<Longrightarrow> lua_table_of es = without_nil es"
  unfolding lua_table_of_def by (subst lua_table_fold) simp_all

lemma json_to_lua_nil [simp]: "json_to_lua v = LuaNil \<longleftrightarrow> v = JNull"
  by (cases v) (auto simp: number_to_lua_def split: option.splits number.splits)

lemma lua_view_null [simp]: "lua_view v = JNull \<longleftrightarrow> v = JNull"
  by (cases v) (auto simp: number_view_def float_view_def json_of_i64_def list_view_def split: number.splits)

definition array_entries :: "json list \<Rightarrow> (int \<times> json) list" where
  "array_entries xs = without_null (positions xs)"

lemma array_entries_distinct: "distinct (map fst (array_entries xs))"
proof -
  have "distinct (map fst (positions xs))" by (simp add: positions_fst distinct_map inj_on_def)
  then show ?thesis by (simp add: array_entries_def without_null_def distinct_map_filter)
qed

lemma array_entries_sorted: "sorted (map fst (array_entries xs))"
proof -
  have "sorted (map fst (positions xs))" by (auto simp: positions_fst sorted_iff_nth_mono)
  then show ?thesis by (simp add: array_entries_def without_null_def sorted_filter)
qed

lemma array_entries_positive: "e \<in> set (array_entries xs) \<Longrightarrow> 0 < fst e"
proof -
  assume "e \<in> set (array_entries xs)"
  then have "fst e \<in> set (map fst (positions xs))" by (auto simp: array_entries_def without_null_def)
  then show "0 < fst e" by (auto simp: positions_fst)
qed

lemma array_table:
  "lua_table_of (map (\<lambda>(i, v). (LuaInteger i, v)) (positions (map json_to_lua xs))) =
     map (\<lambda>(i, v). (LuaInteger i, json_to_lua v)) (array_entries xs)"
proof -
  have "distinct (map fst (map (\<lambda>(i, v). (LuaInteger i, v)) (positions (map json_to_lua xs))))"
  proof -
    have "map fst (map (\<lambda>(i, v). (LuaInteger i, v)) (positions (map json_to_lua xs))) =
        map LuaInteger (map fst (positions (map json_to_lua xs)))" by (simp add: comp_def case_prod_beta)
    then show ?thesis unfolding positions_fst by (simp add: distinct_map inj_on_def)
  qed
  from lua_table_of_distinct [OF this] show ?thesis
    by (simp add: without_nil_def array_entries_def without_null_def positions_map filter_map comp_def case_prod_beta)
qed

lemma array_view: "lua_view (JArray xs) = list_view (map (\<lambda>(i, v). (i, lua_view v)) (array_entries xs))"
  by (simp add: array_entries_def without_null_def positions_map filter_map comp_def case_prod_beta)

lemma object_table:
  "wf_omap m \<Longrightarrow> lua_table_of (map (\<lambda>(k, v). (LuaString k, json_to_lua v)) m) =
     map (\<lambda>(k, v). (LuaString k, json_to_lua v)) (without_null m)"
  by (subst lua_table_of_distinct)
    (simp_all add: comp_def case_prod_beta distinct_map inj_on_def without_nil_def without_null_def filter_map)

lemma object_view: "lua_view (JObject m) = JObject (map (\<lambda>(k, v). (k, lua_view v)) (without_null m))"
  by (simp add: without_null_def filter_map comp_def case_prod_beta)

section \<open>Sequences\<close>

text \<open>Whether a table is a sequence does not depend on the order in which it is walked.\<close>

lemma fold_max_mset: "mset (xs :: int list) = mset ys \<Longrightarrow> fold max xs 0 = fold max ys 0"
  by (rule fun_cong [OF fold_multiset_equiv]) (auto simp: fun_eq_iff max.left_commute)

lemma is_sequence_order: "mset ps = mset t \<Longrightarrow> is_sequence ps = is_sequence t"
proof -
  assume m: "mset ps = mset t"
  then have "set ps = set t" "length ps = length t" by (metis set_mset_mset, metis size_mset)
  moreover have "fold max (map index_of ps) 0 = fold max (map index_of t) 0"
    using m by (intro fold_max_mset) simp
  ultimately show ?thesis by (auto simp: is_sequence_def list_all_iff)
qed

lemma fold_max_sorted: "sorted is' \<Longrightarrow> \<forall>i \<in> set is'. (a :: int) \<le> i \<Longrightarrow> fold max is' a = (if is' = [] then a else last is')"
  by (induction is' arbitrary: a) (auto simp: max_def)

text \<open>Increasing positive numbers, as many as the last of them, are the numbers from one.\<close>

lemma consecutive:
  assumes "sorted is'" and "distinct is'" and "\<forall>i \<in> set is'. 0 < i" and "is' \<noteq> []" and "int (length is') = last is'"
  shows "is' = map (\<lambda>i. int i + 1) [0..<length is']"
proof -
  have "set is' \<subseteq> {1..int (length is')}"
  proof
    fix i assume "i \<in> set is'"
    then have "i \<le> last is'" using assms(1) by (cases is' rule: rev_cases) (auto simp: sorted_append)
    with \<open>i \<in> set is'\<close> show "i \<in> {1..int (length is')}" using assms(3,5) by force
  qed
  moreover have "card (set is') = card {1..int (length is')}" using assms(2) by (simp add: distinct_card)
  ultimately have set: "set is' = {1..int (length is')}" by (intro card_subset_eq) simp_all
  let ?js = "map (\<lambda>i. int i + 1) [0..<length is']"
  have "set ?js = {1..int (length is')}"
  proof -
    have "x \<in> (\<lambda>i. int i + 1) ` {0..<n}" if "1 \<le> x" "x \<le> int n" for x n
      using that by (intro image_eqI [of _ _ "nat (x - 1)"]) auto
    then show ?thesis by auto
  qed
  moreover have "sorted ?js" "distinct ?js" by (auto simp: sorted_iff_nth_mono distinct_map inj_on_def)
  ultimately show ?thesis using sorted_distinct_set_unique [OF assms(1,2)] set by blast
qed

lemma array_is_sequence:
  assumes "sorted (map fst es)" and "distinct (map fst es)" and "\<forall>e \<in> set es. 0 < fst e"
  shows "is_sequence (map (\<lambda>(i, v). (LuaInteger i, f v)) es) \<longleftrightarrow>
    es \<noteq> [] \<and> map fst es = map (\<lambda>i. int i + 1) [0..<length es]"
proof -
  have index: "map index_of (map (\<lambda>(i, v). (LuaInteger i, f v)) es) = map fst es"
    by (simp add: index_of_def case_prod_beta)
  have positive: "list_all positive_key (map (\<lambda>(i, v). (LuaInteger i, f v)) es)"
    using assms(3) by (auto simp: list_all_iff positive_key_def)
  have max: "fold max (map fst es) 0 = (if es = [] then 0 else last (map fst es))"
  proof -
    have "\<forall>i \<in> set (map fst es). 0 \<le> i" using assms(3) by (auto intro: less_imp_le)
    then show ?thesis using fold_max_sorted [OF assms(1), of 0] by simp
  qed
  show ?thesis
  proof
    assume "is_sequence (map (\<lambda>(i, v). (LuaInteger i, f v)) es)"
    then have "es \<noteq> []" "int (length (map fst es)) = last (map fst es)"
      using max unfolding is_sequence_def index by auto
    then show "es \<noteq> [] \<and> map fst es = map (\<lambda>i. int i + 1) [0..<length es]"
      using consecutive [OF assms(1,2)] assms(3) by simp
  next
    assume es: "es \<noteq> [] \<and> map fst es = map (\<lambda>i. int i + 1) [0..<length es]"
    then have "last (map fst es) = int (length es)" by (cases "length es") (auto simp: last_map)
    with es max positive show "is_sequence (map (\<lambda>(i, v). (LuaInteger i, f v)) es)"
      unfolding is_sequence_def index by simp
  qed
qed


section \<open>There and back\<close>

lemma json_eq_arrays:
  "\<forall>e \<in> set es. json_eq (f e) (g e) \<Longrightarrow> json_eq (JArray (map f es)) (JArray (map g es))"
  by (auto simp: zip_map_map zip_same_conv_map)

lemma json_eq_objects:
  assumes "wf_omap b" and "length a = length b" and "\<forall>e \<in> set a. \<exists>v'. (fst e, v') \<in> set b \<and> json_eq (snd e) v'"
  shows "json_eq (JObject a) (JObject b)"
proof -
  have "case map_of b k of None \<Rightarrow> False | Some v' \<Rightarrow> json_eq v v'" if "(k, v) \<in> set a" for k v
    using assms(1,3) that by (auto dest!: bspec simp: map_of_is_SomeI)
  with assms(2) show ?thesis by auto
qed

lemma show_nat_inj: "show_nat m = show_nat n \<Longrightarrow> m = n"
  by (metis digits_val_show_nat)

lemma show_int_inj: "0 < i \<Longrightarrow> 0 < j \<Longrightarrow> show_int i = show_int j \<Longrightarrow> i = j"
  using show_nat_inj [of "nat i" "nat j"] by (simp add: show_int_def)

text \<open>A table whose keys have distinct texts is read as the object of its entries, in any order.\<close>

lemma table_object:
  assumes "mset ps = mset (map (\<lambda>(k, v). (key k, json_to_lua v)) es)"
    and "\<And>e. e \<in> set es \<Longrightarrow> lua_key_text lib (key (fst e)) = txt (fst e)"
    and "distinct (map (\<lambda>e. txt (fst e)) es)"
    and "\<And>e. e \<in> set es \<Longrightarrow> json_eq (lua_to_json lib d (json_to_lua (snd e))) (lua_view (snd e))"
  shows "json_eq (JObject (om_insert_all (map (\<lambda>e. (lua_key_text lib (fst e), lua_to_json lib d (snd e))) ps) []))
    (JObject (map (\<lambda>(k, v). (txt k, lua_view v)) es))"
proof -
  let ?t = "map (\<lambda>(k, v). (key k, json_to_lua v)) es"
  let ?read = "\<lambda>e. (lua_key_text lib (fst e), lua_to_json lib d (snd e))"
  have set: "set ps = set ?t" using assms(1) by (metis set_mset_mset)
  have len: "length ps = length es" using assms(1) by (metis length_map size_mset)
  have "map (\<lambda>e. lua_key_text lib (fst e)) ?t = map (\<lambda>e. txt (fst e)) es"
    using assms(2) by (simp add: case_prod_beta)
  with assms(3) have "distinct (map (\<lambda>e. lua_key_text lib (fst e)) ?t)" by (simp only:)
  moreover have "mset (map (\<lambda>e. lua_key_text lib (fst e)) ps) = mset (map (\<lambda>e. lua_key_text lib (fst e)) ?t)"
    unfolding mset_map [of _ ps] mset_map [of "\<lambda>e. lua_key_text lib (fst e)" ?t] assms(1) ..
  ultimately have distinct: "distinct (map (\<lambda>e. lua_key_text lib (fst e)) ps)"
    by (metis mset_eq_imp_distinct_iff)
  then have "wf_omap (map ?read ps)" by (simp add: comp_def)
  then have all: "om_insert_all (map ?read ps) [] = map ?read ps"
    using om_insert_all_fresh [of "map ?read ps" "[]"] by simp
  show ?thesis
    unfolding all
  proof (rule json_eq_objects)
    show "wf_omap (map (\<lambda>(k, v). (txt k, lua_view v)) es)" using assms(3) by (simp add: comp_def case_prod_beta)
    show "length (map ?read ps) = length (map (\<lambda>(k, v). (txt k, lua_view v)) es)" by (simp add: len)
    show "\<forall>e \<in> set (map ?read ps). \<exists>v'. (fst e, v') \<in> set (map (\<lambda>(k, v). (txt k, lua_view v)) es) \<and> json_eq (snd e) v'"
    proof
      fix e assume "e \<in> set (map ?read ps)"
      then obtain x where x: "x \<in> set es" "e = ?read (key (fst x), json_to_lua (snd x))"
        unfolding set set_map by (auto simp: case_prod_beta)
      with assms(2,4) show "\<exists>v'. (fst e, v') \<in> set (map (\<lambda>(k, v). (txt k, lua_view v)) es) \<and> json_eq (snd e) v'"
        by (intro exI [of _ "lua_view (snd x)"]) (auto simp: case_prod_beta intro!: rev_image_eqI [of x])
    qed
  qed
qed

text \<open>A sequence is read in the order of its indices.\<close>

lemma sequence_sorted:
  assumes "mset ps = mset (map (\<lambda>(i, v). (LuaInteger i, f v)) es)" and "sorted (map fst es)" and "distinct (map fst es)"
  shows "sort_key index_of ps = map (\<lambda>(i, v). (LuaInteger i, f v)) es"
proof (rule sort_key_inj_key_eq [OF assms(1)])
  have set: "set ps = set (map (\<lambda>(i, v). (LuaInteger i, f v)) es)" using assms(1) by (metis set_mset_mset)
  have "b = c" if "(i, b) \<in> set es" "(i, c) \<in> set es" for i b c
    by (rule eq_key_imp_eq_value [OF assms(3) that])
  then show "inj_on index_of (set ps)" unfolding set by (auto simp: inj_on_def index_of_def) metis
  show "sorted (map index_of (map (\<lambda>(i, v). (LuaInteger i, f v)) es))"
    using assms(2) by (simp add: comp_def case_prod_beta index_of_def)
qed

lemma fold_max_nat: "x \<in> set xs \<Longrightarrow> (x :: nat) \<le> fold max xs a"
proof (induction xs arbitrary: a)
  case (Cons y xs)
  have "b \<le> fold max xs b" for b by (induction xs arbitrary: b) (auto intro: le_trans [OF max.cobounded2])
  with Cons show ?case by (auto intro: le_trans [OF max.cobounded1])
qed simp

lemma lua_to_json_table:
  "d \<le> 20 \<Longrightarrow> lua_to_json lib d (LuaTable t) =
     (if is_sequence (lu_pairs lib t)
      then JArray (map (\<lambda>e. lua_to_json lib (Suc d) (snd e)) (sort_key index_of (lu_pairs lib t)))
      else JObject (om_insert_all
        (map (\<lambda>e. (lua_key_text lib (fst e), lua_to_json lib (Suc d) (snd e))) (lu_pairs lib t)) []))"
  by (simp add: lua_to_json.simps [of lib d] Let_def)

lemma lua_to_json_simple:
  "d \<le> 20 \<Longrightarrow> lua_to_json lib d LuaNil = JNull"
  "d \<le> 20 \<Longrightarrow> lua_to_json lib d (LuaBoolean b) = JBool b"
  "d \<le> 20 \<Longrightarrow> lua_to_json lib d (LuaString s) = JString (if utf8_valid s then s else ''[invalid utf8]'')"
  by (simp_all add: lua_to_json.simps [of lib d])

lemma lua_sees:
  assumes "\<And>t. mset (lu_pairs lib t) = mset t"
  shows "wf_json v \<Longrightarrow> utf8_json v \<Longrightarrow> d + json_depth v \<le> 20 \<Longrightarrow>
    json_eq (lua_to_json lib d (json_to_lua v)) (lua_view v)"
proof (induction v arbitrary: d)
  case (JNumber n)
  then show ?case
    by (cases n) (simp_all add: lua_to_json.simps [of lib d] number_to_lua_def as_i64_def number_view_def float_view_def json_of_i64_def)
next
  case (JArray xs)
  let ?es = "array_entries xs"
  let ?t = "map (\<lambda>(i, v). (LuaInteger i, json_to_lua v)) ?es"
  note sorted = array_entries_sorted [of xs] and distinct = array_entries_distinct [of xs]
  have member: "snd e \<in> set xs" if "e \<in> set ?es" for e
  proof -
    have "snd e \<in> set (map snd (positions xs))" using that by (auto simp: array_entries_def without_null_def)
    then show ?thesis by (simp add: positions_snd)
  qed
  have IH: "json_eq (lua_to_json lib (Suc d) (json_to_lua (snd e))) (lua_view (snd e))" if "e \<in> set ?es" for e
  proof (rule JArray.IH [OF member [OF that]])
    have "json_depth (snd e) \<le> fold max (map json_depth xs) 0" by (rule fold_max_nat) (use member [OF that] in simp)
    with JArray.prems(3) show "Suc d + json_depth (snd e) \<le> 20" by simp
  qed (use JArray.prems member [OF that] in auto)
  have ps: "mset (lu_pairs lib ?t) = mset ?t" by (rule assms)
  have seq: "is_sequence (lu_pairs lib ?t) \<longleftrightarrow> ?es \<noteq> [] \<and> map fst ?es = map (\<lambda>i. int i + 1) [0..<length ?es]"
    unfolding is_sequence_order [OF ps] using array_is_sequence [OF sorted distinct] array_entries_positive by blast
  have d: "d \<le> 20" using JArray.prems(3) by simp
  show ?case
  proof (cases "is_sequence (lu_pairs lib ?t)")
    case True
    have "json_eq (JArray (map (\<lambda>e. lua_to_json lib (Suc d) (json_to_lua (snd e))) ?es)) (JArray (map (\<lambda>e. lua_view (snd e)) ?es))"
      using IH by (intro json_eq_arrays) blast
    moreover have "lua_view (JArray xs) = JArray (map (\<lambda>e. lua_view (snd e)) ?es)"
      using True seq unfolding array_view list_view_def by (simp add: comp_def case_prod_beta)
    moreover have "lua_to_json lib d (json_to_lua (JArray xs)) = JArray (map (\<lambda>e. lua_to_json lib (Suc d) (json_to_lua (snd e))) ?es)"
      unfolding json_to_lua.simps array_table lua_to_json_table [OF d] if_P [OF True] sequence_sorted [OF ps sorted distinct]
      by (simp add: comp_def case_prod_beta)
    ultimately show ?thesis by simp
  next
    case False
    have keys: "lua_key_text lib (LuaInteger (fst e)) = show_int (fst e)" for e :: "int \<times> json" by (simp add: lua_key_text_def)
    have "distinct (map (\<lambda>e. show_int (fst e)) ?es)"
    proof -
      have "inj_on show_int (set (map fst ?es))"
        using array_entries_positive [of _ xs] by (auto simp: inj_on_def intro: show_int_inj)
      then show ?thesis using distinct distinct_map [of show_int "map fst ?es"] by (simp add: comp_def)
    qed
    from table_object [OF ps keys this IH]
    have "json_eq (JObject (om_insert_all
        (map (\<lambda>e. (lua_key_text lib (fst e), lua_to_json lib (Suc d) (snd e))) (lu_pairs lib ?t)) []))
      (JObject (map (\<lambda>(k, v). (show_int k, lua_view v)) ?es))" .
    moreover have "lua_view (JArray xs) = JObject (map (\<lambda>(k, v). (show_int k, lua_view v)) ?es)"
      using False seq unfolding array_view list_view_def by (auto simp: comp_def case_prod_beta)
    ultimately show ?thesis
      unfolding json_to_lua.simps array_table lua_to_json_table [OF d] if_not_P [OF False] by simp
  qed
next
  case (JObject m)
  let ?es = "without_null m"
  let ?t = "map (\<lambda>(k, v). (LuaString k, json_to_lua v)) ?es"
  have wf: "wf_omap m" using JObject.prems(1) by simp
  have member: "e \<in> set m" if "e \<in> set ?es" for e using that by (simp add: without_null_def)
  have IH: "json_eq (lua_to_json lib (Suc d) (json_to_lua (snd e))) (lua_view (snd e))" if "e \<in> set ?es" for e
  proof (rule JObject.IH [OF member [OF that]])
    show "snd e \<in> Basic_BNFs.snds e" by (cases e) simp
    have "json_depth (snd e) \<le> fold max (map (\<lambda>e. json_depth (snd e)) m) 0"
      by (rule fold_max_nat) (use member [OF that] in simp)
    with JObject.prems(3) show "Suc d + json_depth (snd e) \<le> 20" by simp
  qed (use JObject.prems member [OF that] in auto)
  have ps: "mset (lu_pairs lib ?t) = mset ?t" by (rule assms)
  have d: "d \<le> 20" using JObject.prems(3) by simp
  have "\<not> is_sequence (lu_pairs lib ?t)"
    unfolding is_sequence_order [OF ps] by (auto simp: is_sequence_def positive_key_def neq_Nil_conv)
  moreover have keys: "lua_key_text lib (LuaString (fst e)) = id (fst e)" if "e \<in> set ?es" for e
    using JObject.prems(2) member [OF that] by (simp add: lua_key_text_def)
  moreover have "distinct (map (\<lambda>e. id (fst e)) ?es)" using wf by (simp add: without_null_def distinct_map_filter)
  ultimately show ?case
    using table_object [OF ps keys _ IH] unfolding json_to_lua.simps object_table [OF wf] lua_to_json_table [OF d] object_view
    by simp
qed (simp_all add: lua_to_json_simple)

text \<open>
  C37: What Lua makes of a value: handed to a script and returned as it is, a value up to twenty levels
  deep comes back as its view, up to the order of object entries, in whatever order the interpreter
  walks its tables; and the view of a value without nulls inside, without empty lists and with
  integers of at most 63 bits is the value itself. Otherwise null entries are gone, a list with a
  null inside and the empty list come back as objects.
\<close>

theorem lua_round_trip:
  assumes "\<And>t. mset (lu_pairs lib t) = mset t" and "wf_json v" and "utf8_json v" and "json_depth v \<le> 20"
  shows "json_eq (lua_to_json lib 0 (json_to_lua v)) (lua_view v) \<and> (lua_safe v \<longrightarrow> lua_view v = v)"
  using lua_sees [OF assms(1), of v 0] assms(2-4) lua_view_safe by simp

definition sample_lua :: lua_libs where
  "sample_lua = \<lparr> lu_pairs = rev, lu_number_text = (\<lambda>f. ''0.5'') \<rparr>"

theorem lua_round_trip_witness:
  "json_eq (lua_to_json sample_lua 0 (json_to_lua (JObject [(''a'', JArray [json_nat 1, JNull, JBool True]), (''b'', JArray [])])))
     (JObject [(''a'', JObject [(''1'', json_nat 1), (''3'', JBool True)]), (''b'', JObject [])])"
proof -
  let ?v = "JObject [(''a'', JArray [json_nat 1, JNull, JBool True]), (''b'', JArray [])]"
  have perm: "mset (lu_pairs sample_lua t) = mset t" for t by (simp add: sample_lua_def)
  have wf: "wf_json ?v" and utf8: "utf8_json ?v" and depth: "json_depth ?v \<le> 20" by code_simp+
  have digits: "show_int 1 = ''1''" "show_int 3 = ''3''" by code_simp+
  have view: "lua_view ?v = JObject [(''a'', JObject [(''1'', json_nat 1), (''3'', JBool True)]), (''b'', JObject [])]"
    by (simp add: number_view_def json_nat_def list_view_def without_null_def positions_def upt_rec digits)
  note trip = lua_round_trip [of sample_lua, OF perm wf utf8 depth]
  show ?thesis by (rule conjunct1 [OF trip, unfolded view])
qed

end
