(* ===== verification/Js_Values.thy ===== *)
theory Js_Values
  imports Lua_Values
begin

text \<open>
  JSON values as JavaScript values and back (\<^verbatim>\<open>json_to_js\<close> and \<^verbatim>\<open>js_to_json_with_depth\<close>
  of \<^verbatim>\<open>src/middleware/js.rs\<close>). A JavaScript value is what reading it gives: an array is its
  elements, an object its own properties, each of which may throw when it is read; a text with a
  lone surrogate is \<^const>\<open>None\<close>, and so is a symbol as a key. How a number of Rust becomes a
  number of the interpreter, and the order of an object's properties, are arguments.
\<close>

datatype js_key = KeyText "string option" | KeySymbol nat

datatype js_value =
    JsUndefined
  | JsNull
  | JsBoolean bool
  | JsInteger int
  | JsRational u64
  | JsText "string option"
  | JsBigInt "string option"
  | JsArrayOf "(string + js_value) list"
  | JsObjectOf "(js_key \<times> (string + js_value)) list"
  | JsSymbol

record js_libs =
  jl_of_i64 :: "int \<Rightarrow> js_value"
  jl_of_f64 :: "u64 \<Rightarrow> js_value"
  jl_properties :: "(string \<times> js_value) list \<Rightarrow> (string \<times> js_value) list"

section \<open>To JavaScript\<close>

definition number_to_js :: "js_libs \<Rightarrow> number \<Rightarrow> js_value" where
  "number_to_js lib n =
     (case as_i64 (JNumber n) of
        Some i \<Rightarrow> jl_of_i64 lib i
      | None \<Rightarrow>
          (case n of
             Float f \<Rightarrow> jl_of_f64 lib f
           | PosInt u \<Rightarrow> jl_of_f64 lib (f64_of_nat (unat u))
           | NegInt u \<Rightarrow> jl_of_i64 lib 0))"

text \<open>
  Storing a property: a second value takes the place of the first, and \<^verbatim>\<open>__proto__\<close> sets the
  prototype, which is no property of the object.
\<close>

definition proto_key :: string where
  "proto_key = ''__proto__''"

definition js_set :: "string \<times> js_value \<Rightarrow> (string \<times> js_value) list \<Rightarrow> (string \<times> js_value) list" where
  "js_set = (\<lambda>(k, v) ps. if k = proto_key then ps else om_insert k v ps)"

definition js_object_of :: "js_libs \<Rightarrow> (string \<times> js_value) list \<Rightarrow> js_value" where
  "js_object_of lib es = JsObjectOf (map (\<lambda>(k, v). (KeyText (Some k), Inr v)) (jl_properties lib (fold js_set es [])))"

fun json_to_js :: "js_libs \<Rightarrow> json \<Rightarrow> js_value" where
  "json_to_js lib JNull = JsNull"
| "json_to_js lib (JBool b) = JsBoolean b"
| "json_to_js lib (JNumber n) = number_to_js lib n"
| "json_to_js lib (JString s) = JsText (Some s)"
| "json_to_js lib (JArray xs) = JsArrayOf (map (\<lambda>v. Inr (json_to_js lib v)) xs)"
| "json_to_js lib (JObject m) = js_object_of lib (map (\<lambda>(k, v). (k, json_to_js lib v)) m)"

section \<open>From JavaScript\<close>

definition key_to_text :: "js_key \<Rightarrow> string + string" where
  "key_to_text k =
     (case k of
        KeyText s \<Rightarrow> Inr (case s of None \<Rightarrow> ''[invalid key]'' | Some t \<Rightarrow> t)
      | KeySymbol n \<Rightarrow> Inl ''TypeError: cannot convert Symbol to string'')"

text \<open>The first failure ends a conversion.\<close>

fun all_ok :: "('e + 'a) list \<Rightarrow> 'e + 'a list" where
  "all_ok [] = Inr []"
| "all_ok (Inl e # rs) = Inl e"
| "all_ok (Inr v # rs) = (case all_ok rs of Inl e \<Rightarrow> Inl e | Inr vs \<Rightarrow> Inr (v # vs))"

definition js_error :: "string \<Rightarrow> web_pipe_error" where
  "js_error e = MiddlewareExecutionError e"

function js_to_json :: "nat \<Rightarrow> js_value \<Rightarrow> web_pipe_error + json" where
  "js_to_json depth v =
     (if 20 < depth then Inr (JString ''[max depth exceeded]'')
      else case v of
        JsNull \<Rightarrow> Inr JNull
      | JsUndefined \<Rightarrow> Inr JNull
      | JsBoolean b \<Rightarrow> Inr (JBool b)
      | JsInteger i \<Rightarrow> Inr (json_of_i64 i)
      | JsRational f \<Rightarrow> Inr (if f64_finite f then JNumber (Float f) else json_of_i64 0)
      | JsText s \<Rightarrow> Inr (JString (case s of None \<Rightarrow> ''[invalid utf8]'' | Some t \<Rightarrow> t))
      | JsBigInt s \<Rightarrow> Inr (JString (case s of None \<Rightarrow> ''[bigint]'' | Some t \<Rightarrow> t))
      | JsArrayOf xs \<Rightarrow>
          (case all_ok (map (\<lambda>r. case r of Inl e \<Rightarrow> Inl (js_error e) | Inr x \<Rightarrow> js_to_json (Suc depth) x) xs) of
             Inl e \<Rightarrow> Inl e
           | Inr vs \<Rightarrow> Inr (JArray vs))
      | JsObjectOf ps \<Rightarrow>
          (case all_ok (map (\<lambda>(k, r).
                   case key_to_text k of
                     Inl e \<Rightarrow> Inl (js_error e)
                   | Inr t \<Rightarrow>
                       (case r of
                          Inl e \<Rightarrow> Inl (js_error e)
                        | Inr x \<Rightarrow>
                            (case js_to_json (Suc depth) x of Inl e \<Rightarrow> Inl e | Inr j \<Rightarrow> Inr (t, j)))) ps) of
             Inl e \<Rightarrow> Inl e
           | Inr es \<Rightarrow> Inr (JObject (om_insert_all es [])))
      | JsSymbol \<Rightarrow> Inr (JString ''[symbol]''))"
  by pat_completeness auto
termination by (relation "measure (\<lambda>(depth, v). 21 - depth)") auto

declare js_to_json.simps [simp del]

section \<open>What becomes of a value\<close>

text \<open>
  How the interpreter keeps a number: as an integer of 32 bits when it is one of Rust's integers and
  fits, as a float otherwise.
\<close>

definition small_int :: "int \<Rightarrow> bool" where
  "small_int i \<longleftrightarrow> - (2 ^ 31) \<le> i \<and> i < 2 ^ 31"

definition f64_of_int :: "int \<Rightarrow> u64" where
  "f64_of_int i = f64_bits (i < 0) (case f64_ratio (nat \<bar>i\<bar>) 1 of None \<Rightarrow> 0 | Some b \<Rightarrow> b)"

definition keeps_numbers :: "js_libs \<Rightarrow> bool" where
  "keeps_numbers lib \<longleftrightarrow>
     (\<forall>i. jl_of_i64 lib i = (if small_int i then JsInteger i else JsRational (f64_of_int i))) \<and>
     (\<forall>f. jl_of_f64 lib f = JsRational f)"

definition js_number_view :: "number \<Rightarrow> json" where
  "js_number_view n =
     (case as_i64 (JNumber n) of
        Some i \<Rightarrow> if small_int i then json_of_i64 i else float_view (f64_of_int i)
      | None \<Rightarrow> (case n of Float f \<Rightarrow> float_view f | PosInt u \<Rightarrow> float_view (f64_of_nat (unat u)) | NegInt u \<Rightarrow> json_of_i64 0))"

fun js_view :: "json \<Rightarrow> json" where
  "js_view JNull = JNull"
| "js_view (JBool b) = JBool b"
| "js_view (JNumber n) = js_number_view n"
| "js_view (JString s) = JString s"
| "js_view (JArray xs) = JArray (map js_view xs)"
| "js_view (JObject m) = JObject (map (\<lambda>e. (fst e, js_view (snd e))) (filter (\<lambda>e. fst e \<noteq> proto_key) m))"

text \<open>Values that a script gives back as they are.\<close>

fun js_safe :: "json \<Rightarrow> bool" where
  "js_safe (JNumber (PosInt n)) = (unat n < 2 ^ 31)"
| "js_safe (JNumber (NegInt n)) = (- (2 ^ 31) \<le> sint n \<and> sint n < 0)"
| "js_safe (JNumber (Float f)) = f64_finite f"
| "js_safe (JArray xs) = (\<forall>x \<in> set xs. js_safe x)"
| "js_safe (JObject m) = (\<forall>e \<in> set m. fst e \<noteq> proto_key \<and> js_safe (snd e))"
| "js_safe _ = True"


lemma js_view_safe: "js_safe v \<Longrightarrow> js_view v = v"
proof (induction v)
  case (JNumber n)
  show ?case
  proof (cases n)
    case (PosInt u)
    with JNumber have small: "unat u < 2 ^ 31" by simp
    then have "unat u < 2 ^ 63" by simp
    moreover have "uint u < 2 ^ 31"
    proof -
      have "int (unat u) < int (2 ^ 31)" using small by (simp only: of_nat_less_iff)
      then show ?thesis by simp
    qed
    moreover have "- (2 ^ 31) \<le> uint u" by (rule order_trans [OF _ uint_ge_0]) simp
    ultimately show ?thesis
      by (simp add: PosInt js_number_view_def as_i64_def small_int_def json_of_i64_def)
  next
    case (NegInt u)
    with JNumber show ?thesis by (simp add: js_number_view_def as_i64_def small_int_def json_of_i64_def)
  next
    case (Float f)
    with JNumber show ?thesis by (simp add: js_number_view_def as_i64_def float_view_def)
  qed
next
  case (JArray xs)
  then show ?case by (simp add: map_idI)
next
  case (JObject m)
  have "filter (\<lambda>e. fst e \<noteq> proto_key) m = m" using JObject.prems by (simp add: filter_id_conv)
  moreover have "map (\<lambda>e. (fst e, js_view (snd e))) m = m"
  proof (rule map_idI)
    fix e assume e: "e \<in> set m"
    then have "js_view (snd e) = snd e" using JObject.prems by (intro JObject.IH [OF e]) (auto simp: snds.simps prod_set_defs)
    then show "(fst e, js_view (snd e)) = e" by simp
  qed
  ultimately show ?case by simp
qed simp_all

lemma all_ok_map: "(\<And>x. x \<in> set xs \<Longrightarrow> f x = Inr (g x)) \<Longrightarrow> all_ok (map f xs) = Inr (map g xs)"
  by (induction xs) auto

lemma js_properties_stored:
  assumes "wf_omap es"
  shows "fold js_set es [] = filter (\<lambda>e. fst e \<noteq> proto_key) es"
proof -
  have "fold js_set es m = om_insert_all (filter (\<lambda>e. fst e \<noteq> proto_key) es) m" for m
    by (induction es arbitrary: m) (auto simp: js_set_def)
  moreover have "wf_omap (filter (\<lambda>e. fst e \<noteq> proto_key) es)" using assms by (simp add: distinct_map_filter)
  ultimately show ?thesis by (simp add: om_insert_all_fresh)
qed

lemma js_array:
  assumes "d \<le> 20" and "\<And>x. x \<in> set xs \<Longrightarrow> js_to_json (Suc d) (f x) = Inr (g x)"
  shows "js_to_json d (JsArrayOf (map (\<lambda>x. Inr (f x)) xs)) = Inr (JArray (map g xs))"
proof -
  have "all_ok (map (\<lambda>r. case r of Inl e \<Rightarrow> Inl (js_error e) | Inr x \<Rightarrow> js_to_json (Suc d) x) (map (\<lambda>x. Inr (f x)) xs)) =
    Inr (map g xs)"
    unfolding map_map by (rule all_ok_map) (simp add: assms(2))
  then show ?thesis using assms(1) by (subst js_to_json.simps) simp
qed

lemma js_object:
  assumes "d \<le> 20" and "\<And>e. e \<in> set ps \<Longrightarrow> js_to_json (Suc d) (snd e) = Inr (g e)" and "distinct (map fst ps)"
  shows "js_to_json d (JsObjectOf (map (\<lambda>(k, v). (KeyText (Some k), Inr v)) ps)) = Inr (JObject (map (\<lambda>e. (fst e, g e)) ps))"
proof -
  have "all_ok (map (\<lambda>(k, r).
      case key_to_text k of
        Inl e \<Rightarrow> Inl (js_error e)
      | Inr t \<Rightarrow>
          (case r of
             Inl e \<Rightarrow> Inl (js_error e)
           | Inr x \<Rightarrow> (case js_to_json (Suc d) x of Inl e \<Rightarrow> Inl e | Inr j \<Rightarrow> Inr (t, j))))
      (map (\<lambda>(k, v). (KeyText (Some k), Inr v)) ps)) = Inr (map (\<lambda>e. (fst e, g e)) ps)"
    unfolding map_map by (rule all_ok_map) (auto simp: key_to_text_def assms(2) case_prod_beta)
  moreover have "om_insert_all (map (\<lambda>e. (fst e, g e)) ps) [] = map (\<lambda>e. (fst e, g e)) ps"
    using assms(3) om_insert_all_fresh [of "map (\<lambda>e. (fst e, g e)) ps" "[]"] by (simp add: comp_def)
  ultimately show ?thesis using assms(1) by (subst js_to_json.simps) simp
qed

lemma js_to_json_simple:
  "d \<le> 20 \<Longrightarrow> js_to_json d JsNull = Inr JNull"
  "d \<le> 20 \<Longrightarrow> js_to_json d (JsBoolean b) = Inr (JBool b)"
  "d \<le> 20 \<Longrightarrow> js_to_json d (JsText (Some s)) = Inr (JString s)"
  by (simp_all add: js_to_json.simps [of d])

text \<open>How a value comes back, up to the order of its properties.\<close>

lemma js_sees:
  assumes "keeps_numbers lib" and "\<And>ps. mset (jl_properties lib ps) = mset ps"
  shows "wf_json v \<Longrightarrow> d + json_depth v \<le> 20 \<Longrightarrow>
    \<exists>j. js_to_json d (json_to_js lib v) = Inr j \<and> json_eq j (js_view v)"
proof (induction v arbitrary: d)
  case (JNumber n)
  have "\<exists>j. js_to_json d (number_to_js lib n) = Inr j \<and> j = js_number_view n"
    using assms(1) JNumber.prems
    by (auto simp: js_to_json.simps [of d] number_to_js_def keeps_numbers_def js_number_view_def float_view_def small_int_def
        split: number.splits option.splits)
  moreover have "json_eq (js_number_view n) (js_number_view n)"
    by (simp add: js_number_view_def float_view_def json_of_i64_def split: number.splits option.splits)
  ultimately show ?case by auto
next
  case (JArray xs)
  have "\<exists>j. js_to_json (Suc d) (json_to_js lib x) = Inr j \<and> json_eq j (js_view x)" if x: "x \<in> set xs" for x
  proof (rule JArray.IH [OF x])
    show "wf_json x" using JArray.prems(1) x by simp
    have "json_depth x \<le> fold max (map json_depth xs) 0" by (rule fold_max_nat) (use x in simp)
    with JArray.prems(2) show "Suc d + json_depth x \<le> 20" by simp
  qed
  then obtain g where g: "\<And>x. x \<in> set xs \<Longrightarrow> js_to_json (Suc d) (json_to_js lib x) = Inr (g x)"
      "\<And>x. x \<in> set xs \<Longrightarrow> json_eq (g x) (js_view x)" by metis
  have "js_to_json d (json_to_js lib (JArray xs)) = Inr (JArray (map g xs))"
    using js_array [of d xs "json_to_js lib" g] g(1) JArray.prems(2) by simp
  moreover have "json_eq (JArray (map g xs)) (js_view (JArray xs))"
    unfolding js_view.simps using g(2) by (intro json_eq_arrays) blast
  ultimately show ?case by blast
next
  case (JObject m)
  let ?es = "filter (\<lambda>e. fst e \<noteq> proto_key) m"
  let ?qs = "map (\<lambda>(k, v). (k, json_to_js lib v)) m"
  let ?ps = "jl_properties lib (fold js_set ?qs [])"
  have wf: "wf_omap m" using JObject.prems(1) by simp
  have qs: "wf_omap ?qs" using wf by (simp add: comp_def case_prod_beta)
  have stored: "fold js_set ?qs [] = map (\<lambda>(k, v). (k, json_to_js lib v)) ?es"
    unfolding js_properties_stored [OF qs] filter_map by (simp only: comp_def case_prod_beta fst_conv)
  have perm: "mset ?ps = mset (map (\<lambda>(k, v). (k, json_to_js lib v)) ?es)" using assms(2) unfolding stored .
  have set: "set ?ps = (\<lambda>(k, v). (k, json_to_js lib v)) ` set ?es"
    using arg_cong [OF perm, of set_mset] by (simp only: set_mset_mset set_map)
  have "\<exists>j. js_to_json (Suc d) (json_to_js lib (snd e)) = Inr j \<and> json_eq j (js_view (snd e))" if e: "e \<in> set m" for e
  proof (rule JObject.IH [OF e])
    show "snd e \<in> Basic_BNFs.snds e" by (cases e) simp
    show "wf_json (snd e)" using JObject.prems(1) e by simp
    have "json_depth (snd e) \<le> fold max (map (\<lambda>e. json_depth (snd e)) m) 0" by (rule fold_max_nat) (use e in simp)
    with JObject.prems(2) show "Suc d + json_depth (snd e) \<le> 20" by simp
  qed
  then have "\<exists>j. js_to_json (Suc d) (snd p) = Inr j \<and> (\<exists>v. (fst p, v) \<in> set ?es \<and> json_eq j (js_view v))" if "p \<in> set ?ps" for p
    using that unfolding set by fastforce
  then obtain g where g: "\<And>p. p \<in> set ?ps \<Longrightarrow> js_to_json (Suc d) (snd p) = Inr (g p)"
      "\<And>p. p \<in> set ?ps \<Longrightarrow> \<exists>v. (fst p, v) \<in> set ?es \<and> json_eq (g p) (js_view v)" by metis
  have "distinct (map fst ?es)" using wf by (simp add: distinct_map_filter)
  moreover have "mset (map fst ?ps) = mset (map fst ?es)"
    using arg_cong [OF perm, of "image_mset fst"] by (simp add: comp_def case_prod_beta flip: mset_map)
  ultimately have "distinct (map fst ?ps)" by (metis mset_eq_imp_distinct_iff)
  then have "js_to_json d (json_to_js lib (JObject m)) = Inr (JObject (map (\<lambda>e. (fst e, g e)) ?ps))"
    using js_object [of d ?ps g] g(1) JObject.prems(2) by (simp add: js_object_of_def)
  moreover have "json_eq (JObject (map (\<lambda>e. (fst e, g e)) ?ps)) (js_view (JObject m))"
    unfolding js_view.simps
  proof (rule json_eq_objects)
    show "wf_omap (map (\<lambda>e. (fst e, js_view (snd e))) ?es)" using wf by (simp add: comp_def distinct_map_filter)
    show "length (map (\<lambda>e. (fst e, g e)) ?ps) = length (map (\<lambda>e. (fst e, js_view (snd e))) ?es)"
      using arg_cong [OF perm, of size] by (simp only: size_mset length_map)
    show "\<forall>e \<in> set (map (\<lambda>e. (fst e, g e)) ?ps). \<exists>v'. (fst e, v') \<in> set (map (\<lambda>e. (fst e, js_view (snd e))) ?es) \<and> json_eq (snd e) v'"
    proof
      fix e assume "e \<in> set (map (\<lambda>e. (fst e, g e)) ?ps)"
      then obtain p where p: "p \<in> set ?ps" "e = (fst p, g p)" by auto
      obtain v where v: "(fst p, v) \<in> set ?es" "json_eq (g p) (js_view v)" using g(2) [OF p(1)] by blast
      then have "(fst p, js_view v) \<in> set (map (\<lambda>e. (fst e, js_view (snd e))) ?es)"
        by (intro list.set_map [THEN equalityD2, THEN subsetD] image_eqI [of _ _ "(fst p, v)"]) simp_all
      with p v show "\<exists>v'. (fst e, v') \<in> set (map (\<lambda>e. (fst e, js_view (snd e))) ?es) \<and> json_eq (snd e) v'" by auto
    qed
  qed
  ultimately show ?case by blast
qed (simp_all add: js_to_json_simple)


definition sample_js :: js_libs where
  "sample_js = \<lparr> jl_of_i64 = (\<lambda>i. if small_int i then JsInteger i else JsRational (f64_of_int i)),
     jl_of_f64 = JsRational, jl_properties = rev \<rparr>"

lemma three_billion: "f64_of_int 3000000000 = 0x41E65A0BC0000000"
  by (simp add: f64_of_int_def f64_bits_def f64_ratio_def bit_length.simps fits_mantissa_def scaled_def div_round_def Let_def)


end
