(* ===== verification/Pg.thy ===== *)
theory Pg
  imports Exec_Env
begin

text \<open>
  The pg middleware (\<^verbatim>\<open>src/middleware/pg.rs\<close>): what a statement's parameters are bound as,
  how a statement is run, and how its rows or its error become the state. The database is an
  argument, as is the lower case of a text.
\<close>

section \<open>Parameters\<close>

datatype pg_param = BindNull | BindNullText | BindBool bool | BindInt u64 | BindFloat u64 | BindText string | BindJson json

text \<open>
  A null is declared as a 32-bit integer; the scripts' statements declare it as a text. An integer is
  bound with its 64 bits, as a signed number; one that fits only without a sign is
  cast. The same for the two kinds of queries.
\<close>

definition bind_json_param :: "json \<Rightarrow> pg_param" where
  "bind_json_param v =
     (case v of
        JNull \<Rightarrow> BindNull
      | JBool b \<Rightarrow> BindBool b
      | JNumber (PosInt n) \<Rightarrow> BindInt n
      | JNumber (NegInt n) \<Rightarrow> BindInt n
      | JNumber (Float f) \<Rightarrow> BindFloat f
      | JString s \<Rightarrow> BindText s
      | JArray _ \<Rightarrow> BindJson v
      | JObject _ \<Rightarrow> BindJson v)"

definition bind_json_param_scalar :: "json \<Rightarrow> pg_param" where
  "bind_json_param_scalar = bind_json_param"

section \<open>Errors\<close>

record database_error =
  de_message :: string
  de_code :: "string option"
  de_severity :: "string option"

record pg_error =
  pe_text :: string
  pe_database :: "database_error option"

definition build_sql_error_value :: "pg_error \<Rightarrow> string \<Rightarrow> json" where
  "build_sql_error_value e query =
     (let message = (case pe_database e of None \<Rightarrow> pe_text e | Some d \<Rightarrow> de_message d);
          field = (\<lambda>name v. case v of None \<Rightarrow> [] | Some s \<Rightarrow> [(name, JString s)])
      in JObject [(''errors'', JArray [JObject
           ([(''type'', JString ''sqlError''), (''message'', JString message)] @
            field ''sqlstate'' (Option.bind (pe_database e) de_code) @
            field ''severity'' (Option.bind (pe_database e) de_severity) @
            [(''query'', JString query)])])])"

section \<open>Running a statement\<close>

record 'w pg_pool =
  pg_fetch_one :: "string \<Rightarrow> pg_param list \<Rightarrow> 'w \<Rightarrow> (pg_error + json) \<times> 'w"
  pg_run :: "string \<Rightarrow> pg_param list \<Rightarrow> 'w \<Rightarrow> (pg_error + u64) \<times> 'w"

definition raw_mode :: "string \<Rightarrow> string \<times> bool" where
  "raw_mode config =
     (case strip_prefix ''!raw'' (trim config) of
        Some rest \<Rightarrow> (trim rest, True)
      | None \<Rightarrow> (trim config, False))"

definition wrapped_sql :: "string \<Rightarrow> string" where
  "wrapped_sql sql =
     ''WITH t AS ('' @ sql @ '') SELECT COALESCE(json_agg(row_to_json(t)), '' @ [CHR 0x27] @ ''[]'' @ [CHR 0x27] @
     ''::json) AS rows FROM t''"

text \<open>Whether the statement is expected to give rows.\<close>

definition gives_rows :: "(string \<Rightarrow> string) \<Rightarrow> string \<Rightarrow> bool" where
  "gives_rows lower sql \<longleftrightarrow>
     starts_with ''select'' (trim_start (lower sql)) \<or> contains_sub '' returning '' (lower sql)"

definition pg_params ::
  "('l, 'r, 'w) execution_env \<Rightarrow> (json \<Rightarrow> string) \<Rightarrow> string list \<Rightarrow> json \<Rightarrow> web_pipe_error + json list" where
  "pg_params env debug_json args state =
     (case args of
        a # _ \<Rightarrow>
          (case env_jq env a state of
             Inl e \<Rightarrow> Inl e
           | Inr v \<Rightarrow>
               (case as_array v of
                  Some xs \<Rightarrow> Inr xs
                | None \<Rightarrow> Inl (MiddlewareExecutionError (''pg argument 0 must evaluate to an array, got: '' @ debug_json v))))
      | [] \<Rightarrow> Inr (case Option.bind (json_get ''sqlParams'' state) as_array of None \<Rightarrow> [] | Some xs \<Rightarrow> xs))"

definition rows_value :: "string option \<Rightarrow> json \<Rightarrow> json \<Rightarrow> json" where
  "rows_value target rows row_count =
     (let result = JObject [(''rows'', rows), (''rowCount'', row_count)]
      in if target = None then JObject [(''data'', result)] else result)"

definition pg_statement ::
  "(string \<Rightarrow> string) \<Rightarrow> 'w pg_pool \<Rightarrow> string \<Rightarrow> bool \<Rightarrow> json list \<Rightarrow> string option \<Rightarrow> 'w \<Rightarrow> json \<times> 'w" where
  "pg_statement lower pool sql is_raw params target w =
     (if is_raw then
        (case pg_fetch_one pool sql (map bind_json_param_scalar params) w of
           (Inl e, w1) \<Rightarrow> (build_sql_error_value e sql, w1)
         | (Inr v, w1) \<Rightarrow> (v, w1))
      else if gives_rows lower sql then
        (case pg_fetch_one pool (wrapped_sql sql) (map bind_json_param_scalar params) w of
           (Inl e, w1) \<Rightarrow> (build_sql_error_value e sql, w1)
         | (Inr rows, w1) \<Rightarrow>
             (rows_value target rows (json_nat (case as_array rows of None \<Rightarrow> 0 | Some xs \<Rightarrow> length xs)), w1))
      else
        (case pg_run pool sql (map bind_json_param params) w of
           (Inl e, w1) \<Rightarrow> (build_sql_error_value e sql, w1)
         | (Inr n, w1) \<Rightarrow> (rows_value target (JArray []) (json_u64 n), w1)))"

definition pg_execute ::
  "(string \<Rightarrow> string) \<Rightarrow> 'w pg_pool option \<Rightarrow> ('l, 'r, 'w) execution_env \<Rightarrow> (json \<Rightarrow> string) \<Rightarrow> ('l, 'r, 'w) invoker" where
  "pg_execute lower pool env debug_json name args config target pc m =
     (case raw_mode config of
        (sql, is_raw) \<Rightarrow>
          if sql = [] then (Inl (DatabaseError ''Empty SQL config for pg middleware''), pc, m)
          else
            (case pool of
               None \<Rightarrow> (Inl (DatabaseError
                 (''Database not configured. Please add a '' @ [CHR 0x27] @ ''config pg {}'' @ [CHR 0x27] @
                  '' block with connection settings.'')), pc, m)
             | Some p \<Rightarrow>
                 (case pg_params env debug_json args (pc_state pc) of
                    Inl e \<Rightarrow> (Inl e, pc, m)
                  | Inr params \<Rightarrow>
                      (case pg_statement lower p sql is_raw params target (mc_world m) of
                         (v, w) \<Rightarrow> (Inr default_output, pc\<lparr>pc_state := v\<rparr>, m\<lparr>mc_world := w\<rparr>)))))"

definition pg_behavior :: state_behavior where
  "pg_behavior = Transform"

section \<open>What a step can rely on\<close>

text \<open>
  A parameter that an i64 holds is bound as itself; a larger one becomes another, negative, number.
\<close>

lemma sint_small: "unat (n :: u64) < 2 ^ 63 \<Longrightarrow> sint n = uint n"
proof -
  assume "unat n < 2 ^ 63"
  then have "int (unat n) < int (2 ^ 63)" by (simp only: of_nat_less_iff)
  then have "uint n < 2 ^ 63" by simp
  moreover have "- (2 ^ 63) \<le> uint n" by (rule order_trans [OF _ uint_ge_0]) simp
  ultimately show ?thesis unfolding sint_uint by (intro signed_take_bit_int_eq_self) simp_all
qed

lemma sint_large: "2 ^ 63 \<le> unat (n :: u64) \<Longrightarrow> sint n < 0"
proof -
  assume "2 ^ 63 \<le> unat n"
  then have "int (2 ^ 63) \<le> int (unat n)" by (simp only: of_nat_le_iff)
  then have "2 ^ 63 \<le> uint n" by simp
  moreover have "uint n < 2 ^ 64" using uint_lt2p [of n] by simp
  ultimately have "uint n div 2 ^ 63 = 1" by (intro int_div_pos_eq [of _ _ _ "uint n - 2 ^ 63"]) simp_all
  then have "bit (uint n) 63" by (simp add: bit_iff_odd)
  then show ?thesis by (simp add: sint_uint)
qed

lemma bound_integer: "as_i64 v = Some i \<Longrightarrow> \<exists>n. bind_json_param v = BindInt n \<and> sint n = i"
  using sint_small by (auto simp: as_i64_def bind_json_param_def split: json.splits number.splits if_splits)

lemma large_integer_is_negative: "2 ^ 63 \<le> unat n \<Longrightarrow> bind_json_param (JNumber (PosInt n)) = BindInt n \<and> sint n < 0"
  by (simp add: bind_json_param_def sint_large)

text \<open>
  Once the statement reaches the database the step succeeds: a refusal is an error object in the
  state, with the text of the statement.
\<close>

lemma statement_refused:
  assumes "pg_fetch_one pool = (\<lambda>sql ps w. (Inl (e sql), f w))" and "pg_run pool = (\<lambda>sql ps w. (Inl (e sql), f w))"
  shows "\<exists>e'. pg_statement lower pool sql is_raw params target w = (build_sql_error_value e' sql, f w)"
  by (auto simp: pg_statement_def assms)

text \<open>A query that begins with a common table expression is run for its count: its rows are lost.\<close>

lemma common_table_expression_loses_rows:
  assumes "lower ''with t as (select 1) select * from t'' = ''with t as (select 1) select * from t''"
    and "pg_run pool ''with t as (select 1) select * from t'' [] w = (Inr n, w1)"
  shows "pg_statement lower pool ''with t as (select 1) select * from t'' False [] (Some r) w =
    (JObject [(''rows'', JArray []), (''rowCount'', json_u64 n)], w1)"
proof -
  have "\<not> starts_with ''select'' (trim_start ''with t as (select 1) select * from t'')"
    "\<not> contains_sub '' returning '' ''with t as (select 1) select * from t''" by code_simp+
  then show ?thesis using assms by (simp add: pg_statement_def gives_rows_def rows_value_def)
qed

end
