(* ===== verification/Lua.thy ===== *)
theory Lua
  imports Lua_Values Pg
begin

text \<open>
  The lua middleware (\<^verbatim>\<open>src/middleware/lua.rs\<close>): what a script is given, what the functions it
  may call do, and what is left after it. The interpreter is an argument: it turns a chunk into its
  run, a tree whose inner nodes are the calls into the host and whose leaves are a value or an error,
  with the interpreter's global state. A run that never ends is outside the trees; scripts that load
  each other without end are not: loading is bounded by fuel, and \<^const>\<open>None\<close> is its end.
\<close>

section \<open>The interpreter\<close>

datatype ('v, 'g) lua_run =
    LuaReturns 'v 'g
  | LuaFails string 'g
  | CallGetFlag string "bool \<Rightarrow> ('v, 'g) lua_run"
  | CallSetFlag string bool "('v, 'g) lua_run"
  | CallGetWhen string "bool \<Rightarrow> ('v, 'g) lua_run"
  | CallSetWhen string bool "('v, 'g) lua_run"
  | CallGetEnv string "lua_value \<Rightarrow> ('v, 'g) lua_run"
  | CallRequireScript string 'g "string + 'v option \<Rightarrow> 'g \<Rightarrow> ('v, 'g) lua_run"
  | CallExecuteSql string "'v option" 'g "lua_value \<times> lua_value \<Rightarrow> ('v, 'g) lua_run"

text \<open>What a script's environment has beside the globals and the four functions for flags.\<close>

record lua_sandbox =
  sb_request :: lua_value
  sb_context :: lua_value

record ('v, 'g) lua_engine =
  le_new :: "string \<Rightarrow> string + 'g"
  le_chunk :: "string \<Rightarrow> string \<Rightarrow> lua_sandbox option \<Rightarrow> 'g \<Rightarrow> ('v, 'g) lua_run"
  le_set_global :: "string \<Rightarrow> 'v \<Rightarrow> 'g \<Rightarrow> 'g"
  le_view :: "'g \<Rightarrow> 'v \<Rightarrow> lua_value"
  le_integer_key :: "'g \<Rightarrow> 'v \<Rightarrow> int \<Rightarrow> string + 'v"

record ('v, 'g, 'w) lua_host =
  lh_engine :: "('v, 'g) lua_engine"
  lh_libs :: lua_libs
  lh_env :: "string \<Rightarrow> string option"
  lh_scripts :: "string omap"
  lh_pool :: "'w pg_pool option"

section \<open>executeSql\<close>

text \<open>
  A parameter of a script's statement; an integer that an i64 does not hold is bound as a float here.
\<close>

definition bind_lua_param :: "json \<Rightarrow> pg_param" where
  "bind_lua_param v =
     (case v of
        JNull \<Rightarrow> BindNullText
      | JNumber n \<Rightarrow>
          (case as_i64 v of
             Some i \<Rightarrow> BindInt (of_int i)
           | None \<Rightarrow> (case n of Float f \<Rightarrow> BindFloat f | PosInt u \<Rightarrow> BindFloat (f64_of_nat (unat u)) | NegInt u \<Rightarrow> BindInt 0))
      | _ \<Rightarrow> bind_json_param v)"

text \<open>
  The elements of the parameter table from key one to the first that is nil, or cannot be read. The
  fuel is the number of keys tried, one more than the table has entries.
\<close>

fun read_params :: "('v, 'g, 'w) lua_host \<Rightarrow> 'g \<Rightarrow> 'v \<Rightarrow> nat \<Rightarrow> int \<Rightarrow> json list" where
  "read_params h g t 0 i = []"
| "read_params h g t (Suc n) i =
     (case le_integer_key (lh_engine h) g t i of
        Inl e \<Rightarrow> []
      | Inr v \<Rightarrow>
          (case le_view (lh_engine h) g v of
             LuaNil \<Rightarrow> []
           | view \<Rightarrow> lua_to_json (lh_libs h) 0 view # read_params h g t n (i + 1)))"

definition sql_params :: "('v, 'g, 'w) lua_host \<Rightarrow> 'g \<Rightarrow> 'v option \<Rightarrow> string + json list" where
  "sql_params h g params =
     (case params of
        None \<Rightarrow> Inr []
      | Some v \<Rightarrow>
          (case le_view (lh_engine h) g v of
             LuaTable t \<Rightarrow> Inr (read_params h g v (Suc (length t)) 1)
           | _ \<Rightarrow> Inl ''params must be a table/array''))"

definition lua_rows :: "json \<Rightarrow> json" where
  "lua_rows rows =
     JObject [(''rows'', rows), (''rowCount'', json_nat (case as_array rows of None \<Rightarrow> 0 | Some xs \<Rightarrow> length xs))]"

text \<open>The value and the error that the script gets.\<close>

definition execute_sql ::
  "('v, 'g, 'w) lua_host \<Rightarrow> string \<Rightarrow> 'v option \<Rightarrow> 'g \<Rightarrow> 'w \<Rightarrow> (lua_value \<times> lua_value) \<times> 'w" where
  "execute_sql h query params g w =
     (case lh_pool h of
        None \<Rightarrow> ((LuaNil, LuaString ''database not configured''), w)
      | Some pool \<Rightarrow>
          (case sql_params h g params of
             Inl e \<Rightarrow> ((LuaNil, LuaString e), w)
           | Inr values \<Rightarrow>
               (case pg_fetch_one pool (wrapped_sql query) (map bind_lua_param values) w of
                  (Inl e, w1) \<Rightarrow> ((LuaNil, LuaString (pe_text e)), w1)
                | (Inr rows, w1) \<Rightarrow> ((json_to_lua (lua_rows rows), LuaNil), w1))))"

section \<open>Running a chunk\<close>

text \<open>
  A chunk calls only the functions that are there: a library chunk has no functions for flags, and
  none for statements before the interpreter is complete. The effects of a run: getFlag and getWhen read the flags as they were when the script began,
  setFlag and setWhen write to the request's. The loader of scripts is an argument.
\<close>

type_synonym ('v, 'g, 'w) lua_done = "((string + 'v) \<times> 'g \<times> 'w request_context \<times> 'w) option"

definition flag_in :: "bool omap \<Rightarrow> string \<Rightarrow> bool" where
  "flag_in flags key = (case map_of flags key of None \<Rightarrow> False | Some b \<Rightarrow> b)"

definition get_env :: "('v, 'g, 'w) lua_host \<Rightarrow> string \<Rightarrow> lua_value" where
  "get_env h key = (case lh_env h key of None \<Rightarrow> LuaNil | Some v \<Rightarrow> LuaString v)"

primrec perform ::
  "('v, 'g, 'w) lua_host \<Rightarrow>
   (string \<Rightarrow> 'g \<Rightarrow> 'w request_context \<Rightarrow> 'w \<Rightarrow> ((string + 'v option) \<times> 'g \<times> 'w request_context \<times> 'w) option) \<Rightarrow>
   bool omap \<Rightarrow> bool omap \<Rightarrow> ('v, 'g) lua_run \<Rightarrow> 'w request_context \<Rightarrow> 'w \<Rightarrow> ('v, 'g, 'w) lua_done" where
  "perform h require flags conditions (LuaReturns v g) ctx w = Some (Inr v, g, ctx, w)"
| "perform h require flags conditions (LuaFails e g) ctx w = Some (Inl e, g, ctx, w)"
| "perform h require flags conditions (CallGetFlag k run) ctx w =
     perform h require flags conditions (run (flag_in flags k)) ctx w"
| "perform h require flags conditions (CallSetFlag k b run) ctx w =
     perform h require flags conditions run (ctx\<lparr>rc_feature_flags := om_insert k b (rc_feature_flags ctx)\<rparr>) w"
| "perform h require flags conditions (CallGetWhen k run) ctx w =
     perform h require flags conditions (run (flag_in conditions k)) ctx w"
| "perform h require flags conditions (CallSetWhen k b run) ctx w =
     perform h require flags conditions run (ctx\<lparr>rc_conditions := om_insert k b (rc_conditions ctx)\<rparr>) w"
| "perform h require flags conditions (CallGetEnv k run) ctx w =
     perform h require flags conditions (run (get_env h k)) ctx w"
| "perform h require flags conditions (CallRequireScript name g run) ctx w =
     (case require name g ctx w of
        None \<Rightarrow> None
      | Some (r, g1, ctx1, w1) \<Rightarrow> perform h require flags conditions (run r g1) ctx1 w1)"
| "perform h require flags conditions (CallExecuteSql query params g run) ctx w =
     (case execute_sql h query params g w of
        (answer, w1) \<Rightarrow> perform h require flags conditions (run answer) ctx w1)"

text \<open>\<^verbatim>\<open>requireScript\<close>: a known script is run outside any sandbox and its value becomes a global.\<close>

fun require_script ::
  "('v, 'g, 'w) lua_host \<Rightarrow> bool omap \<Rightarrow> bool omap \<Rightarrow> nat \<Rightarrow> string \<Rightarrow> 'g \<Rightarrow> 'w request_context \<Rightarrow> 'w \<Rightarrow>
   ((string + 'v option) \<times> 'g \<times> 'w request_context \<times> 'w) option" where
  "require_script h flags conditions 0 name g ctx w = None"
| "require_script h flags conditions (Suc fuel) name g ctx w =
     (case map_of (lh_scripts h) name of
        None \<Rightarrow> Some (Inr None, g, ctx, w)
      | Some src \<Rightarrow>
          (case perform h (require_script h flags conditions fuel) flags conditions
                  (le_chunk (lh_engine h) (CHR 0x40 # name) src None g) ctx w of
             None \<Rightarrow> None
           | Some (Inl e, g1, ctx1, w1) \<Rightarrow> Some (Inl e, g1, ctx1, w1)
           | Some (Inr v, g1, ctx1, w1) \<Rightarrow> Some (Inr (Some v), le_set_global (lh_engine h) name v g1, ctx1, w1)))"

section \<open>The interpreter of a thread\<close>

definition lua_prelude :: string where
  "lua_prelude = concat (map (\<lambda>l. replicate 20 CHR '' '' @ l @ [CHR 0x0A])
     [''os.execute = nil'', ''os.exit = nil'', ''io = nil'', ''debug = nil''])"

fun load_scripts ::
  "('v, 'g, 'w) lua_host \<Rightarrow> nat \<Rightarrow> (string \<times> string) list \<Rightarrow> 'g \<Rightarrow> 'w request_context \<Rightarrow> 'w \<Rightarrow>
   ((web_pipe_error + 'g) \<times> 'w) option" where
  "load_scripts h fuel [] g ctx w = Some (Inr g, w)"
| "load_scripts h fuel ((name, src) # scripts) g ctx w =
     (case perform h (require_script h [] [] fuel) [] [] (le_chunk (lh_engine h) (CHR 0x40 # name) src None g) ctx w of
        None \<Rightarrow> None
      | Some (Inl e, g1, ctx1, w1) \<Rightarrow>
          Some (Inl (MiddlewareExecutionError (''Lua script '' @ [CHR 0x27] @ name @ [CHR 0x27] @ '' execution error: '' @ e)), w1)
      | Some (Inr v, g1, ctx1, w1) \<Rightarrow> load_scripts h fuel scripts (le_set_global (lh_engine h) name v g1) ctx w1)"

text \<open>The interpreter is made by the first script of the thread; a failure leaves none.\<close>

definition ensure_lua_initialized ::
  "('v, 'g, 'w) lua_host \<Rightarrow> nat \<Rightarrow> 'g option \<Rightarrow> 'w request_context \<Rightarrow> 'w \<Rightarrow> ((web_pipe_error + 'g) \<times> 'w) option" where
  "ensure_lua_initialized h fuel thread ctx w =
     (case thread of
        Some g \<Rightarrow> Some (Inr g, w)
      | None \<Rightarrow>
          (case le_new (lh_engine h) lua_prelude of
             Inl e \<Rightarrow> Some (Inl (MiddlewareExecutionError (''Failed to initialize Lua environment: '' @ e)), w)
           | Inr g \<Rightarrow> load_scripts h fuel (lh_scripts h) g ctx w))"

section \<open>A script\<close>

definition execute_lua_script ::
  "('v, 'g, 'w) lua_host \<Rightarrow> nat \<Rightarrow> string \<Rightarrow> json \<Rightarrow> json \<Rightarrow> 'g \<Rightarrow> 'w request_context \<Rightarrow> 'w \<Rightarrow>
   ((web_pipe_error + json) \<times> 'g \<times> 'w request_context \<times> 'w) option" where
  "execute_lua_script h fuel script input context_value g ctx w =
     (let flags = rc_feature_flags ctx; conditions = rc_conditions ctx;
          sandbox = \<lparr> sb_request = json_to_lua input, sb_context = json_to_lua context_value \<rparr>
      in case perform h (require_script h flags conditions fuel) flags conditions
                (le_chunk (lh_engine h) ''user_script'' script (Some sandbox) g) ctx w of
           None \<Rightarrow> None
         | Some (Inl e, g1, ctx1, w1) \<Rightarrow> Some (Inl (MiddlewareExecutionError (''Lua execution error: '' @ e)), g1, ctx1, w1)
         | Some (Inr v, g1, ctx1, w1) \<Rightarrow> Some (Inr (lua_to_json (lh_libs h) 0 (le_view (lh_engine h) g1 v)), g1, ctx1, w1))"

definition lua_execute ::
  "('v, 'g, 'w) lua_host \<Rightarrow> nat \<Rightarrow> ('l, 'r, 'w) execution_env \<Rightarrow> string \<Rightarrow> pipeline_context \<Rightarrow> 'g option \<Rightarrow>
   ('l, 'r, 'w) machine \<Rightarrow> ((web_pipe_error + middleware_output) \<times> pipeline_context \<times> 'g option \<times> ('l, 'r, 'w) machine) option" where
  "lua_execute h fuel env config pc thread m =
     (case ensure_lua_initialized h fuel thread (mc_ctx m) (mc_world m) of
        None \<Rightarrow> None
      | Some (Inl e, w1) \<Rightarrow> Some (Inl e, pc, None, m\<lparr>mc_world := w1\<rparr>)
      | Some (Inr g, w1) \<Rightarrow>
          (case execute_lua_script h fuel config (pc_state pc) (context_to_value env (mc_ctx m)) g (mc_ctx m) w1 of
             None \<Rightarrow> None
           | Some (r, g1, ctx1, w2) \<Rightarrow>
               (let m1 = m\<lparr>mc_ctx := ctx1, mc_world := w2\<rparr>
                in case r of
                     Inl e \<Rightarrow> Some (Inl e, pc, Some g1, m1)
                   | Inr v \<Rightarrow> Some (Inr default_output, pc\<lparr>pc_state := v\<rparr>, Some g1, m1))))"

definition lua_behavior :: state_behavior where
  "lua_behavior = Transform"

section \<open>What a script leaves in its request\<close>

definition set_all :: "(string \<times> bool) list \<Rightarrow> (string \<times> bool) list \<Rightarrow> 'w request_context \<Rightarrow> 'w request_context" where
  "set_all fs ws ctx =
     ctx\<lparr>rc_feature_flags := om_insert_all fs (rc_feature_flags ctx),
         rc_conditions := om_insert_all ws (rc_conditions ctx)\<rparr>"

lemma set_all_none: "set_all [] [] ctx = ctx"
  by (simp add: set_all_def om_insert_all_def)

lemma set_all_flag:
  "set_all fs ws (ctx\<lparr>rc_feature_flags := om_insert k b (rc_feature_flags ctx)\<rparr>) = set_all ((k, b) # fs) ws ctx"
  "set_all fs ws (ctx\<lparr>rc_conditions := om_insert k b (rc_conditions ctx)\<rparr>) = set_all fs ((k, b) # ws) ctx"
  by (simp_all add: set_all_def om_insert_all_def)

lemma set_all_set_all: "set_all fs2 ws2 (set_all fs ws ctx) = set_all (fs @ fs2) (ws @ ws2) ctx"
  by (simp add: set_all_def om_insert_all_def)

text \<open>A run that ends does the same to every context: it adds flags and conditions.\<close>

definition only_sets :: "('w request_context \<Rightarrow> ('a \<times> 'g \<times> 'w request_context \<times> 'w) option) \<Rightarrow> bool" where
  "only_sets act \<longleftrightarrow>
     (\<forall>ctx r g1 ctx1 w1. act ctx = Some (r, g1, ctx1, w1) \<longrightarrow>
        (\<exists>fs ws. \<forall>ctx2. act ctx2 = Some (r, g1, set_all fs ws ctx2, w1)))"

lemma only_setsI:
  "(\<And>ctx r g1 ctx1 w1. act ctx = Some (r, g1, ctx1, w1) \<Longrightarrow> \<exists>fs ws. \<forall>ctx2. act ctx2 = Some (r, g1, set_all fs ws ctx2, w1)) \<Longrightarrow>
   only_sets act"
  unfolding only_sets_def by blast

lemma only_setsD:
  "only_sets act \<Longrightarrow> act ctx = Some (r, g1, ctx1, w1) \<Longrightarrow> \<exists>fs ws. \<forall>ctx2. act ctx2 = Some (r, g1, set_all fs ws ctx2, w1)"
  unfolding only_sets_def by blast

lemma only_sets_done: "only_sets (\<lambda>ctx. Some (r, g, ctx, w))"
proof (rule only_setsI, intro exI allI)
  fix ctx r' g1 ctx1 w1 ctx2
  assume "Some (r, g, ctx, w) = Some (r', g1, ctx1, w1)"
  then show "Some (r, g, ctx2, w) = Some (r', g1, set_all [] [] ctx2, w1)" by (simp add: set_all_none)
qed

lemma only_sets_after:
  assumes "only_sets act"
  shows "only_sets (\<lambda>ctx. act (set_all fs ws ctx))"
proof (rule only_setsI)
  fix ctx r g1 ctx1 w1
  assume "act (set_all fs ws ctx) = Some (r, g1, ctx1, w1)"
  then obtain fs2 ws2 where "\<And>ctx2. act ctx2 = Some (r, g1, set_all fs2 ws2 ctx2, w1)"
    using only_setsD [OF assms] by meson
  then have "\<forall>ctx2. act (set_all fs ws ctx2) = Some (r, g1, set_all (fs @ fs2) (ws @ ws2) ctx2, w1)"
    by (simp add: set_all_set_all)
  then show "\<exists>fs' ws'. \<forall>ctx2. act (set_all fs ws ctx2) = Some (r, g1, set_all fs' ws' ctx2, w1)" by blast
qed

lemma only_sets_bind:
  assumes "only_sets act" and "\<And>r g1 w1. only_sets (\<lambda>ctx. cont r g1 ctx w1)"
  shows "only_sets (\<lambda>ctx. case act ctx of None \<Rightarrow> None | Some (r, g1, ctx1, w1) \<Rightarrow> cont r g1 ctx1 w1)"
proof (rule only_setsI)
  fix ctx r g1 ctx1 w1
  assume run: "(case act ctx of None \<Rightarrow> None | Some (r, g1, ctx1, w1) \<Rightarrow> cont r g1 ctx1 w1) = Some (r, g1, ctx1, w1)"
  then obtain r0 g0 ctx0 w0 where first: "act ctx = Some (r0, g0, ctx0, w0)" by (auto split: option.splits)
  with run have second: "cont r0 g0 ctx0 w0 = Some (r, g1, ctx1, w1)" by simp
  obtain fs ws where a: "\<And>ctx2. act ctx2 = Some (r0, g0, set_all fs ws ctx2, w0)"
    using only_setsD [OF assms(1) first] by blast
  obtain fs2 ws2 where b: "\<And>ctx2. cont r0 g0 ctx2 w0 = Some (r, g1, set_all fs2 ws2 ctx2, w1)"
    using only_setsD [OF assms(2) second] by blast
  show "\<exists>fs ws. \<forall>ctx2. (case act ctx2 of None \<Rightarrow> None | Some (r, g1, ctx1, w1) \<Rightarrow> cont r g1 ctx1 w1) =
      Some (r, g1, set_all fs ws ctx2, w1)"
    by (intro exI [of _ "fs @ fs2"] exI [of _ "ws @ ws2"] allI) (simp add: a b set_all_set_all)
qed

lemma perform_only_sets:
  assumes "\<And>name g w. only_sets (\<lambda>ctx. require name g ctx w)"
  shows "only_sets (\<lambda>ctx. perform h require flags conditions run ctx w)"
proof (induction run arbitrary: w)
  case (CallSetFlag k b run)
  show ?case using only_sets_after [OF CallSetFlag.IH, of "[(k, b)]" "[]"] by (simp add: set_all_def)
next
  case (CallSetWhen k b run)
  show ?case using only_sets_after [OF CallSetWhen.IH, of "[]" "[(k, b)]"] by (simp add: set_all_def)
next
  case (CallRequireScript name g run)
  have "only_sets (\<lambda>ctx. perform h require flags conditions (run r g1) ctx w1)" for r g1 w1
    by (rule CallRequireScript.IH) (rule rangeI)+
  from only_sets_bind [OF assms this] show ?case by simp
next
  case (CallExecuteSql query params g run)
  have "only_sets (\<lambda>ctx. perform h require flags conditions (run (fst (execute_sql h query params g w))) ctx
      (snd (execute_sql h query params g w)))"
    by (rule CallExecuteSql.IH) (rule rangeI)
  then show ?case by (simp add: case_prod_beta)
qed (simp_all add: only_sets_done)

lemma require_only_sets: "only_sets (\<lambda>ctx. require_script h flags conditions fuel name g ctx w)"
proof (induction fuel arbitrary: name g w)
  case 0
  show ?case by (rule only_setsI) simp
next
  case (Suc fuel)
  show ?case
  proof (cases "map_of (lh_scripts h) name")
    case None
    then show ?thesis by (simp add: only_sets_done)
  next
    case (Some src)
    let ?run = "\<lambda>ctx. perform h (require_script h flags conditions fuel) flags conditions
      (le_chunk (lh_engine h) (CHR 0x40 # name) src None g) ctx w"
    let ?finish = "\<lambda>r g1 ctx w1. case r of Inl e \<Rightarrow> Some (Inl e, g1, ctx, w1)
      | Inr v \<Rightarrow> Some (Inr (Some v), le_set_global (lh_engine h) name v g1, ctx, w1)"
    have "only_sets ?run" by (rule perform_only_sets) (rule Suc.IH)
    moreover have "only_sets (\<lambda>ctx. ?finish r g1 ctx w1)" for r g1 w1
      by (cases r) (simp_all add: only_sets_done)
    ultimately have "only_sets (\<lambda>ctx. case ?run ctx of None \<Rightarrow> None | Some (r, g1, ctx1, w1) \<Rightarrow> ?finish r g1 ctx1 w1)"
      by (rule only_sets_bind)
    moreover have "require_script h flags conditions (Suc fuel) name g ctx w =
      (case ?run ctx of None \<Rightarrow> None | Some (r, g1, ctx1, w1) \<Rightarrow> ?finish r g1 ctx1 w1)" for ctx
      by (simp add: Some split: option.splits sum.splits)
    ultimately show ?thesis by simp
  qed
qed



definition sample_lua_host :: "(unit, unit, unit) lua_host" where
  "sample_lua_host = \<lparr>
     lh_engine = \<lparr> le_new = (\<lambda>s. Inr ()), le_chunk = (\<lambda>n s b g. CallSetWhen ''slow'' True (LuaReturns () g)),
                   le_set_global = (\<lambda>n v g. g), le_view = (\<lambda>g v. LuaNil), le_integer_key = (\<lambda>g v i. Inr v) \<rparr>,
     lh_libs = \<lparr> lu_pairs = id, lu_number_text = (\<lambda>f. []) \<rparr>, lh_env = Map.empty,
     lh_scripts = [(''helper'', [])], lh_pool = None \<rparr>"

definition sample_script :: "(unit, unit) lua_run" where
  "sample_script = CallSetFlag ''beta'' True (CallGetFlag ''beta'' (\<lambda>b.
     if b then LuaReturns () ()
     else CallRequireScript ''helper'' () (\<lambda>r g. LuaFails ''not seen'' g)))"


end
