(* ===== verification/Js.thy ===== *)
theory Js
  imports Js_Values Lua Lru
begin

text \<open>
  The js middleware (\<^verbatim>\<open>src/middleware/js.rs\<close>): the interpreter of a thread and how it is set
  up, what a script is run with, the cache of compiled scripts, and the clean-up of global names after a
  run. The interpreter is an argument, as in \<^verbatim>\<open>Lua\<close>: a script's run is a tree of its calls into
  the host. \<^const>\<open>None\<close> is a run whose scripts load each other without end.
\<close>

section \<open>The interpreter\<close>

datatype ('v, 'g) js_run =
    JsReturns 'v 'g
  | JsThrows string 'g
  | JsGetEnv "string option" "string + js_value \<Rightarrow> ('v, 'g) js_run"
  | JsRequireScript "string option" 'g "string + 'v option \<Rightarrow> 'g \<Rightarrow> ('v, 'g) js_run"
  | JsExecuteSql "string option" "js_value option" 'g "string + js_value \<Rightarrow> ('v, 'g) js_run"

record ('v, 'g, 's) js_engine =
  je_new :: 'g
  je_register :: "string \<Rightarrow> 'g \<Rightarrow> string + 'g"
  je_eval :: "string \<Rightarrow> 'g \<Rightarrow> ('v, 'g) js_run"
  je_parse :: "string \<Rightarrow> 'g \<Rightarrow> (string + 's) \<times> 'g"
  je_evaluate :: "'s \<Rightarrow> 'g \<Rightarrow> ('v, 'g) js_run"
  je_put :: "string \<Rightarrow> js_value \<Rightarrow> 'g \<Rightarrow> string + 'g"
  je_get_global :: "string \<Rightarrow> 'g \<Rightarrow> string + 'v option"
  je_set_global :: "string \<Rightarrow> 'v \<Rightarrow> 'g \<Rightarrow> string + 'g"
  je_keys :: "'g \<Rightarrow> string + js_key list"
  je_delete :: "js_key \<Rightarrow> 'g \<Rightarrow> string + 'g"
  je_read :: "'v \<Rightarrow> 'g \<Rightarrow> js_value \<times> 'g"

record ('v, 'g, 's, 'l, 'w) js_host =
  jh_engine :: "('v, 'g, 's) js_engine"
  jh_libs :: js_libs
  jh_lru :: "('l, 's) lru_ops"
  jh_env :: "string \<Rightarrow> string option"
  jh_scripts :: "string omap"
  jh_pool :: "'w pg_pool option"

record ('g, 'l) js_runtime =
  jr_cache :: 'l
  jr_context :: 'g
  jr_initial_keys :: "string list"

section \<open>The functions of the host\<close>

definition js_get_env :: "('v, 'g, 's, 'l, 'w) js_host \<Rightarrow> string option \<Rightarrow> string + js_value" where
  "js_get_env h key =
     (case key of
        None \<Rightarrow> Inl ''getEnv requires string argument''
      | Some k \<Rightarrow> Inr (case jh_env h k of None \<Rightarrow> JsUndefined | Some v \<Rightarrow> JsText (Some v)))"

definition js_sql_params :: "js_value option \<Rightarrow> string + json list" where
  "js_sql_params params =
     (case params of
        None \<Rightarrow> Inr []
      | Some JsUndefined \<Rightarrow> Inr []
      | Some JsNull \<Rightarrow> Inr []
      | Some (JsArrayOf xs) \<Rightarrow>
          all_ok (map (\<lambda>r. case r of
              Inl e \<Rightarrow> Inl e
            | Inr x \<Rightarrow> (case js_to_json 0 x of
                          Inl e \<Rightarrow> Inl (''Failed to convert param: '' @ error_to_string e)
                        | Inr j \<Rightarrow> Inr j)) xs)
      | Some _ \<Rightarrow> Inl ''params must be an array'')"

definition js_execute_sql ::
  "('v, 'g, 's, 'l, 'w) js_host \<Rightarrow> string option \<Rightarrow> js_value option \<Rightarrow> 'w \<Rightarrow> (string + js_value) \<times> 'w" where
  "js_execute_sql h query params w =
     (case jh_pool h of
        None \<Rightarrow> (Inl ''database not configured'', w)
      | Some pool \<Rightarrow>
          (case query of
             None \<Rightarrow> (Inl ''executeSql requires query string'', w)
           | Some q \<Rightarrow>
               (case js_sql_params params of
                  Inl e \<Rightarrow> (Inl e, w)
                | Inr values \<Rightarrow>
                    (case pg_fetch_one pool (wrapped_sql q) (map bind_lua_param values) w of
                       (Inl e, w1) \<Rightarrow> (Inl (pe_text e), w1)
                     | (Inr rows, w1) \<Rightarrow> (Inr (json_to_js (jh_libs h) (lua_rows rows)), w1)))))"

section \<open>Running code\<close>

primrec js_perform ::
  "('v, 'g, 's, 'l, 'w) js_host \<Rightarrow>
   (string option \<Rightarrow> 'g \<Rightarrow> 'w \<Rightarrow> ((string + 'v option) \<times> 'g \<times> 'w) option) \<Rightarrow>
   ('v, 'g) js_run \<Rightarrow> 'w \<Rightarrow> ((string + 'v) \<times> 'g \<times> 'w) option" where
  "js_perform h require (JsReturns v g) w = Some (Inr v, g, w)"
| "js_perform h require (JsThrows e g) w = Some (Inl e, g, w)"
| "js_perform h require (JsGetEnv key run) w = js_perform h require (run (js_get_env h key)) w"
| "js_perform h require (JsRequireScript name g run) w =
     (case require name g w of
        None \<Rightarrow> None
      | Some (r, g1, w1) \<Rightarrow> js_perform h require (run r g1) w1)"
| "js_perform h require (JsExecuteSql query params g run) w =
     (case js_execute_sql h query params w of
        (answer, w1) \<Rightarrow> js_perform h require (run answer) w1)"

text \<open>A known script is run once: after that its name is a global, unless its value is undefined.\<close>

fun js_require ::
  "('v, 'g, 's, 'l, 'w) js_host \<Rightarrow> nat \<Rightarrow> string option \<Rightarrow> 'g \<Rightarrow> 'w \<Rightarrow> ((string + 'v option) \<times> 'g \<times> 'w) option" where
  "js_require h 0 name g w = None"
| "js_require h (Suc fuel) name g w =
     (case name of
        None \<Rightarrow> Some (Inl ''requireScript requires string argument'', g, w)
      | Some n \<Rightarrow>
          (case map_of (jh_scripts h) n of
             None \<Rightarrow> Some (Inr None, g, w)
           | Some src \<Rightarrow>
               (case je_get_global (jh_engine h) n g of
                  Inr (Some v) \<Rightarrow> Some (Inr (Some v), g, w)
                | _ \<Rightarrow>
                    (case js_perform h (js_require h fuel) (je_eval (jh_engine h) src g) w of
                       None \<Rightarrow> None
                     | Some (Inl e, g1, w1) \<Rightarrow> Some (Inl e, g1, w1)
                     | Some (Inr v, g1, w1) \<Rightarrow>
                         (case je_set_global (jh_engine h) n v g1 of
                            Inl e \<Rightarrow> Some (Inl e, g1, w1)
                          | Inr g2 \<Rightarrow> Some (Inr (Some v), g2, w1))))))"

section \<open>The global names\<close>

definition key_texts :: "js_key list \<Rightarrow> string list" where
  "key_texts ks = concat (map (\<lambda>k. case k of KeyText (Some s) \<Rightarrow> [s] | _ \<Rightarrow> []) ks)"

definition get_global_keys :: "('v, 'g, 's) js_engine \<Rightarrow> 'g \<Rightarrow> web_pipe_error + string list" where
  "get_global_keys eng g = (case je_keys eng g of Inl e \<Rightarrow> Inl (js_error e) | Inr ks \<Rightarrow> Inr (key_texts ks))"

text \<open>The names that were not there at the start are deleted, up to the first that cannot be.\<close>

fun delete_keys :: "('v, 'g, 's) js_engine \<Rightarrow> string list \<Rightarrow> js_key list \<Rightarrow> 'g \<Rightarrow> 'g" where
  "delete_keys eng initial [] g = g"
| "delete_keys eng initial (k # ks) g =
     (case k of
        KeyText (Some s) \<Rightarrow>
          if s \<in> set initial then delete_keys eng initial ks g
          else (case je_delete eng k g of Inl e \<Rightarrow> g | Inr g1 \<Rightarrow> delete_keys eng initial ks g1)
      | _ \<Rightarrow> delete_keys eng initial ks g)"

definition cleanup_environment :: "('v, 'g, 's) js_engine \<Rightarrow> string list \<Rightarrow> 'g \<Rightarrow> 'g" where
  "cleanup_environment eng initial g = (case je_keys eng g of Inl e \<Rightarrow> g | Inr ks \<Rightarrow> delete_keys eng initial ks g)"

section \<open>Setting up\<close>

definition source_text :: "(nat \<times> string) list \<Rightarrow> string" where
  "source_text ls = [CHR 0x0A] @ concat (map (\<lambda>(n, l). replicate n CHR '' '' @ l @ [CHR 0x0A]) ls)"

definition sandbox_code :: string where
  "sandbox_code = source_text [
      (12, ''eval = undefined;''),
      (12, ''Function = undefined;''),
      (12, ''setTimeout = undefined;''),
      (12, ''setInterval = undefined;''),
      (12, ''setImmediate = undefined;'')] @ replicate 8 CHR '' ''"

definition lockdown_code :: string where
  "lockdown_code = source_text [
      (12, ''(function() {''),
      (16, ''const objects = [''),
      (20, ''Object, Array, String, Number, Boolean, Date, RegExp, Error, ''),
      (20, ''Math, JSON, Promise, Map, Set, WeakMap, WeakSet''),
      (16, ''];''),
      (16, []),
      (16, ''objects.forEach(obj => {''),
      (20, ''if (obj) {''),
      (24, ''// Freeze the prototype if it exists (prevents Array.prototype.push = ...)''),
      (24, ''if (obj.prototype) Object.freeze(obj.prototype);''),
      (24, ''// Freeze the static object itself (prevents Array.from = ...)''),
      (24, ''Object.freeze(obj);''),
      (20, ''}''),
      (16, ''});''),
      (12, ''})();'')] @ replicate 8 CHR '' ''"

definition failing :: "string \<Rightarrow> string \<Rightarrow> web_pipe_error" where
  "failing what e = MiddlewareExecutionError (what @ '': '' @ e)"

text \<open>Code of the middleware itself, run for its effect.\<close>

definition eval_own ::
  "('v, 'g, 's, 'l, 'w) js_host \<Rightarrow> nat \<Rightarrow> string \<Rightarrow> string \<Rightarrow> 'g \<Rightarrow> 'w \<Rightarrow> ((web_pipe_error + 'g) \<times> 'w) option" where
  "eval_own h fuel what code g w =
     (case js_perform h (js_require h fuel) (je_eval (jh_engine h) code g) w of
        None \<Rightarrow> None
      | Some (Inl e, g1, w1) \<Rightarrow> Some (Inl (failing what e), w1)
      | Some (Inr v, g1, w1) \<Rightarrow> Some (Inr g1, w1))"

fun register_functions :: "('v, 'g, 's) js_engine \<Rightarrow> string list \<Rightarrow> 'g \<Rightarrow> web_pipe_error + 'g" where
  "register_functions eng [] g = Inr g"
| "register_functions eng (n # ns) g =
     (case je_register eng n g of
        Inl e \<Rightarrow> Inl (failing (''Failed to register '' @ n) e)
      | Inr g1 \<Rightarrow> register_functions eng ns g1)"

definition js_quoted :: "string \<Rightarrow> string" where
  "js_quoted s = [CHR 0x27] @ s @ [CHR 0x27]"

fun js_load_scripts ::
  "('v, 'g, 's, 'l, 'w) js_host \<Rightarrow> nat \<Rightarrow> (string \<times> string) list \<Rightarrow> 'g \<Rightarrow> 'w \<Rightarrow> ((web_pipe_error + 'g) \<times> 'w) option" where
  "js_load_scripts h fuel [] g w = Some (Inr g, w)"
| "js_load_scripts h fuel ((name, src) # scripts) g w =
     (case js_perform h (js_require h fuel) (je_eval (jh_engine h) src g) w of
        None \<Rightarrow> None
      | Some (Inl e, g1, w1) \<Rightarrow> Some (Inl (failing (''JavaScript script '' @ js_quoted name @ '' execution error'') e), w1)
      | Some (Inr v, g1, w1) \<Rightarrow>
          (case je_set_global (jh_engine h) name v g1 of
             Inl e \<Rightarrow> Some (Inl (failing (''Failed to register JavaScript module '' @ js_quoted name @ '' as global'') e), w1)
           | Inr g2 \<Rightarrow> js_load_scripts h fuel scripts g2 w1))"

definition initialize_runtime ::
  "('v, 'g, 's, 'l, 'w) js_host \<Rightarrow> nat \<Rightarrow> 'w \<Rightarrow> ((web_pipe_error + ('g, 'l) js_runtime) \<times> 'w) option" where
  "initialize_runtime h fuel w =
     (case eval_own h fuel ''Failed to sandbox JavaScript environment'' sandbox_code (je_new (jh_engine h)) w of
        None \<Rightarrow> None
      | Some (Inl e, w1) \<Rightarrow> Some (Inl e, w1)
      | Some (Inr g1, w1) \<Rightarrow>
          (case register_functions (jh_engine h) [''getEnv'', ''requireScript'', ''executeSql''] g1 of
             Inl e \<Rightarrow> Some (Inl e, w1)
           | Inr g2 \<Rightarrow>
               (case js_load_scripts h fuel (jh_scripts h) g2 w1 of
                  None \<Rightarrow> None
                | Some (Inl e, w2) \<Rightarrow> Some (Inl e, w2)
                | Some (Inr g3, w2) \<Rightarrow>
                    (case eval_own h fuel ''Lockdown failed'' lockdown_code g3 w2 of
                       None \<Rightarrow> None
                     | Some (Inl e, w3) \<Rightarrow> Some (Inl e, w3)
                     | Some (Inr g4, w3) \<Rightarrow>
                         Some (case get_global_keys (jh_engine h) g4 of
                                 Inl e \<Rightarrow> Inl e
                               | Inr ks \<Rightarrow> Inr \<lparr> jr_cache = lru_new (jh_lru h) 64, jr_context = g4, jr_initial_keys = ks \<rparr>,
                               w3)))))"

section \<open>A script\<close>

text \<open>
  The script is the body of a function with the request, the context and four functions for flags,
  which keep their flags among themselves.
\<close>

definition wrapped_source :: "string \<Rightarrow> string" where
  "wrapped_source src = source_text ([
      (16, ''(function(request, context) {''),
      (20, [CHR 0x22] @ ''use strict'' @ [CHR 0x22] @ '';''),
      (20, []),
      (20, ''// Inject helper functions''),
      (20, ''const flags = {};''),
      (20, ''const getFlag = function(key) { return flags[key] || false; };''),
      (20, ''const setFlag = function(key, val) { flags[key] = val; };''),
      (20, []),
      (20, ''const conditions = {};''),
      (20, ''const getWhen = function(key) { return conditions[key] || false; };''),
      (20, ''const setWhen = function(key, val) { conditions[key] = val; };''),
      (20, []),
      (20, src),
      (16, ''})(__req, __ctx)'')]) @ replicate 12 CHR '' ''"

text \<open>The compiled script, from the cache or made now and kept there.\<close>

definition compiled ::
  "('v, 'g, 's, 'l, 'w) js_host \<Rightarrow> string \<Rightarrow> ('g, 'l) js_runtime \<Rightarrow> (web_pipe_error + 's option) \<times> ('g, 'l) js_runtime" where
  "compiled h src rt =
     (case lru_peek (jh_lru h) src (jr_cache rt) of
        Some s \<Rightarrow> (case lru_get (jh_lru h) src (jr_cache rt) of (r, c) \<Rightarrow> (Inr r, rt\<lparr>jr_cache := c\<rparr>))
      | None \<Rightarrow>
          (case je_parse (jh_engine h) (wrapped_source src) (jr_context rt) of
             (Inl e, g) \<Rightarrow> (Inl (failing ''JS Compilation error'' e), rt\<lparr>jr_context := g\<rparr>)
           | (Inr s, g) \<Rightarrow>
               (case lru_put (jh_lru h) src s (jr_cache rt) of
                  (old, c) \<Rightarrow>
                    (case lru_get (jh_lru h) src c of
                       (r, c2) \<Rightarrow> (Inr r, rt\<lparr>jr_cache := c2, jr_context := g\<rparr>)))))"

definition inject ::
  "('v, 'g, 's, 'l, 'w) js_host \<Rightarrow> json \<Rightarrow> json \<Rightarrow> 'g \<Rightarrow> web_pipe_error option \<times> 'g" where
  "inject h input context_value g =
     (case je_put (jh_engine h) ''__req'' (json_to_js (jh_libs h) input) g of
        Inl e \<Rightarrow> (Some (failing ''Failed to set __req'' e), g)
      | Inr g1 \<Rightarrow>
          (case je_put (jh_engine h) ''__ctx'' (json_to_js (jh_libs h) context_value) g1 of
             Inl e \<Rightarrow> (Some (failing ''Failed to set __ctx'' e), g1)
           | Inr g2 \<Rightarrow> (None, g2)))"

text \<open>
  One script on the interpreter of its thread. A text that does not compile leaves before the clean-up.
  The compiled script is in the cache when it is evaluated: \<^verbatim>\<open>unwrap\<close> cannot fail there.
\<close>

definition run_js_script ::
  "('v, 'g, 's, 'l, 'w) js_host \<Rightarrow> nat \<Rightarrow> string \<Rightarrow> json \<Rightarrow> json \<Rightarrow> ('g, 'l) js_runtime \<Rightarrow> 'w \<Rightarrow>
   ((web_pipe_error + json) \<times> ('g, 'l) js_runtime \<times> 'w) option" where
  "run_js_script h fuel src input context_value rt w =
     (case inject h input context_value (jr_context rt) of
        (Some e, g) \<Rightarrow> Some (Inl e, rt\<lparr>jr_context := g\<rparr>, w)
      | (None, g) \<Rightarrow>
          (case compiled h src (rt\<lparr>jr_context := g\<rparr>) of
             (Inl e, rt1) \<Rightarrow> Some (Inl e, rt1, w)
           | (Inr None, rt1) \<Rightarrow> None
           | (Inr (Some s), rt1) \<Rightarrow>
               (case js_perform h (js_require h fuel) (je_evaluate (jh_engine h) s (jr_context rt1)) w of
                  None \<Rightarrow> None
                | Some (r, g1, w1) \<Rightarrow>
                    (let g2 = cleanup_environment (jh_engine h) (jr_initial_keys rt1) g1
                     in Some (case r of
                          Inl e \<Rightarrow> (Inl (failing ''JS Runtime error'' e), rt1\<lparr>jr_context := g2\<rparr>, w1)
                        | Inr v \<Rightarrow>
                            (case je_read (jh_engine h) v g2 of
                               (view, g3) \<Rightarrow> (js_to_json 0 view, rt1\<lparr>jr_context := g3\<rparr>, w1)))))))"

definition execute_js_script ::
  "('v, 'g, 's, 'l, 'w) js_host \<Rightarrow> nat \<Rightarrow> string \<Rightarrow> json \<Rightarrow> json \<Rightarrow> ('g, 'l) js_runtime option \<Rightarrow> 'w \<Rightarrow>
   ((web_pipe_error + json) \<times> ('g, 'l) js_runtime option \<times> 'w) option" where
  "execute_js_script h fuel src input context_value thread w =
     (case (case thread of Some rt \<Rightarrow> Some (Inr rt, w) | None \<Rightarrow> initialize_runtime h fuel w) of
        None \<Rightarrow> None
      | Some (Inl e, w1) \<Rightarrow> Some (Inl e, None, w1)
      | Some (Inr rt, w1) \<Rightarrow>
          (case run_js_script h fuel src input context_value rt w1 of
             None \<Rightarrow> None
           | Some (r, rt1, w2) \<Rightarrow> Some (r, Some rt1, w2)))"

definition js_execute ::
  "('v, 'g, 's, 'l, 'w) js_host \<Rightarrow> nat \<Rightarrow> ('c, 'r, 'w) execution_env \<Rightarrow> string \<Rightarrow> pipeline_context \<Rightarrow> ('g, 'l) js_runtime option \<Rightarrow>
   ('c, 'r, 'w) machine \<Rightarrow>
   ((web_pipe_error + middleware_output) \<times> pipeline_context \<times> ('g, 'l) js_runtime option \<times> ('c, 'r, 'w) machine) option" where
  "js_execute h fuel env config pc thread m =
     (case execute_js_script h fuel config (pc_state pc) (context_to_value env (mc_ctx m)) thread (mc_world m) of
        None \<Rightarrow> None
      | Some (Inl e, thread1, w) \<Rightarrow> Some (Inl e, pc, thread1, m\<lparr>mc_world := w\<rparr>)
      | Some (Inr v, thread1, w) \<Rightarrow> Some (Inr default_output, pc\<lparr>pc_state := v\<rparr>, thread1, m\<lparr>mc_world := w\<rparr>))"

definition js_behavior :: state_behavior where
  "js_behavior = Transform"

section \<open>What one script leaves for the next\<close>

text \<open>
  An interpreter whose global names, as texts, are \<^verbatim>\<open>names\<close>: storing a value adds at most its
  name, compiling and reading add none, and every name that is not one of the first can be deleted,
  which is so unless a script has made it a property that is not configurable.
\<close>

definition keeps_names :: "('v, 'g, 's) js_engine \<Rightarrow> ('g \<Rightarrow> string set) \<Rightarrow> string list \<Rightarrow> bool" where
  "keeps_names eng names initial \<longleftrightarrow>
     (\<forall>g. \<exists>ks. je_keys eng g = Inr ks \<and> set (key_texts ks) = names g) \<and>
     (\<forall>n v g g1. je_put eng n v g = Inr g1 \<longrightarrow> names g1 \<subseteq> insert n (names g)) \<and>
     (\<forall>src g r g1. je_parse eng src g = (r, g1) \<longrightarrow> names g1 \<subseteq> names g) \<and>
     (\<forall>v g. names (snd (je_read eng v g)) \<subseteq> names g) \<and>
     (\<forall>s g. s \<notin> set initial \<longrightarrow> (\<exists>g1. je_delete eng (KeyText (Some s)) g = Inr g1 \<and> names g1 = names g - {s}))"

lemma names_listed: "keeps_names eng names initial \<Longrightarrow> \<exists>ks. je_keys eng g = Inr ks \<and> set (key_texts ks) = names g"
  unfolding keeps_names_def by (elim conjE allE)

lemma names_put: "keeps_names eng names initial \<Longrightarrow> je_put eng n v g = Inr g1 \<Longrightarrow> names g1 \<subseteq> insert n (names g)"
  by (simp add: keeps_names_def)

lemma names_parse: "keeps_names eng names initial \<Longrightarrow> je_parse eng src g = (r, g1) \<Longrightarrow> names g1 \<subseteq> names g"
  unfolding keeps_names_def by (elim conjE) metis

lemma names_read: "keeps_names eng names initial \<Longrightarrow> je_read eng v g = (r, g1) \<Longrightarrow> names g1 \<subseteq> names g"
  unfolding keeps_names_def by (elim conjE) (metis snd_conv)

lemma names_delete:
  "keeps_names eng names initial \<Longrightarrow> s \<notin> set initial \<Longrightarrow>
   \<exists>g1. je_delete eng (KeyText (Some s)) g = Inr g1 \<and> names g1 = names g - {s}"
  by (simp add: keeps_names_def)

lemma delete_keys_names:
  assumes "keeps_names eng names initial"
  shows "names (delete_keys eng initial ks g) \<subseteq> names g - (set (key_texts ks) - set initial)"
proof (induction ks arbitrary: g)
  case Nil
  then show ?case by (simp add: key_texts_def)
next
  case (Cons k ks)
  have step: "\<exists>g1. je_delete eng (KeyText (Some s)) g = Inr g1 \<and> names g1 = names g - {s}" if "s \<notin> set initial" for s
    by (rule names_delete [OF assms that])
  show ?case
  proof (cases "\<exists>s. k = KeyText (Some s) \<and> s \<notin> set initial")
    case True
    then obtain s where s: "k = KeyText (Some s)" "s \<notin> set initial" by blast
    obtain g1 where g1: "je_delete eng k g = Inr g1" "names g1 = names g - {s}" using step [OF s(2)] s(1) by blast
    have "names (delete_keys eng initial ks g1) \<subseteq> names g1 - (set (key_texts ks) - set initial)" by (rule Cons.IH)
    then show ?thesis using s g1 by (auto simp: key_texts_def)
  next
    case False
    then have "delete_keys eng initial (k # ks) g = delete_keys eng initial ks g"
      by (auto split: js_key.splits option.splits)
    moreover have "set (key_texts (k # ks)) - set initial = set (key_texts ks) - set initial"
      using False by (auto simp: key_texts_def split: js_key.splits option.splits)
    ultimately show ?thesis using Cons.IH [of g] by simp
  qed
qed

lemma cleanup_names:
  assumes "keeps_names eng names initial"
  shows "names (cleanup_environment eng initial g) \<subseteq> names g \<inter> set initial"
proof -
  obtain ks where "je_keys eng g = Inr ks" "set (key_texts ks) = names g"
    using names_listed [OF assms] by blast
  then show ?thesis using delete_keys_names [OF assms, of ks g] by (auto simp: cleanup_environment_def)
qed

definition compiled_from :: "('v, 'g, 's) js_engine \<Rightarrow> string \<Rightarrow> 's \<Rightarrow> bool" where
  "compiled_from eng src s \<longleftrightarrow> (\<exists>g g1. je_parse eng (wrapped_source src) g = (Inr s, g1))"

text \<open>
  A runtime between two scripts: what is in the cache was compiled from the text it is filed under, and
  the global names are those of the start and at most the two for the request.
\<close>

definition runtime_ok ::
  "('v, 'g, 's, 'l, 'w) js_host \<Rightarrow> ('l \<Rightarrow> bool) \<Rightarrow> ('l \<Rightarrow> (string \<times> 's) list) \<Rightarrow> ('g \<Rightarrow> string set) \<Rightarrow>
   ('g, 'l) js_runtime \<Rightarrow> bool" where
  "runtime_ok h ok entries names rt \<longleftrightarrow>
     ok (jr_cache rt) \<and>
     (\<forall>e \<in> set (entries (jr_cache rt)). compiled_from (jh_engine h) (fst e) (snd e)) \<and>
     names (jr_context rt) \<subseteq> set (jr_initial_keys rt) \<union> {''__req'', ''__ctx''}"

lemma set_promote: "set (promote k es) \<subseteq> set es"
  by (auto simp: promote_def drop_key_def dest: map_of_SomeD split: option.splits)

lemma set_push_entries: "set (snd (push_entries cap k v es)) \<subseteq> insert (k, v) (set es)"
  by (auto simp: push_entries_def drop_key_def dest: in_set_butlastD split: option.splits)

text \<open>The compiled script is always there, and its own; compiling keeps the cache so.\<close>

lemma compiled_keeps:
  assumes lru: "lru_cache (jh_lru h) ok entries cap" and names: "keeps_names (jh_engine h) names initial"
    and rt: "runtime_ok h ok entries names rt" and run: "compiled h src rt = (r, rt1)"
  shows "runtime_ok h ok entries names rt1 \<and> jr_initial_keys rt1 = jr_initial_keys rt \<and>
    (\<forall>s. r = Inr s \<longrightarrow> (\<exists>s'. s = Some s' \<and> compiled_from (jh_engine h) src s'))"
proof -
  let ?c = "jr_cache rt"
  have ok: "ok ?c" and own: "\<And>e. e \<in> set (entries ?c) \<Longrightarrow> compiled_from (jh_engine h) (fst e) (snd e)"
    using rt by (auto simp: runtime_ok_def)
  have peek: "lru_peek (jh_lru h) src ?c = map_of (entries ?c) src" by (rule lru_cache.peek [OF lru ok])
  show ?thesis
  proof (cases "map_of (entries ?c) src")
    case (Some s)
    obtain r2 c2 where get: "lru_get (jh_lru h) src ?c = (r2, c2)" by fastforce
    note g = lru_cache.get [OF lru ok get]
    have run': "r = Inr (Some s)" "rt1 = rt\<lparr>jr_cache := c2\<rparr>" using run Some peek get g by (auto simp: compiled_def)
    have "compiled_from (jh_engine h) src s" using own [of "(src, s)"] Some by (auto dest: map_of_SomeD)
    moreover have "runtime_ok h ok entries names rt1"
      using rt g set_promote [of src "entries ?c"] own by (auto simp: runtime_ok_def run')
    ultimately show ?thesis by (simp add: run')
  next
    case None
    obtain p g where parse: "je_parse (jh_engine h) (wrapped_source src) (jr_context rt) = (p, g)" by fastforce
    have g: "names g \<subseteq> set (jr_initial_keys rt) \<union> {''__req'', ''__ctx''}"
      using names_parse [OF names parse] rt by (auto simp: runtime_ok_def)
    show ?thesis
    proof (cases p)
      case (Inl e)
      with run None peek parse rt g show ?thesis by (auto simp: compiled_def runtime_ok_def)
    next
      case (Inr s)
      obtain old c1 where put: "lru_put (jh_lru h) src s ?c = (old, c1)" by fastforce
      obtain r2 c2 where get: "lru_get (jh_lru h) src c1 = (r2, c2)" by fastforce
      note p = lru_cache.put [OF lru ok put]
      note gt = lru_cache.get [OF lru conjunct1 [OF conjunct2 [OF conjunct2 [OF p]]] get]
      have new: "compiled_from (jh_engine h) src s" using parse Inr unfolding compiled_from_def by blast
      have found: "map_of (entries c1) src = Some s"
        unfolding conjunct1 [OF conjunct2 [OF p]] by (rule push_entries_self [OF prod.collapse [symmetric]])
      have "set (entries c2) \<subseteq> insert (src, s) (set (entries ?c))"
        using p gt set_promote [of src "entries c1"] set_push_entries [of "cap ?c" src s "entries ?c"] by auto
      then have "\<forall>e \<in> set (entries c2). compiled_from (jh_engine h) (fst e) (snd e)" using own new by auto
      moreover have "r = Inr (Some s)" "rt1 = rt\<lparr>jr_cache := c2, jr_context := g\<rparr>"
        using run None peek parse Inr put get gt found by (auto simp: compiled_def)
      ultimately show ?thesis using gt g new by (simp add: runtime_ok_def)
    qed
  qed
qed

lemma inject_keeps:
  assumes "keeps_names (jh_engine h) names initial" and "runtime_ok h ok entries names rt"
    and "inject h input context_value (jr_context rt) = (e, g)"
  shows "runtime_ok h ok entries names (rt\<lparr>jr_context := g\<rparr>)"
proof -
  have "names g \<subseteq> names (jr_context rt) \<union> {''__req'', ''__ctx''}"
    using assms(3) by (auto simp: inject_def split: sum.splits dest!: names_put [OF assms(1)])
  with assms(2) show ?thesis by (auto simp: runtime_ok_def)
qed

text \<open>The evaluation of a compiled script with the clean-up after it.\<close>

definition evaluated ::
  "('v, 'g, 's, 'l, 'w) js_host \<Rightarrow> ('g, 'l) js_runtime \<Rightarrow> string + 'v \<Rightarrow> 'g \<Rightarrow> web_pipe_error + json \<Rightarrow> ('g, 'l) js_runtime \<Rightarrow> bool" where
  "evaluated h rt outcome g r rt1 \<longleftrightarrow>
     (let g2 = cleanup_environment (jh_engine h) (jr_initial_keys rt) g
      in case outcome of
           Inl e \<Rightarrow> r = Inl (failing ''JS Runtime error'' e) \<and> rt1 = rt\<lparr>jr_context := g2\<rparr>
         | Inr v \<Rightarrow> rt1 = rt\<lparr>jr_context := snd (je_read (jh_engine h) v g2)\<rparr>)"

lemma evaluated_keeps:
  assumes "keeps_names (jh_engine h) names (jr_initial_keys rt)" and "runtime_ok h ok entries names rt"
    and "evaluated h rt outcome g r rt1"
  shows "runtime_ok h ok entries names rt1 \<and> names (jr_context rt1) \<subseteq> set (jr_initial_keys rt) \<and>
    jr_initial_keys rt1 = jr_initial_keys rt"
proof -
  let ?g2 = "cleanup_environment (jh_engine h) (jr_initial_keys rt) g"
  have g2: "names ?g2 \<subseteq> set (jr_initial_keys rt)" using cleanup_names [OF assms(1), of g] by simp
  obtain g3 where g3: "rt1 = rt\<lparr>jr_context := g3\<rparr>" "g3 = ?g2 \<or> (\<exists>v. g3 = snd (je_read (jh_engine h) v ?g2))"
    using assms(3) by (cases outcome) (auto simp: evaluated_def Let_def)
  have "names g3 \<subseteq> names ?g2"
    using g3(2) names_read [OF assms(1) prod.collapse [symmetric], of _ ?g2] by auto
  with g2 g3(1) assms(2) show ?thesis by (auto simp: runtime_ok_def)
qed


text \<open>Whatever a script does, the flags and conditions of its request stay as they are.\<close>

lemma flags_never_reach_the_request:
  "js_execute h fuel env config pc thread m = Some (r, pc1, thread1, m1) \<Longrightarrow> mc_ctx m1 = mc_ctx m"
  by (auto simp: js_execute_def split: option.splits sum.splits prod.splits)

text \<open>A name that cannot be deleted ends the clean-up: what comes after it stays for the next script.\<close>

lemma undeletable_name_ends_the_cleanup:
  assumes "je_keys eng g = Inr (KeyText (Some s) # ks)" and "s \<notin> set initial" and "je_delete eng (KeyText (Some s)) g = Inl e"
  shows "cleanup_environment eng initial g = g"
  using assms by (simp add: cleanup_environment_def)


definition sample_js_host :: "(unit, string list, string, string list_lru, unit) js_host" where
  "sample_js_host = \<lparr>
     jh_engine = \<lparr> je_new = [], je_register = (\<lambda>n g. Inr (n # g)), je_eval = (\<lambda>src g. JsReturns () g),
       je_parse = (\<lambda>src g. (Inr src, g)), je_evaluate = (\<lambda>s g. JsReturns () (''leak'' # g)),
       je_put = (\<lambda>n v g. Inr (n # g)), je_get_global = (\<lambda>n g. Inr None), je_set_global = (\<lambda>n v g. Inr (n # g)),
       je_keys = (\<lambda>g. Inr (map (\<lambda>s. KeyText (Some s)) g)),
       je_delete = (\<lambda>k g. Inr (filter (\<lambda>s. k \<noteq> KeyText (Some s)) g)), je_read = (\<lambda>v g. (JsNull, g)) \<rparr>,
     jh_libs = sample_js, jh_lru = list_lru, jh_env = Map.empty, jh_scripts = [], jh_pool = None \<rparr>"

definition sample_runtime :: "(string list, string list_lru) js_runtime" where
  "sample_runtime = \<lparr> jr_cache = (64, []), jr_context = [''getEnv''], jr_initial_keys = [''getEnv''] \<rparr>"


end
