(* ===== verification/App_Context.thy ===== *)
theory App_Context
  imports Config_Manager Cache_Store Rate_Limit Migrations Loader
begin

text \<open>
  How the runtime context is built from a program's configuration (\<^verbatim>\<open>Context::from_program_configs\<close>
  and the loading of script files, \<^verbatim>\<open>src/runtime/context.rs\<close>). The process environment, the
  script directory, the database driver, the template engine and the cache container are arguments.
\<close>

section \<open>Script files\<close>

definition split_extension :: "string \<Rightarrow> string \<times> string option" where
  "split_extension name =
     (case rfind_char (CHR ''.'') name of
        None \<Rightarrow> (name, None)
      | Some i \<Rightarrow> if i = 0 then (name, None) else (take i name, Some (drop (Suc i) name)))"

text \<open>Files that cannot be read are left out; of two with one stem the later takes the place.\<close>

definition add_script :: "string \<Rightarrow> string + dir_entry \<Rightarrow> string omap \<Rightarrow> string omap" where
  "add_script ext r scripts =
     (case r of
        Inl e \<Rightarrow> scripts
      | Inr en \<Rightarrow>
          (case split_extension (en_name en) of
             (stem, e) \<Rightarrow>
               if en_is_file en \<and> map_option to_ascii_lowercase e = Some ext \<and> stem \<noteq> []
               then (case en_content en of Inl err \<Rightarrow> scripts | Inr source \<Rightarrow> om_insert stem source scripts)
               else scripts))"

definition load_script_files :: "string \<Rightarrow> directory \<Rightarrow> string omap" where
  "load_script_files ext dir =
     (case dir of Missing \<Rightarrow> [] | Unreadable e \<Rightarrow> [] | Entries es \<Rightarrow> fold (add_script ext) es [])"

definition load_lua_scripts :: "directory \<Rightarrow> string omap" where
  "load_lua_scripts = load_script_files ''lua''"

definition load_js_scripts :: "directory \<Rightarrow> string omap" where
  "load_js_scripts = load_script_files ''js''"

section \<open>The limits of the cache\<close>

record cache_limits =
  cl_default_ttl :: nat
  cl_max_total :: nat
  cl_max_entry :: nat
  cl_swr_grace :: nat
  cl_max_entries :: nat

definition default_cache_config :: json where
  "default_cache_config = JObject [(''enabled'', JBool True), (''defaultTtl'', json_nat 60),
     (''maxCacheSize'', json_nat 10485760), (''maxEntrySize'', json_nat 1048576)]"

definition u64_field :: "string \<Rightarrow> nat \<Rightarrow> json \<Rightarrow> nat" where
  "u64_field name other cfg = (case Option.bind (json_get name cfg) as_u64 of None \<Rightarrow> other | Some n \<Rightarrow> unat n)"

definition cache_limits_of :: "web_pipe_error + json \<Rightarrow> cache_limits" where
  "cache_limits_of r =
     (let cfg = (case r of Inl e \<Rightarrow> default_cache_config | Inr v \<Rightarrow> v);
          total = u64_field ''maxCacheSize'' 10485760 cfg
      in \<lparr> cl_default_ttl = u64_field ''defaultTtl'' 60 cfg, cl_max_total = total,
           cl_max_entry = u64_field ''maxEntrySize'' 1048576 cfg,
           cl_swr_grace = u64_field ''staleWhileRevalidate'' 30 cfg,
           cl_max_entries = max 64 (total div 4096) \<rparr>)"

definition rate_limit_entries :: "web_pipe_error + json \<Rightarrow> nat" where
  "rate_limit_entries r = (case r of Inl e \<Rightarrow> 10000 | Inr cfg \<Rightarrow> u64_field ''maxEntries'' 10000 cfg)"

section \<open>The database\<close>

definition hex_digit :: "nat \<Rightarrow> char" where
  "hex_digit n = (if n < 10 then char_of (48 + n) else char_of (55 + n))"

definition encode_char :: "char \<Rightarrow> string" where
  "encode_char c =
     (if is_ascii_alphanumeric c then [c]
      else [CHR ''%'', hex_digit (of_char c div 16), hex_digit (of_char c mod 16)])"

text \<open>\<^verbatim>\<open>utf8_percent_encode\<close> with \<^verbatim>\<open>NON_ALPHANUMERIC\<close>: its documented result, byte by byte.\<close>

definition percent_encode :: "string \<Rightarrow> string" where
  "percent_encode s = concat (map encode_char s)"

record pg_settings =
  ps_host :: string
  ps_port :: int
  ps_database :: string
  ps_user :: string
  ps_password :: string
  ps_max :: "32 word"
  ps_min :: "32 word"

definition str_field :: "string \<Rightarrow> string \<Rightarrow> json \<Rightarrow> string" where
  "str_field name other cfg = (case Option.bind (json_get name cfg) as_str of None \<Rightarrow> other | Some s \<Rightarrow> s)"

definition int_field :: "string \<Rightarrow> int \<Rightarrow> json \<Rightarrow> int" where
  "int_field name other cfg = (case Option.bind (json_get name cfg) as_i64 of None \<Rightarrow> other | Some n \<Rightarrow> n)"

text \<open>The sizes are at least one, then cut to 32 bits.\<close>

definition pg_settings_of :: "json \<Rightarrow> pg_settings option" where
  "pg_settings_of cfg =
     (case Option.bind (json_get ''host'' cfg) as_str of
        None \<Rightarrow> None
      | Some host \<Rightarrow>
          (let most = word_of_int (max 1 (int_field ''maxPoolSize'' 20 cfg)) :: 32 word;
               least = word_of_int (max 1 (int_field ''initialPoolSize'' 5 cfg)) :: 32 word
           in Some \<lparr> ps_host = host, ps_port = int_field ''port'' 5432 cfg,
                ps_database = str_field ''database'' ''postgres'' cfg, ps_user = str_field ''user'' ''postgres'' cfg,
                ps_password = str_field ''password'' ''postgres'' cfg,
                ps_max = most, ps_min = (if least > most then most else least) \<rparr>))"

definition show_port :: "int \<Rightarrow> string" where
  "show_port n = (if n < 0 then CHR ''-'' # show_nat (nat (- n)) else show_nat (nat n))"

definition database_url :: "pg_settings \<Rightarrow> string" where
  "database_url s =
     ''postgres://'' @ percent_encode (ps_user s) @ '':'' @ percent_encode (ps_password s) @ ''@'' @
     ps_host s @ '':'' @ show_port (ps_port s) @ ''/'' @ ps_database s"

section \<open>The context\<close>

record ('p, 'h) context_libs =
  xl_connect :: "string \<Rightarrow> 32 word \<Rightarrow> 32 word \<Rightarrow> string + 'p"
  xl_register_partial :: "string \<Rightarrow> string \<Rightarrow> 'h \<Rightarrow> 'h"
  xl_new_engine :: 'h
  xl_env :: "string \<Rightarrow> string option"
  xl_scripts :: "string \<Rightarrow> directory"

record ('p, 'h, 'c, 'r) app_context =
  ac_pg :: "'p option"
  ac_cache :: "'c cache_store"
  ac_rate :: 'r
  ac_hb :: 'h
  ac_lua_scripts :: "string omap"
  ac_js_scripts :: "string omap"

definition is_partial :: "variable \<Rightarrow> bool" where
  "is_partial v \<longleftrightarrow> var_type v = ''mustache'' \<or> var_type v = ''handlebars''"

definition register_partials :: "('p, 'h) context_libs \<Rightarrow> variable list \<Rightarrow> 'h" where
  "register_partials lib vs =
     fold (\<lambda>v hb. if is_partial v then xl_register_partial lib (trim (var_name v)) (var_value v) hb else hb) vs
       (xl_new_engine lib)"

definition connect_pool :: "('p, 'h) context_libs \<Rightarrow> web_pipe_error + json \<Rightarrow> web_pipe_error + 'p option" where
  "connect_pool lib r =
     (case r of
        Inl e \<Rightarrow> Inr None
      | Inr cfg \<Rightarrow>
          (case pg_settings_of cfg of
             None \<Rightarrow> Inr None
           | Some s \<Rightarrow>
               (case xl_connect lib (database_url s) (ps_max s) (ps_min s) of
                  Inl e \<Rightarrow> Inl (DatabaseError (''Failed to connect to database: '' @ e))
                | Inr pool \<Rightarrow> Inr (Some pool))))"

definition scripts_dir :: "('p, 'h) context_libs \<Rightarrow> string" where
  "scripts_dir lib = (case xl_env lib ''WEBPIPE_SCRIPTS_DIR'' of None \<Rightarrow> ''scripts'' | Some d \<Rightarrow> d)"

definition from_program_configs ::
  "('c, cache_entry) lru_ops \<Rightarrow> ('r, rate_limit_entry) lru_ops \<Rightarrow> ('p, 'h) context_libs \<Rightarrow> config list \<Rightarrow> variable list \<Rightarrow>
   web_pipe_error + ('p, 'h, 'c, 'r) app_context" where
  "from_program_configs cache_ops rate_ops lib configs vs =
     (let resolve = resolve_config_as_json (xl_env lib) (config_manager_new configs);
          limits = cache_limits_of (resolve ''cache'')
      in case connect_pool lib (resolve ''pg'') of
           Inl e \<Rightarrow> Inl e
         | Inr pg \<Rightarrow>
             Inr \<lparr> ac_pg = pg,
               ac_cache = with_swr_grace (cl_swr_grace limits)
                 (cache_new_with_limits cache_ops (cl_max_entries limits) (cl_default_ttl limits)
                   (cl_max_entry limits) (cl_max_total limits)),
               ac_rate = rate_limit_new rate_ops (rate_limit_entries (resolve ''rateLimit'')),
               ac_hb = register_partials lib vs,
               ac_lua_scripts = load_lua_scripts (xl_scripts lib (scripts_dir lib)),
               ac_js_scripts = load_js_scripts (xl_scripts lib (scripts_dir lib)) \<rparr>)"

section \<open>What a configuration can rely on\<close>

text \<open>
  A configuration is the last block of its name, its values in place. A property that is read from the
  environment is a text.
\<close>

lemma resolved_property:
  assumes "resolve_properties env ps m = Inr result" and "\<forall>p \<in> set ps. cp_key p \<noteq> k"
  shows "map_of result k = map_of m k"
  using assms
proof (induction ps arbitrary: m)
  case (Cons p ps)
  then obtain v where "resolve_properties env ps (om_insert (cp_key p) v m) = Inr result"
    by (auto split: sum.splits)
  from Cons.IH [OF this] Cons.prems(2) show ?case by (simp split: if_splits)
qed simp

lemma resolved_last:
  assumes "resolve_properties env (ps @ p # qs) m = Inr result" and "\<forall>q \<in> set qs. cp_key q \<noteq> cp_key p"
  shows "\<exists>v. resolve_config_value env (cp_value p) = Inr v \<and> map_of result (cp_key p) = Some v"
  using assms
proof (induction ps arbitrary: m)
  case Nil
  then obtain v where v: "resolve_config_value env (cp_value p) = Inr v"
      "resolve_properties env qs (om_insert (cp_key p) v m) = Inr result"
    by (auto split: sum.splits)
  from resolved_property [OF v(2) Nil.prems(2)] v(1) show ?case by simp
next
  case (Cons p' ps)
  then show ?case by (auto split: sum.splits)
qed

lemma env_value_is_text:
  "resolve_config_value env (CfgEnvVar var fallback) = Inr v \<Longrightarrow> \<exists>s. v = JString s"
  by (auto simp: resolve_config_value_def split: option.splits)

text \<open>
  C40: The port of the database, written in the way that the documentation shows, as an environment variable
  with a default, is never used: whatever the variable says, and whatever the default, it is 5432.
\<close>

theorem port_from_environment_is_ignored:
  assumes "get_config ''pg'' (config_manager_new configs) = Some cfg"
    and "cfg_properties cfg = ps @ \<lparr> cp_key = ''port'', cp_value = CfgEnvVar var fallback \<rparr> # qs"
    and "\<forall>q \<in> set qs. cp_key q \<noteq> ''port''"
    and "resolve_config_as_json env (config_manager_new configs) ''pg'' = Inr j" and "pg_settings_of j = Some s"
  shows "ps_port s = 5432"
proof -
  obtain m where m: "resolve_properties env (cfg_properties cfg) [] = Inr m" "j = JObject m"
    using assms(1,4) by (auto simp: resolve_config_as_json_def split: sum.splits)
  obtain v where v: "resolve_config_value env (CfgEnvVar var fallback) = Inr v" "map_of m ''port'' = Some v"
    using resolved_last [of env ps "\<lparr> cp_key = ''port'', cp_value = CfgEnvVar var fallback \<rparr>" qs "[]" m] m(1)
    unfolding assms(2) using assms(3) by auto
  obtain t where "v = JString t" using env_value_is_text [OF v(1)] by blast
  with v(2) m(2) have "int_field ''port'' 5432 j = 5432" by (simp add: int_field_def json_get_def as_i64_def)
  with assms(5) show ?thesis by (auto simp: pg_settings_of_def Let_def split: option.splits)
qed

theorem port_from_environment_is_ignored_witness:
  "\<exists>s. pg_settings_of (JObject [(''host'', JString ''db''), (''port'', JString ''6543'')]) = Some s \<and> ps_port s = 5432"
proof -
  let ?cfg = "\<lparr> cfg_name = ''pg'', cfg_properties = [\<lparr> cp_key = ''host'', cp_value = CfgString ''db'' \<rparr>] @
    \<lparr> cp_key = ''port'', cp_value = CfgEnvVar ''WP_PG_PORT'' (Some ''5432'') \<rparr> # [] \<rparr>"
  let ?env = "\<lambda>k. Some ''6543''"
  have found: "get_config ''pg'' (config_manager_new [?cfg]) = Some ?cfg" by (simp add: get_config_def config_manager_new_def)
  have resolved: "resolve_config_as_json ?env (config_manager_new [?cfg]) ''pg'' =
    Inr (JObject [(''host'', JString ''db''), (''port'', JString ''6543'')])"
    using found by (simp add: resolve_config_as_json_def resolve_config_value_def)
  obtain s where s: "pg_settings_of (JObject [(''host'', JString ''db''), (''port'', JString ''6543'')]) = Some s"
    by (simp add: pg_settings_of_def json_get_def as_str_def Let_def)
  have "ps_port s = 5432"
    by (rule port_from_environment_is_ignored [OF found _ _ resolved s, of "[\<lparr> cp_key = ''host'', cp_value = CfgString ''db'' \<rparr>]"
          "''WP_PG_PORT''" "Some ''5432''" "[]"]) simp_all
  with s show ?thesis by blast
qed

text \<open>User and password cannot break out of their places in the address of the database.\<close>

lemma encoded_is_plain: "c \<in> set (percent_encode s) \<Longrightarrow> is_ascii_alphanumeric c \<or> c = CHR ''%''"
proof -
  have digit: "is_ascii_alphanumeric (hex_digit n)" if "n < 16" for n
    using that by (simp add: hex_digit_def is_ascii_alphanumeric_def is_ascii_alphabetic_def is_ascii_upper_def is_ascii_digit_def)
  have "of_char c' < (256 :: nat)" for c' :: char by simp
  then have "of_char c' div 16 < (16 :: nat)" for c' :: char by (simp add: less_mult_imp_div_less)
  then show "c \<in> set (percent_encode s) \<Longrightarrow> is_ascii_alphanumeric c \<or> c = CHR ''%''"
    using digit by (auto simp: percent_encode_def encode_char_def split: if_splits)
qed

text \<open>A pg block that names a variable that is not set, without a default, is no block at all.\<close>

lemma unset_variable_drops_database:
  "resolve_config_as_json (xl_env lib) (config_manager_new configs) ''pg'' = Inl e \<Longrightarrow>
   from_program_configs co ro lib configs vs = Inr ctx \<Longrightarrow> ac_pg ctx = None"
  by (auto simp: from_program_configs_def connect_pool_def Let_def)

text \<open>A pool size of \<open>2 ^ 32\<close> is a pool without connections.\<close>

lemma pool_size_is_cut:
  "pg_settings_of (JObject [(''host'', JString ''db''), (''maxPoolSize'', JNumber (PosInt 0x100000000))]) = Some s \<Longrightarrow> ps_max s = 0"
  by (auto simp: pg_settings_of_def json_get_def int_field_def as_i64_def as_str_def Let_def)

end
