(* ===== verification/Cli.thy ===== *)
theory Cli
  imports Migrations Test_Runner
begin

text \<open>
  The command line (\<^verbatim>\<open>src/cli.rs\<close>, \<^verbatim>\<open>src/main.rs\<close>, \<^verbatim>\<open>src/scaffold/mod.rs\<close>):
  which mode a command line selects, the environment files, what a script prints and its exit code, the
  address of the server and its rounds of reloading, and the files of a new project. The parser of
  options, the files and the pieces built elsewhere are arguments.
\<close>

section \<open>Modes\<close>

datatype commands =
    InitCommand "string option" bool bool bool
  | MigrateCommand migrate_action

record cli =
  cli_command :: "commands option"
  cli_file :: "string option"
  cli_address :: "string option"
  cli_port :: "u16 option"
  cli_test :: bool
  cli_run :: bool
  cli_serve :: bool
  cli_verbose :: bool
  cli_trace :: bool
  cli_inspect :: bool
  cli_inspect_port :: u16
  cli_script_args :: "string list"

datatype operation_mode =
    InitMode | MigrateMode | AutoMode string | RunMode string | ServeMode string | TestMode string
  | InspectMode string | TestInspectMode string | HelpMode

definition mode :: "cli \<Rightarrow> operation_mode" where
  "mode c =
     (case cli_command c of
        Some (InitCommand _ _ _ _) \<Rightarrow> InitMode
      | Some (MigrateCommand _) \<Rightarrow> MigrateMode
      | None \<Rightarrow>
          (case cli_file c of
             None \<Rightarrow> HelpMode
           | Some f \<Rightarrow>
               if cli_test c \<and> cli_inspect c then TestInspectMode f
               else if cli_inspect c then InspectMode f
               else if cli_test c then TestMode f
               else if cli_serve c \<or> cli_port c \<noteq> None \<or> cli_address c \<noteq> None then ServeMode f
               else if cli_run c then RunMode f
               else AutoMode f))"

definition DEFAULT_LOG_FILTER :: string where
  "DEFAULT_LOG_FILTER = ''webpipe=debug,tower_http=debug''"

definition SCRIPT_LOG_FILTER :: string where
  "SCRIPT_LOG_FILTER = ''webpipe=warn,tower_http=warn''"

definition tracing_filter_for_mode :: "operation_mode \<Rightarrow> string option" where
  "tracing_filter_for_mode md =
     (case md of
        AutoMode _ \<Rightarrow> None
      | InspectMode _ \<Rightarrow> None
      | RunMode _ \<Rightarrow> Some SCRIPT_LOG_FILTER
      | TestMode _ \<Rightarrow> Some SCRIPT_LOG_FILTER
      | TestInspectMode _ \<Rightarrow> Some SCRIPT_LOG_FILTER
      | _ \<Rightarrow> Some DEFAULT_LOG_FILTER)"

section \<open>Script or server\<close>

definition has_main :: "program \<Rightarrow> bool" where
  "has_main prog \<longleftrightarrow> (\<exists>p \<in> set (pr_pipelines prog). np_name p = ''main'')"

datatype launch = LaunchScript program | LaunchServer | LaunchFails string | LaunchExits nat

definition read_program :: "(string \<Rightarrow> string + program) \<Rightarrow> string + string \<Rightarrow> string + program" where
  "read_program parse input =
     (case input of
        Inl e \<Rightarrow> Inl e
      | Inr text \<Rightarrow> (case parse text of Inl e \<Rightarrow> Inl (''Parse error: '' @ e) | Inr prog \<Rightarrow> Inr prog))"

definition auto_mode :: "(string \<Rightarrow> string + program) \<Rightarrow> string + string \<Rightarrow> launch" where
  "auto_mode parse input =
     (case read_program parse input of
        Inl e \<Rightarrow> LaunchFails e
      | Inr prog \<Rightarrow> if has_main prog then LaunchScript prog else LaunchServer)"

definition run_mode :: "(string \<Rightarrow> string + program) \<Rightarrow> bool \<Rightarrow> string + string \<Rightarrow> launch" where
  "run_mode parse require_main input =
     (case read_program parse input of
        Inl e \<Rightarrow> LaunchFails e
      | Inr prog \<Rightarrow> if require_main \<and> \<not> has_main prog then LaunchExits 1 else LaunchScript prog)"

definition inspect_runs_standalone_script :: "program \<Rightarrow> cli \<Rightarrow> bool" where
  "inspect_runs_standalone_script prog c \<longleftrightarrow> \<not> cli_serve c \<and> has_main prog"

section \<open>Environment files\<close>

type_synonym process_env = "string \<rightharpoonup> string"

text \<open>Reading one file of variables into the environment, with or without replacing what is there.\<close>

record dotenv_libs =
  dl_exists :: "string \<Rightarrow> bool"
  dl_from_filename :: "string \<Rightarrow> process_env \<Rightarrow> process_env"
  dl_from_filename_override :: "string \<Rightarrow> process_env \<Rightarrow> process_env"

definition load_env_files :: "dotenv_libs \<Rightarrow> string \<Rightarrow> bool \<Rightarrow> process_env \<Rightarrow> process_env" where
  "load_env_files lib dir override env =
     fold (\<lambda>fname env.
         let p = path_join dir fname
         in if dl_exists lib p then (if override then dl_from_filename_override lib p env else dl_from_filename lib p env)
            else env)
       [''.env'', ''.env.local''] env"

definition env_dir :: "string \<Rightarrow> string" where
  "env_dir file_path = (case path_parent file_path of None \<Rightarrow> ''.'' | Some d \<Rightarrow> d)"

definition point_public_dir :: "string \<Rightarrow> process_env \<Rightarrow> process_env" where
  "point_public_dir dir env =
     (if env ''WEBPIPE_PUBLIC_DIR'' = None then env(''WEBPIPE_PUBLIC_DIR'' \<mapsto> path_join dir ''public'') else env)"

text \<open>The environment that a script runs in, and the one of the server in its first round.\<close>

definition script_env :: "dotenv_libs \<Rightarrow> string \<Rightarrow> process_env \<Rightarrow> process_env" where
  "script_env lib file_path env = point_public_dir (env_dir file_path) (load_env_files lib (env_dir file_path) False env)"

definition round_env :: "dotenv_libs \<Rightarrow> string \<Rightarrow> process_env \<Rightarrow> process_env" where
  "round_env lib file_path env = load_env_files lib (env_dir file_path) True env"

definition serve_env :: "dotenv_libs \<Rightarrow> string \<Rightarrow> process_env \<Rightarrow> process_env" where
  "serve_env lib file_path env = round_env lib file_path (script_env lib file_path env)"

section \<open>What a script prints\<close>

record output_libs =
  ol_pretty :: "json \<Rightarrow> string"
  ol_to_text :: "json \<Rightarrow> string"
  ol_base64_decode :: "string \<Rightarrow> string option"

definition script_output :: "output_libs \<Rightarrow> json \<Rightarrow> string \<Rightarrow> string" where
  "script_output lib result content_type =
     (if starts_with ''text/html'' content_type \<or> starts_with ''image/svg+xml'' content_type then
        (let body = (case as_str result of Some s \<Rightarrow> s | None \<Rightarrow> ol_to_text lib result)
         in if ends_with [CHR 0x0A] body then body else body @ [CHR 0x0A])
      else if starts_with ''image/png'' content_type then
        (let body = (case as_str result of Some s \<Rightarrow> s | None \<Rightarrow> [])
         in case ol_base64_decode lib body of Some b \<Rightarrow> b | None \<Rightarrow> body)
      else ol_pretty lib result @ [CHR 0x0A])"

record run_end =
  re_stdout :: string
  re_stderr :: string
  re_code :: nat

definition failed_with :: "web_pipe_error \<Rightarrow> run_end" where
  "failed_with e = \<lparr> re_stdout = [], re_stderr = display_pipeline_details e @ [CHR 0x0A], re_code = 1 \<rparr>"

definition run_parsed_program ::
  "output_libs \<Rightarrow> web_pipe_error + unit \<Rightarrow> web_pipe_error + json \<times> string \<times> u16 option \<Rightarrow> run_end" where
  "run_parsed_program lib built outcome =
     (case built of
        Inl e \<Rightarrow> failed_with e
      | Inr _ \<Rightarrow>
          (case outcome of
             Inl e \<Rightarrow> failed_with e
           | Inr (result, content_type, status) \<Rightarrow>
               \<lparr> re_stdout = script_output lib result content_type, re_stderr = [],
                 re_code = (if 400 \<le> (case status of None \<Rightarrow> 200 | Some s \<Rightarrow> s) then 1 else 0) \<rparr>))"

section \<open>Tests\<close>

definition outcome_line :: "test_outcome \<Rightarrow> string" where
  "outcome_line t =
     (if to_passed t then ''[PASS] '' @ to_describe t @ '' :: '' @ to_test t
      else ''[FAIL] '' @ to_describe t @ '' :: '' @ to_test t @ '' -> '' @ to_message t)"

definition test_mode_end :: "web_pipe_error + test_summary \<Rightarrow> run_end" where
  "test_mode_end r =
     (case r of
        Inl e \<Rightarrow> \<lparr> re_stdout = [], re_stderr = ''Test runner error: '' @ error_to_string e @ [CHR 0x0A], re_code = 1 \<rparr>
      | Inr s \<Rightarrow>
          \<lparr> re_stdout = concat (map (\<lambda>l. l @ [CHR 0x0A])
              ((''Test Results: '' @ show_nat (su_passed s) @ ''/'' @ show_nat (su_total s) @ '' passed ('' @
                show_nat (su_failed s) @ '' failed)'') # map outcome_line (su_outcomes s))),
            re_stderr = [], re_code = (if su_failed s > 0 then 1 else 0) \<rparr>)"

section \<open>The server and its reloads\<close>

definition bind_address :: "cli \<Rightarrow> process_env \<Rightarrow> string" where
  "bind_address c env =
     (case cli_port c of
        Some port \<Rightarrow> ''127.0.0.1:'' @ show_nat (unat port)
      | None \<Rightarrow>
          (case cli_address c of
             Some addr \<Rightarrow> addr
           | None \<Rightarrow>
               (case env ''PORT'' of
                  Some port \<Rightarrow> ''0.0.0.0:'' @ port
                | None \<Rightarrow> ''127.0.0.1:7770'')))"

datatype serve_event = FileChanged | CtrlC | ServerEnded

text \<open>
  One round: the file as it is read, the server built from it, the watcher, and what ends the round.
\<close>

record serve_round =
  sr_input :: "string + string"
  sr_build :: "program \<Rightarrow> string + unit"
  sr_watch :: "string + unit"
  sr_event :: serve_event

datatype serve_end = ServeStops | ServeFails string | ServeExits nat | StillServing

fun serve_rounds :: "(string \<Rightarrow> string + program) \<Rightarrow> serve_round list \<Rightarrow> serve_end" where
  "serve_rounds parse [] = StillServing"
| "serve_rounds parse (r # rs) =
     (case read_program parse (sr_input r) of
        Inl e \<Rightarrow> ServeFails e
      | Inr prog \<Rightarrow>
          (case sr_build r prog of
             Inl e \<Rightarrow> ServeExits 1
           | Inr _ \<Rightarrow>
               (case sr_watch r of
                  Inl e \<Rightarrow> ServeFails e
                | Inr _ \<Rightarrow>
                    (case sr_event r of
                       ServerEnded \<Rightarrow> ServeStops
                     | CtrlC \<Rightarrow> ServeStops
                     | FileChanged \<Rightarrow> serve_rounds parse rs))))"

section \<open>A new project\<close>

type_synonym project_files = "string \<rightharpoonup> string"

text \<open>A file that is there is left as it is.\<close>

definition generate_ai_file :: "string \<Rightarrow> string \<Rightarrow> string \<Rightarrow> project_files \<Rightarrow> project_files" where
  "generate_ai_file dir name content fs =
     (if fs (path_join dir name) \<noteq> None then fs else fs(path_join dir name \<mapsto> content))"

definition handle_init :: "string \<Rightarrow> string \<Rightarrow> string \<Rightarrow> bool \<Rightarrow> bool \<Rightarrow> bool \<Rightarrow> project_files \<Rightarrow> project_files" where
  "handle_init app_template llm_template dir claude codex gemini fs =
     (let when = (\<lambda>b name fs. if b then generate_ai_file dir name llm_template fs else fs)
      in when gemini ''GEMINI.md'' (when codex ''AGENTS.md'' (when claude ''CLAUDE.md''
           (generate_ai_file dir ''app.wp'' app_template fs))))"

section \<open>What holds\<close>


definition sample_vars :: "string \<Rightarrow> process_env" where
  "sample_vars p = (if p = ''app/.env'' then [''KEY'' \<mapsto> ''env'', ''ONLY'' \<mapsto> ''env'']
     else if p = ''app/.env.local'' then [''KEY'' \<mapsto> ''local''] else Map.empty)"

definition sample_dotenv :: dotenv_libs where
  "sample_dotenv = \<lparr> dl_exists = (\<lambda>p. p = ''app/.env'' \<or> p = ''app/.env.local''),
     dl_from_filename = (\<lambda>p env. sample_vars p ++ env), dl_from_filename_override = (\<lambda>p env. env ++ sample_vars p) \<rparr>"


text \<open>A reload that fails, because the file is missing or does not make a server, ends the process.\<close>

lemma failed_reload_ends_the_server:
  assumes "\<forall>r \<in> set rs. (\<exists>prog. read_program parse (sr_input r) = Inr prog \<and> sr_build r prog = Inr ()) \<and>
      sr_watch r = Inr () \<and> sr_event r = FileChanged"
  shows "read_program parse (sr_input bad) = Inl e \<Longrightarrow> serve_rounds parse (rs @ bad # later) = ServeFails e"
    and "read_program parse (sr_input bad) = Inr prog \<Longrightarrow> sr_build bad prog = Inl e \<Longrightarrow> serve_rounds parse (rs @ bad # later) = ServeExits 1"
  using assms by (induction rs) auto

text \<open>A new project overwrites nothing.\<close>

lemma generate_keeps: "fs p = Some c \<Longrightarrow> generate_ai_file dir name content fs p = Some c"
  by (auto simp: generate_ai_file_def)

lemma generate_creates: "generate_ai_file dir name content fs (path_join dir name) \<noteq> None"
  by (simp add: generate_ai_file_def)

lemma init_overwrites_nothing: "fs p = Some c \<Longrightarrow> handle_init app llm dir a b g fs p = Some c"
  unfolding handle_init_def Let_def by (simp add: generate_keeps)

lemma init_gives_a_program: "\<exists>c. handle_init app llm dir a b g fs (path_join dir ''app.wp'') = Some c"
  using generate_creates [of dir "''app.wp''" app fs] unfolding handle_init_def Let_def
  by (auto simp: generate_keeps)

end
