(* ===== verification/Charts.thy ===== *)
theory Charts
  imports Exec_Env Static_Files Dap_Framing
begin

text \<open>
  The chart middleware (\<^verbatim>\<open>src/middleware/algraf.rs\<close>, \<^verbatim>\<open>src/middleware/gramgraph.rs\<close>):
  how a step's argument becomes the options of a chart, what data the chart can read, and how its bytes
  become the state. The two chart libraries, the reading of options from JSON and base64 are arguments.
\<close>

section \<open>What both share\<close>

definition with_context_expr :: "string \<Rightarrow> string" where
  "with_context_expr expr = ''.context as $context | .state | ('' @ expr @ '')''"

definition chart_config_value ::
  "('l, 'r, 'w) execution_env \<Rightarrow> string \<Rightarrow> json \<Rightarrow> 'w request_context \<Rightarrow> web_pipe_error + json" where
  "chart_config_value env expr state ctx =
     env_jq env (with_context_expr expr) (JObject [(''state'', state), (''context'', context_to_value env ctx)])"

definition value_to_string :: "(json \<Rightarrow> string) \<Rightarrow> json \<Rightarrow> string" where
  "value_to_string to_text v =
     (case v of JString s \<Rightarrow> s | JBool b \<Rightarrow> show_bool b | JNull \<Rightarrow> [] | _ \<Rightarrow> to_text v)"

definition variables_to_strings :: "(json \<Rightarrow> string) \<Rightarrow> (string \<times> json) list \<Rightarrow> (string \<times> string) list" where
  "variables_to_strings to_text vs = map (\<lambda>(k, v). (k, value_to_string to_text v)) vs"

section \<open>Algraf\<close>

datatype data_format = FmtJson | FmtCsv | FmtTsv | FmtNdJson | FmtGeoJson | FmtTopoJson | FmtShapefile | FmtOther string

datatype algraf_output_type = Svg | Png

record algraf_config =
  ag_output_type :: algraf_output_type
  ag_data_format :: string
  ag_data :: "(string \<times> json) list"
  ag_width :: "32 word option"
  ag_height :: "32 word option"
  ag_theme :: "string option"
  ag_interactive :: bool
  ag_strict :: bool
  ag_png_scale :: "32 word option"
  ag_png_dpi :: "32 word option"
  ag_variables :: "(string \<times> json) list"

definition default_for_inline_json :: algraf_config where
  "default_for_inline_json = \<lparr> ag_output_type = Svg, ag_data_format = ''json'', ag_data = [], ag_width = None,
     ag_height = None, ag_theme = None, ag_interactive = False, ag_strict = False, ag_png_scale = None,
     ag_png_dpi = None, ag_variables = [] \<rparr>"

record render_options =
  ro_data_format :: data_format
  ro_width :: "32 word option"
  ro_height :: "32 word option"
  ro_theme :: "string option"
  ro_output_format :: algraf_output_type
  ro_interactive :: bool
  ro_strict :: bool
  ro_png_dpi :: "32 word option"
  ro_png_scale :: "32 word"
  ro_variables :: "(string \<times> string) list"

record diagnostic =
  dg_code :: string
  dg_severity :: string
  dg_message :: string

datatype render_error =
    UsageError string | DriverError string | RenderError string
  | DiagnosticsError "diagnostic list" "string list"

record chart_input =
  ci_input :: string
  ci_files :: "(string \<times> string) list"

record chart_libs =
  ch_algraf_config :: "json \<Rightarrow> string + algraf_config"
  ch_parse_format :: "string \<Rightarrow> string + data_format"
  ch_default_scale :: "32 word"
  ch_render :: "string \<Rightarrow> chart_input \<Rightarrow> render_options \<Rightarrow> render_error + string \<times> string"
  ch_base64 :: "string \<Rightarrow> string"

definition chart_error :: "string \<Rightarrow> web_pipe_error" where
  "chart_error msg = MiddlewareExecutionError msg"

definition render_options_of :: "chart_libs \<Rightarrow> algraf_config \<Rightarrow> web_pipe_error + render_options" where
  "render_options_of lib cfg =
     (case ch_parse_format lib (ag_data_format cfg) of
        Inl e \<Rightarrow> Inl (chart_error (''Invalid Algraf dataFormat: '' @ e))
      | Inr fmt \<Rightarrow>
          Inr \<lparr> ro_data_format = fmt, ro_width = ag_width cfg, ro_height = ag_height cfg, ro_theme = ag_theme cfg,
            ro_output_format = ag_output_type cfg, ro_interactive = ag_interactive cfg, ro_strict = ag_strict cfg,
            ro_png_dpi = ag_png_dpi cfg,
            ro_png_scale = (case ag_png_scale cfg of None \<Rightarrow> ch_default_scale lib | Some s \<Rightarrow> s), ro_variables = [] \<rparr>)"

definition input_bytes_for_format :: "(json \<Rightarrow> string) \<Rightarrow> json \<Rightarrow> data_format \<Rightarrow> web_pipe_error + string" where
  "input_bytes_for_format to_text v fmt =
     (case fmt of
        FmtJson \<Rightarrow> Inr (case v of JString s \<Rightarrow> s | _ \<Rightarrow> to_text v)
      | FmtShapefile \<Rightarrow> Inl (chart_error ''Algraf dataFormat shapefile is not supported for Chart(data: input)'')
      | FmtOther name \<Rightarrow> Inl (chart_error (''Algraf dataFormat '' @ name @ '' is not supported for Chart(data: input)''))
      | _ \<Rightarrow>
          (case as_str v of
             None \<Rightarrow> Inl (chart_error ''Algraf data input must be a string for non-JSON dataFormat'')
           | Some s \<Rightarrow> Inr s))"

text \<open>A name of a data file: relative, and no component but plain names.\<close>

definition virtual_file_path :: "string \<Rightarrow> web_pipe_error + string" where
  "virtual_file_path name =
     (if trim name = [] then Inl (chart_error ''Algraf data file name must not be empty'')
      else if starts_with ''/'' name then Inl (chart_error (''Algraf data file name must be relative: '' @ name))
      else if \<exists>c \<in> set (path_components name). c = ''.'' \<or> c = ''..'' \<or> c = ''/'' then
        Inl (chart_error (''Algraf data file name must stay inside the virtual data map: '' @ name))
      else Inr (path_join ''.'' name))"

definition virtual_file_bytes :: "(json \<Rightarrow> string) \<Rightarrow> json \<Rightarrow> string" where
  "virtual_file_bytes to_text v = (case v of JString s \<Rightarrow> s | _ \<Rightarrow> to_text v)"

fun driver_files :: "(json \<Rightarrow> string) \<Rightarrow> (string \<times> json) list \<Rightarrow> web_pipe_error + (string \<times> string) list" where
  "driver_files to_text [] = Inr []"
| "driver_files to_text ((name, v) # files) =
     (case virtual_file_path name of
        Inl e \<Rightarrow> Inl e
      | Inr path \<Rightarrow>
          (case driver_files to_text files of
             Inl e \<Rightarrow> Inl e
           | Inr rest \<Rightarrow> Inr ((path, virtual_file_bytes to_text v) # rest)))"

definition build_driver_io :: "(json \<Rightarrow> string) \<Rightarrow> string \<Rightarrow> (string \<times> json) list \<Rightarrow> web_pipe_error + chart_input" where
  "build_driver_io to_text input files =
     (case driver_files to_text files of
        Inl e \<Rightarrow> Inl e
      | Inr fs \<Rightarrow> Inr \<lparr> ci_input = input, ci_files = fs \<rparr>)"

definition algraf_error :: "render_error \<Rightarrow> web_pipe_error" where
  "algraf_error e =
     (case e of
        UsageError m \<Rightarrow> chart_error (''Algraf Render Error: '' @ m)
      | DriverError m \<Rightarrow> chart_error (''Algraf Render Error: '' @ m)
      | RenderError m \<Rightarrow> chart_error (''Algraf Render Error: '' @ m)
      | DiagnosticsError ds warnings \<Rightarrow>
          chart_error (''Algraf diagnostics blocked rendering: '' @
            join ''; '' (map (\<lambda>d. dg_code d @ '' '' @ dg_severity d @ '': '' @ dg_message d) ds @
                         map (\<lambda>w. ''warning: '' @ w) warnings)))"

text \<open>The text of a picture: an SVG as it is, a PNG in base64.\<close>

definition algraf_text :: "chart_libs \<Rightarrow> string \<Rightarrow> string \<Rightarrow> web_pipe_error + string" where
  "algraf_text lib content_type bytes =
     (if content_type = ''image/svg+xml'' then
        (if utf8_valid bytes then Inr bytes else Inl (chart_error ''Generated Algraf SVG was not valid UTF-8''))
      else if content_type = ''image/png'' then Inr (ch_base64 lib bytes)
      else Inl (chart_error (''Unsupported Algraf content type: '' @ content_type)))"

definition algraf_config_of ::
  "chart_libs \<Rightarrow> ('l, 'r, 'w) execution_env \<Rightarrow> string list \<Rightarrow> json \<Rightarrow> 'w request_context \<Rightarrow> web_pipe_error + algraf_config" where
  "algraf_config_of lib env args state ctx =
     (case args of
        [] \<Rightarrow> Inr default_for_inline_json
      | expr # _ \<Rightarrow>
          (case chart_config_value env expr state ctx of
             Inl e \<Rightarrow> Inl e
           | Inr v \<Rightarrow>
               (case ch_algraf_config lib v of
                  Inl e \<Rightarrow> Inl (chart_error (''Invalid Algraf config: '' @ e))
                | Inr cfg \<Rightarrow> Inr cfg)))"

definition algraf_render ::
  "chart_libs \<Rightarrow> (json \<Rightarrow> string) \<Rightarrow> algraf_config \<Rightarrow> string \<Rightarrow> json \<Rightarrow> web_pipe_error + string \<times> string" where
  "algraf_render lib to_text cfg source state =
     (case render_options_of lib cfg of
        Inl e \<Rightarrow> Inl e
      | Inr opts \<Rightarrow>
          (case input_bytes_for_format to_text state (ro_data_format opts) of
             Inl e \<Rightarrow> Inl e
           | Inr input \<Rightarrow>
               (case build_driver_io to_text input (ag_data cfg) of
                  Inl e \<Rightarrow> Inl e
                | Inr io \<Rightarrow>
                    (case ch_render lib source io (opts\<lparr>ro_variables := variables_to_strings to_text (ag_variables cfg)\<rparr>) of
                       Inl e \<Rightarrow> Inl (algraf_error e)
                     | Inr (content_type, bytes) \<Rightarrow>
                         (case algraf_text lib content_type bytes of
                            Inl e \<Rightarrow> Inl e
                          | Inr s \<Rightarrow> Inr (content_type, s))))))"

definition algraf_execute ::
  "chart_libs \<Rightarrow> ('l, 'r, 'w) execution_env \<Rightarrow> ('l, 'r, 'w) invoker" where
  "algraf_execute lib env name args config target pc m =
     (case algraf_config_of lib env args (pc_state pc) (mc_ctx m) of
        Inl e \<Rightarrow> (Inl e, pc, m)
      | Inr cfg \<Rightarrow>
          (case algraf_render lib (pl_to_text (env_platform env)) cfg config (pc_state pc) of
             Inl e \<Rightarrow> (Inl e, pc, m)
           | Inr (content_type, s) \<Rightarrow>
               (Inr \<lparr> mo_content_type = Some content_type \<rparr>, pc\<lparr>pc_state := JString s\<rparr>, m)))"

definition algraf_behavior :: state_behavior where
  "algraf_behavior = Transform"

section \<open>GramGraph\<close>

record ('o, 'd, 's) gram_libs =
  gl_config :: "json \<Rightarrow> string + ('o \<times> (string \<times> json) list)"
  gl_default_options :: 'o
  gl_is_png :: "'o \<Rightarrow> bool"
  gl_plot_data :: "json \<Rightarrow> string + 'd"
  gl_expand :: "string \<Rightarrow> (string \<times> string) list \<Rightarrow> string + string"
  gl_parse :: "string \<Rightarrow> string + 's"
  gl_render :: "'s \<Rightarrow> 'd \<Rightarrow> 'o \<Rightarrow> string + string"
  gl_base64 :: "string \<Rightarrow> string"

definition gram_options ::
  "('o, 'd, 's) gram_libs \<Rightarrow> ('l, 'r, 'w) execution_env \<Rightarrow> string list \<Rightarrow> json \<Rightarrow> 'w request_context \<Rightarrow>
   web_pipe_error + 'o \<times> (string \<times> string) list" where
  "gram_options lib env args state ctx =
     (case args of
        [] \<Rightarrow> Inr (gl_default_options lib, [])
      | expr # _ \<Rightarrow>
          (case chart_config_value env expr state ctx of
             Inl e \<Rightarrow> Inl e
           | Inr v \<Rightarrow>
               (case gl_config lib v of
                  Inl e \<Rightarrow> Inl (chart_error (''Invalid GramGraph config: '' @ e))
                | Inr (opts, vs) \<Rightarrow> Inr (opts, variables_to_strings (pl_to_text (env_platform env)) vs))))"

definition gram_text :: "('o, 'd, 's) gram_libs \<Rightarrow> 'o \<Rightarrow> string \<Rightarrow> web_pipe_error + string \<times> string" where
  "gram_text lib opts bytes =
     (if gl_is_png lib opts then Inr (''image/png'', gl_base64 lib bytes)
      else if utf8_valid bytes then Inr (''image/svg+xml'', bytes)
      else Inl (chart_error ''Generated SVG was not valid UTF-8''))"

definition gram_render ::
  "('o, 'd, 's) gram_libs \<Rightarrow> 'o \<Rightarrow> (string \<times> string) list \<Rightarrow> string \<Rightarrow> json \<Rightarrow> web_pipe_error + string \<times> string" where
  "gram_render lib opts vs source state =
     (case gl_plot_data lib state of
        Inl e \<Rightarrow> Inl (chart_error (''Invalid data for GramGraph: '' @ e))
      | Inr d \<Rightarrow>
          (case gl_expand lib source vs of
             Inl e \<Rightarrow> Inl (chart_error (''GramGraph Variable Expansion Error: '' @ e))
           | Inr expanded \<Rightarrow>
               (case gl_parse lib expanded of
                  Inl e \<Rightarrow> Inl (chart_error (''GramGraph DSL Parse Error: '' @ e))
                | Inr spec \<Rightarrow>
                    (case gl_render lib spec d opts of
                       Inl e \<Rightarrow> Inl (chart_error (''GramGraph Render Error: '' @ e))
                     | Inr bytes \<Rightarrow> gram_text lib opts bytes))))"

definition gram_execute :: "('o, 'd, 's) gram_libs \<Rightarrow> ('l, 'r, 'w) execution_env \<Rightarrow> ('l, 'r, 'w) invoker" where
  "gram_execute lib env name args config target pc m =
     (case gram_options lib env args (pc_state pc) (mc_ctx m) of
        Inl e \<Rightarrow> (Inl e, pc, m)
      | Inr (opts, vs) \<Rightarrow>
          (case gram_render lib opts vs config (pc_state pc) of
             Inl e \<Rightarrow> (Inl e, pc, m)
           | Inr (content_type, s) \<Rightarrow>
               (Inr \<lparr> mo_content_type = Some content_type \<rparr>, pc\<lparr>pc_state := JString s\<rparr>, m)))"

definition gram_behavior :: state_behavior where
  "gram_behavior = Transform"

section \<open>What a chart can read\<close>

text \<open>
  The files that a chart is given are the ones its step names, each under its own name below the
  virtual root: no virtual path is absolute or has a parent directory in it.
\<close>

theorem chart_files_stay_inside:
  assumes "driver_files to_text files = Inr fs"
  shows "map fst fs = map (\<lambda>(name, v). ''./'' @ name) files \<and>
    (\<forall>p \<in> set fs. \<not> starts_with ''/'' (fst p) \<and> ''..'' \<notin> set (path_components (fst p)))"
  using assms
proof (induction files arbitrary: fs)
  case Nil
  then show ?case by simp
next
  case (Cons f files)
  obtain name v where f: "f = (name, v)" by (cases f)
  obtain path rest where parts: "virtual_file_path name = Inr path" "driver_files to_text files = Inr rest"
      "fs = (path, virtual_file_bytes to_text v) # rest"
    using Cons.prems f by (auto split: sum.splits)
  have path: "path = ''./'' @ name" "''..'' \<notin> set (path_components name)"
    using parts(1) by (auto simp: virtual_file_path_def path_join_def split: if_splits)
  have "''..'' \<notin> set (path_components (''./'' @ name))"
    using path(2) by (auto simp: path_components_def Let_def starts_with_def split: if_splits)
  then have "\<not> starts_with ''/'' path \<and> ''..'' \<notin> set (path_components path)"
    by (simp add: path(1) starts_with_def)
  then show ?case using Cons.IH [OF parts(2)] parts(3) path(1) f by simp
qed

theorem chart_files_stay_inside_witness:
  "\<exists>fs. driver_files (\<lambda>v. ''{}'') [(''rows.csv'', JString ''a,b''), (''geo/map.json'', JNull)] = Inr fs \<and>
     map fst fs = [''./rows.csv'', ''./geo/map.json'']"
proof -
  have "virtual_file_path ''rows.csv'' = Inr ''./rows.csv''" "virtual_file_path ''geo/map.json'' = Inr ''./geo/map.json''"
    by code_simp+
  then have "\<exists>fs. driver_files (\<lambda>v. ''{}'') [(''rows.csv'', JString ''a,b''), (''geo/map.json'', JNull)] = Inr fs" by simp
  then obtain fs where fs: "driver_files (\<lambda>v. ''{}'') [(''rows.csv'', JString ''a,b''), (''geo/map.json'', JNull)] = Inr fs" by blast
  from chart_files_stay_inside [OF this] fs show ?thesis by simp
qed

end
