(* ===== verification/Engines.thy ===== *)
theory Engines
  imports Middleware_Properties Pg Fetch Handlebars Charts Lua Js
begin

text \<open>
  The registry with the middleware around third-party engines in place (\<^verbatim>\<open>MiddlewareRegistry::with_builtins\<close>,
  \<^verbatim>\<open>src/middleware/mod.rs\<close>): pg, fetch, handlebars and the two chart middleware are
  the models of their own theories. Each provides the contract of the executor whatever its engine
  does, which is what the safety of a run asks of the other middleware. The engine of templates keeps
  its state in the world.
\<close>

record ('w, 'o, 'd, 's) engine_libs =
  el_lower :: "string \<Rightarrow> string"
  el_debug_json :: "json \<Rightarrow> string"
  el_pool :: "'w pg_pool option"
  el_http :: "'w http_client"
  el_hb :: hb_engine
  el_get_hb :: "'w \<Rightarrow> hb_state"
  el_put_hb :: "hb_state \<Rightarrow> 'w \<Rightarrow> 'w"
  el_algraf :: chart_libs
  el_gram :: "('o, 'd, 's) gram_libs"

definition handlebars_run :: "('w, 'o, 'd, 's) engine_libs \<Rightarrow> ('l, 'r, 'w) execution_env \<Rightarrow> ('l, 'r, 'w) mw_execute" where
  "handlebars_run el env args config pc m target =
     (case handlebars_execute (el_hb el) env (mc_ctx m) config pc (el_get_hb el (mc_world m)) of
        (r, pc1, st) \<Rightarrow> (r, pc1, m\<lparr>mc_world := el_put_hb el st (mc_world m)\<rparr>))"

definition engine_middleware ::
  "('w, 'o, 'd, 's) engine_libs \<Rightarrow> (string \<Rightarrow> ('l, 'r, 'w) middleware) \<Rightarrow> ('l, 'r, 'w) execution_env \<Rightarrow>
   string \<Rightarrow> ('l, 'r, 'w) middleware" where
  "engine_middleware el others env name =
     (if name = ''pg'' then
        \<lparr> mw_run = (\<lambda>args config pc m target. pg_execute (el_lower el) (el_pool el) env (el_debug_json el) name args config target pc m),
          mw_behavior = pg_behavior \<rparr>
      else if name = ''fetch'' then
        merging (\<lambda>args config pc m target. fetch_execute (el_http el) env (el_debug_json el) name args config target pc m)
      else if name = ''handlebars'' then \<lparr> mw_run = handlebars_run el env, mw_behavior = handlebars_behavior \<rparr>
      else if name = ''algraf'' \<or> name = ''ag'' then
        \<lparr> mw_run = (\<lambda>args config pc m target. algraf_execute (el_algraf el) env name args config target pc m),
          mw_behavior = algraf_behavior \<rparr>
      else if name = ''gg'' then
        \<lparr> mw_run = (\<lambda>args config pc m target. gram_execute (el_gram el) env name args config target pc m),
          mw_behavior = gram_behavior \<rparr>
      else others name)"

section \<open>Each provides the contract\<close>

interpretation pg_mw: middleware_contract env
  "\<lambda>args config pc m target. pg_execute lower pool env dbg name args config target pc m" for lower pool env dbg name
  by unfold_locales (auto simp: pg_execute_def split: prod.splits if_splits option.splits sum.splits)

interpretation fetch_mw: middleware_contract env
  "\<lambda>args config pc m target. fetch_execute client env dbg name args config target pc m" for client env dbg name
  by unfold_locales (auto simp: fetch_execute_def Let_def split: prod.splits if_splits sum.splits)

interpretation handlebars_mw: middleware_contract env "handlebars_run el env" for el env
  by unfold_locales (auto simp: handlebars_run_def handlebars_execute_def split: prod.splits sum.splits)

interpretation algraf_mw: middleware_contract env
  "\<lambda>args config pc m target. algraf_execute lib env name args config target pc m" for lib env name
  by unfold_locales (auto simp: algraf_execute_def split: prod.splits sum.splits)

interpretation gram_mw: middleware_contract env
  "\<lambda>args config pc m target. gram_execute lib env name args config target pc m" for lib env name
  by unfold_locales (auto simp: gram_execute_def split: prod.splits sum.splits)

lemma engine_contract:
  assumes "\<And>n. middleware_contract env (mw_run (others n))"
  shows "middleware_contract env (mw_run (engine_middleware el others env n))"
proof -
  consider "n = ''pg''" | "n = ''fetch''" | "n = ''handlebars''" | "n = ''algraf''" | "n = ''ag''" | "n = ''gg''"
    | "n \<notin> {''pg'', ''fetch'', ''handlebars'', ''algraf'', ''ag'', ''gg''}" by blast
  then show ?thesis
  proof cases
    case 7
    then show ?thesis using assms [of n] by (simp add: engine_middleware_def)
  qed (simp_all add: engine_middleware_def merging_def pg_mw.middleware_contract_axioms fetch_mw.middleware_contract_axioms
      handlebars_mw.middleware_contract_axioms algraf_mw.middleware_contract_axioms gram_mw.middleware_contract_axioms)
qed

section \<open>Scripts\<close>

text \<open>
  A script that ends keeps what the contract protects as well; unlike a built-in it may set flags and
  conditions, and only these.
\<close>

lemma lua_keeps:
  assumes "lua_execute h fuel env config pc thread m = Some (r, pc1, thread1, m1)"
  shows "rc_async_registry (mc_ctx m1) = rc_async_registry (mc_ctx m) \<and> rc_profiler (mc_ctx m1) = rc_profiler (mc_ctx m) \<and>
    mc_cache m1 = mc_cache m \<and> mc_rate m1 = mc_rate m \<and> pc_cache_hit pc1 = pc_cache_hit pc"
proof -
  have script: "rc_async_registry ctx1 = rc_async_registry ctx \<and> rc_profiler ctx1 = rc_profiler ctx"
    if "execute_lua_script h fuel script input cv g ctx w = Some (r, g1, ctx1, w1)" for script input cv g ctx w r g1 ctx1 w1
  proof -
    let ?flags = "rc_feature_flags ctx" and ?conditions = "rc_conditions ctx"
    let ?run = "\<lambda>ctx. perform h (require_script h ?flags ?conditions fuel) ?flags ?conditions
      (le_chunk (lh_engine h) ''user_script'' script (Some \<lparr> sb_request = json_to_lua input, sb_context = json_to_lua cv \<rparr>) g) ctx w"
    have "\<exists>r0. ?run ctx = Some (r0, g1, ctx1, w1)"
    proof (cases "?run ctx")
      case None
      with that show ?thesis by (simp add: execute_lua_script_def Let_def)
    next
      case (Some x)
      obtain r0 a b c where "x = (r0, a, b, c)" by (cases x)
      with that Some show ?thesis by (cases r0) (simp_all add: execute_lua_script_def Let_def)
    qed
    then obtain r0 where run: "?run ctx = Some (r0, g1, ctx1, w1)" by blast
    have "only_sets ?run" by (rule perform_only_sets) (rule require_only_sets)
    from only_setsD [OF this run] run show ?thesis by (auto simp: set_all_def)
  qed
  show ?thesis using assms by (auto simp: lua_execute_def Let_def dest!: script split: option.splits sum.splits prod.splits)
qed

lemma js_keeps:
  "js_execute h fuel env config pc thread m = Some (r, pc1, thread1, m1) \<Longrightarrow>
   mc_ctx m1 = mc_ctx m \<and> mc_cache m1 = mc_cache m \<and> mc_rate m1 = mc_rate m \<and> pc_cache_hit pc1 = pc_cache_hit pc"
  by (auto simp: js_execute_def split: option.splits sum.splits prod.splits)

text \<open>Whatever a script returns, the value that the pipeline goes on with is well-formed.\<close>

lemma wf_collected: "\<forall>e \<in> set new. wf_json (snd e) \<Longrightarrow> wf_json (JObject (om_insert_all new []))"
  unfolding wf_json_object_iff by (fastforce intro: om_insert_all_wf dest: om_insert_all_values)

lemma lua_to_json_wf: "wf_json (lua_to_json lib d v)"
proof (induction lib d v rule: lua_to_json.induct)
  case (1 lib depth v)
  show ?case
  proof (cases "20 < depth")
    case True
    then show ?thesis by (simp add: lua_to_json.simps [of lib depth])
  next
    case False
    show ?thesis
    proof (cases v)
      case (LuaTable t)
      let ?ps = "lu_pairs lib t"
      have IH: "wf_json (lua_to_json lib (Suc depth) (snd e))" if "e \<in> set ?ps" for e
        using 1 [OF False LuaTable] that by (cases "is_sequence ?ps") auto
      then have "wf_json (JObject (om_insert_all
          (map (\<lambda>e. (lua_key_text lib (fst e), lua_to_json lib (Suc depth) (snd e))) ?ps) []))"
        by (intro wf_collected) auto
      with IH False LuaTable show ?thesis by (simp add: lua_to_json.simps [of lib depth] Let_def del: wf_json.simps(2))
    qed (use False in \<open>simp_all add: lua_to_json.simps [of lib depth] json_of_i64_def\<close>)
  qed
qed

end
