(* ===== verification/Spec2Isabelle.thy ===== *)
theory Spec2Isabelle
  imports Cli_Args Executor_Termination Executor_Properties Executor_Safety Middleware_Properties
    Loader Validate Parser_Total Parser_Properties Server_Names Server_Properties Http_Properties Test_Properties
    Dap_Properties Auth_Properties Migration_Properties Graphql_Properties Handlebars Fetch Js App_Context Cli Charts
    Engines
begin

text \<open>
  A verification library for \<^verbatim>\<open>webpipe\<close>, the runtime of a language in which a web
  server is written as pipelines of steps. The theories follow the sources under
  \<^verbatim>\<open>src/src/\<close>; each opens with the files it models.

  \<^bold>\<open>The program.\<close> A text is parsed (\<^verbatim>\<open>ast/parser.rs\<close>) into a program of routes,
  named pipelines, variables, configurations, GraphQL resolvers and tests. The loader
  (\<^verbatim>\<open>loader.rs\<close>) reads the files it imports. The server (\<^verbatim>\<open>server.rs\<close>) merges the
  modules, builds routers, and turns a request into a JSON value (\<^verbatim>\<open>http/request.rs\<close>) that a
  pipeline rewrites step by step (\<^verbatim>\<open>executor/\<close>). A step is either control flow or a call of
  a middleware from the registry (\<^verbatim>\<open>middleware/\<close>); its result becomes the new state
  (\<^verbatim>\<open>runtime/pipeline_context.rs\<close>), and errors travel as values in the state. Shared by
  all requests are the response cache and the rate limiter (\<^verbatim>\<open>runtime/context.rs\<close>) and the
  database. Tests run pipelines with mocks (\<^verbatim>\<open>test_runner.rs\<close>); a debugger
  (\<^verbatim>\<open>debugger/\<close>) pauses steps from another connection; migrations
  (\<^verbatim>\<open>migrations/mod.rs\<close>) keep the database's schema.

  \<^bold>\<open>Conventions.\<close> A Rust string is the list of its UTF-8 bytes (\<^typ>\<open>string\<close>); offsets are
  byte offsets, as in the code. A JSON value is the datatype of \<^verbatim>\<open>Json_Value\<close>, an object
  the list of its entries in insertion order. Errors are values: \<^verbatim>\<open>Inl\<close> of a sum, with a
  value of its own for a panic where the code can panic. State that the code mutates is passed and
  returned. Integers have their width where the code can overflow. Names are those of the sources,
  with a prefix or suffix where HOL has them already.

  \<^bold>\<open>Foundations.\<close> \<^verbatim>\<open>Prelude\<close> (strings, insertion-ordered maps), \<^verbatim>\<open>Text_Scan\<close>
  (scanning, decimal to IEEE double), \<^verbatim>\<open>Json_Value\<close>, \<^verbatim>\<open>Json_Path\<close> and
  \<^verbatim>\<open>Json_Pointer\<close> (one locale of slots, read and written, for dotted paths and for RFC 6901
  pointers), \<^verbatim>\<open>Errors\<close> (\<^verbatim>\<open>error.rs\<close>).

  \<^bold>\<open>Syntax.\<close> \<^verbatim>\<open>Syntax_Tree\<close> (\<^verbatim>\<open>ast/types.rs\<close>), \<^verbatim>\<open>Fmt\<close>
  (\<^verbatim>\<open>ast/fmt.rs\<close>), \<^verbatim>\<open>Nom\<close> (the combinators the parser takes from its libraries),
  \<^verbatim>\<open>Parser\<close> and \<^verbatim>\<open>Parser_Program\<close>. The parser is defined with fuel, the length
  of the text and a constant; \<^verbatim>\<open>Parser_Total\<close> shows that it is enough: every recursive call
  has consumed input, so the parser returns on every text. \<^verbatim>\<open>Parser_Reads\<close> has the round
  trip of tag expressions, \<^verbatim>\<open>Parser_Properties\<close> what comments and keywords do to their
  neighbours.

  \<^bold>\<open>Execution.\<close> \<^verbatim>\<open>Exec_Env\<close>, \<^verbatim>\<open>Pipeline_State\<close>, \<^verbatim>\<open>Tags\<close>,
  \<^verbatim>\<open>Resolver\<close>, \<^verbatim>\<open>Step\<close> and \<^verbatim>\<open>Executor\<close>: one definition per function
  of \<^verbatim>\<open>executor/\<close>, over a machine state that holds the request context, the cache, the
  rate limiter and what runs in the background. Nested pipelines are run through an argument, and
  \<^verbatim>\<open>Executor\<close> closes the recursion with fuel, one unit per nesting. When named pipelines
  do not call each other in a circle, \<^verbatim>\<open>Executor_Termination\<close> gives a fuel, quadratic in
  the depth of the calls, with which every run returns, and with the same result for any more.
  \<^verbatim>\<open>Executor_Properties\<close>: error short-circuit, error envelopes, foreach, joins, cache
  writes. \<^verbatim>\<open>Executor_Invariants\<close> has the locale \<^verbatim>\<open>run_keeps\<close>: what the
  executor's own updates and every middleware keep, a run keeps; \<^verbatim>\<open>Executor_Safety\<close>
  interprets it for the profiler's stack and the well-formedness of values.

  \<^bold>\<open>Stores and middleware.\<close> \<^verbatim>\<open>Lru\<close> is the contract of the container behind the
  stores, a locale with the model's own list as its instance; \<^verbatim>\<open>Cache_Store\<close> and
  \<^verbatim>\<open>Rate_Limit\<close> are its clients. \<^verbatim>\<open>Builtin_Contract\<close> states what the executor
  needs of a middleware, \<^verbatim>\<open>Middleware\<close> has the registry and the small middleware,
  \<^verbatim>\<open>Assert_Schema\<close>, \<^verbatim>\<open>Validate\<close> and \<^verbatim>\<open>Auth\<close> the larger
  ones; \<^verbatim>\<open>Auth_Properties\<close> shows that sessions begin and end as they should and do not
  touch each other. The middleware around a third-party engine take the engine as an argument:
  \<^verbatim>\<open>Pg\<close>, \<^verbatim>\<open>Fetch\<close>, \<^verbatim>\<open>Handlebars\<close>, \<^verbatim>\<open>Charts\<close>
  and, for the two scripting languages, \<^verbatim>\<open>Lua_Values\<close> and \<^verbatim>\<open>Js_Values\<close> (what a
  JSON value becomes and comes back as) with \<^verbatim>\<open>Lua\<close> and \<^verbatim>\<open>Js\<close>, where a script's
  run is the tree of its calls into the host: what it can see and what it leaves behind. The fuel there
  bounds how deep scripts load each other. \<^verbatim>\<open>Engines\<close> puts these middleware in the
  registry and shows that each keeps its contract. \<^verbatim>\<open>Graphql\<close> resolves fields by pipelines and loads
  keys in batches; \<^verbatim>\<open>Graphql_Properties\<close> says what each key gets.

  \<^bold>\<open>Around the executor.\<close> \<^verbatim>\<open>Loader\<close> (a refinement of derivable loading),
  \<^verbatim>\<open>Config_Manager\<close>, \<^verbatim>\<open>Cli_Args\<close>; \<^verbatim>\<open>Server_Modules\<close>,
  \<^verbatim>\<open>Server_Names\<close>, \<^verbatim>\<open>Server_Flags\<close>, \<^verbatim>\<open>Server\<close>,
  \<^verbatim>\<open>Static_Files\<close>, \<^verbatim>\<open>Http_Request\<close> with their properties; the test runner in
  \<^verbatim>\<open>Test_Mocks\<close>, \<^verbatim>\<open>Test_Conditions\<close>, \<^verbatim>\<open>Test_Runner\<close> and
  \<^verbatim>\<open>Test_Properties\<close>; the debugger in \<^verbatim>\<open>Dap_Protocol\<close>,
  \<^verbatim>\<open>Dap_Framing\<close>, \<^verbatim>\<open>Dap_Server\<close>, with \<^verbatim>\<open>Dap_Session\<close> a
  step relation of client requests interleaved with hooks and its invariant; \<^verbatim>\<open>Migrations\<close>
  and \<^verbatim>\<open>Migration_Properties\<close>, where any statement may be lost; \<^verbatim>\<open>App_Context\<close>
  (the context that a program's configuration gives) and \<^verbatim>\<open>Cli\<close> (modes, environment files,
  exit codes, reloads, the files of a new project).

  \<^bold>\<open>Parameters.\<close> Code that is not part of the repository is an argument of the definitions
  that use it: nom's recognisers, jaq, \<^verbatim>\<open>matchit\<close>'s matching, the texts of foreign errors,
  Unicode tables beyond ASCII, the file system, clocks, random bytes, percent decoding and base64,
  handlebars, the interpreters of Lua and JavaScript, \<^verbatim>\<open>async-graphql\<close>, the HTTP client, the
  chart libraries, regular expressions, selectors of HTML, the text form of JSON, argon2, and of the
  database what its queries do not say. The order in which a hash map is iterated is the list that
  models it. What a theorem needs of such an argument is a hypothesis of the theorem, and its
  witness has an instance.

  \<^bold>\<open>Not modelled.\<close> Logging and progress output; the reading of options by clap; the mechanics of
  futures, of sockets and of signals: a mutex makes an operation one step, and tasks are interleaved only
  where their order can be observed (the debugger).
\<close>

end
